(* ===== verification/Prelude.thy ===== *)
theory Prelude
  imports Main "HOL-Library.Word" "HOL-Library.Monad_Syntax"
begin

unbundle bit_operations_syntax

text \<open>
  The shared vocabulary of the development: names for the C integer types, byte objects
  with checked access, the conversions between integers and the bytes that hold them, and
  the generic lemmas on lists, options and words that the component theories use.

  A C object (a packet buffer, a key, an array of bytes) is a list of bytes; a pointer into
  it is an offset. An access is partial: \<^term>\<open>None\<close> is an access outside the object, which
  the C standard leaves undefined, and every function that may perform one returns an
  option. So a theorem that a function returns \<open>Some\<close> is a memory-safety theorem.
\<close>

section \<open>Integer types\<close>

type_synonym u8 = "8 word"
type_synonym u16 = "16 word"
type_synonym u32 = "32 word"
type_synonym u64 = "64 word"
type_synonym bytes = "8 word list"

text \<open>Offsets are sums with numerals; keep them in that form.\<close>

declare add_2_eq_Suc [simp del] add_2_eq_Suc' [simp del]

named_theorems mem_simps \<open>facts on reading and writing byte objects\<close>
named_theorems bytes_simps \<open>facts on integers and the bytes that hold them\<close>
named_theorems bits_of \<open>the bits of an integer built from bytes\<close>

section \<open>Checked access to byte objects\<close>

definition rd :: "bytes \<Rightarrow> nat \<Rightarrow> u8 option" where
  "rd m i = (if i < length m then Some (m ! i) else None)"

definition wr :: "bytes \<Rightarrow> nat \<Rightarrow> u8 \<Rightarrow> bytes option" where
  "wr m i v = (if i < length m then Some (m[i := v]) else None)"

definition rdn :: "bytes \<Rightarrow> nat \<Rightarrow> nat \<Rightarrow> bytes option" where
  "rdn m i n = (if i + n \<le> length m then Some (take n (drop i m)) else None)"

definition wrn :: "bytes \<Rightarrow> nat \<Rightarrow> bytes \<Rightarrow> bytes option" where
  "wrn m i bs = (if i + length bs \<le> length m
     then Some (take i m @ bs @ drop (i + length bs) m) else None)"

text \<open>A C string argument is a byte list without its terminating NUL.\<close>

definition c_string :: "string \<Rightarrow> bytes" where
  "c_string s = map (\<lambda>c. of_nat (of_char c)) s"

text \<open>The decimal digits that the formats \<open>%u\<close> and \<open>%d\<close> print.\<close>

fun decimal :: "nat \<Rightarrow> bytes" where
  "decimal n = (if n < 10 then [of_nat (48 + n)] else decimal (n div 10) @ [of_nat (48 + n mod 10)])"

declare decimal.simps [simp del]

lemma rd_Some_iff [mem_simps]: "rd m i = Some v \<longleftrightarrow> i < length m \<and> m ! i = v"
  by (auto simp: rd_def)

lemma rd_None_iff [mem_simps]: "rd m i = None \<longleftrightarrow> length m \<le> i"
  by (auto simp: rd_def)

lemma rd_append [mem_simps]:
  "rd (a @ b) i = (if i < length a then rd a i else rd b (i - length a))"
  by (auto simp: rd_def nth_append)

lemma wr_Some_iff [mem_simps]: "wr m i v = Some m' \<longleftrightarrow> i < length m \<and> m' = m[i := v]"
  by (auto simp: wr_def)

lemma wr_eq_wrn: "wr m i v = wrn m i [v]"
  by (auto simp: wr_def wrn_def upd_conv_take_nth_drop)

lemma rdn_length: "rdn m i n = Some bs \<Longrightarrow> length bs = n"
  by (auto simp: rdn_def split: if_splits)

lemma rdn_Some_iff [mem_simps]:
  "rdn m i n = Some bs \<longleftrightarrow> i + n \<le> length m \<and> bs = take n (drop i m)"
  by (auto simp: rdn_def)

text \<open>A block read is the concatenation of the reads of its parts.\<close>

lemma rdn_split:
  "rdn m p (a + b) = Some bs \<Longrightarrow> rdn m p a = Some (take a bs)"
  "rdn m p (a + b) = Some bs \<Longrightarrow> rdn m (p + a) b = Some (drop a bs)"
  "rdn m p a = Some v \<Longrightarrow> p + (a + b) \<le> length m \<Longrightarrow>
     rdn m p (a + b) = Some (v @ take b (drop (p + a) m))"
  by (auto simp: rdn_def take_add add.commute drop_take split: if_splits)

lemma rdn_append_split:
  assumes "rdn m p n = Some (v @ w)" and "length v = a" and "length w = b"
  shows "rdn m p a = Some v" and "rdn m (p + a) b = Some w"
proof -
  from assms have "n = a + b" by (auto dest: rdn_length)
  with assms(1) have s: "rdn m p (a + b) = Some (v @ w)" by simp
  show "rdn m p a = Some v" "rdn m (p + a) b = Some w"
    using rdn_split(1,2) [OF s] assms(2) by simp_all
qed

lemma wrn_length: "wrn m i bs = Some m' \<Longrightarrow> length m' = length m"
  by (auto simp: wrn_def split: if_splits)

lemma wrn_Some_iff [mem_simps]:
  "wrn m i bs = Some m' \<longleftrightarrow>
     i + length bs \<le> length m \<and> m' = take i m @ bs @ drop (i + length bs) m"
  by (auto simp: wrn_def)

lemma rdn_wrn_same: "wrn m i bs = Some m' \<Longrightarrow> rdn m' i (length bs) = Some bs"
  by (auto simp: wrn_def rdn_def split: if_splits)

lemma rdn_wrn_before:
  assumes "wrn m i bs = Some m'" and "j + n \<le> i"
  shows "rdn m' j n = rdn m j n"
  using assms by (auto simp: wrn_def rdn_def take_drop min_def split: if_splits)

lemma rd_wrn_before: "wrn m i bs = Some m' \<Longrightarrow> j < i \<Longrightarrow> rd m' j = rd m j"
  by (auto simp: wrn_def rd_def nth_append split: if_splits)

lemma take_wrn: "wrn m i bs = Some m' \<Longrightarrow> j \<le> i \<Longrightarrow> take j m' = take j m"
  by (auto simp: wrn_def min_def split: if_splits)

lemma drop_wrn: "wrn m i bs = Some m' \<Longrightarrow> i + length bs \<le> j \<Longrightarrow> drop j m' = drop j m"
  by (auto simp: wrn_def split: if_splits)

text \<open>What a write that stays inside the object leaves behind, position by position.\<close>

definition put :: "bytes \<Rightarrow> nat \<Rightarrow> bytes \<Rightarrow> bytes" where
  "put m i bs = take i m @ bs @ drop (i + length bs) m"

lemma wrn_put: "i + length bs \<le> length m \<Longrightarrow> wrn m i bs = Some (put m i bs)"
  by (simp add: wrn_def put_def)

lemma wr_put: "i < length m \<Longrightarrow> wr m i v = Some (put m i [v])"
  by (simp add: wr_eq_wrn wrn_put)

lemma length_put [simp]: "i + length bs \<le> length m \<Longrightarrow> length (put m i bs) = length m"
  by (simp add: put_def)

lemma nth_put:
  "i + length bs \<le> length m \<Longrightarrow> j < length m \<Longrightarrow>
     put m i bs ! j = (if i \<le> j \<and> j < i + length bs then bs ! (j - i) else m ! j)"
  by (auto simp: put_def nth_append min_def)

lemma put_Nil [simp]: "put m i [] = m"
  by (simp add: put_def)

lemma take_drop_put_same:
  "i + length bs \<le> length m \<Longrightarrow> n = length bs \<Longrightarrow> take n (drop i (put m i bs)) = bs"
  by (simp add: put_def)

lemma take_put: "j \<le> i \<Longrightarrow> i \<le> length m \<Longrightarrow> take j (put m i bs) = take j m"
  by (simp add: put_def min_def)

lemma take_drop_put_other:
  assumes "i + length bs \<le> length m" and "j + n \<le> i \<or> i + length bs \<le> j" and "j + n \<le> length m"
  shows "take n (drop j (put m i bs)) = take n (drop j m)"
  by (rule nth_equalityI) (use assms in \<open>auto simp: nth_put\<close>)

section \<open>Integers and their bytes\<close>

text \<open>
  The host is little-endian, as every Android ABI is: \<open>htonl\<close> and \<open>htons\<close> swap bytes, and
  copying an integer into memory writes its least significant byte first.
\<close>

definition be16 :: "u8 \<Rightarrow> u8 \<Rightarrow> u16" where
  "be16 a b = push_bit 8 (ucast a) OR ucast b"

definition be16_bytes :: "u16 \<Rightarrow> bytes" where
  "be16_bytes v = [ucast (drop_bit 8 v), ucast (v AND 0xff)]"

definition le32 :: "u8 \<Rightarrow> u8 \<Rightarrow> u8 \<Rightarrow> u8 \<Rightarrow> u32" where
  "le32 a b c d = ucast a OR push_bit 8 (ucast b) OR push_bit 16 (ucast c) OR push_bit 24 (ucast d)"

definition host_bytes16 :: "u16 \<Rightarrow> bytes" where
  "host_bytes16 v = [ucast v, ucast (drop_bit 8 v)]"

definition host_bytes32 :: "u32 \<Rightarrow> bytes" where
  "host_bytes32 v = [ucast v, ucast (drop_bit 8 v), ucast (drop_bit 16 v), ucast (drop_bit 24 v)]"

definition be32_bytes :: "u32 \<Rightarrow> bytes" where
  "be32_bytes v = [ucast (drop_bit 24 v), ucast (drop_bit 16 v), ucast (drop_bit 8 v), ucast v]"

definition htons :: "u16 \<Rightarrow> u16" where
  "htons v = push_bit 8 v OR drop_bit 8 v"

definition htonl :: "u32 \<Rightarrow> u32" where
  "htonl v = le32 (ucast (drop_bit 24 v)) (ucast (drop_bit 16 v)) (ucast (drop_bit 8 v)) (ucast v)"

definition of_host_bytes32 :: "bytes \<Rightarrow> u32" where
  "of_host_bytes32 bs = le32 (bs ! 0) (bs ! 1) (bs ! 2) (bs ! 3)"

lemma length_bytes_of [simp]:
  "length (be16_bytes v) = 2" "length (host_bytes16 v) = 2"
  "length (host_bytes32 w) = 4" "length (be32_bytes w) = 4"
  by (simp_all add: be16_bytes_def host_bytes16_def host_bytes32_def be32_bytes_def)

text \<open>Bit by bit, the equations below are case distinctions on the byte a bit lies in.\<close>

lemma bit_255 [simp]: "bit (255::int) n \<longleftrightarrow> n < 8"
proof -
  have mask: "(255::int) = mask 8" by (simp add: mask_eq_exp_minus_1)
  show ?thesis unfolding mask by (simp only: bit_mask_iff possible_bit_int) simp
qed

lemma unat_drop_bit: "unat (drop_bit k w) = unat w div 2 ^ k" for w :: "'a::len word"
  by (simp only: unat_drop_bit_eq) (simp add: drop_bit_eq_div)

lemma bit_unat_less_exp: "unat w < 2 ^ k \<Longrightarrow> bit w n \<Longrightarrow> n < k" for w :: "'a::len word"
proof -
  assume "unat w < 2 ^ k" and "bit w n"
  then have "take_bit k w = w"
    by (simp add: word_unat_eq_iff unsigned_take_bit_eq take_bit_nat_eq_self)
  with \<open>bit w n\<close> show "n < k" by (metis bit_take_bit_iff)
qed

lemma bit_be16 [bits_of]:
  "bit (be16 a b) n \<longleftrightarrow> (if n < 8 then bit b n else n < 16 \<and> bit a (n - 8))"
  by (cases "n < 8") (auto simp: be16_def bit_simps dest: bit_imp_le_length)

lemma bit_htons [bits_of]:
  "bit (htons v) n \<longleftrightarrow> (if n < 8 then bit v (n + 8) else n < 16 \<and> bit v (n - 8))"
  by (cases "n < 8") (auto simp: htons_def bit_simps ac_simps dest: bit_imp_le_length)

lemma bit_le32 [bits_of]:
  "bit (le32 a b c d) n \<longleftrightarrow>
     (if n < 8 then bit a n else if n < 16 then bit b (n - 8)
      else if n < 24 then bit c (n - 16) else n < 32 \<and> bit d (n - 24))"
proof -
  consider "n < 8" | "8 \<le> n" "n < 16" | "16 \<le> n" "n < 24" | "24 \<le> n" by linarith
  then show ?thesis
    by cases (auto simp: le32_def bit_simps dest: bit_imp_le_length)
qed

lemma bit_htonl [bits_of]:
  "bit (htonl v) n \<longleftrightarrow>
     (if n < 8 then bit v (n + 24) else if n < 16 then bit v (n + 8)
      else if n < 24 then bit v (n - 8) else n < 32 \<and> bit v (n - 24))"
  by (auto simp: htonl_def bits_of bit_simps ac_simps)

lemma be16_be16_bytes [bytes_simps]: "be16 (ucast (drop_bit 8 v)) (ucast (v AND 255)) = v"
  by (rule bit_word_eqI) (auto simp: bits_of bit_simps)

lemma htons_bytes [bytes_simps]: "host_bytes16 (htons v) = be16_bytes v"
  by (auto simp: host_bytes16_def be16_bytes_def bits_of bit_simps ac_simps intro!: bit_word_eqI)

lemma htonl_bytes [bytes_simps]: "host_bytes32 (htonl v) = be32_bytes v"
  by (auto simp: host_bytes32_def be32_bytes_def bits_of bit_simps ac_simps intro!: bit_word_eqI)

lemma htonl_htonl [simp]: "htonl (htonl v) = v"
  by (rule bit_word_eqI) (auto simp: bits_of)

lemma htons_htons [simp]: "htons (htons v) = v"
  by (rule bit_word_eqI) (auto simp: bits_of)

lemma of_host_bytes32_host_bytes32 [bytes_simps]: "of_host_bytes32 (host_bytes32 v) = v"
  by (rule bit_word_eqI) (auto simp: of_host_bytes32_def host_bytes32_def bits_of bit_simps)

lemma of_host_bytes32_be32_bytes [bytes_simps]: "of_host_bytes32 (be32_bytes v) = htonl v"
  by (simp add: of_host_bytes32_def be32_bytes_def htonl_def)

section \<open>Lists and options\<close>

lemma bind_SomeE:
  assumes "Option.bind x f = Some y"
  obtains z where "x = Some z" "f z = Some y"
  using assms by (cases x) auto

lemma take_drop_append_split:
  "i \<le> j \<Longrightarrow> j \<le> length xs \<Longrightarrow> take i xs @ take (j - i) (drop i xs) = take j xs"
  by (metis le_add_diff_inverse take_add)

end
