(* ===== verification/Stun_Types.thy ===== *)
theory Stun_Types
  imports Prelude
begin

unbundle bit_operations_syntax

text \<open>
  The data of the STUN library, from \<open>stun/constants.h\<close>, \<open>stun/stunmessage.h\<close> and
  \<open>stun/stunagent.h\<close>: the layout constants, the message classes, the attribute and error
  numbers, return codes, socket addresses, messages and agents.

  Numbers that travel on the wire and have aliases in the C enumerations (attributes,
  methods, error codes) are words or naturals with named constants; closed enumerations are
  datatypes. A \<open>size_t\<close> is a natural number: it always is the size of, or an offset into, an
  object of the model.
\<close>

section \<open>Layout constants\<close>

abbreviation (input) STUN_MESSAGE_LENGTH_POS :: nat where "STUN_MESSAGE_LENGTH_POS \<equiv> 2"
abbreviation (input) STUN_MESSAGE_LENGTH_LEN :: nat where "STUN_MESSAGE_LENGTH_LEN \<equiv> 2"
abbreviation (input) STUN_MESSAGE_TRANS_ID_POS :: nat where "STUN_MESSAGE_TRANS_ID_POS \<equiv> 4"
abbreviation (input) STUN_MESSAGE_TRANS_ID_LEN :: nat where "STUN_MESSAGE_TRANS_ID_LEN \<equiv> 16"
abbreviation (input) STUN_MESSAGE_ATTRIBUTES_POS :: nat where "STUN_MESSAGE_ATTRIBUTES_POS \<equiv> 20"
abbreviation (input) STUN_MESSAGE_HEADER_LENGTH :: nat where "STUN_MESSAGE_HEADER_LENGTH \<equiv> 20"
abbreviation (input) STUN_ATTRIBUTE_TYPE_LEN :: nat where "STUN_ATTRIBUTE_TYPE_LEN \<equiv> 2"
abbreviation (input) STUN_ATTRIBUTE_VALUE_POS :: nat where "STUN_ATTRIBUTE_VALUE_POS \<equiv> 4"
abbreviation (input) STUN_ATTRIBUTE_HEADER_LENGTH :: nat where "STUN_ATTRIBUTE_HEADER_LENGTH \<equiv> 4"
abbreviation (input) STUN_AGENT_MAX_SAVED_IDS :: nat where "STUN_AGENT_MAX_SAVED_IDS \<equiv> 200"
abbreviation (input) STUN_AGENT_MAX_UNKNOWN_ATTRIBUTES :: nat where
  "STUN_AGENT_MAX_UNKNOWN_ATTRIBUTES \<equiv> 256"
abbreviation (input) STUN_MAGIC_COOKIE :: u32 where "STUN_MAGIC_COOKIE \<equiv> 0x2112A442"
abbreviation (input) TURN_MAGIC_COOKIE :: u32 where "TURN_MAGIC_COOKIE \<equiv> 0x72c64bc6"

section \<open>Message classes, methods and attributes\<close>

datatype stun_class = STUN_REQUEST | STUN_INDICATION | STUN_RESPONSE | STUN_ERROR

fun class_val :: "stun_class \<Rightarrow> u32" where
  "class_val STUN_REQUEST = 0"
| "class_val STUN_INDICATION = 1"
| "class_val STUN_RESPONSE = 2"
| "class_val STUN_ERROR = 3"

text \<open>The cast of a two-bit value to \<open>StunClass\<close>.\<close>

definition class_of_val :: "u32 \<Rightarrow> stun_class" where
  "class_of_val v = (if v = 0 then STUN_REQUEST else if v = 1 then STUN_INDICATION
     else if v = 2 then STUN_RESPONSE else STUN_ERROR)"

lemma class_of_val_class_val [simp]: "class_of_val (class_val c) = c"
  by (cases c) (simp_all add: class_of_val_def)

type_synonym stun_method = u32

abbreviation (input) STUN_BINDING :: stun_method where "STUN_BINDING \<equiv> 0x001"
abbreviation (input) STUN_SHARED_SECRET :: stun_method where "STUN_SHARED_SECRET \<equiv> 0x002"
abbreviation (input) STUN_ALLOCATE :: stun_method where "STUN_ALLOCATE \<equiv> 0x003"
abbreviation (input) STUN_REFRESH :: stun_method where "STUN_REFRESH \<equiv> 0x004"
abbreviation (input) STUN_SEND :: stun_method where "STUN_SEND \<equiv> 0x004"
abbreviation (input) STUN_CONNECT :: stun_method where "STUN_CONNECT \<equiv> 0x005"
abbreviation (input) STUN_IND_SEND :: stun_method where "STUN_IND_SEND \<equiv> 0x006"
abbreviation (input) STUN_IND_DATA :: stun_method where "STUN_IND_DATA \<equiv> 0x007"
abbreviation (input) STUN_CREATEPERMISSION :: stun_method where "STUN_CREATEPERMISSION \<equiv> 0x008"
abbreviation (input) STUN_CHANNELBIND :: stun_method where "STUN_CHANNELBIND \<equiv> 0x009"

type_synonym stun_attribute = u16

abbreviation (input) STUN_ATTRIBUTE_MAPPED_ADDRESS :: u16 where "STUN_ATTRIBUTE_MAPPED_ADDRESS \<equiv> 0x0001"
abbreviation (input) STUN_ATTRIBUTE_CHANGE_REQUEST :: u16 where "STUN_ATTRIBUTE_CHANGE_REQUEST \<equiv> 0x0003"
abbreviation (input) STUN_ATTRIBUTE_USERNAME :: u16 where "STUN_ATTRIBUTE_USERNAME \<equiv> 0x0006"
abbreviation (input) STUN_ATTRIBUTE_MESSAGE_INTEGRITY :: u16 where
  "STUN_ATTRIBUTE_MESSAGE_INTEGRITY \<equiv> 0x0008"
abbreviation (input) STUN_ATTRIBUTE_ERROR_CODE :: u16 where "STUN_ATTRIBUTE_ERROR_CODE \<equiv> 0x0009"
abbreviation (input) STUN_ATTRIBUTE_UNKNOWN_ATTRIBUTES :: u16 where
  "STUN_ATTRIBUTE_UNKNOWN_ATTRIBUTES \<equiv> 0x000A"
abbreviation (input) STUN_ATTRIBUTE_LIFETIME :: u16 where "STUN_ATTRIBUTE_LIFETIME \<equiv> 0x000D"
abbreviation (input) STUN_ATTRIBUTE_MS_ALTERNATE_SERVER :: u16 where
  "STUN_ATTRIBUTE_MS_ALTERNATE_SERVER \<equiv> 0x000E"
abbreviation (input) STUN_ATTRIBUTE_MAGIC_COOKIE :: u16 where "STUN_ATTRIBUTE_MAGIC_COOKIE \<equiv> 0x000F"
abbreviation (input) STUN_ATTRIBUTE_BANDWIDTH :: u16 where "STUN_ATTRIBUTE_BANDWIDTH \<equiv> 0x0010"
abbreviation (input) STUN_ATTRIBUTE_DESTINATION_ADDRESS :: u16 where
  "STUN_ATTRIBUTE_DESTINATION_ADDRESS \<equiv> 0x0011"
abbreviation (input) STUN_ATTRIBUTE_XOR_PEER_ADDRESS :: u16 where
  "STUN_ATTRIBUTE_XOR_PEER_ADDRESS \<equiv> 0x0012"
abbreviation (input) STUN_ATTRIBUTE_DATA :: u16 where "STUN_ATTRIBUTE_DATA \<equiv> 0x0013"
abbreviation (input) STUN_ATTRIBUTE_REALM :: u16 where "STUN_ATTRIBUTE_REALM \<equiv> 0x0014"
abbreviation (input) STUN_ATTRIBUTE_NONCE :: u16 where "STUN_ATTRIBUTE_NONCE \<equiv> 0x0015"
abbreviation (input) STUN_ATTRIBUTE_RELAY_ADDRESS :: u16 where "STUN_ATTRIBUTE_RELAY_ADDRESS \<equiv> 0x0016"
abbreviation (input) STUN_ATTRIBUTE_REQUESTED_PROPS :: u16 where
  "STUN_ATTRIBUTE_REQUESTED_PROPS \<equiv> 0x0018"
abbreviation (input) STUN_ATTRIBUTE_REQUESTED_TRANSPORT :: u16 where
  "STUN_ATTRIBUTE_REQUESTED_TRANSPORT \<equiv> 0x0019"
abbreviation (input) STUN_ATTRIBUTE_XOR_MAPPED_ADDRESS :: u16 where
  "STUN_ATTRIBUTE_XOR_MAPPED_ADDRESS \<equiv> 0x0020"
abbreviation (input) STUN_ATTRIBUTE_RESERVATION_TOKEN :: u16 where
  "STUN_ATTRIBUTE_RESERVATION_TOKEN \<equiv> 0x0022"
abbreviation (input) STUN_ATTRIBUTE_PRIORITY :: u16 where "STUN_ATTRIBUTE_PRIORITY \<equiv> 0x0024"
abbreviation (input) STUN_ATTRIBUTE_USE_CANDIDATE :: u16 where "STUN_ATTRIBUTE_USE_CANDIDATE \<equiv> 0x0025"
abbreviation (input) STUN_ATTRIBUTE_OPTIONS :: u16 where "STUN_ATTRIBUTE_OPTIONS \<equiv> 0x8001"
abbreviation (input) STUN_ATTRIBUTE_MS_VERSION :: u16 where "STUN_ATTRIBUTE_MS_VERSION \<equiv> 0x8008"
abbreviation (input) STUN_ATTRIBUTE_MS_XOR_MAPPED_ADDRESS :: u16 where
  "STUN_ATTRIBUTE_MS_XOR_MAPPED_ADDRESS \<equiv> 0x8020"
abbreviation (input) STUN_ATTRIBUTE_SOFTWARE :: u16 where "STUN_ATTRIBUTE_SOFTWARE \<equiv> 0x8022"
abbreviation (input) STUN_ATTRIBUTE_ALTERNATE_SERVER :: u16 where
  "STUN_ATTRIBUTE_ALTERNATE_SERVER \<equiv> 0x8023"
abbreviation (input) STUN_ATTRIBUTE_FINGERPRINT :: u16 where "STUN_ATTRIBUTE_FINGERPRINT \<equiv> 0x8028"
abbreviation (input) STUN_ATTRIBUTE_ICE_CONTROLLED :: u16 where "STUN_ATTRIBUTE_ICE_CONTROLLED \<equiv> 0x8029"
abbreviation (input) STUN_ATTRIBUTE_ICE_CONTROLLING :: u16 where
  "STUN_ATTRIBUTE_ICE_CONTROLLING \<equiv> 0x802A"
abbreviation (input) STUN_ATTRIBUTE_CANDIDATE_IDENTIFIER :: u16 where
  "STUN_ATTRIBUTE_CANDIDATE_IDENTIFIER \<equiv> 0x8054"

text \<open>The zero-terminated tables of attributes an application may claim to understand.\<close>

definition STUN_ALL_KNOWN_ATTRIBUTES :: "u16 list" where
  "STUN_ALL_KNOWN_ATTRIBUTES =
    [0x0001, 0x0002, 0x0003, 0x0004, 0x0005, 0x0006, 0x0007, 0x0008, 0x0009, 0x000A, 0x000B,
     0x000C, 0x000D, 0x000F, 0x0010, 0x0011, 0x0012, 0x0012, 0x0012, 0x0013, 0x0014, 0x0015,
     0x0016, 0x0016, 0x0016, 0x0017, 0x0018, 0x0018, 0x0018, 0x0019, 0x001A, 0x0020, 0x0021,
     0x0022, 0x0022, 0x0023, 0x0024, 0x0025, 0]"

definition STUN_MSOC_KNOWN_ATTRIBUTES :: "u16 list" where
  "STUN_MSOC_KNOWN_ATTRIBUTES =
    [0x0001, 0x0006, 0x0008, 0x0009, 0x000A, 0x000D, 0x000E, 0x000F, 0x0010, 0x0011, 0x0012,
     0x0013, 0x0015, 0x0014, 0]"

section \<open>Return codes\<close>

datatype stun_return =
    STUN_MESSAGE_RETURN_SUCCESS
  | STUN_MESSAGE_RETURN_NOT_FOUND
  | STUN_MESSAGE_RETURN_INVALID
  | STUN_MESSAGE_RETURN_NOT_ENOUGH_SPACE
  | STUN_MESSAGE_RETURN_UNSUPPORTED_ADDRESS

datatype stun_validation =
    STUN_VALIDATION_SUCCESS
  | STUN_VALIDATION_NOT_STUN
  | STUN_VALIDATION_INCOMPLETE_STUN
  | STUN_VALIDATION_BAD_REQUEST
  | STUN_VALIDATION_UNAUTHORIZED_BAD_REQUEST
  | STUN_VALIDATION_UNAUTHORIZED
  | STUN_VALIDATION_UNMATCHED_RESPONSE
  | STUN_VALIDATION_UNKNOWN_REQUEST_ATTRIBUTE
  | STUN_VALIDATION_UNKNOWN_ATTRIBUTE

text \<open>
  The result of the buffer-length checks: \<open>STUN_MESSAGE_BUFFER_INVALID\<close> is -1,
  \<open>STUN_MESSAGE_BUFFER_INCOMPLETE\<close> is 0 and a valid buffer gives the message length.
\<close>

abbreviation (input) STUN_MESSAGE_BUFFER_INVALID :: int where "STUN_MESSAGE_BUFFER_INVALID \<equiv> - 1"
abbreviation (input) STUN_MESSAGE_BUFFER_INCOMPLETE :: int where "STUN_MESSAGE_BUFFER_INCOMPLETE \<equiv> 0"

abbreviation (input) STUN_MAX_MESSAGE_SIZE :: nat where "STUN_MAX_MESSAGE_SIZE \<equiv> 65552"

section \<open>Socket addresses\<close>

text \<open>
  Ports and IPv4 addresses are held in network byte order, as in the C structures; the sizes
  are those of Linux and Android.
\<close>

record sockaddr_in =
  sin_port :: u16
  sin_addr :: u32

record sockaddr_in6 =
  sin6_port :: u16
  sin6_flowinfo :: u32
  sin6_addr :: bytes
  sin6_scope_id :: u32

datatype sockaddr = AF_INET sockaddr_in | AF_INET6 sockaddr_in6 | AF_OTHER u16

abbreviation (input) sizeof_sockaddr :: nat where "sizeof_sockaddr \<equiv> 16"
abbreviation (input) sizeof_sockaddr_in :: nat where "sizeof_sockaddr_in \<equiv> 16"
abbreviation (input) sizeof_sockaddr_in6 :: nat where "sizeof_sockaddr_in6 \<equiv> 28"
abbreviation (input) sizeof_sockaddr_storage :: nat where "sizeof_sockaddr_storage \<equiv> 128"

fun wf_sockaddr :: "sockaddr \<Rightarrow> bool" where
  "wf_sockaddr (AF_INET6 a) \<longleftrightarrow> length (sin6_addr a) = 16"
| "wf_sockaddr _ \<longleftrightarrow> True"

section \<open>Agents and messages\<close>

datatype stun_compat =
    STUN_COMPATIBILITY_RFC3489
  | STUN_COMPATIBILITY_RFC5389
  | STUN_COMPATIBILITY_WLM2009
  | STUN_COMPATIBILITY_OC2007

abbreviation (input) STUN_AGENT_USAGE_SHORT_TERM_CREDENTIALS :: u32 where
  "STUN_AGENT_USAGE_SHORT_TERM_CREDENTIALS \<equiv> 1"
abbreviation (input) STUN_AGENT_USAGE_LONG_TERM_CREDENTIALS :: u32 where
  "STUN_AGENT_USAGE_LONG_TERM_CREDENTIALS \<equiv> 2"
abbreviation (input) STUN_AGENT_USAGE_USE_FINGERPRINT :: u32 where
  "STUN_AGENT_USAGE_USE_FINGERPRINT \<equiv> 4"
abbreviation (input) STUN_AGENT_USAGE_ADD_SOFTWARE :: u32 where "STUN_AGENT_USAGE_ADD_SOFTWARE \<equiv> 8"
abbreviation (input) STUN_AGENT_USAGE_IGNORE_CREDENTIALS :: u32 where
  "STUN_AGENT_USAGE_IGNORE_CREDENTIALS \<equiv> 16"
abbreviation (input) STUN_AGENT_USAGE_NO_INDICATION_AUTH :: u32 where
  "STUN_AGENT_USAGE_NO_INDICATION_AUTH \<equiv> 32"
abbreviation (input) STUN_AGENT_USAGE_FORCE_VALIDATER :: u32 where
  "STUN_AGENT_USAGE_FORCE_VALIDATER \<equiv> 64"
abbreviation (input) STUN_AGENT_USAGE_NO_ALIGNED_ATTRIBUTES :: u32 where
  "STUN_AGENT_USAGE_NO_ALIGNED_ATTRIBUTES \<equiv> 128"

text \<open>
  The part of an agent that is fixed by \<open>stun_agent_init\<close> and \<open>stun_agent_set_software\<close>. A
  message points to its agent but reads only this part; the mutable table of saved
  transactions extends the record below. A key is the \<open>key_len\<close> bytes at \<open>key\<close>, or
  \<^term>\<open>None\<close> for a null pointer.
\<close>

record agent_conf =
  compatibility :: stun_compat
  usage_flags :: u32
  known_attributes :: "u16 list"
  software_attribute :: "bytes option"

record saved_id =
  saved_id :: bytes
  saved_method :: stun_method
  saved_key :: "bytes option"
  saved_long_term_key :: bytes
  saved_long_term_valid :: bool
  saved_valid :: bool

record stun_agent = agent_conf +
  sent_ids :: "saved_id list"

definition has_flag :: "'a agent_conf_scheme \<Rightarrow> u32 \<Rightarrow> bool" where
  "has_flag a f \<longleftrightarrow> usage_flags a AND f \<noteq> 0"

record stun_message =
  msg_agent :: "agent_conf option"
  buffer :: bytes
  buffer_len :: nat
  msg_key :: "bytes option"
  long_term_key :: bytes
  long_term_valid :: bool

end
