(* ===== verification/Stun_Utils.thy ===== *)
theory Stun_Utils
  imports Stun_Types
begin

unbundle bit_operations_syntax

text \<open>
  The byte helpers of \<open>stun/utils.c\<close>: padding and alignment of attribute lengths, reading and
  writing 16-bit fields, packing class and method into the message type, and the XOR mapping
  of addresses.
\<close>

section \<open>Definitions\<close>

definition stun_padding :: "nat \<Rightarrow> nat" where
  "stun_padding l = unat ((4 - ((of_nat l :: u64) AND 3)) AND 3)"

definition stun_align :: "nat \<Rightarrow> nat" where
  "stun_align l = unat (((of_nat l :: u64) + 3) AND NOT 3)"

definition stun_getw :: "bytes \<Rightarrow> nat \<Rightarrow> u16 option" where
  "stun_getw m ptr = do { a \<leftarrow> rd m ptr; b \<leftarrow> rd m (ptr + 1); Some (be16 a b) }"

definition stun_setw :: "bytes \<Rightarrow> nat \<Rightarrow> u16 \<Rightarrow> (bytes \<times> nat) option" where
  "stun_setw m ptr value = do {
     m1 \<leftarrow> wr m ptr (ucast (drop_bit 8 value));
     m2 \<leftarrow> wr m1 (ptr + 1) (ucast (value AND 0xff));
     Some (m2, ptr + 2) }"

definition type_byte0 :: "u32 \<Rightarrow> u32 \<Rightarrow> u8" where
  "type_byte0 c m = ucast (drop_bit 1 c OR (drop_bit 6 m AND 0x3e))"

definition type_byte1 :: "u32 \<Rightarrow> u32 \<Rightarrow> u8" where
  "type_byte1 c m = ucast ((push_bit 4 c AND 0x10) OR (push_bit 1 m AND 0xe0) OR (m AND 0x0f))"

definition stun_set_type :: "bytes \<Rightarrow> stun_class \<Rightarrow> stun_method \<Rightarrow> bytes option" where
  "stun_set_type h c m = do {
     h1 \<leftarrow> wr h 0 (type_byte0 (class_val c) m);
     wr h1 1 (type_byte1 (class_val c) m) }"

definition stun_xor_address ::
    "stun_message \<Rightarrow> sockaddr \<Rightarrow> nat \<Rightarrow> u32 \<Rightarrow> (stun_return \<times> sockaddr) option" where
  "stun_xor_address msg addr addrlen magic_cookie =
    (case addr of
      AF_INET ip4 \<Rightarrow>
        if addrlen < sizeof_sockaddr_in then Some (STUN_MESSAGE_RETURN_INVALID, addr)
        else Some (STUN_MESSAGE_RETURN_SUCCESS,
          AF_INET (ip4\<lparr>sin_port := sin_port ip4 XOR htons (ucast (drop_bit 16 magic_cookie)),
                       sin_addr := sin_addr ip4 XOR htonl magic_cookie\<rparr>))
    | AF_INET6 ip6 \<Rightarrow>
        if addrlen < sizeof_sockaddr_in6 then Some (STUN_MESSAGE_RETURN_INVALID, addr)
        else do {
          id \<leftarrow> rdn (buffer msg) 4 16;
          Some (STUN_MESSAGE_RETURN_SUCCESS,
            AF_INET6 (ip6\<lparr>sin6_port := sin6_port ip6 XOR htons (ucast (drop_bit 16 magic_cookie)),
                          sin6_addr := map2 (XOR) (sin6_addr ip6) id\<rparr>)) }
    | AF_OTHER _ \<Rightarrow> Some (STUN_MESSAGE_RETURN_UNSUPPORTED_ADDRESS, addr))"

section \<open>Padding and alignment\<close>

lemma and_3_eq_mod_4: "unat ((x :: u64) AND 3) = unat x mod 4"
proof -
  have "x AND 3 = take_bit 2 x"
    by (simp add: take_bit_eq_mask mask_eq_exp_minus_1)
  then show ?thesis by (simp only: unsigned_take_bit_eq) (simp add: take_bit_eq_mod)
qed

lemma unat_of_nat_mod_4: "unat (of_nat l :: u64) mod 4 = l mod 4"
  by (simp add: unat_of_nat mod_mod_cancel)

lemma stun_padding_eq: "stun_padding l = (4 - l mod 4) mod 4"
proof -
  have "unat ((of_nat l :: u64) AND 3) \<le> 3"
    by (simp add: and_3_eq_mod_4)
  then have "(of_nat l :: u64) AND 3 \<le> 4"
    by (simp add: word_le_nat_alt)
  then show ?thesis
    by (simp add: stun_padding_def and_3_eq_mod_4 unat_sub unat_of_nat_mod_4)
qed

lemma stun_padding_less: "stun_padding l < 4"
  by (simp add: stun_padding_eq)

lemma stun_padding_if: "stun_padding l = (if l mod 4 = 0 then 0 else 4 - l mod 4)"
  by (simp add: stun_padding_eq)

lemma add_stun_padding: "l + stun_padding l = 4 * ((l + 3) div 4)"
proof -
  have "l = 4 * (l div 4) + l mod 4" and "l mod 4 < 4" by simp_all
  then obtain q r where l: "l = 4 * q + r" and r: "r < 4" by blast
  from r have "r = 0 \<or> r = 1 \<or> r = 2 \<or> r = 3" by arith
  then show ?thesis unfolding l by (auto simp: stun_padding_if)
qed

lemma stun_align_eq:
  assumes "l + 3 < 2 ^ 64"
  shows "stun_align l = l + stun_padding l"
proof -
  let ?x = "of_nat l + 3 :: u64"
  have x: "unat ?x = l + 3"
    using assms by (simp add: unat_word_ariths unat_of_nat)
  have "?x - (?x AND 3) = ?x AND NOT (?x AND 3)"
    by (rule disjunctive_diff) (simp add: bit_and_iff)
  also have "\<dots> = ?x AND NOT 3"
    by (rule bit_word_eqI) (auto simp: bit_simps)
  finally have "unat (?x AND NOT 3) = unat (?x - (?x AND 3))"
    by simp
  also have "\<dots> = (l + 3) - (l + 3) mod 4"
    using x by (simp add: unat_sub word_le_nat_alt and_3_eq_mod_4)
  finally have "stun_align l = (l + 3) - (l + 3) mod 4"
    by (simp only: stun_align_def)
  then show ?thesis
    by (simp add: add_stun_padding minus_mod_eq_mult_div)
qed

lemma dvd_add_stun_padding: "4 dvd l + stun_padding l"
  by (simp add: add_stun_padding)

lemma stun_align_u16: "stun_align (unat (w :: u16)) = unat w + stun_padding (unat w)"
proof (rule stun_align_eq)
  have "unat w < 2 ^ 16" using unsigned_less [of w] by simp
  then show "unat w + 3 < 2 ^ 64" by simp
qed

section \<open>16-bit fields\<close>

lemma stun_getw_eq_Some_iff:
  "stun_getw m i = Some v \<longleftrightarrow> i + 1 < length m \<and> v = be16 (m ! i) (m ! (i + 1))"
  by (auto simp: stun_getw_def rd_def)

lemma stun_getw_None_iff: "stun_getw m i = None \<longleftrightarrow> length m \<le> i + 1"
  by (auto simp: stun_getw_def rd_def)

lemma stun_setw_eq: "stun_setw m i v =
    (case wrn m i (be16_bytes v) of None \<Rightarrow> None | Some m' \<Rightarrow> Some (m', i + 2))"
  by (auto simp: stun_setw_def wr_def wrn_def be16_bytes_def list_update_append
      upd_conv_take_nth_drop take_Suc_conv_app_nth
      simp del: bytes_simps)

lemma stun_setw_put: "i + 2 \<le> length m \<Longrightarrow> stun_setw m i v = Some (put m i (be16_bytes v), i + 2)"
  by (simp add: stun_setw_eq wrn_put)

lemma stun_getw_put_same: "i + 2 \<le> length m \<Longrightarrow> stun_getw (put m i (be16_bytes v)) i = Some v"
  by (simp add: stun_getw_eq_Some_iff nth_put) (simp add: be16_bytes_def bytes_simps)

lemma stun_getw_put_other:
  assumes "i + length bs \<le> length m" and "j + 2 \<le> i \<or> i + length bs \<le> j"
  shows "stun_getw (put m i bs) j = stun_getw m j"
  using assms by (auto simp: stun_getw_def rd_def nth_put)

lemma stun_getw_cong:
  "m ! i = m' ! i \<Longrightarrow> m ! (i + 1) = m' ! (i + 1) \<Longrightarrow> i + 2 \<le> length m \<Longrightarrow> i + 2 \<le> length m' \<Longrightarrow>
     stun_getw m i = stun_getw m' i"
  by (simp add: stun_getw_def rd_def)

end
