(* ===== verification/Stun_Header.thy ===== *)
theory Stun_Header
  imports Stun_Utils
begin

unbundle bit_operations_syntax

text \<open>
  The message header, from \<open>stun/stunmessage.c\<close> and \<open>stun/stun5389.c\<close>: initialising a message,
  its length field, transaction id, class and method, the RFC 5389 magic cookie, and the table
  of error phrases.
\<close>

section \<open>Definitions\<close>

definition stun_message_init ::
    "stun_message \<Rightarrow> stun_class \<Rightarrow> stun_method \<Rightarrow> bytes \<Rightarrow> (bool \<times> stun_message) option" where
  "stun_message_init msg c m tid =
    (if buffer_len msg < STUN_MESSAGE_HEADER_LENGTH then Some (False, msg)
     else do {
       b1 \<leftarrow> wrn (buffer msg) 0 [0, 0, 0, 0];
       b2 \<leftarrow> stun_set_type b1 c m;
       i \<leftarrow> rdn tid 0 STUN_MESSAGE_TRANS_ID_LEN;
       b3 \<leftarrow> wrn b2 STUN_MESSAGE_TRANS_ID_POS i;
       Some (True, msg\<lparr>buffer := b3\<rparr>) })"

definition stun_message_length :: "stun_message \<Rightarrow> u16 option" where
  "stun_message_length msg = do {
     w \<leftarrow> stun_getw (buffer msg) STUN_MESSAGE_LENGTH_POS;
     Some (w + of_nat STUN_MESSAGE_HEADER_LENGTH) }"

definition stun_message_id :: "stun_message \<Rightarrow> bytes option" where
  "stun_message_id msg = rdn (buffer msg) STUN_MESSAGE_TRANS_ID_POS STUN_MESSAGE_TRANS_ID_LEN"

definition type_fixup :: "u16 \<Rightarrow> u16" where
  "type_fixup t = (if t = 0x0115 then 0x0017 else t)"

definition method_of_type :: "u16 \<Rightarrow> stun_method" where
  "method_of_type t = ucast (drop_bit 2 (t AND 0x3e00) OR drop_bit 1 (t AND 0x00e0) OR (t AND 0x000f))"

definition class_of_type :: "u16 \<Rightarrow> stun_class" where
  "class_of_type t = class_of_val (ucast (drop_bit 7 (t AND 0x0100) OR drop_bit 4 (t AND 0x0010)))"

definition stun_message_get_method :: "stun_message \<Rightarrow> stun_method option" where
  "stun_message_get_method msg = do {
     t \<leftarrow> stun_getw (buffer msg) 0; Some (method_of_type (type_fixup t)) }"

definition stun_message_get_class :: "stun_message \<Rightarrow> stun_class option" where
  "stun_message_get_class msg = do {
     t \<leftarrow> stun_getw (buffer msg) 0; Some (class_of_type (type_fixup t)) }"

definition stun_message_has_cookie :: "stun_message \<Rightarrow> bool option" where
  "stun_message_has_cookie msg = do {
     id \<leftarrow> stun_message_id msg;
     Some (take 4 id = host_bytes32 (htonl STUN_MAGIC_COOKIE)) }"

definition stun_optional :: "u16 \<Rightarrow> bool" where
  "stun_optional t \<longleftrightarrow> drop_bit 15 t = 1"

type_synonym stun_error = nat

definition stun_error_table :: "(stun_error \<times> string) list" where
  "stun_error_table = [
     (300, ''Try alternate server''), (400, ''Bad request''), (401, ''Unauthorized''),
     (420, ''Unknown Attribute''), (437, ''Allocation Mismatch''), (438, ''Stale Nonce''),
     (439, ''Active Destination Already Set''), (440, ''Address Family not Supported''),
     (442, ''Unsupported Transport Protocol''), (443, ''Invalid IP Address''),
     (444, ''Invalid Port''), (445, ''Operation for TCP Only''),
     (446, ''Connection Already Exists''), (486, ''Allocation Quota Reached''),
     (487, ''Role conflict''), (500, ''Server Error''), (507, ''Insufficient Capacity''),
     (508, ''Insufficient Capacity'')]"

definition stun_strerror :: "stun_error \<Rightarrow> string" where
  "stun_strerror code =
    (case map_of stun_error_table code of Some phrase \<Rightarrow> phrase | None \<Rightarrow> ''Unknown error'')"

section \<open>Headers of well-formed messages\<close>

text \<open>
  A message is well formed when its buffer really has the announced length and holds at least
  a header. The length of the memory object, the list, is what the C code may touch.
\<close>

definition wf_message :: "stun_message \<Rightarrow> bool" where
  "wf_message msg \<longleftrightarrow> length (buffer msg) = buffer_len msg \<and>
     STUN_MESSAGE_HEADER_LENGTH \<le> buffer_len msg"

lemma wf_message_readable:
  assumes "wf_message msg"
  shows "\<exists>l. stun_message_length msg = Some l" "\<exists>c. stun_message_get_class msg = Some c"
    "\<exists>m. stun_message_get_method msg = Some m" "\<exists>i. stun_message_id msg = Some i"
    "\<exists>b. stun_message_has_cookie msg = Some b"
  using assms
  by (auto simp: wf_message_def stun_message_length_def stun_message_get_class_def
      stun_message_get_method_def stun_message_id_def stun_message_has_cookie_def
      stun_getw_def rd_def rdn_def)

section \<open>Packing class and method\<close>

abbreviation type_word :: "stun_class \<Rightarrow> stun_method \<Rightarrow> u16" where
  "type_word c m \<equiv> be16 (type_byte0 (class_val c) m) (type_byte1 (class_val c) m)"

lemma nat_less_16_cases:
  "b < 16 \<Longrightarrow> b = 15 \<or> b = 14 \<or> b = 13 \<or> b = 12 \<or> b = 11 \<or> b = 10 \<or> b = 9
    \<or> b = 8 \<or> b = 7 \<or> b = 6 \<or> b = 5 \<or> b = 4 \<or> b = 3 \<or> b = 2 \<or> b = 1 \<or> b = (0::nat)"
  by presburger

lemma bit_class_val:
  "bit (class_val c) 0 \<longleftrightarrow> c = STUN_INDICATION \<or> c = STUN_ERROR"
  "bit (class_val c) (Suc 0) \<longleftrightarrow> c = STUN_RESPONSE \<or> c = STUN_ERROR"
  by (cases c; simp)+

lemma bit_class_val_high: "2 \<le> n \<Longrightarrow> \<not> bit (class_val c) n"
  using bit_unat_less_exp [of "class_val c" 2 n] by (cases c) auto

lemma bit_times_2: "bit ((m :: u32) * 2) n \<longleftrightarrow> 0 < n \<and> n < 32 \<and> bit m (n - 1)"
  using bit_double_iff [of m n] by (auto simp: mult.commute)

lemma bit_type_word:
  "bit (type_word c m) n \<longleftrightarrow>
     (if n < 4 then bit m n else if n = 4 then bit (class_val c) 0
      else if n < 8 then bit m (n - 1) else if n = 8 then bit (class_val c) 1
      else n < 14 \<and> bit m (n - 2))"
proof (cases "n < 16")
  case True
  then show ?thesis
    using nat_less_16_cases [OF True]
    by (elim disjE)
      (simp_all add: bits_of type_byte0_def type_byte1_def bit_simps bit_class_val bit_class_val_high bit_times_2)
next
  case False
  then show ?thesis by (auto dest: bit_imp_le_length)
qed

lemma bit_method_of_type:
  "bit (method_of_type t) n \<longleftrightarrow>
     (if n < 4 then bit t n else if n < 7 then bit t (n + 1) else n < 12 \<and> bit t (n + 2))"
proof (cases "n < 16")
  case True
  then show ?thesis
    using nat_less_16_cases [OF True] by (elim disjE) (simp_all add: method_of_type_def bit_simps)
next
  case False
  then show ?thesis by (auto simp: method_of_type_def bit_simps)
qed

lemma bit_less_4096: "(m :: u32) < 4096 \<Longrightarrow> bit m n \<Longrightarrow> n < 12"
  by (rule bit_unat_less_exp) (simp_all add: word_less_nat_alt)

lemma method_of_type_word: "m < 2 ^ 12 \<Longrightarrow> method_of_type (type_word c m) = m"
  by (rule bit_word_eqI) (auto simp: bit_method_of_type bit_type_word dest: bit_less_4096)

lemma and_0x100: "t AND 0x0100 = (if bit t 8 then 0x0100 else 0)" for t :: u16
proof (rule bit_word_eqI)
  fix n :: nat assume "n < LENGTH(16)"
  then show "bit (t AND 0x0100) n \<longleftrightarrow> bit (if bit t 8 then 0x0100 else 0 :: u16) n"
    using nat_less_16_cases [of n] by (auto simp: bit_simps)
qed

lemma and_0x10: "t AND 0x0010 = (if bit t 4 then 0x0010 else 0)" for t :: u16
proof (rule bit_word_eqI)
  fix n :: nat assume "n < LENGTH(16)"
  then show "bit (t AND 0x0010) n \<longleftrightarrow> bit (if bit t 4 then 0x0010 else 0 :: u16) n"
    using nat_less_16_cases [of n] by (auto simp: bit_simps)
qed

lemma class_of_type_eq:
  "class_of_type t =
     (if bit t 8 then if bit t 4 then STUN_ERROR else STUN_RESPONSE
      else if bit t 4 then STUN_INDICATION else STUN_REQUEST)"
  by (simp add: class_of_type_def and_0x100 and_0x10 class_of_val_def)

lemma class_of_type_word: "class_of_type (type_word c m) = c"
  unfolding class_of_type_eq bit_type_word by (cases c) (simp_all add: bit_class_val)

lemma type_fixup_type_word:
  assumes "m < 2 ^ 12" and "c \<noteq> STUN_ERROR \<or> m \<noteq> STUN_CONNECT"
  shows "type_fixup (type_word c m) = type_word c m"
proof -
  have "type_word c m \<noteq> 0x0115"
  proof
    assume t: "type_word c m = 0x0115"
    from method_of_type_word [OF assms(1), of c] have "m = STUN_CONNECT"
      unfolding t by (simp add: method_of_type_def)
    moreover from class_of_type_word [of c m] have "c = STUN_ERROR"
      unfolding t by (simp add: class_of_type_def class_of_val_def)
    ultimately show False using assms(2) by simp
  qed
  then show ?thesis by (simp add: type_fixup_def)
qed

end
