(* ===== verification/Stun_Validate.thy ===== *)
theory Stun_Validate
  imports Stun_Header
begin

unbundle bit_operations_syntax

text \<open>
  The length checks every incoming packet goes through before it is parsed, from
  \<open>stun/stunmessage.c\<close>: the fast check on a scatter list of buffers, which reads only the
  header, and the full check, which walks over all attribute headers. The second half of the
  theory shows that both are memory safe and what a positive answer means.
\<close>

section \<open>Definitions\<close>

record input_vector =
  iv_buffer :: "bytes option"
  iv_size :: nat

definition iv_get :: "input_vector list \<Rightarrow> nat \<Rightarrow> input_vector option" where
  "iv_get vs i = (if i < length vs then Some (vs ! i) else None)"

text \<open>The loop of the slow path that skips the bytes before the length field.\<close>

function skip_buffers :: "input_vector list \<Rightarrow> int \<Rightarrow> nat \<Rightarrow> nat \<Rightarrow> (nat \<times> nat) option" where
  "skip_buffers vs n_buffers i skip_remaining =
    (if n_buffers \<ge> 0 \<and> int i < n_buffers \<or> n_buffers < 0 \<and> i < length vs \<and> iv_buffer (vs ! i) \<noteq> None
     then if i < length vs
       then if iv_size (vs ! i) \<le> skip_remaining
         then skip_buffers vs n_buffers (Suc i) (skip_remaining - iv_size (vs ! i))
         else Some (i, skip_remaining)
       else None
     else if n_buffers < 0 \<and> length vs \<le> i then None
     else Some (i, skip_remaining))"
  by pat_completeness auto
termination
  by (relation "measure (\<lambda>(vs, n, i, s). length vs - i)") auto

declare skip_buffers.simps [simp del]

definition read_length_slow :: "input_vector list \<Rightarrow> int \<Rightarrow> u16 option" where
  "read_length_slow vs n_buffers = do {
     (i, skip_remaining) \<leftarrow> skip_buffers vs n_buffers 0 STUN_MESSAGE_LENGTH_POS;
     v \<leftarrow> iv_get vs i;
     b \<leftarrow> iv_buffer v;
     if iv_size v - skip_remaining > 1 then stun_getw b skip_remaining
     else do {
       hi \<leftarrow> rd b skip_remaining;
       v' \<leftarrow> iv_get vs (i + 1);
       b' \<leftarrow> iv_buffer v';
       lo \<leftarrow> rd b' 0;
       Some (be16 hi lo) } }"

definition stun_message_validate_buffer_length_fast ::
    "input_vector list \<Rightarrow> int \<Rightarrow> nat \<Rightarrow> bool \<Rightarrow> int option" where
  "stun_message_validate_buffer_length_fast vs n_buffers total_length has_padding =
    (if total_length < 1 \<or> n_buffers = 0 then Some STUN_MESSAGE_BUFFER_INVALID
     else do {
       v0 \<leftarrow> iv_get vs 0;
       case iv_buffer v0 of
         None \<Rightarrow> Some STUN_MESSAGE_BUFFER_INVALID
       | Some b0 \<Rightarrow> do {
           c \<leftarrow> rd b0 0;
           if drop_bit 6 c \<noteq> 0 then Some STUN_MESSAGE_BUFFER_INVALID
           else if total_length < STUN_MESSAGE_LENGTH_POS + STUN_MESSAGE_LENGTH_LEN
             then Some STUN_MESSAGE_BUFFER_INCOMPLETE
           else do {
             w \<leftarrow> (if iv_size v0 \<ge> STUN_MESSAGE_LENGTH_POS + STUN_MESSAGE_LENGTH_LEN
                   then stun_getw b0 STUN_MESSAGE_LENGTH_POS
                   else read_length_slow vs n_buffers);
             let mlen = unat w + STUN_MESSAGE_HEADER_LENGTH in
             if has_padding \<and> stun_padding mlen \<noteq> 0 then Some STUN_MESSAGE_BUFFER_INVALID
             else if total_length < mlen then Some STUN_MESSAGE_BUFFER_INCOMPLETE
             else Some (int mlen) } } })"

text \<open>The loop over the attributes: \<open>ptr\<close> is the offset of \<open>msg\<close>, \<open>len\<close> what is left.\<close>

function validate_attributes :: "bool \<Rightarrow> bytes \<Rightarrow> nat \<Rightarrow> nat \<Rightarrow> bool option" where
  "validate_attributes has_padding m ptr len =
    (if len > 0 then
       if len < 4 then Some False
       else (case stun_getw m (ptr + STUN_ATTRIBUTE_TYPE_LEN) of
         None \<Rightarrow> None
       | Some w \<Rightarrow>
           let alen = (if has_padding then stun_align (unat w) else unat w) in
           if len - 4 < alen then Some False
           else validate_attributes has_padding m (ptr + 4 + alen) (len - 4 - alen))
     else Some True)"
  by pat_completeness auto
termination
  by (relation "measure (\<lambda>(p, m, ptr, len). len)") auto

declare validate_attributes.simps [simp del]

definition stun_message_validate_buffer_length :: "bytes \<Rightarrow> nat \<Rightarrow> bool \<Rightarrow> int option" where
  "stun_message_validate_buffer_length msg len has_padding = do {
     fast_retval \<leftarrow> stun_message_validate_buffer_length_fast
       [\<lparr>iv_buffer = Some msg, iv_size = len\<rparr>] 1 len has_padding;
     if fast_retval \<le> 0 then Some fast_retval
     else do {
       ok \<leftarrow> validate_attributes has_padding msg 20 (nat fast_retval - 20);
       Some (if ok then fast_retval else STUN_MESSAGE_BUFFER_INVALID) } }"

section \<open>The attribute walk\<close>

text \<open>
  The walk reads only inside the object when the announced region lies inside it: every
  attribute header it looks at is within the bytes that are left.
\<close>

lemma validate_attributes_safe:
  "ptr + len \<le> length m \<Longrightarrow> \<exists>ok. validate_attributes p m ptr len = Some ok"
proof (induction p m ptr len rule: validate_attributes.induct)
  case (1 p m ptr len)
  show ?case
  proof (cases "len < 4")
    case True
    then show ?thesis by (subst validate_attributes.simps) auto
  next
    case False
    with "1.prems" obtain w where w: "stun_getw m (ptr + 2) = Some w"
      by (auto simp: stun_getw_def rd_def)
    let ?alen = "if p then stun_align (unat w) else unat w"
    show ?thesis
    proof (cases "len - 4 < ?alen")
      case True
      then show ?thesis using False w
        by (subst validate_attributes.simps) (auto simp: Let_def)
    next
      case len: False
      have "\<exists>ok. validate_attributes p m (ptr + 4 + ?alen) (len - 4 - ?alen) = Some ok"
        by (rule "1.IH") (use False w len "1.prems" in auto)
      then show ?thesis using False w len
        by (subst validate_attributes.simps) (auto simp: Let_def)
    qed
  qed
qed

text \<open>One step of a successful walk, in terms of the space an attribute value takes.\<close>

definition attr_space :: "bool \<Rightarrow> u16 \<Rightarrow> nat" where
  "attr_space unaligned alen = (if unaligned then unat alen else stun_align (unat alen))"

lemma attr_space_ge: "unat l \<le> attr_space u l"
  by (simp add: attr_space_def stun_align_u16)

lemma validate_attributes_step:
  assumes "validate_attributes p m ptr len = Some True" and "0 < len"
  obtains w where "4 \<le> len" "stun_getw m (ptr + 2) = Some w" "attr_space (\<not> p) w \<le> len - 4"
    "validate_attributes p m (ptr + 4 + attr_space (\<not> p) w) (len - 4 - attr_space (\<not> p) w) =
       Some True"
proof -
  have sp: "(if p then stun_align (unat w) else unat w) = attr_space (\<not> p) w" for w
    by (simp add: attr_space_def)
  from assms have "4 \<le> len"
    by (subst (asm) validate_attributes.simps) (auto split: if_splits)
  moreover from assms obtain w where "stun_getw m (ptr + 2) = Some w"
    and "attr_space (\<not> p) w \<le> len - 4"
    and "validate_attributes p m (ptr + 4 + attr_space (\<not> p) w) (len - 4 - attr_space (\<not> p) w) =
       Some True"
    by (subst (asm) validate_attributes.simps, unfold sp)
      (auto simp: Let_def split: if_splits option.splits)
  ultimately show thesis using that by blast
qed

section \<open>What the checks guarantee\<close>

definition len_field :: "bytes \<Rightarrow> nat" where
  "len_field m = unat (be16 (m ! 2) (m ! 3))"

lemma len_field_less: "len_field m < 65536"
  using unsigned_less [of "be16 (m ! 2) (m ! 3)"] by (simp add: len_field_def)

lemma stun_getw_len_field: "4 \<le> length m \<Longrightarrow> stun_getw m 2 = Some (of_nat (len_field m))"
  by (simp add: stun_getw_def rd_def len_field_def)

lemma fast_single:
  "stun_message_validate_buffer_length_fast [\<lparr>iv_buffer = Some m, iv_size = length m\<rparr>] 1
     (length m) p =
   Some (if m = [] then STUN_MESSAGE_BUFFER_INVALID
    else if drop_bit 6 (m ! 0) \<noteq> 0 then STUN_MESSAGE_BUFFER_INVALID
    else if length m < 4 then STUN_MESSAGE_BUFFER_INCOMPLETE
    else if p \<and> stun_padding (len_field m + 20) \<noteq> 0 then STUN_MESSAGE_BUFFER_INVALID
    else if length m < len_field m + 20 then STUN_MESSAGE_BUFFER_INCOMPLETE
    else int (len_field m + 20))"
  by (cases "m = []")
    (auto simp: stun_message_validate_buffer_length_fast_def iv_get_def rd_def stun_getw_def Let_def
      len_field_def numeral_3_eq_3 Suc_le_eq)

lemma validate_buffer_length_eq:
  "stun_message_validate_buffer_length m (length m) p =
    (if m = [] \<or> drop_bit 6 (m ! 0) \<noteq> 0 then Some STUN_MESSAGE_BUFFER_INVALID
     else if length m < 4 then Some STUN_MESSAGE_BUFFER_INCOMPLETE
     else if p \<and> stun_padding (len_field m + 20) \<noteq> 0 then Some STUN_MESSAGE_BUFFER_INVALID
     else if length m < len_field m + 20 then Some STUN_MESSAGE_BUFFER_INCOMPLETE
     else do { ok \<leftarrow> validate_attributes p m 20 (len_field m);
               Some (if ok then int (len_field m + 20) else STUN_MESSAGE_BUFFER_INVALID) })"
  by (auto simp: stun_message_validate_buffer_length_def fast_single nat_add_distrib)

text \<open>The full check never leaves the buffer it is given, whatever the bytes are.\<close>

lemma validate_buffer_length_safe:
  "\<exists>r. stun_message_validate_buffer_length m (length m) p = Some r"
proof (cases "len_field m + 20 \<le> length m")
  case True
  then have "\<exists>ok. validate_attributes p m 20 (len_field m) = Some ok"
    by (intro validate_attributes_safe) simp
  then show ?thesis by (auto simp: validate_buffer_length_eq)
qed (auto simp: validate_buffer_length_eq)

text \<open>
  A positive answer means: the first two bits are zero, the length field and the buffer agree,
  the padding is right, and the attribute walk ends exactly at the end of the message.
\<close>

lemma validate_buffer_length_positive:
  assumes "stun_message_validate_buffer_length m (length m) p = Some n" and "0 < n"
  shows "n = int (len_field m + 20)" "drop_bit 6 (m ! 0) = 0" "len_field m + 20 \<le> length m"
    "p \<Longrightarrow> stun_padding (len_field m + 20) = 0"
    "validate_attributes p m 20 (len_field m) = Some True"
  using assms by (auto simp: validate_buffer_length_eq split: if_splits bind_splits)

end
