(* ===== verification/Stun_Find.thy ===== *)
theory Stun_Find
  imports Stun_Validate
begin

unbundle bit_operations_syntax

text \<open>
  Looking attributes up in a message, from \<open>stun/stunmessage.c\<close>: \<open>stun_message_find\<close> and the
  typed accessors on top of it. A found attribute is the offset of its value in the buffer
  and the length its header announces.
\<close>

section \<open>Definitions\<close>

definition no_aligned :: "agent_conf option \<Rightarrow> bool" where
  "no_aligned ag \<longleftrightarrow>
     (case ag of None \<Rightarrow> False | Some a \<Rightarrow> has_flag a STUN_AGENT_USAGE_NO_ALIGNED_ATTRIBUTES)"

text \<open>In MS-TURN, the ids of REALM and NONCE are swapped.\<close>

definition ms_swap :: "agent_conf option \<Rightarrow> stun_attribute \<Rightarrow> stun_attribute" where
  "ms_swap ag type =
    (case ag of None \<Rightarrow> type
     | Some a \<Rightarrow>
         if compatibility a = STUN_COMPATIBILITY_OC2007 then
           if type = STUN_ATTRIBUTE_REALM then STUN_ATTRIBUTE_NONCE
           else if type = STUN_ATTRIBUTE_NONCE then STUN_ATTRIBUTE_REALM
           else type
         else type)"

text \<open>
  The switch on misordered attributes: after MESSAGE-INTEGRITY only FINGERPRINT may come, and
  nothing after FINGERPRINT.
\<close>

definition stops_search :: "stun_attribute \<Rightarrow> stun_attribute \<Rightarrow> bool" where
  "stops_search atype type \<longleftrightarrow>
     atype = STUN_ATTRIBUTE_MESSAGE_INTEGRITY \<and> type \<noteq> STUN_ATTRIBUTE_FINGERPRINT \<or>
     atype = STUN_ATTRIBUTE_FINGERPRINT"

function find_from ::
    "bool \<Rightarrow> bytes \<Rightarrow> stun_attribute \<Rightarrow> nat \<Rightarrow> nat \<Rightarrow> (nat \<times> u16) option option" where
  "find_from unaligned m type mlen offset =
    (if offset < mlen then
       (case stun_getw m offset of
         None \<Rightarrow> None
       | Some atype \<Rightarrow>
         (case stun_getw m (offset + STUN_ATTRIBUTE_TYPE_LEN) of
           None \<Rightarrow> None
         | Some alen \<Rightarrow>
             if atype = type then Some (Some (offset + STUN_ATTRIBUTE_VALUE_POS, alen))
             else if stops_search atype type then Some None
             else find_from unaligned m type mlen
                    (offset + STUN_ATTRIBUTE_VALUE_POS + attr_space unaligned alen)))
     else Some None)"
  by pat_completeness auto
termination
  by (relation "measure (\<lambda>(u, m, t, l, off). l - off)") auto

declare find_from.simps [simp del]

definition stun_message_find ::
    "stun_message \<Rightarrow> stun_attribute \<Rightarrow> (nat \<times> u16) option option" where
  "stun_message_find msg type = do {
     mlen \<leftarrow> stun_message_length msg;
     find_from (no_aligned (msg_agent msg)) (buffer msg) (ms_swap (msg_agent msg) type)
       (unat mlen) STUN_MESSAGE_ATTRIBUTES_POS }"

definition stun_message_has_attribute :: "stun_message \<Rightarrow> stun_attribute \<Rightarrow> bool option" where
  "stun_message_has_attribute msg type = do {
     r \<leftarrow> stun_message_find msg type; Some (r \<noteq> None) }"

definition stun_message_find_flag :: "stun_message \<Rightarrow> stun_attribute \<Rightarrow> stun_return option" where
  "stun_message_find_flag msg type = do {
     r \<leftarrow> stun_message_find msg type;
     Some (case r of None \<Rightarrow> STUN_MESSAGE_RETURN_NOT_FOUND
       | Some (ptr, len) \<Rightarrow>
           if len = 0 then STUN_MESSAGE_RETURN_SUCCESS else STUN_MESSAGE_RETURN_INVALID) }"

text \<open>The accessors with a result return the code and what they store through the pointer.\<close>

definition stun_message_find32 ::
    "stun_message \<Rightarrow> stun_attribute \<Rightarrow> (stun_return \<times> u32 option) option" where
  "stun_message_find32 msg type = do {
     r \<leftarrow> stun_message_find msg type;
     case r of None \<Rightarrow> Some (STUN_MESSAGE_RETURN_NOT_FOUND, None)
     | Some (ptr, len) \<Rightarrow>
         if len = 4 then do {
           v \<leftarrow> rdn (buffer msg) ptr 4;
           Some (STUN_MESSAGE_RETURN_SUCCESS, Some (htonl (of_host_bytes32 v))) }
         else Some (STUN_MESSAGE_RETURN_INVALID, None) }"

definition stun_message_find64 ::
    "stun_message \<Rightarrow> stun_attribute \<Rightarrow> (stun_return \<times> u64 option) option" where
  "stun_message_find64 msg type = do {
     r \<leftarrow> stun_message_find msg type;
     case r of None \<Rightarrow> Some (STUN_MESSAGE_RETURN_NOT_FOUND, None)
     | Some (ptr, len) \<Rightarrow>
         if len = 8 then do {
           t0 \<leftarrow> rdn (buffer msg) ptr 4;
           t1 \<leftarrow> rdn (buffer msg) (ptr + 4) 4;
           Some (STUN_MESSAGE_RETURN_SUCCESS,
             Some (push_bit 32 (ucast (htonl (of_host_bytes32 t0))) OR
                   ucast (htonl (of_host_bytes32 t1)))) }
         else Some (STUN_MESSAGE_RETURN_INVALID, None) }"

definition stun_message_find_string ::
    "stun_message \<Rightarrow> stun_attribute \<Rightarrow> bytes \<Rightarrow> nat \<Rightarrow> (stun_return \<times> bytes) option" where
  "stun_message_find_string msg type buf buflen = do {
     r \<leftarrow> stun_message_find msg type;
     case r of None \<Rightarrow> Some (STUN_MESSAGE_RETURN_NOT_FOUND, buf)
     | Some (ptr, len) \<Rightarrow>
         if unat len \<ge> buflen then Some (STUN_MESSAGE_RETURN_NOT_ENOUGH_SPACE, buf)
         else do {
           v \<leftarrow> rdn (buffer msg) ptr (unat len);
           buf1 \<leftarrow> wrn buf 0 v;
           buf2 \<leftarrow> wr buf1 (unat len) 0;
           Some (STUN_MESSAGE_RETURN_SUCCESS, buf2) } }"

text \<open>
  An address accessor returns the code, the address it stored if any, and the new value of
  \<open>*addrlen\<close>. Clearing more than the \<open>sockaddr_storage\<close> it was given is an access outside it.
\<close>

definition stun_message_find_addr ::
    "stun_message \<Rightarrow> stun_attribute \<Rightarrow> nat \<Rightarrow> (stun_return \<times> sockaddr option \<times> nat) option" where
  "stun_message_find_addr msg type addrlen = do {
     r \<leftarrow> stun_message_find msg type;
     case r of None \<Rightarrow> Some (STUN_MESSAGE_RETURN_NOT_FOUND, None, addrlen)
     | Some (ptr, len) \<Rightarrow>
         if len < 4 then Some (STUN_MESSAGE_RETURN_INVALID, None, addrlen)
         else do {
           family \<leftarrow> rd (buffer msg) (ptr + 1);
           if family = 1 then
             if addrlen < sizeof_sockaddr_in \<or> len \<noteq> 8
             then Some (STUN_MESSAGE_RETURN_INVALID, None, sizeof_sockaddr_in)
             else if addrlen > sizeof_sockaddr_storage then None
             else do {
               p \<leftarrow> rdn (buffer msg) (ptr + 2) 2;
               a \<leftarrow> rdn (buffer msg) (ptr + 4) 4;
               Some (STUN_MESSAGE_RETURN_SUCCESS,
                 Some (AF_INET \<lparr>sin_port = be16 (p ! 1) (p ! 0), sin_addr = of_host_bytes32 a\<rparr>),
                 sizeof_sockaddr_in) }
           else if family = 2 then
             if addrlen < sizeof_sockaddr_in6 \<or> len \<noteq> 20
             then Some (STUN_MESSAGE_RETURN_INVALID, None, sizeof_sockaddr_in6)
             else if addrlen > sizeof_sockaddr_storage then None
             else do {
               p \<leftarrow> rdn (buffer msg) (ptr + 2) 2;
               a \<leftarrow> rdn (buffer msg) (ptr + 4) 16;
               Some (STUN_MESSAGE_RETURN_SUCCESS,
                 Some (AF_INET6 \<lparr>sin6_port = be16 (p ! 1) (p ! 0), sin6_flowinfo = 0,
                                 sin6_addr = a, sin6_scope_id = 0\<rparr>),
                 sizeof_sockaddr_in6) }
           else Some (STUN_MESSAGE_RETURN_UNSUPPORTED_ADDRESS, None, addrlen) } }"

definition stun_message_find_xor_addr_full ::
    "stun_message \<Rightarrow> stun_attribute \<Rightarrow> nat \<Rightarrow> u32 \<Rightarrow>
      (stun_return \<times> sockaddr option \<times> nat) option" where
  "stun_message_find_xor_addr_full msg type addrlen magic_cookie = do {
     (val, addr, alen) \<leftarrow> stun_message_find_addr msg type addrlen;
     case addr of
       None \<Rightarrow> Some (val, None, alen)
     | Some a \<Rightarrow>
         if val \<noteq> STUN_MESSAGE_RETURN_SUCCESS then Some (val, addr, alen)
         else do {
           (ret, a') \<leftarrow> stun_xor_address msg a alen magic_cookie;
           Some (ret, Some a', alen) } }"

definition stun_message_find_xor_addr ::
    "stun_message \<Rightarrow> stun_attribute \<Rightarrow> nat \<Rightarrow> (stun_return \<times> sockaddr option \<times> nat) option" where
  "stun_message_find_xor_addr msg type addrlen =
     stun_message_find_xor_addr_full msg type addrlen STUN_MAGIC_COOKIE"

definition stun_message_find_error :: "stun_message \<Rightarrow> (stun_return \<times> nat option) option" where
  "stun_message_find_error msg = do {
     r \<leftarrow> stun_message_find msg STUN_ATTRIBUTE_ERROR_CODE;
     case r of None \<Rightarrow> Some (STUN_MESSAGE_RETURN_NOT_FOUND, None)
     | Some (ptr, alen) \<Rightarrow>
         if alen < 4 then Some (STUN_MESSAGE_RETURN_INVALID, None)
         else do {
           c \<leftarrow> rd (buffer msg) (ptr + 2);
           number \<leftarrow> rd (buffer msg) (ptr + 3);
           let class = c AND 7 in
           if class < 3 \<or> class > 6 \<or> number > 99 then Some (STUN_MESSAGE_RETURN_INVALID, None)
           else Some (STUN_MESSAGE_RETURN_SUCCESS, Some (unat class * 100 + unat number)) } }"

section \<open>The attribute list of a message\<close>

text \<open>
  The abstract view of a message body: the list of its attributes, each with its type, the
  offset of its value and the length its header announces. A lookup in this list stops where
  the C loop stops.
\<close>

type_synonym attr = "u16 \<times> nat \<times> u16"

function parse_attrs :: "bool \<Rightarrow> bytes \<Rightarrow> nat \<Rightarrow> nat \<Rightarrow> attr list option" where
  "parse_attrs unaligned m mlen offset =
    (if offset < mlen then do {
       atype \<leftarrow> stun_getw m offset;
       alen \<leftarrow> stun_getw m (offset + STUN_ATTRIBUTE_TYPE_LEN);
       rest \<leftarrow> parse_attrs unaligned m mlen
         (offset + STUN_ATTRIBUTE_VALUE_POS + attr_space unaligned alen);
       Some ((atype, offset + STUN_ATTRIBUTE_VALUE_POS, alen) # rest) }
     else Some [])"
  by pat_completeness auto
termination
  by (relation "measure (\<lambda>(u, m, l, off). l - off)") auto

declare parse_attrs.simps [simp del]

fun lookup_attr :: "u16 \<Rightarrow> attr list \<Rightarrow> (nat \<times> u16) option" where
  "lookup_attr type [] = None"
| "lookup_attr type ((t, p, l) # as) =
     (if t = type then Some (p, l) else if stops_search t type then None else lookup_attr type as)"

lemma lookup_attr_in: "lookup_attr type as = Some (p, l) \<Longrightarrow> (type, p, l) \<in> set as"
  by (induction type as rule: lookup_attr.induct) (auto split: if_splits)

text \<open>The loop of \<open>stun_message_find\<close> is the lookup in the parsed list.\<close>

lemma find_from_lookup:
  "parse_attrs u m mlen off = Some as \<Longrightarrow>
     find_from u m type mlen off = Some (lookup_attr type as)"
proof (induction u m mlen off arbitrary: as rule: parse_attrs.induct)
  case (1 u m mlen off)
  show ?case
  proof (cases "off < mlen")
    case True
    with "1.prems" obtain t l rest where tl: "stun_getw m off = Some t"
        "stun_getw m (off + 2) = Some l"
      and rest: "parse_attrs u m mlen (off + 4 + attr_space u l) = Some rest"
      and as: "as = (t, off + 4, l) # rest"
      by (subst (asm) parse_attrs.simps) (auto split: bind_splits)
    from "1.IH" [OF True tl rest] show ?thesis
      using True tl by (simp add: find_from.simps [of u m type mlen off] as)
  next
    case False
    with "1.prems" show ?thesis
      by (simp add: find_from.simps [of u m type mlen off] parse_attrs.simps [of u m mlen off])
  qed
qed

text \<open>A validated attribute region parses, and every attribute lies inside it.\<close>

lemma validated_parses:
  assumes "validate_attributes (\<not> u) m off (mlen - off) = Some True" and "mlen \<le> length m"
  shows "\<exists>as. parse_attrs u m mlen off = Some as \<and>
    (\<forall>(t, p, l) \<in> set as. off + 4 \<le> p \<and> p + unat l \<le> mlen)"
  using assms
proof (induction u m mlen off rule: parse_attrs.induct)
  case (1 u m mlen off)
  show ?case
  proof (cases "off < mlen")
    case True
    then have "0 < mlen - off" by simp
    from validate_attributes_step [OF "1.prems"(1) this] obtain l
      where l: "4 \<le> mlen - off" "stun_getw m (off + 2) = Some l"
        "attr_space u l \<le> mlen - off - 4"
        "validate_attributes (\<not> u) m (off + 4 + attr_space u l)
           (mlen - off - 4 - attr_space u l) = Some True"
      by auto
    from l(1) "1.prems"(2) have "stun_getw m off \<noteq> None"
      by (auto simp: stun_getw_None_iff)
    then obtain t where t: "stun_getw m off = Some t" by blast
    from l(4) have "validate_attributes (\<not> u) m (off + 4 + attr_space u l)
        (mlen - (off + 4 + attr_space u l)) = Some True"
      by (simp add: diff_diff_left add.assoc)
    from "1.IH" [OF True t l(2) this "1.prems"(2)] obtain rest
      where rest: "parse_attrs u m mlen (off + 4 + attr_space u l) = Some rest"
        "\<forall>(t, p, l') \<in> set rest. off + 4 + attr_space u l + 4 \<le> p \<and> p + unat l' \<le> mlen"
      by blast
    show ?thesis
      using True t l rest attr_space_ge [of l u]
      by (subst parse_attrs.simps) fastforce
  next
    case False
    then show ?thesis by (subst parse_attrs.simps) simp
  qed
qed

section \<open>Validated messages\<close>

definition validated :: "stun_message \<Rightarrow> bool" where
  "validated msg \<longleftrightarrow> length (buffer msg) = buffer_len msg \<and>
    (case stun_message_validate_buffer_length (buffer msg) (buffer_len msg)
        (\<not> no_aligned (msg_agent msg)) of None \<Rightarrow> False | Some n \<Rightarrow> 0 < n)"

definition msg_attrs :: "stun_message \<Rightarrow> attr list option" where
  "msg_attrs msg = do {
     mlen \<leftarrow> stun_message_length msg;
     parse_attrs (no_aligned (msg_agent msg)) (buffer msg) (unat mlen) STUN_MESSAGE_ATTRIBUTES_POS }"

lemma find_msg_attrs:
  "msg_attrs msg = Some as \<Longrightarrow>
     stun_message_find msg t = Some (lookup_attr (ms_swap (msg_agent msg) t) as)"
  by (auto simp: msg_attrs_def stun_message_find_def find_from_lookup split: bind_splits)

lemma validatedD:
  assumes "validated msg"
  shows "len_field (buffer msg) + 20 \<le> length (buffer msg)"
    "validate_attributes (\<not> no_aligned (msg_agent msg)) (buffer msg) 20 (len_field (buffer msg)) =
       Some True"
    "wf_message msg"
proof -
  from assms obtain n where l: "length (buffer msg) = buffer_len msg" and n: "0 < n"
    and v: "stun_message_validate_buffer_length (buffer msg) (length (buffer msg))
      (\<not> no_aligned (msg_agent msg)) = Some n"
    by (auto simp: validated_def split: option.splits)
  show "len_field (buffer msg) + 20 \<le> length (buffer msg)"
    "validate_attributes (\<not> no_aligned (msg_agent msg)) (buffer msg) 20 (len_field (buffer msg)) =
       Some True"
    using validate_buffer_length_positive [OF v n] by simp_all
  then show "wf_message msg" using l by (simp add: wf_message_def)
qed

lemma unat_length_word: "unat (of_nat k + 20 :: u16) = (k + 20) mod 65536"
  by (simp add: unat_word_ariths unat_of_nat mod_simps)

text \<open>
  The length \<open>stun_message_length\<close> reports is a 16-bit number: for a length field above 65515 it
  wraps around to less than a header, and such a message has no attributes to be found.
\<close>

lemma validated_attrs:
  assumes "validated msg"
  shows "\<exists>as. msg_attrs msg = Some as \<and>
    (\<forall>(t, p, l) \<in> set as. 24 \<le> p \<and> p + unat l \<le> length (buffer msg))"
proof -
  note v = validatedD [OF assms]
  let ?k = "len_field (buffer msg)" and ?u = "no_aligned (msg_agent msg)"
  have len: "stun_message_length msg = Some (of_nat ?k + 20)"
    using v(1) by (simp add: stun_message_length_def stun_getw_len_field)
  show ?thesis
  proof (cases "?k + 20 < 65536")
    case True
    from v(2) have "validate_attributes (\<not> ?u) (buffer msg) 20 (?k + 20 - 20) = Some True"
      by simp
    from validated_parses [OF this v(1)] v(1) True show ?thesis
      by (fastforce simp: msg_attrs_def len unat_length_word)
  next
    case False
    with len_field_less [of "buffer msg"] have "(?k + 20) mod 65536 < 20"
      by (auto simp: mod_if)
    then show ?thesis
      by (simp add: msg_attrs_def len unat_length_word parse_attrs.simps)
  qed
qed

section \<open>Lookup as an interface\<close>

text \<open>
  What the typed accessors rely on: on a valid message the lookup returns, and a value it
  reports lies inside the object. The accessors' safety is proved from these two laws.
\<close>

locale attribute_lookup =
  fixes valid :: "'m \<Rightarrow> bool"
    and mem :: "'m \<Rightarrow> bytes"
    and lookup :: "'m \<Rightarrow> stun_attribute \<Rightarrow> (nat \<times> u16) option option"
  assumes lookup_total: "valid m \<Longrightarrow> \<exists>r. lookup m t = Some r"
    and lookup_bounds: "valid m \<Longrightarrow> lookup m t = Some (Some (p, l)) \<Longrightarrow> p + unat l \<le> length (mem m)"
begin

lemma lookup_cases:
  assumes "valid m"
  obtains (absent) "lookup m t = Some None" | (present) p l where "lookup m t = Some (Some (p, l))"
  using lookup_total [OF assms, of t] by (auto split: option.splits) (metis not_None_eq surj_pair)

lemma read_value:
  "valid m \<Longrightarrow> lookup m t = Some (Some (p, l)) \<Longrightarrow> i + n \<le> unat l \<Longrightarrow>
     rdn (mem m) (p + i) n = Some (take n (drop (p + i) (mem m)))"
  using lookup_bounds [of m t p l] by (simp add: rdn_def)

lemma read_byte:
  "valid m \<Longrightarrow> lookup m t = Some (Some (p, l)) \<Longrightarrow> i < unat l \<Longrightarrow>
     rd (mem m) (p + i) = Some (mem m ! (p + i))"
  using lookup_bounds [of m t p l] by (simp add: rd_def)

end

interpretation val: attribute_lookup validated buffer stun_message_find
proof
  fix m t assume "validated m"
  then obtain as where as: "msg_attrs m = Some as"
    and b: "\<forall>(t, p, l) \<in> set as. 24 \<le> p \<and> p + unat l \<le> length (buffer m)"
    using validated_attrs by blast
  show "\<exists>r. stun_message_find m t = Some r"
    by (simp add: find_msg_attrs [OF as])
  fix p l assume "stun_message_find m t = Some (Some (p, l))"
  then have "(ms_swap (msg_agent m) t, p, l) \<in> set as"
    by (simp add: find_msg_attrs [OF as] lookup_attr_in)
  with b show "p + unat l \<le> length (buffer m)" by auto
qed

section \<open>The accessors are safe on validated messages\<close>

lemma has_attribute_safe: "validated msg \<Longrightarrow> \<exists>r. stun_message_has_attribute msg t = Some r"
  using val.lookup_total [of msg t] by (auto simp: stun_message_has_attribute_def)

lemma find_flag_safe: "validated msg \<Longrightarrow> \<exists>r. stun_message_find_flag msg t = Some r"
  using val.lookup_total [of msg t] by (auto simp: stun_message_find_flag_def)

lemma find32_safe:
  assumes "validated msg" shows "\<exists>r. stun_message_find32 msg t = Some r"
  using assms
proof (cases rule: val.lookup_cases [where t = t])
  case (present p l)
  with val.read_value [OF assms present, of 0 4] show ?thesis
    by (auto simp: stun_message_find32_def)
qed (simp add: stun_message_find32_def)

lemma find64_safe:
  assumes "validated msg" shows "\<exists>r. stun_message_find64 msg t = Some r"
  using assms
proof (cases rule: val.lookup_cases [where t = t])
  case (present p l)
  with val.read_value [OF assms present, of 0 4] val.read_value [OF assms present, of 4 4]
  show ?thesis by (auto simp: stun_message_find64_def)
qed (simp add: stun_message_find64_def)

lemma find_string_safe:
  assumes "validated msg" and "length buf = buflen"
  shows "\<exists>r. stun_message_find_string msg t buf buflen = Some r"
  using assms(1)
proof (cases rule: val.lookup_cases [where t = t])
  case (present p l)
  with val.read_value [OF assms(1) present, of 0 "unat l"] assms(2) show ?thesis
    by (auto simp: stun_message_find_string_def wrn_def wr_def)
qed (simp add: stun_message_find_string_def)

lemma find_addr_safe:
  assumes "validated msg" and "addrlen \<le> sizeof_sockaddr_storage"
  shows "\<exists>r. stun_message_find_addr msg t addrlen = Some r"
  using assms(1)
proof (cases rule: val.lookup_cases [where t = t])
  case (present p l)
  note rv = val.read_value [OF assms(1) present] and rb = val.read_byte [OF assms(1) present]
  consider "unat l < 4" | "4 \<le> unat l" by linarith
  then show ?thesis
  proof cases
    case 1
    then show ?thesis
      by (simp add: stun_message_find_addr_def present word_less_nat_alt)
  next
    case 2
    with rb [of 1] have b: "rd (buffer msg) (p + 1) = Some (buffer msg ! (p + 1))" by simp
    show ?thesis
      using 2 b assms(2) rv [of 2 2] rv [of 4 4] rv [of 4 16]
      by (auto simp: stun_message_find_addr_def present word_less_nat_alt)
  qed
qed (simp add: stun_message_find_addr_def)

lemma xor_address_safe: "wf_message msg \<Longrightarrow> \<exists>r. stun_xor_address msg a n c = Some r"
  by (auto simp: stun_xor_address_def wf_message_def rdn_def split: sockaddr.split)

lemma find_xor_addr_full_safe:
  assumes "validated msg" and "addrlen \<le> sizeof_sockaddr_storage"
  shows "\<exists>r. stun_message_find_xor_addr_full msg t addrlen cookie = Some r"
proof -
  obtain v a n where f: "stun_message_find_addr msg t addrlen = Some (v, a, n)"
    using find_addr_safe [OF assms, of t] by auto
  show ?thesis
  proof (cases a)
    case None
    then show ?thesis by (simp add: stun_message_find_xor_addr_full_def f)
  next
    case (Some x)
    obtain r where "stun_xor_address msg x n cookie = Some r"
      using xor_address_safe [OF validatedD(3) [OF assms(1)]] by blast
    then show ?thesis
      by (cases r) (auto simp: stun_message_find_xor_addr_full_def f Some)
  qed
qed

lemma find_error_safe:
  assumes "validated msg" shows "\<exists>r. stun_message_find_error msg = Some r"
  using assms
proof (cases rule: val.lookup_cases [where t = STUN_ATTRIBUTE_ERROR_CODE])
  case (present p l)
  note rb = val.read_byte [OF assms present]
  show ?thesis
    using rb [of 2] rb [of 3]
    by (cases "unat l < 4")
      (auto simp: stun_message_find_error_def present word_less_nat_alt Let_def)
qed (simp add: stun_message_find_error_def)

lemma find_error_range:
  assumes "stun_message_find_error msg = Some (STUN_MESSAGE_RETURN_SUCCESS, Some code)"
  shows "300 \<le> code \<and> code \<le> 699"
  using assms
  by (auto simp: stun_message_find_error_def Let_def word_less_nat_alt
      split: bind_splits option.splits if_splits)

end
