(* ===== verification/Stun_Append.thy ===== *)
theory Stun_Append
  imports Stun_Find
begin

unbundle bit_operations_syntax

text \<open>
  Building messages, from \<open>stun/stunmessage.c\<close>: \<open>stun_message_append\<close>, which reserves room for
  one attribute and updates the length field, and the typed writers on top of it.
\<close>

section \<open>Definitions\<close>

text \<open>
  The result is the offset of the value, or \<^term>\<open>None\<close> for a null pointer, and the message. The
  running length \<open>mlen\<close> is a 16-bit number, as in the source.
\<close>

definition stun_message_append ::
    "stun_message \<Rightarrow> stun_attribute \<Rightarrow> nat \<Rightarrow> (nat option \<times> stun_message) option" where
  "stun_message_append msg type len = do {
     mlen \<leftarrow> stun_message_length msg;
     let type = ms_swap (msg_agent msg) type in
     if unat mlen + STUN_ATTRIBUTE_HEADER_LENGTH + len > buffer_len msg then Some (None, msg)
     else do {
       (b1, a1) \<leftarrow> stun_setw (buffer msg) (unat mlen) type;
       (b3, a, mlen2) \<leftarrow>
         (if no_aligned (msg_agent msg) then do {
            (b2, a2) \<leftarrow> stun_setw b1 a1 (of_nat len);
            Some (b2, a2, mlen) }
          else do {
            cookie \<leftarrow> stun_message_has_cookie (msg\<lparr>buffer := b1\<rparr>);
            (b2, a2) \<leftarrow> stun_setw b1 a1 (of_nat (if cookie then len else stun_align len));
            if stun_padding len > 0 then do {
              b \<leftarrow> wrn b2 (a2 + len) (replicate (stun_padding len) 0x20);
              Some (b, a2, mlen + of_nat (stun_padding len)) }
            else Some (b2, a2, mlen) });
       let mlen3 = mlen2 + of_nat (4 + len);
       (b4, _) \<leftarrow> stun_setw b3 STUN_MESSAGE_LENGTH_POS (mlen3 - of_nat STUN_MESSAGE_HEADER_LENGTH);
       Some (Some a, msg\<lparr>buffer := b4\<rparr>) } }"

definition stun_message_append_bytes ::
    "stun_message \<Rightarrow> stun_attribute \<Rightarrow> bytes \<Rightarrow> (stun_return \<times> stun_message) option" where
  "stun_message_append_bytes msg type data = do {
     (ptr, msg1) \<leftarrow> stun_message_append msg type (length data);
     case ptr of None \<Rightarrow> Some (STUN_MESSAGE_RETURN_NOT_ENOUGH_SPACE, msg1)
     | Some p \<Rightarrow>
         if length data > 0 then do {
           b \<leftarrow> wrn (buffer msg1) p data;
           Some (STUN_MESSAGE_RETURN_SUCCESS, msg1\<lparr>buffer := b\<rparr>) }
         else Some (STUN_MESSAGE_RETURN_SUCCESS, msg1) }"

definition stun_message_append_flag ::
    "stun_message \<Rightarrow> stun_attribute \<Rightarrow> (stun_return \<times> stun_message) option" where
  "stun_message_append_flag msg type = stun_message_append_bytes msg type []"

definition stun_message_append32 ::
    "stun_message \<Rightarrow> stun_attribute \<Rightarrow> u32 \<Rightarrow> (stun_return \<times> stun_message) option" where
  "stun_message_append32 msg type value =
     stun_message_append_bytes msg type (host_bytes32 (htonl value))"

definition stun_message_append64 ::
    "stun_message \<Rightarrow> stun_attribute \<Rightarrow> u64 \<Rightarrow> (stun_return \<times> stun_message) option" where
  "stun_message_append64 msg type value =
     stun_message_append_bytes msg type
       (host_bytes32 (htonl (ucast (drop_bit 32 value))) @ host_bytes32 (htonl (ucast value)))"

definition stun_message_append_string ::
    "stun_message \<Rightarrow> stun_attribute \<Rightarrow> string \<Rightarrow> (stun_return \<times> stun_message) option" where
  "stun_message_append_string msg type str = stun_message_append_bytes msg type (c_string str)"

text \<open>The family code, port bytes and address bytes written for a socket address.\<close>

definition stun_message_append_addr ::
    "stun_message \<Rightarrow> stun_attribute \<Rightarrow> sockaddr \<Rightarrow> nat \<Rightarrow> (stun_return \<times> stun_message) option" where
  "stun_message_append_addr msg type addr addrlen =
    (if addrlen < sizeof_sockaddr then Some (STUN_MESSAGE_RETURN_INVALID, msg)
     else
       let write = (\<lambda>family port pa. do {
         (ptr, msg1) \<leftarrow> stun_message_append msg type (4 + length pa);
         case ptr of None \<Rightarrow> Some (STUN_MESSAGE_RETURN_NOT_ENOUGH_SPACE, msg1)
         | Some p \<Rightarrow> do {
             b1 \<leftarrow> wr (buffer msg1) p 0;
             b2 \<leftarrow> wr b1 (p + 1) family;
             b3 \<leftarrow> wrn b2 (p + 2) (host_bytes16 port);
             b4 \<leftarrow> wrn b3 (p + 4) pa;
             Some (STUN_MESSAGE_RETURN_SUCCESS, msg1\<lparr>buffer := b4\<rparr>) } })
       in (case addr of
         AF_INET ip4 \<Rightarrow> write 1 (sin_port ip4) (host_bytes32 (sin_addr ip4))
       | AF_INET6 ip6 \<Rightarrow>
           if addrlen < sizeof_sockaddr_in6 then Some (STUN_MESSAGE_RETURN_INVALID, msg)
           else write 2 (sin6_port ip6) (sin6_addr ip6)
       | AF_OTHER _ \<Rightarrow> Some (STUN_MESSAGE_RETURN_UNSUPPORTED_ADDRESS, msg)))"

definition stun_message_append_xor_addr_full ::
    "stun_message \<Rightarrow> stun_attribute \<Rightarrow> sockaddr \<Rightarrow> nat \<Rightarrow> u32 \<Rightarrow>
      (stun_return \<times> stun_message) option" where
  "stun_message_append_xor_addr_full msg type addr addrlen magic_cookie = do {
     let addrlen = min addrlen sizeof_sockaddr_storage;
     (val, tmpaddr) \<leftarrow> stun_xor_address msg addr addrlen magic_cookie;
     if val \<noteq> STUN_MESSAGE_RETURN_SUCCESS then Some (val, msg)
     else stun_message_append_addr msg type tmpaddr addrlen }"

definition stun_message_append_xor_addr ::
    "stun_message \<Rightarrow> stun_attribute \<Rightarrow> sockaddr \<Rightarrow> nat \<Rightarrow> (stun_return \<times> stun_message) option" where
  "stun_message_append_xor_addr msg type addr addrlen =
     stun_message_append_xor_addr_full msg type addr addrlen STUN_MAGIC_COOKIE"

definition stun_message_append_error ::
    "stun_message \<Rightarrow> stun_error \<Rightarrow> (stun_return \<times> stun_message) option" where
  "stun_message_append_error msg code = do {
     let str = c_string (stun_strerror code);
     (ptr, msg1) \<leftarrow> stun_message_append msg STUN_ATTRIBUTE_ERROR_CODE (4 + length str);
     case ptr of None \<Rightarrow> Some (STUN_MESSAGE_RETURN_NOT_ENOUGH_SPACE, msg1)
     | Some p \<Rightarrow> do {
         b1 \<leftarrow> wrn (buffer msg1) p [0, 0];
         b2 \<leftarrow> wr b1 (p + 2) (of_nat (code div 100));
         b3 \<leftarrow> wr b2 (p + 3) (of_nat (code mod 100));
         b4 \<leftarrow> wrn b3 (p + 4) str;
         Some (STUN_MESSAGE_RETURN_SUCCESS, msg1\<lparr>buffer := b4\<rparr>) } }"

section \<open>Extending the attribute region\<close>

text \<open>The walk over the attributes depends only on the region it walks over.\<close>

lemma validate_attributes_cong:
  assumes "\<And>i. ptr \<le> i \<Longrightarrow> i < ptr + len \<Longrightarrow> m ! i = m' ! i"
    and "ptr + len \<le> length m" and "ptr + len \<le> length m'"
  shows "validate_attributes p m ptr len = validate_attributes p m' ptr len"
  using assms
proof (induction p m ptr len rule: validate_attributes.induct)
  case (1 p m ptr len)
  show ?case
  proof (cases "len < 4")
    case True
    then show ?thesis by (simp add: validate_attributes.simps [of p _ ptr len])
  next
    case False
    with "1.prems" have g: "stun_getw m (ptr + 2) = stun_getw m' (ptr + 2)"
      by (intro stun_getw_cong) auto
    have IH: "validate_attributes p m (ptr + 4 + a) (len - 4 - a) =
        validate_attributes p m' (ptr + 4 + a) (len - 4 - a)"
      if "stun_getw m (ptr + 2) = Some w" "a = (if p then stun_align (unat w) else unat w)"
        "\<not> len - 4 < a" for w a
      using "1.IH" [of w a] False that "1.prems" by auto
    show ?thesis
      using False g IH
      by (auto simp: validate_attributes.simps [of p _ ptr len] Let_def split: option.splits)
  qed
qed

lemma validate_attributes_0 [simp]: "validate_attributes p m ptr 0 = Some True"
  by (simp add: validate_attributes.simps)

lemma validate_attributes_snoc:
  assumes "validate_attributes p m ptr len = Some True" and "stun_getw m (ptr + len + 2) = Some w"
  shows "validate_attributes p m ptr (len + 4 + attr_space (\<not> p) w) = Some True"
  using assms
proof (induction p m ptr len rule: validate_attributes.induct)
  case (1 p m ptr len)
  show ?case
  proof (cases "len = 0")
    case True
    with "1.prems"(2) have "stun_getw m (ptr + 2) = Some w" by simp
    then show ?thesis using True
      by (simp add: validate_attributes.simps [of p m ptr] attr_space_def)
  next
    case False
    then have "0 < len" by simp
    from validate_attributes_step [OF "1.prems"(1) this] obtain v
      where v: "4 \<le> len" "stun_getw m (ptr + 2) = Some v" "attr_space (\<not> p) v \<le> len - 4"
        "validate_attributes p m (ptr + 4 + attr_space (\<not> p) v) (len - 4 - attr_space (\<not> p) v) =
          Some True"
      by blast
    have a: "(if p then stun_align (unat v) else unat v) = attr_space (\<not> p) v"
      by (simp add: attr_space_def)
    have eq: "ptr + 4 + attr_space (\<not> p) v + (len - 4 - attr_space (\<not> p) v) + 2 = ptr + len + 2"
      using v by simp
    have "validate_attributes p m (ptr + 4 + attr_space (\<not> p) v)
        (len - 4 - attr_space (\<not> p) v + 4 + attr_space (\<not> p) w) = Some True"
      by (rule "1.IH" [OF \<open>0 < len\<close> _ v(2) a [symmetric]]) (use v "1.prems"(2) eq in simp_all)
    moreover have "len - 4 - attr_space (\<not> p) v + 4 + attr_space (\<not> p) w =
        len + 4 + attr_space (\<not> p) w - 4 - attr_space (\<not> p) v"
      using v by simp
    ultimately show ?thesis
      using v by (simp add: validate_attributes.simps [of p m ptr] a Let_def)
  qed
qed

lemma parse_attrs_snoc:
  assumes "validate_attributes (\<not> u) m off (mlen - off) = Some True" and "off \<le> mlen"
    and "stun_getw m mlen = Some t" and "stun_getw m (mlen + 2) = Some w"
    and "parse_attrs u m mlen off = Some as"
  shows "parse_attrs u m (mlen + 4 + attr_space u w) off = Some (as @ [(t, mlen + 4, w)])"
  using assms
proof (induction u m mlen off arbitrary: as rule: parse_attrs.induct)
  case (1 u m mlen off)
  show ?case
  proof (cases "off < mlen")
    case False
    with "1.prems" have "off = mlen" and "as = []"
      by (auto simp: parse_attrs.simps [of u m mlen])
    with "1.prems"(3,4) show ?thesis
      by (simp add: parse_attrs.simps)
  next
    case True
    then have pos: "0 < mlen - off" by simp
    from validate_attributes_step [OF "1.prems"(1) this] obtain l
      where l: "4 \<le> mlen - off" "stun_getw m (off + 2) = Some l" "attr_space u l \<le> mlen - off - 4"
        "validate_attributes (\<not> u) m (off + 4 + attr_space u l)
           (mlen - (off + 4 + attr_space u l)) = Some True"
      by (auto simp: diff_diff_left add.assoc)
    from "1.prems"(5) True l(2) obtain t' rest where t': "stun_getw m off = Some t'"
      and rest: "parse_attrs u m mlen (off + 4 + attr_space u l) = Some rest"
      and as: "as = (t', off + 4, l) # rest"
      by (subst (asm) parse_attrs.simps) (auto split: bind_splits)
    have "parse_attrs u m (mlen + 4 + attr_space u w) (off + 4 + attr_space u l) =
        Some (rest @ [(t, mlen + 4, w)])"
      by (rule "1.IH" [OF True t' l(2,4) _ "1.prems"(3,4) rest]) (use l in simp)
    with True t' l(2) show ?thesis
      by (simp add: parse_attrs.simps [of u m _ off] as)
  qed
qed

lemma parse_attrs_cong:
  assumes "\<And>i. off \<le> i \<Longrightarrow> i < mlen \<Longrightarrow> m ! i = m' ! i" and "mlen \<le> length m" and "mlen \<le> length m'"
    and "validate_attributes (\<not> u) m off (mlen - off) = Some True"
  shows "parse_attrs u m mlen off = parse_attrs u m' mlen off"
  using assms
proof (induction u m mlen off rule: parse_attrs.induct)
  case (1 u m mlen off)
  show ?case
  proof (cases "off < mlen")
    case False
    then show ?thesis by (simp add: parse_attrs.simps [of u _ mlen off])
  next
    case True
    then have pos: "0 < mlen - off" by simp
    from validate_attributes_step [OF "1.prems"(4) this] obtain l
      where l: "4 \<le> mlen - off" "stun_getw m (off + 2) = Some l" "attr_space u l \<le> mlen - off - 4"
        "validate_attributes (\<not> u) m (off + 4 + attr_space u l)
           (mlen - (off + 4 + attr_space u l)) = Some True"
      by (auto simp: diff_diff_left add.assoc)
    have g: "stun_getw m off = stun_getw m' off" "stun_getw m (off + 2) = stun_getw m' (off + 2)"
      using l(1) "1.prems" by (auto intro!: stun_getw_cong)
    obtain t where t: "stun_getw m off = Some t"
      using l(1) "1.prems"(2) by (cases "stun_getw m off") (auto simp: stun_getw_None_iff)
    have "parse_attrs u m mlen (off + 4 + attr_space u l) =
        parse_attrs u m' mlen (off + 4 + attr_space u l)"
      by (rule "1.IH" [OF True t l(2)]) (use "1.prems" l(4) in auto)
    moreover from g t l(2) have "stun_getw m' off = Some t" "stun_getw m' (off + 2) = Some l"
      by simp_all
    ultimately show ?thesis
      using True t l(2) by (simp add: parse_attrs.simps [of u _ mlen off])
  qed
qed

section \<open>Messages under construction\<close>

text \<open>
  The invariant of a message the library builds: the buffer has the announced size, the length
  field covers a region of it that consists of whole attributes, and the message length still
  fits its 16-bit variable.
\<close>

definition built :: "stun_message \<Rightarrow> bool" where
  "built msg \<longleftrightarrow> length (buffer msg) = buffer_len msg \<and>
     len_field (buffer msg) + 20 \<le> buffer_len msg \<and> len_field (buffer msg) + 20 < 65536 \<and>
     validate_attributes (\<not> no_aligned (msg_agent msg)) (buffer msg) 20 (len_field (buffer msg)) =
       Some True"

definition msg_end :: "stun_message \<Rightarrow> nat" where
  "msg_end msg = len_field (buffer msg) + 20"

lemma built_length:
  "built msg \<Longrightarrow> stun_message_length msg = Some (of_nat (msg_end msg))"
  "built msg \<Longrightarrow> unat (of_nat (msg_end msg) :: u16) = msg_end msg"
  by (simp_all add: built_def msg_end_def stun_message_length_def stun_getw_len_field unat_length_word)

lemma built_attrs:
  assumes "built msg"
  shows "\<exists>as. msg_attrs msg = Some as \<and>
    (\<forall>(t, p, l) \<in> set as. 24 \<le> p \<and> p + unat l \<le> msg_end msg)"
proof -
  from assms have "validate_attributes (\<not> no_aligned (msg_agent msg)) (buffer msg) 20
      (msg_end msg - 20) = Some True" and "msg_end msg \<le> length (buffer msg)"
    by (simp_all add: built_def msg_end_def)
  from validated_parses [OF this] show ?thesis
    using built_length [OF assms] by (simp add: msg_attrs_def)
qed

section \<open>What an append does\<close>

definition append_pad :: "stun_message \<Rightarrow> nat \<Rightarrow> nat" where
  "append_pad msg len = (if no_aligned (msg_agent msg) then 0 else stun_padding len)"

text \<open>The length written into the attribute header, before it is cut to 16 bits.\<close>

definition append_len :: "stun_message \<Rightarrow> nat \<Rightarrow> nat" where
  "append_len msg len =
    (if no_aligned (msg_agent msg) \<or> stun_message_has_cookie msg = Some True then len
     else stun_align len)"

definition append_buffer :: "stun_message \<Rightarrow> stun_attribute \<Rightarrow> nat \<Rightarrow> bytes" where
  "append_buffer msg t len =
    (let n = msg_end msg; pad = append_pad msg len;
         b1 = put (buffer msg) n (be16_bytes (ms_swap (msg_agent msg) t));
         b2 = put b1 (n + 2) (be16_bytes (of_nat (append_len msg len)));
         b3 = put b2 (n + 4 + len) (replicate pad 0x20)
     in put b3 2 (be16_bytes (of_nat (n - 20 + (4 + len + pad)))))"

lemma append_not_enough_space:
  assumes "built msg" and "buffer_len msg < msg_end msg + 4 + len"
  shows "stun_message_append msg t len = Some (None, msg)"
  using assms by (simp add: stun_message_append_def built_length)

lemma has_cookie_put:
  assumes "20 \<le> i" and "i + length bs \<le> length (buffer msg)"
  shows "stun_message_has_cookie (msg\<lparr>buffer := put (buffer msg) i bs\<rparr>) = stun_message_has_cookie msg"
proof -
  have "rdn (put (buffer msg) i bs) 4 16 = rdn (buffer msg) 4 16"
    using assms by (simp add: rdn_def take_drop_put_other)
  then show ?thesis by (simp add: stun_message_has_cookie_def stun_message_id_def)
qed

lemma append_eq:
  assumes "built msg" and fits: "msg_end msg + 4 + len + append_pad msg len \<le> buffer_len msg"
  shows "stun_message_append msg t len =
    Some (Some (msg_end msg + 4), msg\<lparr>buffer := append_buffer msg t len\<rparr>)"
proof -
  let ?n = "msg_end msg"
  have n: "20 \<le> ?n" "length (buffer msg) = buffer_len msg"
    using assms(1) by (simp_all add: built_def msg_end_def)
  obtain ck where ck: "stun_message_has_cookie msg = Some ck"
    using assms(1) wf_message_readable(5) [of msg] by (auto simp: built_def wf_message_def)
  have w: "of_nat ?n + of_nat (append_pad msg len) + of_nat (4 + len) - of_nat 20 =
      (of_nat (?n - 20 + (4 + len + append_pad msg len)) :: u16)"
    using n(1) by (simp add: of_nat_diff)
  show ?thesis
    using n fits ck w
    by (simp add: stun_message_append_def built_length [OF assms(1)] stun_setw_put has_cookie_put
        wrn_put append_buffer_def Let_def append_pad_def append_len_def algebra_simps split: if_splits)
qed

lemma append_buffer_props:
  assumes "built msg" and fits: "msg_end msg + 4 + len + append_pad msg len \<le> buffer_len msg"
    and small: "msg_end msg + 4 + len + append_pad msg len < 65536"
  shows "length (append_buffer msg t len) = length (buffer msg)" (is ?len)
    and "i < msg_end msg \<Longrightarrow> i \<noteq> 2 \<Longrightarrow> i \<noteq> 3 \<Longrightarrow> append_buffer msg t len ! i = buffer msg ! i"
    and "stun_getw (append_buffer msg t len) (msg_end msg) = Some (ms_swap (msg_agent msg) t)"
    and "stun_getw (append_buffer msg t len) (msg_end msg + 2) = Some (of_nat (append_len msg len))"
    and "len_field (append_buffer msg t len) = msg_end msg - 20 + (4 + len + append_pad msg len)"
proof -
  let ?n = "msg_end msg" and ?b = "append_buffer msg t len"
  have n: "20 \<le> ?n" "length (buffer msg) = buffer_len msg"
    using assms(1) by (simp_all add: built_def msg_end_def)
  show l: ?len using n fits by (simp add: append_buffer_def Let_def)
  show "?b ! i = buffer msg ! i" if "i < ?n" "i \<noteq> 2" "i \<noteq> 3"
  proof -
    from that have "\<not> (2 \<le> i \<and> i < 4)" by linarith
    with n fits that(1) show ?thesis by (auto simp: append_buffer_def Let_def nth_put)
  qed
  show "stun_getw ?b ?n = Some (ms_swap (msg_agent msg) t)"
    "stun_getw ?b (?n + 2) = Some (of_nat (append_len msg len))"
    using n fits
    by (simp_all add: append_buffer_def Let_def stun_getw_put_other stun_getw_put_same)
  have "stun_getw ?b 2 = Some (of_nat (?n - 20 + (4 + len + append_pad msg len)))"
    unfolding append_buffer_def Let_def
    by (rule stun_getw_put_same) (use n fits in simp)
  moreover have "stun_getw ?b 2 = Some (of_nat (len_field ?b))"
    by (rule stun_getw_len_field) (use l n fits in simp)
  ultimately have "(of_nat (len_field ?b) :: u16) = of_nat (?n - 20 + (4 + len + append_pad msg len))"
    by simp
  from arg_cong [OF this, of unat]
  have "len_field ?b mod 65536 = (?n - 20 + (4 + len + append_pad msg len)) mod 65536"
    by (simp only: unat_of_nat) simp
  then show "len_field ?b = ?n - 20 + (4 + len + append_pad msg len)"
    using len_field_less [of ?b] small n(1) by simp
qed

lemma append_len_space:
  assumes "len + append_pad msg len < 65536"
  shows "attr_space (no_aligned (msg_agent msg)) (of_nat (append_len msg len)) =
    len + append_pad msg len"
proof -
  have le: "len + 3 < 2 ^ 64" if "len < 65536" using that by simp
  have "stun_align (stun_align len) = stun_align len" if "len < 65536"
  proof -
    have "stun_padding (len + stun_padding len) = 0"
      using dvd_add_stun_padding [of len] stun_padding_if [of "len + stun_padding len"]
      by (simp only: dvd_eq_mod_eq_0 if_True simp_thms)
    moreover have "len + stun_padding len + 3 < 2 ^ 64"
      using that stun_padding_less [of len] by simp
    ultimately show ?thesis using that by (simp add: stun_align_eq)
  qed
  then show ?thesis
    using assms
    by (auto simp: append_len_def append_pad_def attr_space_def unat_of_nat stun_align_eq)
qed

text \<open>
  The contract of an append: with room for the padded attribute, the message stays well built
  and its attribute list grows by the new attribute at the end. It holds for every buffer that
  agrees with the appended one up to the new value, so the typed writers may fill the value in.
\<close>

lemma append_built:
  fixes t :: stun_attribute
  assumes "built msg" and fits: "msg_end msg + 4 + len + append_pad msg len \<le> buffer_len msg"
    and small: "msg_end msg + 4 + len + append_pad msg len < 65536"
    and as: "msg_attrs msg = Some as"
    and b_len: "length b = length (buffer msg)"
    and b_nth: "\<And>i. i < msg_end msg + 4 \<Longrightarrow> b ! i = append_buffer msg t len ! i"
  defines "msg' \<equiv> msg\<lparr>buffer := b\<rparr>"
  shows "built msg'" and "msg_end msg' = msg_end msg + 4 + len + append_pad msg len"
    and "msg_attrs msg' = Some (as @
      [(ms_swap (msg_agent msg) t, msg_end msg + 4, of_nat (append_len msg len))])"
proof -
  let ?n = "msg_end msg" and ?a = "append_buffer msg t len" and ?u = "no_aligned (msg_agent msg)"
  let ?w = "of_nat (append_len msg len) :: u16"
  note P = append_buffer_props [OF assms(1) fits small]
  have n: "20 \<le> ?n" "length (buffer msg) = buffer_len msg" "?n + 4 \<le> buffer_len msg"
    using assms(1) fits by (simp_all add: built_def msg_end_def)
  have sp: "attr_space ?u ?w = len + append_pad msg len"
    by (rule append_len_space) (use small in simp)
  have nth: "b ! i = buffer msg ! i" if "i < ?n" "i \<noteq> 2" "i \<noteq> 3" for i
    using P(2) [OF that] b_nth [of i] that(1) by simp
  have getw: "stun_getw b i = stun_getw ?a i" if "i + 2 \<le> ?n + 4" for i
    by (rule stun_getw_cong) (use b_len P(1) b_nth n that in auto)
  have lf: "len_field b = ?n - 20 + (4 + len + append_pad msg len)"
    using b_nth [of 2] b_nth [of 3] n P(5) by (simp add: len_field_def)
  have old: "validate_attributes (\<not> ?u) (buffer msg) 20 (?n - 20) = Some True"
    using assms(1) by (simp add: built_def msg_end_def)
  also have "validate_attributes (\<not> ?u) (buffer msg) 20 (?n - 20) =
      validate_attributes (\<not> ?u) b 20 (?n - 20)"
    by (rule validate_attributes_cong) (use n b_len nth in auto)
  finally have v: "validate_attributes (\<not> ?u) b 20 (?n - 20) = Some True" .
  have "validate_attributes (\<not> ?u) b 20 (?n - 20 + 4 + attr_space (\<not> \<not> ?u) ?w) = Some True"
    by (rule validate_attributes_snoc [OF v]) (use n getw P(4) in simp)
  then have "validate_attributes (\<not> ?u) b 20 (len_field b) = Some True"
    by (simp add: lf sp add.assoc)
  then show b': "built msg'"
    using b_len lf n fits small by (simp add: built_def msg'_def)
  show e': "msg_end msg' = ?n + 4 + len + append_pad msg len"
    using lf n by (simp add: msg_end_def msg'_def)
  have "parse_attrs ?u (buffer msg) ?n 20 = Some as"
    using as built_length [OF assms(1)] by (simp add: msg_attrs_def)
  moreover have "parse_attrs ?u (buffer msg) ?n 20 = parse_attrs ?u b ?n 20"
    by (rule parse_attrs_cong) (use n b_len nth old in auto)
  ultimately have "parse_attrs ?u b ?n 20 = Some as" by simp
  moreover have "stun_getw b ?n = Some (ms_swap (msg_agent msg) t)" "stun_getw b (?n + 2) = Some ?w"
    using getw P(3,4) by simp_all
  ultimately have "parse_attrs ?u b (?n + 4 + attr_space ?u ?w) 20 =
      Some (as @ [(ms_swap (msg_agent msg) t, ?n + 4, ?w)])"
    using parse_attrs_snoc [OF v n(1)] by blast
  then show "msg_attrs msg' = Some (as @ [(ms_swap (msg_agent msg) t, ?n + 4, ?w)])"
    using built_length [OF b'] by (simp add: msg_attrs_def e' sp add.assoc) (simp add: msg'_def)
qed

section \<open>Appending bytes\<close>

definition append_bytes_buffer :: "stun_message \<Rightarrow> stun_attribute \<Rightarrow> bytes \<Rightarrow> bytes" where
  "append_bytes_buffer msg t data = put (append_buffer msg t (length data)) (msg_end msg + 4) data"

abbreviation room_for :: "stun_message \<Rightarrow> nat \<Rightarrow> bool" where
  "room_for msg len \<equiv> msg_end msg + 4 + len + append_pad msg len \<le> buffer_len msg \<and>
     msg_end msg + 4 + len + append_pad msg len < 65536"

lemma append_bytes_eq:
  assumes "built msg" and "room_for msg (length data)"
  shows "stun_message_append_bytes msg t data =
    Some (STUN_MESSAGE_RETURN_SUCCESS, msg\<lparr>buffer := append_bytes_buffer msg t data\<rparr>)"
proof -
  have "length (append_buffer msg t (length data)) = buffer_len msg"
    using append_buffer_props(1) [OF assms(1)] assms by (simp add: built_def)
  then show ?thesis
    using assms
    by (simp add: stun_message_append_bytes_def append_eq wrn_put append_bytes_buffer_def)
qed

lemma append_bytes_built:
  fixes t :: stun_attribute
  assumes "built msg" and "room_for msg (length data)" and "msg_attrs msg = Some as"
  defines "msg' \<equiv> msg\<lparr>buffer := append_bytes_buffer msg t data\<rparr>"
  shows "built msg'" and "msg_end msg' = msg_end msg + 4 + length data + append_pad msg (length data)"
    and "msg_attrs msg' = Some (as @
      [(ms_swap (msg_agent msg) t, msg_end msg + 4, of_nat (append_len msg (length data)))])"
    and "rdn (buffer msg') (msg_end msg + 4) (length data) = Some data"
    and "i < msg_end msg \<Longrightarrow> i \<noteq> 2 \<Longrightarrow> i \<noteq> 3 \<Longrightarrow> buffer msg' ! i = buffer msg ! i"
proof -
  let ?b = "append_bytes_buffer msg t data"
  have fits: "msg_end msg + 4 + length data + append_pad msg (length data) \<le> buffer_len msg"
    and small: "msg_end msg + 4 + length data + append_pad msg (length data) < 65536"
    using assms(2) by simp_all
  note P = append_buffer_props [OF assms(1) fits small]
  have l: "length (buffer msg) = buffer_len msg" using assms(1) by (simp add: built_def)
  have b: "length ?b = length (buffer msg)"
    "\<And>i. i < msg_end msg + 4 \<Longrightarrow> ?b ! i = append_buffer msg t (length data) ! i"
    using P(1) fits l by (simp_all add: append_bytes_buffer_def nth_put)
  show "built msg'" "msg_end msg' = msg_end msg + 4 + length data + append_pad msg (length data)"
    "msg_attrs msg' = Some (as @
      [(ms_swap (msg_agent msg) t, msg_end msg + 4, of_nat (append_len msg (length data)))])"
    using append_built [OF assms(1) fits small assms(3) b] by (simp_all add: msg'_def)
  show "rdn (buffer msg') (msg_end msg + 4) (length data) = Some data"
    using P(1) fits l
    by (simp add: msg'_def rdn_def append_bytes_buffer_def take_drop_put_same)
  show "buffer msg' ! i = buffer msg ! i" if "i < msg_end msg" "i \<noteq> 2" "i \<noteq> 3"
    using P(2) [OF that] b(2) [of i] that(1) by (simp add: msg'_def)
qed

section \<open>Reading back what was appended\<close>

text \<open>
  A lookup of a type reaches the end of an attribute list when no attribute in it ends the
  search early.
\<close>

definition reaches :: "stun_attribute \<Rightarrow> attr list \<Rightarrow> bool" where
  "reaches ty as \<longleftrightarrow> list_all (\<lambda>(t, p, l). t \<noteq> ty \<and> \<not> stops_search t ty) as"

lemma lookup_attr_snoc:
  "t \<noteq> ty \<Longrightarrow> lookup_attr ty (as @ [(t, p, l)]) = lookup_attr ty as"
  "reaches ty as \<Longrightarrow> lookup_attr ty (as @ [(ty, p, l)]) = Some (p, l)"
  by (induction ty as rule: lookup_attr.induct) (auto simp: reaches_def)

lemma ms_swap_inj: "ms_swap ag t = ms_swap ag t' \<longleftrightarrow> t = t'"
  by (auto simp: ms_swap_def split: option.splits if_splits)

text \<open>The value of an attribute: the bytes its header announces.\<close>

definition attr_value :: "stun_message \<Rightarrow> stun_attribute \<Rightarrow> bytes option option" where
  "attr_value msg t = do {
     r \<leftarrow> stun_message_find msg t;
     case r of None \<Rightarrow> Some None
     | Some (p, l) \<Rightarrow> do { v \<leftarrow> rdn (buffer msg) p (unat l); Some (Some v) } }"

definition open_for :: "stun_message \<Rightarrow> stun_attribute \<Rightarrow> bool" where
  "open_for msg t \<longleftrightarrow>
    (case msg_attrs msg of None \<Rightarrow> False | Some as \<Rightarrow> reaches (ms_swap (msg_agent msg) t) as)"

lemma append_len_eq:
  "\<exists>k. append_len msg len = len + k \<and> k \<le> append_pad msg len \<and>
     (no_aligned (msg_agent msg) \<or> stun_message_has_cookie msg = Some True \<longrightarrow> k = 0)"
  if "len < 65536"
proof -
  have "len + 3 < 2 ^ 64" using that by simp
  then show ?thesis
    by (auto simp: append_len_def append_pad_def stun_align_eq)
qed

lemma find_append_same:
  assumes "built msg" and "room_for msg (length data)" and "open_for msg t"
    and "stun_message_append_bytes msg t data = Some (r, msg')"
  shows "stun_message_find msg' t =
    Some (Some (msg_end msg + 4, of_nat (append_len msg (length data))))"
proof -
  obtain as where as: "msg_attrs msg = Some as" "reaches (ms_swap (msg_agent msg) t) as"
    using assms(3) by (auto simp: open_for_def split: option.splits)
  from assms(4) have msg': "msg' = msg\<lparr>buffer := append_bytes_buffer msg t data\<rparr>"
    using append_bytes_eq [OF assms(1,2), of t] by simp
  show ?thesis
    using find_msg_attrs [OF append_bytes_built(3) [OF assms(1,2) as(1), of t], of t]
    by (simp add: msg' lookup_attr_snoc as(2))
qed

lemma attr_value_append_same:
  assumes "built msg" and "room_for msg (length data)" and "open_for msg t"
    and "stun_message_append_bytes msg t data = Some (r, msg')"
  shows "\<exists>pad. attr_value msg' t = Some (Some (data @ pad)) \<and>
    length pad \<le> append_pad msg (length data) \<and>
    (no_aligned (msg_agent msg) \<or> stun_message_has_cookie msg = Some True \<longrightarrow> pad = [])"
proof -
  let ?p = "msg_end msg + 4"
  from assms(4) have msg': "msg' = msg\<lparr>buffer := append_bytes_buffer msg t data\<rparr>"
    using append_bytes_eq [OF assms(1,2), of t] by simp
  obtain as where as: "msg_attrs msg = Some as"
    using assms(3) by (auto simp: open_for_def split: option.splits)
  note B = append_bytes_built [OF assms(1,2) as, where t = t, folded msg']
  have "length data < 65536" using assms(2) by simp
  then obtain k where k: "append_len msg (length data) = length data + k"
      "k \<le> append_pad msg (length data)"
      "no_aligned (msg_agent msg) \<or> stun_message_has_cookie msg = Some True \<longrightarrow> k = 0"
    using append_len_eq by blast
  then have u: "unat (of_nat (append_len msg (length data)) :: u16) = length data + k"
    using assms(2) by (simp add: unat_of_nat del: of_nat_add)
  have fit: "?p + (length data + k) \<le> length (buffer msg')"
    using B(1,2) k(2) by (simp add: built_def msg_end_def)
  have "rdn (buffer msg') ?p (length data + k) =
      Some (data @ take k (drop (?p + length data) (buffer msg')))"
    using rdn_split(3) [OF B(4)] fit by simp
  then show ?thesis
    using k(2,3) fit by (auto simp: attr_value_def find_append_same [OF assms] u)
qed

lemma attr_value_append_other:
  assumes "built msg" and "room_for msg (length data)" and "t' \<noteq> t"
    and "stun_message_append_bytes msg t data = Some (r, msg')"
  shows "stun_message_find msg' t' = stun_message_find msg t'" "attr_value msg' t' = attr_value msg t'"
proof -
  from assms(4) have msg': "msg' = msg\<lparr>buffer := append_bytes_buffer msg t data\<rparr>"
    using append_bytes_eq [OF assms(1,2), of t] by simp
  obtain as where as: "msg_attrs msg = Some as"
    and b: "\<forall>(t, p, l) \<in> set as. 24 \<le> p \<and> p + unat l \<le> msg_end msg"
    using built_attrs [OF assms(1)] by blast
  note B = append_bytes_built [OF assms(1,2) as, where t = t, folded msg']
  have ag: "msg_agent msg' = msg_agent msg" by (simp add: msg')
  show f: "stun_message_find msg' t' = stun_message_find msg t'"
    using assms(3) find_msg_attrs [OF as, of t'] find_msg_attrs [OF B(3), of t']
    by (simp add: ag lookup_attr_snoc ms_swap_inj)
  have "rdn (buffer msg') p (unat l) = rdn (buffer msg) p (unat l)"
    if "stun_message_find msg t' = Some (Some (p, l))" for p l
  proof -
    from that find_msg_attrs [OF as, of t']
    have "(ms_swap (msg_agent msg) t', p, l) \<in> set as" by (simp add: lookup_attr_in)
    with b have pl: "24 \<le> p" "p + unat l \<le> msg_end msg" by auto
    have len: "length (buffer msg') = length (buffer msg)" "msg_end msg \<le> length (buffer msg)"
      using assms(1) B(1) by (simp_all add: built_def msg_end_def msg')
    have "take (unat l) (drop p (buffer msg')) = take (unat l) (drop p (buffer msg))"
      by (rule nth_equalityI) (use len pl B(5) in auto)
    with len pl show ?thesis by (simp add: rdn_def)
  qed
  then show "attr_value msg' t' = attr_value msg t'"
    by (auto simp: attr_value_def f split: option.split bind_split)
qed

section \<open>Appending as an interface\<close>

text \<open>
  What the agent and the usages rely on when they build a message: a store that accepts
  attributes as long as there is room, gives a value back under its type unless an earlier
  attribute hides it, and leaves the other values alone.
\<close>

locale attribute_store =
  fixes inv :: "'m \<Rightarrow> bool"
    and room :: "'m \<Rightarrow> nat \<Rightarrow> bool"
    and reachable_type :: "'m \<Rightarrow> stun_attribute \<Rightarrow> bool"
    and store :: "'m \<Rightarrow> stun_attribute \<Rightarrow> bytes \<Rightarrow> (stun_return \<times> 'm) option"
    and get :: "'m \<Rightarrow> stun_attribute \<Rightarrow> bytes option option"
    and padding :: "'m \<Rightarrow> nat \<Rightarrow> nat"
  assumes store_ok: "inv m \<Longrightarrow> room m (length d) \<Longrightarrow>
      \<exists>m'. store m t d = Some (STUN_MESSAGE_RETURN_SUCCESS, m') \<and> inv m'"
    and get_same: "inv m \<Longrightarrow> room m (length d) \<Longrightarrow> reachable_type m t \<Longrightarrow>
      store m t d = Some (r, m') \<Longrightarrow>
      \<exists>pad. get m' t = Some (Some (d @ pad)) \<and> length pad \<le> padding m (length d)"
    and get_other: "inv m \<Longrightarrow> room m (length d) \<Longrightarrow> t' \<noteq> t \<Longrightarrow>
      store m t d = Some (r, m') \<Longrightarrow> get m' t' = get m t'"
begin

text \<open>Two attributes of different types stored one after the other are both readable.\<close>

lemma store_two:
  assumes "inv m" "room m (length d)" "reachable_type m t" "t \<noteq> t'"
    and "store m t d = Some (r, m1)" "inv m1" "room m1 (length d')" "reachable_type m1 t'"
    and "store m1 t' d' = Some (r', m2)"
  shows "\<exists>p p'. get m2 t = Some (Some (d @ p)) \<and> get m2 t' = Some (Some (d' @ p'))"
  using get_same [OF assms(1-3,5)] get_same [OF assms(6-8,9)]
    get_other [OF assms(6,7,4,9)] by auto

text \<open>A value that needs no padding comes back exactly.\<close>

lemma store_get_exact:
  assumes "inv m" "room m (length d)" "reachable_type m t" "padding m (length d) = 0"
  obtains m' where "store m t d = Some (STUN_MESSAGE_RETURN_SUCCESS, m')" "inv m'"
    "get m' t = Some (Some d)"
  using store_ok [OF assms(1,2), of t] get_same [OF assms(1-3)] assms(4) by fastforce

lemma store_total: "inv m \<Longrightarrow> room m (length d) \<Longrightarrow> store m t d \<noteq> None"
  using store_ok [of m d t] by auto

end

interpretation msg_store:
  attribute_store built room_for open_for stun_message_append_bytes attr_value append_pad
proof
  fix m :: stun_message and t :: stun_attribute and d :: bytes
  assume b: "built m" "room_for m (length d)"
  obtain as where as: "msg_attrs m = Some as" using built_attrs [OF b(1)] by blast
  show "\<exists>m'. stun_message_append_bytes m t d = Some (STUN_MESSAGE_RETURN_SUCCESS, m') \<and> built m'"
    using append_bytes_eq [OF b, of t] append_bytes_built(1) [OF b as, where t = t] by simp
  fix r m' assume s: "stun_message_append_bytes m t d = Some (r, m')"
  show "\<exists>pad. attr_value m' t = Some (Some (d @ pad)) \<and> length pad \<le> append_pad m (length d)" if "open_for m t"
    using attr_value_append_same [OF b that s] by blast
  show "attr_value m' t' = attr_value m t'" if "t' \<noteq> t" for t'
    using attr_value_append_other(2) [OF b that s] .
qed

end
