(* ===== verification/Stun_Roundtrip.thy ===== *)
theory Stun_Roundtrip
  imports Stun_Append
begin

unbundle bit_operations_syntax

text \<open>
  What is written can be read back: the typed writers of \<open>stun/stunmessage.c\<close> against its typed
  readers, a freshly initialised header against the header accessors, and a message built by
  the library against the validation that an incoming packet goes through.
\<close>

section \<open>Numbers\<close>

lemma attr_valueE:
  assumes "attr_value msg t = Some (Some v)"
  obtains p l where "stun_message_find msg t = Some (Some (p, l))"
    "rdn (buffer msg) p (unat l) = Some v" "unat l = length v"
  using assms rdn_length
  by (fastforce simp: attr_value_def split: bind_splits option.splits)

lemma attr_value_find32:
  assumes "attr_value msg t = Some (Some v)" and "length v = 4"
  shows "stun_message_find32 msg t =
    Some (STUN_MESSAGE_RETURN_SUCCESS, Some (htonl (of_host_bytes32 v)))"
proof -
  from assms(1) obtain p l where f: "stun_message_find msg t = Some (Some (p, l))"
    and v: "rdn (buffer msg) p (unat l) = Some v" and "unat l = 4"
    using assms(2) by (metis attr_valueE)
  then have "l = 4" by (simp add: word_unat_eq_iff)
  with f v show ?thesis by (simp add: stun_message_find32_def)
qed

lemma attr_value_find64:
  assumes "attr_value msg t = Some (Some (v @ w))" and "length v = 4" and "length w = 4"
  shows "stun_message_find64 msg t = Some (STUN_MESSAGE_RETURN_SUCCESS,
    Some (push_bit 32 (ucast (htonl (of_host_bytes32 v))) OR ucast (htonl (of_host_bytes32 w))))"
proof -
  from assms(1) obtain p l where f: "stun_message_find msg t = Some (Some (p, l))"
    and v: "rdn (buffer msg) p (unat l) = Some (v @ w)" and "unat l = length (v @ w)"
    by (rule attr_valueE)
  then have "unat l = 8" using assms(2,3) by simp
  then have "l = 8" by (simp add: word_unat_eq_iff)
  with f rdn_append_split [OF v [unfolded \<open>unat l = 8\<close>], of 4 4] assms(2,3) show ?thesis
    by (simp add: stun_message_find64_def)
qed

lemma u64_halves: "push_bit 32 (ucast (ucast (drop_bit 32 v) :: u32)) OR ucast (ucast v :: u32) = v"
  for v :: u64
  by (rule bit_word_eqI) (auto simp: bit_simps)

lemma append_pad_multiple: "len mod 4 = 0 \<Longrightarrow> append_pad msg len = 0"
  by (simp add: append_pad_def stun_padding_if)

lemma append32_find32:
  assumes "built msg" and "room_for msg 4" and "open_for msg t"
  shows "\<exists>msg'. stun_message_append32 msg t v = Some (STUN_MESSAGE_RETURN_SUCCESS, msg') \<and>
    built msg' \<and> stun_message_find32 msg' t = Some (STUN_MESSAGE_RETURN_SUCCESS, Some v)"
proof -
  have "room_for msg (length (host_bytes32 (htonl v)))" using assms(2) by simp
  from msg_store.store_get_exact [OF assms(1) this assms(3)] obtain msg'
    where "stun_message_append_bytes msg t (host_bytes32 (htonl v)) =
        Some (STUN_MESSAGE_RETURN_SUCCESS, msg')" "built msg'"
      "attr_value msg' t = Some (Some (host_bytes32 (htonl v)))"
    by (auto simp: append_pad_multiple)
  with attr_value_find32 [of msg' t "host_bytes32 (htonl v)"] show ?thesis
    by (simp add: stun_message_append32_def of_host_bytes32_host_bytes32)
qed

lemma append64_find64:
  assumes "built msg" and "room_for msg 8" and "open_for msg t"
  shows "\<exists>msg'. stun_message_append64 msg t v = Some (STUN_MESSAGE_RETURN_SUCCESS, msg') \<and>
    built msg' \<and> stun_message_find64 msg' t = Some (STUN_MESSAGE_RETURN_SUCCESS, Some v)"
proof -
  let ?h = "host_bytes32 (htonl (ucast (drop_bit 32 v)))" and ?l = "host_bytes32 (htonl (ucast v))"
  have "room_for msg (length (?h @ ?l))" using assms(2) by simp
  from msg_store.store_get_exact [OF assms(1) this assms(3)] obtain msg'
    where "stun_message_append_bytes msg t (?h @ ?l) = Some (STUN_MESSAGE_RETURN_SUCCESS, msg')"
      "built msg'" "attr_value msg' t = Some (Some (?h @ ?l))"
    by (auto simp: append_pad_multiple)
  with attr_value_find64 [of msg' t ?h ?l] show ?thesis
    by (simp add: stun_message_append64_def of_host_bytes32_host_bytes32 u64_halves)
qed

lemma append_flag_find_flag:
  assumes "built msg" and "room_for msg 0" and "open_for msg t"
  shows "\<exists>msg'. stun_message_append_flag msg t = Some (STUN_MESSAGE_RETURN_SUCCESS, msg') \<and>
    built msg' \<and> stun_message_find_flag msg' t = Some STUN_MESSAGE_RETURN_SUCCESS"
proof -
  have "room_for msg (length [])" using assms(2) by simp
  from msg_store.store_get_exact [OF assms(1) this assms(3)] obtain msg'
    where m: "stun_message_append_bytes msg t [] = Some (STUN_MESSAGE_RETURN_SUCCESS, msg')"
      "built msg'" "attr_value msg' t = Some (Some [])"
    by (auto simp: append_pad_multiple)
  from m(3) obtain p l where "stun_message_find msg' t = Some (Some (p, l))" "unat l = 0"
    by (auto elim: attr_valueE)
  with m(1,2) show ?thesis
    by (simp add: stun_message_append_flag_def stun_message_find_flag_def unat_eq_zero)
qed

section \<open>Addresses\<close>

text \<open>The value an address attribute carries: family, port and address in network order.\<close>

fun addr_bytes :: "sockaddr \<Rightarrow> bytes" where
  "addr_bytes (AF_INET a) = [0, 1] @ host_bytes16 (sin_port a) @ host_bytes32 (sin_addr a)"
| "addr_bytes (AF_INET6 a) = [0, 2] @ host_bytes16 (sin6_port a) @ sin6_addr a"
| "addr_bytes (AF_OTHER f) = []"

fun addr_size :: "sockaddr \<Rightarrow> nat" where
  "addr_size (AF_INET a) = sizeof_sockaddr_in"
| "addr_size (AF_INET6 a) = sizeof_sockaddr_in6"
| "addr_size (AF_OTHER f) = 0"

text \<open>What a wire format can carry of an address: flow and scope are lost.\<close>

fun plain_addr :: "sockaddr \<Rightarrow> bool" where
  "plain_addr (AF_INET a) \<longleftrightarrow> True"
| "plain_addr (AF_INET6 a) \<longleftrightarrow> length (sin6_addr a) = 16 \<and> sin6_flowinfo a = 0 \<and> sin6_scope_id a = 0"
| "plain_addr (AF_OTHER f) \<longleftrightarrow> False"

lemma put_put_append:
  "i + length a + length b \<le> length m \<Longrightarrow> put (put m i a) (i + length a) b = put m i (a @ b)"
  by (rule nth_equalityI) (auto simp: nth_put nth_append)

lemma put_put_next:
  "j = i + length a \<Longrightarrow> j + length b \<le> length m \<Longrightarrow> put (put m i a) j b = put m i (a @ b)"
  using put_put_append [of i a b m] by simp

lemma append_addr_bytes:
  assumes "built msg" and "room_for msg (length (addr_bytes a))" and "plain_addr a"
    and "addr_size a \<le> addrlen"
  shows "stun_message_append_addr msg t a addrlen = stun_message_append_bytes msg t (addr_bytes a)"
proof -
  have l: "length (buffer msg) = buffer_len msg" using assms(1) by (simp add: built_def)
  have len: "length (append_buffer msg t k) = buffer_len msg" if "room_for msg k" for k
    using append_buffer_props(1) [OF assms(1)] that l by simp
  show ?thesis
  proof (cases a)
    case (AF_INET x)
    with assms(2) have r: "room_for msg 8" by simp
    show ?thesis
      using assms(1,4) AF_INET r len [OF r]
      by (simp add: stun_message_append_addr_def append_bytes_eq append_eq append_bytes_buffer_def
          Let_def wr_put wrn_put put_put_next)
  next
    case (AF_INET6 x)
    with assms(2,3) have r: "room_for msg 20" by simp
    show ?thesis
      using assms(1,3,4) AF_INET6 r len [OF r]
      by (simp add: stun_message_append_addr_def append_bytes_eq append_eq append_bytes_buffer_def
          Let_def wr_put wrn_put put_put_next)
  qed (use assms(3) in simp)
qed

lemma rdn_parts3:
  assumes "rdn m p n = Some (u @ v @ w)" and "length u = 2" and "length v = 2"
  shows "rd m (p + 1) = Some (u ! 1)" and "rdn m (p + 2) 2 = Some v"
    and "rdn m (p + 4) (length w) = Some w"
proof -
  note A = rdn_append_split [OF assms(1,2) refl]
  from A(1) show "rd m (p + 1) = Some (u ! 1)"
    by (auto simp: rdn_def rd_def split: if_splits)
  show "rdn m (p + 2) 2 = Some v" "rdn m (p + 4) (length w) = Some w"
    using rdn_append_split [OF A(2) assms(3) refl] by (simp_all add: add.assoc)
qed

lemma be16_host_bytes16 [bytes_simps]: "be16 (host_bytes16 p ! Suc 0) (host_bytes16 p ! 0) = p"
  by (rule bit_word_eqI) (auto simp: host_bytes16_def bits_of bit_simps)

lemma attr_value_find_addr:
  assumes "attr_value msg t = Some (Some (addr_bytes a))" and "plain_addr a"
    and "addr_size a \<le> addrlen" and "addrlen \<le> sizeof_sockaddr_storage"
  shows "stun_message_find_addr msg t addrlen =
    Some (STUN_MESSAGE_RETURN_SUCCESS, Some a, addr_size a)"
proof -
  from assms(1) obtain p l where f: "stun_message_find msg t = Some (Some (p, l))"
    and v: "rdn (buffer msg) p (unat l) = Some (addr_bytes a)" and l: "unat l = length (addr_bytes a)"
    by (rule attr_valueE)
  show ?thesis
  proof (cases a)
    case (AF_INET x)
    from l AF_INET have "l = 8" by (simp add: word_unat_eq_iff)
    moreover note rdn_parts3 [OF v [unfolded AF_INET addr_bytes.simps]]
    ultimately show ?thesis
      using assms(3,4) AF_INET
      by (simp add: stun_message_find_addr_def f bytes_simps)
  next
    case (AF_INET6 x)
    from l assms(2) AF_INET6 have "l = 20" by (simp add: word_unat_eq_iff)
    moreover note rdn_parts3 [OF v [unfolded AF_INET6 addr_bytes.simps]]
    ultimately show ?thesis
      using assms(2-4) AF_INET6
      by (simp add: stun_message_find_addr_def f bytes_simps)
  qed (use assms(2) in simp)
qed

lemma append_addr_find_addr:
  assumes "built msg" and "room_for msg (length (addr_bytes a))" and "open_for msg t"
    and "plain_addr a" and "addr_size a \<le> addrlen" and "addr_size a \<le> n"
    and "n \<le> sizeof_sockaddr_storage"
  shows "\<exists>msg'. stun_message_append_addr msg t a addrlen = Some (STUN_MESSAGE_RETURN_SUCCESS, msg') \<and>
    built msg' \<and>
    stun_message_find_addr msg' t n = Some (STUN_MESSAGE_RETURN_SUCCESS, Some a, addr_size a)"
proof -
  have "length (addr_bytes a) mod 4 = 0" using assms(4) by (cases a) auto
  from msg_store.store_get_exact [OF assms(1-3) append_pad_multiple [OF this]] obtain msg'
    where "stun_message_append_bytes msg t (addr_bytes a) = Some (STUN_MESSAGE_RETURN_SUCCESS, msg')"
      "built msg'" "attr_value msg' t = Some (Some (addr_bytes a))"
    by blast
  with assms append_addr_bytes [OF assms(1,2,4,5), of t] attr_value_find_addr show ?thesis by simp
qed

section \<open>XOR-mapped addresses\<close>

lemma map2_xor_cancel: "length xs = length ys \<Longrightarrow> map2 (XOR) (map2 (XOR) xs ys) ys = xs"
  for xs :: bytes
  by (induction xs ys rule: list_induct2) (simp_all add: xor.assoc)

lemma xor_address_involution:
  assumes "stun_xor_address msg a n cookie = Some (STUN_MESSAGE_RETURN_SUCCESS, b)"
    and "plain_addr a" and "rdn (buffer msg') 4 16 = rdn (buffer msg) 4 16"
  shows "stun_xor_address msg' b (addr_size b) cookie = Some (STUN_MESSAGE_RETURN_SUCCESS, a)"
    and "plain_addr b" and "addr_size b = addr_size a" and "addr_size a \<le> n"
    and "length (addr_bytes b) = length (addr_bytes a)"
  using assms
  by (auto simp: stun_xor_address_def xor.assoc map2_xor_cancel rdn_length
      split: sockaddr.splits if_splits bind_splits)

lemma xor_address_success:
  assumes "plain_addr a" and "addr_size a \<le> n" and "built msg"
  shows "\<exists>b. stun_xor_address msg a n cookie = Some (STUN_MESSAGE_RETURN_SUCCESS, b)"
  using assms by (cases a) (auto simp: stun_xor_address_def built_def rdn_def)

lemma append_bytes_id:
  assumes "built msg" and "room_for msg (length data)"
    and "stun_message_append_bytes msg t data = Some (r, msg')"
  shows "rdn (buffer msg') 4 16 = rdn (buffer msg) 4 16"
proof -
  obtain as where as: "msg_attrs msg = Some as" using built_attrs [OF assms(1)] by blast
  from assms(3) have msg': "msg' = msg\<lparr>buffer := append_bytes_buffer msg t data\<rparr>"
    using append_bytes_eq [OF assms(1,2), of t] by simp
  note B = append_bytes_built [OF assms(1,2) as, where t = t, folded msg']
  have e: "20 \<le> length (buffer msg)" "length (buffer msg') = length (buffer msg)" "20 \<le> msg_end msg"
    using assms(1) B(1) by (simp_all add: built_def msg_end_def msg')
  have "take 16 (drop 4 (buffer msg')) = take 16 (drop 4 (buffer msg))"
    by (rule nth_equalityI) (use e B(5) in auto)
  with e show ?thesis by (simp add: rdn_def)
qed

lemma append_xor_addr_find_xor_addr:
  assumes "built msg" and "room_for msg (length (addr_bytes a))" and "open_for msg t"
    and "plain_addr a" and "addr_size a \<le> addrlen" and "addrlen \<le> sizeof_sockaddr_storage"
    and "addr_size a \<le> n" and "n \<le> sizeof_sockaddr_storage"
  shows "\<exists>msg'. stun_message_append_xor_addr_full msg t a addrlen cookie =
      Some (STUN_MESSAGE_RETURN_SUCCESS, msg') \<and> built msg' \<and>
    stun_message_find_xor_addr_full msg' t n cookie =
      Some (STUN_MESSAGE_RETURN_SUCCESS, Some a, addr_size a)"
proof -
  obtain b where b: "stun_xor_address msg a addrlen cookie = Some (STUN_MESSAGE_RETURN_SUCCESS, b)"
    using xor_address_success [OF assms(4,5,1)] by blast
  note X = xor_address_involution [OF b assms(4)]
  have r: "room_for msg (length (addr_bytes b))" using assms(2) X(5) [OF refl] by simp
  have s: "addr_size b \<le> addrlen" "addr_size b \<le> n" using assms(5,7) X(3) [OF refl] by simp_all
  obtain msg' where m: "stun_message_append_addr msg t b addrlen =
      Some (STUN_MESSAGE_RETURN_SUCCESS, msg')" "built msg'"
    "stun_message_find_addr msg' t n = Some (STUN_MESSAGE_RETURN_SUCCESS, Some b, addr_size b)"
    using append_addr_find_addr [OF assms(1) r assms(3) X(2) [OF refl] s assms(8)] by blast
  have "rdn (buffer msg') 4 16 = rdn (buffer msg) 4 16"
    using m(1) append_addr_bytes [OF assms(1) r X(2) [OF refl] s(1), of t]
    by (intro append_bytes_id [OF assms(1) r]) simp
  from X(1) [OF this] have "stun_xor_address msg' b (addr_size b) cookie =
      Some (STUN_MESSAGE_RETURN_SUCCESS, a)" .
  with m b X(3) [OF refl] assms(6) show ?thesis
    by (simp add: stun_message_append_xor_addr_full_def stun_message_find_xor_addr_full_def)
qed

section \<open>Error codes\<close>

definition error_bytes :: "stun_error \<Rightarrow> bytes" where
  "error_bytes code = [0, 0, of_nat (code div 100), of_nat (code mod 100)] @
     c_string (stun_strerror code)"

lemma append_error_bytes:
  assumes "built msg" and "room_for msg (length (error_bytes code))"
  shows "stun_message_append_error msg code =
    stun_message_append_bytes msg STUN_ATTRIBUTE_ERROR_CODE (error_bytes code)"
proof -
  let ?k = "4 + length (c_string (stun_strerror code))"
  have k: "length (error_bytes code) = ?k" by (simp add: error_bytes_def)
  have r: "room_for msg ?k" using assms(2) by (simp only: k)
  have "length (append_buffer msg STUN_ATTRIBUTE_ERROR_CODE ?k) = buffer_len msg"
    using append_buffer_props(1) [OF assms(1)] r assms(1) by (simp add: built_def)
  then show ?thesis
    using r
    by (simp add: stun_message_append_error_def append_bytes_eq [OF assms] append_eq [OF assms(1)]
        append_bytes_buffer_def k Let_def wr_put wrn_put put_put_next)
      (simp add: error_bytes_def)
qed

text \<open>
  The code survives for the classes 3 to 6 that \<open>stun_message_find_error\<close> accepts.
\<close>

lemma attr_value_find_error:
  assumes "attr_value msg STUN_ATTRIBUTE_ERROR_CODE = Some (Some (error_bytes code @ pad))"
    and "300 \<le> code" and "code < 700"
  shows "stun_message_find_error msg = Some (STUN_MESSAGE_RETURN_SUCCESS, Some code)"
proof -
  from assms(1) obtain p l where f: "stun_message_find msg STUN_ATTRIBUTE_ERROR_CODE = Some (Some (p, l))"
    and v: "rdn (buffer msg) p (unat l) = Some (error_bytes code @ pad)"
    and l: "unat l = length (error_bytes code @ pad)"
    by (rule attr_valueE)
  let ?c = "of_nat (code div 100) :: u8" and ?n = "of_nat (code mod 100) :: u8"
  have rd: "rd (buffer msg) (p + 2) = Some ?c" "rd (buffer msg) (p + 3) = Some ?n"
    using arg_cong [of _ _ "\<lambda>xs. xs ! 2", OF v [unfolded rdn_Some_iff, THEN conjunct2]]
      arg_cong [of _ _ "\<lambda>xs. xs ! 3", OF v [unfolded rdn_Some_iff, THEN conjunct2]] v l
    by (auto simp: rd_def rdn_Some_iff error_bytes_def)
  have "code div 100 = 3 \<or> code div 100 = 4 \<or> code div 100 = 5 \<or> code div 100 = 6"
    using assms(2,3) by arith
  then have c: "?c AND 7 = ?c" "\<not> ?c < 3" "\<not> 6 < ?c" "unat ?c = code div 100" by auto
  have n: "unat ?n = code mod 100" by (simp add: unat_of_nat)
  then have "\<not> 99 < ?n" by (simp add: word_less_nat_alt)
  moreover have "\<not> l < 4" using l by (simp add: word_less_nat_alt error_bytes_def)
  ultimately show ?thesis
    using f rd c n by (simp add: stun_message_find_error_def Let_def)
qed

lemma append_error_find_error:
  assumes "built msg" and "room_for msg (length (error_bytes code))"
    and "open_for msg STUN_ATTRIBUTE_ERROR_CODE" and "300 \<le> code" and "code < 700"
  shows "\<exists>msg'. stun_message_append_error msg code = Some (STUN_MESSAGE_RETURN_SUCCESS, msg') \<and>
    built msg' \<and>
    stun_message_find_error msg' = Some (STUN_MESSAGE_RETURN_SUCCESS, Some code)"
proof -
  obtain msg' where s: "stun_message_append_bytes msg STUN_ATTRIBUTE_ERROR_CODE (error_bytes code) =
      Some (STUN_MESSAGE_RETURN_SUCCESS, msg')" and b: "built msg'"
    using msg_store.store_ok [OF assms(1,2)] by blast
  from msg_store.get_same [OF assms(1-3) s] attr_value_find_error [OF _ assms(4,5)]
  have "stun_message_find_error msg' = Some (STUN_MESSAGE_RETURN_SUCCESS, Some code)" by blast
  with s b append_error_bytes [OF assms(1,2)] show ?thesis by simp
qed

section \<open>The three outcomes of an append\<close>

text \<open>
  The space check of \<open>stun_message_append\<close> does not count the padding it is about to write: when
  the value fits but its padding does not, the \<open>memset\<close> runs past the end of the buffer.
\<close>

lemma append_overflow:
  assumes "built msg" and "msg_end msg + 4 + len \<le> buffer_len msg"
    and "buffer_len msg < msg_end msg + 4 + len + append_pad msg len"
  shows "stun_message_append msg t len = None"
proof -
  let ?n = "msg_end msg"
  have n: "20 \<le> ?n" "length (buffer msg) = buffer_len msg"
    using assms(1) by (simp_all add: built_def msg_end_def)
  obtain ck where ck: "stun_message_has_cookie msg = Some ck"
    using assms(1) wf_message_readable(5) [of msg] by (auto simp: built_def wf_message_def)
  show ?thesis
    using n assms(2,3) ck
    by (simp add: stun_message_append_def built_length [OF assms(1)] stun_setw_put has_cookie_put
        wrn_def Let_def append_pad_def split: if_splits)
qed

lemma append_bytes_cases:
  assumes "built msg" and "buffer_len msg < 65536"
  shows "stun_message_append_bytes msg t data =
    (if buffer_len msg < msg_end msg + 4 + length data
     then Some (STUN_MESSAGE_RETURN_NOT_ENOUGH_SPACE, msg)
     else if room_for msg (length data)
     then Some (STUN_MESSAGE_RETURN_SUCCESS, msg\<lparr>buffer := append_bytes_buffer msg t data\<rparr>)
     else None)"
proof -
  consider "buffer_len msg < msg_end msg + 4 + length data"
    | "\<not> buffer_len msg < msg_end msg + 4 + length data" "room_for msg (length data)"
    | "\<not> buffer_len msg < msg_end msg + 4 + length data" "\<not> room_for msg (length data)"
    by blast
  then show ?thesis
  proof cases
    case 1
    then show ?thesis
      by (simp add: stun_message_append_bytes_def append_not_enough_space [OF assms(1)])
  next
    case 2
    then show ?thesis using append_bytes_eq [OF assms(1) 2(2)] by simp
  next
    case 3
    then have "stun_message_append msg t (length data) = None"
      using assms(2) by (intro append_overflow [OF assms(1)]) auto
    with 3 show ?thesis by (simp add: stun_message_append_bytes_def)
  qed
qed

section \<open>Fresh headers\<close>

text \<open>A message that is well built and has the two leading zero bits of a STUN message.\<close>

definition sendable :: "stun_message \<Rightarrow> bool" where
  "sendable msg \<longleftrightarrow> built msg \<and> drop_bit 6 (buffer msg ! 0) = 0"

lemma type_byte0_high: "drop_bit 6 (type_byte0 (class_val c) m) = 0"
  by (rule bit_word_eqI)
    (auto simp: type_byte0_def bit_simps bit_class_val_high dest!: less_2_cases)

lemma message_init_eq:
  assumes "wf_message msg" and "length tid = 16"
  shows "\<exists>b. stun_message_init msg c m tid = Some (True, msg\<lparr>buffer := b\<rparr>) \<and>
    length b = length (buffer msg) \<and>
    take 20 b = [type_byte0 (class_val c) m, type_byte1 (class_val c) m, 0, 0] @ tid"
  using assms
  by (auto simp: stun_message_init_def wf_message_def wrn_put wr_put rdn_def stun_set_type_def put_def
      numeral_eq_Suc)

lemma nth_of_take_eq: "take n b = xs \<Longrightarrow> i < n \<Longrightarrow> b ! i = xs ! i"
  by (metis nth_take)

lemma init_header:
  assumes "wf_message msg" and "length tid = 16" and "m < 2 ^ 12"
    and "c \<noteq> STUN_ERROR \<or> m \<noteq> STUN_CONNECT"
  shows "\<exists>msg'. stun_message_init msg c m tid = Some (True, msg') \<and> sendable msg' \<and>
    stun_message_get_class msg' = Some c \<and> stun_message_get_method msg' = Some m \<and>
    stun_message_id msg' = Some tid \<and> stun_message_length msg' = Some 20 \<and>
    msg_attrs msg' = Some [] \<and> buffer_len msg' = buffer_len msg \<and> msg_agent msg' = msg_agent msg"
proof -
  let ?h = "[type_byte0 (class_val c) m, type_byte1 (class_val c) m, 0, 0] @ tid"
  from message_init_eq [OF assms(1,2), of c m] obtain b
    where i: "stun_message_init msg c m tid = Some (True, msg\<lparr>buffer := b\<rparr>)"
      and l: "length b = length (buffer msg)" and b: "take 20 b = ?h" by blast
  have len: "20 \<le> length b" using assms(1) l by (simp add: wf_message_def)
  note nth = nth_of_take_eq [OF b]
  have n: "b ! 0 = type_byte0 (class_val c) m" "b ! 1 = type_byte1 (class_val c) m"
    "b ! 2 = 0" "b ! 3 = 0"
    using nth [of 0] nth [of 1] nth [of 2] nth [of 3] by simp_all
  have w: "stun_getw b 0 = Some (type_word c m)" "stun_getw b 2 = Some 0"
    using len n by (simp_all add: stun_getw_eq_Some_iff be16_def)
  have "rdn b 4 16 = Some tid"
  proof -
    have "take 16 (drop 4 b) = drop 4 (take 20 b)" by (simp add: drop_take)
    also have "\<dots> = tid" unfolding b by simp
    finally show ?thesis using len by (simp add: rdn_def)
  qed
  moreover have lf: "len_field b = 0" using n by (simp add: len_field_def be16_def)
  moreover have "sendable (msg\<lparr>buffer := b\<rparr>)"
    using assms(1) l len lf n(1) by (simp add: sendable_def built_def wf_message_def type_byte0_high)
  moreover have "msg_attrs (msg\<lparr>buffer := b\<rparr>) = Some []"
    using w(2) by (simp add: msg_attrs_def stun_message_length_def parse_attrs.simps)
  ultimately show ?thesis
    using i w assms(3,4)
    by (simp add: stun_message_get_class_def stun_message_get_method_def stun_message_id_def
        stun_message_length_def type_fixup_type_word method_of_type_word class_of_type_word)
qed

section \<open>The library accepts what it builds\<close>

lemma validated_length_dvd: "validate_attributes True m ptr len = Some True \<Longrightarrow> 4 dvd len"
proof (induction "True" m ptr len rule: validate_attributes.induct)
  case (1 m ptr len)
  show ?case
  proof (cases "len = 0")
    case False
    then have "0 < len" by simp
    from validate_attributes_step [OF "1.prems" this] obtain w
      where w: "4 \<le> len" "stun_getw m (ptr + 2) = Some w" "attr_space (\<not> True) w \<le> len - 4"
        "validate_attributes True m (ptr + 4 + attr_space (\<not> True) w)
           (len - 4 - attr_space (\<not> True) w) = Some True"
      by blast
    have a: "attr_space False w = stun_align (unat w)" by (simp add: attr_space_def)
    have "4 dvd len - 4 - stun_align (unat w)"
      by (rule "1.hyps" [OF \<open>0 < len\<close> _ w(2)]) (use w in \<open>simp_all add: a\<close>)
    moreover have "4 dvd stun_align (unat w)"
      by (simp add: stun_align_u16 dvd_add_stun_padding)
    moreover have "len = len - 4 - stun_align (unat w) + (4 + stun_align (unat w))"
      using w(1,3) a by simp
    ultimately show ?thesis by (metis dvd_add dvd_refl)
  qed simp
qed

lemma sendable_accepted:
  assumes "sendable msg"
  shows "stun_message_validate_buffer_length (take (msg_end msg) (buffer msg)) (msg_end msg)
    (\<not> no_aligned (msg_agent msg)) = Some (int (msg_end msg))"
proof -
  let ?o = "take (msg_end msg) (buffer msg)" and ?k = "len_field (buffer msg)"
  let ?p = "\<not> no_aligned (msg_agent msg)"
  have e: "msg_end msg = ?k + 20" by (simp add: msg_end_def)
  have b: "?k + 20 \<le> length (buffer msg)" "drop_bit 6 (buffer msg ! 0) = 0"
    "validate_attributes ?p (buffer msg) 20 ?k = Some True"
    using assms by (simp_all add: sendable_def built_def)
  have o: "length ?o = ?k + 20" "len_field ?o = ?k" "?o ! 0 = buffer msg ! 0"
    using b(1) by (simp_all add: e len_field_def)
  have v: "validate_attributes ?p ?o 20 ?k = Some True"
    using b(3) validate_attributes_cong [of 20 ?k ?o "buffer msg" ?p] b(1) o(1) by (simp add: e)
  have "?p \<longrightarrow> stun_padding (?k + 20) = 0"
    using v validated_length_dvd [of ?o 20 ?k]
    by (auto simp: stun_padding_if dvd_eq_mod_eq_0 mod_add_eq [symmetric])
  moreover have "?o \<noteq> []" using o(1) by auto
  ultimately have "stun_message_validate_buffer_length ?o (length ?o) ?p = Some (int (?k + 20))"
    unfolding validate_buffer_length_eq using b(2) o v by auto
  then show ?thesis using o(1) by (simp add: e)
qed

fun append_all :: "stun_message \<Rightarrow> (stun_attribute \<times> bytes) list \<Rightarrow> stun_message option" where
  "append_all msg [] = Some msg"
| "append_all msg ((t, d) # xs) = do {
     (r, msg1) \<leftarrow> stun_message_append_bytes msg t d;
     if r = STUN_MESSAGE_RETURN_SUCCESS then append_all msg1 xs else None }"

lemma append_all_sendable:
  assumes "sendable msg" and "buffer_len msg < 65536" and "append_all msg xs = Some msg'"
    and "msg_attrs msg = Some as"
  shows "sendable msg' \<and> msg_agent msg' = msg_agent msg \<and>
    (\<exists>bs. msg_attrs msg' = Some (as @ bs) \<and>
       map fst bs = map (\<lambda>(t, d). ms_swap (msg_agent msg) t) xs)"
  using assms
proof (induction msg xs arbitrary: as rule: append_all.induct)
  case (2 msg t d xs)
  have b: "built msg" and e: "0 < msg_end msg"
    using "2.prems"(1) by (simp_all add: sendable_def msg_end_def)
  from "2.prems"(2,3) have r: "room_for msg (length d)"
    and rest: "append_all (msg\<lparr>buffer := append_bytes_buffer msg t d\<rparr>) xs = Some msg'"
    by (auto simp: append_bytes_cases [OF b] split: bind_splits if_splits)
  let ?m = "msg\<lparr>buffer := append_bytes_buffer msg t d\<rparr>"
  note B = append_bytes_built [OF b r "2.prems"(4), where t = t]
  have "sendable ?m"
    using "2.prems"(1) B(1) B(5) [of 0] e by (simp add: sendable_def)
  from "2.IH" [OF append_bytes_eq [OF b r, of t] refl refl this _ rest B(3)] "2.prems"(2)
  show ?case by fastforce
qed simp

end
