(* ===== verification/Streaming.thy ===== *)
theory Streaming
  imports Prelude
begin

unbundle bit_operations_syntax

text \<open>
  The interface of a digest that is computed piece by piece. The hashes of the library absorb
  their input through an update function that is called once per piece of data; what a caller
  relies on is that the digest depends on the concatenation of the pieces only, and that no
  call leaves the objects it is given.
\<close>

section \<open>Digests computed in pieces\<close>

locale streaming_digest =
  fixes start :: 's
    and update :: "'s \<Rightarrow> bytes \<Rightarrow> 's option"
    and finish :: "'s \<Rightarrow> bytes option"
    and absorbed :: "'s \<Rightarrow> bytes \<Rightarrow> bool"
    and small :: "nat \<Rightarrow> bool"
    and digest :: "bytes \<Rightarrow> bytes"
  assumes absorbed_start: "absorbed start []"
    and absorbed_update: "absorbed s m \<Longrightarrow> small (length (m @ d)) \<Longrightarrow>
      \<exists>s'. update s d = Some s' \<and> absorbed s' (m @ d)"
    and finish_absorbed: "absorbed s m \<Longrightarrow> small (length m) \<Longrightarrow> finish s = Some (digest m)"
    and small_mono: "small n \<Longrightarrow> k \<le> n \<Longrightarrow> small k"
begin

fun updates :: "'s \<Rightarrow> bytes list \<Rightarrow> 's option" where
  "updates s [] = Some s"
| "updates s (d # ds) = do { s' \<leftarrow> update s d; updates s' ds }"

lemma absorbed_updates:
  "absorbed s m \<Longrightarrow> small (length (m @ concat ds)) \<Longrightarrow>
     \<exists>s'. updates s ds = Some s' \<and> absorbed s' (m @ concat ds)"
proof (induction ds arbitrary: s m)
  case (Cons d ds)
  have "small (length (m @ d))" using Cons.prems(2) by (rule small_mono) simp
  from absorbed_update [OF Cons.prems(1) this] obtain s'
    where s': "update s d = Some s'" "absorbed s' (m @ d)" by blast
  from Cons.IH [OF s'(2)] Cons.prems(2) s'(1) show ?case by simp
qed simp

text \<open>The digest of a sequence of pieces is the digest of their concatenation.\<close>

lemma digest_pieces:
  assumes "small (length (concat ds))"
  shows "do { s \<leftarrow> updates start ds; finish s } = Some (digest (concat ds))"
proof -
  from absorbed_updates [OF absorbed_start, of ds] assms obtain s
    where s: "updates start ds = Some s" "absorbed s (concat ds)" by auto
  then show ?thesis using finish_absorbed [OF s(2)] assms by simp
qed

lemma pieces_irrelevant:
  "concat ds = concat es \<Longrightarrow> small (length (concat ds)) \<Longrightarrow>
     do { s \<leftarrow> updates start ds; finish s } = do { s \<leftarrow> updates start es; finish s }"
  by (simp add: digest_pieces)

end

section \<open>Hashing block by block\<close>

text \<open>
  The reference view of the Merkle-Damgaard hashes: fold a compression function over the full
  64-byte blocks of the message; what is left over waits in the buffer.
\<close>

function fold_blocks :: "('h \<Rightarrow> bytes \<Rightarrow> 'h) \<Rightarrow> 'h \<Rightarrow> bytes \<Rightarrow> 'h" where
  "fold_blocks f h m = (if length m < 64 then h else fold_blocks f (f h (take 64 m)) (drop 64 m))"
  by pat_completeness auto
termination
  by (relation "measure (\<lambda>(f, h, m). length m)") auto

declare fold_blocks.simps [simp del]

definition left_over :: "bytes \<Rightarrow> bytes" where
  "left_over m = drop (64 * (length m div 64)) m"

lemma length_left_over [simp]: "length (left_over m) = length m mod 64"
  by (simp add: left_over_def minus_mult_div_eq_mod)

lemma fold_blocks_less [simp]: "length m < 64 \<Longrightarrow> fold_blocks f h m = h"
  by (simp add: fold_blocks.simps)

lemma left_over_less [simp]: "length m < 64 \<Longrightarrow> left_over m = m"
  by (simp add: left_over_def)

lemma fold_blocks_block:
  "length b = 64 \<Longrightarrow> fold_blocks f h (b @ m) = fold_blocks f (f h b) m"
  by (subst fold_blocks.simps) simp

lemma left_over_block: "length b = 64 \<Longrightarrow> left_over (b @ m) = left_over m"
  by (simp add: left_over_def div_add_self1)

text \<open>A message of at least one block is that block and the rest.\<close>

lemma block_cases:
  obtains "length m < 64" | b r where "m = b @ r" "length b = 64"
  using that(2) [of "take 64 m" "drop 64 m"] by (cases "length m < 64") auto

lemma fold_blocks_append:
  "fold_blocks f h (a @ b) = fold_blocks f (fold_blocks f h a) (left_over a @ b)"
proof (induction a arbitrary: h rule: length_induct)
  case (1 a)
  show ?case
  proof (cases rule: block_cases [of a])
    case (2 t d)
    have "fold_blocks f (f h t) (d @ b) =
        fold_blocks f (fold_blocks f (f h t) d) (left_over d @ b)"
      using "1.IH" 2 by (intro "1.IH" [rule_format]) simp
    then show ?thesis by (simp add: 2 fold_blocks_block left_over_block)
  qed simp
qed

lemma left_over_append: "left_over (a @ b) = left_over (left_over a @ b)"
proof (induction a rule: length_induct)
  case (1 a)
  show ?case
  proof (cases rule: block_cases [of a])
    case (2 t d)
    have "left_over (d @ b) = left_over (left_over d @ b)"
      using 2 by (intro "1.IH" [rule_format]) simp
    then show ?thesis by (simp add: 2 left_over_block)
  qed simp
qed

text \<open>What a hash context knows after absorbing a message: its chaining value and its buffer.\<close>

definition holds_blocks :: "('h \<Rightarrow> bytes \<Rightarrow> 'h) \<Rightarrow> 'h \<Rightarrow> 'h \<Rightarrow> bytes \<Rightarrow> bytes \<Rightarrow> bool" where
  "holds_blocks f iv h buf m \<longleftrightarrow> h = fold_blocks f iv m \<and> length buf = 64 \<and>
     take (length m mod 64) buf = left_over m"

text \<open>Data that does not fill the buffer is stored behind what waits there.\<close>

lemma holds_blocks_short:
  assumes "holds_blocks f iv h buf m" and "length m mod 64 + length d < 64"
  shows "holds_blocks f iv h (put buf (length m mod 64) d) (m @ d)"
proof -
  have "(length m + length d) mod 64 = length m mod 64 + length d"
    using assms(2) by (metis mod_add_left_eq mod_less)
  then show ?thesis
    using assms
    by (auto simp: holds_blocks_def fold_blocks_append [of f iv m] left_over_append [of m] put_def)
qed

text \<open>Data that fills it is hashed, and the rest of the data starts from an empty buffer.\<close>

lemma holds_blocks_long:
  fixes m d :: bytes
  assumes "holds_blocks f iv h buf m" and "64 \<le> length m mod 64 + length d"
  defines "k \<equiv> 64 - length m mod 64"
  defines "rest \<equiv> drop k d"
  shows "fold_blocks f iv (m @ d) =
      fold_blocks f (f h (put buf (length m mod 64) (take k d))) rest"
    and "left_over (m @ d) = left_over rest"
    and "(length m + length d) mod 64 = length rest mod 64"
proof -
  let ?j = "length m mod 64"
  have j: "?j < 64" by simp
  have k: "?j + k = 64" "k \<le> length d" using assms(2) j by (auto simp: k_def)
  have b: "put buf ?j (take k d) = left_over m @ take k d"
    using assms(1) k by (simp add: holds_blocks_def put_def min_def)
  have split: "left_over m @ d = (left_over m @ take k d) @ rest"
    by (simp add: rest_def)
  have l: "length (left_over m @ take k d) = 64" using k by simp
  show "fold_blocks f iv (m @ d) = fold_blocks f (f h (put buf ?j (take k d))) rest"
    using assms(1) unfolding fold_blocks_append [of f iv m] split fold_blocks_block [OF l] b
    by (simp add: holds_blocks_def)
  show "left_over (m @ d) = left_over rest"
    unfolding left_over_append [of m] split left_over_block [OF l] ..
  from this [THEN arg_cong, of length]
  show "(length m + length d) mod 64 = length rest mod 64" by simp
qed

section \<open>Padding and bit counts\<close>

lemma mod_once: "x < m + m \<Longrightarrow> x mod m = (if x < m then x else x - m)" for x m :: nat
  by (simp add: le_mod_geq)

lemma div_once: "m \<le> x \<Longrightarrow> x < m + m \<Longrightarrow> x div m = 1" for x m :: nat
  by (rule div_nat_eqI) simp_all

definition pad_zeros :: "nat \<Rightarrow> nat" where
  "pad_zeros n = (119 - n mod 64) mod 64"

definition pad_message :: "bytes \<Rightarrow> bytes \<Rightarrow> bytes" where
  "pad_message m len_bytes = m @ [0x80] @ replicate (pad_zeros (length m)) 0 @ len_bytes"

lemma pad_zeros_eq: "pad_zeros n = (if n mod 64 < 56 then 55 - n mod 64 else 119 - n mod 64)"
  using mod_once [of "119 - n mod 64" 64] by (auto simp: pad_zeros_def)

lemma pad_zeros_least:
  assumes "k \<le> pad_zeros n"
  shows "(n + 1 + k) mod 64 = 56 \<longleftrightarrow> k = pad_zeros n"
proof -
  have r: "n mod 64 < 64" by simp
  have "(n + 1 + k) mod 64 = (n mod 64 + 1 + k) mod 64" by (metis add.assoc mod_add_left_eq)
  also have "\<dots> = (if n mod 64 + 1 + k < 64 then n mod 64 + 1 + k else n mod 64 + 1 + k - 64)"
    using assms r by (intro mod_once) (auto simp: pad_zeros_eq split: if_splits)
  finally show ?thesis using assms r by (auto simp: pad_zeros_eq split: if_splits)
qed

lemma pad_zeros_less: "pad_zeros n < 64"
  by (simp add: pad_zeros_def)

text \<open>The carry of a two-word bit counter.\<close>

lemma div_add_carry:
  fixes a b m :: nat
  assumes "0 < m"
  shows "(a + b) div m = a div m + b div m + (if (a + b) mod m < b mod m then 1 else 0)"
proof -
  let ?x = "a mod m" and ?y = "b mod m"
  have xy: "?x < m" "?y < m" using assms by simp_all
  have d: "(a + b) div m = a div m + b div m + (?x + ?y) div m" by (rule div_add1_eq)
  have r: "(a + b) mod m = (?x + ?y) mod m" by (rule mod_add_eq [symmetric])
  show ?thesis
  proof (cases "?x + ?y < m")
    case True
    then show ?thesis unfolding d r by (simp del: mod_add_eq)
  next
    case False
    then have less: "?x + ?y - m < ?y" using xy by linarith
    have q: "(?x + ?y) mod m = ?x + ?y - m" "(?x + ?y) div m = 1"
      using mod_once [of "?x + ?y" m] div_once [of m "?x + ?y"] False xy by simp_all
    show ?thesis unfolding d r q using less by simp
  qed
qed

lemma unat_len: "n < 2 ^ 32 \<Longrightarrow> unat (of_nat n :: u32) = n"
  by (simp add: unat_of_nat)

lemma and_63: "unat (x AND 63 :: u32) = unat x mod 64"
proof -
  have "x AND 63 = take_bit 6 x" by (simp add: take_bit_eq_mask mask_eq_exp_minus_1)
  then show ?thesis by (simp only: unsigned_take_bit_eq) (simp add: take_bit_eq_mod)
qed

lemma count_index: "unat (drop_bit 3 (of_nat (8 * n) :: u32) AND 63) = n mod 64"
proof -
  have "unat (drop_bit 3 (of_nat (8 * n) :: u32)) = (8 * n mod 2 ^ 32) div 8"
    by (simp add: unat_drop_bit unat_of_nat del: of_nat_mult)
  also have "8 * n mod 2 ^ 32 = 8 * (n mod 2 ^ 29)"
    using mult_mod_right [of 8 n "2 ^ 29"] by simp
  finally show ?thesis by (simp add: and_63 mod_mod_cancel)
qed

lemma counter_step:
  fixes n k :: nat
  assumes "k < 2 ^ 32"
  defines "c0 \<equiv> of_nat (8 * n) + push_bit 3 (of_nat k) :: u32"
  shows "c0 = of_nat (8 * (n + k))"
    and "(if c0 < push_bit 3 (of_nat k) then of_nat (8 * n div 2 ^ 32) + 1
          else of_nat (8 * n div 2 ^ 32)) + drop_bit 29 (of_nat k) =
      (of_nat (8 * (n + k) div 2 ^ 32) :: u32)"
proof -
  have p: "push_bit 3 (of_nat k) = (of_nat (8 * k) :: u32)"
    by (simp add: push_bit_eq_mult mult.commute)
  show c0: "c0 = of_nat (8 * (n + k))" by (simp add: c0_def p)
  have "drop_bit 29 (of_nat k :: u32) = of_nat (k div 2 ^ 29)"
    using assms(1)
    by (simp add: word_unat_eq_iff unat_drop_bit unat_of_nat)
  moreover have "k div 2 ^ 29 = 8 * k div 2 ^ 32"
    using div_mult_mult1 [of 8 k "2 ^ 29"] by simp
  moreover have "c0 < push_bit 3 (of_nat k) \<longleftrightarrow> (8 * n + 8 * k) mod 2 ^ 32 < (8 * k) mod 2 ^ 32"
    unfolding c0 p by (simp add: word_less_nat_alt unat_of_nat distrib_left del: of_nat_add of_nat_mult)
  ultimately show "(if c0 < push_bit 3 (of_nat k) then of_nat (8 * n div 2 ^ 32) + 1
          else of_nat (8 * n div 2 ^ 32)) + drop_bit 29 (of_nat k) =
      (of_nat (8 * (n + k) div 2 ^ 32) :: u32)"
    using div_add_carry [of "2 ^ 32" "8 * n" "8 * k"] by (simp add: distrib_left)
qed

end
