(* ===== verification/Sha1.thy ===== *)
theory Sha1
  imports Streaming
begin

unbundle bit_operations_syntax

text \<open>
  The SHA-1 implementation of \<open>stun/sha1.c\<close>: the transform with its message schedule kept in a
  16-word ring, the context that buffers partial blocks and counts bits in two 32-bit words,
  and HMAC-SHA1 over a vector of buffers and over a context. The reference is the schedule and
  compression function of FIPS 180 and the construction of RFC 2104.
\<close>

section \<open>The transform\<close>

definition rol :: "u32 \<Rightarrow> nat \<Rightarrow> u32" where
  "rol value bits = push_bit bits value OR drop_bit (32 - bits) value"

text \<open>On the little-endian host the words of the block are byte-swapped when first used.\<close>

definition blk0_endiansafe :: "u32 \<Rightarrow> u32" where
  "blk0_endiansafe l = (rol l 24 AND 0xFF00FF00) OR (rol l 8 AND 0x00FF00FF)"

definition blk0 :: "nat \<Rightarrow> u32 list \<Rightarrow> u32 \<times> u32 list" where
  "blk0 i block = (let v = blk0_endiansafe (block ! i) in (v, block[i := v]))"

definition blk :: "nat \<Rightarrow> u32 list \<Rightarrow> u32 \<times> u32 list" where
  "blk i block =
    (let v = rol (block ! ((i + 13) mod 16) XOR block ! ((i + 8) mod 16) XOR
                  block ! ((i + 2) mod 16) XOR block ! (i mod 16)) 1
     in (v, block[i mod 16 := v]))"

text \<open>
  The five round macros, on the working variables \<open>a\<close> to \<open>e\<close> and the block. The variables are the
  five places of a list, and a macro is given the places it works on, as in the code, where the
  names rotate from one call to the next.
\<close>

type_synonym sha1_work = "u32 list \<times> u32 list"

abbreviation (input) reg_a :: nat where "reg_a \<equiv> 0"
abbreviation (input) reg_b :: nat where "reg_b \<equiv> 1"
abbreviation (input) reg_c :: nat where "reg_c \<equiv> 2"
abbreviation (input) reg_d :: nat where "reg_d \<equiv> 3"
abbreviation (input) reg_e :: nat where "reg_e \<equiv> 4"

definition R0 :: "nat \<Rightarrow> nat \<Rightarrow> nat \<Rightarrow> nat \<Rightarrow> nat \<Rightarrow> nat \<Rightarrow> sha1_work \<Rightarrow> sha1_work" where
  "R0 v w x y z i s = (case s of (r, block) \<Rightarrow>
     let (b, block) = blk0 i block;
         r = r[z := r ! z + (((r ! w AND (r ! x XOR r ! y)) XOR r ! y) + b + 0x5A827999 + rol (r ! v) 5)]
     in (r[w := rol (r ! w) 30], block))"

definition R1 :: "nat \<Rightarrow> nat \<Rightarrow> nat \<Rightarrow> nat \<Rightarrow> nat \<Rightarrow> nat \<Rightarrow> sha1_work \<Rightarrow> sha1_work" where
  "R1 v w x y z i s = (case s of (r, block) \<Rightarrow>
     let (b, block) = blk i block;
         r = r[z := r ! z + (((r ! w AND (r ! x XOR r ! y)) XOR r ! y) + b + 0x5A827999 + rol (r ! v) 5)]
     in (r[w := rol (r ! w) 30], block))"

definition R2 :: "nat \<Rightarrow> nat \<Rightarrow> nat \<Rightarrow> nat \<Rightarrow> nat \<Rightarrow> nat \<Rightarrow> sha1_work \<Rightarrow> sha1_work" where
  "R2 v w x y z i s = (case s of (r, block) \<Rightarrow>
     let (b, block) = blk i block;
         r = r[z := r ! z + ((r ! w XOR r ! x XOR r ! y) + b + 0x6ED9EBA1 + rol (r ! v) 5)]
     in (r[w := rol (r ! w) 30], block))"

definition R3 :: "nat \<Rightarrow> nat \<Rightarrow> nat \<Rightarrow> nat \<Rightarrow> nat \<Rightarrow> nat \<Rightarrow> sha1_work \<Rightarrow> sha1_work" where
  "R3 v w x y z i s = (case s of (r, block) \<Rightarrow>
     let (b, block) = blk i block;
         r = r[z := r ! z + ((((r ! w OR r ! x) AND r ! y) OR (r ! w AND r ! x)) + b + 0x8F1BBCDC + rol (r ! v) 5)]
     in (r[w := rol (r ! w) 30], block))"

definition R4 :: "nat \<Rightarrow> nat \<Rightarrow> nat \<Rightarrow> nat \<Rightarrow> nat \<Rightarrow> nat \<Rightarrow> sha1_work \<Rightarrow> sha1_work" where
  "R4 v w x y z i s = (case s of (r, block) \<Rightarrow>
     let (b, block) = blk i block;
         r = r[z := r ! z + ((r ! w XOR r ! x XOR r ! y) + b + 0xCA62C1D6 + rol (r ! v) 5)]
     in (r[w := rol (r ! w) 30], block))"

text \<open>The eighty calls of the unrolled code, as they stand there.\<close>

definition sha1_calls :: "(sha1_work \<Rightarrow> sha1_work) list" where
  "sha1_calls =
   [R0 reg_a reg_b reg_c reg_d reg_e 0, R0 reg_e reg_a reg_b reg_c reg_d 1,
    R0 reg_d reg_e reg_a reg_b reg_c 2, R0 reg_c reg_d reg_e reg_a reg_b 3,
    R0 reg_b reg_c reg_d reg_e reg_a 4, R0 reg_a reg_b reg_c reg_d reg_e 5,
    R0 reg_e reg_a reg_b reg_c reg_d 6, R0 reg_d reg_e reg_a reg_b reg_c 7,
    R0 reg_c reg_d reg_e reg_a reg_b 8, R0 reg_b reg_c reg_d reg_e reg_a 9,
    R0 reg_a reg_b reg_c reg_d reg_e 10, R0 reg_e reg_a reg_b reg_c reg_d 11,
    R0 reg_d reg_e reg_a reg_b reg_c 12, R0 reg_c reg_d reg_e reg_a reg_b 13,
    R0 reg_b reg_c reg_d reg_e reg_a 14, R0 reg_a reg_b reg_c reg_d reg_e 15,
    R1 reg_e reg_a reg_b reg_c reg_d 16, R1 reg_d reg_e reg_a reg_b reg_c 17,
    R1 reg_c reg_d reg_e reg_a reg_b 18, R1 reg_b reg_c reg_d reg_e reg_a 19,
    R2 reg_a reg_b reg_c reg_d reg_e 20, R2 reg_e reg_a reg_b reg_c reg_d 21,
    R2 reg_d reg_e reg_a reg_b reg_c 22, R2 reg_c reg_d reg_e reg_a reg_b 23,
    R2 reg_b reg_c reg_d reg_e reg_a 24, R2 reg_a reg_b reg_c reg_d reg_e 25,
    R2 reg_e reg_a reg_b reg_c reg_d 26, R2 reg_d reg_e reg_a reg_b reg_c 27,
    R2 reg_c reg_d reg_e reg_a reg_b 28, R2 reg_b reg_c reg_d reg_e reg_a 29,
    R2 reg_a reg_b reg_c reg_d reg_e 30, R2 reg_e reg_a reg_b reg_c reg_d 31,
    R2 reg_d reg_e reg_a reg_b reg_c 32, R2 reg_c reg_d reg_e reg_a reg_b 33,
    R2 reg_b reg_c reg_d reg_e reg_a 34, R2 reg_a reg_b reg_c reg_d reg_e 35,
    R2 reg_e reg_a reg_b reg_c reg_d 36, R2 reg_d reg_e reg_a reg_b reg_c 37,
    R2 reg_c reg_d reg_e reg_a reg_b 38, R2 reg_b reg_c reg_d reg_e reg_a 39,
    R3 reg_a reg_b reg_c reg_d reg_e 40, R3 reg_e reg_a reg_b reg_c reg_d 41,
    R3 reg_d reg_e reg_a reg_b reg_c 42, R3 reg_c reg_d reg_e reg_a reg_b 43,
    R3 reg_b reg_c reg_d reg_e reg_a 44, R3 reg_a reg_b reg_c reg_d reg_e 45,
    R3 reg_e reg_a reg_b reg_c reg_d 46, R3 reg_d reg_e reg_a reg_b reg_c 47,
    R3 reg_c reg_d reg_e reg_a reg_b 48, R3 reg_b reg_c reg_d reg_e reg_a 49,
    R3 reg_a reg_b reg_c reg_d reg_e 50, R3 reg_e reg_a reg_b reg_c reg_d 51,
    R3 reg_d reg_e reg_a reg_b reg_c 52, R3 reg_c reg_d reg_e reg_a reg_b 53,
    R3 reg_b reg_c reg_d reg_e reg_a 54, R3 reg_a reg_b reg_c reg_d reg_e 55,
    R3 reg_e reg_a reg_b reg_c reg_d 56, R3 reg_d reg_e reg_a reg_b reg_c 57,
    R3 reg_c reg_d reg_e reg_a reg_b 58, R3 reg_b reg_c reg_d reg_e reg_a 59,
    R4 reg_a reg_b reg_c reg_d reg_e 60, R4 reg_e reg_a reg_b reg_c reg_d 61,
    R4 reg_d reg_e reg_a reg_b reg_c 62, R4 reg_c reg_d reg_e reg_a reg_b 63,
    R4 reg_b reg_c reg_d reg_e reg_a 64, R4 reg_a reg_b reg_c reg_d reg_e 65,
    R4 reg_e reg_a reg_b reg_c reg_d 66, R4 reg_d reg_e reg_a reg_b reg_c 67,
    R4 reg_c reg_d reg_e reg_a reg_b 68, R4 reg_b reg_c reg_d reg_e reg_a 69,
    R4 reg_a reg_b reg_c reg_d reg_e 70, R4 reg_e reg_a reg_b reg_c reg_d 71,
    R4 reg_d reg_e reg_a reg_b reg_c 72, R4 reg_c reg_d reg_e reg_a reg_b 73,
    R4 reg_b reg_c reg_d reg_e reg_a 74, R4 reg_a reg_b reg_c reg_d reg_e 75,
    R4 reg_e reg_a reg_b reg_c reg_d 76, R4 reg_d reg_e reg_a reg_b reg_c 77,
    R4 reg_c reg_d reg_e reg_a reg_b 78, R4 reg_b reg_c reg_d reg_e reg_a 79]"

definition block_words :: "bytes \<Rightarrow> u32 list" where
  "block_words b = map (\<lambda>i. of_host_bytes32 (take 4 (drop (4 * i) b))) [0..<16]"

definition SHA1Transform :: "u32 list \<Rightarrow> bytes \<Rightarrow> nat \<Rightarrow> u32 list option" where
  "SHA1Transform state buf off = do {
     block \<leftarrow> rdn buf off 64;
     let (r, _) = fold (\<lambda>call. call) sha1_calls
       ([state ! 0, state ! 1, state ! 2, state ! 3, state ! 4], block_words block);
     Some [state ! 0 + r ! reg_a, state ! 1 + r ! reg_b, state ! 2 + r ! reg_c, state ! 3 + r ! reg_d,
       state ! 4 + r ! reg_e] }"

section \<open>Contexts\<close>

record sha1_ctx =
  sha_state :: "u32 list"
  count0 :: u32
  count1 :: u32
  sha_buffer :: bytes

definition SHA1Init :: "bytes \<Rightarrow> sha1_ctx" where
  "SHA1Init garbage = \<lparr>sha_state = [0x67452301, 0xEFCDAB89, 0x98BADCFE, 0x10325476, 0xC3D2E1F0],
     count0 = 0, count1 = 0, sha_buffer = garbage\<rparr>"

text \<open>The loop over the full blocks of the data; the counter is a 32-bit number.\<close>

partial_function (option) sha1_blocks ::
    "u32 list \<Rightarrow> bytes \<Rightarrow> u32 \<Rightarrow> u32 \<Rightarrow> (u32 list \<times> u32) option" where
  "sha1_blocks state data i len =
    (if i + 63 < len then do {
       state' \<leftarrow> SHA1Transform state data (unat i);
       sha1_blocks state' data (i + 64) len }
     else Some (state, i))"

definition SHA1Update :: "sha1_ctx \<Rightarrow> bytes \<Rightarrow> sha1_ctx option" where
  "SHA1Update ctx data =
    (let len = of_nat (length data) :: u32;
         j = drop_bit 3 (count0 ctx) AND 63;
         c0 = count0 ctx + push_bit 3 len;
         c1 = (if c0 < push_bit 3 len then count1 ctx + 1 else count1 ctx) + drop_bit 29 len
     in do {
       (state, buf, i, j) \<leftarrow>
         (if j + len > 63 then do {
            d \<leftarrow> rdn data 0 (unat (64 - j));
            buf \<leftarrow> wrn (sha_buffer ctx) (unat j) d;
            state \<leftarrow> SHA1Transform (sha_state ctx) buf 0;
            (state', i) \<leftarrow> sha1_blocks state data (64 - j) len;
            Some (state', buf, i, 0) }
          else Some (sha_state ctx, sha_buffer ctx, 0, j));
       d \<leftarrow> rdn data (unat i) (unat (len - i));
       buf' \<leftarrow> wrn buf (unat j) d;
       Some \<lparr>sha_state = state, count0 = c0, count1 = c1, sha_buffer = buf'\<rparr> })"

partial_function (option) sha1_pad :: "sha1_ctx \<Rightarrow> sha1_ctx option" where
  "sha1_pad ctx =
    (if count0 ctx AND 504 \<noteq> 448 then do { ctx' \<leftarrow> SHA1Update ctx [0]; sha1_pad ctx' }
     else Some ctx)"

definition SHA1Final :: "sha1_ctx \<Rightarrow> bytes option" where
  "SHA1Final ctx = do {
     let finalcount = map (\<lambda>i. ucast (drop_bit ((3 - i mod 4) * 8)
           (if i \<ge> 4 then count0 ctx else count1 ctx) AND 255)) [0..<8];
     ctx1 \<leftarrow> SHA1Update ctx [0x80];
     ctx2 \<leftarrow> sha1_pad ctx1;
     ctx3 \<leftarrow> SHA1Update ctx2 finalcount;
     Some (map (\<lambda>i. ucast (drop_bit ((3 - i mod 4) * 8) (sha_state ctx3 ! (i div 4)) AND 255))
       [0..<20]) }"

section \<open>The reference compression function\<close>

text \<open>
  FIPS 180-4, sections 4 and 6.1.2, written without the code's definitions: the library's
  rotation, the constants of the standard, and words read from bytes by their place value.
\<close>

type_synonym sha1_regs = "u32 \<times> u32 \<times> u32 \<times> u32 \<times> u32"

fun sha1_schedule :: "u32 list \<Rightarrow> nat \<Rightarrow> u32" where
  "sha1_schedule w t =
    (if t < 16 then w ! t
     else word_rotl 1 (sha1_schedule w (t - 3) XOR sha1_schedule w (t - 8) XOR
                       sha1_schedule w (t - 14) XOR sha1_schedule w (t - 16)))"

declare sha1_schedule.simps [simp del]

definition fips_f :: "nat \<Rightarrow> u32 \<Rightarrow> u32 \<Rightarrow> u32 \<Rightarrow> u32" where
  "fips_f t x y z =
    (if t < 20 then (x AND y) XOR (NOT x AND z)
     else if t < 40 then x XOR y XOR z
     else if t < 60 then (x AND y) XOR (x AND z) XOR (y AND z)
     else x XOR y XOR z)"

definition fips_K :: "nat \<Rightarrow> u32" where
  "fips_K t =
    (if t < 20 then 0x5a827999 else if t < 40 then 0x6ed9eba1
     else if t < 60 then 0x8f1bbcdc else 0xca62c1d6)"

fun fips_round :: "(nat \<Rightarrow> u32) \<Rightarrow> nat \<Rightarrow> sha1_regs \<Rightarrow> sha1_regs" where
  "fips_round w t (a, b, c, d, e) =
     (word_rotl 5 a + fips_f t b c d + e + fips_K t + w t, a, word_rotl 30 b, c, d)"

definition be_words :: "bytes \<Rightarrow> u32 list" where
  "be_words b = map (\<lambda>i. foldl (\<lambda>w x. 256 * w + ucast x) 0 (take 4 (drop (4 * i) b))) [0..<16]"

definition sha1_compress :: "u32 list \<Rightarrow> bytes \<Rightarrow> u32 list" where
  "sha1_compress h m =
    (let (a, b, c, d, e) = fold (fips_round (sha1_schedule (be_words m))) [0..<80]
           (h ! 0, h ! 1, h ! 2, h ! 3, h ! 4)
     in [h ! 0 + a, h ! 1 + b, h ! 2 + c, h ! 3 + d, h ! 4 + e])"

definition sha1_iv :: "u32 list" where
  "sha1_iv = [0x67452301, 0xEFCDAB89, 0x98BADCFE, 0x10325476, 0xC3D2E1F0]"

text \<open>The digest of a whole message: pad it, fold the compression over its blocks.\<close>

definition sha1_len_bytes :: "nat \<Rightarrow> bytes" where
  "sha1_len_bytes n = be32_bytes (of_nat (8 * n div 2 ^ 32)) @ be32_bytes (of_nat (8 * n))"

definition sha1_digest :: "bytes \<Rightarrow> bytes" where
  "sha1_digest m = concat (map be32_bytes
     (fold_blocks sha1_compress sha1_iv (pad_message m (sha1_len_bytes (length m)))))"

section \<open>The transform is the reference compression\<close>

lemma rol_rotl: "0 < n \<Longrightarrow> n < 32 \<Longrightarrow> rol v n = word_rotl n v"
  by (rule bit_word_eqI)
    (auto simp: rol_def bit_simps mod_if not_le add.commute dest: bit_imp_le_length)

lemma horner_byte: "256 * w + ucast (x :: u8) = push_bit 8 w OR (ucast x :: u32)"
proof -
  have "256 * w = push_bit 8 w" by (simp add: push_bit_eq_mult)
  then show ?thesis
    by (simp only:) (rule disjunctive_add, auto simp: bit_simps dest: bit_imp_le_length)
qed

lemma be_word_htonl:
  assumes "length b = 4"
  shows "foldl (\<lambda>w x. 256 * w + ucast x) 0 b = htonl (of_host_bytes32 b)"
proof -
  obtain x y z u where b: "b = [x, y, z, u]" using assms by (auto simp: numeral_eq_Suc length_Suc_conv)
  have "foldl (\<lambda>w x. 256 * w + ucast x) 0 b =
      push_bit 8 (push_bit 8 (push_bit 8 (push_bit 8 0 OR ucast x) OR ucast y) OR ucast z) OR
        (ucast u :: u32)"
    by (simp only: b foldl_Cons foldl_Nil horner_byte)
  also have "\<dots> = htonl (of_host_bytes32 b)"
    by (rule bit_word_eqI, simp only: bit_or_iff bit_push_bit_iff)
      (auto simp: b of_host_bytes32_def bits_of bit_simps dest: bit_imp_le_length)
  finally show ?thesis .
qed

lemma blk0_endiansafe_htonl: "blk0_endiansafe l = htonl l"
proof (rule bit_word_eqI)
  have m1: "bit (0xFF00FF00 :: u32) n \<longleftrightarrow> 8 \<le> n \<and> n < 16 \<or> 24 \<le> n \<and> n < 32" if "n < 32" for n
  proof -
    have e: "(0xFF00FF00 :: u32) = push_bit 8 (mask 8) OR push_bit 24 (mask 8)"
      by (simp add: mask_eq_exp_minus_1)
    show ?thesis unfolding e using that by (auto simp: bit_simps)
  qed
  have m2: "bit (0x00FF00FF :: u32) n \<longleftrightarrow> n < 8 \<or> 16 \<le> n \<and> n < 24" if "n < 32" for n
  proof -
    have e: "(0x00FF00FF :: u32) = mask 8 OR push_bit 16 (mask 8)"
      by (simp add: mask_eq_exp_minus_1)
    show ?thesis unfolding e using that by (auto simp: bit_simps)
  qed
  fix n :: nat assume n: "n < LENGTH(32)"
  then show "bit (blk0_endiansafe l) n \<longleftrightarrow> bit (htonl l) n"
    unfolding blk0_endiansafe_def bit_or_iff bit_and_iff using n m1 m2
    by (auto simp: rol_def bits_of bit_simps add.commute dest: bit_imp_le_length)
qed

lemma mix_fips:
  "t < 20 \<Longrightarrow> (w AND (x XOR y)) XOR y = fips_f t w x y"
  "20 \<le> t \<Longrightarrow> t < 40 \<Longrightarrow> w XOR x XOR y = fips_f t w x y"
  "40 \<le> t \<Longrightarrow> t < 60 \<Longrightarrow> ((w OR x) AND y) OR (w AND x) = fips_f t w x y"
  "60 \<le> t \<Longrightarrow> w XOR x XOR y = fips_f t w x y"
  by (rule bit_word_eqI, auto simp: fips_f_def bit_simps)+

text \<open>
  The ring: before round \<open>i\<close> the slots hold the last sixteen schedule words that have been
  computed, and the words of the block that have not been used yet.
\<close>

definition ring :: "u32 list \<Rightarrow> nat \<Rightarrow> u32 list \<Rightarrow> bool" where
  "ring raw i block \<longleftrightarrow> length block = 16 \<and>
     (\<forall>t < i. i \<le> t + 16 \<longrightarrow> block ! (t mod 16) = sha1_schedule (map htonl raw) t) \<and>
     (\<forall>k. i \<le> k \<and> k < 16 \<longrightarrow> block ! k = raw ! k)"

lemma ring_step:
  assumes "ring raw i block" and "length raw = 16"
  shows "\<exists>block'. (if i < 16 then blk0 i block else blk i block) =
      (sha1_schedule (map htonl raw) i, block') \<and> ring raw (Suc i) block'"
proof -
  let ?W = "sha1_schedule (map htonl raw)"
  have len: "length block = 16" using assms(1) by (simp add: ring_def)
  have "fst (if i < 16 then blk0 i block else blk i block) = ?W i"
  proof (cases "i < 16")
    case True
    with assms show ?thesis
      by (simp add: ring_def blk0_def Let_def blk0_endiansafe_htonl sha1_schedule.simps)
  next
    case False
    then obtain k where k: "i = k + 16" by (metis add.commute le_Suc_ex not_less)
    have w: "block ! ((k + d) mod 16) = ?W (k + d)" if "d < 16" for d
      using assms(1) that by (auto simp: ring_def k)
    have "(i + d) mod 16 = (k + d) mod 16" for d
      using mod_add_self2 [of "k + d" 16] by (simp add: k add.assoc add.commute)
    from this [of 13] this [of 8] this [of 2] this [of 0]
      w [of 13] w [of 8] w [of 2] w [of 0] False
    show ?thesis
      by (simp add: blk_def Let_def rol_rotl sha1_schedule.simps [of _ i]) (simp add: k add.commute)
  qed
  moreover have "snd (if i < 16 then blk0 i block else blk i block) = block[i mod 16 := ?W i]"
    using calculation by (auto simp: blk0_def blk_def Let_def split: if_splits)
  moreover have "ring raw (Suc i) (block[i mod 16 := ?W i])"
    unfolding ring_def
  proof (intro conjI allI impI)
    fix t assume t: "t < Suc i" "Suc i \<le> t + 16"
    show "block[i mod 16 := ?W i] ! (t mod 16) = ?W t"
    proof (cases "t = i")
      case False
      then have "\<not> 16 dvd i - t" using t by (intro nat_dvd_not_less) simp_all
      then have "t mod 16 \<noteq> i mod 16" using t mod_eq_dvd_iff_nat [of t i 16] by force
      then show ?thesis using assms(1) t False len by (auto simp: ring_def)
    qed (use len in simp)
  next
    fix k assume "Suc i \<le> k \<and> k < 16"
    then show "block[i mod 16 := ?W i] ! k = raw ! k" using assms(1) by (simp add: ring_def)
  qed (use len in simp)
  ultimately show ?thesis
    by (intro exI [of _ "block[i mod 16 := ?W i]"] conjI prod_eqI) simp_all
qed

text \<open>
  The renaming: before call \<open>t\<close> the variable that stands for \<open>a\<close> of the standard is at place
  \<open>4 * t\<close> modulo five, the next one follows it, and so on.
\<close>

definition place :: "nat \<Rightarrow> nat \<Rightarrow> nat" where
  "place t j = (4 * t + j) mod 5"

definition roles :: "nat \<Rightarrow> u32 list \<Rightarrow> sha1_regs" where
  "roles t r = (r ! place t 0, r ! place t 1, r ! place t 2, r ! place t 3, r ! place t 4)"

definition nth_call :: "nat \<Rightarrow> sha1_work \<Rightarrow> sha1_work" where
  "nth_call t =
    (if t < 16 then R0 else if t < 20 then R1 else if t < 40 then R2 else if t < 60 then R3 else R4)
      (place t 0) (place t 1) (place t 2) (place t 3) (place t 4) t"

lemma calls_in_order: "sha1_calls = map nth_call [0..<80]"
proof -
  have "[0..<80] = 0 # 1 # [2..<80]" by (simp add: upt_conv_Cons numeral_2_eq_2)
  then show ?thesis by (simp add: sha1_calls_def nth_call_def place_def upt_rec_numeral)
qed

lemma place_cases:
  obtains "place t 0 = 0" "place t 1 = 1" "place t 2 = 2" "place t 3 = 3" "place t 4 = 4"
  | "place t 0 = 4" "place t 1 = 0" "place t 2 = 1" "place t 3 = 2" "place t 4 = 3"
  | "place t 0 = 3" "place t 1 = 4" "place t 2 = 0" "place t 3 = 1" "place t 4 = 2"
  | "place t 0 = 2" "place t 1 = 3" "place t 2 = 4" "place t 3 = 0" "place t 4 = 1"
  | "place t 0 = 1" "place t 1 = 2" "place t 2 = 3" "place t 3 = 4" "place t 4 = 0"
proof -
  have m: "place t j = (4 * (t mod 5) + j) mod 5" for j
    unfolding place_def by (metis mod_add_left_eq mod_mult_right_eq)
  have "t mod 5 < 5" by simp
  then consider "t mod 5 = 0" | "t mod 5 = 1" | "t mod 5 = 2" | "t mod 5 = 3" | "t mod 5 = 4" by linarith
  then show thesis by cases (use that in \<open>simp_all add: m\<close>)
qed

lemma place_Suc: "place (Suc t) 0 = place t 4" "place (Suc t) (Suc 0) = place t 0"
  "place (Suc t) 2 = place t (Suc 0)" "place (Suc t) 3 = place t 2" "place (Suc t) 4 = place t 3"
  unfolding place_def by presburger+

text \<open>One call is one round of the standard, on the roles the variables have.\<close>

lemma call_step:
  assumes "length r = 5"
    and b: "(if t < 16 then blk0 t block else blk t block) = (W t, block')"
  shows "\<exists>r'. nth_call t (r, block) = (r', block') \<and> length r' = 5 \<and>
    roles (Suc t) r' = fips_round W t (roles t r)"
proof -
  obtain a b c d e where r: "r = [a, b, c, d, e]"
    using assms(1) by (auto simp: numeral_eq_Suc length_Suc_conv)
  note defs = nth_call_def R0_def R1_def R2_def R3_def R4_def r roles_def place_Suc fips_K_def
    rol_rotl Let_def
  consider "t < 16" | "16 \<le> t" "t < 20" | "20 \<le> t" "t < 40" | "40 \<le> t" "t < 60" | "60 \<le> t"
    by linarith
  then show ?thesis
    apply cases
    subgoal using assms(2) by (rule_tac place_cases [of t]) (simp_all add: defs mix_fips)
    subgoal using assms(2) by (rule_tac place_cases [of t]) (simp_all add: defs mix_fips)
    subgoal using assms(2) by (rule_tac place_cases [of t]) (simp_all add: defs mix_fips)
    subgoal using assms(2) by (rule_tac place_cases [of t]) (simp_all add: defs mix_fips)
    subgoal using assms(2) by (rule_tac place_cases [of t]) (simp_all add: defs mix_fips)
    done
qed

lemma calls_fips:
  assumes "length raw = 16" and "length r = 5"
  shows "\<exists>r' block. fold nth_call [0..<n] (r, raw) = (r', block) \<and> length r' = 5 \<and>
    roles n r' = fold (fips_round (sha1_schedule (map htonl raw))) [0..<n] (roles 0 r) \<and>
    ring raw n block"
proof (induction n)
  case 0
  show ?case using assms by (simp add: ring_def)
next
  case (Suc n)
  let ?W = "sha1_schedule (map htonl raw)"
  from Suc obtain r1 block where f: "fold nth_call [0..<n] (r, raw) = (r1, block)" "length r1 = 5"
    "roles n r1 = fold (fips_round ?W) [0..<n] (roles 0 r)" and g: "ring raw n block" by blast
  from ring_step [OF g assms(1)] obtain block' where
    b: "(if n < 16 then blk0 n block else blk n block) = (?W n, block')" "ring raw (Suc n) block'"
    by blast
  from call_step [where W = ?W, OF f(2) b(1)] f b(2) show ?case by auto
qed

lemma SHA1Transform_compress:
  assumes "rdn buf off 64 = Some b"
  shows "SHA1Transform st buf off = Some (sha1_compress st b)"
proof -
  let ?r = "[st ! 0, st ! 1, st ! 2, st ! 3, st ! 4]"
  have "length b = 64" using assms by (auto simp: rdn_def split: if_splits)
  then have "map htonl (block_words b) = be_words b"
    by (simp add: block_words_def be_words_def be_word_htonl)
  with calls_fips [of "block_words b" ?r 80] obtain r' block where
    f: "fold nth_call [0..<80] (?r, block_words b) = (r', block)"
    "roles 80 r' = fold (fips_round (sha1_schedule (be_words b))) [0..<80] (roles 0 ?r)"
    by (auto simp: block_words_def)
  have "fold (\<lambda>call. call) sha1_calls (?r, block_words b) = (r', block)"
    using f(1) by (simp add: calls_in_order fold_map comp_def)
  moreover have "roles 80 r' = (r' ! 0, r' ! 1, r' ! 2, r' ! 3, r' ! 4)"
    "roles 0 ?r = (st ! 0, st ! 1, st ! 2, st ! 3, st ! 4)"
    by (simp_all add: roles_def place_def)
  ultimately show ?thesis
    using assms f(2) by (auto simp: SHA1Transform_def sha1_compress_def split: prod.splits)
qed

section \<open>Updates absorb their data\<close>

text \<open>The bit counter counts the bits absorbed, and the context holds the message.\<close>

definition sha1_absorbed :: "sha1_ctx \<Rightarrow> bytes \<Rightarrow> bool" where
  "sha1_absorbed ctx m \<longleftrightarrow>
     holds_blocks sha1_compress sha1_iv (sha_state ctx) (sha_buffer ctx) m \<and>
     count0 ctx = of_nat (8 * length m) \<and> count1 ctx = of_nat (8 * length m div 2 ^ 32)"

lemma sha1_blocks_fold:
  assumes "length data + 64 < 2 ^ 32" and "i \<le> length data"
  shows "sha1_blocks st data (of_nat i) (of_nat (length data)) =
    Some (fold_blocks sha1_compress st (drop i data), of_nat (i + 64 * ((length data - i) div 64)))"
  using assms(2)
proof (induction "length data - i" arbitrary: i st rule: less_induct)
  case less
  have cond: "(of_nat i + 63 :: u32) < of_nat (length data) \<longleftrightarrow> i + 63 < length data"
    using assms(1) less.prems
    by (simp add: word_less_nat_alt unat_word_ariths unat_len)
  have ui: "unat (of_nat i :: u32) = i" using assms(1) less.prems by (simp add: unat_len)
  have ?case if long: "i + 63 < length data"
  proof -
    have r: "rdn data i 64 = Some (take 64 (drop i data))" using long by (simp add: rdn_def)
    have "sha1_blocks (sha1_compress st (take 64 (drop i data))) data (of_nat (i + 64))
        (of_nat (length data)) =
      Some (fold_blocks sha1_compress (sha1_compress st (take 64 (drop i data))) (drop (i + 64) data),
        of_nat (i + 64 + 64 * ((length data - (i + 64)) div 64)))"
      by (rule less.hyps) (use long in simp_all)
    moreover have "(length data - i) div 64 = Suc ((length data - (i + 64)) div 64)"
      using long by (simp add: le_div_geq)
    moreover have "fold_blocks sha1_compress st (drop i data) =
        fold_blocks sha1_compress (sha1_compress st (take 64 (drop i data))) (drop (i + 64) data)"
      using long by (subst fold_blocks.simps [of _ st]) (auto simp: add.commute)
    ultimately show ?thesis
      using cond long ui SHA1Transform_compress [OF r, of st]
      by (subst sha1_blocks.simps) (simp add: add.commute add.left_commute)
  qed
  moreover have ?case if "\<not> i + 63 < length data"
    using that cond by (subst sha1_blocks.simps) simp
  ultimately show ?case by blast
qed

lemma SHA1Update_absorbed:
  assumes "sha1_absorbed ctx m" and "length d + 64 < 2 ^ 32"
  shows "\<exists>ctx'. SHA1Update ctx d = Some ctx' \<and> sha1_absorbed ctx' (m @ d)"
proof -
  let ?len = "of_nat (length d) :: u32" and ?j = "length m mod 64"
  define jw where "jw = drop_bit 3 (count0 ctx) AND 63"
  define i where "i = 64 - ?j"
  have hb: "holds_blocks sha1_compress sha1_iv (sha_state ctx) (sha_buffer ctx) m"
    and c0: "count0 ctx = of_nat (8 * length m)"
    and c1: "count1 ctx = of_nat (8 * length m div 2 ^ 32)"
    using assms(1) by (simp_all add: sha1_absorbed_def)
  have buf: "length (sha_buffer ctx) = 64" using hb by (simp add: holds_blocks_def)
  have j: "?j < 64" by simp
  have jw: "unat jw = ?j" unfolding jw_def c0 by (rule count_index)
  have ul: "unat ?len = length d" using assms(2) by (simp add: unat_len)
  have ij: "64 - jw = of_nat i"
    using jw j by (simp add: word_unat_eq_iff unat_sub word_le_nat_alt i_def unat_len)
  have cond: "jw + ?len > 63 \<longleftrightarrow> 64 \<le> ?j + length d"
    using jw ul j assms(2) by (simp add: word_less_nat_alt unat_word_ariths) linarith
  note cs = counter_step [of "length d" "length m"]
  have k: "length d < 2 ^ 32" using assms(2) by simp
  have counts: "count0 ctx + push_bit 3 ?len = of_nat (8 * length (m @ d))"
    "(if count0 ctx + push_bit 3 ?len < push_bit 3 ?len then count1 ctx + 1 else count1 ctx) +
       drop_bit 29 ?len = of_nat (8 * length (m @ d) div 2 ^ 32)"
    unfolding c0 c1 cs(2) [OF k] unfolding cs(1) [OF k] by simp_all
  show ?thesis
  proof (cases "64 \<le> ?j + length d")
    case True
    define b where "b = put (sha_buffer ctx) ?j (take i d)"
    have il: "i \<le> length d" "?j + i = 64" "i < 2 ^ 32" using True j by (simp_all add: i_def)
    have lb: "length b = 64" using buf il by (simp add: b_def)
    define i' where "i' = i + 64 * ((length d - i) div 64)"
    have i': "i' \<le> length d" "drop i' d = left_over (drop i d)"
      using il by (simp_all add: i'_def left_over_def add.commute)
    have st: "SHA1Transform (sha_state ctx) b 0 = Some (sha1_compress (sha_state ctx) b)"
      by (rule SHA1Transform_compress) (use lb in \<open>simp add: rdn_def\<close>)
    note L = holds_blocks_long [OF hb True, folded i_def, folded b_def]
    have rest: "length (drop i' d) < 64" using i'(2) by simp
    have ui': "unat (of_nat i' :: u32) = i'" "unat (?len - of_nat i') = length d - i'"
      using i'(1) k ul by (simp_all add: unat_len unat_sub word_le_nat_alt)
    have "holds_blocks sha1_compress sha1_iv
        (fold_blocks sha1_compress (sha1_compress (sha_state ctx) b) (drop i d))
        (put b 0 (drop i' d)) (m @ d)"
      using L lb rest i'(2) by (simp add: holds_blocks_def put_def)
    moreover have "SHA1Update ctx d = Some
       \<lparr>sha_state = fold_blocks sha1_compress (sha1_compress (sha_state ctx) b) (drop i d),
        count0 = of_nat (8 * length (m @ d)), count1 = of_nat (8 * length (m @ d) div 2 ^ 32),
        sha_buffer = put b 0 (drop i' d)\<rparr>"
      using True il lb buf rest i'(1) ui'
      unfolding SHA1Update_def Let_def counts(2) unfolding counts(1) jw_def [symmetric] cond ij
      by (simp add: rdn_def wrn_put jw unat_len st sha1_blocks_fold [OF assms(2)]
          flip: b_def i'_def del: of_nat_add of_nat_mult)
    ultimately show ?thesis by (simp add: sha1_absorbed_def)
  next
    case False
    have "SHA1Update ctx d = Some
       \<lparr>sha_state = sha_state ctx,
        count0 = of_nat (8 * length (m @ d)), count1 = of_nat (8 * length (m @ d) div 2 ^ 32),
        sha_buffer = put (sha_buffer ctx) ?j d\<rparr>"
      using False buf ul
      unfolding SHA1Update_def Let_def counts(2) unfolding counts(1) jw_def [symmetric] cond
      by (simp add: rdn_def wrn_put jw del: of_nat_add of_nat_mult)
    with holds_blocks_short [OF hb] False show ?thesis by (simp add: sha1_absorbed_def)
  qed
qed

section \<open>Finishing\<close>

lemma count_at_56: "(of_nat (8 * n) :: u32) AND 504 = 448 \<longleftrightarrow> n mod 64 = 56"
proof -
  have "(of_nat (8 * n) :: u32) AND 504 = push_bit 3 (of_nat n) AND push_bit 3 63"
    by (simp add: push_bit_eq_mult mult.commute)
  also have "\<dots> = push_bit 3 (of_nat n AND 63)" by (simp only: push_bit_and)
  finally have "unat ((of_nat (8 * n) :: u32) AND 504) = 8 * (n mod 64)"
    using and_63 [of "of_nat n"]
    by (simp add: push_bit_eq_mult unat_word_ariths unat_of_nat mod_mod_cancel mult.commute)
  then show ?thesis by (simp add: word_unat_eq_iff)
qed

lemma sha1_pad_absorbed:
  assumes "sha1_absorbed ctx (m @ [0x80] @ replicate k 0)" and "k \<le> pad_zeros (length m)"
  shows "\<exists>ctx'. sha1_pad ctx = Some ctx' \<and>
    sha1_absorbed ctx' (m @ [0x80] @ replicate (pad_zeros (length m)) 0)"
  using assms
proof (induction "pad_zeros (length m) - k" arbitrary: k ctx rule: less_induct)
  case less
  have c: "count0 ctx AND 504 = 448 \<longleftrightarrow> k = pad_zeros (length m)"
    using less.prems(1) count_at_56 [of "length m + 1 + k"] pad_zeros_least [OF less.prems(2)]
    by (simp add: sha1_absorbed_def)
  show ?case
  proof (cases "k = pad_zeros (length m)")
    case True
    then show ?thesis using c less.prems(1) by (subst sha1_pad.simps) simp
  next
    case False
    from SHA1Update_absorbed [OF less.prems(1), of "[0]"] obtain ctx1
      where u: "SHA1Update ctx [0] = Some ctx1"
        and a: "sha1_absorbed ctx1 (m @ [0x80] @ replicate (Suc k) 0)"
      by (auto simp: replicate_append_same)
    from less.hyps [OF _ a] False less.prems(2) show ?thesis
      using c u by (subst sha1_pad.simps) simp
  qed
qed

lemma length_sha1_fold: "length h = 5 \<Longrightarrow> length (fold_blocks sha1_compress h m) = 5"
proof (induction sha1_compress h m rule: fold_blocks.induct)
  case (1 h m)
  show ?case
    using 1 by (subst fold_blocks.simps) (auto simp: sha1_compress_def split: prod.split)
qed

lemma length_5_cases:
  assumes "length xs = 5" obtains a b c d e where "xs = [a, b, c, d, e]"
  using assms by (auto simp: numeral_eq_Suc length_Suc_conv)

lemma ucast_and_255: "(ucast (w AND 255) :: u8) = ucast w" for w :: u32
  by (rule bit_word_eqI) (auto simp: bit_simps)

lemma SHA1Final_digest:
  assumes "sha1_absorbed ctx m"
  shows "SHA1Final ctx = Some (sha1_digest m)"
proof -
  let ?l = "sha1_len_bytes (length m)"
  have fc: "map (\<lambda>i. ucast (drop_bit ((3 - i mod 4) * 8)
      (if i \<ge> 4 then count0 ctx else count1 ctx) AND 255)) [0..<8] = ?l"
    using assms
    by (simp add: sha1_absorbed_def upt_rec ucast_and_255 sha1_len_bytes_def be32_bytes_def)
  obtain ctx1 where 1: "SHA1Update ctx [0x80] = Some ctx1" "sha1_absorbed ctx1 (m @ [0x80])"
    using SHA1Update_absorbed [OF assms, of "[0x80]"] by auto
  then obtain ctx2 where 2: "sha1_pad ctx1 = Some ctx2"
      "sha1_absorbed ctx2 (m @ [0x80] @ replicate (pad_zeros (length m)) 0)"
    using sha1_pad_absorbed [of ctx1 m 0] by auto
  have "length ?l = 8" by (simp add: sha1_len_bytes_def)
  then obtain ctx3 where 3: "SHA1Update ctx2 ?l = Some ctx3" "sha1_absorbed ctx3 (pad_message m ?l)"
    using SHA1Update_absorbed [OF 2(2), of ?l] by (auto simp: pad_message_def)
  let ?h = "fold_blocks sha1_compress sha1_iv (pad_message m ?l)"
  have st: "sha_state ctx3 = ?h" using 3(2) by (simp add: sha1_absorbed_def holds_blocks_def)
  have "length ?h = 5" by (rule length_sha1_fold) (simp add: sha1_iv_def)
  then obtain a b c d e where "?h = [a, b, c, d, e]" by (rule length_5_cases)
  then have "map (\<lambda>i. ucast (drop_bit ((3 - i mod 4) * 8) (sha_state ctx3 ! (i div 4)) AND 255))
      [0..<20] = sha1_digest m"
    by (simp add: st sha1_digest_def upt_rec ucast_and_255 be32_bytes_def)
  then show ?thesis by (simp add: SHA1Final_def fc 1 2 3)
qed

lemma SHA1Init_absorbed: "length g = 64 \<Longrightarrow> sha1_absorbed (SHA1Init g) []"
  by (simp add: sha1_absorbed_def SHA1Init_def holds_blocks_def sha1_iv_def)

text \<open>
  The context implements the digest: any sequence of updates gives the digest of the
  concatenation. The bound keeps a single update away from the end of the 32-bit lengths.
\<close>

interpretation sha1: streaming_digest "SHA1Init (replicate 64 g)" SHA1Update SHA1Final sha1_absorbed
  "\<lambda>n. n + 64 < 2 ^ 32" sha1_digest for g
  by unfold_locales (auto simp: SHA1Init_absorbed SHA1Final_digest intro: SHA1Update_absorbed)

lemma length_sha1_digest [simp]: "length (sha1_digest m) = 20"
proof -
  have "length (fold_blocks sha1_compress sha1_iv (pad_message m (sha1_len_bytes (length m)))) = 5"
    by (rule length_sha1_fold) (simp add: sha1_iv_def)
  then show ?thesis unfolding sha1_digest_def by (elim length_5_cases) simp
qed

end
