(* ===== verification/Hmac_Sha1.thy ===== *)
theory Hmac_Sha1
  imports Sha1
begin

unbundle bit_operations_syntax

text \<open>
  HMAC-SHA1 as \<open>stun/sha1.c\<close> computes it, over a vector of buffers and over a context, and the
  key derivation built on it. The reference is the construction of RFC 2104 on the reference
  digest. Stack objects start with arbitrary contents, which are arguments of the model.
\<close>

section \<open>Definitions\<close>

fun SHA1Update_vector :: "sha1_ctx \<Rightarrow> bytes list \<Rightarrow> sha1_ctx option" where
  "SHA1Update_vector ctx [] = Some ctx"
| "SHA1Update_vector ctx (d # ds) = do { ctx' \<leftarrow> SHA1Update ctx d; SHA1Update_vector ctx' ds }"

definition xor_pad :: "u8 \<Rightarrow> bytes \<Rightarrow> bytes" where
  "xor_pad c key = map (\<lambda>b. b XOR c) (key @ replicate (64 - length key) 0)"

text \<open>
  The first use of the context sees the stack, later ones the zeros \<open>SHA1Final\<close> leaves behind.
\<close>

definition hmac_sha1_vector :: "bytes \<Rightarrow> bytes \<Rightarrow> bytes list \<Rightarrow> bytes option" where
  "hmac_sha1_vector stack key addr = do {
     (key, stack) \<leftarrow>
       (if length key > 64 then do {
          ctx \<leftarrow> SHA1Update (SHA1Init stack) key;
          tk \<leftarrow> SHA1Final ctx;
          Some (tk, replicate 64 0) }
        else Some (key, stack));
     ctx \<leftarrow> SHA1Update (SHA1Init stack) (xor_pad 0x36 key);
     ctx \<leftarrow> SHA1Update_vector ctx addr;
     mac \<leftarrow> SHA1Final ctx;
     ctx \<leftarrow> SHA1Update (SHA1Init (replicate 64 0)) (xor_pad 0x5c key);
     ctx \<leftarrow> SHA1Update ctx mac;
     SHA1Final ctx }"

definition hmac_sha1 :: "bytes \<Rightarrow> bytes \<Rightarrow> bytes \<Rightarrow> bytes option" where
  "hmac_sha1 stack key data = hmac_sha1_vector stack key [data]"

record hmac_ctx =
  hmac_context :: sha1_ctx
  hmac_key :: bytes
  hmac_key_len :: nat

definition HMACInit :: "bytes \<Rightarrow> hmac_ctx \<Rightarrow> bytes \<Rightarrow> hmac_ctx option" where
  "HMACInit stack context key = do {
     key \<leftarrow> (if length key > 64 then do {
               ctx \<leftarrow> SHA1Update (SHA1Init stack) key; SHA1Final ctx }
             else Some key);
     k \<leftarrow> wrn (hmac_key context) 0 key;
     ctx \<leftarrow> SHA1Update (SHA1Init (sha_buffer (hmac_context context))) (xor_pad 0x36 key);
     Some \<lparr>hmac_context = ctx, hmac_key = k, hmac_key_len = length key\<rparr> }"

definition HMACUpdate :: "hmac_ctx \<Rightarrow> bytes \<Rightarrow> hmac_ctx option" where
  "HMACUpdate context data = do {
     ctx \<leftarrow> SHA1Update (hmac_context context) data;
     Some (context\<lparr>hmac_context := ctx\<rparr>) }"

definition HMACFinal :: "bytes \<Rightarrow> hmac_ctx \<Rightarrow> bytes option" where
  "HMACFinal stack context = do {
     sha1_digest \<leftarrow> SHA1Final (hmac_context context);
     key \<leftarrow> rdn (hmac_key context) 0 (hmac_key_len context);
     ctx \<leftarrow> SHA1Update (SHA1Init stack) (xor_pad 0x5c key);
     ctx \<leftarrow> SHA1Update ctx sha1_digest;
     SHA1Final ctx }"

text \<open>The loop of \<open>sha1_prf\<close>: what it writes from \<open>pos\<close> on when \<open>plen\<close> bytes are left.\<close>

fun sha1_prf_from :: "bytes \<Rightarrow> bytes \<Rightarrow> bytes \<Rightarrow> bytes \<Rightarrow> u8 \<Rightarrow> nat \<Rightarrow> bytes option" where
  "sha1_prf_from stack key label data counter plen =
    (if plen = 0 then Some []
     else if plen \<ge> 20 then do {
       h \<leftarrow> hmac_sha1_vector stack key [label @ [0], data, [counter]];
       rest \<leftarrow> sha1_prf_from stack key label data (counter + 1) (plen - 20);
       Some (h @ rest) }
     else do {
       h \<leftarrow> hmac_sha1_vector stack key [label @ [0], data, [counter]];
       Some (take plen h) })"

declare sha1_prf_from.simps [simp del]

definition sha1_prf :: "bytes \<Rightarrow> bytes \<Rightarrow> bytes \<Rightarrow> bytes \<Rightarrow> nat \<Rightarrow> bytes option" where
  "sha1_prf stack key label data buf_len = sha1_prf_from stack key label data 0 buf_len"

section \<open>The construction of RFC 2104\<close>

definition hmac_key_block :: "bytes \<Rightarrow> bytes" where
  "hmac_key_block key = (if length key > 64 then sha1_digest key else key)"

definition hmac_ref :: "bytes \<Rightarrow> bytes \<Rightarrow> bytes" where
  "hmac_ref key text = sha1_digest (xor_pad 0x5c (hmac_key_block key) @
     sha1_digest (xor_pad 0x36 (hmac_key_block key) @ text))"

lemma length_hmac_key_block: "length (hmac_key_block key) \<le> 64"
  by (simp add: hmac_key_block_def)

lemma length_xor_pad: "length key \<le> 64 \<Longrightarrow> length (xor_pad c key) = 64"
  by (simp add: xor_pad_def)

lemma length_xor_pad_block [simp]: "length (xor_pad c (hmac_key_block key)) = 64"
  by (rule length_xor_pad) (rule length_hmac_key_block)

text \<open>One update and the final step give the digest of what they were fed.\<close>

lemma SHA1Update_SHA1Init:
  assumes "length g = 64" and "length d + 64 < 2 ^ 32"
  obtains ctx where "SHA1Update (SHA1Init g) d = Some ctx" "sha1_absorbed ctx d"
  using SHA1Update_absorbed [OF SHA1Init_absorbed [OF assms(1)] assms(2)] by auto

lemma SHA1Update_vector_absorbed:
  "sha1_absorbed ctx m \<Longrightarrow> length (concat ds) + 64 < 2 ^ 32 \<Longrightarrow>
     \<exists>ctx'. SHA1Update_vector ctx ds = Some ctx' \<and> sha1_absorbed ctx' (m @ concat ds)"
proof (induction ds arbitrary: ctx m)
  case (Cons d ds)
  from SHA1Update_absorbed [OF Cons.prems(1), of d] Cons.prems(2) obtain ctx1
    where "SHA1Update ctx d = Some ctx1" "sha1_absorbed ctx1 (m @ d)" by auto
  with Cons.IH [of ctx1 "m @ d"] Cons.prems(2) show ?case by simp
qed simp

lemma outer_digest:
  assumes "length g = 64"
  shows "do { ctx \<leftarrow> SHA1Update (SHA1Init g) (xor_pad 0x5c (hmac_key_block key));
      ctx \<leftarrow> SHA1Update ctx (sha1_digest m); SHA1Final ctx } =
    Some (sha1_digest (xor_pad 0x5c (hmac_key_block key) @ sha1_digest m))"
proof -
  obtain c where c: "SHA1Update (SHA1Init g) (xor_pad 0x5c (hmac_key_block key)) = Some c"
    "sha1_absorbed c (xor_pad 0x5c (hmac_key_block key))"
    using SHA1Update_SHA1Init [OF assms, of "xor_pad 0x5c (hmac_key_block key)"] by auto
  obtain c' where "SHA1Update c (sha1_digest m) = Some c'"
    "sha1_absorbed c' (xor_pad 0x5c (hmac_key_block key) @ sha1_digest m)"
    using SHA1Update_absorbed [OF c(2), of "sha1_digest m"] by auto
  with c(1) show ?thesis by (simp add: SHA1Final_digest)
qed

lemma hmac_sha1_vector_ref:
  assumes "length stack = 64" and "length key + 64 < 2 ^ 32" and "length (concat addr) + 64 < 2 ^ 32"
  shows "hmac_sha1_vector stack key addr = Some (hmac_ref key (concat addr))"
proof -
  let ?i = "xor_pad 0x36 (hmac_key_block key)"
  obtain t where t: "SHA1Update (SHA1Init stack) key = Some t" "sha1_absorbed t key"
    by (rule SHA1Update_SHA1Init [OF assms(1,2)])
  then obtain stack' where k: "(if length key > 64 then do {
          ctx \<leftarrow> SHA1Update (SHA1Init stack) key; tk \<leftarrow> SHA1Final ctx; Some (tk, replicate 64 0) }
        else Some (key, stack)) = Some (hmac_key_block key, stack')" "length stack' = 64"
    using assms(1) that
    by (cases "length key > 64") (auto simp: hmac_key_block_def SHA1Final_digest)
  obtain c where c: "SHA1Update (SHA1Init stack') ?i = Some c" "sha1_absorbed c ?i"
    using SHA1Update_SHA1Init [OF k(2), of ?i] by auto
  obtain c' where "SHA1Update_vector c addr = Some c'" "sha1_absorbed c' (?i @ concat addr)"
    using SHA1Update_vector_absorbed [OF c(2) assms(3)] by blast
  with c(1) show ?thesis
    unfolding hmac_sha1_vector_def k(1)
    by (simp add: SHA1Final_digest outer_digest hmac_ref_def)
qed

text \<open>The incremental interface computes the same code.\<close>

definition hmac_holds :: "hmac_ctx \<Rightarrow> bytes \<Rightarrow> bytes \<Rightarrow> bool" where
  "hmac_holds context key text \<longleftrightarrow>
     sha1_absorbed (hmac_context context) (xor_pad 0x36 (hmac_key_block key) @ text) \<and>
     rdn (hmac_key context) 0 (hmac_key_len context) = Some (hmac_key_block key)"

lemma HMACInit_holds:
  assumes "length stack = 64" and "length (hmac_key context) = 64"
    and "length (sha_buffer (hmac_context context)) = 64" and "length key + 64 < 2 ^ 32"
  shows "\<exists>c. HMACInit stack context key = Some c \<and> hmac_holds c key []"
proof -
  let ?i = "xor_pad 0x36 (hmac_key_block key)"
  obtain t where t: "SHA1Update (SHA1Init stack) key = Some t" "sha1_absorbed t key"
    by (rule SHA1Update_SHA1Init [OF assms(1,4)])
  then have k: "(if length key > 64 then do { ctx \<leftarrow> SHA1Update (SHA1Init stack) key; SHA1Final ctx }
      else Some key) = Some (hmac_key_block key)"
    by (cases "length key > 64") (auto simp: hmac_key_block_def SHA1Final_digest)
  obtain c where "SHA1Update (SHA1Init (sha_buffer (hmac_context context))) ?i = Some c"
    "sha1_absorbed c ?i"
    using SHA1Update_SHA1Init [OF assms(3), of ?i] by auto
  then show ?thesis
    using assms(2) length_hmac_key_block [of key]
    unfolding HMACInit_def k
    by (simp add: hmac_holds_def wrn_put rdn_def put_def)
qed

lemma HMACUpdate_holds:
  assumes "hmac_holds c key text" and "length d + 64 < 2 ^ 32"
  shows "\<exists>c'. HMACUpdate c d = Some c' \<and> hmac_holds c' key (text @ d)"
  using assms SHA1Update_absorbed [of "hmac_context c" "xor_pad 0x36 (hmac_key_block key) @ text" d]
  by (auto simp: HMACUpdate_def hmac_holds_def)

lemma HMACFinal_ref:
  "hmac_holds c key text \<Longrightarrow> length stack = 64 \<Longrightarrow> HMACFinal stack c = Some (hmac_ref key text)"
  by (auto simp: HMACFinal_def hmac_holds_def SHA1Final_digest outer_digest hmac_ref_def)

interpretation hmac: streaming_digest
  "the (HMACInit (replicate 64 0) \<lparr>hmac_context = SHA1Init (replicate 64 0),
     hmac_key = replicate 64 0, hmac_key_len = 0\<rparr> (take 64 key))"
  HMACUpdate "HMACFinal (replicate 64 0)" "\<lambda>c. hmac_holds c (take 64 key)" "\<lambda>n. n + 64 < 2 ^ 32"
  "hmac_ref (take 64 key)" for key
proof
  let ?z = "\<lparr>hmac_context = SHA1Init (replicate 64 0), hmac_key = replicate 64 0, hmac_key_len = 0\<rparr>"
  show "hmac_holds (the (HMACInit (replicate 64 0) ?z (take 64 key))) (take 64 key) []"
    using HMACInit_holds [of "replicate 64 0" ?z "take 64 key"] by (force simp: SHA1Init_def)
qed (auto intro: HMACUpdate_holds HMACFinal_ref)

section \<open>Key derivation\<close>

text \<open>The derived key has the requested length and is a prefix of the blocks of the counter.\<close>

definition prf_block :: "bytes \<Rightarrow> bytes \<Rightarrow> bytes \<Rightarrow> nat \<Rightarrow> bytes" where
  "prf_block key label data i = hmac_ref key (label @ [0] @ data @ [of_nat i])"

lemma length_hmac_ref [simp]: "length (hmac_ref key text) = 20"
  by (simp add: hmac_ref_def)

lemma sha1_prf_from_ref:
  assumes "length stack = 64" and "length key + 64 < 2 ^ 32" and "length label + length data + 66 < 2 ^ 32"
  shows "sha1_prf_from stack key label data (of_nat i) plen =
    Some (take plen (concat (map (prf_block key label data) [i..<i + Suc (plen div 20)])))"
proof (induction plen arbitrary: i rule: less_induct)
  case (less plen)
  have h: "hmac_sha1_vector stack key [label @ [0], data, [of_nat i]] =
      Some (prf_block key label data i)"
    using assms by (simp add: hmac_sha1_vector_ref prf_block_def)
  have l: "length (prf_block key label data i) = 20" by (simp add: prf_block_def)
  show ?case
  proof (cases "plen \<ge> 20")
    case True
    have "sha1_prf_from stack key label data (of_nat i + 1) (plen - 20) =
        Some (take (plen - 20) (concat (map (prf_block key label data)
          [Suc i..<Suc i + Suc ((plen - 20) div 20)])))"
      using less.IH [of "plen - 20" "Suc i"] True by (simp add: add.commute)
    moreover have "plen div 20 = Suc ((plen - 20) div 20)" using True by (simp add: le_div_geq)
    moreover have "[i..<i + Suc (Suc n)] = i # [Suc i..<Suc i + Suc n]" for n
      by (subst upt_conv_Cons) simp_all
    ultimately show ?thesis
      using True h l by (subst sha1_prf_from.simps) simp
  next
    case False
    then show ?thesis using h l by (subst sha1_prf_from.simps) simp
  qed
qed

lemma sha1_prf_blocks:
  assumes "length stack = 64" and "length key + 64 < 2 ^ 32" and "length label + length data + 66 < 2 ^ 32"
  shows "sha1_prf stack key label data n =
    Some (take n (concat (map (\<lambda>i. hmac_ref key (label @ [0] @ data @ [of_nat i])) [0..<Suc (n div 20)])))"
  using sha1_prf_from_ref [OF assms, of 0 n] unfolding sha1_prf_def prf_block_def [abs_def] by simp

end
