(* ===== verification/Md5.thy ===== *)
theory Md5
  imports Sha1
begin

unbundle bit_operations_syntax

text \<open>
  The MD5 implementation of \<open>stun/md5.c\<close>. The host is little-endian, so \<open>byteReverse\<close> does
  nothing and the union of bytes and words needs no conversion. The reference is the
  compression function of RFC 1321, with its index and shift formulas.
\<close>

section \<open>The transform\<close>

definition F1 :: "u32 \<Rightarrow> u32 \<Rightarrow> u32 \<Rightarrow> u32" where "F1 x y z = z XOR (x AND (y XOR z))"
definition F2 :: "u32 \<Rightarrow> u32 \<Rightarrow> u32 \<Rightarrow> u32" where "F2 x y z = F1 z x y"
definition F3 :: "u32 \<Rightarrow> u32 \<Rightarrow> u32 \<Rightarrow> u32" where "F3 x y z = x XOR y XOR z"
definition F4 :: "u32 \<Rightarrow> u32 \<Rightarrow> u32 \<Rightarrow> u32" where "F4 x y z = y XOR (x OR NOT z)"

type_synonym md5_regs = "u32 \<times> u32 \<times> u32 \<times> u32"

text \<open>
  One step, with the registers moving on instead of the names rotating as in the unrolled
  code; the arguments of the 64 calls of the macro are the table.
\<close>

fun MD5STEP :: "u32 list \<Rightarrow> (u32 \<Rightarrow> u32 \<Rightarrow> u32 \<Rightarrow> u32) \<times> nat \<times> u32 \<times> nat \<Rightarrow> md5_regs \<Rightarrow> md5_regs" where
  "MD5STEP inw (f, k, c, s) (w, x, y, z) =
    (let w1 = w + (f x y z + (inw ! k + c)); w2 = rol w1 s; w3 = w2 + x in (z, w3, x, y))"

definition md5_steps :: "((u32 \<Rightarrow> u32 \<Rightarrow> u32 \<Rightarrow> u32) \<times> nat \<times> u32 \<times> nat) list" where
  "md5_steps = [
     (F1, 0, 0xd76aa478, 7), (F1, 1, 0xe8c7b756, 12), (F1, 2, 0x242070db, 17), (F1, 3, 0xc1bdceee, 22),
     (F1, 4, 0xf57c0faf, 7), (F1, 5, 0x4787c62a, 12), (F1, 6, 0xa8304613, 17), (F1, 7, 0xfd469501, 22),
     (F1, 8, 0x698098d8, 7), (F1, 9, 0x8b44f7af, 12), (F1, 10, 0xffff5bb1, 17), (F1, 11, 0x895cd7be, 22),
     (F1, 12, 0x6b901122, 7), (F1, 13, 0xfd987193, 12), (F1, 14, 0xa679438e, 17), (F1, 15, 0x49b40821, 22),
     (F2, 1, 0xf61e2562, 5), (F2, 6, 0xc040b340, 9), (F2, 11, 0x265e5a51, 14), (F2, 0, 0xe9b6c7aa, 20),
     (F2, 5, 0xd62f105d, 5), (F2, 10, 0x02441453, 9), (F2, 15, 0xd8a1e681, 14), (F2, 4, 0xe7d3fbc8, 20),
     (F2, 9, 0x21e1cde6, 5), (F2, 14, 0xc33707d6, 9), (F2, 3, 0xf4d50d87, 14), (F2, 8, 0x455a14ed, 20),
     (F2, 13, 0xa9e3e905, 5), (F2, 2, 0xfcefa3f8, 9), (F2, 7, 0x676f02d9, 14), (F2, 12, 0x8d2a4c8a, 20),
     (F3, 5, 0xfffa3942, 4), (F3, 8, 0x8771f681, 11), (F3, 11, 0x6d9d6122, 16), (F3, 14, 0xfde5380c, 23),
     (F3, 1, 0xa4beea44, 4), (F3, 4, 0x4bdecfa9, 11), (F3, 7, 0xf6bb4b60, 16), (F3, 10, 0xbebfbc70, 23),
     (F3, 13, 0x289b7ec6, 4), (F3, 0, 0xeaa127fa, 11), (F3, 3, 0xd4ef3085, 16), (F3, 6, 0x04881d05, 23),
     (F3, 9, 0xd9d4d039, 4), (F3, 12, 0xe6db99e5, 11), (F3, 15, 0x1fa27cf8, 16), (F3, 2, 0xc4ac5665, 23),
     (F4, 0, 0xf4292244, 6), (F4, 7, 0x432aff97, 10), (F4, 14, 0xab9423a7, 15), (F4, 5, 0xfc93a039, 21),
     (F4, 12, 0x655b59c3, 6), (F4, 3, 0x8f0ccc92, 10), (F4, 10, 0xffeff47d, 15), (F4, 1, 0x85845dd1, 21),
     (F4, 8, 0x6fa87e4f, 6), (F4, 15, 0xfe2ce6e0, 10), (F4, 6, 0xa3014314, 15), (F4, 13, 0x4e0811a1, 21),
     (F4, 4, 0xf7537e82, 6), (F4, 11, 0xbd3af235, 10), (F4, 2, 0x2ad7d2bb, 15), (F4, 9, 0xeb86d391, 21)]"

definition MD5Transform :: "u32 list \<Rightarrow> u32 list \<Rightarrow> u32 list" where
  "MD5Transform buf inw =
    (let (a, b, c, d) = fold (MD5STEP inw) md5_steps (buf ! 0, buf ! 1, buf ! 2, buf ! 3)
     in [buf ! 0 + a, buf ! 1 + b, buf ! 2 + c, buf ! 3 + d])"

section \<open>Contexts\<close>

record md5_ctx =
  md5_buf :: "u32 list"
  bits0 :: u32
  bits1 :: u32
  md5_in :: bytes

definition MD5Init :: "bytes \<Rightarrow> md5_ctx" where
  "MD5Init stack = \<lparr>md5_buf = [0x67452301, 0xefcdab89, 0x98badcfe, 0x10325476],
     bits0 = 0, bits1 = 0, md5_in = stack\<rparr>"

text \<open>The loop over full blocks: chaining value, block buffer and what is left of the data.\<close>

function md5_blocks ::
    "u32 list \<Rightarrow> bytes \<Rightarrow> bytes \<Rightarrow> nat \<Rightarrow> u32 \<Rightarrow> (u32 list \<times> bytes \<times> nat \<times> u32) option" where
  "md5_blocks st inb data off len =
    (if len \<ge> 64 then do {
       d \<leftarrow> rdn data off 64;
       inb' \<leftarrow> wrn inb 0 d;
       md5_blocks (MD5Transform st (block_words inb')) inb' data (off + 64) (len - 64) }
     else Some (st, inb, off, len))"
  by pat_completeness auto
termination
  by (relation "measure (\<lambda>(st, b, d, off, len). unat len)")
    (auto simp: word_le_nat_alt unat_sub)

declare md5_blocks.simps [simp del]

definition MD5Update :: "md5_ctx \<Rightarrow> bytes \<Rightarrow> md5_ctx option" where
  "MD5Update ctx data =
    (let len = of_nat (length data) :: u32;
         t = bits0 ctx;
         b0 = t + push_bit 3 len;
         b1 = (if b0 < t then bits1 ctx + 1 else bits1 ctx) + drop_bit 29 len;
         t = drop_bit 3 t AND 0x3f
     in if t \<noteq> 0 \<and> len < 64 - t then do {
          inb \<leftarrow> wrn (md5_in ctx) (unat t) data;
          Some (ctx\<lparr>bits0 := b0, bits1 := b1, md5_in := inb\<rparr>) }
        else do {
          (st, inb, off, len) \<leftarrow>
            (if t \<noteq> 0 then do {
               d \<leftarrow> rdn data 0 (unat (64 - t));
               inb \<leftarrow> wrn (md5_in ctx) (unat t) d;
               Some (MD5Transform (md5_buf ctx) (block_words inb), inb, unat (64 - t), len - (64 - t)) }
             else Some (md5_buf ctx, md5_in ctx, 0, len));
          (st, inb, off, len) \<leftarrow> md5_blocks st inb data off len;
          d \<leftarrow> rdn data off (unat len);
          inb \<leftarrow> wrn inb 0 d;
          Some \<lparr>md5_buf = st, bits0 = b0, bits1 = b1, md5_in = inb\<rparr> })"

definition MD5Final :: "md5_ctx \<Rightarrow> bytes option" where
  "MD5Final ctx = do {
     let count = drop_bit 3 (bits0 ctx) AND 0x3F;
     let p = unat count + 1;
     inb \<leftarrow> wr (md5_in ctx) (unat count) 0x80;
     let count = 64 - 1 - count;
     (st, inb) \<leftarrow>
       (if count < 8 then do {
          inb \<leftarrow> wrn inb p (replicate (unat count) 0);
          inb' \<leftarrow> wrn inb 0 (replicate 56 0);
          Some (MD5Transform (md5_buf ctx) (block_words inb), inb') }
        else do {
          inb \<leftarrow> wrn inb p (replicate (unat (count - 8)) 0);
          Some (md5_buf ctx, inb) });
     inb \<leftarrow> wrn inb 56 (host_bytes32 (bits0 ctx));
     inb \<leftarrow> wrn inb 60 (host_bytes32 (bits1 ctx));
     Some (concat (map host_bytes32 (MD5Transform st (block_words inb)))) }"

section \<open>The reference compression function\<close>

definition rfc_F :: "nat \<Rightarrow> u32 \<Rightarrow> u32 \<Rightarrow> u32 \<Rightarrow> u32" where
  "rfc_F i x y z =
    (if i < 16 then (x AND y) OR (NOT x AND z)
     else if i < 32 then (x AND z) OR (y AND NOT z)
     else if i < 48 then x XOR y XOR z
     else y XOR (x OR NOT z))"

definition rfc_index :: "nat \<Rightarrow> nat" where
  "rfc_index i = (if i < 16 then i else if i < 32 then (5 * i + 1) mod 16
     else if i < 48 then (3 * i + 5) mod 16 else (7 * i) mod 16)"

definition rfc_shift :: "nat \<Rightarrow> nat" where
  "rfc_shift i = [[7, 12, 17, 22], [5, 9, 14, 20], [4, 11, 16, 23], [6, 10, 15, 21]] ! (i div 16) !
     (i mod 4)"

text \<open>The sine table of the RFC.\<close>

definition rfc_T :: "u32 list" where
  "rfc_T = [
     0xd76aa478, 0xe8c7b756, 0x242070db, 0xc1bdceee, 0xf57c0faf, 0x4787c62a, 0xa8304613, 0xfd469501,
     0x698098d8, 0x8b44f7af, 0xffff5bb1, 0x895cd7be, 0x6b901122, 0xfd987193, 0xa679438e, 0x49b40821,
     0xf61e2562, 0xc040b340, 0x265e5a51, 0xe9b6c7aa, 0xd62f105d, 0x02441453, 0xd8a1e681, 0xe7d3fbc8,
     0x21e1cde6, 0xc33707d6, 0xf4d50d87, 0x455a14ed, 0xa9e3e905, 0xfcefa3f8, 0x676f02d9, 0x8d2a4c8a,
     0xfffa3942, 0x8771f681, 0x6d9d6122, 0xfde5380c, 0xa4beea44, 0x4bdecfa9, 0xf6bb4b60, 0xbebfbc70,
     0x289b7ec6, 0xeaa127fa, 0xd4ef3085, 0x04881d05, 0xd9d4d039, 0xe6db99e5, 0x1fa27cf8, 0xc4ac5665,
     0xf4292244, 0x432aff97, 0xab9423a7, 0xfc93a039, 0x655b59c3, 0x8f0ccc92, 0xffeff47d, 0x85845dd1,
     0x6fa87e4f, 0xfe2ce6e0, 0xa3014314, 0x4e0811a1, 0xf7537e82, 0xbd3af235, 0x2ad7d2bb, 0xeb86d391]"

fun rfc_step :: "u32 list \<Rightarrow> nat \<Rightarrow> md5_regs \<Rightarrow> md5_regs" where
  "rfc_step x i (a, b, c, d) =
     (d, b + rol (a + rfc_F i b c d + x ! rfc_index i + rfc_T ! i) (rfc_shift i), b, c)"

definition md5_compress :: "u32 list \<Rightarrow> bytes \<Rightarrow> u32 list" where
  "md5_compress h m =
    (let (a, b, c, d) = fold (rfc_step (block_words m)) [0..<64] (h ! 0, h ! 1, h ! 2, h ! 3)
     in [h ! 0 + a, h ! 1 + b, h ! 2 + c, h ! 3 + d])"

definition md5_iv :: "u32 list" where
  "md5_iv = [0x67452301, 0xefcdab89, 0x98badcfe, 0x10325476]"

definition md5_len_bytes :: "nat \<Rightarrow> bytes" where
  "md5_len_bytes n = host_bytes32 (of_nat (8 * n)) @ host_bytes32 (of_nat (8 * n div 2 ^ 32))"

definition md5_digest :: "bytes \<Rightarrow> bytes" where
  "md5_digest m = concat (map host_bytes32
     (fold_blocks md5_compress md5_iv (pad_message m (md5_len_bytes (length m)))))"

section \<open>The transform is the reference compression\<close>

lemma F_rfc:
  "F1 x y z = (x AND y) OR (NOT x AND z)" "F2 x y z = (x AND z) OR (y AND NOT z)"
  "F3 x y z = x XOR y XOR z" "F4 x y z = y XOR (x OR NOT z)"
  by (rule bit_word_eqI, auto simp: F1_def F2_def F3_def F4_def bit_simps)+

text \<open>Row by row, the table of the code carries the RFC's function, index, constant and shift.\<close>

definition rfc_row :: "nat \<Rightarrow> (u32 \<Rightarrow> u32 \<Rightarrow> u32 \<Rightarrow> u32) \<times> nat \<times> u32 \<times> nat" where
  "rfc_row i = ((if i < 16 then F1 else if i < 32 then F2 else if i < 48 then F3 else F4),
     rfc_index i, rfc_T ! i, rfc_shift i)"

lemma md5_steps_rfc: "md5_steps = map rfc_row [0..<64]"
  by (simp add: md5_steps_def upt_rec rfc_row_def rfc_index_def rfc_T_def rfc_shift_def)

lemma MD5STEP_rfc: "MD5STEP x (rfc_row i) r = rfc_step x i r"
  by (cases r) (auto simp: rfc_row_def rfc_F_def F_rfc Let_def ac_simps)

lemma MD5Transform_compress: "MD5Transform st (block_words b) = md5_compress st b"
  by (simp add: MD5Transform_def md5_compress_def md5_steps_rfc fold_map o_def MD5STEP_rfc [abs_def])

section \<open>Updates absorb their data\<close>

definition md5_absorbed :: "md5_ctx \<Rightarrow> bytes \<Rightarrow> bool" where
  "md5_absorbed ctx m \<longleftrightarrow> holds_blocks md5_compress md5_iv (md5_buf ctx) (md5_in ctx) m \<and>
     bits0 ctx = of_nat (8 * length m) \<and> bits1 ctx = of_nat (8 * length m div 2 ^ 32)"

lemma md5_blocks_fold:
  assumes "length data < 2 ^ 32" and "off \<le> length data" and "length inb = 64"
  shows "\<exists>inb'. md5_blocks st inb data off (of_nat (length data - off)) =
      Some (fold_blocks md5_compress st (drop off data), inb',
        off + 64 * ((length data - off) div 64), of_nat ((length data - off) mod 64)) \<and>
    length inb' = 64"
  using assms(2,3)
proof (induction "length data - off" arbitrary: off st inb rule: less_induct)
  case less
  let ?l = "length data - off"
  have cond: "(of_nat ?l :: u32) \<ge> 64 \<longleftrightarrow> 64 \<le> ?l"
    using assms(1) by (simp add: word_le_nat_alt unat_len)
  show ?case
  proof (cases "64 \<le> ?l")
    case True
    let ?b = "take 64 (drop off data)"
    have b: "put inb 0 ?b = ?b" using True less.prems by (simp add: put_def)
    have "\<exists>inb'. md5_blocks (md5_compress st ?b) ?b data (off + 64)
          (of_nat (length data - (off + 64))) =
        Some (fold_blocks md5_compress (md5_compress st ?b) (drop (off + 64) data), inb',
          off + 64 + 64 * ((length data - (off + 64)) div 64),
          of_nat ((length data - (off + 64)) mod 64)) \<and> length inb' = 64"
      by (rule less.hyps) (use True in simp_all)
    moreover have "(of_nat ?l :: u32) - 64 = of_nat (length data - (off + 64))"
      using True by (simp add: of_nat_diff diff_diff_left [symmetric] del: diff_diff_left)
    moreover have "?l div 64 = Suc ((length data - (off + 64)) div 64)"
      "?l mod 64 = (length data - (off + 64)) mod 64"
      using True by (simp_all add: le_div_geq le_mod_geq)
    moreover have "fold_blocks md5_compress st (drop off data) =
        fold_blocks md5_compress (md5_compress st ?b) (drop (off + 64) data)"
      using True by (subst fold_blocks.simps [of _ st]) (auto simp: add.commute)
    moreover have "rdn data off 64 = Some ?b" using True by (simp add: rdn_def)
    ultimately show ?thesis
      using True cond b less.prems(2)
      by (subst md5_blocks.simps) (simp add: wrn_put MD5Transform_compress add.assoc diff_diff_eq)
  next
    case False
    then show ?thesis
      using cond less.prems by (subst md5_blocks.simps) simp
  qed
qed

lemma md5_counter_step:
  assumes "k < 2 ^ 32"
  shows "(if of_nat (8 * n) + push_bit 3 (of_nat k) < (of_nat (8 * n) :: u32)
      then of_nat (8 * n div 2 ^ 32) + 1 else of_nat (8 * n div 2 ^ 32)) + drop_bit 29 (of_nat k) =
    (of_nat (8 * (n + k) div 2 ^ 32) :: u32)"
proof -
  have "(a + b < a) = (a + b < b)" for a b :: u32
    using no_olen_add_nat [of a b] no_olen_add_nat [of b a]
    by (simp add: not_le [symmetric] add.commute)
  with counter_step(2) [OF assms, of n] show ?thesis by simp
qed

text \<open>The tail of an update, from an empty buffer on.\<close>

lemma md5_tail:
  assumes "length data < 2 ^ 32" and "off \<le> length data" and "length inb = 64"
    and m: "fold_blocks md5_compress md5_iv m = fold_blocks md5_compress st (drop off data)"
      "left_over m = left_over (drop off data)" "length m mod 64 = (length data - off) mod 64"
  shows "\<exists>st' inb'. do {
      (st, inb, off, len) \<leftarrow> md5_blocks st inb data off (of_nat (length data - off));
      d \<leftarrow> rdn data off (unat len);
      inb \<leftarrow> wrn inb 0 d;
      Some \<lparr>md5_buf = st, bits0 = b0, bits1 = b1, md5_in = inb\<rparr> } =
    Some \<lparr>md5_buf = st', bits0 = b0, bits1 = b1, md5_in = inb'\<rparr> \<and>
    holds_blocks md5_compress md5_iv st' inb' m"
proof -
  let ?l = "length data - off"
  from md5_blocks_fold [OF assms(1-3), of st] obtain inb'
    where b: "md5_blocks st inb data off (of_nat ?l) =
        Some (fold_blocks md5_compress st (drop off data), inb', off + 64 * (?l div 64),
          of_nat (?l mod 64))" and l: "length inb' = 64"
    by blast
  have u: "unat (of_nat (?l mod 64) :: u32) = ?l mod 64"
    by (rule unat_len) (rule less_trans [of _ 64], simp_all)
  have le: "off + 64 * (?l div 64) + ?l mod 64 = length data" using assms(2) by simp
  have d: "drop (off + 64 * (?l div 64)) data = left_over (drop off data)"
    by (simp add: left_over_def add.commute)
  have lo: "length (left_over (drop off data)) = ?l mod 64" by simp
  have less: "?l mod 64 < 64" by simp
  have r: "rdn data (off + 64 * (?l div 64)) (?l mod 64) = Some (left_over (drop off data))"
    using le d lo by (simp add: rdn_def)
  let ?i = "put inb' 0 (left_over (drop off data))"
  have "holds_blocks md5_compress md5_iv (fold_blocks md5_compress st (drop off data)) ?i m"
    using m l less unfolding holds_blocks_def by (simp add: put_def)
  moreover have "wrn inb' 0 (left_over (drop off data)) = Some ?i"
    using l less by (intro wrn_put) simp
  ultimately show ?thesis using b u r by simp
qed

lemma MD5Update_absorbed:
  assumes "md5_absorbed ctx m" and "length d < 2 ^ 32"
  shows "\<exists>ctx'. MD5Update ctx d = Some ctx' \<and> md5_absorbed ctx' (m @ d)"
proof -
  let ?len = "of_nat (length d) :: u32" and ?j = "length m mod 64"
  define t where "t = drop_bit 3 (bits0 ctx) AND 0x3f"
  have hb: "holds_blocks md5_compress md5_iv (md5_buf ctx) (md5_in ctx) m"
    and c: "bits0 ctx = of_nat (8 * length m)" "bits1 ctx = of_nat (8 * length m div 2 ^ 32)"
    using assms(1) by (simp_all add: md5_absorbed_def)
  have buf: "length (md5_in ctx) = 64" using hb by (simp add: holds_blocks_def)
  have j: "?j < 64" by simp
  have t: "unat t = ?j" unfolding t_def c(1) by (rule count_index)
  have t0: "t = 0 \<longleftrightarrow> ?j = 0" using t by (metis unat_eq_zero)
  have ul: "unat ?len = length d" using assms(2) by (rule unat_len)
  have t64: "unat (64 - t) = 64 - ?j" using t j by (simp add: unat_sub word_le_nat_alt)
  then have cond: "?len < 64 - t \<longleftrightarrow> ?j + length d < 64"
    using ul j by (simp add: word_less_nat_alt) linarith
  have counts: "bits0 ctx + push_bit 3 ?len = of_nat (8 * length (m @ d))"
    "(if bits0 ctx + push_bit 3 ?len < bits0 ctx then bits1 ctx + 1 else bits1 ctx) +
       drop_bit 29 ?len = of_nat (8 * length (m @ d) div 2 ^ 32)"
    unfolding c md5_counter_step [OF assms(2)] unfolding counter_step(1) [OF assms(2)] by simp_all
  let ?c0 = "of_nat (8 * length (m @ d)) :: u32"
    and ?c1 = "of_nat (8 * length (m @ d) div 2 ^ 32) :: u32"
  note U = MD5Update_def Let_def counts(2)
  consider "?j \<noteq> 0" "?j + length d < 64" | "?j \<noteq> 0" "64 \<le> ?j + length d" | "?j = 0"
    by linarith
  then show ?thesis
  proof cases
    case 1
    then have "MD5Update ctx d = Some (ctx\<lparr>bits0 := of_nat (8 * length (m @ d)),
        bits1 := of_nat (8 * length (m @ d) div 2 ^ 32), md5_in := put (md5_in ctx) ?j d\<rparr>)"
      unfolding U unfolding counts(1) t_def [symmetric] cond
      by (simp add: t0 t wrn_put buf)
    with holds_blocks_short [OF hb 1(2)] show ?thesis by (simp add: md5_absorbed_def)
  next
    case 2
    let ?k = "64 - ?j" and ?b = "put (md5_in ctx) ?j (take (64 - ?j) d)"
    have k: "?k \<le> length d" using 2 j by linarith
    have b: "length ?b = 64" using k buf j by simp
    have "of_nat (unat (64 - t)) = 64 - t" by simp
    then have w: "?len - (64 - t) = of_nat (length d - ?k)"
      using k unfolding t64 by (simp only: of_nat_diff)
    note L = holds_blocks_long [OF hb 2(2)]
    have L3: "length (m @ d) mod 64 = (length d - ?k) mod 64" using L(3) by simp
    have r: "rdn d 0 ?k = Some (take ?k d)" "wrn (md5_in ctx) ?j (take ?k d) = Some ?b"
      using k buf j by (simp_all add: rdn_def wrn_put)
    from md5_tail [OF assms(2) k b L(1,2) L3, where ?b0.0 = ?c0 and ?b1.0 = ?c1]
    obtain st' inb' where e: "MD5Update ctx d =
        Some \<lparr>md5_buf = st', bits0 = ?c0, bits1 = ?c1, md5_in = inb'\<rparr>"
      and "holds_blocks md5_compress md5_iv st' inb' (m @ d)"
      using 2 unfolding U unfolding counts(1) t_def [symmetric] cond
      by (auto simp: t0 t t64 w r MD5Transform_compress simp del: of_nat_diff)
    then show ?thesis by (simp add: md5_absorbed_def)
  next
    case 3
    have h: "md5_buf ctx = fold_blocks md5_compress md5_iv m" "left_over m = []"
      using hb 3 by (simp_all add: holds_blocks_def flip: length_0_conv)
    have f: "fold_blocks md5_compress md5_iv (m @ d) = fold_blocks md5_compress (md5_buf ctx) (drop 0 d)"
      "left_over (m @ d) = left_over (drop 0 d)" "length (m @ d) mod 64 = (length d - 0) mod 64"
      using h 3 fold_blocks_append [of md5_compress md5_iv m d] left_over_append [of m d]
      by (auto simp: mod_add_left_eq [symmetric])
    from md5_tail [OF assms(2) le0 buf f, where ?b0.0 = ?c0 and ?b1.0 = ?c1]
    obtain st' inb' where e: "MD5Update ctx d =
        Some \<lparr>md5_buf = st', bits0 = ?c0, bits1 = ?c1, md5_in = inb'\<rparr>"
      and "holds_blocks md5_compress md5_iv st' inb' (m @ d)"
      using 3 unfolding U unfolding counts(1) t_def [symmetric] cond by (auto simp: t0)
    then show ?thesis by (simp add: md5_absorbed_def)
  qed
qed

section \<open>Finishing\<close>

lemma put_after: "take i b = xs \<Longrightarrow> length b = 64 \<Longrightarrow> i + length d \<le> 64 \<Longrightarrow> i = length xs \<Longrightarrow>
    take (i + length d) (put b i d) = xs @ d"
  by (simp add: put_def)

lemma MD5Final_digest:
  assumes "md5_absorbed ctx m"
  shows "MD5Final ctx = Some (md5_digest m)"
proof -
  define j where "j = length m mod 64"
  let ?l = "md5_len_bytes (length m)"
  let ?h = "fold_blocks md5_compress md5_iv m" and ?r = "left_over m"
  have st: "md5_buf ctx = ?h" and buf: "length (md5_in ctx) = 64" "take j (md5_in ctx) = ?r"
    and c: "bits0 ctx = of_nat (8 * length m)" "bits1 ctx = of_nat (8 * length m div 2 ^ 32)"
    using assms by (simp_all add: md5_absorbed_def holds_blocks_def j_def)
  define cw where "cw = drop_bit 3 (bits0 ctx) AND 0x3F"
  have cw: "unat cw = j" unfolding cw_def c(1) j_def by (rule count_index)
  have j: "j < 64" "length ?r = j" by (simp_all add: j_def)
  have "unat (64 - 1 - cw) = 63 - j" using cw j by (simp add: unat_sub word_le_nat_alt)
  then have n: "unat (63 - cw) = 63 - j" by simp
  have small: "63 - cw < 8 \<longleftrightarrow> 55 < j" using n j by (simp add: word_less_nat_alt) linarith
  have l: "host_bytes32 (bits0 ctx) @ host_bytes32 (bits1 ctx) = ?l" "length ?l = 8"
    by (simp_all add: md5_len_bytes_def c)
  have w80: "wr (md5_in ctx) j 0x80 = Some (put (md5_in ctx) j [0x80])"
    using buf(1) j by (simp add: wr_put)
  let ?i = "put (md5_in ctx) j [0x80]"
  have i: "length ?i = 64" "take (j + 1) ?i = ?r @ [0x80]"
    using put_after [OF buf(2,1), of "[0x80]"] buf(1) j by simp_all
  have len_end: "\<exists>b1. wrn b 56 (host_bytes32 (bits0 ctx)) = Some b1 \<and>
      wrn b1 60 (host_bytes32 (bits1 ctx)) = Some (take 56 b @ ?l)" if "length b = 64" for b
    using that by (simp add: wrn_def flip: l(1))
  show ?thesis
  proof (cases "55 < j")
    case True
    let ?b = "?r @ [0x80] @ replicate (63 - j) 0"
    have lb: "length ?b = 64" using j by (simp del: length_left_over)
    have "take 64 (put ?i (j + 1) (replicate (63 - j) 0)) = ?b"
      using put_after [OF i(2,1), of "replicate (63 - j) 0"] j by simp
    then have w1: "wrn ?i (Suc j) (replicate (63 - j) 0) = Some ?b"
      using i(1) j by (simp add: wrn_put)
    have p: "pad_message m ?l = m @ (([0x80] @ replicate (63 - j) 0) @ (replicate 56 0 @ ?l))"
      using True j by (simp add: pad_message_def pad_zeros_eq j_def [symmetric] flip: replicate_add)
    have "fold_blocks md5_compress md5_iv (pad_message m ?l) =
        md5_compress (md5_compress ?h ?b) (replicate 56 0 @ ?l)"
      unfolding p fold_blocks_append [of _ _ m] append_assoc [symmetric, of ?r]
      using fold_blocks_block [OF lb, of md5_compress ?h "replicate 56 0 @ ?l"]
        fold_blocks_block [of "replicate 56 0 @ ?l" md5_compress _ "[]"] l(2)
      by simp
    moreover have "wrn ?b 0 (replicate 56 0) = Some (replicate 56 0 @ drop 56 ?b)"
      using lb by (simp add: wrn_def)
    ultimately show ?thesis
      using True j len_end [of "replicate 56 0 @ drop 56 ?b"] lb
      unfolding MD5Final_def Let_def cw_def [symmetric]
      by (auto simp: cw w80 small n w1 st md5_digest_def MD5Transform_compress)
  next
    case False
    have w1: "wrn ?i (Suc j) (replicate (55 - j) 0) = Some (put ?i (j + 1) (replicate (55 - j) 0))"
      using i(1) False by (simp add: wrn_put)
    let ?b = "put ?i (j + 1) (replicate (55 - j) 0)"
    have b: "length ?b = 64" "take 56 ?b = ?r @ [0x80] @ replicate (55 - j) 0"
      using i(1) False j put_after [OF i(2,1), of "replicate (55 - j) 0"] by simp_all
    have p: "pad_message m ?l = m @ ([0x80] @ replicate (55 - j) 0 @ ?l)"
      using False by (simp add: pad_message_def pad_zeros_eq j_def [symmetric])
    have "length (?r @ [0x80] @ replicate (55 - j) 0 @ ?l) = 64" using False l(2) j(2) by (simp del: length_left_over)
    then have "fold_blocks md5_compress md5_iv (pad_message m ?l) =
        md5_compress ?h (?r @ [0x80] @ replicate (55 - j) 0 @ ?l)"
      using fold_blocks_block [of "?r @ [0x80] @ replicate (55 - j) 0 @ ?l" md5_compress ?h "[]"]
      unfolding p fold_blocks_append [of _ _ m] by simp
    moreover have "unat (55 - cw) = 55 - j"
      using cw False j by (simp add: unat_sub word_le_nat_alt)
    ultimately show ?thesis
      using False len_end [OF b(1)] b(2)
      unfolding MD5Final_def Let_def cw_def [symmetric]
      by (auto simp: cw w80 small w1 st md5_digest_def MD5Transform_compress)
  qed
qed

lemma MD5Init_absorbed: "length g = 64 \<Longrightarrow> md5_absorbed (MD5Init g) []"
  by (simp add: md5_absorbed_def MD5Init_def holds_blocks_def md5_iv_def)

interpretation md5: streaming_digest "MD5Init (replicate 64 g)" MD5Update MD5Final md5_absorbed
  "\<lambda>n. n < 2 ^ 32" md5_digest for g
  by unfold_locales (auto simp: MD5Init_absorbed MD5Final_digest intro: MD5Update_absorbed)

end
