(* ===== verification/Stun_Crc32.thy ===== *)
theory Stun_Crc32
  imports Streaming
begin

unbundle bit_operations_syntax

text \<open>
  The table-driven CRC-32 of \<open>stun/stuncrc32.c\<close>. A data vector is the list of its buffers. The
  theory shows that the table is the one of the polynomial the comment names, that the table
  step is eight steps of the shift register, and that the split into buffers does not matter.
\<close>

section \<open>Definitions\<close>

definition crc32_tab :: "u32 list" where
  "crc32_tab = [
     0x00000000, 0x77073096, 0xee0e612c, 0x990951ba, 0x076dc419, 0x706af48f, 0xe963a535, 0x9e6495a3,
     0x0edb8832, 0x79dcb8a4, 0xe0d5e91e, 0x97d2d988, 0x09b64c2b, 0x7eb17cbd, 0xe7b82d07, 0x90bf1d91,
     0x1db71064, 0x6ab020f2, 0xf3b97148, 0x84be41de, 0x1adad47d, 0x6ddde4eb, 0xf4d4b551, 0x83d385c7,
     0x136c9856, 0x646ba8c0, 0xfd62f97a, 0x8a65c9ec, 0x14015c4f, 0x63066cd9, 0xfa0f3d63, 0x8d080df5,
     0x3b6e20c8, 0x4c69105e, 0xd56041e4, 0xa2677172, 0x3c03e4d1, 0x4b04d447, 0xd20d85fd, 0xa50ab56b,
     0x35b5a8fa, 0x42b2986c, 0xdbbbc9d6, 0xacbcf940, 0x32d86ce3, 0x45df5c75, 0xdcd60dcf, 0xabd13d59,
     0x26d930ac, 0x51de003a, 0xc8d75180, 0xbfd06116, 0x21b4f4b5, 0x56b3c423, 0xcfba9599, 0xb8bda50f,
     0x2802b89e, 0x5f058808, 0xc60cd9b2, 0xb10be924, 0x2f6f7c87, 0x58684c11, 0xc1611dab, 0xb6662d3d,
     0x76dc4190, 0x01db7106, 0x98d220bc, 0xefd5102a, 0x71b18589, 0x06b6b51f, 0x9fbfe4a5, 0xe8b8d433,
     0x7807c9a2, 0x0f00f934, 0x9609a88e, 0xe10e9818, 0x7f6a0dbb, 0x086d3d2d, 0x91646c97, 0xe6635c01,
     0x6b6b51f4, 0x1c6c6162, 0x856530d8, 0xf262004e, 0x6c0695ed, 0x1b01a57b, 0x8208f4c1, 0xf50fc457,
     0x65b0d9c6, 0x12b7e950, 0x8bbeb8ea, 0xfcb9887c, 0x62dd1ddf, 0x15da2d49, 0x8cd37cf3, 0xfbd44c65,
     0x4db26158, 0x3ab551ce, 0xa3bc0074, 0xd4bb30e2, 0x4adfa541, 0x3dd895d7, 0xa4d1c46d, 0xd3d6f4fb,
     0x4369e96a, 0x346ed9fc, 0xad678846, 0xda60b8d0, 0x44042d73, 0x33031de5, 0xaa0a4c5f, 0xdd0d7cc9,
     0x5005713c, 0x270241aa, 0xbe0b1010, 0xc90c2086, 0x5768b525, 0x206f85b3, 0xb966d409, 0xce61e49f,
     0x5edef90e, 0x29d9c998, 0xb0d09822, 0xc7d7a8b4, 0x59b33d17, 0x2eb40d81, 0xb7bd5c3b, 0xc0ba6cad,
     0xedb88320, 0x9abfb3b6, 0x03b6e20c, 0x74b1d29a, 0xead54739, 0x9dd277af, 0x04db2615, 0x73dc1683,
     0xe3630b12, 0x94643b84, 0x0d6d6a3e, 0x7a6a5aa8, 0xe40ecf0b, 0x9309ff9d, 0x0a00ae27, 0x7d079eb1,
     0xf00f9344, 0x8708a3d2, 0x1e01f268, 0x6906c2fe, 0xf762575d, 0x806567cb, 0x196c3671, 0x6e6b06e7,
     0xfed41b76, 0x89d32be0, 0x10da7a5a, 0x67dd4acc, 0xf9b9df6f, 0x8ebeeff9, 0x17b7be43, 0x60b08ed5,
     0xd6d6a3e8, 0xa1d1937e, 0x38d8c2c4, 0x4fdff252, 0xd1bb67f1, 0xa6bc5767, 0x3fb506dd, 0x48b2364b,
     0xd80d2bda, 0xaf0a1b4c, 0x36034af6, 0x41047a60, 0xdf60efc3, 0xa867df55, 0x316e8eef, 0x4669be79,
     0xcb61b38c, 0xbc66831a, 0x256fd2a0, 0x5268e236, 0xcc0c7795, 0xbb0b4703, 0x220216b9, 0x5505262f,
     0xc5ba3bbe, 0xb2bd0b28, 0x2bb45a92, 0x5cb36a04, 0xc2d7ffa7, 0xb5d0cf31, 0x2cd99e8b, 0x5bdeae1d,
     0x9b64c2b0, 0xec63f226, 0x756aa39c, 0x026d930a, 0x9c0906a9, 0xeb0e363f, 0x72076785, 0x05005713,
     0x95bf4a82, 0xe2b87a14, 0x7bb12bae, 0x0cb61b38, 0x92d28e9b, 0xe5d5be0d, 0x7cdcefb7, 0x0bdbdf21,
     0x86d3d2d4, 0xf1d4e242, 0x68ddb3f8, 0x1fda836e, 0x81be16cd, 0xf6b9265b, 0x6fb077e1, 0x18b74777,
     0x88085ae6, 0xff0f6a70, 0x66063bca, 0x11010b5c, 0x8f659eff, 0xf862ae69, 0x616bffd3, 0x166ccf45,
     0xa00ae278, 0xd70dd2ee, 0x4e048354, 0x3903b3c2, 0xa7672661, 0xd06016f7, 0x4969474d, 0x3e6e77db,
     0xaed16a4a, 0xd9d65adc, 0x40df0b66, 0x37d83bf0, 0xa9bcae53, 0xdebb9ec5, 0x47b2cf7f, 0x30b5ffe9,
     0xbdbdf21c, 0xcabac28a, 0x53b39330, 0x24b4a3a6, 0xbad03605, 0xcdd70693, 0x54de5729, 0x23d967bf,
     0xb3667a2e, 0xc4614ab8, 0x5d681b02, 0x2a6f2b94, 0xb40bbe37, 0xc30c8ea1, 0x5a05df1b, 0x2d02ef8d]"

definition crc32_step :: "bool \<Rightarrow> u32 \<Rightarrow> u8 \<Rightarrow> u32" where
  "crc32_step wlm2009_stupid_crc32_typo crc p =
    (let lkp = crc32_tab ! unat ((crc XOR ucast p) AND 0xff);
         lkp = (if lkp = 0x8bbeb8ea \<and> wlm2009_stupid_crc32_typo then 0x8bbe8ea else lkp)
     in lkp XOR drop_bit 8 crc)"

definition stun_crc32 :: "bytes list \<Rightarrow> bool \<Rightarrow> u32" where
  "stun_crc32 data wlm2009_stupid_crc32_typo =
     foldl (foldl (crc32_step wlm2009_stupid_crc32_typo)) 0xffffffff data XOR 0xffffffff"

section \<open>The shift register\<close>

text \<open>One step of the register for the reversed polynomial, and eight of them.\<close>

definition crc_bit :: "u32 \<Rightarrow> u32" where
  "crc_bit c = (if bit c 0 then drop_bit 1 c XOR 0xedb88320 else drop_bit 1 c)"

definition crc_byte :: "u32 \<Rightarrow> u32" where
  "crc_byte c = crc_bit (crc_bit (crc_bit (crc_bit (crc_bit (crc_bit (crc_bit (crc_bit c)))))))"

definition crc_ref :: "bytes \<Rightarrow> u32" where
  "crc_ref bs = foldl (\<lambda>c b. crc_byte (c XOR ucast b)) 0xffffffff bs XOR 0xffffffff"

lemma crc_bit_xor: "crc_bit (a XOR b) = crc_bit a XOR crc_bit b"
proof -
  have "drop_bit 1 (a XOR b) = drop_bit 1 a XOR drop_bit 1 b"
    by (rule bit_word_eqI) (simp add: bit_simps)
  then show ?thesis
    by (auto simp: crc_bit_def bit_xor_iff ac_simps)
qed

lemma crc_byte_xor: "crc_byte (a XOR b) = crc_byte a XOR crc_byte b"
  by (simp add: crc_byte_def crc_bit_xor)

text \<open>
  Because the register is linear, the table for \<open>k + 1\<close> bits is the table for \<open>k\<close> bits followed
  by its copy with the term of the new bit added in: the 256 entries follow from eight.
\<close>

definition tab_double :: "u32 \<Rightarrow> u32 list \<Rightarrow> u32 list" where
  "tab_double e xs = xs @ map (\<lambda>x. x XOR e) xs"

lemma crc32_tab_double:
  "crc32_tab = tab_double 0xedb88320 (tab_double 0x76dc4190 (tab_double 0x3b6e20c8
     (tab_double 0x1db71064 (tab_double 0x0edb8832 (tab_double 0x076dc419 (tab_double 0xee0e612c
       (tab_double 0x77073096 [0])))))))"
  by (simp add: crc32_tab_def tab_double_def)

lemma of_nat_add_power:
  assumes "k < 32" and "i < 2 ^ k"
  shows "(of_nat (i + 2 ^ k) :: u32) = of_nat i XOR 2 ^ k"
proof -
  have "i < 2 ^ 32"
    using assms by (meson less_trans one_less_numeral_iff power_strict_increasing semiring_norm(76))
  then have "unat (of_nat i :: u32) < 2 ^ k"
    using assms(2) by (simp add: unat_of_nat)
  then have b: "bit (of_nat i :: u32) n \<Longrightarrow> n < k" for n by (rule bit_unat_less_exp)
  have "of_nat i + 2 ^ k = (of_nat i OR 2 ^ k :: u32)"
    by (rule disjunctive_add) (use b in \<open>auto simp: bit_exp_iff\<close>)
  also have "\<dots> = of_nat i XOR 2 ^ k"
    by (rule bit_word_eqI) (use b in \<open>auto simp: bit_simps\<close>)
  finally show ?thesis by simp
qed

lemma tab_double_step:
  assumes "k < 32"
  shows "map (\<lambda>i. crc_byte (of_nat i)) [0..<2 ^ Suc k] =
    tab_double (crc_byte (2 ^ k)) (map (\<lambda>i. crc_byte (of_nat i)) [0..<2 ^ k])"
proof -
  have "[0..<2 ^ Suc k] = [0..<2 ^ k] @ map (\<lambda>i. i + 2 ^ k) [0..<2 ^ k]"
    by (simp add: map_add_upt upt_add_eq_append [of 0 "2 ^ k" "2 ^ k", symmetric] mult_2)
  then show ?thesis
    using of_nat_add_power [OF assms]
    by (simp add: tab_double_def crc_byte_xor)
qed

lemma crc_byte_powers:
  "crc_byte 0 = 0" "crc_byte 1 = 0x77073096" "crc_byte 2 = 0xee0e612c" "crc_byte 4 = 0x076dc419"
  "crc_byte 8 = 0x0edb8832" "crc_byte 16 = 0x1db71064" "crc_byte 32 = 0x3b6e20c8"
  "crc_byte 64 = 0x76dc4190" "crc_byte 128 = 0xedb88320"
  by (simp_all add: crc_byte_def crc_bit_def)

lemma crc32_tab_eq: "crc32_tab = map (\<lambda>i. crc_byte (of_nat i)) [0..<256]"
proof -
  have base: "map (\<lambda>i. crc_byte (of_nat i)) [0..<2] = tab_double 0x77073096 [0]"
    by (simp add: upt_rec crc_byte_powers tab_double_def)
  have "map (\<lambda>i. crc_byte (of_nat i)) [0..<2 ^ Suc (Suc (Suc (Suc (Suc (Suc (Suc (Suc 0)))))))] =
      crc32_tab"
    by (simp add: tab_double_step crc32_tab_double crc_byte_powers del: power_Suc)
      (simp add: base crc_byte_powers)
  then show ?thesis by simp
qed

lemma crc_byte_high: "crc_byte (push_bit 8 a) = a" if "take_bit 24 a = a"
proof -
  have "crc_bit (push_bit (Suc n) a) = push_bit n a" if "n < 8" for n
  proof -
    have "drop_bit 1 (push_bit (Suc n) a) = push_bit n a"
    proof (rule bit_word_eqI)
      fix k :: nat assume k: "k < LENGTH(32)"
      have "bit a (k - n) \<Longrightarrow> k - n < 24"
        using \<open>take_bit 24 a = a\<close> by (metis bit_take_bit_iff)
      with k that show "bit (drop_bit 1 (push_bit (Suc n) a)) k \<longleftrightarrow> bit (push_bit n a) k"
        by (auto simp: bit_simps simp del: push_bit_Suc)
    qed
    then show ?thesis by (simp add: crc_bit_def bit_push_bit_iff del: push_bit_Suc)
  qed
  from this [of 7] this [of 6] this [of 5] this [of 4] this [of 3] this [of 2] this [of 1]
    this [of 0]
  show ?thesis by (simp add: crc_byte_def numeral_eq_Suc del: push_bit_Suc)
qed

text \<open>One table step is eight register steps on the byte mixed into the register.\<close>

lemma crc32_step_eq: "crc32_step False c b = crc_byte (c XOR ucast b)"
proof -
  let ?x = "c XOR ucast b"
  have split: "?x = (?x AND 0xff) XOR push_bit 8 (drop_bit 8 ?x)"
    by (rule bit_word_eqI) (auto simp: bit_simps)
  have high: "drop_bit 8 ?x = drop_bit 8 c"
    by (rule bit_word_eqI) (auto simp: bit_simps dest: bit_imp_le_length)
  have "unat (?x AND 0xff) < 256"
    using take_bit_nat_less_exp [of 8 "unat ?x"]
    by (simp add: unsigned_and_eq take_bit_eq_mask mask_eq_exp_minus_1)
  then have low: "crc32_tab ! unat (?x AND 0xff) = crc_byte (?x AND 0xff)"
    by (simp add: crc32_tab_eq)
  have "take_bit 24 (drop_bit 8 ?x) = drop_bit 8 ?x"
    by (rule bit_word_eqI) (auto simp: bit_simps dest: bit_imp_le_length)
  then have "crc_byte ?x = crc_byte (?x AND 0xff) XOR drop_bit 8 ?x"
    by (subst split, subst crc_byte_xor) (simp only: crc_byte_high)
  also have "\<dots> = crc_byte (?x AND 0xff) XOR drop_bit 8 c" by (simp only: high)
  finally show ?thesis by (simp add: crc32_step_def low)
qed

text \<open>
  Without the Windows Live Messenger typo, the checksum of a vector of buffers is the CRC of
  their concatenation.
\<close>

lemma foldl_foldl_concat: "foldl (foldl f) a xss = foldl f a (concat xss)"
  by (induction xss arbitrary: a) simp_all

lemma crc32_vector: "stun_crc32 data False = crc_ref (concat data)"
  by (simp add: stun_crc32_def crc_ref_def foldl_foldl_concat crc32_step_eq [abs_def])

end
