(* ===== verification/Stun_Hmac.thy ===== *)
theory Stun_Hmac
  imports Stun_Roundtrip Hmac_Sha1 Md5 Stun_Crc32
begin

unbundle bit_operations_syntax

text \<open>
  The checks that protect a message, from \<open>stun/stunhmac.c\<close> and \<open>stun/stun5389.c\<close>: the
  MESSAGE-INTEGRITY code, the long-term credential key, the FINGERPRINT checksum and the
  SOFTWARE attribute. All three digests are computed over vectors that replace the length
  field of the header; the theory shows what bytes they really cover.
\<close>

section \<open>Definitions\<close>

definition stun_sha1 :: "bytes \<Rightarrow> bytes \<Rightarrow> nat \<Rightarrow> nat \<Rightarrow> bytes \<Rightarrow> bool \<Rightarrow> bytes option" where
  "stun_sha1 stack msg len msg_len key padding =
    (if len < 44 then None
     else do {
       v0 \<leftarrow> rdn msg 0 2;
       let v1 = host_bytes16 (htons (of_nat msg_len));
       v2 \<leftarrow> rdn msg 4 (len - 28);
       let v3 = (if padding \<and> (len - 24) mod 64 > 0
                 then [replicate (64 - (len - 24) mod 64) 0] else []);
       hmac_sha1_vector stack key ([v0, v1, v2] @ v3) })"

text \<open>
  The loops of \<open>priv_trim_var\<close>: \<open>ptr\<close> moves over leading quotes and the length shrinks over
  trailing quotes and NULs. The length is an integer because nothing stops it at zero, and a
  read outside the object is \<^term>\<open>None\<close>.
\<close>

definition rd_int :: "bytes \<Rightarrow> int \<Rightarrow> u8 option" where
  "rd_int m i = (if i < 0 then None else rd m (nat i))"

function trim_front :: "bytes \<Rightarrow> nat \<Rightarrow> int \<Rightarrow> (nat \<times> int) option" where
  "trim_front m ptr var_len = (case rd m ptr of None \<Rightarrow> None
     | Some c \<Rightarrow> if c = 0x22 then trim_front m (ptr + 1) (var_len - 1) else Some (ptr, var_len))"
  by pat_completeness auto
termination
  by (relation "measure (\<lambda>(m, p, l). length m - p)") (auto simp: rd_def split: if_splits)

function trim_back :: "bytes \<Rightarrow> nat \<Rightarrow> int \<Rightarrow> int option" where
  "trim_back m ptr var_len = (case rd_int m (int ptr + var_len - 1) of None \<Rightarrow> None
     | Some c \<Rightarrow> if c = 0x22 \<or> c = 0 then trim_back m ptr (var_len - 1) else Some var_len)"
  by pat_completeness auto
termination
  by (relation "measure (\<lambda>(m, p, l). nat (int p + l))")
    (auto simp: rd_int_def split: if_splits)

declare trim_front.simps [simp del] trim_back.simps [simp del]

text \<open>A pointer into an object and a length.\<close>

type_synonym span = "bytes \<times> nat \<times> nat"

fun span_bytes :: "span \<Rightarrow> bytes" where
  "span_bytes (m, off, len) = take len (drop off m)"

fun priv_trim_var :: "span \<Rightarrow> (nat \<times> int) option" where
  "priv_trim_var (m, var, var_len) = do {
     (ptr, l) \<leftarrow> trim_front m var (int var_len);
     l' \<leftarrow> trim_back m ptr l;
     Some (ptr, l') }"

text \<open>Passing the trimmed variable on reads that many bytes from the moved pointer.\<close>

definition trimmed_var :: "span \<Rightarrow> bytes option" where
  "trimmed_var v = do {
     (ptr, l) \<leftarrow> priv_trim_var v;
     if l < 0 then None else rdn (fst v) ptr (nat l) }"

definition stun_hash_creds :: "bytes \<Rightarrow> span \<Rightarrow> span \<Rightarrow> span \<Rightarrow> bytes option" where
  "stun_hash_creds stack realm username password = do {
     username_trimmed \<leftarrow> trimmed_var username;
     password_trimmed \<leftarrow> trimmed_var password;
     realm_trimmed \<leftarrow> trimmed_var realm;
     ctx \<leftarrow> MD5Update (MD5Init stack) username_trimmed;
     ctx \<leftarrow> MD5Update ctx [0x3a];
     ctx \<leftarrow> MD5Update ctx realm_trimmed;
     ctx \<leftarrow> MD5Update ctx [0x3a];
     ctx \<leftarrow> MD5Update ctx password_trimmed;
     MD5Final ctx }"

definition stun_fingerprint :: "bytes \<Rightarrow> nat \<Rightarrow> bool \<Rightarrow> u32 option" where
  "stun_fingerprint msg len wlm2009_stupid_crc32_typo =
    (if len < 12 then None
     else do {
       d0 \<leftarrow> rdn msg 0 2;
       let d1 = host_bytes16 (htons (of_nat len - 20));
       d2 \<leftarrow> rdn msg 4 (len - 12);
       Some (htonl (stun_crc32 [d0, d1, d2] wlm2009_stupid_crc32_typo XOR 0x5354554e)) })"

definition utf8_skip_data :: "u8 \<Rightarrow> nat" where
  "utf8_skip_data c = (if c < 0xc0 then 1 else if c < 0xe0 then 2 else if c < 0xf0 then 3
     else if c < 0xf8 then 4 else if c < 0xfc then 5 else if c < 0xfe then 6 else 1)"

text \<open>
  The loop that measures the SOFTWARE string: the object holds the string and its NUL, \<open>ptr\<close>
  advances one character at a time, at most 128 of them.
\<close>

function software_end :: "bytes \<Rightarrow> nat \<Rightarrow> nat \<Rightarrow> nat option" where
  "software_end software ptr len =
    (case rd software ptr of None \<Rightarrow> None
     | Some c \<Rightarrow> if c \<noteq> 0 \<and> len < 128 then software_end software (ptr + utf8_skip_data c) (len + 1)
                else Some ptr)"
  by pat_completeness auto
termination
  by (relation "measure (\<lambda>(s, p, l). 128 - l)") auto

declare software_end.simps [simp del]

definition stun_message_append_software ::
    "bytes \<Rightarrow> stun_message \<Rightarrow> bytes option \<Rightarrow> (stun_return \<times> stun_message) option" where
  "stun_message_append_software package_string msg software =
    (let software = (case software of None \<Rightarrow> package_string | Some s \<Rightarrow> s) in do {
       ptr \<leftarrow> software_end (software @ [0]) 0 0;
       s \<leftarrow> rdn (software @ [0]) 0 ptr;
       stun_message_append_bytes msg STUN_ATTRIBUTE_SOFTWARE s })"

section \<open>What the integrity code covers\<close>

definition integrity_text :: "bytes \<Rightarrow> nat \<Rightarrow> nat \<Rightarrow> bool \<Rightarrow> bytes" where
  "integrity_text msg len msg_len padding =
    (let t = take 2 msg @ be16_bytes (of_nat msg_len) @ take (len - 28) (drop 4 msg)
     in t @ (if padding then replicate ((64 - length t mod 64) mod 64) 0 else []))"

lemma stun_sha1_hmac:
  assumes "44 \<le> len" and "len \<le> length msg + 24" and "len < 2 ^ 16 * 2"
    and "length stack = 64" and "length key + 64 < 2 ^ 32"
  shows "stun_sha1 stack msg len msg_len key padding =
    Some (hmac_ref key (integrity_text msg len msg_len padding))"
proof -
  let ?v3 = "if padding \<and> (len - 24) mod 64 > 0 then [replicate (64 - (len - 24) mod 64) 0] else []"
  let ?v = "[take 2 msg, be16_bytes (of_nat msg_len), take (len - 28) (drop 4 msg)] @ ?v3"
  have r: "rdn msg 0 2 = Some (take 2 msg)" "rdn msg 4 (len - 28) = Some (take (len - 28) (drop 4 msg))"
    using assms(1,2) by (simp_all add: rdn_def)
  have len: "length (take 2 msg) = 2" "length (take (len - 28) (drop 4 msg)) = len - 28"
    using assms(1,2) by simp_all
  then have t: "length (take 2 msg @ be16_bytes (of_nat msg_len) @ take (len - 28) (drop 4 msg)) =
      len - 24"
    using assms(1) by simp
  have c: "concat ?v = integrity_text msg len msg_len padding"
    unfolding integrity_text_def Let_def t by auto
  have "length (concat ?v) + 64 < 2 ^ 32"
  proof -
    have "length (concat ?v3) \<le> 64" by simp
    moreover have "length (concat ?v) = len - 24 + length (concat ?v3)"
      using t by (simp only: concat_append length_append concat.simps append_Nil2) simp
    moreover have "a + 64 < 2 ^ 32" if "b \<le> 64" "a = len - 24 + b" for a b :: nat
      using that assms(3) by simp
    ultimately show ?thesis by blast
  qed
  then show ?thesis
    using hmac_sha1_vector_ref [OF assms(4,5), of ?v] assms(1)
    by (simp add: stun_sha1_def r htons_bytes c [symmetric])
qed

lemma length_stun_sha1:
  assumes "44 \<le> len" and "len \<le> length msg + 24" and "len < 2 ^ 16 * 2"
    and "length stack = 64" and "length key + 64 < 2 ^ 32"
  obtains sha where "stun_sha1 stack msg len msg_len key padding = Some sha" "length sha = 20"
  using stun_sha1_hmac [OF assms] by simp

section \<open>Trimming credentials\<close>

text \<open>The intended result: without leading quotes, and without trailing quotes and NULs.\<close>

definition trim_ref :: "bytes \<Rightarrow> bytes" where
  "trim_ref v = rev (dropWhile (\<lambda>c. c = 0x22 \<or> c = 0) (rev (dropWhile (\<lambda>c. c = 0x22) v)))"

definition has_text :: "bytes \<Rightarrow> bool" where
  "has_text v \<longleftrightarrow> (\<exists>c \<in> set v. c \<noteq> 0x22 \<and> c \<noteq> 0)"

lemma trim_front_eq:
  assumes "\<exists>c \<in> set (take n (drop ptr m)). c \<noteq> 0x22" and "ptr + n \<le> length m"
  shows "\<exists>k<n. trim_front m ptr l = Some (ptr + k, l - int k) \<and>
    dropWhile (\<lambda>c. c = 0x22) (take n (drop ptr m)) = take (n - k) (drop (ptr + k) m)"
  using assms
proof (induction n arbitrary: ptr l)
  case (Suc n)
  have d: "take (Suc n) (drop ptr m) = m ! ptr # take n (drop (Suc ptr) m)"
    using Suc.prems(2) by (simp add: Cons_nth_drop_Suc [symmetric])
  have r: "rd m ptr = Some (m ! ptr)" using Suc.prems(2) by (simp add: rd_def)
  show ?case
  proof (cases "m ! ptr = 0x22")
    case True
    with Suc.prems d Suc.IH [of "Suc ptr" "l - 1"] obtain k where "k < n"
      "trim_front m (Suc ptr) (l - 1) = Some (Suc ptr + k, l - 1 - int k)"
      "dropWhile (\<lambda>c. c = 0x22) (take n (drop (Suc ptr) m)) = take (n - k) (drop (Suc ptr + k) m)"
      by auto
    then show ?thesis
      using True r d by (intro exI [of _ "Suc k"]) (simp add: trim_front.simps [of m ptr])
  next
    case False
    then show ?thesis
      using r d by (intro exI [of _ 0]) (simp add: trim_front.simps [of m ptr])
  qed
qed simp

lemma trim_back_eq:
  assumes "ptr + n \<le> length m" and "has_text (take n (drop ptr m))"
  shows "\<exists>k. trim_back m ptr (int n) = Some (int k) \<and> k \<le> n \<and>
    rev (dropWhile (\<lambda>c. c = 0x22 \<or> c = 0) (rev (take n (drop ptr m)))) = take k (drop ptr m)"
  using assms
proof (induction n)
  case (Suc n)
  let ?c = "m ! (ptr + n)"
  have t: "take (Suc n) (drop ptr m) = take n (drop ptr m) @ [?c]"
    using Suc.prems(1) by (simp add: take_Suc_conv_app_nth)
  have r: "rd_int m (int ptr + int (Suc n) - 1) = Some ?c"
    using Suc.prems(1) by (simp add: rd_int_def rd_def nat_add_distrib)
  show ?case
  proof (cases "?c = 0x22 \<or> ?c = 0")
    case True
    with Suc.prems(2) t have "has_text (take n (drop ptr m))" by (auto simp: has_text_def)
    with Suc.IH Suc.prems(1) obtain k where "trim_back m ptr (int n) = Some (int k)" "k \<le> n"
      "rev (dropWhile (\<lambda>c. c = 0x22 \<or> c = 0) (rev (take n (drop ptr m)))) = take k (drop ptr m)"
      by auto
    moreover have "trim_back m ptr (int (Suc n)) = trim_back m ptr (int n)"
      using r True by (subst trim_back.simps) simp
    ultimately show ?thesis using True unfolding t by (intro exI [of _ k]) simp
  next
    case False
    then have "trim_back m ptr (int (Suc n)) = Some (int (Suc n))"
      using r by (subst trim_back.simps) simp
    moreover have "rev (dropWhile (\<lambda>c. c = 0x22 \<or> c = 0) (rev (take (Suc n) (drop ptr m)))) =
        take (Suc n) (drop ptr m)"
      using False unfolding t by simp
    ultimately show ?thesis by (intro exI [of _ "Suc n"]) simp
  qed
qed (simp add: has_text_def)

text \<open>
  A value with at least one proper character is trimmed as intended; without one the loops of
  the code run out of the object.
\<close>

lemma trimmed_var_ref:
  assumes "has_text (span_bytes (m, off, n))" and "off + n \<le> length m"
  shows "trimmed_var (m, off, n) = Some (trim_ref (span_bytes (m, off, n)))"
proof -
  let ?v = "take n (drop off m)"
  let ?d = "dropWhile (\<lambda>c. c = 0x22) ?v"
  have "has_text w \<Longrightarrow> has_text (dropWhile (\<lambda>c. c = 0x22) w)" for w
    unfolding has_text_def by (induction w) auto
  with assms(1) have ne: "has_text ?d" by simp
  have "\<exists>c \<in> set ?v. c \<noteq> 0x22" using assms(1) by (auto simp: has_text_def)
  from trim_front_eq [OF this assms(2), of "int n"] obtain k
    where k: "k < n" "trim_front m off (int n) = Some (off + k, int n - int k)"
      "?d = take (n - k) (drop (off + k) m)" by blast
  have i: "int n - int k = int (n - k)" using k(1) by simp
  have "off + k + (n - k) \<le> length m" using k(1) assms(2) by simp
  from trim_back_eq [OF this] ne obtain j
    where "trim_back m (off + k) (int (n - k)) = Some (int j)" "j \<le> n - k"
      "rev (dropWhile (\<lambda>c. c = 0x22 \<or> c = 0) (rev ?d)) = take j (drop (off + k) m)"
    unfolding k(3) by blast
  with k(1) k(2) [unfolded i] assms(2) show ?thesis
    by (simp add: trimmed_var_def trim_ref_def rdn_def del: of_nat_diff)
qed

lemma trim_front_only_quotes:
  "set (drop ptr m) \<subseteq> {0x22} \<Longrightarrow> trim_front m ptr l = None"
proof (induction m ptr l rule: trim_front.induct)
  case (1 m ptr l)
  show ?case
  proof (cases "ptr < length m")
    case True
    then have "drop ptr m = m ! ptr # drop (Suc ptr) m" by (simp add: Cons_nth_drop_Suc)
    with "1.prems" have "m ! ptr = 0x22" "set (drop (ptr + 1) m) \<subseteq> {0x22}" by auto
    moreover have r: "rd m ptr = Some (m ! ptr)" using True by (simp add: rd_def)
    ultimately show ?thesis using "1.IH" [OF r] by (simp add: trim_front.simps [of m ptr])
  qed (simp add: trim_front.simps rd_def)
qed

lemma trimmed_var_only_quotes: "set v \<subseteq> {0x22} \<Longrightarrow> trimmed_var (v, 0, length v) = None"
  using trim_front_only_quotes [of 0 v] by (simp add: trimmed_var_def)

section \<open>The long-term key\<close>

lemma stun_hash_creds_md5:
  assumes spans: "realm = (mr, ro, rn)" "ro + rn \<le> length mr"
      "username = (mu, uo, un)" "uo + un \<le> length mu"
      "password = (mp, po, pn)" "po + pn \<le> length mp"
    and proper: "has_text (span_bytes realm)" "has_text (span_bytes username)"
      "has_text (span_bytes password)"
    and small: "rn < 2 ^ 32" "un < 2 ^ 32" "pn < 2 ^ 32" and "length stack = 64"
  shows "stun_hash_creds stack realm username password =
    Some (md5_digest (trim_ref (span_bytes username) @ [0x3a] @ trim_ref (span_bytes realm) @ [0x3a] @
      trim_ref (span_bytes password)))"
proof -
  let ?u = "trim_ref (span_bytes username)" and ?r = "trim_ref (span_bytes realm)"
    and ?p = "trim_ref (span_bytes password)"
  have tr: "trimmed_var username = Some ?u" "trimmed_var realm = Some ?r" "trimmed_var password = Some ?p"
    using spans proper by (simp_all only: trimmed_var_ref)
  have "length (trim_ref v) \<le> length v" for v
    unfolding trim_ref_def length_rev
    by (rule le_trans [OF length_dropWhile_le]) (simp add: length_dropWhile_le)
  then have "length (trim_ref (span_bytes (m, off, n))) \<le> n" for m off n
    by (rule le_trans) simp
  with small spans have l: "length ?u < 2 ^ 32" "length ?r < 2 ^ 32" "length ?p < 2 ^ 32"
    by (metis le_less_trans)+
  obtain c1 where c1: "MD5Update (MD5Init stack) ?u = Some c1" "md5_absorbed c1 ?u"
    using MD5Update_absorbed [OF MD5Init_absorbed [OF assms(13)] l(1)] by auto
  obtain c2 where c2: "MD5Update c1 [0x3a] = Some c2" "md5_absorbed c2 (?u @ [0x3a])"
    using MD5Update_absorbed [OF c1(2), of "[0x3a]"] by auto
  obtain c3 where c3: "MD5Update c2 ?r = Some c3" "md5_absorbed c3 ((?u @ [0x3a]) @ ?r)"
    using MD5Update_absorbed [OF c2(2) l(2)] by auto
  obtain c4 where c4: "MD5Update c3 [0x3a] = Some c4" "md5_absorbed c4 (((?u @ [0x3a]) @ ?r) @ [0x3a])"
    using MD5Update_absorbed [OF c3(2), of "[0x3a]"] by auto
  obtain c5 where c5: "MD5Update c4 ?p = Some c5"
    "md5_absorbed c5 ((((?u @ [0x3a]) @ ?r) @ [0x3a]) @ ?p)"
    using MD5Update_absorbed [OF c4(2) l(3)] by auto
  show ?thesis
    using c1(1) c2(1) c3(1) c4(1) c5(1) MD5Final_digest [OF c5(2)]
    by (simp add: stun_hash_creds_def tr)
qed

section \<open>The fingerprint\<close>

text \<open>
  The checksum covers the message up to its last eight bytes, the FINGERPRINT attribute, with
  the length field that the complete message has.
\<close>

lemma stun_fingerprint_crc:
  assumes "12 \<le> len" and "len \<le> length msg + 8"
  shows "stun_fingerprint msg len False =
    Some (htonl (crc_ref (take 2 msg @ be16_bytes (of_nat len - 20) @ take (len - 12) (drop 4 msg))
      XOR 0x5354554e))"
  using assms by (simp add: stun_fingerprint_def rdn_def crc32_vector htons_bytes)

end
