(* ===== verification/Stun_Agent.thy ===== *)
theory Stun_Agent
  imports Stun_Hmac
begin

unbundle bit_operations_syntax

text \<open>
  The agent of \<open>stun/stunagent.c\<close>: it builds requests, responses and errors, protects them with
  MESSAGE-INTEGRITY and FINGERPRINT, remembers the requests it has sent, and validates what it
  receives against that table. The agent is a record with the table of 200 saved transactions;
  every operation returns the new agent and the new message.

  What lies outside the library is an argument: the contents of the stack, the
  \<open>PACKAGE_STRING\<close> of the build, the random transaction id, and the application's validater,
  a function from the current key and the username to the key it stores, or \<^term>\<open>None\<close> when it
  refuses.
\<close>

section \<open>Definitions\<close>

record stun_env =
  env_stack :: bytes
  env_package :: bytes

type_synonym validater = "bytes option \<Rightarrow> bytes option \<Rightarrow> bytes option option"

definition conf_of :: "stun_agent \<Rightarrow> agent_conf" where
  "conf_of a = \<lparr>compatibility = compatibility a, usage_flags = usage_flags a,
     known_attributes = known_attributes a, software_attribute = software_attribute a\<rparr>"

definition uses_cookie :: "stun_agent \<Rightarrow> bool" where
  "uses_cookie a \<longleftrightarrow> compatibility a = STUN_COMPATIBILITY_RFC5389 \<or>
     compatibility a = STUN_COMPATIBILITY_WLM2009"

definition stun_agent_init ::
    "stun_agent \<Rightarrow> u16 list \<Rightarrow> stun_compat \<Rightarrow> u32 \<Rightarrow> stun_agent" where
  "stun_agent_init agent known level flags =
     agent\<lparr>known_attributes := known, compatibility := level, usage_flags := flags,
       software_attribute := None,
       sent_ids := map (\<lambda>s. s\<lparr>saved_valid := False\<rparr>) (sent_ids agent)\<rparr>"

definition stun_agent_set_software :: "stun_agent \<Rightarrow> bytes option \<Rightarrow> stun_agent" where
  "stun_agent_set_software agent software = agent\<lparr>software_attribute := software\<rparr>"

record default_validater_data =
  val_username :: bytes
  val_password :: bytes

text \<open>The table ends at its first null user name; the list holds the entries before it.\<close>

fun stun_agent_default_validater :: "default_validater_data list \<Rightarrow> validater" where
  "stun_agent_default_validater [] key username = None"
| "stun_agent_default_validater (v # vs) key username =
    (if (case username of None \<Rightarrow> [] | Some u \<Rightarrow> u) = val_username v then Some (Some (val_password v))
     else stun_agent_default_validater vs key username)"

fun stun_agent_is_unknown :: "u16 list \<Rightarrow> u16 \<Rightarrow> bool option" where
  "stun_agent_is_unknown [] type = None"
| "stun_agent_is_unknown (k # ks) type =
    (if k = 0 then Some True else if k = type then Some False else stun_agent_is_unknown ks type)"

function find_unknowns_from ::
    "u16 list \<Rightarrow> bool \<Rightarrow> bytes \<Rightarrow> nat \<Rightarrow> nat \<Rightarrow> nat \<Rightarrow> u16 list option" where
  "find_unknowns_from known unaligned m len limit offset =
    (if offset < len \<and> 0 < limit then do {
       alen \<leftarrow> stun_getw m (offset + STUN_ATTRIBUTE_TYPE_LEN);
       atype \<leftarrow> stun_getw m offset;
       unknown \<leftarrow> (if \<not> stun_optional atype then stun_agent_is_unknown known atype else Some False);
       let next = offset + STUN_ATTRIBUTE_VALUE_POS +
         (if unaligned then unat alen else stun_align (unat alen));
       if unknown then do {
         rest \<leftarrow> find_unknowns_from known unaligned m len (limit - 1) next;
         Some (htons atype # rest) }
       else find_unknowns_from known unaligned m len limit next }
     else Some [])"
  by pat_completeness auto
termination
  by (relation "measure (\<lambda>(k, u, m, len, limit, off). len - off)") auto

declare find_unknowns_from.simps [simp del]

definition stun_agent_find_unknowns :: "stun_agent \<Rightarrow> stun_message \<Rightarrow> nat \<Rightarrow> u16 list option" where
  "stun_agent_find_unknowns agent msg limit = do {
     len \<leftarrow> stun_message_length msg;
     find_unknowns_from (known_attributes agent)
       (has_flag agent STUN_AGENT_USAGE_NO_ALIGNED_ATTRIBUTES) (buffer msg) (unat len) limit
       STUN_MESSAGE_ATTRIBUTES_POS }"

subsection \<open>Validation\<close>

text \<open>The scan of the saved transactions for the one a response belongs to.\<close>

definition saved_matches :: "stun_method \<Rightarrow> bytes \<Rightarrow> saved_id \<Rightarrow> bool" where
  "saved_matches m i s \<longleftrightarrow> saved_valid s \<and> saved_method s = m \<and> i = saved_id s"

fun find_index :: "('a \<Rightarrow> bool) \<Rightarrow> 'a list \<Rightarrow> nat option" where
  "find_index P [] = None"
| "find_index P (x # xs) = (if P x then Some 0 else map_option Suc (find_index P xs))"

definition fingerprint_ok :: "stun_agent \<Rightarrow> stun_message \<Rightarrow> bool option" where
  "fingerprint_ok agent msg = do {
     (ret, fpr) \<leftarrow> stun_message_find32 msg STUN_ATTRIBUTE_FINGERPRINT;
     case fpr of None \<Rightarrow> Some False
     | Some fpr \<Rightarrow>
         if ret \<noteq> STUN_MESSAGE_RETURN_SUCCESS then Some False
         else do {
           len \<leftarrow> stun_message_length msg;
           crc32 \<leftarrow> stun_fingerprint (buffer msg) (unat len)
             (compatibility agent = STUN_COMPATIBILITY_WLM2009);
           Some (htonl fpr = crc32) } }"

definition has_error_code :: "stun_message \<Rightarrow> nat list \<Rightarrow> bool option" where
  "has_error_code msg codes = do {
     c \<leftarrow> stun_message_get_class msg;
     if c \<noteq> STUN_ERROR then Some False
     else do {
       (ret, code) \<leftarrow> stun_message_find_error msg;
       Some (ret = STUN_MESSAGE_RETURN_SUCCESS \<and> (case code of None \<Rightarrow> False | Some e \<Rightarrow> e \<in> set codes)) } }"

definition ignore_credentials :: "stun_agent \<Rightarrow> stun_message \<Rightarrow> bool option" where
  "ignore_credentials agent msg = do {
     err \<leftarrow> has_error_code msg [400, 401, 438];
     c \<leftarrow> stun_message_get_class msg;
     Some (has_flag agent STUN_AGENT_USAGE_IGNORE_CREDENTIALS \<or> err \<or>
       (c = STUN_INDICATION \<and>
        (has_flag agent STUN_AGENT_USAGE_LONG_TERM_CREDENTIALS \<or>
         has_flag agent STUN_AGENT_USAGE_NO_INDICATION_AUTH))) }"

definition lacks_credentials :: "stun_agent \<Rightarrow> stun_message \<Rightarrow> bool option" where
  "lacks_credentials agent msg = do {
     c \<leftarrow> stun_message_get_class msg;
     username \<leftarrow> stun_message_has_attribute msg STUN_ATTRIBUTE_USERNAME;
     integrity \<leftarrow> stun_message_has_attribute msg STUN_ATTRIBUTE_MESSAGE_INTEGRITY;
     nonce \<leftarrow> stun_message_has_attribute msg STUN_ATTRIBUTE_NONCE;
     realm \<leftarrow> stun_message_has_attribute msg STUN_ATTRIBUTE_REALM;
     Some ((c = STUN_REQUEST \<or> c = STUN_INDICATION) \<and>
       (has_flag agent STUN_AGENT_USAGE_SHORT_TERM_CREDENTIALS \<and> (\<not> username \<or> \<not> integrity) \<or>
        has_flag agent STUN_AGENT_USAGE_LONG_TERM_CREDENTIALS \<and> c = STUN_REQUEST \<and>
          (\<not> username \<or> \<not> integrity \<or> \<not> nonce \<or> \<not> realm) \<or>
        \<not> has_flag agent STUN_AGENT_USAGE_IGNORE_CREDENTIALS \<and> username \<and> \<not> integrity)) }"

text \<open>The integrity code the agent expects in a received message, keyed with \<open>k\<close>.\<close>

definition expected_sha :: "stun_env \<Rightarrow> stun_agent \<Rightarrow> stun_message \<Rightarrow> nat \<Rightarrow> bytes \<Rightarrow> bytes option" where
  "expected_sha env agent msg hash k = do {
     len \<leftarrow> stun_message_length msg;
     stun_sha1 (env_stack env) (buffer msg) (hash + 20)
       (if compatibility agent = STUN_COMPATIBILITY_WLM2009 then unat len - 20 else hash) k
       (compatibility agent \<noteq> STUN_COMPATIBILITY_RFC5389) }"

text \<open>
  The key of the integrity code: the key itself, or its MD5 form under long-term credentials;
  \<open>Some None\<close> when user name or realm are missing.
\<close>

definition integrity_key ::
    "stun_env \<Rightarrow> stun_agent \<Rightarrow> stun_message \<Rightarrow> bytes \<Rightarrow> bytes \<Rightarrow> bool \<Rightarrow> bytes option option" where
  "integrity_key env agent msg key ltk ltk_valid =
    (if ltk_valid then Some (Some ltk)
     else do {
       realm \<leftarrow> stun_message_find msg STUN_ATTRIBUTE_REALM;
       username \<leftarrow> stun_message_find msg STUN_ATTRIBUTE_USERNAME;
       case (username, realm) of
         (Some (u, ul), Some (r, rl)) \<Rightarrow> do {
           md5 \<leftarrow> stun_hash_creds (env_stack env) (buffer msg, r, unat rl) (buffer msg, u, unat ul)
             (key, 0, length key);
           Some (Some md5) }
       | _ \<Rightarrow> Some None })"

definition verify_sha ::
    "stun_env \<Rightarrow> stun_agent \<Rightarrow> stun_message \<Rightarrow> nat \<Rightarrow> bytes \<Rightarrow> bytes \<Rightarrow>
      (stun_validation option \<times> stun_message) option" where
  "verify_sha env agent msg hash k key = do {
     sha \<leftarrow> expected_sha env agent msg hash k;
     received \<leftarrow> rdn (buffer msg) hash 20;
     Some (if sha \<noteq> received then (Some STUN_VALIDATION_UNAUTHORIZED, msg)
       else (None, msg\<lparr>msg_key := Some key\<rparr>)) }"

text \<open>The whole check: the status to return, if the check ends the validation, and the message.\<close>

definition check_integrity ::
    "stun_env \<Rightarrow> stun_agent \<Rightarrow> stun_message \<Rightarrow> bytes \<Rightarrow> bytes \<Rightarrow> bool \<Rightarrow>
      (stun_validation option \<times> stun_message) option" where
  "check_integrity env agent msg key ltk ltk_valid = do {
     hash \<leftarrow> stun_message_find msg STUN_ATTRIBUTE_MESSAGE_INTEGRITY;
     case hash of
       Some (hash, hlen) \<Rightarrow>
         if has_flag agent STUN_AGENT_USAGE_LONG_TERM_CREDENTIALS then do {
           md5 \<leftarrow> integrity_key env agent msg key ltk ltk_valid;
           case md5 of
             None \<Rightarrow> Some (Some STUN_VALIDATION_UNAUTHORIZED, msg)
           | Some md5 \<Rightarrow>
               verify_sha env agent (msg\<lparr>long_term_key := md5, long_term_valid := True\<rparr>) hash md5 key }
         else verify_sha env agent msg hash key key
     | None \<Rightarrow> do {
         excused \<leftarrow> has_error_code msg [400, 401];
         Some (if excused then (None, msg) else (Some STUN_VALIDATION_UNAUTHORIZED, msg)) } }"

text \<open>
  The second half of the validation, for a message whose class is known and, if it is a
  response, whose saved transaction has been found: credentials, integrity, unknown attributes.
\<close>

definition ask_validater ::
    "stun_agent \<Rightarrow> stun_message \<Rightarrow> validater option \<Rightarrow> bool \<Rightarrow> bytes option \<Rightarrow>
      bytes option option option" where
  "ask_validater agent msg validater ignore key = do {
     integrity \<leftarrow> stun_message_has_attribute msg STUN_ATTRIBUTE_MESSAGE_INTEGRITY;
     if integrity \<and> ((key = None \<and> \<not> ignore) \<or> has_flag agent STUN_AGENT_USAGE_FORCE_VALIDATER)
     then do {
       username \<leftarrow> attr_value msg STUN_ATTRIBUTE_USERNAME;
       Some (case validater of None \<Rightarrow> None | Some v \<Rightarrow> v key username) }
     else Some (Some key) }"

definition release_saved :: "stun_agent \<Rightarrow> nat option \<Rightarrow> stun_agent" where
  "release_saved agent idx = (case idx of None \<Rightarrow> agent
     | Some i \<Rightarrow> agent\<lparr>sent_ids := (sent_ids agent)[i := (sent_ids agent ! i)\<lparr>saved_valid := False\<rparr>]\<rparr>)"

definition check_key ::
    "stun_env \<Rightarrow> stun_agent \<Rightarrow> stun_message \<Rightarrow> bool \<Rightarrow> bytes option \<Rightarrow> bytes \<Rightarrow> bool \<Rightarrow>
      (stun_validation option \<times> stun_message) option" where
  "check_key env agent msg ignore key ltk ltk_valid =
    (case key of
       None \<Rightarrow> Some (None, msg)
     | Some k \<Rightarrow> if \<not> ignore \<and> k \<noteq> [] then check_integrity env agent msg k ltk ltk_valid
                 else Some (None, msg))"

definition validate_with_key ::
    "stun_env \<Rightarrow> stun_agent \<Rightarrow> stun_message \<Rightarrow> validater option \<Rightarrow> stun_class \<Rightarrow> nat option \<Rightarrow>
      bytes option \<Rightarrow> bytes \<Rightarrow> bool \<Rightarrow> (stun_validation \<times> stun_message \<times> stun_agent) option" where
  "validate_with_key env agent msg validater class idx key ltk ltk_valid = do {
     ignore \<leftarrow> ignore_credentials agent msg;
     lacks \<leftarrow> lacks_credentials agent msg;
     if key = None \<and> \<not> ignore \<and> lacks then
       Some (STUN_VALIDATION_UNAUTHORIZED_BAD_REQUEST, msg, agent)
     else do {
       answer \<leftarrow> ask_validater agent msg validater ignore key;
       case answer of
         None \<Rightarrow> Some (STUN_VALIDATION_UNAUTHORIZED, msg, agent)
       | Some key \<Rightarrow> do {
           (verdict, msg1) \<leftarrow> check_key env agent msg ignore key ltk ltk_valid;
           case verdict of
             Some status \<Rightarrow> Some (status, msg1, agent)
           | None \<Rightarrow> do {
               let agent1 = release_saved agent idx;
               unknown \<leftarrow> stun_agent_find_unknowns agent1 msg1 1;
               Some (if unknown \<noteq> [] then
                   if class = STUN_REQUEST then STUN_VALIDATION_UNKNOWN_REQUEST_ATTRIBUTE
                   else STUN_VALIDATION_UNKNOWN_ATTRIBUTE
                 else STUN_VALIDATION_SUCCESS, msg1, agent1) } } } }"

text \<open>The key is the one saved with the request, if there is one.\<close>

definition validate_credentials ::
    "stun_env \<Rightarrow> stun_agent \<Rightarrow> stun_message \<Rightarrow> validater option \<Rightarrow> stun_class \<Rightarrow> nat option \<Rightarrow>
      (stun_validation \<times> stun_message \<times> stun_agent) option" where
  "validate_credentials env agent msg validater class idx =
    (case idx of
       None \<Rightarrow> validate_with_key env agent msg validater class idx None (replicate 16 0) False
     | Some i \<Rightarrow>
         let s = sent_ids agent ! i in
         validate_with_key env agent msg validater class idx (saved_key s) (saved_long_term_key s)
           (saved_long_term_valid s))"

definition received_message :: "stun_agent \<Rightarrow> stun_message \<Rightarrow> bytes \<Rightarrow> nat \<Rightarrow> stun_message" where
  "received_message agent msg0 buf buf_len =
     msg0\<lparr>buffer := buf, buffer_len := buf_len, msg_agent := Some (conf_of agent),
       msg_key := None, long_term_valid := False\<rparr>"

definition stun_agent_validate ::
    "stun_env \<Rightarrow> stun_agent \<Rightarrow> stun_message \<Rightarrow> bytes \<Rightarrow> nat \<Rightarrow> validater option \<Rightarrow>
      (stun_validation \<times> stun_message \<times> stun_agent) option" where
  "stun_agent_validate env agent msg0 buf buf_len validater = do {
     len \<leftarrow> stun_message_validate_buffer_length buf buf_len
       (\<not> has_flag agent STUN_AGENT_USAGE_NO_ALIGNED_ATTRIBUTES);
     if len = STUN_MESSAGE_BUFFER_INVALID then Some (STUN_VALIDATION_NOT_STUN, msg0, agent)
     else if len = STUN_MESSAGE_BUFFER_INCOMPLETE then
       Some (STUN_VALIDATION_INCOMPLETE_STUN, msg0, agent)
     else if len \<noteq> signed_take_bit 31 (int buf_len) then Some (STUN_VALIDATION_NOT_STUN, msg0, agent)
     else do {
       let msg = received_message agent msg0 buf buf_len;
       cookie \<leftarrow> stun_message_has_cookie msg;
       if uses_cookie agent \<and> \<not> cookie then Some (STUN_VALIDATION_BAD_REQUEST, msg, agent)
       else do {
         fpr_ok \<leftarrow> (if uses_cookie agent \<and> has_flag agent STUN_AGENT_USAGE_USE_FINGERPRINT
                    then fingerprint_ok agent msg else Some True);
         if \<not> fpr_ok then Some (STUN_VALIDATION_BAD_REQUEST, msg, agent)
         else do {
           class \<leftarrow> stun_message_get_class msg;
           if class = STUN_RESPONSE \<or> class = STUN_ERROR then do {
             method \<leftarrow> stun_message_get_method msg;
             msg_id \<leftarrow> stun_message_id msg;
             case find_index (saved_matches method msg_id) (sent_ids agent) of
               None \<Rightarrow> Some (STUN_VALIDATION_UNMATCHED_RESPONSE, msg, agent)
             | Some i \<Rightarrow> validate_credentials env agent msg validater class (Some i) }
           else validate_credentials env agent msg validater class None } } } }"

definition stun_agent_forget_transaction :: "stun_agent \<Rightarrow> bytes \<Rightarrow> bool \<times> stun_agent" where
  "stun_agent_forget_transaction agent i =
    (case find_index (\<lambda>s. saved_valid s \<and> i = saved_id s) (sent_ids agent) of
       None \<Rightarrow> (False, agent)
     | Some k \<Rightarrow> (True, agent\<lparr>sent_ids := (sent_ids agent)[k :=
         (sent_ids agent ! k)\<lparr>saved_valid := False\<rparr>]\<rparr>))"

subsection \<open>Building messages\<close>

definition fresh_message ::
    "stun_agent \<Rightarrow> stun_message \<Rightarrow> bytes \<Rightarrow> nat \<Rightarrow> stun_message" where
  "fresh_message agent msg0 buf buf_len =
     msg0\<lparr>buffer := buf, buffer_len := buf_len, msg_agent := Some (conf_of agent),
       msg_key := None, long_term_valid := False\<rparr>"

definition write_cookie :: "stun_agent \<Rightarrow> stun_message \<Rightarrow> stun_message option" where
  "write_cookie agent msg =
    (if uses_cookie agent then do {
       b \<leftarrow> wrn (buffer msg) STUN_MESSAGE_TRANS_ID_POS (host_bytes32 (htonl STUN_MAGIC_COOKIE));
       Some (msg\<lparr>buffer := b\<rparr>) }
     else Some msg)"

definition add_software :: "stun_env \<Rightarrow> stun_agent \<Rightarrow> stun_message \<Rightarrow> stun_message option" where
  "add_software env agent msg =
    (if uses_cookie agent \<and> (software_attribute agent \<noteq> None \<or>
        has_flag agent STUN_AGENT_USAGE_ADD_SOFTWARE) then do {
       (_, msg1) \<leftarrow> stun_message_append_software (env_package env) msg (software_attribute agent);
       Some msg1 }
     else Some msg)"

text \<open>The transaction id \<open>rid\<close> comes from \<open>stun_make_transid\<close>.\<close>

definition stun_agent_init_request ::
    "stun_env \<Rightarrow> bytes \<Rightarrow> stun_agent \<Rightarrow> stun_message \<Rightarrow> bytes \<Rightarrow> nat \<Rightarrow> stun_method \<Rightarrow>
      (bool \<times> stun_message) option" where
  "stun_agent_init_request env rid agent msg0 buf buf_len m = do {
     (ret, msg) \<leftarrow> stun_message_init (fresh_message agent msg0 buf buf_len) STUN_REQUEST m rid;
     if ret then do {
       msg1 \<leftarrow> write_cookie agent msg;
       msg2 \<leftarrow> add_software env agent msg1;
       Some (True, msg2) }
     else Some (False, msg) }"

definition stun_agent_init_indication ::
    "bytes \<Rightarrow> stun_agent \<Rightarrow> stun_message \<Rightarrow> bytes \<Rightarrow> nat \<Rightarrow> stun_method \<Rightarrow>
      (bool \<times> stun_message) option" where
  "stun_agent_init_indication rid agent msg0 buf buf_len m = do {
     (ret, msg) \<leftarrow> stun_message_init (fresh_message agent msg0 buf buf_len) STUN_INDICATION m rid;
     if ret then do { msg1 \<leftarrow> write_cookie agent msg; Some (True, msg1) }
     else Some (False, msg) }"

text \<open>A response takes over the credentials of the request it answers.\<close>

definition reply_message ::
    "stun_agent \<Rightarrow> stun_message \<Rightarrow> bytes \<Rightarrow> nat \<Rightarrow> stun_message \<Rightarrow> stun_message" where
  "reply_message agent msg0 buf buf_len request =
     msg0\<lparr>buffer := buf, buffer_len := buf_len, msg_agent := Some (conf_of agent),
       msg_key := msg_key request, long_term_key := long_term_key request,
       long_term_valid := long_term_valid request\<rparr>"

definition stun_agent_init_response ::
    "stun_env \<Rightarrow> stun_agent \<Rightarrow> stun_message \<Rightarrow> bytes \<Rightarrow> nat \<Rightarrow> stun_message \<Rightarrow>
      (bool \<times> stun_message) option" where
  "stun_agent_init_response env agent msg0 buf buf_len request = do {
     c \<leftarrow> stun_message_get_class request;
     if c \<noteq> STUN_REQUEST then Some (False, msg0)
     else do {
       i \<leftarrow> stun_message_id request;
       m \<leftarrow> stun_message_get_method request;
       (ret, msg) \<leftarrow> stun_message_init (reply_message agent msg0 buf buf_len request) STUN_RESPONSE m i;
       if ret then do { msg1 \<leftarrow> add_software env agent msg; Some (True, msg1) }
       else Some (False, msg) } }"

definition stun_agent_init_error ::
    "stun_env \<Rightarrow> stun_agent \<Rightarrow> stun_message \<Rightarrow> bytes \<Rightarrow> nat \<Rightarrow> stun_message \<Rightarrow> stun_error \<Rightarrow>
      (bool \<times> stun_message) option" where
  "stun_agent_init_error env agent msg0 buf buf_len request err = do {
     c \<leftarrow> stun_message_get_class request;
     if c \<noteq> STUN_REQUEST then Some (False, msg0)
     else do {
       i \<leftarrow> stun_message_id request;
       m \<leftarrow> stun_message_get_method request;
       (ret, msg) \<leftarrow> stun_message_init (reply_message agent msg0 buf buf_len request) STUN_ERROR m i;
       if ret then do {
         msg1 \<leftarrow> add_software env agent msg;
         (r, msg2) \<leftarrow> stun_message_append_error msg1 err;
         Some (r = STUN_MESSAGE_RETURN_SUCCESS, msg2) }
       else Some (False, msg) } }"

text \<open>
  The key used to protect an outgoing message and the message with its cached long-term key;
  \<open>None\<close> as key means that no MESSAGE-INTEGRITY is sent.
\<close>

definition finish_key ::
    "stun_env \<Rightarrow> stun_agent \<Rightarrow> stun_message \<Rightarrow> bytes \<Rightarrow> (bytes option \<times> stun_message) option" where
  "finish_key env agent msg key =
    (let long_term = has_flag agent STUN_AGENT_USAGE_LONG_TERM_CREDENTIALS in
     if long_term_valid msg then Some (Some (if long_term then long_term_key msg else key), msg)
     else if long_term then do {
       md5 \<leftarrow> integrity_key env agent msg key [] False;
       Some (case md5 of None \<Rightarrow> (None, msg)
         | Some md5 \<Rightarrow> (Some md5, msg\<lparr>long_term_key := md5, long_term_valid := True\<rparr>)) }
     else Some (Some key, msg))"

definition sent_sha :: "stun_env \<Rightarrow> stun_agent \<Rightarrow> stun_message \<Rightarrow> bytes \<Rightarrow> bytes option" where
  "sent_sha env agent msg k = do {
     len \<leftarrow> stun_message_length msg;
     let minus = (if compatibility agent = STUN_COMPATIBILITY_WLM2009 \<and>
       has_flag agent STUN_AGENT_USAGE_USE_FINGERPRINT then 12 else 20);
     stun_sha1 (env_stack env) (buffer msg) (unat len) (unat len - minus) k
       (compatibility agent \<noteq> STUN_COMPATIBILITY_RFC5389) }"

text \<open>Appends the integrity attribute: false when there is no room for it.\<close>

definition append_integrity ::
    "stun_env \<Rightarrow> stun_agent \<Rightarrow> stun_message \<Rightarrow> bytes \<Rightarrow> (bool \<times> stun_message) option" where
  "append_integrity env agent msg k = do {
     (ptr, msg1) \<leftarrow> stun_message_append msg STUN_ATTRIBUTE_MESSAGE_INTEGRITY 20;
     case ptr of None \<Rightarrow> Some (False, msg1)
     | Some p \<Rightarrow> do {
         sha \<leftarrow> sent_sha env agent msg1 k;
         b \<leftarrow> wrn (buffer msg1) p sha;
         Some (True, msg1\<lparr>buffer := b\<rparr>) } }"

definition append_fingerprint ::
    "stun_agent \<Rightarrow> stun_message \<Rightarrow> (bool \<times> stun_message) option" where
  "append_fingerprint agent msg =
    (if uses_cookie agent \<and> has_flag agent STUN_AGENT_USAGE_USE_FINGERPRINT then do {
       (ptr, msg1) \<leftarrow> stun_message_append msg STUN_ATTRIBUTE_FINGERPRINT 4;
       case ptr of None \<Rightarrow> Some (False, msg1)
       | Some p \<Rightarrow> do {
           len \<leftarrow> stun_message_length msg1;
           fpr \<leftarrow> stun_fingerprint (buffer msg1) (unat len)
             (compatibility agent = STUN_COMPATIBILITY_WLM2009);
           b \<leftarrow> wrn (buffer msg1) p (host_bytes32 fpr);
           Some (True, msg1\<lparr>buffer := b\<rparr>) } }
     else Some (True, msg))"

definition save_request ::
    "stun_agent \<Rightarrow> stun_message \<Rightarrow> nat \<Rightarrow> bytes option \<Rightarrow> stun_agent option" where
  "save_request agent msg idx key = do {
     i \<leftarrow> stun_message_id msg;
     m \<leftarrow> stun_message_get_method msg;
     if idx < length (sent_ids agent) then
       Some (agent\<lparr>sent_ids := (sent_ids agent)[idx :=
         \<lparr>saved_id = i, saved_method = m, saved_key = key, saved_long_term_key = long_term_key msg,
          saved_long_term_valid = long_term_valid msg, saved_valid = True\<rparr>]\<rparr>)
     else None }"

definition stun_agent_finish_message ::
    "stun_env \<Rightarrow> stun_agent \<Rightarrow> stun_message \<Rightarrow> bytes option \<Rightarrow>
      (nat \<times> stun_message \<times> stun_agent) option" where
  "stun_agent_finish_message env agent msg key = do {
     c \<leftarrow> stun_message_get_class msg;
     let slot = (if c = STUN_REQUEST then find_index (\<lambda>s. \<not> saved_valid s) (sent_ids agent)
                 else Some 0);
     case slot of None \<Rightarrow> Some (0, msg, agent)
     | Some idx \<Rightarrow> do {
         let key = (case msg_key msg of None \<Rightarrow> key | Some k \<Rightarrow> Some k);
         (ok, msg1) \<leftarrow>
           (case key of None \<Rightarrow> Some (True, msg)
            | Some k \<Rightarrow> do {
                (k', m1) \<leftarrow> finish_key env agent msg k;
                case k' of None \<Rightarrow> Some (True, m1) | Some k' \<Rightarrow> append_integrity env agent m1 k' });
         if \<not> ok then Some (0, msg1, agent)
         else do {
           (ok, msg2) \<leftarrow> append_fingerprint agent msg1;
           if \<not> ok then Some (0, msg2, agent)
           else do {
             agent1 \<leftarrow> (if c = STUN_REQUEST then save_request agent msg2 idx key else Some agent);
             len \<leftarrow> stun_message_length msg2;
             Some (unat len, msg2\<lparr>msg_key := key\<rparr>, agent1) } } } }"

text \<open>
  The \<open>ids\<close> array has 256 entries; \<open>ids[counter++] = ids[0]\<close> is a write to the entry after the
  ones found.
\<close>

definition stun_agent_build_unknown_attributes_error ::
    "stun_env \<Rightarrow> stun_agent \<Rightarrow> stun_message \<Rightarrow> bytes \<Rightarrow> nat \<Rightarrow> stun_message \<Rightarrow>
      (nat \<times> stun_message \<times> stun_agent) option" where
  "stun_agent_build_unknown_attributes_error env agent msg0 buf buf_len request = do {
     ids \<leftarrow> stun_agent_find_unknowns agent request STUN_AGENT_MAX_UNKNOWN_ATTRIBUTES;
     (ok, msg) \<leftarrow> stun_agent_init_error env agent msg0 buf buf_len request 420;
     if \<not> ok then Some (0, msg, agent)
     else do {
       cookie \<leftarrow> stun_message_has_cookie request;
       ids \<leftarrow> (if \<not> cookie \<and> odd (length ids)
               then if length ids < STUN_AGENT_MAX_UNKNOWN_ATTRIBUTES then Some (ids @ [ids ! 0])
                    else None
               else Some ids);
       (r, msg1) \<leftarrow> stun_message_append_bytes msg STUN_ATTRIBUTE_UNKNOWN_ATTRIBUTES
         (concat (map host_bytes16 ids));
       if r = STUN_MESSAGE_RETURN_SUCCESS
       then stun_agent_finish_message env agent msg1 (msg_key request)
       else Some (0, msg1, agent) } }"

end
