(* ===== verification/Stun_Transactions.thy ===== *)
theory Stun_Transactions
  imports Stun_Agent "HOL-Library.Multiset"
begin

unbundle bit_operations_syntax

text \<open>
  The table of saved transactions of an agent, seen as the multiset of the requests that are
  outstanding. The operations of \<open>stun/stunagent.c\<close> that touch the table refine operations on
  that multiset: finishing a request adds one element, a validated response and a forgotten
  transaction remove one, everything else leaves it alone. The theory closes with the state
  machine these operations form and its invariant.
\<close>

section \<open>Slots\<close>

lemma find_index_Some:
  assumes "find_index P xs = Some i"
  shows "i < length xs" "P (xs ! i)" "\<And>j. j < i \<Longrightarrow> \<not> P (xs ! j)"
proof -
  have "i < length xs \<and> P (xs ! i) \<and> (\<forall>j < i. \<not> P (xs ! j))"
    using assms
  proof (induction P xs arbitrary: i rule: find_index.induct)
    case (2 P x xs)
    then show ?case by (auto simp: nth_Cons split: if_splits nat.splits)
  qed simp
  then show "i < length xs" "P (xs ! i)" "\<And>j. j < i \<Longrightarrow> \<not> P (xs ! j)" by auto
qed

lemma find_index_None: "find_index P xs = None \<longleftrightarrow> (\<forall>x \<in> set xs. \<not> P x)"
  by (induction P xs rule: find_index.induct) auto

text \<open>What the library means by a saved transaction: its id, method and key.\<close>

type_synonym transaction = "bytes \<times> stun_method \<times> bytes option"

definition transaction_of :: "saved_id \<Rightarrow> transaction" where
  "transaction_of s = (saved_id s, saved_method s, saved_key s)"

definition outstanding :: "stun_agent \<Rightarrow> transaction multiset" where
  "outstanding a = mset (map transaction_of (filter saved_valid (sent_ids a)))"

lemma outstanding_update_free:
  assumes "i < length (sent_ids a)" and "\<not> saved_valid (sent_ids a ! i)" and "saved_valid s"
  shows "outstanding (a\<lparr>sent_ids := (sent_ids a)[i := s]\<rparr>) =
    add_mset (transaction_of s) (outstanding a)"
proof -
  let ?xs = "sent_ids a"
  have xs: "?xs = take i ?xs @ ?xs ! i # drop (Suc i) ?xs" using assms(1) by (rule id_take_nth_drop)
  have "outstanding a = mset (map transaction_of (filter saved_valid (take i ?xs @ drop (Suc i) ?xs)))"
    unfolding outstanding_def using assms(2) by (subst xs) simp
  then show ?thesis
    using assms(1,3) by (simp add: outstanding_def upd_conv_take_nth_drop)
qed

lemma outstanding_invalidate:
  assumes "i < length (sent_ids a)" and "saved_valid (sent_ids a ! i)"
  shows "outstanding (a\<lparr>sent_ids := (sent_ids a)[i := (sent_ids a ! i)\<lparr>saved_valid := False\<rparr>]\<rparr>) =
    outstanding a - {#transaction_of (sent_ids a ! i)#}"
    and "transaction_of (sent_ids a ! i) \<in># outstanding a"
proof -
  let ?xs = "sent_ids a"
  have xs: "?xs = take i ?xs @ ?xs ! i # drop (Suc i) ?xs" using assms(1) by (rule id_take_nth_drop)
  have "outstanding a = add_mset (transaction_of (?xs ! i))
      (mset (map transaction_of (filter saved_valid (take i ?xs @ drop (Suc i) ?xs))))"
    unfolding outstanding_def using assms(2) by (subst xs) simp
  then show "outstanding (a\<lparr>sent_ids := ?xs[i := (?xs ! i)\<lparr>saved_valid := False\<rparr>]\<rparr>) =
    outstanding a - {#transaction_of (?xs ! i)#}"
    using assms(1) by (simp add: outstanding_def upd_conv_take_nth_drop)
  show "transaction_of (?xs ! i) \<in># outstanding a"
    using assms by (auto simp: outstanding_def)
qed

section \<open>Forgetting a transaction\<close>

lemma forget_transaction_outstanding:
  "stun_agent_forget_transaction a i = (found, a') \<Longrightarrow>
     (if found then \<exists>m k. (i, m, k) \<in># outstanding a \<and> outstanding a' = outstanding a - {#(i, m, k)#}
      else a' = a \<and> (\<forall>m k. (i, m, k) \<notin># outstanding a))"
proof -
  assume f: "stun_agent_forget_transaction a i = (found, a')"
  let ?P = "\<lambda>s. saved_valid s \<and> i = saved_id s"
  show ?thesis
  proof (cases "find_index ?P (sent_ids a)")
    case None
    with f show ?thesis
      by (auto simp: stun_agent_forget_transaction_def outstanding_def find_index_None
          transaction_of_def)
  next
    case (Some k)
    note K = find_index_Some [OF Some]
    from f Some have "found"
      "a' = a\<lparr>sent_ids := (sent_ids a)[k := (sent_ids a ! k)\<lparr>saved_valid := False\<rparr>]\<rparr>"
      by (auto simp: stun_agent_forget_transaction_def)
    then show ?thesis
      using outstanding_invalidate [OF K(1)] K(2) by (auto simp: transaction_of_def)
  qed
qed

section \<open>Finishing a message\<close>

lemma length_sent_ids_save: "save_request a msg i k = Some a' \<Longrightarrow> length (sent_ids a') = length (sent_ids a)"
  by (auto simp: save_request_def split: bind_splits if_splits)

text \<open>
  The table changes only when a request is finished successfully, and then by exactly that
  request, under the id, method and key of the message.
\<close>

lemma finish_message_outstanding:
  assumes "stun_agent_finish_message env a msg key = Some (n, msg', a')"
  shows "a' = a \<or> (\<exists>i m. stun_message_id msg' = Some i \<and> stun_message_get_method msg' = Some m \<and>
      stun_message_get_class msg = Some STUN_REQUEST \<and>
      outstanding a' = add_mset (i, m, msg_key msg') (outstanding a)) \<and>
      length (sent_ids a') = length (sent_ids a)"
proof -
  obtain c where c: "stun_message_get_class msg = Some c"
    using assms by (auto simp: stun_agent_finish_message_def split: bind_splits)
  show ?thesis
  proof (cases "a' = a")
    case False
    with assms c obtain idx msg2 where req: "c = STUN_REQUEST"
      and idx: "find_index (\<lambda>s. \<not> saved_valid s) (sent_ids a) = Some idx"
      and sv: "save_request a msg2 idx (msg_key msg') = Some a'"
      and m': "msg' = msg2\<lparr>msg_key := msg_key msg'\<rparr>"
      by (auto simp: stun_agent_finish_message_def Let_def
          split: bind_splits option.splits if_splits prod.splits)
    note I = find_index_Some [OF idx]
    have "stun_message_id msg' = stun_message_id msg2"
      "stun_message_get_method msg' = stun_message_get_method msg2"
      by (subst m', simp add: stun_message_id_def, subst m', simp add: stun_message_get_method_def)
    then show ?thesis
      using sv I req c outstanding_update_free [OF I(1,2)] length_sent_ids_save [OF sv]
      by (auto simp: save_request_def transaction_of_def split: bind_splits if_splits)
  qed simp
qed

lemma finish_message_full:
  assumes "stun_message_get_class msg = Some STUN_REQUEST" and "\<forall>s \<in> set (sent_ids a). saved_valid s"
  shows "stun_agent_finish_message env a msg key = Some (0, msg, a)"
proof -
  have "find_index (\<lambda>s. \<not> saved_valid s) (sent_ids a) = None"
    using assms(2) by (simp add: find_index_None)
  then show ?thesis using assms(1) by (simp add: stun_agent_finish_message_def)
qed

section \<open>Validating a response\<close>

text \<open>The statuses with which a received message leaves the credential checks behind.\<close>

definition accepted_status :: "stun_validation \<Rightarrow> bool" where
  "accepted_status st \<longleftrightarrow> st = STUN_VALIDATION_SUCCESS \<or> st = STUN_VALIDATION_UNKNOWN_ATTRIBUTE \<or>
     st = STUN_VALIDATION_UNKNOWN_REQUEST_ATTRIBUTE"

lemma verify_sha_verdict:
  "verify_sha env a msg h k key = Some (Some st, msg') \<Longrightarrow> st = STUN_VALIDATION_UNAUTHORIZED"
  by (auto simp: verify_sha_def split: bind_splits if_splits)

lemma check_integrity_verdict:
  "check_integrity env a msg key ltk v = Some (Some st, msg') \<Longrightarrow> st = STUN_VALIDATION_UNAUTHORIZED"
  by (auto simp: check_integrity_def dest: verify_sha_verdict
      split: bind_splits option.splits if_splits prod.splits)

lemma check_key_verdict:
  "check_key env a msg ig key ltk v = Some (Some st, msg') \<Longrightarrow> st = STUN_VALIDATION_UNAUTHORIZED"
  by (auto simp: check_key_def dest: check_integrity_verdict split: option.splits if_splits)

text \<open>The saved transaction is released exactly when the message is accepted.\<close>

lemma validate_with_key_table:
  assumes "validate_with_key env a msg v c idx key ltk ltv = Some (st, msg', a')"
  shows "a' = (if accepted_status st then release_saved a idx else a)"
proof -
  from assms obtain ig la where
    ig: "ignore_credentials a msg = Some ig" "lacks_credentials a msg = Some la"
    unfolding validate_with_key_def by (elim bind_SomeE)
  show ?thesis
  proof (cases "key = None \<and> \<not> ig \<and> la")
    case True
    then show ?thesis
      using assms ig by (simp add: validate_with_key_def accepted_status_def)
  next
    case False
    from assms [unfolded validate_with_key_def ig bind.bind_lunit if_not_P [OF False]]
    obtain answer where "ask_validater a msg v ig key = Some answer"
      by (elim bind_SomeE)
    note r = assms [unfolded validate_with_key_def ig bind.bind_lunit if_not_P [OF False] this Let_def]
    show ?thesis
    proof (cases answer)
      case None
      then show ?thesis using r by (simp add: accepted_status_def)
    next
      case (Some k)
      with r obtain verdict msg1 where "check_key env a msg ig k ltk ltv = Some (verdict, msg1)"
        by (auto elim!: bind_SomeE)
      with r Some show ?thesis
        by (cases verdict) (auto simp: accepted_status_def elim!: bind_SomeE dest: check_key_verdict
            split: if_splits)
    qed
  qed
qed

lemma validate_credentials_table:
  "validate_credentials env a msg v c idx = Some (st, msg', a') \<Longrightarrow>
     a' = (if accepted_status st then release_saved a idx else a)"
  by (cases idx) (simp_all add: validate_credentials_def Let_def validate_with_key_table)

lemma validate_table:
  assumes "stun_agent_validate env a msg0 buf n v = Some (st, msg', a')"
  defines "msg \<equiv> received_message a msg0 buf n"
  shows "a' = a \<or> accepted_status st \<and>
    (\<exists>i m tid. stun_message_id msg = Some tid \<and> stun_message_get_method msg = Some m \<and>
      find_index (saved_matches m tid) (sent_ids a) = Some i \<and> a' = release_saved a (Some i))"
proof -
  from assms(1) consider "a' = a"
    | c where "validate_credentials env a msg v c None = Some (st, msg', a')"
    | c m tid i where "stun_message_id msg = Some tid" "stun_message_get_method msg = Some m"
        "find_index (saved_matches m tid) (sent_ids a) = Some i"
        "validate_credentials env a msg v c (Some i) = Some (st, msg', a')"
    unfolding stun_agent_validate_def Let_def msg_def [symmetric]
    by (elim bind_SomeE, simp split: if_split_asm)
      (elim bind_SomeE, simp split: if_split_asm,
       elim bind_SomeE, simp split: if_split_asm,
       elim bind_SomeE, auto split: if_split_asm option.split_asm elim!: bind_SomeE)
  then show ?thesis
    by cases (auto dest: validate_credentials_table simp: release_saved_def split: if_splits)
qed

text \<open>
  And so the table changes exactly when a response is accepted; then the flag of the first
  transaction with the id and method of the message is cleared.
\<close>

lemma validate_cases:
  assumes "stun_agent_validate env a msg0 buf n v = Some (st, msg', a')"
  defines "msg \<equiv> received_message a msg0 buf n"
  obtains (refused) "\<not> accepted_status st" "a' = a"
  | (other) c where "stun_message_get_class msg = Some c" "c \<noteq> STUN_RESPONSE" "c \<noteq> STUN_ERROR"
      "validate_credentials env a msg v c None = Some (st, msg', a')"
  | (matched) c m tid i where "stun_message_get_class msg = Some c" "c = STUN_RESPONSE \<or> c = STUN_ERROR"
      "stun_message_id msg = Some tid" "stun_message_get_method msg = Some m"
      "find_index (saved_matches m tid) (sent_ids a) = Some i"
      "validate_credentials env a msg v c (Some i) = Some (st, msg', a')"
  using assms(1) unfolding stun_agent_validate_def Let_def msg_def [symmetric]
  by (elim bind_SomeE, simp add: accepted_status_def split: if_split_asm)
    (elim bind_SomeE, simp add: accepted_status_def split: if_split_asm,
     elim bind_SomeE, simp add: accepted_status_def split: if_split_asm,
     elim bind_SomeE, auto simp: accepted_status_def split: if_split_asm option.split_asm elim!: bind_SomeE)

lemma validate_releases:
  assumes "stun_agent_validate env a msg0 buf n v = Some (st, msg', a')"
  shows "if accepted_status st \<and>
        (stun_message_get_class (received_message a msg0 buf n) = Some STUN_RESPONSE \<or>
         stun_message_get_class (received_message a msg0 buf n) = Some STUN_ERROR)
    then \<exists>m tid i. stun_message_id (received_message a msg0 buf n) = Some tid \<and>
      stun_message_get_method (received_message a msg0 buf n) = Some m \<and>
      i < length (sent_ids a) \<and>
      saved_valid (sent_ids a ! i) \<and> saved_id (sent_ids a ! i) = tid \<and> saved_method (sent_ids a ! i) = m \<and>
      (\<forall>j<i. \<not> (saved_valid (sent_ids a ! j) \<and> saved_id (sent_ids a ! j) = tid \<and>
        saved_method (sent_ids a ! j) = m)) \<and>
      a' = a\<lparr>sent_ids := (sent_ids a)[i := (sent_ids a ! i)\<lparr>saved_valid := False\<rparr>]\<rparr> \<and>
      transaction_of (sent_ids a ! i) \<in># outstanding a \<and>
      outstanding a' = outstanding a - {#transaction_of (sent_ids a ! i)#}
    else a' = a"
proof (cases rule: validate_cases [OF assms, case_names refused other matched])
  case refused
  then show ?thesis by simp
next
  case (other c)
  from validate_credentials_table [OF other(4)] other show ?thesis by (simp add: release_saved_def)
next
  case (matched c m tid i)
  note I = find_index_Some [OF matched(5)]
  have s: "saved_valid (sent_ids a ! i) \<and> saved_id (sent_ids a ! i) = tid \<and> saved_method (sent_ids a ! i) = m"
    using I(2) by (simp add: saved_matches_def)
  have "\<forall>j<i. \<not> (saved_valid (sent_ids a ! j) \<and> saved_id (sent_ids a ! j) = tid \<and>
      saved_method (sent_ids a ! j) = m)"
    using I(3) by (auto simp: saved_matches_def)
  with validate_credentials_table [OF matched(6)] matched(1-4) I(1) s
    outstanding_invalidate [OF I(1) s [THEN conjunct1]]
  show ?thesis by (simp add: release_saved_def) blast
qed

lemma validate_outstanding:
  assumes "stun_agent_validate env a msg0 buf n v = Some (st, msg', a')"
  shows "a' = a \<or> accepted_status st \<and> (\<exists>t. t \<in># outstanding a \<and> outstanding a' = outstanding a - {#t#})"
    and "length (sent_ids a') = length (sent_ids a)"
proof -
  show "a' = a \<or> accepted_status st \<and> (\<exists>t. t \<in># outstanding a \<and> outstanding a' = outstanding a - {#t#})"
  proof (cases "a' = a")
    case False
    with validate_table [OF assms] obtain i m tid
      where acc: "accepted_status st" and i: "find_index (saved_matches m tid) (sent_ids a) = Some i"
        and a': "a' = release_saved a (Some i)" by blast
    note I = find_index_Some(1,2) [OF i]
    have "saved_valid (sent_ids a ! i)" using I(2) by (simp add: saved_matches_def)
    from outstanding_invalidate [OF I(1) this] acc show ?thesis
      unfolding a' release_saved_def option.case by blast
  qed simp
  show "length (sent_ids a') = length (sent_ids a)"
    using validate_table [OF assms] by (auto simp: release_saved_def)
qed

section \<open>A response is accepted once\<close>

text \<open>
  When the table holds a transaction only once, a second copy of a response that was accepted
  for it no longer matches anything.
\<close>

definition ids_distinct :: "stun_agent \<Rightarrow> bool" where
  "ids_distinct a \<longleftrightarrow> (\<forall>i < length (sent_ids a). \<forall>j < length (sent_ids a).
     saved_valid (sent_ids a ! i) \<and> saved_valid (sent_ids a ! j) \<and>
     saved_id (sent_ids a ! i) = saved_id (sent_ids a ! j) \<longrightarrow> i = j)"

lemma release_no_match:
  assumes "find_index (saved_matches m tid) (sent_ids a) = Some i" and "ids_distinct a"
  shows "find_index (saved_matches m tid) (sent_ids (release_saved a (Some i))) = None"
proof -
  note I = find_index_Some(1,2) [OF assms(1)]
  have "\<not> saved_matches m tid ((sent_ids a)[i := (sent_ids a ! i)\<lparr>saved_valid := False\<rparr>] ! j)"
    if "j < length (sent_ids a)" for j
    using that I assms(2) by (cases "j = i") (auto simp: saved_matches_def ids_distinct_def)
  then show ?thesis
    by (auto simp: release_saved_def find_index_None in_set_conv_nth)
qed

lemma received_message_conf: "conf_of a' = conf_of a \<Longrightarrow> received_message a' m b n = received_message a m b n"
  by (simp add: received_message_def)

lemma release_saved_fields [simp]:
  "conf_of (release_saved a idx) = conf_of a" "usage_flags (release_saved a idx) = usage_flags a"
  "compatibility (release_saved a idx) = compatibility a"
  "length (sent_ids (release_saved a idx)) = length (sent_ids a)"
  by (cases idx; simp add: release_saved_def conf_of_def)+

lemma release_saved_checks [simp]:
  "has_flag (release_saved a idx) f = has_flag a f"
  "uses_cookie (release_saved a idx) = uses_cookie a"
  "fingerprint_ok (release_saved a idx) msg = fingerprint_ok a msg"
  unfolding has_flag_def uses_cookie_def fingerprint_ok_def release_saved_fields by (rule refl)+

lemma validate_twice:
  assumes first: "stun_agent_validate env a msg0 buf n v = Some (st, msg', a')"
    and resp: "stun_message_get_class (received_message a msg0 buf n) = Some c"
      "c = STUN_RESPONSE \<or> c = STUN_ERROR"
    and acc: "accepted_status st" and dist: "ids_distinct a"
  shows "stun_agent_validate env a' msg0 buf n v =
    Some (STUN_VALIDATION_UNMATCHED_RESPONSE, received_message a msg0 buf n, a')"
proof -
  let ?msg = "received_message a msg0 buf n"
  from first [unfolded stun_agent_validate_def Let_def] obtain len ck where
    len: "stun_message_validate_buffer_length buf n
      (\<not> has_flag a STUN_AGENT_USAGE_NO_ALIGNED_ATTRIBUTES) = Some len"
      "len \<noteq> -1" "len \<noteq> 0" "len = signed_take_bit 31 (int n)"
    and ck: "stun_message_has_cookie ?msg = Some ck" "\<not> (uses_cookie a \<and> \<not> ck)"
    using acc by (elim bind_SomeE)
      (auto simp: accepted_status_def elim!: bind_SomeE split: if_split_asm)
  note f1 = first [unfolded stun_agent_validate_def Let_def len(1) bind.bind_lunit ck(1)
      if_not_P [OF len(2)] if_not_P [OF len(3)] if_not_P [OF ck(2)]]
  then obtain ok where fp: "(if uses_cookie a \<and> has_flag a STUN_AGENT_USAGE_USE_FINGERPRINT
      then fingerprint_ok a ?msg else Some True) = Some ok"
    using len(4) by (auto elim!: bind_SomeE)
  with f1 len(4) acc have "ok" by (auto simp: accepted_status_def split: if_splits)
  obtain m tid where m: "stun_message_get_method ?msg = Some m" "stun_message_id ?msg = Some tid"
    using f1 fp \<open>ok\<close> len(4) resp by (auto elim!: bind_SomeE)
  obtain i where i: "find_index (saved_matches m tid) (sent_ids a) = Some i"
    and r: "validate_credentials env a ?msg v c (Some i) = Some (st, msg', a')"
    using f1 fp \<open>ok\<close> len(4) resp m acc
    by (auto simp: accepted_status_def split: option.split_asm)
  have a': "a' = release_saved a (Some i)" using validate_credentials_table [OF r] acc by simp
  have msg: "received_message a' msg0 buf n = ?msg"
    by (rule received_message_conf) (simp add: a')
  show ?thesis
    using len ck fp \<open>ok\<close> resp m release_no_match [OF i dist]
    unfolding stun_agent_validate_def Let_def msg by (auto simp: a' split: if_splits)
qed

section \<open>The agent as a state machine\<close>

inductive agent_step :: "stun_agent \<Rightarrow> stun_agent \<Rightarrow> bool" where
  finish: "stun_agent_finish_message env a msg key = Some (n, msg', a') \<Longrightarrow> agent_step a a'"
| validate: "stun_agent_validate env a msg0 buf n v = Some (st, msg', a') \<Longrightarrow> agent_step a a'"
| forget: "stun_agent_forget_transaction a i = (found, a') \<Longrightarrow> agent_step a a'"
| software: "agent_step a (stun_agent_set_software a s)"

inductive_cases agent_stepE: "agent_step a a'"

inductive agent_steps :: "stun_agent \<Rightarrow> stun_agent \<Rightarrow> bool" where
  no_step: "agent_steps a a"
| more_steps: "agent_steps a b \<Longrightarrow> agent_step b c \<Longrightarrow> agent_steps a c"

lemma forget_length: "stun_agent_forget_transaction a i = (found, a') \<Longrightarrow>
    length (sent_ids a') = length (sent_ids a)"
  by (auto simp: stun_agent_forget_transaction_def split: option.splits)

lemma agent_step_slots: "agent_step a a' \<Longrightarrow> length (sent_ids a') = length (sent_ids a)"
  by (erule agent_stepE)
    (auto dest: finish_message_outstanding validate_outstanding(2) forget_length
      simp: stun_agent_set_software_def)

lemma size_outstanding: "size (outstanding a) \<le> length (sent_ids a)"
  using size_filter_mset_lesseq [of saved_valid "mset (sent_ids a)"] by (simp add: outstanding_def)

text \<open>One step changes the number of outstanding transactions by at most one.\<close>

lemma agent_step_size:
  assumes "agent_step a a'"
  shows "size (outstanding a') \<le> size (outstanding a) + 1"
    "size (outstanding a) \<le> size (outstanding a') + 1"
proof -
  have "size (outstanding a') \<le> size (outstanding a) + 1 \<and>
      size (outstanding a) \<le> size (outstanding a') + 1"
    using assms
  proof (cases rule: agent_step.cases)
    case (finish env msg key n msg')
    then show ?thesis using finish_message_outstanding by fastforce
  next
    case (validate env msg0 buf n v st msg')
    then show ?thesis
      using validate_outstanding(1) [OF validate] by (auto simp: size_Diff_singleton_if)
  next
    case (forget i found)
    then show ?thesis
      using forget_transaction_outstanding [OF forget]
      by (auto simp: size_Diff_singleton_if split: if_splits)
  next
    case (software s)
    then show ?thesis by (simp add: stun_agent_set_software_def outstanding_def)
  qed
  then show "size (outstanding a') \<le> size (outstanding a) + 1"
    "size (outstanding a) \<le> size (outstanding a') + 1" by simp_all
qed

lemma agent_init_outstanding: "outstanding (stun_agent_init a known level flags) = {#}"
  by (simp add: outstanding_def stun_agent_init_def)

lemma reachable_agent:
  assumes "agent_steps a b" and "length (sent_ids a) = STUN_AGENT_MAX_SAVED_IDS"
  shows "length (sent_ids b) = STUN_AGENT_MAX_SAVED_IDS \<and>
    size (outstanding b) \<le> STUN_AGENT_MAX_SAVED_IDS"
  using assms
proof (induction rule: agent_steps.induct)
  case (no_step a)
  then show ?case using size_outstanding [of a] by simp
next
  case (more_steps a b c)
  then show ?case using agent_step_slots [of b c] size_outstanding [of c] by simp
qed

end
