(* ===== verification/Stun_Auth.thy ===== *)
theory Stun_Auth
  imports Stun_Transactions
begin

unbundle bit_operations_syntax

text \<open>
  What the protection of a message promises. A message that an agent finishes with a key and
  sends is accepted by a peer that looks the same key up: the integrity code and the
  fingerprint computed by the sender over a message under construction are the ones the
  receiver recomputes over the packet. The theory also covers the report of unknown attributes.
\<close>

section \<open>Unknown attributes\<close>

definition knows :: "u16 list \<Rightarrow> u16 \<Rightarrow> bool" where
  "knows known t \<longleftrightarrow> t \<in> set (takeWhile (\<lambda>k. k \<noteq> 0) known)"

lemma is_unknown_eq: "0 \<in> set known \<Longrightarrow> stun_agent_is_unknown known t = Some (\<not> knows known t)"
  by (induction known t rule: stun_agent_is_unknown.induct) (auto simp: knows_def)

lemma find_unknowns_from_eq:
  assumes "parse_attrs u m len off = Some as" and "0 \<in> set known"
  shows "find_unknowns_from known u m len limit off = Some (take limit
    (map (\<lambda>(t, p, l). htons t) (filter (\<lambda>(t, p, l). \<not> stun_optional t \<and> \<not> knows known t) as)))"
  using assms(1)
proof (induction u m len off arbitrary: as limit rule: parse_attrs.induct)
  case (1 u m len off)
  show ?case
  proof (cases "off < len")
    case False
    with "1.prems" have "as = []" by (simp add: parse_attrs.simps [of u m len])
    then show ?thesis using False by (simp add: find_unknowns_from.simps)
  next
    case True
    with "1.prems" obtain t l rest where tl: "stun_getw m off = Some t" "stun_getw m (off + 2) = Some l"
      and rest: "parse_attrs u m len (off + 4 + attr_space u l) = Some rest"
      and as: "as = (t, off + 4, l) # rest"
      by (subst (asm) parse_attrs.simps) (auto split: bind_splits)
    have sp: "(if u then unat l else stun_align (unat l)) = attr_space u l"
      by (simp add: attr_space_def)
    note IH = "1.IH" [OF True tl rest]
    show ?thesis
    proof (cases "limit = 0")
      case False
      then obtain k where "limit = Suc k" by (cases limit) auto
      then show ?thesis
        using True tl IH is_unknown_eq [OF assms(2), of t]
        by (simp add: find_unknowns_from.simps [of known u m len "Suc k" off] as sp Let_def)
    qed (simp add: find_unknowns_from.simps)
  qed
qed

lemma find_unknowns_eq:
  assumes "msg_attrs msg = Some as" and "0 \<in> set (known_attributes a)"
    and "has_flag a STUN_AGENT_USAGE_NO_ALIGNED_ATTRIBUTES = no_aligned (msg_agent msg)"
  shows "stun_agent_find_unknowns a msg limit = Some (take limit (map (\<lambda>(t, p, l). htons t)
    (filter (\<lambda>(t, p, l). \<not> stun_optional t \<and> \<not> knows (known_attributes a) t) as)))"
proof -
  from assms(1) obtain len where "stun_message_length msg = Some len"
    "parse_attrs (no_aligned (msg_agent msg)) (buffer msg) (unat len) 20 = Some as"
    by (auto simp: msg_attrs_def elim: bind_SomeE)
  with find_unknowns_from_eq [OF this(2) assms(2)] assms(3) show ?thesis
    by (simp add: stun_agent_find_unknowns_def)
qed

text \<open>
  The odd entry that RFC 3489 padding duplicates always has a free slot: the array has an even
  number of entries.
\<close>

lemma unknown_ids_fit:
  assumes "stun_agent_find_unknowns a msg STUN_AGENT_MAX_UNKNOWN_ATTRIBUTES = Some ids"
    and "msg_attrs msg = Some as" and "0 \<in> set (known_attributes a)"
    and "has_flag a STUN_AGENT_USAGE_NO_ALIGNED_ATTRIBUTES = no_aligned (msg_agent msg)"
    and "odd (length ids)"
  shows "length ids < STUN_AGENT_MAX_UNKNOWN_ATTRIBUTES"
proof -
  have "length ids \<le> 256"
    using find_unknowns_eq [OF assms(2-4), of 256] assms(1) by auto
  with assms(5) show ?thesis by (cases "length ids = 256") auto
qed

section \<open>The integrity attribute of an outgoing message\<close>

lemma integrity_text_cong:
  assumes "take 2 b = take 2 b'" and "take (len - 28) (drop 4 b) = take (len - 28) (drop 4 b')"
  shows "integrity_text b len ml p = integrity_text b' len ml p"
  using assms by (simp add: integrity_text_def)

text \<open>The bytes the code covers are those of the message before the attribute.\<close>

lemma covered_cong:
  assumes "length b' = length b" and "\<And>i. i < e \<Longrightarrow> i \<noteq> 2 \<Longrightarrow> i \<noteq> 3 \<Longrightarrow> b' ! i = b ! i"
    and "e \<le> length b" and "20 \<le> e"
  shows "integrity_text b' (e + 24) ml p = integrity_text b (e + 24) ml p"
proof (rule integrity_text_cong)
  show "take 2 b' = take 2 b"
    by (rule nth_equalityI) (use assms in auto)
  show "take (e + 24 - 28) (drop 4 b') = take (e + 24 - 28) (drop 4 b)"
    by (rule nth_equalityI) (use assms in auto)
qed

definition sent_msg_len :: "stun_agent \<Rightarrow> nat \<Rightarrow> nat" where
  "sent_msg_len a e = e + 24 - (if compatibility a = STUN_COMPATIBILITY_WLM2009 \<and>
     has_flag a STUN_AGENT_USAGE_USE_FINGERPRINT then 12 else 20)"

definition integrity_code :: "stun_agent \<Rightarrow> bytes \<Rightarrow> nat \<Rightarrow> bytes \<Rightarrow> bytes" where
  "integrity_code a b e k = hmac_ref k (integrity_text b (e + 24) (sent_msg_len a e)
     (compatibility a \<noteq> STUN_COMPATIBILITY_RFC5389))"

lemma append_integrity_eq:
  assumes "built msg" and "room_for msg 20" and "length (env_stack env) = 64"
    and "length k + 64 < 2 ^ 32"
  shows "append_integrity env a msg k = Some (True, msg\<lparr>buffer :=
    append_bytes_buffer msg STUN_ATTRIBUTE_MESSAGE_INTEGRITY
      (integrity_code a (buffer msg) (msg_end msg) k)\<rparr>)"
proof -
  let ?e = "msg_end msg" and ?b = "append_buffer msg STUN_ATTRIBUTE_MESSAGE_INTEGRITY 20"
  have pad: "append_pad msg 20 = 0" by (rule append_pad_multiple) simp
  have fits: "?e + 4 + 20 + append_pad msg 20 \<le> buffer_len msg"
    and small: "?e + 4 + 20 + append_pad msg 20 < 65536"
    using assms(2) by simp_all
  note P = append_buffer_props [OF assms(1) fits small, where t = STUN_ATTRIBUTE_MESSAGE_INTEGRITY]
  have l: "length (buffer msg) = buffer_len msg" "20 \<le> ?e" "?e \<le> buffer_len msg"
    using assms(1) by (simp_all add: built_def msg_end_def)
  have len: "stun_message_length (msg\<lparr>buffer := ?b\<rparr>) = Some (of_nat (?e + 24))"
    using P(1) P(5) l fits pad
    by (simp add: stun_message_length_def stun_getw_len_field)
  have u: "unat (of_nat (?e + 24) :: u16) = ?e + 24"
    using small pad by (simp add: unat_of_nat del: of_nat_add)
  have "stun_sha1 (env_stack env) ?b (?e + 24) (sent_msg_len a ?e) k
      (compatibility a \<noteq> STUN_COMPATIBILITY_RFC5389) =
    Some (hmac_ref k (integrity_text ?b (?e + 24) (sent_msg_len a ?e)
      (compatibility a \<noteq> STUN_COMPATIBILITY_RFC5389)))"
    by (rule stun_sha1_hmac) (use P(1) l fits small assms(3,4) in simp_all)
  also have "integrity_text ?b (?e + 24) ml p = integrity_text (buffer msg) (?e + 24) ml p" for ml p
    by (rule covered_cong) (use P(1,2) l in auto)
  finally have sha: "sent_sha env a (msg\<lparr>buffer := ?b\<rparr>) k =
      Some (integrity_code a (buffer msg) ?e k)"
    using len u by (simp add: sent_sha_def sent_msg_len_def integrity_code_def Let_def del: of_nat_add)
  have "length (integrity_code a (buffer msg) ?e k) = 20" by (simp add: integrity_code_def)
  then show ?thesis
    using sha P(1) l fits pad
    by (simp add: append_integrity_def append_eq [OF assms(1) fits] wrn_put append_bytes_buffer_def)
qed

section \<open>The fingerprint of an outgoing message\<close>

definition fingerprint_text :: "bytes \<Rightarrow> nat \<Rightarrow> bytes list" where
  "fingerprint_text b len =
     [take 2 b, host_bytes16 (htons (of_nat len - 20)), take (len - 12) (drop 4 b)]"

definition fingerprint_value :: "stun_agent \<Rightarrow> bytes \<Rightarrow> nat \<Rightarrow> u32" where
  "fingerprint_value a b len = htonl (stun_crc32 (fingerprint_text b len)
     (compatibility a = STUN_COMPATIBILITY_WLM2009) XOR 0x5354554e)"

lemma stun_fingerprint_value:
  "12 \<le> len \<Longrightarrow> len \<le> length b + 8 \<Longrightarrow>
     stun_fingerprint b len (compatibility a = STUN_COMPATIBILITY_WLM2009) =
       Some (fingerprint_value a b len)"
  by (simp add: stun_fingerprint_def fingerprint_value_def fingerprint_text_def rdn_def)

lemma fingerprint_cong:
  assumes "length b' = length b" and "\<And>i. i < e \<Longrightarrow> i \<noteq> 2 \<Longrightarrow> i \<noteq> 3 \<Longrightarrow> b' ! i = b ! i"
    and "e \<le> length b" and "20 \<le> e"
  shows "fingerprint_value a b' (e + 8) = fingerprint_value a b (e + 8)"
proof -
  have "take 2 b' = take 2 b" "take (e + 8 - 12) (drop 4 b') = take (e + 8 - 12) (drop 4 b)"
    by (rule nth_equalityI; use assms in auto)+
  then show ?thesis unfolding fingerprint_value_def fingerprint_text_def by simp
qed

lemma append_fingerprint_eq:
  assumes "built msg" and "room_for msg 4" and "uses_cookie a" and "has_flag a STUN_AGENT_USAGE_USE_FINGERPRINT"
  shows "append_fingerprint a msg = Some (True, msg\<lparr>buffer :=
    append_bytes_buffer msg STUN_ATTRIBUTE_FINGERPRINT
      (host_bytes32 (fingerprint_value a (buffer msg) (msg_end msg + 8)))\<rparr>)"
proof -
  let ?e = "msg_end msg" and ?b = "append_buffer msg STUN_ATTRIBUTE_FINGERPRINT 4"
  have pad: "append_pad msg 4 = 0" by (rule append_pad_multiple) simp
  have fits: "?e + 4 + 4 + append_pad msg 4 \<le> buffer_len msg"
    and small: "?e + 4 + 4 + append_pad msg 4 < 65536"
    using assms(2) by simp_all
  note P = append_buffer_props [OF assms(1) fits small, where t = STUN_ATTRIBUTE_FINGERPRINT]
  have l: "length (buffer msg) = buffer_len msg" "20 \<le> ?e" "?e \<le> buffer_len msg"
    using assms(1) by (simp_all add: built_def msg_end_def)
  have len: "stun_message_length (msg\<lparr>buffer := ?b\<rparr>) = Some (of_nat (?e + 8))"
    using P(1) P(5) l fits pad by (simp add: stun_message_length_def stun_getw_len_field)
  have u: "unat (of_nat (?e + 8) :: u16) = ?e + 8"
    using small pad by (simp add: unat_of_nat del: of_nat_add)
  have "stun_fingerprint ?b (?e + 8) (compatibility a = STUN_COMPATIBILITY_WLM2009) =
      Some (fingerprint_value a ?b (?e + 8))"
    by (rule stun_fingerprint_value) (use P(1) l fits in simp_all)
  also have "fingerprint_value a ?b (?e + 8) = fingerprint_value a (buffer msg) (?e + 8)"
    by (rule fingerprint_cong) (use P(1,2) l in auto)
  finally show ?thesis
    using P(1) l fits pad len u assms(3,4)
    by (simp add: append_fingerprint_def append_eq [OF assms(1) fits] wrn_put append_bytes_buffer_def
        del: of_nat_add)
qed

section \<open>What the receiver recomputes\<close>

text \<open>
  The packet that goes out is the used part of the buffer. Its attribute list and its bytes are
  those of the message.
\<close>

definition sent_bytes :: "stun_message \<Rightarrow> bytes" where
  "sent_bytes msg = take (msg_end msg) (buffer msg)"

definition speaks_same :: "stun_agent \<Rightarrow> stun_agent \<Rightarrow> bool" where
  "speaks_same a b \<longleftrightarrow> compatibility b = compatibility a \<and>
     has_flag b STUN_AGENT_USAGE_NO_ALIGNED_ATTRIBUTES =
       has_flag a STUN_AGENT_USAGE_NO_ALIGNED_ATTRIBUTES \<and>
     has_flag b STUN_AGENT_USAGE_USE_FINGERPRINT = has_flag a STUN_AGENT_USAGE_USE_FINGERPRINT"

lemma packet_received:
  fixes msg msg0 :: stun_message
  assumes "sendable msg" and "msg_agent msg = Some (conf_of a)" and "msg_attrs msg = Some as"
    and "speaks_same a b"
  defines "m \<equiv> received_message b msg0 (sent_bytes msg) (msg_end msg)"
  shows "length (sent_bytes msg) = msg_end msg" "built m" "msg_end m = msg_end msg"
    "msg_attrs m = Some as" "ms_swap (msg_agent m) = ms_swap (msg_agent msg)"
    "i < msg_end msg \<Longrightarrow> buffer m ! i = buffer msg ! i" "buffer m = sent_bytes msg"
proof -
  let ?e = "msg_end msg"
  have b: "built msg" using assms(1) by (simp add: sendable_def)
  then have l: "?e \<le> length (buffer msg)" "20 \<le> ?e" "?e < 65536" "length (buffer msg) = buffer_len msg"
    and v: "validate_attributes (\<not> no_aligned (msg_agent msg)) (buffer msg) 20 (?e - 20) = Some True"
    by (simp_all add: built_def msg_end_def)
  show lp: "length (sent_bytes msg) = ?e" using l by (simp add: sent_bytes_def)
  show bm: "buffer m = sent_bytes msg" by (simp add: m_def received_message_def)
  have bl: "buffer_len m = ?e" by (simp add: m_def received_message_def)
  show nth: "buffer m ! i = buffer msg ! i" if "i < ?e" for i
    using that l by (simp add: bm sent_bytes_def)
  have nal: "no_aligned (msg_agent m) = no_aligned (msg_agent msg)"
    and comp: "compatibility b = compatibility a"
    using assms(2,4)
    by (auto simp: m_def received_message_def no_aligned_def conf_of_def has_flag_def speaks_same_def)
  show "ms_swap (msg_agent m) = ms_swap (msg_agent msg)"
    using comp assms(2) by (simp add: m_def received_message_def ms_swap_def fun_eq_iff conf_of_def)
  have lf: "len_field (buffer m) = len_field (buffer msg)"
    using nth [of 2] nth [of 3] l(2) by (simp add: len_field_def)
  then show em: "msg_end m = ?e" by (simp add: msg_end_def)
  have "validate_attributes (\<not> no_aligned (msg_agent msg)) (buffer m) 20 (?e - 20) =
      validate_attributes (\<not> no_aligned (msg_agent msg)) (buffer msg) 20 (?e - 20)"
    by (rule validate_attributes_cong) (use nth l lp bm in auto)
  with v show bu: "built m"
    using lf l lp bl by (simp add: built_def nal bm msg_end_def)
  have p: "parse_attrs (no_aligned (msg_agent msg)) (buffer msg) ?e 20 = Some as"
    using assms(3) built_length [OF b] by (simp add: msg_attrs_def)
  have "parse_attrs (no_aligned (msg_agent msg)) (buffer msg) ?e 20 =
      parse_attrs (no_aligned (msg_agent msg)) (buffer m) ?e 20"
    by (rule parse_attrs_cong) (use nth l lp bm v in auto)
  with p show "msg_attrs m = Some as"
    using built_length [OF bu] by (simp add: msg_attrs_def em nal)
qed

section \<open>Protected messages\<close>

definition with_fingerprint :: "stun_agent \<Rightarrow> bool" where
  "with_fingerprint a \<longleftrightarrow> uses_cookie a \<and> has_flag a STUN_AGENT_USAGE_USE_FINGERPRINT"

definition add_code :: "stun_agent \<Rightarrow> stun_message \<Rightarrow> bytes \<Rightarrow> stun_message" where
  "add_code a msg k = msg\<lparr>buffer := append_bytes_buffer msg STUN_ATTRIBUTE_MESSAGE_INTEGRITY
     (integrity_code a (buffer msg) (msg_end msg) k)\<rparr>"

definition add_fingerprint :: "stun_agent \<Rightarrow> stun_message \<Rightarrow> stun_message" where
  "add_fingerprint a msg =
    (if with_fingerprint a then msg\<lparr>buffer := append_bytes_buffer msg STUN_ATTRIBUTE_FINGERPRINT
       (host_bytes32 (fingerprint_value a (buffer msg) (msg_end msg + 8)))\<rparr> else msg)"

lemma length_integrity_code [simp]: "length (integrity_code a b e k) = 20"
  by (simp add: integrity_code_def)

lemma ms_swap_protection [simp]:
  "ms_swap ag STUN_ATTRIBUTE_MESSAGE_INTEGRITY = STUN_ATTRIBUTE_MESSAGE_INTEGRITY"
  "ms_swap ag STUN_ATTRIBUTE_FINGERPRINT = STUN_ATTRIBUTE_FINGERPRINT"
  "ms_swap ag STUN_ATTRIBUTE_USERNAME = STUN_ATTRIBUTE_USERNAME"
  by (auto simp: ms_swap_def split: option.splits)

lemma append_len_multiple: "len mod 4 = 0 \<Longrightarrow> len < 65536 \<Longrightarrow> append_len msg len = len"
  by (simp add: append_len_def stun_align_eq stun_padding_if)

lemma add_code_props:
  assumes "sendable msg" and "room_for msg 20" and "msg_attrs msg = Some as"
  shows "sendable (add_code a msg k)" "msg_end (add_code a msg k) = msg_end msg + 24"
    "msg_attrs (add_code a msg k) =
       Some (as @ [(STUN_ATTRIBUTE_MESSAGE_INTEGRITY, msg_end msg + 4, 20)])"
    "rdn (buffer (add_code a msg k)) (msg_end msg + 4) 20 =
       Some (integrity_code a (buffer msg) (msg_end msg) k)"
    "i < msg_end msg \<Longrightarrow> i \<noteq> 2 \<Longrightarrow> i \<noteq> 3 \<Longrightarrow> buffer (add_code a msg k) ! i = buffer msg ! i"
    "length (buffer (add_code a msg k)) = length (buffer msg)"
    "msg_agent (add_code a msg k) = msg_agent msg" "buffer_len (add_code a msg k) = buffer_len msg"
proof -
  let ?d = "integrity_code a (buffer msg) (msg_end msg) k"
  have b: "built msg" "0 < msg_end msg"
    using assms(1) by (simp_all add: sendable_def msg_end_def)
  have r: "room_for msg (length ?d)" using assms(2) by simp
  note B = append_bytes_built [OF b(1) r assms(3), where t = STUN_ATTRIBUTE_MESSAGE_INTEGRITY]
  show "sendable (add_code a msg k)"
    using assms(1) B(1) B(5) [of 0] b(2) by (simp add: sendable_def add_code_def)
  show "msg_end (add_code a msg k) = msg_end msg + 24"
    using B(2) by (simp add: add_code_def append_pad_multiple)
  show "msg_attrs (add_code a msg k) =
      Some (as @ [(STUN_ATTRIBUTE_MESSAGE_INTEGRITY, msg_end msg + 4, 20)])"
    using B(3) by (simp add: add_code_def append_len_multiple)
  show "rdn (buffer (add_code a msg k)) (msg_end msg + 4) 20 = Some ?d"
    using B(4) by (simp add: add_code_def)
  show "buffer (add_code a msg k) ! i = buffer msg ! i" if "i < msg_end msg" "i \<noteq> 2" "i \<noteq> 3"
    using B(5) that by (simp add: add_code_def)
  show "length (buffer (add_code a msg k)) = length (buffer msg)"
    using B(1) b(1) by (simp add: add_code_def built_def)
qed (simp_all add: add_code_def)

lemma add_fingerprint_props:
  assumes "sendable msg" and "room_for msg 4" and "msg_attrs msg = Some as"
  shows "sendable (add_fingerprint a msg)"
    "msg_end (add_fingerprint a msg) = msg_end msg + (if with_fingerprint a then 8 else 0)"
    "msg_attrs (add_fingerprint a msg) = Some (as @
       (if with_fingerprint a then [(STUN_ATTRIBUTE_FINGERPRINT, msg_end msg + 4, 4)] else []))"
    "with_fingerprint a \<Longrightarrow> rdn (buffer (add_fingerprint a msg)) (msg_end msg + 4) 4 =
       Some (host_bytes32 (fingerprint_value a (buffer msg) (msg_end msg + 8)))"
    "i < msg_end msg \<Longrightarrow> i \<noteq> 2 \<Longrightarrow> i \<noteq> 3 \<Longrightarrow> buffer (add_fingerprint a msg) ! i = buffer msg ! i"
    "length (buffer (add_fingerprint a msg)) = length (buffer msg)"
    "msg_agent (add_fingerprint a msg) = msg_agent msg"
proof -
  let ?d = "host_bytes32 (fingerprint_value a (buffer msg) (msg_end msg + 8))"
  have b: "built msg" "0 < msg_end msg"
    using assms(1) by (simp_all add: sendable_def msg_end_def)
  have r: "room_for msg (length ?d)" using assms(2) by simp
  note B = append_bytes_built [OF b(1) r assms(3), where t = STUN_ATTRIBUTE_FINGERPRINT]
  show "sendable (add_fingerprint a msg)"
    using assms(1) B(1) B(5) [of 0] b(2) by (simp add: sendable_def add_fingerprint_def)
  show "msg_end (add_fingerprint a msg) = msg_end msg + (if with_fingerprint a then 8 else 0)"
    using B(2) by (simp add: add_fingerprint_def append_pad_multiple)
  show "msg_attrs (add_fingerprint a msg) = Some (as @
      (if with_fingerprint a then [(STUN_ATTRIBUTE_FINGERPRINT, msg_end msg + 4, 4)] else []))"
    using B(3) assms(3) by (simp add: add_fingerprint_def append_len_multiple)
  show "rdn (buffer (add_fingerprint a msg)) (msg_end msg + 4) 4 = Some ?d" if "with_fingerprint a"
    using B(4) that by (simp add: add_fingerprint_def)
  show "buffer (add_fingerprint a msg) ! i = buffer msg ! i" if "i < msg_end msg" "i \<noteq> 2" "i \<noteq> 3"
    using B(5) that by (simp add: add_fingerprint_def)
  show "length (buffer (add_fingerprint a msg)) = length (buffer msg)"
    using B(1) b(1) by (simp add: add_fingerprint_def built_def)
qed (simp_all add: add_fingerprint_def)

definition protected :: "stun_agent \<Rightarrow> stun_message \<Rightarrow> bytes \<Rightarrow> stun_message" where
  "protected a msg k = add_fingerprint a (add_code a msg k)"

text \<open>Room for both attributes.\<close>

definition room_to_protect :: "stun_message \<Rightarrow> bool" where
  "room_to_protect msg \<longleftrightarrow> msg_end msg + 32 \<le> buffer_len msg \<and> msg_end msg + 32 < 65536"

lemma room_to_protectD:
  assumes "sendable msg" and "room_to_protect msg" and "msg_attrs msg = Some as"
  shows "room_for msg 20" "room_for (add_code a msg k) 4"
proof -
  show r: "room_for msg 20"
    using assms(2) by (simp add: room_to_protect_def append_pad_multiple)
  show "room_for (add_code a msg k) 4"
    using assms(2) add_code_props(2,8) [OF assms(1) r assms(3)]
    by (simp add: room_to_protect_def append_pad_multiple)
qed

text \<open>Finishing a message with a short-term key protects it.\<close>

lemma finish_protects:
  assumes "sendable msg" and "room_to_protect msg" and "msg_attrs msg = Some as"
    and "msg_key msg = None \<and> key = Some k \<or> msg_key msg = Some k"
    and "\<not> has_flag a STUN_AGENT_USAGE_LONG_TERM_CREDENTIALS"
    and "long_term_valid msg = False" and "length (env_stack env) = 64" and "length k + 64 < 2 ^ 32"
    and "stun_message_get_class msg = Some c" and "c = STUN_REQUEST \<longrightarrow> (\<exists>s \<in> set (sent_ids a). \<not> saved_valid s)"
  shows "\<exists>a'. stun_agent_finish_message env a msg key =
    Some (msg_end (protected a msg k), (protected a msg k)\<lparr>msg_key := Some k\<rparr>, a') \<and>
    (if c = STUN_REQUEST
     then \<exists>idx. find_index (\<lambda>s. \<not> saved_valid s) (sent_ids a) = Some idx \<and>
       save_request a (protected a msg k) idx (Some k) = Some a'
     else a' = a)"
proof -
  note R = room_to_protectD(1) [OF assms(1-3)] room_to_protectD(2) [OF assms(1-3), of a k]
  note C = add_code_props [OF assms(1) R(1) assms(3), where a = a and k = k]
  note F = add_fingerprint_props [OF C(1) R(2) C(3), where a = a]
  have b: "built msg" "built (add_code a msg k)" "built (protected a msg k)"
    using assms(1) C(1) F(1) by (simp_all add: sendable_def protected_def)
  have ai: "append_integrity env a msg k = Some (True, add_code a msg k)"
    using append_integrity_eq [OF b(1) R(1) assms(7,8)] by (simp add: add_code_def)
  have af: "append_fingerprint a (add_code a msg k) = Some (True, protected a msg k)"
    using append_fingerprint_eq [OF b(2) R(2)]
    by (cases "with_fingerprint a")
      (auto simp: protected_def add_fingerprint_def with_fingerprint_def append_fingerprint_def)
  have len: "stun_message_length (protected a msg k) = Some (of_nat (msg_end (protected a msg k)))"
    "unat (of_nat (msg_end (protected a msg k)) :: u16) = msg_end (protected a msg k)"
    using built_length [OF b(3)] by simp_all
  have fk: "finish_key env a msg k = Some (Some k, msg)"
    using assms(5,6) by (simp add: finish_key_def)
  obtain i m where im: "stun_message_id (protected a msg k) = Some i"
    "stun_message_get_method (protected a msg k) = Some m"
    using wf_message_readable(3,4) [of "protected a msg k"] b(3)
    by (auto simp: built_def wf_message_def)
  show ?thesis
  proof (cases "c = STUN_REQUEST")
    case True
    with assms(10) obtain idx where idx: "find_index (\<lambda>s. \<not> saved_valid s) (sent_ids a) = Some idx"
      by (cases "find_index (\<lambda>s. \<not> saved_valid s) (sent_ids a)") (auto simp: find_index_None)
    show ?thesis
      using assms(4,9) True idx find_index_Some(1) [OF idx]
      by (elim disjE) (simp_all add: stun_agent_finish_message_def fk ai af len save_request_def im Let_def)
  next
    case False
    then show ?thesis
      using assms(4,9) by (elim disjE) (simp_all add: stun_agent_finish_message_def fk ai af len Let_def)
  qed
qed

section \<open>The receiver's side\<close>

text \<open>The list of attributes of a protected message, and what the lookups find in it.\<close>

lemma protected_props:
  fixes a :: stun_agent and k :: bytes
  assumes "sendable msg" and "room_to_protect msg" and "msg_attrs msg = Some as"
  defines "p \<equiv> protected a msg k" and "e \<equiv> msg_end msg"
  shows "sendable p" "msg_end p = e + 24 + (if with_fingerprint a then 8 else 0)"
    "msg_attrs p = Some (as @ (STUN_ATTRIBUTE_MESSAGE_INTEGRITY, e + 4, 20) #
       (if with_fingerprint a then [(STUN_ATTRIBUTE_FINGERPRINT, e + 28, 4)] else []))"
    "rdn (buffer p) (e + 4) 20 = Some (integrity_code a (buffer msg) e k)"
    "i < e \<Longrightarrow> i \<noteq> 2 \<Longrightarrow> i \<noteq> 3 \<Longrightarrow> buffer p ! i = buffer msg ! i"
    "with_fingerprint a \<Longrightarrow> rdn (buffer p) (e + 28) 4 =
       Some (host_bytes32 (fingerprint_value a (buffer p) (e + 32)))"
    "msg_agent p = msg_agent msg" "length (buffer p) = length (buffer msg)"
proof -
  note R = room_to_protectD(1) [OF assms(1-3)] room_to_protectD(2) [OF assms(1-3), of a k]
  note C = add_code_props [OF assms(1) R(1) assms(3), where a = a and k = k]
  note F = add_fingerprint_props [OF C(1) R(2) C(3), where a = a]
  have l: "e + 24 \<le> length (buffer msg)" "20 \<le> e"
    using C(1,2,6) assms(1) by (simp_all add: sendable_def built_def msg_end_def e_def)
  show "sendable p" "msg_agent p = msg_agent msg" "length (buffer p) = length (buffer msg)"
    using F(1,6,7) C(6,7) by (simp_all add: p_def protected_def)
  show "msg_end p = e + 24 + (if with_fingerprint a then 8 else 0)"
    using F(2) C(2) by (simp add: p_def protected_def e_def)
  show "msg_attrs p = Some (as @ (STUN_ATTRIBUTE_MESSAGE_INTEGRITY, e + 4, 20) #
      (if with_fingerprint a then [(STUN_ATTRIBUTE_FINGERPRINT, e + 28, 4)] else []))"
    using F(3) C(2) by (simp add: p_def protected_def e_def)
  show "buffer p ! i = buffer msg ! i" if "i < e" "i \<noteq> 2" "i \<noteq> 3"
    using F(5) [of i] C(2) C(5) [of i] that by (simp add: p_def protected_def e_def)
  have "take 20 (drop (e + 4) (buffer p)) = take 20 (drop (e + 4) (buffer (add_code a msg k)))"
    by (rule nth_equalityI) (use F(5,6) C(2,6) l in \<open>auto simp: p_def protected_def e_def\<close>)
  then show "rdn (buffer p) (e + 4) 20 = Some (integrity_code a (buffer msg) e k)"
    using C(4,6) F(6) l by (simp add: rdn_def p_def protected_def e_def)
  show "rdn (buffer p) (e + 28) 4 = Some (host_bytes32 (fingerprint_value a (buffer p) (e + 32)))"
    if "with_fingerprint a"
  proof -
    have "fingerprint_value a (buffer p) (e + 24 + 8) =
        fingerprint_value a (buffer (add_code a msg k)) (e + 24 + 8)"
      by (rule fingerprint_cong) (use F(5,6) C(2,6) l in \<open>auto simp: p_def protected_def e_def\<close>)
    then show ?thesis
      using F(4) [OF that] C(2) by (simp add: p_def protected_def e_def add.assoc)
  qed
qed

lemma lookup_reaches:
  "reaches ty as \<Longrightarrow> lookup_attr ty (as @ bs) = lookup_attr ty bs"
  by (induction ty as rule: lookup_attr.induct) (auto simp: reaches_def)

definition unprotected :: "attr list \<Rightarrow> bool" where
  "unprotected as \<longleftrightarrow> list_all (\<lambda>(t, p, l). t \<noteq> STUN_ATTRIBUTE_MESSAGE_INTEGRITY \<and>
     t \<noteq> STUN_ATTRIBUTE_FINGERPRINT) as"

lemma unprotected_reaches:
  "unprotected as \<Longrightarrow> reaches STUN_ATTRIBUTE_MESSAGE_INTEGRITY as"
  "unprotected as \<Longrightarrow> reaches STUN_ATTRIBUTE_FINGERPRINT as"
  by (auto simp: unprotected_def reaches_def stops_search_def list_all_iff)

lemma receiver_integrity:
  fixes msg0 :: stun_message
  assumes "sendable msg" and "room_to_protect msg" and "msg_attrs msg = Some as" and "unprotected as"
    and "msg_agent msg = Some (conf_of a)" and "speaks_same a b"
    and "\<not> has_flag b STUN_AGENT_USAGE_LONG_TERM_CREDENTIALS"
    and "length (env_stack env) = 64" and "length k + 64 < 2 ^ 32"
  defines "p \<equiv> protected a msg k"
  defines "m \<equiv> received_message b msg0 (sent_bytes p) (msg_end p)"
  shows "check_integrity env b m k ltk ltv = Some (None, m\<lparr>msg_key := Some k\<rparr>)"
proof -
  let ?e = "msg_end msg"
  note P = protected_props [OF assms(1-3), where a = a and k = k, folded p_def]
  have ag: "msg_agent p = Some (conf_of a)" using P(7) assms(5) by simp
  note M = packet_received(1) [OF P(1) ag P(3) assms(6)]
    packet_received(2-7) [OF P(1) ag P(3) assms(6), where ?msg0.0 = msg0, folded m_def]
  have l: "?e + 24 \<le> msg_end p" "20 \<le> ?e" "msg_end p \<le> length (buffer p)" "msg_end p < 65536"
    using P(1,2) by (simp_all add: sendable_def built_def msg_end_def)
  have f: "stun_message_find m STUN_ATTRIBUTE_MESSAGE_INTEGRITY = Some (Some (?e + 4, 20))"
    using find_msg_attrs [OF M(4), of STUN_ATTRIBUTE_MESSAGE_INTEGRITY]
      lookup_reaches [OF unprotected_reaches(1) [OF assms(4)]] by simp
  have "take 20 (drop (?e + 4) (buffer m)) = take 20 (drop (?e + 4) (buffer p))"
    by (rule nth_equalityI) (use M(1,6,7) l in auto)
  then have r: "rdn (buffer m) (?e + 4) 20 = Some (integrity_code a (buffer msg) ?e k)"
    using P(4) M(1,7) l by (simp add: rdn_def split: if_splits)
  have comp: "compatibility b = compatibility a"
    "has_flag b STUN_AGENT_USAGE_USE_FINGERPRINT = has_flag a STUN_AGENT_USAGE_USE_FINGERPRINT"
    using assms(6) by (simp_all add: speaks_same_def)
  have ml: "(if compatibility b = STUN_COMPATIBILITY_WLM2009 then msg_end p - 20 else ?e + 4) =
      sent_msg_len a ?e"
    using P(2) by (auto simp: sent_msg_len_def comp with_fingerprint_def uses_cookie_def)
  have "stun_sha1 (env_stack env) (buffer m) (?e + 24) ml k pad =
      Some (hmac_ref k (integrity_text (buffer m) (?e + 24) ml pad))" for ml pad
    by (rule stun_sha1_hmac) (use M(1,7) l assms(8,9) in simp_all)
  moreover have "integrity_text (buffer m) (?e + 24) ml pad = integrity_text (buffer msg) (?e + 24) ml pad"
    for ml pad
  proof -
    have "integrity_text (buffer m) (?e + 24) ml pad = integrity_text (buffer p) (?e + 24) ml pad"
      by (rule integrity_text_cong; rule nth_equalityI) (use M(1,6,7) l in auto)
    also have "\<dots> = integrity_text (buffer msg) (?e + 24) ml pad"
      by (rule covered_cong) (use P(5,8) l in auto)
    finally show ?thesis .
  qed
  ultimately have "expected_sha env b m (?e + 4) k = Some (integrity_code a (buffer msg) ?e k)"
    using built_length [OF M(2)] M(3) ml comp(1)
    by (auto simp: expected_sha_def integrity_code_def add.assoc split: if_splits)
  with f r assms(7) show ?thesis
    by (simp add: check_integrity_def verify_sha_def)
qed

lemma receiver_fingerprint:
  fixes msg0 :: stun_message and k :: bytes
  assumes "sendable msg" and "room_to_protect msg" and "msg_attrs msg = Some as" and "unprotected as"
    and "msg_agent msg = Some (conf_of a)" and "speaks_same a b" and "with_fingerprint a"
  defines "p \<equiv> protected a msg k"
  defines "m \<equiv> received_message b msg0 (sent_bytes p) (msg_end p)"
  shows "fingerprint_ok b m = Some True"
proof -
  let ?e = "msg_end msg"
  note P = protected_props [OF assms(1-3), where a = a and k = k, folded p_def]
  have ag: "msg_agent p = Some (conf_of a)" using P(7) assms(5) by simp
  note M = packet_received(1) [OF P(1) ag P(3) assms(6)]
    packet_received(2-7) [OF P(1) ag P(3) assms(6), where ?msg0.0 = msg0, folded m_def]
  have l: "?e + 32 = msg_end p" "20 \<le> ?e" "msg_end p \<le> length (buffer p)" "msg_end p < 65536"
    using P(1,2) assms(7) by (simp_all add: sendable_def built_def msg_end_def)
  have "lookup_attr STUN_ATTRIBUTE_FINGERPRINT (as @ (STUN_ATTRIBUTE_MESSAGE_INTEGRITY, ?e + 4, 20) #
      [(STUN_ATTRIBUTE_FINGERPRINT, ?e + 28, 4)]) = Some (?e + 28, 4)"
    by (simp add: lookup_reaches [OF unprotected_reaches(2) [OF assms(4)]] stops_search_def)
  then have f: "stun_message_find m STUN_ATTRIBUTE_FINGERPRINT = Some (Some (?e + 28, 4))"
    using find_msg_attrs [OF M(4), of STUN_ATTRIBUTE_FINGERPRINT] assms(7) by simp
  have "take 4 (drop (?e + 28) (buffer m)) = take 4 (drop (?e + 28) (buffer p))"
    by (rule nth_equalityI) (use M(1,6,7) l in auto)
  then have r: "rdn (buffer m) (?e + 28) 4 = Some (host_bytes32 (fingerprint_value a (buffer p) (?e + 32)))"
    using P(6) [OF assms(7)] M(1,7) l by (simp add: rdn_def split: if_splits)
  then have "stun_message_find32 m STUN_ATTRIBUTE_FINGERPRINT = Some (STUN_MESSAGE_RETURN_SUCCESS,
      Some (htonl (fingerprint_value a (buffer p) (?e + 32))))"
    using f by (simp add: stun_message_find32_def of_host_bytes32_host_bytes32)
  moreover have "fingerprint_value b (buffer m) (?e + 32) = fingerprint_value a (buffer p) (?e + 32)"
  proof -
    have "take 2 (buffer m) = take 2 (buffer p)"
      "take (?e + 32 - 12) (drop 4 (buffer m)) = take (?e + 32 - 12) (drop 4 (buffer p))"
      by (rule nth_equalityI; use M(1,6,7) l in auto)+
    then show ?thesis
      using assms(6) by (simp add: fingerprint_value_def fingerprint_text_def speaks_same_def)
  qed
  moreover have "stun_fingerprint (buffer m) (?e + 32) (compatibility b = STUN_COMPATIBILITY_WLM2009) =
      Some (fingerprint_value b (buffer m) (?e + 32))"
    by (rule stun_fingerprint_value) (use M(1,7) l in simp_all)
  ultimately show ?thesis
    using built_length [OF M(2)] M(3) l(1) by (simp add: fingerprint_ok_def)
qed

text \<open>
  The first half of the validation of a protected message: it is well formed, carries the cookie
  and the right fingerprint, so only the credentials are left to check.
\<close>

lemma protected_front:
  assumes msg: "sendable msg" "room_to_protect msg" "msg_attrs msg = Some as" "unprotected as"
      "msg_agent msg = Some (conf_of a)" and same: "speaks_same a b"
    and cookie: "uses_cookie b \<longrightarrow>
      stun_message_has_cookie (received_message b msg0 (sent_bytes p) (msg_end p)) = Some True"
    and p: "p = protected a msg k"
  shows "stun_agent_validate env b msg0 (sent_bytes p) (msg_end p) v =
    (let m = received_message b msg0 (sent_bytes p) (msg_end p) in do {
       class \<leftarrow> stun_message_get_class m;
       if class = STUN_RESPONSE \<or> class = STUN_ERROR then do {
         method \<leftarrow> stun_message_get_method m;
         msg_id \<leftarrow> stun_message_id m;
         case find_index (saved_matches method msg_id) (sent_ids b) of
           None \<Rightarrow> Some (STUN_VALIDATION_UNMATCHED_RESPONSE, m, b)
         | Some i \<Rightarrow> validate_credentials env b m v class (Some i) }
       else validate_credentials env b m v class None })"
proof -
  let ?m = "received_message b msg0 (sent_bytes p) (msg_end p)"
  note P = protected_props [OF msg(1-3), where a = a and k = k, folded p]
  have ag: "msg_agent p = Some (conf_of a)" using P(7) msg(5) by simp
  note M = packet_received(1) [OF P(1) ag P(3) same]
    packet_received(2-7) [OF P(1) ag P(3) same, where ?msg0.0 = msg0]
  have nal: "has_flag b STUN_AGENT_USAGE_NO_ALIGNED_ATTRIBUTES = no_aligned (msg_agent p)"
    using ag same by (auto simp: no_aligned_def speaks_same_def conf_of_def has_flag_def)
  have len: "stun_message_validate_buffer_length (sent_bytes p) (msg_end p)
      (\<not> has_flag b STUN_AGENT_USAGE_NO_ALIGNED_ATTRIBUTES) = Some (int (msg_end p))"
    using sendable_accepted [OF P(1)] nal by (simp add: sent_bytes_def)
  have pos: "20 \<le> msg_end p" "msg_end p < 65536"
    using P(1) by (simp_all add: sendable_def built_def msg_end_def)
  then have cast: "signed_take_bit 31 (int (msg_end p)) = int (msg_end p)"
    by (intro signed_take_bit_int_eq_self) simp_all
  obtain ck where ck: "stun_message_has_cookie ?m = Some ck"
    using wf_message_readable(5) [of ?m] M(2) by (auto simp: built_def wf_message_def)
  have fp: "(if uses_cookie b \<and> has_flag b STUN_AGENT_USAGE_USE_FINGERPRINT
      then fingerprint_ok b ?m else Some True) = Some True"
    using receiver_fingerprint [OF msg(1-5) same, where ?msg0.0 = msg0 and k = k] same
    by (auto simp: p with_fingerprint_def uses_cookie_def speaks_same_def)
  show ?thesis
    using len cast pos ck cookie fp unfolding stun_agent_validate_def Let_def by auto
qed

definition all_known :: "stun_agent \<Rightarrow> attr list \<Rightarrow> bool" where
  "all_known b as \<longleftrightarrow>
     list_all (\<lambda>(t, p, l). stun_optional t \<or> knows (known_attributes b) t) as"

text \<open>What the second half of the validation finds in a protected message.\<close>

lemma protected_contents:
  fixes msg0 :: stun_message and k :: bytes
  assumes msg: "sendable msg" "room_to_protect msg" "msg_attrs msg = Some as" "unprotected as"
      "msg_agent msg = Some (conf_of a)" and same: "speaks_same a b"
    and plain: "\<not> has_flag b STUN_AGENT_USAGE_LONG_TERM_CREDENTIALS"
    and known: "0 \<in> set (known_attributes b)" "knows (known_attributes b) STUN_ATTRIBUTE_MESSAGE_INTEGRITY"
    and key: "length k + 64 < 2 ^ 32" "length (env_stack env) = 64"
  defines "m \<equiv> received_message b msg0 (sent_bytes (protected a msg k)) (msg_end (protected a msg k))"
  shows "stun_message_has_attribute m STUN_ATTRIBUTE_MESSAGE_INTEGRITY = Some True"
    "check_integrity env b m k ltk ltv = Some (None, m\<lparr>msg_key := Some k\<rparr>)"
    "lacks_credentials b m \<noteq> None"
    "\<exists>un. stun_agent_find_unknowns b (m\<lparr>msg_key := Some k\<rparr>) 1 = Some un \<and> (un = [] \<longleftrightarrow> all_known b as)"
proof -
  let ?p = "protected a msg k"
  note P = protected_props [OF msg(1-3), where a = a and k = k]
  have ag: "msg_agent ?p = Some (conf_of a)" using P(7) msg(5) by simp
  note M = packet_received(2-7) [OF P(1) ag P(3) same, where ?msg0.0 = msg0, folded m_def]
  have nal: "has_flag b STUN_AGENT_USAGE_NO_ALIGNED_ATTRIBUTES = no_aligned (msg_agent m)"
    by (simp add: m_def no_aligned_def received_message_def conf_of_def has_flag_def)
  have "stun_message_find m STUN_ATTRIBUTE_MESSAGE_INTEGRITY = Some (Some (msg_end msg + 4, 20))"
    using find_msg_attrs [OF M(3), of STUN_ATTRIBUTE_MESSAGE_INTEGRITY]
      lookup_reaches [OF unprotected_reaches(1) [OF msg(4)]] by simp
  then show "stun_message_has_attribute m STUN_ATTRIBUTE_MESSAGE_INTEGRITY = Some True"
    by (simp add: stun_message_has_attribute_def)
  show "check_integrity env b m k ltk ltv = Some (None, m\<lparr>msg_key := Some k\<rparr>)"
    using receiver_integrity [OF msg(1-5) same plain key(2,1), where ?msg0.0 = msg0 and ltk = ltk and ltv = ltv]
    by (simp add: m_def)
  obtain c where "stun_message_get_class m = Some c"
    using wf_message_readable(2) [of m] M(1) by (auto simp: built_def wf_message_def)
  then show "lacks_credentials b m \<noteq> None"
    using find_msg_attrs [OF M(3)] by (simp add: lacks_credentials_def stun_message_has_attribute_def)
  have as: "msg_attrs (m\<lparr>msg_key := Some k\<rparr>) = msg_attrs m"
    by (simp add: msg_attrs_def stun_message_length_def)
  have opt: "stun_optional STUN_ATTRIBUTE_FINGERPRINT" by (simp add: stun_optional_def)
  show "\<exists>un. stun_agent_find_unknowns b (m\<lparr>msg_key := Some k\<rparr>) 1 = Some un \<and> (un = [] \<longleftrightarrow> all_known b as)"
    using find_unknowns_eq [of "m\<lparr>msg_key := Some k\<rparr>" _ b 1] M(3) as known opt nal
    by (simp add: all_known_def list_all_iff filter_empty_conv case_prod_unfold split: if_split)
qed

text \<open>
  A request protected with a short-term key is accepted by an agent of the same kind whose
  validater gives that key for the user name; only attributes it does not know can still be
  reported.
\<close>

lemma protected_request_accepted:
  assumes msg: "sendable msg" "room_to_protect msg" "msg_attrs msg = Some as" "unprotected as"
      "msg_agent msg = Some (conf_of a)" "stun_message_get_class (received_message b msg0 (sent_bytes p) (msg_end p)) = Some STUN_REQUEST"
    and user: "attr_value (received_message b msg0 (sent_bytes p) (msg_end p)) STUN_ATTRIBUTE_USERNAME = Some (Some u)"
    and agents: "speaks_same a b" "\<not> has_flag b STUN_AGENT_USAGE_LONG_TERM_CREDENTIALS"
      "\<not> has_flag b STUN_AGENT_USAGE_IGNORE_CREDENTIALS" "0 \<in> set (known_attributes b)"
      "knows (known_attributes b) STUN_ATTRIBUTE_MESSAGE_INTEGRITY"
    and cookie: "uses_cookie b \<longrightarrow>
      stun_message_has_cookie (received_message b msg0 (sent_bytes p) (msg_end p)) = Some True"
    and key: "v None (Some u) = Some (Some k)" "k \<noteq> []" "length k + 64 < 2 ^ 32"
      "length (env_stack env) = 64"
    and p: "p = protected a msg k"
  shows "stun_agent_validate env b msg0 (sent_bytes p) (msg_end p) (Some v) =
    Some (if all_known b as then STUN_VALIDATION_SUCCESS else STUN_VALIDATION_UNKNOWN_REQUEST_ATTRIBUTE,
      (received_message b msg0 (sent_bytes p) (msg_end p))\<lparr>msg_key := Some k\<rparr>, b)"
proof -
  let ?m = "received_message b msg0 (sent_bytes p) (msg_end p)"
  note C = protected_contents [OF msg(1-5) agents(1,2,4,5) key(3,4), where ?msg0.0 = msg0, folded p]
  have hu: "stun_message_has_attribute ?m STUN_ATTRIBUTE_USERNAME = Some True"
    using user by (auto elim!: attr_valueE simp: stun_message_has_attribute_def)
  have ig: "ignore_credentials b ?m = Some False"
    using msg(6) agents(3) by (simp add: ignore_credentials_def has_error_code_def)
  have la: "lacks_credentials b ?m = Some False"
    using C(3) msg(6) C(1) hu agents(2)
    by (auto simp: lacks_credentials_def split: bind_splits)
  have av: "ask_validater b ?m (Some v) False None = Some (Some (Some k))"
    using C(1) user key(1) by (simp add: ask_validater_def)
  show ?thesis
    using protected_front [OF msg(1-5) agents(1) cookie p, of env "Some v"] msg(6) ig la av C(2) key(2) C(4)
    by (auto simp: validate_credentials_def validate_with_key_def check_key_def release_saved_def)
qed

text \<open>
  A response protected with the key of the request it answers is accepted, and releases the saved
  transaction.
\<close>

lemma protected_response_accepted:
  assumes msg: "sendable msg" "room_to_protect msg" "msg_attrs msg = Some as" "unprotected as"
      "msg_agent msg = Some (conf_of a)"
    and m: "stun_message_get_class (received_message b msg0 (sent_bytes p) (msg_end p)) = Some c"
      "c = STUN_RESPONSE \<or> c = STUN_ERROR"
      "stun_message_get_method (received_message b msg0 (sent_bytes p) (msg_end p)) = Some me"
      "stun_message_id (received_message b msg0 (sent_bytes p) (msg_end p)) = Some tid"
      "ignore_credentials b (received_message b msg0 (sent_bytes p) (msg_end p)) = Some False"
    and agents: "speaks_same a b" "\<not> has_flag b STUN_AGENT_USAGE_LONG_TERM_CREDENTIALS"
      "\<not> has_flag b STUN_AGENT_USAGE_FORCE_VALIDATER" "0 \<in> set (known_attributes b)"
      "knows (known_attributes b) STUN_ATTRIBUTE_MESSAGE_INTEGRITY"
    and cookie: "uses_cookie b \<longrightarrow>
      stun_message_has_cookie (received_message b msg0 (sent_bytes p) (msg_end p)) = Some True"
    and saved: "find_index (saved_matches me tid) (sent_ids b) = Some i" "saved_key (sent_ids b ! i) = Some k"
    and key: "k \<noteq> []" "length k + 64 < 2 ^ 32" "length (env_stack env) = 64"
    and p: "p = protected a msg k"
  shows "stun_agent_validate env b msg0 (sent_bytes p) (msg_end p) v =
    Some (if all_known b as then STUN_VALIDATION_SUCCESS else STUN_VALIDATION_UNKNOWN_ATTRIBUTE,
      (received_message b msg0 (sent_bytes p) (msg_end p))\<lparr>msg_key := Some k\<rparr>, release_saved b (Some i))"
proof -
  let ?m = "received_message b msg0 (sent_bytes p) (msg_end p)"
  note C = protected_contents [OF msg(1-5) agents(1,2,4,5) key(2,3), where ?msg0.0 = msg0, folded p]
  obtain la where la: "lacks_credentials b ?m = Some la" using C(3) by blast
  have av: "ask_validater b ?m v False (Some k) = Some (Some (Some k))"
    using C(1) agents(3) by (simp add: ask_validater_def)
  have un: "stun_agent_find_unknowns (release_saved b (Some i)) = stun_agent_find_unknowns b"
    by (rule ext)+ (simp add: stun_agent_find_unknowns_def release_saved_def has_flag_def)
  show ?thesis
    using protected_front [OF msg(1-5) agents(1) cookie p, of env v] m saved la av C(2) key(1) C(4) un
    by (auto simp: validate_credentials_def validate_with_key_def check_key_def Let_def)
qed

lemma lookup_attr_prefix: "lookup_attr ty as = Some r \<Longrightarrow> lookup_attr ty (as @ bs) = Some r"
  by (induction ty as rule: lookup_attr.induct) (auto split: if_splits)

text \<open>What the receiver reads from the packet is what the sender had put into the message.\<close>

lemma protected_transfer:
  fixes msg0 :: stun_message and k :: bytes
  assumes msg: "sendable msg" "room_to_protect msg" "msg_attrs msg = Some as"
      "msg_agent msg = Some (conf_of a)" and same: "speaks_same a b"
  defines "p \<equiv> protected a msg k"
  defines "m \<equiv> received_message b msg0 (sent_bytes p) (msg_end p)"
  shows "stun_message_get_class m = stun_message_get_class msg"
    "stun_message_has_cookie m = stun_message_has_cookie msg"
    "attr_value msg t = Some (Some u) \<Longrightarrow> attr_value m t = Some (Some u)"
proof -
  let ?e = "msg_end msg"
  note P = protected_props [OF msg(1-3), where a = a and k = k, folded p_def]
  have ag: "msg_agent p = Some (conf_of a)" using P(7) msg(4) by simp
  note M = packet_received(1) [OF P(1) ag P(3) same]
    packet_received(2-7) [OF P(1) ag P(3) same, where ?msg0.0 = msg0, folded m_def]
  have b: "built msg" using msg(1) by (simp add: sendable_def)
  have l: "?e \<le> msg_end p" "20 \<le> ?e" "?e \<le> length (buffer msg)"
    using P(2) b by (simp_all add: built_def msg_end_def)
  have lm: "?e \<le> length (buffer m)" using M(1,7) l(1) by simp
  have nth: "buffer m ! i = buffer msg ! i" if "i < ?e" "i \<noteq> 2" "i \<noteq> 3" for i
    using M(6) [of i] P(5) [OF that] that l(1) by simp
  show "stun_message_get_class m = stun_message_get_class msg"
    unfolding stun_message_get_class_def using nth [of 0] nth [of 1] l lm
    by (subst stun_getw_cong [of _ _ "buffer msg"]) auto
  have "take 16 (drop 4 (buffer m)) = take 16 (drop 4 (buffer msg))"
    by (rule nth_equalityI) (use nth l lm in auto)
  then show "stun_message_has_cookie m = stun_message_has_cookie msg"
    using l lm by (simp add: stun_message_has_cookie_def stun_message_id_def rdn_def)
  assume "attr_value msg t = Some (Some u)"
  then obtain q n where f: "stun_message_find msg t = Some (Some (q, n))"
    and v: "rdn (buffer msg) q (unat n) = Some u" by (rule attr_valueE)
  from f find_msg_attrs [OF msg(3), of t]
  have lk: "lookup_attr (ms_swap (msg_agent msg) t) as = Some (q, n)" by simp
  from built_attrs [OF b] lookup_attr_in [OF lk] msg(3) have q: "24 \<le> q" "q + unat n \<le> ?e" by auto
  have "stun_message_find m t = Some (Some (q, n))"
    using find_msg_attrs [OF M(4), of t] lookup_attr_prefix [OF lk] M(5) P(7) by simp
  moreover have "take (unat n) (drop q (buffer m)) = take (unat n) (drop q (buffer msg))"
    by (rule nth_equalityI) (use nth q l lm in auto)
  ultimately show "attr_value m t = Some (Some u)"
    using v q lm by (simp add: attr_value_def rdn_def split: if_splits)
qed

lemma finish_then_validate:
  assumes msg: "sendable msg" "room_to_protect msg" "msg_attrs msg = Some as" "unprotected as"
      "msg_agent msg = Some (conf_of a)" "msg_key msg = None" "\<not> long_term_valid msg"
      "stun_message_get_class msg = Some STUN_REQUEST"
      "attr_value msg STUN_ATTRIBUTE_USERNAME = Some (Some u)"
      "uses_cookie a \<longrightarrow> stun_message_has_cookie msg = Some True"
    and sender: "\<not> has_flag a STUN_AGENT_USAGE_LONG_TERM_CREDENTIALS"
      "\<exists>s \<in> set (sent_ids a). \<not> saved_valid s"
    and receiver: "speaks_same a b" "\<not> has_flag b STUN_AGENT_USAGE_LONG_TERM_CREDENTIALS"
      "\<not> has_flag b STUN_AGENT_USAGE_IGNORE_CREDENTIALS" "0 \<in> set (known_attributes b)"
      "knows (known_attributes b) STUN_ATTRIBUTE_MESSAGE_INTEGRITY"
    and key: "v None (Some u) = Some (Some k)" "k \<noteq> []" "length k + 64 < 2 ^ 32"
      "length (env_stack env) = 64"
  shows "\<exists>n msg' a' st m'. stun_agent_finish_message env a msg (Some k) = Some (n, msg', a') \<and>
    stun_agent_validate env b msg0 (take n (buffer msg')) n (Some v) = Some (st, m', b) \<and>
    msg_key m' = Some k \<and>
    st = (if all_known b as then STUN_VALIDATION_SUCCESS else STUN_VALIDATION_UNKNOWN_REQUEST_ATTRIBUTE)"
proof -
  let ?p = "protected a msg k"
  note T = protected_transfer [OF msg(1-3,5) receiver(1), where k = k and ?msg0.0 = msg0]
  have lt: "long_term_valid msg = False" using msg(7) by simp
  from finish_protects [OF msg(1-3) _ sender(1) lt key(4,3) msg(8), of "Some k"] msg(6) sender(2) obtain a'
    where f: "stun_agent_finish_message env a msg (Some k) =
      Some (msg_end ?p, ?p\<lparr>msg_key := Some k\<rparr>, a')" by auto
  have cl: "stun_message_get_class (received_message b msg0 (sent_bytes ?p) (msg_end ?p)) = Some STUN_REQUEST"
    using T(1) msg(8) by simp
  have us: "attr_value (received_message b msg0 (sent_bytes ?p) (msg_end ?p)) STUN_ATTRIBUTE_USERNAME =
      Some (Some u)" by (rule T(3) [OF msg(9)])
  have ck: "uses_cookie b \<longrightarrow>
      stun_message_has_cookie (received_message b msg0 (sent_bytes ?p) (msg_end ?p)) = Some True"
    using T(2) msg(10) receiver(1) by (simp add: uses_cookie_def speaks_same_def)
  from protected_request_accepted [where v = v, OF msg(1-5) cl us receiver ck key refl] f show ?thesis
    by (auto simp: sent_bytes_def)
qed

end
