(* ===== verification/Stun_Authentic.thy ===== *)
theory Stun_Authentic
  imports Stun_Auth Stun_Transactions
begin

unbundle bit_operations_syntax

text \<open>
  What acceptance by \<open>stun_agent_validate\<close> means: under short-term credentials, an accepted
  request carries an integrity code that is the HMAC of the message under the key of its user
  name. And what a short integrity attribute at the end of a packet does: the comparison
  reads the twenty bytes of a code whatever the length of the attribute is.
\<close>

section \<open>Accepted requests are authentic\<close>

lemma received_validated:
  assumes "stun_agent_validate env b msg0 buf n v = Some (st, m', b')" and "length buf = n"
    and "st \<noteq> STUN_VALIDATION_NOT_STUN" and "st \<noteq> STUN_VALIDATION_INCOMPLETE_STUN"
  shows "validated (received_message b msg0 buf n)"
proof -
  from assms(1) [unfolded stun_agent_validate_def] obtain len where
    l: "stun_message_validate_buffer_length buf n
      (\<not> has_flag b STUN_AGENT_USAGE_NO_ALIGNED_ATTRIBUTES) = Some len"
    by (elim bind_SomeE)
  from assms l have nz: "len \<noteq> -1" "len \<noteq> 0"
    by (auto simp: stun_agent_validate_def)
  have al: "has_flag b STUN_AGENT_USAGE_NO_ALIGNED_ATTRIBUTES =
      no_aligned (msg_agent (received_message b msg0 buf n))"
    by (simp add: no_aligned_def received_message_def conf_of_def has_flag_def)
  have "0 < len"
  proof -
    show ?thesis
      using l nz validate_buffer_length_eq [of buf "\<not> has_flag b STUN_AGENT_USAGE_NO_ALIGNED_ATTRIBUTES"]
      unfolding assms(2) by (auto split: if_splits bind_splits)
  qed
  then show ?thesis
    using l al assms(2) by (simp add: validated_def received_message_def)
qed

lemma parse_attrs_position:
  "parse_attrs u m mlen off = Some as \<Longrightarrow> (t, p, l) \<in> set as \<Longrightarrow> p < mlen + 4"
  by (induction u m mlen off arbitrary: as rule: parse_attrs.induct)
    (subst (asm) (2) parse_attrs.simps, auto elim!: bind_SomeE split: if_splits)

lemma msg_attrs_position: "msg_attrs m = Some as \<Longrightarrow> (t, p, l) \<in> set as \<Longrightarrow> p < 2 ^ 16 + 4"
proof -
  assume "msg_attrs m = Some as" "(t, p, l) \<in> set as"
  then obtain len :: u16 where "p < unat len + 4"
    by (auto simp: msg_attrs_def elim!: bind_SomeE dest: parse_attrs_position)
  moreover have "unat len < 2 ^ 16" using unsigned_less [where 'a = nat, of len] by simp
  ultimately show ?thesis by linarith
qed

lemma verify_sha_accepts:
  assumes "verify_sha env b m hash k key = Some (None, m1)"
  obtains sha where "expected_sha env b m hash k = Some sha" "rdn (buffer m) hash 20 = Some sha"
    "m1 = m\<lparr>msg_key := Some key\<rparr>"
  using assms by (auto simp: verify_sha_def split: bind_splits if_splits)

lemma expected_sha_hmac:
  assumes "expected_sha env b m p k = Some sha" and "24 \<le> p" and "p + 20 \<le> length (buffer m)"
    and "p < 2 ^ 16 + 20" and "length (env_stack env) = 64" and "length k + 64 < 2 ^ 32"
  shows "\<exists>len. stun_message_length m = Some len \<and> sha = hmac_ref k (integrity_text (buffer m) (p + 20)
    (if compatibility b = STUN_COMPATIBILITY_WLM2009 then unat len - 20 else p)
    (compatibility b \<noteq> STUN_COMPATIBILITY_RFC5389))"
proof -
  from assms(1) obtain len where l: "stun_message_length m = Some len"
    by (auto simp: expected_sha_def split: bind_splits)
  have "stun_sha1 (env_stack env) (buffer m) (p + 20) ml k pad =
      Some (hmac_ref k (integrity_text (buffer m) (p + 20) ml pad))" for ml pad
    by (rule stun_sha1_hmac) (use assms in simp_all)
  with assms(1) l show ?thesis by (simp add: expected_sha_def)
qed

lemma request_authentic:
  assumes val: "stun_agent_validate env b msg0 buf n (Some v) = Some (st, m', b')"
      "accepted_status st" "length buf = n"
    and m: "m = received_message b msg0 buf n" "stun_message_get_class m = Some STUN_REQUEST"
    and flags: "has_flag b STUN_AGENT_USAGE_SHORT_TERM_CREDENTIALS"
      "\<not> has_flag b STUN_AGENT_USAGE_LONG_TERM_CREDENTIALS"
      "\<not> has_flag b STUN_AGENT_USAGE_IGNORE_CREDENTIALS"
    and keys: "\<And>u a. v None u = Some a \<Longrightarrow> \<exists>k. a = Some k \<and> k \<noteq> [] \<and> length k + 64 < 2 ^ 32"
    and stack: "length (env_stack env) = 64"
  shows "\<exists>u k p l len. attr_value m STUN_ATTRIBUTE_USERNAME = Some (Some u) \<and>
    v None (Some u) = Some (Some k) \<and> msg_key m' = Some k \<and>
    stun_message_find m STUN_ATTRIBUTE_MESSAGE_INTEGRITY = Some (Some (p, l)) \<and>
    stun_message_length m = Some len \<and>
    rdn buf p 20 = Some (hmac_ref k (integrity_text buf (p + 20)
      (if compatibility b = STUN_COMPATIBILITY_WLM2009 then unat len - 20 else p)
      (compatibility b \<noteq> STUN_COMPATIBILITY_RFC5389)))"
proof -
  have vd: "validated m"
    unfolding m(1) by (rule received_validated [OF val(1,3)]) (use val(2) in \<open>auto simp: accepted_status_def\<close>)
  have buf: "buffer m = buf" by (simp add: m(1) received_message_def)
  from val(1) [unfolded stun_agent_validate_def Let_def m(1) [symmetric]]
  have cr: "validate_credentials env b m (Some v) STUN_REQUEST None = Some (st, m', b')"
    using val(2) m(2) by (auto simp: accepted_status_def elim!: bind_SomeE split: if_split_asm)
  have ig: "ignore_credentials b m = Some False"
    using m(2) flags by (simp add: ignore_credentials_def has_error_code_def)
  note r = cr [unfolded validate_credentials_def option.case validate_with_key_def ig bind.bind_lunit]
  from r obtain la where la: "lacks_credentials b m = Some la" by (elim bind_SomeE)
  with r val(2) have nla: "\<not> la" by (auto simp: accepted_status_def)
  have at: "stun_message_has_attribute m STUN_ATTRIBUTE_USERNAME = Some True"
    "stun_message_has_attribute m STUN_ATTRIBUTE_MESSAGE_INTEGRITY = Some True"
    using la nla m(2) flags by (auto simp: lacks_credentials_def split: bind_splits)
  from r la nla obtain ans where ans: "ask_validater b m (Some v) False None = Some ans"
    by (auto elim!: bind_SomeE)
  obtain un where un: "attr_value m STUN_ATTRIBUTE_USERNAME = Some un" "ans = v None un"
    using ans at by (auto simp: ask_validater_def split: bind_splits)
  obtain u where u: "un = Some u"
    using un(1) at(1)
    by (auto simp: attr_value_def stun_message_has_attribute_def split: bind_splits option.split_asm)
      metis
  obtain a where "ans = Some a" using r la nla ans val(2) by (cases ans) (auto simp: accepted_status_def)
  with keys un(2) obtain k where k: "ans = Some (Some k)" "k \<noteq> []" "length k + 64 < 2 ^ 32" by metis
  from r la nla ans k obtain verdict m1 where
    ck: "check_integrity env b m k (replicate 16 0) False = Some (verdict, m1)"
    and fin: "verdict = Some st \<or> verdict = None" "m' = m1"
    by (auto simp: check_key_def Let_def elim!: bind_SomeE split: option.split_asm)
  have nv: "verdict = None"
    using ck fin val(2) by (auto simp: accepted_status_def dest: check_integrity_verdict)
  obtain p l where f: "stun_message_find m STUN_ATTRIBUTE_MESSAGE_INTEGRITY = Some (Some (p, l))"
    using at(2) by (auto simp: stun_message_has_attribute_def split: bind_splits)
  with ck nv flags(2) have "verify_sha env b m p k k = Some (None, m1)"
    by (simp add: check_integrity_def)
  then obtain sha where sha: "expected_sha env b m p k = Some sha" "rdn (buffer m) p 20 = Some sha"
    "m1 = m\<lparr>msg_key := Some k\<rparr>" by (rule verify_sha_accepts)
  obtain as where as: "msg_attrs m = Some as"
    "\<forall>(t, p, l) \<in> set as. 24 \<le> p \<and> p + unat l \<le> length (buffer m)"
    using validated_attrs [OF vd] by blast
  have "\<exists>t. (t, p, l) \<in> set as"
    using f find_msg_attrs [OF as(1), of STUN_ATTRIBUTE_MESSAGE_INTEGRITY] lookup_attr_in by force
  then have "24 \<le> p" using as(2) by fastforce
  moreover have "p + 20 \<le> length (buffer m)" using sha(2) by (simp add: mem_simps)
  moreover have "p < 2 ^ 16 + 20"
    using msg_attrs_position [OF as(1)] \<open>\<exists>t. (t, p, l) \<in> set as\<close> by fastforce
  ultimately obtain len where "stun_message_length m = Some len" "sha = hmac_ref k (integrity_text (buffer m) (p + 20)
    (if compatibility b = STUN_COMPATIBILITY_WLM2009 then unat len - 20 else p)
    (compatibility b \<noteq> STUN_COMPATIBILITY_RFC5389))"
    using expected_sha_hmac [OF sha(1)] stack k(3) by blast
  then show ?thesis
    using un u k f sha buf fin by auto
qed

section \<open>A short integrity attribute\<close>

lemma check_integrity_overread:
  assumes "stun_message_find m STUN_ATTRIBUTE_MESSAGE_INTEGRITY = Some (Some (p, l))"
    and "length (buffer m) < p + 20" and "\<not> has_flag b STUN_AGENT_USAGE_LONG_TERM_CREDENTIALS"
  shows "check_integrity env b m k ltk ltv = None"
proof -
  have "rdn (buffer m) p 20 = None" using assms(2) by (simp add: rdn_def)
  then have "verify_sha env b m p k key = None" for key
    by (cases "expected_sha env b m p k") (simp_all add: verify_sha_def)
  with assms(1,3) show ?thesis by (simp add: check_integrity_def)
qed

end
