(* ===== verification/Stun_Timer.thy ===== *)
theory Stun_Timer
  imports Prelude
begin

unbundle bit_operations_syntax

text \<open>
  The retransmission timer of \<open>stun/usages/timer.c\<close>. The clock is an argument: every operation
  that calls \<open>stun_gettime\<close> takes the time it returns. The fields of a \<open>struct timeval\<close> are
  64-bit signed numbers that stay far from their bounds and are integers here; the counters and
  the delay are 32-bit words, whose wrap-around the code relies on in \<open>stun_timer_remainder\<close>.
\<close>

section \<open>Definitions\<close>

record timeval =
  tv_sec :: int
  tv_usec :: int

record stun_timer =
  deadline :: timeval
  delay :: u32
  retransmissions :: u32
  max_retransmissions :: u32

datatype timer_return =
    STUN_USAGE_TIMER_RETURN_SUCCESS
  | STUN_USAGE_TIMER_RETURN_RETRANSMIT
  | STUN_USAGE_TIMER_RETURN_TIMEOUT

function carry_usec :: "timeval \<Rightarrow> timeval" where
  "carry_usec ts =
    (if tv_usec ts > 1000000
     then carry_usec (ts\<lparr>tv_usec := tv_usec ts - 1000000, tv_sec := tv_sec ts + 1\<rparr>)
     else ts)"
  by pat_completeness auto
termination
  by (relation "measure (\<lambda>ts. nat (tv_usec ts))") auto

declare carry_usec.simps [simp del]

definition add_delay :: "timeval \<Rightarrow> u32 \<Rightarrow> timeval" where
  "add_delay ts d = carry_usec (ts\<lparr>tv_sec := tv_sec ts + int (unat d div 1000),
     tv_usec := tv_usec ts + int (unat d mod 1000 * 1000)\<rparr>)"

definition stun_timer_start :: "timeval \<Rightarrow> u32 \<Rightarrow> u32 \<Rightarrow> stun_timer" where
  "stun_timer_start now initial_timeout max_retrans =
     \<lparr>deadline = add_delay now initial_timeout, delay = initial_timeout, retransmissions = 0,
      max_retransmissions = max_retrans\<rparr>"

definition stun_timer_start_reliable :: "timeval \<Rightarrow> u32 \<Rightarrow> stun_timer" where
  "stun_timer_start_reliable now initial_timeout = stun_timer_start now initial_timeout 0"

text \<open>Division in C truncates toward zero.\<close>

definition c_div :: "int \<Rightarrow> int \<Rightarrow> int" where
  "c_div a b = (if a \<ge> 0 then a div b else - ((- a) div b))"

definition stun_timer_remainder :: "timeval \<Rightarrow> stun_timer \<Rightarrow> u32" where
  "stun_timer_remainder now timer =
    (if tv_sec now > tv_sec (deadline timer) then 0
     else let d = of_int (tv_sec (deadline timer) - tv_sec now) :: u32 in
       if d = 0 \<and> tv_usec now \<ge> tv_usec (deadline timer) then 0
       else d * 1000 + of_int (c_div (tv_usec (deadline timer) - tv_usec now) 1000))"

definition stun_timer_refresh :: "timeval \<Rightarrow> stun_timer \<Rightarrow> timer_return \<times> stun_timer" where
  "stun_timer_refresh now timer =
    (if stun_timer_remainder now timer = 0 then
       if retransmissions timer \<ge> max_retransmissions timer
       then (STUN_USAGE_TIMER_RETURN_TIMEOUT, timer)
       else (STUN_USAGE_TIMER_RETURN_RETRANSMIT,
         timer\<lparr>delay := delay timer * 2, deadline := add_delay (deadline timer) (delay timer * 2),
               retransmissions := retransmissions timer + 1\<rparr>)
     else (STUN_USAGE_TIMER_RETURN_SUCCESS, timer))"

text \<open>The calls a user of the timer makes one after the other, each with its clock reading.\<close>

fun refresh_all :: "timeval list \<Rightarrow> stun_timer \<Rightarrow> timer_return list \<times> stun_timer" where
  "refresh_all [] timer = ([], timer)"
| "refresh_all (now # nows) timer =
    (let (r, timer1) = stun_timer_refresh now timer; (rs, timer2) = refresh_all nows timer1
     in (r # rs, timer2))"

section \<open>Time arithmetic\<close>

definition usecs :: "timeval \<Rightarrow> int" where
  "usecs ts = tv_sec ts * 1000000 + tv_usec ts"

text \<open>The field is left denormalised at exactly one million: the loop tests for more.\<close>

lemma carry_usec_props:
  "usecs (carry_usec ts) = usecs ts"
  "0 \<le> tv_usec ts \<Longrightarrow> 0 \<le> tv_usec (carry_usec ts) \<and> tv_usec (carry_usec ts) \<le> 1000000"
proof (induction ts rule: carry_usec.induct)
  case (1 ts)
  {
    case 1
    with "1.IH" show ?case
      by (subst carry_usec.simps) (auto simp: usecs_def algebra_simps)
  next
    case 2
    with "1.IH" show ?case by (subst (1 2) carry_usec.simps) auto
  }
qed

lemma add_delay_usecs: "usecs (add_delay ts d) = usecs ts + int (unat d) * 1000"
proof -
  have "int (unat d) = 1000 * int (unat d div 1000) + int (unat d mod 1000)"
    by (metis mult_div_mod_eq of_nat_add of_nat_mult of_nat_numeral)
  then show ?thesis
    by (simp add: add_delay_def carry_usec_props(1)) (simp add: usecs_def algebra_simps)
qed

lemma add_delay_range:
  "0 \<le> tv_usec ts \<Longrightarrow> 0 \<le> tv_usec (add_delay ts d) \<and> tv_usec (add_delay ts d) \<le> 1000000"
  unfolding add_delay_def by (rule carry_usec_props(2)) simp

section \<open>The remaining time\<close>

definition in_range :: "timeval \<Rightarrow> bool" where
  "in_range ts \<longleftrightarrow> 0 \<le> tv_usec ts \<and> tv_usec ts \<le> 1000000"

lemma c_div_bounds: "\<bar>a - 1000 * c_div a 1000\<bar> < 1000"
  unfolding c_div_def by (auto simp: abs_if)

text \<open>
  Before the deadline the result is the remaining time in milliseconds, off by less than one;
  after it, zero.
\<close>

lemma remainder_value:
  assumes "in_range now" and "in_range (deadline timer)" and "tv_sec now \<le> tv_sec (deadline timer)"
    and "tv_sec (deadline timer) - tv_sec now < 4000000"
    and "tv_sec now < tv_sec (deadline timer) \<or> tv_usec now < tv_usec (deadline timer)"
  shows "int (unat (stun_timer_remainder now timer)) =
    (tv_sec (deadline timer) - tv_sec now) * 1000 +
      c_div (tv_usec (deadline timer) - tv_usec now) 1000"
proof -
  let ?s = "tv_sec (deadline timer) - tv_sec now" and ?u = "tv_usec (deadline timer) - tv_usec now"
  have s: "0 \<le> ?s" "?s < 4000000" using assms(3,4) by simp_all
  have u: "- 1000000 \<le> ?u" "?u \<le> 1000000" using assms(1,2) by (auto simp: in_range_def)
  then have c: "- 1000 \<le> c_div ?u 1000" "c_div ?u 1000 \<le> 1000"
    by (auto simp: c_div_def) 
  have c0: "0 \<le> c_div ?u 1000" if "0 \<le> ?u" using that by (simp add: c_div_def)
  have fits: "uint (of_int i :: u32) = i" if "0 \<le> i" "i < 2 ^ 32" for i
    using that by (simp add: unsigned_of_int take_bit_int_eq_self)
  have "?s < 2 ^ 32" by (rule less_trans [OF s(2)]) simp
  from fits [OF s(1) this] have nz: "(of_int ?s :: u32) = 0 \<longleftrightarrow> ?s = 0"
    by (metis of_int_0 uint_0_eq)
  have "stun_timer_remainder now timer = of_int ?s * 1000 + of_int (c_div ?u 1000)"
    using assms(3,5) nz by (auto simp: stun_timer_remainder_def Let_def)
  also have "\<dots> = of_int (?s * 1000 + c_div ?u 1000)" by simp
  finally have r: "stun_timer_remainder now timer = of_int (?s * 1000 + c_div ?u 1000)" .
  have "0 \<le> ?s * 1000 + c_div ?u 1000"
    using s(1) c c0 assms(5) by (cases "?s = 0") auto
  moreover have "?s * 1000 + c_div ?u 1000 < 2 ^ 32" using s(2) c(2) by simp
  ultimately have "uint (of_int (?s * 1000 + c_div ?u 1000) :: u32) = ?s * 1000 + c_div ?u 1000"
    by (rule fits)
  then show ?thesis unfolding r by simp
qed

lemma remainder_expired:
  "usecs (deadline timer) \<le> usecs now \<Longrightarrow> in_range now \<Longrightarrow> in_range (deadline timer) \<Longrightarrow>
     tv_sec (deadline timer) \<le> tv_sec now \<Longrightarrow> stun_timer_remainder now timer = 0"
  by (auto simp: stun_timer_remainder_def usecs_def in_range_def Let_def)

section \<open>Retransmissions\<close>

lemma refresh_bounded:
  assumes "stun_timer_refresh now t = (r, t')" and "retransmissions t \<le> max_retransmissions t"
  shows "retransmissions t' \<le> max_retransmissions t'" "max_retransmissions t' = max_retransmissions t"
    "unat (retransmissions t') = unat (retransmissions t) +
       (if r = STUN_USAGE_TIMER_RETURN_RETRANSMIT then 1 else 0)"
proof -
  have "unat (retransmissions t + 1) = unat (retransmissions t) + 1"
    if "retransmissions t < max_retransmissions t"
    using that unsigned_less [where 'a = nat, of "max_retransmissions t"]
    by (simp add: word_less_nat_alt unat_word_ariths)
  then show "retransmissions t' \<le> max_retransmissions t'" "max_retransmissions t' = max_retransmissions t"
    "unat (retransmissions t') = unat (retransmissions t) +
       (if r = STUN_USAGE_TIMER_RETURN_RETRANSMIT then 1 else 0)"
    using assms
    by (auto simp: stun_timer_refresh_def word_le_nat_alt word_less_nat_alt split: if_splits)
qed

text \<open>Whatever the clock shows, a timer asks for at most its maximum of retransmissions.\<close>

lemma refresh_all_bounded:
  "refresh_all nows t = (rs, t') \<Longrightarrow> retransmissions t \<le> max_retransmissions t \<Longrightarrow>
     retransmissions t' \<le> max_retransmissions t' \<and> max_retransmissions t' = max_retransmissions t \<and>
     unat (retransmissions t') =
       unat (retransmissions t) + count_list rs STUN_USAGE_TIMER_RETURN_RETRANSMIT"
proof (induction nows arbitrary: t rs)
  case (Cons now nows)
  obtain r t1 where r: "stun_timer_refresh now t = (r, t1)" by (cases "stun_timer_refresh now t")
  obtain rs' where rs': "refresh_all nows t1 = (rs', t')" "rs = r # rs'"
    using Cons.prems(1) r by (auto split: prod.splits)
  note B = refresh_bounded [OF r Cons.prems(2)]
  from Cons.IH [OF rs'(1) B(1)] B rs'(2) show ?case by auto
qed simp

text \<open>
  The deadline moves by the doubled delay each time, so after \<open>n\<close> retransmissions it is the
  geometric sum of the initial timeout away from the start.
\<close>

lemma refresh_deadline:
  assumes "refresh_all nows (stun_timer_start now0 d m) = (rs, t')"
    and "unat d * 2 ^ unat m < 2 ^ 32"
  shows "usecs (deadline t') =
      usecs now0 + int (unat d * (2 ^ (unat (retransmissions t') + 1) - 1)) * 1000"
proof -
  have inv: "unat (delay t) = unat d * 2 ^ unat (retransmissions t) \<and>
      usecs (deadline t) = usecs now0 + int (unat d * (2 ^ (unat (retransmissions t) + 1) - 1)) * 1000
      \<Longrightarrow> retransmissions t \<le> max_retransmissions t \<Longrightarrow> max_retransmissions t = m \<Longrightarrow>
      refresh_all nows t = (rs, t') \<Longrightarrow>
      usecs (deadline t') = usecs now0 + int (unat d * (2 ^ (unat (retransmissions t') + 1) - 1)) * 1000"
    for t rs
  proof (induction nows arbitrary: t rs)
    case (Cons now nows)
    obtain r t1 where r: "stun_timer_refresh now t = (r, t1)" by (cases "stun_timer_refresh now t")
    obtain rs' where rs': "refresh_all nows t1 = (rs', t')"
      using Cons.prems(4) r by (auto split: prod.splits)
    note B = refresh_bounded [OF r Cons.prems(2)]
    let ?n = "unat (retransmissions t)"
    have "unat (delay t1) = unat d * 2 ^ unat (retransmissions t1) \<and>
      usecs (deadline t1) = usecs now0 + int (unat d * (2 ^ (unat (retransmissions t1) + 1) - 1)) * 1000"
    proof (cases "r = STUN_USAGE_TIMER_RETURN_RETRANSMIT")
      case True
      with r have t1: "delay t1 = delay t * 2" "deadline t1 = add_delay (deadline t) (delay t * 2)"
        and less: "retransmissions t < m"
        using Cons.prems(3) by (auto simp: stun_timer_refresh_def split: if_splits)
      have n1: "unat (retransmissions t1) = Suc ?n" using B(3) True by simp
      have "Suc ?n \<le> unat m" using less by (simp add: word_less_nat_alt)
      then have "unat d * 2 ^ Suc ?n \<le> unat d * 2 ^ unat m"
        by (intro mult_le_mono2 power_increasing) simp_all
      then have "unat d * 2 ^ ?n * 2 < 2 ^ 32" using assms(2) by (simp only: power_Suc ac_simps)
      then have u: "unat (delay t * 2) = unat d * 2 ^ Suc ?n"
        using Cons.prems(1) by (simp add: unat_word_ariths)
      have "int (unat d * (2 ^ (Suc ?n + 1) - 1)) =
          int (unat d * (2 ^ (?n + 1) - 1)) + int (unat d * 2 ^ Suc ?n)"
        by (simp add: algebra_simps of_nat_diff)
      then show ?thesis
        using Cons.prems(1) u unfolding t1 n1 add_delay_usecs by simp
    next
      case False
      then have "t1 = t" using r by (auto simp: stun_timer_refresh_def split: if_splits)
      then show ?thesis using Cons.prems(1) by simp
    qed
    from Cons.IH [OF this B(1) _ rs'] B(2) Cons.prems(3) show ?case by simp
  qed simp
  show ?thesis
    by (rule inv [OF _ _ _ assms(1)]) (simp_all add: stun_timer_start_def add_delay_usecs)
qed

text \<open>The remaining time is the distance of the deadline, rounded toward zero, and zero from then on.\<close>

lemma remainder_distance:
  assumes "in_range now" and "in_range (deadline timer)" and "tv_sec (deadline timer) - tv_sec now < 4000000"
  shows "int (unat (stun_timer_remainder now timer)) =
    (if usecs (deadline timer) \<le> usecs now then 0
     else (tv_sec (deadline timer) - tv_sec now) * 1000 + c_div (tv_usec (deadline timer) - tv_usec now) 1000)"
proof (cases "usecs (deadline timer) \<le> usecs now")
  case True
  show ?thesis
  proof (cases "tv_sec (deadline timer) \<le> tv_sec now")
    case le: True
    then show ?thesis using remainder_expired [OF True assms(1,2)] True by simp
  next
    case False
    then have e: "tv_sec (deadline timer) = tv_sec now + 1" "tv_usec (deadline timer) = 0" "tv_usec now = 1000000"
      using True assms(1,2) by (auto simp: usecs_def in_range_def)
    show ?thesis
      using remainder_value [OF assms(1,2) _ assms(3)] True by (simp add: e c_div_def)
  qed
next
  case False
  then show ?thesis
    using assms by (subst remainder_value) (auto simp: usecs_def in_range_def)
qed

end
