(* ===== verification/Nice_Address.thy ===== *)
theory Nice_Address
  imports Stun_Types
begin

unbundle bit_operations_syntax

text \<open>
  Transport addresses, from \<open>agent/address.c\<close>. A \<open>NiceAddress\<close> is a union of socket addresses
  discriminated by the family; operations that end in \<open>g_return_if_reached\<close> for other families
  leave the object alone and return the given value. Parsing and printing go through
  \<open>getaddrinfo\<close> and \<open>inet_ntop\<close> of the C library and are not modelled.
\<close>

section \<open>Definitions\<close>

definition nice_address_init :: "sockaddr \<Rightarrow> sockaddr" where
  "nice_address_init addr = AF_OTHER 0"

definition nice_address_set_ipv4 :: "sockaddr \<Rightarrow> u32 \<Rightarrow> sockaddr" where
  "nice_address_set_ipv4 addr ipv4 =
     AF_INET \<lparr>sin_port = 0, sin_addr = (if ipv4 \<noteq> 0 then htonl ipv4 else 0)\<rparr>"

text \<open>The flow information keeps what the union held before.\<close>

definition nice_address_set_ipv6 :: "u32 \<Rightarrow> sockaddr \<Rightarrow> bytes \<Rightarrow> sockaddr option" where
  "nice_address_set_ipv6 stale addr ipv6 = do {
     a \<leftarrow> rdn ipv6 0 16;
     Some (AF_INET6 \<lparr>sin6_port = 0,
       sin6_flowinfo = (case addr of AF_INET6 x \<Rightarrow> sin6_flowinfo x | _ \<Rightarrow> stale),
       sin6_addr = a, sin6_scope_id = 0\<rparr>) }"

fun nice_address_set_port :: "sockaddr \<Rightarrow> u32 \<Rightarrow> sockaddr" where
  "nice_address_set_port (AF_INET a) port = AF_INET (a\<lparr>sin_port := htons (ucast port)\<rparr>)"
| "nice_address_set_port (AF_INET6 a) port = AF_INET6 (a\<lparr>sin6_port := htons (ucast port)\<rparr>)"
| "nice_address_set_port (AF_OTHER f) port = AF_OTHER f"

fun nice_address_get_port :: "sockaddr \<Rightarrow> u32" where
  "nice_address_get_port (AF_INET a) = ucast (htons (sin_port a))"
| "nice_address_get_port (AF_INET6 a) = ucast (htons (sin6_port a))"
| "nice_address_get_port (AF_OTHER f) = 0"

fun nice_address_set_from_sockaddr :: "sockaddr \<Rightarrow> sockaddr \<Rightarrow> sockaddr" where
  "nice_address_set_from_sockaddr addr (AF_INET a) = AF_INET a"
| "nice_address_set_from_sockaddr addr (AF_INET6 a) = AF_INET6 a"
| "nice_address_set_from_sockaddr addr (AF_OTHER f) = addr"

fun nice_address_copy_to_sockaddr :: "sockaddr \<Rightarrow> sockaddr \<Rightarrow> sockaddr" where
  "nice_address_copy_to_sockaddr (AF_INET a) sa = AF_INET a"
| "nice_address_copy_to_sockaddr (AF_INET6 a) sa = AF_INET6 a"
| "nice_address_copy_to_sockaddr (AF_OTHER f) sa = sa"

fun nice_address_equal :: "sockaddr \<Rightarrow> sockaddr \<Rightarrow> bool" where
  "nice_address_equal (AF_INET a) (AF_INET b) \<longleftrightarrow>
     sin_addr a = sin_addr b \<and> sin_port a = sin_port b"
| "nice_address_equal (AF_INET6 a) (AF_INET6 b) \<longleftrightarrow>
     sin6_addr a = sin6_addr b \<and> sin6_port a = sin6_port b \<and> sin6_scope_id a = sin6_scope_id b"
| "nice_address_equal _ _ \<longleftrightarrow> False"

fun nice_address_equal_no_port :: "sockaddr \<Rightarrow> sockaddr \<Rightarrow> bool" where
  "nice_address_equal_no_port (AF_INET a) (AF_INET b) \<longleftrightarrow> sin_addr a = sin_addr b"
| "nice_address_equal_no_port (AF_INET6 a) (AF_INET6 b) \<longleftrightarrow>
     sin6_addr a = sin6_addr b \<and> sin6_scope_id a = sin6_scope_id b"
| "nice_address_equal_no_port _ _ \<longleftrightarrow> False"

definition nice_address_dup :: "sockaddr \<Rightarrow> sockaddr" where
  "nice_address_dup a = a"

definition ipv4_address_is_private :: "u32 \<Rightarrow> bool" where
  "ipv4_address_is_private addr \<longleftrightarrow>
    (let addr = htonl addr in
     addr AND 0xff000000 = 0x0a000000 \<or> addr AND 0xfff00000 = 0xac100000 \<or>
     addr AND 0xffff0000 = 0xc0a80000 \<or> addr AND 0xff000000 = 0x7f000000)"

definition ipv6_address_is_private :: "bytes \<Rightarrow> bool" where
  "ipv6_address_is_private addr \<longleftrightarrow>
     addr ! 0 = 0xfe \<and> addr ! 1 AND 0xc0 = 0x80 \<or>
     addr ! 0 AND 0xfe = 0xfc \<or>
     take 16 addr = [0, 0, 0, 0, 0, 0, 0, 0, 0, 0, 0, 0, 0, 0, 0, 1]"

fun nice_address_is_private :: "sockaddr \<Rightarrow> bool" where
  "nice_address_is_private (AF_INET a) \<longleftrightarrow> ipv4_address_is_private (sin_addr a)"
| "nice_address_is_private (AF_INET6 a) \<longleftrightarrow> ipv6_address_is_private (sin6_addr a)"
| "nice_address_is_private (AF_OTHER f) \<longleftrightarrow> False"

fun nice_address_is_valid :: "sockaddr \<Rightarrow> bool" where
  "nice_address_is_valid (AF_INET a) \<longleftrightarrow> True"
| "nice_address_is_valid (AF_INET6 a) \<longleftrightarrow> True"
| "nice_address_is_valid (AF_OTHER f) \<longleftrightarrow> False"

fun nice_address_ip_version :: "sockaddr \<Rightarrow> nat" where
  "nice_address_ip_version (AF_INET a) = 4"
| "nice_address_ip_version (AF_INET6 a) = 6"
| "nice_address_ip_version (AF_OTHER f) = 0"

section \<open>Ports\<close>

lemma get_set_port:
  "nice_address_is_valid a \<Longrightarrow> nice_address_get_port (nice_address_set_port a p) = p AND 0xffff"
proof -
  have "ucast (ucast p :: u16) = p AND 0xffff"
  proof -
    have e: "(0xffff :: u32) = mask 16" by (simp add: mask_eq_exp_minus_1)
    show ?thesis unfolding e by (rule bit_word_eqI) (auto simp: bit_simps)
  qed
  then show "nice_address_is_valid a \<Longrightarrow> ?thesis" by (cases a) simp_all
qed

lemma set_port_equal_no_port:
  "nice_address_is_valid a \<Longrightarrow> nice_address_equal_no_port a (nice_address_set_port a p)"
  by (cases a) simp_all

section \<open>Equality\<close>

text \<open>
  Comparing with and without port are equivalences on valid addresses; without a family an
  address is not even equal to itself.
\<close>

lemma address_equal_refl: "nice_address_equal a a \<longleftrightarrow> nice_address_is_valid a"
  by (cases a) simp_all

lemma address_equal_sym: "nice_address_equal a b \<Longrightarrow> nice_address_equal b a"
  by (cases a; cases b) simp_all

lemma address_equal_trans: "nice_address_equal a b \<Longrightarrow> nice_address_equal b c \<Longrightarrow> nice_address_equal a c"
  by (cases a; cases b; cases c) simp_all

lemma address_equal_iff:
  "nice_address_equal a b \<longleftrightarrow>
     nice_address_equal_no_port a b \<and> nice_address_get_port a = nice_address_get_port b"
proof -
  have i: "ucast (htons p) = (ucast (htons q) :: u32) \<longleftrightarrow> p = q" for p q :: u16
  proof
    assume "ucast (htons p) = (ucast (htons q) :: u32)"
    moreover have "ucast (ucast x :: u32) = x" for x :: u16
      by (rule bit_word_eqI) (auto simp: bit_simps)
    ultimately have "htons p = htons q" by metis
    then show "p = q" by (metis htons_htons)
  qed simp
  show ?thesis by (cases a; cases b) (auto simp: i)
qed

section \<open>Private ranges\<close>

lemma and_high_mask:
  "w AND push_bit k (mask (32 - k)) = push_bit k v \<longleftrightarrow> drop_bit k w = v"
  if "k < 32" "v = take_bit (32 - k) v" for w v :: u32
proof -
  have "w AND push_bit k (mask (32 - k)) = push_bit k (drop_bit k w)"
    by (rule bit_word_eqI) (use that(1) in \<open>auto simp: bit_simps\<close>)
  moreover have "drop_bit k (push_bit k u) = take_bit (32 - k) u" for u :: u32
    by (rule bit_word_eqI) (use that(1) in \<open>auto simp: bit_simps\<close>)
  moreover have "take_bit (32 - k) (drop_bit k w) = drop_bit k w"
    by (rule bit_word_eqI) (use that(1) in \<open>auto simp: bit_simps dest: bit_imp_le_length\<close>)
  ultimately show ?thesis using that(2) by metis
qed

text \<open>The masks test the leading bits of the address: the four ranges of RFC 3330.\<close>

lemma ipv4_private_ranges:
  "ipv4_address_is_private addr \<longleftrightarrow>
    (let n = unat (htonl addr) in
     n div 2 ^ 24 = 10 \<or> n div 2 ^ 20 = 0xac1 \<or> n div 2 ^ 16 = 0xc0a8 \<or> n div 2 ^ 24 = 127)"
proof -
  have d: "drop_bit k w = v \<longleftrightarrow> unat w div 2 ^ k = unat v" for k and w v :: u32
    by (simp add: word_unat_eq_iff unat_drop_bit)
  have m: "(0xff000000 :: u32) = push_bit 24 (mask (32 - 24))"
    "(0xfff00000 :: u32) = push_bit 20 (mask (32 - 20))"
    "(0xffff0000 :: u32) = push_bit 16 (mask (32 - 16))"
    by (simp_all add: mask_eq_exp_minus_1)
  have v: "(0x0a000000 :: u32) = push_bit 24 10" "(0x7f000000 :: u32) = push_bit 24 127"
    "(0xac100000 :: u32) = push_bit 20 0xac1" "(0xc0a80000 :: u32) = push_bit 16 0xc0a8"
    by simp_all
  have t: "(10 :: u32) = take_bit (32 - 24) 10" "(127 :: u32) = take_bit (32 - 24) 127"
    "(0xac1 :: u32) = take_bit (32 - 20) 0xac1" "(0xc0a8 :: u32) = take_bit (32 - 16) 0xc0a8"
    by (simp_all add: take_bit_eq_mod)
  show ?thesis
    unfolding ipv4_address_is_private_def Let_def m v
    by (simp only: and_high_mask [OF _ t(1)] and_high_mask [OF _ t(2)] and_high_mask [OF _ t(3)]
        and_high_mask [OF _ t(4)] d) (simp add: disj_ac)
qed

end
