(* ===== verification/Nice_Candidate.thy ===== *)
theory Nice_Candidate
  imports Nice_Address
begin

unbundle bit_operations_syntax

text \<open>
  Candidates and their priorities, from \<open>agent/candidate.c\<close>: the type and local preferences, the
  priority of RFC 5245, its Microsoft variant and the fixed tables of the older dialects, and
  the priority of a pair. Priorities are 32-bit words, pair priorities 64-bit words, and all
  arithmetic happens at the width the C code has.
\<close>

section \<open>Definitions\<close>

datatype candidate_type =
    NICE_CANDIDATE_TYPE_HOST
  | NICE_CANDIDATE_TYPE_SERVER_REFLEXIVE
  | NICE_CANDIDATE_TYPE_PEER_REFLEXIVE
  | NICE_CANDIDATE_TYPE_RELAYED

datatype candidate_transport =
    NICE_CANDIDATE_TRANSPORT_UDP
  | NICE_CANDIDATE_TRANSPORT_TCP_ACTIVE
  | NICE_CANDIDATE_TRANSPORT_TCP_PASSIVE
  | NICE_CANDIDATE_TRANSPORT_TCP_SO

fun type_val :: "candidate_type \<Rightarrow> nat" where
  "type_val NICE_CANDIDATE_TYPE_HOST = 0"
| "type_val NICE_CANDIDATE_TYPE_SERVER_REFLEXIVE = 1"
| "type_val NICE_CANDIDATE_TYPE_PEER_REFLEXIVE = 2"
| "type_val NICE_CANDIDATE_TYPE_RELAYED = 3"

abbreviation (input) NICE_CANDIDATE_TYPE_PREF_HOST :: nat where "NICE_CANDIDATE_TYPE_PREF_HOST \<equiv> 120"
abbreviation (input) NICE_CANDIDATE_TYPE_PREF_PEER_REFLEXIVE :: nat where
  "NICE_CANDIDATE_TYPE_PREF_PEER_REFLEXIVE \<equiv> 110"
abbreviation (input) NICE_CANDIDATE_TYPE_PREF_NAT_ASSISTED :: nat where
  "NICE_CANDIDATE_TYPE_PREF_NAT_ASSISTED \<equiv> 105"
abbreviation (input) NICE_CANDIDATE_TYPE_PREF_SERVER_REFLEXIVE :: nat where
  "NICE_CANDIDATE_TYPE_PREF_SERVER_REFLEXIVE \<equiv> 100"
abbreviation (input) NICE_CANDIDATE_TYPE_PREF_RELAYED :: nat where
  "NICE_CANDIDATE_TYPE_PREF_RELAYED \<equiv> 10"

text \<open>Strings and the opaque pointers are optional byte strings and handles.\<close>

record nice_candidate =
  cand_type :: candidate_type
  transport :: candidate_transport
  addr :: sockaddr
  base_addr :: sockaddr
  priority :: u32
  stream_id :: u32
  component_id :: u32
  foundation :: bytes
  username :: "bytes option"
  password :: "bytes option"
  turn :: "nat option"
  sockptr :: "nat option"

definition nice_candidate_new :: "candidate_type \<Rightarrow> nice_candidate" where
  "nice_candidate_new ty = \<lparr>cand_type = ty, transport = NICE_CANDIDATE_TRANSPORT_UDP,
     addr = AF_OTHER 0, base_addr = AF_OTHER 0, priority = 0, stream_id = 0, component_id = 0,
     foundation = replicate 33 0, username = None, password = None, turn = None, sockptr = None\<rparr>"

definition nice_candidate_copy :: "nice_candidate \<Rightarrow> nice_candidate" where
  "nice_candidate_copy c = c\<lparr>turn := None\<rparr>"

fun nice_candidate_jingle_priority :: "candidate_type \<Rightarrow> u32" where
  "nice_candidate_jingle_priority NICE_CANDIDATE_TYPE_HOST = 1000"
| "nice_candidate_jingle_priority NICE_CANDIDATE_TYPE_SERVER_REFLEXIVE = 900"
| "nice_candidate_jingle_priority NICE_CANDIDATE_TYPE_PEER_REFLEXIVE = 900"
| "nice_candidate_jingle_priority NICE_CANDIDATE_TYPE_RELAYED = 500"

fun nice_candidate_msn_priority :: "candidate_type \<Rightarrow> u32" where
  "nice_candidate_msn_priority NICE_CANDIDATE_TYPE_HOST = 830"
| "nice_candidate_msn_priority NICE_CANDIDATE_TYPE_SERVER_REFLEXIVE = 550"
| "nice_candidate_msn_priority NICE_CANDIDATE_TYPE_PEER_REFLEXIVE = 550"
| "nice_candidate_msn_priority NICE_CANDIDATE_TYPE_RELAYED = 450"

definition nice_candidate_ice_priority_full :: "u32 \<Rightarrow> u32 \<Rightarrow> u32 \<Rightarrow> u32" where
  "nice_candidate_ice_priority_full type_preference local_preference component =
     0x1000000 * type_preference + 0x100 * local_preference + (0x100 - component)"

definition nice_candidate_ice_local_preference_full :: "u32 \<Rightarrow> u32 \<Rightarrow> u32" where
  "nice_candidate_ice_local_preference_full direction_preference other_preference =
     0x2000 * direction_preference + other_preference"

text \<open>
  The test against \<open>NICE_CANDIDATE_TYPE_PREF_NAT_ASSISTED\<close> compares a type with a preference
  value.
\<close>

definition low_direction :: "nice_candidate \<Rightarrow> bool" where
  "low_direction c \<longleftrightarrow> cand_type c = NICE_CANDIDATE_TYPE_SERVER_REFLEXIVE \<or>
     type_val (cand_type c) = NICE_CANDIDATE_TYPE_PREF_NAT_ASSISTED"

definition nice_candidate_ice_local_preference :: "nice_candidate \<Rightarrow> u16" where
  "nice_candidate_ice_local_preference c =
    (case transport c of
       NICE_CANDIDATE_TRANSPORT_TCP_ACTIVE \<Rightarrow>
         ucast (nice_candidate_ice_local_preference_full (if low_direction c then 4 else 6) 1)
     | NICE_CANDIDATE_TRANSPORT_TCP_PASSIVE \<Rightarrow>
         ucast (nice_candidate_ice_local_preference_full (if low_direction c then 2 else 4) 1)
     | NICE_CANDIDATE_TRANSPORT_TCP_SO \<Rightarrow>
         ucast (nice_candidate_ice_local_preference_full (if low_direction c then 6 else 2) 1)
     | NICE_CANDIDATE_TRANSPORT_UDP \<Rightarrow> 1)"

definition nice_candidate_ms_ice_local_preference_full :: "u32 \<Rightarrow> u32 \<Rightarrow> u32 \<Rightarrow> u32" where
  "nice_candidate_ms_ice_local_preference_full transport_preference direction_preference other =
     0x1000 * transport_preference + 0x200 * direction_preference + 0x1 * other"

definition nice_candidate_ms_ice_local_preference :: "nice_candidate \<Rightarrow> u32" where
  "nice_candidate_ms_ice_local_preference c =
    (case transport c of
       NICE_CANDIDATE_TRANSPORT_TCP_SO \<Rightarrow> nice_candidate_ms_ice_local_preference_full 6 5 0
     | NICE_CANDIDATE_TRANSPORT_TCP_ACTIVE \<Rightarrow> nice_candidate_ms_ice_local_preference_full 6 5 0
     | NICE_CANDIDATE_TRANSPORT_TCP_PASSIVE \<Rightarrow> nice_candidate_ms_ice_local_preference_full 6 2 0
     | NICE_CANDIDATE_TRANSPORT_UDP \<Rightarrow> nice_candidate_ms_ice_local_preference_full 15 0 0)"

definition nice_candidate_ice_type_preference :: "nice_candidate \<Rightarrow> bool \<Rightarrow> bool \<Rightarrow> u8" where
  "nice_candidate_ice_type_preference c reliable nat_assisted =
    (let type_preference = (of_nat (case cand_type c of
         NICE_CANDIDATE_TYPE_HOST \<Rightarrow> NICE_CANDIDATE_TYPE_PREF_HOST
       | NICE_CANDIDATE_TYPE_PEER_REFLEXIVE \<Rightarrow> NICE_CANDIDATE_TYPE_PREF_PEER_REFLEXIVE
       | NICE_CANDIDATE_TYPE_SERVER_REFLEXIVE \<Rightarrow>
           (if nat_assisted then NICE_CANDIDATE_TYPE_PREF_NAT_ASSISTED
            else NICE_CANDIDATE_TYPE_PREF_SERVER_REFLEXIVE)
       | NICE_CANDIDATE_TYPE_RELAYED \<Rightarrow> NICE_CANDIDATE_TYPE_PREF_RELAYED) :: u8)
     in if (reliable \<and> transport c = NICE_CANDIDATE_TRANSPORT_UDP) \<or>
           (\<not> reliable \<and> transport c \<noteq> NICE_CANDIDATE_TRANSPORT_UDP)
        then type_preference div 2 else type_preference)"

definition nice_candidate_ice_priority :: "nice_candidate \<Rightarrow> bool \<Rightarrow> bool \<Rightarrow> u32" where
  "nice_candidate_ice_priority c reliable nat_assisted =
     nice_candidate_ice_priority_full
       (ucast (nice_candidate_ice_type_preference c reliable nat_assisted))
       (ucast (nice_candidate_ice_local_preference c)) (component_id c)"

definition nice_candidate_ms_ice_priority :: "nice_candidate \<Rightarrow> bool \<Rightarrow> bool \<Rightarrow> u32" where
  "nice_candidate_ms_ice_priority c reliable nat_assisted =
     nice_candidate_ice_priority_full
       (ucast (nice_candidate_ice_type_preference c reliable nat_assisted))
       (ucast (ucast (nice_candidate_ms_ice_local_preference c) :: u16)) (component_id c)"

text \<open>\<open>2 * max\<close> is a product of 32-bit numbers; the sum is taken in 64 bits.\<close>

definition nice_candidate_pair_priority :: "u32 \<Rightarrow> u32 \<Rightarrow> u64" where
  "nice_candidate_pair_priority o_prio a_prio =
    (let mx = (if o_prio > a_prio then o_prio else a_prio);
         mn = (if o_prio < a_prio then o_prio else a_prio)
     in push_bit 32 1 * ucast mn + ucast (2 * mx) + (if o_prio > a_prio then 1 else 0))"

section \<open>The priority of a candidate\<close>

text \<open>For arguments in their ranges the sum does not overflow.\<close>

lemma priority_full_value:
  assumes "unat tp \<le> 126" and "unat lp \<le> 65535" and "1 \<le> unat c" and "unat c \<le> 256"
  shows "unat (nice_candidate_ice_priority_full tp lp c) =
    2 ^ 24 * unat tp + 2 ^ 8 * unat lp + (256 - unat c)"
proof -
  have "c \<le> 256" using assms(4) by (simp add: word_le_nat_alt)
  then have c: "unat (256 - c) = 256 - unat c" by (simp add: unat_sub)
  have t: "unat (0x1000000 * tp) = 2 ^ 24 * unat tp"
    using assms(1) by (simp add: unat_word_ariths)
  have l: "unat (0x100 * lp) = 2 ^ 8 * unat lp"
    using assms(2) by (simp add: unat_word_ariths)
  show ?thesis
    using assms c t l by (simp add: nice_candidate_ice_priority_full_def unat_word_ariths)
qed

lemma type_preference_bounds:
  "unat (nice_candidate_ice_type_preference c r n) \<le> 120" "5 \<le> unat (nice_candidate_ice_type_preference c r n)"
  by (cases "cand_type c"; cases n;
      simp add: nice_candidate_ice_type_preference_def Let_def unat_div)+

lemma local_preference_bounds:
  "1 \<le> unat (nice_candidate_ice_local_preference c)" "unat (nice_candidate_ice_local_preference c) \<le> 65535"
proof -
  show "1 \<le> unat (nice_candidate_ice_local_preference c)"
    by (cases "transport c"; cases "low_direction c";
        simp add: nice_candidate_ice_local_preference_def nice_candidate_ice_local_preference_full_def)
  show "unat (nice_candidate_ice_local_preference c) \<le> 65535"
    using unsigned_less [where 'a = nat, of "nice_candidate_ice_local_preference c"] by simp
qed

lemma unat_ucast_u32: "unat (ucast (w :: u8) :: u32) = unat w" "unat (ucast (x :: u16) :: u32) = unat x"
  by (simp_all add: unsigned_ucast_eq take_bit_nat_eq_self unsigned_less [where 'a = nat, THEN less_trans])

definition in_component_range :: "nice_candidate \<Rightarrow> bool" where
  "in_component_range c \<longleftrightarrow> 1 \<le> unat (component_id c) \<and> unat (component_id c) \<le> 256"

lemma ice_priority_value:
  assumes "in_component_range c"
  shows "unat (nice_candidate_ice_priority c r n) =
    2 ^ 24 * unat (nice_candidate_ice_type_preference c r n) +
    2 ^ 8 * unat (nice_candidate_ice_local_preference c) + (256 - unat (component_id c))"
  using assms type_preference_bounds(1) [of c r n] local_preference_bounds(2) [of c]
    order_trans [OF type_preference_bounds(1) [of c r n], of 126]
  by (simp add: nice_candidate_ice_priority_def in_component_range_def priority_full_value unat_ucast_u32)

lemma ice_priority_range:
  assumes "in_component_range c"
  shows "1 \<le> unat (nice_candidate_ice_priority c r n)"
    and "unat (nice_candidate_ice_priority c r n) < 2 ^ 31"
proof -
  note b = type_preference_bounds [of c r n] local_preference_bounds [of c]
  have "1 \<le> 2 ^ 8 * unat (nice_candidate_ice_local_preference c)" using b by simp
  then show "1 \<le> unat (nice_candidate_ice_priority c r n)"
    unfolding ice_priority_value [OF assms] by linarith
  show "unat (nice_candidate_ice_priority c r n) < 2 ^ 31"
    unfolding ice_priority_value [OF assms] using b by simp
qed

text \<open>Numbers in a positional system compare digit by digit.\<close>

lemma digits_less_iff:
  fixes a a' b b' B :: nat
  assumes "b < B" and "b' < B"
  shows "B * a + b < B * a' + b' \<longleftrightarrow> a < a' \<or> a = a' \<and> b < b'"
proof -
  have "B * a + b < B * a' + b'" if "a < a'"
  proof -
    have "B * Suc a \<le> B * a'" using that by (intro mult_le_mono2) simp
    then show ?thesis using assms(1) by simp
  qed
  moreover have "B * a' + b' < B * a + b" if "a' < a"
  proof -
    have "B * Suc a' \<le> B * a" using that by (intro mult_le_mono2) simp
    then show ?thesis using assms(2) by simp
  qed
  ultimately show ?thesis by (metis linorder_neqE_nat nat_add_left_cancel_less order_less_asym)
qed

lemma digits3_less_iff:
  fixes a a' b b' c c' :: nat
  assumes "b < 2 ^ 16" and "b' < 2 ^ 16" and "c < 2 ^ 8" and "c' < 2 ^ 8"
  shows "2 ^ 24 * a + 2 ^ 8 * b + c < 2 ^ 24 * a' + 2 ^ 8 * b' + c' \<longleftrightarrow>
    a < a' \<or> a = a' \<and> (b < b' \<or> b = b' \<and> c < c')"
proof -
  have e: "2 ^ 24 * x + 2 ^ 8 * y + z = 2 ^ 8 * (2 ^ 16 * x + y) + z" for x y z :: nat by simp
  have i: "2 ^ 16 * a + b = 2 ^ 16 * a' + b' \<longleftrightarrow> a = a' \<and> b = b'"
    using digits_less_iff [OF assms(1,2), of a a'] digits_less_iff [OF assms(2,1), of a' a] by linarith
  show ?thesis
    unfolding e digits_less_iff [OF assms(3,4)] digits_less_iff [OF assms(1,2)] i by blast
qed

text \<open>The type preference decides first, then the local preference, then the component.\<close>

lemma ice_priority_less_iff:
  assumes "in_component_range c" and "in_component_range d"
  shows "nice_candidate_ice_priority c r n < nice_candidate_ice_priority d r n \<longleftrightarrow>
    (let key = (\<lambda>c. (nice_candidate_ice_type_preference c r n, nice_candidate_ice_local_preference c))
     in fst (key c) < fst (key d) \<or>
        fst (key c) = fst (key d) \<and>
          (snd (key c) < snd (key d) \<or>
           snd (key c) = snd (key d) \<and> component_id d < component_id c))"
proof -
  let ?p = "\<lambda>c. unat (nice_candidate_ice_priority c r n)"
  let ?t = "\<lambda>c. unat (nice_candidate_ice_type_preference c r n)"
  let ?l = "\<lambda>c. unat (nice_candidate_ice_local_preference c)"
  have v: "?p c = 2 ^ 24 * ?t c + 2 ^ 8 * ?l c + (256 - unat (component_id c))"
    "?p d = 2 ^ 24 * ?t d + 2 ^ 8 * ?l d + (256 - unat (component_id d))"
    using assms ice_priority_value by blast+
  have b: "1 \<le> unat (component_id c)" "unat (component_id c) \<le> 256" "1 \<le> unat (component_id d)"
    "unat (component_id d) \<le> 256" "?l c \<le> 65535" "?l d \<le> 65535"
    using assms local_preference_bounds(2) by (auto simp: in_component_range_def)
  have "?p c < ?p d \<longleftrightarrow> ?t c < ?t d \<or> ?t c = ?t d \<and> (?l c < ?l d \<or>
      ?l c = ?l d \<and> 256 - unat (component_id c) < 256 - unat (component_id d))"
    unfolding v by (rule digits3_less_iff) (use b in simp_all)
  moreover have "256 - unat (component_id c) < 256 - unat (component_id d) \<longleftrightarrow>
      unat (component_id d) < unat (component_id c)"
    using b by linarith
  ultimately show ?thesis
    by (simp add: word_less_nat_alt Let_def word_unat_eq_iff)
qed

section \<open>The priority of a pair\<close>

text \<open>
  RFC 5245, 5.7.2, over the integers: \<open>2^32 * min + 2 * max + (G > D ? 1 : 0)\<close>. The 32-bit
  product \<open>2 * max\<close> agrees with it when both priorities are below \<open>2^31\<close>, as RFC 5245 requires.
\<close>

definition rfc_pair_priority :: "nat \<Rightarrow> nat \<Rightarrow> nat" where
  "rfc_pair_priority g d = 2 ^ 32 * min g d + 2 * max g d + (if g > d then 1 else 0)"

lemma unat_ucast_u64: "unat (ucast (w :: u32) :: u64) = unat w"
  by (simp add: unsigned_ucast_eq take_bit_nat_eq_self unsigned_less [where 'a = nat, THEN less_trans])

lemma pair_priority_wraps:
  "unat (nice_candidate_pair_priority g d) = 2 ^ 32 * min (unat g) (unat d) +
     2 * max (unat g) (unat d) mod 2 ^ 32 + (if g > d then 1 else 0)"
proof -
  let ?mx = "if g > d then g else d" and ?mn = "if g < d then g else d"
  have mx: "unat ?mx = max (unat g) (unat d)" and mn: "unat ?mn = min (unat g) (unat d)"
    by (auto simp: word_less_nat_alt)
  have two: "unat (2 * ?mx) = 2 * max (unat g) (unat d) mod 2 ^ 32"
    unfolding mx [symmetric] by (simp add: unat_word_ariths)
  have top: "unat (push_bit 32 1 * ucast ?mn :: u64) = 2 ^ 32 * min (unat g) (unat d)"
    unfolding mn [symmetric] using unsigned_less [of ?mn, where 'a = nat]
    by (auto simp: unat_word_ariths unat_ucast_u64 push_bit_eq_mult)
  have "2 * k mod 2 ^ 32 + 1 < 2 ^ 32" for k :: nat
    using mod_mult_mult1 [of 2 k "2 ^ 31"] mod_less_divisor [of "2 ^ 31" k] by simp
  from this [of "max (unat g) (unat d)"] have
    b: "2 ^ 32 * min (unat g) (unat d) + 2 * max (unat g) (unat d) mod 2 ^ 32 + 1 < 2 ^ 64"
    using unsigned_less [of g, where 'a = nat] by simp
  have add: "unat (x + y + (if p then 1 else 0)) = unat x + unat y + (if p then 1 else 0)"
    if "unat x + unat y + 1 < 2 ^ 64" for x y :: u64 and p
    using that by (cases p) (simp_all add: unat_word_ariths)
  have "unat (push_bit 32 1 * ucast ?mn + ucast (2 * ?mx) + (if g > d then 1 else 0) :: u64) =
      unat (push_bit 32 1 * ucast ?mn :: u64) + unat (ucast (2 * ?mx) :: u64) + (if g > d then 1 else 0)"
    by (rule add) (unfold top unat_ucast_u64 two, rule b)
  then show ?thesis unfolding nice_candidate_pair_priority_def Let_def top unat_ucast_u64 two .
qed

lemma pair_priority_value:
  assumes "unat g < 2 ^ 31" and "unat d < 2 ^ 31"
  shows "unat (nice_candidate_pair_priority g d) = rfc_pair_priority (unat g) (unat d)"
  using assms by (simp add: pair_priority_wraps rfc_pair_priority_def word_less_nat_alt)

lemma pair_priority_wrapped:
  assumes "\<not> (unat g < 2 ^ 31 \<and> unat d < 2 ^ 31)"
  shows "unat (nice_candidate_pair_priority g d) + 2 ^ 32 = rfc_pair_priority (unat g) (unat d)"
proof -
  have "2 * max (unat g) (unat d) mod 2 ^ 32 + 2 ^ 32 = 2 * max (unat g) (unat d)"
    using assms unsigned_less [of g, where 'a = nat] unsigned_less [of d, where 'a = nat]
    by (auto simp: mod_if max_def)
  then show ?thesis by (simp add: pair_priority_wraps rfc_pair_priority_def word_less_nat_alt)
qed

end
