(* ===== verification/Samples.thy ===== *)
theory Samples
  imports Stun_Auth Stun_Transactions
begin

unbundle bit_operations_syntax

text \<open>
  Concrete agents, messages and packets, evaluated once: the theorems of the development are
  applied to them to show that their hypotheses can be met.
\<close>

definition free_slot :: saved_id where
  "free_slot = \<lparr>saved_id = replicate 16 0, saved_method = 0, saved_key = None,
     saved_long_term_key = replicate 16 0, saved_long_term_valid = False, saved_valid = False\<rparr>"

definition blank_agent :: stun_agent where
  "blank_agent = \<lparr>compatibility = STUN_COMPATIBILITY_RFC3489, usage_flags = 0, known_attributes = [0],
     software_attribute = None, sent_ids = replicate 200 free_slot\<rparr>"

text \<open>An RFC 5389 agent with short-term credentials and fingerprints.\<close>

definition sample_agent :: stun_agent where
  "sample_agent = stun_agent_init blank_agent [0x0006, 0x0008, 0] STUN_COMPATIBILITY_RFC5389 5"

definition sample_env :: stun_env where
  "sample_env = \<lparr>env_stack = replicate 64 0, env_package = []\<rparr>"

text \<open>A binding request with the magic cookie and the user name \<open>abcd\<close>, in a buffer of 100 bytes.\<close>

definition sample_header :: bytes where
  "sample_header = [0x00, 0x01, 0x00, 0x08, 0x21, 0x12, 0xa4, 0x42, 1, 2, 3, 4, 5, 6, 7, 8, 9, 10, 11, 12]"

definition sample_request :: stun_message where
  "sample_request = \<lparr>msg_agent = Some (conf_of sample_agent),
     buffer = sample_header @ [0x00, 0x06, 0x00, 0x04, 97, 98, 99, 100] @ replicate 72 0,
     buffer_len = 100, msg_key = None, long_term_key = replicate 16 0, long_term_valid = False\<rparr>"

text \<open>A message with room for 80 more bytes and no attribute yet.\<close>

definition sample_empty :: stun_message where
  "sample_empty = \<lparr>msg_agent = Some (conf_of sample_agent),
     buffer = [0x00, 0x01, 0x00, 0x00] @ drop 4 sample_header @ replicate 80 0,
     buffer_len = 100, msg_key = None, long_term_key = replicate 16 0, long_term_valid = False\<rparr>"

definition sample_validater :: validater where
  "sample_validater key username = Some (Some [1, 2, 3, 4])"

lemma sample_agent_facts:
  "compatibility sample_agent = STUN_COMPATIBILITY_RFC5389"
  "known_attributes sample_agent = [0x0006, 0x0008, 0]"
  "length (sent_ids sample_agent) = 200" "s \<in> set (sent_ids sample_agent) \<Longrightarrow> \<not> saved_valid s"
  "sent_ids sample_agent \<noteq> []" "usage_flags sample_agent = 5"
  by (auto simp: sample_agent_def stun_agent_init_def blank_agent_def free_slot_def)

lemma sample_agent_flags:
  "\<not> has_flag sample_agent STUN_AGENT_USAGE_LONG_TERM_CREDENTIALS"
  "\<not> has_flag sample_agent STUN_AGENT_USAGE_IGNORE_CREDENTIALS"
  "\<not> has_flag sample_agent STUN_AGENT_USAGE_NO_ALIGNED_ATTRIBUTES"
  "uses_cookie sample_agent" "speaks_same sample_agent sample_agent" "with_fingerprint sample_agent"
  by (simp_all add: has_flag_def sample_agent_facts uses_cookie_def speaks_same_def with_fingerprint_def)

lemma sample_request_fields:
  "len_field (buffer sample_request) = 8" "length (buffer sample_request) = 100"
  "buffer_len sample_request = 100" "drop_bit 6 (buffer sample_request ! 0) = 0"
  "validate_attributes (\<not> no_aligned (msg_agent sample_request)) (buffer sample_request) 20 8 = Some True"
  by code_simp+

lemma sample_request_sendable: "sendable sample_request"
  using sample_request_fields by (simp add: sendable_def built_def)

lemma sample_request_room: "room_to_protect sample_request"
  by (simp add: room_to_protect_def msg_end_def sample_request_fields)

lemma sample_request_attrs: "msg_attrs sample_request = Some [(0x0006, 24, 4)]"
  by code_simp

lemma sample_request_class: "stun_message_get_class sample_request = Some STUN_REQUEST"
  by code_simp

lemma sample_request_cookie: "stun_message_has_cookie sample_request = Some True"
  by code_simp

lemma sample_request_user:
  "attr_value sample_request STUN_ATTRIBUTE_USERNAME = Some (Some [97, 98, 99, 100])"
  by code_simp

lemma sample_request_validated: "validated sample_request"
  by code_simp

lemma sample_empty_fields:
  "len_field (buffer sample_empty) = 0" "length (buffer sample_empty) = 100"
  "buffer_len sample_empty = 100" "drop_bit 6 (buffer sample_empty ! 0) = 0"
  by code_simp+

lemma sample_empty_sendable: "sendable sample_empty"
  using sample_empty_fields by (simp add: sendable_def built_def)

lemma sample_empty_attrs: "msg_attrs sample_empty = Some []"
  by code_simp

lemma sample_empty_built: "built sample_empty"
  using sample_empty_sendable by (simp add: sendable_def)

lemma sample_empty_open: "open_for sample_empty t"
  by (simp add: open_for_def sample_empty_attrs reaches_def)

lemma sample_empty_room: "len \<le> 70 \<Longrightarrow> room_for sample_empty len"
proof -
  assume "len \<le> 70"
  moreover have "msg_end sample_empty = 20" by (simp add: msg_end_def sample_empty_fields)
  moreover have "append_pad sample_empty len \<le> 3"
    using stun_padding_less [of len] by (simp add: append_pad_def)
  ultimately show ?thesis by (simp add: sample_empty_fields)
qed

text \<open>
  An agent that ignores credentials, with a table of two slots, a binding request without
  attributes, and the response to it.
\<close>

definition plain_agent :: stun_agent where
  "plain_agent = \<lparr>compatibility = STUN_COMPATIBILITY_RFC3489, usage_flags = 16, known_attributes = [0],
     software_attribute = None, sent_ids = [free_slot, free_slot]\<rparr>"

definition plain_request :: stun_message where
  "plain_request = sample_empty\<lparr>msg_agent := Some (conf_of plain_agent)\<rparr>"

definition plain_response :: bytes where
  "plain_response = [0x01, 0x01, 0x00, 0x00] @ drop 4 sample_header"

definition waiting_agent :: stun_agent where
  "waiting_agent = plain_agent\<lparr>sent_ids := [free_slot\<lparr>saved_id := drop 4 sample_header,
     saved_method := STUN_BINDING, saved_valid := True\<rparr>, free_slot]\<rparr>"

lemma plain_request_finished:
  "stun_agent_finish_message sample_env plain_agent plain_request None =
     Some (20, plain_request, waiting_agent)"
  by code_simp

lemma plain_response_validated:
  "stun_agent_validate sample_env waiting_agent plain_request plain_response 20 None =
     Some (STUN_VALIDATION_SUCCESS, received_message waiting_agent plain_request plain_response 20,
       plain_agent\<lparr>sent_ids := [free_slot\<lparr>saved_id := drop 4 sample_header,
         saved_method := STUN_BINDING\<rparr>, free_slot]\<rparr>)"
  by code_simp

lemma plain_response_class:
  "stun_message_get_class (received_message waiting_agent plain_request plain_response 20) =
     Some STUN_RESPONSE"
  by code_simp

end
