(* ===== verification/Tcp_Fifo.thy ===== *)
theory Tcp_Fifo
  imports Prelude
begin

text \<open>
  The circular byte buffer of the pseudo-TCP socket, \<open>PseudoTcpFifo\<close> in
  \<open>agent/pseudotcp.c\<close>. The operations compute positions modulo the capacity and copy in two
  parts where an access wraps around; \<^term>\<open>None\<close> is an access outside the buffer, a division by
  a zero capacity, or a failed \<open>g_assert\<close>.

  The abstract view is the memory read from the read position on (the ring), with the number
  of bytes in use. Bytes beyond those in use matter: segments that arrive out of order are stored
  there, at an offset, and become data when the gap before them is closed. The locale
  \<open>offset_queue\<close> states the laws of such a buffer; its lemmas derive the behaviour as a first-in
  first-out queue and the independence of the order of arrival.
\<close>

section \<open>Definitions\<close>

record fifo =
  fbuf :: bytes
  buffer_length :: nat
  data_length :: nat
  read_position :: nat

text \<open>
  \<open>g_slice_alloc\<close> returns memory with arbitrary contents, the argument \<open>mem\<close>. The fields that
  \<open>init\<close> does not set are zero, as the socket's private data is allocated with \<open>g_new0\<close>; an
  empty \<open>fbuf\<close> is a null pointer.
\<close>

definition pseudo_tcp_fifo_init :: "bytes \<Rightarrow> nat \<Rightarrow> fifo" where
  "pseudo_tcp_fifo_init mem sz =
     \<lparr>fbuf = mem, buffer_length = sz, data_length = 0, read_position = 0\<rparr>"

definition pseudo_tcp_fifo_clear :: "fifo \<Rightarrow> fifo" where
  "pseudo_tcp_fifo_clear b = b\<lparr>fbuf := [], buffer_length := 0\<rparr>"

definition pseudo_tcp_fifo_get_buffered :: "fifo \<Rightarrow> nat" where
  "pseudo_tcp_fifo_get_buffered b = data_length b"

definition pseudo_tcp_fifo_set_capacity :: "bytes \<Rightarrow> fifo \<Rightarrow> nat \<Rightarrow> (bool \<times> fifo) option" where
  "pseudo_tcp_fifo_set_capacity mem b sz =
    (if data_length b > sz then Some (False, b)
     else if sz \<noteq> data_length b then do {
       let copy = data_length b;
       let tail_copy = min copy (buffer_length b - read_position b);
       d1 \<leftarrow> rdn (fbuf b) (read_position b) tail_copy;
       mem \<leftarrow> wrn mem 0 d1;
       d2 \<leftarrow> rdn (fbuf b) 0 (copy - tail_copy);
       mem \<leftarrow> wrn mem tail_copy d2;
       Some (True, b\<lparr>fbuf := mem, buffer_length := sz, read_position := 0\<rparr>) }
     else Some (True, b))"

definition pseudo_tcp_fifo_consume_read_data :: "fifo \<Rightarrow> nat \<Rightarrow> fifo option" where
  "pseudo_tcp_fifo_consume_read_data b sz =
    (if sz \<le> data_length b \<and> buffer_length b \<noteq> 0
     then Some (b\<lparr>read_position := (read_position b + sz) mod buffer_length b,
                  data_length := data_length b - sz\<rparr>)
     else None)"

definition pseudo_tcp_fifo_consume_write_buffer :: "fifo \<Rightarrow> nat \<Rightarrow> fifo option" where
  "pseudo_tcp_fifo_consume_write_buffer b sz =
    (if sz \<le> buffer_length b - data_length b
     then Some (b\<lparr>data_length := data_length b + sz\<rparr>) else None)"

definition pseudo_tcp_fifo_get_write_remaining :: "fifo \<Rightarrow> nat" where
  "pseudo_tcp_fifo_get_write_remaining b = buffer_length b - data_length b"

text \<open>The bytes copied out; the C function returns their number.\<close>

definition pseudo_tcp_fifo_read_offset :: "fifo \<Rightarrow> nat \<Rightarrow> nat \<Rightarrow> bytes option" where
  "pseudo_tcp_fifo_read_offset b n offset =
    (if buffer_length b = 0 then None
     else let available = data_length b - offset;
              pos = (read_position b + offset) mod buffer_length b;
              copy = min n available;
              tail_copy = min copy (buffer_length b - pos)
       in if offset \<ge> data_length b then Some []
          else do {
            d1 \<leftarrow> rdn (fbuf b) pos tail_copy;
            d2 \<leftarrow> rdn (fbuf b) 0 (copy - tail_copy);
            Some (d1 @ d2) })"

text \<open>The number of bytes stored, and the buffer with them in it.\<close>

definition pseudo_tcp_fifo_write_offset :: "fifo \<Rightarrow> bytes \<Rightarrow> nat \<Rightarrow> (nat \<times> fifo) option" where
  "pseudo_tcp_fifo_write_offset b d offset =
    (if buffer_length b = 0 then None
     else let available = buffer_length b - data_length b - offset;
              pos = (read_position b + data_length b + offset) mod buffer_length b;
              copy = min (length d) available;
              tail_copy = min copy (buffer_length b - pos)
       in if data_length b + offset \<ge> buffer_length b then Some (0, b)
          else do {
            d1 \<leftarrow> rdn d 0 tail_copy;
            mem \<leftarrow> wrn (fbuf b) pos d1;
            d2 \<leftarrow> rdn d tail_copy (copy - tail_copy);
            mem \<leftarrow> wrn mem 0 d2;
            Some (copy, b\<lparr>fbuf := mem\<rparr>) })"

definition pseudo_tcp_fifo_read :: "fifo \<Rightarrow> nat \<Rightarrow> (bytes \<times> fifo) option" where
  "pseudo_tcp_fifo_read b n = do {
     d \<leftarrow> pseudo_tcp_fifo_read_offset b n 0;
     Some (d, b\<lparr>read_position := (read_position b + length d) mod buffer_length b,
                data_length := data_length b - length d\<rparr>) }"

definition pseudo_tcp_fifo_write :: "fifo \<Rightarrow> bytes \<Rightarrow> (nat \<times> fifo) option" where
  "pseudo_tcp_fifo_write b d = do {
     (copy, b) \<leftarrow> pseudo_tcp_fifo_write_offset b d 0;
     Some (copy, b\<lparr>data_length := data_length b + copy\<rparr>) }"

section \<open>The ring\<close>

definition wf_fifo :: "fifo \<Rightarrow> bool" where
  "wf_fifo b \<longleftrightarrow> length (fbuf b) = buffer_length b \<and> data_length b \<le> buffer_length b \<and>
     read_position b < buffer_length b"

definition ring_of :: "fifo \<Rightarrow> bytes" where
  "ring_of b = rotate (read_position b) (fbuf b)"

definition contents :: "fifo \<Rightarrow> bytes" where
  "contents b = take (data_length b) (ring_of b)"

lemma mod_wrap: "x < L + L \<Longrightarrow> x mod L = (if x < L then x else x - L)" for x L :: nat
  by (auto simp: mod_if)

lemma nth_rotate_wrap:
  "r < length xs \<Longrightarrow> i < length xs \<Longrightarrow>
     rotate r xs ! i = xs ! (if r + i < length xs then r + i else r + i - length xs)"
  by (simp add: nth_rotate mod_wrap)

text \<open>A read in two parts is one read of the ring, and a write in two parts one write.\<close>

lemma ring_read:
  fixes xs :: bytes
  assumes "r < length xs" and "off < length xs" and "off + n \<le> length xs"
  defines "pos \<equiv> (r + off) mod length xs"
  defines "t \<equiv> min n (length xs - pos)"
  shows "take t (drop pos xs) @ take (n - t) xs = take n (drop off (rotate r xs))"
proof (rule nth_equalityI)
  have pos: "pos = (if r + off < length xs then r + off else r + off - length xs)"
    using assms(1,2) by (simp add: pos_def mod_wrap)
  then have len: "pos < length xs" using assms(1,2) by auto
  then show "length (take t (drop pos xs) @ take (n - t) xs) = length (take n (drop off (rotate r xs)))"
    using assms(3) by (simp add: t_def)
  fix i assume "i < length (take t (drop pos xs) @ take (n - t) xs)"
  then have i: "i < n" using len assms(3) by (auto simp: t_def)
  then have "off + i < length xs" using assms(3) by simp
  then have "take n (drop off (rotate r xs)) ! i =
      xs ! (if r + (off + i) < length xs then r + (off + i) else r + (off + i) - length xs)"
    using i assms(1) by (simp add: nth_rotate_wrap)
  moreover have "(take t (drop pos xs) @ take (n - t) xs) ! i =
      (if i < length xs - pos then xs ! (pos + i) else xs ! (i - (length xs - pos)))"
    using i len by (auto simp: t_def nth_append)
  ultimately show "(take t (drop pos xs) @ take (n - t) xs) ! i = take n (drop off (rotate r xs)) ! i"
    using i len pos assms(1-3) by (auto split: if_splits intro!: arg_cong [where f = "(!) xs"])
qed

lemma ring_write_index:
  fixes i j k r n off L pos :: nat
  assumes "i < L" and "r < L" and "off < L" and "off + n \<le> L"
    and "pos = (if r + off < L then r + off else r + off - L)"
  defines "j \<equiv> if r + i < L then r + i else r + i - L" and "t \<equiv> min n (L - pos)"
  shows "(if j < n - t then d ! (t + j) else if pos \<le> j \<and> j < pos + t then d ! (j - pos) else x) =
    (if off \<le> i \<and> i < off + n then d ! (i - off) else x)"
proof -
  have t: "t = (if n \<le> L - pos then n else L - pos)" by (simp add: t_def min_def)
  consider (low) "r + off < L" | (high) "L \<le> r + off" by linarith
  then show ?thesis
  proof cases
    case low
    with assms(5) have p: "pos = r + off" by simp
    show ?thesis
    proof (cases "r + i < L")
      case True
      then have "j = r + i" by (simp add: j_def)
      moreover from this p t True assms(1-4) have "\<not> j < n - t" by (cases "n \<le> L - pos") simp_all
      moreover from calculation p t True assms(1-4) have "pos \<le> j \<and> j < pos + t \<longleftrightarrow> off \<le> i \<and> i < off + n"
        by (cases "n \<le> L - pos") auto
      ultimately show ?thesis using p by (simp add: add_diff_cancel_left)
    next
      case False
      then have j: "j = r + i - L" by (simp add: j_def)
      have "j < n - t \<longleftrightarrow> off \<le> i \<and> i < off + n" using p t j False low assms(1-4) by (cases "n \<le> L - pos") auto
      moreover have "\<not> (pos \<le> j)" using p j assms(1-4) False by auto
      moreover have "t + j = i - off" if "j < n - t"
        using that p t j False low by (cases "n \<le> L - pos") auto
      ultimately show ?thesis by simp
    qed
  next
    case high
    with assms(5) have p: "pos = r + off - L" by simp
    have tn: "t = n" using t p high assms(1-4) by auto
    have "pos \<le> j \<and> j < pos + n \<longleftrightarrow> off \<le> i \<and> i < off + n"
      using p high assms(1-4) unfolding j_def by auto
    moreover have "j - pos = i - off" if "off \<le> i" "i < off + n"
      using that p high assms(1-4) unfolding j_def by auto
    ultimately show ?thesis using tn by simp
  qed
qed

lemma ring_write:
  fixes xs d :: bytes
  assumes "r < length xs" and "off < length xs" and "off + length d \<le> length xs"
  defines "pos \<equiv> (r + off) mod length xs"
  defines "t \<equiv> min (length d) (length xs - pos)"
  shows "rotate r (put (put xs pos (take t d)) 0 (drop t d)) = put (rotate r xs) off d"
proof (rule nth_equalityI)
  have pos: "pos = (if r + off < length xs then r + off else r + off - length xs)"
    using assms(1,2) by (simp add: pos_def mod_wrap)
  then have len: "pos < length xs" using assms(1,2) by auto
  have t: "pos + t \<le> length xs" "length d - t \<le> length xs" "t \<le> length d"
    using len assms(3) by (auto simp: t_def)
  show "length (rotate r (put (put xs pos (take t d)) 0 (drop t d))) = length (put (rotate r xs) off d)"
    using t assms(3) by simp
  fix i assume "i < length (rotate r (put (put xs pos (take t d)) 0 (drop t d)))"
  then have i: "i < length xs" using t by simp
  let ?j = "if r + i < length xs then r + i else r + i - length xs"
  have j: "?j < length xs" using i assms(1) by auto
  have "rotate r (put (put xs pos (take t d)) 0 (drop t d)) ! i =
      put (put xs pos (take t d)) 0 (drop t d) ! ?j"
    using i t assms(1) by (subst nth_rotate_wrap) simp_all
  also have "\<dots> = (if ?j < length d - t then d ! (t + ?j)
      else if pos \<le> ?j \<and> ?j < pos + t then d ! (?j - pos) else xs ! ?j)"
    using j t by (auto simp: nth_put)
  also have "\<dots> = (if off \<le> i \<and> i < off + length d then d ! (i - off) else xs ! ?j)"
    unfolding t_def by (rule ring_write_index) (use i len pos assms(1-3) in simp_all)
  also have "\<dots> = put (rotate r xs) off d ! i"
    using i assms(1,3) by (simp add: nth_put nth_rotate_wrap)
  finally show "rotate r (put (put xs pos (take t d)) 0 (drop t d)) ! i = put (rotate r xs) off d ! i" .
qed

section \<open>The operations on the ring\<close>

lemma length_ring_of [simp]: "length (ring_of b) = length (fbuf b)"
  by (simp add: ring_of_def)

lemma wf_fifo_init: "length mem = sz \<Longrightarrow> 0 < sz \<Longrightarrow> wf_fifo (pseudo_tcp_fifo_init mem sz)"
  by (simp add: wf_fifo_def pseudo_tcp_fifo_init_def)

lemma fifo_read_offset:
  assumes "wf_fifo b"
  shows "pseudo_tcp_fifo_read_offset b n off = Some (take n (drop off (contents b)))"
proof (cases "off < data_length b")
  case True
  have b: "length (fbuf b) = buffer_length b" "data_length b \<le> buffer_length b"
    "read_position b < buffer_length b" using assms by (auto simp: wf_fifo_def)
  define k where "k = min n (data_length b - off)"
  define pos where "pos = (read_position b + off) mod buffer_length b"
  have pos: "pos < buffer_length b" using b by (auto simp: pos_def intro: mod_less_divisor)
  have k: "off + k \<le> buffer_length b" "k \<le> buffer_length b" using True b by (auto simp: k_def)
  have "pseudo_tcp_fifo_read_offset b n off =
      Some (take (min k (buffer_length b - pos)) (drop pos (fbuf b)) @
        take (k - min k (buffer_length b - pos)) (fbuf b))"
    using True b pos k
    by (auto simp: pseudo_tcp_fifo_read_offset_def Let_def rdn_def k_def [symmetric] pos_def [symmetric])
  also have "\<dots> = Some (take k (drop off (ring_of b)))"
    using ring_read [of "read_position b" "fbuf b" off k] True b k
    by (simp add: pos_def ring_of_def)
  also have "take k (drop off (ring_of b)) = take n (drop off (contents b))"
    using True b by (simp add: contents_def k_def drop_take min.commute)
  finally show ?thesis .
next
  case False
  with assms show ?thesis
    by (auto simp: pseudo_tcp_fifo_read_offset_def wf_fifo_def Let_def contents_def)
qed

lemma fifo_write_offset:
  assumes "wf_fifo b"
  defines "room \<equiv> \<lambda>off. buffer_length b - data_length b - off"
  shows "\<exists>b'. pseudo_tcp_fifo_write_offset b d off = Some (min (length d) (room off), b') \<and>
    wf_fifo b' \<and> buffer_length b' = buffer_length b \<and> data_length b' = data_length b \<and>
    ring_of b' = put (ring_of b) (data_length b + off) (take (room off) d)"
proof (cases "data_length b + off < buffer_length b")
  case True
  have b: "length (fbuf b) = buffer_length b" "data_length b \<le> buffer_length b"
    "read_position b < buffer_length b" using assms by (auto simp: wf_fifo_def)
  define k where "k = min (length d) (room off)"
  define pos where "pos = (read_position b + (data_length b + off)) mod buffer_length b"
  define t where "t = min k (buffer_length b - pos)"
  have pos: "pos < buffer_length b" using b by (auto simp: pos_def intro: mod_less_divisor)
  have k: "data_length b + off + k \<le> buffer_length b" "k \<le> length d"
    using True b by (auto simp: k_def room_def)
  have t: "t \<le> k" "t \<le> length d" "pos + t \<le> buffer_length b" using k pos by (auto simp: t_def)
  define mem where "mem = put (put (fbuf b) pos (take t d)) 0 (take (k - t) (drop t d))"
  have sp: "take t d = take t (take k d)" "take (k - t) (drop t d) = drop t (take k d)"
    using t by (simp_all add: drop_take)
  have w: "rdn d 0 t = Some (take t d)" "rdn d t (k - t) = Some (take (k - t) (drop t d))"
    "wrn (fbuf b) pos (take t d) = Some (put (fbuf b) pos (take t d))"
    "wrn (put (fbuf b) pos (take t d)) 0 (take (k - t) (drop t d)) = Some mem"
    using b k t unfolding mem_def by (simp_all add: rdn_def wrn_put)
  have k_eq: "min (length d) (buffer_length b - data_length b - off) = k"
    and pos_eq: "(read_position b + data_length b + off) mod buffer_length b = pos"
    by (simp_all add: k_def room_def pos_def add.assoc)
  have nz: "buffer_length b \<noteq> 0" "\<not> buffer_length b \<le> data_length b + off" using True by simp_all
  have "pseudo_tcp_fifo_write_offset b d off = Some (k, b\<lparr>fbuf := mem\<rparr>)"
    unfolding pseudo_tcp_fifo_write_offset_def Let_def k_eq pos_eq t_def [symmetric] w bind.bind_lunit
    using nz by simp
  moreover have "length mem = buffer_length b" using b t k by (simp add: mem_def)
  moreover have "rotate (read_position b) mem = put (ring_of b) (data_length b + off) (take k d)"
    using ring_write [of "read_position b" "fbuf b" "data_length b + off" "take k d"] True b k
    unfolding mem_def sp by (simp add: t_def pos_def ring_of_def min_absorb2)
  moreover have "take k d = take (room off) d" by (simp add: k_def min_def)
  ultimately show ?thesis using b by (auto simp: wf_fifo_def ring_of_def k_def)
next
  case False
  with assms show ?thesis
    by (auto simp: pseudo_tcp_fifo_write_offset_def wf_fifo_def Let_def)
qed

lemma fifo_consume_read:
  assumes "wf_fifo b" and "n \<le> data_length b"
  shows "\<exists>b'. pseudo_tcp_fifo_consume_read_data b n = Some b' \<and> wf_fifo b' \<and>
    buffer_length b' = buffer_length b \<and> data_length b' = data_length b - n \<and>
    ring_of b' = rotate n (ring_of b)"
proof -
  have "rotate ((read_position b + n) mod buffer_length b) (fbuf b) = rotate n (ring_of b)"
    using assms(1) by (simp add: ring_of_def wf_fifo_def rotate_rotate add.commute)
      (metis rotate_conv_mod)
  then show ?thesis
    using assms by (auto simp: pseudo_tcp_fifo_consume_read_data_def wf_fifo_def ring_of_def
      intro: mod_less_divisor)
qed

lemma fifo_consume_write:
  assumes "wf_fifo b" and "data_length b + n \<le> buffer_length b"
  shows "\<exists>b'. pseudo_tcp_fifo_consume_write_buffer b n = Some b' \<and> wf_fifo b' \<and>
    buffer_length b' = buffer_length b \<and> data_length b' = data_length b + n \<and> ring_of b' = ring_of b"
  using assms by (auto simp: pseudo_tcp_fifo_consume_write_buffer_def wf_fifo_def ring_of_def)

lemma fifo_read:
  assumes "wf_fifo b"
  shows "\<exists>b'. pseudo_tcp_fifo_read b n = Some (take n (contents b), b') \<and> wf_fifo b' \<and>
    buffer_length b' = buffer_length b \<and> data_length b' = data_length b - n \<and>
    ring_of b' = rotate (min n (data_length b)) (ring_of b)"
proof -
  have l: "length (contents b) = data_length b"
    using assms by (auto simp: contents_def wf_fifo_def)
  from fifo_consume_read [OF assms, of "min n (data_length b)"] show ?thesis
    using fifo_read_offset [OF assms, of n 0] assms
    by (auto simp: pseudo_tcp_fifo_read_def pseudo_tcp_fifo_consume_read_data_def l min.commute
        split: if_splits)
qed

lemma fifo_write:
  assumes "wf_fifo b"
  defines "room \<equiv> buffer_length b - data_length b"
  shows "\<exists>b'. pseudo_tcp_fifo_write b d = Some (min (length d) room, b') \<and> wf_fifo b' \<and>
    buffer_length b' = buffer_length b \<and> data_length b' = data_length b + min (length d) room \<and>
    ring_of b' = put (ring_of b) (data_length b) (take room d)"
proof -
  from fifo_write_offset [OF assms(1), of d 0] obtain b1 where
    b1: "pseudo_tcp_fifo_write_offset b d 0 = Some (min (length d) room, b1)" "wf_fifo b1"
      "buffer_length b1 = buffer_length b" "data_length b1 = data_length b"
      "ring_of b1 = put (ring_of b) (data_length b) (take room d)"
    by (auto simp: room_def)
  have "data_length b \<le> buffer_length b" using assms(1) by (simp add: wf_fifo_def)
  then show ?thesis
    using b1 by (auto simp: pseudo_tcp_fifo_write_def wf_fifo_def ring_of_def room_def)
qed

text \<open>
  Changing the capacity keeps the data. The test compares the new size with the amount of
  data, not with the old capacity: asking for exactly the amount of data changes nothing.
\<close>

lemma fifo_set_capacity:
  assumes "wf_fifo b" and "length mem = sz"
  shows "data_length b > sz \<Longrightarrow> pseudo_tcp_fifo_set_capacity mem b sz = Some (False, b)"
    and "data_length b = sz \<Longrightarrow> pseudo_tcp_fifo_set_capacity mem b sz = Some (True, b)"
    and "data_length b < sz \<Longrightarrow> \<exists>b'. pseudo_tcp_fifo_set_capacity mem b sz = Some (True, b') \<and>
      wf_fifo b' \<and> buffer_length b' = sz \<and> data_length b' = data_length b \<and> contents b' = contents b"
proof -
  show "data_length b > sz \<Longrightarrow> pseudo_tcp_fifo_set_capacity mem b sz = Some (False, b)"
    "data_length b = sz \<Longrightarrow> pseudo_tcp_fifo_set_capacity mem b sz = Some (True, b)"
    by (simp_all add: pseudo_tcp_fifo_set_capacity_def)
  assume less: "data_length b < sz"
  have b: "length (fbuf b) = buffer_length b" "data_length b \<le> buffer_length b"
    "read_position b < buffer_length b" using assms by (auto simp: wf_fifo_def)
  define n where "n = data_length b"
  define t where "t = min n (buffer_length b - read_position b)"
  have t: "t \<le> n" "read_position b + t \<le> buffer_length b" "n \<le> buffer_length b" "n < sz"
    using b less by (auto simp: t_def n_def)
  define d where "d = take t (drop (read_position b) (fbuf b)) @ take (n - t) (fbuf b)"
  have ld: "length d = n" using t b by (simp add: d_def)
  have dc: "d = contents b"
    using ring_read [of "read_position b" "fbuf b" 0 n] b t
    by (simp add: d_def t_def contents_def n_def ring_of_def)
  have w: "rdn (fbuf b) (read_position b) t = Some (take t (drop (read_position b) (fbuf b)))"
    "rdn (fbuf b) 0 (n - t) = Some (take (n - t) (fbuf b))"
    using b t by (simp_all add: rdn_def)
  let ?mem = "put (put mem 0 (take t (drop (read_position b) (fbuf b)))) t (take (n - t) (fbuf b))"
  have w': "wrn mem 0 (take t (drop (read_position b) (fbuf b))) =
      Some (put mem 0 (take t (drop (read_position b) (fbuf b))))"
    "wrn (put mem 0 (take t (drop (read_position b) (fbuf b)))) t (take (n - t) (fbuf b)) = Some ?mem"
    using b t assms(2) by (simp_all add: wrn_put)
  have "pseudo_tcp_fifo_set_capacity mem b sz =
      Some (True, b\<lparr>fbuf := ?mem, buffer_length := sz, read_position := 0\<rparr>)"
    unfolding pseudo_tcp_fifo_set_capacity_def n_def [symmetric] Let_def t_def [symmetric] w w'
      bind.bind_lunit using t by simp
  moreover have "length ?mem = sz" "take n ?mem = d"
    using b t assms(2) by (simp_all add: put_def d_def)
  ultimately show "\<exists>b'. pseudo_tcp_fifo_set_capacity mem b sz = Some (True, b') \<and> wf_fifo b' \<and>
      buffer_length b' = sz \<and> data_length b' = data_length b \<and> contents b' = contents b"
    using t less dc by (auto simp: wf_fifo_def contents_def ring_of_def n_def)
qed

text \<open>What the user of the buffer sees of reading and writing.\<close>

lemma take_rotate:
  assumes "m \<le> k" and "k \<le> length xs"
  shows "take (k - m) (rotate m xs) = drop m (take k xs)"
  using assms by (intro nth_equalityI) (auto simp: nth_rotate)

lemma fifo_queue:
  assumes "wf_fifo b"
  defines "room \<equiv> buffer_length b - data_length b"
  shows "\<exists>b'. pseudo_tcp_fifo_write b d = Some (min (length d) room, b') \<and> wf_fifo b' \<and>
      buffer_length b' = buffer_length b \<and> contents b' = contents b @ take room d"
    and "\<exists>b'. pseudo_tcp_fifo_read b n = Some (take n (contents b), b') \<and> wf_fifo b' \<and>
      buffer_length b' = buffer_length b \<and> contents b' = drop n (contents b)"
proof -
  have b: "length (ring_of b) = buffer_length b" "data_length b \<le> buffer_length b"
    using assms(1) by (auto simp: wf_fifo_def)
  have "contents b' = contents b @ take room d" if "data_length b' = data_length b + min (length d) room"
    "ring_of b' = put (ring_of b) (data_length b) (take room d)" for b'
    using that b by (auto simp: contents_def put_def room_def min_def)
  with fifo_write [OF assms(1), of d, folded room_def]
  show "\<exists>b'. pseudo_tcp_fifo_write b d = Some (min (length d) room, b') \<and> wf_fifo b' \<and>
      buffer_length b' = buffer_length b \<and> contents b' = contents b @ take room d" by blast
  have "contents b' = drop n (contents b)" if "data_length b' = data_length b - n"
    "ring_of b' = rotate (min n (data_length b)) (ring_of b)" for b'
    using that b take_rotate [of "min n (data_length b)" "data_length b" "ring_of b"]
    by (cases "n \<le> data_length b") (simp_all add: contents_def)
  with fifo_read [OF assms(1), of n]
  show "\<exists>b'. pseudo_tcp_fifo_read b n = Some (take n (contents b), b') \<and> wf_fifo b' \<and>
      buffer_length b' = buffer_length b \<and> contents b' = drop n (contents b)" by blast
qed

section \<open>The interface\<close>

locale offset_queue =
  fixes inv :: "'q \<Rightarrow> bool"
    and cap :: "'q \<Rightarrow> nat"
    and used :: "'q \<Rightarrow> nat"
    and ring :: "'q \<Rightarrow> bytes"
    and write_at :: "'q \<Rightarrow> bytes \<Rightarrow> nat \<Rightarrow> (nat \<times> 'q) option"
    and commit :: "'q \<Rightarrow> nat \<Rightarrow> 'q option"
    and read_at :: "'q \<Rightarrow> nat \<Rightarrow> nat \<Rightarrow> bytes option"
    and discard :: "'q \<Rightarrow> nat \<Rightarrow> 'q option"
  assumes shape: "inv q \<Longrightarrow> length (ring q) = cap q \<and> used q \<le> cap q"
    and write_at_law: "inv q \<Longrightarrow> used q + off + length d \<le> cap q \<Longrightarrow>
      \<exists>q'. write_at q d off = Some (length d, q') \<and> inv q' \<and> cap q' = cap q \<and> used q' = used q \<and>
        ring q' = put (ring q) (used q + off) d"
    and commit_law: "inv q \<Longrightarrow> used q + n \<le> cap q \<Longrightarrow>
      \<exists>q'. commit q n = Some q' \<and> inv q' \<and> cap q' = cap q \<and> used q' = used q + n \<and> ring q' = ring q"
    and read_at_law: "inv q \<Longrightarrow> read_at q n off = Some (take n (drop off (take (used q) (ring q))))"
    and discard_law: "inv q \<Longrightarrow> n \<le> used q \<Longrightarrow>
      \<exists>q'. discard q n = Some q' \<and> inv q' \<and> cap q' = cap q \<and> used q' = used q - n \<and>
        ring q' = rotate n (ring q)"
begin

definition view :: "'q \<Rightarrow> bytes" where
  "view q = take (used q) (ring q)"

text \<open>Storing at the end and committing is an append; discarding drops from the front.\<close>

lemma append_view:
  assumes "inv q" and "used q + length d \<le> cap q"
  shows "\<exists>q1 q2. write_at q d 0 = Some (length d, q1) \<and> commit q1 (length d) = Some q2 \<and> inv q2 \<and>
    cap q2 = cap q \<and> view q2 = view q @ d"
proof -
  from write_at_law [OF assms(1), of 0 d] assms(2) obtain q1 where
    q1: "write_at q d 0 = Some (length d, q1)" "inv q1" "cap q1 = cap q" "used q1 = used q"
      "ring q1 = put (ring q) (used q) d" by auto
  from commit_law [OF q1(2), of "length d"] q1 assms(2) obtain q2 where
    q2: "commit q1 (length d) = Some q2" "inv q2" "cap q2 = cap q" "used q2 = used q + length d"
      "ring q2 = ring q1" by auto
  have "view q2 = view q @ d"
    using q1 q2 shape [OF assms(1)] by (simp add: view_def put_def)
  with q1 q2 show ?thesis by blast
qed

lemma discard_view:
  assumes "inv q" and "n \<le> used q"
  shows "\<exists>q'. discard q n = Some q' \<and> inv q' \<and> cap q' = cap q \<and> view q' = drop n (view q)"
proof -
  from discard_law [OF assms] obtain q' where q': "discard q n = Some q'" "inv q'" "cap q' = cap q"
    "used q' = used q - n" "ring q' = rotate n (ring q)" by blast
  have l: "length (ring q) = cap q" "used q \<le> cap q" using shape [OF assms(1)] by auto
  have "view q' = drop n (view q)"
  proof (cases "n < length (ring q)")
    case True
    then show ?thesis
      using q' l assms(2) by (simp add: view_def rotate_drop_take drop_take)
  next
    case False
    with l assms(2) q' show ?thesis by (simp add: view_def)
  qed
  with q' show ?thesis by blast
qed

text \<open>
  Out of order: two pieces stored at their places beyond the data, in either order, become data
  when the whole is committed.
\<close>

lemma reassemble:
  assumes "inv q" and "used q + length a + length b \<le> cap q"
  shows "\<exists>q1 q2 q3. write_at q b (length a) = Some (length b, q1) \<and> write_at q1 a 0 = Some (length a, q2) \<and>
    commit q2 (length a + length b) = Some q3 \<and> view q3 = view q @ a @ b"
proof -
  from write_at_law [OF assms(1), of "length a" b] assms(2) obtain q1 where
    q1: "write_at q b (length a) = Some (length b, q1)" "inv q1" "cap q1 = cap q" "used q1 = used q"
      "ring q1 = put (ring q) (used q + length a) b" by auto
  from write_at_law [OF q1(2), of 0 a] q1 assms(2) obtain q2 where
    q2: "write_at q1 a 0 = Some (length a, q2)" "inv q2" "cap q2 = cap q" "used q2 = used q"
      "ring q2 = put (ring q1) (used q) a" by auto
  from commit_law [OF q2(2), of "length a + length b"] q2 assms(2) obtain q3 where
    q3: "commit q2 (length a + length b) = Some q3" "inv q3" "used q3 = used q + (length a + length b)"
      "ring q3 = ring q2" by auto
  have l: "length (ring q) = cap q" "used q \<le> cap q" using shape [OF assms(1)] by auto
  have "view q3 = view q @ a @ b"
    using q1(5) q2(5) q3(3,4) l assms(2) by (simp add: view_def put_def min_absorb2)
  with q1 q2 q3 show ?thesis by blast
qed

end

interpretation fq: offset_queue wf_fifo buffer_length data_length ring_of
  pseudo_tcp_fifo_write_offset pseudo_tcp_fifo_consume_write_buffer pseudo_tcp_fifo_read_offset
  pseudo_tcp_fifo_consume_read_data
proof unfold_locales
  fix q d off n
  show "wf_fifo q \<Longrightarrow> length (ring_of q) = buffer_length q \<and> data_length q \<le> buffer_length q"
    by (simp add: wf_fifo_def)
  show "wf_fifo q \<Longrightarrow> data_length q + off + length d \<le> buffer_length q \<Longrightarrow>
    \<exists>q'. pseudo_tcp_fifo_write_offset q d off = Some (length d, q') \<and> wf_fifo q' \<and>
      buffer_length q' = buffer_length q \<and> data_length q' = data_length q \<and>
      ring_of q' = put (ring_of q) (data_length q + off) d"
    using fifo_write_offset [of q d off] by (fastforce simp: min_absorb1)
qed (use fifo_consume_write fifo_read_offset fifo_consume_read in \<open>auto simp: contents_def\<close>)

lemma fq_view: "fq.view = contents"
  by (rule ext) (simp add: fq.view_def contents_def)

end
