(* ===== verification/Tcp_Types.thy ===== *)
theory Tcp_Types
  imports Tcp_Fifo
begin

unbundle bit_operations_syntax

text \<open>
  The data of the pseudo-TCP socket of \<open>agent/pseudotcp.c\<close>: clock and sequence-number
  arithmetic on 32-bit words, segments, the private state of a socket and its environment.

  A socket is a record with the fields of \<open>PseudoTcpSocketPrivate\<close>. The two queues of outgoing
  segments share their elements in the code: \<open>slist\<close> owns the segments and \<open>unsent_slist\<close> points to
  some of them. Here a segment carries an identity, its address, and \<open>unsent_slist\<close> is a list of
  identities; following one that is not in \<open>slist\<close> any more is a use of freed memory,
  \<^term>\<open>None\<close> in the model. A failed \<open>g_assert\<close> is \<^term>\<open>None\<close> too.
\<close>

section \<open>Constants and enumerations\<close>

definition PACKET_MAXIMUMS :: "u32 list" where
  "PACKET_MAXIMUMS = [65535, 32000, 17914, 8166, 4352, 2002, 1492, 1006, 508, 296, 0]"

abbreviation (input) MAX_PACKET :: u32 where "MAX_PACKET \<equiv> 65535"
abbreviation (input) MIN_PACKET :: u32 where "MIN_PACKET \<equiv> 296"
abbreviation (input) HEADER_SIZE :: u32 where "HEADER_SIZE \<equiv> 24"
abbreviation (input) PACKET_OVERHEAD :: u32 where "PACKET_OVERHEAD \<equiv> 116"
abbreviation (input) MIN_RTO :: u32 where "MIN_RTO \<equiv> 250"
abbreviation (input) DEF_RTO :: u32 where "DEF_RTO \<equiv> 1000"
abbreviation (input) MAX_RTO :: u32 where "MAX_RTO \<equiv> 60000"
abbreviation (input) DEFAULT_ACK_DELAY :: u32 where "DEFAULT_ACK_DELAY \<equiv> 100"
abbreviation (input) DEFAULT_RCV_BUF_SIZE :: u32 where "DEFAULT_RCV_BUF_SIZE \<equiv> 61440"
abbreviation (input) DEFAULT_SND_BUF_SIZE :: u32 where "DEFAULT_SND_BUF_SIZE \<equiv> 92160"
abbreviation (input) DEFAULT_TIMEOUT :: u32 where "DEFAULT_TIMEOUT \<equiv> 4000"
abbreviation (input) CLOSED_TIMEOUT :: u32 where "CLOSED_TIMEOUT \<equiv> 60000"
abbreviation (input) TIME_WAIT_TIMEOUT :: u32 where "TIME_WAIT_TIMEOUT \<equiv> 1"

abbreviation (input) TCP_OPT_EOL :: u8 where "TCP_OPT_EOL \<equiv> 0"
abbreviation (input) TCP_OPT_NOOP :: u8 where "TCP_OPT_NOOP \<equiv> 1"
abbreviation (input) TCP_OPT_MSS :: u8 where "TCP_OPT_MSS \<equiv> 2"
abbreviation (input) TCP_OPT_WND_SCALE :: u8 where "TCP_OPT_WND_SCALE \<equiv> 3"
abbreviation (input) TCP_OPT_FIN_ACK :: u8 where "TCP_OPT_FIN_ACK \<equiv> 254"
abbreviation (input) FLAG_NONE :: u8 where "FLAG_NONE \<equiv> 0"
abbreviation (input) FLAG_FIN :: u8 where "FLAG_FIN \<equiv> 1"
abbreviation (input) FLAG_CTL :: u8 where "FLAG_CTL \<equiv> 2"
abbreviation (input) FLAG_RST :: u8 where "FLAG_RST \<equiv> 4"
abbreviation (input) CTL_CONNECT :: u8 where "CTL_CONNECT \<equiv> 0"

abbreviation (input) EWOULDBLOCK :: int where "EWOULDBLOCK \<equiv> 11"
abbreviation (input) EINVAL :: int where "EINVAL \<equiv> 22"
abbreviation (input) EPIPE :: int where "EPIPE \<equiv> 32"
abbreviation (input) ENOTCONN :: int where "ENOTCONN \<equiv> 107"
abbreviation (input) ECONNABORTED :: u32 where "ECONNABORTED \<equiv> 103"
abbreviation (input) ECONNRESET :: u32 where "ECONNRESET \<equiv> 104"

datatype tcp_state =
    TCP_LISTEN | TCP_SYN_SENT | TCP_SYN_RECEIVED | TCP_ESTABLISHED | TCP_CLOSED | TCP_FIN_WAIT_1
  | TCP_FIN_WAIT_2 | TCP_CLOSING | TCP_TIME_WAIT | TCP_CLOSE_WAIT | TCP_LAST_ACK

datatype write_result = WR_SUCCESS | WR_TOO_LARGE | WR_FAIL

datatype tcp_shutdown = PSEUDO_TCP_SHUTDOWN_RD | PSEUDO_TCP_SHUTDOWN_WR | PSEUDO_TCP_SHUTDOWN_RDWR

datatype shutdown_mode = SD_NONE | SD_GRACEFUL | SD_FORCEFUL

datatype send_flags = sfNone | sfDelayedAck | sfImmediateAck | sfFin | sfRst

datatype closedown_source = CLOSEDOWN_LOCAL | CLOSEDOWN_REMOTE

section \<open>Arithmetic on clocks and sequence numbers\<close>

definition bound :: "u32 \<Rightarrow> u32 \<Rightarrow> u32 \<Rightarrow> u32" where
  "bound lower middle upper = min (max lower middle) upper"

definition time_is_between :: "u32 \<Rightarrow> u32 \<Rightarrow> u32 \<Rightarrow> bool" where
  "time_is_between later middle earlier =
    (if earlier \<le> later then earlier \<le> middle \<and> middle \<le> later
     else \<not> (later < middle \<and> middle < earlier))"

text \<open>The result is converted from a \<open>long\<close> to a 32-bit signed integer.\<close>

abbreviation (input) gint32 :: "int \<Rightarrow> int" where "gint32 \<equiv> signed_take_bit 31"

definition time_diff :: "u32 \<Rightarrow> u32 \<Rightarrow> int" where
  "time_diff later earlier =
    (let LAST = 0xFFFFFFFF; HALF = 0x80000000 in
     if time_is_between (earlier + HALF) later earlier then
       if earlier \<le> later then gint32 (uint (later - earlier))
       else gint32 (uint (later + (LAST - earlier) + 1))
     else
       if later \<le> earlier then gint32 (- uint (earlier - later))
       else gint32 (- uint (earlier + (LAST - later) + 1)))"

definition LARGER :: "u32 \<Rightarrow> u32 \<Rightarrow> bool" where
  "LARGER a b \<longleftrightarrow> a - b - 1 < 0x7FFFFFFF"

definition LARGER_OR_EQUAL :: "u32 \<Rightarrow> u32 \<Rightarrow> bool" where
  "LARGER_OR_EQUAL a b \<longleftrightarrow> a - b < 0x7FFFFFFF"

abbreviation SMALLER :: "u32 \<Rightarrow> u32 \<Rightarrow> bool" where "SMALLER a b \<equiv> LARGER b a"
abbreviation SMALLER_OR_EQUAL :: "u32 \<Rightarrow> u32 \<Rightarrow> bool" where "SMALLER_OR_EQUAL a b \<equiv> LARGER_OR_EQUAL b a"

section \<open>Segments\<close>

text \<open>A received segment; its \<open>len\<close> is the length of its data.\<close>

record segment =
  seg_conv :: u32
  seg_seq :: u32
  seg_ack :: u32
  seg_flags :: u8
  seg_wnd :: u16
  seg_tsval :: u32
  seg_tsecr :: u32
  seg_data :: bytes

abbreviation seg_len :: "segment \<Rightarrow> u32" where
  "seg_len seg \<equiv> of_nat (length (seg_data seg))"

record ssegment =
  sseg_id :: nat
  sseg_seq :: u32
  sseg_len :: u32
  sseg_xmit :: u8
  sseg_flags :: u8

record rsegment =
  rseg_seq :: u32
  rseg_len :: u32

section \<open>The socket and its environment\<close>

text \<open>
  \<open>next_seg\<close> numbers the segments as they are allocated; everything else is a field of the C
  structure.
\<close>

record 'u pseudo_tcp =
  user_data :: 'u
  shutdown :: shutdown_mode
  shutdown_reads :: bool
  errno :: int
  state :: tcp_state
  conv :: u32
  bReadEnable :: bool
  bWriteEnable :: bool
  bOutgoing :: bool
  last_traffic :: u32
  rlist :: "rsegment list"
  rbuf_len :: u32
  rcv_nxt :: u32
  rcv_wnd :: u32
  lastrecv :: u32
  rwnd_scale :: u8
  rbuf :: fifo
  slist :: "ssegment list"
  unsent_slist :: "nat list"
  sbuf_len :: u32
  snd_nxt :: u32
  snd_wnd :: u32
  lastsend :: u32
  snd_una :: u32
  swnd_scale :: u8
  sbuf :: fifo
  mss :: u32
  msslevel :: u32
  largest :: u32
  mtu_advise :: u32
  rto_base :: u32
  ts_recent :: u32
  ts_lastack :: u32
  rx_rttvar :: u32
  rx_srtt :: u32
  rx_rto :: u32
  ssthresh :: u32
  cwnd :: u32
  dup_acks :: u8
  recover :: u32
  t_ack :: u32
  use_nagling :: bool
  ack_delay :: u32
  support_wnd_scale :: bool
  current_time :: u32
  support_fin_ack :: bool
  next_seg :: nat

text \<open>
  What the socket calls: the monotonic clock in milliseconds, the allocator (which returns
  memory with arbitrary contents), and the five callbacks of \<open>PseudoTcpCallbacks\<close>. \<open>WritePacket\<close>
  hands a packet to the network and may change the user's data only; the other callbacks are
  the user's own code and may call back into the socket, so they transform the socket. A null
  callback is \<^term>\<open>Some\<close>.
\<close>

record 'u tcp_env =
  env_clock :: "'u \<Rightarrow> u32"
  env_alloc :: "nat \<Rightarrow> bytes"
  WritePacket :: "'u \<Rightarrow> bytes \<Rightarrow> write_result \<times> 'u"
  PseudoTcpOpened :: "'u pseudo_tcp \<Rightarrow> 'u pseudo_tcp option"
  PseudoTcpReadable :: "'u pseudo_tcp \<Rightarrow> 'u pseudo_tcp option"
  PseudoTcpWritable :: "'u pseudo_tcp \<Rightarrow> 'u pseudo_tcp option"
  PseudoTcpClosed :: "u32 \<Rightarrow> 'u pseudo_tcp \<Rightarrow> 'u pseudo_tcp option"

definition get_current_time :: "'u tcp_env \<Rightarrow> 'u pseudo_tcp \<Rightarrow> u32" where
  "get_current_time env s =
    (if current_time s \<noteq> 0 then current_time s else env_clock env (user_data s))"

definition pseudo_tcp_socket_set_time :: "'u pseudo_tcp \<Rightarrow> u32 \<Rightarrow> 'u pseudo_tcp" where
  "pseudo_tcp_socket_set_time s t = s\<lparr>current_time := t\<rparr>"

definition pseudo_tcp_socket_init :: "'u tcp_env \<Rightarrow> 'u \<Rightarrow> u32 \<Rightarrow> bool \<Rightarrow> 'u pseudo_tcp" where
  "pseudo_tcp_socket_init env user conversation fin_ack =
     \<lparr>user_data = user, shutdown = SD_NONE, shutdown_reads = False, errno = 0, state = TCP_LISTEN,
      conv = conversation, bReadEnable = True, bWriteEnable = False, bOutgoing = False,
      last_traffic = 0, rlist = [], rbuf_len = DEFAULT_RCV_BUF_SIZE, rcv_nxt = 0,
      rcv_wnd = DEFAULT_RCV_BUF_SIZE, lastrecv = 0, rwnd_scale = 0,
      rbuf = pseudo_tcp_fifo_init (env_alloc env (unat DEFAULT_RCV_BUF_SIZE)) (unat DEFAULT_RCV_BUF_SIZE),
      slist = [], unsent_slist = [], sbuf_len = DEFAULT_SND_BUF_SIZE, snd_nxt = 0, snd_wnd = 1,
      lastsend = 0, snd_una = 0, swnd_scale = 0,
      sbuf = pseudo_tcp_fifo_init (env_alloc env (unat DEFAULT_SND_BUF_SIZE)) (unat DEFAULT_SND_BUF_SIZE),
      mss = MIN_PACKET - PACKET_OVERHEAD, msslevel = 0, largest = 0, mtu_advise = MAX_PACKET,
      rto_base = 0, ts_recent = 0, ts_lastack = 0, rx_rttvar = 0, rx_srtt = 0, rx_rto = DEF_RTO,
      ssthresh = DEFAULT_RCV_BUF_SIZE, cwnd = 2 * (MIN_PACKET - PACKET_OVERHEAD), dup_acks = 0,
      recover = 0, t_ack = 0, use_nagling = True, ack_delay = DEFAULT_ACK_DELAY,
      support_wnd_scale = True, current_time = 0, support_fin_ack = fin_ack, next_seg = 0\<rparr>"

text \<open>The function on states that tell whether a FIN has been sent or received.\<close>

fun pseudo_tcp_state_has_sent_fin :: "tcp_state \<Rightarrow> bool" where
  "pseudo_tcp_state_has_sent_fin TCP_LISTEN = False"
| "pseudo_tcp_state_has_sent_fin TCP_SYN_SENT = False"
| "pseudo_tcp_state_has_sent_fin TCP_SYN_RECEIVED = False"
| "pseudo_tcp_state_has_sent_fin TCP_ESTABLISHED = False"
| "pseudo_tcp_state_has_sent_fin TCP_CLOSE_WAIT = False"
| "pseudo_tcp_state_has_sent_fin _ = True"

fun pseudo_tcp_state_has_received_fin :: "tcp_state \<Rightarrow> bool" where
  "pseudo_tcp_state_has_received_fin TCP_LISTEN = False"
| "pseudo_tcp_state_has_received_fin TCP_SYN_SENT = False"
| "pseudo_tcp_state_has_received_fin TCP_SYN_RECEIVED = False"
| "pseudo_tcp_state_has_received_fin TCP_ESTABLISHED = False"
| "pseudo_tcp_state_has_received_fin TCP_FIN_WAIT_1 = False"
| "pseudo_tcp_state_has_received_fin TCP_FIN_WAIT_2 = False"
| "pseudo_tcp_state_has_received_fin _ = True"

text \<open>The transitions that \<open>set_state\<close> asserts to be the only ones.\<close>

definition valid_transition :: "tcp_state \<Rightarrow> tcp_state \<Rightarrow> bool" where
  "valid_transition old new \<longleftrightarrow> (old, new) \<in> set
    [(TCP_CLOSED, TCP_SYN_SENT), (TCP_SYN_SENT, TCP_CLOSED), (TCP_CLOSED, TCP_LISTEN),
     (TCP_LISTEN, TCP_CLOSED), (TCP_LISTEN, TCP_SYN_SENT), (TCP_LISTEN, TCP_SYN_RECEIVED),
     (TCP_SYN_SENT, TCP_SYN_RECEIVED), (TCP_SYN_RECEIVED, TCP_ESTABLISHED),
     (TCP_SYN_SENT, TCP_ESTABLISHED), (TCP_SYN_RECEIVED, TCP_FIN_WAIT_1),
     (TCP_ESTABLISHED, TCP_FIN_WAIT_1), (TCP_ESTABLISHED, TCP_CLOSE_WAIT),
     (TCP_FIN_WAIT_1, TCP_FIN_WAIT_2), (TCP_FIN_WAIT_1, TCP_CLOSING),
     (TCP_CLOSE_WAIT, TCP_LAST_ACK), (TCP_FIN_WAIT_2, TCP_TIME_WAIT),
     (TCP_CLOSING, TCP_TIME_WAIT), (TCP_LAST_ACK, TCP_CLOSED), (TCP_TIME_WAIT, TCP_CLOSED),
     (TCP_SYN_RECEIVED, TCP_LISTEN), (TCP_FIN_WAIT_1, TCP_TIME_WAIT)]"

definition set_state :: "'u pseudo_tcp \<Rightarrow> tcp_state \<Rightarrow> 'u pseudo_tcp option" where
  "set_state s new =
    (if new = state s then Some s
     else if valid_transition (state s) new then Some (s\<lparr>state := new\<rparr>) else None)"

definition set_state_closed :: "'u tcp_env \<Rightarrow> 'u pseudo_tcp \<Rightarrow> u32 \<Rightarrow> 'u pseudo_tcp option" where
  "set_state_closed env s err = do {
     s \<leftarrow> set_state s TCP_CLOSED;
     if err \<noteq> 0 then PseudoTcpClosed env err s else Some s }"

text \<open>The first level whose packets the advised MTU allows, or the last before the end marker.\<close>

fun level_from :: "u32 \<Rightarrow> u32 list \<Rightarrow> nat" where
  "level_from advise (x # y # ys) =
    (if y > 0 then if x \<le> advise then 0 else Suc (level_from advise (y # ys)) else 0)"
| "level_from advise _ = 0"

definition adjustMTU :: "'u pseudo_tcp \<Rightarrow> 'u pseudo_tcp" where
  "adjustMTU s =
    (let m = mtu_advise s - PACKET_OVERHEAD in
     s\<lparr>msslevel := of_nat (level_from (mtu_advise s) PACKET_MAXIMUMS), mss := m,
       ssthresh := max (ssthresh s) (2 * m), cwnd := max (cwnd s) m\<rparr>)"

definition set_state_established :: "'u tcp_env \<Rightarrow> 'u pseudo_tcp \<Rightarrow> 'u pseudo_tcp option" where
  "set_state_established env s = do {
     s \<leftarrow> set_state s TCP_ESTABLISHED;
     PseudoTcpOpened env (adjustMTU s) }"

definition pseudo_tcp_socket_is_closed :: "'u pseudo_tcp \<Rightarrow> bool" where
  "pseudo_tcp_socket_is_closed s \<longleftrightarrow> state s = TCP_CLOSED"

definition pseudo_tcp_socket_is_closed_remotely :: "'u pseudo_tcp \<Rightarrow> bool" where
  "pseudo_tcp_socket_is_closed_remotely s \<longleftrightarrow> pseudo_tcp_state_has_received_fin (state s)"

definition pseudo_tcp_socket_get_available_bytes :: "'u pseudo_tcp \<Rightarrow> int" where
  "pseudo_tcp_socket_get_available_bytes s =
    (if state s \<noteq> TCP_ESTABLISHED then - 1
     else gint32 (int (pseudo_tcp_fifo_get_buffered (rbuf s))))"

definition pseudo_tcp_socket_get_available_send_space :: "'u pseudo_tcp \<Rightarrow> nat \<times> 'u pseudo_tcp" where
  "pseudo_tcp_socket_get_available_send_space s =
    (let ret = (if state s = TCP_ESTABLISHED then pseudo_tcp_fifo_get_write_remaining (sbuf s) else 0)
     in (ret, if ret = 0 then s\<lparr>bWriteEnable := True\<rparr> else s))"

definition pseudo_tcp_socket_can_send :: "'u pseudo_tcp \<Rightarrow> bool \<times> 'u pseudo_tcp" where
  "pseudo_tcp_socket_can_send s =
    (let (n, s) = pseudo_tcp_socket_get_available_send_space s in (n > 0, s))"

section \<open>Lemmas on the arithmetic\<close>

text \<open>The case distinctions of \<open>time_diff\<close> compute the signed difference of the two clock values.\<close>

lemma gint32_of_int: "gint32 k = sint (word_of_int k :: u32)"
  by (simp add: signed_of_int)

lemma word_wrap: "x + (0xFFFFFFFF - y) + 1 = x - y" for x y :: u32
proof -
  have "x + (0xFFFFFFFF - y) + 1 = x - y + (0xFFFFFFFF + 1)" by (simp only: algebra_simps)
  also have "\<dots> = x - y" by simp
  finally show ?thesis .
qed

lemma time_diff_sint: "time_diff later earlier = sint (later - earlier)"
  by (simp add: time_diff_def Let_def word_wrap gint32_of_int)

text \<open>
  Sequence numbers compare by their distance on the circle. A distance of exactly
  \<open>2^31 - 1\<close> is \<open>LARGER\<close> but not \<open>LARGER_OR_EQUAL\<close>.
\<close>

lemma unat_diff:
  "unat (a - b) = (if unat b \<le> unat a then unat a - unat b else unat a + 2 ^ 32 - unat b)" for a b :: u32
  using unat_sub_if_size [of a b] by (simp add: size_word_def word_size)

lemma LARGER_unat: "LARGER a b \<longleftrightarrow> 0 < unat (a - b) \<and> unat (a - b) < 2 ^ 31"
proof -
  have "unat (x - 1) = (if x = 0 then 2 ^ 32 - 1 else unat x - 1)" for x :: u32
  proof -
    have "1 \<le> unat x \<longleftrightarrow> x \<noteq> 0" by (metis One_nat_def Suc_leI not_gr_zero not_one_le_zero unat_gt_0 unsigned_0)
    then show ?thesis by (auto simp: unat_diff)
  qed
  moreover have "0 < unat x \<longleftrightarrow> x \<noteq> 0" for x :: u32 by (simp add: unat_gt_0)
  ultimately show ?thesis by (auto simp: LARGER_def word_less_nat_alt)
qed

lemma LARGER_OR_EQUAL_unat: "LARGER_OR_EQUAL a b \<longleftrightarrow> unat (a - b) < 2 ^ 31 - 1"
  by (simp add: LARGER_OR_EQUAL_def word_less_nat_alt)

text \<open>Offsets from a common base, with everything inside half of the circle.\<close>

lemma unat_u32: "n < 2 ^ 32 \<Longrightarrow> unat (of_nat n :: u32) = n"
  by (simp add: unat_of_nat)

lemma unat_offset_diff:
  assumes "x < 2 ^ 31" and "y < 2 ^ 31"
  shows "unat (b + of_nat x - (b + of_nat y) :: u32) = (if y \<le> x then x - y else x + 2 ^ 32 - y)"
proof -
  have "b + of_nat x - (b + of_nat y) = (of_nat x - of_nat y :: u32)" by simp
  then show ?thesis using assms by (simp add: unat_diff unat_u32 del: add_diff_cancel_left)
qed

lemma LARGER_offset:
  assumes "x < 2 ^ 31" and "y < 2 ^ 31"
  shows "LARGER (b + of_nat x) (b + of_nat y) \<longleftrightarrow> y < x"
  unfolding LARGER_unat unat_offset_diff [OF assms] using assms by auto

lemma LARGER_OR_EQUAL_offset:
  assumes "x < 2 ^ 31 - 1" and "y < 2 ^ 31 - 1"
  shows "LARGER_OR_EQUAL (b + of_nat x) (b + of_nat y) \<longleftrightarrow> y \<le> x"
proof -
  have "x < 2 ^ 31" "y < 2 ^ 31" using assms by simp_all
  note d = unat_offset_diff [OF this]
  show ?thesis unfolding LARGER_OR_EQUAL_unat d using assms by auto
qed

end
