(* ===== verification/Tcp_Output.thy ===== *)
theory Tcp_Output
  imports Tcp_Types
begin

unbundle bit_operations_syntax

text \<open>
  The sending side of the pseudo-TCP socket: queueing of data and control messages, building
  packets, transmission of segments with path-MTU fallback, the send loop with its
  congestion and Nagle decisions, and closing down. From \<open>agent/pseudotcp.c\<close>.
\<close>

section \<open>The queues of segments\<close>

definition find_seg :: "nat \<Rightarrow> ssegment list \<Rightarrow> ssegment option" where
  "find_seg i xs = find (\<lambda>x. sseg_id x = i) xs"

definition upd_seg :: "nat \<Rightarrow> (ssegment \<Rightarrow> ssegment) \<Rightarrow> ssegment list \<Rightarrow> ssegment list" where
  "upd_seg i f xs = map (\<lambda>x. if sseg_id x = i then f x else x) xs"

text \<open>\<open>g_queue_insert_after\<close> at the element that \<open>g_queue_find\<close> returns.\<close>

fun insert_after :: "('a \<Rightarrow> bool) \<Rightarrow> 'a \<Rightarrow> 'a list \<Rightarrow> 'a list option" where
  "insert_after P new [] = None"
| "insert_after P new (x # xs) =
    (if P x then Some (x # new # xs) else map_option ((#) x) (insert_after P new xs))"

section \<open>Queueing\<close>

text \<open>The number of bytes taken and the socket; a control message must fit.\<close>

definition queue :: "'u pseudo_tcp \<Rightarrow> bytes \<Rightarrow> u8 \<Rightarrow> (nat \<times> 'u pseudo_tcp) option" where
  "queue s data flags =
    (let available_space = pseudo_tcp_fifo_get_write_remaining (sbuf s) in
     if length data > available_space \<and> flags \<noteq> FLAG_NONE then None
     else do {
       let data = (if length data > available_space then take available_space data else data);
       let len = (of_nat (length data) :: u32);
       let s = (if slist s \<noteq> [] \<and> sseg_flags (last (slist s)) = flags \<and> sseg_xmit (last (slist s)) = 0
         then s\<lparr>slist := butlast (slist s) @ [(last (slist s))\<lparr>sseg_len := sseg_len (last (slist s)) + len\<rparr>]\<rparr>
         else s\<lparr>slist := slist s @ [\<lparr>sseg_id = next_seg s,
                  sseg_seq = snd_una s + of_nat (pseudo_tcp_fifo_get_buffered (sbuf s)),
                  sseg_len = len, sseg_xmit = 0, sseg_flags = flags\<rparr>],
                unsent_slist := unsent_slist s @ [next_seg s], next_seg := Suc (next_seg s)\<rparr>);
       (n, b) \<leftarrow> pseudo_tcp_fifo_write (sbuf s) data;
       Some (n, s\<lparr>sbuf := b\<rparr>) })"

definition connect_options :: "'u pseudo_tcp \<Rightarrow> bytes" where
  "connect_options s =
     [CTL_CONNECT] @
     (if support_wnd_scale s then [TCP_OPT_WND_SCALE, 1, rwnd_scale s] else []) @
     (if support_fin_ack s then [TCP_OPT_FIN_ACK, 1, 0] else [])"

definition queue_connect_message :: "'u pseudo_tcp \<Rightarrow> 'u pseudo_tcp option" where
  "queue_connect_message s = do {
     let buf = connect_options s;
     (_, s) \<leftarrow> queue (s\<lparr>snd_wnd := of_nat (length buf)\<rparr>) buf FLAG_CTL;
     Some s }"

definition queue_fin_message :: "'u pseudo_tcp \<Rightarrow> 'u pseudo_tcp option" where
  "queue_fin_message s =
    (if support_fin_ack s then do { (_, s) \<leftarrow> queue s [] FLAG_FIN; Some s } else None)"

definition queue_rst_message :: "'u pseudo_tcp \<Rightarrow> 'u pseudo_tcp option" where
  "queue_rst_message s =
    (if support_fin_ack s then do { (_, s) \<leftarrow> queue s [] FLAG_RST; Some s } else None)"

section \<open>Packets\<close>

text \<open>Shifting a 32-bit value by 32 or more is undefined.\<close>

definition shift_right :: "u32 \<Rightarrow> u8 \<Rightarrow> u32 option" where
  "shift_right w k = (if unat k < 32 then Some (drop_bit (unat k) w) else None)"

definition packet_header :: "u32 \<Rightarrow> u32 \<Rightarrow> u32 \<Rightarrow> u8 \<Rightarrow> u16 \<Rightarrow> u32 \<Rightarrow> u32 \<Rightarrow> bytes" where
  "packet_header cv seq ack flags wnd tsval tsecr =
     be32_bytes cv @ be32_bytes seq @ be32_bytes ack @ [0, flags] @ be16_bytes wnd @
     be32_bytes tsval @ be32_bytes tsecr"

definition packet :: "'u tcp_env \<Rightarrow> 'u pseudo_tcp \<Rightarrow> u32 \<Rightarrow> u8 \<Rightarrow> u32 \<Rightarrow> u32 \<Rightarrow> u32 \<Rightarrow>
    (write_result \<times> 'u pseudo_tcp) option" where
  "packet env s seq flags offset len now =
    (if HEADER_SIZE + len \<le> MAX_PACKET then do {
       wnd \<leftarrow> shift_right (rcv_wnd s) (rwnd_scale s);
       let header = packet_header (conv s) seq (rcv_nxt s) flags (ucast wnd) now (ts_recent s);
       let s = s\<lparr>ts_lastack := rcv_nxt s\<rparr>;
       payload \<leftarrow> (if len \<noteq> 0 then do {
           d \<leftarrow> pseudo_tcp_fifo_read_offset (sbuf s) (unat len) (unat offset);
           if length d = unat len then Some d else None }
         else Some []);
       let (wres, u) = WritePacket env (user_data s) (header @ payload);
       let s = s\<lparr>user_data := u\<rparr>;
       if wres \<noteq> WR_SUCCESS \<and> len \<noteq> 0 then Some (wres, s)
       else Some (WR_SUCCESS, s\<lparr>t_ack := 0, lastsend := (if len > 0 then now else lastsend s),
              last_traffic := now, bOutgoing := True\<rparr>) }
     else None)"

section \<open>Transmission\<close>

text \<open>
  The inner loop of \<open>transmit\<close>: go down the table of packet sizes until the maximum segment
  size is below the current amount; \<open>Some (None, s)\<close> when the table ends. The read at
  \<open>msslevel + 1\<close> must lie in the table.
\<close>

function shrink :: "'u pseudo_tcp \<Rightarrow> u32 \<Rightarrow> (u32 option \<times> 'u pseudo_tcp) option" where
  "shrink s n =
    (if unat (msslevel s) + 1 < length PACKET_MAXIMUMS then
       if PACKET_MAXIMUMS ! (unat (msslevel s) + 1) = 0 then Some (None, s)
       else let m = PACKET_MAXIMUMS ! (unat (msslevel s) + 1) - PACKET_OVERHEAD;
                s = s\<lparr>msslevel := msslevel s + 1, mss := m, cwnd := 2 * m\<rparr>
            in if m < n then Some (Some m, s) else shrink s n
     else None)"
  by pat_completeness auto
termination
proof (relation "measure (\<lambda>(s, n). 20 - unat (msslevel s))", goal_cases)
  case (2 s n m x)
  then have "unat (msslevel s) < 10" by (simp add: PACKET_MAXIMUMS_def)
  then have "unat (msslevel s + 1) = unat (msslevel s) + 1" by (simp add: unat_word_ariths)
  with 2 \<open>unat (msslevel s) < 10\<close> show ?case by simp
qed simp

declare shrink.simps [simp del]

lemma shrink_level:
  "shrink s n = Some (r, s') \<Longrightarrow> unat (msslevel s') < 20 \<and>
     (r \<noteq> None \<longrightarrow> unat (msslevel s) < unat (msslevel s') \<and> unat (msslevel s) < 10)"
proof (induction s n arbitrary: r s' rule: shrink.induct)
  case (1 s n)
  show ?case
  proof (cases "unat (msslevel s) < 10")
    case True
    then have l: "unat (msslevel s + 1) = unat (msslevel s) + 1" by (simp add: unat_word_ariths)
    show ?thesis
      using "1.prems" "1.IH" True l
      by (subst (asm) shrink.simps) (fastforce simp: Let_def PACKET_MAXIMUMS_def split: if_splits)
  next
    case False
    with "1.prems" show ?thesis by (subst (asm) shrink.simps) (simp add: PACKET_MAXIMUMS_def)
  qed
qed

lemma packet_msslevel: "packet env s q f ofs n now = Some (r, s') \<Longrightarrow> msslevel s' = msslevel s"
  by (auto simp: packet_def Let_def split: if_splits bind_splits prod.splits)

text \<open>The outer loop: send, and send less when the packet was too large.\<close>

function transmit_loop :: "'u tcp_env \<Rightarrow> 'u pseudo_tcp \<Rightarrow> ssegment \<Rightarrow> u32 \<Rightarrow> u32 \<Rightarrow>
    (u32 option \<times> 'u pseudo_tcp) option" where
  "transmit_loop env s seg n now =
    (if sseg_seq seg - snd_una s \<le> 1024 * 1024 * 64 then
       Option.bind (packet env s (sseg_seq seg) (sseg_flags seg) (sseg_seq seg - snd_una s) n now)
         (\<lambda>(wres, s1). case wres of
            WR_SUCCESS \<Rightarrow> Some (Some n, s1)
          | WR_FAIL \<Rightarrow> Some (None, s1)
          | WR_TOO_LARGE \<Rightarrow> Option.bind (shrink s1 n) (\<lambda>(r, s2). case r of
                None \<Rightarrow> Some (None, s2)
              | Some n1 \<Rightarrow> transmit_loop env s2 seg n1 now))
     else None)"
  by pat_completeness auto
termination
  by (relation "measure (\<lambda>(env, s, seg, n, now). 20 - unat (msslevel s))")
    (auto dest!: packet_msslevel shrink_level)

declare transmit_loop.simps [simp del]

text \<open>What \<open>transmit\<close> does with a segment once \<open>n\<close> of its bytes are on their way.\<close>

definition split_segment :: "'u pseudo_tcp \<Rightarrow> ssegment \<Rightarrow> u32 \<Rightarrow> 'u pseudo_tcp option" where
  "split_segment s seg n =
    (let sub = \<lparr>sseg_id = next_seg s, sseg_seq = sseg_seq seg + n, sseg_len = sseg_len seg - n,
               sseg_xmit = sseg_xmit seg, sseg_flags = sseg_flags seg\<rparr>
     in do {
       sl \<leftarrow> insert_after (\<lambda>x. sseg_id x = sseg_id seg) sub
         (upd_seg (sseg_id seg) (\<lambda>x. x\<lparr>sseg_len := n\<rparr>) (slist s));
       ul \<leftarrow> (if sseg_xmit seg = 0 then insert_after (\<lambda>i. i = sseg_id seg) (next_seg s) (unsent_slist s)
             else Some (unsent_slist s));
       Some (s\<lparr>slist := sl, unsent_slist := ul, next_seg := Suc (next_seg s)\<rparr>) })"

definition mark_sent :: "'u pseudo_tcp \<Rightarrow> ssegment \<Rightarrow> u32 \<Rightarrow> u32 \<Rightarrow> 'u pseudo_tcp option" where
  "mark_sent s seg n now = do {
     s \<leftarrow> (if sseg_xmit seg = 0 then
         case unsent_slist s of
           [] \<Rightarrow> None
         | i # is \<Rightarrow> if i = sseg_id seg
             then Some (s\<lparr>unsent_slist := is, snd_nxt := snd_nxt s + n +
               (if n = 0 \<and> sseg_flags seg AND FLAG_FIN \<noteq> 0 then 1 else 0)\<rparr>)
             else None
       else Some s);
     let s = s\<lparr>slist := upd_seg (sseg_id seg) (\<lambda>x. x\<lparr>sseg_xmit := sseg_xmit x + 1\<rparr>) (slist s)\<rparr>;
     Some (if rto_base s = 0 then s\<lparr>rto_base := now\<rparr> else s) }"

definition transmit :: "'u tcp_env \<Rightarrow> 'u pseudo_tcp \<Rightarrow> nat \<Rightarrow> u32 \<Rightarrow> (bool \<times> 'u pseudo_tcp) option" where
  "transmit env s i now = do {
     seg \<leftarrow> find_seg i (slist s);
     if sseg_xmit seg \<ge> (if state s = TCP_ESTABLISHED then 15 else 30) then Some (False, s)
     else do {
       (r, s) \<leftarrow> transmit_loop env s seg (min (sseg_len seg) (mss s)) now;
       case r of
         None \<Rightarrow> Some (False, s)
       | Some n \<Rightarrow> do {
           s \<leftarrow> (if n < sseg_len seg then split_segment s seg n else Some s);
           s \<leftarrow> mark_sent s seg n now;
           Some (True, s) } } }"

section \<open>The send loop\<close>

text \<open>How much may be sent now: the window, the part of it in use, and what fits in a segment.\<close>

definition send_window :: "'u pseudo_tcp \<Rightarrow> u32" where
  "send_window s = min (snd_wnd s)
     (if dup_acks s = 1 \<or> dup_acks s = 2 then cwnd s + ucast (dup_acks s) * mss s else cwnd s)"

definition send_available :: "'u pseudo_tcp \<Rightarrow> u32" where
  "send_available s =
    (let nWindow = send_window s;
         nInFlight = snd_nxt s - snd_una s;
         nUseable = (if nInFlight < nWindow then nWindow - nInFlight else 0);
         snd_buffered = pseudo_tcp_fifo_get_buffered (sbuf s);
         nAvailable = (if snd_buffered < unat nInFlight then 0
           else of_nat (min (snd_buffered - unat nInFlight) (unat (mss s))))
     in if nAvailable > nUseable
        then if nUseable * 4 < nWindow then 0 else nUseable
        else nAvailable)"

abbreviation closing_flags :: "send_flags \<Rightarrow> bool" where
  "closing_flags f \<equiv> f = sfFin \<or> f = sfRst"

text \<open>One round of the loop: whether to go on, and the flags for the next round.\<close>

definition send_step :: "'u tcp_env \<Rightarrow> 'u pseudo_tcp \<Rightarrow> send_flags \<Rightarrow> u32 \<Rightarrow>
    (bool \<times> send_flags \<times> 'u pseudo_tcp) option" where
  "send_step env s sflags now =
    (let nAvailable = send_available s in
     if nAvailable = 0 \<and> \<not> closing_flags sflags then
       if sflags = sfNone then Some (False, sflags, s)
       else if sflags = sfImmediateAck \<or> t_ack s \<noteq> 0 then do {
         (_, s) \<leftarrow> packet env s (snd_nxt s) 0 0 0 now;
         Some (False, sflags, s) }
       else Some (False, sflags, s\<lparr>t_ack := now\<rparr>)
     else if use_nagling s \<and> \<not> closing_flags sflags \<and> snd_nxt s > snd_una s \<and> nAvailable < mss s
     then Some (False, sflags, s)
     else case unsent_slist s of
       [] \<Rightarrow> Some (False, sflags, s)
     | i # is \<Rightarrow> do {
         sseg \<leftarrow> find_seg i (slist s);
         s \<leftarrow> (if sseg_len sseg > nAvailable \<and> \<not> closing_flags sflags
              then split_segment s (sseg\<lparr>sseg_xmit := 0\<rparr>) nAvailable else Some s);
         (ok, s) \<leftarrow> transmit env s i now;
         if ok then Some (True, if sflags = sfImmediateAck \<or> sflags = sfDelayedAck then sfNone else sflags, s)
         else Some (False, sflags, s) })"

text \<open>The loop may be entered with a maximum segment size of zero, and then need not end.\<close>

partial_function (option) send_loop :: "'u tcp_env \<Rightarrow> 'u pseudo_tcp \<Rightarrow> send_flags \<Rightarrow> u32 \<Rightarrow>
    'u pseudo_tcp option" where
  "send_loop env s sflags now =
     Option.bind (send_step env s sflags now) (\<lambda>(go, sflags, s).
       if go then send_loop env s sflags now else Some s)"

declare send_loop.simps [code]

definition attempt_send :: "'u tcp_env \<Rightarrow> 'u pseudo_tcp \<Rightarrow> send_flags \<Rightarrow> 'u pseudo_tcp option" where
  "attempt_send env s sflags =
    (let now = get_current_time env s;
         s = (if time_diff now (lastsend s) > int (unat (rx_rto s)) then s\<lparr>cwnd := mss s\<rparr> else s)
     in send_loop env s sflags now)"

section \<open>Closing down\<close>

fun closing_path :: "tcp_state \<Rightarrow> tcp_state list" where
  "closing_path TCP_SYN_RECEIVED = [TCP_FIN_WAIT_1, TCP_FIN_WAIT_2, TCP_TIME_WAIT]"
| "closing_path TCP_ESTABLISHED = [TCP_FIN_WAIT_1, TCP_FIN_WAIT_2, TCP_TIME_WAIT]"
| "closing_path TCP_FIN_WAIT_1 = [TCP_FIN_WAIT_2, TCP_TIME_WAIT]"
| "closing_path TCP_FIN_WAIT_2 = [TCP_TIME_WAIT]"
| "closing_path TCP_CLOSING = [TCP_TIME_WAIT]"
| "closing_path TCP_CLOSE_WAIT = [TCP_LAST_ACK]"
| "closing_path _ = []"

fun set_states :: "'u pseudo_tcp \<Rightarrow> tcp_state list \<Rightarrow> 'u pseudo_tcp option" where
  "set_states s [] = Some s"
| "set_states s (st # sts) = do { s \<leftarrow> set_state s st; set_states s sts }"

definition closedown :: "'u tcp_env \<Rightarrow> 'u pseudo_tcp \<Rightarrow> u32 \<Rightarrow> closedown_source \<Rightarrow>
    'u pseudo_tcp option" where
  "closedown env s err source = do {
     s \<leftarrow> (if source = CLOSEDOWN_LOCAL \<and> support_fin_ack s then do {
         s \<leftarrow> queue_rst_message s;
         attempt_send env s sfRst }
       else if source = CLOSEDOWN_LOCAL then Some (s\<lparr>shutdown := SD_FORCEFUL\<rparr>)
       else Some s);
     s \<leftarrow> set_states s (closing_path (state s));
     set_state_closed env s err }"

end
