(* ===== verification/Tcp_Input.thy ===== *)
theory Tcp_Input
  imports Tcp_Output
begin

unbundle bit_operations_syntax

text \<open>
  The receiving side of the pseudo-TCP socket: options of the connect message, parsing a
  packet, and \<open>process\<close>, one definition per step of that function: control messages,
  acknowledgements with round-trip and congestion bookkeeping, the FIN state machine, and the
  reassembly of data. From \<open>agent/pseudotcp.c\<close>.
\<close>

section \<open>Options\<close>

text \<open>The loop that halves the size until it fits in 16 bits: the scale factor and the rest.\<close>

function scale_factor :: "u32 \<Rightarrow> u8 \<Rightarrow> u8 \<times> u32" where
  "scale_factor new_size k =
    (if new_size > 0xFFFF then scale_factor (drop_bit 1 new_size) (k + 1) else (k, new_size))"
  by pat_completeness auto
termination
proof (relation "measure (\<lambda>(n, k). unat n)", goal_cases)
  case (2 n k)
  then have "0 < unat n" by (simp add: word_less_nat_alt)
  then show ?case by (simp add: drop_bit_eq_div unat_div)
qed simp

declare scale_factor.simps [simp del]

definition resize_send_buffer :: "'u tcp_env \<Rightarrow> 'u pseudo_tcp \<Rightarrow> u32 \<Rightarrow> 'u pseudo_tcp option" where
  "resize_send_buffer env s new_size = do {
     (_, b) \<leftarrow> pseudo_tcp_fifo_set_capacity (env_alloc env (unat new_size)) (sbuf s) (unat new_size);
     Some (s\<lparr>sbuf_len := new_size, sbuf := b\<rparr>) }"

definition resize_receive_buffer :: "'u tcp_env \<Rightarrow> 'u pseudo_tcp \<Rightarrow> u32 \<Rightarrow> 'u pseudo_tcp option" where
  "resize_receive_buffer env s new_size =
    (if rbuf_len s = new_size then Some s
     else do {
       let (k, size) = scale_factor new_size 0;
       let size = push_bit (unat k) size;
       (result, b) \<leftarrow> pseudo_tcp_fifo_set_capacity (env_alloc env (unat size)) (rbuf s) (unat size);
       if result then
         Some (s\<lparr>rbuf := b, rbuf_len := size, rwnd_scale := k, ssthresh := size,
                rcv_wnd := of_nat (pseudo_tcp_fifo_get_write_remaining b)\<rparr>)
       else None })"

definition apply_window_scale_option :: "'u pseudo_tcp \<Rightarrow> u8 \<Rightarrow> 'u pseudo_tcp" where
  "apply_window_scale_option s k = s\<lparr>swnd_scale := k\<rparr>"

definition apply_fin_ack_option :: "'u pseudo_tcp \<Rightarrow> 'u pseudo_tcp" where
  "apply_fin_ack_option s = s\<lparr>support_fin_ack := True\<rparr>"

definition apply_option :: "'u pseudo_tcp \<Rightarrow> u8 \<Rightarrow> bytes \<Rightarrow> 'u pseudo_tcp" where
  "apply_option s kind data =
    (if kind = TCP_OPT_WND_SCALE then
       case data of [k] \<Rightarrow> apply_window_scale_option s k | _ \<Rightarrow> s
     else if kind = TCP_OPT_FIN_ACK then apply_fin_ack_option s
     else s)"

text \<open>
  The option loop on the bytes from the current position on: whether it ran to its end (the early
  returns skip what follows the loop), which options were seen, and the socket.
\<close>

fun parse_options_from :: "bytes \<Rightarrow> bool \<Rightarrow> bool \<Rightarrow> 'u pseudo_tcp \<Rightarrow>
    bool \<times> bool \<times> bool \<times> 'u pseudo_tcp" where
  "parse_options_from [] wnd fin s = (True, wnd, fin, s)"
| "parse_options_from (kind # rest) wnd fin s =
    (if kind = TCP_OPT_EOL then (True, wnd, fin, s)
     else if kind = TCP_OPT_NOOP then parse_options_from rest wnd fin s
     else case rest of
       [] \<Rightarrow> (False, wnd, fin, s)
     | opt_len # rest \<Rightarrow>
         if length rest < unat opt_len then (False, wnd, fin, s)
         else parse_options_from (drop (unat opt_len) rest)
           (wnd \<or> kind = TCP_OPT_WND_SCALE) (fin \<or> kind = TCP_OPT_FIN_ACK)
           (apply_option s kind (take (unat opt_len) rest)))"

definition parse_options :: "'u tcp_env \<Rightarrow> 'u pseudo_tcp \<Rightarrow> bytes \<Rightarrow> 'u pseudo_tcp option" where
  "parse_options env s data =
    (let (complete, has_wnd, has_fin, s) = parse_options_from data False False s in
     if \<not> complete then Some s
     else do {
       s \<leftarrow> (if \<not> has_wnd \<and> rwnd_scale s > 0 then do {
           s \<leftarrow> resize_receive_buffer env s DEFAULT_RCV_BUF_SIZE;
           Some (s\<lparr>swnd_scale := 0\<rparr>) }
         else Some s);
       Some (if \<not> has_fin then s\<lparr>support_fin_ack := False\<rparr> else s) })"

section \<open>Acknowledgements\<close>

definition process_control :: "'u tcp_env \<Rightarrow> segment \<Rightarrow> 'u pseudo_tcp \<Rightarrow>
    (bool \<times> bool \<times> 'u pseudo_tcp) option" where
  "process_control env seg s =
    (if seg_flags seg AND FLAG_CTL = 0 then Some (True, False, s)
     else case seg_data seg of
       [] \<Rightarrow> Some (False, False, s)
     | c # opts \<Rightarrow>
         if c \<noteq> CTL_CONNECT then Some (False, False, s)
         else do {
           s \<leftarrow> parse_options env s opts;
           s \<leftarrow> (if state s = TCP_LISTEN then do {
                 s \<leftarrow> set_state s TCP_SYN_RECEIVED; queue_connect_message s }
               else if state s = TCP_SYN_SENT then set_state_established env s
               else Some s);
           Some (True, True, s) })"

definition update_timestamp :: "segment \<Rightarrow> 'u pseudo_tcp \<Rightarrow> 'u pseudo_tcp" where
  "update_timestamp seg s =
    (if SMALLER_OR_EQUAL (seg_seq seg) (ts_lastack s) \<and> SMALLER (ts_lastack s) (seg_seq seg + seg_len seg)
     then s\<lparr>ts_recent := seg_tsval seg\<rparr> else s)"

text \<open>The smoothed round-trip time; a \<open>long\<close> has 64 bits. False for an echo from the future.\<close>

definition update_rtt :: "u32 \<Rightarrow> u32 \<Rightarrow> 'u pseudo_tcp \<Rightarrow> bool \<times> 'u pseudo_tcp" where
  "update_rtt now tsecr s =
    (if tsecr = 0 then (True, s)
     else let rtt = time_diff now tsecr in
       if rtt \<ge> 0 then
         let (srtt, var) =
           (if rx_srtt s = 0 then (of_int rtt, of_int (rtt div 2))
            else (of_int ((uint (7 * rx_srtt s) + rtt) div 8),
                  (3 * rx_rttvar s + of_int \<bar>gint32 (rtt - uint (rx_srtt s))\<bar>) div 4))
         in (True, s\<lparr>rx_srtt := srtt, rx_rttvar := var,
               rx_rto := bound MIN_RTO (srtt + max 1 (4 * var)) MAX_RTO\<rparr>)
       else (False, s))"

definition peer_window :: "segment \<Rightarrow> 'u pseudo_tcp \<Rightarrow> u32 option" where
  "peer_window seg s =
    (if unat (swnd_scale s) < 32 then Some (push_bit (unat (swnd_scale s)) (ucast (seg_wnd seg))) else None)"

text \<open>Freeing acknowledged segments from the head of the queue, and the largest one freed.\<close>

fun free_acked :: "u32 \<Rightarrow> ssegment list \<Rightarrow> u32 \<Rightarrow> (ssegment list \<times> u32) option" where
  "free_acked n [] big = (if n = 0 then Some ([], big) else None)"
| "free_acked n (d # ds) big =
    (if n = 0 then Some (d # ds, big)
     else if n < sseg_len d then
       Some (d\<lparr>sseg_len := sseg_len d - n, sseg_seq := sseg_seq d + n\<rparr> # ds, big)
     else free_acked (n - sseg_len d) ds (if sseg_len d > big then sseg_len d else big))"

text \<open>Retransmit the first segment, and close the socket when that fails.\<close>

definition retransmit_head :: "'u tcp_env \<Rightarrow> 'u pseudo_tcp \<Rightarrow> u32 \<Rightarrow> (bool \<times> 'u pseudo_tcp) option" where
  "retransmit_head env s now =
    (case slist s of
       [] \<Rightarrow> None
     | seg # _ \<Rightarrow> do {
         (ok, s) \<leftarrow> transmit env s (sseg_id seg) now;
         if ok then Some (True, s)
         else do { s \<leftarrow> closedown env s ECONNABORTED CLOSEDOWN_LOCAL; Some (False, s) } })"

text \<open>The congestion window after new data was acknowledged.\<close>

definition grow_window :: "'u tcp_env \<Rightarrow> 'u pseudo_tcp \<Rightarrow> u32 \<Rightarrow> u32 \<Rightarrow> (bool \<times> 'u pseudo_tcp) option" where
  "grow_window env s nAcked now =
    (if dup_acks s \<ge> 3 then
       if LARGER_OR_EQUAL (snd_una s) (recover s) then
         Some (True, s\<lparr>cwnd := min (ssthresh s) (snd_nxt s - snd_una s + mss s), dup_acks := 0\<rparr>)
       else do {
         (ok, s) \<leftarrow> retransmit_head env s now;
         Some (ok, if ok then s\<lparr>cwnd := cwnd s + (mss s - min nAcked (cwnd s))\<rparr> else s) }
     else if cwnd s < ssthresh s then Some (True, s\<lparr>dup_acks := 0, cwnd := cwnd s + mss s\<rparr>)
     else if cwnd s = 0 then None
     else Some (True, s\<lparr>dup_acks := 0, cwnd := cwnd s + max 1 (mss s * mss s div cwnd s)\<rparr>))"

text \<open>An acknowledgement of new data: success, whether it covers our FIN, and the socket.\<close>

definition process_valuable_ack :: "'u tcp_env \<Rightarrow> segment \<Rightarrow> u32 \<Rightarrow> 'u pseudo_tcp \<Rightarrow>
    (bool \<times> bool \<times> 'u pseudo_tcp) option" where
  "process_valuable_ack env seg now s =
    (let (ok, s) = update_rtt now (seg_tsecr seg) s in
     if \<not> ok then Some (False, False, s)
     else do {
       wnd \<leftarrow> peer_window seg s;
       let nAcked = seg_ack seg - snd_una s;
       let s = s\<lparr>snd_wnd := wnd, snd_una := seg_ack seg,
                 rto_base := (if seg_ack seg = snd_nxt s then 0 else now)\<rparr>;
       let is_fin_ack = (unat nAcked = data_length (sbuf s) + 1 \<and> pseudo_tcp_state_has_sent_fin (state s));
       let nAcked = (if is_fin_ack then nAcked - 1 else nAcked);
       b \<leftarrow> pseudo_tcp_fifo_consume_read_data (sbuf s) (unat nAcked);
       (sl, big) \<leftarrow> free_acked nAcked (slist s) (largest s);
       (ok, s) \<leftarrow> grow_window env (s\<lparr>sbuf := b, slist := sl, largest := big\<rparr>) nAcked now;
       Some (ok, is_fin_ack, s) })"

definition process_duplicate_ack :: "'u tcp_env \<Rightarrow> segment \<Rightarrow> u32 \<Rightarrow> 'u pseudo_tcp \<Rightarrow>
    (bool \<times> bool \<times> 'u pseudo_tcp) option" where
  "process_duplicate_ack env seg now s = do {
     wnd \<leftarrow> peer_window seg s;
     let s = s\<lparr>snd_wnd := wnd\<rparr>;
     if seg_data seg \<noteq> [] then Some (True, False, s)
     else if snd_una s \<noteq> snd_nxt s then do {
       let s = s\<lparr>dup_acks := dup_acks s + 1\<rparr>;
       if dup_acks s = 3 then do {
         (ok, s) \<leftarrow> retransmit_head env s now;
         if \<not> ok then Some (False, False, s)
         else do {
           let thresh = max ((snd_nxt s - snd_una s) div 2) (2 * mss s);
           Some (True, False, s\<lparr>recover := snd_nxt s, ssthresh := thresh, cwnd := thresh + 3 * mss s\<rparr>) } }
       else Some (True, False, if dup_acks s > 3 then s\<lparr>cwnd := cwnd s + mss s\<rparr> else s) }
     else Some (True, False, s\<lparr>dup_acks := 0\<rparr>) }"

definition process_ack :: "'u tcp_env \<Rightarrow> segment \<Rightarrow> u32 \<Rightarrow> 'u pseudo_tcp \<Rightarrow>
    (bool \<times> bool \<times> 'u pseudo_tcp) option" where
  "process_ack env seg now s =
    (if LARGER (seg_ack seg) (snd_una s) \<and> SMALLER_OR_EQUAL (seg_ack seg) (snd_nxt s)
     then process_valuable_ack env seg now s
     else if seg_ack seg = snd_una s then process_duplicate_ack env seg now s
     else Some (True, False, s))"

section \<open>Connection closure\<close>

definition process_close :: "'u tcp_env \<Rightarrow> segment \<Rightarrow> bool \<Rightarrow> 'u pseudo_tcp \<Rightarrow>
    (bool \<times> 'u pseudo_tcp) option" where
  "process_close env seg is_fin_ack s =
    (let fin = (seg_flags seg AND FLAG_FIN \<noteq> 0) in
     if \<not> support_fin_ack s then Some (True, s)
     else if fin \<and> seg_data seg \<noteq> [] then Some (False, s)
     else map_option (Pair True)
       (case state s of
          TCP_ESTABLISHED \<Rightarrow> if fin then set_state s TCP_CLOSE_WAIT else Some s
        | TCP_CLOSING \<Rightarrow> if is_fin_ack then set_state s TCP_TIME_WAIT else Some s
        | TCP_LAST_ACK \<Rightarrow> if is_fin_ack then set_state_closed env s 0 else Some s
        | TCP_FIN_WAIT_1 \<Rightarrow>
            if is_fin_ack \<and> fin then set_state s TCP_TIME_WAIT
            else if is_fin_ack then set_state s TCP_FIN_WAIT_2
            else if fin then set_state s TCP_CLOSING
            else Some s
        | TCP_FIN_WAIT_2 \<Rightarrow> if fin then set_state s TCP_TIME_WAIT else Some s
        | _ \<Rightarrow> Some s))"

section \<open>Incoming data\<close>

definition notify_writable :: "'u tcp_env \<Rightarrow> 'u pseudo_tcp \<Rightarrow> 'u pseudo_tcp option" where
  "notify_writable env s =
    (let kIdealRefillSize = (sbuf_len s + rbuf_len s) div 2 in
     if bWriteEnable s \<and> pseudo_tcp_fifo_get_buffered (sbuf s) < unat kIdealRefillSize
     then PseudoTcpWritable env (s\<lparr>bWriteEnable := False\<rparr>) else Some s)"

definition ack_flags :: "segment \<Rightarrow> 'u pseudo_tcp \<Rightarrow> send_flags \<times> 'u pseudo_tcp" where
  "ack_flags seg s =
    (if seg_seq seg \<noteq> rcv_nxt s then (sfImmediateAck, s)
     else if seg_data seg \<noteq> [] then (if ack_delay s = 0 then sfImmediateAck else sfDelayedAck, s)
     else if seg_flags seg AND FLAG_FIN \<noteq> 0 then (sfImmediateAck, s\<lparr>rcv_nxt := rcv_nxt s + 1\<rparr>)
     else (sfNone, s))"

text \<open>Cutting the segment to what is new and to what fits in the receive buffer.\<close>

definition trim_old :: "segment \<Rightarrow> u32 \<Rightarrow> segment" where
  "trim_old seg nxt =
    (if SMALLER (seg_seq seg) nxt then
       let nAdjust = nxt - seg_seq seg in
       if nAdjust < seg_len seg
       then seg\<lparr>seg_seq := seg_seq seg + nAdjust, seg_data := drop (unat nAdjust) (seg_data seg)\<rparr>
       else seg\<lparr>seg_data := []\<rparr>
     else seg)"

definition trim_new :: "segment \<Rightarrow> u32 \<Rightarrow> nat \<Rightarrow> segment" where
  "trim_new seg nxt available =
    (if unat (seg_seq seg + seg_len seg - nxt) > available then
       let nAdjust = seg_seq seg + seg_len seg - nxt - of_nat available in
       if nAdjust < seg_len seg
       then seg\<lparr>seg_data := take (unat (seg_len seg - nAdjust)) (seg_data seg)\<rparr>
       else seg\<lparr>seg_data := []\<rparr>
     else seg)"

definition fit_segment :: "segment \<Rightarrow> 'u pseudo_tcp \<Rightarrow> segment" where
  "fit_segment seg s =
     trim_new (trim_old seg (rcv_nxt s)) (rcv_nxt s) (pseudo_tcp_fifo_get_write_remaining (rbuf s))"

text \<open>The stored segments that have become contiguous are taken into the data.\<close>

fun recover_segments :: "rsegment list \<Rightarrow> u32 \<Rightarrow> u32 \<Rightarrow> fifo \<Rightarrow> send_flags \<Rightarrow>
    (rsegment list \<times> u32 \<times> u32 \<times> fifo \<times> send_flags) option" where
  "recover_segments [] nxt wnd b fl = Some ([], nxt, wnd, b, fl)"
| "recover_segments (d # ds) nxt wnd b fl =
    (if SMALLER_OR_EQUAL (rseg_seq d) nxt then
       if LARGER (rseg_seq d + rseg_len d) nxt then do {
         let nAdjust = rseg_seq d + rseg_len d - nxt;
         b \<leftarrow> pseudo_tcp_fifo_consume_write_buffer b (unat nAdjust);
         recover_segments ds (nxt + nAdjust) (wnd - nAdjust) b sfImmediateAck }
       else recover_segments ds nxt wnd b fl
     else Some (d # ds, nxt, wnd, b, fl))"

fun insert_rseg :: "rsegment \<Rightarrow> rsegment list \<Rightarrow> rsegment list" where
  "insert_rseg r [] = [r]"
| "insert_rseg r (x # xs) = (if SMALLER (rseg_seq x) (rseg_seq r) then x # insert_rseg r xs else r # x # xs)"

definition store_data :: "segment \<Rightarrow> send_flags \<Rightarrow> 'u pseudo_tcp \<Rightarrow>
    (bool \<times> send_flags \<times> 'u pseudo_tcp) option" where
  "store_data seg fl s =
    (let bIgnoreData = (seg_flags seg AND FLAG_CTL \<noteq> 0 \<or> (\<not> support_fin_ack s \<and> shutdown s \<noteq> SD_NONE)) in
     if seg_flags seg AND FLAG_FIN \<noteq> 0 then
       Some (False, fl, if seg_seq seg = rcv_nxt s then s\<lparr>rcv_nxt := rcv_nxt s + 1\<rparr> else s)
     else if seg_data seg = [] then Some (False, fl, s)
     else if bIgnoreData then
       Some (False, fl, if seg_seq seg = rcv_nxt s then s\<lparr>rcv_nxt := rcv_nxt s + seg_len seg\<rparr> else s)
     else do {
       (res, b) \<leftarrow> pseudo_tcp_fifo_write_offset (rbuf s) (seg_data seg) (unat (seg_seq seg - rcv_nxt s));
       if res \<noteq> length (seg_data seg) then None
       else if seg_seq seg = rcv_nxt s then do {
         b \<leftarrow> pseudo_tcp_fifo_consume_write_buffer b (length (seg_data seg));
         (rl, nxt, wnd, b, fl) \<leftarrow> recover_segments (rlist s) (rcv_nxt s + seg_len seg)
            (rcv_wnd s - seg_len seg) b fl;
         Some (True, fl, s\<lparr>rbuf := b, rlist := rl, rcv_nxt := nxt, rcv_wnd := wnd\<rparr>) }
       else
         Some (False, fl, s\<lparr>rbuf := b, rlist :=
           insert_rseg \<lparr>rseg_seq = seg_seq seg, rseg_len = seg_len seg\<rparr> (rlist s)\<rparr>) })"

section \<open>Processing a segment\<close>

definition process_data :: "'u tcp_env \<Rightarrow> segment \<Rightarrow> 'u pseudo_tcp \<Rightarrow> (bool \<times> 'u pseudo_tcp) option" where
  "process_data env seg s = do {
     s \<leftarrow> notify_writable env s;
     let (fl, s) = ack_flags seg s;
     (bNewData, fl, s) \<leftarrow> store_data (fit_segment seg s) fl s;
     s \<leftarrow> attempt_send env s fl;
     s \<leftarrow> (if bNewData \<and> bReadEnable s then PseudoTcpReadable env s else Some s);
     Some (True, s) }"

definition process :: "'u tcp_env \<Rightarrow> 'u pseudo_tcp \<Rightarrow> segment \<Rightarrow> (bool \<times> 'u pseudo_tcp) option" where
  "process env s seg =
    (if seg_conv seg \<noteq> conv s then Some (False, s)
     else let now = get_current_time env s;
              s = s\<lparr>last_traffic := now, lastrecv := now, bOutgoing := False\<rparr> in
       if state s = TCP_CLOSED \<or> (pseudo_tcp_state_has_sent_fin (state s) \<and> seg_data seg \<noteq> []) then do {
         s \<leftarrow> (if seg_flags seg AND FLAG_RST = 0 then closedown env s 0 CLOSEDOWN_LOCAL else Some s);
         Some (False, s) }
       else if seg_flags seg AND FLAG_RST \<noteq> 0 then do {
         s \<leftarrow> closedown env s ECONNRESET CLOSEDOWN_REMOTE;
         Some (False, s) }
       else do {
         (ok, bConnect, s) \<leftarrow> process_control env seg s;
         if \<not> ok then Some (False, s)
         else do {
           (ok, is_fin_ack, s) \<leftarrow> process_ack env seg now (update_timestamp seg s);
           if \<not> ok then Some (False, s)
           else do {
             s \<leftarrow> (if state s = TCP_SYN_RECEIVED \<and> \<not> bConnect then set_state_established env s else Some s);
             (ok, s) \<leftarrow> process_close env seg is_fin_ack s;
             if \<not> ok then Some (False, s) else process_data env seg s } } })"

text \<open>Reading a header in network byte order.\<close>

definition be32_at :: "bytes \<Rightarrow> nat \<Rightarrow> u32 option" where
  "be32_at m i = do { bs \<leftarrow> rdn m i 4; Some (htonl (of_host_bytes32 bs)) }"

definition parse_segment :: "bytes \<Rightarrow> bytes \<Rightarrow> segment option" where
  "parse_segment h data = do {
     cv \<leftarrow> be32_at h 0;
     seq \<leftarrow> be32_at h 4;
     ack \<leftarrow> be32_at h 8;
     flags \<leftarrow> rd h 13;
     w1 \<leftarrow> rd h 14;
     w2 \<leftarrow> rd h 15;
     tsval \<leftarrow> be32_at h 16;
     tsecr \<leftarrow> be32_at h 20;
     Some \<lparr>seg_conv = cv, seg_seq = seq, seg_ack = ack, seg_flags = flags, seg_wnd = be16 w1 w2,
       seg_tsval = tsval, seg_tsecr = tsecr, seg_data = data\<rparr> }"

definition parse :: "'u tcp_env \<Rightarrow> 'u pseudo_tcp \<Rightarrow> bytes \<Rightarrow> bytes \<Rightarrow> (bool \<times> 'u pseudo_tcp) option" where
  "parse env s header data =
    (if length header \<noteq> 24 then Some (False, s)
     else do { seg \<leftarrow> parse_segment header data; process env s seg })"

end
