(* ===== verification/Tcp_Send.thy ===== *)
theory Tcp_Send
  imports Tcp_Input
begin

unbundle bit_operations_syntax

text \<open>
  Sending: the invariant of the send queue (the segments lie side by side in the send buffer, the
  ones not sent yet are exactly the unsent list), and with it that \<open>attempt_send\<close> ends, keeps
  the invariant, fails none of its assertions, and hands only packets to the network that carry
  the bytes of the send buffer at the place their sequence number says.
\<close>

section \<open>The send queue\<close>

definition queued :: "ssegment list \<Rightarrow> nat" where
  "queued xs = sum_list (map (\<lambda>x. unat (sseg_len x)) xs)"

lemma queued_simps [simp]:
  "queued [] = 0" "queued (x # xs) = unat (sseg_len x) + queued xs" "queued (xs @ ys) = queued xs + queued ys"
  by (simp_all add: queued_def)

fun laid_out :: "u32 \<Rightarrow> ssegment list \<Rightarrow> bool" where
  "laid_out b [] = True"
| "laid_out b (x # xs) \<longleftrightarrow> sseg_seq x = b \<and> laid_out (b + sseg_len x) xs"

lemma laid_out_append [simp]:
  "laid_out b (xs @ ys) \<longleftrightarrow> laid_out b xs \<and> laid_out (b + of_nat (queued xs)) ys"
  by (induction xs arbitrary: b) (auto simp: add.assoc)

definition snd_limits :: "'u pseudo_tcp \<Rightarrow> bool" where
  "snd_limits s \<longleftrightarrow> wf_fifo (sbuf s) \<and> buffer_length (sbuf s) \<le> 2 ^ 26 \<and> 0 < mss s \<and> mss s \<le> 65419 \<and>
     msslevel s \<le> 9 \<and> unat (rwnd_scale s) < 32"

definition snd_lists :: "ssegment list \<Rightarrow> ssegment list \<Rightarrow> 'u pseudo_tcp \<Rightarrow> bool" where
  "snd_lists sent unsent s \<longleftrightarrow> slist s = sent @ unsent \<and> unsent_slist s = map sseg_id unsent \<and>
     distinct (map sseg_id (sent @ unsent)) \<and> (\<forall>x \<in> set (sent @ unsent). sseg_id x < next_seg s) \<and>
     (\<forall>x \<in> set sent. sseg_xmit x \<noteq> 0) \<and> (\<forall>x \<in> set unsent. sseg_xmit x = 0) \<and>
     laid_out (snd_una s) (sent @ unsent) \<and> queued (sent @ unsent) = data_length (sbuf s)"

definition snd_ok :: "'u pseudo_tcp \<Rightarrow> bool" where
  "snd_ok s \<longleftrightarrow> snd_limits s \<and> (\<exists>sent unsent. snd_lists sent unsent s)"

section \<open>Operations on the list of segments\<close>

lemma find_seg_middle:
  "\<forall>y \<in> set a. sseg_id y \<noteq> sseg_id x \<Longrightarrow> find_seg (sseg_id x) (a @ x # b) = Some x"
  by (induction a) (auto simp: find_seg_def)

lemma upd_seg_middle:
  "\<forall>y \<in> set (a @ b). sseg_id y \<noteq> sseg_id x \<Longrightarrow> upd_seg (sseg_id x) f (a @ x # b) = a @ f x # b"
  by (auto simp: upd_seg_def intro!: map_idI)

lemma others_differ: "distinct (map f (a @ x # b)) \<Longrightarrow> \<forall>y \<in> set (a @ b). f y \<noteq> f x"
  by (induction a) (auto, metis imageI)

lemma insert_after_middle:
  "\<forall>y \<in> set a. \<not> P y \<Longrightarrow> P x \<Longrightarrow> insert_after P new (a @ x # b) = Some (a @ x # new # b)"
  by (induction a) auto

lemma segment_place:
  assumes "laid_out una (a @ x # b)" and "queued (a @ x # b) = dl" and "dl \<le> 2 ^ 26"
  shows "sseg_seq x - una = of_nat (queued a)" and "unat (sseg_seq x - una) = queued a"
    and "queued a + unat (sseg_len x) \<le> dl"
proof -
  show d: "sseg_seq x - una = of_nat (queued a)" using assms(1) by simp
  show "queued a + unat (sseg_len x) \<le> dl" using assms(2) by simp
  then show "unat (sseg_seq x - una) = queued a" unfolding d using assms(3) by (intro unat_u32) simp
qed

text \<open>Cutting a segment in two keeps the layout.\<close>

lemma laid_out_split:
  assumes "n \<le> sseg_len x"
  shows "laid_out una (a @ x\<lparr>sseg_len := n\<rparr> # \<lparr>sseg_id = j, sseg_seq = sseg_seq x + n,
      sseg_len = sseg_len x - n, sseg_xmit = c, sseg_flags = f\<rparr> # b) \<longleftrightarrow> laid_out una (a @ x # b)"
    and "queued (a @ x\<lparr>sseg_len := n\<rparr> # \<lparr>sseg_id = j, sseg_seq = sseg_seq x + n,
      sseg_len = sseg_len x - n, sseg_xmit = c, sseg_flags = f\<rparr> # b) = queued (a @ x # b)"
  using assms by (auto simp: unat_sub word_le_nat_alt algebra_simps)

section \<open>Packets\<close>

text \<open>A packet whose payload, if any, is what the send buffer holds at its sequence number.\<close>

definition genuine :: "fifo \<Rightarrow> u32 \<Rightarrow> bytes \<Rightarrow> bool" where
  "genuine b una pkt \<longleftrightarrow> (\<exists>cv seq ack flags wnd tsval tsecr payload.
     pkt = packet_header cv seq ack flags wnd tsval tsecr @ payload \<and>
     length payload \<le> 65419 \<and> (payload \<noteq> [] \<longrightarrow> unat (seq - una) + length payload \<le> data_length b \<and>
        payload = take (length payload) (drop (unat (seq - una)) (contents b))))"

text \<open>An observer of the network that accepts every such packet.\<close>

definition accepts :: "'u tcp_env \<Rightarrow> ('u \<Rightarrow> bool) \<Rightarrow> fifo \<Rightarrow> u32 \<Rightarrow> bool" where
  "accepts env I b una \<longleftrightarrow> (\<forall>u pkt. I u \<and> genuine b una pkt \<longrightarrow> I (snd (WritePacket env u pkt)))"

definition snd_core :: "'u pseudo_tcp \<Rightarrow> ssegment list \<times> nat list \<times> nat \<times> u32 \<times> u32 \<times> fifo \<times> u8" where
  "snd_core s = (slist s, unsent_slist s, next_seg s, snd_una s, snd_nxt s, sbuf s, rwnd_scale s)"

lemma packet_ok:
  assumes "wf_fifo (sbuf s)" and "unat (rwnd_scale s) < 32" and "len \<le> 65419"
    and "len \<noteq> 0 \<Longrightarrow> unat ofs + unat len \<le> data_length (sbuf s)" and "len \<noteq> 0 \<Longrightarrow> ofs = seq - snd_una s"
    and "accepts env I (sbuf s) (snd_una s)" and "I (user_data s)"
  shows "\<exists>w s'. packet env s seq fl ofs len now = Some (w, s') \<and> snd_core s' = snd_core s \<and>
    mss s' = mss s \<and> msslevel s' = msslevel s \<and> I (user_data s')"
proof -
  have fits: "HEADER_SIZE + len \<le> MAX_PACKET" using assms(3) by unat_arith
  obtain wnd where wnd: "shift_right (rcv_wnd s) (rwnd_scale s) = Some wnd"
    using assms(2) by (simp add: shift_right_def)
  define d where "d = (if len \<noteq> 0 then take (unat len) (drop (unat ofs) (contents (sbuf s))) else [])"
  have len: "length d = unat len"
    using assms(1,4) by (auto simp: d_def contents_def wf_fifo_def)
  have rd: "pseudo_tcp_fifo_read_offset (sbuf s) (unat len) (unat ofs) = Some d" if "len \<noteq> 0"
    using that fifo_read_offset [OF assms(1), of "unat len" "unat ofs"] by (simp add: d_def)
  have d0: "d = []" if "len = 0" using that by (simp add: d_def)
  define hd where "hd = packet_header (conv s) seq (rcv_nxt s) fl (ucast wnd) now (ts_recent s)"
  have pay: "d \<noteq> [] \<longrightarrow> unat (seq - snd_una s) + length d \<le> data_length (sbuf s) \<and>
      d = take (length d) (drop (unat (seq - snd_una s)) (contents (sbuf s)))"
    using assms(4,5) len by (auto simp: d_def)
  have short: "length d \<le> 65419" using assms(3) len by (simp add: word_le_nat_alt)
  have "genuine (sbuf s) (snd_una s) (hd @ d)"
    unfolding genuine_def hd_def using pay short by blast
  then have I: "I (snd (WritePacket env (user_data s) (hd @ d)))"
    using assms(6,7) by (simp add: accepts_def)
  obtain w u where w: "WritePacket env (user_data s) (hd @ d) = (w, u)" by fastforce
  show ?thesis
    using I w len rd d0
    by (cases "len = 0") (auto simp: packet_def fits wnd Let_def hd_def [symmetric] snd_core_def)
qed

section \<open>Transmission\<close>

lemma PACKET_MAXIMUMS_bounds:
  assumes "i < 10"
  shows "PACKET_MAXIMUMS ! i - PACKET_OVERHEAD \<le> 65419" and "0 < PACKET_MAXIMUMS ! i - PACKET_OVERHEAD"
    and "PACKET_MAXIMUMS ! i \<noteq> 0"
proof -
  have "i \<in> {0,1,2,3,4,5,6,7,8,9}" using assms by auto
  then show "PACKET_MAXIMUMS ! i - PACKET_OVERHEAD \<le> 65419" "0 < PACKET_MAXIMUMS ! i - PACKET_OVERHEAD"
    "PACKET_MAXIMUMS ! i \<noteq> 0" by (auto simp: PACKET_MAXIMUMS_def)
qed

lemma shrink_ok:
  "msslevel s \<le> 9 \<Longrightarrow> 0 < mss s \<Longrightarrow> mss s \<le> 65419 \<Longrightarrow>
   \<exists>r s'. shrink s n = Some (r, s') \<and> snd_core s' = snd_core s \<and> user_data s' = user_data s \<and>
     msslevel s' \<le> 9 \<and> 0 < mss s' \<and> mss s' \<le> 65419 \<and> (\<forall>m. r = Some m \<longrightarrow> 0 < m \<and> m < n \<and> m \<le> 65419)"
proof (induction s n rule: shrink.induct)
  case (1 s n)
  let ?i = "unat (msslevel s) + 1" and ?m = "PACKET_MAXIMUMS ! (unat (msslevel s) + 1) - PACKET_OVERHEAD"
  let ?s = "s\<lparr>msslevel := msslevel s + 1, mss := ?m, cwnd := 2 * ?m\<rparr>"
  have l: "unat (msslevel s) \<le> 9" using "1.prems"(1) by (simp add: word_le_nat_alt)
  then have i: "?i < length PACKET_MAXIMUMS" by (simp add: PACKET_MAXIMUMS_def)
  show ?case
  proof (cases "unat (msslevel s) = 9")
    case True
    then have "PACKET_MAXIMUMS ! ?i = 0" by (simp add: PACKET_MAXIMUMS_def)
    then show ?thesis using "1.prems" i by (subst shrink.simps) simp
  next
    case False
    then have "?i < 10" using l by simp
    note B = PACKET_MAXIMUMS_bounds [OF this]
    have core: "snd_core ?s = snd_core s" "user_data ?s = user_data s" by (simp_all add: snd_core_def)
    have lvl: "msslevel ?s \<le> 9"
      using False l by (simp add: word_le_nat_alt unat_word_ariths)
    show ?thesis
    proof (cases "?m < n")
      case True
      then have "shrink s n = Some (Some ?m, ?s)" using i B(3) by (subst shrink.simps) (simp add: Let_def)
      then show ?thesis using B True lvl core by auto
    next
      case False
      then have "shrink s n = shrink ?s n" using i B(3) by (subst shrink.simps) (simp add: Let_def)
      moreover have "0 < mss ?s" "mss ?s \<le> 65419" using B by simp_all
      ultimately show ?thesis using "1.IH" [OF i B(3) refl refl False lvl] core by simp
    qed
  qed
qed

lemma transmit_loop_ok:
  fixes s :: "'u pseudo_tcp"
  assumes "snd_limits s" and "n \<le> 65419" and "accepts env I (sbuf s) (snd_una s)" and "I (user_data s)"
    and "unat (sseg_seq x - snd_una s) + unat n \<le> data_length (sbuf s)"
  shows "\<exists>r s'. transmit_loop env s x n now = Some (r, s') \<and> snd_core s' = snd_core s \<and> snd_limits s' \<and>
    I (user_data s') \<and> (\<forall>m. r = Some m \<longrightarrow> m \<le> n \<and> (0 < n \<longrightarrow> 0 < m))"
  using assms
proof (induction env s x n now rule: transmit_loop.induct)
  case (1 env s x n now)
  let ?ofs = "sseg_seq x - snd_una s"
  have lim: "wf_fifo (sbuf s)" "buffer_length (sbuf s) \<le> 2 ^ 26" "unat (rwnd_scale s) < 32"
    "0 < mss s" "mss s \<le> 65419" "msslevel s \<le> 9" using "1.prems"(1) by (auto simp: snd_limits_def)
  have "unat ?ofs \<le> 2 ^ 26" using "1.prems"(5) lim(1,2) by (auto simp: wf_fifo_def)
  then have near: "?ofs \<le> 1024 * 1024 * 64" by (simp add: word_le_nat_alt)
  from packet_ok [OF lim(1,3) "1.prems"(2) _ _ "1.prems"(3,4), of ?ofs "sseg_seq x" "sseg_flags x" now] "1.prems"(5)
  obtain w s1 where pk: "packet env s (sseg_seq x) (sseg_flags x) ?ofs n now = Some (w, s1)"
    and s1: "snd_core s1 = snd_core s" "mss s1 = mss s" "msslevel s1 = msslevel s" "I (user_data s1)" by auto
  have keep: "snd_limits s'" if "snd_core s' = snd_core s" "0 < mss s'" "mss s' \<le> 65419" "msslevel s' \<le> 9" for s' :: "'u pseudo_tcp"
    using that "1.prems"(1) by (auto simp: snd_limits_def snd_core_def)
  have l1: "snd_limits s1" using keep s1 lim by simp
  show ?case
  proof (cases w)
    case WR_TOO_LARGE
    from shrink_ok [of s1 n] s1 lim obtain r s2 where sh: "shrink s1 n = Some (r, s2)"
      and s2: "snd_core s2 = snd_core s" "user_data s2 = user_data s1" "msslevel s2 \<le> 9" "0 < mss s2" "mss s2 \<le> 65419"
        "\<forall>m. r = Some m \<longrightarrow> 0 < m \<and> m < n \<and> m \<le> 65419" by auto
    have l2: "snd_limits s2" using keep s2 by simp
    show ?thesis
    proof (cases r)
      case None
      then have "transmit_loop env s x n now = Some (None, s2)"
        using near pk WR_TOO_LARGE sh by (subst transmit_loop.simps) simp
      then show ?thesis using s1 s2 l2 by auto
    next
      case (Some m)
      have step: "transmit_loop env s x n now = transmit_loop env s2 x m now"
        using near pk WR_TOO_LARGE sh Some by (subst transmit_loop.simps) simp
      have m: "0 < m" "m < n" "m \<le> 65419" using s2(6) Some by auto
      have same: "sbuf s2 = sbuf s" "snd_una s2 = snd_una s" using s2(1) by (simp_all add: snd_core_def)
      have "unat m \<le> unat n" using m(2) by (simp add: word_less_nat_alt)
      then have "unat (sseg_seq x - snd_una s2) + unat m \<le> data_length (sbuf s2)"
        using "1.prems"(5) same by simp
      from "1.IH" [OF near pk refl WR_TOO_LARGE sh refl Some l2 m(3) _ _ this] "1.prems"(3) s1(4) s2(1,2) same m(1,2)
      show ?thesis unfolding step by fastforce
    qed
  next
    case WR_SUCCESS
    then have "transmit_loop env s x n now = Some (Some n, s1)"
      using near pk by (subst transmit_loop.simps) simp
    then show ?thesis using s1 l1 by auto
  next
    case WR_FAIL
    then have "transmit_loop env s x n now = Some (None, s1)"
      using near pk by (subst transmit_loop.simps) simp
    then show ?thesis using s1 l1 by auto
  qed
qed

text \<open>The first unsent segment: what is left of it stays at the head of the unsent ones.\<close>

lemma split_unsent:
  fixes s :: "'u pseudo_tcp"
  assumes "snd_lists sent (x # us) s" and "n \<le> sseg_len x"
  defines "sub \<equiv> \<lparr>sseg_id = next_seg s, sseg_seq = sseg_seq x + n, sseg_len = sseg_len x - n,
      sseg_xmit = 0, sseg_flags = sseg_flags x\<rparr>"
  shows "\<exists>s'. split_segment s x n = Some s' \<and> snd_lists sent (x\<lparr>sseg_len := n\<rparr> # sub # us) s' \<and>
    (snd_limits s' \<longleftrightarrow> snd_limits s) \<and> user_data s' = user_data s \<and> sbuf s' = sbuf s \<and> snd_una s' = snd_una s"
proof -
  have L: "slist s = sent @ x # us" "unsent_slist s = sseg_id x # map sseg_id us" "sseg_xmit x = 0"
    "distinct (map sseg_id (sent @ x # us))" "\<forall>y \<in> set (sent @ x # us). sseg_id y < next_seg s"
    using assms(1) by (auto simp: snd_lists_def)
  have ne: "\<forall>y \<in> set (sent @ us). sseg_id y \<noteq> sseg_id x" by (rule others_differ [OF L(4)])
  let ?x = "x\<lparr>sseg_len := n\<rparr>"
  have "insert_after (\<lambda>y. sseg_id y = sseg_id x) sub (sent @ ?x # us) = Some (sent @ ?x # sub # us)"
    using ne by (intro insert_after_middle) auto
  then have sp: "split_segment s x n = Some (s\<lparr>slist := sent @ ?x # sub # us,
      unsent_slist := sseg_id x # next_seg s # map sseg_id us, next_seg := Suc (next_seg s)\<rparr>)"
    unfolding split_segment_def Let_def L(1) upd_seg_middle [OF ne] using L(2,3) by (simp add: sub_def)
  have "snd_lists sent (?x # sub # us) (s\<lparr>slist := sent @ ?x # sub # us,
      unsent_slist := sseg_id x # next_seg s # map sseg_id us, next_seg := Suc (next_seg s)\<rparr>)"
    using assms(1) L(4,5) laid_out_split(1) [OF assms(2), where una = "snd_una s" and a = sent and b = us]
      laid_out_split(2) [OF assms(2), where a = sent and b = us]
    unfolding snd_lists_def sub_def by (auto simp: less_Suc_eq)
  then show ?thesis using sp by (simp add: snd_limits_def)
qed

lemma mark_unsent:
  fixes s :: "'u pseudo_tcp"
  assumes "snd_lists sent (y # us) s" and "sseg_id x = sseg_id y" and "sseg_xmit x = 0"
  shows "\<exists>s'. mark_sent s x n now = Some s' \<and> snd_lists (sent @ [y\<lparr>sseg_xmit := 1\<rparr>]) us s' \<and>
    (snd_limits s' \<longleftrightarrow> snd_limits s) \<and> user_data s' = user_data s \<and> sbuf s' = sbuf s \<and> snd_una s' = snd_una s"
proof -
  have L: "slist s = sent @ y # us" "unsent_slist s = sseg_id y # map sseg_id us" "sseg_xmit y = 0"
    "distinct (map sseg_id (sent @ y # us))" using assms(1) by (auto simp: snd_lists_def)
  have ne: "\<forall>z \<in> set (sent @ us). sseg_id z \<noteq> sseg_id y" by (rule others_differ [OF L(4)])
  have u: "upd_seg (sseg_id y) (\<lambda>x. x\<lparr>sseg_xmit := sseg_xmit x + 1\<rparr>) (sent @ y # us) =
      sent @ y\<lparr>sseg_xmit := 1\<rparr> # us" unfolding upd_seg_middle [OF ne] using L(3) by simp
  show ?thesis
    using assms L u by (auto simp: mark_sent_def Let_def snd_lists_def snd_limits_def)
qed

text \<open>What bounds the rounds of the send loop.\<close>

definition weight :: "ssegment list \<Rightarrow> nat" where
  "weight xs = 2 * queued xs + length xs"

lemma transmit_unsent:
  fixes s :: "'u pseudo_tcp"
  assumes "snd_limits s" and "snd_lists sent (x # us) s" and "accepts env I (sbuf s) (snd_una s)" and "I (user_data s)"
  shows "\<exists>ok s'. transmit env s (sseg_id x) now = Some (ok, s') \<and> snd_limits s' \<and> I (user_data s') \<and>
    sbuf s' = sbuf s \<and> snd_una s' = snd_una s \<and>
    (if ok then \<exists>sent' us'. snd_lists sent' us' s' \<and> weight us' + (if 0 < sseg_len x then 2 else 1) \<le> weight (x # us)
     else snd_lists sent (x # us) s')"
proof -
  have L: "slist s = sent @ x # us" "sseg_xmit x = 0" "distinct (map sseg_id (sent @ x # us))"
    "laid_out (snd_una s) (sent @ x # us)" "queued (sent @ x # us) = data_length (sbuf s)"
    using assms(2) by (auto simp: snd_lists_def)
  have lim: "data_length (sbuf s) \<le> 2 ^ 26" "0 < mss s" "mss s \<le> 65419"
    using assms(1) by (auto simp: snd_limits_def wf_fifo_def)
  note P = segment_place [OF L(4,5) lim(1)]
  let ?n = "min (sseg_len x) (mss s)"
  have fnd: "find_seg (sseg_id x) (slist s) = Some x"
    unfolding L(1) using others_differ [OF L(3)] by (intro find_seg_middle) auto
  have "?n \<le> 65419" using lim(3) by (simp add: min.coboundedI2)
  moreover have "unat (sseg_seq x - snd_una s) + unat ?n \<le> data_length (sbuf s)"
    using P(2,3) by (simp add: min_def word_le_nat_alt)
  ultimately obtain r s1 where T: "transmit_loop env s x ?n now = Some (r, s1)" "snd_core s1 = snd_core s"
    "snd_limits s1" "I (user_data s1)" "\<forall>m. r = Some m \<longrightarrow> m \<le> ?n \<and> (0 < ?n \<longrightarrow> 0 < m)"
    using transmit_loop_ok [OF assms(1) _ assms(3,4), of ?n x now] by blast
  have l1: "snd_lists sent (x # us) s1" and same: "sbuf s1 = sbuf s" "snd_una s1 = snd_una s"
    using assms(2) T(2) by (auto simp: snd_lists_def snd_core_def)
  have tr: "transmit env s (sseg_id x) now = (case r of None \<Rightarrow> Some (False, s1) | Some n \<Rightarrow> do {
      s \<leftarrow> (if n < sseg_len x then split_segment s1 x n else Some s1);
      s \<leftarrow> mark_sent s x n now; Some (True, s) })"
    unfolding transmit_def fnd using L(2) T(1) by simp
  show ?thesis
  proof (cases r)
    case None
    then show ?thesis using tr T l1 same by auto
  next
    case (Some n)
    have n: "n \<le> sseg_len x" "0 < sseg_len x \<Longrightarrow> 0 < n" using T(5) Some lim(2) by auto
    show ?thesis
    proof (cases "n < sseg_len x")
      case True
      let ?sub = "\<lparr>sseg_id = next_seg s1, sseg_seq = sseg_seq x + n, sseg_len = sseg_len x - n,
        sseg_xmit = 0, sseg_flags = sseg_flags x\<rparr>"
      from split_unsent [OF l1 n(1)] obtain s2 where s2: "split_segment s1 x n = Some s2"
        "snd_lists sent (x\<lparr>sseg_len := n\<rparr> # ?sub # us) s2"
        "snd_limits s2 \<longleftrightarrow> snd_limits s1" "user_data s2 = user_data s1" "sbuf s2 = sbuf s1" "snd_una s2 = snd_una s1"
        by blast
      from mark_unsent [OF s2(2), of x n now] L(2) obtain s3 sent' where s3: "mark_sent s2 x n now = Some s3"
        "snd_lists sent' (?sub # us) s3"
        "snd_limits s3 \<longleftrightarrow> snd_limits s2" "user_data s3 = user_data s2" "sbuf s3 = sbuf s2" "snd_una s3 = snd_una s2"
        by auto
      have "0 < n" using n True by (metis word_neq_0_conv word_not_simps(1))
      then have "weight (?sub # us) + (if 0 < sseg_len x then 2 else 1) \<le> weight (x # us)"
        using True by (simp add: weight_def unat_sub word_less_nat_alt word_le_nat_alt)
      with s3(2) have "\<exists>sent' us'. snd_lists sent' us' s3 \<and>
        weight us' + (if 0 < sseg_len x then 2 else 1) \<le> weight (x # us)" by blast
      moreover have "transmit env s (sseg_id x) now = Some (True, s3)"
        using tr Some True s2(1) s3(1) by simp
      moreover have "snd_limits s3" "I (user_data s3)" "sbuf s3 = sbuf s" "snd_una s3 = snd_una s"
        using T(3,4) same s2(3-6) s3(3-6) by simp_all
      ultimately show ?thesis by (intro exI [of _ True] exI [of _ s3] conjI) simp_all
    next
      case False
      from mark_unsent [OF l1, of x n now] L(2) obtain s3 sent' where s3: "mark_sent s1 x n now = Some s3"
        "snd_lists sent' us s3"
        "snd_limits s3 \<longleftrightarrow> snd_limits s1" "user_data s3 = user_data s1" "sbuf s3 = sbuf s1" "snd_una s3 = snd_una s1"
        by auto
      have "weight us + (if 0 < sseg_len x then 2 else 1) \<le> weight (x # us)"
        by (simp add: weight_def word_less_nat_alt)
      with s3(2) have "\<exists>sent' us'. snd_lists sent' us' s3 \<and>
        weight us' + (if 0 < sseg_len x then 2 else 1) \<le> weight (x # us)" by blast
      moreover have "transmit env s (sseg_id x) now = Some (True, s3)" using tr Some False s3(1) by simp
      moreover have "snd_limits s3" "I (user_data s3)" "sbuf s3 = sbuf s" "snd_una s3 = snd_una s"
        using T(3,4) same s3(3-6) by simp_all
      ultimately show ?thesis by (intro exI [of _ True] exI [of _ s3] conjI) simp_all
    qed
  qed
qed

section \<open>The send loop\<close>

lemma send_step_ok:
  fixes s :: "'u pseudo_tcp"
  assumes "snd_limits s" and "snd_lists sent unsent s" and "accepts env I (sbuf s) (snd_una s)" and "I (user_data s)"
  shows "\<exists>go fl' s' sent' unsent'. send_step env s fl now = Some (go, fl', s') \<and> snd_limits s' \<and>
    snd_lists sent' unsent' s' \<and> I (user_data s') \<and> sbuf s' = sbuf s \<and> snd_una s' = snd_una s \<and>
    (go \<longrightarrow> weight unsent' < weight unsent)"
proof -
  define av where "av = send_available s"
  have stay: ?thesis if "send_step env s fl now = Some (False, fl, s)" using that assms by blast
  define quiet where "quiet \<longleftrightarrow> av = 0 \<and> \<not> closing_flags fl"
  define hold where "hold \<longleftrightarrow> use_nagling s \<and> \<not> closing_flags fl \<and> snd_nxt s > snd_una s \<and> av < mss s"
  note step = send_step_def av_def [symmetric] Let_def quiet_def [symmetric] hold_def [symmetric]
  consider (idle) quiet | (nagle) "\<not> quiet" "hold \<or> unsent = []" | (go) x us where "\<not> quiet" "\<not> hold" "unsent = x # us"
    by (cases unsent) blast+
  then show ?thesis
  proof cases
    case idle
    consider "fl = sfNone" | "fl \<noteq> sfNone" "fl = sfImmediateAck \<or> t_ack s \<noteq> 0"
      | "fl \<noteq> sfNone" "\<not> (fl = sfImmediateAck \<or> t_ack s \<noteq> 0)" by argo
    then show ?thesis
    proof cases
      case 1
      have "send_step env s fl now = Some (False, fl, s)" unfolding step using idle 1 by simp
      then show ?thesis by (rule stay)
    next
      case 2
      have "wf_fifo (sbuf s)" "unat (rwnd_scale s) < 32" using assms(1) by (auto simp: snd_limits_def)
      from packet_ok [OF this, where len = 0 and ofs = 0 and seq = "snd_nxt s" and fl = 0 and now = now, OF _ _ _ assms(3,4)]
      obtain w s' where pk: "packet env s (snd_nxt s) 0 0 0 now = Some (w, s')" "snd_core s' = snd_core s"
        "mss s' = mss s" "msslevel s' = msslevel s" "I (user_data s')" by auto
      have "snd_limits s'" "snd_lists sent unsent s'" "sbuf s' = sbuf s" "snd_una s' = snd_una s"
        using assms(1,2) pk by (auto simp: snd_limits_def snd_lists_def snd_core_def)
      moreover have "send_step env s fl now = Some (False, fl, s')"
        unfolding step using idle 2 pk(1) by auto
      ultimately show ?thesis using pk(5) by blast
    next
      case 3
      have "snd_limits (s\<lparr>t_ack := now\<rparr>)" "snd_lists sent unsent (s\<lparr>t_ack := now\<rparr>)"
        using assms(1,2) by (auto simp: snd_limits_def snd_lists_def)
      moreover have "send_step env s fl now = Some (False, fl, s\<lparr>t_ack := now\<rparr>)"
        unfolding step using idle 3 by auto
      ultimately show ?thesis using assms(4) by (intro exI conjI) (assumption | simp)+
    qed
  next
    case nagle
    have "unsent_slist s = map sseg_id unsent" using assms(2) by (simp add: snd_lists_def)
    with nagle have "send_step env s fl now = Some (False, fl, s)" unfolding step by auto
    then show ?thesis by (rule stay)
  next
    case (go x us)
    have L: "slist s = sent @ x # us" "unsent_slist s = sseg_id x # map sseg_id us" "sseg_xmit x = 0"
      "distinct (map sseg_id (sent @ x # us))" using assms(2) go(3) by (auto simp: snd_lists_def)
    have fnd: "find_seg (sseg_id x) (slist s) = Some x"
      unfolding L(1) using others_differ [OF L(4)] by (intro find_seg_middle) auto
    have "\<exists>s1 y us1. (if sseg_len x > av \<and> \<not> closing_flags fl then split_segment s (x\<lparr>sseg_xmit := 0\<rparr>) av else Some s) = Some s1 \<and>
        snd_limits s1 \<and> snd_lists sent (y # us1) s1 \<and> user_data s1 = user_data s \<and> sbuf s1 = sbuf s \<and>
        snd_una s1 = snd_una s \<and> sseg_id y = sseg_id x \<and>
        weight (y # us1) < weight unsent + (if 0 < sseg_len y then 2 else 1)"
    proof (cases "sseg_len x > av \<and> \<not> closing_flags fl")
      case True
      then have av: "0 < av" "av \<le> sseg_len x" using go(1) by (auto simp: quiet_def word_neq_0_conv)
      have x: "x\<lparr>sseg_xmit := 0\<rparr> = x" using L(3) by simp
      from split_unsent [OF assms(2) [unfolded go(3)] av(2)] obtain s1 sub where
        s1: "split_segment s x av = Some s1" "snd_lists sent (x\<lparr>sseg_len := av\<rparr> # sub # us) s1"
          "snd_limits s1 \<longleftrightarrow> snd_limits s" "user_data s1 = user_data s" "sbuf s1 = sbuf s" "snd_una s1 = snd_una s"
          "sseg_len sub = sseg_len x - av" by (metis ssegment.select_convs(3))
      have "weight (x\<lparr>sseg_len := av\<rparr> # sub # us) < weight unsent + 2"
        using av s1(7) go(3) by (simp add: weight_def unat_sub word_le_nat_alt)
      with s1 av True x assms(1) show ?thesis
        by (intro exI [of _ s1] exI [of _ "x\<lparr>sseg_len := av\<rparr>"] exI [of _ "sub # us"]) simp
    next
      case False
      with assms(1,2) go(3) show ?thesis by (intro exI [of _ s] exI [of _ x] exI [of _ us]) auto
    qed
    then obtain s1 y us1 where S: "(if sseg_len x > av \<and> \<not> closing_flags fl
          then split_segment s (x\<lparr>sseg_xmit := 0\<rparr>) av else Some s) = Some s1"
      "snd_limits s1" "snd_lists sent (y # us1) s1" "user_data s1 = user_data s" "sbuf s1 = sbuf s"
      "snd_una s1 = snd_una s" "sseg_id y = sseg_id x"
      "weight (y # us1) < weight unsent + (if 0 < sseg_len y then 2 else 1)" by blast
    from transmit_unsent [OF S(2,3), of env I now] assms(3,4) S(4-7) obtain ok s2 where
      T: "transmit env s1 (sseg_id x) now = Some (ok, s2)" "snd_limits s2" "I (user_data s2)" "sbuf s2 = sbuf s"
        "snd_una s2 = snd_una s"
        "if ok then \<exists>sent' us'. snd_lists sent' us' s2 \<and> weight us' + (if 0 < sseg_len y then 2 else 1) \<le> weight (y # us1)
         else snd_lists sent (y # us1) s2" by auto
    have st: "send_step env s fl now = (if ok then Some (True, if fl = sfImmediateAck \<or> fl = sfDelayedAck then sfNone else fl, s2)
        else Some (False, fl, s2))"
      unfolding step L(2) using go(1,2) fnd S(1) T(1) by (simp split del: if_split)
    show ?thesis
    proof (cases ok)
      case True
      with T(6) S(8) obtain sent' us' where "snd_lists sent' us' s2" "weight us' < weight unsent" by fastforce
      with st True T show ?thesis by auto
    next
      case False
      with st T show ?thesis by auto
    qed
  qed
qed

lemma send_loop_ok:
  fixes s :: "'u pseudo_tcp"
  assumes "snd_limits s" and "snd_lists sent unsent s" and "accepts env I (sbuf s) (snd_una s)" and "I (user_data s)"
  shows "\<exists>s' sent' unsent'. send_loop env s fl now = Some s' \<and> snd_limits s' \<and> snd_lists sent' unsent' s' \<and>
    I (user_data s') \<and> sbuf s' = sbuf s \<and> snd_una s' = snd_una s"
  using assms
proof (induction "weight unsent" arbitrary: s sent unsent fl rule: less_induct)
  case less
  from send_step_ok [OF less.prems, of fl now] obtain go fl1 s1 sent1 unsent1 where
    S: "send_step env s fl now = Some (go, fl1, s1)" "snd_limits s1" "snd_lists sent1 unsent1 s1"
      "I (user_data s1)" "sbuf s1 = sbuf s" "snd_una s1 = snd_una s" "go \<longrightarrow> weight unsent1 < weight unsent"
    by blast
  show ?case
  proof (cases go)
    case True
    with S have "weight unsent1 < weight unsent" "accepts env I (sbuf s1) (snd_una s1)" using less.prems(3) by simp_all
    from less.hyps [OF this(1) S(2,3) this(2) S(4), of fl1] S(1,5,6) True show ?thesis
      by (subst send_loop.simps) simp
  next
    case False
    with S show ?thesis by (subst send_loop.simps) auto
  qed
qed

lemma attempt_send_ok:
  fixes s :: "'u pseudo_tcp"
  assumes "snd_ok s" and "accepts env I (sbuf s) (snd_una s)" and "I (user_data s)"
  shows "\<exists>s'. attempt_send env s fl = Some s' \<and> snd_ok s' \<and> I (user_data s') \<and> sbuf s' = sbuf s \<and> snd_una s' = snd_una s"
proof -
  define now where "now = get_current_time env s"
  define s0 where "s0 = (if time_diff now (lastsend s) > int (unat (rx_rto s)) then s\<lparr>cwnd := mss s\<rparr> else s)"
  obtain sent unsent where L: "snd_limits s" "snd_lists sent unsent s" using assms(1) by (auto simp: snd_ok_def)
  have "snd_limits s0" "snd_lists sent unsent s0" "accepts env I (sbuf s0) (snd_una s0)" "I (user_data s0)"
    "sbuf s0 = sbuf s" "snd_una s0 = snd_una s"
    using L assms(2,3) by (auto simp: s0_def snd_limits_def snd_lists_def)
  with send_loop_ok [OF this(1-4), of fl now] show ?thesis
    unfolding attempt_send_def Let_def now_def [symmetric] s0_def [symmetric] snd_ok_def by fastforce
qed

section \<open>Queueing\<close>

lemma queue_lists:
  fixes s :: "'u pseudo_tcp" and flags :: u8
  assumes "snd_lists sent unsent s" and "data_length (sbuf s) + length d \<le> 2 ^ 26"
  defines "len \<equiv> of_nat (length d) :: u32"
  defines "s1 \<equiv> (if slist s \<noteq> [] \<and> sseg_flags (last (slist s)) = flags \<and> sseg_xmit (last (slist s)) = 0
         then s\<lparr>slist := butlast (slist s) @ [(last (slist s))\<lparr>sseg_len := sseg_len (last (slist s)) + len\<rparr>]\<rparr>
         else s\<lparr>slist := slist s @ [\<lparr>sseg_id = next_seg s,
                  sseg_seq = snd_una s + of_nat (pseudo_tcp_fifo_get_buffered (sbuf s)),
                  sseg_len = len, sseg_xmit = 0, sseg_flags = flags\<rparr>],
                unsent_slist := unsent_slist s @ [next_seg s], next_seg := Suc (next_seg s)\<rparr>)"
  assumes "data_length b = data_length (sbuf s) + length d"
  shows "\<exists>unsent'. snd_lists sent unsent' (s1\<lparr>sbuf := b\<rparr>)"
proof -
  have L: "slist s = sent @ unsent" "unsent_slist s = map sseg_id unsent" "\<forall>x \<in> set sent. sseg_xmit x \<noteq> 0"
    "distinct (map sseg_id (sent @ unsent))" "\<forall>x \<in> set (sent @ unsent). sseg_id x < next_seg s"
    "laid_out (snd_una s) (sent @ unsent)" "queued (sent @ unsent) = data_length (sbuf s)"
    "\<forall>x \<in> set unsent. sseg_xmit x = 0"
    using assms(1) by (auto simp: snd_lists_def)
  have ul: "unat len = length d" unfolding len_def using assms(2) by (intro unat_u32) simp
  show ?thesis
  proof (cases "slist s \<noteq> [] \<and> sseg_flags (last (slist s)) = flags \<and> sseg_xmit (last (slist s)) = 0")
    case True
    then have "unsent \<noteq> []" using L(1,3) by (cases "unsent = []") auto
    then obtain us x where us: "unsent = us @ [x]" by (meson rev_exhaust)
    have "unat (sseg_len x + len) = unat (sseg_len x) + length d"
      using L(7) us ul assms(2) by (simp add: unat_word_ariths)
    then have "snd_lists sent (us @ [x\<lparr>sseg_len := sseg_len x + len\<rparr>]) (s1\<lparr>sbuf := b\<rparr>)"
      unfolding s1_def using True L us assms(5) by (auto simp: snd_lists_def butlast_append)
    then show ?thesis by blast
  next
    case False
    let ?x = "\<lparr>sseg_id = next_seg s, sseg_seq = snd_una s + of_nat (pseudo_tcp_fifo_get_buffered (sbuf s)),
                  sseg_len = len, sseg_xmit = 0, sseg_flags = flags\<rparr>"
    have w: "(of_nat (data_length (sbuf s)) :: u32) = of_nat (queued sent) + of_nat (queued unsent)"
      unfolding L(7) [symmetric] by simp
    have "snd_lists sent (unsent @ [?x]) (s1\<lparr>sbuf := b\<rparr>)"
      unfolding s1_def using False L ul w assms(5)
      by (auto simp: snd_lists_def pseudo_tcp_fifo_get_buffered_def less_Suc_eq)
    then show ?thesis by blast
  qed
qed

lemma queue_ok:
  fixes s :: "'u pseudo_tcp"
  assumes "snd_ok s" and "flags \<noteq> FLAG_NONE \<Longrightarrow> length d \<le> pseudo_tcp_fifo_get_write_remaining (sbuf s)"
  defines "k \<equiv> min (length d) (pseudo_tcp_fifo_get_write_remaining (sbuf s))"
  shows "\<exists>s'. queue s d flags = Some (k, s') \<and> snd_ok s' \<and> contents (sbuf s') = contents (sbuf s) @ take k d \<and>
    snd_una s' = snd_una s \<and> user_data s' = user_data s"
proof -
  obtain sent unsent where L: "snd_limits s" "snd_lists sent unsent s" using assms(1) by (auto simp: snd_ok_def)
  have wf: "wf_fifo (sbuf s)" "buffer_length (sbuf s) \<le> 2 ^ 26" "data_length (sbuf s) \<le> buffer_length (sbuf s)"
    using L(1) by (auto simp: snd_limits_def wf_fifo_def)
  let ?room = "buffer_length (sbuf s) - data_length (sbuf s)"
  have room: "pseudo_tcp_fifo_get_write_remaining (sbuf s) = ?room"
    by (simp add: pseudo_tcp_fifo_get_write_remaining_def)
  define e where "e = take k d"
  have le: "length e = k" "k \<le> ?room" by (auto simp: e_def k_def room)
  from fifo_write [OF wf(1), of e] le obtain b where
    b: "pseudo_tcp_fifo_write (sbuf s) e = Some (k, b)" "wf_fifo b" "buffer_length b = buffer_length (sbuf s)"
      "data_length b = data_length (sbuf s) + k" "ring_of b = put (ring_of (sbuf s)) (data_length (sbuf s)) e"
    by auto
  have cont: "contents b = contents (sbuf s) @ e"
    using b le wf by (simp add: contents_def put_def wf_fifo_def)
  have eq: "(if length d > ?room then take ?room d else d) = e" by (auto simp: e_def k_def room)
  have nofail: "\<not> (length d > ?room \<and> flags \<noteq> FLAG_NONE)" using assms(2) room by (cases "flags = FLAG_NONE") simp_all
  define s1 where "s1 = (if slist s \<noteq> [] \<and> sseg_flags (last (slist s)) = flags \<and> sseg_xmit (last (slist s)) = 0
         then s\<lparr>slist := butlast (slist s) @ [(last (slist s))\<lparr>sseg_len := sseg_len (last (slist s)) + of_nat (length e)\<rparr>]\<rparr>
         else s\<lparr>slist := slist s @ [\<lparr>sseg_id = next_seg s,
                  sseg_seq = snd_una s + of_nat (pseudo_tcp_fifo_get_buffered (sbuf s)),
                  sseg_len = of_nat (length e), sseg_xmit = 0, sseg_flags = flags\<rparr>],
                unsent_slist := unsent_slist s @ [next_seg s], next_seg := Suc (next_seg s)\<rparr>)"
  have same: "sbuf s1 = sbuf s" "snd_una s1 = snd_una s" "user_data s1 = user_data s" "snd_limits (s1\<lparr>sbuf := b\<rparr>)"
    using L(1) b(2,3) by (auto simp: s1_def snd_limits_def)
  have "data_length (sbuf s) + length e \<le> 2 ^ 26" "data_length b = data_length (sbuf s) + length e"
    using le wf b(4) by simp_all
  from queue_lists [OF L(2) this, of flags, folded s1_def] same have "snd_ok (s1\<lparr>sbuf := b\<rparr>)"
    by (auto simp: snd_ok_def)
  moreover have "queue s d flags = Some (k, s1\<lparr>sbuf := b\<rparr>)"
    using b(1) same(1) nofail unfolding queue_def Let_def room eq s1_def [symmetric] by simp
  ultimately show ?thesis using cont same by (simp add: e_def)
qed

section \<open>Acknowledgements\<close>

text \<open>
  Until a FIN is sent, the sequence numbers in flight are the bytes of the segments sent.
\<close>

definition snd_open :: "'u pseudo_tcp \<Rightarrow> bool" where
  "snd_open s \<longleftrightarrow> snd_limits s \<and> \<not> pseudo_tcp_state_has_sent_fin (state s) \<and>
     (\<exists>sent unsent. snd_lists sent unsent s \<and> snd_nxt s = snd_una s + of_nat (queued sent))"

lemma free_acked_ok:
  assumes "laid_out una (xs @ ys)" and "unat n \<le> queued xs"
  shows "\<exists>xs' big' pre. free_acked n (xs @ ys) big = Some (xs' @ ys, big') \<and> laid_out (una + n) (xs' @ ys) \<and>
    queued xs' = queued xs - unat n \<and> map sseg_id xs = pre @ map sseg_id xs' \<and>
    sseg_xmit ` set xs' \<subseteq> sseg_xmit ` set xs"
  using assms
proof (induction xs arbitrary: una n big)
  case Nil
  then have "n = 0" by (simp add: unat_eq_zero)
  with Nil show ?case by (cases ys) auto
next
  case (Cons x xs)
  consider "n = 0" | "n \<noteq> 0" "n < sseg_len x" | "n \<noteq> 0" "sseg_len x \<le> n" by (meson not_le)
  then show ?case
  proof cases
    case 1
    with Cons.prems show ?thesis by (intro exI [of _ "x # xs"] exI [of _ big] exI [of _ "[]"]) simp
  next
    case 2
    let ?x = "x\<lparr>sseg_len := sseg_len x - n, sseg_seq := sseg_seq x + n\<rparr>"
    have "laid_out (una + n) (?x # xs @ ys)" using Cons.prems(1) by (simp add: algebra_simps)
    moreover have "unat (sseg_len x - n) = unat (sseg_len x) - unat n" "unat n \<le> unat (sseg_len x)"
      using 2(2) by (simp_all add: unat_sub word_less_nat_alt word_le_nat_alt)
    ultimately show ?thesis
      using 2 by (intro exI [of _ "?x # xs"] exI [of _ big] exI [of _ "[]"]) simp
  next
    case 3
    then have u: "unat (n - sseg_len x) = unat n - unat (sseg_len x)" by (rule_tac unat_sub) simp
    have "laid_out (una + sseg_len x) (xs @ ys)" "unat (n - sseg_len x) \<le> queued xs"
      using Cons.prems u by simp_all
    from Cons.IH [OF this, of "if sseg_len x > big then sseg_len x else big"] obtain xs' big' pre where
      R: "free_acked (n - sseg_len x) (xs @ ys) (if sseg_len x > big then sseg_len x else big) = Some (xs' @ ys, big')"
        "laid_out (una + sseg_len x + (n - sseg_len x)) (xs' @ ys)" "queued xs' = queued xs - unat (n - sseg_len x)"
        "map sseg_id xs = pre @ map sseg_id xs'" "sseg_xmit ` set xs' \<subseteq> sseg_xmit ` set xs" by blast
    have "queued xs' = queued (x # xs) - unat n"
      using R(3) u 3(2) Cons.prems(2) by (simp add: word_le_nat_alt)
    with R 3 show ?thesis
      by (intro exI [of _ xs'] exI [of _ big'] exI [of _ "sseg_id x # pre"]) auto
  qed
qed

lemma acked_bytes:
  fixes una nxt ack :: u32
  assumes "LARGER ack una" and "SMALLER_OR_EQUAL ack nxt" and "nxt = una + of_nat q" and "q \<le> 2 ^ 26"
  shows "unat (ack - una) \<le> q"
proof -
  let ?a = "unat (ack - una)"
  have a: "?a < 2 ^ 31" using assms(1) by (simp add: LARGER_unat)
  have "nxt - ack = una + of_nat q - (una + of_nat ?a)" using assms(3) by simp
  then have "unat (nxt - ack) = (if ?a \<le> q then q - ?a else q + 2 ^ 32 - ?a)"
    using unat_offset_diff [of q ?a una] assms(4) a by simp
  moreover have "unat (nxt - ack) < 2 ^ 31 - 1" using assms(2) by (simp add: LARGER_OR_EQUAL_unat)
  ultimately show ?thesis using a by (auto split: if_splits)
qed

lemma snd_lists_acked:
  fixes s s' :: "'u pseudo_tcp"
  assumes "snd_lists sent unsent s" and "unat n \<le> queued sent"
    and "free_acked n (sent @ unsent) big = Some (sent' @ unsent, big')"
    and "laid_out (snd_una s + n) (sent' @ unsent)" and "queued sent' = queued sent - unat n"
    and "map sseg_id sent = pre @ map sseg_id sent'" and "sseg_xmit ` set sent' \<subseteq> sseg_xmit ` set sent"
    and "slist s' = sent' @ unsent" and "unsent_slist s' = unsent_slist s" and "next_seg s' = next_seg s"
    and "snd_una s' = snd_una s + n" and "data_length (sbuf s') = data_length (sbuf s) - unat n"
  shows "snd_lists sent' unsent s'"
proof -
  have st: "sseg_id ` set sent = set pre \<union> sseg_id ` set sent'" using arg_cong [OF assms(6), of set] by simp
  have ids: "sseg_id ` set sent' \<subseteq> sseg_id ` set sent" "distinct (map sseg_id sent')"
    unfolding st using assms(1,6) by (auto simp: snd_lists_def)
  have "sseg_id x < next_seg s" if "x \<in> set sent'" for x
  proof -
    have "sseg_id x \<in> sseg_id ` set sent" using ids(1) that by blast
    then show ?thesis using assms(1) by (auto simp: snd_lists_def)
  qed
  moreover have "sseg_xmit x \<noteq> 0" if "x \<in> set sent'" for x
  proof -
    have "sseg_xmit x \<in> sseg_xmit ` set sent" using assms(7) that by blast
    then show ?thesis using assms(1) by (auto simp: snd_lists_def)
  qed
  moreover have "sseg_id ` set sent' \<inter> sseg_id ` set unsent = {}"
    using ids(1) assms(1) by (auto simp: snd_lists_def)
  ultimately show ?thesis
    using assms ids(2) by (auto simp: snd_lists_def)
qed

lemma update_rtt_send:
  fixes s :: "'u pseudo_tcp"
  assumes "e = 0 \<or> 0 \<le> time_diff now e"
  shows "\<exists>s1. update_rtt now e s = (True, s1) \<and> snd_core s1 = snd_core s \<and> mss s1 = mss s \<and>
    msslevel s1 = msslevel s \<and> state s1 = state s \<and> dup_acks s1 = dup_acks s \<and> cwnd s1 = cwnd s \<and>
    swnd_scale s1 = swnd_scale s"
  using assms by (auto simp: update_rtt_def Let_def snd_core_def)

lemma grow_window_open:
  assumes "dup_acks s < 3" and "cwnd s \<noteq> 0"
  shows "\<exists>c. grow_window env s n now = Some (True, s\<lparr>dup_acks := 0, cwnd := c\<rparr>)"
  using assms by (auto simp: grow_window_def not_le)

lemma valuable_ack_ok:
  fixes s :: "'u pseudo_tcp"
  assumes "snd_open s" and "LARGER (seg_ack seg) (snd_una s)" and "SMALLER_OR_EQUAL (seg_ack seg) (snd_nxt s)"
    and "dup_acks s < 3" and "cwnd s \<noteq> 0" and "unat (swnd_scale s) < 32"
    and "seg_tsecr seg = 0 \<or> 0 \<le> time_diff now (seg_tsecr seg)"
  shows "\<exists>s'. process_valuable_ack env seg now s = Some (True, False, s') \<and> snd_open s' \<and>
    snd_una s' = seg_ack seg \<and> snd_nxt s' = snd_nxt s \<and>
    contents (sbuf s') = drop (unat (seg_ack seg - snd_una s)) (contents (sbuf s))"
proof -
  let ?n = "seg_ack seg - snd_una s"
  obtain sent unsent where O: "snd_limits s" "\<not> pseudo_tcp_state_has_sent_fin (state s)"
    "snd_lists sent unsent s" "snd_nxt s = snd_una s + of_nat (queued sent)" using assms(1) by (auto simp: snd_open_def)
  have q: "queued sent + queued unsent = data_length (sbuf s)" "data_length (sbuf s) \<le> 2 ^ 26" "wf_fifo (sbuf s)"
    using O(1,3) by (auto simp: snd_lists_def snd_limits_def wf_fifo_def)
  have n: "unat ?n \<le> queued sent" using q by (intro acked_bytes [OF assms(2,3) O(4)]) simp
  from update_rtt_send [OF assms(7), of s] obtain s1 where
    s1: "update_rtt now (seg_tsecr seg) s = (True, s1)" "snd_core s1 = snd_core s" "mss s1 = mss s"
    "msslevel s1 = msslevel s" "state s1 = state s" "dup_acks s1 = dup_acks s" "cwnd s1 = cwnd s"
    "swnd_scale s1 = swnd_scale s" by blast
  have core: "slist s1 = sent @ unsent" "unsent_slist s1 = unsent_slist s" "next_seg s1 = next_seg s"
    "snd_una s1 = snd_una s" "snd_nxt s1 = snd_nxt s" "sbuf s1 = sbuf s" "rwnd_scale s1 = rwnd_scale s"
    using s1(2) O(3) by (auto simp: snd_core_def snd_lists_def)
  obtain wnd where w: "peer_window seg s1 = Some wnd" using assms(6) s1(8) by (simp add: peer_window_def)
  from fifo_consume_read [OF q(3), of "unat ?n"] n q(1) obtain b where
    b: "pseudo_tcp_fifo_consume_read_data (sbuf s) (unat ?n) = Some b" "wf_fifo b"
      "buffer_length b = buffer_length (sbuf s)" "data_length b = data_length (sbuf s) - unat ?n" by auto
  have cont: "contents b = drop (unat ?n) (contents (sbuf s))"
    using fq.discard_view [OF q(3), of "unat ?n"] n q(1) b(1) by (simp add: fq_view)
  have "laid_out (snd_una s) (sent @ unsent)" using O(3) by (simp add: snd_lists_def)
  from free_acked_ok [OF this n, of "largest s1"] obtain sent' big' pre where
    F: "free_acked ?n (sent @ unsent) (largest s1) = Some (sent' @ unsent, big')"
      "laid_out (snd_una s + ?n) (sent' @ unsent)" "queued sent' = queued sent - unat ?n"
      "map sseg_id sent = pre @ map sseg_id sent'" "sseg_xmit ` set sent' \<subseteq> sseg_xmit ` set sent" by blast
  define s2 where "s2 = s1\<lparr>snd_wnd := wnd, snd_una := seg_ack seg,
      rto_base := (if seg_ack seg = snd_nxt s1 then 0 else now), sbuf := b, slist := sent' @ unsent, largest := big'\<rparr>"
  obtain c where g: "grow_window env s2 ?n now = Some (True, s2\<lparr>dup_acks := 0, cwnd := c\<rparr>)"
    using grow_window_open [of s2 env ?n now] assms(4,5) s1(6,7) by (auto simp: s2_def)
  define s3 where "s3 = s2\<lparr>dup_acks := 0, cwnd := c\<rparr>"
  have eq: "process_valuable_ack env seg now s = Some (True, False, s3)"
    unfolding process_valuable_ack_def s1(1) Let_def
    using w core b(1) F(1) O(2) s1(5) g by (simp add: s2_def s3_def)
  have "snd_lists sent' unsent s3"
    by (rule snd_lists_acked [OF O(3) n F]) (use core b(4) in \<open>simp_all add: s2_def s3_def\<close>)
  moreover have s3: "snd_una s3 = seg_ack seg" "snd_nxt s3 = snd_nxt s" "sbuf s3 = b" "snd_limits s3"
    "\<not> pseudo_tcp_state_has_sent_fin (state s3)"
    using O(1,2) b(2,3) core s1(3-5) by (simp_all add: s2_def s3_def snd_limits_def)
  moreover have "snd_nxt s3 = snd_una s3 + of_nat (queued sent')"
    using O(4) n F(3) s3(1,2) by (simp add: of_nat_diff)
  ultimately have "snd_open s3" unfolding snd_open_def by blast
  with eq s3 cont show ?thesis by auto
qed

end
