(* ===== verification/Tcp_Socket.thy ===== *)
theory Tcp_Socket
  imports Tcp_Input
begin

unbundle bit_operations_syntax

text \<open>
  The functions an application calls on a pseudo-TCP socket: connecting, clock and packet
  notifications, sending and receiving, closing. From \<open>agent/pseudotcp.c\<close>.
\<close>

section \<open>Properties\<close>

text \<open>The settable properties that change more than one field; they need a listening socket.\<close>

definition pseudo_tcp_socket_set_rcv_buf :: "'u tcp_env \<Rightarrow> 'u pseudo_tcp \<Rightarrow> u32 \<Rightarrow> 'u pseudo_tcp option" where
  "pseudo_tcp_socket_set_rcv_buf env s n =
    (if state s = TCP_LISTEN then resize_receive_buffer env s n else Some s)"

definition pseudo_tcp_socket_set_snd_buf :: "'u tcp_env \<Rightarrow> 'u pseudo_tcp \<Rightarrow> u32 \<Rightarrow> 'u pseudo_tcp option" where
  "pseudo_tcp_socket_set_snd_buf env s n =
    (if state s = TCP_LISTEN then resize_send_buffer env s n else Some s)"

section \<open>Connecting and the network\<close>

definition pseudo_tcp_socket_connect :: "'u tcp_env \<Rightarrow> 'u pseudo_tcp \<Rightarrow> (bool \<times> 'u pseudo_tcp) option" where
  "pseudo_tcp_socket_connect env s =
    (if state s \<noteq> TCP_LISTEN then Some (False, s\<lparr>errno := EINVAL\<rparr>)
     else do {
       s \<leftarrow> set_state s TCP_SYN_SENT;
       s \<leftarrow> queue_connect_message s;
       s \<leftarrow> attempt_send env s sfNone;
       Some (True, s) })"

definition pseudo_tcp_socket_notify_mtu :: "'u pseudo_tcp \<Rightarrow> u16 \<Rightarrow> 'u pseudo_tcp" where
  "pseudo_tcp_socket_notify_mtu s mtu =
    (let s = s\<lparr>mtu_advise := ucast mtu\<rparr> in
     if state s = TCP_ESTABLISHED then adjustMTU s else s)"

definition pseudo_tcp_socket_notify_packet :: "'u tcp_env \<Rightarrow> 'u pseudo_tcp \<Rightarrow> bytes \<Rightarrow>
    (bool \<times> 'u pseudo_tcp) option" where
  "pseudo_tcp_socket_notify_packet env s pkt =
    (if length pkt > unat MAX_PACKET then Some (False, s)
     else if length pkt < unat HEADER_SIZE then Some (False, s)
     else parse env s (take (unat HEADER_SIZE) pkt) (drop (unat HEADER_SIZE) pkt))"

text \<open>
  A message of one buffer, or of a header buffer and a data buffer of which the first
  \<open>n - 24\<close> bytes are filled, \<open>n\<close> being the length of the message.
\<close>

definition pseudo_tcp_socket_notify_message :: "'u tcp_env \<Rightarrow> 'u pseudo_tcp \<Rightarrow> bytes list \<Rightarrow> nat \<Rightarrow>
    (bool \<times> 'u pseudo_tcp) option" where
  "pseudo_tcp_socket_notify_message env s bufs n =
    (case bufs of
       [pkt] \<Rightarrow> pseudo_tcp_socket_notify_packet env s pkt
     | [h, d] \<Rightarrow>
         if length h \<noteq> unat HEADER_SIZE then None
         else if n > unat MAX_PACKET then Some (False, s)
         else if n < unat HEADER_SIZE then Some (False, s)
         else do { data \<leftarrow> rdn d 0 (n - length h); parse env s h data }
     | _ \<Rightarrow> None)"

section \<open>The clock\<close>

text \<open>The retransmission timer: false when the socket was closed because of it.\<close>

definition clock_retransmit :: "'u tcp_env \<Rightarrow> 'u pseudo_tcp \<Rightarrow> u32 \<Rightarrow> (bool \<times> 'u pseudo_tcp) option" where
  "clock_retransmit env s now =
    (if rto_base s \<noteq> 0 \<and> time_diff (rto_base s + rx_rto s) now \<le> 0 then do {
       (ok, s) \<leftarrow> retransmit_head env s now;
       if \<not> ok then Some (False, s)
       else do {
         let nInFlight = snd_nxt s - snd_una s;
         let rto_limit = (if state s = TCP_LISTEN \<or> state s = TCP_SYN_SENT \<or> state s = TCP_SYN_RECEIVED
                          then DEF_RTO else MAX_RTO);
         Some (True, s\<lparr>ssthresh := max (nInFlight div 2) (2 * mss s), cwnd := mss s,
            rx_rto := min rto_limit (rx_rto s * 2), rto_base := now\<rparr>) } }
     else Some (True, s))"

definition clock_probe :: "'u tcp_env \<Rightarrow> 'u pseudo_tcp \<Rightarrow> u32 \<Rightarrow> (bool \<times> 'u pseudo_tcp) option" where
  "clock_probe env s now =
    (if snd_wnd s = 0 \<and> time_diff (lastsend s + rx_rto s) now \<le> 0 then
       if time_diff now (lastrecv s) \<ge> 15000 then do {
         s \<leftarrow> closedown env s ECONNABORTED CLOSEDOWN_LOCAL;
         Some (False, s) }
       else do {
         (_, s) \<leftarrow> packet env s (snd_nxt s - 1) 0 0 0 now;
         Some (True, s\<lparr>lastsend := now, rx_rto := min MAX_RTO (rx_rto s * 2)\<rparr>) }
     else Some (True, s))"

definition clock_ack :: "'u tcp_env \<Rightarrow> 'u pseudo_tcp \<Rightarrow> u32 \<Rightarrow> 'u pseudo_tcp option" where
  "clock_ack env s now =
    (if t_ack s \<noteq> 0 \<and> time_diff (t_ack s + ack_delay s) now \<le> 0
     then map_option snd (packet env s (snd_nxt s) 0 0 0 now) else Some s)"

definition pseudo_tcp_socket_notify_clock :: "'u tcp_env \<Rightarrow> 'u pseudo_tcp \<Rightarrow> 'u pseudo_tcp option" where
  "pseudo_tcp_socket_notify_clock env s =
    (let now = get_current_time env s in
     if state s = TCP_CLOSED then Some s
     else do {
       s \<leftarrow> (if support_fin_ack s \<and> state s = TCP_TIME_WAIT then set_state_closed env s 0 else Some s);
       s \<leftarrow> (if support_fin_ack s \<and> state s = TCP_LAST_ACK then do {
             s \<leftarrow> queue_fin_message s; attempt_send env s sfFin }
           else Some s);
       (ok, s) \<leftarrow> clock_retransmit env s now;
       if \<not> ok then Some s
       else do {
         (ok, s) \<leftarrow> clock_probe env s now;
         if \<not> ok then Some s else clock_ack env s now } })"

text \<open>The 64-bit deadline is compared with sums of 32-bit clock values.\<close>

definition pseudo_tcp_socket_get_next_clock :: "'u tcp_env \<Rightarrow> 'u pseudo_tcp \<Rightarrow> u64 \<Rightarrow>
    (bool \<times> u64 \<times> 'u pseudo_tcp) option" where
  "pseudo_tcp_socket_get_next_clock env s timeout =
    (let now = get_current_time env s in
     if shutdown s = SD_FORCEFUL then do {
       s \<leftarrow> closedown env s 0 CLOSEDOWN_REMOTE; Some (False, timeout, s) }
     else if shutdown s = SD_GRACEFUL \<and>
         (state s \<noteq> TCP_ESTABLISHED \<or> (pseudo_tcp_fifo_get_buffered (sbuf s) = 0 \<and> t_ack s = 0)) then do {
       s \<leftarrow> closedown env s 0 CLOSEDOWN_REMOTE; Some (False, timeout, s) }
     else if support_fin_ack s \<and> state s = TCP_CLOSED then Some (False, timeout, s)
     else
       let closed_timeout = (if support_fin_ack s \<and> state s = TCP_TIME_WAIT then TIME_WAIT_TIMEOUT
                             else CLOSED_TIMEOUT);
           timeout = (if timeout = 0 \<or> timeout < ucast now then ucast (now + closed_timeout) else timeout)
       in if support_fin_ack s \<and> state s = TCP_TIME_WAIT then
            Some (True, min timeout (ucast (now + TIME_WAIT_TIMEOUT)), s)
          else if state s = TCP_CLOSED \<and> \<not> support_fin_ack s then
            Some (True, min timeout (ucast (now + CLOSED_TIMEOUT)), s)
          else
            let timeout = min timeout (ucast (now + DEFAULT_TIMEOUT));
                timeout = (if t_ack s \<noteq> 0 then min timeout (ucast (t_ack s + ack_delay s)) else timeout);
                timeout = (if rto_base s \<noteq> 0 then min timeout (ucast (rto_base s + rx_rto s)) else timeout);
                timeout = (if snd_wnd s = 0 then min timeout (ucast (lastsend s + rx_rto s)) else timeout)
            in Some (True, timeout, s))"

section \<open>Receiving and sending\<close>

text \<open>The return value, the bytes copied out, and the socket.\<close>

definition pseudo_tcp_socket_recv :: "'u tcp_env \<Rightarrow> 'u pseudo_tcp \<Rightarrow> nat \<Rightarrow>
    (int \<times> bytes \<times> 'u pseudo_tcp) option" where
  "pseudo_tcp_socket_recv env s len =
    (if support_fin_ack s \<and> (shutdown_reads s \<or> pseudo_tcp_state_has_received_fin (state s))
     then Some (0, [], s)
     else if \<not> support_fin_ack s \<and> pseudo_tcp_socket_is_closed s then Some (0, [], s)
     else if \<not> support_fin_ack s \<and> state s \<noteq> TCP_ESTABLISHED then Some (- 1, [], s\<lparr>errno := ENOTCONN\<rparr>)
     else if len = 0 then Some (0, [], s)
     else do {
       (d, b) \<leftarrow> pseudo_tcp_fifo_read (rbuf s) len;
       let s = s\<lparr>rbuf := b\<rparr>;
       if d = [] then Some (- 1, [], s\<lparr>bReadEnable := True, errno := EWOULDBLOCK\<rparr>)
       else do {
         let available_space = pseudo_tcp_fifo_get_write_remaining (rbuf s);
         s \<leftarrow> (if (of_nat available_space - ucast (rcv_wnd s) :: u64) \<ge> ucast (min (rbuf_len s div 2) (mss s))
              then let bWasClosed = (rcv_wnd s = 0); s = s\<lparr>rcv_wnd := of_nat available_space\<rparr>
                   in if bWasClosed then attempt_send env s sfImmediateAck else Some s
              else Some s);
         Some (gint32 (int (length d)), d, s) } })"

definition pseudo_tcp_socket_send :: "'u tcp_env \<Rightarrow> 'u pseudo_tcp \<Rightarrow> bytes \<Rightarrow>
    (int \<times> 'u pseudo_tcp) option" where
  "pseudo_tcp_socket_send env s data =
    (if state s \<noteq> TCP_ESTABLISHED then
       Some (- 1, s\<lparr>errno := (if pseudo_tcp_state_has_sent_fin (state s) then EPIPE else ENOTCONN)\<rparr>)
     else if pseudo_tcp_fifo_get_write_remaining (sbuf s) = 0 then
       Some (- 1, s\<lparr>bWriteEnable := True, errno := EWOULDBLOCK\<rparr>)
     else do {
       (n, s) \<leftarrow> queue s data FLAG_NONE;
       s \<leftarrow> attempt_send env s sfNone;
       let written = gint32 (int n);
       Some (written, if written > 0 \<and> written < int (length data) then s\<lparr>bWriteEnable := True\<rparr> else s) })"

section \<open>Closing\<close>

definition pseudo_tcp_socket_shutdown :: "'u tcp_env \<Rightarrow> 'u pseudo_tcp \<Rightarrow> tcp_shutdown \<Rightarrow>
    'u pseudo_tcp option" where
  "pseudo_tcp_socket_shutdown env s how =
    (if \<not> support_fin_ack s then
       Some (if shutdown s = SD_NONE then s\<lparr>shutdown := SD_GRACEFUL\<rparr> else s)
     else let s = (if how = PSEUDO_TCP_SHUTDOWN_RD \<or> how = PSEUDO_TCP_SHUTDOWN_RDWR
                   then s\<lparr>shutdown_reads := True\<rparr> else s) in
       if how = PSEUDO_TCP_SHUTDOWN_RD then Some s
       else case state s of
         TCP_LISTEN \<Rightarrow> set_state_closed env s 0
       | TCP_SYN_SENT \<Rightarrow> set_state_closed env s 0
       | TCP_CLOSE_WAIT \<Rightarrow> do {
           s \<leftarrow> queue_fin_message s; s \<leftarrow> attempt_send env s sfFin; set_state s TCP_LAST_ACK }
       | _ \<Rightarrow>
           if state s = TCP_SYN_RECEIVED \<or> state s = TCP_ESTABLISHED then
             if pseudo_tcp_socket_get_available_bytes s > 0 then closedown env s ECONNABORTED CLOSEDOWN_LOCAL
             else do {
               s \<leftarrow> queue_fin_message s; s \<leftarrow> attempt_send env s sfFin; set_state s TCP_FIN_WAIT_1 }
           else Some s)"

definition pseudo_tcp_socket_close :: "'u tcp_env \<Rightarrow> 'u pseudo_tcp \<Rightarrow> bool \<Rightarrow> 'u pseudo_tcp option" where
  "pseudo_tcp_socket_close env s force =
    (if force \<and> state s \<noteq> TCP_CLOSED then closedown env s ECONNABORTED CLOSEDOWN_LOCAL
     else pseudo_tcp_socket_shutdown env s PSEUDO_TCP_SHUTDOWN_RDWR)"

definition pseudo_tcp_socket_get_error :: "'u pseudo_tcp \<Rightarrow> int" where
  "pseudo_tcp_socket_get_error s = errno s"

end
