(* ===== verification/Tcp_Api.thy ===== *)
theory Tcp_Api
  imports Tcp_Send Tcp_Socket
begin

unbundle bit_operations_syntax

text \<open>
  The calls of the socket on top of the send queue: writing, closing down, and the options two
  sockets exchange when they connect.
\<close>

section \<open>Writing\<close>

lemma accepts_all [simp]: "accepts env (\<lambda>_. True) b una"
  by (simp add: accepts_def)

lemma send_ok:
  fixes s :: "'u pseudo_tcp"
  assumes "snd_ok s" and "state s = TCP_ESTABLISHED" and "length data < 2 ^ 31"
  defines "room \<equiv> pseudo_tcp_fifo_get_write_remaining (sbuf s)"
  assumes "0 < room"
  shows "\<exists>s'. pseudo_tcp_socket_send env s data = Some (int (min (length data) room), s') \<and> snd_ok s' \<and>
    contents (sbuf s') = contents (sbuf s) @ take room data"
proof -
  let ?k = "min (length data) room"
  from queue_ok [OF assms(1), of FLAG_NONE data] obtain s1 where
    q: "queue s data FLAG_NONE = Some (?k, s1)" "snd_ok s1" "contents (sbuf s1) = contents (sbuf s) @ take ?k data"
    by (auto simp: room_def)
  from attempt_send_ok [OF q(2), of env "\<lambda>_. True" sfNone] obtain s2 where
    a: "attempt_send env s1 sfNone = Some s2" "snd_ok s2" "sbuf s2 = sbuf s1" by auto
  have g: "gint32 (int ?k) = int ?k"
    using assms(3) by (intro signed_take_bit_int_eq_self) auto
  have "snd_ok (s2\<lparr>bWriteEnable := True\<rparr>)" using a(2) by (simp add: snd_ok_def snd_limits_def snd_lists_def)
  moreover have "take ?k data = take room data" by (simp add: min_def)
  ultimately show ?thesis
    using assms(2,5) q a g by (simp add: pseudo_tcp_socket_send_def room_def [symmetric] Let_def)
qed

section \<open>Closing down\<close>

text \<open>From every state, the transitions that \<open>closedown\<close> goes through are valid ones.\<close>

lemma closing_navigation:
  "\<exists>s1. set_states s (closing_path (state s)) = Some s1 \<and> set_state s1 TCP_CLOSED = Some (s\<lparr>state := TCP_CLOSED\<rparr>)"
  by (cases "state s") (simp_all add: set_state_def valid_transition_def)

lemma closedown_end:
  "do { s \<leftarrow> set_states s (closing_path (state s)); set_state_closed env s err } =
     (if err \<noteq> 0 then PseudoTcpClosed env err (s\<lparr>state := TCP_CLOSED\<rparr>) else Some (s\<lparr>state := TCP_CLOSED\<rparr>))"
  using closing_navigation [of s] by (auto simp: set_state_closed_def)

lemma closedown_local:
  fixes s :: "'u pseudo_tcp"
  assumes "snd_ok s"
  shows "\<exists>s1. contents (sbuf s1) = contents (sbuf s) \<and> closedown env s err CLOSEDOWN_LOCAL =
     (if err \<noteq> 0 then PseudoTcpClosed env err (s1\<lparr>state := TCP_CLOSED\<rparr>) else Some (s1\<lparr>state := TCP_CLOSED\<rparr>))"
proof (cases "support_fin_ack s")
  case True
  from queue_ok [OF assms, of FLAG_RST "[]"] obtain s1 where q: "queue s [] FLAG_RST = Some (0, s1)" "snd_ok s1"
    "contents (sbuf s1) = contents (sbuf s)" by auto
  from attempt_send_ok [OF q(2), of env "\<lambda>_. True" sfRst] obtain s2 where
    "attempt_send env s1 sfRst = Some s2" "sbuf s2 = sbuf s1" by auto
  with q True show ?thesis
    by (auto simp: closedown_def queue_rst_message_def closedown_end intro!: exI [of _ s2])
next
  case False
  then show ?thesis by (intro exI [of _ "s\<lparr>shutdown := SD_FORCEFUL\<rparr>"]) (simp add: closedown_def closedown_end)
qed

section \<open>Options\<close>

lemma connect_options_parsed:
  "parse_options_from (tl (connect_options s)) False False r =
     (True, support_wnd_scale s, support_fin_ack s,
      r\<lparr>swnd_scale := (if support_wnd_scale s then rwnd_scale s else swnd_scale r),
        support_fin_ack := (support_fin_ack s \<or> support_fin_ack r)\<rparr>)"
  by (auto simp: connect_options_def apply_option_def apply_window_scale_option_def apply_fin_ack_option_def)

lemma connect_negotiation:
  fixes r :: "'u pseudo_tcp"
  assumes "support_wnd_scale s \<or> rwnd_scale r = 0"
  shows "parse_options env r (tl (connect_options s)) =
    Some (r\<lparr>swnd_scale := (if support_wnd_scale s then rwnd_scale s else swnd_scale r),
      support_fin_ack := support_fin_ack s\<rparr>)"
  unfolding parse_options_def connect_options_parsed Let_def using assms by auto

end
