(* ===== verification/Tcp_Receive.thy ===== *)
theory Tcp_Receive
  imports Tcp_Input
begin

unbundle bit_operations_syntax

text \<open>
  Reassembly: the invariant of the receive buffer and of the list of segments stored out of
  order, and its preservation by the reception of arbitrary segments. When the segments carry the
  bytes of a stream, in any order, duplicated and overlapping as they may be, the buffer always
  holds a contiguous part of that stream.
\<close>

section \<open>The invariant\<close>

definition dist :: "u32 \<Rightarrow> rsegment \<Rightarrow> nat" where
  "dist nxt r = unat (rseg_seq r - nxt)"

definition rlist_ok :: "u32 \<Rightarrow> nat \<Rightarrow> rsegment list \<Rightarrow> bool" where
  "rlist_ok nxt rem rl \<longleftrightarrow> sorted (map (dist nxt) rl) \<and>
     (\<forall>r \<in> set rl. 0 < dist nxt r \<and> dist nxt r + unat (rseg_len r) \<le> rem)"

abbreviation remaining :: "fifo \<Rightarrow> nat" where
  "remaining b \<equiv> buffer_length b - data_length b"

definition rcv_ok :: "'u pseudo_tcp \<Rightarrow> bool" where
  "rcv_ok s \<longleftrightarrow> wf_fifo (rbuf s) \<and> buffer_length (rbuf s) \<le> 2 ^ 26 \<and>
     rlist_ok (rcv_nxt s) (remaining (rbuf s)) (rlist s)"

lemma rlist_ok_Nil [simp]: "rlist_ok nxt rem []"
  by (simp add: rlist_ok_def)

lemma rseg_seq_dist: "rseg_seq r = nxt + of_nat (dist nxt r)"
  by (simp add: dist_def)

lemma rseg_end_dist: "rseg_seq r + rseg_len r = nxt + of_nat (dist nxt r + unat (rseg_len r))"
  by (simp add: dist_def)

lemma unat_sub_nat:
  fixes x :: u32
  assumes "k \<le> unat x"
  shows "unat (x - of_nat k) = unat x - k"
proof -
  have "k < 2 ^ 32" using assms unsigned_less [where 'a = nat, of x] by simp
  then show ?thesis using assms by (simp add: unat_diff unat_u32)
qed

lemma dist_advance:
  assumes "k \<le> dist nxt r"
  shows "dist (nxt + of_nat k) r = dist nxt r - k"
proof -
  have "rseg_seq r - (nxt + of_nat k) = (rseg_seq r - nxt) - of_nat k" by (simp add: algebra_simps)
  then show ?thesis using assms unat_sub_nat [of k "rseg_seq r - nxt"] by (simp only: dist_def)
qed

text \<open>Moving on by \<open>k\<close> bytes when every stored segment lies beyond them.\<close>

lemma rlist_ok_advance:
  assumes "rlist_ok nxt rem rl" and "\<forall>r \<in> set rl. k < dist nxt r"
  shows "rlist_ok (nxt + of_nat k) (rem - k) rl"
proof -
  have d: "dist (nxt + of_nat k) r = dist nxt r - k" if "r \<in> set rl" for r
    using assms(2) that by (intro dist_advance) auto
  then have m: "map (dist (nxt + of_nat k)) rl = map (\<lambda>n. n - k) (map (dist nxt) rl)" by simp
  have "sorted (map (\<lambda>n. n - k) xs)" if "sorted xs" for xs :: "nat list"
    using that by (induction xs) (auto intro: diff_le_mono)
  then have "sorted (map (dist (nxt + of_nat k)) rl)"
    unfolding m using assms(1) by (simp only: rlist_ok_def)
  then show ?thesis
    using assms d by (fastforce simp: rlist_ok_def)
qed

lemma rlist_ok_mono: "rlist_ok nxt rem rl \<Longrightarrow> rem \<le> rem' \<Longrightarrow> rlist_ok nxt rem' rl"
  by (fastforce simp: rlist_ok_def)

section \<open>Recovering stored segments\<close>

lemma recover_ok:
  assumes "rlist_ok nxt rem rl" and "k \<le> rem" and "rem \<le> 2 ^ 26"
    and "wf_fifo b" and "data_length b = dl + k" and "buffer_length b = dl + rem"
  shows "\<exists>rl' k' wnd' b' fl' popped.
    recover_segments rl (nxt + of_nat k) wnd b fl = Some (rl', nxt + of_nat k', wnd', b', fl') \<and>
    rl = popped @ rl' \<and> k \<le> k' \<and> k' \<le> rem \<and> wf_fifo b' \<and> data_length b' = dl + k' \<and>
    buffer_length b' = dl + rem \<and> ring_of b' = ring_of b \<and> (\<forall>r \<in> set rl'. k' < dist nxt r) \<and>
    (\<forall>i. k \<le> i \<and> i < k' \<longrightarrow> (\<exists>r \<in> set popped. dist nxt r \<le> i \<and> i < dist nxt r + unat (rseg_len r)))"
  using assms
proof (induction rl arbitrary: k wnd b fl)
  case (Cons d ds)
  let ?e = "dist nxt d + unat (rseg_len d)"
  have ds: "rlist_ok nxt rem ds" using Cons.prems(1) by (simp add: rlist_ok_def)
  have e: "?e \<le> rem" using Cons.prems(1) by (simp add: rlist_ok_def)
  have small: "dist nxt d < 2 ^ 31 - 1" "k < 2 ^ 31 - 1" "?e < 2 ^ 31" "k < 2 ^ 31"
    using e Cons.prems(2,3) by simp_all
  have le: "SMALLER_OR_EQUAL (rseg_seq d) (nxt + of_nat k) \<longleftrightarrow> dist nxt d \<le> k"
    by (subst rseg_seq_dist [of d nxt]) (rule LARGER_OR_EQUAL_offset [OF small(2,1)])
  have gt: "LARGER (rseg_seq d + rseg_len d) (nxt + of_nat k) \<longleftrightarrow> k < ?e"
    unfolding rseg_end_dist [of d nxt] by (rule LARGER_offset [OF small(3,4)])
  consider (stop) "k < dist nxt d" | (take) "dist nxt d \<le> k" "k < ?e" | (skip) "dist nxt d \<le> k" "?e \<le> k"
    by linarith
  then show ?case
  proof cases
    case stop
    then have "\<forall>r \<in> set (d # ds). k < dist nxt r"
      using Cons.prems(1) by (auto simp: rlist_ok_def intro: less_le_trans)
    moreover have "recover_segments (d # ds) (nxt + of_nat k) wnd b fl = Some (d # ds, nxt + of_nat k, wnd, b, fl)"
      using stop le by simp
    ultimately show ?thesis
      using Cons.prems by (intro exI [of _ "d # ds"] exI [of _ k] exI [of _ wnd] exI [of _ b]
        exI [of _ fl] exI [of _ "[]"]) auto
  next
    case take
    have adj: "rseg_seq d + rseg_len d - (nxt + of_nat k) = of_nat (?e - k)"
      unfolding rseg_end_dist [of d nxt] using take(2) by (simp add: of_nat_diff)
    have u: "unat (of_nat (?e - k) :: u32) = ?e - k" using small by (intro unat_u32) simp
    have "data_length b + (?e - k) \<le> buffer_length b" using take(2) e Cons.prems(5,6) by simp
    from fifo_consume_write [OF Cons.prems(4) this] obtain b1 where
      b1: "pseudo_tcp_fifo_consume_write_buffer b (?e - k) = Some b1" "wf_fifo b1"
        "buffer_length b1 = buffer_length b" "data_length b1 = data_length b + (?e - k)"
        "ring_of b1 = ring_of b" by blast
    have nx: "nxt + of_nat k + of_nat (?e - k) = nxt + of_nat ?e"
      using take(2) by (simp add: of_nat_diff)
    have step: "recover_segments (d # ds) (nxt + of_nat k) wnd b fl =
        recover_segments ds (nxt + of_nat ?e) (wnd - of_nat (?e - k)) b1 sfImmediateAck"
      using take le gt unfolding recover_segments.simps Let_def adj u b1(1) nx by simp
    have "data_length b1 = dl + ?e" "buffer_length b1 = dl + rem"
      using b1 take(2) Cons.prems(5,6) by simp_all
    from Cons.IH [OF ds e Cons.prems(3) b1(2) this, of "wnd - of_nat (?e - k)" sfImmediateAck]
    obtain rl' k' wnd' b' fl' popped where
      r: "recover_segments ds (nxt + of_nat ?e) (wnd - of_nat (?e - k)) b1 sfImmediateAck =
          Some (rl', nxt + of_nat k', wnd', b', fl')"
        "ds = popped @ rl'" "?e \<le> k'" "k' \<le> rem" "wf_fifo b'" "data_length b' = dl + k'"
        "buffer_length b' = dl + rem" "ring_of b' = ring_of b1" "\<forall>r \<in> set rl'. k' < dist nxt r"
        "\<forall>i. ?e \<le> i \<and> i < k' \<longrightarrow> (\<exists>r \<in> set popped. dist nxt r \<le> i \<and> i < dist nxt r + unat (rseg_len r))"
      by blast
    have "\<exists>r \<in> set (d # popped). dist nxt r \<le> i \<and> i < dist nxt r + unat (rseg_len r)"
      if "k \<le> i" "i < k'" for i
      using r(10) that take(1) by (cases "i < ?e") (auto simp: not_less)
    then show ?thesis
      using r(1-9) take(2) b1(5) unfolding step by (intro exI [of _ rl'] exI [of _ k'] exI [of _ wnd']
        exI [of _ b'] exI [of _ fl'] exI [of _ "d # popped"]) auto
  next
    case skip
    have step: "recover_segments (d # ds) (nxt + of_nat k) wnd b fl = recover_segments ds (nxt + of_nat k) wnd b fl"
      using skip le gt by simp
    from Cons.IH [OF ds Cons.prems(2-6), of wnd fl] obtain rl' k' wnd' b' fl' popped where
      r: "recover_segments ds (nxt + of_nat k) wnd b fl = Some (rl', nxt + of_nat k', wnd', b', fl')"
        "ds = popped @ rl'" "k \<le> k'" "k' \<le> rem" "wf_fifo b'" "data_length b' = dl + k'"
        "buffer_length b' = dl + rem" "ring_of b' = ring_of b" "\<forall>r \<in> set rl'. k' < dist nxt r"
        "\<forall>i. k \<le> i \<and> i < k' \<longrightarrow> (\<exists>r \<in> set popped. dist nxt r \<le> i \<and> i < dist nxt r + unat (rseg_len r))"
      by blast
    then show ?thesis
      unfolding step by (intro exI [of _ rl'] exI [of _ k'] exI [of _ wnd'] exI [of _ b'] exI [of _ fl']
        exI [of _ "d # popped"]) auto
  qed
qed fastforce

section \<open>Cutting a segment to the window\<close>

lemma trim_old_props:
  fixes nxt :: u32
  assumes "length (seg_data seg) < 2 ^ 16"
  defines "t \<equiv> trim_old seg nxt"
  shows "seg_flags t = seg_flags seg"
    and "\<exists>j. seg_data t = drop j (seg_data seg) \<and> (seg_data t \<noteq> [] \<longrightarrow> seg_seq t = seg_seq seg + of_nat j)"
    and "seg_data t \<noteq> [] \<Longrightarrow> unat (seg_seq t - nxt) \<le> 2 ^ 31"
proof -
  let ?j = "nxt - seg_seq seg"
  have l: "unat (seg_len seg) = length (seg_data seg)" using assms(1) by (simp add: unat_of_nat)
  show "seg_flags t = seg_flags seg" by (simp add: t_def trim_old_def Let_def)
  show "\<exists>j. seg_data t = drop j (seg_data seg) \<and> (seg_data t \<noteq> [] \<longrightarrow> seg_seq t = seg_seq seg + of_nat j)"
  proof (cases "SMALLER (seg_seq seg) nxt \<and> \<not> ?j < seg_len seg")
    case True
    then show ?thesis by (intro exI [of _ "length (seg_data seg)"]) (simp add: t_def trim_old_def)
  next
    case False
    then show ?thesis
      by (intro exI [of _ "if SMALLER (seg_seq seg) nxt then unat ?j else 0"])
        (auto simp: t_def trim_old_def Let_def)
  qed
  assume ne: "seg_data t \<noteq> []"
  show "unat (seg_seq t - nxt) \<le> 2 ^ 31"
  proof (cases "SMALLER (seg_seq seg) nxt")
    case True
    with ne have "seg_seq t = nxt" by (auto simp: t_def trim_old_def Let_def split: if_splits)
    then show ?thesis by simp
  next
    case False
    then have "\<not> (0 < unat ?j \<and> unat ?j < 2 ^ 31)" by (simp add: LARGER_unat)
    moreover have "unat (seg_seq seg - nxt) = (if unat ?j = 0 then 0 else 2 ^ 32 - unat ?j)"
      using unat_diff [of 0 ?j] by simp
    moreover have "t = seg" using False by (simp add: t_def trim_old_def)
    ultimately show ?thesis using unsigned_less [where 'a = nat, of ?j] by auto
  qed
qed

lemma trim_new_props:
  assumes "length (seg_data seg) < 2 ^ 16" and "unat (seg_seq seg - nxt) \<le> 2 ^ 31" and "rem \<le> 2 ^ 26"
  defines "t \<equiv> trim_new seg nxt rem"
  shows "seg_flags t = seg_flags seg" and "seg_seq t = seg_seq seg"
    and "\<exists>m. seg_data t = take m (seg_data seg)"
    and "seg_data t \<noteq> [] \<Longrightarrow> unat (seg_seq t - nxt) + length (seg_data t) \<le> rem"
proof -
  let ?d = "unat (seg_seq seg - nxt)" and ?l = "length (seg_data seg)"
  have l: "unat (seg_len seg) = ?l" using assms(1) by (simp add: unat_of_nat)
  have e: "seg_seq seg + seg_len seg - nxt = of_nat (?d + ?l)" by simp
  have x: "unat (seg_seq seg + seg_len seg - nxt) = ?d + ?l"
    unfolding e by (rule unat_u32) (use assms(1,2) in simp)
  have adj: "unat (seg_seq seg + seg_len seg - nxt - of_nat rem) = ?d + ?l - rem" if "rem < ?d + ?l"
    using that x unat_sub_nat [of rem "seg_seq seg + seg_len seg - nxt"] by simp
  show "seg_flags t = seg_flags seg" "seg_seq t = seg_seq seg" by (simp_all add: t_def trim_new_def Let_def)
  show "\<exists>m. seg_data t = take m (seg_data seg)"
    by (auto simp: t_def trim_new_def Let_def intro: exI [of _ 0] exI [of _ ?l])
  assume ne: "seg_data t \<noteq> []"
  show "unat (seg_seq t - nxt) + length (seg_data t) \<le> rem"
  proof (cases "rem < ?d + ?l")
    case True
    define a where "a = seg_seq seg + seg_len seg - nxt - of_nat rem"
    have ua: "unat a = ?d + ?l - rem" unfolding a_def by (rule adj [OF True])
    have t: "t = (if a < seg_len seg then seg\<lparr>seg_data := take (unat (seg_len seg - a)) (seg_data seg)\<rparr>
        else seg\<lparr>seg_data := []\<rparr>)"
      using True unfolding t_def trim_new_def Let_def a_def [symmetric] x by simp
    with ne have lt: "a < seg_len seg" by (auto split: if_splits)
    then have "unat (seg_len seg - a) = ?l - (?d + ?l - rem)"
      using unat_sub [of a "seg_len seg"] l ua by simp
    moreover have "?d + ?l - rem < ?l" using lt l ua by (simp add: word_less_nat_alt)
    ultimately show ?thesis using t lt True by simp
  next
    case False
    then show ?thesis using x by (simp add: t_def trim_new_def)
  qed
qed

lemma fit_segment_props:
  assumes "length (seg_data seg) < 2 ^ 16" and "buffer_length (rbuf s) \<le> 2 ^ 26"
  defines "f \<equiv> fit_segment seg s"
  shows "seg_flags f = seg_flags seg"
    and "seg_data f \<noteq> [] \<Longrightarrow>
      unat (seg_seq f - rcv_nxt s) + length (seg_data f) \<le> remaining (rbuf s)"
    and "\<exists>j m. seg_data f = take m (drop j (seg_data seg)) \<and>
      (seg_data f \<noteq> [] \<longrightarrow> seg_seq f = seg_seq seg + of_nat j)"
proof -
  let ?t = "trim_old seg (rcv_nxt s)"
  note O = trim_old_props [OF assms(1), of "rcv_nxt s"]
  have lt: "length (seg_data ?t) < 2 ^ 16" using O(2) assms(1) by auto
  have f: "f = trim_new ?t (rcv_nxt s) (remaining (rbuf s))"
    by (simp add: f_def fit_segment_def pseudo_tcp_fifo_get_write_remaining_def)
  have rem: "remaining (rbuf s) \<le> 2 ^ 26" using assms(2) by simp
  have nil: "seg_data f = []" "seg_flags f = seg_flags ?t" if "seg_data ?t = []"
    using that by (simp_all add: f trim_new_def Let_def)
  show "seg_flags f = seg_flags seg"
    using O(1) by (simp add: f trim_new_def Let_def)
  have N: "seg_seq f = seg_seq ?t" "\<exists>m. seg_data f = take m (seg_data ?t)"
    "seg_data f \<noteq> [] \<Longrightarrow> unat (seg_seq f - rcv_nxt s) + length (seg_data f) \<le> remaining (rbuf s)"
    if "seg_data ?t \<noteq> []"
    using trim_new_props [OF lt O(3) [OF that] rem, folded f] by blast+
  show "seg_data f \<noteq> [] \<Longrightarrow> unat (seg_seq f - rcv_nxt s) + length (seg_data f) \<le> remaining (rbuf s)"
    using N(3) nil by blast
  show "\<exists>j m. seg_data f = take m (drop j (seg_data seg)) \<and>
      (seg_data f \<noteq> [] \<longrightarrow> seg_seq f = seg_seq seg + of_nat j)"
  proof (cases "seg_data ?t = []")
    case True
    then show ?thesis using nil by (intro exI [of _ 0] exI [of _ 0]) simp
  next
    case False
    with N(1,2) O(2) show ?thesis by metis
  qed
qed

section \<open>Storing out of order\<close>

lemma insert_rseg_ok:
  assumes "rlist_ok nxt rem rl" and "0 < dist nxt r" and "dist nxt r + unat (rseg_len r) \<le> rem"
    and "rem \<le> 2 ^ 26"
  shows "rlist_ok nxt rem (insert_rseg r rl)" and "set (insert_rseg r rl) = insert r (set rl)"
proof -
  show st: "set (insert_rseg r rl) = insert r (set rl)" by (induction rl) auto
  have "sorted (map (dist nxt) (insert_rseg r rl))"
    using assms(1)
  proof (induction rl)
    case (Cons x xs)
    have b: "dist nxt x < 2 ^ 31" "dist nxt r < 2 ^ 31"
      using Cons.prems assms(3,4) by (auto simp: rlist_ok_def)
    have c: "SMALLER (rseg_seq x) (rseg_seq r) \<longleftrightarrow> dist nxt x < dist nxt r"
      by (subst (1 2) rseg_seq_dist [where nxt = nxt]) (rule LARGER_offset [OF b(2,1)])
    have xs: "rlist_ok nxt rem xs" using Cons.prems by (simp add: rlist_ok_def)
    have "set (insert_rseg r xs) = insert r (set xs)" by (induction xs) auto
    then show ?case
      using Cons.IH [OF xs] Cons.prems c by (fastforce simp: rlist_ok_def)
  qed simp
  then show "rlist_ok nxt rem (insert_rseg r rl)"
    using assms st by (auto simp: rlist_ok_def)
qed

section \<open>Storing data\<close>

definition ignores_data :: "segment \<Rightarrow> 'u pseudo_tcp \<Rightarrow> bool" where
  "ignores_data seg s \<longleftrightarrow> seg_flags seg AND FLAG_CTL \<noteq> 0 \<or> (\<not> support_fin_ack s \<and> shutdown s \<noteq> SD_NONE)"

lemma store_in_order:
  assumes "rcv_ok s" and "seg_data f \<noteq> []" and "length (seg_data f) \<le> remaining (rbuf s)"
    and "seg_seq f = rcv_nxt s" and "seg_flags f AND FLAG_FIN = 0" and "\<not> ignores_data f s"
  shows "\<exists>k rl popped b wnd fl'. store_data f fl s =
      Some (True, fl', s\<lparr>rbuf := b, rlist := rl, rcv_nxt := rcv_nxt s + of_nat k, rcv_wnd := wnd\<rparr>) \<and>
    rlist s = popped @ rl \<and> length (seg_data f) \<le> k \<and> k \<le> remaining (rbuf s) \<and> wf_fifo b \<and>
    data_length b = data_length (rbuf s) + k \<and> buffer_length b = buffer_length (rbuf s) \<and>
    ring_of b = put (ring_of (rbuf s)) (data_length (rbuf s)) (seg_data f) \<and>
    (\<forall>r \<in> set rl. k < dist (rcv_nxt s) r) \<and>
    (\<forall>i. length (seg_data f) \<le> i \<and> i < k \<longrightarrow>
      (\<exists>r \<in> set popped. dist (rcv_nxt s) r \<le> i \<and> i < dist (rcv_nxt s) r + unat (rseg_len r)))"
proof -
  let ?l = "length (seg_data f)" and ?dl = "data_length (rbuf s)" and ?rem = "remaining (rbuf s)"
  have wf: "wf_fifo (rbuf s)" "?rem \<le> 2 ^ 26" "rlist_ok (rcv_nxt s) ?rem (rlist s)"
    "?dl \<le> buffer_length (rbuf s)"
    using assms(1) by (auto simp: rcv_ok_def wf_fifo_def)
  have fits: "?dl + ?l \<le> buffer_length (rbuf s)" using assms(3) wf(4) by linarith
  obtain b1 where w: "pseudo_tcp_fifo_write_offset (rbuf s) (seg_data f) 0 = Some (?l, b1)" "wf_fifo b1"
    "buffer_length b1 = buffer_length (rbuf s)" "data_length b1 = ?dl"
    "ring_of b1 = put (ring_of (rbuf s)) ?dl (seg_data f)"
    using fq.write_at_law [OF wf(1), of 0 "seg_data f"] fits by auto
  obtain b2 where c: "pseudo_tcp_fifo_consume_write_buffer b1 ?l = Some b2" "wf_fifo b2"
    "buffer_length b2 = buffer_length (rbuf s)" "data_length b2 = ?dl + ?l" "ring_of b2 = ring_of b1"
    using fifo_consume_write [OF w(2), of ?l] w(3,4) fits by auto
  have cap: "buffer_length b2 = ?dl + ?rem" using c(3) wf(4) by simp
  from recover_ok [OF wf(3) assms(3) wf(2) c(2,4) cap, of "rcv_wnd s - seg_len f" fl] obtain
    rl k wnd b fl' popped where R:
    "recover_segments (rlist s) (rcv_nxt s + seg_len f) (rcv_wnd s - seg_len f) b2 fl =
       Some (rl, rcv_nxt s + of_nat k, wnd, b, fl')"
    "rlist s = popped @ rl" "?l \<le> k" "k \<le> ?rem" "wf_fifo b" "data_length b = ?dl + k"
    "buffer_length b = ?dl + ?rem" "ring_of b = ring_of b2" "\<forall>r \<in> set rl. k < dist (rcv_nxt s) r"
    "\<forall>i. ?l \<le> i \<and> i < k \<longrightarrow> (\<exists>r \<in> set popped. dist (rcv_nxt s) r \<le> i \<and> i < dist (rcv_nxt s) r + unat (rseg_len r))"
    by blast
  have "store_data f fl s =
      Some (True, fl', s\<lparr>rbuf := b, rlist := rl, rcv_nxt := rcv_nxt s + of_nat k, rcv_wnd := wnd\<rparr>)"
    using assms(2,4,5,6) w(1) c(1) R(1) by (simp add: store_data_def ignores_data_def Let_def)
  with R w c cap show ?thesis by (intro exI conjI) (assumption | simp)+
qed

lemma store_out_of_order:
  assumes "rcv_ok s" and "seg_data f \<noteq> []"
    and "unat (seg_seq f - rcv_nxt s) + length (seg_data f) \<le> remaining (rbuf s)"
    and "seg_seq f \<noteq> rcv_nxt s" and "seg_flags f AND FLAG_FIN = 0" and "\<not> ignores_data f s"
  shows "\<exists>b. store_data f fl s = Some (False, fl, s\<lparr>rbuf := b,
      rlist := insert_rseg \<lparr>rseg_seq = seg_seq f, rseg_len = seg_len f\<rparr> (rlist s)\<rparr>) \<and>
    wf_fifo b \<and> data_length b = data_length (rbuf s) \<and> buffer_length b = buffer_length (rbuf s) \<and>
    ring_of b = put (ring_of (rbuf s)) (data_length (rbuf s) + unat (seg_seq f - rcv_nxt s)) (seg_data f)"
proof -
  have wf: "wf_fifo (rbuf s)" "data_length (rbuf s) \<le> buffer_length (rbuf s)"
    using assms(1) by (auto simp: rcv_ok_def wf_fifo_def)
  have fits: "data_length (rbuf s) + unat (seg_seq f - rcv_nxt s) + length (seg_data f) \<le> buffer_length (rbuf s)"
    using assms(3) wf(2) by linarith
  obtain b where "pseudo_tcp_fifo_write_offset (rbuf s) (seg_data f) (unat (seg_seq f - rcv_nxt s)) =
      Some (length (seg_data f), b)" "wf_fifo b" "buffer_length b = buffer_length (rbuf s)"
    "data_length b = data_length (rbuf s)"
    "ring_of b = put (ring_of (rbuf s)) (data_length (rbuf s) + unat (seg_seq f - rcv_nxt s)) (seg_data f)"
    using fq.write_at_law [OF wf(1), of "unat (seg_seq f - rcv_nxt s)" "seg_data f"] fits by auto
  then show ?thesis
    using assms(2,4-6) by (intro exI [of _ b]) (auto simp: store_data_def ignores_data_def Let_def)
qed

text \<open>
  A FIN and the bytes of a control message advance the sequence number without touching the
  buffer; that nothing is stored out of order then is the condition on such segments.
\<close>

definition orderly :: "segment \<Rightarrow> 'u pseudo_tcp \<Rightarrow> bool" where
  "orderly seg s \<longleftrightarrow> (seg_flags seg AND FLAG_FIN \<noteq> 0 \<or> ignores_data seg s \<longrightarrow> rlist s = [])"

lemma rcv_fields_id:
  fixes s :: "'u pseudo_tcp"
  shows "s\<lparr>rbuf := rbuf s, rlist := rlist s, rcv_nxt := n, rcv_wnd := rcv_wnd s\<rparr> = s\<lparr>rcv_nxt := n\<rparr>"
    and "s\<lparr>rcv_nxt := rcv_nxt s\<rparr> = s"
  by simp_all

lemma store_ok:
  fixes s :: "'u pseudo_tcp"
  assumes "rcv_ok s" and "orderly f s"
    and "seg_data f \<noteq> [] \<Longrightarrow> unat (seg_seq f - rcv_nxt s) + length (seg_data f) \<le> remaining (rbuf s)"
  shows "\<exists>new fl' b rl nxt wnd. store_data f fl s =
      Some (new, fl', s\<lparr>rbuf := b, rlist := rl, rcv_nxt := nxt, rcv_wnd := wnd\<rparr>) \<and>
    rcv_ok (s\<lparr>rbuf := b, rlist := rl, rcv_nxt := nxt, rcv_wnd := wnd\<rparr>) \<and>
    buffer_length b = buffer_length (rbuf s)"
proof -
  let ?rem = "remaining (rbuf s)"
  have ok: "wf_fifo (rbuf s)" "buffer_length (rbuf s) \<le> 2 ^ 26" "rlist_ok (rcv_nxt s) ?rem (rlist s)"
    using assms(1) by (auto simp: rcv_ok_def)
  consider (fin) "seg_flags f AND FLAG_FIN \<noteq> 0" | (empty) "seg_flags f AND FLAG_FIN = 0" "seg_data f = []"
    | (ignore) "seg_flags f AND FLAG_FIN = 0" "seg_data f \<noteq> []" "ignores_data f s"
    | (now) "seg_flags f AND FLAG_FIN = 0" "seg_data f \<noteq> []" "\<not> ignores_data f s" "seg_seq f = rcv_nxt s"
    | (later) "seg_flags f AND FLAG_FIN = 0" "seg_data f \<noteq> []" "\<not> ignores_data f s" "seg_seq f \<noteq> rcv_nxt s"
    by atomize_elim argo
  then show ?thesis
  proof cases
    case fin
    let ?n = "if seg_seq f = rcv_nxt s then rcv_nxt s + 1 else rcv_nxt s"
    have "store_data f fl s = Some (False, fl, s\<lparr>rcv_nxt := ?n\<rparr>)"
      using fin by (simp add: store_data_def rcv_fields_id(2))
    moreover have "rcv_ok (s\<lparr>rcv_nxt := ?n\<rparr>)" using fin assms(2) ok by (simp add: rcv_ok_def orderly_def)
    ultimately show ?thesis unfolding rcv_fields_id(1) [of s ?n, symmetric] by blast
  next
    case empty
    then have "store_data f fl s = Some (False, fl, s\<lparr>rcv_nxt := rcv_nxt s\<rparr>)"
      by (simp add: store_data_def rcv_fields_id(2))
    moreover have "rcv_ok (s\<lparr>rcv_nxt := rcv_nxt s\<rparr>)" using assms(1) by (simp only: rcv_fields_id)
    ultimately show ?thesis unfolding rcv_fields_id(1) [of s "rcv_nxt s", symmetric] by blast
  next
    case ignore
    let ?n = "if seg_seq f = rcv_nxt s then rcv_nxt s + seg_len f else rcv_nxt s"
    have "store_data f fl s = Some (False, fl, s\<lparr>rcv_nxt := ?n\<rparr>)"
      using ignore by (simp add: store_data_def ignores_data_def rcv_fields_id(2) Let_def)
    moreover have "rcv_ok (s\<lparr>rcv_nxt := ?n\<rparr>)" using ignore assms(2) ok by (simp add: rcv_ok_def orderly_def)
    ultimately show ?thesis unfolding rcv_fields_id(1) [of s ?n, symmetric] by blast
  next
    case now
    then have "length (seg_data f) \<le> ?rem" using assms(3) by simp
    from store_in_order [OF assms(1) now(2) this now(4,1,3), of fl] obtain k rl popped b wnd fl' where R:
      "store_data f fl s = Some (True, fl', s\<lparr>rbuf := b, rlist := rl, rcv_nxt := rcv_nxt s + of_nat k, rcv_wnd := wnd\<rparr>)"
      "rlist s = popped @ rl" "k \<le> ?rem" "wf_fifo b" "data_length b = data_length (rbuf s) + k"
      "buffer_length b = buffer_length (rbuf s)" "\<forall>r \<in> set rl. k < dist (rcv_nxt s) r" by blast
    have "rlist_ok (rcv_nxt s) ?rem rl" using ok(3) R(2) by (auto simp: rlist_ok_def sorted_append)
    from rlist_ok_advance [OF this R(7)] R ok(2) show ?thesis
      by (intro exI [of _ True] exI [of _ fl'] exI [of _ b] exI [of _ rl]
          exI [of _ "rcv_nxt s + of_nat k"] exI [of _ wnd]) (simp add: rcv_ok_def)
  next
    case later
    let ?r = "\<lparr>rseg_seq = seg_seq f, rseg_len = seg_len f\<rparr>"
    have fits: "unat (seg_seq f - rcv_nxt s) + length (seg_data f) \<le> ?rem" using assms(3) later(2) by blast
    from store_out_of_order [OF assms(1) later(2) fits later(4,1,3), of fl] obtain b where R:
      "store_data f fl s = Some (False, fl, s\<lparr>rbuf := b, rlist := insert_rseg ?r (rlist s)\<rparr>)"
      "wf_fifo b" "data_length b = data_length (rbuf s)" "buffer_length b = buffer_length (rbuf s)" by blast
    have "0 < dist (rcv_nxt s) ?r" using later(4) by (simp add: dist_def unat_gt_0)
    moreover have "unat (seg_len f) = length (seg_data f)" using fits ok(2) by (intro unat_u32) simp
    moreover have "?rem \<le> 2 ^ 26" using ok(2) by simp
    ultimately have "rlist_ok (rcv_nxt s) ?rem (insert_rseg ?r (rlist s))"
      using insert_rseg_ok(1) [OF ok(3)] fits by (simp add: dist_def)
    with R ok(2) show ?thesis
      by (intro exI [of _ False] exI [of _ fl] exI [of _ b] exI [of _ "insert_rseg ?r (rlist s)"]
          exI [of _ "rcv_nxt s"] exI [of _ "rcv_wnd s"]) (simp add: rcv_ok_def)
  qed
qed

section \<open>The bytes of a stream\<close>

text \<open>
  The sender numbers the bytes of the stream \<open>D\<close> from the sequence number \<open>start\<close>. The socket
  has received the first \<open>n\<close> of them in order: the last of these are what the buffer holds, and
  what is stored out of order are bytes of the stream at their distance from \<open>n\<close>.
\<close>

definition rcv_holds :: "bytes \<Rightarrow> u32 \<Rightarrow> nat \<Rightarrow> 'u pseudo_tcp \<Rightarrow> bool" where
  "rcv_holds D start n s \<longleftrightarrow> rcv_ok s \<and> rcv_nxt s = start + of_nat n \<and>
     data_length (rbuf s) \<le> n \<and> n \<le> length D \<and>
     contents (rbuf s) = drop (n - data_length (rbuf s)) (take n D) \<and>
     (\<forall>r \<in> set (rlist s). \<forall>i. dist (rcv_nxt s) r \<le> i \<and> i < dist (rcv_nxt s) r + unat (rseg_len r) \<longrightarrow>
        n + i < length D \<and> ring_of (rbuf s) ! (data_length (rbuf s) + i) = D ! (n + i))"

text \<open>A segment with bytes of the stream, not further than half of the sequence space from \<open>n\<close>.\<close>

definition carries :: "bytes \<Rightarrow> u32 \<Rightarrow> nat \<Rightarrow> nat \<Rightarrow> segment \<Rightarrow> bool" where
  "carries D start n p seg \<longleftrightarrow> seg_seq seg = start + of_nat p \<and> p + length (seg_data seg) \<le> length D \<and>
     seg_data seg = take (length (seg_data seg)) (drop p D) \<and> length (seg_data seg) < 2 ^ 16 \<and>
     p < n + 2 ^ 31 \<and> n < p + 2 ^ 31"

lemma of_nat_u32_inj:
  fixes a c :: nat
  assumes "(of_nat a :: u32) = of_nat c" and "a < c + 2 ^ 32" and "c < a + 2 ^ 32"
  shows "a = c"
proof -
  have m: "a mod 2 ^ 32 = c mod 2 ^ 32"
    using arg_cong [OF assms(1), of unat] by (simp add: unat_of_nat)
  show ?thesis
  proof (cases "a \<le> c")
    case True
    then have "2 ^ 32 dvd c - a" using m mod_eq_dvd_iff_nat [of a c "2 ^ 32"] by simp
    then show ?thesis using assms(3) True by (auto dest: dvd_imp_le)
  next
    case False
    then have "2 ^ 32 dvd a - c" using m mod_eq_dvd_iff_nat [of c a "2 ^ 32"] by simp
    then show ?thesis using assms(2) False by (auto dest: dvd_imp_le)
  qed
qed

lemma fitted_position:
  assumes "carries D start n p seg" and "rcv_ok s" and "rcv_nxt s = start + of_nat n"
  defines "f \<equiv> fit_segment seg s"
  assumes "seg_data f \<noteq> []"
  shows "\<forall>i < length (seg_data f). n + unat (seg_seq f - rcv_nxt s) + i < length D \<and>
    seg_data f ! i = D ! (n + unat (seg_seq f - rcv_nxt s) + i)"
proof -
  let ?\<delta> = "unat (seg_seq f - rcv_nxt s)"
  have c: "seg_seq seg = start + of_nat p" "p + length (seg_data seg) \<le> length D"
    "seg_data seg = take (length (seg_data seg)) (drop p D)" "length (seg_data seg) < 2 ^ 16"
    "p < n + 2 ^ 31" "n < p + 2 ^ 31" using assms(1) by (auto simp: carries_def)
  have bl: "buffer_length (rbuf s) \<le> 2 ^ 26" using assms(2) by (simp add: rcv_ok_def)
  note F = fit_segment_props [OF c(4) bl, folded f_def]
  from F(3) assms(5) obtain j m where jm: "seg_data f = take m (drop j (seg_data seg))"
    "seg_seq f = seg_seq seg + of_nat j" by blast
  have j: "j < length (seg_data seg)" using assms(5) jm(1) by (cases "j < length (seg_data seg)") auto
  have d: "?\<delta> \<le> 2 ^ 26" using F(2) [OF assms(5)] bl by linarith
  have "of_nat (p + j) = (of_nat (n + ?\<delta>) :: u32)"
    using jm(2) c(1) assms(3) by (simp add: algebra_simps)
  moreover have "p + j < n + ?\<delta> + 2 ^ 32" "n + ?\<delta> < p + j + 2 ^ 32" using j c(4-6) d by simp_all
  ultimately have pos: "p + j = n + ?\<delta>" by (rule of_nat_u32_inj)
  show ?thesis
  proof (intro allI impI)
    fix i assume "i < length (seg_data f)"
    then have i: "i < m" "j + i < length (seg_data seg)" using jm(1) by auto
    then have "seg_data f ! i = seg_data seg ! (j + i)" using jm(1) by simp
    also have "\<dots> = D ! (p + (j + i))" using c(2) i(2) by (subst c(3)) simp
    finally have "seg_data f ! i = D ! (n + ?\<delta> + i)" using pos by (simp add: add.assoc [symmetric])
    then show "n + ?\<delta> + i < length D \<and> seg_data f ! i = D ! (n + ?\<delta> + i)"
      using pos i(2) c(2) by simp
  qed
qed

text \<open>A byte of the ring, counted from the end of the data, that is the stream's.\<close>

definition agrees :: "bytes \<Rightarrow> nat \<Rightarrow> bytes \<Rightarrow> nat \<Rightarrow> nat \<Rightarrow> bool" where
  "agrees D n R dl i \<longleftrightarrow> n + i < length D \<and> R ! (dl + i) = D ! (n + i)"

lemma contents_nth:
  assumes "wf_fifo b" and "data_length b \<le> n" and "n \<le> length D"
  shows "contents b = drop (n - data_length b) (take n D) \<longleftrightarrow>
    (\<forall>q < data_length b. ring_of b ! q = D ! (n - data_length b + q))"
  using assms by (auto simp: contents_def list_eq_iff_nth_eq wf_fifo_def)

lemma put_agrees:
  assumes "dl + \<delta> + length d \<le> length R" and "\<forall>i < length d. n + \<delta> + i < length D \<and> d ! i = D ! (n + \<delta> + i)"
    and "dl + i < length R" and "\<delta> \<le> i \<and> i < \<delta> + length d \<or> agrees D n R dl i"
  shows "agrees D n (put R (dl + \<delta>) d) dl i"
proof (cases "\<delta> \<le> i \<and> i < \<delta> + length d")
  case True
  then have "n + \<delta> + (i - \<delta>) < length D \<and> d ! (i - \<delta>) = D ! (n + \<delta> + (i - \<delta>))"
    using assms(2) [rule_format, of "i - \<delta>"] by linarith
  then show ?thesis using True assms(1,3) by (simp add: agrees_def nth_put)
next
  case False
  then show ?thesis using assms by (auto simp: agrees_def nth_put)
qed

lemma rcv_holds_iff:
  "rcv_holds D start n s \<longleftrightarrow> rcv_ok s \<and> rcv_nxt s = start + of_nat n \<and>
     data_length (rbuf s) \<le> n \<and> n \<le> length D \<and>
     (\<forall>q < data_length (rbuf s). ring_of (rbuf s) ! q = D ! (n - data_length (rbuf s) + q)) \<and>
     (\<forall>r \<in> set (rlist s). \<forall>i. dist (rcv_nxt s) r \<le> i \<and> i < dist (rcv_nxt s) r + unat (rseg_len r) \<longrightarrow>
        agrees D n (ring_of (rbuf s)) (data_length (rbuf s)) i)"
  unfolding rcv_holds_def agrees_def
  by (auto simp: contents_nth rcv_ok_def)

lemma store_in_order_holds:
  fixes s :: "'u pseudo_tcp"
  assumes h: "rcv_holds D start n s" and ne: "seg_data f \<noteq> []"
    and fits: "length (seg_data f) \<le> remaining (rbuf s)"
    and seq: "seg_seq f = rcv_nxt s" and plain: "seg_flags f AND FLAG_FIN = 0" "\<not> ignores_data f s"
    and bytes: "\<forall>i < length (seg_data f). n + 0 + i < length D \<and> seg_data f ! i = D ! (n + 0 + i)"
  shows "\<exists>k fl' b rl wnd. store_data f fl s =
      Some (True, fl', s\<lparr>rbuf := b, rlist := rl, rcv_nxt := rcv_nxt s + of_nat k, rcv_wnd := wnd\<rparr>) \<and>
    length (seg_data f) \<le> k \<and> data_length b = data_length (rbuf s) + k \<and>
    rcv_holds D start (n + k) (s\<lparr>rbuf := b, rlist := rl, rcv_nxt := rcv_nxt s + of_nat k, rcv_wnd := wnd\<rparr>)"
proof -
  let ?dl = "data_length (rbuf s)" and ?R = "ring_of (rbuf s)" and ?l = "length (seg_data f)"
    and ?rem = "remaining (rbuf s)"
  have ok: "rcv_ok s" and nx: "rcv_nxt s = start + of_nat n" "?dl \<le> n" "n \<le> length D"
    and low: "\<And>q. q < ?dl \<Longrightarrow> ?R ! q = D ! (n - ?dl + q)"
    and high: "\<And>r i. r \<in> set (rlist s) \<Longrightarrow> dist (rcv_nxt s) r \<le> i \<Longrightarrow>
        i < dist (rcv_nxt s) r + unat (rseg_len r) \<Longrightarrow> agrees D n ?R ?dl i"
    using h by (auto simp: rcv_holds_iff)
  have wf: "wf_fifo (rbuf s)" "buffer_length (rbuf s) \<le> 2 ^ 26" "rlist_ok (rcv_nxt s) ?rem (rlist s)"
    using ok by (auto simp: rcv_ok_def)
  have lenR: "length ?R = ?dl + ?rem" using wf(1) by (auto simp: wf_fifo_def)
  from store_in_order [OF ok ne fits seq plain, of fl] obtain k rl popped b wnd fl' where R:
    "store_data f fl s = Some (True, fl', s\<lparr>rbuf := b, rlist := rl, rcv_nxt := rcv_nxt s + of_nat k, rcv_wnd := wnd\<rparr>)"
    "rlist s = popped @ rl" "?l \<le> k" "k \<le> ?rem" "wf_fifo b" "data_length b = ?dl + k"
    "buffer_length b = buffer_length (rbuf s)" "ring_of b = put ?R (?dl + 0) (seg_data f)"
    "\<forall>r \<in> set rl. k < dist (rcv_nxt s) r"
    "\<forall>i. ?l \<le> i \<and> i < k \<longrightarrow> (\<exists>r \<in> set popped. dist (rcv_nxt s) r \<le> i \<and> i < dist (rcv_nxt s) r + unat (rseg_len r))"
    by (auto simp del: One_nat_def)
  have new: "agrees D n (ring_of b) ?dl i"
    if "?dl + i < length ?R" "i < ?l \<or> agrees D n ?R ?dl i" for i
    unfolding R(8) by (rule put_agrees [OF _ bytes that(1)]) (use that(2) fits lenR in auto)
  have upto: "agrees D n (ring_of b) ?dl i" if "i < k" for i
    using that R(2,10) high lenR R(4) by (intro new) (auto simp: not_less [symmetric])
  have lowb: "ring_of b ! q = D ! (n - ?dl + q)" if "q < ?dl + k" for q
  proof (cases "q < ?dl")
    case True
    then show ?thesis unfolding R(8) using low fits lenR by (simp add: nth_put)
  next
    case False
    then show ?thesis using upto [of "q - ?dl"] that nx(2) by (simp add: agrees_def)
  qed
  have rl: "rlist_ok (rcv_nxt s) ?rem rl" using wf(3) R(2) by (auto simp: rlist_ok_def sorted_append)
  have "rcv_ok (s\<lparr>rbuf := b, rlist := rl, rcv_nxt := rcv_nxt s + of_nat k, rcv_wnd := wnd\<rparr>)"
    using rlist_ok_advance [OF rl R(9)] R wf(2) by (simp add: rcv_ok_def)
  moreover have "n + k \<le> length D"
    using upto [of "k - 1"] nx(3) R(3) by (cases k) (auto simp: agrees_def)
  moreover have "agrees D (n + k) (ring_of b) (?dl + k) i" if r: "r \<in> set rl"
    and i: "dist (rcv_nxt s + of_nat k) r \<le> i" "i < dist (rcv_nxt s + of_nat k) r + unat (rseg_len r)" for r i
  proof -
    have d: "dist (rcv_nxt s + of_nat k) r = dist (rcv_nxt s) r - k" "k < dist (rcv_nxt s) r"
      using R(9) r by (auto intro: dist_advance less_imp_le)
    then have "dist (rcv_nxt s) r \<le> k + i" "k + i < dist (rcv_nxt s) r + unat (rseg_len r)" using i by auto
    moreover have "dist (rcv_nxt s) r + unat (rseg_len r) \<le> ?rem" using rl r by (simp add: rlist_ok_def)
    ultimately have "agrees D n (ring_of b) ?dl (k + i)"
      using high [of r "k + i"] r R(2) lenR by (intro new) auto
    then show ?thesis by (simp add: agrees_def add.assoc)
  qed
  ultimately have "rcv_holds D start (n + k) (s\<lparr>rbuf := b, rlist := rl, rcv_nxt := rcv_nxt s + of_nat k, rcv_wnd := wnd\<rparr>)"
    unfolding rcv_holds_iff using nx R(6) lowb by (simp add: add.assoc)
  with R(1,3,6) show ?thesis by blast
qed

lemma store_out_of_order_holds:
  fixes s :: "'u pseudo_tcp"
  assumes h: "rcv_holds D start n s" and ne: "seg_data f \<noteq> []"
    and fits: "unat (seg_seq f - rcv_nxt s) + length (seg_data f) \<le> remaining (rbuf s)"
    and seq: "seg_seq f \<noteq> rcv_nxt s" and plain: "seg_flags f AND FLAG_FIN = 0" "\<not> ignores_data f s"
    and bytes: "\<forall>i < length (seg_data f). n + unat (seg_seq f - rcv_nxt s) + i < length D \<and>
        seg_data f ! i = D ! (n + unat (seg_seq f - rcv_nxt s) + i)"
  shows "\<exists>b rl. store_data f fl s = Some (False, fl, s\<lparr>rbuf := b, rlist := rl\<rparr>) \<and>
    data_length b = data_length (rbuf s) \<and>
    rcv_holds D start n (s\<lparr>rbuf := b, rlist := rl\<rparr>)"
proof -
  let ?dl = "data_length (rbuf s)" and ?R = "ring_of (rbuf s)" and ?l = "length (seg_data f)"
    and ?rem = "remaining (rbuf s)" and ?\<delta> = "unat (seg_seq f - rcv_nxt s)"
    and ?r = "\<lparr>rseg_seq = seg_seq f, rseg_len = seg_len f\<rparr>"
  have ok: "rcv_ok s" and nx: "rcv_nxt s = start + of_nat n" "?dl \<le> n" "n \<le> length D"
    and low: "\<And>q. q < ?dl \<Longrightarrow> ?R ! q = D ! (n - ?dl + q)"
    and high: "\<And>r i. r \<in> set (rlist s) \<Longrightarrow> dist (rcv_nxt s) r \<le> i \<Longrightarrow>
        i < dist (rcv_nxt s) r + unat (rseg_len r) \<Longrightarrow> agrees D n ?R ?dl i"
    using h by (auto simp: rcv_holds_iff)
  have wf: "wf_fifo (rbuf s)" "buffer_length (rbuf s) \<le> 2 ^ 26" "rlist_ok (rcv_nxt s) ?rem (rlist s)"
    using ok by (auto simp: rcv_ok_def)
  have lenR: "length ?R = ?dl + ?rem" using wf(1) by (auto simp: wf_fifo_def)
  from store_out_of_order [OF ok ne fits seq plain, of fl] obtain b where R:
    "store_data f fl s = Some (False, fl, s\<lparr>rbuf := b, rlist := insert_rseg ?r (rlist s)\<rparr>)"
    "wf_fifo b" "data_length b = ?dl" "buffer_length b = buffer_length (rbuf s)"
    "ring_of b = put ?R (?dl + ?\<delta>) (seg_data f)" by blast
  have d: "dist (rcv_nxt s) ?r = ?\<delta>" "0 < dist (rcv_nxt s) ?r" "unat (rseg_len ?r) = ?l" "?rem \<le> 2 ^ 26"
    using seq fits wf(2) by (simp_all add: dist_def unat_gt_0 unat_u32)
  have ins: "rlist_ok (rcv_nxt s) ?rem (insert_rseg ?r (rlist s))"
      "set (insert_rseg ?r (rlist s)) = insert ?r (set (rlist s))"
    using insert_rseg_ok [OF wf(3) d(2) _ d(4)] fits d(1,3) by simp_all
  have "agrees D n (ring_of b) ?dl i" if "r \<in> set (insert_rseg ?r (rlist s))"
    "dist (rcv_nxt s) r \<le> i" "i < dist (rcv_nxt s) r + unat (rseg_len r)" for r i
  proof -
    have "dist (rcv_nxt s) r + unat (rseg_len r) \<le> ?rem" using ins(1) that(1) by (simp add: rlist_ok_def)
    then have "?dl + i < length ?R" using that(3) lenR by linarith
    moreover have "?\<delta> \<le> i \<and> i < ?\<delta> + ?l \<or> agrees D n ?R ?dl i"
      using that ins(2) d(1,3) high by auto
    ultimately show ?thesis unfolding R(5) using fits lenR by (intro put_agrees [OF _ bytes]) auto
  qed
  moreover have "ring_of b ! q = D ! (n - ?dl + q)" if "q < ?dl" for q
    unfolding R(5) using low [OF that] that fits lenR by (simp add: nth_put)
  moreover have "rcv_ok (s\<lparr>rbuf := b, rlist := insert_rseg ?r (rlist s)\<rparr>)"
    using ins(1) R wf(2) by (simp add: rcv_ok_def)
  ultimately have "rcv_holds D start n (s\<lparr>rbuf := b, rlist := insert_rseg ?r (rlist s)\<rparr>)"
    unfolding rcv_holds_iff using nx R(3) by simp
  with R(1,3) show ?thesis by blast
qed

lemma holds_ok: "rcv_holds D start n s \<Longrightarrow> rcv_ok s"
  by (simp add: rcv_holds_def)

text \<open>
  The reception of any segment of the stream is total and keeps the invariant; a segment that
  covers the next byte, while there is room, makes progress.
\<close>

lemma receive_carried:
  fixes s :: "'u pseudo_tcp"
  assumes "rcv_holds D start n s" and "carries D start n p seg"
    and "seg_flags seg AND FLAG_FIN = 0" and "\<not> ignores_data seg s"
  shows "\<exists>new fl' n' b rl wnd. store_data (fit_segment seg s) fl s =
      Some (new, fl', s\<lparr>rbuf := b, rlist := rl, rcv_nxt := start + of_nat n', rcv_wnd := wnd\<rparr>) \<and>
    rcv_holds D start n' (s\<lparr>rbuf := b, rlist := rl, rcv_nxt := start + of_nat n', rcv_wnd := wnd\<rparr>) \<and>
    n \<le> n' \<and> (new \<longleftrightarrow> n < n') \<and> data_length b + n = data_length (rbuf s) + n'"
proof -
  let ?f = "fit_segment seg s"
  note ok = holds_ok [OF assms(1)]
  have nx: "rcv_nxt s = start + of_nat n" using assms(1) by (simp add: rcv_holds_def)
  have F: "seg_flags ?f = seg_flags seg"
    "seg_data ?f \<noteq> [] \<Longrightarrow> unat (seg_seq ?f - rcv_nxt s) + length (seg_data ?f) \<le> remaining (rbuf s)"
    using fit_segment_props [of seg s] ok assms(2) by (auto simp: carries_def rcv_ok_def)
  have plain: "seg_flags ?f AND FLAG_FIN = 0" "\<not> ignores_data ?f s"
    using assms(3,4) F(1) by (simp_all add: ignores_data_def)
  show ?thesis
  proof (cases "seg_data ?f = []")
    case True
    let ?s = "s\<lparr>rbuf := rbuf s, rlist := rlist s, rcv_nxt := start + of_nat n, rcv_wnd := rcv_wnd s\<rparr>"
    have same: "?s = s" unfolding nx [symmetric] by simp
    have "store_data ?f fl s = Some (False, fl, ?s)"
      unfolding same using True plain by (simp add: store_data_def)
    moreover have "rcv_holds D start n ?s" unfolding same by (rule assms(1))
    ultimately show ?thesis by blast
  next
    case ne: False
    note pos = fitted_position [OF assms(2) ok nx ne]
    show ?thesis
    proof (cases "seg_seq ?f = rcv_nxt s")
      case True
      with F(2) [OF ne] have l: "length (seg_data ?f) \<le> remaining (rbuf s)" by simp
      have bytes: "\<forall>i < length (seg_data ?f). n + 0 + i < length D \<and> seg_data ?f ! i = D ! (n + 0 + i)"
        using pos True by simp
      have nk: "rcv_nxt s + of_nat k = start + of_nat (n + k)" for k using nx by (simp add: add.assoc)
      from store_in_order_holds [OF assms(1) ne l True plain bytes, of fl, unfolded nk]
      obtain k fl' b rl wnd where R: "store_data ?f fl s =
          Some (True, fl', s\<lparr>rbuf := b, rlist := rl, rcv_nxt := start + of_nat (n + k), rcv_wnd := wnd\<rparr>)"
        "length (seg_data ?f) \<le> k" "data_length b = data_length (rbuf s) + k"
        "rcv_holds D start (n + k) (s\<lparr>rbuf := b, rlist := rl, rcv_nxt := start + of_nat (n + k), rcv_wnd := wnd\<rparr>)"
        by blast
      have "0 < k" using R(2) ne by (cases k) simp_all
      then have "n \<le> n + k" "True \<longleftrightarrow> n < n + k" "data_length b + n = data_length (rbuf s) + (n + k)"
        using R(3) by simp_all
      with R(1,4) show ?thesis by blast
    next
      case False
      from store_out_of_order_holds [OF assms(1) ne F(2) [OF ne] False plain pos, of fl] obtain b rl where
        R: "store_data ?f fl s = Some (False, fl, s\<lparr>rbuf := b, rlist := rl\<rparr>)"
          "data_length b = data_length (rbuf s)" "rcv_holds D start n (s\<lparr>rbuf := b, rlist := rl\<rparr>)" by blast
      let ?s = "s\<lparr>rbuf := b, rlist := rl, rcv_nxt := start + of_nat n, rcv_wnd := rcv_wnd s\<rparr>"
      have "?s = s\<lparr>rbuf := b, rlist := rl\<rparr>" unfolding nx [symmetric] by simp
      with R have "store_data ?f fl s = Some (False, fl, ?s)" "rcv_holds D start n ?s"
        "data_length b + n = data_length (rbuf s) + n" by simp_all
      then show ?thesis by blast
    qed
  qed
qed

lemma fit_next_byte:
  assumes "carries D start n p seg" and "rcv_nxt s = start + of_nat n" and "buffer_length (rbuf s) \<le> 2 ^ 26"
    and "p \<le> n" and "n < p + length (seg_data seg)" and "0 < remaining (rbuf s)"
  shows "seg_seq (fit_segment seg s) = rcv_nxt s" and "seg_data (fit_segment seg s) \<noteq> []"
proof -
  let ?l = "length (seg_data seg)" and ?t = "trim_old seg (rcv_nxt s)" and ?rem = "remaining (rbuf s)"
  have c: "seg_seq seg = start + of_nat p" "?l < 2 ^ 16" using assms(1) by (auto simp: carries_def)
  obtain k where k: "n = p + k" using assms(4) le_Suc_ex by blast
  have j: "rcv_nxt s - seg_seq seg = of_nat k" using assms(2) c(1) k by simp
  have u1: "unat (of_nat k :: u32) = k" by (rule unat_u32) (use assms(5) c(2) k in simp)
  have u2: "unat (seg_len seg) = ?l" by (rule unat_u32) (use c(2) in simp)
  note u = u1 u2
  have lt: "(of_nat k :: u32) < seg_len seg"
    unfolding word_less_nat_alt u using assms(5) k by linarith
  have smaller: "SMALLER (seg_seq seg) (rcv_nxt s) \<longleftrightarrow> 0 < k"
    unfolding LARGER_unat j u(1) using assms(5) c(2) k by auto
  have sq: "seg_seq seg + of_nat k = rcv_nxt s" using j by (simp add: algebra_simps)
  have t: "seg_seq ?t = rcv_nxt s" "seg_data ?t = drop k (seg_data seg)"
    using smaller lt sq by (auto simp: trim_old_def j u(1) Let_def)
  have lt: "0 < length (seg_data ?t)" "length (seg_data ?t) < 2 ^ 16"
    using t(2) c(2) assms(5) k by simp_all
  have ul: "unat (seg_len ?t) = length (seg_data ?t)" by (rule unat_u32) (use lt(2) in simp)
  have f: "fit_segment seg s = trim_new ?t (rcv_nxt s) ?rem"
    by (simp add: fit_segment_def pseudo_tcp_fifo_get_write_remaining_def)
  show "seg_seq (fit_segment seg s) = rcv_nxt s" by (simp add: f trim_new_def Let_def t(1))
  show "seg_data (fit_segment seg s) \<noteq> []"
  proof (cases "length (seg_data ?t) > ?rem")
    case True
    have a: "unat (seg_len ?t - of_nat ?rem) = length (seg_data ?t) - ?rem"
      using True unat_sub_nat [of ?rem "seg_len ?t"] ul by simp
    have "seg_len ?t - of_nat ?rem < seg_len ?t" unfolding word_less_nat_alt a ul using lt(1) assms(6) by linarith
    moreover have "seg_len ?t - (seg_len ?t - of_nat ?rem) = of_nat ?rem" by simp
    moreover have "unat (of_nat ?rem :: u32) = ?rem" by (rule unat_u32) (use True lt(2) in simp)
    ultimately show ?thesis
      unfolding f trim_new_def t(1) Let_def add_diff_cancel_left' ul using True lt assms(6) by simp
  next
    case False
    then show ?thesis unfolding f trim_new_def t(1) Let_def add_diff_cancel_left' ul using lt by simp
  qed
qed

lemma receive_progress:
  fixes s :: "'u pseudo_tcp"
  assumes "rcv_holds D start n s" and "carries D start n p seg"
    and "seg_flags seg AND FLAG_FIN = 0" and "\<not> ignores_data seg s"
    and "p \<le> n" and "n < p + length (seg_data seg)" and "0 < remaining (rbuf s)"
  shows "\<exists>fl' n' s'. store_data (fit_segment seg s) fl s = Some (True, fl', s') \<and> rcv_holds D start n' s' \<and> n < n'"
proof -
  have "rcv_nxt s = start + of_nat n" "buffer_length (rbuf s) \<le> 2 ^ 26"
    using assms(1) by (auto simp: rcv_holds_def rcv_ok_def)
  note F = fit_next_byte [OF assms(2) this assms(5-7)]
  from receive_carried [OF assms(1-4), of fl] obtain new fl' n' s' where
    R: "store_data (fit_segment seg s) fl s = Some (new, fl', s')" "rcv_holds D start n' s'" "new \<longleftrightarrow> n < n'" by blast
  have G: "seg_flags (fit_segment seg s) = seg_flags seg" "length (seg_data (fit_segment seg s)) \<le> remaining (rbuf s)"
    using fit_segment_props [of seg s] assms(1,2) F by (auto simp: carries_def rcv_holds_def rcv_ok_def)
  have "\<exists>fl' s'. store_data (fit_segment seg s) fl s = Some (True, fl', s')"
    using store_in_order [OF holds_ok [OF assms(1)] F(2) G(2) F(1), of fl] assms(3,4) G(1)
    by (auto simp: ignores_data_def)
  with R show ?thesis by auto
qed

end
