(* ===== verification/Tcp_Delivery.thy ===== *)
theory Tcp_Delivery
  imports Tcp_Receive Tcp_Send Tcp_Socket
begin

unbundle bit_operations_syntax

text \<open>
  Delivery: whatever the sending side of the socket does, it leaves the receive buffer alone; so
  \<open>process\<close> keeps the invariant of reassembly on every segment of a stream, and the bytes that
  successive calls of \<open>pseudo_tcp_socket_recv\<close> return are the stream from its start on.
\<close>

section \<open>What sending leaves unchanged\<close>

definition rcv_view :: "'u pseudo_tcp \<Rightarrow> fifo \<times> rsegment list \<times> u32 \<times> bool" where
  "rcv_view s = (rbuf s, rlist s, rcv_nxt s, support_fin_ack s)"

lemma rcv_view_update [simp]:
  "rcv_view (s\<lparr>user_data := x0\<rparr>) = rcv_view s" "rcv_view (s\<lparr>shutdown := x1\<rparr>) = rcv_view s"
  "rcv_view (s\<lparr>errno := x2\<rparr>) = rcv_view s" "rcv_view (s\<lparr>bReadEnable := x3\<rparr>) = rcv_view s"
  "rcv_view (s\<lparr>bWriteEnable := x4\<rparr>) = rcv_view s" "rcv_view (s\<lparr>bOutgoing := x5\<rparr>) = rcv_view s"
  "rcv_view (s\<lparr>last_traffic := x6\<rparr>) = rcv_view s" "rcv_view (s\<lparr>lastrecv := x7\<rparr>) = rcv_view s"
  "rcv_view (s\<lparr>rcv_wnd := x8\<rparr>) = rcv_view s" "rcv_view (s\<lparr>slist := x9\<rparr>) = rcv_view s"
  "rcv_view (s\<lparr>unsent_slist := x10\<rparr>) = rcv_view s" "rcv_view (s\<lparr>snd_wnd := x11\<rparr>) = rcv_view s"
  "rcv_view (s\<lparr>snd_una := x12\<rparr>) = rcv_view s" "rcv_view (s\<lparr>sbuf := x13\<rparr>) = rcv_view s"
  "rcv_view (s\<lparr>mss := x14\<rparr>) = rcv_view s" "rcv_view (s\<lparr>msslevel := x15\<rparr>) = rcv_view s"
  "rcv_view (s\<lparr>largest := x16\<rparr>) = rcv_view s" "rcv_view (s\<lparr>rto_base := x17\<rparr>) = rcv_view s"
  "rcv_view (s\<lparr>ts_recent := x18\<rparr>) = rcv_view s" "rcv_view (s\<lparr>ssthresh := x19\<rparr>) = rcv_view s"
  "rcv_view (s\<lparr>cwnd := x20\<rparr>) = rcv_view s" "rcv_view (s\<lparr>dup_acks := x21\<rparr>) = rcv_view s"
  "rcv_view (s\<lparr>recover := x22\<rparr>) = rcv_view s"
  by (simp_all add: rcv_view_def)

named_theorems rcv_frame

lemma queue_frame [rcv_frame]: "queue s d fl = Some (n, s') \<Longrightarrow> rcv_view s' = rcv_view s"
  by (auto simp: queue_def Let_def rcv_view_def split: if_splits bind_splits)

lemma rst_frame [rcv_frame]: "queue_rst_message s = Some s' \<Longrightarrow> rcv_view s' = rcv_view s"
  by (auto simp: queue_rst_message_def split: if_splits bind_splits dest: queue_frame)

lemma packet_frame [rcv_frame]: "packet env s q f ofs n now = Some (r, s') \<Longrightarrow> rcv_view s' = rcv_view s"
  by (auto simp: packet_def Let_def rcv_view_def split: if_splits bind_splits prod.splits)

lemma shrink_frame [rcv_frame]: "shrink s n = Some (r, s') \<Longrightarrow> rcv_view s' = rcv_view s"
proof (induction s n arbitrary: r s' rule: shrink.induct)
  case (1 s n)
  from "1.prems" "1.IH" [OF _ _ refl refl] show ?case
    by (subst (asm) shrink.simps) (auto simp: Let_def split: if_splits)
qed

lemma transmit_loop_frame [rcv_frame]:
  "transmit_loop env s seg n now = Some (r, s') \<Longrightarrow> rcv_view s' = rcv_view s"
proof (induction env s seg n now arbitrary: r s' rule: transmit_loop.induct)
  case (1 env s seg n now)
  from "1.prems" obtain w s1 where near: "sseg_seq seg - snd_una s \<le> 1024 * 1024 * 64"
    and pk: "packet env s (sseg_seq seg) (sseg_flags seg) (sseg_seq seg - snd_una s) n now = Some (w, s1)"
    by (subst (asm) transmit_loop.simps) (auto split: if_splits bind_splits)
  note P = packet_frame [OF pk]
  show ?case
  proof (cases w)
    case WR_TOO_LARGE
    from "1.prems" near pk WR_TOO_LARGE obtain x s2 where sh: "shrink s1 n = Some (x, s2)"
      by (subst (asm) transmit_loop.simps) (auto split: if_splits bind_splits)
    show ?thesis
    proof (cases x)
      case None
      with "1.prems" near pk WR_TOO_LARGE sh show ?thesis
        by (subst (asm) transmit_loop.simps) (use P shrink_frame [OF sh] in auto)
    next
      case (Some m)
      with "1.prems" near pk WR_TOO_LARGE sh have "transmit_loop env s2 seg m now = Some (r, s')"
        by (subst (asm) transmit_loop.simps) simp
      with "1.IH" [OF near pk refl WR_TOO_LARGE sh refl Some] show ?thesis
        by (simp add: P shrink_frame [OF sh])
    qed
  qed (use "1.prems" near pk P in \<open>subst (asm) transmit_loop.simps, simp\<close>)+
qed

lemma split_frame [rcv_frame]: "split_segment s seg n = Some s' \<Longrightarrow> rcv_view s' = rcv_view s"
  by (auto simp: split_segment_def Let_def rcv_view_def split: if_splits bind_splits)

lemma mark_frame [rcv_frame]: "mark_sent s seg n now = Some s' \<Longrightarrow> rcv_view s' = rcv_view s"
  by (auto simp: mark_sent_def Let_def rcv_view_def split: if_splits bind_splits list.splits)

lemma transmit_frame [rcv_frame]: "transmit env s i now = Some (r, s') \<Longrightarrow> rcv_view s' = rcv_view s"
  by (auto simp: transmit_def split: if_splits bind_splits option.splits dest!: rcv_frame)

lemma send_step_frame [rcv_frame]:
  "send_step env s fl now = Some (go, fl', s') \<Longrightarrow> rcv_view s' = rcv_view s"
  by (auto simp: send_step_def Let_def split: if_splits bind_splits list.splits dest!: rcv_frame)
    (simp_all add: rcv_view_def)

lemma send_loop_frame [rcv_frame]: "send_loop env s fl now = Some s' \<Longrightarrow> rcv_view s' = rcv_view s"
proof (erule send_loop.raw_induct [rotated])
  fix loop env s fl now s'
  assume IH: "\<And>env s fl now s'. loop env s fl now = Some s' \<Longrightarrow> rcv_view s' = rcv_view s"
    and "Option.bind (send_step env s fl now) (\<lambda>(go, fl, s). if go then loop env s fl now else Some s) = Some s'"
  then obtain go fl1 s1 where "send_step env s fl now = Some (go, fl1, s1)"
    "(if go then loop env s1 fl1 now else Some s1) = Some s'" by (auto split: bind_splits)
  then show "rcv_view s' = rcv_view s" using IH by (auto split: if_splits dest!: send_step_frame)
qed

lemma attempt_send_frame [rcv_frame]: "attempt_send env s fl = Some s' \<Longrightarrow> rcv_view s' = rcv_view s"
  by (auto simp: attempt_send_def Let_def split: if_splits dest!: send_loop_frame)

lemma set_state_frame [rcv_frame]: "set_state s st = Some s' \<Longrightarrow> rcv_view s' = rcv_view s"
  by (auto simp: set_state_def rcv_view_def split: if_splits)

lemma set_states_frame [rcv_frame]: "set_states s sts = Some s' \<Longrightarrow> rcv_view s' = rcv_view s"
  by (induction s sts arbitrary: s' rule: set_states.induct) (auto split: bind_splits dest!: set_state_frame)

text \<open>
  A user whose callbacks do not read from the socket: every callback leaves the receive side as
  it is. (A callback that reads does so through \<open>pseudo_tcp_socket_recv\<close>, a step of its own.)
\<close>

definition passive_env :: "'u tcp_env \<Rightarrow> bool" where
  "passive_env env \<longleftrightarrow> (\<forall>s s'.
     (PseudoTcpOpened env s = Some s' \<longrightarrow> rcv_view s' = rcv_view s) \<and>
     (PseudoTcpReadable env s = Some s' \<longrightarrow> rcv_view s' = rcv_view s) \<and>
     (PseudoTcpWritable env s = Some s' \<longrightarrow> rcv_view s' = rcv_view s) \<and>
     (\<forall>err. PseudoTcpClosed env err s = Some s' \<longrightarrow> rcv_view s' = rcv_view s))"

lemma passive_envD:
  assumes "passive_env env"
  shows "PseudoTcpOpened env s = Some s' \<Longrightarrow> rcv_view s' = rcv_view s"
    and "PseudoTcpReadable env s = Some s' \<Longrightarrow> rcv_view s' = rcv_view s"
    and "PseudoTcpWritable env s = Some s' \<Longrightarrow> rcv_view s' = rcv_view s"
    and "PseudoTcpClosed env err s = Some s' \<Longrightarrow> rcv_view s' = rcv_view s"
  using assms by (auto simp: passive_env_def)

lemma set_state_closed_frame [rcv_frame]:
  "set_state_closed env s err = Some s' \<Longrightarrow> passive_env env \<Longrightarrow> rcv_view s' = rcv_view s"
  by (auto simp: set_state_closed_def split: if_splits bind_splits dest!: set_state_frame dest: passive_envD)

lemma set_state_established_frame [rcv_frame]:
  assumes "set_state_established env s = Some s'" and "passive_env env"
  shows "rcv_view s' = rcv_view s"
proof -
  from assms(1) obtain s1 where "set_state s TCP_ESTABLISHED = Some s1" "PseudoTcpOpened env (adjustMTU s1) = Some s'"
    by (auto simp: set_state_established_def split: bind_splits)
  moreover have "rcv_view (adjustMTU s1) = rcv_view s1" for s1 :: "'a pseudo_tcp"
    by (simp add: adjustMTU_def Let_def rcv_view_def)
  ultimately show ?thesis using passive_envD(1) [OF assms(2)] set_state_frame by metis
qed

lemma closedown_frame [rcv_frame]:
  assumes "closedown env s err src = Some s'" and "passive_env env"
  shows "rcv_view s' = rcv_view s"
proof -
  from assms(1) obtain s1 s2 where 1: "(if src = CLOSEDOWN_LOCAL \<and> support_fin_ack s then
         do { s \<leftarrow> queue_rst_message s; attempt_send env s sfRst }
       else if src = CLOSEDOWN_LOCAL then Some (s\<lparr>shutdown := SD_FORCEFUL\<rparr>) else Some s) = Some s1"
    and 2: "set_states s1 (closing_path (state s1)) = Some s2" "set_state_closed env s2 err = Some s'"
    unfolding closedown_def by (auto split: bind_splits simp del: if_split_eq1 split del: if_split)
  from 1 have "rcv_view s1 = rcv_view s"
    by (auto split: if_splits bind_splits dest!: rst_frame attempt_send_frame)
  with 2 assms(2) show ?thesis by (metis set_state_closed_frame set_states_frame)
qed

lemma retransmit_frame [rcv_frame]:
  "retransmit_head env s now = Some (ok, s') \<Longrightarrow> passive_env env \<Longrightarrow> rcv_view s' = rcv_view s"
  by (auto simp: retransmit_head_def split: if_splits bind_splits list.splits
      dest!: transmit_frame closedown_frame)

lemma grow_window_frame [rcv_frame]:
  "grow_window env s n now = Some (ok, s') \<Longrightarrow> passive_env env \<Longrightarrow> rcv_view s' = rcv_view s"
  by (auto simp: grow_window_def split: if_splits bind_splits dest: retransmit_frame)

lemma update_rtt_frame [rcv_frame]: "update_rtt now e s = (ok, s') \<Longrightarrow> rcv_view s' = rcv_view s"
  by (auto simp: update_rtt_def Let_def rcv_view_def split: if_splits)

lemma valuable_frame [rcv_frame]:
  assumes "process_valuable_ack env seg now s = Some (ok, fa, s')" and "passive_env env"
  shows "rcv_view s' = rcv_view s"
proof -
  obtain ok1 s1 where r: "update_rtt now (seg_tsecr seg) s = (ok1, s1)" by fastforce
  from assms update_rtt_frame [OF r] show ?thesis unfolding process_valuable_ack_def r Let_def
    by (auto split: if_splits bind_splits dest!: grow_window_frame)
qed

lemma duplicate_frame [rcv_frame]:
  "process_duplicate_ack env seg now s = Some (ok, fa, s') \<Longrightarrow> passive_env env \<Longrightarrow> rcv_view s' = rcv_view s"
  unfolding process_duplicate_ack_def Let_def
  by (auto split: if_splits bind_splits dest!: retransmit_frame)

lemma process_ack_frame [rcv_frame]:
  "process_ack env seg now s = Some (ok, fa, s') \<Longrightarrow> passive_env env \<Longrightarrow> rcv_view s' = rcv_view s"
  by (auto simp: process_ack_def split: if_splits dest: valuable_frame duplicate_frame)

lemma process_close_frame [rcv_frame]:
  "process_close env seg fa s = Some (ok, s') \<Longrightarrow> passive_env env \<Longrightarrow> rcv_view s' = rcv_view s"
  by (auto simp: process_close_def Let_def split: if_splits tcp_state.splits
      dest: set_state_frame set_state_closed_frame)

lemma notify_writable_frame [rcv_frame]:
  "notify_writable env s = Some s' \<Longrightarrow> passive_env env \<Longrightarrow> rcv_view s' = rcv_view s"
  by (auto simp: notify_writable_def Let_def split: if_splits dest: passive_envD)

section \<open>The invariant of reassembly\<close>

lemma rcv_holds_view:
  "rcv_view s' = rcv_view s \<Longrightarrow> rcv_holds D start n s' \<longleftrightarrow> rcv_holds D start n s"
  by (simp add: rcv_holds_def rcv_ok_def rcv_view_def)

text \<open>The position in the stream of the next byte that the user will read.\<close>

abbreviation read_pos :: "nat \<Rightarrow> 'u pseudo_tcp \<Rightarrow> nat" where
  "read_pos n s \<equiv> n - data_length (rbuf s)"

text \<open>A data segment: none of the flags is set.\<close>

abbreviation data_segment :: "segment \<Rightarrow> bool" where
  "data_segment seg \<equiv> seg_flags seg = 0"

lemma fit_empty:
  assumes "seg_data seg = []"
  shows "seg_data (fit_segment seg s) = []" and "seg_flags (fit_segment seg s) = seg_flags seg"
  using assms by (auto simp: fit_segment_def trim_old_def trim_new_def Let_def)

lemma process_data_holds:
  assumes "process_data env seg s = Some (ok, s')" and "passive_env env" and "support_fin_ack s"
    and "rcv_holds D start n s" and "seg_data seg = [] \<or> carries D start n p seg" and "data_segment seg"
  shows "support_fin_ack s' \<and> (\<exists>n' \<ge> n. rcv_holds D start n' s' \<and> read_pos n' s' = read_pos n s)"
proof -
  from assms(1) obtain s1 fl s2 new fl2 s3 s4 where
    1: "notify_writable env s = Some s1" and 2: "ack_flags seg s1 = (fl, s2)"
    and 3: "store_data (fit_segment seg s2) fl s2 = Some (new, fl2, s3)"
    and 4: "attempt_send env s3 fl2 = Some s4"
    and 5: "(if new \<and> bReadEnable s4 then PseudoTcpReadable env s4 else Some s4) = Some s'"
    unfolding process_data_def Let_def by (auto split: bind_splits prod.splits simp del: if_split_eq1 split del: if_split)
  have s2: "s2 = s1" using 2 assms(6) by (auto simp: ack_flags_def split: if_splits)
  have v: "rcv_view s2 = rcv_view s" using notify_writable_frame [OF 1 assms(2)] s2 by simp
  then have sup: "support_fin_ack s2" using assms(3) by (simp add: rcv_view_def)
  then have plain: "\<not> ignores_data seg s2" "seg_flags seg AND FLAG_FIN = 0"
    using assms(6) by (simp_all add: ignores_data_def)
  have h2: "rcv_holds D start n s2" using rcv_holds_view [OF v] assms(4) by blast
  have "\<exists>n'. rcv_holds D start n' s3 \<and> n \<le> n' \<and> support_fin_ack s3 \<and>
      data_length (rbuf s3) + n = data_length (rbuf s2) + n'"
  proof (cases "seg_data seg = []")
    case True
    then have "s3 = s2" using 3 plain fit_empty [of seg s2] by (auto simp: store_data_def)
    with h2 sup show ?thesis by auto
  next
    case False
    with assms(5) have "carries D start n p seg" by simp
    from receive_carried [OF h2 this plain(2,1), of fl] 3 sup show ?thesis by auto
  qed
  then obtain n' where h: "rcv_holds D start n' s3" "n \<le> n'" "support_fin_ack s3"
      "data_length (rbuf s3) + n = data_length (rbuf s2) + n'" by blast
  have "rcv_view s' = rcv_view s4"
    using 5 passive_envD(2) [OF assms(2)] by (auto split: if_splits)
  then have "rcv_view s' = rcv_view s3" using attempt_send_frame [OF 4] by simp
  moreover have "read_pos n' s3 = read_pos n s" using h(2,4) v by (simp add: rcv_view_def)
  ultimately show ?thesis using rcv_holds_view [of s' s3] h(1-3) by (auto simp: rcv_view_def)
qed

lemma process_tail_holds:
  fixes s :: "'u pseudo_tcp"
  assumes r: "(if \<not> ok1 then Some (False, s1) else do {
      s \<leftarrow> (if state s1 = TCP_SYN_RECEIVED then set_state_established env s1 else Some s1);
      (ok, s) \<leftarrow> process_close env seg fa s;
      if \<not> ok then Some (False, s) else process_data env seg s }) = Some (ok, s')"
    and env: "passive_env env" and v1: "rcv_view s1 = rcv_view s" and fin: "support_fin_ack s"
    and h: "rcv_holds D start n s" and seg: "seg_data seg = [] \<or> carries D start n p seg" "data_segment seg"
  shows "support_fin_ack s' \<and> (\<exists>n' \<ge> n. rcv_holds D start n' s' \<and> read_pos n' s' = read_pos n s)"
proof -
  have same: ?thesis if "rcv_view s' = rcv_view s"
    using that fin h rcv_holds_view [OF that] by (auto simp: rcv_view_def)
  show ?thesis
  proof (cases ok1)
    case False
    with r v1 show ?thesis by (intro same) simp
  next
    case True
    with r obtain s2 ok2 s3 where
      2: "(if state s1 = TCP_SYN_RECEIVED then set_state_established env s1 else Some s1) = Some s2"
        "process_close env seg fa s2 = Some (ok2, s3)"
      and r3: "(if \<not> ok2 then Some (False, s3) else process_data env seg s3) = Some (ok, s')"
      by (auto split: bind_splits simp del: if_split_eq1 split del: if_split)
    have "rcv_view s2 = rcv_view s1"
      using 2(1) set_state_established_frame [OF _ env] by (auto split: if_splits)
    then have v3: "rcv_view s3 = rcv_view s" using process_close_frame [OF 2(2) env] v1 by simp
    show ?thesis
    proof (cases ok2)
      case False
      with r3 v3 show ?thesis by (intro same) simp
    next
      case True
      with r3 have "process_data env seg s3 = Some (ok, s')" by simp
      moreover have "support_fin_ack s3" using v3 fin by (simp add: rcv_view_def)
      moreover have "rcv_holds D start n s3" using rcv_holds_view [OF v3] h by blast
      moreover have "read_pos n s3 = read_pos n s" using v3 by (simp add: rcv_view_def)
      ultimately show ?thesis using process_data_holds [OF _ env _ _ seg] by metis
    qed
  qed
qed

lemma process_holds:
  fixes s :: "'u pseudo_tcp"
  assumes "process env s seg = Some (ok, s')" and "passive_env env" and "support_fin_ack s"
    and "rcv_holds D start n s" and "seg_data seg = [] \<or> carries D start n p seg" and "data_segment seg"
  shows "support_fin_ack s' \<and> (\<exists>n' \<ge> n. rcv_holds D start n' s' \<and> read_pos n' s' = read_pos n s)"
proof -
  have same: ?thesis if "rcv_view s' = rcv_view s"
    using that assms(3,4) rcv_holds_view [OF that] by (auto simp: rcv_view_def)
  define now where "now = get_current_time env s"
  define s0 where "s0 = s\<lparr>last_traffic := now, lastrecv := now, bOutgoing := False\<rparr>"
  have v0: "rcv_view s0 = rcv_view s" by (simp add: s0_def)
  have ut: "rcv_view (update_timestamp seg s0) = rcv_view s" by (simp add: update_timestamp_def v0)
  note unf = process_def Let_def now_def [symmetric] s0_def [symmetric] process_control_def
  let ?closed = "state s0 = TCP_CLOSED \<or> (pseudo_tcp_state_has_sent_fin (state s0) \<and> seg_data seg \<noteq> [])"
  consider (conv) "seg_conv seg \<noteq> conv s" | (closed) "seg_conv seg = conv s" ?closed
    | (go) "seg_conv seg = conv s" "\<not> ?closed"
    by atomize_elim argo
  then show ?thesis
  proof cases
    case conv
    with assms(1) show ?thesis by (intro same) (simp add: process_def)
  next
    case closed
    with assms(1,6) have "closedown env s0 0 CLOSEDOWN_LOCAL = Some s'"
      unfolding unf by (simp split: bind_splits)
    from closedown_frame [OF this assms(2)] v0 show ?thesis by (intro same) simp
  next
    case go
    with assms(1,6) obtain ok1 fa s1 where
      1: "process_ack env seg now (update_timestamp seg s0) = Some (ok1, fa, s1)"
      unfolding unf by (cases "process_ack env seg now (update_timestamp seg s0)") auto
    have v1: "rcv_view s1 = rcv_view s" using process_ack_frame [OF 1 assms(2)] ut by simp
    from assms(1,6) go 1 have "(if \<not> ok1 then Some (False, s1) else do {
        s \<leftarrow> (if state s1 = TCP_SYN_RECEIVED then set_state_established env s1 else Some s1);
        (ok, s) \<leftarrow> process_close env seg fa s;
        if \<not> ok then Some (False, s) else process_data env seg s }) = Some (ok, s')"
      unfolding unf by (simp split del: if_split cong: if_cong)
    from process_tail_holds [OF this assms(2) v1 assms(3-6)] show ?thesis .
  qed
qed

section \<open>Reading\<close>

lemma fifo_read_holds:
  assumes "rcv_holds D start n s" and "pseudo_tcp_fifo_read (rbuf s) len = Some (d, b)"
  shows "rcv_holds D start n (s\<lparr>rbuf := b\<rparr>)"
    and "data_length (rbuf s) = length d + data_length b"
    and "d = take (length d) (drop (n - data_length (rbuf s)) D)"
proof -
  let ?dl = "data_length (rbuf s)" and ?m = "min len (data_length (rbuf s))"
  have ok: "wf_fifo (rbuf s)" "buffer_length (rbuf s) \<le> 2 ^ 26"
    "rlist_ok (rcv_nxt s) (remaining (rbuf s)) (rlist s)" and nx: "?dl \<le> n" "n \<le> length D"
    using assms(1) by (auto simp: rcv_holds_def rcv_ok_def)
  from fifo_read [OF ok(1), of len] assms(2) have
    b: "d = take len (contents (rbuf s))" "wf_fifo b" "buffer_length b = buffer_length (rbuf s)"
      "data_length b = ?dl - ?m" "ring_of b = rotate ?m (ring_of (rbuf s))" by auto
  have lenR: "length (ring_of (rbuf s)) = buffer_length (rbuf s)" "?dl \<le> buffer_length (rbuf s)"
    "0 < buffer_length (rbuf s)"
    using ok(1) by (auto simp: wf_fifo_def)
  have ld: "length d = ?m" using b(1) lenR by (simp add: contents_def min.commute)
  then show "?dl = length d + data_length b" using b(4) by simp
  show "d = take (length d) (drop (n - ?dl) D)"
    unfolding ld using b(1) assms(1) nx by (simp add: rcv_holds_def drop_take min_def)
  have nth: "ring_of b ! q = ring_of (rbuf s) ! (?m + q)" if "?m + q < buffer_length (rbuf s)" for q
    unfolding b(5) using that lenR by (simp add: nth_rotate add.commute)
  have "rlist_ok (rcv_nxt s) (remaining b) (rlist s)"
    using b(3,4) lenR by (intro rlist_ok_mono [OF ok(3)]) simp
  then have "rcv_ok (s\<lparr>rbuf := b\<rparr>)" using b ok(2) by (simp add: rcv_ok_def)
  moreover have "ring_of b ! q = D ! (n - data_length b + q)" if "q < data_length b" for q
    using that assms(1) b(4) nx lenR by (subst nth) (auto simp: rcv_holds_iff algebra_simps)
  moreover have "agrees D n (ring_of b) (data_length b) i" if "r \<in> set (rlist s)"
    "dist (rcv_nxt s) r \<le> i" "i < dist (rcv_nxt s) r + unat (rseg_len r)" for r i
  proof -
    have "?dl + i < buffer_length (rbuf s)" using ok(3) that lenR by (fastforce simp: rlist_ok_def)
    moreover have "agrees D n (ring_of (rbuf s)) ?dl i" using that assms(1) by (auto simp: rcv_holds_iff)
    ultimately show ?thesis using nth [of "data_length b + i"] b(4) by (simp add: agrees_def)
  qed
  moreover have "data_length b \<le> n" using b(4) nx by simp
  ultimately show "rcv_holds D start n (s\<lparr>rbuf := b\<rparr>)"
    using assms(1) by (simp add: rcv_holds_iff)
qed

lemma recv_holds:
  assumes r: "pseudo_tcp_socket_recv env s len = Some (res, d, s')" and fin: "support_fin_ack s"
    and h: "rcv_holds D start n s"
  shows "support_fin_ack s' \<and> rcv_holds D start n s' \<and> read_pos n s' = read_pos n s + length d \<and>
    d = take (length d) (drop (read_pos n s) D)"
proof (cases "shutdown_reads s \<or> pseudo_tcp_state_has_received_fin (state s) \<or> len = 0")
  case True
  with r fin have "d = []" "s' = s" by (auto simp: pseudo_tcp_socket_recv_def split: if_splits)
  with fin h show ?thesis by simp
next
  case False
  have "\<exists>d1 b. pseudo_tcp_fifo_read (rbuf s) len = Some (d1, b)"
    using fifo_read [of "rbuf s" len] h by (auto simp: rcv_holds_def rcv_ok_def)
  then obtain d1 b where rd: "pseudo_tcp_fifo_read (rbuf s) len = Some (d1, b)" by blast
  note R = fifo_read_holds [OF h rd]
  have v: "d = d1 \<and> rcv_view s' = rcv_view (s\<lparr>rbuf := b\<rparr>)"
    using r False fin rd unfolding pseudo_tcp_socket_recv_def Let_def
    by (auto split: if_splits bind_splits dest!: attempt_send_frame)
  then have "rcv_holds D start n s'" using rcv_holds_view R(1) by blast
  moreover have "rbuf s' = b" "support_fin_ack s'" using v fin by (auto simp: rcv_view_def)
  moreover have "data_length (rbuf s) \<le> n" using h by (simp add: rcv_holds_def)
  ultimately show ?thesis using R(2,3) v by simp
qed

section \<open>Delivery\<close>

datatype tcp_event = Arrives segment | Reads nat

text \<open>Segments arrive and the user reads, in any order; the result is all that was read.\<close>

fun tcp_run :: "'u tcp_env \<Rightarrow> 'u pseudo_tcp \<Rightarrow> tcp_event list \<Rightarrow> (bytes \<times> 'u pseudo_tcp) option" where
  "tcp_run env s [] = Some ([], s)"
| "tcp_run env s (Arrives seg # es) = do { (_, s) \<leftarrow> process env s seg; tcp_run env s es }"
| "tcp_run env s (Reads len # es) = do {
     (_, d, s) \<leftarrow> pseudo_tcp_socket_recv env s len;
     (ds, s) \<leftarrow> tcp_run env s es;
     Some (d @ ds, s) }"

text \<open>Data segments without data, or with bytes of the stream.\<close>

definition from_stream :: "bytes \<Rightarrow> u32 \<Rightarrow> segment \<Rightarrow> bool" where
  "from_stream D start seg \<longleftrightarrow> data_segment seg \<and> (seg_data seg = [] \<or> (\<exists>p. carries D start p p seg))"

lemma carries_any:
  assumes "carries D start p p seg" and "length D < 2 ^ 31" and "n \<le> length D"
  shows "carries D start n p seg"
  using assms by (auto simp: carries_def)

lemma tcp_run_stream:
  assumes "tcp_run env s es = Some (out, s')" and "passive_env env" and "support_fin_ack s"
    and "rcv_holds D start n s" and "length D < 2 ^ 31"
    and "\<forall>seg. Arrives seg \<in> set es \<longrightarrow> from_stream D start seg"
  shows "out = take (length out) (drop (read_pos n s) D) \<and>
    (\<exists>n'. rcv_holds D start n' s' \<and> read_pos n' s' = read_pos n s + length out)"
  using assms(1,3,4,6)
proof (induction es arbitrary: s n out)
  case (Cons e es)
  have later: "\<forall>seg. Arrives seg \<in> set es \<longrightarrow> from_stream D start seg" using Cons.prems(4) by simp
  show ?case
  proof (cases e)
    case (Arrives seg)
    with Cons.prems(1) obtain ok s1 where 1: "process env s seg = Some (ok, s1)"
      and 2: "tcp_run env s1 es = Some (out, s')" by (auto split: bind_splits)
    have n: "n \<le> length D" using Cons.prems(3) by (simp add: rcv_holds_def)
    have "from_stream D start seg" using Cons.prems(4) Arrives by simp
    then have d: "data_segment seg" and "\<exists>p. seg_data seg = [] \<or> carries D start n p seg"
      using carries_any [OF _ assms(5) n] by (auto simp: from_stream_def)
    then obtain p where p: "seg_data seg = [] \<or> carries D start n p seg" by blast
    from process_holds [OF 1 assms(2) Cons.prems(2,3) p d] obtain n1 where
      "support_fin_ack s1" "rcv_holds D start n1 s1" "read_pos n1 s1 = read_pos n s" by blast
    with Cons.IH [OF 2 _ _ later] show ?thesis by metis
  next
    case (Reads len)
    with Cons.prems(1) obtain r d s1 ds where 1: "pseudo_tcp_socket_recv env s len = Some (r, d, s1)"
      and 2: "tcp_run env s1 es = Some (ds, s')" and out: "out = d @ ds" by (auto split: bind_splits)
    from recv_holds [OF 1 Cons.prems(2,3)] have
      R: "support_fin_ack s1" "rcv_holds D start n s1" "read_pos n s1 = read_pos n s + length d"
        "d = take (length d) (drop (read_pos n s) D)" by blast+
    from Cons.IH [OF 2 R(1,2) later] R(3) obtain n' where
      S: "ds = take (length ds) (drop (read_pos n s + length d) D)"
      "rcv_holds D start n' s'" "read_pos n' s' = read_pos n s + length d + length ds" by metis
    have "take (length out) (drop (read_pos n s) D) = out"
      unfolding out length_append take_add drop_drop R(4) [symmetric]
      using S(1) by (simp only: add.commute)
    moreover have "read_pos n' s' = read_pos n s + length out" using S(3) out by simp
    ultimately show ?thesis using S(2) by metis
  qed
qed auto

section \<open>From one socket to the other\<close>

lemma be16_bytes_nth: "be16_bytes v ! 0 = ucast (drop_bit 8 v)" "be16_bytes v ! Suc 0 = ucast (v AND 255)"
  by (simp_all add: be16_bytes_def)

lemma length_packet_header [simp]: "length (packet_header cv seq ack flags wnd tsval tsecr) = 24"
  by (simp add: packet_header_def)

lemma parse_packet_header:
  "parse_segment (packet_header cv seq ack flags wnd tsval tsecr) d =
     Some \<lparr>seg_conv = cv, seg_seq = seq, seg_ack = ack, seg_flags = flags, seg_wnd = wnd,
       seg_tsval = tsval, seg_tsecr = tsecr, seg_data = d\<rparr>"
  by (simp add: parse_segment_def packet_header_def be32_at_def rdn_def rd_def nth_append
      be16_bytes_nth bytes_simps)

text \<open>
  A packet of a sender whose buffer holds a part of the stream: the bytes from position \<open>u\<close>,
  acknowledged so far, to position \<open>m\<close>.
\<close>

definition sent_packet :: "bytes \<Rightarrow> u32 \<Rightarrow> bytes \<Rightarrow> bool" where
  "sent_packet D start pkt \<longleftrightarrow> (\<exists>b u m. wf_fifo b \<and> u \<le> m \<and> m \<le> length D \<and> contents b = drop u (take m D) \<and>
     genuine b (start + of_nat u) pkt)"

lemma sent_packet_parsed:
  assumes "sent_packet D start pkt"
  shows "\<exists>seg. parse_segment (take 24 pkt) (drop 24 pkt) = Some seg \<and>
    (data_segment seg \<longrightarrow> from_stream D start seg)"
proof -
  from assms obtain b u m cv seq ack flags wnd tsval tsecr d where
    b: "wf_fifo b" "u \<le> m" "m \<le> length D" "contents b = drop u (take m D)" and
    pkt: "pkt = packet_header cv seq ack flags wnd tsval tsecr @ d" "length d \<le> 65419" and
    d: "d \<noteq> [] \<Longrightarrow> unat (seq - (start + of_nat u)) + length d \<le> data_length b"
      "d \<noteq> [] \<Longrightarrow> d = take (length d) (drop (unat (seq - (start + of_nat u))) (contents b))"
    unfolding sent_packet_def genuine_def by blast
  let ?o = "unat (seq - (start + of_nat u))"
  have dl: "data_length b = m - u"
    using arg_cong [OF b(4), of length] b(1-3) by (simp add: contents_def wf_fifo_def)
  have "carries D start (u + ?o) (u + ?o) \<lparr>seg_conv = cv, seg_seq = seq, seg_ack = ack, seg_flags = flags,
      seg_wnd = wnd, seg_tsval = tsval, seg_tsecr = tsecr, seg_data = d\<rparr>" if "d \<noteq> []"
  proof -
    have "seq = start + of_nat (u + ?o)" by simp
    moreover have le: "u + ?o + length d \<le> m" using d(1) [OF that] dl b(2) by linarith
    moreover have "d = take (length d) (drop (u + ?o) D)"
    proof -
      have "d = take (length d) (drop ?o (drop u (take m D)))" using d(2) [OF that] b(4) by simp
      also have "\<dots> = take (length d) (drop (u + ?o) D)"
        using le by (simp add: drop_take add.commute min_absorb1)
      finally show ?thesis .
    qed
    ultimately show ?thesis using b(3) pkt(2) by (simp add: carries_def)
  qed
  then show ?thesis
    unfolding pkt(1) by (auto simp: parse_packet_header from_stream_def)
qed

end
