(* ===== verification/Tcp_Samples.thy ===== *)
theory Tcp_Samples
  imports Tcp_Delivery Tcp_Api
begin

unbundle bit_operations_syntax

text \<open>
  Concrete pseudo-TCP sockets with small buffers, a network that takes every packet and counts
  them, and what the operations compute on them; the root theory applies its theorems to them.
\<close>

definition tcp_sample_env :: "nat tcp_env" where
  "tcp_sample_env = \<lparr>env_clock = (\<lambda>_. 1000), env_alloc = (\<lambda>n. replicate n 0),
     WritePacket = (\<lambda>u _. (WR_SUCCESS, u + 1)), PseudoTcpOpened = Some, PseudoTcpReadable = Some,
     PseudoTcpWritable = Some, PseudoTcpClosed = (\<lambda>_. Some)\<rparr>"

definition tcp_sample :: "nat pseudo_tcp" where
  "tcp_sample =
     \<lparr>user_data = 0, shutdown = SD_NONE, shutdown_reads = False, errno = 0, state = TCP_ESTABLISHED,
      conv = 7, bReadEnable = True, bWriteEnable = False, bOutgoing = False,
      last_traffic = 0, rlist = [], rbuf_len = 8, rcv_nxt = 0xFFFFFFFE, rcv_wnd = 8, lastrecv = 0, rwnd_scale = 0,
      rbuf = pseudo_tcp_fifo_init (replicate 8 0) 8,
      slist = [], unsent_slist = [], sbuf_len = 8, snd_nxt = 5, snd_wnd = 100,
      lastsend = 0, snd_una = 5, swnd_scale = 0, sbuf = pseudo_tcp_fifo_init (replicate 8 0) 8,
      mss = 180, msslevel = 9, largest = 0, mtu_advise = 1400,
      rto_base = 0, ts_recent = 0, ts_lastack = 0, rx_rttvar = 0, rx_srtt = 0, rx_rto = 1000,
      ssthresh = 61440, cwnd = 360, dup_acks = 0, recover = 0, t_ack = 0, use_nagling = True, ack_delay = 100,
      support_wnd_scale = True, current_time = 0, support_fin_ack = True, next_seg = 0\<rparr>"

definition tcp_sample_segment :: "u32 \<Rightarrow> bytes \<Rightarrow> segment" where
  "tcp_sample_segment seq d = \<lparr>seg_conv = 7, seg_seq = seq, seg_ack = 5, seg_flags = 0, seg_wnd = 100,
     seg_tsval = 0, seg_tsecr = 0, seg_data = d\<rparr>"

text \<open>Six bytes whose sequence numbers wrap around, in three overlapping segments out of order.\<close>

definition tcp_sample_stream :: bytes where
  "tcp_sample_stream = [10, 11, 12, 13, 14, 15]"

definition tcp_sample_events :: "tcp_event list" where
  "tcp_sample_events = [Arrives (tcp_sample_segment 1 [13, 14, 15]), Arrives (tcp_sample_segment 0xFFFFFFFE [10, 11]),
     Reads 1, Arrives (tcp_sample_segment 0xFFFFFFFF [11, 12, 13]), Reads 8]"

lemma tcp_sample_run:
  "map_option fst (tcp_run tcp_sample_env tcp_sample tcp_sample_events) = Some tcp_sample_stream"
  by code_simp

lemma tcp_sample_passive: "passive_env tcp_sample_env"
  by (simp add: passive_env_def tcp_sample_env_def)

lemma tcp_sample_rcv_ok: "rcv_ok tcp_sample"
  by (simp add: rcv_ok_def tcp_sample_def pseudo_tcp_fifo_init_def wf_fifo_def)

lemma tcp_sample_holds: "rcv_holds tcp_sample_stream 0xFFFFFFFE 0 tcp_sample"
  using tcp_sample_rcv_ok
  by (simp add: rcv_holds_def tcp_sample_def pseudo_tcp_fifo_init_def contents_def)

lemma tcp_sample_carries:
  "carries tcp_sample_stream 0xFFFFFFFE 0 0 (tcp_sample_segment 0xFFFFFFFE [10, 11])"
  "carries tcp_sample_stream 0xFFFFFFFE 1 1 (tcp_sample_segment 0xFFFFFFFF [11, 12, 13])"
  "carries tcp_sample_stream 0xFFFFFFFE 3 3 (tcp_sample_segment 1 [13, 14, 15])"
proof -
  have "(0xFFFFFFFE + 3 :: u32) = 1" by code_simp
  then show "carries tcp_sample_stream 0xFFFFFFFE 3 3 (tcp_sample_segment 1 [13, 14, 15])"
    by (simp add: carries_def tcp_sample_stream_def tcp_sample_segment_def)
qed (simp_all add: carries_def tcp_sample_stream_def tcp_sample_segment_def)

lemma tcp_sample_from_stream:
  "\<forall>seg. Arrives seg \<in> set tcp_sample_events \<longrightarrow> from_stream tcp_sample_stream (rcv_nxt tcp_sample) seg"
proof -
  have "data_segment (tcp_sample_segment q d)" "rcv_nxt tcp_sample = 0xFFFFFFFE" for q d
    by (simp_all add: tcp_sample_segment_def tcp_sample_def)
  with tcp_sample_carries show ?thesis by (auto simp: from_stream_def tcp_sample_events_def)
qed

section \<open>A sender\<close>

text \<open>Three bytes are queued in one segment; the network keeps what it is given.\<close>

definition tcp_log_env :: "bytes list tcp_env" where
  "tcp_log_env = \<lparr>env_clock = (\<lambda>_. 1000), env_alloc = (\<lambda>n. replicate n 0),
     WritePacket = (\<lambda>u pkt. (WR_SUCCESS, u @ [pkt])), PseudoTcpOpened = Some, PseudoTcpReadable = Some,
     PseudoTcpWritable = Some, PseudoTcpClosed = (\<lambda>_. Some)\<rparr>"

definition tcp_sender_fifo :: fifo where
  "tcp_sender_fifo = \<lparr>fbuf = [9, 0, 0, 0, 0, 0, 7, 8], buffer_length = 8, data_length = 3, read_position = 6\<rparr>"

definition tcp_sender :: "bytes list pseudo_tcp" where
  "tcp_sender =
     \<lparr>user_data = [], shutdown = SD_NONE, shutdown_reads = False, errno = 0, state = TCP_ESTABLISHED,
      conv = 7, bReadEnable = True, bWriteEnable = False, bOutgoing = False,
      last_traffic = 0, rlist = [], rbuf_len = 8, rcv_nxt = 0, rcv_wnd = 8, lastrecv = 0, rwnd_scale = 0,
      rbuf = pseudo_tcp_fifo_init (replicate 8 0) 8,
      slist = [\<lparr>sseg_id = 0, sseg_seq = 5, sseg_len = 3, sseg_xmit = 0, sseg_flags = 0\<rparr>],
      unsent_slist = [0], sbuf_len = 8, snd_nxt = 5, snd_wnd = 100,
      lastsend = 0, snd_una = 5, swnd_scale = 0, sbuf = tcp_sender_fifo,
      mss = 180, msslevel = 9, largest = 0, mtu_advise = 1400,
      rto_base = 0, ts_recent = 0, ts_lastack = 0, rx_rttvar = 0, rx_srtt = 0, rx_rto = 1000,
      ssthresh = 61440, cwnd = 360, dup_acks = 0, recover = 0, t_ack = 0, use_nagling = True, ack_delay = 100,
      support_wnd_scale = True, current_time = 0, support_fin_ack = True, next_seg = 1\<rparr>"

text \<open>The same socket after the segment was sent.\<close>

definition tcp_in_flight :: "bytes list pseudo_tcp" where
  "tcp_in_flight = tcp_sender\<lparr>snd_nxt := 8, unsent_slist := [],
     slist := [\<lparr>sseg_id = 0, sseg_seq = 5, sseg_len = 3, sseg_xmit = 1, sseg_flags = 0\<rparr>]\<rparr>"

lemma tcp_sender_buffer: "wf_fifo tcp_sender_fifo" "contents tcp_sender_fifo = [7, 8, 9]"
  "data_length tcp_sender_fifo = 3" "buffer_length tcp_sender_fifo = 8"
  by (code_simp, code_simp, simp_all add: tcp_sender_fifo_def)

lemma tcp_sender_ok: "snd_ok tcp_sender"
proof -
  have "snd_lists [] (slist tcp_sender) tcp_sender"
    by (simp add: snd_lists_def tcp_sender_def tcp_sender_buffer)
  moreover have "snd_limits tcp_sender"
    by (simp add: snd_limits_def tcp_sender_def tcp_sender_buffer)
  ultimately show ?thesis by (auto simp: snd_ok_def)
qed

lemma tcp_in_flight_open: "snd_open tcp_in_flight"
proof -
  have "snd_lists (slist tcp_in_flight) [] tcp_in_flight"
    by (simp add: snd_lists_def tcp_in_flight_def tcp_sender_def tcp_sender_buffer)
  moreover have "snd_limits tcp_in_flight" "snd_nxt tcp_in_flight = snd_una tcp_in_flight + of_nat (queued (slist tcp_in_flight))"
    "\<not> pseudo_tcp_state_has_sent_fin (state tcp_in_flight)"
    by (simp_all add: snd_limits_def tcp_in_flight_def tcp_sender_def tcp_sender_buffer)
  ultimately show ?thesis unfolding snd_open_def by blast
qed

end
