(* ===== verification/Usage_Ice.thy ===== *)
theory Usage_Ice
  imports Stun_Auth
begin

unbundle bit_operations_syntax

text \<open>
  The ICE connectivity checks of \<open>stun/usages/ice.c\<close>: building a check, building the reply to a
  check (with the resolution of a role conflict), and reading a reply.

  A builder of the usages is a chain of attribute writers that ends at the first one that fails;
  \<open>run_steps\<close> is that chain. Results stored through pointers are returned beside the code.
\<close>

section \<open>Definitions\<close>

type_synonym step = "stun_message \<Rightarrow> (stun_return \<times> stun_message) option"

text \<open>\<open>if (val != STUN_MESSAGE_RETURN_SUCCESS) return 0;\<close> after every writer.\<close>

fun run_steps :: "step list \<Rightarrow> stun_message \<Rightarrow> (bool \<times> stun_message) option" where
  "run_steps [] msg = Some (True, msg)"
| "run_steps (f # fs) msg = do {
     (val, msg1) \<leftarrow> f msg;
     if val \<noteq> STUN_MESSAGE_RETURN_SUCCESS then Some (False, msg1) else run_steps fs msg1 }"

datatype ice_compat =
    STUN_USAGE_ICE_COMPATIBILITY_RFC5245
  | STUN_USAGE_ICE_COMPATIBILITY_GOOGLE
  | STUN_USAGE_ICE_COMPATIBILITY_MSN
  | STUN_USAGE_ICE_COMPATIBILITY_WLM2009

datatype ice_return =
    STUN_USAGE_ICE_RETURN_SUCCESS
  | STUN_USAGE_ICE_RETURN_ERROR
  | STUN_USAGE_ICE_RETURN_INVALID
  | STUN_USAGE_ICE_RETURN_ROLE_CONFLICT
  | STUN_USAGE_ICE_RETURN_INVALID_REQUEST
  | STUN_USAGE_ICE_RETURN_INVALID_METHOD
  | STUN_USAGE_ICE_RETURN_MEMORY_ERROR
  | STUN_USAGE_ICE_RETURN_INVALID_ADDRESS
  | STUN_USAGE_ICE_RETURN_NO_MAPPED_ADDRESS

abbreviation (input) STUN_ERROR_BAD_REQUEST :: stun_error where "STUN_ERROR_BAD_REQUEST \<equiv> 400"
abbreviation (input) STUN_ERROR_ROLE_CONFLICT :: stun_error where "STUN_ERROR_ROLE_CONFLICT \<equiv> 487"

subsection \<open>Building a check\<close>

text \<open>The identifier is padded with zeros to a multiple of four; a null identifier is an access fault.\<close>

definition pad_identifier :: "bytes \<Rightarrow> bytes" where
  "pad_identifier i = i @ replicate (if length i mod 4 \<noteq> 0 then 4 - length i mod 4 else 0) 0"

definition ice_role_attr :: "bool \<Rightarrow> stun_attribute" where
  "ice_role_attr controlling =
     (if controlling then STUN_ATTRIBUTE_ICE_CONTROLLING else STUN_ATTRIBUTE_ICE_CONTROLLED)"

definition ice_check_steps ::
    "bytes option \<Rightarrow> bool \<Rightarrow> bool \<Rightarrow> u32 \<Rightarrow> u64 \<Rightarrow> bytes option \<Rightarrow> ice_compat \<Rightarrow> step list" where
  "ice_check_steps username cand_use controlling priority tie identifier dialect =
     (if dialect = STUN_USAGE_ICE_COMPATIBILITY_RFC5245 \<or> dialect = STUN_USAGE_ICE_COMPATIBILITY_WLM2009
      then (if cand_use then [\<lambda>msg. stun_message_append_flag msg STUN_ATTRIBUTE_USE_CANDIDATE] else []) @
        [\<lambda>msg. stun_message_append32 msg STUN_ATTRIBUTE_PRIORITY priority,
         \<lambda>msg. stun_message_append64 msg (ice_role_attr controlling) tie]
      else []) @
     (case username of None \<Rightarrow> []
      | Some u \<Rightarrow> if 0 < length u then [\<lambda>msg. stun_message_append_bytes msg STUN_ATTRIBUTE_USERNAME u] else []) @
     (if dialect = STUN_USAGE_ICE_COMPATIBILITY_WLM2009
      then [\<lambda>msg. do { i \<leftarrow> identifier;
        stun_message_append_bytes msg STUN_ATTRIBUTE_CANDIDATE_IDENTIFIER (pad_identifier i) }]
      else [])"

definition stun_usage_ice_conncheck_create ::
    "stun_env \<Rightarrow> bytes \<Rightarrow> stun_agent \<Rightarrow> stun_message \<Rightarrow> bytes \<Rightarrow> nat \<Rightarrow> bytes option \<Rightarrow> bytes option \<Rightarrow>
      bool \<Rightarrow> bool \<Rightarrow> u32 \<Rightarrow> u64 \<Rightarrow> bytes option \<Rightarrow> ice_compat \<Rightarrow>
      (nat \<times> stun_message \<times> stun_agent) option" where
  "stun_usage_ice_conncheck_create env rid agent msg0 buf buf_len username password
      cand_use controlling priority tie identifier dialect = do {
     (_, msg) \<leftarrow> stun_agent_init_request env rid agent msg0 buf buf_len STUN_BINDING;
     (ok, msg1) \<leftarrow> run_steps
       (ice_check_steps username cand_use controlling priority tie identifier dialect) msg;
     if \<not> ok then Some (0, msg1, agent)
     else stun_agent_finish_message env agent msg1 password }"

subsection \<open>Reading a reply\<close>

text \<open>\<open>htonl (magic_cookie)\<close> of the first four bytes of the transaction id.\<close>

definition msn_cookie :: "stun_message \<Rightarrow> u32 option" where
  "msn_cookie msg = do { i \<leftarrow> stun_message_id msg; Some (htonl (of_host_bytes32 (take 4 i))) }"

definition stun_usage_ice_conncheck_process ::
    "stun_message \<Rightarrow> nat \<Rightarrow> ice_compat \<Rightarrow> (ice_return \<times> sockaddr option \<times> nat) option" where
  "stun_usage_ice_conncheck_process msg addrlen dialect = do {
     m \<leftarrow> stun_message_get_method msg;
     if m \<noteq> STUN_BINDING then Some (STUN_USAGE_ICE_RETURN_INVALID, None, addrlen)
     else do {
       c \<leftarrow> stun_message_get_class msg;
       if c = STUN_REQUEST \<or> c = STUN_INDICATION
       then Some (STUN_USAGE_ICE_RETURN_INVALID, None, addrlen)
       else if c = STUN_ERROR then do {
         (val, code) \<leftarrow> stun_message_find_error msg;
         Some (if val \<noteq> STUN_MESSAGE_RETURN_SUCCESS then STUN_USAGE_ICE_RETURN_INVALID
           else if code = Some STUN_ERROR_ROLE_CONFLICT then STUN_USAGE_ICE_RETURN_ROLE_CONFLICT
           else STUN_USAGE_ICE_RETURN_ERROR, None, addrlen) }
       else do {
         (val, addr, alen) \<leftarrow>
           (if dialect = STUN_USAGE_ICE_COMPATIBILITY_MSN then do {
              cookie \<leftarrow> msn_cookie msg;
              stun_message_find_xor_addr_full msg STUN_ATTRIBUTE_XOR_MAPPED_ADDRESS addrlen cookie }
            else stun_message_find_xor_addr msg STUN_ATTRIBUTE_XOR_MAPPED_ADDRESS addrlen);
         if val = STUN_MESSAGE_RETURN_SUCCESS then Some (STUN_USAGE_ICE_RETURN_SUCCESS, addr, alen)
         else do {
           (val, addr', alen') \<leftarrow> stun_message_find_addr msg STUN_ATTRIBUTE_MAPPED_ADDRESS alen;
           let stored = (case addr' of None \<Rightarrow> addr | Some a \<Rightarrow> Some a);
           Some (if val \<noteq> STUN_MESSAGE_RETURN_SUCCESS then STUN_USAGE_ICE_RETURN_NO_MAPPED_ADDRESS
             else STUN_USAGE_ICE_RETURN_SUCCESS, stored, alen') } } } }"

subsection \<open>Answering a check\<close>

text \<open>The code of \<open>stun_bind_error\<close>, the new \<open>*plen\<close>, and the error message.\<close>

definition stun_bind_error ::
    "stun_env \<Rightarrow> stun_agent \<Rightarrow> stun_message \<Rightarrow> bytes \<Rightarrow> nat \<Rightarrow> stun_message \<Rightarrow> stun_error \<Rightarrow>
      (bool \<times> nat \<times> stun_message \<times> stun_agent) option" where
  "stun_bind_error env agent msg0 buf len req code = do {
     (val, msg) \<leftarrow> stun_agent_init_error env agent msg0 buf len req code;
     if \<not> val then Some (False, 0, msg, agent)
     else do {
       (n, msg1, agent1) \<leftarrow> stun_agent_finish_message env agent msg None;
       Some (n \<noteq> 0, n, msg1, agent1) } }"

text \<open>The mapped address of a reply, in the form the compatibility asks for.\<close>

definition append_mapped ::
    "ice_compat \<Rightarrow> sockaddr \<Rightarrow> nat \<Rightarrow> stun_message \<Rightarrow> (stun_return \<times> stun_message) option" where
  "append_mapped dialect src srclen msg =
     (if dialect = STUN_USAGE_ICE_COMPATIBILITY_MSN then do {
        cookie \<leftarrow> msn_cookie msg;
        stun_message_append_xor_addr_full msg STUN_ATTRIBUTE_XOR_MAPPED_ADDRESS src srclen cookie }
      else do {
        cookie \<leftarrow> stun_message_has_cookie msg;
        if cookie \<and> dialect \<noteq> STUN_USAGE_ICE_COMPATIBILITY_GOOGLE
        then stun_message_append_xor_addr msg STUN_ATTRIBUTE_XOR_MAPPED_ADDRESS src srclen
        else stun_message_append_addr msg STUN_ATTRIBUTE_MAPPED_ADDRESS src srclen })"

text \<open>
  The \<open>failure\<close> label. With \<open>STUN_MESSAGE_RETURN_SUCCESS\<close> the source asserts false, which ends
  the program: there is no result.
\<close>

fun reply_failure :: "stun_return \<Rightarrow> ice_return option" where
  "reply_failure STUN_MESSAGE_RETURN_NOT_ENOUGH_SPACE = Some STUN_USAGE_ICE_RETURN_MEMORY_ERROR"
| "reply_failure STUN_MESSAGE_RETURN_INVALID = Some STUN_USAGE_ICE_RETURN_INVALID_ADDRESS"
| "reply_failure STUN_MESSAGE_RETURN_UNSUPPORTED_ADDRESS = Some STUN_USAGE_ICE_RETURN_INVALID_ADDRESS"
| "reply_failure STUN_MESSAGE_RETURN_SUCCESS = None"
| "reply_failure STUN_MESSAGE_RETURN_NOT_FOUND = Some STUN_USAGE_ICE_RETURN_ERROR"

record ice_reply =
  reply_ret :: ice_return
  reply_len :: nat
  reply_msg :: stun_message
  reply_control :: bool
  reply_agent :: stun_agent

text \<open>What follows the role check: the response, its mapped address, the echoed user name.\<close>

definition ice_response ::
    "stun_env \<Rightarrow> stun_agent \<Rightarrow> stun_message \<Rightarrow> stun_message \<Rightarrow> bytes \<Rightarrow> nat \<Rightarrow> sockaddr \<Rightarrow> nat \<Rightarrow>
      ice_compat \<Rightarrow> ice_return \<Rightarrow> bool \<Rightarrow> ice_reply option" where
  "ice_response env agent req msg0 buf len src srclen dialect ret control =
    (let reply = (\<lambda>ret n msg agent. \<lparr>reply_ret = ret, reply_len = n, reply_msg = msg,
           reply_control = control, reply_agent = agent\<rparr>);
         failure = (\<lambda>val msg. do { r \<leftarrow> reply_failure val; Some (reply r 0 msg agent) }) in
     do {
       (ok, msg) \<leftarrow> stun_agent_init_response env agent msg0 buf len req;
       if \<not> ok then failure STUN_MESSAGE_RETURN_SUCCESS msg
       else do {
         (val, msg1) \<leftarrow> append_mapped dialect src srclen msg;
         if val \<noteq> STUN_MESSAGE_RETURN_SUCCESS then failure val msg1
         else do {
           username \<leftarrow> attr_value req STUN_ATTRIBUTE_USERNAME;
           (val, msg2) \<leftarrow> (case username of
               None \<Rightarrow> Some (val, msg1)
             | Some u \<Rightarrow> stun_message_append_bytes msg1 STUN_ATTRIBUTE_USERNAME u);
           if val \<noteq> STUN_MESSAGE_RETURN_SUCCESS then failure val msg2
           else do {
             (n, msg3, agent1) \<leftarrow> stun_agent_finish_message env agent msg2 None;
             if n = 0 then failure val msg3
             else Some (reply ret n msg3 agent1) } } } })"

definition stun_usage_ice_conncheck_create_reply ::
    "stun_env \<Rightarrow> stun_agent \<Rightarrow> stun_message \<Rightarrow> stun_message \<Rightarrow> bytes \<Rightarrow> nat \<Rightarrow> sockaddr \<Rightarrow> nat \<Rightarrow>
      bool \<Rightarrow> u64 \<Rightarrow> ice_compat \<Rightarrow> ice_reply option" where
  "stun_usage_ice_conncheck_create_reply env agent req msg0 buf len src srclen control tie dialect =
    (let error = (\<lambda>ret code. do {
         (_, n, msg, agent1) \<leftarrow> stun_bind_error env agent msg0 buf len req code;
         Some \<lparr>reply_ret = ret, reply_len = n, reply_msg = msg, reply_control = control,
           reply_agent = agent1\<rparr> }) in
     do {
       c \<leftarrow> stun_message_get_class req;
       if c \<noteq> STUN_REQUEST then
         Some \<lparr>reply_ret = STUN_USAGE_ICE_RETURN_INVALID_REQUEST, reply_len = 0, reply_msg = msg0,
           reply_control = control, reply_agent = agent\<rparr>
       else do {
         m \<leftarrow> stun_message_get_method req;
         if m \<noteq> STUN_BINDING then error STUN_USAGE_ICE_RETURN_INVALID_METHOD STUN_ERROR_BAD_REQUEST
         else do {
           (val, q) \<leftarrow> stun_message_find64 req (ice_role_attr control);
           case q of
             Some q \<Rightarrow>
               if val \<noteq> STUN_MESSAGE_RETURN_SUCCESS
               then ice_response env agent req msg0 buf len src srclen dialect
                 STUN_USAGE_ICE_RETURN_SUCCESS control
               else if tie < q
               then ice_response env agent req msg0 buf len src srclen dialect
                 STUN_USAGE_ICE_RETURN_ROLE_CONFLICT (\<not> control)
               else error STUN_USAGE_ICE_RETURN_SUCCESS STUN_ERROR_ROLE_CONFLICT
           | None \<Rightarrow> ice_response env agent req msg0 buf len src srclen dialect
               STUN_USAGE_ICE_RETURN_SUCCESS control } } })"

definition stun_usage_ice_conncheck_priority :: "stun_message \<Rightarrow> u32 option" where
  "stun_usage_ice_conncheck_priority msg = do {
     (val, v) \<leftarrow> stun_message_find32 msg STUN_ATTRIBUTE_PRIORITY;
     Some (case v of None \<Rightarrow> 0
       | Some v \<Rightarrow> if val \<noteq> STUN_MESSAGE_RETURN_SUCCESS then 0 else v) }"

definition stun_usage_ice_conncheck_use_candidate :: "stun_message \<Rightarrow> bool option" where
  "stun_usage_ice_conncheck_use_candidate msg = do {
     val \<leftarrow> stun_message_find_flag msg STUN_ATTRIBUTE_USE_CANDIDATE;
     Some (val = STUN_MESSAGE_RETURN_SUCCESS) }"

end
