(* ===== verification/Usage_Turn.thy ===== *)
theory Usage_Turn
  imports Usage_Ice
begin

unbundle bit_operations_syntax

text \<open>
  The TURN client messages of \<open>stun/usages/turn.c\<close>: allocate, refresh and permission requests and
  the reading of their responses, for the five dialects the library speaks.

  The \<open>int32_t\<close> arguments are 32-bit words read as signed numbers. A pointer that may be null is
  an option; the results stored through pointers are fields of \<open>turn_result\<close>, with the old
  address lengths where the code leaves them alone.
\<close>

section \<open>Definitions\<close>

datatype turn_ports =
    STUN_USAGE_TURN_REQUEST_PORT_NORMAL
  | STUN_USAGE_TURN_REQUEST_PORT_EVEN
  | STUN_USAGE_TURN_REQUEST_PORT_EVEN_AND_RESERVE

datatype turn_compat =
    STUN_USAGE_TURN_COMPATIBILITY_DRAFT9
  | STUN_USAGE_TURN_COMPATIBILITY_GOOGLE
  | STUN_USAGE_TURN_COMPATIBILITY_MSN
  | STUN_USAGE_TURN_COMPATIBILITY_OC2007
  | STUN_USAGE_TURN_COMPATIBILITY_RFC5766

datatype turn_return =
    STUN_USAGE_TURN_RETURN_RELAY_SUCCESS
  | STUN_USAGE_TURN_RETURN_MAPPED_SUCCESS
  | STUN_USAGE_TURN_RETURN_ERROR
  | STUN_USAGE_TURN_RETURN_INVALID
  | STUN_USAGE_TURN_RETURN_ALTERNATE_SERVER

abbreviation (input) REQUESTED_PROPS_E :: u32 where "REQUESTED_PROPS_E \<equiv> 0x80000000"
abbreviation (input) REQUESTED_PROPS_R :: u32 where "REQUESTED_PROPS_R \<equiv> 0x40000000"
abbreviation (input) TURN_REQUESTED_TRANSPORT_UDP :: u32 where "TURN_REQUESTED_TRANSPORT_UDP \<equiv> 0x11000000"
abbreviation (input) STUN_ATTRIBUTE_MSN_MAPPED_ADDRESS :: u16 where
  "STUN_ATTRIBUTE_MSN_MAPPED_ADDRESS \<equiv> 0x8000"

definition turn_standard :: "turn_compat \<Rightarrow> bool" where
  "turn_standard dialect \<longleftrightarrow> dialect = STUN_USAGE_TURN_COMPATIBILITY_DRAFT9 \<or>
     dialect = STUN_USAGE_TURN_COMPATIBILITY_RFC5766"

subsection \<open>Building requests\<close>

text \<open>An attribute of the previous response, copied into the request when it is there.\<close>

definition copy_attr :: "stun_message \<Rightarrow> stun_attribute \<Rightarrow> step" where
  "copy_attr previous t msg = do {
     v \<leftarrow> attr_value previous t;
     case v of None \<Rightarrow> Some (STUN_MESSAGE_RETURN_SUCCESS, msg)
     | Some v \<Rightarrow> stun_message_append_bytes msg t v }"

definition copy_reservation :: "stun_message \<Rightarrow> step" where
  "copy_reservation previous msg = do {
     (val, reservation) \<leftarrow> stun_message_find64 previous STUN_ATTRIBUTE_RESERVATION_TOKEN;
     case reservation of
       Some r \<Rightarrow>
         if val = STUN_MESSAGE_RETURN_SUCCESS
         then stun_message_append64 msg STUN_ATTRIBUTE_RESERVATION_TOKEN r
         else Some (STUN_MESSAGE_RETURN_SUCCESS, msg)
     | None \<Rightarrow> Some (STUN_MESSAGE_RETURN_SUCCESS, msg) }"

definition requested_props :: "turn_ports \<Rightarrow> u32" where
  "requested_props props =
     (case props of
        STUN_USAGE_TURN_REQUEST_PORT_EVEN_AND_RESERVE \<Rightarrow> REQUESTED_PROPS_R OR REQUESTED_PROPS_E
      | STUN_USAGE_TURN_REQUEST_PORT_EVEN \<Rightarrow> REQUESTED_PROPS_E
      | STUN_USAGE_TURN_REQUEST_PORT_NORMAL \<Rightarrow> 0)"

definition username_steps :: "bytes option \<Rightarrow> step list" where
  "username_steps username =
     (case username of None \<Rightarrow> []
      | Some u \<Rightarrow> if 0 < length u
          then [\<lambda>msg. stun_message_append_bytes msg STUN_ATTRIBUTE_USERNAME u] else [])"

definition lifetime_steps :: "u32 \<Rightarrow> step list" where
  "lifetime_steps lifetime =
     (if 0 \<le> sint lifetime
      then [\<lambda>msg. stun_message_append32 msg STUN_ATTRIBUTE_LIFETIME lifetime] else [])"

definition turn_create_steps ::
    "stun_message option \<Rightarrow> turn_ports \<Rightarrow> u32 \<Rightarrow> u32 \<Rightarrow> bytes option \<Rightarrow> turn_compat \<Rightarrow> step list" where
  "turn_create_steps previous props bandwidth lifetime username dialect =
     (if turn_standard dialect
      then [\<lambda>msg. stun_message_append32 msg STUN_ATTRIBUTE_REQUESTED_TRANSPORT
              TURN_REQUESTED_TRANSPORT_UDP] @
           (if 0 \<le> sint bandwidth
            then [\<lambda>msg. stun_message_append32 msg STUN_ATTRIBUTE_BANDWIDTH bandwidth] else [])
      else [\<lambda>msg. stun_message_append32 msg STUN_ATTRIBUTE_MAGIC_COOKIE TURN_MAGIC_COOKIE]) @
     (if dialect = STUN_USAGE_TURN_COMPATIBILITY_OC2007
      then [\<lambda>msg. do { (_, msg1) \<leftarrow> stun_message_append32 msg STUN_ATTRIBUTE_MS_VERSION 1;
                       Some (STUN_MESSAGE_RETURN_SUCCESS, msg1) }]
      else []) @
     lifetime_steps lifetime @
     (if turn_standard dialect \<and> props \<noteq> STUN_USAGE_TURN_REQUEST_PORT_NORMAL
      then [\<lambda>msg. stun_message_append32 msg STUN_ATTRIBUTE_REQUESTED_PROPS (requested_props props)]
      else []) @
     (case previous of None \<Rightarrow> []
      | Some p \<Rightarrow> [copy_attr p STUN_ATTRIBUTE_REALM, copy_attr p STUN_ATTRIBUTE_NONCE,
                   copy_reservation p]) @
     username_steps username"

definition stun_usage_turn_create ::
    "stun_env \<Rightarrow> bytes \<Rightarrow> stun_agent \<Rightarrow> stun_message \<Rightarrow> bytes \<Rightarrow> nat \<Rightarrow> stun_message option \<Rightarrow>
      turn_ports \<Rightarrow> u32 \<Rightarrow> u32 \<Rightarrow> bytes option \<Rightarrow> bytes option \<Rightarrow> turn_compat \<Rightarrow>
      (nat \<times> stun_message \<times> stun_agent) option" where
  "stun_usage_turn_create env rid agent msg0 buf buf_len previous props bandwidth lifetime
      username password dialect = do {
     (_, msg) \<leftarrow> stun_agent_init_request env rid agent msg0 buf buf_len STUN_ALLOCATE;
     (ok, msg1) \<leftarrow> run_steps (turn_create_steps previous props bandwidth lifetime username dialect) msg;
     if \<not> ok then Some (0, msg1, agent)
     else stun_agent_finish_message env agent msg1 password }"

definition stun_usage_turn_create_refresh ::
    "stun_env \<Rightarrow> bytes \<Rightarrow> stun_agent \<Rightarrow> stun_message \<Rightarrow> bytes \<Rightarrow> nat \<Rightarrow> stun_message option \<Rightarrow>
      u32 \<Rightarrow> bytes option \<Rightarrow> bytes option \<Rightarrow> turn_compat \<Rightarrow>
      (nat \<times> stun_message \<times> stun_agent) option" where
  "stun_usage_turn_create_refresh env rid agent msg0 buf buf_len previous lifetime
      username password dialect =
    (if \<not> turn_standard dialect
     then stun_usage_turn_create env rid agent msg0 buf buf_len previous
       STUN_USAGE_TURN_REQUEST_PORT_NORMAL 0 lifetime username password dialect
     else do {
       (_, msg) \<leftarrow> stun_agent_init_request env rid agent msg0 buf buf_len STUN_REFRESH;
       (ok, msg1) \<leftarrow> run_steps (lifetime_steps lifetime @
         (case previous of None \<Rightarrow> []
          | Some p \<Rightarrow> [copy_attr p STUN_ATTRIBUTE_REALM, copy_attr p STUN_ATTRIBUTE_NONCE]) @
         username_steps username) msg;
       if \<not> ok then Some (0, msg1, agent)
       else stun_agent_finish_message env agent msg1 password })"

definition opt_bytes_step :: "stun_attribute \<Rightarrow> bytes option \<Rightarrow> step list" where
  "opt_bytes_step t v =
     (case v of None \<Rightarrow> [] | Some v \<Rightarrow> [\<lambda>msg. stun_message_append_bytes msg t v])"

definition stun_usage_turn_create_permission ::
    "stun_env \<Rightarrow> bytes \<Rightarrow> stun_agent \<Rightarrow> stun_message \<Rightarrow> bytes \<Rightarrow> nat \<Rightarrow> bytes option \<Rightarrow>
      bytes option \<Rightarrow> bytes option \<Rightarrow> bytes option \<Rightarrow> sockaddr option \<Rightarrow>
      (nat \<times> stun_message \<times> stun_agent) option" where
  "stun_usage_turn_create_permission env rid agent msg0 buf buf_len username password realm nonce
      peer =
    (case peer of None \<Rightarrow> Some (0, msg0, agent)
     | Some peer \<Rightarrow> do {
         (_, msg) \<leftarrow> stun_agent_init_request env rid agent msg0 buf buf_len STUN_CREATEPERMISSION;
         (ok, msg1) \<leftarrow> run_steps
           ([\<lambda>msg. stun_message_append_xor_addr msg STUN_ATTRIBUTE_XOR_PEER_ADDRESS peer
               sizeof_sockaddr_storage] @
            opt_bytes_step STUN_ATTRIBUTE_NONCE nonce @ opt_bytes_step STUN_ATTRIBUTE_REALM realm @
            opt_bytes_step STUN_ATTRIBUTE_USERNAME username) msg;
         if \<not> ok then Some (0, msg1, agent)
         else stun_agent_finish_message env agent msg1 password })"

subsection \<open>Reading responses\<close>

type_synonym found_addr = "sockaddr option \<times> nat"

record turn_result =
  turn_ret :: turn_return
  relay_addr :: found_addr
  mapped_addr :: found_addr
  alternate_addr :: "found_addr option"
  turn_bandwidth :: "u32 option"
  turn_lifetime :: "u32 option"

text \<open>The ALTERNATE-SERVER mechanism, shared by the allocate and the binding usage.\<close>

definition alternate_server ::
    "stun_message \<Rightarrow> nat option \<Rightarrow> (bool \<times> found_addr option) option" where
  "alternate_server msg alt =
    (case alt of
       Some n \<Rightarrow> do {
         (val, a, n') \<leftarrow> stun_message_find_addr msg STUN_ATTRIBUTE_ALTERNATE_SERVER n;
         Some (val = STUN_MESSAGE_RETURN_SUCCESS, Some (a, n')) }
     | None \<Rightarrow> do {
         has \<leftarrow> stun_message_has_attribute msg STUN_ATTRIBUTE_ALTERNATE_SERVER;
         Some (has, None) })"

text \<open>The mapped and the relayed address of a response in each dialect: the codes and the addresses.\<close>

definition turn_addresses ::
    "stun_message \<Rightarrow> nat \<Rightarrow> nat \<Rightarrow> turn_compat \<Rightarrow>
      (stun_return \<times> found_addr \<times> stun_return \<times> found_addr) option" where
  "turn_addresses msg relaylen addrlen dialect =
    (if turn_standard dialect then do {
       (val, a) \<leftarrow> stun_message_find_xor_addr msg STUN_ATTRIBUTE_XOR_MAPPED_ADDRESS addrlen;
       (val', r) \<leftarrow> stun_message_find_xor_addr msg STUN_ATTRIBUTE_RELAY_ADDRESS relaylen;
       Some (val, a, val', r) }
     else if dialect = STUN_USAGE_TURN_COMPATIBILITY_GOOGLE then do {
       (val', r) \<leftarrow> stun_message_find_addr msg STUN_ATTRIBUTE_MAPPED_ADDRESS relaylen;
       Some (STUN_MESSAGE_RETURN_NOT_FOUND, (None, addrlen), val', r) }
     else if dialect = STUN_USAGE_TURN_COMPATIBILITY_MSN then do {
       (val, a) \<leftarrow> stun_message_find_addr msg STUN_ATTRIBUTE_MSN_MAPPED_ADDRESS addrlen;
       (val', r) \<leftarrow> stun_message_find_addr msg STUN_ATTRIBUTE_MAPPED_ADDRESS relaylen;
       Some (val, a, val', r) }
     else do {
       cookie \<leftarrow> msn_cookie msg;
       (val, a) \<leftarrow> stun_message_find_xor_addr_full msg STUN_ATTRIBUTE_MS_XOR_MAPPED_ADDRESS addrlen
         cookie;
       (val', r) \<leftarrow> stun_message_find_addr msg STUN_ATTRIBUTE_MAPPED_ADDRESS relaylen;
       Some (val, a, val', r) })"

definition stun_usage_turn_process ::
    "stun_message \<Rightarrow> nat \<Rightarrow> nat \<Rightarrow> nat option \<Rightarrow> turn_compat \<Rightarrow> turn_result option" where
  "stun_usage_turn_process msg relaylen addrlen altlen dialect =
    (let result = (\<lambda>ret alt. \<lparr>turn_ret = ret, relay_addr = (None, relaylen), mapped_addr = (None, addrlen),
           alternate_addr = alt, turn_bandwidth = None, turn_lifetime = None\<rparr>);
         unread = map_option (\<lambda>n. (None, n)) altlen in
     do {
       m \<leftarrow> stun_message_get_method msg;
       if m \<noteq> STUN_ALLOCATE then Some (result STUN_USAGE_TURN_RETURN_INVALID unread)
       else do {
         c \<leftarrow> stun_message_get_class msg;
         if c = STUN_REQUEST \<or> c = STUN_INDICATION
         then Some (result STUN_USAGE_TURN_RETURN_INVALID unread)
         else if c = STUN_ERROR then do {
           (val, code) \<leftarrow> stun_message_find_error msg;
           case code of
             None \<Rightarrow> Some (result STUN_USAGE_TURN_RETURN_INVALID unread)
           | Some code \<Rightarrow>
               if val \<noteq> STUN_MESSAGE_RETURN_SUCCESS
               then Some (result STUN_USAGE_TURN_RETURN_INVALID unread)
               else if code div 100 = 3 then do {
                 (found, alt) \<leftarrow> alternate_server msg altlen;
                 Some (result (if found then STUN_USAGE_TURN_RETURN_ALTERNATE_SERVER
                   else STUN_USAGE_TURN_RETURN_ERROR) alt) }
               else Some (result STUN_USAGE_TURN_RETURN_ERROR unread) }
         else do {
           (val, a, val', r) \<leftarrow> turn_addresses msg relaylen addrlen dialect;
           if val' \<noteq> STUN_MESSAGE_RETURN_SUCCESS
           then Some ((result STUN_USAGE_TURN_RETURN_ERROR unread)\<lparr>relay_addr := r, mapped_addr := a\<rparr>)
           else do {
             (_, lifetime) \<leftarrow> stun_message_find32 msg STUN_ATTRIBUTE_LIFETIME;
             (_, bandwidth) \<leftarrow> stun_message_find32 msg STUN_ATTRIBUTE_BANDWIDTH;
             Some \<lparr>turn_ret = (if val = STUN_MESSAGE_RETURN_SUCCESS
                 then STUN_USAGE_TURN_RETURN_MAPPED_SUCCESS else STUN_USAGE_TURN_RETURN_RELAY_SUCCESS),
               relay_addr = r, mapped_addr = a, alternate_addr = unread,
               turn_bandwidth = bandwidth, turn_lifetime = lifetime\<rparr> } } } })"

definition stun_usage_turn_refresh_process ::
    "stun_message \<Rightarrow> turn_compat \<Rightarrow> (turn_return \<times> u32 option) option" where
  "stun_usage_turn_refresh_process msg dialect = do {
     m \<leftarrow> stun_message_get_method msg;
     if m \<noteq> (if turn_standard dialect then STUN_REFRESH else STUN_ALLOCATE)
     then Some (STUN_USAGE_TURN_RETURN_INVALID, None)
     else do {
       c \<leftarrow> stun_message_get_class msg;
       if c = STUN_REQUEST \<or> c = STUN_INDICATION then Some (STUN_USAGE_TURN_RETURN_INVALID, None)
       else if c = STUN_ERROR then do {
         (val, code) \<leftarrow> stun_message_find_error msg;
         Some (if val \<noteq> STUN_MESSAGE_RETURN_SUCCESS then STUN_USAGE_TURN_RETURN_INVALID
           else STUN_USAGE_TURN_RETURN_ERROR, None) }
       else do {
         (_, lifetime) \<leftarrow> stun_message_find32 msg STUN_ATTRIBUTE_LIFETIME;
         Some (STUN_USAGE_TURN_RETURN_RELAY_SUCCESS, lifetime) } } }"

end
