(* ===== verification/Usage_Bind.thy ===== *)
theory Usage_Bind
  imports Usage_Turn Stun_Transactions Stun_Timer
begin

unbundle bit_operations_syntax

text \<open>
  The binding usage of \<open>stun/usages/bind.c\<close>: building and reading binding messages, the transport
  of one socket, and the blocking discovery \<open>stun_usage_bind_run\<close>.

  What the operating system answers in one round of the loop of \<open>stun_usage_bind_run\<close> is a
  \<open>bind_event\<close>; the loop is a recursion over the rounds. \<open>None\<close> is a fault, as everywhere; a run
  whose rounds are used up before the loop ends is still waiting.
\<close>

section \<open>Definitions\<close>

datatype bind_return =
    STUN_USAGE_BIND_RETURN_SUCCESS
  | STUN_USAGE_BIND_RETURN_ERROR
  | STUN_USAGE_BIND_RETURN_INVALID
  | STUN_USAGE_BIND_RETURN_ALTERNATE_SERVER
  | STUN_USAGE_BIND_RETURN_TIMEOUT

datatype trans_return =
    STUN_USAGE_TRANS_RETURN_SUCCESS
  | STUN_USAGE_TRANS_RETURN_ERROR
  | STUN_USAGE_TRANS_RETURN_RETRY
  | STUN_USAGE_TRANS_RETURN_INVALID_ADDRESS
  | STUN_USAGE_TRANS_RETURN_UNSUPPORTED

abbreviation (input) STUN_TIMER_DEFAULT_RELIABLE_TIMEOUT :: u32 where
  "STUN_TIMER_DEFAULT_RELIABLE_TIMEOUT \<equiv> 7900"
abbreviation (input) STUN_TIMER_DEFAULT_TIMEOUT :: u32 where "STUN_TIMER_DEFAULT_TIMEOUT \<equiv> 600"
abbreviation (input) STUN_TIMER_DEFAULT_MAX_RETRANSMISSIONS :: u32 where
  "STUN_TIMER_DEFAULT_MAX_RETRANSMISSIONS \<equiv> 3"
abbreviation (input) STUN_MAX_MESSAGE_SIZE :: nat where "STUN_MAX_MESSAGE_SIZE \<equiv> 65552"

subsection \<open>Messages\<close>

definition stun_usage_bind_create ::
    "stun_env \<Rightarrow> bytes \<Rightarrow> stun_agent \<Rightarrow> stun_message \<Rightarrow> bytes \<Rightarrow> nat \<Rightarrow>
      (nat \<times> stun_message \<times> stun_agent) option" where
  "stun_usage_bind_create env rid agent msg0 buf buf_len = do {
     (_, msg) \<leftarrow> stun_agent_init_request env rid agent msg0 buf buf_len STUN_BINDING;
     stun_agent_finish_message env agent msg None }"

text \<open>The verdict, the mapped address and its length, and the alternate server where it was read.\<close>

definition stun_usage_bind_process ::
    "stun_message \<Rightarrow> nat \<Rightarrow> nat option \<Rightarrow> (bind_return \<times> found_addr \<times> found_addr option) option" where
  "stun_usage_bind_process msg addrlen altlen =
    (let unread = map_option (\<lambda>n. (None, n)) altlen; none = (None, addrlen) in
     do {
       m \<leftarrow> stun_message_get_method msg;
       if m \<noteq> STUN_BINDING then Some (STUN_USAGE_BIND_RETURN_INVALID, none, unread)
       else do {
         c \<leftarrow> stun_message_get_class msg;
         if c = STUN_REQUEST \<or> c = STUN_INDICATION
         then Some (STUN_USAGE_BIND_RETURN_INVALID, none, unread)
         else if c = STUN_ERROR then do {
           (val, code) \<leftarrow> stun_message_find_error msg;
           case code of
             None \<Rightarrow> Some (STUN_USAGE_BIND_RETURN_INVALID, none, unread)
           | Some code \<Rightarrow>
               if val \<noteq> STUN_MESSAGE_RETURN_SUCCESS
               then Some (STUN_USAGE_BIND_RETURN_INVALID, none, unread)
               else if code div 100 = 3 then do {
                 (found, alt) \<leftarrow> alternate_server msg altlen;
                 Some (if found then STUN_USAGE_BIND_RETURN_ALTERNATE_SERVER
                   else STUN_USAGE_BIND_RETURN_ERROR, none, alt) }
               else Some (STUN_USAGE_BIND_RETURN_ERROR, none, unread) }
         else do {
           (val, addr, alen) \<leftarrow> stun_message_find_xor_addr msg STUN_ATTRIBUTE_XOR_MAPPED_ADDRESS addrlen;
           if val = STUN_MESSAGE_RETURN_SUCCESS
           then Some (STUN_USAGE_BIND_RETURN_SUCCESS, (addr, alen), unread)
           else do {
             (val, addr', alen') \<leftarrow> stun_message_find_addr msg STUN_ATTRIBUTE_MAPPED_ADDRESS alen;
             Some (if val \<noteq> STUN_MESSAGE_RETURN_SUCCESS then STUN_USAGE_BIND_RETURN_ERROR
               else STUN_USAGE_BIND_RETURN_SUCCESS,
               (case addr' of None \<Rightarrow> addr | Some a \<Rightarrow> Some a, alen'), unread) } } } })"

definition stun_usage_bind_keepalive ::
    "stun_env \<Rightarrow> bytes \<Rightarrow> stun_agent \<Rightarrow> stun_message \<Rightarrow> bytes \<Rightarrow> nat \<Rightarrow>
      (nat \<times> stun_message \<times> stun_agent) option" where
  "stun_usage_bind_keepalive env rid agent msg0 buf len = do {
     (_, msg) \<leftarrow> stun_agent_init_indication rid agent msg0 buf len STUN_BINDING;
     stun_agent_finish_message env agent msg None }"

subsection \<open>The transport\<close>

text \<open>A descriptor of \<open>-1\<close> is no descriptor; the destination of a connected socket is empty.\<close>

record stun_transport =
  tr_fd :: int
  tr_own_fd :: int
  tr_dst :: "sockaddr option"
  tr_dstlen :: nat

definition stun_trans_init ::
    "stun_transport \<Rightarrow> int \<Rightarrow> sockaddr option \<Rightarrow> nat \<Rightarrow> (trans_return \<times> stun_transport) option" where
  "stun_trans_init tr fd srv srvlen =
    (if fd = -1 then None
     else if srvlen > sizeof_sockaddr_storage
     then Some (STUN_USAGE_TRANS_RETURN_INVALID_ADDRESS, tr)
     else Some (STUN_USAGE_TRANS_RETURN_SUCCESS,
       \<lparr>tr_fd = fd, tr_own_fd = -1, tr_dst = srv, tr_dstlen = srvlen\<rparr>))"

text \<open>
  \<open>fd\<close> is what \<open>stun_socket\<close> returns, \<open>connected\<close> that \<open>connect\<close> succeeded or is in progress; the
  last component lists the descriptors that are open afterwards because of the call.
\<close>

definition stun_trans_create ::
    "stun_transport \<Rightarrow> bool \<Rightarrow> int \<Rightarrow> bool \<Rightarrow> sockaddr \<Rightarrow> nat \<Rightarrow>
      (trans_return \<times> stun_transport \<times> int list) option" where
  "stun_trans_create tr dgram fd connected srv srvlen =
    (if srvlen < sizeof_sockaddr then Some (STUN_USAGE_TRANS_RETURN_INVALID_ADDRESS, tr, [])
     else if fd = -1 then Some (STUN_USAGE_TRANS_RETURN_ERROR, tr, [])
     else if \<not> dgram \<and> \<not> connected then Some (STUN_USAGE_TRANS_RETURN_ERROR, tr, [])
     else do {
       (val, tr1) \<leftarrow> (if dgram then stun_trans_init tr fd (Some srv) srvlen
         else stun_trans_init tr fd None 0);
       Some (if val \<noteq> STUN_USAGE_TRANS_RETURN_SUCCESS then (val, tr1, [])
         else (STUN_USAGE_TRANS_RETURN_SUCCESS, tr1\<lparr>tr_own_fd := tr_fd tr1\<rparr>, [fd])) })"

text \<open>The transport without its socket, and the descriptor that is closed.\<close>

definition stun_trans_deinit :: "stun_transport \<Rightarrow> (stun_transport \<times> int list) option" where
  "stun_trans_deinit tr =
    (if tr_fd tr = -1 then None
     else Some (tr\<lparr>tr_own_fd := -1, tr_fd := -1\<rparr>,
       if tr_own_fd tr \<noteq> -1 then [tr_own_fd tr] else []))"

text \<open>\<open>poll\<close> returns a positive number when the socket can be read.\<close>

definition stun_trans_poll :: "int \<Rightarrow> trans_return" where
  "stun_trans_poll n =
    (if n \<le> 0 then STUN_USAGE_TRANS_RETURN_RETRY else STUN_USAGE_TRANS_RETURN_SUCCESS)"

subsection \<open>Blocking discovery\<close>

record bind_event =
  ev_polled :: int
  ev_clock :: timeval
  ev_sent :: int
  ev_packet :: "bytes option"
  ev_socket :: int
  ev_restart :: timeval

record bind_state =
  bs_agent :: stun_agent
  bs_message :: stun_message
  bs_timer :: stun_timer
  bs_trans :: stun_transport
  bs_request :: bytes
  bs_mapped :: "sockaddr option"
  bs_addrlen :: nat
  bs_altlen :: nat
  bs_open :: "int list"
  bs_sent :: "(sockaddr option \<times> bytes) list"

text \<open>\<open>stun_trans_send\<close>: the request is sent to the destination of the transport.\<close>

definition stun_trans_send :: "bind_state \<Rightarrow> bind_state" where
  "stun_trans_send s = s\<lparr>bs_sent := bs_sent s @ [(tr_dst (bs_trans s), bs_request s)]\<rparr>"

text \<open>The answer is the value to return, if the round ends the run.\<close>

type_synonym bind_round = "(bind_return option \<times> bind_state) option"

text \<open>A redirection to the alternate server.\<close>

definition bind_redirect :: "bind_event \<Rightarrow> sockaddr \<Rightarrow> bind_state \<Rightarrow> bind_round" where
  "bind_redirect e alt s = do {
     (tr, closed) \<leftarrow> stun_trans_deinit (bs_trans s);
     (ret, tr1, opened) \<leftarrow> stun_trans_create tr True (ev_socket e) True alt (bs_altlen s);
     let s1 = s\<lparr>bs_trans := tr1, bs_open := opened @ filter (\<lambda>fd. fd \<notin> set closed) (bs_open s)\<rparr>;
     if ret \<noteq> STUN_USAGE_TRANS_RETURN_SUCCESS then Some (Some STUN_USAGE_BIND_RETURN_ERROR, s1)
     else do {
       let s2 = stun_trans_send s1;
       if ev_sent e < -1 then Some (Some STUN_USAGE_BIND_RETURN_ERROR, s2)
       else Some (None, s2\<lparr>bs_timer := stun_timer_start (ev_restart e) STUN_TIMER_DEFAULT_TIMEOUT
         STUN_TIMER_DEFAULT_MAX_RETRANSMISSIONS\<rparr>) } }"

text \<open>A packet that was received, cut to the size of the buffer.\<close>

definition bind_packet :: "stun_env \<Rightarrow> bind_event \<Rightarrow> bytes \<Rightarrow> bind_state \<Rightarrow> bind_round" where
  "bind_packet env e p s = do {
     let buf = take STUN_MAX_MESSAGE_SIZE p;
     (valid, msg, agent) \<leftarrow> stun_agent_validate env (bs_agent s) (bs_message s) buf (length buf) None;
     let s1 = s\<lparr>bs_agent := agent, bs_message := msg\<rparr>;
     if valid = STUN_VALIDATION_UNKNOWN_ATTRIBUTE then Some (Some STUN_USAGE_BIND_RETURN_ERROR, s1)
     else if valid \<noteq> STUN_VALIDATION_SUCCESS then Some (None, s1)
     else do {
       (ret, (addr, alen), alt) \<leftarrow> stun_usage_bind_process msg (bs_addrlen s) (Some (bs_altlen s));
       (alt_addr, altlen) \<leftarrow> alt;
       let s2 = s1\<lparr>bs_mapped := (case addr of None \<Rightarrow> bs_mapped s | Some a \<Rightarrow> Some a),
         bs_addrlen := alen, bs_altlen := altlen\<rparr>;
       if ret = STUN_USAGE_BIND_RETURN_ALTERNATE_SERVER then do {
         a \<leftarrow> alt_addr;
         bind_redirect e a s2 }
       else if ret = STUN_USAGE_BIND_RETURN_INVALID then Some (None, s2)
       else Some (Some ret, s2) } }"

definition bind_receive :: "stun_env \<Rightarrow> bind_event \<Rightarrow> bind_state \<Rightarrow> bind_round" where
  "bind_receive env e s =
    (case ev_packet e of None \<Rightarrow> Some (None, s) | Some p \<Rightarrow> bind_packet env e p s)"

definition bind_round :: "stun_env \<Rightarrow> bind_event \<Rightarrow> bind_state \<Rightarrow> bind_round" where
  "bind_round env e s =
    (if stun_trans_poll (ev_polled e) = STUN_USAGE_TRANS_RETURN_RETRY then
       let (r, t) = stun_timer_refresh (ev_clock e) (bs_timer s); s1 = s\<lparr>bs_timer := t\<rparr> in
       case r of
         STUN_USAGE_TIMER_RETURN_TIMEOUT \<Rightarrow> Some (Some STUN_USAGE_BIND_RETURN_TIMEOUT, s1)
       | STUN_USAGE_TIMER_RETURN_RETRANSMIT \<Rightarrow>
           Some (if ev_sent e < -1 then Some STUN_USAGE_BIND_RETURN_ERROR else None, stun_trans_send s1)
       | STUN_USAGE_TIMER_RETURN_SUCCESS \<Rightarrow> bind_receive env e s1
     else bind_receive env e s)"

fun bind_rounds :: "stun_env \<Rightarrow> bind_event list \<Rightarrow> bind_state \<Rightarrow> bind_round" where
  "bind_rounds env [] s = Some (None, s)"
| "bind_rounds env (e # es) s = do {
     (r, s1) \<leftarrow> bind_round env e s;
     case r of None \<Rightarrow> bind_rounds env es s1 | Some _ \<Rightarrow> Some (r, s1) }"

text \<open>The state of a run whose transport was created.\<close>

definition bind_started ::
    "stun_message \<Rightarrow> stun_agent \<Rightarrow> stun_transport \<Rightarrow> int list \<Rightarrow> bytes \<Rightarrow> nat \<Rightarrow> timeval \<Rightarrow> bind_state" where
  "bind_started msg0 agent tr opened req addrlen start =
     \<lparr>bs_agent = agent, bs_message = msg0,
      bs_timer = stun_timer_start start STUN_TIMER_DEFAULT_TIMEOUT STUN_TIMER_DEFAULT_MAX_RETRANSMISSIONS,
      bs_trans = tr, bs_request = req, bs_mapped = None, bs_addrlen = addrlen,
      bs_altlen = sizeof_sockaddr_storage, bs_open = opened, bs_sent = []\<rparr>"

text \<open>
  \<open>agent0\<close>, \<open>msg0\<close>, \<open>buf\<close> and \<open>tr0\<close> are the uninitialised local variables; the socket, the result of
  the first send and the time of the start come before the rounds.
\<close>

definition stun_usage_bind_run ::
    "stun_env \<Rightarrow> bytes \<Rightarrow> stun_agent \<Rightarrow> stun_message \<Rightarrow> bytes \<Rightarrow> stun_transport \<Rightarrow> sockaddr \<Rightarrow> nat \<Rightarrow> nat \<Rightarrow>
      int \<Rightarrow> int \<Rightarrow> timeval \<Rightarrow> bind_event list \<Rightarrow> bind_round" where
  "stun_usage_bind_run env rid agent0 msg0 buf tr0 srv srvlen addrlen fd sent start evs = do {
     (len, req, agent) \<leftarrow> stun_usage_bind_create env rid
       (stun_agent_init agent0 STUN_ALL_KNOWN_ATTRIBUTES STUN_COMPATIBILITY_RFC3489 0)
       msg0 buf STUN_MAX_MESSAGE_SIZE;
     (ret, tr, opened) \<leftarrow> stun_trans_create tr0 True fd True srv srvlen;
     let s = bind_started msg0 agent tr opened (take len (buffer req)) addrlen start;
     if ret \<noteq> STUN_USAGE_TRANS_RETURN_SUCCESS then Some (Some STUN_USAGE_BIND_RETURN_ERROR, s)
     else if sent < -1 then Some (Some STUN_USAGE_BIND_RETURN_ERROR, stun_trans_send s)
     else bind_rounds env evs (stun_trans_send s) }"

section \<open>Redirected runs\<close>

text \<open>An agent without outstanding transactions accepts no response.\<close>

lemma drained_accepts_no_response:
  assumes "stun_agent_validate env a msg0 buf n v = Some (STUN_VALIDATION_SUCCESS, msg, a')"
    and "outstanding a = {#}"
  shows "a' = a" "stun_message_get_class (received_message a msg0 buf n) \<noteq> Some STUN_RESPONSE"
    "stun_message_get_class (received_message a msg0 buf n) \<noteq> Some STUN_ERROR"
proof -
  show "a' = a" using validate_outstanding(1) [OF assms(1)] assms(2) by auto
  have "\<not> saved_valid x" if "x \<in> set (sent_ids a)" for x
    using assms(2) that by (auto simp: outstanding_def filter_empty_conv)
  then have "find_index (saved_matches m i) (sent_ids a) = None" for m i
    by (auto simp: find_index_None saved_matches_def)
  then show "stun_message_get_class (received_message a msg0 buf n) \<noteq> Some STUN_RESPONSE"
    "stun_message_get_class (received_message a msg0 buf n) \<noteq> Some STUN_ERROR"
    using assms(1) by (auto simp: stun_agent_validate_def Let_def split: if_splits bind_splits)
qed

text \<open>Validation never changes the bytes of the message it returns.\<close>

definition same_bytes :: "stun_message \<Rightarrow> stun_message \<Rightarrow> bool" where
  "same_bytes m m' \<longleftrightarrow> buffer m' = buffer m \<and> buffer_len m' = buffer_len m \<and> msg_agent m' = msg_agent m"

lemma verify_sha_bytes: "verify_sha env a m h k key = Some (v, m') \<Longrightarrow> same_bytes m m'"
  by (auto simp: verify_sha_def same_bytes_def split: bind_splits if_splits)

lemma check_key_bytes: "check_key env a m i key k l = Some (v, m') \<Longrightarrow> same_bytes m m'"
  by (auto simp: check_key_def check_integrity_def same_bytes_def
      split: bind_splits option.splits if_splits dest!: verify_sha_bytes [unfolded same_bytes_def])

lemma validate_with_key_bytes:
  "validate_with_key env a m v c idx key k l = Some (st, m', a') \<Longrightarrow> same_bytes m m'"
  by (auto simp: validate_with_key_def Let_def same_bytes_def
      split: bind_splits option.splits if_splits dest!: check_key_bytes [unfolded same_bytes_def])

lemma validate_credentials_bytes:
  "validate_credentials env a m v c idx = Some (st, m', a') \<Longrightarrow> same_bytes m m'"
  by (cases idx) (auto simp: validate_credentials_def Let_def dest: validate_with_key_bytes)

lemma validate_bytes:
  assumes "stun_agent_validate env a msg0 buf n v = Some (STUN_VALIDATION_SUCCESS, msg, a')"
  shows "same_bytes (received_message a msg0 buf n) msg"
  using assms
  by (auto simp: stun_agent_validate_def Let_def same_bytes_def split: if_splits bind_splits option.splits
      dest!: validate_credentials_bytes [unfolded same_bytes_def])

lemma same_bytes_header:
  "same_bytes m m' \<Longrightarrow> stun_message_get_class m' = stun_message_get_class m"
  by (simp add: same_bytes_def stun_message_get_class_def)

lemma validated_success:
  assumes "stun_agent_validate env a msg0 buf (length buf) v = Some (STUN_VALIDATION_SUCCESS, msg, a')"
  shows "validated msg"
proof -
  from assms obtain l where "stun_message_validate_buffer_length buf (length buf)
      (\<not> has_flag a STUN_AGENT_USAGE_NO_ALIGNED_ATTRIBUTES) = Some l" "l \<noteq> -1" "l \<noteq> 0"
    by (auto simp: stun_agent_validate_def split: bind_splits if_splits)
  moreover from this have "0 < l"
    unfolding validate_buffer_length_eq by (auto split: if_splits bind_splits)
  ultimately show ?thesis
    using validate_bytes [OF assms]
    by (simp add: validated_def same_bytes_def received_message_def no_aligned_def conf_of_def has_flag_def)
qed

text \<open>What processing a packet does once no transaction is outstanding: it never ends in success.\<close>

definition drained :: "bind_state \<Rightarrow> bool" where
  "drained s \<longleftrightarrow> outstanding (bs_agent s) = {#}"

lemma bind_packet_drained:
  assumes "bind_packet env e p s = Some (r, s')" and "drained s"
  shows "drained s' \<and> r \<noteq> Some STUN_USAGE_BIND_RETURN_SUCCESS"
proof -
  let ?b = "take STUN_MAX_MESSAGE_SIZE p"
  obtain st msg a where v: "stun_agent_validate env (bs_agent s) (bs_message s) ?b (length ?b) None = Some (st, msg, a)"
    using assms(1) by (auto simp: bind_packet_def split: bind_splits)
  have d: "outstanding a = {#}"
    using validate_outstanding(1) [OF v] assms(2) by (auto simp: drained_def)
  show ?thesis
  proof (cases "st = STUN_VALIDATION_SUCCESS")
    case True
    with v have v': "stun_agent_validate env (bs_agent s) (bs_message s) ?b (length ?b) None =
        Some (STUN_VALIDATION_SUCCESS, msg, a)" by simp
    note D = drained_accepts_no_response [OF v' assms(2) [unfolded drained_def]]
    have c: "stun_message_get_class msg \<noteq> Some STUN_RESPONSE" "stun_message_get_class msg \<noteq> Some STUN_ERROR"
      using D(2,3) same_bytes_header [OF validate_bytes [OF v']] by simp_all
    have p: "ret = STUN_USAGE_BIND_RETURN_INVALID"
      if "stun_usage_bind_process msg n m = Some (ret, x, y)" for ret x y n m
    proof (cases "stun_message_get_class msg")
      case None
      with that show ?thesis by (auto simp: stun_usage_bind_process_def Let_def split: bind_splits if_splits)
    next
      case (Some k)
      with c that show ?thesis
        by (cases k) (auto simp: stun_usage_bind_process_def Let_def split: bind_splits if_splits)
    qed
    from assms(1) v True d show ?thesis
      by (auto simp: bind_packet_def Let_def drained_def split: bind_splits if_splits dest!: p)
  next
    case False
    with assms(1) v d show ?thesis
      by (auto simp: bind_packet_def Let_def drained_def split: bind_splits if_splits)
  qed
qed

lemma bind_round_drained:
  assumes "bind_round env e s = Some (r, s')" and "drained s"
  shows "drained s' \<and> r \<noteq> Some STUN_USAGE_BIND_RETURN_SUCCESS"
proof -
  have rec: "drained x' \<and> q \<noteq> Some STUN_USAGE_BIND_RETURN_SUCCESS"
    if "bind_receive env e x = Some (q, x')" "drained x" for x x' q
    using that by (auto simp: bind_receive_def dest: bind_packet_drained split: option.splits)
  have upd: "drained (s\<lparr>bs_timer := t\<rparr>)" "drained (stun_trans_send (s\<lparr>bs_timer := t\<rparr>))" for t
    using assms(2) by (simp_all add: drained_def stun_trans_send_def)
  show ?thesis
    using assms upd
    by (auto simp: bind_round_def Let_def split: if_splits prod.splits timer_return.splits dest: rec)
qed

lemma bind_rounds_drained:
  "bind_rounds env es s = Some (r, s') \<Longrightarrow> drained s \<Longrightarrow> r \<noteq> Some STUN_USAGE_BIND_RETURN_SUCCESS"
proof (induction es arbitrary: s)
  case (Cons e es)
  from Cons.prems obtain q s1 where q: "bind_round env e s = Some (q, s1)"
    by (auto split: bind_splits)
  note D = bind_round_drained [OF q Cons.prems(2)]
  show ?case
  proof (cases q)
    case None
    with Cons.prems(1) q D Cons.IH [of s1] show ?thesis by auto
  next
    case (Some x)
    with Cons.prems(1) q D show ?thesis by auto
  qed
qed simp

text \<open>
  A run that was not redirected has sent everything to one address, and waits for at most one
  response. A redirection uses up that response: the request that is sent to the alternate server
  has no transaction left.
\<close>

definition direct :: "sockaddr \<Rightarrow> bind_state \<Rightarrow> bool" where
  "direct srv s \<longleftrightarrow> tr_dst (bs_trans s) = Some srv \<and> size (outstanding (bs_agent s)) \<le> 1 \<and>
     (\<forall>x \<in> set (bs_sent s). fst x = Some srv)"

lemma redirect_agent: "bind_redirect e alt s = Some (r, s') \<Longrightarrow> bs_agent s' = bs_agent s"
  by (auto simp: bind_redirect_def stun_trans_send_def Let_def split: bind_splits if_splits)

lemma alternate_is_error:
  assumes "stun_usage_bind_process msg n m = Some (STUN_USAGE_BIND_RETURN_ALTERNATE_SERVER, x, y)"
  shows "stun_message_get_class msg = Some STUN_ERROR"
proof (cases "stun_message_get_class msg")
  case None
  with assms show ?thesis by (auto simp: stun_usage_bind_process_def Let_def split: bind_splits if_splits)
next
  case (Some c)
  with assms show ?thesis
    by (cases c) (auto simp: stun_usage_bind_process_def Let_def split: bind_splits if_splits)
qed

lemma accepted_response_released:
  assumes "stun_agent_validate env a msg0 buf n v = Some (STUN_VALIDATION_SUCCESS, msg, a')"
    and "stun_message_get_class msg = Some STUN_ERROR" and "size (outstanding a) \<le> 1"
  shows "outstanding a' = {#}"
proof -
  have c: "stun_message_get_class (received_message a msg0 buf n) = Some STUN_ERROR"
    using assms(2) same_bytes_header [OF validate_bytes [OF assms(1)]] by simp
  obtain m tid i where i: "find_index (saved_matches m tid) (sent_ids a) = Some i"
    and v: "validate_credentials env a (received_message a msg0 buf n) v STUN_ERROR (Some i) =
      Some (STUN_VALIDATION_SUCCESS, msg, a')"
    using assms(1) c by (auto simp: stun_agent_validate_def Let_def split: if_splits bind_splits option.splits)
  note I = find_index_Some(1,2) [OF i]
  have "saved_valid (sent_ids a ! i)" using I(2) by (simp add: saved_matches_def)
  note O = outstanding_invalidate [OF I(1) this]
  have "a' = release_saved a (Some i)"
    using validate_credentials_table [OF v] by (simp add: accepted_status_def)
  then have "outstanding a' = outstanding a - {#transaction_of (sent_ids a ! i)#}"
    using O(1) by (simp add: release_saved_def)
  then show ?thesis using O(2) assms(3) by (auto dest!: multi_member_split)
qed

lemma bind_packet_direct:
  assumes "bind_packet env e p s = Some (r, s')" and "direct srv s"
  shows "direct srv s' \<or> drained s' \<and> r \<noteq> Some STUN_USAGE_BIND_RETURN_SUCCESS"
proof -
  let ?b = "take STUN_MAX_MESSAGE_SIZE p"
  obtain st msg a where v: "stun_agent_validate env (bs_agent s) (bs_message s) ?b (length ?b) None = Some (st, msg, a)"
    using assms(1) by (auto simp: bind_packet_def split: bind_splits)
  have le: "size (outstanding a) \<le> 1"
    using validate_outstanding(1) [OF v] assms(2) size_Diff_submset [of _ "outstanding (bs_agent s)"]
    by (auto simp: direct_def)
  show ?thesis
  proof (cases "st = STUN_VALIDATION_SUCCESS")
    case False
    with assms v le show ?thesis
      by (auto simp: bind_packet_def Let_def direct_def split: bind_splits if_splits)
  next
    case True
    with v have v': "stun_agent_validate env (bs_agent s) (bs_message s) ?b (length ?b) None =
        Some (STUN_VALIDATION_SUCCESS, msg, a)" by simp
    from assms(1) v True obtain ret addr alen alt_addr altlen where
      p: "stun_usage_bind_process msg (bs_addrlen s) (Some (bs_altlen s)) =
        Some (ret, (addr, alen), Some (alt_addr, altlen))"
      by (auto simp: bind_packet_def Let_def split: bind_splits if_splits)
    show ?thesis
    proof (cases "ret = STUN_USAGE_BIND_RETURN_ALTERNATE_SERVER")
      case False
      with assms v True le p show ?thesis
        by (auto simp: bind_packet_def Let_def direct_def split: bind_splits if_splits)
    next
      case True
      with p have "stun_message_get_class msg = Some STUN_ERROR" by (auto dest: alternate_is_error)
      from accepted_response_released [OF v' this] assms(2) have "outstanding a = {#}"
        by (simp add: direct_def)
      with assms(1) v' p True show ?thesis
        by (auto simp: bind_packet_def Let_def drained_def bind_redirect_def stun_trans_send_def
            split: bind_splits if_splits dest!: redirect_agent)
    qed
  qed
qed

lemma bind_round_direct:
  assumes "bind_round env e s = Some (r, s')" and "direct srv s"
  shows "direct srv s' \<or> drained s' \<and> r \<noteq> Some STUN_USAGE_BIND_RETURN_SUCCESS"
proof -
  have rec: "direct srv x' \<or> drained x' \<and> q \<noteq> Some STUN_USAGE_BIND_RETURN_SUCCESS"
    if "bind_receive env e x = Some (q, x')" "direct srv x" for x x' q
    using that by (auto simp: bind_receive_def dest: bind_packet_direct split: option.splits)
  have upd: "direct srv (s\<lparr>bs_timer := t\<rparr>)" "direct srv (stun_trans_send (s\<lparr>bs_timer := t\<rparr>))" for t
    using assms(2) by (auto simp: direct_def stun_trans_send_def)
  show ?thesis
    using assms upd
    by (auto simp: bind_round_def Let_def split: if_splits prod.splits timer_return.splits dest: rec)
qed

lemma bind_rounds_direct:
  "bind_rounds env es s = Some (Some STUN_USAGE_BIND_RETURN_SUCCESS, s') \<Longrightarrow> direct srv s \<Longrightarrow> direct srv s'"
proof (induction es arbitrary: s)
  case (Cons e es)
  from Cons.prems obtain q s1 where q: "bind_round env e s = Some (q, s1)"
    by (auto split: bind_splits)
  note D = bind_round_direct [OF q Cons.prems(2)]
  show ?case
  proof (cases q)
    case None
    with Cons.prems(1) q have "bind_rounds env es s1 = Some (Some STUN_USAGE_BIND_RETURN_SUCCESS, s')" by simp
    with D Cons.IH [OF this] bind_rounds_drained [OF this] show ?thesis by auto
  next
    case (Some x)
    with Cons.prems(1) q D show ?thesis by auto
  qed
qed simp

lemma bind_create_outstanding:
  assumes "stun_usage_bind_create env rid a msg0 buf n = Some (len, req, a')" and "outstanding a = {#}"
  shows "size (outstanding a') \<le> 1"
proof -
  from assms(1) obtain msg where "stun_agent_finish_message env a msg None = Some (len, req, a')"
    by (auto simp: stun_usage_bind_create_def split: bind_splits)
  from finish_message_outstanding [OF this] assms(2) show ?thesis by auto
qed

lemma run_success_direct:
  assumes "stun_usage_bind_run env rid agent0 msg0 buf tr0 srv srvlen addrlen fd sent start evs =
      Some (Some STUN_USAGE_BIND_RETURN_SUCCESS, s)"
  shows "\<forall>x \<in> set (bs_sent s). fst x = Some srv"
proof -
  let ?a = "stun_agent_init agent0 STUN_ALL_KNOWN_ATTRIBUTES STUN_COMPATIBILITY_RFC3489 0"
  from assms obtain len req agent tr opened where
    c: "stun_usage_bind_create env rid ?a msg0 buf STUN_MAX_MESSAGE_SIZE = Some (len, req, agent)"
    and t: "stun_trans_create tr0 True fd True srv srvlen = Some (STUN_USAGE_TRANS_RETURN_SUCCESS, tr, opened)"
    and r: "bind_rounds env evs (stun_trans_send (bind_started msg0 agent tr opened (take len (buffer req))
      addrlen start)) = Some (Some STUN_USAGE_BIND_RETURN_SUCCESS, s)"
    unfolding stun_usage_bind_run_def by (auto simp: Let_def split: bind_splits if_splits)
  have "tr_dst tr = Some srv"
    using t by (auto simp: stun_trans_create_def stun_trans_init_def split: if_splits bind_splits)
  then have "direct srv (stun_trans_send (bind_started msg0 agent tr opened (take len (buffer req)) addrlen start))"
    using bind_create_outstanding [OF c agent_init_outstanding]
    by (simp add: direct_def bind_started_def stun_trans_send_def)
  from bind_rounds_direct [OF r this] show ?thesis by (simp add: direct_def)
qed

section \<open>Runs without an answer\<close>

text \<open>Rounds in which nothing arrives before the timer has expired.\<close>

definition silent :: "bind_event \<Rightarrow> bool" where
  "silent e \<longleftrightarrow> ev_polled e \<le> 0 \<and> ev_packet e = None \<and> -1 \<le> ev_sent e"

lemma silent_round:
  assumes "silent e"
  shows "\<exists>r t. stun_timer_refresh (ev_clock e) (bs_timer s) = (r, t) \<and>
    bind_round env e s =
      (case r of STUN_USAGE_TIMER_RETURN_TIMEOUT \<Rightarrow>
         Some (Some STUN_USAGE_BIND_RETURN_TIMEOUT, s\<lparr>bs_timer := t\<rparr>)
       | STUN_USAGE_TIMER_RETURN_RETRANSMIT \<Rightarrow> Some (None, stun_trans_send (s\<lparr>bs_timer := t\<rparr>))
       | STUN_USAGE_TIMER_RETURN_SUCCESS \<Rightarrow> Some (None, s\<lparr>bs_timer := t\<rparr>))"
  using assms
  by (cases "stun_timer_refresh (ev_clock e) (bs_timer s)")
    (auto simp: bind_round_def silent_def stun_trans_poll_def bind_receive_def Let_def split: timer_return.splits)

text \<open>In silence at most three retransmissions are sent, and all the run can return is a timeout.\<close>

lemma silent_rounds_bounded:
  assumes "list_all silent es" and "retransmissions (bs_timer s) \<le> max_retransmissions (bs_timer s)"
  shows "\<exists>r s'. bind_rounds env es s = Some (r, s') \<and> (r = None \<or> r = Some STUN_USAGE_BIND_RETURN_TIMEOUT) \<and>
    bs_trans s' = bs_trans s \<and> bs_open s' = bs_open s \<and>
    length (bs_sent s') \<le> length (bs_sent s) +
      (unat (max_retransmissions (bs_timer s)) - unat (retransmissions (bs_timer s)))"
  using assms
proof (induction es arbitrary: s)
  case (Cons e es)
  then have e: "silent e" by simp
  obtain r t where r: "stun_timer_refresh (ev_clock e) (bs_timer s) = (r, t)"
    and b: "bind_round env e s =
      (case r of STUN_USAGE_TIMER_RETURN_TIMEOUT \<Rightarrow>
         Some (Some STUN_USAGE_BIND_RETURN_TIMEOUT, s\<lparr>bs_timer := t\<rparr>)
       | STUN_USAGE_TIMER_RETURN_RETRANSMIT \<Rightarrow> Some (None, stun_trans_send (s\<lparr>bs_timer := t\<rparr>))
       | STUN_USAGE_TIMER_RETURN_SUCCESS \<Rightarrow> Some (None, s\<lparr>bs_timer := t\<rparr>))"
    using silent_round [OF e, of s env] by auto
  note B = refresh_bounded [OF r Cons.prems(2)]
  have le: "unat (retransmissions t) \<le> unat (max_retransmissions t)" using B(1) by (simp add: word_le_nat_alt)
  show ?case
  proof (cases r)
    case STUN_USAGE_TIMER_RETURN_SUCCESS
    with B b Cons.IH [of "s\<lparr>bs_timer := t\<rparr>"] Cons.prems(1) show ?thesis by auto
  next
    case STUN_USAGE_TIMER_RETURN_RETRANSMIT
    with B b Cons.IH [of "stun_trans_send (s\<lparr>bs_timer := t\<rparr>)"] Cons.prems(1) le show ?thesis
      by (auto simp: stun_trans_send_def)
  next
    case STUN_USAGE_TIMER_RETURN_TIMEOUT
    with b show ?thesis by auto
  qed
qed simp

text \<open>
  The last deadline of a run is nine seconds after its start. When the clock of every round is past
  it, each round is a retransmission until the three are used up, and then the timeout.
\<close>

lemma late_round:
  assumes "silent e" and "tv_sec (deadline (bs_timer s)) < tv_sec (ev_clock e)"
  shows "bind_round env e s =
    (let t = bs_timer s in
     if max_retransmissions t \<le> retransmissions t then Some (Some STUN_USAGE_BIND_RETURN_TIMEOUT, s)
     else Some (None, stun_trans_send (s\<lparr>bs_timer := t\<lparr>delay := delay t * 2,
       deadline := add_delay (deadline t) (delay t * 2), retransmissions := retransmissions t + 1\<rparr>\<rparr>)))"
proof -
  have "stun_timer_remainder (ev_clock e) (bs_timer s) = 0"
    using assms(2) by (simp add: stun_timer_remainder_def)
  then show ?thesis
    using assms(1) by (simp add: bind_round_def silent_def stun_trans_poll_def stun_timer_refresh_def Let_def)
qed

lemma deadline_sec:
  assumes "in_range ts" and "in_range start" and "usecs ts \<le> usecs start + 9000000"
  shows "tv_sec ts \<le> tv_sec start + 10"
  using assms by (simp add: in_range_def usecs_def)

lemma add_delay_in_range: "in_range ts \<Longrightarrow> in_range (add_delay ts d)"
  using add_delay_range [of ts d] by (simp add: in_range_def)

lemma silent_run_times_out:
  assumes "list_all (\<lambda>e. silent e \<and> tv_sec start + 10 < tv_sec (ev_clock e)) es" and "in_range start"
    and "4 \<le> length es" and "bs_timer s = stun_timer_start start STUN_TIMER_DEFAULT_TIMEOUT
      STUN_TIMER_DEFAULT_MAX_RETRANSMISSIONS"
  shows "\<exists>s'. bind_rounds env es s = Some (Some STUN_USAGE_BIND_RETURN_TIMEOUT, s') \<and>
    length (bs_sent s') = length (bs_sent s) + 3"
proof -
  let ?d1 = "add_delay start 600" let ?d2 = "add_delay ?d1 1200"
  let ?d3 = "add_delay ?d2 2400" let ?d4 = "add_delay ?d3 4800"
  note R = add_delay_in_range
  have d: "in_range ?d1" "in_range ?d2" "in_range ?d3" "in_range ?d4"
    using assms(2) by (auto intro!: R)
  note d = this
  have u: "usecs ?d1 = usecs start + 600000" "usecs ?d2 = usecs start + 1800000"
    "usecs ?d3 = usecs start + 4200000" "usecs ?d4 = usecs start + 9000000"
    by (simp_all add: add_delay_usecs)
  have sec: "tv_sec ?d1 \<le> tv_sec start + 10" "tv_sec ?d2 \<le> tv_sec start + 10"
    "tv_sec ?d3 \<le> tv_sec start + 10" "tv_sec ?d4 \<le> tv_sec start + 10"
    using deadline_sec [OF d(1) assms(2)] deadline_sec [OF d(2) assms(2)]
      deadline_sec [OF d(3) assms(2)] deadline_sec [OF d(4) assms(2)] u by simp_all
  obtain e1 e2 e3 e4 rest where es: "es = e1 # e2 # e3 # e4 # rest"
    using assms(3) by (auto simp: numeral_eq_Suc Suc_le_length_iff)
  with assms(1) sec have
    "silent e1" "tv_sec ?d1 < tv_sec (ev_clock e1)" "silent e2" "tv_sec ?d2 < tv_sec (ev_clock e2)"
    "silent e3" "tv_sec ?d3 < tv_sec (ev_clock e3)" "silent e4" "tv_sec ?d4 < tv_sec (ev_clock e4)"
    by auto
  then show ?thesis
    using assms(4) by (simp add: es late_round stun_timer_start_def stun_trans_send_def Let_def word_le_nat_alt)
qed

end
