(* ===== verification/Ice_Types.thy ===== *)
theory Ice_Types
  imports Nice_Candidate Usage_Bind
begin

unbundle bit_operations_syntax

text \<open>
  The state of the ICE agent: candidates with their identities, candidate pairs, components,
  streams and the agent, from \<open>agent-priv.h\<close>, \<open>stream.h\<close>, \<open>component.h\<close>, \<open>conncheck.h\<close> and \<open>discovery.h\<close>, with
  the lookups and signals of \<open>agent.c\<close>, \<open>stream.c\<close> and \<open>component.c\<close>.

  Objects that the C code shares through pointers carry an identity (\<open>cand_ref\<close>, \<open>pair_ref\<close>, \<open>disc_ref\<close>,
  \<open>refr_ref\<close>), and a pointer comparison compares identities. A stream and a component are
  reached through their ids, which are unique; sockets and TURN servers are handles into tables of
  the agent. What the agent sends and signals is appended to a list of events. The clock, the
  transaction ids, GLib and the network are fields of an environment.
\<close>

section \<open>Strings\<close>

text \<open>A string in a fixed array, and what \<open>g_snprintf\<close> and \<open>g_strlcpy\<close> leave in an array of zeros.\<close>

definition cstr :: "bytes \<Rightarrow> bytes" where
  "cstr b = takeWhile (\<lambda>c. c \<noteq> 0) b"

definition store_cstr :: "nat \<Rightarrow> bytes \<Rightarrow> bytes" where
  "store_cstr n s = (let t = take (n - 1) s in t @ replicate (n - length t) 0)"

section \<open>Candidates, sockets and servers\<close>

datatype nice_compat =
    NICE_COMPATIBILITY_RFC5245
  | NICE_COMPATIBILITY_GOOGLE
  | NICE_COMPATIBILITY_MSN
  | NICE_COMPATIBILITY_WLM2009
  | NICE_COMPATIBILITY_OC2007
  | NICE_COMPATIBILITY_OC2007R2

datatype socket_type =
    NICE_SOCKET_TYPE_UDP_BSD
  | NICE_SOCKET_TYPE_TCP_BSD
  | NICE_SOCKET_TYPE_PSEUDOSSL
  | NICE_SOCKET_TYPE_HTTP
  | NICE_SOCKET_TYPE_SOCKS5
  | NICE_SOCKET_TYPE_UDP_TURN
  | NICE_SOCKET_TYPE_UDP_TURN_OVER_TCP
  | NICE_SOCKET_TYPE_TCP_ACTIVE
  | NICE_SOCKET_TYPE_TCP_PASSIVE
  | NICE_SOCKET_TYPE_TCP_SO

type_synonym socket_id = nat

record nice_socket =
  sock_type :: socket_type
  sock_addr :: sockaddr
  sock_fileno :: bool
  sock_reliable :: bool
  sock_ms_realm :: bytes
  sock_ms_connection :: "(bytes \<times> u32) option"

record turn_server =
  ts_server :: sockaddr
  ts_username :: bytes
  ts_password :: bytes
  ts_udp :: bool

record candidate = nice_candidate +
  cand_ref :: nat

definition same_cand :: "candidate \<Rightarrow> candidate \<Rightarrow> bool" where
  "same_cand c d \<longleftrightarrow> cand_ref c = cand_ref d"

abbreviation (input) NICE_CANDIDATE_MAX_FOUNDATION :: nat where "NICE_CANDIDATE_MAX_FOUNDATION \<equiv> 33"
abbreviation (input) NICE_CANDIDATE_PAIR_MAX_FOUNDATION :: nat where
  "NICE_CANDIDATE_PAIR_MAX_FOUNDATION \<equiv> 66"
abbreviation (input) NICE_AGENT_MAX_REMOTE_CANDIDATES :: nat where "NICE_AGENT_MAX_REMOTE_CANDIDATES \<equiv> 25"
abbreviation (input) NICE_STREAM_MAX_UNAME :: nat where "NICE_STREAM_MAX_UNAME \<equiv> 514"
abbreviation (input) STUN_MAX_MESSAGE_SIZE_IPV6 :: nat where "STUN_MAX_MESSAGE_SIZE_IPV6 \<equiv> 1280"
abbreviation (input) MAX_STUN_DATAGRAM_PAYLOAD :: nat where "MAX_STUN_DATAGRAM_PAYLOAD \<equiv> 1300"

section \<open>Pairs, components, streams\<close>

datatype check_state =
    NICE_CHECK_WAITING
  | NICE_CHECK_IN_PROGRESS
  | NICE_CHECK_SUCCEEDED
  | NICE_CHECK_FAILED
  | NICE_CHECK_FROZEN
  | NICE_CHECK_CANCELLED
  | NICE_CHECK_DISCOVERED

datatype component_state =
    NICE_COMPONENT_STATE_DISCONNECTED
  | NICE_COMPONENT_STATE_GATHERING
  | NICE_COMPONENT_STATE_CONNECTING
  | NICE_COMPONENT_STATE_CONNECTED
  | NICE_COMPONENT_STATE_READY
  | NICE_COMPONENT_STATE_FAILED

fun component_state_val :: "component_state \<Rightarrow> nat" where
  "component_state_val NICE_COMPONENT_STATE_DISCONNECTED = 0"
| "component_state_val NICE_COMPONENT_STATE_GATHERING = 1"
| "component_state_val NICE_COMPONENT_STATE_CONNECTING = 2"
| "component_state_val NICE_COMPONENT_STATE_CONNECTED = 3"
| "component_state_val NICE_COMPONENT_STATE_READY = 4"
| "component_state_val NICE_COMPONENT_STATE_FAILED = 5"

text \<open>\<open>stun_message.buffer\<close> is null when \<open>pair_message\<close> is \<open>None\<close>; the buffer is the pair's own.\<close>

record check_pair =
  pair_ref :: nat
  pair_stream :: u32
  pair_component :: u32
  pair_local :: candidate
  pair_remote :: candidate
  pair_sock :: "socket_id option"
  pair_foundation :: bytes
  pair_state :: check_state
  pair_nominated :: bool
  pair_controlling :: bool
  pair_timer_restarted :: bool
  pair_priority :: u64
  pair_next_tick :: timeval
  pair_timer :: stun_timer
  pair_message :: "stun_message option"

record incoming_check =
  ic_from :: sockaddr
  ic_socket :: socket_id
  ic_priority :: u32
  ic_use_candidate :: bool
  ic_username :: "bytes option"

record selected_pair =
  sel_local :: "candidate option"
  sel_remote :: "candidate option"
  sel_priority :: u64
  sel_tick :: bool
  sel_timer :: stun_timer
  sel_message :: "stun_message option"

record ice_component =
  comp_id :: u32
  comp_state :: component_state
  comp_local :: "candidate list"
  comp_remote :: "candidate list"
  comp_incoming :: "incoming_check list"
  comp_selected :: selected_pair
  comp_restart :: "candidate option"
  comp_turn :: "candidate option"
  comp_agent :: stun_agent
  comp_sockets :: "socket_id list"

record ice_stream =
  strm_id :: u32
  strm_n_components :: nat
  strm_binding_received :: bool
  strm_gathering :: bool
  strm_components :: "ice_component list"
  strm_checks :: "check_pair list"
  strm_local_ufrag :: bytes
  strm_local_password :: bytes
  strm_remote_ufrag :: bytes
  strm_remote_password :: bytes

record discovery =
  disc_ref :: nat
  disc_type :: candidate_type
  disc_socket :: socket_id
  disc_server :: sockaddr
  disc_next_tick :: timeval
  disc_pending :: bool
  disc_done :: bool
  disc_stream :: u32
  disc_component :: u32
  disc_turn :: "nat option"
  disc_agent :: stun_agent
  disc_timer :: stun_timer
  disc_message :: "stun_message option"
  disc_resp :: "stun_message option"

record refresh =
  refr_ref :: nat
  refr_socket :: socket_id
  refr_server :: sockaddr
  refr_candidate :: candidate
  refr_stream :: u32
  refr_component :: u32
  refr_agent :: stun_agent
  refr_timer_source :: "u32 option"
  refr_tick_source :: bool
  refr_timer :: stun_timer
  refr_message :: "stun_message option"
  refr_resp :: "stun_message option"

section \<open>The agent\<close>

datatype ice_event =
    Sent socket_id sockaddr bytes
  | Component_state u32 u32 component_state
  | New_selected_pair u32 u32 candidate candidate
  | New_candidate candidate
  | New_remote_candidate candidate
  | Binding_request_received u32
  | Turn_peer socket_id sockaddr
  | Tcp_process_queued u32 u32
  | Tcp_start u32 u32
  | Socket_writable u32 u32
  | Gathering_done u32

record nice_agent =
  ag_compat :: nice_compat
  ag_controlling :: bool
  ag_timer_ta :: u32
  ag_max_checks :: nat
  ag_streams :: "ice_stream list"
  ag_next_candidate_id :: u32
  ag_discovery :: "discovery list"
  ag_unsched :: nat
  ag_refresh :: "refresh list"
  ag_discovery_timer :: bool
  ag_check_timer :: bool
  ag_keepalive_timer :: bool
  ag_tie_breaker :: u64
  ag_media_after_tick :: bool
  ag_software :: "bytes option"
  ag_reliable :: bool
  ag_keepalive_conncheck :: bool
  ag_use_ice_tcp :: bool
  ag_stun_server :: "sockaddr option"
  ag_sockets :: "socket_id \<Rightarrow> nice_socket"
  ag_turns :: "nat \<Rightarrow> turn_server"
  ag_next_ref :: nat
  ag_draws :: nat
  ag_clock :: nat
  ag_events :: "ice_event list"

text \<open>
  The environment. \<open>env_transid\<close> and \<open>env_time\<close> are the successive transaction ids and clock
  readings; \<open>g_time_val_add\<close>, \<open>g_slist_insert_sorted\<close> and the base 64 functions are GLib's;
  \<open>env_connect\<close> is the socket that a TCP-active socket opens to an address, \<open>env_socket\<close> the handles of
  the sockets the agent makes itself, \<open>env_random\<close> the random bytes for the credentials of a candidate;
  \<open>env_message\<close>, \<open>env_agent\<close>, \<open>env_buffer\<close> and \<open>env_lifetime\<close> are what uninitialised
  variables hold.
\<close>

record ice_env =
  env_stun :: stun_env
  env_transid :: "nat \<Rightarrow> bytes"
  env_time :: "nat \<Rightarrow> timeval"
  env_time_add :: "timeval \<Rightarrow> int \<Rightarrow> timeval"
  env_insert_sorted :: "(check_pair \<Rightarrow> check_pair \<Rightarrow> int) \<Rightarrow> check_pair list \<Rightarrow> check_pair \<Rightarrow> check_pair list"
  env_decode :: "bytes \<Rightarrow> bytes"
  env_encode :: "bytes \<Rightarrow> bytes"
  env_connect :: "socket_id \<Rightarrow> sockaddr \<Rightarrow> (socket_id \<times> nice_socket) option"
  env_socket :: "nat \<Rightarrow> socket_id"
  env_random :: "nat \<Rightarrow> bytes \<times> bytes"
  env_message :: stun_message
  env_agent :: stun_agent
  env_buffer :: "nat \<Rightarrow> bytes"
  env_lifetime :: u32

definition emit :: "ice_event \<Rightarrow> nice_agent \<Rightarrow> nice_agent" where
  "emit e a = a\<lparr>ag_events := ag_events a @ [e]\<rparr>"

definition read_clock :: "ice_env \<Rightarrow> nice_agent \<Rightarrow> timeval \<times> nice_agent" where
  "read_clock env a = (env_time env (ag_clock a), a\<lparr>ag_clock := ag_clock a + 1\<rparr>)"

definition fresh_id :: "ice_env \<Rightarrow> nice_agent \<Rightarrow> bytes \<times> nice_agent" where
  "fresh_id env a = (env_transid env (ag_draws a), a\<lparr>ag_draws := ag_draws a + 1\<rparr>)"

definition fresh_ref :: "nice_agent \<Rightarrow> nat \<times> nice_agent" where
  "fresh_ref a = (ag_next_ref a, a\<lparr>ag_next_ref := ag_next_ref a + 1\<rparr>)"

subsection \<open>Lookups and updates\<close>

definition agent_find_stream :: "nice_agent \<Rightarrow> u32 \<Rightarrow> ice_stream option" where
  "agent_find_stream a sid = find (\<lambda>s. strm_id s = sid) (ag_streams a)"

definition stream_find_component_by_id :: "ice_stream \<Rightarrow> u32 \<Rightarrow> ice_component option" where
  "stream_find_component_by_id s cid = find (\<lambda>c. comp_id c = cid) (strm_components s)"

definition agent_find_component :: "nice_agent \<Rightarrow> u32 \<Rightarrow> u32 \<Rightarrow> (ice_stream \<times> ice_component) option" where
  "agent_find_component a sid cid = do {
     s \<leftarrow> agent_find_stream a sid;
     c \<leftarrow> stream_find_component_by_id s cid;
     Some (s, c) }"

definition update_stream :: "u32 \<Rightarrow> (ice_stream \<Rightarrow> ice_stream) \<Rightarrow> nice_agent \<Rightarrow> nice_agent" where
  "update_stream sid f a =
     a\<lparr>ag_streams := map (\<lambda>s. if strm_id s = sid then f s else s) (ag_streams a)\<rparr>"

definition update_component ::
    "u32 \<Rightarrow> u32 \<Rightarrow> (ice_component \<Rightarrow> ice_component) \<Rightarrow> nice_agent \<Rightarrow> nice_agent" where
  "update_component sid cid f = update_stream sid (\<lambda>s. s\<lparr>strm_components :=
     map (\<lambda>c. if comp_id c = cid then f c else c) (strm_components s)\<rparr>)"

definition update_checks :: "u32 \<Rightarrow> (check_pair list \<Rightarrow> check_pair list) \<Rightarrow> nice_agent \<Rightarrow> nice_agent" where
  "update_checks sid f = update_stream sid (\<lambda>s. s\<lparr>strm_checks := f (strm_checks s)\<rparr>)"

definition set_pair :: "nat \<Rightarrow> (check_pair \<Rightarrow> check_pair) \<Rightarrow> check_pair list \<Rightarrow> check_pair list" where
  "set_pair r f = map (\<lambda>p. if pair_ref p = r then f p else p)"

definition update_pair :: "u32 \<Rightarrow> nat \<Rightarrow> (check_pair \<Rightarrow> check_pair) \<Rightarrow> nice_agent \<Rightarrow> nice_agent" where
  "update_pair sid r f = update_checks sid (set_pair r f)"

definition find_pair :: "nice_agent \<Rightarrow> u32 \<Rightarrow> nat \<Rightarrow> check_pair option" where
  "find_pair a sid r = do {
     s \<leftarrow> agent_find_stream a sid;
     find (\<lambda>p. pair_ref p = r) (strm_checks s) }"

subsection \<open>Dialects\<close>

fun agent_to_ice_compatibility :: "nice_compat \<Rightarrow> ice_compat" where
  "agent_to_ice_compatibility NICE_COMPATIBILITY_GOOGLE = STUN_USAGE_ICE_COMPATIBILITY_GOOGLE"
| "agent_to_ice_compatibility NICE_COMPATIBILITY_MSN = STUN_USAGE_ICE_COMPATIBILITY_MSN"
| "agent_to_ice_compatibility NICE_COMPATIBILITY_WLM2009 = STUN_USAGE_ICE_COMPATIBILITY_WLM2009"
| "agent_to_ice_compatibility NICE_COMPATIBILITY_OC2007 = STUN_USAGE_ICE_COMPATIBILITY_MSN"
| "agent_to_ice_compatibility NICE_COMPATIBILITY_OC2007R2 = STUN_USAGE_ICE_COMPATIBILITY_WLM2009"
| "agent_to_ice_compatibility NICE_COMPATIBILITY_RFC5245 = STUN_USAGE_ICE_COMPATIBILITY_RFC5245"

fun agent_to_turn_compatibility :: "nice_compat \<Rightarrow> turn_compat" where
  "agent_to_turn_compatibility NICE_COMPATIBILITY_GOOGLE = STUN_USAGE_TURN_COMPATIBILITY_GOOGLE"
| "agent_to_turn_compatibility NICE_COMPATIBILITY_MSN = STUN_USAGE_TURN_COMPATIBILITY_MSN"
| "agent_to_turn_compatibility NICE_COMPATIBILITY_WLM2009 = STUN_USAGE_TURN_COMPATIBILITY_MSN"
| "agent_to_turn_compatibility NICE_COMPATIBILITY_OC2007 = STUN_USAGE_TURN_COMPATIBILITY_OC2007"
| "agent_to_turn_compatibility NICE_COMPATIBILITY_OC2007R2 = STUN_USAGE_TURN_COMPATIBILITY_OC2007"
| "agent_to_turn_compatibility NICE_COMPATIBILITY_RFC5245 = STUN_USAGE_TURN_COMPATIBILITY_RFC5766"

definition msn_like :: "nice_compat \<Rightarrow> bool" where
  "msn_like c \<longleftrightarrow> c = NICE_COMPATIBILITY_MSN \<or> c = NICE_COMPATIBILITY_OC2007"

definition ice_like :: "nice_compat \<Rightarrow> bool" where
  "ice_like c \<longleftrightarrow> c = NICE_COMPATIBILITY_RFC5245 \<or> c = NICE_COMPATIBILITY_WLM2009 \<or>
     c = NICE_COMPATIBILITY_OC2007R2"

definition nice_agent_init_stun_agent :: "nice_agent \<Rightarrow> stun_agent \<Rightarrow> stun_agent" where
  "nice_agent_init_stun_agent a sa =
    (let init = stun_agent_init sa STUN_ALL_KNOWN_ATTRIBUTES in
     stun_agent_set_software (case ag_compat a of
         NICE_COMPATIBILITY_GOOGLE \<Rightarrow> init STUN_COMPATIBILITY_RFC3489
           (STUN_AGENT_USAGE_SHORT_TERM_CREDENTIALS OR STUN_AGENT_USAGE_IGNORE_CREDENTIALS)
       | NICE_COMPATIBILITY_MSN \<Rightarrow> init STUN_COMPATIBILITY_RFC3489
           (STUN_AGENT_USAGE_SHORT_TERM_CREDENTIALS OR STUN_AGENT_USAGE_FORCE_VALIDATER)
       | NICE_COMPATIBILITY_WLM2009 \<Rightarrow> init STUN_COMPATIBILITY_WLM2009
           (STUN_AGENT_USAGE_SHORT_TERM_CREDENTIALS OR STUN_AGENT_USAGE_USE_FINGERPRINT)
       | NICE_COMPATIBILITY_OC2007 \<Rightarrow> init STUN_COMPATIBILITY_RFC3489
           (STUN_AGENT_USAGE_SHORT_TERM_CREDENTIALS OR STUN_AGENT_USAGE_FORCE_VALIDATER OR
            STUN_AGENT_USAGE_NO_ALIGNED_ATTRIBUTES)
       | NICE_COMPATIBILITY_OC2007R2 \<Rightarrow> init STUN_COMPATIBILITY_WLM2009
           (STUN_AGENT_USAGE_SHORT_TERM_CREDENTIALS OR STUN_AGENT_USAGE_USE_FINGERPRINT OR
            STUN_AGENT_USAGE_NO_ALIGNED_ATTRIBUTES)
       | NICE_COMPATIBILITY_RFC5245 \<Rightarrow> init STUN_COMPATIBILITY_RFC5389
           (STUN_AGENT_USAGE_SHORT_TERM_CREDENTIALS OR STUN_AGENT_USAGE_USE_FINGERPRINT))
       (ag_software a))"

definition agent_candidate_pair_priority :: "nice_agent \<Rightarrow> candidate \<Rightarrow> candidate \<Rightarrow> u64" where
  "agent_candidate_pair_priority a l r =
    (if ag_controlling a then nice_candidate_pair_priority (priority l) (priority r)
     else nice_candidate_pair_priority (priority r) (priority l))"

subsection \<open>Signals\<close>

text \<open>In reliable mode the queued packets of the pseudo-TCP socket are processed first.\<close>

definition agent_signal_component_state_change ::
    "u32 \<Rightarrow> u32 \<Rightarrow> component_state \<Rightarrow> nice_agent \<Rightarrow> nice_agent" where
  "agent_signal_component_state_change sid cid st a =
    (case agent_find_component a sid cid of
       None \<Rightarrow> a
     | Some (s, c) \<Rightarrow>
         if comp_state c \<noteq> st then
           let a1 = update_component sid cid (\<lambda>c. c\<lparr>comp_state := st\<rparr>) a;
               a2 = (if ag_reliable a then emit (Tcp_process_queued sid cid) a1 else a1)
           in emit (Component_state sid cid st) a2
         else a)"

definition agent_signal_new_selected_pair ::
    "u32 \<Rightarrow> u32 \<Rightarrow> candidate \<Rightarrow> candidate \<Rightarrow> nice_agent \<Rightarrow> nice_agent option" where
  "agent_signal_new_selected_pair sid cid l r a =
    (case agent_find_component a sid cid of
       None \<Rightarrow> Some a
     | Some (s, c) \<Rightarrow> do {
         k \<leftarrow> sockptr l;
         let sock = ag_sockets a k;
         let a1 = (if sock_type sock = NICE_SOCKET_TYPE_UDP_TURN then emit (Turn_peer k (addr r)) a else a);
         let a2 = (if ag_reliable a \<and> \<not> sock_reliable sock
           then emit (Tcp_start sid cid) (emit (Tcp_process_queued sid cid) a1) else a1);
         let a3 = emit (New_selected_pair sid cid l r) a2;
         Some (if ag_reliable a \<and> sock_reliable sock then emit (Socket_writable sid cid) a3 else a3) })"

definition agent_signal_initial_binding_request_received :: "u32 \<Rightarrow> nice_agent \<Rightarrow> nice_agent" where
  "agent_signal_initial_binding_request_received sid a =
    (case agent_find_stream a sid of
       None \<Rightarrow> a
     | Some s \<Rightarrow>
         if strm_binding_received s then a
         else emit (Binding_request_received sid)
           (update_stream sid (\<lambda>s. s\<lparr>strm_binding_received := True\<rparr>) a))"

text \<open>A packet on a reliable socket is framed with its length, as RFC 4571 requires.\<close>

definition agent_socket_send :: "socket_id \<Rightarrow> sockaddr \<Rightarrow> bytes \<Rightarrow> nice_agent \<Rightarrow> nice_agent" where
  "agent_socket_send k to buf a =
     emit (Sent k to (if sock_reliable (ag_sockets a k)
       then [of_nat (length buf div 256), of_nat (length buf)] @ buf else buf)) a"

section \<open>Streams and components\<close>

text \<open>All components are connected or ready.\<close>

definition stream_all_components_ready :: "ice_stream \<Rightarrow> bool" where
  "stream_all_components_ready s \<longleftrightarrow> list_all (\<lambda>c. comp_state c = NICE_COMPONENT_STATE_CONNECTED \<or>
     comp_state c = NICE_COMPONENT_STATE_READY) (strm_components s)"

definition no_timer :: stun_timer where
  "no_timer = \<lparr>deadline = \<lparr>tv_sec = 0, tv_usec = 0\<rparr>, delay = 0, retransmissions = 0, max_retransmissions = 0\<rparr>"

definition no_pair :: selected_pair where
  "no_pair = \<lparr>sel_local = None, sel_remote = None, sel_priority = 0, sel_tick = False,
     sel_timer = no_timer, sel_message = None\<rparr>"

definition component_clear_selected_pair :: "ice_component \<Rightarrow> ice_component" where
  "component_clear_selected_pair c = c\<lparr>comp_selected := no_pair\<rparr>"

definition component_new :: "nice_agent \<Rightarrow> u32 \<Rightarrow> stun_agent \<Rightarrow> ice_component" where
  "component_new a cid sa = \<lparr>comp_id = cid, comp_state = NICE_COMPONENT_STATE_DISCONNECTED, comp_local = [],
     comp_remote = [], comp_incoming = [], comp_selected = no_pair, comp_restart = None, comp_turn = None,
     comp_agent = nice_agent_init_stun_agent a sa, comp_sockets = []\<rparr>"

definition stream_new :: "nice_agent \<Rightarrow> nat \<Rightarrow> stun_agent \<Rightarrow> ice_stream" where
  "stream_new a n sa = \<lparr>strm_id = 0, strm_n_components = n, strm_binding_received = False,
     strm_gathering = False,
     strm_components = map (\<lambda>i. component_new a (of_nat (i + 1)) sa) [0..<n], strm_checks = [],
     strm_local_ufrag = [], strm_local_password = [], strm_remote_ufrag = [], strm_remote_password = []\<rparr>"

text \<open>The pair of the first candidates with the given foundations, and its priority.\<close>

definition same_foundation :: "bytes \<Rightarrow> bytes \<Rightarrow> bool" where
  "same_foundation f g \<longleftrightarrow>
     take NICE_CANDIDATE_MAX_FOUNDATION (cstr f) = take NICE_CANDIDATE_MAX_FOUNDATION (cstr g)"

definition component_find_pair ::
    "nice_agent \<Rightarrow> ice_component \<Rightarrow> bytes \<Rightarrow> bytes \<Rightarrow> (candidate \<times> candidate \<times> u64) option" where
  "component_find_pair a c lf rf =
    (case (find (\<lambda>x. same_foundation (foundation x) lf) (comp_local c),
           find (\<lambda>x. same_foundation (foundation x) rf) (comp_remote c)) of
       (Some l, Some r) \<Rightarrow> Some (l, r, agent_candidate_pair_priority a l r)
     | _ \<Rightarrow> None)"

definition component_find_remote_candidate ::
    "ice_component \<Rightarrow> sockaddr \<Rightarrow> candidate_transport \<Rightarrow> candidate option" where
  "component_find_remote_candidate c to t =
     find (\<lambda>x. nice_address_equal (addr x) to \<and> transport x = t) (comp_remote c)"

definition component_restart :: "ice_component \<Rightarrow> ice_component" where
  "component_restart c =
    (let kept = filter (\<lambda>x. case sel_remote (comp_selected c) of None \<Rightarrow> False | Some r \<Rightarrow> same_cand x r)
           (comp_remote c) in
     c\<lparr>comp_restart := (if kept = [] then comp_restart c else Some (last kept)), comp_remote := [],
       comp_incoming := [], comp_selected := (comp_selected c)\<lparr>sel_priority := 0\<rparr>\<rparr>)"

definition component_attach_socket :: "nice_socket \<Rightarrow> socket_id \<Rightarrow> ice_component \<Rightarrow> ice_component" where
  "component_attach_socket sock k c =
    (if \<not> sock_fileno sock \<or> k \<in> set (comp_sockets c) then c
     else c\<lparr>comp_sockets := k # comp_sockets c\<rparr>)"

definition component_detach_socket :: "socket_id \<Rightarrow> ice_component \<Rightarrow> ice_component" where
  "component_detach_socket k c =
     c\<lparr>comp_incoming := filter (\<lambda>i. ic_socket i \<noteq> k) (comp_incoming c),
       comp_sockets := remove1 k (comp_sockets c)\<rparr>"

end
