(* ===== verification/Ice_Checklist.thy ===== *)
theory Ice_Checklist
  imports Ice_Types
begin

unbundle bit_operations_syntax

text \<open>
  The check lists of \<open>agent/conncheck.c\<close>: order, insertion with the upper limit, pruning, finding and
  unfreezing pairs, and the selection of the pairs that are still worth checking once one has been
  nominated.
\<close>

section \<open>Definitions\<close>

definition priv_timer_expired :: "timeval \<Rightarrow> timeval \<Rightarrow> bool" where
  "priv_timer_expired timer t =
    (if tv_sec t = tv_sec timer then tv_usec t \<ge> tv_usec timer else tv_sec t \<ge> tv_sec timer)"

definition conn_check_compare :: "check_pair \<Rightarrow> check_pair \<Rightarrow> int" where
  "conn_check_compare p q =
    (if pair_priority p > pair_priority q then -1 else if pair_priority p < pair_priority q then 1 else 0)"

definition priv_conn_check_find_next_waiting :: "check_pair list \<Rightarrow> check_pair option" where
  "priv_conn_check_find_next_waiting = find (\<lambda>p. pair_state p = NICE_CHECK_WAITING)"

text \<open>The loop over one list: the frozen pair of the highest priority above \<open>hi\<close>.\<close>

fun highest_frozen :: "u64 \<Rightarrow> check_pair option \<Rightarrow> check_pair list \<Rightarrow> check_pair option" where
  "highest_frozen hi best [] = best"
| "highest_frozen hi best (p # ps) =
    (if pair_state p = NICE_CHECK_FROZEN \<and> hi < pair_priority p
     then highest_frozen (pair_priority p) (Some p) ps
     else highest_frozen hi best ps)"

fun first_frozen :: "ice_stream list \<Rightarrow> (u32 \<times> check_pair) option" where
  "first_frozen [] = None"
| "first_frozen (s # ss) =
    (case highest_frozen 0 None (strm_checks s) of
       Some p \<Rightarrow> Some (strm_id s, p) | None \<Rightarrow> first_frozen ss)"

definition set_state :: "check_state \<Rightarrow> check_pair \<Rightarrow> check_pair" where
  "set_state st p = p\<lparr>pair_state := st\<rparr>"

definition clear_message :: "check_pair \<Rightarrow> check_pair" where
  "clear_message p = p\<lparr>pair_message := None\<rparr>"

definition priv_conn_check_unfreeze_next :: "nice_agent \<Rightarrow> bool \<times> nice_agent" where
  "priv_conn_check_unfreeze_next a =
    (case first_frozen (ag_streams a) of
       None \<Rightarrow> (False, a)
     | Some (sid, p) \<Rightarrow> (True, update_pair sid (pair_ref p) (set_state NICE_CHECK_WAITING) a))"

text \<open>The frozen pairs of a list that share the foundation of a pair that has succeeded.\<close>

definition unfreezes :: "check_pair \<Rightarrow> check_pair \<Rightarrow> bool" where
  "unfreezes ok p \<longleftrightarrow> pair_state p = NICE_CHECK_FROZEN \<and> cstr (pair_foundation p) = cstr (pair_foundation ok)"

definition unfreeze_where :: "(check_pair \<Rightarrow> bool) \<Rightarrow> check_pair list \<Rightarrow> check_pair list" where
  "unfreeze_where P = map (\<lambda>p. if P p then set_state NICE_CHECK_WAITING p else p)"

text \<open>
  Step 2 looks for pairs of other streams in the list of the pair's own stream, once for each stream,
  and stops after the first round that has unfrozen something (counting step 1).
\<close>

fun unfreeze_others :: "check_pair \<Rightarrow> u32 list \<Rightarrow> nat \<Rightarrow> check_pair list \<Rightarrow> nat \<times> check_pair list" where
  "unfreeze_others ok [] n ps = (n, ps)"
| "unfreeze_others ok (sid # sids) n ps =
    (let P = (\<lambda>p. pair_stream p = sid \<and> pair_stream p \<noteq> pair_stream ok \<and> unfreezes ok p);
         n' = n + length (filter P ps); ps' = unfreeze_where P ps
     in if n' > 0 then (n', ps') else unfreeze_others ok sids n' ps')"

definition priv_conn_check_unfreeze_related :: "u32 \<Rightarrow> check_pair \<Rightarrow> nice_agent \<Rightarrow> nice_agent option" where
  "priv_conn_check_unfreeze_related sid ok a =
    (if pair_state ok \<noteq> NICE_CHECK_SUCCEEDED \<or> sid \<noteq> pair_stream ok then None
     else do {
       s \<leftarrow> agent_find_stream a sid;
       let P = (\<lambda>p. pair_stream p = pair_stream ok \<and> unfreezes ok p);
       let n = length (filter P (strm_checks s));
       let ps = unfreeze_where P (strm_checks s);
       let (n2, ps2) = (if stream_all_components_ready s
         then unfreeze_others ok (map strm_id (ag_streams a)) n ps else (n, ps));
       let a1 = update_checks sid (\<lambda>_. ps2) a;
       Some (if n2 = 0 then snd (priv_conn_check_unfreeze_next a1) else a1) })"

text \<open>A check that is given up: its transaction is forgotten.\<close>

definition candidate_check_pair_fail :: "u32 \<Rightarrow> nat \<Rightarrow> nice_agent \<Rightarrow> nice_agent option" where
  "candidate_check_pair_fail sid r a = do {
     s \<leftarrow> agent_find_stream a sid;
     p \<leftarrow> find_pair a sid r;
     let a1 = update_pair sid r (clear_message \<circ> set_state NICE_CHECK_FAILED) a;
     case pair_message p of
       None \<Rightarrow> Some a1
     | Some m \<Rightarrow> do {
         i \<leftarrow> stun_message_id m;
         c \<leftarrow> stream_find_component_by_id s (pair_component p);
         Some (update_component sid (comp_id c)
           (\<lambda>c. c\<lparr>comp_agent := snd (stun_agent_forget_transaction (comp_agent c) i)\<rparr>) a1) } }"

definition prune_cancelled_conn_check :: "check_pair list \<Rightarrow> check_pair list" where
  "prune_cancelled_conn_check = filter (\<lambda>p. pair_state p \<noteq> NICE_CHECK_CANCELLED)"

fun limit_checks :: "nat \<Rightarrow> nat \<Rightarrow> check_pair list \<Rightarrow> check_pair list" where
  "limit_checks limit valid [] = []"
| "limit_checks limit valid (p # ps) =
    (if pair_state p \<noteq> NICE_CHECK_CANCELLED
     then (if valid + 1 > limit then set_state NICE_CHECK_CANCELLED p else p)
       # limit_checks limit (valid + 1) ps
     else p # limit_checks limit valid ps)"

definition priv_limit_conn_check_list_size :: "check_pair list \<Rightarrow> nat \<Rightarrow> check_pair list" where
  "priv_limit_conn_check_list_size ps limit = limit_checks limit 0 ps"

text \<open>The foundation of a pair: \<open>%s:%s\<close>.\<close>

definition join_foundations :: "bytes \<Rightarrow> bytes \<Rightarrow> bytes" where
  "join_foundations l r = store_cstr NICE_CANDIDATE_PAIR_MAX_FOUNDATION (cstr l @ [0x3a] @ cstr r)"

definition new_pair ::
    "nice_agent \<Rightarrow> u32 \<Rightarrow> u32 \<Rightarrow> candidate \<Rightarrow> candidate \<Rightarrow> socket_id option \<Rightarrow> check_state \<Rightarrow> bool \<Rightarrow> u64 \<Rightarrow> check_pair" where
  "new_pair a sid cid l r k st nominated prio =
     \<lparr>pair_ref = ag_next_ref a, pair_stream = sid, pair_component = cid, pair_local = l, pair_remote = r,
      pair_sock = k, pair_foundation = join_foundations (foundation l) (foundation r), pair_state = st,
      pair_nominated = nominated, pair_controlling = ag_controlling a, pair_timer_restarted = False,
      pair_priority = prio, pair_next_tick = \<lparr>tv_sec = 0, tv_usec = 0\<rparr>, pair_timer = no_timer,
      pair_message = None\<rparr>"

definition insert_pair :: "ice_env \<Rightarrow> check_pair \<Rightarrow> nice_agent \<Rightarrow> nice_agent" where
  "insert_pair env p a = (update_checks (pair_stream p)
     (\<lambda>ps. env_insert_sorted env conn_check_compare ps p) a)\<lparr>ag_next_ref := ag_next_ref a + 1\<rparr>"

definition priv_add_new_check_pair ::
    "ice_env \<Rightarrow> u32 \<Rightarrow> u32 \<Rightarrow> candidate \<Rightarrow> candidate \<Rightarrow> check_state \<Rightarrow> bool \<Rightarrow> nice_agent \<Rightarrow> nice_agent option" where
  "priv_add_new_check_pair env sid cid l r st use_candidate a = do {
     _ \<leftarrow> agent_find_stream a sid;
     let k = (if cand_type r = NICE_CANDIDATE_TYPE_PEER_REFLEXIVE then sockptr r else sockptr l);
     let a1 = insert_pair env (new_pair a sid cid l r k st use_candidate
       (agent_candidate_pair_priority a l r)) a;
     Some (if ag_compat a = NICE_COMPATIBILITY_RFC5245
       then update_checks sid (\<lambda>ps. priv_limit_conn_check_list_size ps (ag_max_checks a)) a1 else a1) }"

fun conn_check_match_transport :: "candidate_transport \<Rightarrow> candidate_transport" where
  "conn_check_match_transport NICE_CANDIDATE_TRANSPORT_TCP_ACTIVE = NICE_CANDIDATE_TRANSPORT_TCP_PASSIVE"
| "conn_check_match_transport NICE_CANDIDATE_TRANSPORT_TCP_PASSIVE = NICE_CANDIDATE_TRANSPORT_TCP_ACTIVE"
| "conn_check_match_transport t = t"

definition priv_conn_check_add_for_candidate_pair_matched ::
    "ice_env \<Rightarrow> u32 \<Rightarrow> u32 \<Rightarrow> candidate \<Rightarrow> candidate \<Rightarrow> check_state \<Rightarrow> nice_agent \<Rightarrow> nice_agent option" where
  "priv_conn_check_add_for_candidate_pair_matched env sid cid l r st a = do {
     a1 \<leftarrow> priv_add_new_check_pair env sid cid l r st False a;
     (_, c) \<leftarrow> agent_find_component a1 sid cid;
     Some (agent_signal_component_state_change sid cid
       (if comp_state c = NICE_COMPONENT_STATE_CONNECTED \<or> comp_state c = NICE_COMPONENT_STATE_READY
        then NICE_COMPONENT_STATE_CONNECTED else NICE_COMPONENT_STATE_CONNECTING) a1) }"

fun same_family :: "sockaddr \<Rightarrow> sockaddr \<Rightarrow> bool" where
  "same_family (AF_INET _) (AF_INET _) = True"
| "same_family (AF_INET6 _) (AF_INET6 _) = True"
| "same_family (AF_OTHER f) (AF_OTHER g) = (f = g)"
| "same_family _ _ = False"

text \<open>Pairs that are never formed: a reflexive local candidate, a passive one, candidates that do not match.\<close>

definition pairs_with :: "nice_compat \<Rightarrow> candidate \<Rightarrow> candidate \<Rightarrow> bool" where
  "pairs_with dialect l r \<longleftrightarrow>
     \<not> (ice_like dialect \<and> cand_type l = NICE_CANDIDATE_TYPE_SERVER_REFLEXIVE) \<and>
     transport l \<noteq> NICE_CANDIDATE_TRANSPORT_TCP_PASSIVE \<and>
     transport l = conn_check_match_transport (transport r) \<and> same_family (addr l) (addr r)"

definition conn_check_add_for_candidate_pair ::
    "ice_env \<Rightarrow> u32 \<Rightarrow> u32 \<Rightarrow> candidate \<Rightarrow> candidate \<Rightarrow> nice_agent \<Rightarrow> (bool \<times> nice_agent) option" where
  "conn_check_add_for_candidate_pair env sid cid l r a =
    (if pairs_with (ag_compat a) l r
     then do { a1 \<leftarrow> priv_conn_check_add_for_candidate_pair_matched env sid cid l r NICE_CHECK_FROZEN a;
               Some (True, a1) }
     else Some (False, a))"

text \<open>The pairs of a list of candidates, added one after the other; the number of pairs that were formed.\<close>

fun add_pairs ::
    "ice_env \<Rightarrow> u32 \<Rightarrow> u32 \<Rightarrow> (candidate \<times> candidate) list \<Rightarrow> nice_agent \<Rightarrow> (nat \<times> nice_agent) option" where
  "add_pairs env sid cid [] a = Some (0, a)"
| "add_pairs env sid cid ((l, r) # ps) a = do {
     (added, a1) \<leftarrow> conn_check_add_for_candidate_pair env sid cid l r a;
     (n, a2) \<leftarrow> add_pairs env sid cid ps a1;
     Some (if added then n + 1 else n, a2) }"

definition conn_check_add_for_candidate ::
    "ice_env \<Rightarrow> u32 \<Rightarrow> u32 \<Rightarrow> candidate \<Rightarrow> nice_agent \<Rightarrow> (nat \<times> nice_agent) option" where
  "conn_check_add_for_candidate env sid cid r a = do {
     (_, c) \<leftarrow> agent_find_component a sid cid;
     add_pairs env sid cid (map (\<lambda>l. (l, r)) (comp_local c)) a }"

definition conn_check_add_for_local_candidate ::
    "ice_env \<Rightarrow> u32 \<Rightarrow> u32 \<Rightarrow> candidate \<Rightarrow> nice_agent \<Rightarrow> (nat \<times> nice_agent) option" where
  "conn_check_add_for_local_candidate env sid cid l a = do {
     (_, c) \<leftarrow> agent_find_component a sid cid;
     add_pairs env sid cid (map (\<lambda>r. (l, r)) (comp_remote c)) a }"

subsection \<open>Ending checks\<close>

definition conn_check_stop :: "nice_agent \<Rightarrow> nice_agent" where
  "conn_check_stop a = a\<lparr>ag_check_timer := False\<rparr>"

definition conn_check_free :: "nice_agent \<Rightarrow> nice_agent" where
  "conn_check_free a =
     conn_check_stop (a\<lparr>ag_streams := map (\<lambda>s. s\<lparr>strm_checks := []\<rparr>) (ag_streams a)\<rparr>)"

definition conn_check_prune_stream :: "u32 \<Rightarrow> nice_agent \<Rightarrow> nice_agent" where
  "conn_check_prune_stream sid a =
    (let a1 = update_checks sid (\<lambda>_. []) a in
     if list_ex (\<lambda>s. strm_checks s \<noteq> []) (ag_streams a1) then a1 else conn_check_stop a1)"

definition valid_pair :: "check_pair \<Rightarrow> bool" where
  "valid_pair p \<longleftrightarrow> pair_state p = NICE_CHECK_SUCCEEDED \<or> pair_state p = NICE_CHECK_DISCOVERED"

definition highest_nominated :: "u32 \<Rightarrow> check_pair list \<Rightarrow> u64" where
  "highest_nominated cid ps =
     fold (\<lambda>p hi. if pair_component p = cid \<and> valid_pair p \<and> pair_nominated p \<and> hi < pair_priority p
       then pair_priority p else hi) ps 0"

definition prune_pending_pair :: "u32 \<Rightarrow> u64 \<Rightarrow> check_pair \<Rightarrow> check_pair" where
  "prune_pending_pair cid hi p =
    (if pair_component p \<noteq> cid then p
     else if pair_state p = NICE_CHECK_FROZEN \<or> pair_state p = NICE_CHECK_WAITING
     then set_state NICE_CHECK_CANCELLED p
     else if pair_state p = NICE_CHECK_IN_PROGRESS \<and> hi \<noteq> 0 \<and> pair_priority p < hi
     then set_state NICE_CHECK_CANCELLED (clear_message p)
     else p)"

definition priv_prune_pending_checks :: "u32 \<Rightarrow> check_pair list \<Rightarrow> nat \<times> check_pair list" where
  "priv_prune_pending_checks cid ps =
    (let ps' = map (prune_pending_pair cid (highest_nominated cid ps)) ps
     in (length (filter (\<lambda>p. pair_component p = cid \<and> pair_state p = NICE_CHECK_IN_PROGRESS) ps'), ps'))"

text \<open>Priorities after a change of role: computed anew, the list stays in its order.\<close>

definition priv_recalculate_pair_priorities :: "nice_agent \<Rightarrow> nice_agent" where
  "priv_recalculate_pair_priorities a =
     a\<lparr>ag_streams := map (\<lambda>s. s\<lparr>strm_checks := map (\<lambda>p. p\<lparr>pair_priority :=
       agent_candidate_pair_priority a (pair_local p) (pair_remote p)\<rparr>) (strm_checks s)\<rparr>) (ag_streams a)\<rparr>"

definition priv_check_for_role_conflict :: "bool \<Rightarrow> nice_agent \<Rightarrow> nice_agent" where
  "priv_check_for_role_conflict control a =
    (if control \<noteq> ag_controlling a
     then priv_recalculate_pair_priorities (a\<lparr>ag_controlling := control\<rparr>) else a)"

end
