(* ===== verification/Ice_Send.thy ===== *)
theory Ice_Send
  imports Ice_Checklist
begin

unbundle bit_operations_syntax

text \<open>
  Sending connectivity checks, from \<open>agent/conncheck.c\<close>: user names and passwords in each dialect, the
  validater that finds the key of an incoming check, the retransmission timer, and the check itself.
\<close>

section \<open>Credentials\<close>

text \<open>
  The user name for a check from the peer with the fragment \<open>local\<close> to the one with the fragment \<open>remote\<close>; nothing
  when it does not fit into \<open>n\<close> bytes. The padding of the MSN dialects is one to four bytes.
\<close>

definition priv_gen_username :: "ice_env \<Rightarrow> nice_compat \<Rightarrow> u32 \<Rightarrow> bytes \<Rightarrow> bytes \<Rightarrow> nat \<Rightarrow> bytes" where
  "priv_gen_username env dialect cid remote local n =
    (let rl = length remote; ll = length local in
     if rl > 0 \<and> ll > 0 then
       if dialect = NICE_COMPATIBILITY_RFC5245 \<and> n \<ge> rl + ll + 1 then remote @ [0x3a] @ local
       else if (dialect = NICE_COMPATIBILITY_WLM2009 \<or> dialect = NICE_COMPATIBILITY_OC2007R2) \<and>
         n \<ge> rl + ll + 4
       then let u = remote @ [0x3a] @ local in
         u @ (if length u mod 4 \<noteq> 0 then replicate (4 - length u mod 4) 0 else [])
       else if dialect = NICE_COMPATIBILITY_GOOGLE \<and> n \<ge> rl + ll then remote @ local
       else if msn_like dialect then
         let c = decimal (unat cid); ld = env_decode env local; rd = env_decode env remote;
             tl = length rd + length ld + 3 + 2 * length c; padding = 4 - tl mod 4 in
         if n \<ge> tl + padding
         then rd @ [0x3a] @ c @ [0x3a] @ ld @ [0x3a] @ c @ replicate padding 0 else []
       else []
     else [])"

text \<open>The credentials of a candidate take precedence over those of its stream.\<close>

definition cand_username :: "candidate option \<Rightarrow> bytes \<Rightarrow> bytes" where
  "cand_username c ufrag = (case c of None \<Rightarrow> ufrag
     | Some c \<Rightarrow> (case username c of None \<Rightarrow> ufrag | Some u \<Rightarrow> u))"

definition priv_create_username ::
    "ice_env \<Rightarrow> nice_compat \<Rightarrow> ice_stream \<Rightarrow> u32 \<Rightarrow> candidate option \<Rightarrow> candidate option \<Rightarrow> nat \<Rightarrow> bool \<Rightarrow> bytes" where
  "priv_create_username env dialect s cid remote local n inbound =
    (let lu = cand_username local (strm_local_ufrag s); ru = cand_username remote (strm_remote_ufrag s) in
     if inbound then priv_gen_username env dialect cid lu ru n
     else priv_gen_username env dialect cid ru lu n)"

definition priv_get_password :: "nice_compat \<Rightarrow> ice_stream \<Rightarrow> candidate option \<Rightarrow> bytes option" where
  "priv_get_password dialect s remote =
    (if dialect = NICE_COMPATIBILITY_GOOGLE then None
     else case remote of
       None \<Rightarrow> Some (strm_remote_password s)
     | Some r \<Rightarrow> (case password r of Some p \<Rightarrow> Some p | None \<Rightarrow> Some (strm_remote_password s)))"

text \<open>
  The validater: the first candidate whose fragment is a prefix of the user name gives the key. With
  no password to give, the key stays the one it was called with.
\<close>

definition local_secret :: "candidate \<Rightarrow> ice_stream \<Rightarrow> bytes option" where
  "local_secret c s = (case password c of Some p \<Rightarrow> Some p
     | None \<Rightarrow> if strm_local_password s \<noteq> [] then Some (strm_local_password s) else None)"

fun validate_user ::
    "ice_env \<Rightarrow> nice_compat \<Rightarrow> ice_stream \<Rightarrow> candidate list \<Rightarrow> bytes option \<Rightarrow> bytes option \<Rightarrow> bytes option option" where
  "validate_user env dialect s [] key user = None"
| "validate_user env dialect s (c # cs) key user =
    (let decode = (\<lambda>b. if msn_like dialect then env_decode env b else b);
         ufrag = decode (cand_username (Some c) (strm_local_ufrag s));
         u = (case user of None \<Rightarrow> [] | Some u \<Rightarrow> u)
     in if length ufrag > 0 \<and> length u \<ge> length ufrag \<and> take (length ufrag) u = ufrag
        then Some (case local_secret c s of None \<Rightarrow> key | Some p \<Rightarrow> Some (decode p))
        else validate_user env dialect s cs key user)"

definition conncheck_stun_validater ::
    "ice_env \<Rightarrow> nice_compat \<Rightarrow> ice_stream \<Rightarrow> ice_component \<Rightarrow> stun_class option \<Rightarrow> validater" where
  "conncheck_stun_validater env dialect s c cls key user =
     validate_user env dialect s
       (if dialect = NICE_COMPATIBILITY_OC2007 \<and> cls = Some STUN_RESPONSE then comp_remote c else comp_local c)
       key user"

section \<open>Timers and priorities\<close>

definition priv_compute_conncheck_timer :: "nice_agent \<Rightarrow> ice_stream \<Rightarrow> u32" where
  "priv_compute_conncheck_timer a s =
    (let rto = ag_timer_ta a * of_nat (length (filter (\<lambda>p. pair_state p = NICE_CHECK_IN_PROGRESS \<or>
       pair_state p = NICE_CHECK_WAITING) (strm_checks s)))
     in max rto (if ag_reliable a then 500 else 100))"

text \<open>The priority of a new candidate, by dialect.\<close>

definition candidate_priority :: "nice_agent \<Rightarrow> nice_candidate \<Rightarrow> bool \<Rightarrow> u32" where
  "candidate_priority a c nat_assisted =
    (case ag_compat a of
       NICE_COMPATIBILITY_GOOGLE \<Rightarrow> nice_candidate_jingle_priority (cand_type c)
     | NICE_COMPATIBILITY_MSN \<Rightarrow> nice_candidate_msn_priority (cand_type c)
     | NICE_COMPATIBILITY_OC2007 \<Rightarrow> nice_candidate_msn_priority (cand_type c)
     | NICE_COMPATIBILITY_OC2007R2 \<Rightarrow> nice_candidate_ms_ice_priority c (ag_reliable a) nat_assisted
     | _ \<Rightarrow> nice_candidate_ice_priority c (ag_reliable a) nat_assisted)"

definition peer_reflexive_candidate_priority :: "nice_agent \<Rightarrow> candidate \<Rightarrow> u32" where
  "peer_reflexive_candidate_priority a l =
     candidate_priority a ((nice_candidate_new NICE_CANDIDATE_TYPE_PEER_REFLEXIVE)
       \<lparr>transport := transport l, component_id := component_id l\<rparr>) False"

section \<open>The check\<close>

text \<open>A TCP-active socket without a connection opens one before the first check is sent.\<close>

definition connect_active ::
    "ice_env \<Rightarrow> socket_id \<Rightarrow> check_pair \<Rightarrow> nice_agent \<Rightarrow> socket_id \<times> nice_agent" where
  "connect_active env k p a =
    (if \<not> sock_fileno (ag_sockets a k) \<and> transport (pair_local p) = NICE_CANDIDATE_TRANSPORT_TCP_ACTIVE
     then case env_connect env k (addr (pair_remote p)) of
       None \<Rightarrow> (k, a)
     | Some (k', sock) \<Rightarrow> (k', update_component (pair_stream p) (pair_component p) (component_attach_socket sock k')
         (update_pair (pair_stream p) (pair_ref p) (\<lambda>p. p\<lparr>pair_sock := Some k'\<rparr>)
           (a\<lparr>ag_sockets := (ag_sockets a)(k' := sock)\<rparr>)))
     else (k, a))"

text \<open>What is left when the request has been built: the timer, the socket, the packet, the next tick.\<close>

definition start_check_timer :: "ice_env \<Rightarrow> bool \<Rightarrow> u32 \<Rightarrow> nice_agent \<Rightarrow> stun_timer \<times> nice_agent" where
  "start_check_timer env reliable rto a =
    (let (t, a1) = read_clock env a in
     (if reliable then stun_timer_start_reliable t STUN_TIMER_DEFAULT_RELIABLE_TIMEOUT
      else stun_timer_start t rto STUN_TIMER_DEFAULT_MAX_RETRANSMISSIONS, a1))"

definition launch_check :: "ice_env \<Rightarrow> u32 \<Rightarrow> nat \<Rightarrow> bytes \<Rightarrow> nice_agent \<Rightarrow> nice_agent option" where
  "launch_check env sid r packet a = do {
     p \<leftarrow> find_pair a sid r;
     k \<leftarrow> pair_sock p;
     s \<leftarrow> agent_find_stream a sid;
     let (timer, a1) = start_check_timer env (sock_reliable (ag_sockets a k)) (priv_compute_conncheck_timer a s) a;
     let a2 = update_pair sid r (\<lambda>p. p\<lparr>pair_timer := timer\<rparr>) a1;
     let (k', a3) = connect_active env k p a2;
     let a4 = agent_socket_send k' (addr (pair_remote p)) packet a3;
     let (t1, a5) = read_clock env a4;
     let (t2, a6) = read_clock env a5;
     Some (update_pair sid r (\<lambda>p. p\<lparr>pair_next_tick :=
       env_time_add env t2 (uint (stun_timer_remainder t1 timer * 1000))\<rparr>) a6) }"

definition check_password :: "ice_env \<Rightarrow> nice_compat \<Rightarrow> ice_stream \<Rightarrow> candidate \<Rightarrow> bytes option" where
  "check_password env dialect s r =
     map_option (\<lambda>p. if msn_like dialect then env_decode env p else p) (priv_get_password dialect s (Some r))"

definition conn_check_send :: "ice_env \<Rightarrow> u32 \<Rightarrow> nat \<Rightarrow> nice_agent \<Rightarrow> nice_agent option" where
  "conn_check_send env sid r a = do {
     p \<leftarrow> find_pair a sid r;
     case agent_find_component a (pair_stream p) (pair_component p) of
       None \<Rightarrow> Some a
     | Some (s, c) \<Rightarrow>
         let u = priv_create_username env (ag_compat a) s (pair_component p) (Some (pair_remote p))
               (Some (pair_local p)) NICE_STREAM_MAX_UNAME False;
             controlling = ag_controlling a;
             a1 = (if controlling then update_pair sid r (\<lambda>p. p\<lparr>pair_nominated := True\<rparr>) a else a);
             cancelled = update_pair sid r clear_message
         in if u = [] then Some (cancelled a1)
         else do {
           let (rid, a2) = fresh_id env a1;
           (n, msg, sa) \<leftarrow> stun_usage_ice_conncheck_create (env_stun env) rid (comp_agent c)
             (case pair_message p of None \<Rightarrow> env_message env | Some m \<Rightarrow> m)
             (env_buffer env STUN_MAX_MESSAGE_SIZE_IPV6) STUN_MAX_MESSAGE_SIZE_IPV6
             (Some u) (check_password env (ag_compat a) s (pair_remote p)) controlling controlling
             (peer_reflexive_candidate_priority a (pair_local p)) (ag_tie_breaker a)
             (Some (cstr (foundation (pair_local p)))) (agent_to_ice_compatibility (ag_compat a));
           let a3 = update_component sid (comp_id c) (\<lambda>c. c\<lparr>comp_agent := sa\<rparr>)
             (update_pair sid r (\<lambda>p. p\<lparr>pair_message := Some msg\<rparr>) a2);
           if n = 0 then Some (cancelled a3)
           else launch_check env sid r (take n (buffer msg)) a3 } }"

definition priv_conn_check_initiate :: "ice_env \<Rightarrow> u32 \<Rightarrow> nat \<Rightarrow> nice_agent \<Rightarrow> nice_agent option" where
  "priv_conn_check_initiate env sid r a =
    (let (t, a1) = read_clock env a in
     conn_check_send env sid r (update_pair sid r (\<lambda>p. p\<lparr>pair_state := NICE_CHECK_IN_PROGRESS,
       pair_next_tick := env_time_add env t (uint (ag_timer_ta a * 1000))\<rparr>) a1))"

end
