(* ===== verification/Ice_Discovery.thy ===== *)
theory Ice_Discovery
  imports Ice_Send
begin

unbundle bit_operations_syntax

text \<open>
  Local and remote candidates, and the discovery and refresh processes behind them, from
  \<open>agent/discovery.c\<close>.
\<close>

section \<open>Discovery and refresh lists\<close>

definition discovery_free :: "nice_agent \<Rightarrow> nice_agent" where
  "discovery_free a = a\<lparr>ag_discovery := [], ag_unsched := 0, ag_discovery_timer := False\<rparr>"

definition discovery_prune :: "(discovery \<Rightarrow> bool) \<Rightarrow> nice_agent \<Rightarrow> nice_agent" where
  "discovery_prune P a =
    (let a1 = a\<lparr>ag_discovery := filter (\<lambda>d. \<not> P d) (ag_discovery a)\<rparr>
     in if ag_discovery a1 = [] then discovery_free a1 else a1)"

definition discovery_prune_stream :: "u32 \<Rightarrow> nice_agent \<Rightarrow> nice_agent" where
  "discovery_prune_stream sid = discovery_prune (\<lambda>d. disc_stream d = sid)"

definition discovery_prune_socket :: "socket_id \<Rightarrow> nice_agent \<Rightarrow> nice_agent" where
  "discovery_prune_socket k = discovery_prune (\<lambda>d. disc_socket d = k)"

text \<open>User name and password of a TURN server, decoded in the Microsoft dialects.\<close>

definition turn_credentials :: "ice_env \<Rightarrow> turn_compat \<Rightarrow> turn_server \<Rightarrow> bytes \<times> bytes" where
  "turn_credentials env dialect ts =
    (if dialect = STUN_USAGE_TURN_COMPATIBILITY_MSN \<or> dialect = STUN_USAGE_TURN_COMPATIBILITY_OC2007
     then (env_decode env (ts_username ts), env_decode env (ts_password ts))
     else (ts_username ts, ts_password ts))"

text \<open>
  A refresh that ends gives its allocation back: a refresh with lifetime zero, twice over an
  unreliable transport, with nobody waiting for the answer.
\<close>

definition refresh_free_item :: "ice_env \<Rightarrow> refresh \<Rightarrow> nice_agent \<Rightarrow> nice_agent option" where
  "refresh_free_item env r a = do {
     t \<leftarrow> turn (refr_candidate r);
     let dialect = agent_to_turn_compatibility (ag_compat a);
     let (user, pass) = turn_credentials env dialect (ag_turns a t);
     let (rid, a1) = fresh_id env a;
     (n, msg, _) \<leftarrow> stun_usage_turn_create_refresh (env_stun env) rid (refr_agent r)
       (case refr_message r of None \<Rightarrow> env_message env | Some m \<Rightarrow> m)
       (env_buffer env STUN_MAX_MESSAGE_SIZE_IPV6) STUN_MAX_MESSAGE_SIZE_IPV6
       (refr_resp r) 0 (Some user) (Some pass) dialect;
     if n = 0 then Some a1
     else do {
       _ \<leftarrow> stun_message_id msg;
       let send = agent_socket_send (refr_socket r) (refr_server r) (take n (buffer msg));
       Some (if sock_reliable (ag_sockets a (refr_socket r)) then send a1 else send (send a1)) } }"

fun free_refreshes :: "ice_env \<Rightarrow> refresh list \<Rightarrow> nice_agent \<Rightarrow> nice_agent option" where
  "free_refreshes env [] a = Some a"
| "free_refreshes env (r # rs) a = do {
     a1 \<leftarrow> refresh_free_item env r
       (a\<lparr>ag_refresh := filter (\<lambda>x. refr_ref x \<noteq> refr_ref r) (ag_refresh a)\<rparr>);
     free_refreshes env rs a1 }"

definition refresh_free :: "ice_env \<Rightarrow> nice_agent \<Rightarrow> nice_agent option" where
  "refresh_free env a = free_refreshes env (ag_refresh a) a"

definition refresh_prune_stream :: "ice_env \<Rightarrow> u32 \<Rightarrow> nice_agent \<Rightarrow> nice_agent option" where
  "refresh_prune_stream env sid a = free_refreshes env (filter (\<lambda>r. refr_stream r = sid) (ag_refresh a)) a"

definition refresh_prune_candidate :: "ice_env \<Rightarrow> candidate \<Rightarrow> nice_agent \<Rightarrow> nice_agent option" where
  "refresh_prune_candidate env c a =
     free_refreshes env (filter (\<lambda>r. same_cand (refr_candidate r) c) (ag_refresh a)) a"

definition refresh_prune_socket :: "ice_env \<Rightarrow> socket_id \<Rightarrow> nice_agent \<Rightarrow> nice_agent option" where
  "refresh_prune_socket env k a = free_refreshes env (filter (\<lambda>r. refr_socket r = k) (ag_refresh a)) a"

definition refresh_cancel :: "ice_env \<Rightarrow> refresh \<Rightarrow> nice_agent \<Rightarrow> nice_agent option" where
  "refresh_cancel env r a = free_refreshes env [r] a"

section \<open>Foundations\<close>

text \<open>Adding a local candidate that is not redundant, and pairing it with the remote ones.\<close>

definition redundant_with :: "candidate \<Rightarrow> candidate \<Rightarrow> bool" where
  "redundant_with c d \<longleftrightarrow> nice_address_equal (base_addr d) (base_addr c) \<and>
     nice_address_equal (addr d) (addr c) \<and> transport d = transport c"

definition priv_add_local_candidate_pruned ::
    "ice_env \<Rightarrow> u32 \<Rightarrow> u32 \<Rightarrow> candidate \<Rightarrow> nice_agent \<Rightarrow> (bool \<times> nice_agent) option" where
  "priv_add_local_candidate_pruned env sid cid c a = do {
     (_, x) \<leftarrow> agent_find_component a sid cid;
     if list_ex (redundant_with c) (comp_local x) then Some (False, a)
     else do {
       (_, a1) \<leftarrow> conn_check_add_for_local_candidate env sid cid c
         (update_component sid cid (\<lambda>x. x\<lparr>comp_local := comp_local x @ [c]\<rparr>) a);
       Some (True, a1) } }"

definition remote_label :: "nat \<Rightarrow> bytes" where
  "remote_label n = [0x72, 0x65, 0x6d, 0x6f, 0x74, 0x65, 0x2d] @ decimal n"

definition label_taken :: "ice_component \<Rightarrow> nat \<Rightarrow> bool" where
  "label_taken c n = list_ex (\<lambda>x. same_foundation (remote_label n) (foundation x)) (comp_remote c)"

text \<open>
  The smallest number from \<open>n\<close> on that no remote candidate has as \<open>remote-n\<close>. The loop has no bound of
  its own; it ends because the labels differ and the candidates are finitely many.
\<close>

partial_function (option) first_free_label :: "ice_component \<Rightarrow> nat \<Rightarrow> nat option" where
  "first_free_label c n = (if label_taken c n then first_free_label c (n + 1) else Some n)"

declare first_free_label.simps [code]

definition priv_highest_remote_foundation :: "ice_component \<Rightarrow> nat option" where
  "priv_highest_remote_foundation c = first_free_label c 1"

definition priv_compare_turn_servers :: "nice_agent \<Rightarrow> nat option \<Rightarrow> nat option \<Rightarrow> bool" where
  "priv_compare_turn_servers a t1 t2 =
    (if t1 = t2 then True
     else case (t1, t2) of
       (Some x, Some y) \<Rightarrow> nice_address_equal_no_port (ts_server (ag_turns a x)) (ts_server (ag_turns a y))
     | _ \<Rightarrow> False)"

definition take_over :: "candidate \<Rightarrow> candidate \<Rightarrow> candidate" where
  "take_over n c = c\<lparr>foundation := store_cstr NICE_CANDIDATE_MAX_FOUNDATION (cstr (foundation n)),
     username := (case username n of None \<Rightarrow> username c | Some u \<Rightarrow> Some u),
     password := (case password n of None \<Rightarrow> password c | Some p \<Rightarrow> Some p)\<rparr>"

definition shares_foundation :: "nice_agent \<Rightarrow> candidate \<Rightarrow> candidate \<Rightarrow> bool" where
  "shares_foundation a c n \<longleftrightarrow> cand_type c = cand_type n \<and> transport c = transport n \<and>
     stream_id c = stream_id n \<and> nice_address_equal_no_port (base_addr c) (base_addr n) \<and>
     (cand_type c \<noteq> NICE_CANDIDATE_TYPE_RELAYED \<or> priv_compare_turn_servers a (turn c) (turn n)) \<and>
     \<not> (ag_compat a = NICE_COMPATIBILITY_GOOGLE \<and> cand_type n = NICE_CANDIDATE_TYPE_RELAYED)"

definition priv_assign_foundation :: "candidate \<Rightarrow> nice_agent \<Rightarrow> candidate \<times> nice_agent" where
  "priv_assign_foundation c a =
    (case find (shares_foundation a c)
       (concat (map comp_local (concat (map strm_components (ag_streams a))))) of
       Some n \<Rightarrow> (take_over n c, a)
     | None \<Rightarrow> (c\<lparr>foundation := store_cstr NICE_CANDIDATE_MAX_FOUNDATION (decimal (unat (ag_next_candidate_id a)))\<rparr>,
         a\<lparr>ag_next_candidate_id := ag_next_candidate_id a + 1\<rparr>))"

definition shares_remote_foundation :: "candidate \<Rightarrow> candidate \<Rightarrow> bool" where
  "shares_remote_foundation c n \<longleftrightarrow> cand_type c = cand_type n \<and> transport c = transport n \<and>
     stream_id c = stream_id n \<and> nice_address_equal_no_port (addr c) (addr n)"

text \<open>
  Without a candidate to share with, the label is new among the remote candidates of the last
  component of any stream that has the id of the candidate's component.
\<close>

definition priv_assign_remote_foundation :: "candidate \<Rightarrow> nice_agent \<Rightarrow> candidate option" where
  "priv_assign_remote_foundation c a =
    (let comps = concat (map strm_components (ag_streams a)) in
     case find (shares_remote_foundation c) (concat (map comp_remote comps)) of
       Some n \<Rightarrow> Some (take_over n c)
     | None \<Rightarrow>
         (case find (\<lambda>x. comp_id x = component_id c) (rev comps) of
            None \<Rightarrow> Some c
          | Some x \<Rightarrow> do {
              n \<leftarrow> priv_highest_remote_foundation x;
              Some (c\<lparr>foundation := store_cstr NICE_CANDIDATE_MAX_FOUNDATION (remote_label n)\<rparr>) }))"

section \<open>Candidates\<close>

text \<open>A new candidate with its identity.\<close>

definition new_candidate :: "candidate_type \<Rightarrow> nice_agent \<Rightarrow> candidate" where
  "new_candidate ty a = nice_candidate.extend (nice_candidate_new ty) \<lparr>cand_ref = ag_next_ref a\<rparr>"

definition ref_taken :: "nice_agent \<Rightarrow> nice_agent" where
  "ref_taken a = a\<lparr>ag_next_ref := ag_next_ref a + 1\<rparr>"

text \<open>Random credentials of the dialects that have them per candidate.\<close>

definition priv_generate_candidate_credentials ::
    "ice_env \<Rightarrow> nice_compat \<Rightarrow> candidate \<Rightarrow> candidate" where
  "priv_generate_candidate_credentials env dialect c =
    (let (u, p) = env_random env (cand_ref c) in
     if msn_like dialect then c\<lparr>username := Some (env_encode env u), password := Some (env_encode env p)\<rparr>
     else if dialect = NICE_COMPATIBILITY_GOOGLE then c\<lparr>username := Some (take 16 u), password := None\<rparr>
     else c)"

datatype host_candidate_result =
    HOST_CANDIDATE_SUCCESS
  | HOST_CANDIDATE_FAILED
  | HOST_CANDIDATE_CANT_CREATE_SOCKET
  | HOST_CANDIDATE_REDUNDANT

text \<open>\<open>sock\<close> is the socket that was created for the address, if one could be.\<close>

definition discovery_add_local_host_candidate ::
    "ice_env \<Rightarrow> u32 \<Rightarrow> u32 \<Rightarrow> sockaddr \<Rightarrow> candidate_transport \<Rightarrow>
      (socket_id \<times> nice_socket) option \<Rightarrow> nice_agent \<Rightarrow>
      (host_candidate_result \<times> candidate option \<times> nice_agent) option" where
  "discovery_add_local_host_candidate env sid cid to t sock a =
    (case agent_find_component a sid cid of
       None \<Rightarrow> Some (HOST_CANDIDATE_FAILED, None, a)
     | Some _ \<Rightarrow>
         let c0 = (new_candidate NICE_CANDIDATE_TYPE_HOST a)\<lparr>transport := t, stream_id := sid,
               component_id := cid, addr := to, base_addr := to\<rparr>;
             c1 = c0\<lparr>priority := candidate_priority a (nice_candidate.truncate c0) False\<rparr>;
             (c2, a1) = priv_assign_foundation (priv_generate_candidate_credentials env (ag_compat a) c1)
               (ref_taken a)
         in case sock of
           None \<Rightarrow> Some (HOST_CANDIDATE_CANT_CREATE_SOCKET, None, a1)
         | Some (k, s) \<Rightarrow> do {
             let c3 = c2\<lparr>sockptr := Some k, addr := sock_addr s, base_addr := sock_addr s\<rparr>;
             let a2 = a1\<lparr>ag_sockets := (ag_sockets a1)(k := s)\<rparr>;
             (ok, a3) \<leftarrow> priv_add_local_candidate_pruned env sid cid c3 a2;
             Some (if \<not> ok then (HOST_CANDIDATE_REDUNDANT, None, a3)
               else (HOST_CANDIDATE_SUCCESS, Some c3,
                 update_component sid cid (component_attach_socket s k) a3)) })"

definition discovery_add_server_reflexive_candidate ::
    "ice_env \<Rightarrow> u32 \<Rightarrow> u32 \<Rightarrow> sockaddr \<Rightarrow> candidate_transport \<Rightarrow> socket_id \<Rightarrow> bool \<Rightarrow>
      nice_agent \<Rightarrow> (candidate option \<times> nice_agent) option" where
  "discovery_add_server_reflexive_candidate env sid cid to t base nat_assisted a =
    (case agent_find_component a sid cid of
       None \<Rightarrow> Some (None, a)
     | Some _ \<Rightarrow> do {
         let c0 = (new_candidate NICE_CANDIDATE_TYPE_SERVER_REFLEXIVE a)\<lparr>transport := t, stream_id := sid,
           component_id := cid, addr := to\<rparr>;
         let c1 = c0\<lparr>priority := candidate_priority a (nice_candidate.truncate c0) nat_assisted,
           sockptr := Some base, base_addr := sock_addr (ag_sockets a base)\<rparr>;
         let (c2, a1) = priv_assign_foundation (priv_generate_candidate_credentials env (ag_compat a) c1)
           (ref_taken a);
         (ok, a2) \<leftarrow> priv_add_local_candidate_pruned env sid cid c2 a1;
         Some (if ok then (Some c2, emit (New_candidate c2) a2) else (None, a2)) })"

text \<open>The same address, with the port of each TCP host candidate on the interface of \<open>base\<close>.\<close>

fun add_reflexives ::
    "ice_env \<Rightarrow> u32 \<Rightarrow> u32 \<Rightarrow> sockaddr \<Rightarrow> candidate list \<Rightarrow> nice_agent \<Rightarrow> nice_agent option" where
  "add_reflexives env sid cid to [] a = Some a"
| "add_reflexives env sid cid to (c # cs) a = do {
     k \<leftarrow> sockptr c;
     (_, a1) \<leftarrow> discovery_add_server_reflexive_candidate env sid cid
       (nice_address_set_port to (nice_address_get_port (addr c))) (transport c) k False a;
     add_reflexives env sid cid to cs a1 }"

definition discovery_discover_tcp_server_reflexive_candidates ::
    "ice_env \<Rightarrow> u32 \<Rightarrow> u32 \<Rightarrow> sockaddr \<Rightarrow> socket_id \<Rightarrow> nice_agent \<Rightarrow> nice_agent option" where
  "discovery_discover_tcp_server_reflexive_candidates env sid cid to base a =
    (case agent_find_component a sid cid of
       None \<Rightarrow> Some a
     | Some (_, c) \<Rightarrow> add_reflexives env sid cid to
         (filter (\<lambda>x. transport x \<noteq> NICE_CANDIDATE_TRANSPORT_UDP \<and> cand_type x = NICE_CANDIDATE_TYPE_HOST \<and>
           nice_address_equal (nice_address_set_port (sock_addr (ag_sockets a base)) 0)
             (nice_address_set_port (addr x) 0)) (comp_local c)) a)"

text \<open>A relayed candidate has a socket of its own over the one to the server.\<close>

definition discovery_add_relay_candidate ::
    "ice_env \<Rightarrow> u32 \<Rightarrow> u32 \<Rightarrow> sockaddr \<Rightarrow> candidate_transport \<Rightarrow> socket_id \<Rightarrow> nat \<Rightarrow> nice_agent \<Rightarrow>
      (candidate option \<times> nice_agent) option" where
  "discovery_add_relay_candidate env sid cid to t base ts a =
    (case agent_find_component a sid cid of
       None \<Rightarrow> Some (None, a)
     | Some _ \<Rightarrow> do {
         let c0 = (new_candidate NICE_CANDIDATE_TYPE_RELAYED a)\<lparr>transport := t, stream_id := sid,
           component_id := cid, addr := to, turn := Some ts\<rparr>;
         let k = env_socket env (ag_next_ref a);
         let b = ag_sockets a base;
         let relay = b\<lparr>sock_type := NICE_SOCKET_TYPE_UDP_TURN, sock_addr := to, sock_ms_realm := [],
           sock_ms_connection := None\<rparr>;
         let c1 = priv_generate_candidate_credentials env (ag_compat a)
           (c0\<lparr>priority := candidate_priority a (nice_candidate.truncate c0) False, sockptr := Some k,
             base_addr := sock_addr b\<rparr>);
         let c2 = (if ag_compat a = NICE_COMPATIBILITY_GOOGLE
           then c1\<lparr>username := Some (ts_username (ag_turns a ts))\<rparr> else c1);
         let (c3, a1) = priv_assign_foundation c2 ((ref_taken a)\<lparr>ag_sockets := (ag_sockets a)(k := relay)\<rparr>);
         (ok, a2) \<leftarrow> priv_add_local_candidate_pruned env sid cid c3 a1;
         Some (if ok then (Some c3, emit (New_candidate c3)
             (update_component sid cid (component_attach_socket relay k) a2))
           else (None, a2)) })"

text \<open>What the socket of an Office Communicator relay keeps of the exchange with its server.\<close>

definition nice_udp_turn_socket_set_ms_realm :: "stun_message \<Rightarrow> nice_socket \<Rightarrow> nice_socket option" where
  "nice_udp_turn_socket_set_ms_realm msg s = do {
     realm \<leftarrow> attr_value msg STUN_ATTRIBUTE_REALM;
     Some (case realm of None \<Rightarrow> s
       | Some r \<Rightarrow> if length r \<le> 128 then s\<lparr>sock_ms_realm := r\<rparr> else s) }"

abbreviation (input) STUN_ATTRIBUTE_MS_SEQUENCE_NUMBER :: u16 where
  "STUN_ATTRIBUTE_MS_SEQUENCE_NUMBER \<equiv> 0x8050"

text \<open>The number is read from one byte, which \<open>ntohl\<close> makes the most significant one.\<close>

definition nice_udp_turn_socket_set_ms_connection_id :: "stun_message \<Rightarrow> nice_socket \<Rightarrow> nice_socket option" where
  "nice_udp_turn_socket_set_ms_connection_id msg s = do {
     v \<leftarrow> attr_value msg STUN_ATTRIBUTE_MS_SEQUENCE_NUMBER;
     Some (case v of None \<Rightarrow> s
       | Some b \<Rightarrow> if length b = 24
           then s\<lparr>sock_ms_connection := Some (take 20 b, htonl (ucast (b ! 20)))\<rparr> else s) }"

definition default_transport :: "nice_socket \<Rightarrow> candidate_transport \<Rightarrow> candidate_transport" where
  "default_transport s tcp =
    (if sock_type s = NICE_SOCKET_TYPE_UDP_BSD \<or> sock_type s = NICE_SOCKET_TYPE_UDP_TURN
     then NICE_CANDIDATE_TRANSPORT_UDP else tcp)"

text \<open>The credentials of a candidate that stands for both ends of a pair in the MSN dialects.\<close>

definition joined_username :: "ice_env \<Rightarrow> candidate \<Rightarrow> candidate \<Rightarrow> bytes option" where
  "joined_username env first second = do {
     f \<leftarrow> username first;
     s \<leftarrow> username second;
     Some (env_encode env (env_decode env f @ env_decode env s)) }"

definition reflexive_credentials ::
    "ice_env \<Rightarrow> nice_compat \<Rightarrow> candidate option \<Rightarrow> candidate option \<Rightarrow> candidate \<Rightarrow> candidate option" where
  "reflexive_credentials env dialect own other c =
    (case own of
       None \<Rightarrow> Some c
     | Some o1 \<Rightarrow>
         (case other of
            Some o2 \<Rightarrow>
              if msn_like dialect then do {
                u \<leftarrow> joined_username env o1 o2;
                Some (c\<lparr>username := Some u, password := password o1\<rparr>) }
              else Some (c\<lparr>username := username o1, password := password o1\<rparr>)
          | None \<Rightarrow> Some (c\<lparr>username := username o1, password := password o1\<rparr>)))"

definition discovery_add_peer_reflexive_candidate ::
    "ice_env \<Rightarrow> u32 \<Rightarrow> u32 \<Rightarrow> sockaddr \<Rightarrow> socket_id \<Rightarrow> candidate option \<Rightarrow> candidate option \<Rightarrow> nice_agent \<Rightarrow>
      (candidate option \<times> nice_agent) option" where
  "discovery_add_peer_reflexive_candidate env sid cid to base local remote a =
    (case agent_find_component a sid cid of
       None \<Rightarrow> Some (None, a)
     | Some _ \<Rightarrow> do {
         let t = (case local of Some l \<Rightarrow> transport l
           | None \<Rightarrow> (case remote of Some r \<Rightarrow> conn_check_match_transport (transport r)
             | None \<Rightarrow> default_transport (ag_sockets a base) NICE_CANDIDATE_TRANSPORT_TCP_PASSIVE));
         let c0 = (new_candidate NICE_CANDIDATE_TYPE_PEER_REFLEXIVE a)\<lparr>transport := t, stream_id := sid,
           component_id := cid, addr := to, sockptr := Some base, base_addr := sock_addr (ag_sockets a base)\<rparr>;
         let c1 = c0\<lparr>priority := candidate_priority a (nice_candidate.truncate c0) False\<rparr>;
         let (c2, a1) = priv_assign_foundation c1 (ref_taken a);
         c3 \<leftarrow> reflexive_credentials env (ag_compat a) local remote c2;
         (ok, a2) \<leftarrow> priv_add_local_candidate_pruned env sid cid c3 a1;
         Some (if ok then Some c3 else None, a2) })"

definition discovery_learn_remote_peer_reflexive_candidate ::
    "ice_env \<Rightarrow> u32 \<Rightarrow> u32 \<Rightarrow> u32 \<Rightarrow> sockaddr \<Rightarrow> socket_id \<Rightarrow> candidate option \<Rightarrow> candidate option \<Rightarrow> nice_agent \<Rightarrow>
      (candidate \<times> nice_agent) option" where
  "discovery_learn_remote_peer_reflexive_candidate env sid cid prio to k local remote a = do {
     let t = (case remote of Some r \<Rightarrow> transport r
       | None \<Rightarrow> (case local of Some l \<Rightarrow> conn_check_match_transport (transport l)
         | None \<Rightarrow> default_transport (ag_sockets a k) NICE_CANDIDATE_TRANSPORT_TCP_ACTIVE));
     let c0 = (new_candidate NICE_CANDIDATE_TYPE_PEER_REFLEXIVE a)\<lparr>transport := t, stream_id := sid,
       component_id := cid, addr := to, base_addr := to, sockptr := Some k\<rparr>;
     let c1 = c0\<lparr>priority := (if prio \<noteq> 0 then prio
       else candidate_priority a (nice_candidate.truncate c0) False)\<rparr>;
     c2 \<leftarrow> priv_assign_remote_foundation c1 (ref_taken a);
     c3 \<leftarrow> reflexive_credentials env (ag_compat a) remote local c2;
     Some (c3, emit (New_remote_candidate c3)
       (update_component sid cid (\<lambda>x. x\<lparr>comp_remote := comp_remote x @ [c3]\<rparr>) (ref_taken a))) }"

end
