(* ===== verification/Ice_States.thy ===== *)
theory Ice_States
  imports Ice_Discovery
begin

unbundle bit_operations_syntax

text \<open>
  The state machine of the connectivity checks, from \<open>agent/conncheck.c\<close> with
  \<open>component_update_selected_pair\<close> of \<open>component.c\<close>: nomination, the selected pair and its keepalives,
  triggered checks, the states of components and check lists, and the ticks of the timers.

  A loop over a check list visits the identities of the pairs in the order of the list: nothing that
  the loops call adds, removes or moves a pair.
\<close>

section \<open>Sockets that go away\<close>

fun fail_pairs :: "u32 \<Rightarrow> nat list \<Rightarrow> nice_agent \<Rightarrow> nice_agent option" where
  "fail_pairs sid [] a = Some a"
| "fail_pairs sid (r # rs) a = do { a1 \<leftarrow> candidate_check_pair_fail sid r a; fail_pairs sid rs a1 }"

definition uses_socket :: "socket_id \<Rightarrow> check_pair \<Rightarrow> bool" where
  "uses_socket k p \<longleftrightarrow> sockptr (pair_local p) = Some k \<or> sockptr (pair_remote p) = Some k"

definition conn_check_prune_socket :: "u32 \<Rightarrow> u32 \<Rightarrow> socket_id \<Rightarrow> nice_agent \<Rightarrow> nice_agent option" where
  "conn_check_prune_socket sid cid k a = do {
     (s, c) \<leftarrow> agent_find_component a sid cid;
     let selected = (case sel_local (comp_selected c) of None \<Rightarrow> False | Some l \<Rightarrow> sockptr l = Some k);
     fail_pairs sid (map pair_ref (filter (uses_socket k) (strm_checks s)))
       (if selected \<and> comp_state c = NICE_COMPONENT_STATE_READY
        then agent_signal_component_state_change sid cid NICE_COMPONENT_STATE_FAILED a else a) }"

section \<open>The selected pair\<close>

text \<open>A candidate kept only because it was selected, from a TURN server that is no longer used, goes.\<close>

definition drop_turn_candidate :: "ice_env \<Rightarrow> u32 \<Rightarrow> u32 \<Rightarrow> candidate \<Rightarrow> nice_agent \<Rightarrow> nice_agent option" where
  "drop_turn_candidate env sid cid t a = do {
     k \<leftarrow> sockptr t;
     a1 \<leftarrow> refresh_prune_candidate env t a;
     a2 \<leftarrow> conn_check_prune_socket sid cid k (discovery_prune_socket k a1);
     Some (update_component sid cid (\<lambda>c. (component_detach_socket k c)\<lparr>comp_turn := None\<rparr>) a2) }"

definition component_update_selected_pair ::
    "ice_env \<Rightarrow> u32 \<Rightarrow> u32 \<Rightarrow> candidate \<times> candidate \<times> u64 \<Rightarrow> nice_agent \<Rightarrow> nice_agent option" where
  "component_update_selected_pair env sid cid pair a = do {
     (_, c) \<leftarrow> agent_find_component a sid cid;
     a1 \<leftarrow> (case (sel_local (comp_selected c), comp_turn c) of
         (Some l, Some t) \<Rightarrow> if same_cand l t then drop_turn_candidate env sid cid t a else Some a
       | _ \<Rightarrow> Some a);
     let (l, r, prio) = pair;
     Some (update_component sid cid (\<lambda>c. (component_clear_selected_pair c)
       \<lparr>comp_selected := no_pair\<lparr>sel_local := Some l, sel_remote := Some r, sel_priority := prio\<rparr>\<rparr>) a1) }"

section \<open>Keepalives\<close>

definition update_selected ::
    "u32 \<Rightarrow> u32 \<Rightarrow> (selected_pair \<Rightarrow> selected_pair) \<Rightarrow> nice_agent \<Rightarrow> nice_agent" where
  "update_selected sid cid f = update_component sid cid (\<lambda>c. c\<lparr>comp_selected := f (comp_selected c)\<rparr>)"

definition keepalive_memory :: "ice_env \<Rightarrow> ice_component \<Rightarrow> stun_message" where
  "keepalive_memory env c = (case sel_message (comp_selected c) of None \<Rightarrow> env_message env | Some m \<Rightarrow> m)"

text \<open>A connectivity check as keepalive: the identifier that \<open>CANDIDATE-IDENTIFIER\<close> needs is null.\<close>

definition keepalive_check ::
    "ice_env \<Rightarrow> u32 \<Rightarrow> u32 \<Rightarrow> candidate \<Rightarrow> candidate \<Rightarrow> nice_agent \<Rightarrow> (nat \<times> nice_agent) option" where
  "keepalive_check env sid cid l r a = do {
     (s, c) \<leftarrow> agent_find_component a sid cid;
     let u = priv_create_username env (ag_compat a) s cid (Some r) (Some l) NICE_STREAM_MAX_UNAME False;
     if u = [] then Some (0, a)
     else do {
       let (rid, a1) = fresh_id env a;
       (n, msg, sa) \<leftarrow> stun_usage_ice_conncheck_create (env_stun env) rid (comp_agent c)
         (keepalive_memory env c) (env_buffer env STUN_MAX_MESSAGE_SIZE_IPV6) STUN_MAX_MESSAGE_SIZE_IPV6
         (Some u) (priv_get_password (ag_compat a) s (Some r)) (ag_controlling a) (ag_controlling a)
         (peer_reflexive_candidate_priority a l) (ag_tie_breaker a) None
         (agent_to_ice_compatibility (ag_compat a));
       let a2 = update_component sid cid (\<lambda>c. c\<lparr>comp_agent := sa\<rparr>)
         (update_selected sid cid (\<lambda>p. p\<lparr>sel_message := Some msg\<rparr>) a1);
       if n = 0 then Some (1, a2)
       else do {
         k \<leftarrow> sockptr l;
         let (t, a3) = read_clock env a2;
         let a4 = agent_socket_send k (addr r) (take n (buffer msg)) (a3\<lparr>ag_media_after_tick := False\<rparr>);
         Some (0, update_selected sid cid (\<lambda>p. p\<lparr>sel_tick := True, sel_timer :=
           stun_timer_start t STUN_TIMER_DEFAULT_TIMEOUT STUN_TIMER_DEFAULT_MAX_RETRANSMISSIONS\<rparr>)
           (snd (read_clock env a4))) } } }"

definition keepalive_indication ::
    "ice_env \<Rightarrow> u32 \<Rightarrow> u32 \<Rightarrow> candidate \<Rightarrow> candidate \<Rightarrow> nice_agent \<Rightarrow> (nat \<times> nice_agent) option" where
  "keepalive_indication env sid cid l r a = do {
     (_, c) \<leftarrow> agent_find_component a sid cid;
     let (rid, a1) = fresh_id env a;
     (n, msg, sa) \<leftarrow> stun_usage_bind_keepalive (env_stun env) rid (comp_agent c) (keepalive_memory env c)
       (env_buffer env STUN_MAX_MESSAGE_SIZE_IPV6) STUN_MAX_MESSAGE_SIZE_IPV6;
     let a2 = update_component sid cid (\<lambda>c. c\<lparr>comp_agent := sa\<rparr>)
       (update_selected sid cid (\<lambda>p. p\<lparr>sel_message := Some msg\<rparr>) a1);
     if n = 0 then Some (1, a2)
     else do {
       k \<leftarrow> sockptr l;
       Some (0, agent_socket_send k (addr r) (take n (buffer msg)) a2) } }"

text \<open>The keepalive of a component with a selected pair over UDP; the number of errors.\<close>

definition keepalive_component :: "ice_env \<Rightarrow> u32 \<times> u32 \<Rightarrow> nice_agent \<Rightarrow> (nat \<times> nice_agent) option" where
  "keepalive_component env sc a = do {
     let (sid, cid) = sc;
     (_, c) \<leftarrow> agent_find_component a sid cid;
     case (sel_local (comp_selected c), sel_remote (comp_selected c)) of
       (None, _) \<Rightarrow> Some (0, a)
     | (Some l, None) \<Rightarrow> if transport l \<noteq> NICE_CANDIDATE_TRANSPORT_UDP then Some (0, a) else None
     | (Some l, Some r) \<Rightarrow>
         if transport l \<noteq> NICE_CANDIDATE_TRANSPORT_UDP then Some (0, a)
         else if ag_compat a = NICE_COMPATIBILITY_GOOGLE \<or> ag_keepalive_conncheck a
         then keepalive_check env sid cid l r a
         else keepalive_indication env sid cid l r a }"

fun keepalive_components ::
    "ice_env \<Rightarrow> (u32 \<times> u32) list \<Rightarrow> nice_agent \<Rightarrow> (nat \<times> nice_agent) option" where
  "keepalive_components env [] a = Some (0, a)"
| "keepalive_components env (sc # scs) a = do {
     (e, a1) \<leftarrow> keepalive_component env sc a;
     (f, a2) \<leftarrow> keepalive_components env scs a1;
     Some (e + f, a2) }"

text \<open>While checks go on, a binding request to the STUN server keeps the host candidates alive.\<close>

fun send_all :: "(socket_id option \<times> sockaddr \<times> bytes) list \<Rightarrow> nice_agent \<Rightarrow> nice_agent option" where
  "send_all [] a = Some a"
| "send_all ((k, to, b) # xs) a = do { k \<leftarrow> k; send_all xs (agent_socket_send k to b a) }"

definition keepalive_candidates ::
    "ice_env \<Rightarrow> sockaddr \<Rightarrow> ice_component \<Rightarrow> nice_agent \<Rightarrow> nice_agent option" where
  "keepalive_candidates env server c a = do {
     let (rid, a1) = fresh_id env a;
     let sa = stun_agent_init (env_agent env) STUN_ALL_KNOWN_ATTRIBUTES STUN_COMPATIBILITY_RFC3489 0;
     (n, msg, _) \<leftarrow> stun_usage_bind_create (env_stun env) rid sa (env_message env)
       (env_buffer env STUN_MAX_MESSAGE_SIZE_IPV6) STUN_MAX_MESSAGE_SIZE_IPV6;
     send_all (map (\<lambda>x. (sockptr x, server, take n (buffer msg)))
       (filter (\<lambda>x. cand_type x = NICE_CANDIDATE_TYPE_HOST \<and> transport x = NICE_CANDIDATE_TRANSPORT_UDP)
         (comp_local c))) a1 }"

fun keepalive_servers :: "ice_env \<Rightarrow> sockaddr \<Rightarrow> (u32 \<times> u32) list \<Rightarrow> nice_agent \<Rightarrow> nice_agent option" where
  "keepalive_servers env server [] a = Some a"
| "keepalive_servers env server ((sid, cid) # scs) a = do {
     (_, c) \<leftarrow> agent_find_component a sid cid;
     a1 \<leftarrow> (if component_state_val (comp_state c) < component_state_val NICE_COMPONENT_STATE_READY
           then keepalive_candidates env server c a else Some a);
     keepalive_servers env server scs a1 }"

definition component_ids :: "nice_agent \<Rightarrow> (u32 \<times> u32) list" where
  "component_ids a = concat (map (\<lambda>s. map (\<lambda>c. (strm_id s, comp_id c)) (strm_components s)) (ag_streams a))"

definition priv_conn_keepalive_tick_unlocked :: "ice_env \<Rightarrow> nice_agent \<Rightarrow> (bool \<times> nice_agent) option" where
  "priv_conn_keepalive_tick_unlocked env a = do {
     (errors, a1) \<leftarrow> keepalive_components env (component_ids a) a;
     a2 \<leftarrow> (case ag_stun_server a1 of None \<Rightarrow> Some a1
       | Some server \<Rightarrow> keepalive_servers env server (component_ids a1) a1);
     Some (errors = 0, a2) }"

definition priv_conn_keepalive_tick :: "ice_env \<Rightarrow> nice_agent \<Rightarrow> (bool \<times> nice_agent) option" where
  "priv_conn_keepalive_tick env a = do {
     (ret, a1) \<leftarrow> priv_conn_keepalive_tick_unlocked env a;
     Some (ret, if ret then a1 else a1\<lparr>ag_keepalive_timer := False\<rparr>) }"

text \<open>The retransmissions of a keepalive check.\<close>

definition priv_conn_keepalive_retransmissions_tick ::
    "ice_env \<Rightarrow> u32 \<Rightarrow> u32 \<Rightarrow> nice_agent \<Rightarrow> nice_agent option" where
  "priv_conn_keepalive_retransmissions_tick env sid cid a = do {
     (_, c) \<leftarrow> agent_find_component a sid cid;
     let p = comp_selected c;
     let (t, a1) = read_clock env (update_selected sid cid (\<lambda>p. p\<lparr>sel_tick := False\<rparr>) a);
     let (ret, timer) = stun_timer_refresh t (sel_timer p);
     let a2 = update_selected sid cid (\<lambda>p. p\<lparr>sel_timer := timer\<rparr>) a1;
     let again = (\<lambda>a. update_selected sid cid (\<lambda>p. p\<lparr>sel_tick := True\<rparr>) (snd (read_clock env a)));
     case ret of
       STUN_USAGE_TIMER_RETURN_TIMEOUT \<Rightarrow> do {
         m \<leftarrow> sel_message p;
         i \<leftarrow> stun_message_id m;
         let a3 = update_component sid cid
           (\<lambda>c. c\<lparr>comp_agent := snd (stun_agent_forget_transaction (comp_agent c) i)\<rparr>) a2;
         Some (if ag_media_after_tick a3 then update_selected sid cid (\<lambda>p. p\<lparr>sel_message := None\<rparr>) a3
           else agent_signal_component_state_change sid cid NICE_COMPONENT_STATE_FAILED a3) }
     | STUN_USAGE_TIMER_RETURN_RETRANSMIT \<Rightarrow> do {
         l \<leftarrow> sel_local p;
         r \<leftarrow> sel_remote p;
         k \<leftarrow> sockptr l;
         m \<leftarrow> sel_message p;
         n \<leftarrow> stun_message_length m;
         Some (again (agent_socket_send k (addr r) (take (unat n) (buffer m)) a2)) }
     | STUN_USAGE_TIMER_RETURN_SUCCESS \<Rightarrow> Some (again a2) }"

section \<open>States of components and nomination\<close>

text \<open>
  \<open>pair\<close> becomes the selected pair when its priority is higher. What is selected is the pair that
  \<open>component_find_pair\<close> finds by the foundations.
\<close>

definition priv_update_selected_pair ::
    "ice_env \<Rightarrow> u32 \<Rightarrow> u32 \<Rightarrow> check_pair \<Rightarrow> nice_agent \<Rightarrow> nice_agent option" where
  "priv_update_selected_pair env sid cid p a = do {
     (_, c) \<leftarrow> agent_find_component a sid cid;
     if pair_priority p > sel_priority (comp_selected c) then
       case component_find_pair a c (foundation (pair_local p)) (foundation (pair_remote p)) of
         None \<Rightarrow> Some a
       | Some cpair \<Rightarrow> do {
           a1 \<leftarrow> component_update_selected_pair env sid cid cpair a;
           (_, a2) \<leftarrow> priv_conn_keepalive_tick_unlocked env a1;
           agent_signal_new_selected_pair (pair_stream p) cid (pair_local p) (pair_remote p) a2 }
     else Some a }"

text \<open>A component with remote candidates fails when all its checks have failed and nothing is discovered any more.\<close>

definition failed_component :: "u32 \<Rightarrow> u32 \<Rightarrow> nice_agent \<Rightarrow> nice_agent" where
  "failed_component sid cid a =
    (case agent_find_component a sid cid of
       None \<Rightarrow> a
     | Some (s, c) \<Rightarrow>
         if list_all (\<lambda>p. pair_component p = cid \<longrightarrow> pair_state p = NICE_CHECK_FAILED) (strm_checks s) \<and>
           comp_remote c \<noteq> []
         then agent_signal_component_state_change sid cid NICE_COMPONENT_STATE_FAILED a else a)"

definition priv_update_check_list_failed_components :: "u32 \<Rightarrow> nice_agent \<Rightarrow> nice_agent option" where
  "priv_update_check_list_failed_components sid a = do {
     s \<leftarrow> agent_find_stream a sid;
     Some (if list_ex (\<lambda>d. disc_stream d = sid \<and> \<not> disc_done d) (ag_discovery a) \<or> ag_discovery a \<noteq> [] then a
       else fold (\<lambda>i. failed_component sid (of_nat (i + 1))) [0..<strm_n_components s] a) }"

definition nominated_for :: "u32 \<Rightarrow> check_pair \<Rightarrow> bool" where
  "nominated_for cid p \<longleftrightarrow> pair_component p = cid \<and> valid_pair p \<and> pair_nominated p"

definition priv_update_check_list_state_for_ready :: "u32 \<Rightarrow> u32 \<Rightarrow> nice_agent \<Rightarrow> nice_agent option" where
  "priv_update_check_list_state_for_ready sid cid a = do {
     s \<leftarrow> agent_find_stream a sid;
     if list_ex (nominated_for cid) (strm_checks s) then
       let (n, ps) = priv_prune_pending_checks cid (strm_checks s); a1 = update_checks sid (\<lambda>_. ps) a
       in Some (if n = 0 then agent_signal_component_state_change sid cid NICE_COMPONENT_STATE_READY a1 else a1)
     else Some a }"

fun mark_pairs :: "ice_env \<Rightarrow> u32 \<Rightarrow> u32 \<Rightarrow> nat list \<Rightarrow> nice_agent \<Rightarrow> nice_agent option" where
  "mark_pairs env sid cid [] a = Some a"
| "mark_pairs env sid cid (r # rs) a = do {
     let a1 = update_pair sid r (\<lambda>p. p\<lparr>pair_nominated := True\<rparr>) a;
     p \<leftarrow> find_pair a1 sid r;
     a2 \<leftarrow> (if valid_pair p then priv_update_selected_pair env sid cid p a1 else Some a1);
     a3 \<leftarrow> priv_update_check_list_state_for_ready sid cid a2;
     mark_pairs env sid cid rs a3 }"

definition priv_mark_pair_nominated ::
    "ice_env \<Rightarrow> u32 \<Rightarrow> u32 \<Rightarrow> candidate \<Rightarrow> nice_agent \<Rightarrow> nice_agent option" where
  "priv_mark_pair_nominated env sid cid rc a = do {
     s \<leftarrow> agent_find_stream a sid;
     mark_pairs env sid cid (map pair_ref (filter (\<lambda>p. same_cand (pair_remote p) rc) (strm_checks s))) a }"

section \<open>Triggered checks\<close>

definition triggered_by :: "u32 \<Rightarrow> socket_id \<Rightarrow> candidate \<Rightarrow> check_pair \<Rightarrow> bool" where
  "triggered_by cid k rc p \<longleftrightarrow> pair_component p = cid \<and> same_cand (pair_remote p) rc \<and>
     (if transport (pair_local p) = NICE_CANDIDATE_TRANSPORT_TCP_PASSIVE then pair_sock p = Some k
      else sockptr (pair_local p) = Some k)"

definition restart_check_timer :: "ice_env \<Rightarrow> u32 \<Rightarrow> check_pair \<Rightarrow> nice_agent \<Rightarrow> nice_agent option" where
  "restart_check_timer env sid p a = do {
     k \<leftarrow> pair_sock p;
     if sock_reliable (ag_sockets a k) \<or> pair_timer_restarted p then Some a
     else do {
       s \<leftarrow> agent_find_stream a sid;
       let (t, a1) = read_clock env a;
       Some (update_pair sid (pair_ref p) (\<lambda>p. p\<lparr>pair_timer := stun_timer_start t
         (priv_compute_conncheck_timer a s) STUN_TIMER_DEFAULT_MAX_RETRANSMISSIONS,
         pair_timer_restarted := True\<rparr>) a1) } }"

definition trigger_pair :: "ice_env \<Rightarrow> u32 \<Rightarrow> u32 \<Rightarrow> check_pair \<Rightarrow> nice_agent \<Rightarrow> nice_agent option" where
  "trigger_pair env sid cid p a =
    (case pair_state p of
       NICE_CHECK_WAITING \<Rightarrow> priv_conn_check_initiate env sid (pair_ref p) a
     | NICE_CHECK_FROZEN \<Rightarrow> priv_conn_check_initiate env sid (pair_ref p) a
     | NICE_CHECK_FAILED \<Rightarrow> priv_conn_check_initiate env sid (pair_ref p) a
     | NICE_CHECK_IN_PROGRESS \<Rightarrow> restart_check_timer env sid p a
     | NICE_CHECK_CANCELLED \<Rightarrow> Some a
     | _ \<Rightarrow> do {
         a1 \<leftarrow> priv_update_check_list_state_for_ready sid cid a;
         if ice_like (ag_compat a1) \<and> ag_controlling a1
         then priv_conn_check_initiate env sid (pair_ref p) a1 else Some a1 })"

definition priv_schedule_triggered_check ::
    "ice_env \<Rightarrow> u32 \<Rightarrow> u32 \<Rightarrow> socket_id \<Rightarrow> candidate \<Rightarrow> bool \<Rightarrow> nice_agent \<Rightarrow> (bool \<times> nice_agent) option" where
  "priv_schedule_triggered_check env sid cid k rc use_candidate a = do {
     (s, c) \<leftarrow> agent_find_component a sid cid;
     case find (triggered_by cid k rc) (strm_checks s) of
       Some p \<Rightarrow> do { a1 \<leftarrow> trigger_pair env sid cid p a; Some (True, a1) }
     | None \<Rightarrow>
         (case find (\<lambda>l. sockptr l = Some k) (comp_local c) of
            None \<Rightarrow> Some (False, a)
          | Some l \<Rightarrow> do {
              a1 \<leftarrow> priv_add_new_check_pair env sid cid l rc NICE_CHECK_WAITING use_candidate a;
              Some (True, a1) }) }"

text \<open>The assertion on the address of the candidate ends the program when it fails.\<close>

definition priv_reply_to_conn_check ::
    "ice_env \<Rightarrow> u32 \<Rightarrow> u32 \<Rightarrow> candidate option \<Rightarrow> sockaddr \<Rightarrow> socket_id \<Rightarrow> bytes \<Rightarrow> bool \<Rightarrow> nice_agent \<Rightarrow>
      nice_agent option" where
  "priv_reply_to_conn_check env sid cid rcand to k reply use_candidate a =
    (case rcand of
       None \<Rightarrow> Some (agent_socket_send k to reply a)
     | Some rc \<Rightarrow>
         if \<not> nice_address_equal (addr rc) to then None
         else do {
           (_, a1) \<leftarrow> priv_schedule_triggered_check env sid cid k rc use_candidate (agent_socket_send k to reply a);
           if use_candidate then priv_mark_pair_nominated env sid cid rc a1 else Some a1 })"

definition priv_store_pending_check ::
    "u32 \<Rightarrow> u32 \<Rightarrow> sockaddr \<Rightarrow> socket_id \<Rightarrow> bytes option \<Rightarrow> u32 \<Rightarrow> bool \<Rightarrow> nice_agent \<Rightarrow> (bool \<times> nice_agent) option" where
  "priv_store_pending_check sid cid from k user prio use_candidate a = do {
     (_, c) \<leftarrow> agent_find_component a sid cid;
     if comp_incoming c \<noteq> [] \<and> length (comp_incoming c) \<ge> NICE_AGENT_MAX_REMOTE_CANDIDATES
     then Some (False, a)
     else Some (True, update_component sid cid (\<lambda>c. c\<lparr>comp_incoming := comp_incoming c @
       [\<lparr>ic_from = from, ic_socket = k, ic_priority = prio, ic_use_candidate = use_candidate,
         ic_username = (case user of None \<Rightarrow> None | Some u \<Rightarrow> if u = [] then None else Some u)\<rparr>]\<rparr>) a) }"

text \<open>The early checks of a component that a pair answers.\<close>

fun preprocess_checks ::
    "ice_env \<Rightarrow> u32 \<Rightarrow> u32 \<Rightarrow> nat \<Rightarrow> incoming_check list \<Rightarrow> nice_agent \<Rightarrow> nice_agent option" where
  "preprocess_checks env sid cid r [] a = Some a"
| "preprocess_checks env sid cid r (ic # ics) a = do {
     p \<leftarrow> find_pair a sid r;
     if nice_address_equal (ic_from ic) (addr (pair_remote p)) \<and> pair_sock p = Some (ic_socket ic)
     then do {
       a1 \<leftarrow> (if ic_use_candidate ic then priv_mark_pair_nominated env sid cid (pair_remote p) a else Some a);
       (_, a2) \<leftarrow> priv_schedule_triggered_check env sid cid (ic_socket ic) (pair_remote p) (ic_use_candidate ic) a1;
       preprocess_checks env sid cid r ics a2 }
     else preprocess_checks env sid cid r ics a }"

definition priv_preprocess_conn_check_pending_data ::
    "ice_env \<Rightarrow> u32 \<Rightarrow> u32 \<Rightarrow> nat \<Rightarrow> nice_agent \<Rightarrow> nice_agent option" where
  "priv_preprocess_conn_check_pending_data env sid cid r a = do {
     (_, c) \<leftarrow> agent_find_component a sid cid;
     preprocess_checks env sid cid r (comp_incoming c) a }"

section \<open>The timers\<close>

text \<open>A pair in progress at a tick: given up, sent again, or left to wait. True keeps the timer going.\<close>

definition tick_later :: "ice_env \<Rightarrow> timeval \<Rightarrow> u32 \<Rightarrow> check_pair \<Rightarrow> check_pair" where
  "tick_later env t timeout p = p\<lparr>pair_next_tick := env_time_add env t (uint (timeout * 1000))\<rparr>"

definition tick_pair :: "ice_env \<Rightarrow> timeval \<Rightarrow> u32 \<Rightarrow> nat \<Rightarrow> nice_agent \<Rightarrow> (bool \<times> nice_agent) option" where
  "tick_pair env t sid r a = do {
     p \<leftarrow> find_pair a sid r;
     if pair_state p \<noteq> NICE_CHECK_IN_PROGRESS then Some (False, a)
     else case pair_message p of
       None \<Rightarrow> Some (False, update_pair sid r (set_state NICE_CHECK_FAILED) a)
     | Some m \<Rightarrow>
         if \<not> priv_timer_expired (pair_next_tick p) t then Some (False, a)
         else do {
           let (t1, a1) = read_clock env a;
           let (ret, timer) = stun_timer_refresh t1 (pair_timer p);
           let a2 = update_pair sid r (\<lambda>p. p\<lparr>pair_timer := timer\<rparr>) a1;
           case ret of
             STUN_USAGE_TIMER_RETURN_TIMEOUT \<Rightarrow> do { a3 \<leftarrow> candidate_check_pair_fail sid r a2; Some (False, a3) }
           | STUN_USAGE_TIMER_RETURN_RETRANSMIT \<Rightarrow> do {
               let (t2, a3) = read_clock env a2;
               k \<leftarrow> pair_sock p;
               n \<leftarrow> stun_message_length m;
               Some (True, update_pair sid r (tick_later env t (stun_timer_remainder t2 timer))
                 (agent_socket_send k (addr (pair_remote p)) (take (unat n) (buffer m)) a3)) }
           | STUN_USAGE_TIMER_RETURN_SUCCESS \<Rightarrow>
               let (t2, a3) = read_clock env a2
               in Some (True, update_pair sid r (tick_later env t (stun_timer_remainder t2 timer)) a3) } }"

fun tick_pairs ::
    "ice_env \<Rightarrow> timeval \<Rightarrow> u32 \<Rightarrow> nat list \<Rightarrow> nice_agent \<Rightarrow> (bool \<times> nice_agent) option" where
  "tick_pairs env t sid [] a = Some (False, a)"
| "tick_pairs env t sid (r # rs) a = do {
     (k1, a1) \<leftarrow> tick_pair env t sid r a;
     (k2, a2) \<leftarrow> tick_pairs env t sid rs a1;
     Some (k1 \<or> k2, a2) }"

text \<open>The controlling agent nominates, for each component, its first valid pair and checks it again.\<close>

fun nominate_components :: "ice_env \<Rightarrow> u32 \<Rightarrow> u32 list \<Rightarrow> nice_agent \<Rightarrow> nice_agent option" where
  "nominate_components env sid [] a = Some a"
| "nominate_components env sid (cid # cids) a = do {
     s \<leftarrow> agent_find_stream a sid;
     case find (\<lambda>p. pair_component p = cid \<and> valid_pair p) (strm_checks s) of
       None \<Rightarrow> nominate_components env sid cids a
     | Some p \<Rightarrow> do {
         a1 \<leftarrow> priv_conn_check_initiate env sid (pair_ref p)
           (update_pair sid (pair_ref p) (\<lambda>p. p\<lparr>pair_nominated := True\<rparr>) a);
         nominate_components env sid cids a1 } }"

definition priv_conn_check_tick_stream ::
    "ice_env \<Rightarrow> timeval \<Rightarrow> u32 \<Rightarrow> nice_agent \<Rightarrow> (bool \<times> nice_agent) option" where
  "priv_conn_check_tick_stream env t sid a = do {
     s0 \<leftarrow> agent_find_stream a sid;
     (keep, a1) \<leftarrow> tick_pairs env t sid (map pair_ref (strm_checks s0)) a;
     s \<leftarrow> agent_find_stream a1 sid;
     let nominated = length (filter (\<lambda>p. valid_pair p \<and> pair_nominated p) (strm_checks s));
     let unnominated = list_ex (\<lambda>p. valid_pair p \<and> \<not> pair_nominated p) (strm_checks s);
     if nominated < strm_n_components s \<and> unnominated then do {
       a2 \<leftarrow> (if ag_controlling a1 then nominate_components env sid (map comp_id (strm_components s)) a1
             else Some a1);
       Some (True, a2) }
     else Some (keep \<or> list_ex (\<lambda>p. pair_state p = NICE_CHECK_IN_PROGRESS) (strm_checks s), a1) }"

fun tick_streams ::
    "ice_env \<Rightarrow> timeval \<Rightarrow> u32 list \<Rightarrow> nice_agent \<Rightarrow> (bool \<times> nice_agent) option" where
  "tick_streams env t [] a = Some (False, a)"
| "tick_streams env t (sid # sids) a = do {
     (k1, a1) \<leftarrow> priv_conn_check_tick_stream env t sid a;
     (k2, a2) \<leftarrow> tick_streams env t sids a1;
     Some (k1 \<or> k2, a2) }"

fun first_waiting :: "ice_stream list \<Rightarrow> (u32 \<times> check_pair) option" where
  "first_waiting [] = None"
| "first_waiting (s # ss) =
    (case priv_conn_check_find_next_waiting (strm_checks s) of
       Some p \<Rightarrow> Some (strm_id s, p) | None \<Rightarrow> first_waiting ss)"

text \<open>The end of the checks: components fail or become ready.\<close>

fun settle_components :: "u32 \<Rightarrow> u32 list \<Rightarrow> nice_agent \<Rightarrow> nice_agent option" where
  "settle_components sid [] a = Some a"
| "settle_components sid (cid # cids) a = do {
     a1 \<leftarrow> priv_update_check_list_state_for_ready sid cid a;
     settle_components sid cids a1 }"

fun settle_streams :: "u32 list \<Rightarrow> nice_agent \<Rightarrow> nice_agent option" where
  "settle_streams [] a = Some a"
| "settle_streams (sid # sids) a = do {
     a1 \<leftarrow> priv_update_check_list_failed_components sid a;
     s \<leftarrow> agent_find_stream a1 sid;
     a2 \<leftarrow> settle_components sid (map comp_id (strm_components s)) a1;
     settle_streams sids a2 }"

definition priv_conn_check_tick_unlocked :: "ice_env \<Rightarrow> nice_agent \<Rightarrow> (bool \<times> nice_agent) option" where
  "priv_conn_check_tick_unlocked env a = do {
     let (t, a1) = read_clock env a;
     (k1, a2) \<leftarrow> (case first_waiting (ag_streams a1) of
         Some (sid, p) \<Rightarrow> do { a2 \<leftarrow> priv_conn_check_initiate env sid (pair_ref p) a1; Some (True, a2) }
       | None \<Rightarrow> Some (priv_conn_check_unfreeze_next a1));
     (k2, a3) \<leftarrow> tick_streams env t (map strm_id (ag_streams a2)) a2;
     if k1 \<or> k2 then Some (True, a3)
     else do {
       a4 \<leftarrow> settle_streams (map strm_id (ag_streams a3)) a3;
       Some (False, conn_check_stop a4) } }"

definition conn_check_schedule_next :: "ice_env \<Rightarrow> nice_agent \<Rightarrow> (bool \<times> nice_agent) option" where
  "conn_check_schedule_next env a = do {
     let (_, a1) = priv_conn_check_unfreeze_next a;
     (res, a2) \<leftarrow> priv_conn_check_tick_unlocked env a1;
     Some (res, a2\<lparr>ag_check_timer := ag_check_timer a2 \<or> res, ag_keepalive_timer := True\<rparr>) }"

end
