(* ===== verification/Ice_Response.thy ===== *)
theory Ice_Response
  imports Ice_States
begin

unbundle bit_operations_syntax

text \<open>
  Incoming STUN packets on a component, from \<open>agent/conncheck.c\<close>: the responses to connectivity checks,
  discoveries, allocations, refreshes and keepalives, and the requests of the peer
  (\<open>conn_check_handle_inbound_stun\<close>).
\<close>

section \<open>Responses to checks\<close>

definition priv_add_peer_reflexive_pair ::
    "ice_env \<Rightarrow> u32 \<Rightarrow> u32 \<Rightarrow> candidate \<Rightarrow> check_pair \<Rightarrow> nice_agent \<Rightarrow> (nat \<times> nice_agent) option" where
  "priv_add_peer_reflexive_pair env sid cid l parent a = do {
     _ \<leftarrow> agent_find_stream a sid;
     Some (ag_next_ref a, insert_pair env (new_pair a sid cid l (pair_remote parent) (sockptr l)
       NICE_CHECK_DISCOVERED False (agent_candidate_pair_priority a l (pair_remote parent))) a) }"

text \<open>
  The pair on which connectivity was established, if it is another one than \<open>r\<close>. A mapped address of no
  local candidate makes \<open>r\<close> fail and a new pair take its place; the new candidate may not be null.
\<close>

definition priv_process_response_check_for_peer_reflexive ::
    "ice_env \<Rightarrow> u32 \<Rightarrow> u32 \<Rightarrow> nat \<Rightarrow> socket_id \<Rightarrow> sockaddr \<Rightarrow> candidate option \<Rightarrow> candidate option \<Rightarrow>
      nice_agent \<Rightarrow> (nat option \<times> nice_agent) option" where
  "priv_process_response_check_for_peer_reflexive env sid cid r k mapped lc rc a = do {
     (s, c) \<leftarrow> agent_find_component a sid cid;
     case find (\<lambda>l. nice_address_equal mapped (addr l)) (comp_local c) of
       Some l \<Rightarrow> do {
         let known = (case rc of None \<Rightarrow> None | Some x \<Rightarrow>
           find (\<lambda>q. same_cand (pair_local q) l \<and> same_cand (pair_remote q) x) (strm_checks s));
         let a1 = update_pair sid r (set_state NICE_CHECK_SUCCEEDED) a;
         p \<leftarrow> find_pair a1 sid r;
         a2 \<leftarrow> priv_conn_check_unfreeze_related sid p a1;
         Some (map_option pair_ref known, a2) }
     | None \<Rightarrow> do {
         (l, a1) \<leftarrow> discovery_add_peer_reflexive_candidate env sid cid mapped k lc rc a;
         let a2 = update_pair sid r (set_state NICE_CHECK_FAILED) a1;
         l \<leftarrow> l;
         p \<leftarrow> find_pair a2 sid r;
         (q, a3) \<leftarrow> priv_add_peer_reflexive_pair env sid cid l p a2;
         Some (Some q, a3) } }"

text \<open>A pair that works: its nomination, the state of its component, the end of the checks.\<close>

definition pair_established :: "ice_env \<Rightarrow> u32 \<Rightarrow> u32 \<Rightarrow> nat \<Rightarrow> nice_agent \<Rightarrow> nice_agent option" where
  "pair_established env sid cid r a = do {
     p \<leftarrow> find_pair a sid r;
     a1 \<leftarrow> (if pair_nominated p then do {
         a1 \<leftarrow> priv_update_selected_pair env sid cid p a;
         (_, c) \<leftarrow> agent_find_component a1 sid cid;
         Some (if comp_state c \<noteq> NICE_COMPONENT_STATE_READY
           then agent_signal_component_state_change sid cid NICE_COMPONENT_STATE_CONNECTED a1 else a1) }
       else Some a);
     priv_update_check_list_state_for_ready sid cid a1 }"

definition check_answered ::
    "ice_env \<Rightarrow> u32 \<Rightarrow> u32 \<Rightarrow> check_pair \<Rightarrow> socket_id \<Rightarrow> sockaddr \<Rightarrow> candidate option \<Rightarrow> candidate option \<Rightarrow>
      stun_message \<Rightarrow> nice_agent \<Rightarrow> nice_agent option" where
  "check_answered env sid cid p k from lc rc resp a = do {
     (res, mapped, _) \<leftarrow> stun_usage_ice_conncheck_process resp sizeof_sockaddr_storage
       (agent_to_ice_compatibility (ag_compat a));
     let r = pair_ref p;
     let set = (\<lambda>st. update_pair sid r (set_state st \<circ> clear_message));
     if res = STUN_USAGE_ICE_RETURN_SUCCESS \<or> res = STUN_USAGE_ICE_RETURN_NO_MAPPED_ADDRESS then
       if \<not> nice_address_equal from (addr (pair_remote p)) then Some (set NICE_CHECK_FAILED a)
       else if res = STUN_USAGE_ICE_RETURN_NO_MAPPED_ADDRESS then do {
         let a1 = set NICE_CHECK_SUCCEEDED a;
         p1 \<leftarrow> find_pair a1 sid r;
         a2 \<leftarrow> priv_conn_check_unfreeze_related sid p1 a1;
         pair_established env sid cid r a2 }
       else do {
         m \<leftarrow> mapped;
         (q, a1) \<leftarrow> priv_process_response_check_for_peer_reflexive env sid cid r k m lc rc
           (update_pair sid r clear_message a);
         pair_established env sid cid (case q of None \<Rightarrow> r | Some q \<Rightarrow> q) a1 }
     else if res = STUN_USAGE_ICE_RETURN_ROLE_CONFLICT
     then Some (set NICE_CHECK_WAITING (priv_check_for_role_conflict (\<not> pair_controlling p) a))
     else Some (update_pair sid r clear_message a) }"

text \<open>A message that was sent with the transaction id \<open>i\<close>.\<close>

definition awaits :: "bytes \<Rightarrow> stun_message option \<Rightarrow> bool" where
  "awaits i m \<longleftrightarrow> (case m of None \<Rightarrow> False | Some m \<Rightarrow> stun_message_id m = Some i)"

definition priv_map_reply_to_conn_check_request ::
    "ice_env \<Rightarrow> u32 \<Rightarrow> u32 \<Rightarrow> socket_id \<Rightarrow> sockaddr \<Rightarrow> candidate option \<Rightarrow> candidate option \<Rightarrow>
      stun_message \<Rightarrow> nice_agent \<Rightarrow> (bool \<times> nice_agent) option" where
  "priv_map_reply_to_conn_check_request env sid cid k from lc rc resp a = do {
     i \<leftarrow> stun_message_id resp;
     s \<leftarrow> agent_find_stream a sid;
     (found, a1) \<leftarrow> (case find (\<lambda>p. awaits i (pair_message p)) (strm_checks s) of
         None \<Rightarrow> Some (False, a)
       | Some p \<Rightarrow> do { a1 \<leftarrow> check_answered env sid cid p k from lc rc resp a; Some (True, a1) });
     Some (found, update_checks sid prune_cancelled_conn_check a1) }"

definition priv_map_reply_to_keepalive_conncheck ::
    "u32 \<Rightarrow> u32 \<Rightarrow> stun_message \<Rightarrow> nice_agent \<Rightarrow> (bool \<times> nice_agent) option" where
  "priv_map_reply_to_keepalive_conncheck sid cid resp a = do {
     i \<leftarrow> stun_message_id resp;
     (_, c) \<leftarrow> agent_find_component a sid cid;
     Some (if awaits i (sel_message (comp_selected c))
       then (True, update_selected sid cid (\<lambda>p. p\<lparr>sel_tick := False, sel_message := None\<rparr>) a)
       else (False, a)) }"

end
