(* ===== verification/Ice_Turn.thy ===== *)
theory Ice_Turn
  imports Ice_Response
begin

unbundle bit_operations_syntax

text \<open>
  Gathering: the discovery of server reflexive and relayed candidates and the refreshes of the
  allocations, from \<open>agent/discovery.c\<close> and \<open>agent/conncheck.c\<close>, and the end of gathering
  (\<open>agent_gathering_done\<close> of \<open>agent.c\<close>).
\<close>

section \<open>Lists of processes\<close>

definition update_discovery :: "nat \<Rightarrow> (discovery \<Rightarrow> discovery) \<Rightarrow> nice_agent \<Rightarrow> nice_agent" where
  "update_discovery r f a =
     a\<lparr>ag_discovery := map (\<lambda>d. if disc_ref d = r then f d else d) (ag_discovery a)\<rparr>"

definition find_discovery :: "nice_agent \<Rightarrow> nat \<Rightarrow> discovery option" where
  "find_discovery a r = find (\<lambda>d. disc_ref d = r) (ag_discovery a)"

definition update_refresh :: "nat \<Rightarrow> (refresh \<Rightarrow> refresh) \<Rightarrow> nice_agent \<Rightarrow> nice_agent" where
  "update_refresh r f a =
     a\<lparr>ag_refresh := map (\<lambda>x. if refr_ref x = r then f x else x) (ag_refresh a)\<rparr>"

definition find_refresh :: "nice_agent \<Rightarrow> nat \<Rightarrow> refresh option" where
  "find_refresh a r = find (\<lambda>x. refr_ref x = r) (ag_refresh a)"

definition discovery_done :: "discovery \<Rightarrow> discovery" where
  "discovery_done d = d\<lparr>disc_message := None, disc_done := True\<rparr>"

definition message_memory :: "ice_env \<Rightarrow> stun_message option \<Rightarrow> stun_message" where
  "message_memory env m = (case m of None \<Rightarrow> env_message env | Some m \<Rightarrow> m)"

section \<open>The end of gathering\<close>

fun pair_candidates ::
    "ice_env \<Rightarrow> u32 \<Rightarrow> u32 \<Rightarrow> (candidate \<times> candidate) list \<Rightarrow> nice_agent \<Rightarrow> nice_agent option" where
  "pair_candidates env sid cid [] a = Some a"
| "pair_candidates env sid cid ((l, r) # ps) a = do {
     s \<leftarrow> agent_find_stream a sid;
     a1 \<leftarrow> (if list_ex (\<lambda>p. same_cand (pair_local p) l \<and> same_cand (pair_remote p) r) (strm_checks s) then Some a
       else do { (_, a1) \<leftarrow> conn_check_add_for_candidate_pair env sid cid l r a; Some a1 });
     pair_candidates env sid cid ps a1 }"

fun pair_components :: "ice_env \<Rightarrow> (u32 \<times> u32) list \<Rightarrow> nice_agent \<Rightarrow> nice_agent option" where
  "pair_components env [] a = Some a"
| "pair_components env ((sid, cid) # scs) a = do {
     (_, c) \<leftarrow> agent_find_component a sid cid;
     a1 \<leftarrow> pair_candidates env sid cid (concat (map (\<lambda>l. map (\<lambda>r. (l, r)) (comp_remote c)) (comp_local c))) a;
     pair_components env scs a1 }"

definition agent_signal_gathering_done :: "nice_agent \<Rightarrow> nice_agent" where
  "agent_signal_gathering_done a =
     fold (\<lambda>s a. emit (Gathering_done (strm_id s)) a) (filter strm_gathering (ag_streams a))
       (a\<lparr>ag_streams := map (\<lambda>s. s\<lparr>strm_gathering := False\<rparr>) (ag_streams a)\<rparr>)"

definition agent_gathering_done :: "ice_env \<Rightarrow> nice_agent \<Rightarrow> nice_agent option" where
  "agent_gathering_done env a = do {
     a1 \<leftarrow> pair_components env (component_ids a) a;
     Some (if ag_discovery_timer a1 then a1 else agent_signal_gathering_done a1) }"

section \<open>Discoveries\<close>

text \<open>The request of a discovery that is scheduled; a type without a request or an invalid server is asserted away.\<close>

definition discovery_request ::
    "ice_env \<Rightarrow> bytes \<Rightarrow> discovery \<Rightarrow> nice_agent \<Rightarrow> (nat \<times> stun_message \<times> stun_agent) option" where
  "discovery_request env rid d a =
    (let msg0 = message_memory env (disc_message d); buf = env_buffer env STUN_MAX_MESSAGE_SIZE_IPV6 in
     case disc_type d of
       NICE_CANDIDATE_TYPE_SERVER_REFLEXIVE \<Rightarrow> stun_usage_bind_create (env_stun env) rid (disc_agent d) msg0 buf
         STUN_MAX_MESSAGE_SIZE_IPV6
     | NICE_CANDIDATE_TYPE_RELAYED \<Rightarrow> do {
         ts \<leftarrow> disc_turn d;
         let dialect = agent_to_turn_compatibility (ag_compat a);
         let (user, pass) = turn_credentials env dialect (ag_turns a ts);
         stun_usage_turn_create (env_stun env) rid (disc_agent d) msg0 buf STUN_MAX_MESSAGE_SIZE_IPV6 (disc_resp d)
           STUN_USAGE_TURN_REQUEST_PORT_NORMAL (-1) (-1) (Some user) (Some pass) dialect }
     | _ \<Rightarrow> None)"

text \<open>Whether the request was sent.\<close>

definition discovery_start :: "ice_env \<Rightarrow> nat \<Rightarrow> nice_agent \<Rightarrow> (bool \<times> nice_agent) option" where
  "discovery_start env r a = do {
     d \<leftarrow> find_discovery a r;
     if \<not> nice_address_is_valid (disc_server d) then None
     else do {
       let (rid, a1) = fresh_id env (agent_signal_component_state_change (disc_stream d) (disc_component d)
         NICE_COMPONENT_STATE_GATHERING ((update_discovery r (\<lambda>d. d\<lparr>disc_pending := True\<rparr>) a)
         \<lparr>ag_unsched := ag_unsched a - 1\<rparr>));
       (n, msg, sa) \<leftarrow> discovery_request env rid d a;
       if n = 0 then Some (False, update_discovery r (\<lambda>d. (discovery_done d)\<lparr>disc_agent := sa\<rparr>) a1)
       else do {
         let (t, a2) = read_clock env a1;
         let a3 = agent_socket_send (disc_socket d) (disc_server d) (take n (buffer msg)) a2;
         let (t2, a4) = read_clock env a3;
         Some (True, update_discovery r (\<lambda>d. d\<lparr>disc_agent := sa, disc_message := Some msg, disc_next_tick := t2,
           disc_timer := (if sock_reliable (ag_sockets a (disc_socket d))
             then stun_timer_start_reliable t STUN_TIMER_DEFAULT_RELIABLE_TIMEOUT
             else stun_timer_start t 200 STUN_TIMER_DEFAULT_MAX_RETRANSMISSIONS)\<rparr>) a4) } } }"

text \<open>One step of a discovery that runs; whether it has to be looked at again.\<close>

definition discovery_wait :: "ice_env \<Rightarrow> timeval \<Rightarrow> u32 \<Rightarrow> discovery \<Rightarrow> discovery" where
  "discovery_wait env t timeout d = d\<lparr>disc_next_tick := env_time_add env t (uint (timeout * 1000))\<rparr>"

definition discovery_step :: "ice_env \<Rightarrow> nat \<Rightarrow> nice_agent \<Rightarrow> (bool \<times> nice_agent) option" where
  "discovery_step env r a = do {
     d \<leftarrow> find_discovery a r;
     if disc_done d then Some (False, a)
     else do {
       let (t, a1) = read_clock env a;
       case disc_message d of
         None \<Rightarrow> Some (False, update_discovery r discovery_done a1)
       | Some m \<Rightarrow>
           if \<not> priv_timer_expired (disc_next_tick d) t then Some (True, a1)
           else do {
             let (t1, a2) = read_clock env a1;
             let (ret, timer) = stun_timer_refresh t1 (disc_timer d);
             let a3 = update_discovery r (\<lambda>d. d\<lparr>disc_timer := timer\<rparr>) a2;
             case ret of
               STUN_USAGE_TIMER_RETURN_TIMEOUT \<Rightarrow> do {
                 i \<leftarrow> stun_message_id m;
                 Some (False, update_discovery r (\<lambda>d. (discovery_done d)
                   \<lparr>disc_agent := snd (stun_agent_forget_transaction (disc_agent d) i)\<rparr>) a3) }
             | STUN_USAGE_TIMER_RETURN_RETRANSMIT \<Rightarrow> do {
                 let (t2, a4) = read_clock env a3;
                 n \<leftarrow> stun_message_length m;
                 Some (True, update_discovery r (discovery_wait env t (stun_timer_remainder t2 timer))
                   (agent_socket_send (disc_socket d) (disc_server d) (take (unat n) (buffer m)) a4)) }
             | STUN_USAGE_TIMER_RETURN_SUCCESS \<Rightarrow>
                 let (t2, a4) = read_clock env a3
                 in Some (True, update_discovery r (discovery_wait env t (stun_timer_remainder t2 timer)) a4) } } }"

fun tick_discoveries :: "ice_env \<Rightarrow> nat list \<Rightarrow> nice_agent \<Rightarrow> (bool \<times> nice_agent) option" where
  "tick_discoveries env [] a = Some (False, a)"
| "tick_discoveries env (r # rs) a = do {
     d \<leftarrow> find_discovery a r;
     (sent, a1) \<leftarrow> (if disc_pending d then Some (False, a) else discovery_start env r a);
     (again, a2) \<leftarrow> (if disc_pending d \<or> sent then discovery_step env r a1 else Some (False, a1));
     (more, a3) \<leftarrow> tick_discoveries env rs a2;
     Some (sent \<or> again \<or> more, a3) }"

definition priv_discovery_tick_unlocked :: "ice_env \<Rightarrow> nice_agent \<Rightarrow> (bool \<times> nice_agent) option" where
  "priv_discovery_tick_unlocked env a = do {
     (more, a1) \<leftarrow> tick_discoveries env (map disc_ref (ag_discovery a)) a;
     if more then Some (True, a1)
     else do { a2 \<leftarrow> agent_gathering_done env (discovery_free a1); Some (False, a2) } }"

definition priv_discovery_tick :: "ice_env \<Rightarrow> nice_agent \<Rightarrow> (bool \<times> nice_agent) option" where
  "priv_discovery_tick env a = do {
     (ret, a1) \<leftarrow> priv_discovery_tick_unlocked env a;
     Some (ret, if ret then a1 else a1\<lparr>ag_discovery_timer := False\<rparr>) }"

definition discovery_schedule :: "ice_env \<Rightarrow> nice_agent \<Rightarrow> nice_agent option" where
  "discovery_schedule env a =
    (if ag_discovery a = [] then None
     else if ag_unsched a > 0 \<and> \<not> ag_discovery_timer a
     then do {
       (res, a1) \<leftarrow> priv_discovery_tick_unlocked env a;
       Some (if res then a1\<lparr>ag_discovery_timer := True\<rparr> else a1) }
     else Some a)"

text \<open>A response to a discovery; after an alternate server or an unusable response the search goes on.\<close>

fun discovery_replies ::
    "ice_env \<Rightarrow> stun_message \<Rightarrow> bytes \<Rightarrow> nat list \<Rightarrow> nice_agent \<Rightarrow> (bool \<times> nice_agent) option" where
  "discovery_replies env resp i [] a = Some (False, a)"
| "discovery_replies env resp i (r # rs) a = do {
     d \<leftarrow> find_discovery a r;
     if disc_type d = NICE_CANDIDATE_TYPE_SERVER_REFLEXIVE \<and> awaits i (disc_message d) then do {
       (res, (mapped, _), alternate) \<leftarrow>
         stun_usage_bind_process resp sizeof_sockaddr_storage (Some sizeof_sockaddr_storage);
       case res of
         STUN_USAGE_BIND_RETURN_ALTERNATE_SERVER \<Rightarrow> do {
           (alt, _) \<leftarrow> alternate;
           alt \<leftarrow> alt;
           discovery_replies env resp i rs
             (update_discovery r (\<lambda>d. d\<lparr>disc_server := alt, disc_pending := False\<rparr>) a) }
       | STUN_USAGE_BIND_RETURN_SUCCESS \<Rightarrow> do {
           m \<leftarrow> mapped;
           (_, a1) \<leftarrow> discovery_add_server_reflexive_candidate env (disc_stream d) (disc_component d) m
             NICE_CANDIDATE_TRANSPORT_UDP (disc_socket d) False a;
           a2 \<leftarrow> (if ag_use_ice_tcp a1 then discovery_discover_tcp_server_reflexive_candidates env
             (disc_stream d) (disc_component d) m (disc_socket d) a1 else Some a1);
           Some (True, update_discovery r discovery_done a2) }
       | STUN_USAGE_BIND_RETURN_ERROR \<Rightarrow> Some (True, update_discovery r discovery_done a)
       | _ \<Rightarrow> discovery_replies env resp i rs a }
     else discovery_replies env resp i rs a }"

definition priv_map_reply_to_discovery_request ::
    "ice_env \<Rightarrow> stun_message \<Rightarrow> nice_agent \<Rightarrow> (bool \<times> nice_agent) option" where
  "priv_map_reply_to_discovery_request env resp a = do {
     i \<leftarrow> stun_message_id resp;
     discovery_replies env resp i (map disc_ref (ag_discovery a)) a }"

section \<open>Allocations\<close>

text \<open>A timeout of the main loop, in milliseconds: a lifetime below a minute wraps around.\<close>

definition refresh_timeout :: "u32 \<Rightarrow> u32" where
  "refresh_timeout lifetime = (lifetime - 60) * 1000"

definition priv_add_new_turn_refresh :: "discovery \<Rightarrow> candidate \<Rightarrow> u32 \<Rightarrow> nice_agent \<Rightarrow> nice_agent" where
  "priv_add_new_turn_refresh d c lifetime a =
     (ref_taken a)\<lparr>ag_refresh := ag_refresh a @
       [\<lparr>refr_ref = ag_next_ref a, refr_socket = disc_socket d, refr_server = disc_server d,
         refr_candidate = c, refr_stream = disc_stream d, refr_component = disc_component d,
         refr_agent = disc_agent d, refr_timer_source = Some (refresh_timeout lifetime),
         refr_tick_source = False, refr_timer = no_timer, refr_message = None,
         refr_resp = map_option (\<lambda>m. m\<lparr>msg_agent := None, msg_key := None\<rparr>) (disc_resp d)\<rparr>]\<rparr>"

text \<open>What becomes of a new relayed candidate: its allocation is refreshed, or its socket told of the session.\<close>

definition keep_allocation ::
    "ice_env \<Rightarrow> discovery \<Rightarrow> candidate \<Rightarrow> u32 \<Rightarrow> stun_message \<Rightarrow> nice_agent \<Rightarrow> nice_agent option" where
  "keep_allocation env d c lifetime resp a =
    (if ag_compat a = NICE_COMPATIBILITY_OC2007 \<or> ag_compat a = NICE_COMPATIBILITY_OC2007R2
     then do {
       k \<leftarrow> sockptr c;
       m \<leftarrow> disc_message d;
       s1 \<leftarrow> nice_udp_turn_socket_set_ms_realm m (ag_sockets a k);
       s2 \<leftarrow> nice_udp_turn_socket_set_ms_connection_id resp s1;
       Some (a\<lparr>ag_sockets := (ag_sockets a)(k := s2)\<rparr>) }
     else Some (priv_add_new_turn_refresh d c lifetime a))"

definition relay_allocated ::
    "ice_env \<Rightarrow> discovery \<Rightarrow> sockaddr \<Rightarrow> u32 \<Rightarrow> stun_message \<Rightarrow> candidate_transport \<Rightarrow> nice_agent \<Rightarrow>
      nice_agent option" where
  "relay_allocated env d relay lifetime resp t a = do {
     ts \<leftarrow> disc_turn d;
     (c, a1) \<leftarrow> discovery_add_relay_candidate env (disc_stream d) (disc_component d) relay t (disc_socket d) ts a;
     case c of None \<Rightarrow> Some a1 | Some c \<Rightarrow> keep_allocation env d c lifetime resp a1 }"

text \<open>The address the server saw is a candidate of its own when the server was reached over UDP.\<close>

definition relay_mapped :: "ice_env \<Rightarrow> discovery \<Rightarrow> sockaddr \<Rightarrow> nice_agent \<Rightarrow> nice_agent option" where
  "relay_mapped env d m a = do {
     ts \<leftarrow> disc_turn d;
     a1 \<leftarrow> (if ts_udp (ag_turns a ts)
       then do {
         (_, a1) \<leftarrow> discovery_add_server_reflexive_candidate env (disc_stream d) (disc_component d) m
           NICE_CANDIDATE_TRANSPORT_UDP (disc_socket d) False a;
         Some a1 }
       else Some a);
     if ag_use_ice_tcp a1 then discovery_discover_tcp_server_reflexive_candidates env (disc_stream d)
       (disc_component d) m (disc_socket d) a1
     else Some a1 }"

definition relay_success ::
    "ice_env \<Rightarrow> discovery \<Rightarrow> turn_result \<Rightarrow> stun_message \<Rightarrow> nice_agent \<Rightarrow> nice_agent option" where
  "relay_success env d res resp a = do {
     let lifetime = (case turn_lifetime res of None \<Rightarrow> env_lifetime env | Some l \<Rightarrow> l);
     a1 \<leftarrow> (if turn_ret res = STUN_USAGE_TURN_RETURN_MAPPED_SUCCESS
       then do { m \<leftarrow> fst (mapped_addr res); relay_mapped env d m a } else Some a);
     relay \<leftarrow> fst (relay_addr res);
     a2 \<leftarrow> (if sock_reliable (ag_sockets a1 (disc_socket d))
       then do {
         a2 \<leftarrow> relay_allocated env d relay lifetime resp NICE_CANDIDATE_TRANSPORT_TCP_ACTIVE a1;
         relay_allocated env d relay lifetime resp NICE_CANDIDATE_TRANSPORT_TCP_PASSIVE a2 }
       else relay_allocated env d relay lifetime resp NICE_CANDIDATE_TRANSPORT_UDP a1);
     Some (update_discovery (disc_ref d) discovery_done a2) }"

text \<open>
  An error that asks for credentials: \<open>438\<close>, or \<open>401\<close> with another realm than the one that was sent.
\<close>

definition asks_credentials :: "stun_message \<Rightarrow> stun_message \<Rightarrow> bool option" where
  "asks_credentials sent resp = do {
     sent_realm \<leftarrow> attr_value sent STUN_ATTRIBUTE_REALM;
     recv_realm \<leftarrow> attr_value resp STUN_ATTRIBUTE_REALM;
     c \<leftarrow> stun_message_get_class resp;
     if c \<noteq> STUN_ERROR then Some False
     else do {
       (val, code) \<leftarrow> stun_message_find_error resp;
       Some (val = STUN_MESSAGE_RETURN_SUCCESS \<and> (case recv_realm of None \<Rightarrow> False | Some r \<Rightarrow> r \<noteq> [] \<and>
         (code = Some 438 \<or> code = Some 401 \<and> sent_realm \<noteq> Some r))) } }"

text \<open>The copy of a response in the buffer of the process that keeps it.\<close>

definition kept_response :: "stun_message \<Rightarrow> stun_message option \<Rightarrow> stun_message option" where
  "kept_response resp old = do {
     n \<leftarrow> stun_message_length resp;
     let before = (case old of None \<Rightarrow> replicate STUN_MAX_MESSAGE_SIZE 0 | Some m \<Rightarrow> buffer m);
     if unat n > STUN_MAX_MESSAGE_SIZE \<or> unat n > length (buffer resp) then None
     else Some (resp\<lparr>buffer := take (unat n) (buffer resp) @ drop (unat n) before,
       buffer_len := STUN_MAX_MESSAGE_SIZE\<rparr>) }"

definition relay_refused ::
    "discovery \<Rightarrow> stun_message \<Rightarrow> stun_message \<Rightarrow> nice_agent \<Rightarrow> nice_agent option" where
  "relay_refused d sent resp a = do {
     again \<leftarrow> (if ag_compat a = NICE_COMPATIBILITY_RFC5245 \<or> ag_compat a = NICE_COMPATIBILITY_OC2007 \<or>
       ag_compat a = NICE_COMPATIBILITY_OC2007R2 then asks_credentials sent resp else Some False);
     if again then do {
       m \<leftarrow> kept_response resp (disc_resp d);
       Some (update_discovery (disc_ref d) (\<lambda>d. d\<lparr>disc_resp := Some m, disc_pending := False\<rparr>) a) }
     else Some (update_discovery (disc_ref d) discovery_done a) }"

fun relay_replies ::
    "ice_env \<Rightarrow> stun_message \<Rightarrow> bytes \<Rightarrow> nat list \<Rightarrow> nice_agent \<Rightarrow> (bool \<times> nice_agent) option" where
  "relay_replies env resp i [] a = Some (False, a)"
| "relay_replies env resp i (r # rs) a = do {
     d \<leftarrow> find_discovery a r;
     if disc_type d = NICE_CANDIDATE_TYPE_RELAYED \<and> awaits i (disc_message d) then do {
       sent \<leftarrow> disc_message d;
       res \<leftarrow> stun_usage_turn_process resp sizeof_sockaddr_storage sizeof_sockaddr_storage
         (Some sizeof_sockaddr_storage) (agent_to_turn_compatibility (ag_compat a));
       case turn_ret res of
         STUN_USAGE_TURN_RETURN_ALTERNATE_SERVER \<Rightarrow> do {
           (alt, _) \<leftarrow> alternate_addr res;
           alt \<leftarrow> alt;
           ts \<leftarrow> disc_turn d;
           relay_replies env resp i rs (update_discovery r (\<lambda>d. d\<lparr>disc_server := alt, disc_pending := False\<rparr>)
             (a\<lparr>ag_turns := (ag_turns a)(ts := (ag_turns a ts)\<lparr>ts_server := alt\<rparr>)\<rparr>)) }
       | STUN_USAGE_TURN_RETURN_INVALID \<Rightarrow> relay_replies env resp i rs a
       | STUN_USAGE_TURN_RETURN_ERROR \<Rightarrow> do { a1 \<leftarrow> relay_refused d sent resp a; Some (True, a1) }
       | _ \<Rightarrow> do { a1 \<leftarrow> relay_success env d res resp a; Some (True, a1) } }
     else relay_replies env resp i rs a }"

definition priv_map_reply_to_relay_request ::
    "ice_env \<Rightarrow> stun_message \<Rightarrow> nice_agent \<Rightarrow> (bool \<times> nice_agent) option" where
  "priv_map_reply_to_relay_request env resp a = do {
     i \<leftarrow> stun_message_id resp;
     relay_replies env resp i (map disc_ref (ag_discovery a)) a }"

section \<open>Refreshes\<close>

definition priv_turn_allocate_refresh_tick_unlocked :: "ice_env \<Rightarrow> nat \<Rightarrow> nice_agent \<Rightarrow> nice_agent option" where
  "priv_turn_allocate_refresh_tick_unlocked env r a = do {
     x \<leftarrow> find_refresh a r;
     ts \<leftarrow> turn (refr_candidate x);
     let dialect = agent_to_turn_compatibility (ag_compat a);
     let (user, pass) = turn_credentials env dialect (ag_turns a ts);
     let (rid, a1) = fresh_id env a;
     (n, msg, sa) \<leftarrow> stun_usage_turn_create_refresh (env_stun env) rid (refr_agent x)
       (message_memory env (refr_message x)) (env_buffer env STUN_MAX_MESSAGE_SIZE_IPV6)
       STUN_MAX_MESSAGE_SIZE_IPV6 (refr_resp x) (-1) (Some user) (Some pass) dialect;
     let a2 = update_refresh r (\<lambda>x. x\<lparr>refr_agent := sa, refr_message := Some msg, refr_tick_source := False\<rparr>) a1;
     if n = 0 then Some a2
     else
       let (t, a3) = read_clock env a2;
         a4 = agent_socket_send (refr_socket x) (refr_server x) (take n (buffer msg)) a3
       in Some (update_refresh r (\<lambda>x. x\<lparr>refr_tick_source := True, refr_timer :=
         stun_timer_start t STUN_TIMER_DEFAULT_TIMEOUT STUN_TIMER_DEFAULT_MAX_RETRANSMISSIONS\<rparr>)
         (snd (read_clock env a4))) }"

definition priv_turn_allocate_refresh_retransmissions_tick ::
    "ice_env \<Rightarrow> nat \<Rightarrow> nice_agent \<Rightarrow> nice_agent option" where
  "priv_turn_allocate_refresh_retransmissions_tick env r a = do {
     x \<leftarrow> find_refresh a r;
     let (t, a1) = read_clock env a;
     let (ret, timer) = stun_timer_refresh t (refr_timer x);
     let a2 = update_refresh r (\<lambda>x. x\<lparr>refr_timer := timer, refr_tick_source := False\<rparr>) a1;
     let again = (\<lambda>a. update_refresh r (\<lambda>x. x\<lparr>refr_tick_source := True\<rparr>) (snd (read_clock env a)));
     case ret of
       STUN_USAGE_TIMER_RETURN_TIMEOUT \<Rightarrow> do {
         m \<leftarrow> refr_message x;
         i \<leftarrow> stun_message_id m;
         let a3 = update_refresh r
           (\<lambda>x. x\<lparr>refr_agent := snd (stun_agent_forget_transaction (refr_agent x) i)\<rparr>) a2;
         x1 \<leftarrow> find_refresh a3 r;
         refresh_cancel env x1 a3 }
     | STUN_USAGE_TIMER_RETURN_RETRANSMIT \<Rightarrow> do {
         m \<leftarrow> refr_message x;
         n \<leftarrow> stun_message_length m;
         Some (again (agent_socket_send (refr_socket x) (refr_server x) (take (unat n) (buffer m)) a2)) }
     | STUN_USAGE_TIMER_RETURN_SUCCESS \<Rightarrow> Some (again a2) }"

text \<open>
  A response to a refresh. After a refusal the process is over or starts again, and the search ends
  (the C loop still reads the link of the process it has freed before it stops).
\<close>

definition refresh_refused :: "ice_env \<Rightarrow> refresh \<Rightarrow> stun_message \<Rightarrow> stun_message \<Rightarrow> nice_agent \<Rightarrow> nice_agent option" where
  "refresh_refused env x sent resp a = do {
     again \<leftarrow> (if ag_compat a = NICE_COMPATIBILITY_RFC5245 then asks_credentials sent resp else Some False);
     if again then do {
       m \<leftarrow> kept_response resp (refr_resp x);
       priv_turn_allocate_refresh_tick_unlocked env (refr_ref x)
         (update_refresh (refr_ref x) (\<lambda>x. x\<lparr>refr_resp := Some m\<rparr>) a) }
     else refresh_cancel env x a }"

fun refresh_replies ::
    "ice_env \<Rightarrow> stun_message \<Rightarrow> bytes \<Rightarrow> nat list \<Rightarrow> nice_agent \<Rightarrow> (bool \<times> nice_agent) option" where
  "refresh_replies env resp i [] a = Some (False, a)"
| "refresh_replies env resp i (r # rs) a = do {
     x \<leftarrow> find_refresh a r;
     if awaits i (refr_message x) then do {
       sent \<leftarrow> refr_message x;
       (res, lifetime) \<leftarrow> stun_usage_turn_refresh_process resp (agent_to_turn_compatibility (ag_compat a));
       case res of
         STUN_USAGE_TURN_RETURN_RELAY_SUCCESS \<Rightarrow>
           refresh_replies env resp i rs (update_refresh r (\<lambda>x. x\<lparr>refr_tick_source := False, refr_timer_source :=
             Some (refresh_timeout (case lifetime of None \<Rightarrow> env_lifetime env | Some l \<Rightarrow> l))\<rparr>) a)
       | STUN_USAGE_TURN_RETURN_ERROR \<Rightarrow> do { a1 \<leftarrow> refresh_refused env x sent resp a; Some (True, a1) }
       | _ \<Rightarrow> refresh_replies env resp i rs a }
     else refresh_replies env resp i rs a }"

definition priv_map_reply_to_relay_refresh ::
    "ice_env \<Rightarrow> stun_message \<Rightarrow> nice_agent \<Rightarrow> (bool \<times> nice_agent) option" where
  "priv_map_reply_to_relay_refresh env resp a = do {
     i \<leftarrow> stun_message_id resp;
     refresh_replies env resp i (map refr_ref (ag_refresh a)) a }"

end
