(* ===== verification/Ice_Inbound.thy ===== *)
theory Ice_Inbound
  imports Ice_Turn
begin

unbundle bit_operations_syntax

text \<open>
  The STUN packets that a component receives: \<open>conn_check_handle_inbound_stun\<close> of
  \<open>agent/conncheck.c\<close>.
\<close>

section \<open>Validation\<close>

text \<open>
  A packet that the agent of the component does not accept is shown to the agents of the discoveries
  and refreshes on the same socket; the last component of the result tells whether one took it.
\<close>

type_synonym verdict = "stun_validation \<times> stun_message \<times> bool"

definition refused :: "stun_validation \<Rightarrow> bool" where
  "refused v \<longleftrightarrow> v = STUN_VALIDATION_BAD_REQUEST \<or> v = STUN_VALIDATION_UNMATCHED_RESPONSE"

fun validate_discoveries ::
    "ice_env \<Rightarrow> (discovery \<Rightarrow> bool) \<Rightarrow> validater \<Rightarrow> bytes \<Rightarrow> discovery list \<Rightarrow> verdict \<Rightarrow>
      (verdict \<times> discovery list) option" where
  "validate_discoveries env P v buf [] x = Some (x, [])"
| "validate_discoveries env P v buf (d # ds) x =
    (if P d then do {
       let (_, msg0, found) = x;
       (valid, msg, sa) \<leftarrow> stun_agent_validate (env_stun env) (disc_agent d) msg0 buf (length buf) (Some v);
       let d1 = d\<lparr>disc_agent := sa\<rparr>;
       if valid = STUN_VALIDATION_UNMATCHED_RESPONSE then do {
         (y, ds1) \<leftarrow> validate_discoveries env P v buf ds (valid, msg, found);
         Some (y, d1 # ds1) }
       else Some ((valid, msg, True), d1 # ds) }
     else do { (y, ds1) \<leftarrow> validate_discoveries env P v buf ds x; Some (y, d # ds1) })"

fun validate_refreshes ::
    "ice_env \<Rightarrow> (refresh \<Rightarrow> bool) \<Rightarrow> validater \<Rightarrow> bytes \<Rightarrow> refresh list \<Rightarrow> verdict \<Rightarrow>
      (verdict \<times> refresh list) option" where
  "validate_refreshes env P v buf [] x = Some (x, [])"
| "validate_refreshes env P v buf (d # ds) x =
    (if P d then do {
       let (_, msg0, found) = x;
       (valid, msg, sa) \<leftarrow> stun_agent_validate (env_stun env) (refr_agent d) msg0 buf (length buf) (Some v);
       let d1 = d\<lparr>refr_agent := sa\<rparr>;
       if valid = STUN_VALIDATION_UNMATCHED_RESPONSE then do {
         (y, ds1) \<leftarrow> validate_refreshes env P v buf ds (valid, msg, found);
         Some (y, d1 # ds1) }
       else Some ((valid, msg, True), d1 # ds) }
     else do { (y, ds1) \<leftarrow> validate_refreshes env P v buf ds x; Some (y, d # ds1) })"

text \<open>The class that the validater reads from the packet it is asked about.\<close>

definition packet_class :: "ice_env \<Rightarrow> bytes \<Rightarrow> stun_class option" where
  "packet_class env buf = stun_message_get_class ((env_message env)\<lparr>buffer := buf, buffer_len := length buf\<rparr>)"

definition inbound_validate ::
    "ice_env \<Rightarrow> u32 \<Rightarrow> u32 \<Rightarrow> socket_id \<Rightarrow> bytes \<Rightarrow> nice_agent \<Rightarrow> (verdict \<times> nice_agent) option" where
  "inbound_validate env sid cid k buf a = do {
     (s, c) \<leftarrow> agent_find_component a sid cid;
     let v = conncheck_stun_validater env (ag_compat a) s c (packet_class env buf);
     (valid, msg, sa) \<leftarrow> stun_agent_validate (env_stun env) (comp_agent c) (env_message env) buf (length buf) (Some v);
     let a1 = update_component sid cid (\<lambda>c. c\<lparr>comp_agent := sa\<rparr>) a;
     let x = (valid, msg, False);
     (x, ds) \<leftarrow> (if refused (fst x) then validate_discoveries env
         (\<lambda>d. disc_stream d = sid \<and> disc_component d = cid \<and> disc_socket d = k) v buf (ag_discovery a1) x
       else Some (x, ag_discovery a1));
     (x, rs) \<leftarrow> (if refused (fst x) then validate_refreshes env
         (\<lambda>r. refr_stream r = sid \<and> refr_component r = cid \<and>
           (refr_socket r = k \<or> sockptr (refr_candidate r) = Some k)) v buf (ag_refresh a1) x
       else Some (x, ag_refresh a1));
     Some (x, a1\<lparr>ag_discovery := ds, ag_refresh := rs\<rparr>) }"

abbreviation (input) STUN_ERROR_UNAUTHORIZED :: stun_error where "STUN_ERROR_UNAUTHORIZED \<equiv> 401"

text \<open>The answers to requests that are refused; the MSN dialects stay silent.\<close>

definition error_reply ::
    "ice_env \<Rightarrow> u32 \<Rightarrow> u32 \<Rightarrow> sockaddr \<Rightarrow> socket_id \<Rightarrow> stun_message \<Rightarrow> stun_error \<Rightarrow> nice_agent \<Rightarrow> nice_agent option" where
  "error_reply env sid cid from k req code a = do {
     (_, c) \<leftarrow> agent_find_component a sid cid;
     (ok, msg) \<leftarrow> stun_agent_init_error (env_stun env) (comp_agent c) (env_message env)
       (env_buffer env MAX_STUN_DATAGRAM_PAYLOAD) MAX_STUN_DATAGRAM_PAYLOAD req code;
     if \<not> ok then Some a
     else do {
       (n, msg1, sa) \<leftarrow> stun_agent_finish_message (env_stun env) (comp_agent c) msg None;
       let a1 = update_component sid cid (\<lambda>c. c\<lparr>comp_agent := sa\<rparr>) a;
       Some (if n > 0 \<and> \<not> msn_like (ag_compat a) then agent_socket_send k from (take n (buffer msg1)) a1 else a1) } }"

definition unknown_reply ::
    "ice_env \<Rightarrow> u32 \<Rightarrow> u32 \<Rightarrow> sockaddr \<Rightarrow> socket_id \<Rightarrow> stun_message \<Rightarrow> nice_agent \<Rightarrow> nice_agent option" where
  "unknown_reply env sid cid from k req a =
    (if msn_like (ag_compat a) then Some a
     else do {
       (_, c) \<leftarrow> agent_find_component a sid cid;
       (n, msg, sa) \<leftarrow> stun_agent_build_unknown_attributes_error (env_stun env) (comp_agent c) (env_message env)
         (env_buffer env MAX_STUN_DATAGRAM_PAYLOAD) MAX_STUN_DATAGRAM_PAYLOAD req;
       let a1 = update_component sid cid (\<lambda>c. c\<lparr>comp_agent := sa\<rparr>) a;
       Some (if n \<noteq> 0 then agent_socket_send k from (take n (buffer msg)) a1 else a1) })"

section \<open>The candidates of a packet\<close>

definition by_username :: "nice_compat \<Rightarrow> bool" where
  "by_username dialect \<longleftrightarrow> dialect = NICE_COMPATIBILITY_GOOGLE \<or> msn_like dialect"

text \<open>The first remote and local candidate whose user name is the one of the packet.\<close>

definition candidates_named ::
    "ice_env \<Rightarrow> nice_compat \<Rightarrow> ice_stream \<Rightarrow> ice_component \<Rightarrow> bool \<Rightarrow> bytes option \<Rightarrow> (candidate \<times> candidate) option" where
  "candidates_named env dialect s c inbound user =
     find (\<lambda>(l, r). user = Some (priv_create_username env dialect s (comp_id c) (Some r) (Some l)
         NICE_STREAM_MAX_UNAME inbound))
       (concat (map (\<lambda>r. map (\<lambda>l. (l, r)) (comp_local c)) (comp_remote c)))"

record inbound_candidates =
  in_local :: "candidate option"
  in_remote :: "candidate option"
  in_named :: "candidate option"

definition inbound_match ::
    "ice_env \<Rightarrow> nice_agent \<Rightarrow> ice_stream \<Rightarrow> ice_component \<Rightarrow> sockaddr \<Rightarrow> socket_id \<Rightarrow> stun_class \<Rightarrow> bytes option \<Rightarrow>
      inbound_candidates" where
  "inbound_match env a s c from k cls user =
    (let r = find (\<lambda>x. nice_address_equal from (addr x)) (comp_remote c);
         l = find (\<lambda>x. nice_address_equal (sock_addr (ag_sockets a k)) (addr x)) (comp_local c);
         inbound = (ag_compat a = NICE_COMPATIBILITY_MSN \<or> cls = STUN_REQUEST \<or> cls = STUN_INDICATION)
     in case (if by_username (ag_compat a) then candidates_named env (ag_compat a) s c inbound user else None) of
       None \<Rightarrow> \<lparr>in_local = l, in_remote = r, in_named = None\<rparr>
     | Some (l2, r2) \<Rightarrow> \<lparr>in_local = Some l2, in_remote = r, in_named = Some r2\<rparr>)"

section \<open>Requests\<close>

text \<open>
  The MSN dialects answer with the key of a candidate; MSN also writes the user name of the answer
  over that of the request, in the buffer of the packet.
\<close>

definition overwrite :: "bytes \<Rightarrow> nat \<Rightarrow> bytes \<Rightarrow> bytes" where
  "overwrite b off new = take off b @ new @ drop (off + length new) b"

definition msn_request ::
    "ice_env \<Rightarrow> nice_agent \<Rightarrow> ice_stream \<Rightarrow> u32 \<Rightarrow> candidate \<Rightarrow> candidate \<Rightarrow> stun_message \<Rightarrow> stun_message option" where
  "msn_request env a s cid l r req =
    (if ag_compat a = NICE_COMPATIBILITY_MSN then do {
       found \<leftarrow> stun_message_find req STUN_ATTRIBUTE_USERNAME;
       (off, n) \<leftarrow> found;
       let u = take (unat n) (priv_create_username env (ag_compat a) s cid (Some r) (Some l) NICE_STREAM_MAX_UNAME False);
       p \<leftarrow> password r;
       Some (req\<lparr>buffer := overwrite (buffer req) off u, msg_key := Some (env_decode env p)\<rparr>) }
     else if ag_compat a = NICE_COMPATIBILITY_OC2007 then do {
       p \<leftarrow> password l;
       Some (req\<lparr>msg_key := Some (env_decode env p)\<rparr>) }
     else Some req)"

text \<open>A candidate of the peer at a new address, and its pairs.\<close>

definition learn_remote ::
    "ice_env \<Rightarrow> u32 \<Rightarrow> u32 \<Rightarrow> u32 \<Rightarrow> sockaddr \<Rightarrow> socket_id \<Rightarrow> candidate option \<Rightarrow> candidate option \<Rightarrow> nice_agent \<Rightarrow>
      (candidate \<times> nice_agent) option" where
  "learn_remote env sid cid prio from k l r a = do {
     (x, a1) \<leftarrow> discovery_learn_remote_peer_reflexive_candidate env sid cid prio from k l r a;
     a2 \<leftarrow> (case l of
         Some l \<Rightarrow> if transport l = NICE_CANDIDATE_TRANSPORT_TCP_PASSIVE
           then priv_conn_check_add_for_candidate_pair_matched env sid cid l x NICE_CHECK_DISCOVERED a1
           else do { (_, a2) \<leftarrow> conn_check_add_for_candidate env sid cid x a1; Some a2 }
       | None \<Rightarrow> do { (_, a2) \<leftarrow> conn_check_add_for_candidate env sid cid x a1; Some a2 });
     Some (x, a2) }"

text \<open>What follows a check that was answered with \<open>reply\<close>.\<close>

definition request_answered ::
    "ice_env \<Rightarrow> u32 \<Rightarrow> u32 \<Rightarrow> sockaddr \<Rightarrow> socket_id \<Rightarrow> bytes option \<Rightarrow> stun_message \<Rightarrow> inbound_candidates \<Rightarrow> bytes \<Rightarrow>
      nice_agent \<Rightarrow> nice_agent option" where
  "request_answered env sid cid from k user req x reply a = do {
     flag \<leftarrow> stun_usage_ice_conncheck_use_candidate req;
     prio \<leftarrow> stun_usage_ice_conncheck_priority req;
     let use_candidate = (flag \<or> ag_controlling a \<or> by_username (ag_compat a));
     let a1 = agent_signal_initial_binding_request_received sid a;
     (_, c) \<leftarrow> agent_find_component a1 sid cid;
     (rc, a2) \<leftarrow> (if comp_remote c \<noteq> [] \<and> in_remote x = None
       then do {
         (rc, a2) \<leftarrow> learn_remote env sid cid prio from k (in_local x) (in_named x) a1;
         Some (Some rc, a2) }
       else Some (in_remote x, a1));
     a3 \<leftarrow> priv_reply_to_conn_check env sid cid rc from k reply use_candidate a2;
     (_, c) \<leftarrow> agent_find_component a3 sid cid;
     if comp_remote c = []
     then do { (_, a4) \<leftarrow> priv_store_pending_check sid cid from k user prio use_candidate a3; Some a4 }
     else Some a3 }"

text \<open>False when the packet is no valid check.\<close>

definition inbound_request ::
    "ice_env \<Rightarrow> u32 \<Rightarrow> u32 \<Rightarrow> sockaddr \<Rightarrow> socket_id \<Rightarrow> bytes option \<Rightarrow> stun_message \<Rightarrow> inbound_candidates \<Rightarrow>
      nice_agent \<Rightarrow> (bool \<times> nice_agent) option" where
  "inbound_request env sid cid from k user req x a = do {
     (s, c) \<leftarrow> agent_find_component a sid cid;
     let unknown = (msn_like (ag_compat a) \<and> (in_local x = None \<or> in_named x = None));
     if unknown then Some (True, a)
     else do {
       req1 \<leftarrow> (case (in_local x, in_named x) of
           (Some l, Some r) \<Rightarrow> msn_request env a s cid l r req | _ \<Rightarrow> Some req);
       reply \<leftarrow> stun_usage_ice_conncheck_create_reply (env_stun env) (comp_agent c) req1 (env_message env)
         (env_buffer env MAX_STUN_DATAGRAM_PAYLOAD) MAX_STUN_DATAGRAM_PAYLOAD from sizeof_sockaddr_storage
         (ag_controlling a) (ag_tie_breaker a) (agent_to_ice_compatibility (ag_compat a));
       let a1 = update_component sid cid (\<lambda>c. c\<lparr>comp_agent := reply_agent reply\<rparr>) a;
       let a2 = (if reply_ret reply = STUN_USAGE_ICE_RETURN_ROLE_CONFLICT
         then priv_check_for_role_conflict (reply_control reply) a1 else a1);
       if reply_ret reply = STUN_USAGE_ICE_RETURN_SUCCESS \<or> reply_ret reply = STUN_USAGE_ICE_RETURN_ROLE_CONFLICT
       then do {
         a3 \<leftarrow> request_answered env sid cid from k user req1 x
           (take (reply_len reply) (buffer (reply_msg reply))) a2;
         Some (True, a3) }
       else Some (False, a2) } }"

section \<open>Responses\<close>

definition inbound_response ::
    "ice_env \<Rightarrow> u32 \<Rightarrow> u32 \<Rightarrow> sockaddr \<Rightarrow> socket_id \<Rightarrow> stun_message \<Rightarrow> inbound_candidates \<Rightarrow> nice_agent \<Rightarrow> nice_agent option" where
  "inbound_response env sid cid from k resp x a = do {
     (found, a1) \<leftarrow> priv_map_reply_to_conn_check_request env sid cid k from (in_local x) (in_remote x) resp a;
     (found, a2) \<leftarrow> (if found then Some (True, a1) else priv_map_reply_to_discovery_request env resp a1);
     (found, a3) \<leftarrow> (if found then Some (True, a2) else priv_map_reply_to_relay_request env resp a2);
     (found, a4) \<leftarrow> (if found then Some (True, a3) else priv_map_reply_to_relay_refresh env resp a3);
     (found, a5) \<leftarrow> (if found then Some (True, a4) else priv_map_reply_to_keepalive_conncheck sid cid resp a4);
     Some a5 }"

section \<open>Packets\<close>

definition conn_check_handle_inbound_stun ::
    "ice_env \<Rightarrow> u32 \<Rightarrow> u32 \<Rightarrow> socket_id \<Rightarrow> sockaddr \<Rightarrow> bytes \<Rightarrow> nice_agent \<Rightarrow> (bool \<times> nice_agent) option" where
  "conn_check_handle_inbound_stun env sid cid k from buf a = do {
     ((valid, req, discovery), a1) \<leftarrow> inbound_validate env sid cid k buf a;
     if valid = STUN_VALIDATION_NOT_STUN \<or> valid = STUN_VALIDATION_INCOMPLETE_STUN \<or>
       valid = STUN_VALIDATION_BAD_REQUEST then Some (False, a1)
     else if valid = STUN_VALIDATION_UNKNOWN_REQUEST_ATTRIBUTE
     then do { a2 \<leftarrow> unknown_reply env sid cid from k req a1; Some (True, a2) }
     else if valid = STUN_VALIDATION_UNAUTHORIZED
     then do { a2 \<leftarrow> error_reply env sid cid from k req STUN_ERROR_UNAUTHORIZED a1; Some (True, a2) }
     else if valid = STUN_VALIDATION_UNAUTHORIZED_BAD_REQUEST
     then do { a2 \<leftarrow> error_reply env sid cid from k req STUN_ERROR_BAD_REQUEST a1; Some (True, a2) }
     else do {
       user \<leftarrow> attr_value req STUN_ATTRIBUTE_USERNAME;
       cls \<leftarrow> stun_message_get_class req;
       (s, c) \<leftarrow> agent_find_component a1 sid cid;
       let x = inbound_match env a1 s c from k cls user;
       if comp_remote c \<noteq> [] \<and> ag_compat a1 = NICE_COMPATIBILITY_GOOGLE \<and> in_local x = None \<and> \<not> discovery
       then Some (True, a1)
       else if valid \<noteq> STUN_VALIDATION_SUCCESS then Some (False, a1)
       else if cls = STUN_REQUEST then inbound_request env sid cid from k user req x a1
       else do { a2 \<leftarrow> inbound_response env sid cid from k req x a1; Some (True, a2) } } }"

end
