(* ===== verification/Ice_Invariant.thy ===== *)
theory Ice_Invariant
  imports Ice_Inbound "HOL-Library.Sublist" "HOL-Library.Multiset"
begin

text \<open>
  The well-formedness of the agent, and that every operation of the ICE core keeps it: identities are
  unique, every pair lies in the check list of its own stream, belongs to one of its components and
  has the priority of its two candidates in the role the agent has now.

  The operations are partial (\<open>None\<close> is a fault) and nest deeply. \<open>yields\<close> is the partial correctness
  of a result, and each operation has one rule, in the collection \<open>keeps\<close>, that is applied to its calls.
\<close>

section \<open>Partial correctness of results\<close>

definition yields :: "('a \<Rightarrow> bool) \<Rightarrow> 'a option \<Rightarrow> bool" where
  "yields Q m = (case m of None \<Rightarrow> True | Some x \<Rightarrow> Q x)"

named_theorems keeps \<open>what the operations keep of the state\<close>

lemma yields_simps [simp]:
  "yields Q None" "yields Q (Some x) = Q x"
  "yields Q (m \<bind> f) = yields (\<lambda>x. yields Q (f x)) m"
  by (simp_all add: yields_def split: option.splits bind_splits)

lemma yieldsI: "(\<And>x. m = Some x \<Longrightarrow> Q x) \<Longrightarrow> yields Q m"
  by (auto simp: yields_def split: option.splits)

lemma yieldsD: "yields Q m \<Longrightarrow> m = Some x \<Longrightarrow> Q x"
  by (simp add: yields_def)

lemma yields_mono: "yields P m \<Longrightarrow> (\<And>x. P x \<Longrightarrow> Q x) \<Longrightarrow> yields Q m"
  by (auto simp: yields_def split: option.splits)

text \<open>Calls whose result does not matter for the state.\<close>

lemmas opaque_calls =
  yieldsI [where m = "sockptr c" for c] yieldsI [where m = "turn c" for c]
  yieldsI [where m = "pair_sock p" for p] yieldsI [where m = "disc_turn d" for d]
  yieldsI [where m = "stun_message_id msg" for msg] yieldsI [where m = "stun_message_length msg" for msg]
  yieldsI [where m = "stun_message_get_class msg" for msg] yieldsI [where m = "attr_value msg t" for msg t]
  yieldsI [where m = "agent_find_component a s c" for a s c] yieldsI [where m = "agent_find_stream a s" for a s]
  yieldsI [where m = "find_pair a s r" for a s r] yieldsI [where m = "find_discovery a r" for a r]
  yieldsI [where m = "find_refresh a r" for a r]
  yieldsI [where m = "stun_usage_ice_conncheck_create e i sa m b n u p k l pr t f d" for e i sa m b n u p k l pr t f d]
  yieldsI [where m = "stun_usage_ice_conncheck_process m n d" for m n d]
  yieldsI [where m = "stun_usage_ice_conncheck_use_candidate m" for m]
  yieldsI [where m = "stun_usage_ice_conncheck_priority m" for m]
  yieldsI [where m = "stun_usage_ice_conncheck_create_reply e a r m b n x l k t d" for e a r m b n x l k t d]
  yieldsI [where m = "stun_usage_bind_keepalive e i sa m b n" for e i sa m b n]
  yieldsI [where m = "stun_usage_bind_create e i sa m b n" for e i sa m b n]
  yieldsI [where m = "stun_usage_bind_process m n k" for m n k]
  yieldsI [where m = "stun_usage_turn_process m n k l d" for m n k l d]
  yieldsI [where m = "stun_usage_turn_refresh_process m d" for m d]
  yieldsI [where m = "stun_usage_turn_create_refresh e i sa m b n p l u w d" for e i sa m b n p l u w d]
  yieldsI [where m = "discovery_request e i d a" for e i d a]
  yieldsI [where m = "asks_credentials m n" for m n] yieldsI [where m = "kept_response m n" for m n]
  yieldsI [where m = "nice_udp_turn_socket_set_ms_realm m s" for m s]
  yieldsI [where m = "nice_udp_turn_socket_set_ms_connection_id m s" for m s]
  yieldsI [where m = "msn_request e a s c l r q" for e a s c l r q]
  yieldsI [where m = "stun_agent_validate e sa m b n v" for e sa m b n v]
  yieldsI [where m = "stun_agent_init_error e sa m b n q c" for e sa m b n q c]
  yieldsI [where m = "stun_agent_finish_message e sa m k" for e sa m k]
  yieldsI [where m = "stun_agent_build_unknown_attributes_error e sa m b n q" for e sa m b n q]
  yieldsI [where m = "reflexive_credentials e d x y c" for e d x y c]
  yieldsI [where m = "priv_assign_remote_foundation c a" for c a]
  yieldsI [where m = "validate_discoveries e p v b ds x" for e p v b ds x]
  yieldsI [where m = "validate_refreshes e p v b ds x" for e p v b ds x]
  yieldsI [where m = "disc_message d" for d] yieldsI [where m = "refr_message d" for d]
  yieldsI [where m = "sel_message p" for p] yieldsI [where m = "sel_local p" for p]
  yieldsI [where m = "sel_remote p" for p] yieldsI [where m = "fst x" for x]
  yieldsI [where m = "alternate_addr x" for x]

section \<open>Well-formed agents\<close>

definition stream_ok :: "nat \<Rightarrow> bool \<Rightarrow> ice_stream \<Rightarrow> bool" where
  "stream_ok n controlling s \<longleftrightarrow>
     distinct (map comp_id (strm_components s)) \<and> distinct (map pair_ref (strm_checks s)) \<and>
     list_all (\<lambda>p. pair_ref p < n \<and> pair_stream p = strm_id s \<and>
       pair_component p \<in> comp_id ` set (strm_components s) \<and>
       pair_priority p = (if controlling
         then nice_candidate_pair_priority (priority (pair_local p)) (priority (pair_remote p))
         else nice_candidate_pair_priority (priority (pair_remote p)) (priority (pair_local p)))) (strm_checks s)"

definition agent_ok :: "nice_agent \<Rightarrow> bool" where
  "agent_ok a \<longleftrightarrow> distinct (map strm_id (ag_streams a)) \<and>
     list_all (stream_ok (ag_next_ref a) (ag_controlling a)) (ag_streams a)"

text \<open>The part of a pair that well-formedness is about; a new list of checks may only lose pairs.\<close>

definition pair_key :: "check_pair \<Rightarrow> nat \<times> u32 \<times> u32 \<times> candidate \<times> candidate \<times> u64" where
  "pair_key p = (pair_ref p, pair_stream p, pair_component p, pair_local p, pair_remote p, pair_priority p)"

definition loses :: "check_pair list \<Rightarrow> check_pair list \<Rightarrow> bool" where
  "loses ps qs \<longleftrightarrow> subseq (map pair_key qs) (map pair_key ps)"

definition key_ok :: "nat \<Rightarrow> bool \<Rightarrow> u32 \<Rightarrow> u32 set \<Rightarrow> nat \<times> u32 \<times> u32 \<times> candidate \<times> candidate \<times> u64 \<Rightarrow> bool" where
  "key_ok n controlling sid cids = (\<lambda>(r, s, c, l, m, prio). r < n \<and> s = sid \<and> c \<in> cids \<and>
     prio = (if controlling then nice_candidate_pair_priority (priority l) (priority m)
       else nice_candidate_pair_priority (priority m) (priority l)))"

lemma stream_ok_keys:
  "stream_ok n ctl s \<longleftrightarrow> distinct (map comp_id (strm_components s)) \<and>
     distinct (map fst (map pair_key (strm_checks s))) \<and>
     list_all (key_ok n ctl (strm_id s) (comp_id ` set (strm_components s))) (map pair_key (strm_checks s))"
proof -
  have "map fst (map pair_key ps) = map pair_ref ps" for ps by (simp add: pair_key_def)
  then show ?thesis by (simp add: stream_ok_def list.pred_map comp_def pair_key_def key_ok_def)
qed

lemma subseq_list_all: "subseq xs ys \<Longrightarrow> list_all P ys \<Longrightarrow> list_all P xs"
  by (induction rule: list_emb.induct) auto

lemma subseq_distinct: "subseq xs ys \<Longrightarrow> distinct ys \<Longrightarrow> distinct xs"
  by (auto simp: subseq_conv_nths intro: distinct_nthsI)

lemma subseq_map_pred: "subseq xs ys \<Longrightarrow> subseq (map f xs) (map f ys)"
  by (rule subseq_map)

lemma loses_ok:
  assumes "loses (strm_checks s) qs" and "stream_ok n ctl s"
  shows "stream_ok n ctl (s\<lparr>strm_checks := qs\<rparr>)"
  using assms subseq_distinct [OF subseq_map [of "map pair_key qs" "map pair_key (strm_checks s)" fst]]
    subseq_list_all [of "map pair_key qs" "map pair_key (strm_checks s)"]
  by (auto simp: stream_ok_keys loses_def)

lemma loses_refl [simp]: "loses ps ps"
  by (simp add: loses_def)

lemma loses_trans: "loses ps qs \<Longrightarrow> loses qs rs \<Longrightarrow> loses ps rs"
  unfolding loses_def using subseq_order.trans by blast

lemma loses_map: "(\<And>p. p \<in> set ps \<Longrightarrow> pair_key (f p) = pair_key p) \<Longrightarrow> loses ps (map f ps)"
  by (simp add: loses_def comp_def cong: map_cong)

lemma loses_filter: "loses ps (filter P ps)"
  by (simp add: loses_def subseq_map subseq_filter_left)

subsection \<open>Updates\<close>

lemma agent_ok_fields [simp]:
  "agent_ok (emit e a) = agent_ok a" "agent_ok (a\<lparr>ag_clock := x1\<rparr>) = agent_ok a"
  "agent_ok (a\<lparr>ag_draws := x2\<rparr>) = agent_ok a" "agent_ok (a\<lparr>ag_sockets := x3\<rparr>) = agent_ok a"
  "agent_ok (a\<lparr>ag_discovery := x4\<rparr>) = agent_ok a" "agent_ok (a\<lparr>ag_refresh := x5\<rparr>) = agent_ok a"
  "agent_ok (a\<lparr>ag_unsched := x6\<rparr>) = agent_ok a" "agent_ok (a\<lparr>ag_discovery_timer := x7\<rparr>) = agent_ok a"
  "agent_ok (a\<lparr>ag_check_timer := x8\<rparr>) = agent_ok a" "agent_ok (a\<lparr>ag_keepalive_timer := x9\<rparr>) = agent_ok a"
  "agent_ok (a\<lparr>ag_media_after_tick := x10\<rparr>) = agent_ok a" "agent_ok (a\<lparr>ag_turns := x11\<rparr>) = agent_ok a"
  "agent_ok (a\<lparr>ag_next_candidate_id := x12\<rparr>) = agent_ok a" "agent_ok (agent_socket_send k to b a) = agent_ok a"
  "agent_ok (update_discovery r f a) = agent_ok a" "agent_ok (update_refresh r g a) = agent_ok a"
  by (simp_all add: agent_ok_def emit_def agent_socket_send_def update_discovery_def update_refresh_def)

lemma component_ids_fields [simp]:
  "component_ids (emit e a) = component_ids a" "component_ids (a\<lparr>ag_clock := x1\<rparr>) = component_ids a"
  "component_ids (a\<lparr>ag_draws := x2\<rparr>) = component_ids a" "component_ids (a\<lparr>ag_sockets := x3\<rparr>) = component_ids a"
  "component_ids (a\<lparr>ag_discovery := x4\<rparr>) = component_ids a" "component_ids (a\<lparr>ag_refresh := x5\<rparr>) = component_ids a"
  "component_ids (a\<lparr>ag_unsched := x6\<rparr>) = component_ids a"
  "component_ids (a\<lparr>ag_discovery_timer := x7\<rparr>) = component_ids a"
  "component_ids (a\<lparr>ag_check_timer := x8\<rparr>) = component_ids a"
  "component_ids (a\<lparr>ag_keepalive_timer := x9\<rparr>) = component_ids a"
  "component_ids (a\<lparr>ag_media_after_tick := x10\<rparr>) = component_ids a"
  "component_ids (a\<lparr>ag_turns := x11\<rparr>) = component_ids a"
  "component_ids (a\<lparr>ag_next_candidate_id := x12\<rparr>) = component_ids a"
  "component_ids (a\<lparr>ag_next_ref := x13\<rparr>) = component_ids a"
  "component_ids (a\<lparr>ag_controlling := x14\<rparr>) = component_ids a"
  "component_ids (agent_socket_send k to b a) = component_ids a"
  "component_ids (update_discovery r f a) = component_ids a" "component_ids (update_refresh r g a) = component_ids a"
  by (simp_all add: component_ids_def emit_def agent_socket_send_def update_discovery_def update_refresh_def)

lemma agent_ok_ref [simp]: "agent_ok a \<Longrightarrow> agent_ok (a\<lparr>ag_next_ref := ag_next_ref a + 1\<rparr>)"
  by (force simp: agent_ok_def stream_ok_def list_all_iff)

lemma stream_update_ids:
  "(\<And>s. strm_id (f s) = strm_id s) \<Longrightarrow>
     map strm_id (map (\<lambda>s. if strm_id s = sid then f s else s) ss) = map strm_id ss"
  by (simp add: comp_def cong: if_cong)

lemma agent_ok_update_stream:
  assumes "agent_ok a" and "\<And>s. strm_id (f s) = strm_id s"
    and "\<And>s. s \<in> set (ag_streams a) \<Longrightarrow> strm_id s = sid \<Longrightarrow> stream_ok (ag_next_ref a) (ag_controlling a) s \<Longrightarrow>
      stream_ok (ag_next_ref a) (ag_controlling a) (f s)"
  shows "agent_ok (update_stream sid f a)"
  using assms(1) assms(3) stream_update_ids [of f, OF assms(2)]
  by (auto simp: agent_ok_def update_stream_def list_all_iff simp del: map_map)

lemma component_ids_update_stream:
  assumes "\<And>s. strm_id (f s) = strm_id s"
    and "\<And>s. map comp_id (strm_components (f s)) = map comp_id (strm_components s)"
  shows "component_ids (update_stream sid f a) = component_ids a"
proof -
  have "map (\<lambda>c. (strm_id (f s), comp_id c)) (strm_components (f s)) =
      map (\<lambda>c. (strm_id s, comp_id c)) (strm_components s)" for s
  proof -
    have "map (\<lambda>c. (strm_id (f s), comp_id c)) (strm_components (f s)) =
        map (Pair (strm_id s)) (map comp_id (strm_components (f s)))" by (simp add: assms(1) comp_def)
    then show ?thesis by (simp add: assms(2) comp_def)
  qed
  then show ?thesis
    unfolding component_ids_def update_stream_def by (auto intro!: arg_cong [of _ _ concat])
qed

lemma comp_ids_update:
  "(\<And>c. comp_id (f c) = comp_id c) \<Longrightarrow>
     map comp_id (map (\<lambda>c. if comp_id c = cid then f c else c) cs) = map comp_id cs"
  by (simp add: comp_def if_distrib cong: if_cong)

lemma stream_ok_components:
  assumes "map comp_id cs = map comp_id (strm_components s)"
  shows "stream_ok n ctl (s\<lparr>strm_components := cs\<rparr>) = stream_ok n ctl s"
proof -
  have "comp_id ` set cs = comp_id ` set (strm_components s)"
    using arg_cong [OF assms, of set] by (simp only: set_map)
  then show ?thesis by (simp add: stream_ok_def assms)
qed

lemma update_component_ok [simp]:
  assumes "\<And>c. comp_id (f c) = comp_id c"
  shows "agent_ok a \<Longrightarrow> agent_ok (update_component sid cid f a)"
    "component_ids (update_component sid cid f a) = component_ids a"
  unfolding update_component_def
   apply (erule agent_ok_update_stream)
    apply simp
   apply (simp only: stream_ok_components [OF comp_ids_update [of f, OF assms]])
  apply (rule component_ids_update_stream; simp add: comp_ids_update [of f, OF assms] del: map_map)
  done

lemma update_checks_ok:
  assumes "\<And>s. s \<in> set (ag_streams a) \<Longrightarrow> strm_id s = sid \<Longrightarrow> loses (strm_checks s) (f (strm_checks s))"
  shows "agent_ok a \<Longrightarrow> agent_ok (update_checks sid f a)"
  unfolding update_checks_def by (erule agent_ok_update_stream) (simp_all add: assms loses_ok)

lemma component_ids_checks [simp]: "component_ids (update_checks sid f a) = component_ids a"
  unfolding update_checks_def by (rule component_ids_update_stream) simp_all

lemma update_pair_ok [simp]:
  assumes "\<And>p. pair_key (f p) = pair_key p"
  shows "agent_ok a \<Longrightarrow> agent_ok (update_pair sid r f a)"
  unfolding update_pair_def set_pair_def by (erule update_checks_ok [rotated]) (simp add: loses_map assms)

lemma component_ids_pair [simp]: "component_ids (update_pair sid r f a) = component_ids a"
  by (simp add: update_pair_def)

lemma update_selected_ok [simp]:
  "agent_ok a \<Longrightarrow> agent_ok (update_selected sid cid f a)"
  "component_ids (update_selected sid cid f a) = component_ids a"
  by (simp_all add: update_selected_def)

lemma update_stream_flag_ok [simp]:
  "agent_ok a \<Longrightarrow> agent_ok (update_stream sid (\<lambda>s. s\<lparr>strm_binding_received := x\<rparr>) a)"
  "component_ids (update_stream sid (\<lambda>s. s\<lparr>strm_binding_received := x\<rparr>) a) = component_ids a"
   apply (erule agent_ok_update_stream; simp add: stream_ok_def)
  by (rule component_ids_update_stream) simp_all

lemma pair_key_updates [simp]:
  "pair_key (p\<lparr>pair_state := x1\<rparr>) = pair_key p" "pair_key (p\<lparr>pair_message := x2\<rparr>) = pair_key p"
  "pair_key (p\<lparr>pair_nominated := x3\<rparr>) = pair_key p" "pair_key (p\<lparr>pair_timer := x4\<rparr>) = pair_key p"
  "pair_key (p\<lparr>pair_next_tick := x5\<rparr>) = pair_key p" "pair_key (p\<lparr>pair_sock := x6\<rparr>) = pair_key p"
  "pair_key (p\<lparr>pair_timer_restarted := x7\<rparr>) = pair_key p"
  "pair_key (set_state st p) = pair_key p" "pair_key (clear_message p) = pair_key p"
  "pair_key (tick_later env t n p) = pair_key p"
  by (simp_all add: pair_key_def set_state_def clear_message_def tick_later_def)

lemma found_stream: "agent_find_stream a sid = Some s \<Longrightarrow> s \<in> set (ag_streams a) \<and> strm_id s = sid"
  by (auto simp: agent_find_stream_def find_Some_iff)

lemma unique_stream:
  "agent_ok a \<Longrightarrow> agent_find_stream a sid = Some s \<Longrightarrow> t \<in> set (ag_streams a) \<Longrightarrow> strm_id t = sid \<Longrightarrow> t = s"
  using found_stream [of a sid s] by (auto simp: agent_ok_def distinct_map inj_on_def)

lemma update_checks_const_ok:
  "agent_ok a \<Longrightarrow> agent_find_stream a sid = Some s \<Longrightarrow> loses (strm_checks s) qs \<Longrightarrow>
     agent_ok (update_checks sid (\<lambda>_. qs) a)"
  by (rule update_checks_ok) (use unique_stream in blast)+

lemma found_component:
  "agent_find_component a sid cid = Some (s, c) \<Longrightarrow>
     agent_find_stream a sid = Some s \<and> c \<in> set (strm_components s) \<and> comp_id c = cid"
  by (auto simp: agent_find_component_def stream_find_component_by_id_def find_Some_iff split: bind_splits)

lemma found_ids: "agent_find_component a sid cid = Some (s, c) \<Longrightarrow> (sid, cid) \<in> set (component_ids a)"
  using found_component [of a sid cid s c] found_stream [of a sid s] by (force simp: component_ids_def)

section \<open>The operations\<close>

text \<open>The rule of an operation \<open>f\<close>: from a well-formed state, what it leaves is well formed.\<close>

lemmas clock_defs = read_clock_def fresh_id_def

lemma signal_state_ok [simp]:
  "agent_ok a \<Longrightarrow> agent_ok (agent_signal_component_state_change sid cid st a)"
  "component_ids (agent_signal_component_state_change sid cid st a) = component_ids a"
  by (simp_all add: agent_signal_component_state_change_def Let_def split: option.split)

lemma signal_binding_ok [simp]:
  "agent_ok a \<Longrightarrow> agent_ok (agent_signal_initial_binding_request_received sid a)"
  "component_ids (agent_signal_initial_binding_request_received sid a) = component_ids a"
  by (simp_all add: agent_signal_initial_binding_request_received_def split: option.split)

lemma signal_selected_keeps [keeps]:
  "agent_ok a \<Longrightarrow> (\<And>b. agent_ok b \<Longrightarrow> component_ids b = component_ids a \<Longrightarrow> Q b) \<Longrightarrow>
     yields Q (agent_signal_new_selected_pair sid cid l r a)"
  by (auto simp: agent_signal_new_selected_pair_def Let_def split: option.split intro!: opaque_calls)

subsection \<open>Check lists\<close>

lemma first_frozen_stream: "first_frozen ss = Some (sid, p) \<Longrightarrow> \<exists>s\<in>set ss. strm_id s = sid"
  by (induction ss) (auto split: option.splits)

lemma unfreeze_next_ok [simp]:
  "agent_ok a \<Longrightarrow> agent_ok (snd (priv_conn_check_unfreeze_next a))"
  "component_ids (snd (priv_conn_check_unfreeze_next a)) = component_ids a"
  by (simp_all add: priv_conn_check_unfreeze_next_def split: option.split)

lemma unfreeze_where_loses: "loses ps (unfreeze_where P ps)"
  unfolding unfreeze_where_def by (rule loses_map) simp

lemma unfreeze_others_loses: "unfreeze_others ok sids n ps = (m, qs) \<Longrightarrow> loses ps qs"
  by (induction ok sids n ps rule: unfreeze_others.induct)
    (auto simp: Let_def unfreeze_where_loses split: if_splits intro: loses_trans [OF unfreeze_where_loses])

lemma unfreeze_related_keeps [keeps]:
  assumes "agent_ok a" and "\<And>b. agent_ok b \<Longrightarrow> component_ids b = component_ids a \<Longrightarrow> Q b"
  shows "yields Q (priv_conn_check_unfreeze_related sid p a)"
proof (rule yieldsI)
  fix b
  assume run: "priv_conn_check_unfreeze_related sid p a = Some b"
  have c: "\<not> (pair_state p \<noteq> NICE_CHECK_SUCCEEDED \<or> sid \<noteq> pair_stream p)"
    using run unfolding priv_conn_check_unfreeze_related_def by (metis (full_types) option.distinct(1))
  then have sid: "pair_stream p = sid" and st: "pair_state p = NICE_CHECK_SUCCEEDED" by simp_all
  obtain s where s: "agent_find_stream a sid = Some s"
    using run c unfolding priv_conn_check_unfreeze_related_def by (cases "agent_find_stream a sid") simp_all
  let ?P = "\<lambda>q. pair_stream q = sid \<and> unfreezes p q"
  let ?u = "unfreeze_where ?P (strm_checks s)" and ?n = "length (filter ?P (strm_checks s))"
  obtain m qs where q: "(if stream_all_components_ready s then
      unfreeze_others p (map strm_id (ag_streams a)) ?n ?u else (?n, ?u)) = (m, qs)" by fastforce
  have b: "b = (if m = 0 then snd (priv_conn_check_unfreeze_next (update_checks sid (\<lambda>_. qs) a))
      else update_checks sid (\<lambda>_. qs) a)"
    using run unfolding priv_conn_check_unfreeze_related_def by (simp add: s q sid st Let_def)
  have "loses (strm_checks s) qs"
    using q by (auto split: if_splits intro: unfreeze_where_loses loses_trans [OF unfreeze_where_loses]
        dest: unfreeze_others_loses)
  from update_checks_const_ok [OF assms(1) s this] show "Q b" unfolding b by (intro assms(2)) simp_all
qed

lemma pair_fail_keeps [keeps]:
  "agent_ok a \<Longrightarrow> (\<And>b. agent_ok b \<Longrightarrow> component_ids b = component_ids a \<Longrightarrow> Q b) \<Longrightarrow>
     yields Q (candidate_check_pair_fail sid r a)"
  by (auto simp: candidate_check_pair_fail_def Let_def split: option.split intro!: opaque_calls
      yieldsI [where m = "stream_find_component_by_id s c" for s c])

lemma limit_checks_loses: "loses ps (limit_checks l v ps)"
proof -
  have "map pair_key (limit_checks l v ps) = map pair_key ps"
    by (induction l v ps rule: limit_checks.induct) auto
  then show ?thesis by (simp add: loses_def)
qed

text \<open>
  What GLib documents of \<open>g_slist_insert_sorted\<close>, for any comparison: it returns a positive number when
  its first argument comes after the second one in the order; the new element is added, and a list
  that is sorted by the comparison stays sorted by it. Which order the comparison of the code is, is
  proved from the code below.
\<close>

definition comparison :: "('a \<Rightarrow> 'a \<Rightarrow> int) \<Rightarrow> bool" where
  "comparison cmp \<longleftrightarrow> (\<forall>x y. 0 < cmp x y \<longleftrightarrow> cmp y x < 0) \<and> transp (\<lambda>x y. cmp x y \<le> 0)"

definition inserts :: "ice_env \<Rightarrow> bool" where
  "inserts env \<longleftrightarrow> (\<forall>cmp ps p. mset (env_insert_sorted env cmp ps p) = add_mset p (mset ps) \<and>
     (comparison cmp \<and> sorted_wrt (\<lambda>x y. cmp x y \<le> 0) ps \<longrightarrow>
       sorted_wrt (\<lambda>x y. cmp x y \<le> 0) (env_insert_sorted env cmp ps p)))"

definition by_priority :: "check_pair list \<Rightarrow> bool" where
  "by_priority = sorted_wrt (\<lambda>p q. pair_priority p \<ge> pair_priority q)"

text \<open>The comparison of the code puts the higher priority first.\<close>

lemma conn_check_compare_order: "conn_check_compare p q \<le> 0 \<longleftrightarrow> pair_priority p \<ge> pair_priority q"
  by (auto simp: conn_check_compare_def)

lemma conn_check_comparison: "comparison conn_check_compare"
proof -
  have "0 < conn_check_compare p q \<longleftrightarrow> conn_check_compare q p < 0" for p q
    by (auto simp: conn_check_compare_def split: if_splits)
  then show ?thesis by (auto simp: comparison_def transp_def conn_check_compare_order)
qed

lemma inserts_by_priority:
  assumes "inserts env" and "by_priority ps"
  shows "by_priority (env_insert_sorted env conn_check_compare ps p)"
proof -
  have "sorted_wrt (\<lambda>x y. conn_check_compare x y \<le> 0) ps"
    using assms(2) by (simp add: by_priority_def conn_check_compare_order)
  then have "sorted_wrt (\<lambda>x y. conn_check_compare x y \<le> 0) (env_insert_sorted env conn_check_compare ps p)"
    using assms(1) conn_check_comparison by (simp add: inserts_def)
  then show ?thesis by (simp add: by_priority_def conn_check_compare_order)
qed

lemma inserted_ok:
  assumes "inserts env" and "stream_ok n ctl s" and "pair_ref p = n"
    and "key_ok (n + 1) ctl (strm_id s) (comp_id ` set (strm_components s)) (pair_key p)"
  shows "stream_ok (n + 1) ctl (s\<lparr>strm_checks := env_insert_sorted env conn_check_compare (strm_checks s) p\<rparr>)"
proof -
  let ?ps = "strm_checks s" and ?qs = "env_insert_sorted env conn_check_compare (strm_checks s) p"
  have m: "mset ?qs = add_mset p (mset ?ps)" using assms(1) by (simp add: inserts_def)
  have set: "set ?qs = insert p (set ?ps)" using arg_cong [OF m, of set_mset] by simp
  have fresh: "pair_ref p \<notin> pair_ref ` set ?ps" using assms(2,3) by (auto simp: stream_ok_def list_all_iff)
  have "mset (map pair_ref ?qs) = mset (map pair_ref (p # ?ps))" by (simp add: m)
  moreover have "distinct (map pair_ref (p # ?ps))" using assms(2) fresh by (simp add: stream_ok_def)
  ultimately have "distinct (map pair_ref ?qs)" by (metis mset_eq_imp_distinct_iff)
  then show ?thesis using assms(2,4) unfolding stream_ok_keys
    by (auto simp: set list_all_iff key_ok_def pair_key_def comp_def split: if_splits)
qed

lemma agent_ok_insert:
  assumes "inserts env" and "agent_ok a" and "(pair_stream p, pair_component p) \<in> set (component_ids a)"
    and "pair_ref p = ag_next_ref a"
    and "pair_priority p = agent_candidate_pair_priority a (pair_local p) (pair_remote p)"
  shows "agent_ok (insert_pair env p a)"
proof -
  have key: "key_ok (ag_next_ref a + 1) (ag_controlling a) (strm_id s) (comp_id ` set (strm_components s)) (pair_key p)"
    if "s \<in> set (ag_streams a)" "strm_id s = pair_stream p" for s
  proof -
    from assms(3) obtain t where t: "t \<in> set (ag_streams a)" "strm_id t = pair_stream p"
      "pair_component p \<in> comp_id ` set (strm_components t)" by (auto simp: component_ids_def)
    then have "t = s" using assms(2) that by (auto simp: agent_ok_def distinct_map inj_on_def)
    with t that assms(4,5) show ?thesis
      by (auto simp: key_ok_def pair_key_def agent_candidate_pair_priority_def)
  qed
  have ok: "stream_ok (ag_next_ref a + 1) (ag_controlling a)
      (if strm_id s = pair_stream p
       then s\<lparr>strm_checks := env_insert_sorted env conn_check_compare (strm_checks s) p\<rparr> else s)"
    if "s \<in> set (ag_streams a)" for s
    using that assms(2) agent_ok_ref [OF assms(2)] inserted_ok [OF assms(1) _ assms(4) key [OF that]]
    by (auto simp: agent_ok_def list_all_iff)
  let ?f = "\<lambda>s. s\<lparr>strm_checks := env_insert_sorted env conn_check_compare (strm_checks s) p\<rparr>"
  have "map strm_id (map (\<lambda>s. if strm_id s = pair_stream p then ?f s else s) (ag_streams a)) =
      map strm_id (ag_streams a)" by (rule stream_update_ids) simp
  moreover have "list_all (stream_ok (ag_next_ref a + 1) (ag_controlling a))
      (map (\<lambda>s. if strm_id s = pair_stream p then ?f s else s) (ag_streams a))"
    unfolding list.pred_map using ok by (auto simp: list_all_iff simp del: One_nat_def add_Suc_right)
  ultimately show ?thesis using assms(2)
    by (simp add: agent_ok_def insert_pair_def update_checks_def update_stream_def del: map_map)
qed

lemma component_ids_insert [simp]: "component_ids (insert_pair env p a) = component_ids a"
  by (simp add: insert_pair_def)

lemma new_pair_fields [simp]:
  "pair_ref (new_pair a sid cid l r k st n prio) = ag_next_ref a"
  "pair_stream (new_pair a sid cid l r k st n prio) = sid"
  "pair_component (new_pair a sid cid l r k st n prio) = cid"
  "pair_local (new_pair a sid cid l r k st n prio) = l"
  "pair_remote (new_pair a sid cid l r k st n prio) = r"
  "pair_state (new_pair a sid cid l r k st n prio) = st"
  "pair_nominated (new_pair a sid cid l r k st n prio) = n"
  "pair_priority (new_pair a sid cid l r k st n prio) = prio"
  by (simp_all add: new_pair_def)

lemma insert_new_ok:
  "inserts env \<Longrightarrow> agent_ok a \<Longrightarrow> (sid, cid) \<in> set (component_ids a) \<Longrightarrow>
     agent_ok (insert_pair env (new_pair a sid cid l r k st n (agent_candidate_pair_priority a l r)) a)"
  by (rule agent_ok_insert) simp_all

lemma add_new_pair_keeps [keeps]:
  assumes "inserts env" and "agent_ok a" and "(sid, cid) \<in> set (component_ids a)"
    and "\<And>b. agent_ok b \<Longrightarrow> component_ids b = component_ids a \<Longrightarrow> Q b"
  shows "yields Q (priv_add_new_check_pair env sid cid l r st n a)"
  by (auto simp: priv_add_new_check_pair_def Let_def priv_limit_conn_check_list_size_def limit_checks_loses
      intro!: opaque_calls assms(4) update_checks_ok insert_new_ok assms(1-3))

lemma add_matched_keeps [keeps]:
  assumes "inserts env" and "agent_ok a" and "(sid, cid) \<in> set (component_ids a)"
    and "\<And>b. agent_ok b \<Longrightarrow> component_ids b = component_ids a \<Longrightarrow> Q b"
  shows "yields Q (priv_conn_check_add_for_candidate_pair_matched env sid cid l r st a)"
  by (auto simp: priv_conn_check_add_for_candidate_pair_matched_def
      intro!: opaque_calls assms(4) keeps assms(1-3))

lemma add_pair_keeps [keeps]:
  assumes "inserts env" and "agent_ok a" and "(sid, cid) \<in> set (component_ids a)"
    and "\<And>x b. agent_ok b \<Longrightarrow> component_ids b = component_ids a \<Longrightarrow> Q (x, b)"
  shows "yields Q (conn_check_add_for_candidate_pair env sid cid l r a)"
  by (auto simp: conn_check_add_for_candidate_pair_def intro!: assms(4) keeps assms(1-3))

lemma add_pairs_keeps [keeps]:
  assumes "inserts env" and "agent_ok a" and "(sid, cid) \<in> set (component_ids a)"
    and "\<And>x b. agent_ok b \<Longrightarrow> component_ids b = component_ids a \<Longrightarrow> Q (x, b)"
  shows "yields Q (add_pairs env sid cid ps a)"
  using assms(2-)
proof (induction ps arbitrary: a Q)
  case (Cons q ps)
  show ?case by (cases q) (auto intro!: keeps assms(1) Cons)
qed simp

lemma add_for_candidate_keeps [keeps]:
  assumes "inserts env" and "agent_ok a"
    and "\<And>x b. agent_ok b \<Longrightarrow> component_ids b = component_ids a \<Longrightarrow> Q (x, b)"
  shows "yields Q (conn_check_add_for_candidate env sid cid l a)"
    "yields Q (conn_check_add_for_local_candidate env sid cid l a)"
  by (auto simp: conn_check_add_for_candidate_def conn_check_add_for_local_candidate_def
      intro!: opaque_calls assms(3) keeps assms(1,2) dest: found_ids)

subsection \<open>Sending checks\<close>

lemma connect_active_ok [simp]:
  "agent_ok a \<Longrightarrow> agent_ok (snd (connect_active env k p a))"
  "component_ids (snd (connect_active env k p a)) = component_ids a"
  by (simp_all add: connect_active_def component_attach_socket_def split: option.split prod.split)

lemma launch_check_keeps [keeps]:
  "agent_ok a \<Longrightarrow> (\<And>b. agent_ok b \<Longrightarrow> component_ids b = component_ids a \<Longrightarrow> Q b) \<Longrightarrow>
     yields Q (launch_check env sid r b' a)"
  by (auto simp: launch_check_def start_check_timer_def clock_defs Let_def split_beta intro!: opaque_calls)

lemma check_send_keeps [keeps]:
  "agent_ok a \<Longrightarrow> (\<And>b. agent_ok b \<Longrightarrow> component_ids b = component_ids a \<Longrightarrow> Q b) \<Longrightarrow>
     yields Q (conn_check_send env sid r a)"
  by (auto simp: conn_check_send_def clock_defs Let_def split: option.split intro!: opaque_calls keeps)

lemma initiate_keeps [keeps]:
  "agent_ok a \<Longrightarrow> (\<And>b. agent_ok b \<Longrightarrow> component_ids b = component_ids a \<Longrightarrow> Q b) \<Longrightarrow>
     yields Q (priv_conn_check_initiate env sid r a)"
  by (auto simp: priv_conn_check_initiate_def clock_defs Let_def intro!: keeps)

subsection \<open>Candidates\<close>

lemma discovery_free_ok [simp]:
  "agent_ok (discovery_free a) = agent_ok a" "component_ids (discovery_free a) = component_ids a"
  by (simp_all add: discovery_free_def agent_ok_def component_ids_def)

lemma discovery_prune_ok [simp]:
  "agent_ok (discovery_prune P a) = agent_ok a" "component_ids (discovery_prune P a) = component_ids a"
  by (simp_all add: discovery_prune_def Let_def)

lemma refresh_free_item_keeps [keeps]:
  "agent_ok a \<Longrightarrow> (\<And>b. agent_ok b \<Longrightarrow> component_ids b = component_ids a \<Longrightarrow> Q b) \<Longrightarrow>
     yields Q (refresh_free_item env r a)"
  by (auto simp: refresh_free_item_def clock_defs Let_def split_beta intro!: opaque_calls)

lemma free_refreshes_keeps [keeps]:
  "agent_ok a \<Longrightarrow> (\<And>b. agent_ok b \<Longrightarrow> component_ids b = component_ids a \<Longrightarrow> Q b) \<Longrightarrow>
     yields Q (free_refreshes env rs a)"
  by (induction rs arbitrary: a Q) (auto intro!: keeps)

lemma refresh_prune_keeps [keeps]:
  assumes "agent_ok a" and "\<And>b. agent_ok b \<Longrightarrow> component_ids b = component_ids a \<Longrightarrow> Q b"
  shows "yields Q (refresh_prune_candidate env c a)" "yields Q (refresh_cancel env x a)"
  using assms by (auto simp: refresh_prune_candidate_def refresh_cancel_def intro!: keeps)

lemma ref_taken_ok [simp]:
  "agent_ok a \<Longrightarrow> agent_ok (ref_taken a)" "component_ids (ref_taken a) = component_ids a"
  using agent_ok_ref [of a] by (simp_all add: ref_taken_def)

lemma assign_foundation_ok [simp]:
  "agent_ok (snd (priv_assign_foundation c a)) = agent_ok a"
  "component_ids (snd (priv_assign_foundation c a)) = component_ids a"
  by (simp_all add: priv_assign_foundation_def split: option.split)

lemma add_local_keeps [keeps]:
  "inserts env \<Longrightarrow> agent_ok a \<Longrightarrow> (\<And>x b. agent_ok b \<Longrightarrow> component_ids b = component_ids a \<Longrightarrow> Q (x, b)) \<Longrightarrow>
     yields Q (priv_add_local_candidate_pruned env sid cid c a)"
  by (auto simp: priv_add_local_candidate_pruned_def intro!: opaque_calls keeps)

lemma add_server_reflexive_keeps [keeps]:
  "inserts env \<Longrightarrow> agent_ok a \<Longrightarrow> (\<And>x b. agent_ok b \<Longrightarrow> component_ids b = component_ids a \<Longrightarrow> Q (x, b)) \<Longrightarrow>
     yields Q (discovery_add_server_reflexive_candidate env sid cid to t k n a)"
  by (auto simp: discovery_add_server_reflexive_candidate_def Let_def split_beta split: option.split intro!: keeps)

lemma add_reflexives_keeps [keeps]:
  "inserts env \<Longrightarrow> agent_ok a \<Longrightarrow> (\<And>b. agent_ok b \<Longrightarrow> component_ids b = component_ids a \<Longrightarrow> Q b) \<Longrightarrow>
     yields Q (add_reflexives env sid cid to cs a)"
  by (induction cs arbitrary: a Q) (auto intro!: opaque_calls keeps)

lemma discover_tcp_keeps [keeps]:
  "inserts env \<Longrightarrow> agent_ok a \<Longrightarrow> (\<And>b. agent_ok b \<Longrightarrow> component_ids b = component_ids a \<Longrightarrow> Q b) \<Longrightarrow>
     yields Q (discovery_discover_tcp_server_reflexive_candidates env sid cid to k a)"
  by (auto simp: discovery_discover_tcp_server_reflexive_candidates_def split: option.split intro!: keeps)

lemma attach_id [simp]: "comp_id (component_attach_socket s k c) = comp_id c"
  by (simp add: component_attach_socket_def)

lemma add_relay_keeps [keeps]:
  "inserts env \<Longrightarrow> agent_ok a \<Longrightarrow> (\<And>x b. agent_ok b \<Longrightarrow> component_ids b = component_ids a \<Longrightarrow> Q (x, b)) \<Longrightarrow>
     yields Q (discovery_add_relay_candidate env sid cid to t k ts a)"
  by (auto simp: discovery_add_relay_candidate_def Let_def split_beta split: option.split intro!: keeps)

lemma add_peer_reflexive_keeps [keeps]:
  "inserts env \<Longrightarrow> agent_ok a \<Longrightarrow> (\<And>x b. agent_ok b \<Longrightarrow> component_ids b = component_ids a \<Longrightarrow> Q (x, b)) \<Longrightarrow>
     yields Q (discovery_add_peer_reflexive_candidate env sid cid to k l r a)"
  by (auto simp: discovery_add_peer_reflexive_candidate_def Let_def split_beta split: option.split
      intro!: opaque_calls keeps)

lemma learn_peer_reflexive_keeps [keeps]:
  "agent_ok a \<Longrightarrow> (\<And>x b. agent_ok b \<Longrightarrow> component_ids b = component_ids a \<Longrightarrow> Q (x, b)) \<Longrightarrow>
     yields Q (discovery_learn_remote_peer_reflexive_candidate env sid cid prio to k l r a)"
  by (auto simp: discovery_learn_remote_peer_reflexive_candidate_def Let_def intro!: opaque_calls)

subsection \<open>States\<close>

lemma fail_pairs_keeps [keeps]:
  "agent_ok a \<Longrightarrow> (\<And>b. agent_ok b \<Longrightarrow> component_ids b = component_ids a \<Longrightarrow> Q b) \<Longrightarrow>
     yields Q (fail_pairs sid rs a)"
  by (induction rs arbitrary: a Q) (auto intro!: keeps)

lemma prune_socket_keeps [keeps]:
  "agent_ok a \<Longrightarrow> (\<And>b. agent_ok b \<Longrightarrow> component_ids b = component_ids a \<Longrightarrow> Q b) \<Longrightarrow>
     yields Q (conn_check_prune_socket sid cid k a)"
  by (auto simp: conn_check_prune_socket_def Let_def intro!: opaque_calls keeps)

lemma detach_id [simp]: "comp_id (component_detach_socket k c) = comp_id c"
  by (simp add: component_detach_socket_def)

lemma discovery_prune_socket_ok [simp]:
  "agent_ok (discovery_prune_socket k a) = agent_ok a"
  "component_ids (discovery_prune_socket k a) = component_ids a"
  by (simp_all add: discovery_prune_socket_def)

lemma drop_turn_keeps [keeps]:
  "agent_ok a \<Longrightarrow> (\<And>b. agent_ok b \<Longrightarrow> component_ids b = component_ids a \<Longrightarrow> Q b) \<Longrightarrow>
     yields Q (drop_turn_candidate env sid cid t a)"
  by (auto simp: drop_turn_candidate_def intro!: opaque_calls keeps)

lemma component_update_selected_keeps [keeps]:
  "agent_ok a \<Longrightarrow> (\<And>b. agent_ok b \<Longrightarrow> component_ids b = component_ids a \<Longrightarrow> Q b) \<Longrightarrow>
     yields Q (component_update_selected_pair env sid cid pr a)"
  by (auto simp: component_update_selected_pair_def component_clear_selected_pair_def Let_def split_beta
      split: option.split intro!: opaque_calls keeps)

lemma keepalive_component_keeps [keeps]:
  "agent_ok a \<Longrightarrow> (\<And>x b. agent_ok b \<Longrightarrow> component_ids b = component_ids a \<Longrightarrow> Q (x, b)) \<Longrightarrow>
     yields Q (keepalive_component env sc a)"
  by (auto simp: keepalive_component_def keepalive_check_def keepalive_indication_def clock_defs Let_def split_beta
      split: option.split intro!: opaque_calls)

lemma keepalive_components_keeps [keeps]:
  "agent_ok a \<Longrightarrow> (\<And>x b. agent_ok b \<Longrightarrow> component_ids b = component_ids a \<Longrightarrow> Q (x, b)) \<Longrightarrow>
     yields Q (keepalive_components env scs a)"
  by (induction scs arbitrary: a Q) (auto intro!: keeps)

lemma send_all_keeps [keeps]:
  "agent_ok a \<Longrightarrow> (\<And>b. agent_ok b \<Longrightarrow> component_ids b = component_ids a \<Longrightarrow> Q b) \<Longrightarrow>
     yields Q (send_all xs a)"
  by (induction xs a arbitrary: Q rule: send_all.induct) (auto intro!: yieldsI [where m = "k :: nat option" for k])

lemma keepalive_servers_keeps [keeps]:
  "agent_ok a \<Longrightarrow> (\<And>b. agent_ok b \<Longrightarrow> component_ids b = component_ids a \<Longrightarrow> Q b) \<Longrightarrow>
     yields Q (keepalive_servers env server scs a)"
proof (induction scs arbitrary: a Q)
  case (Cons sc scs)
  then show ?case
    by (cases sc) (auto simp: keepalive_candidates_def clock_defs Let_def intro!: opaque_calls keeps)
qed simp

lemma keepalive_tick_keeps [keeps]:
  assumes "agent_ok a" and "\<And>x b. agent_ok b \<Longrightarrow> component_ids b = component_ids a \<Longrightarrow> Q (x, b)"
  shows "yields Q (priv_conn_keepalive_tick_unlocked env a)" "yields Q (priv_conn_keepalive_tick env a)"
  by (auto simp: priv_conn_keepalive_tick_unlocked_def priv_conn_keepalive_tick_def split: option.split
      intro!: keeps assms)

lemma update_selected_pair_keeps [keeps]:
  "agent_ok a \<Longrightarrow> (\<And>b. agent_ok b \<Longrightarrow> component_ids b = component_ids a \<Longrightarrow> Q b) \<Longrightarrow>
     yields Q (priv_update_selected_pair env sid cid p a)"
  by (auto simp: priv_update_selected_pair_def split: option.split intro!: opaque_calls keeps)

lemma failed_component_ok [simp]:
  "agent_ok a \<Longrightarrow> agent_ok (failed_component sid cid a)"
  "component_ids (failed_component sid cid a) = component_ids a"
  by (simp_all add: failed_component_def split: option.split)

lemma failed_components_keeps [keeps]:
  assumes "agent_ok a" and "\<And>b. agent_ok b \<Longrightarrow> component_ids b = component_ids a \<Longrightarrow> Q b"
  shows "yields Q (priv_update_check_list_failed_components sid a)"
proof -
  have "agent_ok (fold (\<lambda>i. failed_component sid (f i)) is a) \<and>
      component_ids (fold (\<lambda>i. failed_component sid (f i)) is a) = component_ids a" for f :: "nat \<Rightarrow> u32" and "is" :: "nat list"
    using assms(1) by (induction "is" arbitrary: a) auto
  then show ?thesis by (auto simp: priv_update_check_list_failed_components_def intro!: opaque_calls assms)
qed

lemma prune_pending_loses: "priv_prune_pending_checks cid ps = (n, qs) \<Longrightarrow> loses ps qs"
  by (auto simp: priv_prune_pending_checks_def Let_def prune_pending_pair_def intro!: loses_map)

lemma state_for_ready_keeps [keeps]:
  assumes "agent_ok a" and "\<And>b. agent_ok b \<Longrightarrow> component_ids b = component_ids a \<Longrightarrow> Q b"
  shows "yields Q (priv_update_check_list_state_for_ready sid cid a)"
  by (auto simp: priv_update_check_list_state_for_ready_def Let_def split: prod.split
      intro!: opaque_calls assms signal_state_ok update_checks_const_ok intro: prune_pending_loses)

lemma mark_pairs_keeps [keeps]:
  "agent_ok a \<Longrightarrow> (\<And>b. agent_ok b \<Longrightarrow> component_ids b = component_ids a \<Longrightarrow> Q b) \<Longrightarrow>
     yields Q (mark_pairs env sid cid rs a)"
  by (induction rs arbitrary: a Q) (auto simp: Let_def intro!: opaque_calls keeps)

lemma mark_nominated_keeps [keeps]:
  "agent_ok a \<Longrightarrow> (\<And>b. agent_ok b \<Longrightarrow> component_ids b = component_ids a \<Longrightarrow> Q b) \<Longrightarrow>
     yields Q (priv_mark_pair_nominated env sid cid rc a)"
  by (auto simp: priv_mark_pair_nominated_def intro!: opaque_calls keeps)

lemma trigger_pair_keeps [keeps]:
  "agent_ok a \<Longrightarrow> (\<And>b. agent_ok b \<Longrightarrow> component_ids b = component_ids a \<Longrightarrow> Q b) \<Longrightarrow>
     yields Q (trigger_pair env sid cid p a)"
  by (auto simp: trigger_pair_def restart_check_timer_def clock_defs Let_def split: check_state.split
      intro!: opaque_calls keeps)

lemma triggered_check_keeps [keeps]:
  "inserts env \<Longrightarrow> agent_ok a \<Longrightarrow> (\<And>x b. agent_ok b \<Longrightarrow> component_ids b = component_ids a \<Longrightarrow> Q (x, b)) \<Longrightarrow>
     yields Q (priv_schedule_triggered_check env sid cid k rc u a)"
  by (auto simp: priv_schedule_triggered_check_def split: option.split intro!: opaque_calls keeps dest: found_ids)

lemma reply_keeps [keeps]:
  "inserts env \<Longrightarrow> agent_ok a \<Longrightarrow> (\<And>b. agent_ok b \<Longrightarrow> component_ids b = component_ids a \<Longrightarrow> Q b) \<Longrightarrow>
     yields Q (priv_reply_to_conn_check env sid cid rc to k reply u a)"
  by (auto simp: priv_reply_to_conn_check_def split: option.split intro!: opaque_calls keeps)

lemma store_pending_keeps [keeps]:
  "agent_ok a \<Longrightarrow> (\<And>x b. agent_ok b \<Longrightarrow> component_ids b = component_ids a \<Longrightarrow> Q (x, b)) \<Longrightarrow>
     yields Q (priv_store_pending_check sid cid from k user prio u a)"
  by (auto simp: priv_store_pending_check_def intro!: opaque_calls)

subsection \<open>Roles\<close>

lemma recalculated_streams:
  "ag_streams (priv_recalculate_pair_priorities a) = map (\<lambda>s. s\<lparr>strm_checks := map (\<lambda>p. p\<lparr>pair_priority :=
     agent_candidate_pair_priority a (pair_local p) (pair_remote p)\<rparr>) (strm_checks s)\<rparr>) (ag_streams a)"
  by (simp add: priv_recalculate_pair_priorities_def)

lemma recalculated_ok:
  assumes "agent_ok a"
  shows "agent_ok (priv_recalculate_pair_priorities (a\<lparr>ag_controlling := x\<rparr>))"
  using assms by (auto simp: agent_ok_def stream_ok_def list_all_iff comp_def recalculated_streams
      priv_recalculate_pair_priorities_def agent_candidate_pair_priority_def)

lemma role_conflict_ok [simp]:
  "agent_ok a \<Longrightarrow> agent_ok (priv_check_for_role_conflict x a)"
  "component_ids (priv_check_for_role_conflict x a) = component_ids a"
   apply (simp add: priv_check_for_role_conflict_def recalculated_ok)
  by (simp add: priv_check_for_role_conflict_def component_ids_def recalculated_streams comp_def)

subsection \<open>Ticks\<close>

lemma tick_pair_keeps [keeps]:
  "agent_ok a \<Longrightarrow> (\<And>x b. agent_ok b \<Longrightarrow> component_ids b = component_ids a \<Longrightarrow> Q (x, b)) \<Longrightarrow>
     yields Q (tick_pair env t sid r a)"
  by (auto simp: tick_pair_def clock_defs Let_def split_beta split: option.split timer_return.split
      intro!: opaque_calls keeps)

lemma tick_pairs_keeps [keeps]:
  "agent_ok a \<Longrightarrow> (\<And>x b. agent_ok b \<Longrightarrow> component_ids b = component_ids a \<Longrightarrow> Q (x, b)) \<Longrightarrow>
     yields Q (tick_pairs env t sid rs a)"
  by (induction rs arbitrary: a Q) (auto intro!: keeps)

lemma nominate_components_keeps [keeps]:
  "agent_ok a \<Longrightarrow> (\<And>b. agent_ok b \<Longrightarrow> component_ids b = component_ids a \<Longrightarrow> Q b) \<Longrightarrow>
     yields Q (nominate_components env sid cids a)"
  by (induction cids arbitrary: a Q) (auto split: option.split intro!: opaque_calls keeps)

lemma tick_stream_keeps [keeps]:
  "agent_ok a \<Longrightarrow> (\<And>x b. agent_ok b \<Longrightarrow> component_ids b = component_ids a \<Longrightarrow> Q (x, b)) \<Longrightarrow>
     yields Q (priv_conn_check_tick_stream env t sid a)"
  by (auto simp: priv_conn_check_tick_stream_def Let_def intro!: opaque_calls keeps)

lemma tick_streams_keeps [keeps]:
  "agent_ok a \<Longrightarrow> (\<And>x b. agent_ok b \<Longrightarrow> component_ids b = component_ids a \<Longrightarrow> Q (x, b)) \<Longrightarrow>
     yields Q (tick_streams env t sids a)"
  by (induction sids arbitrary: a Q) (auto intro!: keeps)

lemma settle_components_keeps [keeps]:
  "agent_ok a \<Longrightarrow> (\<And>b. agent_ok b \<Longrightarrow> component_ids b = component_ids a \<Longrightarrow> Q b) \<Longrightarrow>
     yields Q (settle_components sid cids a)"
  by (induction cids arbitrary: a Q) (auto intro!: keeps)

lemma settle_streams_keeps [keeps]:
  "agent_ok a \<Longrightarrow> (\<And>b. agent_ok b \<Longrightarrow> component_ids b = component_ids a \<Longrightarrow> Q b) \<Longrightarrow>
     yields Q (settle_streams sids a)"
  by (induction sids arbitrary: a Q) (auto intro!: opaque_calls keeps)

lemma stop_ok [simp]:
  "agent_ok (conn_check_stop a) = agent_ok a" "component_ids (conn_check_stop a) = component_ids a"
  by (simp_all add: conn_check_stop_def)

lemma tick_keeps [keeps]:
  "agent_ok a \<Longrightarrow> (\<And>x b. agent_ok b \<Longrightarrow> component_ids b = component_ids a \<Longrightarrow> Q (x, b)) \<Longrightarrow>
     yields Q (priv_conn_check_tick_unlocked env a)"
  by (auto simp: priv_conn_check_tick_unlocked_def clock_defs Let_def split_beta split: option.split intro!: keeps)

lemma schedule_next_keeps [keeps]:
  "agent_ok a \<Longrightarrow> (\<And>x b. agent_ok b \<Longrightarrow> component_ids b = component_ids a \<Longrightarrow> Q (x, b)) \<Longrightarrow>
     yields Q (conn_check_schedule_next env a)"
  by (auto simp: conn_check_schedule_next_def split_beta intro!: keeps)

subsection \<open>Responses\<close>

lemma add_peer_reflexive_pair_keeps [keeps]:
  assumes "inserts env" and "agent_ok a" and "(sid, cid) \<in> set (component_ids a)"
    and "\<And>x b. agent_ok b \<Longrightarrow> component_ids b = component_ids a \<Longrightarrow> Q (x, b)"
  shows "yields Q (priv_add_peer_reflexive_pair env sid cid l p a)"
  by (auto simp: priv_add_peer_reflexive_pair_def intro!: opaque_calls assms(4) insert_new_ok assms(1-3))

lemma peer_reflexive_response_keeps [keeps]:
  "inserts env \<Longrightarrow> agent_ok a \<Longrightarrow> (\<And>x b. agent_ok b \<Longrightarrow> component_ids b = component_ids a \<Longrightarrow> Q (x, b)) \<Longrightarrow>
     yields Q (priv_process_response_check_for_peer_reflexive env sid cid r k m lc rc a)"
  by (auto simp: priv_process_response_check_for_peer_reflexive_def Let_def split: option.split
      intro!: opaque_calls keeps yieldsI [where m = "x :: candidate option" for x]) (erule found_ids)

lemma established_keeps [keeps]:
  "agent_ok a \<Longrightarrow> (\<And>b. agent_ok b \<Longrightarrow> component_ids b = component_ids a \<Longrightarrow> Q b) \<Longrightarrow>
     yields Q (pair_established env sid cid r a)"
  by (auto simp: pair_established_def intro!: opaque_calls keeps)

lemma answered_keeps [keeps]:
  "inserts env \<Longrightarrow> agent_ok a \<Longrightarrow> (\<And>b. agent_ok b \<Longrightarrow> component_ids b = component_ids a \<Longrightarrow> Q b) \<Longrightarrow>
     yields Q (check_answered env sid cid p k from lc rc resp a)"
  by (auto simp: check_answered_def Let_def split: option.split
      intro!: opaque_calls keeps yieldsI [where m = "x :: sockaddr option" for x])

lemma prune_cancelled_ok [simp]: "agent_ok a \<Longrightarrow> agent_ok (update_checks sid prune_cancelled_conn_check a)"
  by (erule update_checks_ok [rotated]) (simp add: prune_cancelled_conn_check_def loses_filter)

lemma map_reply_keeps [keeps]:
  "inserts env \<Longrightarrow> agent_ok a \<Longrightarrow> (\<And>x b. agent_ok b \<Longrightarrow> component_ids b = component_ids a \<Longrightarrow> Q (x, b)) \<Longrightarrow>
     yields Q (priv_map_reply_to_conn_check_request env sid cid k from lc rc resp a)"
  by (auto simp: priv_map_reply_to_conn_check_request_def split: option.split intro!: opaque_calls keeps)

lemma map_keepalive_keeps [keeps]:
  "agent_ok a \<Longrightarrow> (\<And>x b. agent_ok b \<Longrightarrow> component_ids b = component_ids a \<Longrightarrow> Q (x, b)) \<Longrightarrow>
     yields Q (priv_map_reply_to_keepalive_conncheck sid cid resp a)"
  by (auto simp: priv_map_reply_to_keepalive_conncheck_def intro!: opaque_calls)

subsection \<open>Gathering\<close>

lemma pair_candidates_keeps [keeps]:
  "inserts env \<Longrightarrow> agent_ok a \<Longrightarrow> (sid, cid) \<in> set (component_ids a) \<Longrightarrow>
     (\<And>b. agent_ok b \<Longrightarrow> component_ids b = component_ids a \<Longrightarrow> Q b) \<Longrightarrow>
     yields Q (pair_candidates env sid cid ps a)"
proof (induction ps arbitrary: a Q)
  case (Cons q ps)
  then show ?case by (cases q) (auto intro!: opaque_calls keeps)
qed simp

lemma pair_components_keeps [keeps]:
  "inserts env \<Longrightarrow> agent_ok a \<Longrightarrow> (\<And>b. agent_ok b \<Longrightarrow> component_ids b = component_ids a \<Longrightarrow> Q b) \<Longrightarrow>
     yields Q (pair_components env scs a)"
proof (induction scs arbitrary: a Q)
  case (Cons sc scs)
  then show ?case by (cases sc) (auto intro!: opaque_calls keeps dest: found_ids)
qed simp

lemma signal_gathering_ok [simp]:
  "agent_ok a \<Longrightarrow> agent_ok (agent_signal_gathering_done a)"
  "component_ids (agent_signal_gathering_done a) = component_ids a"
proof -
  have f: "agent_ok (fold (\<lambda>s. emit (Gathering_done (strm_id s))) ss b) = agent_ok b"
    "component_ids (fold (\<lambda>s. emit (Gathering_done (strm_id s))) ss b) = component_ids b" for ss b
    by (induction ss arbitrary: b) auto
  show "agent_ok a \<Longrightarrow> agent_ok (agent_signal_gathering_done a)"
    "component_ids (agent_signal_gathering_done a) = component_ids a"
    by (auto simp: agent_signal_gathering_done_def f) (auto simp: agent_ok_def stream_ok_def list_all_iff comp_def component_ids_def)
qed

lemma gathering_done_keeps [keeps]:
  "inserts env \<Longrightarrow> agent_ok a \<Longrightarrow> (\<And>b. agent_ok b \<Longrightarrow> component_ids b = component_ids a \<Longrightarrow> Q b) \<Longrightarrow>
     yields Q (agent_gathering_done env a)"
  by (auto simp: agent_gathering_done_def intro!: keeps)

lemma tick_discoveries_keeps [keeps]:
  "agent_ok a \<Longrightarrow> (\<And>x b. agent_ok b \<Longrightarrow> component_ids b = component_ids a \<Longrightarrow> Q (x, b)) \<Longrightarrow>
     yields Q (tick_discoveries env rs a)"
proof (induction rs arbitrary: a Q)
  case (Cons r rs)
  have start: "yields R (discovery_start env r b)"
    if "agent_ok b" "\<And>x c. agent_ok c \<Longrightarrow> component_ids c = component_ids b \<Longrightarrow> R (x, c)" for b R
    using that by (auto simp: discovery_start_def clock_defs Let_def intro!: opaque_calls)
  have step: "yields R (discovery_step env r b)"
    if "agent_ok b" "\<And>x c. agent_ok c \<Longrightarrow> component_ids c = component_ids b \<Longrightarrow> R (x, c)" for b R
    using that by (auto simp: discovery_step_def clock_defs Let_def split_beta
        split: option.split timer_return.split intro!: opaque_calls)
  show ?case using Cons.prems by (auto intro!: opaque_calls start step Cons.IH)
qed simp

lemma discovery_tick_keeps [keeps]:
  assumes "inserts env" and "agent_ok a"
    and "\<And>x b. agent_ok b \<Longrightarrow> component_ids b = component_ids a \<Longrightarrow> Q (x, b)"
  shows "yields Q (priv_discovery_tick_unlocked env a)" "yields Q (priv_discovery_tick env a)"
  by (auto simp: priv_discovery_tick_def priv_discovery_tick_unlocked_def intro!: keeps assms)

lemma discovery_replies_keeps [keeps]:
  "inserts env \<Longrightarrow> agent_ok a \<Longrightarrow> (\<And>x b. agent_ok b \<Longrightarrow> component_ids b = component_ids a \<Longrightarrow> Q (x, b)) \<Longrightarrow>
     yields Q (discovery_replies env resp i rs a)"
  by (induction rs arbitrary: a Q) (auto split: bind_return.split intro!: opaque_calls keeps
      yieldsI [where m = "x :: found_addr option" for x] yieldsI [where m = "x :: sockaddr option" for x])

lemma map_discovery_keeps [keeps]:
  "inserts env \<Longrightarrow> agent_ok a \<Longrightarrow> (\<And>x b. agent_ok b \<Longrightarrow> component_ids b = component_ids a \<Longrightarrow> Q (x, b)) \<Longrightarrow>
     yields Q (priv_map_reply_to_discovery_request env resp a)"
  by (auto simp: priv_map_reply_to_discovery_request_def intro!: opaque_calls keeps)

lemma new_refresh_ok [simp]:
  "agent_ok a \<Longrightarrow> agent_ok (priv_add_new_turn_refresh d c l a)"
  "component_ids (priv_add_new_turn_refresh d c l a) = component_ids a"
  by (simp_all add: priv_add_new_turn_refresh_def)

lemma relay_allocated_keeps [keeps]:
  "inserts env \<Longrightarrow> agent_ok a \<Longrightarrow> (\<And>b. agent_ok b \<Longrightarrow> component_ids b = component_ids a \<Longrightarrow> Q b) \<Longrightarrow>
     yields Q (relay_allocated env d relay l resp t a)"
  by (auto simp: relay_allocated_def keep_allocation_def split: option.split intro!: opaque_calls keeps)

lemma relay_mapped_keeps [keeps]:
  "inserts env \<Longrightarrow> agent_ok a \<Longrightarrow> (\<And>b. agent_ok b \<Longrightarrow> component_ids b = component_ids a \<Longrightarrow> Q b) \<Longrightarrow>
     yields Q (relay_mapped env d m a)"
  by (auto simp: relay_mapped_def intro!: opaque_calls keeps)

lemma relay_success_keeps [keeps]:
  "inserts env \<Longrightarrow> agent_ok a \<Longrightarrow> (\<And>b. agent_ok b \<Longrightarrow> component_ids b = component_ids a \<Longrightarrow> Q b) \<Longrightarrow>
     yields Q (relay_success env d res resp a)"
  by (auto simp: relay_success_def Let_def intro!: opaque_calls keeps)

lemma relay_refused_keeps [keeps]:
  "agent_ok a \<Longrightarrow> (\<And>b. agent_ok b \<Longrightarrow> component_ids b = component_ids a \<Longrightarrow> Q b) \<Longrightarrow>
     yields Q (relay_refused d sent resp a)"
  by (auto simp: relay_refused_def intro!: opaque_calls)

lemma relay_replies_keeps [keeps]:
  "inserts env \<Longrightarrow> agent_ok a \<Longrightarrow> (\<And>x b. agent_ok b \<Longrightarrow> component_ids b = component_ids a \<Longrightarrow> Q (x, b)) \<Longrightarrow>
     yields Q (relay_replies env resp i rs a)"
  by (induction rs arbitrary: a Q) (auto split: turn_return.split intro!: opaque_calls keeps
      yieldsI [where m = "x :: sockaddr option" for x])

lemma map_relay_keeps [keeps]:
  "inserts env \<Longrightarrow> agent_ok a \<Longrightarrow> (\<And>x b. agent_ok b \<Longrightarrow> component_ids b = component_ids a \<Longrightarrow> Q (x, b)) \<Longrightarrow>
     yields Q (priv_map_reply_to_relay_request env resp a)"
  by (auto simp: priv_map_reply_to_relay_request_def intro!: opaque_calls keeps)

lemma refresh_tick_keeps [keeps]:
  "agent_ok a \<Longrightarrow> (\<And>b. agent_ok b \<Longrightarrow> component_ids b = component_ids a \<Longrightarrow> Q b) \<Longrightarrow>
     yields Q (priv_turn_allocate_refresh_tick_unlocked env r a)"
  by (auto simp: priv_turn_allocate_refresh_tick_unlocked_def clock_defs Let_def split_beta intro!: opaque_calls)

lemma refresh_replies_keeps [keeps]:
  "agent_ok a \<Longrightarrow> (\<And>x b. agent_ok b \<Longrightarrow> component_ids b = component_ids a \<Longrightarrow> Q (x, b)) \<Longrightarrow>
     yields Q (refresh_replies env resp i rs a)"
  by (induction rs arbitrary: a Q)
    (auto simp: refresh_refused_def split: turn_return.split intro!: opaque_calls keeps)

lemma map_refresh_keeps [keeps]:
  "agent_ok a \<Longrightarrow> (\<And>x b. agent_ok b \<Longrightarrow> component_ids b = component_ids a \<Longrightarrow> Q (x, b)) \<Longrightarrow>
     yields Q (priv_map_reply_to_relay_refresh env resp a)"
  by (auto simp: priv_map_reply_to_relay_refresh_def intro!: opaque_calls keeps)

subsection \<open>Packets\<close>

lemma inbound_validate_keeps [keeps]:
  "agent_ok a \<Longrightarrow> (\<And>x b. agent_ok b \<Longrightarrow> component_ids b = component_ids a \<Longrightarrow> Q (x, b)) \<Longrightarrow>
     yields Q (inbound_validate env sid cid k buf a)"
  by (auto simp: inbound_validate_def Let_def intro!: opaque_calls)

lemma error_replies_keep [keeps]:
  assumes "agent_ok a" and "\<And>b. agent_ok b \<Longrightarrow> component_ids b = component_ids a \<Longrightarrow> Q b"
  shows "yields Q (error_reply env sid cid from k req code a)" "yields Q (unknown_reply env sid cid from k req a)"
  using assms by (auto simp: error_reply_def unknown_reply_def Let_def intro!: opaque_calls)

lemma learn_remote_keeps [keeps]:
  "inserts env \<Longrightarrow> agent_ok a \<Longrightarrow> (sid, cid) \<in> set (component_ids a) \<Longrightarrow>
     (\<And>x b. agent_ok b \<Longrightarrow> component_ids b = component_ids a \<Longrightarrow> Q (x, b)) \<Longrightarrow>
     yields Q (learn_remote env sid cid prio from k l r a)"
  by (auto simp: learn_remote_def split: option.split intro!: keeps)

lemma request_answered_keeps [keeps]:
  "inserts env \<Longrightarrow> agent_ok a \<Longrightarrow> (\<And>b. agent_ok b \<Longrightarrow> component_ids b = component_ids a \<Longrightarrow> Q b) \<Longrightarrow>
     yields Q (request_answered env sid cid from k user req x reply a)"
  by (auto simp: request_answered_def Let_def intro!: opaque_calls keeps) (drule found_ids, simp)

lemma inbound_request_keeps [keeps]:
  "inserts env \<Longrightarrow> agent_ok a \<Longrightarrow> (\<And>x b. agent_ok b \<Longrightarrow> component_ids b = component_ids a \<Longrightarrow> Q (x, b)) \<Longrightarrow>
     yields Q (inbound_request env sid cid from k user req x a)"
  by (auto simp: inbound_request_def Let_def split: option.split intro!: opaque_calls keeps)

lemma inbound_response_keeps [keeps]:
  "inserts env \<Longrightarrow> agent_ok a \<Longrightarrow> (\<And>b. agent_ok b \<Longrightarrow> component_ids b = component_ids a \<Longrightarrow> Q b) \<Longrightarrow>
     yields Q (inbound_response env sid cid from k resp x a)"
  by (auto simp: inbound_response_def intro!: keeps)

lemma inbound_keeps [keeps]:
  "inserts env \<Longrightarrow> agent_ok a \<Longrightarrow> (\<And>x b. agent_ok b \<Longrightarrow> component_ids b = component_ids a \<Longrightarrow> Q (x, b)) \<Longrightarrow>
     yields Q (conn_check_handle_inbound_stun env sid cid k from buf a)"
  by (auto simp: conn_check_handle_inbound_stun_def Let_def intro!: opaque_calls keeps)

lemma retransmissions_keep [keeps]:
  "agent_ok a \<Longrightarrow> (\<And>b. agent_ok b \<Longrightarrow> component_ids b = component_ids a \<Longrightarrow> Q b) \<Longrightarrow>
     yields Q (priv_conn_keepalive_retransmissions_tick env sid cid a)"
  "agent_ok a \<Longrightarrow> (\<And>b. agent_ok b \<Longrightarrow> component_ids b = component_ids a \<Longrightarrow> Q b) \<Longrightarrow>
     yields Q (priv_turn_allocate_refresh_retransmissions_tick env r a)"
  by (auto simp: priv_conn_keepalive_retransmissions_tick_def priv_turn_allocate_refresh_retransmissions_tick_def
      clock_defs Let_def split_beta split: option.split timer_return.split intro!: opaque_calls keeps)

section \<open>Runs\<close>

text \<open>The events that drive the ICE core, one after the other; the environment is the world's.\<close>

datatype ice_input =
    Check_tick
  | Keepalive_tick
  | Discovery_tick
  | Schedule_checks
  | Keepalive_retransmission_tick u32 u32
  | Refresh_tick nat
  | Refresh_retransmission_tick nat
  | Packet u32 u32 socket_id sockaddr bytes
  | Local_candidate u32 u32 candidate
  | Remote_nominated u32 u32 candidate
  | Socket_closed u32 u32 socket_id

fun ice_input_step :: "ice_env \<Rightarrow> ice_input \<Rightarrow> nice_agent \<Rightarrow> nice_agent option" where
  "ice_input_step env Check_tick a = map_option snd (priv_conn_check_tick_unlocked env a)"
| "ice_input_step env Keepalive_tick a = map_option snd (priv_conn_keepalive_tick env a)"
| "ice_input_step env Discovery_tick a = map_option snd (priv_discovery_tick env a)"
| "ice_input_step env Schedule_checks a = map_option snd (conn_check_schedule_next env a)"
| "ice_input_step env (Refresh_tick r) a = priv_turn_allocate_refresh_tick_unlocked env r a"
| "ice_input_step env (Keepalive_retransmission_tick sid cid) a =
     priv_conn_keepalive_retransmissions_tick env sid cid a"
| "ice_input_step env (Refresh_retransmission_tick r) a =
     priv_turn_allocate_refresh_retransmissions_tick env r a"
| "ice_input_step env (Packet sid cid k from buf) a =
     map_option snd (conn_check_handle_inbound_stun env sid cid k from buf a)"
| "ice_input_step env (Local_candidate sid cid c) a =
     map_option snd (priv_add_local_candidate_pruned env sid cid c a)"
| "ice_input_step env (Remote_nominated sid cid c) a = priv_mark_pair_nominated env sid cid c a"
| "ice_input_step env (Socket_closed sid cid k) a = conn_check_prune_socket sid cid k a"

fun ice_inputs :: "ice_env \<Rightarrow> ice_input list \<Rightarrow> nice_agent \<Rightarrow> nice_agent option" where
  "ice_inputs env [] a = Some a"
| "ice_inputs env (x # xs) a = do { a1 \<leftarrow> ice_input_step env x a; ice_inputs env xs a1 }"

lemma yields_map [simp]: "yields Q (map_option f m) = yields (\<lambda>x. Q (f x)) m"
  by (simp add: yields_def split: option.split)

lemma input_step_keeps [keeps]:
  "inserts env \<Longrightarrow> agent_ok a \<Longrightarrow> (\<And>b. agent_ok b \<Longrightarrow> component_ids b = component_ids a \<Longrightarrow> Q b) \<Longrightarrow>
     yields Q (ice_input_step env x a)"
  by (cases x) (auto intro!: keeps)

lemma inputs_keep:
  "inserts env \<Longrightarrow> agent_ok a \<Longrightarrow>
     yields (\<lambda>b. agent_ok b \<and> component_ids b = component_ids a) (ice_inputs env xs a)"
proof (induction xs arbitrary: a)
  case (Cons x xs)
  show ?case
    by (auto intro!: keeps Cons.prems yields_mono [OF Cons.IH [OF Cons.prems(1)]])
qed simp

end
