(* ===== verification/Ice_Finish.thy ===== *)
theory Ice_Finish
  imports Ice_Invariant
begin

text \<open>
  When the connectivity checks stop: a tick of the check timer that returns false has left nothing to
  do, in no stream.
\<close>

section \<open>Predicates on all pairs\<close>

definition all_pairs :: "(u32 \<Rightarrow> check_pair \<Rightarrow> bool) \<Rightarrow> nice_agent \<Rightarrow> bool" where
  "all_pairs G a = list_all (\<lambda>s. list_all (G (strm_id s)) (strm_checks s)) (ag_streams a)"

lemma all_pairs_fields [simp]:
  "all_pairs G (emit e a) = all_pairs G a" "all_pairs G (a\<lparr>ag_clock := x1\<rparr>) = all_pairs G a"
  "all_pairs G (a\<lparr>ag_draws := x2\<rparr>) = all_pairs G a" "all_pairs G (a\<lparr>ag_check_timer := x3\<rparr>) = all_pairs G a"
  "all_pairs G (agent_socket_send k to b a) = all_pairs G a"
  by (simp_all add: all_pairs_def emit_def agent_socket_send_def)

lemma all_pairs_component [simp]: "all_pairs G (update_component sid cid f a) = all_pairs G a"
  unfolding all_pairs_def update_component_def update_stream_def
  by (simp add: list.pred_map comp_def if_distrib cong: if_cong)

lemma all_pairs_signal [simp]:
  "all_pairs G (agent_signal_component_state_change sid cid st a) = all_pairs G a"
  by (simp add: agent_signal_component_state_change_def Let_def split: option.split)

lemma all_pairs_checks:
  assumes "all_pairs G a"
    and "\<And>s. s \<in> set (ag_streams a) \<Longrightarrow> strm_id s = sid \<Longrightarrow> list_all (G sid) (strm_checks s) \<Longrightarrow>
      list_all (G sid) (f (strm_checks s))"
  shows "all_pairs G (update_checks sid f a)"
  using assms unfolding all_pairs_def update_checks_def update_stream_def list_all_iff by auto

lemma all_pairs_update [simp]:
  "(\<And>p. G sid p \<Longrightarrow> G sid (f p)) \<Longrightarrow> all_pairs G a \<Longrightarrow> all_pairs G (update_pair sid r f a)"
  unfolding update_pair_def by (rule all_pairs_checks) (auto simp: set_pair_def list_all_iff)

text \<open>What giving a pair up, or sending it again, keeps.\<close>

definition stays :: "(u32 \<Rightarrow> check_pair \<Rightarrow> bool) \<Rightarrow> bool" where
  "stays G \<longleftrightarrow> (\<forall>sid p. G sid p \<longrightarrow> G sid (set_state NICE_CHECK_FAILED p) \<and> G sid (clear_message p) \<and>
     (\<forall>x. G sid (p\<lparr>pair_timer := x\<rparr>)) \<and> (\<forall>x. G sid (p\<lparr>pair_next_tick := x\<rparr>)))"

lemma tick_pair_all:
  assumes "stays G" and "all_pairs G a" and "\<And>x b. all_pairs G b \<Longrightarrow> Q (x, b)"
  shows "yields Q (tick_pair env t sid r a)"
  using assms by (auto simp: tick_pair_def stays_def tick_later_def candidate_check_pair_fail_def clock_defs Let_def
      split_beta comp_def split: option.split timer_return.split intro!: opaque_calls
      yieldsI [where m = "stream_find_component_by_id s c" for s c])

lemma tick_pairs_all:
  "stays G \<Longrightarrow> all_pairs G a \<Longrightarrow> (\<And>x b. all_pairs G b \<Longrightarrow> Q (x, b)) \<Longrightarrow>
     yields Q (tick_pairs env t sid rs a)"
  by (induction rs arbitrary: a Q) (auto intro!: tick_pair_all)

section \<open>The end of the checks\<close>

text \<open>Nothing to send or to unfreeze; and a stream without a check in progress.\<close>

definition calm :: "u32 \<Rightarrow> check_pair \<Rightarrow> bool" where
  "calm sid p \<longleftrightarrow> pair_state p \<noteq> NICE_CHECK_WAITING \<and> (pair_state p = NICE_CHECK_FROZEN \<longrightarrow> pair_priority p = 0)"

definition idle_in :: "u32 set \<Rightarrow> u32 \<Rightarrow> check_pair \<Rightarrow> bool" where
  "idle_in sids sid p \<longleftrightarrow> sid \<in> sids \<longrightarrow> pair_state p \<noteq> NICE_CHECK_IN_PROGRESS"

definition quiet :: "u32 set \<Rightarrow> u32 set \<Rightarrow> nice_agent \<Rightarrow> bool" where
  "quiet S sids a \<longleftrightarrow> all_pairs (\<lambda>sid p. sid \<in> S \<and> calm sid p \<and> idle_in sids sid p) a"

lemma stays_quiet: "stays (\<lambda>sid p. sid \<in> S \<and> calm sid p \<and> idle_in sids sid p)"
  by (auto simp: stays_def calm_def idle_in_def set_state_def clear_message_def)

lemma tick_stream_quiet:
  assumes "agent_ok a" and "quiet S sids a" and "priv_conn_check_tick_stream env t sid a = Some (False, b)"
  shows "quiet S (insert sid sids) b"
proof -
  let ?G = "\<lambda>x p. x \<in> S \<and> calm x p \<and> idle_in sids x p"
  from assms(3) obtain s0 s where s0: "agent_find_stream a sid = Some s0"
    and t: "tick_pairs env t sid (map pair_ref (strm_checks s0)) a = Some (False, b)"
    and s: "agent_find_stream b sid = Some s"
    and none: "\<not> list_ex (\<lambda>p. pair_state p = NICE_CHECK_IN_PROGRESS) (strm_checks s)"
    unfolding priv_conn_check_tick_stream_def by (auto simp: Let_def split: if_split_asm bind_split_asm)
  have g: "all_pairs ?G b"
    using yieldsD [OF tick_pairs_all [OF stays_quiet assms(2) [unfolded quiet_def], of "\<lambda>(x, b). all_pairs ?G b"] t]
    by simp
  have ok: "agent_ok b"
    using yieldsD [OF tick_pairs_keeps [OF assms(1), of "\<lambda>(x, b). agent_ok b"] t] by simp
  show ?thesis unfolding quiet_def all_pairs_def
  proof (clarsimp simp: list_all_iff)
    fix x p
    assume x: "x \<in> set (ag_streams b)" "p \<in> set (strm_checks x)"
    have G: "strm_id x \<in> S \<and> calm (strm_id x) p \<and> idle_in sids (strm_id x) p" using g x by (auto simp: all_pairs_def list_all_iff)
    have "pair_state p \<noteq> NICE_CHECK_IN_PROGRESS" if "strm_id x = sid"
      using none x unique_stream [OF ok s x(1) that] by (auto simp: list_ex_iff)
    with G show "strm_id x \<in> S \<and> calm (strm_id x) p \<and> idle_in (insert sid sids) (strm_id x) p" by (auto simp: idle_in_def)
  qed
qed

lemma tick_streams_quiet:
  "agent_ok a \<Longrightarrow> quiet S done a \<Longrightarrow> tick_streams env t sids a = Some (False, b) \<Longrightarrow> quiet S (set sids \<union> done) b"
proof (induction sids arbitrary: a "done")
  case (Cons sid sids)
  then obtain k1 a1 k2 b1 where "priv_conn_check_tick_stream env t sid a = Some (k1, a1)"
    "tick_streams env t sids a1 = Some (k2, b1)" "Some (k1 \<or> k2, b1) = Some (False, b)"
    by (fastforce split: bind_split_asm)
  then have t: "priv_conn_check_tick_stream env t sid a = Some (False, a1)"
    "tick_streams env t sids a1 = Some (False, b)" by simp_all
  have "agent_ok a1"
    using yieldsD [OF tick_stream_keeps [OF Cons.prems(1), of "\<lambda>(x, b). agent_ok b"] t(1)] by simp
  from Cons.IH [OF this tick_stream_quiet [OF Cons.prems(1,2) t(1)] t(2)] show ?case by simp
qed simp

text \<open>Ending the checks only cancels pairs.\<close>

lemma ready_quiet:
  assumes "quiet S X a" and "\<And>b. quiet S X b \<Longrightarrow> Q b"
  shows "yields Q (priv_update_check_list_state_for_ready sid cid a)"
proof (rule yieldsI)
  fix b
  assume run: "priv_update_check_list_state_for_ready sid cid a = Some b"
  then obtain s where s: "agent_find_stream a sid = Some s"
    by (auto simp: priv_update_check_list_state_for_ready_def split: bind_splits)
  let ?hi = "highest_nominated cid (strm_checks s)"
  let ?ps = "map (prune_pending_pair cid ?hi) (strm_checks s)"
  have "list_all (\<lambda>p. sid \<in> S \<and> calm sid p \<and> idle_in X sid p) (strm_checks s)"
    using assms(1) found_stream [OF s] by (auto simp: quiet_def all_pairs_def list_all_iff)
  then have "list_all (\<lambda>p. sid \<in> S \<and> calm sid p \<and> idle_in X sid p) ?ps"
    by (auto simp: list_all_iff prune_pending_pair_def calm_def idle_in_def set_state_def clear_message_def)
  then have "quiet S X (update_checks sid (\<lambda>_. ?ps) a)"
    using assms(1) unfolding quiet_def by (intro all_pairs_checks) auto
  then show "Q b" using run assms
    by (auto simp: priv_update_check_list_state_for_ready_def s priv_prune_pending_checks_def Let_def quiet_def
        split: if_splits)
qed

lemma settle_quiet:
  "quiet S X a \<Longrightarrow> yields (quiet S X) (settle_streams sids a)"
proof (induction sids arbitrary: a)
  case (Cons sid sids)
  have fold: "quiet S X (fold (\<lambda>i. failed_component sid (f i)) is a)" if "quiet S X a" for f :: "nat \<Rightarrow> u32" and "is" a
    using that by (induction "is" arbitrary: a)
      (auto simp: failed_component_def quiet_def split: option.split)
  have comps: "yields Q (settle_components sid cids a)"
    if "quiet S X a" "\<And>b. quiet S X b \<Longrightarrow> Q b" for cids a Q
    using that by (induction cids arbitrary: a Q) (auto intro!: ready_quiet)
  show ?case using Cons by (auto simp: priv_update_check_list_failed_components_def
      intro!: opaque_calls comps fold)
qed simp

lemma first_frozen_None: "first_frozen ss = None \<longleftrightarrow>
    list_all (\<lambda>s. list_all (\<lambda>p. pair_state p = NICE_CHECK_FROZEN \<longrightarrow> pair_priority p = 0) (strm_checks s)) ss"
proof -
  have h: "highest_frozen hi None ps = None \<longleftrightarrow>
      list_all (\<lambda>p. pair_state p = NICE_CHECK_FROZEN \<longrightarrow> pair_priority p \<le> hi) ps" for hi ps
  proof (induction ps arbitrary: hi)
    case (Cons p ps)
    have n: "highest_frozen h (Some q) qs \<noteq> None" for h q qs by (induction qs arbitrary: h q) auto
    show ?case
    proof (cases "pair_state p = NICE_CHECK_FROZEN \<and> hi < pair_priority p")
      case True
      then show ?thesis using n [of "pair_priority p" p ps] by (simp del: not_None_eq add: not_le)
    next
      case False
      then have "(pair_state p = NICE_CHECK_FROZEN \<longrightarrow> pair_priority p \<le> hi)" by (simp add: not_less)
      then show ?thesis unfolding highest_frozen.simps if_not_P [OF False] Cons.IH list.pred_inject by blast
    qed
  qed simp
  have z: "highest_frozen 0 None ps = None \<longleftrightarrow>
      list_all (\<lambda>p. pair_state p = NICE_CHECK_FROZEN \<longrightarrow> pair_priority p = 0) ps" for ps
    unfolding h by simp
  show ?thesis
  proof (induction ss)
    case (Cons s ss)
    then show ?case using z [of "strm_checks s"] by (cases "highest_frozen 0 None (strm_checks s)") simp_all
  qed simp
qed

lemma first_waiting_None: "first_waiting ss = None \<longleftrightarrow>
    list_all (\<lambda>s. list_all (\<lambda>p. pair_state p \<noteq> NICE_CHECK_WAITING) (strm_checks s)) ss"
proof (induction ss)
  case (Cons s ss)
  have "priv_conn_check_find_next_waiting (strm_checks s) = None \<longleftrightarrow>
      list_all (\<lambda>p. pair_state p \<noteq> NICE_CHECK_WAITING) (strm_checks s)"
    by (simp add: priv_conn_check_find_next_waiting_def find_None_iff list_all_iff Ball_def)
  with Cons show ?case by (cases "priv_conn_check_find_next_waiting (strm_checks s)") auto
qed simp

lemma checks_end:
  assumes "agent_ok a" and "priv_conn_check_tick_unlocked env a = Some (False, b)"
  shows "all_pairs (\<lambda>sid p. calm sid p \<and> pair_state p \<noteq> NICE_CHECK_IN_PROGRESS) b \<and> \<not> ag_check_timer b"
proof -
  define t a1 where "t = fst (read_clock env a)" and "a1 = snd (read_clock env a)"
  have ok1: "agent_ok a1" using assms(1) by (simp add: a1_def read_clock_def)
  from assms(2) obtain a3 a4 where w: "first_waiting (ag_streams a1) = None"
    and u: "fst (priv_conn_check_unfreeze_next a1) = False"
    and ts: "tick_streams env t (map strm_id (ag_streams (snd (priv_conn_check_unfreeze_next a1))))
      (snd (priv_conn_check_unfreeze_next a1)) = Some (False, a3)"
    and st: "settle_streams (map strm_id (ag_streams a3)) a3 = Some a4" and b: "b = conn_check_stop a4"
    unfolding priv_conn_check_tick_unlocked_def t_def a1_def
    by (auto simp: split_beta Let_def split: option.splits bind_split_asm if_split_asm)
  have f: "first_frozen (ag_streams a1) = None" and same: "snd (priv_conn_check_unfreeze_next a1) = a1"
    using u by (auto simp: priv_conn_check_unfreeze_next_def split: option.splits)
  let ?S = "set (map strm_id (ag_streams a1))"
  have "quiet ?S {} a1" using w f
    by (auto simp: quiet_def all_pairs_def calm_def idle_in_def first_waiting_None first_frozen_None list_all_iff)
  from tick_streams_quiet [OF ok1 this ts [unfolded same]] have "quiet ?S ?S a3" by simp
  from yieldsD [OF settle_quiet [OF this] st] have "quiet ?S ?S a4" .
  then show ?thesis unfolding b by (auto simp: quiet_def all_pairs_def idle_in_def list_all_iff conn_check_stop_def)
qed

end
