(* ===== verification/Ice_Facts.thy ===== *)
theory Ice_Facts
  imports Ice_Finish
begin

unbundle bit_operations_syntax

text \<open>
  What the operations on the check lists achieve: the order and the limit of a list, what READY means,
  unfreezing, labels of foundations, the agreement of two agents on the priorities, the selected pair,
  and the packets that change nothing.
\<close>

section \<open>Looking up what was updated\<close>

lemma find_map: "find P (map g xs) = map_option g (find (P \<circ> g) xs)"
  by (induction xs) auto

lemma find_stream_update [simp]:
  assumes "\<And>s. strm_id (f s) = strm_id s"
  shows "agent_find_stream (update_stream sid f a) x =
    map_option (\<lambda>s. if strm_id s = sid then f s else s) (agent_find_stream a x)"
proof -
  have "(\<lambda>s. strm_id s = x) \<circ> (\<lambda>s. if strm_id s = sid then f s else s) = (\<lambda>s. strm_id s = x)"
    using assms by (auto simp: fun_eq_iff)
  then show ?thesis by (simp add: agent_find_stream_def update_stream_def find_map)
qed

lemma find_stream_checks [simp]:
  "agent_find_stream (update_checks sid f a) x =
     map_option (\<lambda>s. if strm_id s = sid then s\<lparr>strm_checks := f (strm_checks s)\<rparr> else s) (agent_find_stream a x)"
  by (simp add: update_checks_def)

lemma find_stream_fields [simp]:
  "agent_find_stream (emit e a) x = agent_find_stream a x" "agent_find_stream (a\<lparr>ag_clock := x1\<rparr>) x = agent_find_stream a x"
  "agent_find_stream (a\<lparr>ag_draws := x2\<rparr>) x = agent_find_stream a x"
  "agent_find_stream (a\<lparr>ag_next_ref := x3\<rparr>) x = agent_find_stream a x"
  "agent_find_stream (a\<lparr>ag_media_after_tick := x4\<rparr>) x = agent_find_stream a x"
  "agent_find_stream (a\<lparr>ag_sockets := x5\<rparr>) x = agent_find_stream a x"
  "agent_find_stream (agent_socket_send k to b a) x = agent_find_stream a x"
  by (simp_all add: agent_find_stream_def emit_def agent_socket_send_def)

lemma find_component_stream:
  "agent_find_component a sid cid = Some (s, c) \<longleftrightarrow>
     agent_find_stream a sid = Some s \<and> stream_find_component_by_id s cid = Some c"
  by (auto simp: agent_find_component_def split: bind_splits)

lemma find_component_cong:
  "agent_find_stream b sid = agent_find_stream a sid \<Longrightarrow> agent_find_component b sid = agent_find_component a sid"
  by (simp add: agent_find_component_def fun_eq_iff)

lemma find_by_id_update:
  assumes "\<And>c. comp_id (f c) = comp_id c"
  shows "stream_find_component_by_id (s\<lparr>strm_components := map (\<lambda>c. if comp_id c = cid then f c else c)
      (strm_components s)\<rparr>) x = map_option (\<lambda>c. if comp_id c = cid then f c else c) (stream_find_component_by_id s x)"
proof -
  have "(\<lambda>c. comp_id c = x) \<circ> (\<lambda>c. if comp_id c = cid then f c else c) = (\<lambda>c. comp_id c = x)"
    using assms by (auto simp: fun_eq_iff)
  then show ?thesis by (simp add: stream_find_component_by_id_def find_map)
qed

lemma find_component_same:
  assumes "agent_find_component a sid cid = Some (s, c)" and "\<And>c. comp_id (f c) = comp_id c"
  shows "agent_find_component (update_component sid cid f a) sid cid =
    Some (s\<lparr>strm_components := map (\<lambda>c. if comp_id c = cid then f c else c) (strm_components s)\<rparr>, f c)"
proof -
  have "strm_id s = sid" "comp_id c = cid" using found_component [OF assms(1)] found_stream [of a sid s] by auto
  with assms show ?thesis
    by (simp add: find_component_stream update_component_def find_by_id_update)
qed

lemma component_found:
  assumes "agent_ok a" and "(sid, cid) \<in> set (component_ids a)"
  shows "\<exists>s c. agent_find_component a sid cid = Some (s, c)"
proof -
  from assms(2) obtain s where s: "s \<in> set (ag_streams a)" "strm_id s = sid" "cid \<in> comp_id ` set (strm_components s)"
    by (auto simp: component_ids_def)
  have "agent_find_stream a sid \<noteq> None" using s by (auto simp: agent_find_stream_def find_None_iff)
  then obtain t where t: "agent_find_stream a sid = Some t" by blast
  with unique_stream [OF assms(1) t s(1,2)] have "t = s" by simp
  moreover have "stream_find_component_by_id s cid \<noteq> None"
    using s(3) by (auto simp: stream_find_component_by_id_def find_None_iff)
  ultimately show ?thesis using t by (auto simp: find_component_stream)
qed

section \<open>Order and limit\<close>

definition live :: "check_pair \<Rightarrow> bool" where
  "live p \<longleftrightarrow> pair_state p \<noteq> NICE_CHECK_CANCELLED"

lemma limit_checks_over: "limit \<le> v \<Longrightarrow> filter live (limit_checks limit v ps) = []"
  by (induction limit v ps rule: limit_checks.induct) (auto simp: live_def set_state_def)

lemma limit_checks_live:
  "filter live (limit_checks limit v ps) = take (limit - v) (filter live ps)"
proof (induction limit v ps rule: limit_checks.induct)
  case (2 limit v p ps)
  then show ?case
  proof (cases "pair_state p \<noteq> NICE_CHECK_CANCELLED \<and> v + 1 \<le> limit")
    case True
    then have "limit - v = Suc (limit - (v + 1))" by linarith
    with True 2 show ?thesis by (simp add: live_def)
  next
    case False
    with 2 show ?thesis by (auto simp: live_def set_state_def limit_checks_over)
  qed
qed simp

lemma limit_checks_priorities: "map pair_priority (limit_checks limit v ps) = map pair_priority ps"
  by (induction limit v ps rule: limit_checks.induct) (auto simp: set_state_def)

lemma by_priority_map: "by_priority ps \<longleftrightarrow> sorted_wrt (\<ge>) (map pair_priority ps)"
  by (simp add: by_priority_def sorted_wrt_map)

lemma add_in_order:
  assumes "inserts env" and "agent_find_stream a sid = Some s" and "by_priority (strm_checks s)"
    and "priv_add_new_check_pair env sid cid l r st n a = Some b"
  shows "\<exists>t p ps. agent_find_stream b sid = Some t \<and> by_priority (strm_checks t) \<and>
    pair_local p = l \<and> pair_remote p = r \<and> pair_priority p = agent_candidate_pair_priority a l r \<and>
    pair_state p = st \<and> mset ps = add_mset p (mset (strm_checks s)) \<and> by_priority ps \<and>
    (if ag_compat a = NICE_COMPATIBILITY_RFC5245
     then filter live (strm_checks t) = take (ag_max_checks a) (filter live ps) else strm_checks t = ps)"
proof -
  define k where "k = (if cand_type r = NICE_CANDIDATE_TYPE_PEER_REFLEXIVE then sockptr r else sockptr l)"
  define p where "p = new_pair a sid cid l r k st n (agent_candidate_pair_priority a l r)"
  define ps where "ps = env_insert_sorted env conn_check_compare (strm_checks s) p"
  let ?lim = "if ag_compat a = NICE_COMPATIBILITY_RFC5245
    then priv_limit_conn_check_list_size ps (ag_max_checks a) else ps"
  have id: "strm_id s = sid" using found_stream [OF assms(2)] by simp
  have "b = (if ag_compat a = NICE_COMPATIBILITY_RFC5245
      then update_checks sid (\<lambda>ps. priv_limit_conn_check_list_size ps (ag_max_checks a)) (insert_pair env p a)
      else insert_pair env p a)"
    using assms(4) unfolding priv_add_new_check_pair_def p_def k_def by (auto simp: assms(2) Let_def)
  then have t: "agent_find_stream b sid = Some (s\<lparr>strm_checks := ?lim\<rparr>)"
    by (simp add: insert_pair_def assms(2) id p_def ps_def)
  have m: "mset ps = add_mset p (mset (strm_checks s))" using assms(1) by (simp add: inserts_def ps_def)
  have o: "by_priority ps" using inserts_by_priority [OF assms(1,3)] by (simp add: ps_def)
  then have "by_priority (priv_limit_conn_check_list_size ps (ag_max_checks a))"
    by (simp add: by_priority_map priv_limit_conn_check_list_size_def limit_checks_priorities)
  with t m o show ?thesis
    by (intro exI [of _ "s\<lparr>strm_checks := ?lim\<rparr>"] exI [of _ p] exI [of _ ps])
      (simp add: p_def limit_checks_live priv_limit_conn_check_list_size_def)
qed

section \<open>READY\<close>

lemma signal_keeps_checks:
  "map_option strm_checks (agent_find_stream (agent_signal_component_state_change sid cid st a) x) =
     map_option strm_checks (agent_find_stream a x)"
  by (auto simp: agent_signal_component_state_change_def Let_def update_component_def option.map_comp comp_def
      split: option.split intro!: option.map_cong)

lemma find_component_checks:
  "agent_find_component (update_checks sid f a) sid cid =
     map_option (\<lambda>(s, c). (s\<lparr>strm_checks := f (strm_checks s)\<rparr>, c)) (agent_find_component a sid cid)"
proof (cases "agent_find_stream a sid")
  case (Some s)
  then have "strm_id s = sid" by (auto dest: found_stream)
  with Some show ?thesis
    by (simp add: agent_find_component_def stream_find_component_by_id_def split: bind_split option.split)
qed (simp add: agent_find_component_def)

text \<open>Nothing of the component is left to check.\<close>

definition settled :: "u32 \<Rightarrow> check_pair list \<Rightarrow> bool" where
  "settled cid ps \<longleftrightarrow> list_all (\<lambda>p. pair_component p = cid \<longrightarrow> pair_state p \<noteq> NICE_CHECK_FROZEN \<and>
     pair_state p \<noteq> NICE_CHECK_WAITING \<and> pair_state p \<noteq> NICE_CHECK_IN_PROGRESS) ps"

lemma prune_pending_settles:
  assumes "priv_prune_pending_checks cid ps = (0, qs)"
  shows "settled cid qs" "list_ex (nominated_for cid) qs = list_ex (nominated_for cid) ps"
proof -
  let ?f = "prune_pending_pair cid (highest_nominated cid ps)"
  from assms have qs: "qs = map ?f ps" by (simp add: priv_prune_pending_checks_def Let_def)
  with assms have none: "filter (\<lambda>p. pair_component p = cid \<and> pair_state p = NICE_CHECK_IN_PROGRESS) qs = []"
    by (simp only: priv_prune_pending_checks_def Let_def prod.inject length_0_conv)
  have p: "pair_component p = cid \<Longrightarrow> pair_state p \<noteq> NICE_CHECK_IN_PROGRESS" if "p \<in> set qs" for p
    using none that by (auto simp: filter_empty_conv)
  have f: "pair_state (?f p) \<noteq> NICE_CHECK_FROZEN \<and> pair_state (?f p) \<noteq> NICE_CHECK_WAITING"
    if "pair_component (?f p) = cid" for p
  proof -
    have "pair_component (?f p) = pair_component p"
      by (simp add: prune_pending_pair_def set_state_def clear_message_def)
    with that have "pair_component p = cid" by simp
    then show ?thesis by (auto simp: prune_pending_pair_def set_state_def clear_message_def)
  qed
  show "settled cid qs" using p f by (auto simp: settled_def list_all_iff qs)
  have "nominated_for cid (?f p) = nominated_for cid p" for p
    by (auto simp: nominated_for_def valid_pair_def prune_pending_pair_def set_state_def clear_message_def)
  then show "list_ex (nominated_for cid) qs = list_ex (nominated_for cid) ps"
    by (simp add: qs list_ex_iff)
qed

lemma highest_nominated_le:
  "highest_nominated cid ps \<le> x \<longleftrightarrow> (\<forall>p \<in> set ps. nominated_for cid p \<longrightarrow> pair_priority p \<le> x)"
proof -
  have "fold (\<lambda>p hi. if pair_component p = cid \<and> valid_pair p \<and> pair_nominated p \<and> hi < pair_priority p
       then pair_priority p else hi) ps h \<le> x \<longleftrightarrow>
      h \<le> x \<and> (\<forall>p \<in> set ps. nominated_for cid p \<longrightarrow> pair_priority p \<le> x)" for h
    by (induction ps arbitrary: h) (auto simp: nominated_for_def)
  from this [of 0] show ?thesis by (simp add: highest_nominated_def)
qed

text \<open>What keeps a component from being ready: a check under way that may still give a better pair.\<close>

definition still_checking :: "u32 \<Rightarrow> check_pair list \<Rightarrow> bool" where
  "still_checking cid ps \<longleftrightarrow> (\<exists>q \<in> set ps. pair_component q = cid \<and> pair_state q = NICE_CHECK_IN_PROGRESS \<and>
     (\<forall>p \<in> set ps. nominated_for cid p \<longrightarrow> pair_priority p \<le> pair_priority q))"

lemma prune_pending_none:
  "fst (priv_prune_pending_checks cid ps) = 0 \<longleftrightarrow> \<not> still_checking cid ps"
proof -
  let ?hi = "highest_nominated cid ps"
  let ?f = "prune_pending_pair cid ?hi"
  have p: "pair_component (?f q) = cid \<and> pair_state (?f q) = NICE_CHECK_IN_PROGRESS \<longleftrightarrow>
      pair_component q = cid \<and> pair_state q = NICE_CHECK_IN_PROGRESS \<and> ?hi \<le> pair_priority q" for q
    by (auto simp: prune_pending_pair_def set_state_def clear_message_def)
  have "fst (priv_prune_pending_checks cid ps) = 0 \<longleftrightarrow>
      (\<forall>q \<in> set ps. \<not> (pair_component (?f q) = cid \<and> pair_state (?f q) = NICE_CHECK_IN_PROGRESS))"
    by (simp only: priv_prune_pending_checks_def Let_def fst_conv length_0_conv filter_empty_conv set_map ball_simps)
  then show ?thesis unfolding p by (auto simp: still_checking_def highest_nominated_le)
qed

lemma find_after_signal:
  assumes "agent_find_component a sid cid = Some (s, c)"
  shows "\<exists>t d. agent_find_component (agent_signal_component_state_change sid cid st a) sid cid = Some (t, d) \<and>
    comp_state d = st \<and> strm_checks t = strm_checks s"
proof (cases "comp_state c = st")
  case True
  then show ?thesis using assms by (simp add: agent_signal_component_state_change_def)
next
  case False
  let ?a1 = "update_component sid cid (\<lambda>c. c\<lparr>comp_state := st\<rparr>) a"
  have "agent_find_component (emit e a') = agent_find_component a'" for e a'
    by (intro ext fun_cong [OF find_component_cong]) simp
  then show ?thesis
    using False assms find_component_same [OF assms, of "\<lambda>c. c\<lparr>comp_state := st\<rparr>"]
    by (simp add: agent_signal_component_state_change_def Let_def)
qed

text \<open>The component becomes ready exactly when it has a nominated pair and nothing better under way.\<close>

lemma ready_exactly:
  assumes "agent_find_component a sid cid = Some (s, c)"
  shows "\<exists>b t d. priv_update_check_list_state_for_ready sid cid a = Some b \<and>
    agent_find_component b sid cid = Some (t, d) \<and>
    (if list_ex (nominated_for cid) (strm_checks s) \<and> \<not> still_checking cid (strm_checks s)
     then comp_state d = NICE_COMPONENT_STATE_READY \<and> list_ex (nominated_for cid) (strm_checks t) \<and>
       settled cid (strm_checks t)
     else comp_state d = comp_state c)"
proof -
  have s: "agent_find_stream a sid = Some s" using assms by (auto simp: find_component_stream)
  obtain n qs where q: "priv_prune_pending_checks cid (strm_checks s) = (n, qs)" by fastforce
  have n: "n = 0 \<longleftrightarrow> \<not> still_checking cid (strm_checks s)"
    using prune_pending_none [of cid "strm_checks s"] q by simp
  let ?a1 = "update_checks sid (\<lambda>_. qs) a"
  have c1: "agent_find_component ?a1 sid cid = Some (s\<lparr>strm_checks := qs\<rparr>, c)"
    by (simp add: find_component_checks assms)
  show ?thesis
  proof (cases "list_ex (nominated_for cid) (strm_checks s) \<and> n = 0")
    case True
    with prune_pending_settles [of cid "strm_checks s" qs] q
    have p: "settled cid qs" "list_ex (nominated_for cid) qs" by simp_all
    from find_after_signal [OF c1, of NICE_COMPONENT_STATE_READY] True n p show ?thesis
      by (auto simp: priv_update_check_list_state_for_ready_def s q)
  next
    case False
    then show ?thesis using n c1 assms
      by (auto simp: priv_update_check_list_state_for_ready_def s q)
  qed
qed

section \<open>Unfreezing\<close>

lemma update_checks_at:
  assumes "agent_ok a" and "agent_find_stream a sid = Some s"
  shows "update_checks sid (\<lambda>_. f (strm_checks s)) a = update_checks sid f a"
  using unique_stream [OF assms] by (simp add: update_checks_def update_stream_def)

lemma update_checks_none:
  assumes "agent_ok a" and "agent_find_stream a sid = Some s"
  shows "update_checks sid (\<lambda>_. strm_checks s) a = a"
proof -
  have "map (\<lambda>t. if strm_id t = sid then t\<lparr>strm_checks := strm_checks s\<rparr> else t) (ag_streams a) = ag_streams a"
    using unique_stream [OF assms] by (intro map_idI) auto
  then show ?thesis by (simp add: update_checks_def update_stream_def)
qed

lemma unfreeze_others_own:
  "list_all (\<lambda>p. pair_stream p = pair_stream ok) ps \<Longrightarrow> unfreeze_others ok sids n ps = (n, ps)"
proof (induction sids)
  case (Cons sid sids)
  let ?P = "\<lambda>p. pair_stream p = sid \<and> pair_stream p \<noteq> pair_stream ok \<and> unfreezes ok p"
  have "filter ?P ps = []" "unfreeze_where ?P ps = ps"
    using Cons.prems by (auto simp: filter_empty_conv list_all_iff unfreeze_where_def intro!: map_idI)
  with Cons show ?case by (cases "n = 0") (simp_all add: Let_def)
qed simp

text \<open>Only the stream of the pair itself is searched; step 2 of the code never finds anything.\<close>

lemma unfreeze_related_own:
  assumes "agent_ok a" and "agent_find_stream a sid = Some s"
    and "pair_stream p = sid" and "pair_state p = NICE_CHECK_SUCCEEDED"
  shows "priv_conn_check_unfreeze_related sid p a = Some
    (if list_ex (unfreezes p) (strm_checks s) then update_checks sid (unfreeze_where (unfreezes p)) a
     else snd (priv_conn_check_unfreeze_next a))"
proof -
  let ?P = "\<lambda>q. pair_stream q = sid \<and> unfreezes p q"
  let ?u = "unfreeze_where ?P (strm_checks s)" and ?n = "length (filter ?P (strm_checks s))"
  have own: "list_all (\<lambda>q. pair_stream q = sid) (strm_checks s)"
    using assms(1) found_stream [OF assms(2)] by (auto simp: agent_ok_def list_all_iff stream_ok_def)
  then have u: "?u = unfreeze_where (unfreezes p) (strm_checks s)"
    and n: "?n = 0 \<longleftrightarrow> \<not> list_ex (unfreezes p) (strm_checks s)"
    by (auto simp: unfreeze_where_def list_all_iff list_ex_iff filter_empty_conv)
  have "list_all (\<lambda>q. pair_stream q = pair_stream p) ?u"
    using own assms(3) by (auto simp: unfreeze_where_def list_all_iff set_state_def)
  moreover obtain m qs where q: "(if stream_all_components_ready s then
      unfreeze_others p (map strm_id (ag_streams a)) ?n ?u else (?n, ?u)) = (m, qs)" by fastforce
  ultimately have mq: "m = ?n" "qs = ?u" by (auto simp: unfreeze_others_own split: if_splits)
  have "priv_conn_check_unfreeze_related sid p a = Some (if m = 0
      then snd (priv_conn_check_unfreeze_next (update_checks sid (\<lambda>_. qs) a)) else update_checks sid (\<lambda>_. qs) a)"
    unfolding priv_conn_check_unfreeze_related_def by (simp add: assms(2-4) q Let_def)
  note r = this [unfolded mq]
  show ?thesis
  proof (cases "list_ex (unfreezes p) (strm_checks s)")
    case True
    then show ?thesis unfolding r using n u update_checks_at [OF assms(1,2), of "unfreeze_where (unfreezes p)"] by simp
  next
    case False
    then have "?u = strm_checks s" unfolding u by (auto simp: unfreeze_where_def list_ex_iff intro!: map_idI)
    with False show ?thesis unfolding r using n update_checks_none [OF assms(1,2)] by simp
  qed
qed

section \<open>Priorities and roles\<close>

lemma agent_ok_priority:
  assumes "agent_ok a" and "agent_find_stream a sid = Some s" and "p \<in> set (strm_checks s)"
  shows "pair_priority p = agent_candidate_pair_priority a (pair_local p) (pair_remote p)"
  using assms(1,3) found_stream [OF assms(2)]
  by (auto simp: agent_ok_def stream_ok_def list_all_iff agent_candidate_pair_priority_def)

section \<open>Labels of remote foundations\<close>

definition digits_value :: "bytes \<Rightarrow> nat" where
  "digits_value = foldl (\<lambda>v d. 10 * v + (unat d - 48)) 0"

lemma unat_digit: "d < 10 \<Longrightarrow> unat (of_nat (48 + d) :: u8) = 48 + d"
  by (subst unat_of_nat) simp

lemma decimal_value: "digits_value (decimal n) = n"
proof (induction n rule: decimal.induct)
  case (1 n)
  have d: "unat (of_nat (48 + n mod 10) :: u8) = 48 + n mod 10" by (rule unat_digit) simp
  show ?case
  proof (cases "n < 10")
    case True
    then show ?thesis using unat_digit [OF True] by (simp add: decimal.simps [of n] digits_value_def)
  next
    case False
    with 1 [OF False] d show ?thesis by (simp add: decimal.simps [of n] digits_value_def)
  qed
qed

lemma decimal_nonzero: "c \<in> set (decimal n) \<Longrightarrow> c \<noteq> 0"
proof (induction n rule: decimal.induct)
  case (1 n)
  have z: "(of_nat (48 + d) :: u8) \<noteq> 0" if "d < 10" for d
    using unat_digit [OF that] by (metis add_is_0 unat_0 zero_neq_numeral)
  show ?case
  proof (cases "n < 10")
    case True
    then show ?thesis using 1(2) z [of n] by (simp add: decimal.simps [of n])
  next
    case False
    then show ?thesis using 1 z [of "n mod 10"] by (auto simp: decimal.simps [of n])
  qed
qed

lemma decimal_length: "n < 10 ^ k \<Longrightarrow> 0 < k \<Longrightarrow> length (decimal n) \<le> k"
proof (induction n arbitrary: k rule: decimal.induct)
  case (1 n)
  show ?case
  proof (cases "n < 10")
    case True
    then show ?thesis using 1(3) by (simp add: decimal.simps [of n])
  next
    case False
    with 1(2) have k: "1 < k" by (metis less_one linorder_neqE_nat power_0 power_one_right 1(3) less_trans)
    then obtain j where j: "k = Suc j" "0 < j" by (cases k) auto
    have "n div 10 < 10 ^ j" using 1(2) j(1) by (simp add: less_mult_imp_div_less mult.commute)
    from 1(1) [OF False this j(2)] False j show ?thesis by (simp add: decimal.simps [of n])
  qed
qed

lemma label_unique:
  assumes "m < 10 ^ 26" "n < 10 ^ 26" "same_foundation (remote_label m) f" "same_foundation (remote_label n) f"
  shows "m = n"
proof -
  have full: "take NICE_CANDIDATE_MAX_FOUNDATION (cstr (remote_label i)) = remote_label i" if "i < 10 ^ 26" for i
  proof -
    have "cstr (remote_label i) = remote_label i"
      using decimal_nonzero by (auto simp: cstr_def remote_label_def takeWhile_eq_all_conv)
    moreover have "length (remote_label i) \<le> 33" using decimal_length [OF that] by (simp add: remote_label_def)
    ultimately show ?thesis by simp
  qed
  have "remote_label m = remote_label n"
    using assms(3,4) unfolding same_foundation_def full [OF assms(1)] full [OF assms(2)] by (simp only:)
  then have "decimal m = decimal n" by (simp only: remote_label_def append_same_eq same_append_eq)
  then show ?thesis by (metis decimal_value)
qed

lemma free_label_exists:
  assumes "length (comp_remote c) + 1 < 10 ^ 26"
  shows "\<exists>n. 1 \<le> n \<and> n \<le> length (comp_remote c) + 1 \<and> \<not> label_taken c n"
proof (rule ccontr)
  let ?N = "length (comp_remote c)"
  assume "\<nexists>n. 1 \<le> n \<and> n \<le> ?N + 1 \<and> \<not> label_taken c n"
  then have all: "\<exists>i < ?N. same_foundation (remote_label n) (foundation (comp_remote c ! i))"
    if "n \<in> {1..?N + 1}" for n
    using that by (auto simp: label_taken_def list_ex_length)
  then obtain g where g: "\<And>n. n \<in> {1..?N + 1} \<Longrightarrow>
      g n < ?N \<and> same_foundation (remote_label n) (foundation (comp_remote c ! g n))" by metis
  have "inj_on g {1..?N + 1}"
  proof (rule inj_onI)
    fix m n assume mn: "m \<in> {1..?N + 1}" "n \<in> {1..?N + 1}" "g m = g n"
    then have "m < 10 ^ 26" "n < 10 ^ 26" using assms by auto
    then show "m = n" using g [OF mn(1)] g [OF mn(2)] mn(3) label_unique by metis
  qed
  then have "card {1..?N + 1} \<le> card {0..<?N}" using g by (intro card_inj_on_le [of g]) auto
  then show False by simp
qed

lemma first_free_label_finds:
  "k \<le> m \<Longrightarrow> \<not> label_taken c m \<Longrightarrow>
     \<exists>n. first_free_label c k = Some n \<and> k \<le> n \<and> n \<le> m \<and> \<not> label_taken c n"
proof (induction "m - k" arbitrary: k)
  case 0
  then show ?case by (simp add: first_free_label.simps [of c k])
next
  case (Suc d)
  show ?case
  proof (cases "label_taken c k")
    case True
    with Suc have "k \<noteq> m" by auto
    with Suc have "d = m - (k + 1)" "k + 1 \<le> m" by auto
    from Suc(1) [OF this Suc(4)] True show ?thesis by (auto simp: first_free_label.simps [of c k])
  next
    case False
    with Suc show ?thesis by (simp add: first_free_label.simps [of c k])
  qed
qed

lemma remote_label_found:
  assumes "length (comp_remote c) + 1 < 10 ^ 26"
  shows "\<exists>n. priv_highest_remote_foundation c = Some n \<and> n \<le> length (comp_remote c) + 1 \<and> \<not> label_taken c n"
proof -
  from free_label_exists [OF assms] obtain m where "1 \<le> m" "m \<le> length (comp_remote c) + 1" "\<not> label_taken c m"
    by blast
  from first_free_label_finds [OF this(1,3)] this(2) show ?thesis
    by (auto simp: priv_highest_remote_foundation_def)
qed

section \<open>Refreshes\<close>

lemma refresh_timeout_late:
  assumes "unat l < 60"
  shows "unat (refresh_timeout l) = 2 ^ 32 - (60 - unat l) * 1000"
proof -
  have l: "l = of_nat (unat l)" by simp
  have "refresh_timeout l = of_int (int (unat l) * 1000 - 60000)"
    unfolding refresh_timeout_def by (subst l) (simp add: algebra_simps)
  also have "\<dots> = of_int (2 ^ 32) + of_int (int (unat l) * 1000 - 60000)" by simp
  also have "\<dots> = of_int (2 ^ 32 + int (unat l) * 1000 - 60000)" by (simp only: of_int_add [symmetric] add_diff_eq)
  also have "2 ^ 32 + int (unat l) * 1000 - 60000 = int (2 ^ 32 - (60 - unat l) * 1000)" using assms by simp
  finally have "refresh_timeout l = of_nat (2 ^ 32 - (60 - unat l) * 1000)" by (simp only: of_int_of_nat_eq)
  then have "unat (refresh_timeout l) = (2 ^ 32 - (60 - unat l) * 1000) mod 2 ^ 32"
    by (simp only: unat_of_nat) simp
  then show ?thesis using assms by simp
qed

lemma refresh_timeout_exact:
  assumes "60 \<le> unat l" and "unat l \<le> 4295000"
  shows "unat (refresh_timeout l) = (unat l - 60) * 1000"
proof -
  have l: "l = of_nat (unat l)" by simp
  have "refresh_timeout l = of_nat ((unat l - 60) * 1000)"
    unfolding refresh_timeout_def using assms(1) by (subst l) (simp add: of_nat_diff)
  then have "unat (refresh_timeout l) = (unat l - 60) * 1000 mod 2 ^ 32" by (simp only: unat_of_nat) simp
  then show ?thesis using assms(2) by simp
qed

end
