(* ===== verification/Ice_Safety.thy ===== *)
theory Ice_Safety
  imports Ice_Facts
begin

text \<open>
  What packets cannot do: a packet that is not accepted leaves the checks and candidates alone, and a
  response from another address than the one that was checked establishes nothing. And what the
  selection of a pair does.
\<close>

section \<open>Packets that are refused\<close>

text \<open>The role and the streams, without the transactions of the STUN agents.\<close>

type_synonym component_view =
  "u32 \<times> component_state \<times> candidate list \<times> candidate list \<times> incoming_check list \<times> selected_pair"

definition component_view :: "ice_component \<Rightarrow> component_view" where
  "component_view c = (comp_id c, comp_state c, comp_local c, comp_remote c, comp_incoming c, comp_selected c)"

definition stream_view :: "ice_stream \<Rightarrow> u32 \<times> check_pair list \<times> component_view list" where
  "stream_view s = (strm_id s, strm_checks s, map component_view (strm_components s))"

definition agent_view :: "nice_agent \<Rightarrow> bool \<times> (u32 \<times> check_pair list \<times> component_view list) list" where
  "agent_view a = (ag_controlling a, map stream_view (ag_streams a))"

lemma view_fields [simp]:
  "agent_view (emit e a) = agent_view a" "agent_view (a\<lparr>ag_discovery := x1\<rparr>) = agent_view a"
  "agent_view (a\<lparr>ag_refresh := x2\<rparr>) = agent_view a" "agent_view (agent_socket_send k to b a) = agent_view a"
  by (simp_all add: agent_view_def emit_def agent_socket_send_def)

lemma view_component_update [simp]:
  assumes "\<And>c. component_view (f c) = component_view c"
  shows "agent_view (update_component sid cid f a) = agent_view a"
proof -
  have c: "map component_view (map (\<lambda>c. if comp_id c = cid then f c else c) cs) = map component_view cs" for cs
    by (simp add: assms)
  have "stream_view (s\<lparr>strm_components := map (\<lambda>c. if comp_id c = cid then f c else c) (strm_components s)\<rparr>) =
      stream_view s" for s by (simp add: stream_view_def c del: map_map)
  then have "map stream_view (map (\<lambda>s. if strm_id s = sid then s\<lparr>strm_components :=
      map (\<lambda>c. if comp_id c = cid then f c else c) (strm_components s)\<rparr> else s) ss) = map stream_view ss" for ss
    by simp
  then show ?thesis by (simp add: agent_view_def update_component_def update_stream_def del: map_map)
qed

lemma view_agent [simp]: "component_view (c\<lparr>comp_agent := x\<rparr>) = component_view c"
  by (simp add: component_view_def)

lemma inbound_validate_view:
  "inbound_validate env sid cid k buf a = Some (x, b) \<Longrightarrow> agent_view b = agent_view a"
  by (auto simp: inbound_validate_def Let_def split: bind_splits)

lemma error_reply_view: "error_reply env sid cid from k req code a = Some b \<Longrightarrow> agent_view b = agent_view a"
  by (auto simp: error_reply_def Let_def split: bind_splits if_splits)

lemma unknown_reply_view: "unknown_reply env sid cid from k req a = Some b \<Longrightarrow> agent_view b = agent_view a"
  by (auto simp: unknown_reply_def Let_def split: bind_splits if_splits)

lemma refused_view:
  assumes "inbound_validate env sid cid k buf a = Some ((valid, req, taken), a1)"
    and "valid \<noteq> STUN_VALIDATION_SUCCESS"
    and "conn_check_handle_inbound_stun env sid cid k from buf a = Some (ret, b)"
  shows "agent_view b = agent_view a"
proof -
  have v: "agent_view a1 = agent_view a" by (rule inbound_validate_view [OF assms(1)])
  show ?thesis
    using assms(2,3) v unfolding conn_check_handle_inbound_stun_def assms(1)
    by (auto simp: Let_def dest!: error_reply_view unknown_reply_view split: bind_splits if_splits)
qed

section \<open>Responses from elsewhere\<close>

text \<open>The pairs of a stream on which connectivity is established.\<close>

definition valid_refs :: "check_pair list \<Rightarrow> nat list" where
  "valid_refs ps = map pair_ref (filter valid_pair ps)"

definition established :: "u32 \<Rightarrow> nice_agent \<Rightarrow> nat set" where
  "established sid a = (case agent_find_stream a sid of None \<Rightarrow> {} | Some s \<Rightarrow> set (valid_refs (strm_checks s)))"

lemma established_checks:
  assumes "\<And>ps. set (valid_refs (f ps)) \<subseteq> set (valid_refs ps)"
  shows "established sid (update_checks sid f a) \<subseteq> established sid a"
  using assms by (auto simp: established_def split: option.split dest: found_stream)

lemma established_pair:
  assumes "\<And>q. pair_ref (f q) = pair_ref q" and "\<And>q. valid_pair (f q) \<Longrightarrow> valid_pair q"
  shows "established sid (update_pair sid r f a) \<subseteq> established sid a"
  unfolding update_pair_def
  by (rule established_checks) (use assms in \<open>auto simp: valid_refs_def set_pair_def split: if_splits\<close>)

lemma established_role: "established sid (priv_check_for_role_conflict c a) = established sid a"
proof -
  have f: "agent_find_stream (priv_recalculate_pair_priorities (a\<lparr>ag_controlling := c\<rparr>)) sid =
      map_option (\<lambda>s. s\<lparr>strm_checks := map (\<lambda>p. p\<lparr>pair_priority := agent_candidate_pair_priority
        (a\<lparr>ag_controlling := c\<rparr>) (pair_local p) (pair_remote p)\<rparr>) (strm_checks s)\<rparr>) (agent_find_stream a sid)"
    by (simp add: agent_find_stream_def recalculated_streams find_map comp_def)
  have "valid_refs (map (\<lambda>p. p\<lparr>pair_priority := g p\<rparr>) ps) = valid_refs ps" for g ps
    by (induction ps) (auto simp: valid_refs_def valid_pair_def)
  then have "established sid (priv_recalculate_pair_priorities (a\<lparr>ag_controlling := c\<rparr>)) = established sid a"
    unfolding established_def f by (simp split: option.split)
  then show ?thesis by (cases "c = ag_controlling a") (simp_all add: priv_check_for_role_conflict_def)
qed

lemma events_unchanged [simp]:
  "ag_events (update_checks sid f a) = ag_events a" "ag_events (update_pair sid r g a) = ag_events a"
  "ag_events (priv_check_for_role_conflict c a) = ag_events a"
  by (simp_all add: update_pair_def update_checks_def update_stream_def priv_check_for_role_conflict_def
      priv_recalculate_pair_priorities_def)

lemma response_elsewhere:
  assumes "agent_find_stream a sid = Some s" and "stun_message_id resp = Some i"
    and "list_all (\<lambda>p. awaits i (pair_message p) \<longrightarrow> \<not> nice_address_equal from (addr (pair_remote p))) (strm_checks s)"
    and "priv_map_reply_to_conn_check_request env sid cid k from lc rc resp a = Some (found, b)"
  shows "established sid b \<subseteq> established sid a \<and> ag_events b = ag_events a"
proof -
  have prune: "established sid (update_checks sid prune_cancelled_conn_check x) \<subseteq> established sid x" for x
    by (rule established_checks) (auto simp: valid_refs_def prune_cancelled_conn_check_def)
  show ?thesis
  proof (cases "find (\<lambda>p. awaits i (pair_message p)) (strm_checks s)")
    case None
    then have "b = update_checks sid prune_cancelled_conn_check a"
      using assms(4) by (simp add: priv_map_reply_to_conn_check_request_def assms(1,2))
    then show ?thesis using prune by simp
  next
    case (Some p)
    then have "p \<in> set (strm_checks s)" "awaits i (pair_message p)" by (auto simp: find_Some_iff)
    with assms(3) have far: "\<not> nice_address_equal from (addr (pair_remote p))" by (auto simp: list_all_iff)
    obtain a1 where a1: "check_answered env sid cid p k from lc rc resp a = Some a1"
      and b: "b = update_checks sid prune_cancelled_conn_check a1"
      using assms(4) Some by (auto simp: priv_map_reply_to_conn_check_request_def assms(1,2) split: bind_splits)
    have simps: "pair_ref (set_state x q) = pair_ref q" "pair_ref (clear_message q) = pair_ref q"
      "valid_pair (clear_message q) = valid_pair q" "\<not> valid_pair (set_state NICE_CHECK_FAILED q)"
      "\<not> valid_pair (set_state NICE_CHECK_WAITING q)" for x q
      by (simp_all add: set_state_def clear_message_def valid_pair_def)
    have e: "established sid (update_pair sid r clear_message x) \<subseteq> established sid x"
      "established sid (update_pair sid r (set_state NICE_CHECK_FAILED \<circ> clear_message) x) \<subseteq> established sid x"
      "established sid (update_pair sid r (set_state NICE_CHECK_WAITING \<circ> clear_message) x) \<subseteq> established sid x" for r x
      by (rule established_pair; simp add: simps)+
    have "established sid a1 \<subseteq> established sid a \<and> ag_events a1 = ag_events a"
      using a1 far e [of "pair_ref p"] established_role unfolding check_answered_def
      by (auto simp: Let_def split: bind_splits if_splits) (use established_role e in blast)+
    then show ?thesis using prune [of a1] by (auto simp: b)
  qed
qed

section \<open>The selected pair\<close>

definition selected :: "ice_component \<Rightarrow> candidate option \<times> candidate option \<times> u64" where
  "selected c = (sel_local (comp_selected c), sel_remote (comp_selected c), sel_priority (comp_selected c))"

definition selection :: "u32 \<Rightarrow> u32 \<Rightarrow> nice_agent \<Rightarrow> (candidate option \<times> candidate option \<times> u64) option" where
  "selection sid cid a = map_option (\<lambda>(s, c). selected c) (agent_find_component a sid cid)"

lemma selection_streams: "ag_streams b = ag_streams a \<Longrightarrow> selection sid cid b = selection sid cid a"
  by (simp add: selection_def agent_find_component_def agent_find_stream_def)

lemma selection_fields [simp]:
  "selection sid cid (emit e a) = selection sid cid a" "selection sid cid (a\<lparr>ag_clock := x1\<rparr>) = selection sid cid a"
  "selection sid cid (a\<lparr>ag_draws := x2\<rparr>) = selection sid cid a"
  "selection sid cid (a\<lparr>ag_media_after_tick := x3\<rparr>) = selection sid cid a"
  "selection sid cid (agent_socket_send k to b a) = selection sid cid a"
  by (rule selection_streams; simp add: emit_def agent_socket_send_def)+

lemma selection_component [simp]:
  assumes "\<And>c. comp_id (f c) = comp_id c" and "\<And>c. selected (f c) = selected c"
  shows "selection sid cid (update_component x y f a) = selection sid cid a"
proof (cases "agent_find_stream a sid")
  case (Some s)
  let ?g = "\<lambda>s. s\<lparr>strm_components := map (\<lambda>c. if comp_id c = y then f c else c) (strm_components s)\<rparr>"
  have "map_option selected (stream_find_component_by_id (?g s) cid) =
      map_option selected (stream_find_component_by_id s cid)"
    by (simp add: find_by_id_update [of f, OF assms(1)] option.map_comp comp_def assms(2) if_distrib cong: if_cong)
  with Some show ?thesis
    by (simp add: selection_def update_component_def agent_find_component_def)
      (auto split: bind_splits option.splits)
qed (simp add: selection_def update_component_def agent_find_component_def)

lemma selected_fields [simp]:
  "selected (c\<lparr>comp_agent := x\<rparr>) = selected c"
  "(\<And>p. sel_local (f p) = sel_local p \<and> sel_remote (f p) = sel_remote p \<and> sel_priority (f p) = sel_priority p) \<Longrightarrow>
     selected (c\<lparr>comp_selected := f (comp_selected c)\<rparr>) = selected c"
  by (simp_all add: selected_def)

lemma selection_selected [simp]:
  "(\<And>p. sel_local (f p) = sel_local p \<and> sel_remote (f p) = sel_remote p \<and> sel_priority (f p) = sel_priority p) \<Longrightarrow>
     selection sid cid (update_selected x y f a) = selection sid cid a"
  by (simp add: update_selected_def)

text \<open>Keepalives and signals leave the selection alone.\<close>

lemma keepalive_selection:
  "(\<And>x b. selection sid cid b = selection sid cid a \<Longrightarrow> Q (x, b)) \<Longrightarrow> yields Q (keepalive_component env sc a)"
  by (auto simp: keepalive_component_def keepalive_check_def keepalive_indication_def clock_defs Let_def
      split_beta split: option.split intro!: opaque_calls)

lemma keepalives_selection:
  "(\<And>x b. selection sid cid b = selection sid cid a \<Longrightarrow> Q (x, b)) \<Longrightarrow> yields Q (keepalive_components env scs a)"
  by (induction scs arbitrary: a Q) (auto intro!: keepalive_selection [where sid = sid and cid = cid])

lemma send_all_selection:
  "(\<And>b. selection sid cid b = selection sid cid a \<Longrightarrow> Q b) \<Longrightarrow> yields Q (send_all xs a)"
  by (induction xs a arbitrary: Q rule: send_all.induct) (auto intro!: yieldsI [where m = "k :: nat option" for k])

lemma servers_selection:
  "(\<And>b. selection sid cid b = selection sid cid a \<Longrightarrow> Q b) \<Longrightarrow> yields Q (keepalive_servers env server scs a)"
proof (induction scs arbitrary: a Q)
  case (Cons sc scs)
  then show ?case
    by (cases sc) (auto simp: keepalive_candidates_def clock_defs Let_def
        intro!: opaque_calls send_all_selection [where sid = sid and cid = cid])
qed simp

lemma keepalive_tick_selection:
  "(\<And>x b. selection sid cid b = selection sid cid a \<Longrightarrow> Q (x, b)) \<Longrightarrow>
     yields Q (priv_conn_keepalive_tick_unlocked env a)"
  by (auto simp: priv_conn_keepalive_tick_unlocked_def split: option.split
      intro!: keepalives_selection [where sid = sid and cid = cid] servers_selection [where sid = sid and cid = cid])

lemma signal_selection:
  "(\<And>b. selection sid cid b = selection sid cid a \<Longrightarrow> Q b) \<Longrightarrow> yields Q (agent_signal_new_selected_pair x y l r a)"
  by (auto simp: agent_signal_new_selected_pair_def Let_def split: option.split intro!: opaque_calls)

lemma component_selected:
  assumes "agent_ok a" and "agent_find_component a sid cid = Some (s, c)"
    and "\<And>b. selection sid cid b = Some (Some l, Some r, prio) \<Longrightarrow> Q b"
  shows "yields Q (component_update_selected_pair env sid cid (l, r, prio) a)"
proof -
  let ?f = "\<lambda>c. (component_clear_selected_pair c)\<lparr>comp_selected :=
    no_pair\<lparr>sel_local := Some l, sel_remote := Some r, sel_priority := prio\<rparr>\<rparr>"
  have set: "Q (update_component sid cid ?f b)" if ok: "agent_ok b" "component_ids b = component_ids a" for b
  proof -
    obtain t d where "agent_find_component b sid cid = Some (t, d)"
      using component_found [OF ok(1), of sid cid] ok(2) found_ids [OF assms(2)] by auto
    from find_component_same [OF this, of ?f] show ?thesis
      by (intro assms(3)) (simp add: selection_def selected_def component_clear_selected_pair_def)
  qed
  show ?thesis using assms(1,2)
    by (auto simp: component_update_selected_pair_def Let_def set split: option.split intro!: keeps)
qed

lemma selected_better:
  assumes "agent_ok a" and "agent_find_component a sid cid = Some (s, c)" and "p \<in> set (strm_checks s)"
    and "find (\<lambda>x. same_foundation (foundation x) (foundation (pair_local p))) (comp_local c) = Some (pair_local p)"
    and "find (\<lambda>x. same_foundation (foundation x) (foundation (pair_remote p))) (comp_remote c) = Some (pair_remote p)"
    and "priv_update_selected_pair env sid cid p a = Some b"
  shows "selection sid cid b = Some (if sel_priority (comp_selected c) < pair_priority p
    then (Some (pair_local p), Some (pair_remote p), pair_priority p) else selected c)"
proof -
  have "agent_find_stream a sid = Some s" using assms(2) by (simp add: find_component_stream)
  from agent_ok_priority [OF assms(1) this assms(3)]
  have f: "component_find_pair a c (foundation (pair_local p)) (foundation (pair_remote p)) =
      Some (pair_local p, pair_remote p, pair_priority p)" by (simp add: component_find_pair_def assms(4,5))
  let ?v = "Some (Some (pair_local p), Some (pair_remote p), pair_priority p)"
  have "yields (\<lambda>b. selection sid cid b = (if sel_priority (comp_selected c) < pair_priority p then ?v
      else Some (selected c))) (priv_update_selected_pair env sid cid p a)"
    by (auto simp: priv_update_selected_pair_def assms(2) f selection_def [of sid cid a]
        intro!: component_selected [OF assms(1,2)] keepalive_tick_selection [where sid = sid and cid = cid]
        signal_selection [where sid = sid and cid = cid])
  from yieldsD [OF this assms(6)] show ?thesis by auto
qed

end
