(* ===== verification/Stun_Exchange.thy ===== *)
theory Stun_Exchange
  imports Stun_Auth Stun_Transactions
begin

unbundle bit_operations_syntax

text \<open>
  Whole exchanges of messages: what a message holds after a chain of appends, what the other side
  reads from the packet, and the acceptance of the response by the agent that sent the request.
  The lemmas join \<open>stun/stunmessage.c\<close> and \<open>stun/stunagent.c\<close> for the usages on top of them.
\<close>

section \<open>A chain of appends\<close>

text \<open>The header fields a reader asks for.\<close>

definition same_header :: "stun_message \<Rightarrow> stun_message \<Rightarrow> bool" where
  "same_header m m' \<longleftrightarrow> stun_message_get_class m' = stun_message_get_class m \<and>
     stun_message_get_method m' = stun_message_get_method m \<and>
     stun_message_id m' = stun_message_id m \<and>
     stun_message_has_cookie m' = stun_message_has_cookie m"

lemma same_headerI:
  assumes "\<And>i. i < 20 \<Longrightarrow> i \<noteq> 2 \<Longrightarrow> i \<noteq> 3 \<Longrightarrow> buffer m' ! i = buffer m ! i"
    and "20 \<le> length (buffer m)" and "20 \<le> length (buffer m')"
  shows "same_header m m'"
proof -
  have "stun_getw (buffer m') 0 = stun_getw (buffer m) 0"
    by (rule stun_getw_cong) (use assms in auto)
  moreover have "take 16 (drop 4 (buffer m')) = take 16 (drop 4 (buffer m))"
    by (rule nth_equalityI) (use assms in auto)
  ultimately show ?thesis
    using assms(2,3)
    by (simp add: same_header_def stun_message_get_class_def stun_message_get_method_def
        stun_message_id_def stun_message_has_cookie_def rdn_def)
qed

lemma same_header_trans: "same_header a b \<Longrightarrow> same_header b c \<Longrightarrow> same_header a c"
  by (simp add: same_header_def)

definition attrs_size :: "stun_message \<Rightarrow> (stun_attribute \<times> bytes) list \<Rightarrow> nat" where
  "attrs_size msg xs = sum_list (map (\<lambda>(t, d). 4 + length d + append_pad msg (length d)) xs)"

lemma attrs_size_simps [simp]:
  "attrs_size msg [] = 0"
  "attrs_size msg ((t, d) # xs) = 4 + length d + append_pad msg (length d) + attrs_size msg xs"
  by (simp_all add: attrs_size_def)

lemma attrs_size_buffer [simp]: "attrs_size (msg\<lparr>buffer := b\<rparr>) xs = attrs_size msg xs"
  by (simp add: attrs_size_def append_pad_def)

text \<open>\<open>msg'\<close> is \<open>msg\<close> with the attributes \<open>xs\<close> behind the ones it had.\<close>

definition extended_by :: "stun_message \<Rightarrow> (stun_attribute \<times> bytes) list \<Rightarrow> stun_message \<Rightarrow> bool" where
  "extended_by msg xs msg' \<longleftrightarrow> sendable msg' \<and> msg' = msg\<lparr>buffer := buffer msg'\<rparr> \<and>
     same_header msg msg' \<and> msg_end msg' = msg_end msg + attrs_size msg xs \<and>
     (\<exists>as bs. msg_attrs msg = Some as \<and> msg_attrs msg' = Some (as @ bs) \<and>
        map fst bs = map (\<lambda>(t, d). ms_swap (msg_agent msg) t) xs) \<and>
     (\<forall>(t, d) \<in> set xs. attr_value msg' t = Some (Some d)) \<and>
     (\<forall>t. t \<notin> fst ` set xs \<longrightarrow>
        attr_value msg' t = attr_value msg t \<and> stun_message_find msg' t = stun_message_find msg t)"

lemma extended_by_frame:
  assumes "extended_by msg xs msg'"
  shows "msg_agent msg' = msg_agent msg" "buffer_len msg' = buffer_len msg" "msg_key msg' = msg_key msg"
    "long_term_key msg' = long_term_key msg" "long_term_valid msg' = long_term_valid msg"
proof -
  have "msg' = msg\<lparr>buffer := buffer msg'\<rparr>" using assms by (simp only: extended_by_def)
  then obtain b where b: "msg' = msg\<lparr>buffer := b\<rparr>" by blast
  show "msg_agent msg' = msg_agent msg" "buffer_len msg' = buffer_len msg" "msg_key msg' = msg_key msg"
    "long_term_key msg' = long_term_key msg" "long_term_valid msg' = long_term_valid msg"
    unfolding b by simp_all
qed

lemma extended_by_attrs:
  assumes "extended_by msg xs msg'" and "msg_attrs msg = Some as"
  obtains bs where "msg_attrs msg' = Some (as @ bs)"
    "map fst bs = map (\<lambda>(t, d). ms_swap (msg_agent msg) t) xs"
proof -
  have "\<exists>as bs. msg_attrs msg = Some as \<and> msg_attrs msg' = Some (as @ bs) \<and>
      map fst bs = map (\<lambda>(t, d). ms_swap (msg_agent msg) t) xs"
    using assms(1) by (simp only: extended_by_def)
  with assms(2) that show ?thesis by auto
qed

lemma extended_by_values:
  assumes "extended_by msg xs msg'"
  shows "(t, d) \<in> set xs \<Longrightarrow> attr_value msg' t = Some (Some d)"
    "t \<notin> fst ` set xs \<Longrightarrow> attr_value msg' t = attr_value msg t"
    "t \<notin> fst ` set xs \<Longrightarrow> stun_message_find msg' t = stun_message_find msg t"
  using assms unfolding extended_by_def by blast+

text \<open>Exact read back needs the cookie, or an agent that does not pad.\<close>

definition exact_lengths :: "stun_message \<Rightarrow> bool" where
  "exact_lengths msg \<longleftrightarrow> no_aligned (msg_agent msg) \<or> stun_message_has_cookie msg = Some True"

definition unprotecting :: "stun_attribute \<Rightarrow> bool" where
  "unprotecting t \<longleftrightarrow> t \<noteq> STUN_ATTRIBUTE_MESSAGE_INTEGRITY \<and> t \<noteq> STUN_ATTRIBUTE_FINGERPRINT"

lemma ms_swap_unprotecting: "unprotecting (ms_swap ag t) \<longleftrightarrow> unprotecting t"
  by (auto simp: unprotecting_def ms_swap_def split: option.splits)

lemma unprotecting_stops: "unprotecting t \<Longrightarrow> \<not> stops_search t ty"
  by (auto simp: unprotecting_def stops_search_def)

lemma append_step:
  fixes t :: stun_attribute
  assumes "sendable msg" and r: "room_for msg (length d)" and o: "open_for msg t" and "exact_lengths msg"
  shows "\<exists>m1. stun_message_append_bytes msg t d = Some (STUN_MESSAGE_RETURN_SUCCESS, m1) \<and>
    extended_by msg [(t, d)] m1"
proof -
  let ?m = "msg\<lparr>buffer := append_bytes_buffer msg t d\<rparr>"
  have b: "built msg" using assms(1) by (simp add: sendable_def)
  obtain as where as: "msg_attrs msg = Some as" using o by (auto simp: open_for_def split: option.splits)
  note B = append_bytes_built [OF b r as, where t = t]
  have a: "stun_message_append_bytes msg t d = Some (STUN_MESSAGE_RETURN_SUCCESS, ?m)"
    by (rule append_bytes_eq [OF b r])
  have e: "20 \<le> msg_end msg" by (simp add: msg_end_def)
  have l: "20 \<le> length (buffer msg)" "20 \<le> length (buffer ?m)"
    using b B(1) by (simp_all add: built_def)
  have "sendable ?m" using assms(1) B(1) B(5) [of 0] e by (simp add: sendable_def)
  moreover have "same_header msg ?m" by (rule same_headerI) (use B(5) e l in auto)
  moreover have "attr_value ?m t = Some (Some d)"
    using attr_value_append_same [OF b r o a] assms(4) by (auto simp: exact_lengths_def)
  ultimately have "extended_by msg [(t, d)] ?m"
    using B(2,3) as attr_value_append_other [OF b r _ a] by (simp add: extended_by_def)
  with a show ?thesis by blast
qed

lemma open_for_extended:
  assumes "extended_by msg [(t, d)] m1" and "open_for msg t'" and "t \<noteq> t'" and "unprotecting t"
  shows "open_for m1 t'"
proof -
  obtain as where a: "msg_attrs msg = Some as" using assms(2) by (auto simp: open_for_def split: option.splits)
  from extended_by_attrs [OF assms(1) a] obtain bs where as: "msg_attrs msg = Some as"
    "msg_attrs m1 = Some (as @ bs)" "map fst bs = [ms_swap (msg_agent msg) t]" "msg_agent m1 = msg_agent msg"
    using a extended_by_frame(1) [OF assms(1)] by auto
  from as(3) obtain p l where bs: "bs = [(ms_swap (msg_agent msg) t, p, l)]" by auto
  have "\<not> stops_search (ms_swap (msg_agent msg) t) (ms_swap (msg_agent msg) t')"
    using unprotecting_stops ms_swap_unprotecting assms(4) by blast
  with as bs assms(2,3) show ?thesis
    by (simp add: open_for_def reaches_def ms_swap_inj)
qed

lemma append_all_extends:
  assumes "sendable msg" and "msg_end msg + attrs_size msg xs \<le> buffer_len msg" and "buffer_len msg < 65536"
    and "exact_lengths msg" and "distinct (map fst xs)"
    and "\<forall>t \<in> fst ` set xs. open_for msg t \<and> unprotecting t"
  shows "\<exists>msg'. append_all msg xs = Some msg' \<and> extended_by msg xs msg'"
  using assms
proof (induction msg xs rule: append_all.induct)
  case (1 msg)
  then have "built msg" by (simp add: sendable_def)
  then obtain as where "msg_attrs msg = Some as" using built_attrs by blast
  with 1 show ?case by (simp add: extended_by_def same_header_def)
next
  case (2 msg t d xs)
  have r: "room_for msg (length d)" using "2.prems"(2,3) by simp
  have ot: "open_for msg t" "unprotecting t" using "2.prems"(6) by simp_all
  from append_step [OF "2.prems"(1) r ot(1) "2.prems"(4)] obtain m1
    where m1: "stun_message_append_bytes msg t d = Some (STUN_MESSAGE_RETURN_SUCCESS, m1)"
      and X: "extended_by msg [(t, d)] m1" by blast
  have h: "same_header msg m1" and s: "sendable m1"
    and e: "msg_end m1 = msg_end msg + (4 + length d + append_pad msg (length d))"
    using X by (simp_all add: extended_by_def)
  note bl = extended_by_frame(2) [OF X] and ag = extended_by_frame(1) [OF X]
  have sz: "attrs_size m1 ys = attrs_size msg ys" for ys by (simp add: attrs_size_def append_pad_def ag)
  have "exact_lengths m1" using "2.prems"(4) h ag by (simp add: exact_lengths_def same_header_def)
  moreover have "\<forall>t' \<in> fst ` set xs. open_for m1 t' \<and> unprotecting t'"
    using open_for_extended [OF X] ot(2) "2.prems"(5,6) by fastforce
  ultimately obtain msg' where msg': "append_all m1 xs = Some msg'" and Y: "extended_by m1 xs msg'"
    using "2.IH" [OF m1 refl refl s] "2.prems"(2,3,5) e sz bl by auto
  obtain as where a: "msg_attrs msg = Some as" using ot(1) by (auto simp: open_for_def split: option.splits)
  from extended_by_attrs [OF X a] obtain b1 where as: "msg_attrs msg = Some as"
    "msg_attrs m1 = Some (as @ b1)" "map fst b1 = [ms_swap (msg_agent msg) t]" using a by auto
  from extended_by_attrs [OF Y as(2)] obtain bs where bs: "msg_attrs msg' = Some ((as @ b1) @ bs)"
    "map fst bs = map (\<lambda>(t, d). ms_swap (msg_agent msg) t) xs" by (auto simp: ag)
  have eq': "msg' = msg\<lparr>buffer := buffer msg'\<rparr>"
    by (rule stun_message.equality) (simp_all add: extended_by_frame [OF X] extended_by_frame [OF Y])
  have tn: "t \<notin> fst ` set xs" using "2.prems"(5) by simp
  have "extended_by msg ((t, d) # xs) msg'"
    unfolding extended_by_def
  proof (intro conjI)
    show "sendable msg'" using Y by (simp only: extended_by_def)
    show "msg' = msg\<lparr>buffer := buffer msg'\<rparr>" by (rule eq')
    show "same_header msg msg'" using h Y same_header_trans unfolding extended_by_def by blast
    show "msg_end msg' = msg_end msg + attrs_size msg ((t, d) # xs)"
      using Y e sz by (simp only: extended_by_def attrs_size_simps)
    show "\<exists>as bs. msg_attrs msg = Some as \<and> msg_attrs msg' = Some (as @ bs) \<and>
        map fst bs = map (\<lambda>(t, d). ms_swap (msg_agent msg) t) ((t, d) # xs)"
      using as bs by (intro exI [of _ as] exI [of _ "b1 @ bs"]) simp
    show "\<forall>(t', d') \<in> set ((t, d) # xs). attr_value msg' t' = Some (Some d')"
      using extended_by_values [OF X] extended_by_values [OF Y] tn by auto
    show "\<forall>t'. t' \<notin> fst ` set ((t, d) # xs) \<longrightarrow>
        attr_value msg' t' = attr_value msg t' \<and> stun_message_find msg' t' = stun_message_find msg t'"
      using extended_by_values(2,3) [OF X] extended_by_values(2,3) [OF Y] by auto
  qed
  with m1 msg' show ?case by simp
qed

section \<open>What the receiver reads\<close>

lemma lookup_attr_append_None:
  "lookup_attr ty as = None \<Longrightarrow> lookup_attr ty bs = None \<Longrightarrow> lookup_attr ty (as @ bs) = None"
  by (induction ty as rule: lookup_attr.induct) (auto split: if_splits)

lemma received_reads:
  fixes msg0 :: stun_message and k :: bytes
  assumes msg: "sendable msg" "room_to_protect msg" "msg_attrs msg = Some as"
      "msg_agent msg = Some (conf_of a)" and same: "speaks_same a b"
  defines "p \<equiv> protected a msg k"
  defines "m \<equiv> received_message b msg0 (sent_bytes p) (msg_end p)"
  shows "same_header msg m"
    "unprotecting t \<Longrightarrow> stun_message_find m t = stun_message_find msg t"
    "unprotecting t \<Longrightarrow> attr_value m t = attr_value msg t"
proof -
  let ?e = "msg_end msg"
  note P = protected_props [OF msg(1-3), where a = a and k = k, folded p_def]
  have ag: "msg_agent p = Some (conf_of a)" using P(7) msg(4) by simp
  note M = packet_received(1) [OF P(1) ag P(3) same]
    packet_received(2-7) [OF P(1) ag P(3) same, where ?msg0.0 = msg0, folded m_def]
  have b: "built msg" using msg(1) by (simp add: sendable_def)
  have l: "?e \<le> msg_end p" "20 \<le> ?e" "?e \<le> length (buffer msg)"
    using P(2) b by (simp_all add: built_def msg_end_def)
  have lm: "?e \<le> length (buffer m)" using M(1,7) l(1) by simp
  have nth: "buffer m ! i = buffer msg ! i" if "i < ?e" "i \<noteq> 2" "i \<noteq> 3" for i
    using M(6) [of i] P(5) [OF that] that l(1) by simp
  show "same_header msg m" by (rule same_headerI) (use nth l lm in auto)
  assume t: "unprotecting t"
  let ?tail = "(STUN_ATTRIBUTE_MESSAGE_INTEGRITY, ?e + 4, 20) #
    (if with_fingerprint a then [(STUN_ATTRIBUTE_FINGERPRINT, ?e + 28, 4)] else [])"
  have "unprotecting (ms_swap (msg_agent msg) t)" using t by (simp add: ms_swap_unprotecting)
  then have tail: "lookup_attr (ms_swap (msg_agent msg) t) ?tail = None"
    by (auto simp: unprotecting_def stops_search_def)
  have f: "stun_message_find msg t = Some (lookup_attr (ms_swap (msg_agent msg) t) as)"
    "stun_message_find m t = Some (lookup_attr (ms_swap (msg_agent msg) t) (as @ ?tail))"
    using find_msg_attrs [OF msg(3), of t] find_msg_attrs [OF M(4), of t] M(5) P(7) by simp_all
  show fm: "stun_message_find m t = stun_message_find msg t"
    using f tail lookup_attr_append_None [OF _ tail, of as] lookup_attr_prefix [of _ as _ ?tail]
    by (cases "lookup_attr (ms_swap (msg_agent msg) t) as") simp_all
  show "attr_value m t = attr_value msg t"
  proof (cases "lookup_attr (ms_swap (msg_agent msg) t) as")
    case None
    then show ?thesis using f(1) fm by (simp add: attr_value_def)
  next
    case (Some r)
    obtain q n where r: "r = (q, n)" by (cases r)
    from built_attrs [OF b] lookup_attr_in [OF Some [unfolded r]] msg(3)
    have q: "24 \<le> q" "q + unat n \<le> ?e" by auto
    have "take (unat n) (drop q (buffer m)) = take (unat n) (drop q (buffer msg))"
      by (rule nth_equalityI) (use nth q l lm in auto)
    then show ?thesis
      using f(1) fm Some r q l lm by (simp add: attr_value_def rdn_def)
  qed
qed

end
