(* ===== verification/Usage_Exchange.thy ===== *)
theory Usage_Exchange
  imports Usage_Ice Stun_Exchange
begin

unbundle bit_operations_syntax

text \<open>
  The ICE connectivity check between two agents: what the checking agent sends is accepted and
  read by the answering one, and what that one replies is accepted and read by the first. The
  agents are those that \<open>nice_agent_init_stun_agent\<close> sets up for the dialects with a cookie.
\<close>

section \<open>Fresh messages\<close>

definition conn_agent :: "stun_agent \<Rightarrow> bool" where
  "conn_agent a \<longleftrightarrow> uses_cookie a \<and> \<not> has_flag a STUN_AGENT_USAGE_LONG_TERM_CREDENTIALS \<and>
     \<not> has_flag a STUN_AGENT_USAGE_IGNORE_CREDENTIALS \<and> \<not> has_flag a STUN_AGENT_USAGE_FORCE_VALIDATER \<and>
     \<not> has_flag a STUN_AGENT_USAGE_ADD_SOFTWARE \<and> software_attribute a = None \<and>
     known_attributes a = STUN_ALL_KNOWN_ATTRIBUTES"

definition cookie_id :: "bytes \<Rightarrow> bytes" where
  "cookie_id rid = host_bytes32 (htonl STUN_MAGIC_COOKIE) @ drop 4 rid"

text \<open>A message of a conn-check agent with a complete header and no attribute yet.\<close>

definition fresh_for :: "stun_agent \<Rightarrow> stun_class \<Rightarrow> bytes \<Rightarrow> nat \<Rightarrow> stun_message \<Rightarrow> bool" where
  "fresh_for a c tid n msg \<longleftrightarrow> sendable msg \<and> msg_attrs msg = Some [] \<and> msg_end msg = 20 \<and>
     msg_agent msg = Some (conf_of a) \<and> buffer_len msg = n \<and>
     stun_message_get_class msg = Some c \<and> stun_message_get_method msg = Some STUN_BINDING \<and>
     stun_message_id msg = Some tid \<and> stun_message_has_cookie msg = Some True"

lemma length_cookie_id: "length rid = 16 \<Longrightarrow> length (cookie_id rid) = 16"
  by (simp add: cookie_id_def)

lemma take_cookie_id: "take 4 (cookie_id rid) = host_bytes32 (htonl STUN_MAGIC_COOKIE)"
  by (simp add: cookie_id_def)

lemma msg_end_length:
  "built msg \<Longrightarrow> stun_message_length msg = Some n \<Longrightarrow> msg_end msg = unat n"
  using built_length by fastforce

lemma init_request_fresh:
  assumes "conn_agent a" and "length rid = 16" and "length buf = n" and "20 \<le> n"
  shows "\<exists>msg. stun_agent_init_request env rid a msg0 buf n STUN_BINDING = Some (True, msg) \<and>
    fresh_for a STUN_REQUEST (cookie_id rid) n msg \<and> msg_key msg = None \<and> \<not> long_term_valid msg"
proof -
  let ?f = "fresh_message a msg0 buf n"
  have "wf_message ?f" using assms(3,4) by (simp add: wf_message_def fresh_message_def)
  from message_init_eq [OF this assms(2), of STUN_REQUEST STUN_BINDING] obtain b
    where i: "stun_message_init ?f STUN_REQUEST STUN_BINDING rid = Some (True, ?f\<lparr>buffer := b\<rparr>)"
      and l: "length b = n" and b: "take 20 b = [0, 1, 0, 0] @ rid"
    using assms(3) by (auto simp: fresh_message_def type_byte0_def type_byte1_def)
  let ?c = "host_bytes32 (htonl STUN_MAGIC_COOKIE)"
  let ?m = "?f\<lparr>buffer := put b 4 ?c\<rparr>"
  have w: "write_cookie a (?f\<lparr>buffer := b\<rparr>) = Some ?m"
    using assms(1,4) l by (simp add: write_cookie_def conn_agent_def wrn_put)
  have s: "add_software env a ?m = Some ?m"
    using assms(1) by (simp add: add_software_def conn_agent_def)
  have lp: "length (put b 4 ?c) = n" using l assms(4) by simp
  have t: "take 20 (put b 4 ?c) = [0, 1, 0, 0] @ cookie_id rid"
  proof -
    have "take 20 (put b 4 ?c) = put (take 20 b) 4 ?c"
      using l assms(4) by (simp add: put_def min_def drop_take)
    also have "\<dots> = [0, 1, 0, 0] @ cookie_id rid"
      using assms(2) by (simp add: b put_def cookie_id_def)
    finally show ?thesis .
  qed
  note nth = nth_of_take_eq [OF t]
  have n: "put b 4 ?c ! 0 = 0" "put b 4 ?c ! 1 = 1" "put b 4 ?c ! 2 = 0" "put b 4 ?c ! 3 = 0"
    using nth [of 0] nth [of 1] nth [of 2] nth [of 3] by simp_all
  have gw: "stun_getw (put b 4 ?c) 0 = Some 1" "stun_getw (put b 4 ?c) 2 = Some 0"
    using lp assms(4) n by (simp_all add: stun_getw_eq_Some_iff be16_def)
  have lf: "len_field (put b 4 ?c) = 0" using n by (simp add: len_field_def be16_def)
  have id: "stun_message_id ?m = Some (cookie_id rid)"
  proof -
    have "take 16 (drop 4 (put b 4 ?c)) = drop 4 (take 20 (put b 4 ?c))" by (simp add: drop_take)
    also have "\<dots> = cookie_id rid" unfolding t by simp
    finally show ?thesis using lp assms(4) by (simp add: stun_message_id_def rdn_def)
  qed
  have sm: "sendable ?m"
    using lp lf n assms(4) by (simp add: sendable_def built_def fresh_message_def)
  have at: "msg_attrs ?m = Some []"
    using gw(2) by (simp add: msg_attrs_def stun_message_length_def parse_attrs.simps)
  have hd: "stun_message_get_class ?m = Some STUN_REQUEST" "stun_message_get_method ?m = Some STUN_BINDING"
    using gw(1) by (simp_all add: stun_message_get_class_def stun_message_get_method_def type_fixup_def
        class_of_type_def method_of_type_def class_of_val_def)
  have ck: "stun_message_has_cookie ?m = Some True"
    using id by (simp add: stun_message_has_cookie_def take_cookie_id)
  have me: "msg_end ?m = 20" using lf by (simp add: msg_end_def)
  have "fresh_for a STUN_REQUEST (cookie_id rid) n ?m"
    using sm at hd ck me id by (simp add: fresh_for_def) (simp add: fresh_message_def)
  then show ?thesis
    using i w s by (simp add: stun_agent_init_request_def) (simp add: fresh_message_def)
qed

lemma init_reply_fresh:
  assumes "length buf = n" and "20 \<le> n" and "stun_message_id req = Some tid"
    and "take 4 tid = host_bytes32 (htonl STUN_MAGIC_COOKIE)" and "c = STUN_RESPONSE \<or> c = STUN_ERROR"
  shows "\<exists>msg. stun_message_init (reply_message a msg0 buf n req) c STUN_BINDING tid = Some (True, msg) \<and>
    fresh_for a c tid n msg \<and> msg_key msg = msg_key req \<and> long_term_valid msg = long_term_valid req"
proof -
  let ?f = "reply_message a msg0 buf n req"
  have wf: "wf_message ?f" using assms(1,2) by (simp add: wf_message_def reply_message_def)
  have t: "length tid = 16" using assms(3) by (auto simp: stun_message_id_def rdn_length)
  from message_init_eq [OF wf t, of c STUN_BINDING] obtain b
    where i: "stun_message_init ?f c STUN_BINDING tid = Some (True, ?f\<lparr>buffer := b\<rparr>)" by auto
  from init_header [OF wf t, of STUN_BINDING c] assms(5) obtain msg
    where m: "stun_message_init ?f c STUN_BINDING tid = Some (True, msg)" "sendable msg"
      "stun_message_get_class msg = Some c" "stun_message_get_method msg = Some STUN_BINDING"
      "stun_message_id msg = Some tid" "stun_message_length msg = Some 20" "msg_attrs msg = Some []"
      "buffer_len msg = buffer_len ?f" "msg_agent msg = msg_agent ?f" by auto
  have eq: "msg = ?f\<lparr>buffer := b\<rparr>" using i m(1) by simp
  have "built msg" using m(2) by (simp add: sendable_def)
  from msg_end_length [OF this m(6)] have "msg_end msg = 20" by simp
  moreover have "stun_message_has_cookie msg = Some True"
    using m(5) assms(4) by (simp add: stun_message_has_cookie_def)
  ultimately have "fresh_for a c tid n msg"
    using m by (simp add: fresh_for_def) (simp add: reply_message_def)
  moreover have "msg_key msg = msg_key req" "long_term_valid msg = long_term_valid req"
    by (simp_all add: eq reply_message_def)
  ultimately show ?thesis using m(1) by blast
qed

lemma fresh_extends:
  assumes "fresh_for a c tid n msg" and "20 + attrs_size msg xs \<le> n" and "n < 65536"
    and "distinct (map fst xs)" and "list_all (\<lambda>(t, d). unprotecting t) xs"
  shows "\<exists>msg'. append_all msg xs = Some msg' \<and> extended_by msg xs msg'"
proof (rule append_all_extends)
  show "\<forall>t \<in> fst ` set xs. open_for msg t \<and> unprotecting t"
    using assms(1,5) by (auto simp: fresh_for_def open_for_def reaches_def list_all_iff)
qed (use assms in \<open>auto simp: fresh_for_def exact_lengths_def\<close>)

lemma extended_fresh:
  assumes "fresh_for a c tid n msg" and "extended_by msg xs msg'"
    and "list_all (\<lambda>(t, d). unprotecting t) xs"
  shows "\<exists>as. msg_attrs msg' = Some as \<and> unprotected as \<and> map fst as = map (\<lambda>(t, d). ms_swap (msg_agent msg) t) xs"
proof -
  have "msg_attrs msg = Some []" using assms(1) by (simp add: fresh_for_def)
  from extended_by_attrs [OF assms(2) this] obtain bs where bs: "msg_attrs msg' = Some bs"
    "map fst bs = map (\<lambda>(t, d). ms_swap (msg_agent msg) t) xs" by auto
  have "\<forall>t \<in> set (map fst bs). unprotecting t"
    using assms(3) by (auto simp: bs(2) ms_swap_unprotecting list_all_iff)
  then have "unprotected bs" by (auto simp: unprotected_def unprotecting_def list_all_iff)
  with bs show ?thesis by blast
qed

section \<open>The check\<close>

definition host64 :: "u64 \<Rightarrow> bytes" where
  "host64 v = host_bytes32 (htonl (ucast (drop_bit 32 v))) @ host_bytes32 (htonl (ucast v))"

text \<open>The attributes of a check in the dialects that have the role and priority attributes.\<close>

definition ice_check_attrs ::
    "bytes \<Rightarrow> bool \<Rightarrow> bool \<Rightarrow> u32 \<Rightarrow> u64 \<Rightarrow> bytes \<Rightarrow> ice_compat \<Rightarrow> (stun_attribute \<times> bytes) list" where
  "ice_check_attrs u cand_use controlling priority tie i dialect =
     (if cand_use then [(STUN_ATTRIBUTE_USE_CANDIDATE, [])] else []) @
     [(STUN_ATTRIBUTE_PRIORITY, host_bytes32 (htonl priority)),
      (ice_role_attr controlling, host64 tie), (STUN_ATTRIBUTE_USERNAME, u)] @
     (if dialect = STUN_USAGE_ICE_COMPATIBILITY_WLM2009
      then [(STUN_ATTRIBUTE_CANDIDATE_IDENTIFIER, pad_identifier i)] else [])"

definition role_dialect :: "ice_compat \<Rightarrow> bool" where
  "role_dialect dialect \<longleftrightarrow> dialect = STUN_USAGE_ICE_COMPATIBILITY_RFC5245 \<or>
     dialect = STUN_USAGE_ICE_COMPATIBILITY_WLM2009"

lemma ice_check_steps_attrs:
  "role_dialect dialect \<Longrightarrow> u \<noteq> [] \<Longrightarrow>
     ice_check_steps (Some u) cand_use controlling priority tie (Some i) dialect =
     map (\<lambda>(t, d) msg. stun_message_append_bytes msg t d)
       (ice_check_attrs u cand_use controlling priority tie i dialect)"
  by (auto simp: ice_check_steps_def ice_check_attrs_def role_dialect_def stun_message_append_flag_def
      stun_message_append32_def stun_message_append64_def host64_def fun_eq_iff)

lemma run_steps_append_all:
  "append_all msg xs = Some msg' \<Longrightarrow>
     run_steps (map (\<lambda>(t, d) msg. stun_message_append_bytes msg t d) xs) msg = Some (True, msg')"
  by (induction msg xs rule: append_all.induct) (auto split: bind_splits if_splits)

lemma append_pad_le: "append_pad msg n \<le> 3"
  using stun_padding_less [of n] by (simp add: append_pad_def)

lemma ice_check_attrs_props:
  assumes "length u + length i + 100 \<le> n"
  shows "20 + attrs_size msg (ice_check_attrs u cu ctl prio tie i dialect) + 32 \<le> n"
    "distinct (map fst (ice_check_attrs u cu ctl prio tie i dialect))"
    "list_all (\<lambda>(t, d). unprotecting t) (ice_check_attrs u cu ctl prio tie i dialect)"
proof -
  have "length (pad_identifier i) \<le> length i + 3" by (auto simp: pad_identifier_def)
  then show "20 + attrs_size msg (ice_check_attrs u cu ctl prio tie i dialect) + 32 \<le> n"
    using append_pad_le [of msg "length u"] append_pad_le [of msg "length (pad_identifier i)"]
      append_pad_le [of msg 0] append_pad_le [of msg 4] append_pad_le [of msg 8] assms
    by (simp add: ice_check_attrs_def host64_def append_pad_multiple split: if_splits)
qed (auto simp: ice_check_attrs_def ice_role_attr_def unprotecting_def)

lemma find_index_unique:
  assumes "i < length xs" and "P (xs ! i)" and "\<And>j. j < length xs \<Longrightarrow> j \<noteq> i \<Longrightarrow> \<not> P (xs ! j)"
  shows "find_index P xs = Some i"
proof (cases "find_index P xs")
  case None
  with assms(1,2) show ?thesis by (auto simp: find_index_None)
next
  case (Some j)
  with find_index_Some(1,2) [OF Some] assms(3) show ?thesis by auto
qed

text \<open>The transaction of a request in the table of the agent that has sent it.\<close>

definition waits_for :: "stun_agent \<Rightarrow> nat \<Rightarrow> bytes \<Rightarrow> bytes \<Rightarrow> bool" where
  "waits_for a idx tid k \<longleftrightarrow> find_index (saved_matches STUN_BINDING tid) (sent_ids a) = Some idx \<and>
     saved_key (sent_ids a ! idx) = Some k"

definition unused_id :: "stun_agent \<Rightarrow> bytes \<Rightarrow> bool" where
  "unused_id a tid \<longleftrightarrow> (\<forall>s \<in> set (sent_ids a). saved_valid s \<longrightarrow> saved_id s \<noteq> tid)"

lemma save_request_waits:
  assumes "save_request a m idx (Some k) = Some a'" and "stun_message_id m = Some tid"
    and "stun_message_get_method m = Some STUN_BINDING" and "unused_id a tid"
    and "find_index (\<lambda>s. \<not> saved_valid s) (sent_ids a) = Some idx"
  shows "waits_for a' idx tid k" "conf_of a' = conf_of a"
proof -
  let ?s = "\<lparr>saved_id = tid, saved_method = STUN_BINDING, saved_key = Some k,
    saved_long_term_key = long_term_key m, saved_long_term_valid = long_term_valid m, saved_valid = True\<rparr>"
  have idx: "idx < length (sent_ids a)" by (rule find_index_Some(1) [OF assms(5)])
  then have a': "a' = a\<lparr>sent_ids := (sent_ids a)[idx := ?s]\<rparr>"
    using assms(1-3) by (simp add: save_request_def)
  have "find_index (saved_matches STUN_BINDING tid) ((sent_ids a)[idx := ?s]) = Some idx"
    by (rule find_index_unique)
      (use idx assms(4) in \<open>auto simp: saved_matches_def unused_id_def nth_list_update\<close>)
  then show "waits_for a' idx tid k" using idx by (simp add: waits_for_def a')
  show "conf_of a' = conf_of a" by (simp add: a' conf_of_def)
qed

lemma conn_agent_conf: "conf_of a' = conf_of a \<Longrightarrow> conn_agent a' = conn_agent a"
  by (simp add: conf_of_def conn_agent_def uses_cookie_def has_flag_def)

lemma ms_swap_conn_agent: "conn_agent a \<Longrightarrow> ms_swap (Some (conf_of a)) t = t"
  by (auto simp: ms_swap_def conn_agent_def uses_cookie_def conf_of_def)

lemma all_knownI:
  assumes "map fst as = ts" and "list_all (\<lambda>t. stun_optional t \<or> knows (known_attributes b) t) ts"
  shows "all_known b as"
  using assms(2) unfolding assms(1) [symmetric]
  by (simp add: all_known_def list_all_iff case_prod_unfold)

lemma known_attributes_all:
  "0 \<in> set STUN_ALL_KNOWN_ATTRIBUTES" "knows STUN_ALL_KNOWN_ATTRIBUTES STUN_ATTRIBUTE_MESSAGE_INTEGRITY"
  "knows STUN_ALL_KNOWN_ATTRIBUTES STUN_ATTRIBUTE_USERNAME" "knows STUN_ALL_KNOWN_ATTRIBUTES STUN_ATTRIBUTE_PRIORITY"
  "knows STUN_ALL_KNOWN_ATTRIBUTES STUN_ATTRIBUTE_USE_CANDIDATE"
  "knows STUN_ALL_KNOWN_ATTRIBUTES STUN_ATTRIBUTE_ERROR_CODE"
  "knows STUN_ALL_KNOWN_ATTRIBUTES STUN_ATTRIBUTE_XOR_MAPPED_ADDRESS"
  by (simp_all add: knows_def STUN_ALL_KNOWN_ATTRIBUTES_def)

text \<open>The check that \<open>a\<close> creates, before and after its protection.\<close>

lemma check_created:
  fixes env :: stun_env
  assumes a: "conn_agent a" "\<exists>s \<in> set (sent_ids a). \<not> saved_valid s" "unused_id a (cookie_id rid)"
    and buf: "length rid = 16" "length buf = n" "n < 65536" "length u + length i + 100 \<le> n"
    and key: "u \<noteq> []" "length k + 64 < 2 ^ 32" "length (env_stack env) = 64"
    and d: "role_dialect dialect" and xs: "xs = ice_check_attrs u cu ctl prio tie i dialect"
  shows "\<exists>msg msg1 a1 idx. fresh_for a STUN_REQUEST (cookie_id rid) n msg \<and> extended_by msg xs msg1 \<and>
    stun_usage_ice_conncheck_create env rid a msg0 buf n (Some u) (Some k) cu ctl prio tie (Some i) dialect =
      Some (msg_end (protected a msg1 k), (protected a msg1 k)\<lparr>msg_key := Some k\<rparr>, a1) \<and>
    room_to_protect msg1 \<and> waits_for a1 idx (cookie_id rid) k \<and> conf_of a1 = conf_of a"
proof -
  have n20: "20 \<le> n" using buf(4) by simp
  from init_request_fresh [OF a(1) buf(1,2) n20] obtain msg where
    i: "stun_agent_init_request env rid a msg0 buf n STUN_BINDING = Some (True, msg)"
      "fresh_for a STUN_REQUEST (cookie_id rid) n msg" "msg_key msg = None" "\<not> long_term_valid msg" by blast
  note X = ice_check_attrs_props(1) [OF buf(4), of msg cu ctl prio tie dialect, folded xs]
    ice_check_attrs_props(2,3) [OF buf(4), of cu ctl prio tie dialect, folded xs]
  have "20 + attrs_size msg xs \<le> n" using X(1) by simp
  from fresh_extends [OF i(2) this buf(3) X(2,3)] obtain msg1 where
    m1: "append_all msg xs = Some msg1" "extended_by msg xs msg1" by blast
  have r: "run_steps (ice_check_steps (Some u) cu ctl prio tie (Some i) dialect) msg = Some (True, msg1)"
    using run_steps_append_all [OF m1(1)] ice_check_steps_attrs [OF d key(1)] by (simp add: xs)
  have s1: "sendable msg1" and e1: "msg_end msg1 = 20 + attrs_size msg xs" and h1: "same_header msg msg1"
    using m1(2) i(2) by (simp_all add: extended_by_def fresh_for_def)
  note F = extended_by_frame [OF m1(2)]
  have room: "room_to_protect msg1"
    using X(1) buf(3) e1 F(2) i(2) by (simp add: room_to_protect_def fresh_for_def)
  from extended_fresh [OF i(2) m1(2) X(3)] obtain as where as: "msg_attrs msg1 = Some as" "unprotected as"
    by blast
  have hd: "stun_message_get_class msg1 = Some STUN_REQUEST" using h1 i(2) by (simp add: same_header_def fresh_for_def)
  have "\<exists>a1. stun_agent_finish_message env a msg1 (Some k) =
      Some (msg_end (protected a msg1 k), (protected a msg1 k)\<lparr>msg_key := Some k\<rparr>, a1) \<and>
    (\<exists>idx. find_index (\<lambda>s. \<not> saved_valid s) (sent_ids a) = Some idx \<and>
       save_request a (protected a msg1 k) idx (Some k) = Some a1)"
    using finish_protects [OF s1 room as(1) _ _ _ key(3,2) hd, of "Some k" a] F(3,5) i(3,4) a(1,2)
    by (simp add: conn_agent_def)
  then obtain a1 idx where f: "stun_agent_finish_message env a msg1 (Some k) =
      Some (msg_end (protected a msg1 k), (protected a msg1 k)\<lparr>msg_key := Some k\<rparr>, a1)"
    "find_index (\<lambda>s. \<not> saved_valid s) (sent_ids a) = Some idx"
    "save_request a (protected a msg1 k) idx (Some k) = Some a1" by blast
  note P = protected_props [OF s1 room as(1), where a = a and k = k]
  have "same_header msg1 (protected a msg1 k)"
    by (rule same_headerI)
      (use P s1 in \<open>auto simp: sendable_def built_def msg_end_def\<close>)
  then have "stun_message_id (protected a msg1 k) = Some (cookie_id rid)"
    "stun_message_get_method (protected a msg1 k) = Some STUN_BINDING"
    using h1 i(2) by (simp_all add: same_header_def fresh_for_def)
  from save_request_waits [OF f(3) this a(3) f(2)]
  show ?thesis
    using i m1(2) r f(1) room by (auto simp: stun_usage_ice_conncheck_create_def)
qed

text \<open>What the receiver of a protected message has in its hands.\<close>

definition reads_as :: "stun_message \<Rightarrow> bytes \<Rightarrow> stun_message \<Rightarrow> bool" where
  "reads_as msg k req \<longleftrightarrow> same_header msg req \<and> msg_key req = Some k \<and> \<not> long_term_valid req \<and>
     (\<forall>t. unprotecting t \<longrightarrow>
        stun_message_find req t = stun_message_find msg t \<and> attr_value req t = attr_value msg t)"

lemma msg_key_reads [simp]:
  "stun_message_find (m\<lparr>msg_key := x\<rparr>) t = stun_message_find m t"
  "attr_value (m\<lparr>msg_key := x\<rparr>) t = attr_value m t"
  "same_header msg (m\<lparr>msg_key := x\<rparr>) = same_header msg m"
  by (simp_all add: stun_message_find_def stun_message_length_def attr_value_def same_header_def
      stun_message_get_class_def stun_message_get_method_def stun_message_id_def stun_message_has_cookie_def
      cong: option.case_cong)

lemma received_reads_as:
  assumes "sendable msg" "room_to_protect msg" "msg_attrs msg = Some as"
    "msg_agent msg = Some (conf_of a)" "speaks_same a b"
  shows "reads_as msg k ((received_message b msg0 (sent_bytes (protected a msg k))
    (msg_end (protected a msg k)))\<lparr>msg_key := Some k\<rparr>)"
  using received_reads [OF assms, where ?msg0.0 = msg0 and k = k]
  by (simp add: reads_as_def) (simp add: received_message_def)

lemma speaks_same_sym: "speaks_same a b \<Longrightarrow> speaks_same b a"
  by (simp add: speaks_same_def)

lemma conn_agentD:
  assumes "conn_agent b"
  shows "uses_cookie b" "\<not> has_flag b STUN_AGENT_USAGE_LONG_TERM_CREDENTIALS"
    "\<not> has_flag b STUN_AGENT_USAGE_IGNORE_CREDENTIALS" "\<not> has_flag b STUN_AGENT_USAGE_FORCE_VALIDATER"
    "0 \<in> set (known_attributes b)" "knows (known_attributes b) STUN_ATTRIBUTE_MESSAGE_INTEGRITY"
  using assms known_attributes_all by (simp_all add: conn_agent_def)

lemma ice_check_attrs_known:
  assumes "conn_agent b" and "map fst as = map fst (ice_check_attrs u cu ctl prio tie i dialect)"
  shows "all_known b as"
  by (rule all_knownI [OF assms(2)])
    (use assms(1) in \<open>auto simp: conn_agent_def ice_check_attrs_def ice_role_attr_def known_attributes_all
      stun_optional_def\<close>)

lemma check_received:
  fixes env :: stun_env and msg0 :: stun_message
  assumes b: "conn_agent b" "speaks_same a b" "conn_agent a"
    and msg: "fresh_for a STUN_REQUEST (cookie_id rid) n msg" "extended_by msg xs msg1" "room_to_protect msg1"
    and xs: "xs = ice_check_attrs u cu ctl prio tie i dialect"
    and key: "v None (Some u) = Some (Some k)" "k \<noteq> []" "length k + 64 < 2 ^ 32" "length (env_stack env) = 64"
  shows "\<exists>req. stun_agent_validate env b msg0 (sent_bytes (protected a msg1 k)) (msg_end (protected a msg1 k))
      (Some v) = Some (STUN_VALIDATION_SUCCESS, req, b) \<and> reads_as msg1 k req"
proof -
  let ?p = "protected a msg1 k"
  let ?m = "received_message b msg0 (sent_bytes ?p) (msg_end ?p)"
  have lax: "list_all (\<lambda>(t, d). unprotecting t) xs"
    by (auto simp: xs ice_check_attrs_def ice_role_attr_def unprotecting_def)
  have s1: "sendable msg1" and h1: "same_header msg msg1" and ag: "msg_agent msg1 = Some (conf_of a)"
    using msg(1,2) extended_by_frame(1) [OF msg(2)] by (simp_all add: extended_by_def fresh_for_def)
  from extended_fresh [OF msg(1,2) lax] obtain as where as: "msg_attrs msg1 = Some as" "unprotected as"
    "map fst as = map (\<lambda>(t, d). ms_swap (msg_agent msg) t) xs" by blast
  have "map fst as = map fst xs"
    using as(3) msg(1) ms_swap_conn_agent [OF b(3)] by (simp add: fresh_for_def case_prod_unfold)
  then have ak: "all_known b as" using ice_check_attrs_known [OF b(1)] by (simp add: xs)
  note R = received_reads [OF s1 msg(3) as(1) ag b(2), where ?msg0.0 = msg0 and k = k]
  have cl: "stun_message_get_class ?m = Some STUN_REQUEST"
    and ck: "stun_message_has_cookie ?m = Some True"
    using R(1) h1 msg(1) by (simp_all add: same_header_def fresh_for_def)
  have "attr_value msg1 STUN_ATTRIBUTE_USERNAME = Some (Some u)"
    by (rule extended_by_values(1) [OF msg(2)]) (simp add: xs ice_check_attrs_def)
  then have us: "attr_value ?m STUN_ATTRIBUTE_USERNAME = Some (Some u)"
    using R(3) [of STUN_ATTRIBUTE_USERNAME] by (simp add: unprotecting_def)
  have "stun_agent_validate env b msg0 (sent_bytes ?p) (msg_end ?p) (Some v) =
      Some (if all_known b as then STUN_VALIDATION_SUCCESS else STUN_VALIDATION_UNKNOWN_REQUEST_ATTRIBUTE,
        ?m\<lparr>msg_key := Some k\<rparr>, b)"
  proof (rule protected_request_accepted [where p = ?p])
    show "uses_cookie b \<longrightarrow> stun_message_has_cookie ?m = Some True" using ck by simp
  qed (use s1 msg(3) as(1,2) ag cl us b(2) conn_agentD [OF b(1)] key in simp_all)
  with ak received_reads_as [OF s1 msg(3) as(1) ag b(2), of k msg0] show ?thesis by auto
qed

text \<open>What the answering agent reads in the check.\<close>

lemma check_fields:
  assumes "extended_by msg xs msg1" and "xs = ice_check_attrs u cu ctl prio tie i dialect"
    and "fresh_for a STUN_REQUEST tid n msg" and "reads_as msg1 k req"
  shows "stun_usage_ice_conncheck_priority req = Some prio"
    "stun_usage_ice_conncheck_use_candidate req = Some cu"
    "stun_message_find64 req (ice_role_attr ctl) = Some (STUN_MESSAGE_RETURN_SUCCESS, Some tie)"
    "stun_message_find64 req (ice_role_attr (\<not> ctl)) = Some (STUN_MESSAGE_RETURN_NOT_FOUND, None)"
    "attr_value req STUN_ATTRIBUTE_USERNAME = Some (Some u)"
proof -
  have V: "attr_value req t = Some (Some d)" if "(t, d) \<in> set xs" "unprotecting t" for t d
    using extended_by_values(1) [OF assms(1) that(1)] assms(4) that(2) by (simp add: reads_as_def)
  have none: "stun_message_find req t = Some None" if "t \<notin> fst ` set xs" "unprotecting t" for t
  proof -
    have "stun_message_find msg t = Some None"
      using find_msg_attrs [of msg "[]" t] assms(3) by (simp add: fresh_for_def)
    then show ?thesis
      using extended_by_values(3) [OF assms(1) that(1)] assms(4) that(2) by (simp add: reads_as_def)
  qed
  have "stun_message_find32 req STUN_ATTRIBUTE_PRIORITY =
      Some (STUN_MESSAGE_RETURN_SUCCESS, Some (htonl (of_host_bytes32 (host_bytes32 (htonl prio)))))"
    by (rule attr_value_find32 [OF V]) (simp_all add: assms(2) ice_check_attrs_def unprotecting_def)
  then show "stun_usage_ice_conncheck_priority req = Some prio"
    by (simp add: stun_usage_ice_conncheck_priority_def bytes_simps)
  show "stun_usage_ice_conncheck_use_candidate req = Some cu"
  proof (cases cu)
    case True
    then have "attr_value req STUN_ATTRIBUTE_USE_CANDIDATE = Some (Some [])"
      by (intro V) (simp_all add: assms(2) ice_check_attrs_def unprotecting_def)
    then have "stun_message_find_flag req STUN_ATTRIBUTE_USE_CANDIDATE = Some STUN_MESSAGE_RETURN_SUCCESS"
      by (auto elim!: attr_valueE simp: stun_message_find_flag_def unat_eq_zero)
    with True show ?thesis by (simp add: stun_usage_ice_conncheck_use_candidate_def)
  next
    case False
    then have "stun_message_find req STUN_ATTRIBUTE_USE_CANDIDATE = Some None"
      by (intro none) (auto simp: assms(2) ice_check_attrs_def ice_role_attr_def unprotecting_def)
    with False show ?thesis
      by (simp add: stun_usage_ice_conncheck_use_candidate_def stun_message_find_flag_def)
  qed
  have "attr_value req (ice_role_attr ctl) = Some (Some (host64 tie))"
    by (rule V) (auto simp: assms(2) ice_check_attrs_def ice_role_attr_def unprotecting_def)
  from attr_value_find64 [OF this [unfolded host64_def]]
  show "stun_message_find64 req (ice_role_attr ctl) = Some (STUN_MESSAGE_RETURN_SUCCESS, Some tie)"
    by (simp add: bytes_simps u64_halves)
  have "stun_message_find req (ice_role_attr (\<not> ctl)) = Some None"
    by (intro none) (auto simp: assms(2) ice_check_attrs_def ice_role_attr_def unprotecting_def)
  then show "stun_message_find64 req (ice_role_attr (\<not> ctl)) = Some (STUN_MESSAGE_RETURN_NOT_FOUND, None)"
    by (simp add: stun_message_find64_def)
  show "attr_value req STUN_ATTRIBUTE_USERNAME = Some (Some u)"
    by (rule V) (auto simp: assms(2) ice_check_attrs_def unprotecting_def)
qed

section \<open>The reply\<close>

lemma protected_same_header:
  assumes "sendable msg" "room_to_protect msg" "msg_attrs msg = Some as"
  shows "same_header msg (protected a msg k)"
  by (rule same_headerI)
    (use protected_props [OF assms, where a = a and k = k] assms(1) in
      \<open>auto simp: sendable_def built_def msg_end_def\<close>)

lemma finish_reply:
  fixes env :: stun_env
  assumes "sendable msg" "room_to_protect msg" "msg_attrs msg = Some as" "conn_agent b"
    and "msg_key msg = Some k" "\<not> long_term_valid msg" "stun_message_get_class msg = Some c" "c \<noteq> STUN_REQUEST"
    and "length k + 64 < 2 ^ 32" "length (env_stack env) = 64"
  shows "stun_agent_finish_message env b msg None =
    Some (msg_end (protected b msg k), (protected b msg k)\<lparr>msg_key := Some k\<rparr>, b)"
  using finish_protects [OF assms(1-3) _ _ _ assms(10,9,7), of None b] assms(4-8)
  by (auto simp: conn_agent_def)

text \<open>A binding response or error of \<open>b\<close> with the attributes \<open>xs\<close>, answering a request it has read.\<close>

definition replies ::
    "stun_agent \<Rightarrow> stun_class \<Rightarrow> bytes \<Rightarrow> bytes \<Rightarrow> (stun_attribute \<times> bytes) list \<Rightarrow> stun_message \<Rightarrow> bool" where
  "replies b c tid k xs msg2 \<longleftrightarrow>
     (\<exists>n msg. fresh_for b c tid n msg \<and> extended_by msg xs msg2) \<and> room_to_protect msg2 \<and>
     msg_key msg2 = Some k \<and> \<not> long_term_valid msg2 \<and> list_all (\<lambda>(t, d). unprotecting t) xs"

lemma repliesD:
  assumes "replies b c tid k xs msg2" and "conn_agent b"
  shows "sendable msg2" "room_to_protect msg2" "msg_key msg2 = Some k" "\<not> long_term_valid msg2"
    "msg_agent msg2 = Some (conf_of b)"
    "\<exists>as. msg_attrs msg2 = Some as \<and> unprotected as \<and> map fst as = map fst xs"
    "stun_message_get_class msg2 = Some c" "stun_message_get_method msg2 = Some STUN_BINDING"
    "stun_message_id msg2 = Some tid" "stun_message_has_cookie msg2 = Some True"
    "(t, d) \<in> set xs \<Longrightarrow> attr_value msg2 t = Some (Some d)"
proof -
  from assms(1) obtain n msg where f: "fresh_for b c tid n msg" and x: "extended_by msg xs msg2"
    and lax: "list_all (\<lambda>(t, d). unprotecting t) xs" unfolding replies_def by blast
  show "room_to_protect msg2" "msg_key msg2 = Some k" "\<not> long_term_valid msg2"
    using assms(1) by (simp_all add: replies_def)
  show "sendable msg2" using x by (simp add: extended_by_def)
  show ag: "msg_agent msg2 = Some (conf_of b)"
    using extended_by_frame(1) [OF x] f by (simp add: fresh_for_def)
  have "same_header msg msg2" using x by (simp add: extended_by_def)
  then show "stun_message_get_class msg2 = Some c" "stun_message_get_method msg2 = Some STUN_BINDING"
    "stun_message_id msg2 = Some tid" "stun_message_has_cookie msg2 = Some True"
    using f by (simp_all add: same_header_def fresh_for_def)
  show "\<exists>as. msg_attrs msg2 = Some as \<and> unprotected as \<and> map fst as = map fst xs"
    using extended_fresh [OF f x lax] f ms_swap_conn_agent [OF assms(2)]
    by (simp add: fresh_for_def case_prod_unfold)
  show "attr_value msg2 t = Some (Some d)" if "(t, d) \<in> set xs"
    by (rule extended_by_values(1) [OF x that])
qed

lemma has_error_code_reply:
  assumes "stun_message_get_class m = Some c"
    and "c = STUN_ERROR \<longrightarrow> stun_message_find_error m = Some (STUN_MESSAGE_RETURN_SUCCESS, Some 487)"
  shows "has_error_code m [400, 401, 438] = Some False"
  using assms by (auto simp: has_error_code_def)

text \<open>The agent that has sent the request accepts the reply and forgets the transaction.\<close>

lemma reply_received:
  fixes env :: stun_env and msg0 :: stun_message
  assumes r: "replies b c tid k xs msg2" and c: "c = STUN_RESPONSE \<or> c = STUN_ERROR"
    and ag: "conn_agent b" "conn_agent a" "speaks_same b a" "waits_for a idx tid k"
    and known: "list_all (\<lambda>(t, d). stun_optional t \<or> knows STUN_ALL_KNOWN_ATTRIBUTES t) xs"
    and err: "c = STUN_ERROR \<Longrightarrow> (STUN_ATTRIBUTE_ERROR_CODE, error_bytes 487) \<in> set xs"
    and key: "k \<noteq> []" "length k + 64 < 2 ^ 32" "length (env_stack env) = 64"
  shows "\<exists>resp. stun_agent_validate env a msg0 (sent_bytes (protected b msg2 k)) (msg_end (protected b msg2 k)) v =
      Some (STUN_VALIDATION_SUCCESS, resp, release_saved a (Some idx)) \<and> reads_as msg2 k resp"
proof -
  let ?p = "protected b msg2 k"
  let ?m = "received_message a msg0 (sent_bytes ?p) (msg_end ?p)"
  note R = repliesD [OF r ag(1)]
  obtain as where as: "msg_attrs msg2 = Some as" "unprotected as" "map fst as = map fst xs"
    using R(6) by blast
  note Q = received_reads [OF R(1,2) as(1) R(5) ag(3), where ?msg0.0 = msg0 and k = k]
  have hd: "stun_message_get_class ?m = Some c" "stun_message_get_method ?m = Some STUN_BINDING"
    "stun_message_id ?m = Some tid" "stun_message_has_cookie ?m = Some True"
    using Q(1) R(7-10) by (simp_all add: same_header_def)
  have "stun_message_find_error ?m = Some (STUN_MESSAGE_RETURN_SUCCESS, Some 487)" if "c = STUN_ERROR"
  proof (rule attr_value_find_error)
    show "attr_value ?m STUN_ATTRIBUTE_ERROR_CODE = Some (Some (error_bytes 487 @ []))"
      using R(11) [OF err [OF that]] Q(3) [of STUN_ATTRIBUTE_ERROR_CODE] by (simp add: unprotecting_def)
  qed simp_all
  then have "has_error_code ?m [400, 401, 438] = Some False"
    using has_error_code_reply [OF hd(1)] by blast
  then have ig: "ignore_credentials a ?m = Some False"
    using hd(1) c conn_agentD(3) [OF ag(2)] by (auto simp: ignore_credentials_def)
  have ak: "all_known a as"
    by (rule all_knownI [OF as(3)]) (use known ag(2) in \<open>auto simp: conn_agent_def list_all_iff\<close>)
  have "stun_agent_validate env a msg0 (sent_bytes ?p) (msg_end ?p) v =
      Some (if all_known a as then STUN_VALIDATION_SUCCESS else STUN_VALIDATION_UNKNOWN_ATTRIBUTE,
        ?m\<lparr>msg_key := Some k\<rparr>, release_saved a (Some idx))"
  proof (rule protected_response_accepted [where p = ?p])
    show "uses_cookie a \<longrightarrow> stun_message_has_cookie ?m = Some True" using hd(4) by simp
    show "find_index (saved_matches STUN_BINDING tid) (sent_ids a) = Some idx"
      "saved_key (sent_ids a ! idx) = Some k" using ag(4) by (simp_all add: waits_for_def)
  qed (use R as hd c ig ag(3) conn_agentD [OF ag(2)] key in simp_all)
  with ak received_reads_as [OF R(1,2) as(1) R(5) ag(3), of k msg0] show ?thesis by auto
qed

text \<open>The request as the answering agent has it.\<close>

definition read_request :: "stun_message \<Rightarrow> bytes \<Rightarrow> bytes \<Rightarrow> bytes \<Rightarrow> bool" where
  "read_request req tid u k \<longleftrightarrow> stun_message_get_class req = Some STUN_REQUEST \<and>
     stun_message_get_method req = Some STUN_BINDING \<and> stun_message_id req = Some tid \<and>
     take 4 tid = host_bytes32 (htonl STUN_MAGIC_COOKIE) \<and>
     attr_value req STUN_ATTRIBUTE_USERNAME = Some (Some u) \<and> msg_key req = Some k \<and> \<not> long_term_valid req"

definition mapped_attrs :: "sockaddr \<Rightarrow> bytes \<Rightarrow> (stun_attribute \<times> bytes) list" where
  "mapped_attrs x u = [(STUN_ATTRIBUTE_XOR_MAPPED_ADDRESS, addr_bytes x), (STUN_ATTRIBUTE_USERNAME, u)]"

lemma append_all_two:
  "append_all msg [(t, d), (t', d')] = Some msg2 \<Longrightarrow>
     \<exists>m1. stun_message_append_bytes msg t d = Some (STUN_MESSAGE_RETURN_SUCCESS, m1) \<and>
       stun_message_append_bytes m1 t' d' = Some (STUN_MESSAGE_RETURN_SUCCESS, msg2)"
  by (auto split: bind_splits if_splits)

lemma reply_fits:
  assumes "fresh_for b c tid n msg" and "extended_by msg xs msg2"
    and "20 + attrs_size msg xs + 32 \<le> n" and "n < 65536"
  shows "room_to_protect msg2"
proof -
  have "msg_end msg2 = 20 + attrs_size msg xs" "buffer_len msg2 = n"
    using assms(1,2) extended_by_frame(2) [OF assms(2)] by (simp_all add: extended_by_def fresh_for_def)
  with assms(3,4) show ?thesis by (simp add: room_to_protect_def)
qed

lemma ice_response_built:
  fixes env :: stun_env
  assumes b: "conn_agent b" and req: "read_request req tid u k"
    and buf: "length buf = n" "length u + 100 \<le> n" "n < 65536"
    and src: "plain_addr src" "addr_size src \<le> srclen" "srclen \<le> sizeof_sockaddr_storage"
    and d: "role_dialect dialect" and key: "k \<noteq> []" "length k + 64 < 2 ^ 32" "length (env_stack env) = 64"
  shows "\<exists>msg msg2 x. ice_response env b req msg0 buf n src srclen dialect ret ctl =
      Some \<lparr>reply_ret = ret, reply_len = msg_end (protected b msg2 k),
        reply_msg = (protected b msg2 k)\<lparr>msg_key := Some k\<rparr>, reply_control = ctl, reply_agent = b\<rparr> \<and>
    replies b STUN_RESPONSE tid k (mapped_attrs x u) msg2 \<and> stun_message_id msg = Some tid \<and>
    stun_xor_address msg src srclen STUN_MAGIC_COOKIE = Some (STUN_MESSAGE_RETURN_SUCCESS, x)"
proof -
  have n20: "20 \<le> n" using buf(2) by simp
  have tid: "stun_message_id req = Some tid" "take 4 tid = host_bytes32 (htonl STUN_MAGIC_COOKIE)"
    using req by (simp_all add: read_request_def)
  from init_reply_fresh [OF buf(1) n20 tid, of STUN_RESPONSE b msg0] obtain msg where
    i: "stun_message_init (reply_message b msg0 buf n req) STUN_RESPONSE STUN_BINDING tid = Some (True, msg)"
      "fresh_for b STUN_RESPONSE tid n msg" "msg_key msg = Some k" "\<not> long_term_valid msg"
    using req by (auto simp: read_request_def)
  have bm: "built msg" and e20: "msg_end msg = 20" and bl: "buffer_len msg = n"
    and idm: "stun_message_id msg = Some tid" and ckm: "stun_message_has_cookie msg = Some True"
    using i(2) by (simp_all add: fresh_for_def sendable_def)
  have ir: "stun_agent_init_response env b msg0 buf n req = Some (True, msg)"
    using req i(1) b
    by (simp add: stun_agent_init_response_def read_request_def add_software_def conn_agent_def)
  obtain x where x: "stun_xor_address msg src srclen STUN_MAGIC_COOKIE = Some (STUN_MESSAGE_RETURN_SUCCESS, x)"
    using xor_address_success [OF src(1,2) bm] by blast
  note X = xor_address_involution [OF x src(1) refl]
  have lx: "length (addr_bytes x) \<le> 20" "length (addr_bytes x) mod 4 = 0" using X(2) by (cases x; simp)+
  let ?xs = "mapped_attrs x u"
  have sz: "20 + attrs_size msg ?xs + 32 \<le> n"
    using append_pad_le [of msg "length u"] lx buf(2) by (simp add: mapped_attrs_def append_pad_multiple)
  then have "20 + attrs_size msg ?xs \<le> n" by simp
  from fresh_extends [OF i(2) this buf(3)] obtain msg2 where
    m2: "append_all msg ?xs = Some msg2" "extended_by msg ?xs msg2"
    by (auto simp: mapped_attrs_def unprotecting_def)
  from append_all_two [OF m2(1) [unfolded mapped_attrs_def]] obtain m1 where
    ap: "stun_message_append_bytes msg STUN_ATTRIBUTE_XOR_MAPPED_ADDRESS (addr_bytes x) =
        Some (STUN_MESSAGE_RETURN_SUCCESS, m1)"
      "stun_message_append_bytes m1 STUN_ATTRIBUTE_USERNAME u = Some (STUN_MESSAGE_RETURN_SUCCESS, msg2)"
    by blast
  have room: "room_for msg (length (addr_bytes x))"
    using lx buf(2,3) e20 bl by (simp add: append_pad_multiple)
  have "stun_message_append_addr msg STUN_ATTRIBUTE_XOR_MAPPED_ADDRESS x srclen =
      Some (STUN_MESSAGE_RETURN_SUCCESS, m1)"
    using append_addr_bytes [OF bm room X(2)] X(3) src(2) ap(1) by simp
  then have am: "append_mapped dialect src srclen msg = Some (STUN_MESSAGE_RETURN_SUCCESS, m1)"
    using d ckm src(3) x
    by (auto simp: append_mapped_def role_dialect_def stun_message_append_xor_addr_def
        stun_message_append_xor_addr_full_def min_def)
  have r2: "replies b STUN_RESPONSE tid k ?xs msg2"
    using i m2(2) reply_fits [OF i(2) m2(2) sz buf(3)] extended_by_frame [OF m2(2)]
    by (auto simp: replies_def mapped_attrs_def unprotecting_def)
  note R = repliesD [OF r2 b]
  obtain as where "msg_attrs msg2 = Some as" using R(6) by blast
  from finish_reply [OF R(1,2) this b R(3,4,7) _ key(2,3)]
  have f: "stun_agent_finish_message env b msg2 None =
      Some (msg_end (protected b msg2 k), (protected b msg2 k)\<lparr>msg_key := Some k\<rparr>, b)" by simp
  have "msg_end (protected b msg2 k) \<noteq> 0" by (simp add: msg_end_def)
  then have "ice_response env b req msg0 buf n src srclen dialect ret ctl =
      Some \<lparr>reply_ret = ret, reply_len = msg_end (protected b msg2 k),
        reply_msg = (protected b msg2 k)\<lparr>msg_key := Some k\<rparr>, reply_control = ctl, reply_agent = b\<rparr>"
    using req by (simp add: ice_response_def ir am read_request_def ap(2) f Let_def)
  with r2 idm x show ?thesis by blast
qed

lemma ice_error_built:
  fixes env :: stun_env
  assumes b: "conn_agent b" and req: "read_request req tid u k"
    and buf: "length buf = n" "100 \<le> n" "n < 65536"
    and key: "k \<noteq> []" "length k + 64 < 2 ^ 32" "length (env_stack env) = 64"
  shows "\<exists>msg2. stun_bind_error env b msg0 buf n req STUN_ERROR_ROLE_CONFLICT =
      Some (True, msg_end (protected b msg2 k), (protected b msg2 k)\<lparr>msg_key := Some k\<rparr>, b) \<and>
    replies b STUN_ERROR tid k [(STUN_ATTRIBUTE_ERROR_CODE, error_bytes 487)] msg2"
proof -
  have n20: "20 \<le> n" using buf(2) by simp
  have tid: "stun_message_id req = Some tid" "take 4 tid = host_bytes32 (htonl STUN_MAGIC_COOKIE)"
    using req by (simp_all add: read_request_def)
  from init_reply_fresh [OF buf(1) n20 tid, of STUN_ERROR b msg0] obtain msg where
    i: "stun_message_init (reply_message b msg0 buf n req) STUN_ERROR STUN_BINDING tid = Some (True, msg)"
      "fresh_for b STUN_ERROR tid n msg" "msg_key msg = Some k" "\<not> long_term_valid msg"
    using req by (auto simp: read_request_def)
  let ?xs = "[(STUN_ATTRIBUTE_ERROR_CODE, error_bytes 487)]"
  have le: "length (error_bytes 487) = 17"
    by (simp add: error_bytes_def c_string_def stun_strerror_def stun_error_table_def)
  have sz: "20 + attrs_size msg ?xs + 32 \<le> n"
    using append_pad_le [of msg 17] le buf(2) by simp
  then have "20 + attrs_size msg ?xs \<le> n" by simp
  from fresh_extends [OF i(2) this buf(3)] obtain msg2 where
    m2: "append_all msg ?xs = Some msg2" "extended_by msg ?xs msg2"
    by (auto simp: unprotecting_def)
  then have ab: "stun_message_append_bytes msg STUN_ATTRIBUTE_ERROR_CODE (error_bytes 487) =
      Some (STUN_MESSAGE_RETURN_SUCCESS, msg2)"
    by (auto split: bind_splits if_splits)
  have room: "room_for msg (length (error_bytes 487))"
    using sz buf(3) i(2) by (simp add: fresh_for_def)
  have bm: "built msg" using i(2) by (simp add: fresh_for_def sendable_def)
  from append_error_bytes [OF bm room] ab
  have ae: "stun_message_append_error msg 487 = Some (STUN_MESSAGE_RETURN_SUCCESS, msg2)" by simp
  have ie: "stun_agent_init_error env b msg0 buf n req 487 = Some (True, msg2)"
    using req i(1) b ae
    by (simp add: stun_agent_init_error_def read_request_def add_software_def conn_agent_def)
  have r2: "replies b STUN_ERROR tid k ?xs msg2"
    using i m2(2) reply_fits [OF i(2) m2(2) sz buf(3)] extended_by_frame [OF m2(2)]
    by (auto simp: replies_def unprotecting_def)
  note R = repliesD [OF r2 b]
  obtain as where "msg_attrs msg2 = Some as" using R(6) by blast
  from finish_reply [OF R(1,2) this b R(3,4,7) _ key(2,3)]
  have f: "stun_agent_finish_message env b msg2 None =
      Some (msg_end (protected b msg2 k), (protected b msg2 k)\<lparr>msg_key := Some k\<rparr>, b)" by simp
  have "msg_end (protected b msg2 k) \<noteq> 0" by (simp add: msg_end_def)
  with ie f r2 show ?thesis by (auto simp: stun_bind_error_def)
qed

section \<open>Reading the reply\<close>

lemma process_success:
  assumes "replies b STUN_RESPONSE tid k (mapped_attrs x u) msg2" and "conn_agent b"
    and "reads_as msg2 k resp" and "role_dialect dialect"
    and "stun_xor_address msg src srclen STUN_MAGIC_COOKIE = Some (STUN_MESSAGE_RETURN_SUCCESS, x)"
    and "stun_message_id msg = Some tid" and "plain_addr src"
    and "addr_size src \<le> len" and "len \<le> sizeof_sockaddr_storage"
  shows "stun_usage_ice_conncheck_process resp len dialect =
    Some (STUN_USAGE_ICE_RETURN_SUCCESS, Some src, addr_size src)"
proof -
  note R = repliesD [OF assms(1,2)]
  have hd: "stun_message_get_class resp = Some STUN_RESPONSE" "stun_message_get_method resp = Some STUN_BINDING"
    "stun_message_id resp = Some tid" using R(7-9) assms(3) by (simp_all add: reads_as_def same_header_def)
  have id: "rdn (buffer resp) 4 16 = rdn (buffer msg) 4 16"
    using hd(3) assms(6) by (simp add: stun_message_id_def)
  note X = xor_address_involution [OF assms(5,7) id]
  have "attr_value resp STUN_ATTRIBUTE_XOR_MAPPED_ADDRESS = Some (Some (addr_bytes x))"
    using R(11) [of STUN_ATTRIBUTE_XOR_MAPPED_ADDRESS "addr_bytes x"] assms(3)
    by (simp add: reads_as_def unprotecting_def mapped_attrs_def)
  from attr_value_find_addr [OF this X(2)] X(3) assms(8,9)
  have "stun_message_find_addr resp STUN_ATTRIBUTE_XOR_MAPPED_ADDRESS len =
      Some (STUN_MESSAGE_RETURN_SUCCESS, Some x, addr_size x)" by simp
  with X(1,3) have "stun_message_find_xor_addr resp STUN_ATTRIBUTE_XOR_MAPPED_ADDRESS len =
      Some (STUN_MESSAGE_RETURN_SUCCESS, Some src, addr_size src)"
    by (simp add: stun_message_find_xor_addr_def stun_message_find_xor_addr_full_def)
  with hd assms(4) show ?thesis
    by (auto simp: stun_usage_ice_conncheck_process_def role_dialect_def)
qed

lemma process_conflict:
  assumes "replies b STUN_ERROR tid k [(STUN_ATTRIBUTE_ERROR_CODE, error_bytes 487)] msg2"
    and "conn_agent b" and "reads_as msg2 k resp"
  shows "stun_usage_ice_conncheck_process resp len dialect =
    Some (STUN_USAGE_ICE_RETURN_ROLE_CONFLICT, None, len)"
proof -
  note R = repliesD [OF assms(1,2)]
  have hd: "stun_message_get_class resp = Some STUN_ERROR" "stun_message_get_method resp = Some STUN_BINDING"
    using R(7,8) assms(3) by (simp_all add: reads_as_def same_header_def)
  have "stun_message_find_error resp = Some (STUN_MESSAGE_RETURN_SUCCESS, Some 487)"
    by (rule attr_value_find_error [where pad = "[]"])
      (use R(11) [of STUN_ATTRIBUTE_ERROR_CODE "error_bytes 487"] assms(3) in
        \<open>simp_all add: reads_as_def unprotecting_def\<close>)
  with hd show ?thesis by (simp add: stun_usage_ice_conncheck_process_def)
qed

section \<open>The whole exchange\<close>

text \<open>
  One check from \<open>a\<close> to \<open>b\<close> and back: the five calls the two sides make, each on the packet the
  other one has sent. The buffers are those of the callers; \<open>src\<close> is the address \<open>b\<close> sees.
\<close>

record check_setup =
  ck_user :: bytes
  ck_key :: bytes
  ck_use :: bool
  ck_controlling :: bool
  ck_priority :: u32
  ck_tie :: u64
  ck_identifier :: bytes
  ck_dialect :: ice_compat
  ck_source :: sockaddr
  ck_control :: bool
  ck_answer_tie :: u64

record check_outcome =
  out_priority :: u32
  out_use :: bool
  out_reply :: ice_return
  out_control :: bool
  out_result :: ice_return
  out_mapped :: "sockaddr option"
  out_table :: stun_agent

definition conncheck_exchange ::
    "stun_env \<Rightarrow> bytes \<Rightarrow> stun_message \<Rightarrow> bytes \<Rightarrow> validater \<Rightarrow> check_setup \<Rightarrow> stun_agent \<Rightarrow> stun_agent \<Rightarrow>
      check_outcome option" where
  "conncheck_exchange env rid msg0 buf v s a b = do {
     (n, check, a1) \<leftarrow> stun_usage_ice_conncheck_create env rid a msg0 buf (length buf)
       (Some (ck_user s)) (Some (ck_key s)) (ck_use s) (ck_controlling s) (ck_priority s) (ck_tie s)
       (Some (ck_identifier s)) (ck_dialect s);
     (st, req, b1) \<leftarrow> stun_agent_validate env b msg0 (take n (buffer check)) n (Some v);
     if st \<noteq> STUN_VALIDATION_SUCCESS then None
     else do {
       prio \<leftarrow> stun_usage_ice_conncheck_priority req;
       cu \<leftarrow> stun_usage_ice_conncheck_use_candidate req;
       r \<leftarrow> stun_usage_ice_conncheck_create_reply env b1 req msg0 buf (length buf) (ck_source s)
         sizeof_sockaddr_storage (ck_control s) (ck_answer_tie s) (ck_dialect s);
       (st, resp, a2) \<leftarrow> stun_agent_validate env a1 msg0
         (take (reply_len r) (buffer (reply_msg r))) (reply_len r) None;
       if st \<noteq> STUN_VALIDATION_SUCCESS then None
       else do {
         (res, addr, _) \<leftarrow> stun_usage_ice_conncheck_process resp sizeof_sockaddr_storage (ck_dialect s);
         Some \<lparr>out_priority = prio, out_use = cu, out_reply = reply_ret r,
           out_control = reply_control r, out_result = res, out_mapped = addr, out_table = a2\<rparr> } } }"

definition ready_to_check :: "stun_env \<Rightarrow> bytes \<Rightarrow> bytes \<Rightarrow> validater \<Rightarrow> check_setup \<Rightarrow> stun_agent \<Rightarrow> stun_agent \<Rightarrow> bool" where
  "ready_to_check env rid buf v s a b \<longleftrightarrow>
     conn_agent a \<and> conn_agent b \<and> speaks_same a b \<and> role_dialect (ck_dialect s) \<and>
     (\<exists>x \<in> set (sent_ids a). \<not> saved_valid x) \<and> unused_id a (cookie_id rid) \<and> length rid = 16 \<and>
     length buf < 65536 \<and> length (ck_user s) + length (ck_identifier s) + 100 \<le> length buf \<and>
     ck_user s \<noteq> [] \<and> ck_key s \<noteq> [] \<and> length (ck_key s) + 64 < 2 ^ 32 \<and> length (env_stack env) = 64 \<and>
     v None (Some (ck_user s)) = Some (Some (ck_key s)) \<and> plain_addr (ck_source s)"

lemma addr_size_storage: "addr_size a \<le> sizeof_sockaddr_storage"
  by (cases a) simp_all

lemma speaks_same_conf: "conf_of a' = conf_of a \<Longrightarrow> speaks_same b a' = speaks_same b a"
  by (simp add: conf_of_def speaks_same_def has_flag_def)

lemma request_delivered:
  assumes "ready_to_check env rid buf v s a b"
  shows "\<exists>n check a1 idx req.
    stun_usage_ice_conncheck_create env rid a msg0 buf (length buf) (Some (ck_user s)) (Some (ck_key s))
      (ck_use s) (ck_controlling s) (ck_priority s) (ck_tie s) (Some (ck_identifier s)) (ck_dialect s) =
      Some (n, check, a1) \<and>
    stun_agent_validate env b msg0 (take n (buffer check)) n (Some v) = Some (STUN_VALIDATION_SUCCESS, req, b) \<and>
    waits_for a1 idx (cookie_id rid) (ck_key s) \<and> conf_of a1 = conf_of a \<and>
    read_request req (cookie_id rid) (ck_user s) (ck_key s) \<and>
    stun_usage_ice_conncheck_priority req = Some (ck_priority s) \<and>
    stun_usage_ice_conncheck_use_candidate req = Some (ck_use s) \<and>
    stun_message_find64 req (ice_role_attr (ck_controlling s)) =
      Some (STUN_MESSAGE_RETURN_SUCCESS, Some (ck_tie s)) \<and>
    stun_message_find64 req (ice_role_attr (\<not> ck_controlling s)) =
      Some (STUN_MESSAGE_RETURN_NOT_FOUND, None) \<and> 20 \<le> n \<and> n \<le> length (buffer check)"
proof -
  note A = assms [unfolded ready_to_check_def]
  let ?xs = "ice_check_attrs (ck_user s) (ck_use s) (ck_controlling s) (ck_priority s) (ck_tie s)
    (ck_identifier s) (ck_dialect s)"
  from A check_created [of a rid buf "length buf" "ck_user s" "ck_identifier s" "ck_key s" env
      "ck_dialect s" ?xs "ck_use s" "ck_controlling s" "ck_priority s" "ck_tie s" msg0]
  obtain msg msg1 a1 idx where c: "fresh_for a STUN_REQUEST (cookie_id rid) (length buf) msg"
      "extended_by msg ?xs msg1" "room_to_protect msg1" "waits_for a1 idx (cookie_id rid) (ck_key s)"
      "conf_of a1 = conf_of a"
    "stun_usage_ice_conncheck_create env rid a msg0 buf (length buf) (Some (ck_user s)) (Some (ck_key s))
      (ck_use s) (ck_controlling s) (ck_priority s) (ck_tie s) (Some (ck_identifier s)) (ck_dialect s) =
      Some (msg_end (protected a msg1 (ck_key s)), (protected a msg1 (ck_key s))\<lparr>msg_key := Some (ck_key s)\<rparr>, a1)"
    by auto
  from A check_received [OF _ _ _ c(1-3) refl, of b v "ck_key s" env msg0]
  obtain req where v: "stun_agent_validate env b msg0 (sent_bytes (protected a msg1 (ck_key s)))
      (msg_end (protected a msg1 (ck_key s))) (Some v) = Some (STUN_VALIDATION_SUCCESS, req, b)"
    and r: "reads_as msg1 (ck_key s) req" by auto
  note F = check_fields [OF c(2) refl c(1) r]
  have "same_header msg msg1" using c(2) by (simp add: extended_by_def)
  with r c(1) F(5) A have "read_request req (cookie_id rid) (ck_user s) (ck_key s)"
    by (simp add: read_request_def reads_as_def same_header_def fresh_for_def take_cookie_id)
  moreover have "20 \<le> msg_end (protected a msg1 (ck_key s)) \<and>
      msg_end (protected a msg1 (ck_key s)) \<le> length (buffer (protected a msg1 (ck_key s)))"
  proof -
    obtain as where "sendable msg1" "msg_attrs msg1 = Some as" using c(2) by (auto simp: extended_by_def)
    from protected_props(1) [OF this(1) c(3) this(2)] show ?thesis by (simp add: sendable_def built_def msg_end_def)
  qed
  ultimately show ?thesis using v c F(1-4) by (auto simp: sent_bytes_def)
qed

lemma exchange_response:
  assumes ok: "ready_to_check env rid buf v s a b"
    and roles: "ck_control s \<noteq> ck_controlling s \<or> ck_answer_tie s < ck_tie s"
  shows "\<exists>r. conncheck_exchange env rid msg0 buf v s a b = Some r \<and>
    out_priority r = ck_priority s \<and> out_use r = ck_use s \<and>
    out_reply r = (if ck_control s = ck_controlling s then STUN_USAGE_ICE_RETURN_ROLE_CONFLICT
      else STUN_USAGE_ICE_RETURN_SUCCESS) \<and>
    out_control r = (\<not> ck_controlling s) \<and> out_result r = STUN_USAGE_ICE_RETURN_SUCCESS \<and>
    out_mapped r = Some (ck_source s)"
proof -
  note A = ok [unfolded ready_to_check_def]
  from request_delivered [OF ok, of msg0] obtain n check a1 idx req where
    q: "stun_usage_ice_conncheck_create env rid a msg0 buf (length buf) (Some (ck_user s)) (Some (ck_key s))
        (ck_use s) (ck_controlling s) (ck_priority s) (ck_tie s) (Some (ck_identifier s)) (ck_dialect s) =
        Some (n, check, a1)"
      "stun_agent_validate env b msg0 (take n (buffer check)) n (Some v) = Some (STUN_VALIDATION_SUCCESS, req, b)"
      "waits_for a1 idx (cookie_id rid) (ck_key s)" "conf_of a1 = conf_of a"
      "read_request req (cookie_id rid) (ck_user s) (ck_key s)"
      "stun_usage_ice_conncheck_priority req = Some (ck_priority s)"
      "stun_usage_ice_conncheck_use_candidate req = Some (ck_use s)"
      "stun_message_find64 req (ice_role_attr (ck_controlling s)) =
        Some (STUN_MESSAGE_RETURN_SUCCESS, Some (ck_tie s))"
      "stun_message_find64 req (ice_role_attr (\<not> ck_controlling s)) =
        Some (STUN_MESSAGE_RETURN_NOT_FOUND, None)" by blast
  let ?ret = "if ck_control s = ck_controlling s then STUN_USAGE_ICE_RETURN_ROLE_CONFLICT
      else STUN_USAGE_ICE_RETURN_SUCCESS"
  let ?src = "ck_source s" and ?d = "ck_dialect s" and ?k = "ck_key s"
  have "length (ck_user s) + 100 \<le> length buf" using A by simp
  from ice_response_built [OF _ q(5) refl this _ _ addr_size_storage order_refl _ _ _ _, of b ?src ?d env msg0
      ?ret "\<not> ck_controlling s"] A
  obtain msg msg2 x where R: "ice_response env b req msg0 buf (length buf) ?src sizeof_sockaddr_storage ?d ?ret
        (\<not> ck_controlling s) =
      Some \<lparr>reply_ret = ?ret, reply_len = msg_end (protected b msg2 ?k),
        reply_msg = (protected b msg2 ?k)\<lparr>msg_key := Some ?k\<rparr>, reply_control = \<not> ck_controlling s,
        reply_agent = b\<rparr>"
    "replies b STUN_RESPONSE (cookie_id rid) ?k (mapped_attrs x (ck_user s)) msg2"
    "stun_message_id msg = Some (cookie_id rid)"
    "stun_xor_address msg ?src sizeof_sockaddr_storage STUN_MAGIC_COOKIE = Some (STUN_MESSAGE_RETURN_SUCCESS, x)"
    by auto
  have rr: "stun_usage_ice_conncheck_create_reply env b req msg0 buf (length buf) ?src
      sizeof_sockaddr_storage (ck_control s) (ck_answer_tie s) ?d =
      Some \<lparr>reply_ret = ?ret, reply_len = msg_end (protected b msg2 ?k),
        reply_msg = (protected b msg2 ?k)\<lparr>msg_key := Some ?k\<rparr>, reply_control = \<not> ck_controlling s,
        reply_agent = b\<rparr>"
    using q(5,8,9) roles R(1)
    by (cases "ck_control s = ck_controlling s")
      (auto simp: stun_usage_ice_conncheck_create_reply_def read_request_def Let_def)
  have "conn_agent a1" "speaks_same b a1"
    using A conn_agent_conf [OF q(4)] speaks_same_conf [OF q(4)] speaks_same_sym by auto
  from reply_received [OF R(2) _ _ this q(3), of env msg0 None] A
  obtain resp where v: "stun_agent_validate env a1 msg0 (sent_bytes (protected b msg2 ?k))
      (msg_end (protected b msg2 ?k)) None = Some (STUN_VALIDATION_SUCCESS, resp, release_saved a1 (Some idx))"
    and rd: "reads_as msg2 ?k resp"
    by (auto simp: mapped_attrs_def known_attributes_all)
  have p: "stun_usage_ice_conncheck_process resp sizeof_sockaddr_storage ?d =
      Some (STUN_USAGE_ICE_RETURN_SUCCESS, Some ?src, addr_size ?src)"
    by (rule process_success [OF R(2) _ rd _ R(4,3)]) (use A addr_size_storage in auto)
  show ?thesis
    using q(1,2,6,7) rr v p by (simp add: conncheck_exchange_def sent_bytes_def)
qed

lemma exchange_conflict:
  assumes ok: "ready_to_check env rid buf v s a b"
    and roles: "ck_control s = ck_controlling s" "\<not> ck_answer_tie s < ck_tie s"
  shows "\<exists>r. conncheck_exchange env rid msg0 buf v s a b = Some r \<and>
    out_control r = ck_control s \<and> out_result r = STUN_USAGE_ICE_RETURN_ROLE_CONFLICT"
proof -
  note A = ok [unfolded ready_to_check_def]
  from request_delivered [OF ok, of msg0] obtain n check a1 idx req where
    q: "stun_usage_ice_conncheck_create env rid a msg0 buf (length buf) (Some (ck_user s)) (Some (ck_key s))
        (ck_use s) (ck_controlling s) (ck_priority s) (ck_tie s) (Some (ck_identifier s)) (ck_dialect s) =
        Some (n, check, a1)"
      "stun_agent_validate env b msg0 (take n (buffer check)) n (Some v) = Some (STUN_VALIDATION_SUCCESS, req, b)"
      "waits_for a1 idx (cookie_id rid) (ck_key s)" "conf_of a1 = conf_of a"
      "read_request req (cookie_id rid) (ck_user s) (ck_key s)"
      "stun_usage_ice_conncheck_priority req = Some (ck_priority s)"
      "stun_usage_ice_conncheck_use_candidate req = Some (ck_use s)"
      "stun_message_find64 req (ice_role_attr (ck_controlling s)) =
        Some (STUN_MESSAGE_RETURN_SUCCESS, Some (ck_tie s))" by blast
  let ?k = "ck_key s"
  have "100 \<le> length buf" using A by simp
  from ice_error_built [OF _ q(5) refl this, of b env msg0] A obtain msg2 where
    R: "stun_bind_error env b msg0 buf (length buf) req STUN_ERROR_ROLE_CONFLICT =
      Some (True, msg_end (protected b msg2 ?k), (protected b msg2 ?k)\<lparr>msg_key := Some ?k\<rparr>, b)"
    "replies b STUN_ERROR (cookie_id rid) ?k [(STUN_ATTRIBUTE_ERROR_CODE, error_bytes 487)] msg2" by auto
  have rr: "stun_usage_ice_conncheck_create_reply env b req msg0 buf (length buf) (ck_source s)
      sizeof_sockaddr_storage (ck_control s) (ck_answer_tie s) (ck_dialect s) =
      Some \<lparr>reply_ret = STUN_USAGE_ICE_RETURN_SUCCESS, reply_len = msg_end (protected b msg2 ?k),
        reply_msg = (protected b msg2 ?k)\<lparr>msg_key := Some ?k\<rparr>, reply_control = ck_control s, reply_agent = b\<rparr>"
    using q(5,8) roles R(1)
    by (simp add: stun_usage_ice_conncheck_create_reply_def read_request_def Let_def)
  have "conn_agent a1" "speaks_same b a1"
    using A conn_agent_conf [OF q(4)] speaks_same_conf [OF q(4)] speaks_same_sym by auto
  from reply_received [OF R(2) _ _ this q(3), of env msg0 None] A
  obtain resp where v: "stun_agent_validate env a1 msg0 (sent_bytes (protected b msg2 ?k))
      (msg_end (protected b msg2 ?k)) None = Some (STUN_VALIDATION_SUCCESS, resp, release_saved a1 (Some idx))"
    and rd: "reads_as msg2 ?k resp"
    by (auto simp: known_attributes_all)
  have "conn_agent b" using A by simp
  from process_conflict [OF R(2) this rd, of sizeof_sockaddr_storage "ck_dialect s"]
  show ?thesis
    using q(1,2,6,7) rr v by (simp add: conncheck_exchange_def sent_bytes_def)
qed

end
