(* ===== verification/Ice_Delivery.thy ===== *)
theory Ice_Delivery
  imports Ice_Safety Usage_Exchange
begin

unbundle bit_operations_syntax

text \<open>
  A connectivity check between two agents: user name and key fit together, and the packet that
  \<open>conn_check_send\<close> sends is the one that the peer accepts. And the keepalive that no agent can send.
\<close>

section \<open>Credentials\<close>

text \<open>The credentials are those of the streams, and each side knows the other's.\<close>

definition stream_credentials :: "candidate \<Rightarrow> bool" where
  "stream_credentials c \<longleftrightarrow> username c = None \<and> password c = None"

definition mirrored :: "ice_stream \<Rightarrow> ice_stream \<Rightarrow> bool" where
  "mirrored s t \<longleftrightarrow> strm_remote_ufrag s = strm_local_ufrag t \<and> strm_remote_password s = strm_local_password t \<and>
     strm_local_ufrag s \<noteq> [] \<and> strm_local_ufrag t \<noteq> [] \<and> strm_local_password t \<noteq> [] \<and>
     length (strm_local_ufrag s) \<le> 255 \<and> length (strm_local_ufrag t) \<le> 255"

lemma created_username:
  assumes "mirrored s t" and "ice_like dialect" and "stream_credentials l" "stream_credentials r"
  shows "\<exists>x. priv_create_username env dialect s cid (Some r) (Some l) NICE_STREAM_MAX_UNAME False =
      strm_local_ufrag t @ [0x3a] @ strm_local_ufrag s @ x \<and> length x \<le> 3"
proof -
  have "length (replicate (4 - n mod 4) (0::u8)) \<le> 3" if "n mod 4 \<noteq> 0" for n :: nat using that by simp
  then show ?thesis using assms
    by (auto simp: mirrored_def stream_credentials_def ice_like_def priv_create_username_def cand_username_def
        priv_gen_username_def Let_def)
qed

lemma validater_finds_key:
  assumes "mirrored s t" and "\<not> msn_like dialect" and "comp_local d = x # xs" "stream_credentials x"
    and "u = strm_local_ufrag t @ rest"
  shows "conncheck_stun_validater env dialect t d cls None (Some u) = Some (Some (strm_local_password t))"
proof -
  have "dialect \<noteq> NICE_COMPATIBILITY_OC2007" using assms(2) by (auto simp: msn_like_def)
  then show ?thesis using assms
    by (simp add: conncheck_stun_validater_def mirrored_def stream_credentials_def cand_username_def local_secret_def
        Let_def)
qed

section \<open>Sending\<close>

lemma find_pair_fields [simp]:
  "find_pair (emit e a) sid r = find_pair a sid r" "find_pair (a\<lparr>ag_clock := x1\<rparr>) sid r = find_pair a sid r"
  "find_pair (a\<lparr>ag_draws := x2\<rparr>) sid r = find_pair a sid r"
  by (simp_all add: find_pair_def)

lemma find_pair_component [simp]: "find_pair (update_component x y f a) sid r = find_pair a sid r"
  by (cases "agent_find_stream a sid") (simp_all add: find_pair_def update_component_def)

lemma find_pair_update:
  assumes "find_pair a sid r = Some p" and "\<And>q. pair_ref (f q) = pair_ref q"
  shows "find_pair (update_pair sid r f a) sid r = Some (f p)"
proof -
  obtain s where s: "agent_find_stream a sid = Some s" and p: "find (\<lambda>p. pair_ref p = r) (strm_checks s) = Some p"
    using assms(1) by (auto simp: find_pair_def split: bind_splits)
  have "(\<lambda>p. pair_ref p = r) \<circ> (\<lambda>p. if pair_ref p = r then f p else p) = (\<lambda>p. pair_ref p = r)"
    using assms(2) by (auto simp: fun_eq_iff)
  moreover have "pair_ref p = r" using p by (auto simp: find_Some_iff)
  ultimately show ?thesis using s p found_stream [OF s]
    by (simp add: find_pair_def update_pair_def set_pair_def find_map)
qed

lemma find_component_pair:
  "agent_find_component (update_pair sid r f a) x y =
     map_option (\<lambda>(s, c). (if x = sid then s\<lparr>strm_checks := set_pair r f (strm_checks s)\<rparr> else s, c))
       (agent_find_component a x y)"
proof (cases "agent_find_stream a x")
  case (Some s)
  then have "strm_id s = x" by (auto dest: found_stream)
  with Some show ?thesis
    by (simp add: agent_find_component_def update_pair_def stream_find_component_by_id_def split: bind_split option.split)
qed (simp add: agent_find_component_def update_pair_def)

lemma sent_event [simp]:
  "\<not> sock_reliable (ag_sockets a k) \<Longrightarrow> ag_events (agent_socket_send k to b a) = ag_events a @ [Sent k to b]"
  by (simp add: agent_socket_send_def emit_def)

lemma same_fields [simp]:
  "ag_sockets (update_pair sid r f a) = ag_sockets a" "ag_sockets (update_component x y g a) = ag_sockets a"
  "ag_events (update_component x y g a) = ag_events a" "ag_clock (update_pair sid r f a) = ag_clock a"
  "ag_draws (update_pair sid r f a) = ag_draws a"
  by (simp_all add: update_pair_def update_checks_def update_component_def update_stream_def)

lemma launched:
  assumes "find_pair a sid r = Some p" and "agent_find_stream a sid = Some s" and "pair_sock p = Some k"
    and "sock_fileno (ag_sockets a k)" and "\<not> sock_reliable (ag_sockets a k)"
  shows "\<exists>b. launch_check env sid r pkt a = Some b \<and>
    ag_events b = ag_events a @ [Sent k (addr (pair_remote p)) pkt]"
  using assms by (simp add: launch_check_def start_check_timer_def clock_defs connect_active_def Let_def split_beta
      agent_socket_send_def emit_def)

text \<open>The sides of a check that is sent over a datagram socket with the credentials of the streams.\<close>

definition can_send :: "ice_env \<Rightarrow> nice_agent \<Rightarrow> u32 \<Rightarrow> check_pair \<Rightarrow> ice_component \<Rightarrow> socket_id \<Rightarrow> bool" where
  "can_send env a sid p c k \<longleftrightarrow> find_pair a sid (pair_ref p) = Some p \<and> pair_message p = None \<and>
     pair_sock p = Some k \<and> sock_fileno (ag_sockets a k) \<and> \<not> sock_reliable (ag_sockets a k) \<and>
     ice_like (ag_compat a) \<and> stream_credentials (pair_local p) \<and> stream_credentials (pair_remote p) \<and>
     length (foundation (pair_local p)) \<le> NICE_CANDIDATE_MAX_FOUNDATION \<and>
     conn_agent (comp_agent c) \<and> (\<exists>x \<in> set (sent_ids (comp_agent c)). \<not> saved_valid x) \<and>
     unused_id (comp_agent c) (cookie_id (env_transid env (ag_draws a)))"

definition good_env :: "ice_env \<Rightarrow> bool" where
  "good_env env \<longleftrightarrow> (\<forall>i. length (env_transid env i) = 16) \<and> (\<forall>n. length (env_buffer env n) = n) \<and>
     length (env_stack (env_stun env)) = 64"

definition can_receive :: "nice_agent \<Rightarrow> ice_component \<Rightarrow> bool" where
  "can_receive b d \<longleftrightarrow> ice_like (ag_compat b) \<and> conn_agent (comp_agent d) \<and>
     comp_local d \<noteq> [] \<and> stream_credentials (hd (comp_local d))"

definition sent_check :: "ice_env \<Rightarrow> nice_agent \<Rightarrow> ice_stream \<Rightarrow> check_pair \<Rightarrow> check_setup" where
  "sent_check env a s p = \<lparr>
     ck_user = priv_create_username env (ag_compat a) s (pair_component p) (Some (pair_remote p))
       (Some (pair_local p)) NICE_STREAM_MAX_UNAME False,
     ck_key = strm_remote_password s, ck_use = ag_controlling a, ck_controlling = ag_controlling a,
     ck_priority = peer_reflexive_candidate_priority a (pair_local p), ck_tie = ag_tie_breaker a,
     ck_identifier = cstr (foundation (pair_local p)),
     ck_dialect = agent_to_ice_compatibility (ag_compat a),
     ck_source = AF_INET \<lparr>sin_port = 0, sin_addr = 0\<rparr>, ck_control = False, ck_answer_tie = 0\<rparr>"

lemma cstr_length: "length (cstr b) \<le> length b"
  by (simp add: cstr_def length_takeWhile_le)

lemma check_is_ready:
  assumes "good_env env" and "can_send env a sid p c k" and "can_receive b d"
    and "mirrored s t" "speaks_same (comp_agent c) (comp_agent d)" "length (strm_local_password t) + 64 < 2 ^ 32"
  shows "ready_to_check (env_stun env) (env_transid env (ag_draws a)) (env_buffer env STUN_MAX_MESSAGE_SIZE_IPV6)
    (conncheck_stun_validater env (ag_compat b) t d cls) (sent_check env a s p) (comp_agent c) (comp_agent d)"
proof -
  note A = assms [unfolded good_env_def can_send_def can_receive_def]
  obtain x where u: "ck_user (sent_check env a s p) = strm_local_ufrag t @ [0x3a] @ strm_local_ufrag s @ x"
    and x: "length x \<le> 3"
    using created_username [OF assms(4), of "ag_compat a" "pair_local p" "pair_remote p" env "pair_component p"] A
    by (auto simp: sent_check_def)
  obtain y ys where y: "comp_local d = y # ys" using A by (cases "comp_local d") auto
  have "\<not> msn_like (ag_compat b)" using A by (auto simp: ice_like_def msn_like_def)
  from validater_finds_key [OF assms(4) this y, of _ "[0x3a] @ strm_local_ufrag s @ x" env cls] u y A
  have "conncheck_stun_validater env (ag_compat b) t d cls None (Some (ck_user (sent_check env a s p))) =
      Some (Some (strm_local_password t))" by simp
  moreover have "length (cstr (foundation (pair_local p))) \<le> 33"
    using cstr_length [of "foundation (pair_local p)"] A by linarith
  moreover have "role_dialect (agent_to_ice_compatibility (ag_compat a))"
    using A by (auto simp: ice_like_def role_dialect_def)
  moreover have "length (ck_user (sent_check env a s p)) \<le> 514" "ck_user (sent_check env a s p) \<noteq> []"
    using u x assms(4) by (simp_all add: mirrored_def)
  moreover have "strm_remote_password s = strm_local_password t" "strm_local_password t \<noteq> []"
    using assms(4) by (auto simp: mirrored_def)
  ultimately show ?thesis using A unfolding ready_to_check_def by (auto simp: sent_check_def)
qed

lemma sends_request:
  assumes "can_send env a sid p c k" and own: "agent_find_component a sid (pair_component p) = Some (s, c)"
      "pair_stream p = sid"
    and "ck_user (sent_check env a s p) \<noteq> []" "n \<noteq> 0"
    and "stun_usage_ice_conncheck_create (env_stun env) (env_transid env (ag_draws a)) (comp_agent c) (env_message env)
      (env_buffer env STUN_MAX_MESSAGE_SIZE_IPV6) STUN_MAX_MESSAGE_SIZE_IPV6
      (Some (ck_user (sent_check env a s p))) (Some (strm_remote_password s)) (ag_controlling a) (ag_controlling a)
      (peer_reflexive_candidate_priority a (pair_local p)) (ag_tie_breaker a)
      (Some (cstr (foundation (pair_local p)))) (agent_to_ice_compatibility (ag_compat a)) = Some (n, m, sa)"
  shows "\<exists>b. conn_check_send env sid (pair_ref p) a = Some b \<and>
    ag_events b = ag_events a @ [Sent k (addr (pair_remote p)) (take n (buffer m))]"
proof -
  note A = assms(1) [unfolded can_send_def]
  let ?r = "pair_ref p"
  define a1 where "a1 = (if ag_controlling a then update_pair sid ?r (\<lambda>p. p\<lparr>pair_nominated := True\<rparr>) a else a)"
  define a3 where "a3 = update_component sid (comp_id c) (\<lambda>c. c\<lparr>comp_agent := sa\<rparr>)
    (update_pair sid ?r (\<lambda>p. p\<lparr>pair_message := Some m\<rparr>) (a1\<lparr>ag_draws := ag_draws a + 1\<rparr>))"
  have "\<exists>q. find_pair a1 sid ?r = Some q \<and> pair_sock q = Some k \<and> pair_remote q = pair_remote p"
    using A find_pair_update [of a sid ?r p "\<lambda>p. p\<lparr>pair_nominated := True\<rparr>"] by (simp add: a1_def)
  then obtain q0 where q0: "find_pair (a1\<lparr>ag_draws := ag_draws a + 1\<rparr>) sid ?r = Some q0" "pair_sock q0 = Some k"
    "pair_remote q0 = pair_remote p" by auto
  define q where "q = q0\<lparr>pair_message := Some m\<rparr>"
  have q: "find_pair a3 sid ?r = Some q" "pair_sock q = Some k" "pair_remote q = pair_remote p"
    using find_pair_update [OF q0(1), of "\<lambda>p. p\<lparr>pair_message := Some m\<rparr>"] q0(2,3) by (simp_all add: a3_def q_def)
  then obtain s' where s': "agent_find_stream a3 sid = Some s'" by (auto simp: find_pair_def split: bind_splits)
  have f: "ag_sockets a3 = ag_sockets a" "ag_events a3 = ag_events a" "ag_draws a1 = ag_draws a"
    by (simp_all add: a3_def a1_def)
  from launched [OF q(1) s' q(2), of env "take n (buffer m)"] A f q(3)
  obtain b where b: "launch_check env sid ?r (take n (buffer m)) a3 = Some b"
    "ag_events b = ag_events a @ [Sent k (addr (pair_remote p)) (take n (buffer m))]" by auto
  have pw: "check_password env (ag_compat a) s (pair_remote p) = Some (strm_remote_password s)"
    using A by (auto simp: check_password_def priv_get_password_def stream_credentials_def msn_like_def ice_like_def)
  have "conn_check_send env sid ?r a = launch_check env sid ?r (take n (buffer m)) a3"
    using A own assms(4,5,6) pw
    by (simp add: conn_check_send_def fresh_id_def a3_def f(3) sent_check_def flip: a1_def)
  with b show ?thesis by simp
qed

lemma check_reaches_peer_core:
  assumes env: "good_env env" and pair: "can_send env a sid p c k"
    and own: "agent_find_component a sid (pair_component p) = Some (s, c)" "pair_stream p = sid"
    and peer: "agent_find_component b sid' cid' = Some (t, d)" "can_receive b d"
    and both: "mirrored s t" "speaks_same (comp_agent c) (comp_agent d)" "length (strm_local_password t) + 64 < 2 ^ 32"
  shows "\<exists>a1 pkt req b1. conn_check_send env sid (pair_ref p) a = Some a1 \<and>
    ag_events a1 = ag_events a @ [Sent k (addr (pair_remote p)) pkt] \<and>
    inbound_validate env sid' cid' k' pkt b = Some ((STUN_VALIDATION_SUCCESS, req, False), b1) \<and>
    stun_usage_ice_conncheck_priority req = Some (peer_reflexive_candidate_priority a (pair_local p)) \<and>
    stun_usage_ice_conncheck_use_candidate req = Some (ag_controlling a)"
proof -
  let ?s = "sent_check env a s p"
  have buf: "length (env_buffer env STUN_MAX_MESSAGE_SIZE_IPV6) = STUN_MAX_MESSAGE_SIZE_IPV6"
    using env by (simp add: good_env_def)
  have key: "strm_remote_password s = strm_local_password t" using both(1) by (simp add: mirrored_def)
  note ready = check_is_ready [OF env pair peer(2) both]
  from ready [of None] have u: "ck_user ?s \<noteq> []" by (simp add: ready_to_check_def)
  have *: "\<exists>n m sa req. stun_usage_ice_conncheck_create (env_stun env) (env_transid env (ag_draws a)) (comp_agent c)
      (env_message env) (env_buffer env STUN_MAX_MESSAGE_SIZE_IPV6) STUN_MAX_MESSAGE_SIZE_IPV6
      (Some (ck_user ?s)) (Some (strm_remote_password s)) (ag_controlling a) (ag_controlling a)
      (peer_reflexive_candidate_priority a (pair_local p)) (ag_tie_breaker a)
      (Some (cstr (foundation (pair_local p)))) (agent_to_ice_compatibility (ag_compat a)) = Some (n, m, sa) \<and>
    stun_agent_validate (env_stun env) (comp_agent d) (env_message env) (take n (buffer m)) n
      (Some (conncheck_stun_validater env (ag_compat b) t d cls)) =
      Some (STUN_VALIDATION_SUCCESS, req, comp_agent d) \<and>
    stun_usage_ice_conncheck_priority req = Some (peer_reflexive_candidate_priority a (pair_local p)) \<and>
    stun_usage_ice_conncheck_use_candidate req = Some (ag_controlling a) \<and>
    20 \<le> n \<and> n \<le> length (buffer m)" for cls
    using request_delivered [OF ready, of "env_message env" cls] by (auto simp: sent_check_def buf)
  from * [of None] obtain n m sa where q: "stun_usage_ice_conncheck_create (env_stun env)
      (env_transid env (ag_draws a)) (comp_agent c)
      (env_message env) (env_buffer env STUN_MAX_MESSAGE_SIZE_IPV6) STUN_MAX_MESSAGE_SIZE_IPV6
      (Some (ck_user ?s)) (Some (strm_remote_password s)) (ag_controlling a) (ag_controlling a)
      (peer_reflexive_candidate_priority a (pair_local p)) (ag_tie_breaker a)
      (Some (cstr (foundation (pair_local p)))) (agent_to_ice_compatibility (ag_compat a)) = Some (n, m, sa)"
    by blast
  from * [of "packet_class env (take n (buffer m))"] q obtain req where
    v: "stun_agent_validate (env_stun env) (comp_agent d) (env_message env) (take n (buffer m)) n
        (Some (conncheck_stun_validater env (ag_compat b) t d (packet_class env (take n (buffer m))))) =
        Some (STUN_VALIDATION_SUCCESS, req, comp_agent d)"
      "stun_usage_ice_conncheck_priority req = Some (peer_reflexive_candidate_priority a (pair_local p))"
      "stun_usage_ice_conncheck_use_candidate req = Some (ag_controlling a)"
      "20 \<le> n" "n \<le> length (buffer m)" by auto
  from v(4) have "n \<noteq> 0" by simp
  from sends_request [OF pair own u this q] obtain a1 where "conn_check_send env sid (pair_ref p) a = Some a1"
    "ag_events a1 = ag_events a @ [Sent k (addr (pair_remote p)) (take n (buffer m))]" by blast
  moreover have "\<exists>b1. inbound_validate env sid' cid' k' (take n (buffer m)) b =
      Some ((STUN_VALIDATION_SUCCESS, req, False), b1)"
    using v peer(1) by (simp add: inbound_validate_def refused_def)
  ultimately show ?thesis using v(2,3) by blast
qed

section \<open>The keepalive that cannot be built\<close>

text \<open>
  The keepalive passes no candidate identifier. In the dialects that send one, the null pointer is read
  once the other attributes are there.
\<close>

lemma run_steps_then: "run_steps fs msg = Some (True, msg1) \<Longrightarrow> run_steps (fs @ gs) msg = run_steps gs msg1"
  by (induction fs arbitrary: msg) (auto split: bind_splits if_splits)

lemma check_without_identifier:
  assumes "conn_agent sa" "length rid = 16" "length buf = n" "n < 65536" "length u + 100 \<le> n" "u \<noteq> []"
  shows "stun_usage_ice_conncheck_create env rid sa msg0 buf n (Some u) key cu ctl prio tie None
    STUN_USAGE_ICE_COMPATIBILITY_WLM2009 = None"
proof -
  let ?xs = "ice_check_attrs u cu ctl prio tie [] STUN_USAGE_ICE_COMPATIBILITY_RFC5245"
  have n: "20 \<le> n" using assms(5) by simp
  from init_request_fresh [OF assms(1-3) n] obtain msg where
    m: "stun_agent_init_request env rid sa msg0 buf n STUN_BINDING = Some (True, msg)"
      "fresh_for sa STUN_REQUEST (cookie_id rid) n msg" by blast
  have room: "length u + length [] + 100 \<le> n" using assms(5) by simp
  note X = ice_check_attrs_props [OF room]
  have "20 + attrs_size msg ?xs \<le> n"
    using X(1) [of msg cu ctl prio tie STUN_USAGE_ICE_COMPATIBILITY_RFC5245] by linarith
  from fresh_extends [OF m(2) this assms(4) X(2,3)] obtain msg1 where "append_all msg ?xs = Some msg1" by blast
  from run_steps_append_all [OF this] have
    "run_steps (ice_check_steps (Some u) cu ctl prio tie (Some []) STUN_USAGE_ICE_COMPATIBILITY_RFC5245) msg =
      Some (True, msg1)"
    using ice_check_steps_attrs [of STUN_USAGE_ICE_COMPATIBILITY_RFC5245 u cu ctl prio tie "[]"] assms(6)
    by (simp add: role_dialect_def)
  note r = run_steps_then [OF this, of "[\<lambda>msg. None]"]
  have "ice_check_steps (Some u) cu ctl prio tie None STUN_USAGE_ICE_COMPATIBILITY_WLM2009 =
      ice_check_steps (Some u) cu ctl prio tie (Some []) STUN_USAGE_ICE_COMPATIBILITY_RFC5245 @ [\<lambda>msg. None]"
    by (simp add: ice_check_steps_def)
  with r m(1) show ?thesis by (simp add: stun_usage_ice_conncheck_create_def)
qed

lemma keepalive_faults_core:
  assumes "good_env env" and c: "agent_find_component a sid cid = Some (s, c)" "conn_agent (comp_agent c)"
    and dialect: "ag_compat a \<in> {NICE_COMPATIBILITY_WLM2009, NICE_COMPATIBILITY_OC2007R2}"
    and "mirrored s t" "stream_credentials l" "stream_credentials r"
  shows "keepalive_check env sid cid l r a = None"
proof -
  let ?u = "priv_create_username env (ag_compat a) s cid (Some r) (Some l) NICE_STREAM_MAX_UNAME False"
  have "ice_like (ag_compat a)" using dialect by (auto simp: ice_like_def)
  from created_username [OF assms(5) this assms(6,7), of env cid] assms(5)
  have u: "?u \<noteq> []" "length ?u + 100 \<le> STUN_MAX_MESSAGE_SIZE_IPV6" by (auto simp: mirrored_def)
  have "agent_to_ice_compatibility (ag_compat a) = STUN_USAGE_ICE_COMPATIBILITY_WLM2009" using dialect by auto
  with check_without_identifier [OF c(2) _ _ _ u(2,1), of "env_transid env (ag_draws a)"] assms(1) c(1) u(1)
  show ?thesis by (simp add: keepalive_check_def fresh_id_def good_env_def)
qed

end
