(* ===== verification/Usage_Safe.thy ===== *)
theory Usage_Safe
  imports Usage_Bind
begin

text \<open>
  Memory safety of the usages: every reader of a response returns on every message that validation
  accepts, and the blocking binding discovery never faults, whatever packets arrive.
\<close>

section \<open>Memory safety\<close>

lemma find_addr_len:
  "stun_message_find_addr msg t n = Some (v, a, n') \<Longrightarrow> n \<le> sizeof_sockaddr_storage \<Longrightarrow> n' \<le> sizeof_sockaddr_storage"
  by (auto simp: stun_message_find_addr_def split: bind_splits if_splits option.splits)

lemma find_xor_addr_len:
  "stun_message_find_xor_addr_full msg t n c = Some (v, a, n') \<Longrightarrow> n \<le> sizeof_sockaddr_storage \<Longrightarrow>
     n' \<le> sizeof_sockaddr_storage"
  by (auto simp: stun_message_find_xor_addr_full_def split: bind_splits if_splits option.splits
      dest: find_addr_len)

lemma validated_header:
  assumes "validated msg"
  shows "\<exists>c. stun_message_get_class msg = Some c" "\<exists>m. stun_message_get_method msg = Some m"
    "\<exists>i. stun_message_id msg = Some i \<and> length i = 16"
proof -
  from assms obtain n where "stun_message_validate_buffer_length (buffer msg) (length (buffer msg))
      (\<not> no_aligned (msg_agent msg)) = Some n" "0 < n"
    by (auto simp: validated_def split: option.splits)
  from validate_buffer_length_positive(3) [OF this] have "20 \<le> length (buffer msg)" by simp
  then show "\<exists>c. stun_message_get_class msg = Some c" "\<exists>m. stun_message_get_method msg = Some m"
    "\<exists>i. stun_message_id msg = Some i \<and> length i = 16"
    by (auto simp: stun_message_get_class_def stun_message_get_method_def stun_message_id_def
        rdn_def stun_getw_def rd_def)
qed

lemma alternate_server_safe:
  assumes "validated msg" and "\<And>n. alt = Some n \<Longrightarrow> n \<le> sizeof_sockaddr_storage"
  shows "\<exists>r. alternate_server msg alt = Some r"
proof (cases alt)
  case None
  from has_attribute_safe [OF assms(1)] obtain h where
    "stun_message_has_attribute msg STUN_ATTRIBUTE_ALTERNATE_SERVER = Some h" by blast
  with None show ?thesis by (simp add: alternate_server_def)
next
  case (Some n)
  from find_addr_safe [OF assms(1) assms(2) [OF Some]] obtain v a l where
    "stun_message_find_addr msg STUN_ATTRIBUTE_ALTERNATE_SERVER n = Some (v, a, l)" by (metis prod_cases3)
  with Some show ?thesis by (simp add: alternate_server_def)
qed

text \<open>The two lookups of a mapped address, the second with the length the first one left.\<close>

lemma mapped_lookups_safe:
  assumes "validated msg" and "n \<le> sizeof_sockaddr_storage"
  shows "\<exists>v a l. stun_message_find_xor_addr_full msg t n c = Some (v, a, l) \<and>
    (\<exists>v' a' l'. stun_message_find_addr msg t' l = Some (v', a', l'))"
proof -
  from find_xor_addr_full_safe [OF assms] obtain v a l
    where x: "stun_message_find_xor_addr_full msg t n c = Some (v, a, l)" by (metis prod_cases3)
  from find_addr_safe [OF assms(1) find_xor_addr_len [OF x assms(2)]] show ?thesis
    using x by (metis prod_cases3)
qed

lemma bind_process_safe:
  assumes "validated msg" and "n \<le> sizeof_sockaddr_storage"
    and "\<And>m. alt = Some m \<Longrightarrow> m \<le> sizeof_sockaddr_storage"
  shows "\<exists>r. stun_usage_bind_process msg n alt = Some r"
proof -
  obtain m c where m: "stun_message_get_method msg = Some m" "stun_message_get_class msg = Some c"
    using validated_header [OF assms(1)] by auto
  obtain v e where e: "stun_message_find_error msg = Some (v, e)"
    using find_error_safe [OF assms(1)] by (metis prod.exhaust)
  obtain f al where al: "alternate_server msg alt = Some (f, al)"
    using alternate_server_safe [OF assms(1,3)] by (metis prod.exhaust)
  obtain v1 a1 l1 v2 a2 l2 where a: "stun_message_find_xor_addr msg STUN_ATTRIBUTE_XOR_MAPPED_ADDRESS n = Some (v1, a1, l1)"
      "stun_message_find_addr msg STUN_ATTRIBUTE_MAPPED_ADDRESS l1 = Some (v2, a2, l2)"
    using mapped_lookups_safe [OF assms(1,2)] unfolding stun_message_find_xor_addr_def by metis
  show ?thesis by (simp add: stun_usage_bind_process_def Let_def m e al a split: option.split)
qed

lemma ice_process_safe:
  assumes "validated msg" and "n \<le> sizeof_sockaddr_storage"
  shows "\<exists>r. stun_usage_ice_conncheck_process msg n dialect = Some r"
proof -
  obtain m c where m: "stun_message_get_method msg = Some m" "stun_message_get_class msg = Some c"
    using validated_header [OF assms(1)] by auto
  obtain v e where e: "stun_message_find_error msg = Some (v, e)"
    using find_error_safe [OF assms(1)] by (metis prod.exhaust)
  obtain ck where ck: "msn_cookie msg = Some ck"
    using validated_header(3) [OF assms(1)] by (auto simp: msn_cookie_def)
  obtain v1 a1 l1 v2 a2 l2 where a: "stun_message_find_xor_addr msg STUN_ATTRIBUTE_XOR_MAPPED_ADDRESS n = Some (v1, a1, l1)"
      "stun_message_find_addr msg STUN_ATTRIBUTE_MAPPED_ADDRESS l1 = Some (v2, a2, l2)"
    using mapped_lookups_safe [OF assms(1,2)] unfolding stun_message_find_xor_addr_def by metis
  obtain v3 a3 l3 v4 a4 l4 where b: "stun_message_find_xor_addr_full msg STUN_ATTRIBUTE_XOR_MAPPED_ADDRESS n ck = Some (v3, a3, l3)"
      "stun_message_find_addr msg STUN_ATTRIBUTE_MAPPED_ADDRESS l3 = Some (v4, a4, l4)"
    using mapped_lookups_safe [OF assms(1,2)] by metis
  show ?thesis
    by (cases "dialect = STUN_USAGE_ICE_COMPATIBILITY_MSN")
      (simp_all add: stun_usage_ice_conncheck_process_def Let_def m e ck a b split: option.split)
qed

lemma turn_addresses_safe:
  assumes "validated msg" and "rl \<le> sizeof_sockaddr_storage" and "n \<le> sizeof_sockaddr_storage"
  shows "\<exists>v a v' r. turn_addresses msg rl n dialect = Some (v, a, v', r)"
proof -
  obtain ck where ck: "msn_cookie msg = Some ck"
    using validated_header(3) [OF assms(1)] by (auto simp: msn_cookie_def)
  obtain f g where f: "\<And>t. stun_message_find_addr msg t rl = Some (f t)"
      "\<And>t. stun_message_find_addr msg t n = Some (g t)"
    using find_addr_safe [OF assms(1,2)] find_addr_safe [OF assms(1,3)] by metis
  obtain h k where h: "\<And>t c. stun_message_find_xor_addr_full msg t rl c = Some (h t c)"
      "\<And>t c. stun_message_find_xor_addr_full msg t n c = Some (k t c)"
    using find_xor_addr_full_safe [OF assms(1,2)] find_xor_addr_full_safe [OF assms(1,3)] by metis
  show ?thesis
    by (auto simp: turn_addresses_def stun_message_find_xor_addr_def ck f h split: prod.split)
      (metis prod_cases3)+
qed

lemma turn_process_safe:
  assumes "validated msg" and "rl \<le> sizeof_sockaddr_storage" and "n \<le> sizeof_sockaddr_storage"
    and "\<And>m. alt = Some m \<Longrightarrow> m \<le> sizeof_sockaddr_storage"
  shows "\<exists>r. stun_usage_turn_process msg rl n alt dialect = Some r"
    "\<exists>r. stun_usage_turn_refresh_process msg dialect = Some r"
proof -
  obtain m c where m: "stun_message_get_method msg = Some m" "stun_message_get_class msg = Some c"
    using validated_header [OF assms(1)] by auto
  obtain v e where e: "stun_message_find_error msg = Some (v, e)"
    using find_error_safe [OF assms(1)] by (metis prod.exhaust)
  obtain f al where al: "alternate_server msg alt = Some (f, al)"
    using alternate_server_safe [OF assms(1,4)] by (metis prod.exhaust)
  obtain v1 a1 v2 r2 where a: "turn_addresses msg rl n dialect = Some (v1, a1, v2, r2)"
    using turn_addresses_safe [OF assms(1-3)] by blast
  have l: "\<exists>v x. stun_message_find32 msg t = Some (v, x)" for t
    using find32_safe [OF assms(1), of t] by auto
  obtain v3 x3 v4 x4 where i: "stun_message_find32 msg STUN_ATTRIBUTE_LIFETIME = Some (v3, x3)"
      "stun_message_find32 msg STUN_ATTRIBUTE_BANDWIDTH = Some (v4, x4)"
    using l by metis
  show "\<exists>r. stun_usage_turn_process msg rl n alt dialect = Some r"
    by (simp add: stun_usage_turn_process_def Let_def m e al a i split: option.split)
  show "\<exists>r. stun_usage_turn_refresh_process msg dialect = Some r"
    by (simp add: stun_usage_turn_refresh_process_def Let_def m e i split: option.split)
qed

lemma ice_fields_safe:
  assumes "validated msg"
  shows "\<exists>v. stun_usage_ice_conncheck_priority msg = Some v"
    "\<exists>v. stun_usage_ice_conncheck_use_candidate msg = Some v"
  using find32_safe [OF assms, of STUN_ATTRIBUTE_PRIORITY] find_flag_safe [OF assms, of STUN_ATTRIBUTE_USE_CANDIDATE]
  by (auto simp: stun_usage_ice_conncheck_priority_def stun_usage_ice_conncheck_use_candidate_def)

section \<open>Validation without keys\<close>

text \<open>An agent that has saved no key, and is given no validater, never computes a code.\<close>

definition keyless :: "stun_agent \<Rightarrow> bool" where
  "keyless a \<longleftrightarrow> \<not> uses_cookie a \<and> 0 \<in> set (known_attributes a) \<and>
     (\<forall>s \<in> set (sent_ids a). saved_valid s \<longrightarrow> saved_key s = None)"

lemma attr_value_safe:
  assumes "validated msg" shows "\<exists>v. attr_value msg t = Some v"
  using assms
proof (cases rule: val.lookup_cases [where t = t])
  case (present p l)
  with val.read_value [OF assms present, of 0 "unat l"] show ?thesis
    by (auto simp: attr_value_def)
qed (auto simp: attr_value_def)

lemma has_error_code_safe: "validated msg \<Longrightarrow> \<exists>r. has_error_code msg cs = Some r"
  using validated_header(1) [of msg] find_error_safe [of msg]
  by (auto simp: has_error_code_def)

lemma credentials_safe:
  assumes "validated msg"
  shows "\<exists>r. ignore_credentials a msg = Some r" "\<exists>r. lacks_credentials a msg = Some r"
proof -
  obtain c where c: "stun_message_get_class msg = Some c" using validated_header(1) [OF assms] by blast
  obtain f where "\<And>t. stun_message_has_attribute msg t = Some (f t)"
    using has_attribute_safe [OF assms] by metis
  with c show "\<exists>r. lacks_credentials a msg = Some r" by (simp add: lacks_credentials_def)
  from has_error_code_safe [OF assms] obtain e where "has_error_code msg [400, 401, 438] = Some e" by blast
  with c show "\<exists>r. ignore_credentials a msg = Some r" by (simp add: ignore_credentials_def)
qed

lemma ask_nobody:
  assumes "validated msg"
  shows "\<exists>r. ask_validater a msg None i None = Some r \<and> (r = None \<or> r = Some None)"
proof -
  obtain h where "stun_message_has_attribute msg STUN_ATTRIBUTE_MESSAGE_INTEGRITY = Some h"
    using has_attribute_safe [OF assms] by blast
  moreover obtain u where "attr_value msg STUN_ATTRIBUTE_USERNAME = Some u"
    using attr_value_safe [OF assms] by blast
  ultimately show ?thesis by (simp add: ask_validater_def)
qed

lemma find_unknowns_safe:
  assumes "validated msg" and "0 \<in> set (known_attributes a)"
    and "has_flag a STUN_AGENT_USAGE_NO_ALIGNED_ATTRIBUTES = no_aligned (msg_agent msg)"
  shows "\<exists>r. stun_agent_find_unknowns a msg k = Some r"
proof -
  from validated_attrs [OF assms(1)] obtain as where "msg_attrs msg = Some as" by blast
  from find_unknowns_eq [OF this assms(2,3)] show ?thesis by blast
qed

lemma validate_keyless:
  assumes "validated msg" and "0 \<in> set (known_attributes a)"
    and "has_flag a STUN_AGENT_USAGE_NO_ALIGNED_ATTRIBUTES = no_aligned (msg_agent msg)"
  shows "\<exists>r. validate_with_key env a msg None c idx None ltk ltv = Some r"
proof -
  obtain i l where il: "ignore_credentials a msg = Some i" "lacks_credentials a msg = Some l"
    using credentials_safe [OF assms(1)] by metis
  have r: "0 \<in> set (known_attributes (release_saved a idx))"
    "has_flag (release_saved a idx) STUN_AGENT_USAGE_NO_ALIGNED_ATTRIBUTES = no_aligned (msg_agent msg)"
    using assms(2,3) by (cases idx; simp add: release_saved_def has_flag_def)+
  from find_unknowns_safe [OF assms(1) r] obtain u where
    u: "stun_agent_find_unknowns (release_saved a idx) msg 1 = Some u" by blast
  from ask_nobody [OF assms(1), of a i] obtain q where
    "ask_validater a msg None i None = Some q" "q = None \<or> q = Some None" by blast
  with il u show ?thesis
    by (auto simp: validate_with_key_def check_key_def Let_def)
qed

lemma received_is_validated:
  assumes "stun_message_validate_buffer_length buf (length buf)
      (\<not> has_flag a STUN_AGENT_USAGE_NO_ALIGNED_ATTRIBUTES) = Some l" and "l \<noteq> -1" and "l \<noteq> 0"
  shows "validated (received_message a msg0 buf (length buf))"
proof -
  have "0 < l" using assms unfolding validate_buffer_length_eq by (auto split: if_splits bind_splits)
  then show ?thesis
    using assms(1) by (simp add: validated_def received_message_def no_aligned_def conf_of_def has_flag_def)
qed

lemma keyless_validate:
  assumes "keyless a"
  shows "\<exists>r. stun_agent_validate env a msg0 buf (length buf) None = Some r"
proof -
  obtain l where l: "stun_message_validate_buffer_length buf (length buf)
      (\<not> has_flag a STUN_AGENT_USAGE_NO_ALIGNED_ATTRIBUTES) = Some l"
    using validate_buffer_length_safe by blast
  show ?thesis
  proof (cases "l = -1 \<or> l = 0")
    case True
    with l show ?thesis by (auto simp: stun_agent_validate_def)
  next
    case False
    let ?m = "received_message a msg0 buf (length buf)"
    from l False have v: "validated ?m" by (intro received_is_validated) auto
    obtain c k i where h: "stun_message_get_class ?m = Some c" "stun_message_get_method ?m = Some k"
        "stun_message_id ?m = Some i"
      using validated_header [OF v] by blast
    have na: "has_flag a STUN_AGENT_USAGE_NO_ALIGNED_ATTRIBUTES = no_aligned (msg_agent ?m)"
      by (simp add: received_message_def no_aligned_def conf_of_def has_flag_def)
    have kn: "0 \<in> set (known_attributes a)" and uc: "\<not> uses_cookie a"
      and sk: "\<And>s. s \<in> set (sent_ids a) \<Longrightarrow> saved_valid s \<Longrightarrow> saved_key s = None"
      using assms by (auto simp: keyless_def)
    have n: "\<exists>r. validate_credentials env a ?m None c idx = Some r"
      if "idx = None \<or> (\<exists>j < length (sent_ids a). idx = Some j \<and> saved_valid (sent_ids a ! j))" for idx
      using that sk validate_keyless [OF v kn na]
      by (auto simp: validate_credentials_def Let_def)
    have f: "find_index (saved_matches k i) (sent_ids a) = Some j \<Longrightarrow>
        j < length (sent_ids a) \<and> saved_valid (sent_ids a ! j)" for j
      using find_index_Some(1,2) [of "saved_matches k i" "sent_ids a" j] by (auto simp: saved_matches_def)
    have "\<exists>r. (case find_index (saved_matches k i) (sent_ids a) of
        None \<Rightarrow> Some (STUN_VALIDATION_UNMATCHED_RESPONSE, ?m, a)
      | Some j \<Rightarrow> validate_credentials env a ?m None c (Some j)) = Some r"
      using n f by (auto split: option.split)
    with l h uc n [of None] show ?thesis
      by (auto simp: stun_agent_validate_def stun_message_has_cookie_def Let_def)
  qed
qed

section \<open>The blocking discovery never faults\<close>

lemma keyless_validated:
  assumes "stun_agent_validate env a msg0 buf n v = Some (st, msg, a')" and "keyless a"
  shows "keyless a'"
proof -
  have "keyless (release_saved a (Some i))" if "i < length (sent_ids a)" for i
    using assms(2) that
    by (auto simp: keyless_def release_saved_def uses_cookie_def dest!: set_update_subset_insert [THEN subsetD])
  with validate_table [OF assms(1)] assms(2) show ?thesis by (auto dest: find_index_Some(1))
qed

lemma found_alternate:
  assumes "alternate_server msg (Some m) = Some (f, x)" and "m \<le> sizeof_sockaddr_storage"
  shows "\<exists>a l. x = Some (a, l) \<and> l \<le> sizeof_sockaddr_storage \<and> (f \<longrightarrow> a \<noteq> None)"
proof -
  from assms(1) obtain v a l where
    f: "stun_message_find_addr msg STUN_ATTRIBUTE_ALTERNATE_SERVER m = Some (v, a, l)"
      "f = (v = STUN_MESSAGE_RETURN_SUCCESS)" "x = Some (a, l)"
    by (auto simp: alternate_server_def split: bind_splits)
  from f(1) have "v = STUN_MESSAGE_RETURN_SUCCESS \<Longrightarrow> a \<noteq> None"
    by (auto simp: stun_message_find_addr_def split: bind_splits if_splits option.splits)
  with f find_addr_len [OF f(1) assms(2)] show ?thesis by auto
qed

lemma bind_process_results:
  assumes "stun_usage_bind_process msg n (Some m) = Some (ret, (addr, alen), alt)"
    and "n \<le> sizeof_sockaddr_storage" and "m \<le> sizeof_sockaddr_storage"
  shows "alen \<le> sizeof_sockaddr_storage \<and> (\<exists>a l. alt = Some (a, l) \<and> l \<le> sizeof_sockaddr_storage \<and>
    (ret = STUN_USAGE_BIND_RETURN_ALTERNATE_SERVER \<longrightarrow> a \<noteq> None))"
proof -
  from assms(1) consider "alen = n" "alt = Some (None, m)" "ret \<noteq> STUN_USAGE_BIND_RETURN_ALTERNATE_SERVER"
    | f where "alen = n" "alternate_server msg (Some m) = Some (f, alt)"
        "ret = STUN_USAGE_BIND_RETURN_ALTERNATE_SERVER \<longrightarrow> f"
    | v a where "stun_message_find_xor_addr msg STUN_ATTRIBUTE_XOR_MAPPED_ADDRESS n = Some (v, a, alen)"
        "alt = Some (None, m)" "ret \<noteq> STUN_USAGE_BIND_RETURN_ALTERNATE_SERVER"
    | v a l v' a' where "stun_message_find_xor_addr msg STUN_ATTRIBUTE_XOR_MAPPED_ADDRESS n = Some (v, a, l)"
        "stun_message_find_addr msg STUN_ATTRIBUTE_MAPPED_ADDRESS l = Some (v', a', alen)"
        "alt = Some (None, m)" "ret \<noteq> STUN_USAGE_BIND_RETURN_ALTERNATE_SERVER"
    unfolding stun_usage_bind_process_def Let_def
    by (auto split: bind_splits if_splits option.splits)
  then show ?thesis
    using assms(2,3) found_alternate [of msg m]
    by cases (force dest: find_addr_len find_xor_addr_len simp: stun_message_find_xor_addr_def)+
qed

definition run_ok :: "bind_state \<Rightarrow> bool" where
  "run_ok s \<longleftrightarrow> keyless (bs_agent s) \<and> bs_addrlen s \<le> sizeof_sockaddr_storage \<and>
     bs_altlen s \<le> sizeof_sockaddr_storage \<and> tr_fd (bs_trans s) \<noteq> -1 \<and>
     bs_open s = [tr_fd (bs_trans s)] \<and> tr_own_fd (bs_trans s) = tr_fd (bs_trans s)"

lemma created_transport:
  assumes "stun_trans_create tr True fd conn srv n = Some (ret, tr', opened)"
  shows "ret = STUN_USAGE_TRANS_RETURN_SUCCESS \<Longrightarrow> opened = [tr_fd tr'] \<and> tr_fd tr' \<noteq> -1 \<and> tr_own_fd tr' = tr_fd tr'"
  using assms by (auto simp: stun_trans_create_def stun_trans_init_def split: if_splits bind_splits)

lemma create_safe: "\<exists>r. stun_trans_create tr dgram fd conn srv n = Some r"
  by (auto simp: stun_trans_create_def stun_trans_init_def)

lemma redirect_ok:
  assumes "run_ok s"
  shows "\<exists>r s'. bind_redirect e alt s = Some (r, s') \<and> (r = Some STUN_USAGE_BIND_RETURN_ERROR \<or> r = None \<and> run_ok s')"
proof -
  let ?tr = "(bs_trans s)\<lparr>tr_own_fd := -1, tr_fd := -1\<rparr>"
  obtain ret tr' opened where c: "stun_trans_create ?tr True (ev_socket e) True alt (bs_altlen s) = Some (ret, tr', opened)"
    using create_safe by (metis prod_cases3)
  from assms created_transport [OF c] show ?thesis
    by (auto simp: bind_redirect_def stun_trans_deinit_def run_ok_def c stun_trans_send_def Let_def)
qed

lemma bind_packet_ok:
  assumes "run_ok s"
  shows "\<exists>r s'. bind_packet env e p s = Some (r, s') \<and> (r = Some STUN_USAGE_BIND_RETURN_ERROR \<or> run_ok s')"
proof -
  let ?b = "take STUN_MAX_MESSAGE_SIZE p"
  have k: "keyless (bs_agent s)" using assms by (simp add: run_ok_def)
  obtain st msg a where v: "stun_agent_validate env (bs_agent s) (bs_message s) ?b (length ?b) None = Some (st, msg, a)"
    using keyless_validate [OF k] by (metis prod_cases3)
  let ?s1 = "s\<lparr>bs_agent := a, bs_message := msg\<rparr>"
  have ok1: "run_ok ?s1" using assms keyless_validated [OF v k] by (simp add: run_ok_def)
  show ?thesis
  proof (cases "st = STUN_VALIDATION_SUCCESS")
    case False
    then show ?thesis using v ok1 by (auto simp: bind_packet_def Let_def)
  next
    case True
    have "validated msg" by (rule validated_success [OF v [unfolded True]])
    from bind_process_safe [OF this, of "bs_addrlen s" "Some (bs_altlen s)"] assms obtain ret addr alen alt
      where p: "stun_usage_bind_process msg (bs_addrlen s) (Some (bs_altlen s)) = Some (ret, (addr, alen), alt)"
      by (auto simp: run_ok_def)
    from bind_process_results [OF p] assms obtain a' l where
      r: "alen \<le> sizeof_sockaddr_storage" "alt = Some (a', l)" "l \<le> sizeof_sockaddr_storage"
        "ret = STUN_USAGE_BIND_RETURN_ALTERNATE_SERVER \<longrightarrow> a' \<noteq> None"
      by (auto simp: run_ok_def)
    let ?s2 = "?s1\<lparr>bs_mapped := (case addr of None \<Rightarrow> bs_mapped s | Some a \<Rightarrow> Some a),
         bs_addrlen := alen, bs_altlen := l\<rparr>"
    have ok2: "run_ok ?s2" using ok1 r by (simp add: run_ok_def)
    show ?thesis
    proof (cases "ret = STUN_USAGE_BIND_RETURN_ALTERNATE_SERVER")
      case True
      with r obtain x where "a' = Some x" by auto
      with redirect_ok [OF ok2, of e x] True v \<open>st = _\<close> p r show ?thesis
        by (auto simp: bind_packet_def Let_def)
    next
      case False
      with ok2 v True p r show ?thesis by (auto simp: bind_packet_def Let_def)
    qed
  qed
qed

lemma bind_round_ok:
  assumes "run_ok s"
  shows "\<exists>r s'. bind_round env e s = Some (r, s') \<and> (r = Some STUN_USAGE_BIND_RETURN_ERROR \<or> run_ok s')"
proof -
  have rec: "\<exists>r x'. bind_receive env e x = Some (r, x') \<and> (r = Some STUN_USAGE_BIND_RETURN_ERROR \<or> run_ok x')"
    if "run_ok x" for x
    using bind_packet_ok [OF that] that by (auto simp: bind_receive_def split: option.split)
  have upd: "run_ok (s\<lparr>bs_timer := t\<rparr>)" "run_ok (stun_trans_send (s\<lparr>bs_timer := t\<rparr>))" for t
    using assms by (simp_all add: run_ok_def stun_trans_send_def)
  obtain r t where "stun_timer_refresh (ev_clock e) (bs_timer s) = (r, t)" by (metis prod.exhaust)
  then show ?thesis
    using rec [OF upd(1), of t] rec [OF assms] upd
    by (cases r) (auto simp: bind_round_def Let_def)
qed

lemma bind_rounds_ok:
  "run_ok s \<Longrightarrow> \<exists>r s'. bind_rounds env es s = Some (r, s') \<and> (r = Some STUN_USAGE_BIND_RETURN_ERROR \<or> run_ok s')"
proof (induction es arbitrary: s)
  case (Cons e es)
  from bind_round_ok [OF Cons.prems, of env e] obtain r s' where
    b: "bind_round env e s = Some (r, s')" "r = Some STUN_USAGE_BIND_RETURN_ERROR \<or> run_ok s'" by blast
  show ?case
  proof (cases r)
    case None
    with b Cons.IH [of s'] show ?thesis by auto
  next
    case (Some x)
    with b show ?thesis by auto
  qed
qed auto

lemma known_zero: "0 \<in> set STUN_ALL_KNOWN_ATTRIBUTES"
  by (simp add: STUN_ALL_KNOWN_ATTRIBUTES_def)

lemma bind_create_keyless:
  assumes "length rid = 16" and "length buf = STUN_MAX_MESSAGE_SIZE"
  shows "\<exists>n req a. stun_usage_bind_create env rid
      (stun_agent_init agent0 STUN_ALL_KNOWN_ATTRIBUTES STUN_COMPATIBILITY_RFC3489 0) msg0 buf
      STUN_MAX_MESSAGE_SIZE = Some (n, req, a) \<and> keyless a"
proof -
  let ?a = "stun_agent_init agent0 STUN_ALL_KNOWN_ATTRIBUTES STUN_COMPATIBILITY_RFC3489 0"
  let ?f = "fresh_message ?a msg0 buf STUN_MAX_MESSAGE_SIZE"
  have u: "\<not> uses_cookie ?a" "\<forall>s \<in> set (sent_ids ?a). \<not> saved_valid s" "known_attributes ?a = STUN_ALL_KNOWN_ATTRIBUTES"
    by (auto simp: uses_cookie_def stun_agent_init_def)
  have k0: "keyless ?a" using u known_zero by (auto simp: keyless_def)
  have wf: "wf_message ?f" using assms(2) by (simp add: wf_message_def fresh_message_def)
  from message_init_eq [OF wf assms(1), of STUN_REQUEST STUN_BINDING] obtain b where
    i: "stun_message_init ?f STUN_REQUEST STUN_BINDING rid = Some (True, ?f\<lparr>buffer := b\<rparr>)"
    and b: "length b = STUN_MAX_MESSAGE_SIZE" using assms(2) by (auto simp: fresh_message_def)
  let ?m = "?f\<lparr>buffer := b\<rparr>"
  have m: "msg_key ?m = None" "wf_message ?m" using b by (simp_all add: fresh_message_def wf_message_def)
  from wf_message_readable [OF m(2)] obtain c k t l where h: "stun_message_get_class ?m = Some c" "stun_message_get_method ?m = Some k"
      "stun_message_id ?m = Some t" "stun_message_length ?m = Some l"
    by blast
  have r: "stun_agent_init_request env rid ?a msg0 buf STUN_MAX_MESSAGE_SIZE STUN_BINDING = Some (True, ?m)"
    using u(1) by (simp add: stun_agent_init_request_def i write_cookie_def add_software_def)
  have fp: "append_fingerprint ?a ?m = Some (True, ?m)" using u(1) by (simp add: append_fingerprint_def)
  have s: "\<exists>a'. save_request ?a ?m idx None = Some a' \<and> keyless a'" if "idx < length (sent_ids ?a)" for idx
    using that h k0
    by (auto simp: save_request_def keyless_def uses_cookie_def dest!: set_update_subset_insert [THEN subsetD])
  show ?thesis
  proof (cases "c = STUN_REQUEST")
    case False
    then show ?thesis
      using r h m k0 fp by (simp add: stun_usage_bind_create_def stun_agent_finish_message_def Let_def)
  next
    case True
    show ?thesis
    proof (cases "find_index (\<lambda>s. \<not> saved_valid s) (sent_ids ?a)")
      case None
      then show ?thesis using r h True k0
        by (simp add: stun_usage_bind_create_def stun_agent_finish_message_def Let_def)
    next
      case (Some idx)
      from s [OF find_index_Some(1) [OF Some]] Some show ?thesis
        using r h m True fp by (auto simp: stun_usage_bind_create_def stun_agent_finish_message_def Let_def)
    qed
  qed
qed

lemma bind_run_ok:
  assumes "length rid = 16" and "length buf = STUN_MAX_MESSAGE_SIZE" and "addrlen \<le> sizeof_sockaddr_storage"
  shows "\<exists>r s. stun_usage_bind_run env rid agent0 msg0 buf tr0 srv srvlen addrlen fd sent start evs = Some (r, s) \<and>
    (r = Some STUN_USAGE_BIND_RETURN_ERROR \<or> bs_open s = [tr_fd (bs_trans s)])"
proof -
  from bind_create_keyless [OF assms(1,2)] obtain n req a where
    c: "stun_usage_bind_create env rid
      (stun_agent_init agent0 STUN_ALL_KNOWN_ATTRIBUTES STUN_COMPATIBILITY_RFC3489 0) msg0 buf
      STUN_MAX_MESSAGE_SIZE = Some (n, req, a)" and k: "keyless a" by blast
  obtain ret tr opened where t: "stun_trans_create tr0 True fd True srv srvlen = Some (ret, tr, opened)"
    using create_safe by (metis prod_cases3)
  let ?s = "stun_trans_send (bind_started msg0 a tr opened (take n (buffer req)) addrlen start)"
  show ?thesis
  proof (cases "ret = STUN_USAGE_TRANS_RETURN_SUCCESS")
    case False
    with c t show ?thesis by (simp add: stun_usage_bind_run_def Let_def)
  next
    case True
    have "run_ok ?s"
      using k created_transport [OF t True] assms(3) by (simp add: run_ok_def bind_started_def stun_trans_send_def)
    from bind_rounds_ok [OF this, of env evs] c t True show ?thesis
      by (auto simp: stun_usage_bind_run_def Let_def run_ok_def)
  qed
qed

text \<open>The run of a discovery that nobody answers, from its start to the timeout.\<close>

lemma unanswered_run:
  assumes "length rid = 16" and "length buf = STUN_MAX_MESSAGE_SIZE" and "fd \<noteq> -1" and "-1 \<le> sent"
    and "sizeof_sockaddr \<le> srvlen" and "srvlen \<le> sizeof_sockaddr_storage" and "in_range start"
    and "4 \<le> length evs" and "list_all (\<lambda>e. silent e \<and> tv_sec start + 10 < tv_sec (ev_clock e)) evs"
  shows "\<exists>s. stun_usage_bind_run env rid agent0 msg0 buf tr0 srv srvlen addrlen fd sent start evs =
      Some (Some STUN_USAGE_BIND_RETURN_TIMEOUT, s) \<and> length (bs_sent s) = 4"
proof -
  from bind_create_keyless [OF assms(1,2)] obtain n req a where
    c: "stun_usage_bind_create env rid
      (stun_agent_init agent0 STUN_ALL_KNOWN_ATTRIBUTES STUN_COMPATIBILITY_RFC3489 0) msg0 buf
      STUN_MAX_MESSAGE_SIZE = Some (n, req, a)" by blast
  from assms(3,5,6) obtain tr opened where
    t: "stun_trans_create tr0 True fd True srv srvlen = Some (STUN_USAGE_TRANS_RETURN_SUCCESS, tr, opened)"
    by (auto simp: stun_trans_create_def stun_trans_init_def)
  let ?s = "stun_trans_send (bind_started msg0 a tr opened (take n (buffer req)) addrlen start)"
  have "bs_timer ?s = stun_timer_start start STUN_TIMER_DEFAULT_TIMEOUT STUN_TIMER_DEFAULT_MAX_RETRANSMISSIONS"
    by (simp add: stun_trans_send_def bind_started_def)
  from silent_run_times_out [OF assms(9,7,8) this] assms(4) c t show ?thesis
    by (auto simp: stun_usage_bind_run_def Let_def stun_trans_send_def bind_started_def)
qed

end
