(* ===== verification/Usage_Samples.thy ===== *)
theory Usage_Samples
  imports Samples Usage_Exchange Usage_Safe
begin

text \<open>
  Two agents set up for connectivity checks and a check between them, on which the theorems about
  the usages are used.
\<close>

definition sample_conn_agent :: stun_agent where
  "sample_conn_agent = stun_agent_init blank_agent STUN_ALL_KNOWN_ATTRIBUTES STUN_COMPATIBILITY_RFC5389 5"

definition sample_source :: sockaddr where
  "sample_source = AF_INET \<lparr>sin_port = 0x3930, sin_addr = 0x0100007f\<rparr>"

text \<open>The checking side is controlling, with tie breaker 7; the other side answers as \<open>control\<close>, \<open>tie\<close>.\<close>

definition sample_check :: "bool \<Rightarrow> u64 \<Rightarrow> check_setup" where
  "sample_check control tie = \<lparr>ck_user = [114, 58, 108], ck_key = [1, 2, 3, 4], ck_use = True,
     ck_controlling = True, ck_priority = 0x6e0001ff, ck_tie = 7, ck_identifier = [49, 58, 50],
     ck_dialect = STUN_USAGE_ICE_COMPATIBILITY_RFC5245, ck_source = sample_source, ck_control = control,
     ck_answer_tie = tie\<rparr>"

lemma sample_conn_agent_facts:
  "sent_ids sample_conn_agent = replicate 200 (free_slot\<lparr>saved_valid := False\<rparr>)"
  "compatibility sample_conn_agent = STUN_COMPATIBILITY_RFC5389"
  "known_attributes sample_conn_agent = STUN_ALL_KNOWN_ATTRIBUTES"
  "software_attribute sample_conn_agent = None" "usage_flags sample_conn_agent = 5"
  by (simp_all add: sample_conn_agent_def stun_agent_init_def blank_agent_def)

lemma sample_ready:
  "ready_to_check sample_env (replicate 16 9) (replicate 600 0) sample_validater (sample_check control tie)
     sample_conn_agent sample_conn_agent"
  by (simp add: ready_to_check_def conn_agent_def uses_cookie_def has_flag_def speaks_same_def
      sample_conn_agent_facts sample_check_def role_dialect_def unused_id_def sample_env_def
      sample_validater_def free_slot_def sample_source_def)

section \<open>A binding discovery\<close>

text \<open>An agent with one slot, the response to its request, and the run that receives it.\<close>

definition bind_agent0 :: stun_agent where
  "bind_agent0 = blank_agent\<lparr>sent_ids := [free_slot]\<rparr>"

abbreviation bind_agent1 :: stun_agent where
  "bind_agent1 \<equiv> stun_agent_init bind_agent0 STUN_ALL_KNOWN_ATTRIBUTES STUN_COMPATIBILITY_RFC3489 0"

definition bind_agent2 :: stun_agent where
  "bind_agent2 = bind_agent0\<lparr>known_attributes := STUN_ALL_KNOWN_ATTRIBUTES,
     compatibility := STUN_COMPATIBILITY_RFC3489, usage_flags := 0, software_attribute := None,
     sent_ids := [free_slot\<lparr>saved_id := replicate 16 9, saved_method := STUN_BINDING,
       saved_valid := True\<rparr>]\<rparr>"

definition bind_answer :: bytes where
  "bind_answer = [0x01, 0x01, 0x00, 0x0c] @ replicate 16 9 @
     [0x00, 0x01, 0x00, 0x08, 0, 1, 0x30, 0x39, 127, 0, 0, 1]"

definition sample_event :: "bytes option \<Rightarrow> int \<Rightarrow> bind_event" where
  "sample_event p sec = \<lparr>ev_polled = (if p = None then 0 else 1), ev_clock = \<lparr>tv_sec = sec, tv_usec = 0\<rparr>,
     ev_sent = 20, ev_packet = p, ev_socket = 4, ev_restart = \<lparr>tv_sec = sec, tv_usec = 0\<rparr>\<rparr>"

definition sample_transport :: stun_transport where
  "sample_transport = \<lparr>tr_fd = -1, tr_own_fd = -1, tr_dst = None, tr_dstlen = 0\<rparr>"

lemma sample_bind_init:
  "20 \<le> n \<Longrightarrow> stun_message_init (fresh_message a sample_empty (replicate 20 0) n) STUN_REQUEST STUN_BINDING
     (replicate 16 9) = Some (True, fresh_message a sample_empty ([0, 1, 0, 0] @ replicate 16 9) n)"
  by (simp add: stun_message_init_def fresh_message_def stun_set_type_def wrn_put wr_put put_def rdn_def
      type_byte0_def type_byte1_def eval_nat_numeral)

lemma sample_bind_finish:
  "stun_agent_finish_message sample_env bind_agent1
     (fresh_message bind_agent1 sample_empty ([0, 1, 0, 0] @ replicate 16 9) n) None =
   Some (20, fresh_message bind_agent1 sample_empty ([0, 1, 0, 0] @ replicate 16 9) n, bind_agent2)"
  by code_simp

lemma sample_bind_create:
  "20 \<le> n \<Longrightarrow> stun_usage_bind_create sample_env (replicate 16 9) bind_agent1 sample_empty (replicate 20 0) n =
     Some (20, fresh_message bind_agent1 sample_empty ([0, 1, 0, 0] @ replicate 16 9) n, bind_agent2)"
  using sample_bind_finish [of n]
  by (simp add: stun_usage_bind_create_def stun_agent_init_request_def sample_bind_init write_cookie_def
      add_software_def uses_cookie_def stun_agent_init_def)

lemma sample_bind_validated:
  "stun_agent_validate sample_env bind_agent2 sample_empty bind_answer 32 None =
     Some (STUN_VALIDATION_SUCCESS, received_message bind_agent2 sample_empty bind_answer 32,
       release_saved bind_agent2 (Some 0))"
  by code_simp

lemma sample_bind_processed:
  "stun_usage_bind_process (received_message bind_agent2 sample_empty bind_answer 32) 128 (Some 128) =
     Some (STUN_USAGE_BIND_RETURN_SUCCESS, (Some sample_source, 16), Some (None, 128))"
  by code_simp

lemma sample_run:
  "\<exists>s. stun_usage_bind_run sample_env (replicate 16 9) bind_agent0 sample_empty (replicate 20 0)
     sample_transport sample_source 16 128 3 20 \<lparr>tv_sec = 0, tv_usec = 0\<rparr> [sample_event (Some bind_answer) 0] =
       Some (Some STUN_USAGE_BIND_RETURN_SUCCESS, s) \<and> bs_mapped s = Some sample_source"
proof -
  have "take 65552 bind_answer = bind_answer" "length bind_answer = 32" by (simp_all add: bind_answer_def)
  then show ?thesis
    by (simp add: stun_usage_bind_run_def sample_bind_create stun_trans_create_def stun_trans_init_def Let_def
        bind_round_def sample_event_def stun_trans_poll_def bind_receive_def bind_packet_def bind_started_def
        stun_trans_send_def sample_bind_validated sample_bind_processed)
qed

end
