(* ===== verification/Ice_Samples.thy ===== *)
theory Ice_Samples
  imports Ice_Delivery Usage_Samples
begin

text \<open>
  Two agents with one stream of one component each, on which the theorems about the ICE agent are used:
  \<open>ex_one\<close> is controlling and has a pair that is in order, \<open>ex_other\<close> is the other side.
\<close>

text \<open>\<open>g_slist_insert_sorted\<close>: before the first element that the comparison does not put first.\<close>

fun sample_insert :: "(check_pair \<Rightarrow> check_pair \<Rightarrow> int) \<Rightarrow> check_pair list \<Rightarrow> check_pair \<Rightarrow> check_pair list" where
  "sample_insert compare [] p = [p]"
| "sample_insert compare (q # qs) p = (if compare p q > 0 then q # sample_insert compare qs p else p # q # qs)"

lemma sample_insert_mset: "mset (sample_insert compare ps p) = add_mset p (mset ps)"
  by (induction compare ps p rule: sample_insert.induct) auto

lemma sample_insert_sorted:
  assumes "comparison cmp"
  shows "sorted_wrt (\<lambda>x y. cmp x y \<le> 0) ps \<Longrightarrow> sorted_wrt (\<lambda>x y. cmp x y \<le> 0) (sample_insert cmp ps p)"
proof (induction ps)
  case (Cons q qs)
  have s: "set (sample_insert cmp qs p) = insert p (set qs)"
    by (metis sample_insert_mset set_mset_add_mset_insert set_mset_mset)
  have t: "cmp p q \<le> 0 \<Longrightarrow> x \<in> set qs \<Longrightarrow> cmp p x \<le> 0" for x
    using assms Cons.prems by (auto simp: comparison_def dest: transpD)
  have "0 < cmp p q \<Longrightarrow> cmp q p \<le> 0" using assms by (metis comparison_def less_imp_le)
  with s t Cons show ?case by auto
qed simp

definition ex_env :: ice_env where
  "ex_env = \<lparr>env_stun = sample_env, env_transid = (\<lambda>i. replicate 15 9 @ [of_nat i]),
     env_time = (\<lambda>i. \<lparr>tv_sec = int i, tv_usec = 0\<rparr>),
     env_time_add = (\<lambda>t d. \<lparr>tv_sec = tv_sec t + d div 1000000, tv_usec = tv_usec t + d mod 1000000\<rparr>),
     env_insert_sorted = sample_insert, env_decode = id, env_encode = id, env_connect = (\<lambda>k to. None),
     env_socket = (\<lambda>n. 100 + n), env_random = (\<lambda>n. (replicate 16 33, replicate 16 34)),
     env_message = sample_empty, env_agent = blank_agent, env_buffer = (\<lambda>n. replicate n 0), env_lifetime = 0\<rparr>"

lemma ex_env_ok: "inserts ex_env" "good_env ex_env"
  by (simp_all add: inserts_def good_env_def ex_env_def sample_insert_mset sample_insert_sorted sample_env_def)

section \<open>Candidates and pairs\<close>

definition ex_address :: "nat \<Rightarrow> sockaddr" where
  "ex_address n = AF_INET \<lparr>sin_port = of_nat (1000 + n), sin_addr = of_nat (n + 7)\<rparr>"

definition ex_candidate :: "nat \<Rightarrow> u32 \<Rightarrow> candidate" where
  "ex_candidate n prio = nice_candidate.extend ((nice_candidate_new NICE_CANDIDATE_TYPE_HOST)
     \<lparr>addr := ex_address n, base_addr := ex_address n, priority := prio, stream_id := 1, component_id := 1,
      foundation := store_cstr 33 [of_nat (48 + n)], sockptr := Some 0\<rparr>) \<lparr>cand_ref = n\<rparr>"

definition ex_pair :: "nat \<Rightarrow> check_state \<Rightarrow> check_pair" where
  "ex_pair n st = \<lparr>pair_ref = n, pair_stream = 1, pair_component = 1, pair_local = ex_candidate 3 200,
     pair_remote = ex_candidate 2 100, pair_sock = Some 0,
     pair_foundation = join_foundations (foundation (ex_candidate 3 200)) (foundation (ex_candidate 2 100)),
     pair_state = st, pair_nominated = False, pair_controlling = True, pair_timer_restarted = False,
     pair_priority = nice_candidate_pair_priority 200 100,
     pair_next_tick = \<lparr>tv_sec = 0, tv_usec = 0\<rparr>, pair_timer = no_timer, pair_message = None\<rparr>"

section \<open>Agents\<close>

definition ex_component :: "candidate list \<Rightarrow> candidate list \<Rightarrow> ice_component" where
  "ex_component ls rs = \<lparr>comp_id = 1, comp_state = NICE_COMPONENT_STATE_CONNECTING, comp_local = ls,
     comp_remote = rs, comp_incoming = [],
     comp_selected = \<lparr>sel_local = None, sel_remote = None, sel_priority = 0, sel_tick = False,
       sel_timer = no_timer, sel_message = None\<rparr>,
     comp_restart = None, comp_turn = None, comp_agent = sample_conn_agent, comp_sockets = [0]\<rparr>"

definition ex_stream :: "ice_component \<Rightarrow> check_pair list \<Rightarrow> bytes \<Rightarrow> bytes \<Rightarrow> ice_stream" where
  "ex_stream c ps own other = \<lparr>strm_id = 1, strm_n_components = 1, strm_binding_received = False,
     strm_gathering = False, strm_components = [c], strm_checks = ps, strm_local_ufrag = own,
     strm_local_password = own @ own, strm_remote_ufrag = other, strm_remote_password = other @ other\<rparr>"

definition ex_socket :: nice_socket where
  "ex_socket = \<lparr>sock_type = NICE_SOCKET_TYPE_UDP_BSD, sock_addr = ex_address 1, sock_fileno = True,
     sock_reliable = False, sock_ms_realm = [], sock_ms_connection = None\<rparr>"

definition ex_agent :: "nice_compat \<Rightarrow> bool \<Rightarrow> ice_stream list \<Rightarrow> nice_agent" where
  "ex_agent dialect controlling ss = \<lparr>ag_compat = dialect, ag_controlling = controlling, ag_timer_ta = 20,
     ag_max_checks = 100, ag_streams = ss, ag_next_candidate_id = 1, ag_discovery = [], ag_unsched = 0,
     ag_refresh = [], ag_discovery_timer = False, ag_check_timer = True, ag_keepalive_timer = False,
     ag_tie_breaker = 5, ag_media_after_tick = False, ag_software = None, ag_reliable = False,
     ag_keepalive_conncheck = False, ag_use_ice_tcp = False, ag_stun_server = None,
     ag_sockets = (\<lambda>k. ex_socket), ag_turns = (\<lambda>t. \<lparr>ts_server = ex_address 9, ts_username = [], ts_password = [],
       ts_udp = True\<rparr>), ag_next_ref = 10, ag_draws = 0, ag_clock = 0, ag_events = []\<rparr>"

abbreviation ex_one :: "check_state \<Rightarrow> nice_agent" where
  "ex_one st \<equiv> ex_agent NICE_COMPATIBILITY_RFC5245 True
     [ex_stream (ex_component [ex_candidate 3 200] [ex_candidate 2 100]) [ex_pair 3 st] [65, 66] [67, 68]]"

abbreviation ex_other :: nice_agent where
  "ex_other \<equiv> ex_agent NICE_COMPATIBILITY_RFC5245 False
     [ex_stream (ex_component [ex_candidate 2 100] [ex_candidate 3 200]) [] [67, 68] [65, 66]]"

lemmas ex_defs = ex_agent_def ex_stream_def ex_component_def ex_pair_def ex_candidate_def
  nice_candidate.defs nice_candidate_new_def ex_socket_def

lemma ex_one_ok: "agent_ok (ex_one st)" "agent_ok ex_other"
  by (simp_all add: agent_ok_def stream_ok_def ex_defs)

lemma ex_one_found:
  "agent_find_stream (ex_one st) 1 =
     Some (ex_stream (ex_component [ex_candidate 3 200] [ex_candidate 2 100]) [ex_pair 3 st] [65, 66] [67, 68])"
  "agent_find_component (ex_one st) 1 1 =
     Some (ex_stream (ex_component [ex_candidate 3 200] [ex_candidate 2 100]) [ex_pair 3 st] [65, 66] [67, 68],
       ex_component [ex_candidate 3 200] [ex_candidate 2 100])"
  "find_pair (ex_one st) 1 3 = Some (ex_pair 3 st)"
  by (simp_all add: agent_find_component_def agent_find_stream_def stream_find_component_by_id_def find_pair_def
      ex_agent_def ex_stream_def ex_component_def ex_pair_def)

lemma ex_conn_agent: "conn_agent sample_conn_agent" "speaks_same sample_conn_agent sample_conn_agent"
  using sample_ready by (simp_all add: ready_to_check_def)

text \<open>Component 1 is connected over a nominated pair; another pair is in state \<open>st\<close>.\<close>

definition ex_nominated :: "check_state \<Rightarrow> nice_agent" where
  "ex_nominated st = ex_agent NICE_COMPATIBILITY_RFC5245 True
     [ex_stream ((ex_component [ex_candidate 3 200] [ex_candidate 2 100])\<lparr>comp_state := NICE_COMPONENT_STATE_CONNECTED\<rparr>)
       [(ex_pair 3 NICE_CHECK_SUCCEEDED)\<lparr>pair_nominated := True\<rparr>, ex_pair 4 st] [65, 66] [67, 68]]"

lemma ex_nominated_ready:
  "map_option (\<lambda>b. map_option (\<lambda>(s, c). comp_state c) (agent_find_component b 1 1))
     (priv_update_check_list_state_for_ready 1 1 (ex_nominated NICE_CHECK_WAITING)) =
   Some (Some NICE_COMPONENT_STATE_READY)"
  by code_simp

text \<open>A request that is in flight, and a response to it.\<close>

definition ex_waiting :: nice_agent where
  "ex_waiting = ex_agent NICE_COMPATIBILITY_RFC5245 True
     [ex_stream (ex_component [ex_candidate 3 200] [ex_candidate 2 100])
       [(ex_pair 3 NICE_CHECK_IN_PROGRESS)\<lparr>pair_message := Some plain_request\<rparr>] [65, 66] [67, 68]]"

definition ex_response :: stun_message where
  "ex_response = plain_request\<lparr>buffer := [1, 1, 0, 12] @ drop 4 sample_header @
     [0, 0x20, 0, 8, 0, 1, 0x21, 0x13, 0x21, 0x12, 0xa4, 0x43], buffer_len := 32\<rparr>"

end
