(* ===== verification/Sock_Base.thy ===== *)
theory Sock_Base
  imports Nice_Address
begin

text \<open>
  Messages and send queues of the socket layers, from \<open>socket/socket.c\<close> and the message helpers
  of \<open>agent/agent.c\<close>.

  A \<open>NiceOutputMessage\<close> is the list of its buffers: the two ways the C code has of delimiting
  the array, a count or a null entry, both denote that list. A \<open>NiceInputMessage\<close> is the list
  of the capacities of its buffers, and what a call stores in it is the bytes received, laid
  out from the first buffer on, with the sender, when the call sets it. A \<open>NiceSocket\<close> is the record of the operations
  its function pointers give, on a state of the implementation's type.

  \<open>malloc n\<close> is the block \<open>g_malloc (n)\<close> returns, with the contents it happens to have; a result
  \<open>None\<close> is an access outside an object or a failed assertion.
\<close>

section \<open>Messages\<close>

type_synonym output_message = "bytes list"
type_synonym received = "(bytes \<times> sockaddr option) list"

fun output_message_get_size_loop :: "output_message \<Rightarrow> nat \<Rightarrow> nat" where
  "output_message_get_size_loop [] message_len = message_len"
| "output_message_get_size_loop (b # bs) message_len =
     output_message_get_size_loop bs (message_len + length b)"

definition output_message_get_size :: "output_message \<Rightarrow> nat" where
  "output_message_get_size message = output_message_get_size_loop message 0"

definition input_message_get_size :: "nat list \<Rightarrow> nat" where
  "input_message_get_size sizes = foldl (+) 0 sizes"

text \<open>The copy loop of \<open>compact_message\<close>, on the block and the offset reached.\<close>

fun compact_loop :: "output_message \<Rightarrow> bytes \<Rightarrow> nat \<Rightarrow> bytes option" where
  "compact_loop [] buf offset = Some buf"
| "compact_loop (b # bs) buf offset = (
     let len = min (length buf - offset) (length b) in do {
     src \<leftarrow> rdn b 0 len;
     buf \<leftarrow> wrn buf offset src;
     compact_loop bs buf (offset + len) })"

definition compact_message :: "(nat \<Rightarrow> bytes) \<Rightarrow> output_message \<Rightarrow> nat \<Rightarrow> bytes option" where
  "compact_message malloc message buffer_length = compact_loop message (malloc buffer_length) 0"

definition compact_output_message ::
  "(nat \<Rightarrow> bytes) \<Rightarrow> output_message \<Rightarrow> (bytes \<times> nat) option" where
  "compact_output_message malloc message = (
     let buffer_length = output_message_get_size message in
     map_option (\<lambda>b. (b, buffer_length)) (compact_message malloc message buffer_length))"

text \<open>
  The buffers of an input message filled from a block: the bytes stored, whose number is the
  message's length. What does not fit is dropped.
\<close>

fun memcpy_buffer_loop :: "nat list \<Rightarrow> bytes \<Rightarrow> bytes \<Rightarrow> bytes" where
  "memcpy_buffer_loop [] buf stored = stored"
| "memcpy_buffer_loop (sz # sizes) buf stored =
     (if buf = [] then stored
      else let len = min sz (length buf)
           in memcpy_buffer_loop sizes (drop len buf) (stored @ take len buf))"

definition memcpy_buffer_to_input_message :: "nat list \<Rightarrow> bytes \<Rightarrow> bytes" where
  "memcpy_buffer_to_input_message sizes buf = memcpy_buffer_loop sizes buf []"

section \<open>Sockets\<close>

record 'b socket_ops =
  op_recv_messages :: "'b \<Rightarrow> nat list list \<Rightarrow> (int \<times> received \<times> 'b) option"
  op_send_messages :: "'b \<Rightarrow> sockaddr option \<Rightarrow> output_message list \<Rightarrow> (int \<times> 'b) option"
  op_send_messages_reliable ::
    "'b \<Rightarrow> sockaddr option \<Rightarrow> output_message list \<Rightarrow> (int \<times> 'b) option"
  op_is_reliable :: "'b \<Rightarrow> bool"
  op_can_send :: "('b \<Rightarrow> sockaddr option \<Rightarrow> bool) option"

definition nice_socket_recv_messages ::
  "'b socket_ops \<Rightarrow> 'b \<Rightarrow> nat list list \<Rightarrow> (int \<times> received \<times> 'b) option" where
  "nice_socket_recv_messages ops sock msgs = op_recv_messages ops sock msgs"

definition nice_socket_send_messages ::
  "'b socket_ops \<Rightarrow> 'b \<Rightarrow> sockaddr option \<Rightarrow> output_message list \<Rightarrow> (int \<times> 'b) option" where
  "nice_socket_send_messages ops sock to msgs = op_send_messages ops sock to msgs"

definition nice_socket_send_messages_reliable ::
  "'b socket_ops \<Rightarrow> 'b \<Rightarrow> sockaddr option \<Rightarrow> output_message list \<Rightarrow> (int \<times> 'b) option" where
  "nice_socket_send_messages_reliable ops sock to msgs =
     op_send_messages_reliable ops sock to msgs"

text \<open>
  The received bytes stand for the caller's buffer; the integer is the length the C function
  returns.
\<close>

definition nice_socket_recv ::
  "'b socket_ops \<Rightarrow> 'b \<Rightarrow> nat \<Rightarrow> (int \<times> received \<times> 'b) option" where
  "nice_socket_recv ops sock len = do {
     (ret, msgs, sock) \<leftarrow> op_recv_messages ops sock [[len]];
     Some (if ret = 1 then case msgs of m # _ \<Rightarrow> int (length (fst m)) | [] \<Rightarrow> 0 else ret,
       msgs, sock) }"

definition nice_socket_send ::
  "'b socket_ops \<Rightarrow> 'b \<Rightarrow> sockaddr option \<Rightarrow> bytes \<Rightarrow> (int \<times> 'b) option" where
  "nice_socket_send ops sock to buf = do {
     (ret, sock) \<leftarrow> op_send_messages ops sock to [[buf]];
     Some (if ret = 1 then int (length buf) else ret, sock) }"

definition nice_socket_send_reliable ::
  "'b socket_ops \<Rightarrow> 'b \<Rightarrow> sockaddr option \<Rightarrow> bytes \<Rightarrow> (int \<times> 'b) option" where
  "nice_socket_send_reliable ops sock to buf = do {
     (ret, sock) \<leftarrow> op_send_messages_reliable ops sock to [[buf]];
     Some (if ret = 1 then int (length buf) else ret, sock) }"

definition nice_socket_is_reliable :: "'b socket_ops \<Rightarrow> 'b \<Rightarrow> bool" where
  "nice_socket_is_reliable ops sock = op_is_reliable ops sock"

definition nice_socket_can_send :: "'b socket_ops \<Rightarrow> 'b \<Rightarrow> sockaddr option \<Rightarrow> bool" where
  "nice_socket_can_send ops sock addr =
     (case op_can_send ops of None \<Rightarrow> True | Some f \<Rightarrow> f sock addr)"

section \<open>Send queues\<close>

record queued_send =
  qs_buf :: bytes
  qs_to :: sockaddr

type_synonym send_queue = "queued_send list"

fun queue_copy_loop ::
  "output_message \<Rightarrow> bytes \<Rightarrow> nat \<Rightarrow> nat \<Rightarrow> (bytes \<times> nat) option" where
  "queue_copy_loop [] buf offset message_len_remaining = Some (buf, offset)"
| "queue_copy_loop (b # bs) buf offset message_len_remaining = (
     let len = min (length b) message_len_remaining in do {
     src \<leftarrow> rdn b 0 len;
     buf \<leftarrow> wrn buf offset src;
     queue_copy_loop bs buf (offset + len) (message_len_remaining - len) })"

fun nice_socket_queue_send ::
  "(nat \<Rightarrow> bytes) \<Rightarrow> send_queue \<Rightarrow> sockaddr option \<Rightarrow> output_message list \<Rightarrow> send_queue option"
where
  "nice_socket_queue_send malloc send_queue to [] = Some send_queue"
| "nice_socket_queue_send malloc send_queue to (m # ms) = (
     let message_len_remaining = output_message_get_size m in
     if message_len_remaining = 0 then nice_socket_queue_send malloc send_queue to ms
     else do {
       (buf, offset) \<leftarrow> queue_copy_loop m (malloc message_len_remaining) 0 message_len_remaining;
       if offset = length buf
       then nice_socket_queue_send malloc
         (send_queue @ [\<lparr>qs_buf = buf, qs_to = (case to of None \<Rightarrow> AF_OTHER 0 | Some a \<Rightarrow> a)\<rparr>])
         to ms
       else None })"

text \<open>
  The copy loop of the queueing with an offset. After a buf has been copied from the
  middle on, what is left of \<open>message_offset\<close> is kept when it is at least the length copied.
\<close>

fun queue_skip_loop :: "output_message \<Rightarrow> bytes \<Rightarrow> nat \<Rightarrow> nat \<Rightarrow> bytes option" where
  "queue_skip_loop [] buf offset message_offset = Some buf"
| "queue_skip_loop (b # bs) buf offset message_offset =
     (if length b \<le> message_offset
      then queue_skip_loop bs buf offset (message_offset - length b)
      else let len = min (length buf - offset) (length b - message_offset) in do {
        src \<leftarrow> rdn b message_offset len;
        buf \<leftarrow> wrn buf offset src;
        queue_skip_loop bs buf (offset + len)
          (if message_offset \<ge> len then message_offset - len else 0) })"

text \<open>
  \<open>watch\<close>: the arguments from which a write source is made are all given. The flag of the
  state says that one is attached.
\<close>

definition nice_socket_queue_send_with_callback ::
  "(nat \<Rightarrow> bytes) \<Rightarrow> send_queue \<Rightarrow> output_message \<Rightarrow> nat \<Rightarrow> nat \<Rightarrow> bool \<Rightarrow> bool \<Rightarrow> bool \<Rightarrow>
     (send_queue \<times> bool) option" where
  "nice_socket_queue_send_with_callback malloc send_queue message message_offset message_len
      head watch io_source =
     (if message_offset \<ge> message_len then Some (send_queue, io_source)
      else do {
        buf \<leftarrow> queue_skip_loop message (malloc (message_len - message_offset)) 0 message_offset;
        let tbs = \<lparr>qs_buf = buf, qs_to = AF_OTHER 0\<rparr>;
        Some (if head then tbs # send_queue else send_queue @ [tbs], io_source \<or> watch) })"

fun nice_socket_flush_send_queue ::
  "'b socket_ops \<Rightarrow> 'b \<Rightarrow> send_queue \<Rightarrow> 'b option" where
  "nice_socket_flush_send_queue ops base [] = Some base"
| "nice_socket_flush_send_queue ops base (tbs # send_queue) = (
     let to = (if nice_address_is_valid (qs_to tbs) then Some (qs_to tbs) else None) in do {
     (ret, base) \<leftarrow> nice_socket_send_reliable ops base to (qs_buf tbs);
     nice_socket_flush_send_queue ops base send_queue })"

text \<open>What \<open>g_socket_send_message\<close> and \<open>g_socket_receive_message\<close> return.\<close>

datatype gsend_result = Send_done nat | Send_would_block | Send_failed | Send_error
datatype grecv_result = Received bytes | Recv_would_block | Recv_error

fun nice_socket_flush_send_queue_to_socket ::
  "(nat \<Rightarrow> bytes) \<Rightarrow> ('g \<Rightarrow> output_message \<Rightarrow> gsend_result \<times> 'g) \<Rightarrow> 'g \<Rightarrow> send_queue \<Rightarrow>
     (bool \<times> 'g \<times> send_queue) option" where
  "nice_socket_flush_send_queue_to_socket malloc gsend g [] = Some (True, g, [])"
| "nice_socket_flush_send_queue_to_socket malloc gsend g (tbs # send_queue) =
     (case gsend g [qs_buf tbs] of
        (Send_would_block, g) \<Rightarrow> do {
          (send_queue, io) \<leftarrow> nice_socket_queue_send_with_callback malloc send_queue
             [qs_buf tbs] 0 (length (qs_buf tbs)) True False False;
          Some (False, g, send_queue) }
      | (Send_done ret, g) \<Rightarrow>
          if ret < length (qs_buf tbs) then do {
            (send_queue, io) \<leftarrow> nice_socket_queue_send_with_callback malloc send_queue
               [drop ret (qs_buf tbs)] 0 (length (qs_buf tbs) - ret) True False False;
            Some (False, g, send_queue) }
          else nice_socket_flush_send_queue_to_socket malloc gsend g send_queue
      | (_, g) \<Rightarrow> nice_socket_flush_send_queue_to_socket malloc gsend g send_queue)"

section \<open>Sizes and copies\<close>

named_theorems sock_simps \<open>what the loops over buffers compute\<close>

lemma get_size_loop: "output_message_get_size_loop bs n = n + length (concat bs)"
  by (induction bs arbitrary: n) simp_all

lemma output_message_get_size_eq [sock_simps]: "output_message_get_size m = length (concat m)"
  by (simp add: output_message_get_size_def get_size_loop)

lemma memcpy_buffer_loop_eq:
  "memcpy_buffer_loop sizes buf stored = stored @ take (sum_list sizes) buf"
  by (induction sizes arbitrary: buf stored) (auto simp: Let_def min_def take_add)

lemma memcpy_buffer_eq [sock_simps]:
  "memcpy_buffer_to_input_message sizes buf = take (sum_list sizes) buf"
  by (simp add: memcpy_buffer_to_input_message_def memcpy_buffer_loop_eq)

lemma wrn_middle [sock_simps]:
  "length b \<le> length rest \<Longrightarrow>
     wrn (pre @ rest) (length pre) b = Some ((pre @ b) @ drop (length b) rest)"
  by (auto simp: wrn_def)

lemma rdn_all [sock_simps]: "n = length b \<Longrightarrow> rdn b 0 n = Some b"
  by (auto simp: rdn_def)

lemma compact_loop_eq:
  "length (concat bs) = length rest \<Longrightarrow>
     compact_loop bs (pre @ rest) (length pre) = Some (pre @ concat bs)"
proof (induction bs arbitrary: pre rest)
  case (Cons b bs)
  then have m: "min (length rest) (length b) = length b" by auto
  have "compact_loop bs ((pre @ b) @ drop (length b) rest) (length (pre @ b)) =
    Some ((pre @ b) @ concat bs)"
    using Cons.prems by (intro Cons.IH) auto
  then show ?case using Cons.prems by (simp add: m sock_simps)
qed simp

text \<open>Compacting a message over its whole length gives its bytes, whatever the block held.\<close>

lemma compact_message_concat:
  assumes "\<forall>n. length (malloc n) = n"
  shows "compact_output_message malloc m = Some (concat m, length (concat m))"
  using assms compact_loop_eq [where pre = "[]" and bs = m and rest = "malloc (length (concat m))"]
  by (simp add: compact_output_message_def compact_message_def sock_simps Let_def)

lemma queue_copy_loop_eq:
  "length (concat bs) = length rest \<Longrightarrow>
     queue_copy_loop bs (pre @ rest) (length pre) (length rest) =
     Some (pre @ concat bs, length pre + length rest)"
proof (induction bs arbitrary: pre rest)
  case (Cons b bs)
  then have m: "min (length b) (length rest) = length b" by auto
  have "queue_copy_loop bs ((pre @ b) @ drop (length b) rest) (length (pre @ b))
      (length (drop (length b) rest)) =
    Some ((pre @ b) @ concat bs, length (pre @ b) + length (drop (length b) rest))"
    using Cons.prems by (intro Cons.IH) auto
  then show ?case using Cons.prems by (simp add: m sock_simps)
qed simp

text \<open>What a call of \<open>nice_socket_queue_send\<close> adds to the queue.\<close>

definition queued_messages :: "sockaddr option \<Rightarrow> output_message list \<Rightarrow> send_queue" where
  "queued_messages to ms =
     map (\<lambda>m. \<lparr>qs_buf = concat m, qs_to = (case to of None \<Rightarrow> AF_OTHER 0 | Some a \<Rightarrow> a)\<rparr>)
       (filter (\<lambda>m. concat m \<noteq> []) ms)"

lemma queued_messages_bytes:
  "concat (map qs_buf (queued_messages to ms)) = concat (map concat ms)"
  by (induction ms) (auto simp: queued_messages_def)

lemma queue_send_eq:
  assumes "\<forall>n. length (malloc n) = n"
  shows "nice_socket_queue_send malloc q to ms = Some (q @ queued_messages to ms)"
proof (induction ms arbitrary: q)
  case (Cons m ms)
  have "queue_copy_loop m (malloc (length (concat m))) 0 (length (concat m)) =
    Some (concat m, length (concat m))"
    using queue_copy_loop_eq [where pre = "[]" and bs = m and rest = "malloc (length (concat m))"]
      assms by simp
  then show ?case
    by (auto simp: sock_simps Let_def Cons.IH queued_messages_def simp del: length_concat)
qed (simp add: queued_messages_def)

lemma queue_skip_loop_eq:
  "length (concat bs) = length rest \<Longrightarrow>
     queue_skip_loop bs (pre @ rest) (length pre) 0 = Some (pre @ concat bs)"
proof (induction bs arbitrary: pre rest)
  case (Cons b bs)
  then have m: "min (length rest) (length b) = length b" by auto
  have "queue_skip_loop bs ((pre @ b) @ drop (length b) rest) (length (pre @ b)) 0 =
    Some ((pre @ b) @ concat bs)"
    using Cons.prems by (intro Cons.IH) auto
  then show ?case using Cons.prems by (cases "b = []") (simp_all add: m sock_simps)
qed simp

text \<open>
  With an offset, the bytes from the offset on are queued when the offset falls on the end of
  a buffer, in the last buffer, or in the first half of a buffer.
\<close>

fun clean_offset :: "output_message \<Rightarrow> nat \<Rightarrow> bool" where
  "clean_offset [] n = True"
| "clean_offset (b # bs) n =
     (if length b \<le> n then clean_offset bs (n - length b)
      else concat bs = [] \<or> n = 0 \<or> n + n < length b)"

lemma queue_skip_empty: "concat bs = [] \<Longrightarrow> queue_skip_loop bs buf offset n = Some buf"
  by (induction bs arbitrary: n) auto

lemma queue_skip_loop_offset:
  assumes "clean_offset bs n" and "length buf + n = length (concat bs)" and "buf \<noteq> []"
  shows "queue_skip_loop bs buf 0 n = Some (drop n (concat bs))"
  using assms
proof (induction bs arbitrary: n)
  case (Cons b bs)
  show ?case
  proof (cases "length b \<le> n")
    case True
    then show ?thesis using Cons by simp
  next
    case False
    let ?len = "min (length buf) (length b - n)"
    have len: "?len = length b - n" using Cons.prems(2) False by auto
    have r: "rdn b n (length b - n) = Some (drop n b)" using False by (simp add: rdn_def)
    have w: "wrn buf 0 (drop n b) = Some (drop n b @ drop (length b - n) buf)"
      using Cons.prems(2) False by (simp add: wrn_def)
    consider "concat bs = []" | "\<not> n \<ge> length b - n" | "concat bs \<noteq> []" "n = 0" "b \<noteq> []"
      using Cons.prems(1) False by force
    then show ?thesis
    proof cases
      case 1
      then show ?thesis using False Cons.prems(2)
        by (simp add: len r w Let_def queue_skip_empty del: concat_eq_Nil_conv)
    next
      case 2
      have "queue_skip_loop bs (drop n b @ drop (length b - n) buf) (length (drop n b)) 0 =
        Some (drop n b @ concat bs)"
        using Cons.prems(2) False by (intro queue_skip_loop_eq) auto
      then show ?thesis using False 2 by (simp add: len r w Let_def)
    next
      case 3
      have "queue_skip_loop bs (drop n b @ drop (length b - n) buf) (length (drop n b)) 0 =
        Some (drop n b @ concat bs)"
        using Cons.prems(2) False by (intro queue_skip_loop_eq) auto
      then show ?thesis using False 3 r w len by (simp add: Let_def)
    qed
  qed
qed simp

lemma clean_offset_zero: "clean_offset bs 0"
  by (induction bs) auto

lemma clean_offset_single: "clean_offset [b] n"
  by simp

lemma queue_send_with_callback_eq:
  assumes "\<forall>n. length (malloc n) = n" and "len = length (concat m)" and "clean_offset m n"
  shows "nice_socket_queue_send_with_callback malloc q m n len head watch io =
    Some (if n < len then (let tbs = \<lparr>qs_buf = drop n (concat m), qs_to = AF_OTHER 0\<rparr> in
            if head then tbs # q else q @ [tbs], io \<or> watch)
          else (q, io))"
proof (cases "n < len")
  case True
  have "queue_skip_loop m (malloc (len - n)) 0 n = Some (drop n (concat m))"
  proof (intro queue_skip_loop_offset assms(3))
    show l: "length (malloc (len - n)) + n = length (concat m)" using assms True by simp
    show "malloc (len - n) \<noteq> []" using assms True by (metis length_greater_0_conv zero_less_diff)
  qed
  then show ?thesis using True by (simp add: nice_socket_queue_send_with_callback_def Let_def)
qed (simp add: nice_socket_queue_send_with_callback_def)

text \<open>At any offset the copy stays inside the two blocks, and something is queued.\<close>

lemma queue_skip_loop_some:
  "offset \<le> length buf \<Longrightarrow>
     \<exists>buf'. queue_skip_loop bs buf offset n = Some buf' \<and> length buf' = length buf"
proof (induction bs arbitrary: buf offset n)
  case (Cons b bs)
  show ?case
  proof (cases "length b \<le> n")
    case False
    define len where "len = min (length buf - offset) (length b - n)"
    have r: "rdn b n len = Some (take len (drop n b))" using False by (simp add: rdn_def len_def)
    have w: "offset + length (take len (drop n b)) \<le> length buf" using Cons.prems by (simp add: len_def)
    then obtain buf1 where b1: "wrn buf offset (take len (drop n b)) = Some buf1" "length buf1 = length buf"
      using wrn_put length_put by blast
    have "offset + len \<le> length buf1" using Cons.prems b1(2) by (simp add: len_def)
    from Cons.IH [OF this] b1 show ?thesis using False by (simp add: r len_def [symmetric] Let_def)
  qed (use Cons in simp)
qed simp

lemma queue_send_with_callback_some:
  assumes "\<forall>n. length (malloc n) = n"
  shows "\<exists>q' io'. nice_socket_queue_send_with_callback malloc q m n len head watch io = Some (q', io') \<and>
    ((\<forall>t \<in> set q. qs_buf t \<noteq> []) \<longrightarrow> (\<forall>t \<in> set q'. qs_buf t \<noteq> []))"
proof (cases "n < len")
  case True
  obtain buf where "queue_skip_loop m (malloc (len - n)) 0 n = Some buf" "length buf = len - n"
    using queue_skip_loop_some [of 0 "malloc (len - n)" m n] assms by auto
  moreover from this True have "buf \<noteq> []" by auto
  ultimately show ?thesis using True by (auto simp: nice_socket_queue_send_with_callback_def Let_def)
qed (simp add: nice_socket_queue_send_with_callback_def)

text \<open>Otherwise the copy goes wrong: the start of the next buffer is skipped.\<close>

lemma queue_skip_loses:
  "queue_skip_loop [[1, 2, 3], [4, 5, 6]] [0, 0, 0, 0] 0 2 = Some [3, 5, 6, 0]"
  by code_simp

section \<open>Flushing the queue\<close>

text \<open>
  What GIO documents of \<open>g_socket_send_message\<close> on a stream socket: it sends some first part of
  the message and returns its length, which may be less than that of the message, or it sends
  nothing and returns an error. \<open>out\<close> is the stream the kernel has taken; \<open>calls\<close> is the history of
  the calls with their results.
\<close>

type_synonym send_call = "output_message \<times> gsend_result"

definition gsend_appends ::
  "('g \<Rightarrow> output_message \<Rightarrow> gsend_result \<times> 'g) \<Rightarrow> ('g \<Rightarrow> bytes) \<Rightarrow> ('g \<Rightarrow> send_call list) \<Rightarrow> bool" where
  "gsend_appends gsend out calls \<longleftrightarrow> (\<forall>g m r g'. gsend g m = (r, g') \<longrightarrow>
     calls g' = calls g @ [(m, r)] \<and>
     (case r of Send_done n \<Rightarrow> n \<le> length (concat m) \<and> out g' = out g @ take n (concat m)
              | _ \<Rightarrow> out g' = out g))"

text \<open>
  A history without a fault: no call failed but for lack of room, and where the kernel stopped
  inside a message, it did so at an offset from which the code copies the rest as it is.
\<close>

definition harmless :: "send_call list \<Rightarrow> bool" where
  "harmless = list_all (\<lambda>(m, r). case r of Send_done n \<Rightarrow> clean_offset m n
     | Send_would_block \<Rightarrow> True | _ \<Rightarrow> False)"

lemma harmless_simps [simp]:
  "harmless []"
  "harmless (cs @ ds) \<longleftrightarrow> harmless cs \<and> harmless ds"
  "harmless [(m, Send_done n)] \<longleftrightarrow> clean_offset m n"
  "harmless [(m, Send_would_block)]"
  "\<not> harmless [(m, Send_failed)]"
  "\<not> harmless [(m, Send_error)]"
  by (simp_all add: harmless_def)

definition queue_bytes :: "send_queue \<Rightarrow> bytes" where
  "queue_bytes q = concat (map qs_buf q)"

lemma queue_bytes_simps [simp]:
  "queue_bytes [] = []"
  "queue_bytes (t # q) = qs_buf t @ queue_bytes q"
  "queue_bytes (q @ q') = queue_bytes q @ queue_bytes q'"
  by (simp_all add: queue_bytes_def)

text \<open>Entries are never empty, so an empty queue is one with no bytes left.\<close>

definition queue_ok :: "send_queue \<Rightarrow> bool" where
  "queue_ok q \<longleftrightarrow> (\<forall>t \<in> set q. qs_buf t \<noteq> [])"

lemma queue_ok_simps [simp]:
  "queue_ok []"
  "queue_ok (t # q) \<longleftrightarrow> qs_buf t \<noteq> [] \<and> queue_ok q"
  "queue_ok (q @ q') \<longleftrightarrow> queue_ok q \<and> queue_ok q'"
  by (auto simp: queue_ok_def)

lemma queue_ok_messages: "queue_ok (queued_messages to ms)"
  by (auto simp: queue_ok_def queued_messages_def)

text \<open>
  Flushing always returns, and it neither loses nor reorders a byte unless the kernel reports an
  error other than that the call would block.
\<close>

lemma flush_to_socket_fifo:
  assumes m: "\<forall>n. length (malloc n) = n" and law: "gsend_appends gsend out calls" and "queue_ok q"
  shows "\<exists>b g' q'. nice_socket_flush_send_queue_to_socket malloc gsend g q = Some (b, g', q') \<and>
    queue_ok q' \<and> (harmless (calls g') \<longrightarrow> harmless (calls g) \<and>
      out g' @ queue_bytes q' = out g @ queue_bytes q)"
  using assms(3)
proof (induction q arbitrary: g)
  case (Cons t q)
  obtain r g1 where s: "gsend g [qs_buf t] = (r, g1)" by (cases "gsend g [qs_buf t]")
  have c: "calls g1 = calls g @ [([qs_buf t], r)]"
    and l: "case r of Send_done n \<Rightarrow> n \<le> length (qs_buf t) \<and> out g1 = out g @ take n (qs_buf t)
                   | _ \<Rightarrow> out g1 = out g"
    using law [unfolded gsend_appends_def, rule_format, OF s] by (auto split: gsend_result.splits)
  note q1 = queue_send_with_callback_eq [OF m, of _ "[b]" 0 for b, simplified]
  obtain b g' q' where f: "nice_socket_flush_send_queue_to_socket malloc gsend g1 q = Some (b, g', q')"
    "queue_ok q'" "harmless (calls g') \<longrightarrow> harmless (calls g1) \<and>
      out g' @ queue_bytes q' = out g1 @ queue_bytes q"
    using Cons.IH [of g1] Cons.prems by auto
  show ?case
  proof (cases r)
    case (Send_done n)
    show ?thesis
    proof (cases "n < length (qs_buf t)")
      case True
      have "drop n (qs_buf t) \<noteq> []" using True by simp
      then show ?thesis using l c Send_done s True Cons.prems
        by (simp add: q1 Let_def) (metis append.assoc append_take_drop_id)
    next
      case False
      then show ?thesis using l c Send_done s f by auto
    qed
  next
    case Send_would_block
    then show ?thesis using l c s Cons.prems by (simp add: q1 Let_def exI [of _ False])
  next
    case Send_failed
    then show ?thesis using l c s f by auto
  next
    case Send_error
    then show ?thesis using l c s f by auto
  qed
qed (simp, rule exI, rule TrueI)

section \<open>The interfaces between the layers\<close>

text \<open>
  \<open>good\<close>: nothing has gone wrong on this socket so far. If that is so after a step, it was so before,
  and the step has added \<open>x\<close> to what has been sent, \<open>out\<close>.
\<close>

definition grows :: "('b \<Rightarrow> bool) \<Rightarrow> ('b \<Rightarrow> bytes) \<Rightarrow> 'b \<Rightarrow> 'b \<Rightarrow> bytes \<Rightarrow> bool" where
  "grows good out b b' x \<longleftrightarrow> (good b' \<longrightarrow> good b \<and> out b' = out b @ x)"

lemma grows_refl [simp]: "grows good out b b []"
  by (simp add: grows_def)

lemma grows_trans: "grows good out b b1 x \<Longrightarrow> grows good out b1 b2 y \<Longrightarrow> grows good out b b2 (x @ y)"
  by (simp add: grows_def)

lemma grows_trans_nil: "grows good out b b1 [] \<Longrightarrow> grows good out b1 b2 y \<Longrightarrow> grows good out b b2 y"
  by (simp add: grows_def)

text \<open>
  What a layer relies on when it sends: a reliable send always returns and, as long as nothing has
  gone wrong, takes every message, in order.
\<close>

locale reliable_socket =
  fixes ops :: "'b socket_ops" and alive :: "'b \<Rightarrow> bool" and good :: "'b \<Rightarrow> bool" and out :: "'b \<Rightarrow> bytes"
  assumes send_reliable: "alive b \<Longrightarrow> \<exists>r b'. op_send_messages_reliable ops b to ms = Some (r, b') \<and>
    alive b' \<and> grows good out b b' (concat (map concat ms)) \<and> (good b' \<longrightarrow> r = int (length ms))"
begin

lemma send_bytes:
  "alive b \<Longrightarrow> \<exists>r b'. nice_socket_send_reliable ops b to buf = Some (r, b') \<and> alive b' \<and>
     grows good out b b' buf"
  using send_reliable [of b to "[[buf]]"] by (force simp: nice_socket_send_reliable_def)

lemma flush_in_order:
  "alive b \<Longrightarrow> \<exists>b'. nice_socket_flush_send_queue ops b q = Some b' \<and> alive b' \<and>
     grows good out b b' (queue_bytes q)"
proof (induction q arbitrary: b)
  case (Cons t q)
  let ?to = "if nice_address_is_valid (qs_to t) then Some (qs_to t) else None"
  obtain r b1 where b1: "nice_socket_send_reliable ops b ?to (qs_buf t) = Some (r, b1)" "alive b1"
    "grows good out b b1 (qs_buf t)"
    using send_bytes [OF Cons.prems] by blast
  then show ?case using Cons.IH [OF b1(2)] by (auto simp: Let_def intro: grows_trans)
qed simp

end

text \<open>
  What a layer relies on when it reads with one buffer of \<open>n\<close> bytes: it gets a non-empty
  first part of the bytes still to come, \<open>rest\<close>, or nothing for now, or an error.
\<close>

locale byte_source =
  fixes ops :: "'b socket_ops" and alive :: "'b \<Rightarrow> bool" and rest :: "'b \<Rightarrow> bytes"
  assumes recv_part: "alive b \<Longrightarrow> 0 < n \<Longrightarrow>
    \<exists>r got b'. op_recv_messages ops b [[n]] = Some (r, got, b') \<and> alive b' \<and>
    ((\<exists>d src. r = 1 \<and> got = [(d, src)] \<and> d \<noteq> [] \<and> length d \<le> n \<and> rest b = d @ rest b') \<or>
     r \<le> 0 \<and> got = [] \<and> rest b' = rest b)"

end
