(* ===== verification/Sock_Tcp.thy ===== *)
theory Sock_Tcp
  imports Sock_Base
begin

text \<open>
  The TCP socket, from \<open>socket/tcp-bsd.c\<close>, over a \<open>GSocket\<close>: messages are written to the
  kernel's stream when it takes them and queued otherwise; bytes are read into the caller's
  buffers as they come. The kernel's socket is a state with the two operations of GIO the code
  calls, which are arguments. Opening the socket (\<open>nice_tcp_bsd_socket_new\<close>) is calls of GIO
  only and not modelled; the writable callback is a value that \<open>socket_send_more\<close> returns.
\<close>

section \<open>Definitions\<close>

record tcp_priv =
  tcp_remote_addr :: sockaddr
  tcp_send_queue :: send_queue
  tcp_io_source :: bool
  tcp_err :: bool
  tcp_rel :: bool

text \<open>A socket: its private data, unless it has been closed, and the kernel's socket.\<close>

type_synonym 'g tcp_sock = "tcp_priv option \<times> 'g"

definition nice_tcp_bsd_socket_new_from_gsock :: "'g \<Rightarrow> sockaddr \<Rightarrow> bool \<Rightarrow> 'g tcp_sock" where
  "nice_tcp_bsd_socket_new_from_gsock gsock remote_addr reliable =
     (Some \<lparr>tcp_remote_addr = remote_addr, tcp_send_queue = [], tcp_io_source = False,
        tcp_err = False, tcp_rel = reliable\<rparr>, gsock)"

fun tcp_recv_loop ::
  "('g \<Rightarrow> nat list \<Rightarrow> grecv_result \<times> 'g) \<Rightarrow> tcp_priv \<Rightarrow> 'g \<Rightarrow> nat list list \<Rightarrow> received \<Rightarrow>
     int \<times> received \<times> tcp_priv \<times> 'g" where
  "tcp_recv_loop grecv priv g [] got = (int (length got), got, priv, g)"
| "tcp_recv_loop grecv priv g (m # ms) got =
     (case grecv g m of
        (Received data, g) \<Rightarrow>
          if data = [] then
            (if got = [] then - 1 else int (length got), got, priv\<lparr>tcp_err := True\<rparr>, g)
          else tcp_recv_loop grecv priv g ms (got @ [(data, Some (tcp_remote_addr priv))])
      | (Recv_would_block, g) \<Rightarrow> (0, got, priv, g)
      | (Recv_error, g) \<Rightarrow> (- 1, got, priv, g))"

definition tcp_socket_recv_messages ::
  "('g \<Rightarrow> nat list \<Rightarrow> grecv_result \<times> 'g) \<Rightarrow> 'g tcp_sock \<Rightarrow> nat list list \<Rightarrow>
     (int \<times> received \<times> 'g tcp_sock) option" where
  "tcp_socket_recv_messages grecv sock recv_messages =
     (case sock of
        (None, g) \<Rightarrow> Some (0, [], sock)
      | (Some priv, g) \<Rightarrow>
          if tcp_err priv then Some (- 1, [], sock)
          else (case tcp_recv_loop grecv priv g recv_messages [] of
                  (ret, got, priv, g) \<Rightarrow> Some (ret, got, Some priv, g)))"

definition tcp_socket_send_message ::
  "(nat \<Rightarrow> bytes) \<Rightarrow> ('g \<Rightarrow> output_message \<Rightarrow> gsend_result \<times> 'g) \<Rightarrow> 'g tcp_sock \<Rightarrow>
     output_message \<Rightarrow> bool \<Rightarrow> (int \<times> 'g tcp_sock) option" where
  "tcp_socket_send_message malloc gsend sock message reliable =
     (case sock of
        (None, g) \<Rightarrow> Some (- 1, sock)
      | (Some priv, g) \<Rightarrow>
          if tcp_err priv then Some (- 1, sock)
          else let message_len = output_message_get_size message;
                   queue = (\<lambda>g offset head. do {
                     (q, io) \<leftarrow> nice_socket_queue_send_with_callback malloc
                       (tcp_send_queue priv) message offset message_len head True
                       (tcp_io_source priv);
                     Some (int message_len,
                       Some (priv\<lparr>tcp_send_queue := q, tcp_io_source := io\<rparr>), g) })
               in if tcp_send_queue priv = [] then
                    (case gsend g message of
                       (Send_done ret, g) \<Rightarrow>
                         if ret < message_len then queue g ret True
                         else Some (int ret, Some priv, g)
                     | (Send_error, g) \<Rightarrow> Some (- 1, Some priv, g)
                     | (_, g) \<Rightarrow> queue g 0 False)
                  else if reliable then queue g 0 False
                  else Some (0, sock))"

fun tcp_send_loop ::
  "(nat \<Rightarrow> bytes) \<Rightarrow> ('g \<Rightarrow> output_message \<Rightarrow> gsend_result \<times> 'g) \<Rightarrow> 'g tcp_sock \<Rightarrow>
     output_message list \<Rightarrow> nat \<Rightarrow> (int \<times> 'g tcp_sock) option" where
  "tcp_send_loop malloc gsend sock [] i = Some (int i, sock)"
| "tcp_send_loop malloc gsend sock (m # ms) i = do {
     (len, sock) \<leftarrow> tcp_socket_send_message malloc gsend sock m False;
     if len < 0 then Some (if i > 0 then int i else len, sock)
     else if len = 0 then Some (int i, sock)
     else tcp_send_loop malloc gsend sock ms (i + 1) }"

definition tcp_socket_send_messages ::
  "(nat \<Rightarrow> bytes) \<Rightarrow> ('g \<Rightarrow> output_message \<Rightarrow> gsend_result \<times> 'g) \<Rightarrow> 'g tcp_sock \<Rightarrow>
     sockaddr option \<Rightarrow> output_message list \<Rightarrow> (int \<times> 'g tcp_sock) option" where
  "tcp_socket_send_messages malloc gsend sock to messages =
     (case sock of (None, g) \<Rightarrow> Some (- 1, sock)
        | (Some priv, g) \<Rightarrow> tcp_send_loop malloc gsend sock messages 0)"

fun tcp_send_reliable_loop ::
  "(nat \<Rightarrow> bytes) \<Rightarrow> ('g \<Rightarrow> output_message \<Rightarrow> gsend_result \<times> 'g) \<Rightarrow> 'g tcp_sock \<Rightarrow>
     output_message list \<Rightarrow> nat \<Rightarrow> (int \<times> 'g tcp_sock) option" where
  "tcp_send_reliable_loop malloc gsend sock [] i = Some (int i, sock)"
| "tcp_send_reliable_loop malloc gsend sock (m # ms) i = do {
     (len, sock) \<leftarrow> tcp_socket_send_message malloc gsend sock m True;
     if len < 0 then Some (- 1, sock)
     else tcp_send_reliable_loop malloc gsend sock ms (i + 1) }"

definition tcp_socket_send_messages_reliable ::
  "(nat \<Rightarrow> bytes) \<Rightarrow> ('g \<Rightarrow> output_message \<Rightarrow> gsend_result \<times> 'g) \<Rightarrow> 'g tcp_sock \<Rightarrow>
     sockaddr option \<Rightarrow> output_message list \<Rightarrow> (int \<times> 'g tcp_sock) option" where
  "tcp_socket_send_messages_reliable malloc gsend sock to messages =
     tcp_send_reliable_loop malloc gsend sock messages 0"

text \<open>The two queries read the private data without a test.\<close>

definition tcp_socket_is_reliable :: "'g tcp_sock \<Rightarrow> bool" where
  "tcp_socket_is_reliable sock = tcp_rel (the (fst sock))"

definition tcp_socket_can_send :: "'g tcp_sock \<Rightarrow> sockaddr option \<Rightarrow> bool" where
  "tcp_socket_can_send sock addr = (tcp_send_queue (the (fst sock)) = [])"

text \<open>
  The write source's callback: whether the source stays attached, whether the writable
  callback is called, and the socket. \<open>destroyed\<close>: the source was destroyed in the meantime;
  \<open>hup\<close>: the connection has hung up.
\<close>

definition tcp_socket_send_more ::
  "(nat \<Rightarrow> bytes) \<Rightarrow> ('g \<Rightarrow> output_message \<Rightarrow> gsend_result \<times> 'g) \<Rightarrow> bool \<Rightarrow> bool \<Rightarrow>
     tcp_priv \<Rightarrow> 'g \<Rightarrow> (bool \<times> bool \<times> 'g tcp_sock) option" where
  "tcp_socket_send_more malloc gsend destroyed hup priv g =
     (if destroyed then Some (False, False, Some priv, g)
      else if hup then Some (False, True, Some (priv\<lparr>tcp_io_source := False\<rparr>), g)
      else do {
        (all_sent, g, q) \<leftarrow> nice_socket_flush_send_queue_to_socket malloc gsend g
          (tcp_send_queue priv);
        if all_sent
        then Some (False, True, Some (priv\<lparr>tcp_send_queue := q, tcp_io_source := False\<rparr>), g)
        else Some (True, False, Some (priv\<lparr>tcp_send_queue := q\<rparr>), g) })"

definition tcp_ops ::
  "(nat \<Rightarrow> bytes) \<Rightarrow> ('g \<Rightarrow> output_message \<Rightarrow> gsend_result \<times> 'g) \<Rightarrow>
     ('g \<Rightarrow> nat list \<Rightarrow> grecv_result \<times> 'g) \<Rightarrow> ('g tcp_sock) socket_ops" where
  "tcp_ops malloc gsend grecv =
     \<lparr>op_recv_messages = tcp_socket_recv_messages grecv,
      op_send_messages = tcp_socket_send_messages malloc gsend,
      op_send_messages_reliable = tcp_socket_send_messages_reliable malloc gsend,
      op_is_reliable = tcp_socket_is_reliable,
      op_can_send = Some tcp_socket_can_send\<rparr>"

section \<open>The kernel's side\<close>

text \<open>
  What the code relies on: the allocator gives a block of the size asked for; sends are those of
  \<open>gsend_appends\<close>, cut off anywhere or failing; a read gives a first part of what is still to come,
  and nothing at all only when the peer has shut down or no room was offered, or it fails.
\<close>

definition kernel_sends ::
  "(nat \<Rightarrow> bytes) \<Rightarrow> ('g \<Rightarrow> output_message \<Rightarrow> gsend_result \<times> 'g) \<Rightarrow> ('g \<Rightarrow> bytes) \<Rightarrow>
     ('g \<Rightarrow> send_call list) \<Rightarrow> bool" where
  "kernel_sends malloc gsend out calls \<longleftrightarrow>
     (\<forall>n. length (malloc n) = n) \<and> gsend_appends gsend out calls"

definition kernel_receives ::
  "('g \<Rightarrow> nat list \<Rightarrow> grecv_result \<times> 'g) \<Rightarrow> ('g \<Rightarrow> bytes) \<Rightarrow> bool" where
  "kernel_receives grecv rest \<longleftrightarrow>
     (\<forall>g m g' r. grecv g m = (r, g') \<longrightarrow>
       (case r of Received d \<Rightarrow> length d \<le> sum_list m \<and> rest g = d @ rest g' \<and>
                    (d = [] \<longrightarrow> sum_list m = 0 \<or> rest g = [])
          | _ \<Rightarrow> rest g' = rest g))"

text \<open>Reading from the kernel takes nothing back of what was written.\<close>

definition kernel_reads_only ::
  "('g \<Rightarrow> nat list \<Rightarrow> grecv_result \<times> 'g) \<Rightarrow> ('g \<Rightarrow> bytes) \<Rightarrow> ('g \<Rightarrow> send_call list) \<Rightarrow> bool" where
  "kernel_reads_only grecv out calls \<longleftrightarrow>
     (\<forall>g m. out (snd (grecv g m)) = out g \<and> calls (snd (grecv g m)) = calls g)"

definition tcp_alive :: "'g tcp_sock \<Rightarrow> bool" where
  "tcp_alive sock \<longleftrightarrow> (case fst sock of None \<Rightarrow> False
     | Some p \<Rightarrow> \<not> tcp_err p \<and> queue_ok (tcp_send_queue p))"

text \<open>What the socket has taken: what the kernel has, then the queue.\<close>

definition tcp_taken :: "('g \<Rightarrow> bytes) \<Rightarrow> 'g tcp_sock \<Rightarrow> bytes" where
  "tcp_taken out sock = out (snd sock) @
     (case fst sock of None \<Rightarrow> [] | Some p \<Rightarrow> queue_bytes (tcp_send_queue p))"

text \<open>Nothing has gone wrong with a send so far.\<close>

definition tcp_unharmed :: "('g \<Rightarrow> send_call list) \<Rightarrow> 'g tcp_sock \<Rightarrow> bool" where
  "tcp_unharmed calls sock \<longleftrightarrow> harmless (calls (snd sock))"

section \<open>Sending\<close>

text \<open>
  A send always returns and leaves a socket in order. If nothing has gone wrong, one message is
  either taken as a whole, at the end of the stream, or, when the send is not reliable and the
  queue is not empty, not at all.
\<close>

lemma tcp_send_message_taken:
  assumes k: "kernel_sends malloc gsend out calls" and a: "tcp_alive sock"
  shows "case tcp_socket_send_message malloc gsend sock m rel of None \<Rightarrow> False
    | Some (r, sock') \<Rightarrow> tcp_alive sock' \<and>
        (tcp_unharmed calls sock' \<longrightarrow> tcp_unharmed calls sock \<and> 0 \<le> r \<and>
          tcp_taken out sock' = tcp_taken out sock @ (if rel \<or> r \<noteq> 0 then concat m else []))"
proof -
  obtain p g where sock: "sock = (Some p, g)" and p: "\<not> tcp_err p" "queue_ok (tcp_send_queue p)"
    using a by (cases sock) (auto simp: tcp_alive_def split: option.splits)
  have mal: "\<forall>n. length (malloc n) = n" and app: "gsend_appends gsend out calls"
    using k by (simp_all add: kernel_sends_def)
  obtain res g1 where s: "gsend g m = (res, g1)" by (cases "gsend g m")
  have c: "calls g1 = calls g @ [(m, res)]"
    and l: "case res of Send_done n \<Rightarrow> n \<le> length (concat m) \<and> out g1 = out g @ take n (concat m)
                   | _ \<Rightarrow> out g1 = out g"
    using app [unfolded gsend_appends_def, rule_format, OF s] by blast+
  note q = queue_send_with_callback_eq [OF mal refl]
  note defs = tcp_socket_send_message_def sock p sock_simps tcp_alive_def tcp_taken_def Let_def
    tcp_unharmed_def
  show ?thesis
  proof (cases "tcp_send_queue p = []")
    case True
    show ?thesis
    proof (cases res)
      case (Send_done n)
      show ?thesis
      proof (cases "n < length (concat m) \<and> \<not> clean_offset m n")
        case True
        note cut = this
        obtain q' io' where q': "nice_socket_queue_send_with_callback malloc [] m n (length (concat m)) True True
            (tcp_io_source p) = Some (q', io')" "\<forall>t \<in> set q'. qs_buf t \<noteq> []"
          using queue_send_with_callback_some [OF mal, of "[]"] by fastforce
        then show ?thesis using cut \<open>tcp_send_queue p = []\<close> s c Send_done
          by (simp add: defs queue_ok_def del: length_concat)
      next
        case False
        then show ?thesis using \<open>tcp_send_queue p = []\<close> s l c Send_done
          by (auto simp: defs q simp flip: append.assoc simp del: length_concat concat_eq_Nil_conv)
      qed
    next
      case Send_would_block
      then show ?thesis using True s l c
        by (simp add: defs q clean_offset_zero del: length_concat concat_eq_Nil_conv)
    next
      case Send_failed
      then show ?thesis using True s l c
        by (simp add: defs q clean_offset_zero del: length_concat concat_eq_Nil_conv)
    qed (use True s l c in \<open>simp add: defs\<close>)
  next
    case False
    then show ?thesis
      by (simp add: defs q clean_offset_zero del: length_concat concat_eq_Nil_conv)
  qed
qed

lemma tcp_send_reliable_loop_taken:
  assumes k: "kernel_sends malloc gsend out calls"
  shows "tcp_alive sock \<Longrightarrow>
    \<exists>r sock'. tcp_send_reliable_loop malloc gsend sock ms i = Some (r, sock') \<and> tcp_alive sock' \<and>
      (tcp_unharmed calls sock' \<longrightarrow> tcp_unharmed calls sock \<and> r = int (i + length ms) \<and>
        tcp_taken out sock' = tcp_taken out sock @ concat (map concat ms))"
proof (induction ms arbitrary: sock i)
  case (Cons m ms)
  obtain r s1 where s: "tcp_socket_send_message malloc gsend sock m True = Some (r, s1)"
    "tcp_alive s1" "tcp_unharmed calls s1 \<longrightarrow> tcp_unharmed calls sock \<and> 0 \<le> r \<and>
      tcp_taken out s1 = tcp_taken out sock @ concat m"
    using tcp_send_message_taken [OF k Cons.prems, where m = m and rel = True] by (auto split: option.splits)
  show ?case
  proof (cases "r < 0")
    case True
    then show ?thesis using s by auto
  next
    case False
    obtain r2 s2 where
      "tcp_send_reliable_loop malloc gsend s1 ms (i + 1) = Some (r2, s2)" "tcp_alive s2"
      "tcp_unharmed calls s2 \<longrightarrow> tcp_unharmed calls s1 \<and> r2 = int (i + 1 + length ms) \<and>
        tcp_taken out s2 = tcp_taken out s1 @ concat (map concat ms)"
      using Cons.IH [OF s(2), of "i + 1"] by blast
    then show ?thesis using s False by (intro exI [of _ r2] exI [of _ s2]) auto
  qed
qed simp

text \<open>The write source's callback moves bytes from the queue to the kernel, in order.\<close>

lemma tcp_send_more_taken:
  assumes k: "kernel_sends malloc gsend out calls" and "\<not> tcp_err p" "queue_ok (tcp_send_queue p)"
  shows "case tcp_socket_send_more malloc gsend destroyed hup p g of None \<Rightarrow> False
    | Some (keep, w, sock') \<Rightarrow> tcp_alive sock' \<and> (tcp_unharmed calls sock' \<longrightarrow>
        tcp_unharmed calls (Some p, g) \<and> tcp_taken out sock' = tcp_taken out (Some p, g))"
proof -
  obtain b g' q' where
    f: "nice_socket_flush_send_queue_to_socket malloc gsend g (tcp_send_queue p) = Some (b, g', q')"
    "queue_ok q'" "harmless (calls g') \<longrightarrow> harmless (calls g) \<and>
      out g' @ queue_bytes q' = out g @ queue_bytes (tcp_send_queue p)"
    using flush_to_socket_fifo [of malloc gsend out calls "tcp_send_queue p" g] assms
    by (auto simp: kernel_sends_def)
  then show ?thesis using assms
    by (auto simp: tcp_socket_send_more_def tcp_alive_def tcp_taken_def tcp_unharmed_def)
qed

text \<open>The main loop calls it whenever the kernel can be written to; \<open>hup\<close>: or has hung up.\<close>

definition tcp_writable ::
  "(nat \<Rightarrow> bytes) \<Rightarrow> ('g \<Rightarrow> output_message \<Rightarrow> gsend_result \<times> 'g) \<Rightarrow> bool \<Rightarrow> 'g tcp_sock \<Rightarrow>
     'g tcp_sock option" where
  "tcp_writable malloc gsend hup sock = (case sock of
     (None, g) \<Rightarrow> Some sock
   | (Some p, g) \<Rightarrow> do {
       (keep, called, sock) \<leftarrow> tcp_socket_send_more malloc gsend False hup p g;
       Some sock })"

lemma tcp_writable_taken:
  assumes k: "kernel_sends malloc gsend out calls" and a: "tcp_alive sock"
  shows "\<exists>sock'. tcp_writable malloc gsend hup sock = Some sock' \<and> tcp_alive sock' \<and>
    (tcp_unharmed calls sock' \<longrightarrow> tcp_unharmed calls sock \<and> tcp_taken out sock' = tcp_taken out sock)"
proof -
  obtain p g where sock: "sock = (Some p, g)" and p: "\<not> tcp_err p" "queue_ok (tcp_send_queue p)"
    using a by (cases sock) (auto simp: tcp_alive_def split: option.splits)
  show ?thesis using tcp_send_more_taken [OF k p, where destroyed = False and hup = hup and g = g]
    by (auto simp: tcp_writable_def sock split: option.splits)
qed

fun tcp_writables ::
  "(nat \<Rightarrow> bytes) \<Rightarrow> ('g \<Rightarrow> output_message \<Rightarrow> gsend_result \<times> 'g) \<Rightarrow> bool list \<Rightarrow> 'g tcp_sock \<Rightarrow>
     'g tcp_sock option" where
  "tcp_writables malloc gsend [] sock = Some sock"
| "tcp_writables malloc gsend (hup # hups) sock = do {
     sock \<leftarrow> tcp_writable malloc gsend hup sock;
     tcp_writables malloc gsend hups sock }"

lemma tcp_writables_taken:
  assumes k: "kernel_sends malloc gsend out calls"
  shows "tcp_alive sock \<Longrightarrow> \<exists>sock'. tcp_writables malloc gsend hups sock = Some sock' \<and> tcp_alive sock' \<and>
    (tcp_unharmed calls sock' \<longrightarrow> tcp_unharmed calls sock \<and> tcp_taken out sock' = tcp_taken out sock)"
proof (induction hups arbitrary: sock)
  case (Cons hup hups)
  then show ?case using tcp_writable_taken [OF k Cons.prems, of hup] by fastforce
qed simp

section \<open>Receiving\<close>

text \<open>After the peer has shut down, the socket only fails.\<close>

definition tcp_readable :: "('g \<Rightarrow> bytes) \<Rightarrow> 'g tcp_sock \<Rightarrow> bool" where
  "tcp_readable rest sock \<longleftrightarrow> (case fst sock of None \<Rightarrow> False
     | Some p \<Rightarrow> tcp_err p \<longrightarrow> rest (snd sock) = [])"

lemma tcp_recv_one:
  assumes k: "kernel_receives grecv rest" and "tcp_readable rest sock" and n: "0 < n"
  shows "\<exists>r got sock'. tcp_socket_recv_messages grecv sock [[n]] = Some (r, got, sock') \<and>
    tcp_readable rest sock' \<and>
    ((\<exists>d src. r = 1 \<and> got = [(d, src)] \<and> d \<noteq> [] \<and> length d \<le> n \<and>
        rest (snd sock) = d @ rest (snd sock')) \<or>
     r \<le> 0 \<and> got = [] \<and> rest (snd sock') = rest (snd sock))"
proof -
  obtain p g where sock: "sock = (Some p, g)" "tcp_err p \<longrightarrow> rest g = []"
    using assms(2) by (cases sock) (auto simp: tcp_readable_def split: option.splits)
  obtain res g1 where s: "grecv g [n] = (res, g1)" by (cases "grecv g [n]")
  have l: "case res of Received d \<Rightarrow> length d \<le> n \<and> rest g = d @ rest g1 \<and> (d = [] \<longrightarrow> rest g = [])
          | _ \<Rightarrow> rest g1 = rest g"
    using k [unfolded kernel_receives_def, rule_format, OF s] n by (auto split: grecv_result.splits)
  show ?thesis
    by (cases res) (use sock s l in \<open>auto simp: tcp_socket_recv_messages_def tcp_readable_def\<close>)
qed

section \<open>The socket as an interface\<close>

lemma tcp_reliable_socket:
  assumes "kernel_sends malloc gsend out calls"
  shows "reliable_socket (tcp_ops malloc gsend grecv) tcp_alive (tcp_unharmed calls) (tcp_taken out)"
  by unfold_locales (use tcp_send_reliable_loop_taken [OF assms, where i = 0] in
    \<open>fastforce simp: tcp_ops_def tcp_socket_send_messages_reliable_def grows_def\<close>)

lemma tcp_byte_source:
  assumes "kernel_receives grecv rest"
  shows "byte_source (tcp_ops malloc gsend grecv) (tcp_readable rest) (\<lambda>s. rest (snd s))"
  by unfold_locales (use tcp_recv_one [OF assms] in \<open>simp add: tcp_ops_def\<close>)

section \<open>A kernel to run on\<close>

text \<open>
  A kernel that follows a script: how many bytes each send takes at most (none: it would block), and
  how many each read gives. It keeps the contract, so the two interfaces hold for sockets on it.
\<close>

record script_kernel =
  sk_out :: bytes
  sk_calls :: "send_call list"
  sk_takes :: "nat list"
  sk_in :: bytes
  sk_gives :: "nat list"

definition script_send :: "script_kernel \<Rightarrow> output_message \<Rightarrow> gsend_result \<times> script_kernel" where
  "script_send k m = (
     let n = (case sk_takes k of [] \<Rightarrow> 0 | n # ns \<Rightarrow> min n (length (concat m)));
         r = (if n = 0 then Send_would_block else Send_done n)
     in (r, k\<lparr>sk_takes := tl (sk_takes k), sk_calls := sk_calls k @ [(m, r)],
       sk_out := sk_out k @ take n (concat m)\<rparr>))"

definition script_recv :: "script_kernel \<Rightarrow> nat list \<Rightarrow> grecv_result \<times> script_kernel" where
  "script_recv k m = (case sk_gives k of
     [] \<Rightarrow> (Recv_would_block, k)
   | n # ns \<Rightarrow>
       let n = min n (sum_list m)
       in if n = 0 \<and> sum_list m \<noteq> 0 then (Recv_would_block, k\<lparr>sk_gives := ns\<rparr>)
          else (Received (take n (sk_in k)), k\<lparr>sk_gives := ns, sk_in := drop n (sk_in k)\<rparr>))"

definition zero_malloc :: "nat \<Rightarrow> bytes" where
  "zero_malloc n = replicate n 0"

lemma script_kernel_sends: "kernel_sends zero_malloc script_send sk_out sk_calls"
  by (auto simp: kernel_sends_def zero_malloc_def gsend_appends_def script_send_def Let_def
      split: list.splits)

lemma script_kernel_receives: "kernel_receives script_recv sk_in"
  by (auto simp: kernel_receives_def script_recv_def Let_def split: list.splits if_splits)

lemma script_reads_only: "kernel_reads_only script_recv sk_out sk_calls"
  by (auto simp: kernel_reads_only_def script_recv_def Let_def split: list.splits)

interpretation tcp_out: reliable_socket "tcp_ops zero_malloc script_send script_recv" tcp_alive
  "tcp_unharmed sk_calls" "tcp_taken sk_out"
  by (rule tcp_reliable_socket [OF script_kernel_sends])

interpretation tcp_in: byte_source "tcp_ops zero_malloc script_send script_recv"
  "tcp_readable sk_in"
  "\<lambda>s. sk_in (snd s)"
  by (rule tcp_byte_source [OF script_kernel_receives])

end
