(* ===== verification/Sock_Framing.thy ===== *)
theory Sock_Framing
  imports Sock_Tcp
begin

text \<open>
  Messages over a TCP stream to a TURN server, from \<open>socket/udp-turn-over-tcp.c\<close>: how each
  compatibility mode delimits them when sending, and how the receiver cuts the stream, of which
  a read may return any part. \<open>recv_buf\<close> is an array of 65536 bytes of which the first
  \<open>recv_buf_len\<close> are in use; the record holds these, and storing beyond the array is \<open>None\<close>.
  The private data is missing only while \<open>nice_socket_free\<close> closes the socket, so the tests
  for that at the head of the operations always pass and are left out.
\<close>

section \<open>Definitions\<close>

datatype turn_socket_compatibility =
    NICE_TURN_SOCKET_COMPATIBILITY_DRAFT9
  | NICE_TURN_SOCKET_COMPATIBILITY_GOOGLE
  | NICE_TURN_SOCKET_COMPATIBILITY_MSN
  | NICE_TURN_SOCKET_COMPATIBILITY_OC2007
  | NICE_TURN_SOCKET_COMPATIBILITY_RFC5766

record turn_tcp_priv =
  tt_compatibility :: turn_socket_compatibility
  tt_recv_buf :: bytes
  tt_expecting_len :: nat

type_synonym 'b turn_tcp_sock = "turn_tcp_priv \<times> 'b"

definition MS_TURN_CONTROL_MESSAGE :: u8 where "MS_TURN_CONTROL_MESSAGE = 2"
definition MS_TURN_END_TO_END_DATA :: u8 where "MS_TURN_END_TO_END_DATA = 3"
definition MAGIC_COOKIE_OFFSET :: nat where "MAGIC_COOKIE_OFFSET = 20 + 2 + 2 + 2"

definition nice_udp_turn_over_tcp_socket_new ::
  "'b \<Rightarrow> turn_socket_compatibility \<Rightarrow> 'b turn_tcp_sock" where
  "nice_udp_turn_over_tcp_socket_new base compat_mode =
     (\<lparr>tt_compatibility = compat_mode, tt_recv_buf = [], tt_expecting_len = 0\<rparr>, base)"

text \<open>One read of at most \<open>n\<close> bytes behind the bytes in use.\<close>

definition turn_tcp_read ::
  "'b socket_ops \<Rightarrow> turn_tcp_priv \<Rightarrow> 'b \<Rightarrow> nat \<Rightarrow>
     (int \<times> sockaddr option \<times> turn_tcp_priv \<times> 'b) option" where
  "turn_tcp_read ops priv base n = do {
     (ret, got, base) \<leftarrow> nice_socket_recv_messages ops base [[n]];
     let (data, from) = (case got of [] \<Rightarrow> ([], None) | m # _ \<Rightarrow> m);
     if ret < 0 then Some (ret, from, priv, base)
     else if length (tt_recv_buf priv) + length data > 65536 then None
     else Some (ret, from, priv\<lparr>tt_recv_buf := tt_recv_buf priv @ data\<rparr>, base) }"

definition turn_tcp_headerlen :: "turn_socket_compatibility \<Rightarrow> nat option" where
  "turn_tcp_headerlen c = (case c of
     NICE_TURN_SOCKET_COMPATIBILITY_DRAFT9 \<Rightarrow> Some 4
   | NICE_TURN_SOCKET_COMPATIBILITY_RFC5766 \<Rightarrow> Some 4
   | NICE_TURN_SOCKET_COMPATIBILITY_OC2007 \<Rightarrow> Some 4
   | NICE_TURN_SOCKET_COMPATIBILITY_GOOGLE \<Rightarrow> Some 2
   | NICE_TURN_SOCKET_COMPATIBILITY_MSN \<Rightarrow> None)"

definition pads :: "turn_socket_compatibility \<Rightarrow> bool" where
  "pads c \<longleftrightarrow> c = NICE_TURN_SOCKET_COMPATIBILITY_DRAFT9 \<or>
              c = NICE_TURN_SOCKET_COMPATIBILITY_RFC5766"

definition turn_tcp_padlen :: "turn_socket_compatibility \<Rightarrow> nat \<Rightarrow> nat" where
  "turn_tcp_padlen c len = (if pads c then (if len mod 4 \<noteq> 0 then 4 - len mod 4 else 0) else 0)"

text \<open>The header once it is complete: what is expected, or an error in the stream.\<close>

definition turn_tcp_header :: "turn_tcp_priv \<Rightarrow> turn_tcp_priv option" where
  "turn_tcp_header priv = (
     let b = tt_recv_buf priv in
     case tt_compatibility priv of
       NICE_TURN_SOCKET_COMPATIBILITY_GOOGLE \<Rightarrow>
         Some (priv\<lparr>tt_expecting_len := unat (be16 (b ! 0) (b ! 1)), tt_recv_buf := []\<rparr>)
     | NICE_TURN_SOCKET_COMPATIBILITY_OC2007 \<Rightarrow>
         if b ! 0 \<noteq> MS_TURN_CONTROL_MESSAGE \<and> b ! 0 \<noteq> MS_TURN_END_TO_END_DATA then None
         else Some (priv\<lparr>tt_expecting_len := unat (be16 (b ! 2) (b ! 3)) + 2,
                         tt_recv_buf := take 2 (drop 2 b)\<rparr>)
     | _ \<Rightarrow>
         if be16 (b ! 0) (b ! 1) < 0x4000
         then Some (priv\<lparr>tt_expecting_len := 20 + unat (be16 (b ! 2) (b ! 3))\<rparr>)
         else Some (priv\<lparr>tt_expecting_len := 4 + unat (be16 (b ! 2) (b ! 3))\<rparr>))"

text \<open>The second half of a call: read the rest of the message and deliver it when complete.\<close>

definition turn_tcp_body ::
  "'b socket_ops \<Rightarrow> turn_tcp_priv \<Rightarrow> 'b \<Rightarrow> nat list \<Rightarrow>
     (int \<times> received \<times> turn_tcp_priv \<times> 'b) option" where
  "turn_tcp_body ops priv base sizes = (
     let padlen = turn_tcp_padlen (tt_compatibility priv) (tt_expecting_len priv) in do {
     (ret, from, priv, base) \<leftarrow> turn_tcp_read ops priv base
        (tt_expecting_len priv + padlen - length (tt_recv_buf priv));
     if ret < 0 then Some (ret, [], priv, base)
     else if length (tt_recv_buf priv) = tt_expecting_len priv + padlen then
       let data = memcpy_buffer_to_input_message sizes (tt_recv_buf priv)
       in Some (int (length data), [(data, from)],
            priv\<lparr>tt_expecting_len := 0, tt_recv_buf := []\<rparr>, base)
     else Some (0, [], priv, base) })"

definition turn_tcp_socket_recv_message ::
  "'b socket_ops \<Rightarrow> 'b turn_tcp_sock \<Rightarrow> nat list \<Rightarrow>
     (int \<times> received \<times> 'b turn_tcp_sock) option" where
  "turn_tcp_socket_recv_message ops sock sizes = (case sock of (priv, base) \<Rightarrow>
     if tt_expecting_len priv = 0 then
       (case turn_tcp_headerlen (tt_compatibility priv) of
          None \<Rightarrow> Some (- 1, [], sock)
        | Some headerlen \<Rightarrow> do {
            (ret, from, priv, base) \<leftarrow> turn_tcp_read ops priv base
               (headerlen - length (tt_recv_buf priv));
            if ret < 0 then Some (ret, [], priv, base)
            else if length (tt_recv_buf priv) < headerlen then Some (0, [], priv, base)
            else case turn_tcp_header priv of
                   None \<Rightarrow> Some (- 1, [], priv, base)
                 | Some priv \<Rightarrow> turn_tcp_body ops priv base sizes })
     else turn_tcp_body ops priv base sizes)"

fun turn_tcp_recv_loop ::
  "'b socket_ops \<Rightarrow> 'b turn_tcp_sock \<Rightarrow> nat list list \<Rightarrow> nat \<Rightarrow> received \<Rightarrow>
     (int \<times> received \<times> 'b turn_tcp_sock) option" where
  "turn_tcp_recv_loop ops sock [] i got = Some (int i, got, sock)"
| "turn_tcp_recv_loop ops sock (sizes # msgs) i got = do {
     (len, m, sock) \<leftarrow> turn_tcp_socket_recv_message ops sock sizes;
     if len \<le> 0 then Some (if len < 0 \<and> i = 0 then - 1 else int i, got, sock)
     else turn_tcp_recv_loop ops sock msgs (i + 1) (got @ m) }"

definition turn_tcp_socket_recv_messages ::
  "'b socket_ops \<Rightarrow> 'b turn_tcp_sock \<Rightarrow> nat list list \<Rightarrow>
     (int \<times> received \<times> 'b turn_tcp_sock) option" where
  "turn_tcp_socket_recv_messages ops sock msgs = turn_tcp_recv_loop ops sock msgs 0 []"

text \<open>
  The magic cookie of a message that may be split over several buffers; a cookie that is split
  itself counts as none.
\<close>

fun turn_tcp_cookie :: "output_message \<Rightarrow> nat \<Rightarrow> bytes" where
  "turn_tcp_cookie [] buf_offset = [0, 0, 0, 0]"
| "turn_tcp_cookie (b # bs) buf_offset =
     (if length b > MAGIC_COOKIE_OFFSET - buf_offset then
        if length b > 4 + MAGIC_COOKIE_OFFSET - buf_offset
        then take 4 (drop (MAGIC_COOKIE_OFFSET - buf_offset) b)
        else [0, 0, 0, 0]
      else turn_tcp_cookie bs (buf_offset + length b))"

text \<open>The buffers handed to the base socket: those of the message, a header and a footer.\<close>

definition turn_tcp_frame :: "turn_socket_compatibility \<Rightarrow> output_message \<Rightarrow> output_message" where
  "turn_tcp_frame c message = (case c of
     NICE_TURN_SOCKET_COMPATIBILITY_GOOGLE \<Rightarrow>
       be16_bytes (of_nat (output_message_get_size message)) # message
   | NICE_TURN_SOCKET_COMPATIBILITY_OC2007 \<Rightarrow>
       let len = output_message_get_size message mod 65536;
           cookie = (if len > 4 + MAGIC_COOKIE_OFFSET then turn_tcp_cookie message 0
                     else [0, 0, 0, 0])
       in [if cookie = be32_bytes TURN_MAGIC_COOKIE then MS_TURN_CONTROL_MESSAGE
           else MS_TURN_END_TO_END_DATA, 0] # message
   | NICE_TURN_SOCKET_COMPATIBILITY_MSN \<Rightarrow> message
   | _ \<Rightarrow> message @ [replicate (turn_tcp_padlen c (output_message_get_size message)) 0])"

definition turn_tcp_socket_send_message ::
  "'b socket_ops \<Rightarrow> 'b turn_tcp_sock \<Rightarrow> sockaddr option \<Rightarrow> output_message \<Rightarrow> bool \<Rightarrow>
     (int \<times> 'b turn_tcp_sock) option" where
  "turn_tcp_socket_send_message ops sock to message reliable = (case sock of (priv, base) \<Rightarrow>
     let local_message = turn_tcp_frame (tt_compatibility priv) message in do {
     (ret, base) \<leftarrow> (if reliable
        then nice_socket_send_messages_reliable ops base to [local_message]
        else nice_socket_send_messages ops base to [local_message]);
     Some (if ret = 1 then int (output_message_get_size local_message) else ret, priv, base) })"

fun turn_tcp_send_loop ::
  "'b socket_ops \<Rightarrow> 'b turn_tcp_sock \<Rightarrow> sockaddr option \<Rightarrow> output_message list \<Rightarrow> nat \<Rightarrow>
     (int \<times> 'b turn_tcp_sock) option" where
  "turn_tcp_send_loop ops sock to [] i = Some (int i, sock)"
| "turn_tcp_send_loop ops sock to (m # ms) i = do {
     (len, sock) \<leftarrow> turn_tcp_socket_send_message ops sock to m False;
     if len < 0 then Some (if i > 0 then int i else len, sock)
     else if len = 0 then Some (int i, sock)
     else turn_tcp_send_loop ops sock to ms (i + 1) }"

definition turn_tcp_socket_send_messages ::
  "'b socket_ops \<Rightarrow> 'b turn_tcp_sock \<Rightarrow> sockaddr option \<Rightarrow> output_message list \<Rightarrow>
     (int \<times> 'b turn_tcp_sock) option" where
  "turn_tcp_socket_send_messages ops sock to messages = turn_tcp_send_loop ops sock to messages 0"

fun turn_tcp_send_reliable_loop ::
  "'b socket_ops \<Rightarrow> 'b turn_tcp_sock \<Rightarrow> sockaddr option \<Rightarrow> output_message list \<Rightarrow> nat \<Rightarrow>
     (int \<times> 'b turn_tcp_sock) option" where
  "turn_tcp_send_reliable_loop ops sock to [] i = Some (int i, sock)"
| "turn_tcp_send_reliable_loop ops sock to (m # ms) i = do {
     (len, sock) \<leftarrow> turn_tcp_socket_send_message ops sock to m True;
     if len < 0 then Some (len, sock)
     else turn_tcp_send_reliable_loop ops sock to ms (i + 1) }"

definition turn_tcp_socket_send_messages_reliable ::
  "'b socket_ops \<Rightarrow> 'b turn_tcp_sock \<Rightarrow> sockaddr option \<Rightarrow> output_message list \<Rightarrow>
     (int \<times> 'b turn_tcp_sock) option" where
  "turn_tcp_socket_send_messages_reliable ops sock to messages =
     turn_tcp_send_reliable_loop ops sock to messages 0"

definition turn_tcp_ops :: "'b socket_ops \<Rightarrow> ('b turn_tcp_sock) socket_ops" where
  "turn_tcp_ops ops =
     \<lparr>op_recv_messages = turn_tcp_socket_recv_messages ops,
      op_send_messages = turn_tcp_socket_send_messages ops,
      op_send_messages_reliable = turn_tcp_socket_send_messages_reliable ops,
      op_is_reliable = (\<lambda>sock. nice_socket_is_reliable ops (snd sock)),
      op_can_send = Some (\<lambda>sock. nice_socket_can_send ops (snd sock))\<rparr>"

end
