(* ===== verification/Sock_Frames.thy ===== *)
theory Sock_Frames
  imports Sock_Framing
begin

text \<open>
  Messages over a stream are delivered whole and in order, whatever parts the reads return:
  the receiver of \<open>Sock_Framing\<close> refines a function that cuts the whole stream at once.
\<close>

section \<open>The stream, cut at once\<close>

text \<open>How many bytes before a message are dropped, and how many are delivered.\<close>

definition frame_head :: "turn_socket_compatibility \<Rightarrow> bytes \<Rightarrow> (nat \<times> nat) option" where
  "frame_head c s = (case c of
     NICE_TURN_SOCKET_COMPATIBILITY_GOOGLE \<Rightarrow>
       if length s < 2 then None else Some (2, unat (be16 (s ! 0) (s ! 1)))
   | NICE_TURN_SOCKET_COMPATIBILITY_OC2007 \<Rightarrow>
       if length s < 4 then None else Some (2, unat (be16 (s ! 2) (s ! 3)) + 2)
   | NICE_TURN_SOCKET_COMPATIBILITY_MSN \<Rightarrow> None
   | _ \<Rightarrow>
       if length s < 4 then None
       else let n = (if be16 (s ! 0) (s ! 1) < 0x4000 then 20 else 4) + unat (be16 (s ! 2) (s ! 3))
            in Some (0, n + turn_tcp_padlen c n))"

lemma frame_head_pos: "frame_head c s = Some (k, t) \<Longrightarrow> 0 < k + t"
  by (auto simp: frame_head_def Let_def split: turn_socket_compatibility.splits if_splits)

lemma frame_head_length: "frame_head c s = Some (k, t) \<Longrightarrow> 0 < length s"
  by (auto simp: frame_head_def Let_def split: turn_socket_compatibility.splits if_splits)

lemma headerlen_frame_head:
  "turn_tcp_headerlen c = Some h \<Longrightarrow> frame_head c s = None \<longleftrightarrow> length s < h"
  by (auto simp: frame_head_def turn_tcp_headerlen_def Let_def
      split: turn_socket_compatibility.splits)

function frames :: "turn_socket_compatibility \<Rightarrow> bytes \<Rightarrow> bytes list" where
  "frames c s = (case frame_head c s of None \<Rightarrow> []
     | Some (k, t) \<Rightarrow> if length s < k + t then []
                    else take t (drop k s) # frames c (drop (k + t) s))"
  by pat_completeness auto
termination
  by (relation "measure (length \<circ> snd)")
    (auto dest: frame_head_pos frame_head_length)

declare frames.simps [simp del]

text \<open>
  Streams the receiver accepts: every message has a body, fits the array, and in the mode that
  has a payload type, has one of the two.
\<close>

definition head_ok :: "turn_socket_compatibility \<Rightarrow> bytes \<Rightarrow> nat \<Rightarrow> nat \<Rightarrow> bool" where
  "head_ok c s k t \<longleftrightarrow> t \<le> 65536 \<and>
     (case c of
        NICE_TURN_SOCKET_COMPATIBILITY_GOOGLE \<Rightarrow> 0 < t
      | NICE_TURN_SOCKET_COMPATIBILITY_OC2007 \<Rightarrow> 2 < t \<and> (s ! 0 = 2 \<or> s ! 0 = 3)
      | _ \<Rightarrow> 4 < t)"

function framing_ok :: "turn_socket_compatibility \<Rightarrow> bytes \<Rightarrow> bool" where
  "framing_ok c s = (case frame_head c s of None \<Rightarrow> True
     | Some (k, t) \<Rightarrow> head_ok c s k t \<and>
         (if length s < k + t then True else framing_ok c (drop (k + t) s)))"
  by pat_completeness auto
termination
  by (relation "measure (length \<circ> snd)")
    (auto dest: frame_head_pos frame_head_length)

declare framing_ok.simps [simp del]

text \<open>A first part of a stream is cut into the first of its messages.\<close>

lemma frame_head_append: "frame_head c s = Some kt \<Longrightarrow> frame_head c (s @ x) = Some kt"
  by (auto simp: frame_head_def nth_append Let_def split: turn_socket_compatibility.splits if_splits)

lemma head_ok_append: "frame_head c s = Some kt \<Longrightarrow> head_ok c (s @ x) k t \<Longrightarrow> head_ok c s k t"
  by (cases kt, cases s) (auto dest: frame_head_length simp: head_ok_def split: turn_socket_compatibility.splits)

lemma frames_append: "\<exists>later. frames c (s @ x) = frames c s @ later"
proof (induction c s rule: frames.induct)
  case (1 c s)
  show ?case
  proof (cases "frame_head c s")
    case None
    then show ?thesis by (subst (2) frames.simps) simp
  next
    case (Some kt)
    obtain k t where kt: "kt = (k, t)" by fastforce
    show ?thesis
    proof (cases "length s < k + t")
      case False
      then obtain later where "frames c (drop (k + t) s @ x) = frames c (drop (k + t) s) @ later"
        using 1 [OF Some [unfolded kt] refl False] by blast
      then show ?thesis using False Some kt frame_head_append [OF Some, of x]
        by (subst frames.simps, subst (2) frames.simps) auto
    qed (use Some kt in \<open>subst (2) frames.simps, simp\<close>)
  qed
qed

lemma framing_ok_append: "framing_ok c (s @ x) \<Longrightarrow> framing_ok c s"
proof (induction c s rule: framing_ok.induct)
  case (1 c s)
  show ?case
  proof (cases "frame_head c s")
    case None
    then show ?thesis by (subst framing_ok.simps) simp
  next
    case (Some kt)
    obtain k t where kt: "kt = (k, t)" by fastforce
    note f = frame_head_append [OF Some, of x]
    have h: "head_ok c (s @ x) k t" using 1(2) f kt by (subst (asm) framing_ok.simps) simp
    show ?thesis
    proof (cases "length s < k + t")
      case False
      then have "framing_ok c (drop (k + t) s @ x)"
        using 1(2) f kt by (subst (asm) framing_ok.simps) simp
      then have "framing_ok c (drop (k + t) s)"
        using 1(1) [OF Some [unfolded kt] refl False] by blast
      then show ?thesis using Some kt head_ok_append [OF Some h] by (subst framing_ok.simps) simp
    qed (use Some kt head_ok_append [OF Some h] in \<open>subst framing_ok.simps, simp\<close>)
  qed
qed

section \<open>What the receiver holds\<close>

text \<open>The stream that is still to be delivered: the header read, the bytes held, the rest.\<close>

definition held_header :: "turn_tcp_priv \<Rightarrow> bytes" where
  "held_header p = (if tt_expecting_len p = 0 then [] else case tt_compatibility p of
     NICE_TURN_SOCKET_COMPATIBILITY_GOOGLE \<Rightarrow> be16_bytes (of_nat (tt_expecting_len p))
   | NICE_TURN_SOCKET_COMPATIBILITY_OC2007 \<Rightarrow> [2, 0]
   | _ \<Rightarrow> [])"

definition undelivered :: "turn_tcp_priv \<Rightarrow> bytes \<Rightarrow> bytes" where
  "undelivered p s = held_header p @ tt_recv_buf p @ s"

definition body_len :: "turn_tcp_priv \<Rightarrow> nat" where
  "body_len p = tt_expecting_len p + turn_tcp_padlen (tt_compatibility p) (tt_expecting_len p)"

definition tt_inv :: "turn_tcp_priv \<Rightarrow> bytes \<Rightarrow> bool" where
  "tt_inv p s \<longleftrightarrow>
     (\<exists>h. turn_tcp_headerlen (tt_compatibility p) = Some h \<and>
       (if tt_expecting_len p = 0 then length (tt_recv_buf p) < h
        else length (tt_recv_buf p) < body_len p \<and> body_len p \<le> 65536 \<and>
          frame_head (tt_compatibility p) (undelivered p s) =
            Some (length (held_header p), body_len p))) \<and>
     framing_ok (tt_compatibility p) (undelivered p s)"

lemma held_buf [simp]:
  "held_header (p\<lparr>tt_recv_buf := b\<rparr>) = held_header p"
  "body_len (p\<lparr>tt_recv_buf := b\<rparr>) = body_len p"
  by (simp_all add: held_header_def body_len_def split: turn_socket_compatibility.splits)

lemma be16_bytes_be16: "be16_bytes (be16 a b) = [a, b]"
proof -
  have "ucast (drop_bit 8 (be16 a b)) = a" "ucast (be16 a b AND 255) = b"
    by (rule bit_word_eqI, auto simp: bits_of bit_simps)+
  then show ?thesis by (simp add: be16_bytes_def)
qed

lemma frames_oc_payload_type:
  "frames NICE_TURN_SOCKET_COMPATIBILITY_OC2007 (a # b # s) =
   frames NICE_TURN_SOCKET_COMPATIBILITY_OC2007 (a' # b' # s)"
  by (subst (1 2) frames.simps) (simp add: frame_head_def eval_nat_numeral)

lemma case_pads:
  "pads c \<Longrightarrow> (case c of NICE_TURN_SOCKET_COMPATIBILITY_DRAFT9 \<Rightarrow> d
     | NICE_TURN_SOCKET_COMPATIBILITY_GOOGLE \<Rightarrow> g | NICE_TURN_SOCKET_COMPATIBILITY_MSN \<Rightarrow> m
     | NICE_TURN_SOCKET_COMPATIBILITY_OC2007 \<Rightarrow> oc
     | NICE_TURN_SOCKET_COMPATIBILITY_RFC5766 \<Rightarrow> d) = d"
  by (auto simp: pads_def)

lemma length_2E: assumes "length xs = 2" obtains a b where "xs = [a, b]"
  using assms by (auto simp: numeral_2_eq_2 length_Suc_conv)

lemma length_4E: assumes "length xs = 4" obtains a b c d where "xs = [a, b, c, d]"
  using assms by (auto simp: eval_nat_numeral length_Suc_conv)

lemma drop_4_more: "drop (4 + n) (a # b # c # d # s) = drop n s"
  by (simp add: eval_nat_numeral)

text \<open>Once the header is complete, what is undelivered stays the same.\<close>

lemma header_keeps:
  assumes h: "turn_tcp_headerlen (tt_compatibility p) = Some (length (tt_recv_buf p))"
    and e: "tt_expecting_len p = 0"
    and ok: "framing_ok (tt_compatibility p) (undelivered p s)"
  obtains p' where "turn_tcp_header p = Some p'" "tt_inv p' s" "0 < tt_expecting_len p'"
    "tt_compatibility p' = tt_compatibility p"
    "frames (tt_compatibility p) (undelivered p' s) = frames (tt_compatibility p) (undelivered p s)"
proof -
  let ?c = "tt_compatibility p" and ?b = "tt_recv_buf p"
  have u: "undelivered p s = ?b @ s" using e by (simp add: undelivered_def held_header_def)
  obtain k t where f: "frame_head ?c (?b @ s) = Some (k, t)"
    using headerlen_frame_head [OF h, of "?b @ s"] by fastforce
  have hd: "head_ok ?c (?b @ s) k t" using ok f u by (subst (asm) framing_ok.simps) simp
  consider "pads ?c" | "?c = NICE_TURN_SOCKET_COMPATIBILITY_GOOGLE" |
    "?c = NICE_TURN_SOCKET_COMPATIBILITY_OC2007" | "?c = NICE_TURN_SOCKET_COMPATIBILITY_MSN"
    by (cases ?c) (auto simp: pads_def)
  then show ?thesis
  proof cases
    case 2
    have "length ?b = 2" using h 2 by (simp add: turn_tcp_headerlen_def)
    then obtain b0 b1 where b: "?b = [b0, b1]" by (rule length_2E)
    define p' where "p' = p\<lparr>tt_expecting_len := unat (be16 b0 b1), tt_recv_buf := []\<rparr>"
    have "turn_tcp_header p = Some p'"
      using 2 b by (simp add: turn_tcp_header_def p'_def)
    moreover have pos: "0 < unat (be16 b0 b1)" and le: "unat (be16 b0 b1) \<le> 65536"
      using hd f 2 b
      by (auto simp: head_ok_def frame_head_def split: if_splits)
    moreover have "undelivered p' s = undelivered p s"
      using u pos 2 b
      by (simp add: undelivered_def held_header_def p'_def be16_bytes_be16)
    ultimately show ?thesis using that [of p'] ok f u b 2
      by (auto simp: tt_inv_def p'_def body_len_def turn_tcp_padlen_def pads_def frame_head_def
          held_header_def turn_tcp_headerlen_def be16_bytes_def)
  next
    case 3
    have "length ?b = 4" using h 3 by (auto simp: turn_tcp_headerlen_def pads_def)
    then obtain b0 b1 b2 b3 where b: "?b = [b0, b1, b2, b3]" by (rule length_4E)
    define p' where
      "p' = p\<lparr>tt_expecting_len := unat (be16 b2 b3) + 2, tt_recv_buf := [b2, b3]\<rparr>"
    have t: "0 < unat (be16 b2 b3)" "unat (be16 b2 b3) + 2 \<le> 65536" "b0 = 2 \<or> b0 = 3"
      using hd f b 3
      by (auto simp: head_ok_def frame_head_def split: if_splits)
    have s': "undelivered p' s = 2 # 0 # b2 # b3 # s"
      using 3
      by (simp add: undelivered_def held_header_def p'_def)
    have "turn_tcp_header p = Some p'"
      using 3 b t
      by (auto simp: turn_tcp_header_def p'_def MS_TURN_CONTROL_MESSAGE_def
          MS_TURN_END_TO_END_DATA_def)
    moreover have "framing_ok ?c (2 # 0 # b2 # b3 # s)"
      using ok u b 3
      by (subst framing_ok.simps, subst (asm) framing_ok.simps)
        (auto simp: frame_head_def head_ok_def drop_4_more)
    moreover have "frames ?c (undelivered p' s) = frames ?c (undelivered p s)"
      using u s' b 3 frames_oc_payload_type by auto
    ultimately show ?thesis using that [of p'] t s' 3
      by (auto simp: tt_inv_def p'_def body_len_def turn_tcp_padlen_def pads_def frame_head_def
          held_header_def turn_tcp_headerlen_def)
  next
    case 4
    then show ?thesis using h by (simp add: turn_tcp_headerlen_def)
  next
    case 1
    have "length ?b = 4" using h 1 by (auto simp: turn_tcp_headerlen_def pads_def)
    then obtain b0 b1 b2 b3 where b: "?b = [b0, b1, b2, b3]" by (rule length_4E)
    define n where "n = (if be16 b0 b1 < 0x4000 then 20 else 4) + unat (be16 b2 b3)"
    define p' where "p' = p\<lparr>tt_expecting_len := n\<rparr>"
    have "turn_tcp_header p = Some p'"
      using 1 b
      by (simp add: turn_tcp_header_def p'_def n_def Let_def case_pads)
    moreover have "undelivered p' s = undelivered p s"
      using u 1
      by (simp add: undelivered_def held_header_def p'_def case_pads)
    moreover have "0 < n" by (simp add: n_def)
    moreover have "4 < n + turn_tcp_padlen ?c n" "n + turn_tcp_padlen ?c n \<le> 65536"
      using hd f b 1
      by (auto simp: head_ok_def frame_head_def n_def Let_def case_pads split: if_splits)
    ultimately show ?thesis using that [of p'] ok u b f 1
      by (auto simp: tt_inv_def p'_def body_len_def frame_head_def n_def Let_def
          held_header_def turn_tcp_headerlen_def case_pads)
  qed
qed

section \<open>One call\<close>

text \<open>
  What a call does, from the socket and base state before to those after: the messages it
  stores are the next ones, and when it fails it stores none and loses nothing.
\<close>

definition delivers ::
  "('b \<Rightarrow> bool) \<Rightarrow> ('b \<Rightarrow> bytes) \<Rightarrow> turn_tcp_priv \<Rightarrow> 'b \<Rightarrow> int \<Rightarrow> received \<Rightarrow> turn_tcp_priv \<Rightarrow> 'b \<Rightarrow> bool"
where
  "delivers alive rest p b ret got p' b' \<longleftrightarrow>
     tt_compatibility p' = tt_compatibility p \<and> tt_inv p' (rest b') \<and>
     map fst got @ frames (tt_compatibility p) (undelivered p' (rest b')) =
       frames (tt_compatibility p) (undelivered p (rest b)) \<and>
     alive b' \<and> (ret < 0 \<longrightarrow> got = []) \<and> (0 < ret \<longleftrightarrow> got \<noteq> [])"

lemma frames_head:
  "frame_head c s = Some (k, t) \<Longrightarrow> k + t \<le> length s \<Longrightarrow>
     frames c s = take t (drop k s) # frames c (drop (k + t) s)"
  by (subst frames.simps) simp

lemma stream_ok_tail:
  "frame_head c s = Some (k, t) \<Longrightarrow> k + t \<le> length s \<Longrightarrow> framing_ok c s \<Longrightarrow>
     framing_ok c (drop (k + t) s)"
  by (subst (asm) framing_ok.simps) (simp split: if_splits)

lemma undelivered_read:
  "undelivered (p\<lparr>tt_recv_buf := tt_recv_buf p @ d\<rparr>) s = undelivered p (d @ s)"
  by (simp add: undelivered_def held_header_def split: turn_socket_compatibility.splits)

lemma undelivered_done:
  "undelivered (p\<lparr>tt_expecting_len := 0, tt_recv_buf := []\<rparr>) s = s"
  by (simp add: undelivered_def held_header_def)

context byte_source
begin

lemma turn_read:
  assumes "alive b" and "0 < n" and "length (tt_recv_buf p) + n \<le> 65536"
  obtains ret src d b' where
    "turn_tcp_read ops p b n = Some (ret, src, p\<lparr>tt_recv_buf := tt_recv_buf p @ d\<rparr>, b')"
    "length d \<le> n" "rest b = d @ rest b'" "alive b'"
    "ret < 0 \<longrightarrow> d = []"
proof -
  obtain r got b' where g: "op_recv_messages ops b [[n]] = Some (r, got, b')"
    and alive: "alive b'"
    and c: "(\<exists>d src. r = 1 \<and> got = [(d, src)] \<and> d \<noteq> [] \<and> length d \<le> n \<and>
        rest b = d @ rest b') \<or>
      r \<le> 0 \<and> got = [] \<and> rest b' = rest b"
    using recv_part [OF assms(1,2)] by blast
  from c show ?thesis
  proof (elim disjE exE conjE)
    fix d src assume "r = 1" "got = [(d, src)]" "length d \<le> n" "rest b = d @ rest b'"
    then show ?thesis using that [of 1 src d b'] g alive assms(3)
      by (simp add: turn_tcp_read_def nice_socket_recv_messages_def)
  next
    assume "r \<le> 0" "got = []" "rest b' = rest b"
    then show ?thesis using that [of r None "[]" b'] g alive assms(3)
      by (simp add: turn_tcp_read_def nice_socket_recv_messages_def)
  qed
qed

lemma turn_body:
  assumes inv: "tt_inv p (rest b)" and e: "0 < tt_expecting_len p" and "alive b"
    and sizes: "65536 \<le> sum_list sizes"
  obtains ret got p' b' where "turn_tcp_body ops p b sizes = Some (ret, got, p', b')"
    "delivers alive rest p b ret got p' b'"
proof -
  let ?c = "tt_compatibility p"
  have i: "length (tt_recv_buf p) < body_len p" "body_len p \<le> 65536"
    "frame_head ?c (undelivered p (rest b)) = Some (length (held_header p), body_len p)"
    "framing_ok ?c (undelivered p (rest b))" "\<exists>h. turn_tcp_headerlen ?c = Some h \<and> 0 < h"
    using inv e by (auto simp: tt_inv_def turn_tcp_headerlen_def
        split: turn_socket_compatibility.splits)
  define n where "n = body_len p - length (tt_recv_buf p)"
  obtain ret src d b' where r:
    "turn_tcp_read ops p b n = Some (ret, src, p\<lparr>tt_recv_buf := tt_recv_buf p @ d\<rparr>, b')"
    "length d \<le> n" "rest b = d @ rest b'" "alive b'"
    "ret < 0 \<longrightarrow> d = []"
    by (rule turn_read [OF assms(3), of n p]) (use i in \<open>simp_all add: n_def\<close>)
  define p1 where "p1 = p\<lparr>tt_recv_buf := tt_recv_buf p @ d\<rparr>"
  have u1: "undelivered p1 (rest b') = undelivered p (rest b)"
    using r(3) by (simp add: p1_def undelivered_read)
  have body: "turn_tcp_body ops p b sizes =
    (if ret < 0 then Some (ret, [], p1, b')
     else if length (tt_recv_buf p1) = body_len p
     then Some (int (length (tt_recv_buf p1)), [(tt_recv_buf p1, src)],
            p1\<lparr>tt_expecting_len := 0, tt_recv_buf := []\<rparr>, b')
     else Some (0, [], p1, b'))"
    using r(1) i(2) sizes
    by (simp add: turn_tcp_body_def body_len_def [symmetric] n_def [symmetric] p1_def sock_simps
        Let_def)
  consider "ret < 0" | "0 \<le> ret" "length (tt_recv_buf p1) = body_len p"
    | "0 \<le> ret" "length (tt_recv_buf p1) \<noteq> body_len p" by linarith
  then show ?thesis
  proof cases
    case 1
    have "tt_inv p1 (rest b')" using r(5) 1 inv r(3) by (simp add: p1_def)
    then have "delivers alive rest p b ret [] p1 b'"
      using 1 r(4,5) u1 by (simp add: delivers_def) (simp add: p1_def)
    then show ?thesis using that body 1 by simp
  next
    case 2
    let ?p' = "p1\<lparr>tt_expecting_len := 0, tt_recv_buf := []\<rparr>"
    let ?u = "undelivered p (rest b)"
    have u: "?u = held_header p @ tt_recv_buf p1 @ rest b'"
      using r(3) by (simp add: undelivered_def p1_def)
    have len: "length (held_header p) + body_len p \<le> length ?u"
      by (simp only: u 2(2) [symmetric] length_append)
    have parts: "take (body_len p) (drop (length (held_header p)) ?u) = tt_recv_buf p1"
      "drop (length (held_header p) + body_len p) ?u = rest b'"
      unfolding u 2(2) [symmetric] by simp_all
    have f: "frames ?c ?u = tt_recv_buf p1 # frames ?c (rest b')"
      using frames_head [OF i(3) len] unfolding parts .
    have "framing_ok ?c (rest b')"
      using stream_ok_tail [OF i(3) len i(4)] unfolding parts .
    then have "tt_inv ?p' (rest b')"
      using i(5) by (auto simp: tt_inv_def undelivered_done) (auto simp: p1_def)
    then have "delivers alive rest p b (int (length (tt_recv_buf p1))) [(tt_recv_buf p1, src)] ?p' b'"
      using f 2 r(4) i(1) by (simp add: delivers_def undelivered_done) (simp add: p1_def)
    then show ?thesis using that body 2 by simp
  next
    case 3
    have "length (tt_recv_buf p1) < body_len p" using r(2) 3 i(1) by (simp add: p1_def n_def)
    then have "tt_inv p1 (rest b')"
      using inv e u1 by (simp add: tt_inv_def) (simp add: p1_def)
    then have "delivers alive rest p b 0 [] p1 b'"
      using 3 r(4) u1 by (simp add: delivers_def) (simp add: p1_def)
    then show ?thesis using that body 3 by simp
  qed
qed

lemma turn_recv_message:
  assumes inv: "tt_inv p (rest b)" and "alive b" and sizes: "65536 \<le> sum_list sizes"
  obtains ret got p' b' where
    "turn_tcp_socket_recv_message ops (p, b) sizes = Some (ret, got, p', b')"
    "delivers alive rest p b ret got p' b'"
proof (cases "tt_expecting_len p = 0")
  case False
  then show ?thesis using turn_body [OF inv _ assms(2) sizes] that
    by (auto simp: turn_tcp_socket_recv_message_def)
next
  case True
  let ?c = "tt_compatibility p"
  obtain h where h: "turn_tcp_headerlen ?c = Some h" "length (tt_recv_buf p) < h" "h \<le> 4"
    using inv True by (auto simp: tt_inv_def turn_tcp_headerlen_def
        split: turn_socket_compatibility.splits)
  obtain ret src d b' where r:
    "turn_tcp_read ops p b (h - length (tt_recv_buf p)) =
       Some (ret, src, p\<lparr>tt_recv_buf := tt_recv_buf p @ d\<rparr>, b')"
    "length d \<le> h - length (tt_recv_buf p)" "rest b = d @ rest b'" "alive b'"
    "ret < 0 \<longrightarrow> d = []"
    by (rule turn_read [OF assms(2), of "h - length (tt_recv_buf p)" p]) (use h in simp_all)
  define p1 where "p1 = p\<lparr>tt_recv_buf := tt_recv_buf p @ d\<rparr>"
  have u1: "undelivered p1 (rest b') = undelivered p (rest b)"
    using r(3) by (simp add: p1_def undelivered_read)
  have ok1: "framing_ok ?c (undelivered p1 (rest b'))" using inv u1 by (simp add: tt_inv_def)
  have c1: "tt_compatibility p1 = ?c" "tt_expecting_len p1 = 0" using True by (simp_all add: p1_def)
  have short: "delivers alive rest p b ret' [] p1 b'"
    if "length (tt_recv_buf p1) < h" "ret' \<le> 0"
    for ret'
    using that h(1) u1 ok1 c1 r(4) by (simp add: delivers_def tt_inv_def)
  show ?thesis
  proof (cases "ret < 0 \<or> length (tt_recv_buf p1) < h")
    case True
    then show ?thesis using that [of "if ret < 0 then ret else 0" "[]" p1 b'] h r
        short [of "if ret < 0 then ret else 0"] c1
      by (auto simp: turn_tcp_socket_recv_message_def p1_def)
  next
    case False
    then have "length (tt_recv_buf p1) = h" using r(2) h(2) by (simp add: p1_def) linarith
    then obtain p2 where p2: "turn_tcp_header p1 = Some p2" "tt_inv p2 (rest b')"
      "0 < tt_expecting_len p2" "tt_compatibility p2 = ?c"
      "frames ?c (undelivered p2 (rest b')) = frames ?c (undelivered p1 (rest b'))"
      using header_keeps [of p1 "rest b'"] h(1) c1 ok1 by auto
    obtain ret2 got p3 b3 where b3: "turn_tcp_body ops p2 b' sizes = Some (ret2, got, p3, b3)"
      "delivers alive rest p2 b' ret2 got p3 b3"
      by (rule turn_body [OF p2(2,3) _ sizes]) (use r(4) False in simp_all)
    have "delivers alive rest p b ret2 got p3 b3"
      using b3(2) p2(4,5) u1 by (simp add: delivers_def)
    moreover have "turn_tcp_socket_recv_message ops (p, b) sizes = Some (ret2, got, p3, b3)"
      using True h(1) r(1) False p2(1) b3(1) c1
      by (simp add: turn_tcp_socket_recv_message_def p1_def [symmetric])
    ultimately show ?thesis using that by blast
  qed
qed

lemma turn_recv_loop:
  "tt_inv p (rest b) \<Longrightarrow> alive b \<Longrightarrow> \<forall>sizes \<in> set msgs. 65536 \<le> sum_list sizes \<Longrightarrow>
     \<exists>ret got' p' b'. turn_tcp_recv_loop ops (p, b) msgs i got = Some (ret, got @ got', p', b') \<and>
       tt_compatibility p' = tt_compatibility p \<and> tt_inv p' (rest b') \<and> alive b' \<and>
       map fst got' @ frames (tt_compatibility p) (undelivered p' (rest b')) =
         frames (tt_compatibility p) (undelivered p (rest b))"
proof (induction msgs arbitrary: p b i got)
  case (Cons sizes msgs)
  obtain ret m p1 b1 where one:
    "turn_tcp_socket_recv_message ops (p, b) sizes = Some (ret, m, p1, b1)"
    "delivers alive rest p b ret m p1 b1"
    by (rule turn_recv_message [OF Cons.prems(1,2)]) (use Cons.prems(3) in auto)
  show ?case
  proof (cases "ret \<le> 0")
    case True
    then show ?thesis using one by (auto simp: delivers_def)
  next
    case False
    obtain ret' got' p' b' where
      "turn_tcp_recv_loop ops (p1, b1) msgs (i + 1) (got @ m) = Some (ret', (got @ m) @ got', p', b')"
      "tt_compatibility p' = tt_compatibility p1" "tt_inv p' (rest b')" "alive b'"
      "map fst got' @ frames (tt_compatibility p1) (undelivered p' (rest b')) =
         frames (tt_compatibility p1) (undelivered p1 (rest b1))"
      using Cons.IH [of p1 b1 "i + 1" "got @ m"] Cons.prems(3) one(2)
      by (auto simp: delivers_def)
    then show ?thesis using False one
      by (intro exI [of _ ret'] exI [of _ "m @ got'"] exI [of _ p'] exI [of _ b'])
        (auto simp: delivers_def)
  qed
qed simp

end

section \<open>Any number of calls\<close>

text \<open>
  The calls a reader makes one after the other, each with its messages, up to the first that
  fails: the messages received.
\<close>

fun turn_tcp_poll ::
  "'b socket_ops \<Rightarrow> 'b turn_tcp_sock \<Rightarrow> nat list list list \<Rightarrow>
     (bytes list \<times> 'b turn_tcp_sock) option" where
  "turn_tcp_poll ops sock [] = Some ([], sock)"
| "turn_tcp_poll ops sock (msgs # calls) = do {
     (ret, got, sock) \<leftarrow> turn_tcp_socket_recv_messages ops sock msgs;
     if ret < 0 then Some (map fst got, sock)
     else do {
       (ms, sock) \<leftarrow> turn_tcp_poll ops sock calls;
       Some (map fst got @ ms, sock) } }"

text \<open>A message that is partly held when no more bytes come is not delivered.\<close>

lemma frames_held: "tt_inv p [] \<Longrightarrow> frames (tt_compatibility p) (undelivered p []) = []"
proof -
  assume i: "tt_inv p []"
  let ?c = "tt_compatibility p"
  show ?thesis
  proof (cases "tt_expecting_len p = 0")
    case True
    obtain h where h: "turn_tcp_headerlen ?c = Some h" "length (tt_recv_buf p) < h"
      using i True by (auto simp: tt_inv_def)
    moreover have "undelivered p [] = tt_recv_buf p" using True
      by (simp add: undelivered_def held_header_def)
    ultimately have "frame_head ?c (undelivered p []) = None"
      using headerlen_frame_head [OF h(1)] by simp
    then show ?thesis by (subst frames.simps) simp
  next
    case False
    then have "frame_head ?c (undelivered p []) = Some (length (held_header p), body_len p)"
      "length (tt_recv_buf p) < body_len p"
      using i by (auto simp: tt_inv_def)
    then show ?thesis by (subst frames.simps) (simp add: undelivered_def)
  qed
qed

context byte_source
begin

lemma turn_poll:
  "tt_inv p (rest b) \<Longrightarrow> alive b \<Longrightarrow>
     \<forall>msgs \<in> set calls. \<forall>sizes \<in> set msgs. 65536 \<le> sum_list sizes \<Longrightarrow>
     \<exists>ms p' b'. turn_tcp_poll ops (p, b) calls = Some (ms, p', b') \<and>
       tt_compatibility p' = tt_compatibility p \<and> tt_inv p' (rest b') \<and>
       ms @ frames (tt_compatibility p) (undelivered p' (rest b')) =
         frames (tt_compatibility p) (undelivered p (rest b))"
proof (induction calls arbitrary: p b)
  case (Cons msgs calls)
  obtain ret got p1 b1 where one:
    "turn_tcp_recv_loop ops (p, b) msgs 0 [] = Some (ret, got, p1, b1)"
    "tt_compatibility p1 = tt_compatibility p" "tt_inv p1 (rest b1)" "alive b1"
    "map fst got @ frames (tt_compatibility p) (undelivered p1 (rest b1)) =
         frames (tt_compatibility p) (undelivered p (rest b))"
    using turn_recv_loop [OF Cons.prems(1,2), of msgs 0 "[]"] Cons.prems(3) by auto
  show ?case
  proof (cases "ret < 0")
    case True
    then show ?thesis using one by (auto simp: turn_tcp_socket_recv_messages_def)
  next
    case False
    obtain ms p' b' where "turn_tcp_poll ops (p1, b1) calls = Some (ms, p', b')"
      "tt_compatibility p' = tt_compatibility p1" "tt_inv p' (rest b')"
      "ms @ frames (tt_compatibility p1) (undelivered p' (rest b')) =
         frames (tt_compatibility p1) (undelivered p1 (rest b1))"
      using Cons.IH [of p1 b1] one(3,4) Cons.prems(3) by auto
    then show ?thesis using one False
      by (auto simp: turn_tcp_socket_recv_messages_def)
  qed
qed simp

text \<open>
  From a fresh socket: the messages received are the first of the stream, cut at once; and
  when every byte has been read, they are all of them.
\<close>

lemma turn_poll_fresh:
  assumes c: "c \<noteq> NICE_TURN_SOCKET_COMPATIBILITY_MSN" and ok: "framing_ok c (rest b)" and "alive b"
    and "\<forall>msgs \<in> set calls. \<forall>sizes \<in> set msgs. 65536 \<le> sum_list sizes"
  shows "\<exists>ms p' b' later.
    turn_tcp_poll ops (nice_udp_turn_over_tcp_socket_new b c) calls = Some (ms, p', b') \<and>
    frames c (rest b) = ms @ later \<and> (rest b' = [] \<longrightarrow> later = [])"
proof -
  let ?p = "fst (nice_udp_turn_over_tcp_socket_new b c)"
  have u: "undelivered ?p s = s" for s
    by (simp add: nice_udp_turn_over_tcp_socket_new_def undelivered_def held_header_def)
  have cc: "tt_compatibility ?p = c" by (simp add: nice_udp_turn_over_tcp_socket_new_def)
  have "\<exists>h. turn_tcp_headerlen c = Some h \<and> 0 < h"
    using c by (cases c) (simp_all add: turn_tcp_headerlen_def)
  then have "tt_inv ?p (rest b)"
    using ok u cc unfolding tt_inv_def by (auto simp: nice_udp_turn_over_tcp_socket_new_def)
  then obtain ms p' b' where r: "turn_tcp_poll ops (?p, b) calls = Some (ms, p', b')"
    "tt_compatibility p' = c" "tt_inv p' (rest b')"
    "ms @ frames c (undelivered p' (rest b')) = frames c (rest b)"
    using turn_poll [of ?p b calls] assms(3,4) u cc by auto
  moreover have "nice_udp_turn_over_tcp_socket_new b c = (?p, b)"
    by (simp add: nice_udp_turn_over_tcp_socket_new_def)
  moreover have "rest b' = [] \<longrightarrow> frames c (undelivered p' (rest b')) = []"
    using frames_held [of p'] r(2,3) by auto
  ultimately show ?thesis by metis
qed

end

section \<open>What the sender writes\<close>

text \<open>The bytes of a message on the stream, and what the receiver makes of them.\<close>

definition framed :: "turn_socket_compatibility \<Rightarrow> output_message \<Rightarrow> bytes" where
  "framed c m = concat (turn_tcp_frame c m)"

definition arrives_as :: "turn_socket_compatibility \<Rightarrow> bytes \<Rightarrow> bytes" where
  "arrives_as c m = m @ replicate (turn_tcp_padlen c (length m)) 0"

text \<open>
  Messages the mode can carry: the length fields in them, where the framing relies on these,
  say what is there.
\<close>

definition mode_carries :: "turn_socket_compatibility \<Rightarrow> bytes \<Rightarrow> bool" where
  "mode_carries c m \<longleftrightarrow> (case c of
     NICE_TURN_SOCKET_COMPATIBILITY_GOOGLE \<Rightarrow> 0 < length m \<and> length m < 65536
   | NICE_TURN_SOCKET_COMPATIBILITY_OC2007 \<Rightarrow>
       2 < length m \<and> length m \<le> 65536 \<and> unat (be16 (m ! 0) (m ! 1)) = length m - 2
   | NICE_TURN_SOCKET_COMPATIBILITY_MSN \<Rightarrow> False
   | _ \<Rightarrow> 4 < length m \<and> length m \<le> 65536 \<and>
       length m = (if be16 (m ! 0) (m ! 1) < 0x4000 then 20 else 4) + unat (be16 (m ! 2) (m ! 3)))"

lemma padlen_bound: "len \<le> 65536 \<Longrightarrow> len + turn_tcp_padlen c len \<le> 65536"
  by (simp add: turn_tcp_padlen_def) presburger

lemma framed_eq:
  "framed c m = (case c of
     NICE_TURN_SOCKET_COMPATIBILITY_GOOGLE \<Rightarrow> be16_bytes (of_nat (length (concat m))) @ concat m
   | NICE_TURN_SOCKET_COMPATIBILITY_OC2007 \<Rightarrow>
       [if length (concat m) mod 65536 > 30 \<and> turn_tcp_cookie m 0 = be32_bytes TURN_MAGIC_COOKIE
        then 2 else 3, 0] @ concat m
   | NICE_TURN_SOCKET_COMPATIBILITY_MSN \<Rightarrow> concat m
   | _ \<Rightarrow> arrives_as c (concat m))"
  by (cases c) (auto simp: framed_def turn_tcp_frame_def arrives_as_def sock_simps Let_def
      MS_TURN_CONTROL_MESSAGE_def MS_TURN_END_TO_END_DATA_def MAGIC_COOKIE_OFFSET_def
      be32_bytes_def simp del: length_concat)

lemma be16_of_len: "n < 65536 \<Longrightarrow> (case be16_bytes (of_nat n) of [a, b] \<Rightarrow> unat (be16 a b) = n | _ \<Rightarrow> False)"
  by (simp add: be16_bytes_def bytes_simps unat_of_nat)

lemma framed_head:
  assumes c: "mode_carries c (concat m)"
  shows "\<exists>k. frame_head c (framed c m @ s) = Some (k, length (arrives_as c (concat m))) \<and>
    length (framed c m) = k + length (arrives_as c (concat m)) \<and>
    drop k (framed c m) = arrives_as c (concat m) \<and>
    head_ok c (framed c m @ s) k (length (arrives_as c (concat m)))"
proof -
  define b where "b = concat m"
  have cb: "mode_carries c b" using c by (simp add: b_def)
  consider "pads c" | "c = NICE_TURN_SOCKET_COMPATIBILITY_GOOGLE"
    | "c = NICE_TURN_SOCKET_COMPATIBILITY_OC2007" | "c = NICE_TURN_SOCKET_COMPATIBILITY_MSN"
    by (cases c) (auto simp: pads_def)
  then show ?thesis
  proof cases
    case 1
    have b4: "4 < length b" "length b \<le> 65536"
      "length b = (if be16 (b ! 0) (b ! 1) < 0x4000 then 20 else 4) + unat (be16 (b ! 2) (b ! 3))"
      using cb 1 by (auto simp: mode_carries_def case_pads)
    have "frame_head c (framed c m @ s) = Some (0, length b + turn_tcp_padlen c (length b))"
      using 1 b4 by (simp add: frame_head_def case_pads framed_eq arrives_as_def nth_append Let_def
          flip: b_def)
    moreover have "head_ok c (framed c m @ s) 0 (length b + turn_tcp_padlen c (length b))"
      using 1 b4 padlen_bound [OF b4(2)] by (simp add: head_ok_def case_pads)
    ultimately show ?thesis using 1
      by (intro exI [of _ 0]) (simp add: framed_eq case_pads arrives_as_def flip: b_def)
  next
    case 2
    have l: "0 < length b" "length b < 65536" using cb 2 by (auto simp: mode_carries_def)
    have a: "arrives_as c b = b" using 2 by (simp add: arrives_as_def turn_tcp_padlen_def pads_def)
    obtain x y where xy: "be16_bytes (of_nat (length b)) = [x, y]" "unat (be16 x y) = length b"
      using be16_of_len [OF l(2)] by (auto split: list.splits)
    show ?thesis using 2 l a xy
      by (intro exI [of _ 2]) (simp add: framed_eq frame_head_def head_ok_def flip: b_def)
  next
    case 3
    have l: "2 < length b" "length b \<le> 65536" "unat (be16 (b ! 0) (b ! 1)) = length b - 2"
      using cb 3 by (auto simp: mode_carries_def)
    have a: "arrives_as c b = b" using 3 by (simp add: arrives_as_def turn_tcp_padlen_def pads_def)
    obtain pt where f: "framed c m = [pt, 0] @ b" "pt = 2 \<or> pt = 3"
      using 3 by (simp add: framed_eq flip: b_def)
    show ?thesis using 3 l a f
      by (intro exI [of _ 2])
        (auto simp: frame_head_def head_ok_def nth_append b_def [symmetric])
  next
    case 4
    then show ?thesis using cb by (simp add: mode_carries_def)
  qed
qed

lemma frames_framed:
  assumes "\<forall>m \<in> set ms. mode_carries c (concat m)"
  shows "frames c (concat (map (framed c) ms)) = map (arrives_as c \<circ> concat) ms \<and>
    framing_ok c (concat (map (framed c) ms))"
  using assms
proof (induction ms)
  case Nil
  show ?case by (subst frames.simps, subst framing_ok.simps)
      (simp add: frame_head_def split: turn_socket_compatibility.splits)
next
  case (Cons m ms)
  let ?s = "concat (map (framed c) ms)"
  obtain k where k: "frame_head c (framed c m @ ?s) = Some (k, length (arrives_as c (concat m)))"
    "length (framed c m) = k + length (arrives_as c (concat m))"
    "drop k (framed c m) = arrives_as c (concat m)"
    "head_ok c (framed c m @ ?s) k (length (arrives_as c (concat m)))"
    using framed_head [of c m ?s] Cons.prems by auto
  have d: "drop (k + length (arrives_as c (concat m))) (framed c m @ ?s) = ?s"
    unfolding k(2) [symmetric] by simp
  have t: "take (length (arrives_as c (concat m))) (drop k (framed c m @ ?s)) = arrives_as c (concat m)"
    using k(2,3) by simp
  have "frames c (framed c m @ ?s) = arrives_as c (concat m) # frames c ?s"
    using frames_head [OF k(1)] d t k(2) by simp
  moreover have "framing_ok c (framed c m @ ?s)"
    using Cons by (subst framing_ok.simps) (simp add: k(1,4) d del: drop_append)
  ultimately show ?case using Cons by simp
qed

context reliable_socket
begin

lemma turn_send_reliable_loop:
  "alive b \<Longrightarrow> \<exists>r b'. turn_tcp_send_reliable_loop ops (p, b) to ms i = Some (r, p, b') \<and> alive b' \<and>
     grows good out b b' (concat (map (framed (tt_compatibility p)) ms)) \<and>
     (good b' \<longrightarrow> r = int (i + length ms))"
proof (induction ms arbitrary: b i)
  case (Cons m ms)
  let ?f = "turn_tcp_frame (tt_compatibility p) m"
  obtain r1 b1 where b1: "op_send_messages_reliable ops b to [?f] = Some (r1, b1)" "alive b1"
    "grows good out b b1 (framed (tt_compatibility p) m)" "good b1 \<longrightarrow> r1 = 1"
    using send_reliable [OF Cons.prems, of to "[?f]"] by (auto simp: framed_def)
  obtain r2 b2 where b2: "turn_tcp_send_reliable_loop ops (p, b1) to ms (i + 1) = Some (r2, p, b2)" "alive b2"
    "grows good out b1 b2 (concat (map (framed (tt_compatibility p)) ms))"
    "good b2 \<longrightarrow> r2 = int (i + 1 + length ms)"
    using Cons.IH [OF b1(2), of "i + 1"] by blast
  show ?case
  proof (cases "(if r1 = 1 then int (output_message_get_size ?f) else r1) < 0")
    case True
    then have "\<not> good b1" using b1(4) by auto
    then show ?thesis using b1 True
      by (auto simp: turn_tcp_socket_send_message_def nice_socket_send_messages_reliable_def Let_def grows_def)
  next
    case False
    then show ?thesis using b1 b2 grows_trans [OF b1(3) b2(3)]
      by (auto simp: turn_tcp_socket_send_message_def nice_socket_send_messages_reliable_def Let_def)
  qed
qed simp

end

text \<open>
  Over TCP, with any number of write callbacks afterwards: as long as nothing has gone wrong with a
  send, what the kernel has taken and what waits in the queue are the framed messages in sequence.
\<close>

lemma framed_socket_in_order:
  assumes k: "kernel_sends malloc gsend out calls" and a: "tcp_alive b"
  shows "\<exists>r b' b''. turn_tcp_socket_send_messages_reliable (tcp_ops malloc gsend grecv) (p, b) to ms =
      Some (r, p, b') \<and> tcp_writables malloc gsend hups b' = Some b'' \<and> tcp_alive b'' \<and>
    (tcp_unharmed calls b'' \<longrightarrow> r = int (length ms) \<and>
      tcp_taken out b'' = tcp_taken out b @ concat (map (framed (tt_compatibility p)) ms))"
proof -
  obtain r b' where b': "turn_tcp_socket_send_messages_reliable (tcp_ops malloc gsend grecv) (p, b) to ms =
      Some (r, p, b')" "tcp_alive b'" "tcp_unharmed calls b' \<longrightarrow> r = int (length ms) \<and>
      tcp_taken out b' = tcp_taken out b @ concat (map (framed (tt_compatibility p)) ms)"
    using reliable_socket.turn_send_reliable_loop [OF tcp_reliable_socket [OF k, where grecv = grecv] a,
        where i = 0 and p = p and to = to and ms = ms]
    unfolding turn_tcp_socket_send_messages_reliable_def grows_def by auto
  then show ?thesis using tcp_writables_taken [OF k b'(2), of hups] by fastforce
qed

end
