(* ===== verification/Sock_Tunnel.thy ===== *)
theory Sock_Tunnel
  imports Sock_Tcp
begin

text \<open>
  Sockets that first negotiate with a proxy over a base socket and then pass everything
  through: the pseudo-SSL socket of \<open>socket/pseudossl.c\<close> and the SOCKS 5 client of
  \<open>socket/socks5.c\<close>. What is sent reliably before the negotiation ends is queued, and sent
  when it ends. \<open>stack\<close> is what an array on the stack happens to hold. The private data is
  missing only while the socket is released, so the tests for that always pass and are left
  out; a base socket of \<open>None\<close> has been freed after an error.
\<close>

section \<open>Pseudo-SSL\<close>

datatype pseudossl_compatibility =
    NICE_PSEUDOSSL_SOCKET_COMPATIBILITY_GOOGLE
  | NICE_PSEUDOSSL_SOCKET_COMPATIBILITY_MSOC

record 'b pseudossl_priv =
  ps_handshaken :: bool
  ps_base_socket :: "'b option"
  ps_send_queue :: send_queue
  ps_compatibility :: pseudossl_compatibility

definition SSL_SERVER_GOOGLE_HANDSHAKE :: bytes where
  "SSL_SERVER_GOOGLE_HANDSHAKE =
   [0x16, 0x03, 0x01, 0x00, 0x4a, 0x02, 0x00, 0x00, 0x46, 0x03, 0x01, 0x42,
    0x85, 0x45, 0xa7, 0x27, 0xa9, 0x5d, 0xa0, 0xb3, 0xc5, 0xe7, 0x53, 0xda,
    0x48, 0x2b, 0x3f, 0xc6, 0x5a, 0xca, 0x89, 0xc1, 0x58, 0x52, 0xa1, 0x78,
    0x3c, 0x5b, 0x17, 0x46, 0x00, 0x85, 0x3f, 0x20, 0x0e, 0xd3, 0x06, 0x72,
    0x5b, 0x5b, 0x1b, 0x5f, 0x15, 0xac, 0x13, 0xf9, 0x88, 0x53, 0x9d, 0x9b,
    0xe8, 0x3d, 0x7b, 0x0c, 0x30, 0x32, 0x6e, 0x38, 0x4d, 0xa2, 0x75, 0x57,
    0x41, 0x6c, 0x34, 0x5c, 0x00, 0x04, 0x00]"

definition SSL_CLIENT_GOOGLE_HANDSHAKE :: bytes where
  "SSL_CLIENT_GOOGLE_HANDSHAKE =
   [0x80, 0x46, 0x01, 0x03, 0x01, 0x00, 0x2d, 0x00, 0x00, 0x00, 0x10, 0x01,
    0x00, 0x80, 0x03, 0x00, 0x80, 0x07, 0x00, 0xc0, 0x06, 0x00, 0x40, 0x02,
    0x00, 0x80, 0x04, 0x00, 0x80, 0x00, 0x00, 0x04, 0x00, 0xfe, 0xff, 0x00,
    0x00, 0x0a, 0x00, 0xfe, 0xfe, 0x00, 0x00, 0x09, 0x00, 0x00, 0x64, 0x00,
    0x00, 0x62, 0x00, 0x00, 0x03, 0x00, 0x00, 0x06, 0x1f, 0x17, 0x0c, 0xa6,
    0x2f, 0x00, 0x78, 0xfc, 0x46, 0x55, 0x2e, 0xb1, 0x83, 0x39, 0xf1, 0xea]"

definition SSL_SERVER_MSOC_HANDSHAKE :: bytes where
  "SSL_SERVER_MSOC_HANDSHAKE =
   [0x16, 0x03, 0x01, 0x00, 0x4e, 0x02, 0x00, 0x00, 0x46, 0x03, 0x01, 0x00,
    0x00, 0x00, 0x00, 0x00, 0x00, 0x00, 0x00, 0x00, 0x00, 0x00, 0x00, 0x00,
    0x00, 0x00, 0x00, 0x00, 0x00, 0x00, 0x00, 0x00, 0x00, 0x00, 0x00, 0x00,
    0x00, 0x00, 0x00, 0x00, 0x00, 0x00, 0x00, 0x20, 0x00, 0x00, 0x00, 0x00,
    0x00, 0x00, 0x00, 0x00, 0x00, 0x00, 0x00, 0x00, 0x00, 0x00, 0x00, 0x00,
    0x00, 0x00, 0x00, 0x00, 0x00, 0x00, 0x00, 0x00, 0x00, 0x00, 0x00, 0x00,
    0x00, 0x00, 0x00, 0x00, 0x00, 0x18, 0x00, 0x0e, 0x00, 0x00, 0x00]"

definition SSL_CLIENT_MSOC_HANDSHAKE :: bytes where
  "SSL_CLIENT_MSOC_HANDSHAKE =
   [0x16, 0x03, 0x01, 0x00, 0x2d, 0x01, 0x00, 0x00, 0x29, 0x03, 0x01, 0xc1,
    0xfc, 0xd5, 0xa3, 0x6d, 0x93, 0xdd, 0x7e, 0x0b, 0x45, 0x67, 0x3f, 0xec,
    0x79, 0x85, 0xfb, 0xbc, 0x3f, 0xd6, 0x60, 0xc2, 0xce, 0x84, 0x85, 0x08,
    0x1b, 0x81, 0x21, 0xbc, 0xaa, 0x10, 0xfb, 0x00, 0x00, 0x02, 0x00, 0x18,
    0x01, 0x00]"

definition ssl_hello :: "pseudossl_compatibility \<Rightarrow> bytes" where
  "ssl_hello c = (case c of
     NICE_PSEUDOSSL_SOCKET_COMPATIBILITY_MSOC \<Rightarrow> SSL_CLIENT_MSOC_HANDSHAKE
   | NICE_PSEUDOSSL_SOCKET_COMPATIBILITY_GOOGLE \<Rightarrow> SSL_CLIENT_GOOGLE_HANDSHAKE)"

definition nice_pseudossl_socket_new ::
  "'b socket_ops \<Rightarrow> 'b \<Rightarrow> pseudossl_compatibility \<Rightarrow> 'b pseudossl_priv option" where
  "nice_pseudossl_socket_new ops base c = do {
     (ret, base) \<leftarrow> nice_socket_send_reliable ops base None (ssl_hello c);
     Some \<lparr>ps_handshaken = False, ps_base_socket = Some base, ps_send_queue = [],
       ps_compatibility = c\<rparr> }"

text \<open>The random fields of the server's answer are blanked before the comparison.\<close>

definition server_handshake_valid :: "pseudossl_compatibility \<Rightarrow> bytes \<Rightarrow> bool" where
  "server_handshake_valid c data = (case c of
     NICE_PSEUDOSSL_SOCKET_COMPATIBILITY_MSOC \<Rightarrow>
       length data = length SSL_SERVER_MSOC_HANDSHAKE \<and>
       put (put data 11 (replicate 32 0)) 44 (replicate 32 0) = SSL_SERVER_MSOC_HANDSHAKE
   | NICE_PSEUDOSSL_SOCKET_COMPATIBILITY_GOOGLE \<Rightarrow>
       length data = length SSL_SERVER_GOOGLE_HANDSHAKE \<and> data = SSL_SERVER_GOOGLE_HANDSHAKE)"

definition pseudossl_recv_messages ::
  "'b socket_ops \<Rightarrow> 'b pseudossl_priv \<Rightarrow> nat list list \<Rightarrow>
     (int \<times> received \<times> 'b pseudossl_priv) option" where
  "pseudossl_recv_messages ops priv recv_messages =
     (if ps_handshaken priv then
        (case ps_base_socket priv of
           None \<Rightarrow> Some (0, [], priv)
         | Some base \<Rightarrow> do {
             (ret, got, base) \<leftarrow> nice_socket_recv_messages ops base recv_messages;
             Some (ret, got, priv\<lparr>ps_base_socket := Some base\<rparr>) })
      else
        (case ps_base_socket priv of
           None \<Rightarrow> Some (- 1, [], priv)
         | Some base \<Rightarrow>
             let n = (case ps_compatibility priv of
                 NICE_PSEUDOSSL_SOCKET_COMPATIBILITY_MSOC \<Rightarrow> length SSL_SERVER_MSOC_HANDSHAKE
               | NICE_PSEUDOSSL_SOCKET_COMPATIBILITY_GOOGLE \<Rightarrow> length SSL_SERVER_GOOGLE_HANDSHAKE)
             in do {
             (ret, got, base) \<leftarrow> nice_socket_recv_messages ops base [[n]];
             if ret \<le> 0 then Some (ret, [], priv\<lparr>ps_base_socket := Some base\<rparr>)
             else if ret = 1 \<and> server_handshake_valid (ps_compatibility priv)
                       (case got of [] \<Rightarrow> [] | m # _ \<Rightarrow> fst m)
             then do {
               base \<leftarrow> nice_socket_flush_send_queue ops base (ps_send_queue priv);
               Some (0, [], priv\<lparr>ps_handshaken := True, ps_base_socket := Some base,
                 ps_send_queue := []\<rparr>) }
             else Some (- 1, [], priv\<lparr>ps_base_socket := None\<rparr>) }))"

definition pseudossl_send_messages ::
  "'b socket_ops \<Rightarrow> 'b pseudossl_priv \<Rightarrow> sockaddr option \<Rightarrow> output_message list \<Rightarrow>
     (int \<times> 'b pseudossl_priv) option" where
  "pseudossl_send_messages ops priv to messages =
     (if ps_handshaken priv then
        (case ps_base_socket priv of
           None \<Rightarrow> Some (- 1, priv)
         | Some base \<Rightarrow> do {
             (ret, base) \<leftarrow> nice_socket_send_messages ops base to messages;
             Some (ret, priv\<lparr>ps_base_socket := Some base\<rparr>) })
      else Some (0, priv))"

definition pseudossl_send_messages_reliable ::
  "'b socket_ops \<Rightarrow> (nat \<Rightarrow> bytes) \<Rightarrow> 'b pseudossl_priv \<Rightarrow> sockaddr option \<Rightarrow>
     output_message list \<Rightarrow> (int \<times> 'b pseudossl_priv) option" where
  "pseudossl_send_messages_reliable ops malloc priv to messages =
     (if ps_handshaken priv then
        (case ps_base_socket priv of
           None \<Rightarrow> Some (- 1, priv)
         | Some base \<Rightarrow> do {
             (ret, base) \<leftarrow> nice_socket_send_messages_reliable ops base to messages;
             Some (ret, priv\<lparr>ps_base_socket := Some base\<rparr>) })
      else do {
        q \<leftarrow> nice_socket_queue_send malloc (ps_send_queue priv) to messages;
        Some (int (length messages), priv\<lparr>ps_send_queue := q\<rparr>) })"

section \<open>SOCKS 5\<close>

datatype socks_state = SOCKS_STATE_INIT | SOCKS_STATE_AUTH | SOCKS_STATE_CONNECT
  | SOCKS_STATE_CONNECTED | SOCKS_STATE_ERROR

record 'b socks5_priv =
  so_state :: socks_state
  so_base_socket :: "'b option"
  so_addr :: sockaddr
  so_username :: "bytes option"
  so_password :: "bytes option"
  so_send_queue :: send_queue

definition socks5_greeting :: "bytes option \<Rightarrow> bytes option \<Rightarrow> bytes" where
  "socks5_greeting username password =
     (if username \<noteq> None \<or> password \<noteq> None then [5, 2, 0, 2] else [5, 1, 0])"

definition nice_socks5_socket_new ::
  "'b socket_ops \<Rightarrow> 'b \<Rightarrow> sockaddr \<Rightarrow> bytes option \<Rightarrow> bytes option \<Rightarrow> 'b socks5_priv option" where
  "nice_socks5_socket_new ops base addr username password = do {
     (ret, base) \<leftarrow> nice_socket_send_reliable ops base None (socks5_greeting username password);
     Some \<lparr>so_state = SOCKS_STATE_INIT, so_base_socket = Some base, so_addr = addr,
       so_username = username, so_password = password, so_send_queue = []\<rparr> }"

text \<open>The label \<open>error\<close>.\<close>

definition socks5_error :: "'b socks5_priv \<Rightarrow> (int \<times> received \<times> 'b socks5_priv) option" where
  "socks5_error priv =
     Some (- 1, [], priv\<lparr>so_base_socket := None, so_state := SOCKS_STATE_ERROR\<rparr>)"

text \<open>
  The connect request. An address of no family leaves the local union as it was, and the
  family read from it is then indeterminate.
\<close>

definition socks5_request :: "sockaddr \<Rightarrow> bytes option" where
  "socks5_request addr = (case addr of
     AF_INET a \<Rightarrow> Some ([5, 1, 0, 1] @ host_bytes32 (sin_addr a) @ host_bytes16 (sin_port a))
   | AF_INET6 a \<Rightarrow> Some ([5, 1, 0, 4] @ sin6_addr a @ host_bytes16 (sin6_port a))
   | AF_OTHER f \<Rightarrow> None)"

definition socks5_send_connect ::
  "'b socket_ops \<Rightarrow> 'b socks5_priv \<Rightarrow> 'b \<Rightarrow> (int \<times> received \<times> 'b socks5_priv) option" where
  "socks5_send_connect ops priv base = do {
     msg \<leftarrow> socks5_request (so_addr priv);
     (ret, base) \<leftarrow> nice_socket_send_reliable ops base None msg;
     Some (0, [], priv\<lparr>so_base_socket := Some base, so_state := SOCKS_STATE_CONNECT\<rparr>) }"

definition socks5_credentials :: "bytes \<Rightarrow> bytes \<Rightarrow> bytes" where
  "socks5_credentials user password =
     [1, of_nat (length user)] @ user @ [of_nat (length password)] @ password"

text \<open>
  One read into an array of \<open>n\<close> bytes on the stack: what the array holds afterwards. How many
  bytes came is not looked at.
\<close>

definition socks5_read ::
  "'b socket_ops \<Rightarrow> (nat \<Rightarrow> bytes) \<Rightarrow> 'b \<Rightarrow> nat \<Rightarrow> (int \<times> bytes \<times> 'b) option" where
  "socks5_read ops stack base n = do {
     (ret, got, base) \<leftarrow> nice_socket_recv_messages ops base [[n]];
     let data = (case got of [] \<Rightarrow> [] | m # _ \<Rightarrow> fst m);
     Some (ret, data @ drop (length data) (stack n), base) }"

definition socks5_recv_init ::
  "'b socket_ops \<Rightarrow> (nat \<Rightarrow> bytes) \<Rightarrow> 'b socks5_priv \<Rightarrow> 'b \<Rightarrow>
     (int \<times> received \<times> 'b socks5_priv) option" where
  "socks5_recv_init ops stack priv base = do {
     (ret, data, base) \<leftarrow> socks5_read ops stack base 2;
     let priv = priv\<lparr>so_base_socket := Some base\<rparr>;
     if ret \<le> 0 then Some (ret, [], priv)
     else if ret = 1 \<and> data ! 0 = 5 then
       if data ! 1 = 2 then
         if so_username priv \<noteq> None \<or> so_password priv \<noteq> None then
           let user = (case so_username priv of None \<Rightarrow> [] | Some u \<Rightarrow> u);
               pass = (case so_password priv of None \<Rightarrow> [] | Some u \<Rightarrow> u)
           in if length user > 255 \<or> length pass > 255 then socks5_error priv
              else do {
                (ret, base) \<leftarrow> nice_socket_send_reliable ops base None
                   (socks5_credentials user pass);
                Some (0, [], priv\<lparr>so_base_socket := Some base, so_state := SOCKS_STATE_AUTH\<rparr>) }
         else socks5_error priv
       else if data ! 1 = 0 then socks5_send_connect ops priv base
       else socks5_error priv
     else socks5_error priv }"

definition socks5_recv_auth ::
  "'b socket_ops \<Rightarrow> (nat \<Rightarrow> bytes) \<Rightarrow> 'b socks5_priv \<Rightarrow> 'b \<Rightarrow>
     (int \<times> received \<times> 'b socks5_priv) option" where
  "socks5_recv_auth ops stack priv base = do {
     (ret, data, base) \<leftarrow> socks5_read ops stack base 2;
     let priv = priv\<lparr>so_base_socket := Some base\<rparr>;
     if ret \<le> 0 then Some (ret, [], priv)
     else if ret = 1 then
       if data ! 0 = 1 \<and> data ! 1 = 0 then socks5_send_connect ops priv base
       else socks5_error priv
     else Some (0, [], priv) }"

text \<open>The reply: four bytes, then the bound address, which must be there already.\<close>

definition socks5_recv_connect ::
  "'b socket_ops \<Rightarrow> (nat \<Rightarrow> bytes) \<Rightarrow> 'b socks5_priv \<Rightarrow> 'b \<Rightarrow>
     (int \<times> received \<times> 'b socks5_priv) option" where
  "socks5_recv_connect ops stack priv base = do {
     (ret, data, base) \<leftarrow> socks5_read ops stack base 4;
     let priv = priv\<lparr>so_base_socket := Some base\<rparr>;
     if ret \<le> 0 then Some (ret, [], priv)
     else if ret = 1 \<and> data ! 0 = 5 \<and> data ! 1 = 0 \<and> data ! 2 = 0 \<and> (data ! 3 = 1 \<or> data ! 3 = 4)
     then do {
       (ret, data, base) \<leftarrow> socks5_read ops stack base (if data ! 3 = 1 then 6 else 18);
       if ret \<noteq> 1 then socks5_error (priv\<lparr>so_base_socket := Some base\<rparr>)
       else do {
         base \<leftarrow> nice_socket_flush_send_queue ops base (so_send_queue priv);
         Some (0, [], priv\<lparr>so_base_socket := Some base, so_send_queue := [],
           so_state := SOCKS_STATE_CONNECTED\<rparr>) } }
     else socks5_error priv }"

definition socks5_recv_messages ::
  "'b socket_ops \<Rightarrow> (nat \<Rightarrow> bytes) \<Rightarrow> 'b socks5_priv \<Rightarrow> nat list list \<Rightarrow>
     (int \<times> received \<times> 'b socks5_priv) option" where
  "socks5_recv_messages ops stack priv recv_messages =
     (case (so_state priv, so_base_socket priv) of
        (SOCKS_STATE_CONNECTED, Some base) \<Rightarrow> do {
          (ret, got, base) \<leftarrow> nice_socket_recv_messages ops base recv_messages;
          let priv = priv\<lparr>so_base_socket := Some base\<rparr>;
          if ret \<le> 0 then Some (ret, got, priv)
          else Some (ret, map (\<lambda>m. (fst m, Some (so_addr priv))) got, priv) }
      | (SOCKS_STATE_INIT, Some base) \<Rightarrow> socks5_recv_init ops stack priv base
      | (SOCKS_STATE_AUTH, Some base) \<Rightarrow> socks5_recv_auth ops stack priv base
      | (SOCKS_STATE_CONNECT, Some base) \<Rightarrow> socks5_recv_connect ops stack priv base
      | (SOCKS_STATE_ERROR, _) \<Rightarrow> socks5_error priv
      | (_, None) \<Rightarrow> Some (- 1, [], priv))"

definition socks5_send_messages ::
  "'b socket_ops \<Rightarrow> 'b socks5_priv \<Rightarrow> sockaddr option \<Rightarrow> output_message list \<Rightarrow>
     (int \<times> 'b socks5_priv) option" where
  "socks5_send_messages ops priv to messages =
     (if so_state priv = SOCKS_STATE_CONNECTED then
        (case so_base_socket priv of
           None \<Rightarrow> Some (- 1, priv)
         | Some base \<Rightarrow> do {
             (ret, base) \<leftarrow> nice_socket_send_messages ops base to messages;
             Some (ret, priv\<lparr>so_base_socket := Some base\<rparr>) })
      else if so_state priv = SOCKS_STATE_ERROR then Some (- 1, priv)
      else Some (0, priv))"

definition socks5_send_messages_reliable ::
  "'b socket_ops \<Rightarrow> (nat \<Rightarrow> bytes) \<Rightarrow> 'b socks5_priv \<Rightarrow> sockaddr option \<Rightarrow>
     output_message list \<Rightarrow> (int \<times> 'b socks5_priv) option" where
  "socks5_send_messages_reliable ops malloc priv to messages =
     (if so_state priv = SOCKS_STATE_CONNECTED then
        (case so_base_socket priv of
           None \<Rightarrow> Some (- 1, priv)
         | Some base \<Rightarrow> do {
             (ret, base) \<leftarrow> nice_socket_send_messages_reliable ops base to messages;
             Some (ret, priv\<lparr>so_base_socket := Some base\<rparr>) })
      else if so_state priv = SOCKS_STATE_ERROR then Some (- 1, priv)
      else do {
        q \<leftarrow> nice_socket_queue_send malloc (so_send_queue priv) to messages;
        Some (int (length messages), priv\<lparr>so_send_queue := q\<rparr>) })"

end
