(* ===== verification/Sock_Http.thy ===== *)
theory Sock_Http
  imports Sock_Tcp
begin

text \<open>
  The HTTP CONNECT client of \<open>socket/http.c\<close>: the proxy's answer is read into a ring buffer and
  parsed piece by piece; once connected, everything passes through. The ring buffer is the
  allocated block (\<open>recv_buf\<close>, as long as \<open>recv_buf_length\<close>), the position of its first byte
  and the number of bytes in use. A read outside the block, a remainder by zero or a failed
  assertion is \<open>None\<close>. \<open>gsize\<close> has 32 bits. The text form of an address and base64 are
  arguments; as in the other sockets, the tests for private data that has been released are
  left out.
\<close>

section \<open>The socket and its request\<close>

datatype http_state = HTTP_STATE_INIT | HTTP_STATE_HEADERS | HTTP_STATE_BODY
  | HTTP_STATE_CONNECTED | HTTP_STATE_ERROR

record 'b http_priv =
  ht_state :: http_state
  ht_base_socket :: "'b option"
  ht_addr :: sockaddr
  ht_username :: "bytes option"
  ht_password :: "bytes option"
  ht_send_queue :: send_queue
  ht_recv_buf :: bytes
  ht_recv_buf_pos :: nat
  ht_recv_buf_fill :: nat
  ht_content_length :: nat

definition G_MAXSIZE :: nat where "G_MAXSIZE = 2 ^ 32 - 1"

definition crlf :: bytes where "crlf = [13, 10]"

definition http_request ::
  "(bytes \<Rightarrow> bytes) \<Rightarrow> bytes \<Rightarrow> u32 \<Rightarrow> bytes option \<Rightarrow> bytes option \<Rightarrow> bytes" where
  "http_request base64 host port username password =
     c_string ''CONNECT '' @ host @ c_string '':'' @ decimal (unat port) @
       c_string '' HTTP/1.0'' @ crlf @
     c_string ''Host: '' @ host @ crlf @
     c_string ''User-Agent: libnice'' @ crlf @
     c_string ''Content-Length: 0'' @ crlf @
     c_string ''Proxy-Connection: Keep-Alive'' @ crlf @
     c_string ''Connection: Keep-Alive'' @ crlf @
     c_string ''Cache-Control: no-cache'' @ crlf @
     c_string ''Pragma: no-cache'' @ crlf @
     (case username of None \<Rightarrow> []
        | Some u \<Rightarrow> c_string ''Proxy-Authorization: Basic '' @
            base64 (u @ c_string '':'' @ (case password of None \<Rightarrow> [] | Some p \<Rightarrow> p)) @ crlf) @
     crlf"

definition nice_http_socket_new ::
  "'b socket_ops \<Rightarrow> (bytes \<Rightarrow> bytes) \<Rightarrow> (sockaddr \<Rightarrow> bytes) \<Rightarrow> 'b \<Rightarrow> sockaddr \<Rightarrow>
     bytes option \<Rightarrow> bytes option \<Rightarrow> 'b http_priv option" where
  "nice_http_socket_new ops base64 to_string base addr username password = do {
     (ret, base) \<leftarrow> nice_socket_send_messages_reliable ops base None
        [[http_request base64 (to_string addr) (nice_address_get_port addr) username password]];
     Some \<lparr>ht_state = HTTP_STATE_INIT, ht_base_socket = Some base, ht_addr = addr,
       ht_username = username, ht_password = password, ht_send_queue = [],
       ht_recv_buf = [], ht_recv_buf_pos = 0, ht_recv_buf_fill = 0, ht_content_length = 0\<rparr> }"

section \<open>The ring buffer\<close>

definition assert_ring_buffer_valid :: "'b http_priv \<Rightarrow> unit option" where
  "assert_ring_buffer_valid p =
     (if ht_recv_buf_fill p \<le> length (ht_recv_buf p) \<and>
         (ht_recv_buf_pos p = 0 \<or> ht_recv_buf_pos p < length (ht_recv_buf p))
      then Some () else None)"

definition GET_BYTE :: "'b http_priv \<Rightarrow> nat \<Rightarrow> u8 option" where
  "GET_BYTE p pos = (if ht_recv_buf p = [] then None
     else rd (ht_recv_buf p) ((pos + ht_recv_buf_pos p) mod length (ht_recv_buf p)))"

definition has_wrapped :: "'b http_priv \<Rightarrow> bool" where
  "has_wrapped p \<longleftrightarrow> ht_recv_buf_pos p + ht_recv_buf_fill p > length (ht_recv_buf p)"

definition ring_consume :: "'b http_priv \<Rightarrow> nat \<Rightarrow> 'b http_priv option" where
  "ring_consume p n = (if ht_recv_buf p = [] then None
     else Some (p\<lparr>ht_recv_buf_pos := (ht_recv_buf_pos p + n) mod length (ht_recv_buf p),
                  ht_recv_buf_fill := ht_recv_buf_fill p - n\<rparr>))"

definition memcpy_ring_buffer_to_buffer ::
  "'b http_priv \<Rightarrow> nat \<Rightarrow> (bytes \<times> 'b http_priv) option" where
  "memcpy_ring_buffer_to_buffer p buffer_length = (
     let buf = ht_recv_buf p; pos = ht_recv_buf_pos p; fill = ht_recv_buf_fill p in do {
     data \<leftarrow> (if has_wrapped p then
         let len = min (length buf - pos) buffer_length in do {
           a \<leftarrow> rdn buf pos len;
           b \<leftarrow> rdn buf 0 (min (fill - len) (buffer_length - len));
           Some (a @ b) }
       else rdn buf pos (min fill buffer_length));
     p \<leftarrow> ring_consume p (length data);
     Some (data, p) })"

text \<open>
  The caller's messages filled from the ring buffer: what each buffer touched then holds, per
  message. The code stores the number of bytes in the size of the buffer, not in the length
  of the message.
\<close>

fun ring_to_buffers ::
  "'b http_priv \<Rightarrow> nat list \<Rightarrow> (bytes list \<times> 'b http_priv) option" where
  "ring_to_buffers p [] = Some ([], p)"
| "ring_to_buffers p (sz # sizes) =
     (if ht_recv_buf_fill p > 0 then do {
        (data, p) \<leftarrow> memcpy_ring_buffer_to_buffer p sz;
        (rest, p) \<leftarrow> ring_to_buffers p sizes;
        Some (data # rest, p) }
      else Some ([], p))"

fun memcpy_ring_buffer_to_input_messages ::
  "'b http_priv \<Rightarrow> nat list list \<Rightarrow> (bytes list list \<times> 'b http_priv) option" where
  "memcpy_ring_buffer_to_input_messages p [] = Some ([], p)"
| "memcpy_ring_buffer_to_input_messages p (sizes # messages) =
     (if ht_recv_buf_fill p > 0 then do {
        (data, p) \<leftarrow> ring_to_buffers p sizes;
        (rest, p) \<leftarrow> memcpy_ring_buffer_to_input_messages p messages;
        Some (data # rest, p) }
      else Some ([], p))"

text \<open>
  Growing the buffer when it is full, and one read into its free part: from the end of the
  bytes in use to the end of the block, and on from its start.
\<close>

definition http_grow :: "(nat \<Rightarrow> bytes) \<Rightarrow> 'b http_priv \<Rightarrow> 'b http_priv" where
  "http_grow malloc p = (
     let len = length (ht_recv_buf p) in
     if ht_recv_buf_fill p = len then
       let new = max (len * 2) 1024
       in p\<lparr>ht_recv_buf := ht_recv_buf p @ drop len (malloc new)\<rparr>
     else p)"

definition http_free_space :: "'b http_priv \<Rightarrow> nat \<times> nat \<times> nat" where
  "http_free_space p = (
     let len = length (ht_recv_buf p); pos = ht_recv_buf_pos p; fill = ht_recv_buf_fill p in
     if has_wrapped p then ((pos + fill) mod len, len - fill, 0)
     else (pos + fill, len - (pos + fill), pos))"

definition http_store :: "'b http_priv \<Rightarrow> bytes \<Rightarrow> 'b http_priv option" where
  "http_store p data = (case http_free_space p of (start, size0, size1) \<Rightarrow> do {
     buf \<leftarrow> wrn (ht_recv_buf p) start (take size0 data);
     buf \<leftarrow> wrn buf 0 (drop size0 data);
     Some (p\<lparr>ht_recv_buf := buf, ht_recv_buf_fill := ht_recv_buf_fill p + length data\<rparr>) })"

section \<open>Parsing the answer\<close>

text \<open>What the parser does next: go on in the new state, wait for more, fail, or deliver.\<close>

datatype 'b http_next =
    Http_retry "'b http_priv"
  | Http_not_enough "'b http_priv"
  | Http_fail "'b http_priv"
  | Http_connected "'b http_priv"

text \<open>The loop of \<open>EAT_WHITESPACE\<close>; the test that follows it is in the callers.\<close>

function eat_whitespace :: "'b http_priv \<Rightarrow> nat \<Rightarrow> nat option" where
  "eat_whitespace p pos =
     (if pos < ht_recv_buf_fill p then do {
        b \<leftarrow> GET_BYTE p pos;
        if b = 32 then eat_whitespace p (pos + 1) else Some pos }
      else Some pos)"
  by pat_completeness auto
termination
  by (relation "measure (\<lambda>(p, pos). ht_recv_buf_fill p - pos)") auto

declare eat_whitespace.simps [simp del]

fun get_bytes :: "'b http_priv \<Rightarrow> nat \<Rightarrow> nat \<Rightarrow> bytes option" where
  "get_bytes p pos 0 = Some []"
| "get_bytes p pos (Suc n) = do {
     b \<leftarrow> GET_BYTE p pos;
     bs \<leftarrow> get_bytes p (pos + 1) n;
     Some (b # bs) }"

text \<open>On to a carriage return, or to where the next byte is a line feed.\<close>

function skip_line :: "'b http_priv \<Rightarrow> nat \<Rightarrow> nat option" where
  "skip_line p pos =
     (if pos + 1 < ht_recv_buf_fill p then do {
        a \<leftarrow> GET_BYTE p pos;
        b \<leftarrow> GET_BYTE p (pos + 1);
        if a \<noteq> 13 \<and> b \<noteq> 10 then skip_line p (pos + 1) else Some pos }
      else Some pos)"
  by pat_completeness auto
termination
  by (relation "measure (\<lambda>(p, pos). ht_recv_buf_fill p - pos)") auto

declare skip_line.simps [simp del]

definition is_digit :: "u8 \<Rightarrow> bool" where
  "is_digit b \<longleftrightarrow> 48 \<le> b \<and> b \<le> 57"

text \<open>The end of a line: what was parsed is consumed.\<close>

definition http_end_line ::
  "'b http_priv \<Rightarrow> nat \<Rightarrow> ('b http_priv \<Rightarrow> 'b http_priv) \<Rightarrow> 'b http_next option" where
  "http_end_line p pos k = do {
     pos \<leftarrow> skip_line p pos;
     if pos + 1 \<ge> ht_recv_buf_fill p then Some (Http_not_enough p)
     else do {
       p \<leftarrow> ring_consume p (pos + 2);
       Some (Http_retry (if pos + 2 = 2 then k p else p)) } }"

definition http_init_line :: "'b http_priv \<Rightarrow> 'b http_next option" where
  "http_init_line p = do {
     pos \<leftarrow> eat_whitespace p 0;
     if pos \<ge> ht_recv_buf_fill p \<or> pos + 7 > ht_recv_buf_fill p then Some (Http_not_enough p)
     else do {
       http \<leftarrow> get_bytes p pos 7;
       if http \<noteq> c_string ''HTTP/1.'' then Some (Http_fail p)
       else let pos = pos + 7 in
       if pos \<ge> ht_recv_buf_fill p then Some (Http_not_enough p)
       else do {
         minor \<leftarrow> GET_BYTE p pos;
         if minor \<noteq> 48 \<and> minor \<noteq> 49 then Some (Http_fail p)
         else let pos = pos + 1 in
         if pos \<ge> ht_recv_buf_fill p then Some (Http_not_enough p)
         else do {
           space \<leftarrow> GET_BYTE p pos;
           if space \<noteq> 32 then Some (Http_fail p)
           else do {
             pos \<leftarrow> eat_whitespace p pos;
             if pos \<ge> ht_recv_buf_fill p \<or> pos + 3 > ht_recv_buf_fill p
             then Some (Http_not_enough p)
             else do {
               code \<leftarrow> get_bytes p pos 3;
               if code ! 0 \<noteq> 50 \<or> \<not> is_digit (code ! 1) \<or> \<not> is_digit (code ! 2)
               then Some (Http_fail p)
               else do {
                 pos \<leftarrow> skip_line p pos;
                 if pos + 1 \<ge> ht_recv_buf_fill p then Some (Http_not_enough p)
                 else do {
                   p \<leftarrow> ring_consume p (pos + 2);
                   Some (Http_retry (p\<lparr>ht_content_length := 0,
                     ht_state := HTTP_STATE_HEADERS\<rparr>)) } } } } } } } }"

definition lower :: "u8 \<Rightarrow> u8" where
  "lower b = (if 65 \<le> b \<and> b \<le> 90 then b + 32 else b)"

text \<open>
  The number after \<open>Content-Length:\<close>. The byte at \<open>pos\<close> is read before it is known to be one
  of the bytes in use.
\<close>

datatype 'b http_length = Number_end nat "'b http_priv" | Number_more "'b http_priv"
  | Number_bad "'b http_priv"

function http_number :: "'b http_priv \<Rightarrow> nat \<Rightarrow> 'b http_length option" where
  "http_number p pos = do {
     byte \<leftarrow> GET_BYTE p pos;
     if byte = 13 then Some (Number_end pos p)
     else if \<not> is_digit byte then Some (Number_bad (p\<lparr>ht_content_length := 0\<rparr>))
     else let val = unat byte - 48; cl = ht_content_length p in
     if cl > G_MAXSIZE div 10 \<or> cl * 10 > G_MAXSIZE - val
     then Some (Number_end pos (p\<lparr>ht_content_length := 0\<rparr>))
     else let p = p\<lparr>ht_content_length := cl * 10 + val\<rparr> in
     if pos + 1 > ht_recv_buf_fill p then Some (Number_more p)
     else http_number p (pos + 1) }"
  by pat_completeness auto
termination
  by (relation "measure (\<lambda>(p, pos). ht_recv_buf_fill p + 1 - pos)") auto

declare http_number.simps [simp del]

definition http_body_state :: "'b http_priv \<Rightarrow> 'b http_priv" where
  "http_body_state p = p\<lparr>ht_state := HTTP_STATE_BODY\<rparr>"

definition http_after_number :: "'b http_length \<Rightarrow> 'b http_next option" where
  "http_after_number n = (case n of
     Number_end pos p \<Rightarrow> http_end_line p pos http_body_state
   | Number_more p \<Rightarrow> Some (Http_not_enough p)
   | Number_bad p \<Rightarrow> Some (Http_fail p))"

definition http_header :: "'b http_priv \<Rightarrow> 'b http_next option" where
  "http_header p = do {
     is_length \<leftarrow> (if 15 < ht_recv_buf_fill p then do {
         name \<leftarrow> get_bytes p 0 15;
         Some (map lower name = c_string ''content-length:'') }
       else Some False);
     if is_length then do {
       pos \<leftarrow> eat_whitespace p 15;
       if pos \<ge> ht_recv_buf_fill p then Some (Http_not_enough p)
       else do {
         n \<leftarrow> http_number (p\<lparr>ht_content_length := 0\<rparr>) pos;
         http_after_number n } }
     else http_end_line p 0 http_body_state }"

definition http_body :: "'b http_priv \<Rightarrow> 'b http_next option" where
  "http_body p =
     (if ht_content_length p = 0 then Some (Http_retry (p\<lparr>ht_state := HTTP_STATE_CONNECTED\<rparr>))
      else if ht_recv_buf_fill p = 0 then Some (Http_not_enough p)
      else let consumed = min (ht_content_length p) (ht_recv_buf_fill p) in do {
        p \<leftarrow> ring_consume p consumed;
        Some (Http_retry (p\<lparr>ht_content_length := ht_content_length p - consumed\<rparr>)) })"

definition http_next :: "'b http_priv \<Rightarrow> 'b http_next option" where
  "http_next p = (case ht_state p of
     HTTP_STATE_INIT \<Rightarrow> http_init_line p
   | HTTP_STATE_HEADERS \<Rightarrow> http_header p
   | HTTP_STATE_BODY \<Rightarrow> http_body p
   | HTTP_STATE_CONNECTED \<Rightarrow> Some (Http_connected p)
   | HTTP_STATE_ERROR \<Rightarrow> Some (Http_fail p))"

section \<open>Running the parser\<close>

text \<open>Every retry has consumed a byte, or is the last step of the body.\<close>

definition http_measure :: "'b http_priv \<Rightarrow> nat" where
  "http_measure p = 2 * ht_recv_buf_fill p + (if ht_state p = HTTP_STATE_CONNECTED then 0 else 1)"

lemma ring_consume_fill:
  "ring_consume p n = Some p' \<Longrightarrow> ht_recv_buf_fill p' = ht_recv_buf_fill p - n \<and>
     ht_state p' = ht_state p \<and> ht_content_length p' = ht_content_length p"
  by (auto simp: ring_consume_def split: if_splits)

text \<open>Parsing a number leaves all but the content length alone.\<close>

lemma http_number_end:
  "http_number p pos = Some (Number_end pos' p') \<Longrightarrow> \<exists>c. p' = p\<lparr>ht_content_length := c\<rparr>"
proof (induction "ht_recv_buf_fill p + 1 - pos" arbitrary: p pos rule: less_induct)
  case less
  obtain byte where b: "GET_BYTE p pos = Some byte"
    using less.prems by (subst (asm) http_number.simps) (auto simp: bind_eq_Some_conv)
  let ?q = "p\<lparr>ht_content_length := ht_content_length p * 10 + (unat byte - 48)\<rparr>"
  have "?q\<lparr>ht_content_length := c\<rparr> = p\<lparr>ht_content_length := c\<rparr>" for c by simp
  then have step: "\<exists>c. p' = p\<lparr>ht_content_length := c\<rparr>"
    if "http_number ?q (pos + 1) = Some (Number_end pos' p')" "pos + 1 \<le> ht_recv_buf_fill p"
    using less.hyps [of ?q "pos + 1"] that by auto
  have self: "\<exists>c. p = p\<lparr>ht_content_length := c\<rparr>" by (rule exI [of _ "ht_content_length p"]) simp
  show ?case
    using less.prems step self by (subst (asm) http_number.simps)
      (auto simp: b Let_def split: if_splits)
qed

lemma http_number_fill:
  "http_number p pos = Some (Number_end pos' p') \<Longrightarrow>
     ht_recv_buf_fill p' = ht_recv_buf_fill p \<and> ht_state p' = ht_state p"
  by (drule http_number_end) auto

lemma http_after_number_retry:
  "http_after_number n = Some (Http_retry p') \<Longrightarrow>
     \<exists>pos q. n = Number_end pos q \<and> http_end_line q pos http_body_state = Some (Http_retry p')"
  by (cases n) (auto simp: http_after_number_def)

lemma http_end_line_decreases:
  assumes "http_end_line p pos http_body_state = Some (Http_retry p')"
  shows "ht_recv_buf_fill p' < ht_recv_buf_fill p"
  using assms
  by (auto simp: http_end_line_def http_body_state_def bind_eq_Some_conv split: if_splits
      dest!: ring_consume_fill)

lemma http_next_decreases: "http_next p = Some (Http_retry p') \<Longrightarrow> http_measure p' < http_measure p"
proof (cases "ht_state p")
  case HTTP_STATE_INIT
  assume "http_next p = Some (Http_retry p')"
  then have "ht_recv_buf_fill p' < ht_recv_buf_fill p"
    using HTTP_STATE_INIT
    by (auto simp: http_next_def http_init_line_def bind_eq_Some_conv Let_def split: if_splits
        dest!: ring_consume_fill)
  then show ?thesis by (simp add: http_measure_def)
next
  case HTTP_STATE_HEADERS
  assume "http_next p = Some (Http_retry p')"
  then have "ht_recv_buf_fill p' < ht_recv_buf_fill p"
    using HTTP_STATE_HEADERS
    by (auto simp: http_next_def http_header_def bind_eq_Some_conv Let_def
        split: if_splits
        dest!: http_after_number_retry http_end_line_decreases http_number_fill)
  then show ?thesis by (simp add: http_measure_def)
next
  case HTTP_STATE_BODY
  assume "http_next p = Some (Http_retry p')"
  then show ?thesis using HTTP_STATE_BODY
    by (auto simp: http_next_def http_body_def http_measure_def bind_eq_Some_conv Let_def
        split: if_splits dest!: ring_consume_fill)
qed (simp_all add: http_next_def)

function http_parse :: "'b http_priv \<Rightarrow> 'b http_next option" where
  "http_parse p = (case http_next p of
     Some (Http_retry p) \<Rightarrow> http_parse p
   | n \<Rightarrow> n)"
  by pat_completeness auto
termination
  by (relation "measure http_measure") (auto dest: http_next_decreases)

declare http_parse.simps [simp del]

section \<open>The operations\<close>

text \<open>
  The result of a read holds, besides the return value and the messages received, what was
  left in the caller's buffers without a message length: the bytes behind the proxy's answer.
\<close>

definition http_recv_messages ::
  "'b socket_ops \<Rightarrow> (nat \<Rightarrow> bytes) \<Rightarrow> 'b http_priv \<Rightarrow> nat list list \<Rightarrow>
     (int \<times> received \<times> bytes list list \<times> 'b http_priv) option" where
  "http_recv_messages ops malloc p recv_messages =
     (if ht_state p = HTTP_STATE_CONNECTED then
        (case ht_base_socket p of
           None \<Rightarrow> Some (- 1, [], [], p)
         | Some base \<Rightarrow> do {
             (ret, got, base) \<leftarrow> nice_socket_recv_messages ops base recv_messages;
             let p = p\<lparr>ht_base_socket := Some base\<rparr>;
             if ret \<le> 0 then Some (ret, got, [], p)
             else Some (ret, map (\<lambda>m. (fst m, Some (ht_addr p))) got, [], p) })
      else
        let p = http_grow malloc p in do {
        assert_ring_buffer_valid p;
        case ht_base_socket p of
          None \<Rightarrow> Some (- 1, [], [], p)
        | Some base \<Rightarrow> (case http_free_space p of (start, size0, size1) \<Rightarrow> do {
            (ret, got, base) \<leftarrow> nice_socket_recv_messages ops base [[size0, size1]];
            let p = p\<lparr>ht_base_socket := Some base\<rparr>;
            if ret \<le> 0 then Some (ret, [], [], p)
            else do {
              p \<leftarrow> http_store p (case got of [] \<Rightarrow> [] | m # _ \<Rightarrow> fst m);
              assert_ring_buffer_valid p;
              outcome \<leftarrow> http_parse p;
              case outcome of
                Http_connected p \<Rightarrow> do {
                  (left, p) \<leftarrow> memcpy_ring_buffer_to_input_messages p recv_messages;
                  base \<leftarrow> nice_socket_flush_send_queue ops base (ht_send_queue p);
                  Some (int (length left), [], left,
                    p\<lparr>ht_base_socket := Some base, ht_send_queue := []\<rparr>) }
              | Http_fail p \<Rightarrow>
                  Some (- 1, [], [], p\<lparr>ht_base_socket := None, ht_state := HTTP_STATE_ERROR\<rparr>)
              | Http_not_enough p \<Rightarrow> Some (0, [], [], p)
              | Http_retry p \<Rightarrow> None } }) })"

definition http_send_messages ::
  "'b socket_ops \<Rightarrow> 'b http_priv \<Rightarrow> sockaddr option \<Rightarrow> output_message list \<Rightarrow>
     (int \<times> 'b http_priv) option" where
  "http_send_messages ops p to messages =
     (if ht_state p = HTTP_STATE_CONNECTED then
        (case ht_base_socket p of
           None \<Rightarrow> Some (- 1, p)
         | Some base \<Rightarrow> do {
             (ret, base) \<leftarrow> nice_socket_send_messages ops base to messages;
             Some (ret, p\<lparr>ht_base_socket := Some base\<rparr>) })
      else if ht_state p = HTTP_STATE_ERROR then Some (- 1, p)
      else Some (0, p))"

definition http_send_messages_reliable ::
  "'b socket_ops \<Rightarrow> (nat \<Rightarrow> bytes) \<Rightarrow> 'b http_priv \<Rightarrow> sockaddr option \<Rightarrow>
     output_message list \<Rightarrow> (int \<times> 'b http_priv) option" where
  "http_send_messages_reliable ops malloc p to messages =
     (if ht_state p = HTTP_STATE_CONNECTED then
        (case ht_base_socket p of
           None \<Rightarrow> Some (- 1, p)
         | Some base \<Rightarrow> do {
             (ret, base) \<leftarrow> nice_socket_send_messages_reliable ops base to messages;
             Some (ret, p\<lparr>ht_base_socket := Some base\<rparr>) })
      else if ht_state p = HTTP_STATE_ERROR then Some (- 1, p)
      else do {
        q \<leftarrow> nice_socket_queue_send malloc (ht_send_queue p) to messages;
        Some (int (length messages), p\<lparr>ht_send_queue := q\<rparr>) })"

section \<open>The ring buffer is never left\<close>

definition ring_ok :: "'b http_priv \<Rightarrow> bool" where
  "ring_ok p \<longleftrightarrow> ht_recv_buf_fill p \<le> length (ht_recv_buf p) \<and>
     (ht_recv_buf_pos p = 0 \<or> ht_recv_buf_pos p < length (ht_recv_buf p))"

text \<open>Besides the ring, a step of the parser leaves the socket alone.\<close>

definition same_socket :: "'b http_priv \<Rightarrow> 'b http_priv \<Rightarrow> bool" where
  "same_socket p q \<longleftrightarrow> ht_base_socket q = ht_base_socket p \<and> ht_send_queue q = ht_send_queue p \<and>
     ht_addr q = ht_addr p \<and> ht_recv_buf q = ht_recv_buf p"

lemma GET_BYTE_some: "ht_recv_buf p \<noteq> [] \<Longrightarrow> \<exists>b. GET_BYTE p pos = Some b"
  by (simp add: GET_BYTE_def rd_def)

lemma eat_whitespace_some: "ht_recv_buf p \<noteq> [] \<Longrightarrow> \<exists>pos'. eat_whitespace p pos = Some pos'"
proof (induction p pos rule: eat_whitespace.induct)
  case (1 p pos)
  obtain b where "GET_BYTE p pos = Some b" using GET_BYTE_some [OF "1.prems"] by blast
  then show ?case using 1 by (subst eat_whitespace.simps) auto
qed

lemma skip_line_some: "ht_recv_buf p \<noteq> [] \<Longrightarrow> \<exists>pos'. skip_line p pos = Some pos'"
proof (induction p pos rule: skip_line.induct)
  case (1 p pos)
  obtain a b where "GET_BYTE p pos = Some a" "GET_BYTE p (pos + 1) = Some b"
    using GET_BYTE_some [OF "1.prems"] by blast
  then show ?case using 1 by (subst skip_line.simps) auto
qed

lemma get_bytes_some: "ht_recv_buf p \<noteq> [] \<Longrightarrow> \<exists>bs. get_bytes p pos n = Some bs"
proof (induction n arbitrary: pos)
  case (Suc n)
  obtain b bs where "GET_BYTE p pos = Some b" "get_bytes p (pos + 1) n = Some bs"
    using GET_BYTE_some [OF Suc.prems] Suc by blast
  then show ?case by simp
qed simp

lemma http_number_some:
  "ht_recv_buf p \<noteq> [] \<Longrightarrow> \<exists>n. http_number p pos = Some n \<and>
     (\<exists>c. (case n of Number_end _ q \<Rightarrow> q | Number_more q \<Rightarrow> q | Number_bad q \<Rightarrow> q) =
        p\<lparr>ht_content_length := c\<rparr>)"
proof (induction "ht_recv_buf_fill p + 1 - pos" arbitrary: p pos rule: less_induct)
  case less
  obtain byte where b: "GET_BYTE p pos = Some byte" using GET_BYTE_some [OF less.prems] by blast
  let ?q = "p\<lparr>ht_content_length := ht_content_length p * 10 + (unat byte - 48)\<rparr>"
  have step: "pos + 1 \<le> ht_recv_buf_fill p \<Longrightarrow> \<exists>n. http_number ?q (pos + 1) = Some n \<and>
     (\<exists>c. (case n of Number_end _ q \<Rightarrow> q | Number_more q \<Rightarrow> q | Number_bad q \<Rightarrow> q) =
        p\<lparr>ht_content_length := c\<rparr>)"
    using less.hyps [of ?q "pos + 1"] less.prems by simp
  have self: "\<exists>c. p = p\<lparr>ht_content_length := c\<rparr>" by (rule exI [of _ "ht_content_length p"]) simp
  show ?case
    using step self by (subst http_number.simps) (auto simp: b Let_def)
qed

lemma ring_consume_some:
  assumes "ring_ok p" and "ht_recv_buf p \<noteq> []" and "n \<le> ht_recv_buf_fill p"
  obtains q where "ring_consume p n = Some q" "ring_ok q" "same_socket p q" "ht_state q = ht_state p"
  using assms by (auto simp: ring_consume_def ring_ok_def same_socket_def)

definition parsing :: "'b http_priv \<Rightarrow> bool" where
  "parsing p \<longleftrightarrow> ht_state p \<in> {HTTP_STATE_INIT, HTTP_STATE_HEADERS, HTTP_STATE_BODY}"

text \<open>One step of the parser neither faults nor leaves the ring.\<close>

definition next_ok :: "'b http_priv \<Rightarrow> 'b http_next option \<Rightarrow> bool" where
  "next_ok p r \<longleftrightarrow> (\<exists>n. r = Some n \<and>
     (case n of Http_retry q \<Rightarrow> ring_ok q \<and> same_socket p q \<and> parsing p
      | Http_not_enough q \<Rightarrow> ring_ok q \<and> same_socket p q \<and> ht_state q = ht_state p \<and>
          parsing p
      | Http_fail q \<Rightarrow> ring_ok q \<and> same_socket p q
      | Http_connected q \<Rightarrow> q = p \<and> ht_state p = HTTP_STATE_CONNECTED))"

lemma same_socket_refl [simp]: "same_socket p p"
  by (simp add: same_socket_def)

lemma same_socket_trans: "same_socket p q \<Longrightarrow> same_socket q r \<Longrightarrow> same_socket p r"
  by (simp add: same_socket_def)

lemma update_ok [simp]:
  "ring_ok (p\<lparr>ht_content_length := c\<rparr>) = ring_ok p" "ring_ok (p\<lparr>ht_state := s\<rparr>) = ring_ok p"
  "same_socket p (q\<lparr>ht_content_length := c\<rparr>) = same_socket p q"
  "same_socket p (q\<lparr>ht_state := s\<rparr>) = same_socket p q"
  by (simp_all add: ring_ok_def same_socket_def)

lemma next_okI [intro]:
  "ring_ok q \<Longrightarrow> same_socket p q \<Longrightarrow> parsing p \<Longrightarrow> next_ok p (Some (Http_retry q))"
  "ring_ok q \<Longrightarrow> same_socket p q \<Longrightarrow> ht_state q = ht_state p \<Longrightarrow> parsing p \<Longrightarrow>
     next_ok p (Some (Http_not_enough q))"
  "ring_ok q \<Longrightarrow> same_socket p q \<Longrightarrow> next_ok p (Some (Http_fail q))"
  by (simp_all add: next_ok_def)

lemma next_ok_if:
  "ring_ok p \<Longrightarrow> next_ok p r \<Longrightarrow> next_ok p (if c then Some (Http_fail p) else r)"
  "ring_ok p \<Longrightarrow> parsing p \<Longrightarrow> next_ok p r \<Longrightarrow>
     next_ok p (if c then Some (Http_not_enough p) else r)"
  by auto

lemma http_end_line_ok:
  assumes "ring_ok q" and "ht_recv_buf q \<noteq> []" and "same_socket p q" and "ht_state q = ht_state p"
    and "parsing p"
  shows "next_ok p (http_end_line q pos http_body_state)"
proof -
  obtain pos' where s: "skip_line q pos = Some pos'" using skip_line_some assms(2) by blast
  show ?thesis
  proof (cases "pos' + 1 \<ge> ht_recv_buf_fill q")
    case True
    then show ?thesis using s assms by (auto simp: http_end_line_def)
  next
    case False
    obtain r where "ring_consume q (pos' + 2) = Some r" "ring_ok r" "same_socket q r"
      by (rule ring_consume_some [OF assms(1,2), of "pos' + 2"]) (use False in auto)
    moreover from this(3) have "same_socket p r" by (rule same_socket_trans [OF assms(3)])
    ultimately show ?thesis using s False assms
      by (auto simp: http_end_line_def http_body_state_def)
  qed
qed

lemma http_init_line_ok:
  assumes ok: "ring_ok p" and ne: "ht_recv_buf p \<noteq> []" and st: "parsing p"
  shows "next_ok p (http_init_line p)"
proof -
  obtain pos where w: "eat_whitespace p 0 = Some pos" using eat_whitespace_some [OF ne] by blast
  obtain h where h: "get_bytes p pos 7 = Some h" using get_bytes_some [OF ne] by blast
  obtain m where m: "GET_BYTE p (pos + 7) = Some m" using GET_BYTE_some [OF ne] by blast
  obtain s where s: "GET_BYTE p (pos + 7 + 1) = Some s" using GET_BYTE_some [OF ne] by blast
  obtain pos2 where w2: "eat_whitespace p (pos + 7 + 1) = Some pos2"
    using eat_whitespace_some [OF ne] by blast
  obtain c where c: "get_bytes p pos2 3 = Some c" using get_bytes_some [OF ne] by blast
  obtain pos3 where l: "skip_line p pos2 = Some pos3" using skip_line_some [OF ne] by blast
  have last: "next_ok p (if pos3 + 1 \<ge> ht_recv_buf_fill p then Some (Http_not_enough p)
     else do { q \<leftarrow> ring_consume p (pos3 + 2);
       Some (Http_retry (q\<lparr>ht_content_length := 0, ht_state := HTTP_STATE_HEADERS\<rparr>)) })"
  proof (cases "pos3 + 1 \<ge> ht_recv_buf_fill p")
    case False
    obtain r where "ring_consume p (pos3 + 2) = Some r" "ring_ok r" "same_socket p r"
      by (rule ring_consume_some [OF ok ne, of "pos3 + 2"]) (use False in auto)
    then show ?thesis using False st by auto
  qed (use ok st in auto)
  show ?thesis
    unfolding http_init_line_def w h m s w2 c l Let_def Option.bind.simps
    by (intro next_ok_if ok st last)
qed

lemma http_header_ok:
  assumes ok: "ring_ok p" and ne: "ht_recv_buf p \<noteq> []" and st: "parsing p"
  shows "next_ok p (http_header p)"
proof -
  obtain h where h: "get_bytes p 0 15 = Some h" using get_bytes_some [OF ne] by blast
  obtain pos where w: "eat_whitespace p 15 = Some pos" using eat_whitespace_some [OF ne] by blast
  obtain n c where n: "http_number (p\<lparr>ht_content_length := 0\<rparr>) pos = Some n"
    "(case n of Number_end _ q \<Rightarrow> q | Number_more q \<Rightarrow> q | Number_bad q \<Rightarrow> q) = p\<lparr>ht_content_length := c\<rparr>"
    using http_number_some [of "p\<lparr>ht_content_length := 0\<rparr>" pos] ne by auto
  have "next_ok p (http_after_number n)"
  proof (cases n)
    case (Number_end pos' q)
    have "next_ok p (http_end_line q pos' http_body_state)"
      by (rule http_end_line_ok) (use Number_end n(2) ok ne st in auto)
    then show ?thesis using Number_end by (simp add: http_after_number_def)
  qed (use n(2) ok st in \<open>auto simp: http_after_number_def\<close>)
  moreover have "next_ok p (http_end_line p 0 http_body_state)"
    by (rule http_end_line_ok) (use ok ne st in auto)
  ultimately show ?thesis using ok st by (auto simp: http_header_def h w n(1))
qed

lemma http_next_ok:
  assumes ok: "ring_ok p" and ne: "ht_recv_buf p \<noteq> []"
  shows "next_ok p (http_next p)"
proof (cases "ht_state p")
  case HTTP_STATE_BODY
  show ?thesis
  proof (cases "ht_content_length p = 0 \<or> ht_recv_buf_fill p = 0")
    case False
    let ?n = "min (ht_content_length p) (ht_recv_buf_fill p)"
    obtain r where "ring_consume p ?n = Some r" "ring_ok r" "same_socket p r"
      by (rule ring_consume_some [OF ok ne, of ?n]) auto
    then show ?thesis using False HTTP_STATE_BODY
      by (auto simp: http_next_def http_body_def parsing_def Let_def)
  qed (use HTTP_STATE_BODY ok in \<open>auto simp: http_next_def http_body_def parsing_def\<close>)
qed (use ok http_init_line_ok [OF ok ne] http_header_ok [OF ok ne] in
    \<open>auto simp: http_next_def next_ok_def parsing_def\<close>)

definition parsed_ok :: "'b http_priv \<Rightarrow> 'b http_next \<Rightarrow> bool" where
  "parsed_ok p n \<longleftrightarrow> (case n of Http_retry q \<Rightarrow> False
      | Http_not_enough q \<Rightarrow> ring_ok q \<and> same_socket p q \<and> parsing q
      | Http_fail q \<Rightarrow> ring_ok q \<and> same_socket p q
      | Http_connected q \<Rightarrow> ring_ok q \<and> same_socket p q \<and> ht_state q = HTTP_STATE_CONNECTED)"

lemma parsed_ok_trans: "same_socket p q \<Longrightarrow> parsed_ok q n \<Longrightarrow> parsed_ok p n"
  by (cases n) (auto simp: parsed_ok_def intro: same_socket_trans)

lemma http_parse_ok:
  "ring_ok p \<Longrightarrow> ht_recv_buf p \<noteq> [] \<Longrightarrow> \<exists>n. http_parse p = Some n \<and> parsed_ok p n"
proof (induction p rule: http_parse.induct)
  case (1 p)
  obtain n where n: "http_next p = Some n" using http_next_ok [OF "1.prems"] by (auto simp: next_ok_def)
  have ok: "next_ok p (Some n)" using http_next_ok [OF "1.prems"] n by simp
  show ?case
  proof (cases n)
    case (Http_retry q)
    then have q: "ring_ok q" "same_socket p q" using ok by (simp_all add: next_ok_def)
    then have "ht_recv_buf q \<noteq> []" using "1.prems" by (simp add: same_socket_def)
    then obtain m where "http_parse q = Some m" "parsed_ok p m"
      using "1.IH" [OF n Http_retry q(1)] parsed_ok_trans [OF q(2)] by blast
    then show ?thesis using n Http_retry by (subst http_parse.simps) simp
  qed (use ok n "1.prems" in \<open>subst http_parse.simps, auto simp: next_ok_def parsed_ok_def parsing_def\<close>)+
qed

lemma ring_pop_ok:
  assumes ok: "ring_ok p" and ne: "ht_recv_buf p \<noteq> []"
  shows "\<exists>data q. memcpy_ring_buffer_to_buffer p n = Some (data, q) \<and> ring_ok q \<and>
    same_socket p q \<and> ht_state q = ht_state p"
proof -
  let ?L = "length (ht_recv_buf p)" and ?pos = "ht_recv_buf_pos p" and ?fill = "ht_recv_buf_fill p"
  define len where "len = min (?L - ?pos) n"
  have pos: "?pos \<le> ?L" "?fill \<le> ?L" using ok ne by (auto simp: ring_ok_def)
  have "\<exists>data. (if has_wrapped p then do {
           a \<leftarrow> rdn (ht_recv_buf p) ?pos len;
           b \<leftarrow> rdn (ht_recv_buf p) 0 (min (?fill - len) (n - len));
           Some (a @ b) }
       else rdn (ht_recv_buf p) ?pos (min ?fill n)) = Some data \<and> length data \<le> ?fill"
  proof (cases "has_wrapped p")
    case True
    then have "?L - ?pos \<le> ?fill" using pos by (simp add: has_wrapped_def)
    then have l: "?pos + len \<le> ?L" "len \<le> ?fill" using pos by (auto simp: len_def)
    let ?m = "min (?fill - len) (n - len)"
    have m: "?m \<le> ?L" "len + ?m \<le> ?fill" using l pos by auto
    show ?thesis unfolding rdn_def using True l m by (simp del: min_less_iff_conj)
  next
    case False
    then show ?thesis by (simp add: rdn_def has_wrapped_def min_def)
  qed
  then obtain data where d: "(if has_wrapped p then do {
           a \<leftarrow> rdn (ht_recv_buf p) ?pos len;
           b \<leftarrow> rdn (ht_recv_buf p) 0 (min (?fill - len) (n - len));
           Some (a @ b) }
       else rdn (ht_recv_buf p) ?pos (min ?fill n)) = Some data" "length data \<le> ?fill"
    by blast
  obtain q where "ring_consume p (length data) = Some q" "ring_ok q" "same_socket p q"
    "ht_state q = ht_state p"
    by (rule ring_consume_some [OF ok ne d(2)])
  then show ?thesis
    unfolding memcpy_ring_buffer_to_buffer_def Let_def len_def [symmetric] d(1) Option.bind.simps
    by simp
qed

lemma ring_to_buffers_ok:
  "ring_ok p \<Longrightarrow> ht_recv_buf p \<noteq> [] \<Longrightarrow> \<exists>ds q. ring_to_buffers p sizes = Some (ds, q) \<and> ring_ok q \<and>
    same_socket p q \<and> ht_state q = ht_state p"
proof (induction sizes arbitrary: p)
  case (Cons sz sizes)
  obtain d q where q: "memcpy_ring_buffer_to_buffer p sz = Some (d, q)" "ring_ok q"
    "same_socket p q" "ht_state q = ht_state p"
    using ring_pop_ok [OF Cons.prems] by blast
  then have "ht_recv_buf q \<noteq> []" using Cons.prems by (simp add: same_socket_def)
  then show ?case using q Cons.IH [of q] Cons.prems same_socket_trans [of p q] by fastforce
qed simp

lemma ring_to_messages_ok:
  "ring_ok p \<Longrightarrow> ht_recv_buf p \<noteq> [] \<Longrightarrow>
    \<exists>ds q. memcpy_ring_buffer_to_input_messages p msgs = Some (ds, q) \<and> ring_ok q \<and>
    same_socket p q \<and> ht_state q = ht_state p"
proof (induction msgs arbitrary: p)
  case (Cons sizes msgs)
  obtain d q where q: "ring_to_buffers p sizes = Some (d, q)" "ring_ok q"
    "same_socket p q" "ht_state q = ht_state p"
    using ring_to_buffers_ok [OF Cons.prems] by blast
  then have "ht_recv_buf q \<noteq> []" using Cons.prems by (simp add: same_socket_def)
  then show ?case using q Cons.IH [of q] Cons.prems same_socket_trans [of p q] by fastforce
qed simp

end
