(* ===== verification/Sock_Tunnels.thy ===== *)
theory Sock_Tunnels
  imports Sock_Tunnel Sock_Http
begin

text \<open>
  The three negotiating sockets keep one contract: as long as nothing goes wrong below, what the client
  sends reliably reaches the base socket after the negotiation, once, in order; and nothing of it before,
  whatever happens. The contract is a locale over the base socket's own; each of the three sockets
  gives it.
\<close>

section \<open>The base socket\<close>

text \<open>
  A reliable socket that can be read too, and that the main loop calls back when it can be written to: a
  read gives at most what there is room for, and only a failing read may leave the socket unusable.
\<close>

locale duplex_socket = reliable_socket ops alive good out
  for ops :: "'b socket_ops" and alive :: "'b \<Rightarrow> bool" and good :: "'b \<Rightarrow> bool" and out :: "'b \<Rightarrow> bytes" +
  fixes writable :: "bool \<Rightarrow> 'b \<Rightarrow> 'b option"
  assumes recv_one: "alive b \<Longrightarrow> \<exists>r got b'. op_recv_messages ops b [sizes] = Some (r, got, b') \<and>
    ((r = 1 \<and> (\<exists>d src. got = [(d, src)] \<and> length d \<le> sum_list sizes) \<or> r = 0 \<and> got = []) \<and>
       alive b' \<and> grows good out b b' [] \<or>
     r < 0 \<and> got = [])"
    and write_more: "alive b \<Longrightarrow> \<exists>b'. writable hup b = Some b' \<and> alive b' \<and> grows good out b b' []"

section \<open>The contract of a tunnel\<close>

locale tunnel = duplex_socket ops alive good out writable
  for ops :: "'b socket_ops" and alive :: "'b \<Rightarrow> bool" and good :: "'b \<Rightarrow> bool" and out :: "'b \<Rightarrow> bytes"
    and writable :: "bool \<Rightarrow> 'b \<Rightarrow> 'b option" +
  fixes wf :: "'s \<Rightarrow> bool" and connected :: "'s \<Rightarrow> bool" and base :: "'s \<Rightarrow> 'b option"
    and queue :: "'s \<Rightarrow> send_queue" and chatter :: "'s \<Rightarrow> bytes set"
    and t_recv :: "'s \<Rightarrow> nat list \<Rightarrow> (int \<times> 's) option"
    and t_send :: "'s \<Rightarrow> sockaddr option \<Rightarrow> output_message list \<Rightarrow> (int \<times> 's) option"
    and t_more :: "bool \<Rightarrow> 's \<Rightarrow> 's option"
  assumes send_open: "wf s \<Longrightarrow> base s = Some b \<Longrightarrow> alive b \<Longrightarrow> connected s \<Longrightarrow>
      \<exists>r s' b'. t_send s to ms = Some (r, s') \<and> wf s' \<and> connected s' \<and>
        base s' = Some b' \<and> alive b' \<and> grows good out b b' (concat (map concat ms)) \<and>
        (good b' \<longrightarrow> r = int (length ms)) \<and> queue s' = queue s \<and> chatter s' = chatter s"
    and send_queued: "wf s \<Longrightarrow> base s = Some b \<Longrightarrow> alive b \<Longrightarrow> \<not> connected s \<Longrightarrow>
      \<exists>s'. t_send s to ms = Some (int (length ms), s') \<and> wf s' \<and> \<not> connected s' \<and>
        base s' = Some b \<and> queue s' = queue s @ queued_messages to ms \<and> chatter s' = chatter s"
    and recv_step: "wf s \<Longrightarrow> base s = Some b \<Longrightarrow> alive b \<Longrightarrow>
      \<exists>r s'. t_recv s sizes = Some (r, s') \<and> (r < 0 \<or>
        (\<exists>b'. wf s' \<and> base s' = Some b' \<and> alive b' \<and> chatter s' = chatter s \<and>
          (connected s \<and> connected s' \<and> queue s' = queue s \<and> grows good out b b' [] \<or>
           \<not> connected s \<and> \<not> connected s' \<and> queue s' = queue s \<and>
             (\<exists>h \<in> insert [] (chatter s). grows good out b b' h) \<or>
           \<not> connected s \<and> connected s' \<and> queue s' = [] \<and>
             grows good out b b' (queue_bytes (queue s)))))"
    and more_step: "wf s \<Longrightarrow> base s = Some b \<Longrightarrow> alive b \<Longrightarrow>
      \<exists>s' b'. t_more hup s = Some s' \<and> wf s' \<and> base s' = Some b' \<and> alive b' \<and>
        chatter s' = chatter s \<and> connected s' = connected s \<and> queue s' = queue s \<and> grows good out b b' []"

text \<open>
  What happens to a tunnel: reads, reliable sends, and the write callbacks of its base socket. The run
  stops at a read that fails; it also returns the bytes of the messages that were accepted.
\<close>

datatype tunnel_event = Tunnel_recv "nat list" | Tunnel_send "sockaddr option" "output_message list"
  | Tunnel_writable bool

fun tunnel_run ::
  "('s \<Rightarrow> nat list \<Rightarrow> (int \<times> 's) option) \<Rightarrow>
     ('s \<Rightarrow> sockaddr option \<Rightarrow> output_message list \<Rightarrow> (int \<times> 's) option) \<Rightarrow>
     (bool \<Rightarrow> 's \<Rightarrow> 's option) \<Rightarrow> 's \<Rightarrow> tunnel_event list \<Rightarrow> (bool \<times> 's \<times> bytes) option" where
  "tunnel_run t_recv t_send t_more s [] = Some (True, s, [])"
| "tunnel_run t_recv t_send t_more s (Tunnel_recv sizes # evs) = do {
     (r, s) \<leftarrow> t_recv s sizes;
     if r < 0 then Some (False, s, []) else tunnel_run t_recv t_send t_more s evs }"
| "tunnel_run t_recv t_send t_more s (Tunnel_send to ms # evs) = do {
     (r, s) \<leftarrow> t_send s to ms;
     (usable, s, user) \<leftarrow> tunnel_run t_recv t_send t_more s evs;
     Some (usable, s, (if r < 0 then [] else concat (map concat ms)) @ user) }"
| "tunnel_run t_recv t_send t_more s (Tunnel_writable hup # evs) = do {
     s \<leftarrow> t_more hup s;
     tunnel_run t_recv t_send t_more s evs }"

text \<open>
  From a state where \<open>user\<close> has been accepted: all of it is queued if the tunnel is not connected,
  and nothing is otherwise; and if nothing has gone wrong, on the base socket there is the
  negotiation, and behind it all of the user's bytes if the tunnel is connected, none otherwise.
\<close>

definition tunnel_state ::
  "('b \<Rightarrow> bool) \<Rightarrow> ('b \<Rightarrow> bytes) \<Rightarrow> bool \<Rightarrow> send_queue \<Rightarrow> bytes set \<Rightarrow> bytes \<Rightarrow> 'b \<Rightarrow> bytes \<Rightarrow> bool" where
  "tunnel_state good out conn q chat start b user \<longleftrightarrow>
     queue_bytes q = (if conn then [] else user) \<and>
     (good b \<longrightarrow> (\<exists>hs. set hs \<subseteq> chat \<and> out b = start @ concat hs @ (if conn then user else [])))"

lemma tunnel_state_same:
  "tunnel_state good out conn q chat start b user \<Longrightarrow> grows good out b b' [] \<Longrightarrow>
     tunnel_state good out conn q chat start b' user"
  by (auto simp: tunnel_state_def grows_def)

lemma tunnel_state_talk:
  assumes "tunnel_state good out False q chat start b user" and "h \<in> insert [] chat" and "grows good out b b' h"
  shows "tunnel_state good out False q chat start b' user"
proof (cases "good b'")
  case True
  then have g: "good b" "out b' = out b @ h" using assms(3) by (simp_all add: grows_def)
  then obtain hs where hs: "set hs \<subseteq> chat" "out b = start @ concat hs"
    using assms(1) by (auto simp: tunnel_state_def)
  define hs' where "hs' = (if h = [] then hs else hs @ [h])"
  have "set hs' \<subseteq> chat" "out b' = start @ concat hs'" using hs g(2) assms(2) by (auto simp: hs'_def)
  then show ?thesis using assms(1) by (auto simp: tunnel_state_def)
qed (use assms(1) in \<open>simp add: tunnel_state_def\<close>)

lemma tunnel_state_opens:
  "tunnel_state good out False q chat start b user \<Longrightarrow> grows good out b b' (queue_bytes q) \<Longrightarrow>
     tunnel_state good out True [] chat start b' user"
  by (auto simp: tunnel_state_def grows_def)

lemma tunnel_state_sends:
  "tunnel_state good out True q chat start b user \<Longrightarrow> grows good out b b' x \<Longrightarrow> (good b' \<longrightarrow> y = x) \<Longrightarrow>
     tunnel_state good out True q chat start b' (user @ y)"
  by (auto simp: tunnel_state_def grows_def)

context tunnel
begin

lemma run_in_order:
  "wf s \<Longrightarrow> base s = Some b \<Longrightarrow> alive b \<Longrightarrow>
     tunnel_state good out (connected s) (queue s) (chatter s) start b before \<Longrightarrow>
     \<exists>usable s' user. tunnel_run t_recv t_send t_more s evs = Some (usable, s', user) \<and>
       (usable \<longrightarrow> (\<exists>b'. wf s' \<and> base s' = Some b' \<and> alive b' \<and> chatter s' = chatter s \<and>
          tunnel_state good out (connected s') (queue s') (chatter s) start b' (before @ user)))"
proof (induction evs arbitrary: s b before)
  case Nil
  then show ?case by simp (rule exI, rule TrueI)
next
  case (Cons e evs)
  show ?case
  proof (cases e)
    case (Tunnel_recv sizes)
    obtain r s1 where r: "t_recv s sizes = Some (r, s1)"
      "r < 0 \<or> (\<exists>b'. wf s1 \<and> base s1 = Some b' \<and> alive b' \<and> chatter s1 = chatter s \<and>
          (connected s \<and> connected s1 \<and> queue s1 = queue s \<and> grows good out b b' [] \<or>
           \<not> connected s \<and> \<not> connected s1 \<and> queue s1 = queue s \<and>
             (\<exists>h \<in> insert [] (chatter s). grows good out b b' h) \<or>
           \<not> connected s \<and> connected s1 \<and> queue s1 = [] \<and>
             grows good out b b' (queue_bytes (queue s))))"
      using recv_step [OF Cons.prems(1-3)] by blast
    show ?thesis
    proof (cases "r < 0")
      case True
      then show ?thesis using r(1) Tunnel_recv by (simp add: exI [of _ False])
    next
      case False
      then obtain b1 where b1: "wf s1" "base s1 = Some b1" "alive b1" "chatter s1 = chatter s"
        and c: "connected s \<and> connected s1 \<and> queue s1 = queue s \<and> grows good out b b1 [] \<or>
           \<not> connected s \<and> \<not> connected s1 \<and> queue s1 = queue s \<and>
             (\<exists>h \<in> insert [] (chatter s). grows good out b b1 h) \<or>
           \<not> connected s \<and> connected s1 \<and> queue s1 = [] \<and> grows good out b b1 (queue_bytes (queue s))"
        using r(2) by blast
      have "tunnel_state good out (connected s1) (queue s1) (chatter s1) start b1 before"
        using c Cons.prems(4) unfolding b1(4)
        by (auto intro: tunnel_state_same [where b = b] tunnel_state_opens [where b = b]
            tunnel_state_talk [where b = b])
      then show ?thesis using Cons.IH [OF b1(1-3)] r(1) False Tunnel_recv b1(4) by simp
    qed
  next
    case (Tunnel_writable hup)
    obtain s1 b1 where s1: "t_more hup s = Some s1" "wf s1" "base s1 = Some b1" "alive b1"
      "chatter s1 = chatter s" "connected s1 = connected s" "queue s1 = queue s" "grows good out b b1 []"
      using more_step [OF Cons.prems(1-3)] by blast
    have "tunnel_state good out (connected s1) (queue s1) (chatter s1) start b1 before"
      using tunnel_state_same [OF Cons.prems(4) s1(8)] by (simp add: s1(5-7))
    then show ?thesis using Cons.IH [OF s1(2-4)] s1(1,5) Tunnel_writable by simp
  next
    case (Tunnel_send to ms)
    have "\<exists>r s1 b1. t_send s to ms = Some (r, s1) \<and> wf s1 \<and> base s1 = Some b1 \<and>
      alive b1 \<and> chatter s1 = chatter s \<and>
      tunnel_state good out (connected s1) (queue s1) (chatter s1) start b1
        (before @ (if r < 0 then [] else concat (map concat ms)))"
    proof (cases "connected s")
      case True
      obtain r s1 b1 where s1: "t_send s to ms = Some (r, s1)" "wf s1" "connected s1" "base s1 = Some b1"
        "alive b1" "grows good out b b1 (concat (map concat ms))" "good b1 \<longrightarrow> r = int (length ms)"
        "queue s1 = queue s" "chatter s1 = chatter s"
        using send_open [OF Cons.prems(1-3) True, of to ms] by blast
      have "tunnel_state good out True (queue s) (chatter s) start b1
          (before @ (if r < 0 then [] else concat (map concat ms)))"
        using tunnel_state_sends [OF _ s1(6)] Cons.prems(4) s1(7) True by simp
      then show ?thesis using s1 by auto
    next
      case False
      have "queue_bytes (queued_messages to ms) = concat (map concat ms)"
        by (simp add: queue_bytes_def queued_messages_bytes)
      then show ?thesis using send_queued [OF Cons.prems(1-3) False, of to ms] Cons.prems(3,4) False
        by (fastforce simp: tunnel_state_def)
    qed
    then obtain r s1 b1 where s1: "t_send s to ms = Some (r, s1)" "wf s1"
      "base s1 = Some b1" "alive b1" "chatter s1 = chatter s"
      "tunnel_state good out (connected s1) (queue s1) (chatter s1) start b1
        (before @ (if r < 0 then [] else concat (map concat ms)))" by blast
    show ?thesis using Cons.IH [OF s1(2,3,4,6)] s1(1,5) Tunnel_send by force
  qed
qed

end

section \<open>Reading and sending through the base\<close>

context duplex_socket
begin

lemma recv_cases:
  assumes "alive b"
  obtains (fail) r b' where "op_recv_messages ops b [sizes] = Some (r, [], b')" "r < 0"
  | (none) b' where "op_recv_messages ops b [sizes] = Some (0, [], b')" "alive b'" "grows good out b b' []"
  | (one) d src b' where "op_recv_messages ops b [sizes] = Some (1, [(d, src)], b')"
      "length d \<le> sum_list sizes" "alive b'" "grows good out b b' []"
  using recv_one [OF assms, of sizes] by blast

lemma socks5_read_cases:
  assumes "alive b"
  obtains (fail) r data b' where "socks5_read ops stack b n = Some (r, data, b')" "r < 0"
  | (none) data b' where "socks5_read ops stack b n = Some (0, data, b')" "alive b'" "grows good out b b' []"
  | (one) data b' where "socks5_read ops stack b n = Some (1, data, b')" "alive b'" "grows good out b b' []"
  by (rule recv_cases [OF assms, of "[n]"])
    (auto simp: socks5_read_def nice_socket_recv_messages_def)

end

section \<open>Pseudo-SSL\<close>

definition ps_recv :: "'b socket_ops \<Rightarrow> 'b pseudossl_priv \<Rightarrow> nat list \<Rightarrow> (int \<times> 'b pseudossl_priv) option"
where
  "ps_recv ops s sizes =
     map_option (\<lambda>(r, got, s). (r, s)) (pseudossl_recv_messages ops s [sizes])"

definition ps_more :: "(bool \<Rightarrow> 'b \<Rightarrow> 'b option) \<Rightarrow> bool \<Rightarrow> 'b pseudossl_priv \<Rightarrow> 'b pseudossl_priv option"
where
  "ps_more writable hup s = (case ps_base_socket s of None \<Rightarrow> Some s
     | Some b \<Rightarrow> map_option (\<lambda>b. s\<lparr>ps_base_socket := Some b\<rparr>) (writable hup b))"

context duplex_socket
begin

lemma pseudossl_tunnel:
  assumes m: "\<forall>n. length (malloc n) = n"
  shows "tunnel ops alive good out writable (\<lambda>s. True) ps_handshaken ps_base_socket ps_send_queue (\<lambda>s. {})
    (ps_recv ops) (pseudossl_send_messages_reliable ops malloc) (ps_more writable)"
proof (intro tunnel.intro tunnel_axioms.intro duplex_socket_axioms)
  fix s :: "'b pseudossl_priv" and b to ms
  assume "ps_base_socket s = Some b" "alive b" "ps_handshaken s"
  moreover obtain r b' where "op_send_messages_reliable ops b to ms = Some (r, b')"
    "alive b'" "grows good out b b' (concat (map concat ms))" "good b' \<longrightarrow> r = int (length ms)"
    using send_reliable [OF \<open>alive b\<close>] by blast
  ultimately show "\<exists>r s' b'. pseudossl_send_messages_reliable ops malloc s to ms =
      Some (r, s') \<and> True \<and> ps_handshaken s' \<and> ps_base_socket s' = Some b' \<and>
      alive b' \<and> grows good out b b' (concat (map concat ms)) \<and> (good b' \<longrightarrow> r = int (length ms)) \<and>
      ps_send_queue s' = ps_send_queue s \<and>
      {} = ({} :: bytes set)"
    by (simp add: pseudossl_send_messages_reliable_def nice_socket_send_messages_reliable_def)
next
  fix s :: "'b pseudossl_priv" and b to ms
  assume "ps_base_socket s = Some b" "\<not> ps_handshaken s"
  then show "\<exists>s'. pseudossl_send_messages_reliable ops malloc s to ms = Some (int (length ms), s') \<and>
      True \<and> \<not> ps_handshaken s' \<and> ps_base_socket s' = Some b \<and>
      ps_send_queue s' = ps_send_queue s @ queued_messages to ms \<and> {} = ({} :: bytes set)"
    by (simp add: pseudossl_send_messages_reliable_def queue_send_eq [OF m])
next
  fix s :: "'b pseudossl_priv" and b sizes
  assume s: "ps_base_socket s = Some b" "alive b"
  define n where "n = (case ps_compatibility s of
      NICE_PSEUDOSSL_SOCKET_COMPATIBILITY_MSOC \<Rightarrow> length SSL_SERVER_MSOC_HANDSHAKE
    | NICE_PSEUDOSSL_SOCKET_COMPATIBILITY_GOOGLE \<Rightarrow> length SSL_SERVER_GOOGLE_HANDSHAKE)"
  note defs = ps_recv_def pseudossl_recv_messages_def n_def [symmetric] Let_def s
    nice_socket_recv_messages_def
  show "\<exists>r s'. ps_recv ops s sizes = Some (r, s') \<and> (r < 0 \<or>
        (\<exists>b'. True \<and> ps_base_socket s' = Some b' \<and> alive b' \<and> {} = ({} :: bytes set) \<and>
          (ps_handshaken s \<and> ps_handshaken s' \<and> ps_send_queue s' = ps_send_queue s \<and> grows good out b b' [] \<or>
           \<not> ps_handshaken s \<and> \<not> ps_handshaken s' \<and> ps_send_queue s' = ps_send_queue s \<and>
             (\<exists>h \<in> insert [] {}. grows good out b b' h) \<or>
           \<not> ps_handshaken s \<and> ps_handshaken s' \<and> ps_send_queue s' = [] \<and>
             grows good out b b' (queue_bytes (ps_send_queue s)))))"
  proof (cases "ps_handshaken s")
    case True
    then show ?thesis by (rule_tac recv_cases [OF s(2), of sizes]) (auto simp: defs)
  next
    case False
    show ?thesis
    proof (rule recv_cases [OF s(2), of "[n]"])
      fix d src b' assume r: "op_recv_messages ops b [[n]] = Some (1, [(d, src)], b')"
        "alive b'" "grows good out b b' []"
      obtain b2 where "nice_socket_flush_send_queue ops b' (ps_send_queue s) = Some b2" "alive b2"
        "grows good out b b2 (queue_bytes (ps_send_queue s))"
        using flush_in_order [OF r(2)] grows_trans_nil [OF r(3)] by blast
      then show ?thesis using False r by (simp add: defs)
    qed (use False in \<open>auto simp: defs\<close>)
  qed
next
  fix s :: "'b pseudossl_priv" and b hup
  assume "ps_base_socket s = Some b" "alive b"
  then show "\<exists>s' b'. ps_more writable hup s = Some s' \<and> True \<and> ps_base_socket s' = Some b' \<and> alive b' \<and>
      {} = ({} :: bytes set) \<and> ps_handshaken s' = ps_handshaken s \<and> ps_send_queue s' = ps_send_queue s \<and>
      grows good out b b' []"
    using write_more [of b hup] by (auto simp: ps_more_def)
qed

end

section \<open>SOCKS 5\<close>

definition so_recv ::
  "'b socket_ops \<Rightarrow> (nat \<Rightarrow> bytes) \<Rightarrow> 'b socks5_priv \<Rightarrow> nat list \<Rightarrow> (int \<times> 'b socks5_priv) option" where
  "so_recv ops stack s sizes =
     map_option (\<lambda>(r, got, s). (r, s)) (socks5_recv_messages ops stack s [sizes])"

definition so_more :: "(bool \<Rightarrow> 'b \<Rightarrow> 'b option) \<Rightarrow> bool \<Rightarrow> 'b socks5_priv \<Rightarrow> 'b socks5_priv option" where
  "so_more writable hup s = (case so_base_socket s of None \<Rightarrow> Some s
     | Some b \<Rightarrow> map_option (\<lambda>b. s\<lparr>so_base_socket := Some b\<rparr>) (writable hup b))"

definition so_wf :: "'b socks5_priv \<Rightarrow> bool" where
  "so_wf s \<longleftrightarrow> so_state s \<noteq> SOCKS_STATE_ERROR \<and> socks5_request (so_addr s) \<noteq> None"

definition so_connected :: "'b socks5_priv \<Rightarrow> bool" where
  "so_connected s \<longleftrightarrow> so_state s = SOCKS_STATE_CONNECTED"

text \<open>What the client may say to the proxy after its greeting.\<close>

definition so_chatter :: "'b socks5_priv \<Rightarrow> bytes set" where
  "so_chatter s = {the (socks5_request (so_addr s)),
     socks5_credentials (case so_username s of None \<Rightarrow> [] | Some u \<Rightarrow> u)
       (case so_password s of None \<Rightarrow> [] | Some u \<Rightarrow> u)}"

text \<open>What a step before the connection does to the socket.\<close>

definition so_step :: "('b \<Rightarrow> bool) \<Rightarrow> ('b \<Rightarrow> bool) \<Rightarrow> ('b \<Rightarrow> bytes) \<Rightarrow> 'b socks5_priv \<Rightarrow> 'b \<Rightarrow>
  (int \<times> received \<times> 'b socks5_priv) option \<Rightarrow> bool" where
  "so_step alive good out s b res \<longleftrightarrow> (\<exists>r got s'. res = Some (r, got, s') \<and> (r < 0 \<or>
     (\<exists>b'. so_wf s' \<and> so_base_socket s' = Some b' \<and> alive b' \<and> so_chatter s' = so_chatter s \<and>
        (\<not> so_connected s' \<and> so_send_queue s' = so_send_queue s \<and>
           (\<exists>h \<in> insert [] (so_chatter s). grows good out b b' h) \<or>
         so_connected s' \<and> so_send_queue s' = [] \<and>
           grows good out b b' (queue_bytes (so_send_queue s))))))"

lemma so_step_error [simp]: "so_step alive good out s b (socks5_error q)"
  by (simp add: so_step_def socks5_error_def)

lemma so_step_none:
  "r \<le> 0 \<Longrightarrow> so_wf s \<Longrightarrow> \<not> so_connected s \<Longrightarrow> alive b' \<Longrightarrow> grows good out b b' [] \<Longrightarrow>
     so_step alive good out s b (Some (r, [], s\<lparr>so_base_socket := Some b'\<rparr>))"
  by (simp add: so_step_def so_wf_def so_chatter_def so_connected_def)

lemma so_step_fail: "r < 0 \<Longrightarrow> so_step alive good out s b (Some (r, got, q))"
  by (simp add: so_step_def)

context duplex_socket
begin

lemma socks5_send_connect_step:
  assumes "so_wf s" and "\<not> so_connected s" and "alive b'" and "grows good out b b' []"
  shows "so_step alive good out s b (socks5_send_connect ops (s\<lparr>so_base_socket := Some b'\<rparr>) b')"
proof -
  obtain msg where m: "socks5_request (so_addr s) = Some msg" using assms by (auto simp: so_wf_def)
  obtain r b2 where "nice_socket_send_reliable ops b' None msg = Some (r, b2)"
    "alive b2" "grows good out b b2 msg"
    using send_bytes [OF assms(3)] grows_trans_nil [OF assms(4)] by blast
  then show ?thesis using m assms(1)
    by (simp add: socks5_send_connect_def so_step_def so_wf_def so_chatter_def so_connected_def)
qed

lemma socks5_init_step:
  assumes "so_wf s" and "\<not> so_connected s" and "alive b"
  shows "so_step alive good out s b (socks5_recv_init ops stack s b)"
proof (rule socks5_read_cases [OF assms(3), of stack 2])
  fix data b' assume r: "socks5_read ops stack b 2 = Some (1, data, b')" "alive b'"
    "grows good out b b' []"
  let ?s = "s\<lparr>so_base_socket := Some b'\<rparr>"
  let ?u = "case so_username s of None \<Rightarrow> [] | Some u \<Rightarrow> u"
  let ?p = "case so_password s of None \<Rightarrow> [] | Some u \<Rightarrow> u"
  obtain l b2 where b2: "nice_socket_send_reliable ops b' None (socks5_credentials ?u ?p) =
      Some (l, b2)" "alive b2" "grows good out b b2 (socks5_credentials ?u ?p)"
    using send_bytes [OF r(2)] grows_trans_nil [OF r(3)] by blast
  have auth: "so_step alive good out s b
    (Some (0, [], ?s\<lparr>so_base_socket := Some b2, so_state := SOCKS_STATE_AUTH\<rparr>))"
    using b2 assms(1) by (simp add: so_step_def so_wf_def so_chatter_def so_connected_def)
  have conn: "so_step alive good out s b (socks5_send_connect ops ?s b')"
    by (rule socks5_send_connect_step) (use assms r in auto)
  show ?thesis using auth conn by (simp add: socks5_recv_init_def r(1) b2(1) Let_def)
qed (use assms in \<open>auto simp: socks5_recv_init_def intro: so_step_none so_step_fail\<close>)

lemma socks5_auth_step:
  assumes "so_wf s" and "\<not> so_connected s" and "alive b"
  shows "so_step alive good out s b (socks5_recv_auth ops stack s b)"
proof (rule socks5_read_cases [OF assms(3), of stack 2])
  fix data b' assume r: "socks5_read ops stack b 2 = Some (1, data, b')" "alive b'"
    "grows good out b b' []"
  have "so_step alive good out s b (socks5_send_connect ops (s\<lparr>so_base_socket := Some b'\<rparr>) b')"
    by (rule socks5_send_connect_step) (use assms r in auto)
  then show ?thesis by (simp add: socks5_recv_auth_def r(1) Let_def)
qed (use assms in \<open>auto simp: socks5_recv_auth_def intro: so_step_none so_step_fail\<close>)

lemma socks5_connect_step:
  assumes "so_wf s" and "\<not> so_connected s" and "alive b"
  shows "so_step alive good out s b (socks5_recv_connect ops stack s b)"
proof (rule socks5_read_cases [OF assms(3), of stack 4])
  fix data b' assume r: "socks5_read ops stack b 4 = Some (1, data, b')" "alive b'"
    "grows good out b b' []"
  let ?n = "if data ! 3 = 1 then 6 else 18"
  let ?s = "s\<lparr>so_base_socket := Some b'\<rparr>"
  let ?rest = "do {
       (ret, data, base) \<leftarrow> socks5_read ops stack b' ?n;
       if ret \<noteq> 1 then socks5_error (?s\<lparr>so_base_socket := Some base\<rparr>)
       else do {
         base \<leftarrow> nice_socket_flush_send_queue ops base (so_send_queue ?s);
         Some (0, [], ?s\<lparr>so_base_socket := Some base, so_send_queue := [],
           so_state := SOCKS_STATE_CONNECTED\<rparr>) } }"
  have "so_step alive good out s b ?rest"
  proof (rule socks5_read_cases [OF r(2), of stack ?n])
    fix data2 b2 assume r2: "socks5_read ops stack b' ?n = Some (1, data2, b2)" "alive b2"
      "grows good out b' b2 []"
    obtain b3 where "nice_socket_flush_send_queue ops b2 (so_send_queue s) = Some b3" "alive b3"
      "grows good out b b3 (queue_bytes (so_send_queue s))"
      using flush_in_order [OF r2(2)] grows_trans_nil [OF r2(3)] grows_trans_nil [OF r(3)] by blast
    then show ?thesis using r r2 assms(1)
      by (simp add: so_step_def so_wf_def so_chatter_def so_connected_def)
  qed auto
  then show ?thesis by (simp add: socks5_recv_connect_def r(1) Let_def)
qed (use assms in \<open>auto simp: socks5_recv_connect_def intro: so_step_none so_step_fail\<close>)

lemma socks5_tunnel:
  assumes m: "\<forall>n. length (malloc n) = n"
  shows "tunnel ops alive good out writable so_wf so_connected so_base_socket so_send_queue so_chatter
    (so_recv ops stack) (socks5_send_messages_reliable ops malloc) (so_more writable)"
proof (intro tunnel.intro tunnel_axioms.intro duplex_socket_axioms)
  fix s :: "'b socks5_priv" and b to ms
  assume s: "so_wf s" "so_base_socket s = Some b" "alive b" "so_connected s"
  obtain r b' where "op_send_messages_reliable ops b to ms = Some (r, b')"
    "alive b'" "grows good out b b' (concat (map concat ms))" "good b' \<longrightarrow> r = int (length ms)"
    using send_reliable [OF s(3)] by blast
  then show "\<exists>r s' b'. socks5_send_messages_reliable ops malloc s to ms =
      Some (r, s') \<and> so_wf s' \<and> so_connected s' \<and> so_base_socket s' = Some b' \<and>
      alive b' \<and> grows good out b b' (concat (map concat ms)) \<and> (good b' \<longrightarrow> r = int (length ms)) \<and>
      so_send_queue s' = so_send_queue s \<and>
      so_chatter s' = so_chatter s"
    using s by (simp add: socks5_send_messages_reliable_def nice_socket_send_messages_reliable_def
        so_connected_def so_wf_def so_chatter_def)
next
  fix s :: "'b socks5_priv" and b to ms
  assume s: "so_wf s" "so_base_socket s = Some b" "\<not> so_connected s"
  then show "\<exists>s'. socks5_send_messages_reliable ops malloc s to ms = Some (int (length ms), s') \<and>
      so_wf s' \<and> \<not> so_connected s' \<and> so_base_socket s' = Some b \<and>
      so_send_queue s' = so_send_queue s @ queued_messages to ms \<and> so_chatter s' = so_chatter s"
    by (simp add: socks5_send_messages_reliable_def queue_send_eq [OF m] so_connected_def so_wf_def
        so_chatter_def)
next
  fix s :: "'b socks5_priv" and b sizes
  assume s: "so_wf s" "so_base_socket s = Some b" "alive b"
  show "\<exists>r s'. so_recv ops stack s sizes = Some (r, s') \<and> (r < 0 \<or>
        (\<exists>b'. so_wf s' \<and> so_base_socket s' = Some b' \<and> alive b' \<and> so_chatter s' = so_chatter s \<and>
          (so_connected s \<and> so_connected s' \<and> so_send_queue s' = so_send_queue s \<and> grows good out b b' [] \<or>
           \<not> so_connected s \<and> \<not> so_connected s' \<and> so_send_queue s' = so_send_queue s \<and>
             (\<exists>h \<in> insert [] (so_chatter s). grows good out b b' h) \<or>
           \<not> so_connected s \<and> so_connected s' \<and> so_send_queue s' = [] \<and>
             grows good out b b' (queue_bytes (so_send_queue s)))))"
  proof (cases "so_connected s")
    case True
    then show ?thesis using s
      by (rule_tac recv_cases [OF s(3), of sizes]) (auto simp: so_recv_def socks5_recv_messages_def
          so_connected_def nice_socket_recv_messages_def so_wf_def so_chatter_def)
  next
    case False
    have "so_step alive good out s b (socks5_recv_messages ops stack s [sizes])"
    proof (cases "so_state s")
      case SOCKS_STATE_INIT
      then show ?thesis using socks5_init_step [OF s(1) False s(3)] s
        by (simp add: socks5_recv_messages_def)
    next
      case SOCKS_STATE_AUTH
      then show ?thesis using socks5_auth_step [OF s(1) False s(3)] s
        by (simp add: socks5_recv_messages_def)
    next
      case SOCKS_STATE_CONNECT
      then show ?thesis using socks5_connect_step [OF s(1) False s(3)] s
        by (simp add: socks5_recv_messages_def)
    qed (use False s in \<open>auto simp: so_connected_def so_wf_def\<close>)
    then show ?thesis using False by (auto simp: so_step_def so_recv_def)
  qed
next
  fix s :: "'b socks5_priv" and b hup
  assume "so_wf s" "so_base_socket s = Some b" "alive b"
  then show "\<exists>s' b'. so_more writable hup s = Some s' \<and> so_wf s' \<and> so_base_socket s' = Some b' \<and> alive b' \<and>
      so_chatter s' = so_chatter s \<and> so_connected s' = so_connected s \<and>
      so_send_queue s' = so_send_queue s \<and> grows good out b b' []"
    using write_more [of b hup]
    by (auto simp: so_more_def so_wf_def so_chatter_def so_connected_def)
qed

end

section \<open>HTTP\<close>

definition ht_recv ::
  "'b socket_ops \<Rightarrow> (nat \<Rightarrow> bytes) \<Rightarrow> 'b http_priv \<Rightarrow> nat list \<Rightarrow> (int \<times> 'b http_priv) option" where
  "ht_recv ops malloc s sizes =
     map_option (\<lambda>(r, got, left, s). (r, s)) (http_recv_messages ops malloc s [sizes])"

definition ht_more :: "(bool \<Rightarrow> 'b \<Rightarrow> 'b option) \<Rightarrow> bool \<Rightarrow> 'b http_priv \<Rightarrow> 'b http_priv option" where
  "ht_more writable hup s = (case ht_base_socket s of None \<Rightarrow> Some s
     | Some b \<Rightarrow> map_option (\<lambda>b. s\<lparr>ht_base_socket := Some b\<rparr>) (writable hup b))"

definition ht_wf :: "'b http_priv \<Rightarrow> bool" where
  "ht_wf s \<longleftrightarrow> ht_state s \<noteq> HTTP_STATE_ERROR \<and> ring_ok s"

definition ht_connected :: "'b http_priv \<Rightarrow> bool" where
  "ht_connected s \<longleftrightarrow> ht_state s = HTTP_STATE_CONNECTED"

lemma http_grow_ok:
  assumes "ring_ok s" and m: "\<forall>n. length (malloc n) = n"
  shows "ring_ok (http_grow malloc s)" "ht_recv_buf (http_grow malloc s) \<noteq> []"
    "ht_recv_buf_fill (http_grow malloc s) < length (ht_recv_buf (http_grow malloc s))"
    "ht_state (http_grow malloc s) = ht_state s" "ht_send_queue (http_grow malloc s) = ht_send_queue s"
    "ht_base_socket (http_grow malloc s) = ht_base_socket s"
proof -
  show "ht_state (http_grow malloc s) = ht_state s" "ht_send_queue (http_grow malloc s) = ht_send_queue s"
    "ht_base_socket (http_grow malloc s) = ht_base_socket s"
    by (simp_all add: http_grow_def Let_def)
  have l: "length (drop n (malloc (max (n * 2) 1024))) = max (n * 2) 1024 - n" for n
    using m by simp
  show f: "ht_recv_buf_fill (http_grow malloc s) < length (ht_recv_buf (http_grow malloc s))"
    using assms(1) l [of "length (ht_recv_buf s)"]
    by (auto simp: http_grow_def Let_def ring_ok_def)
  then show "ht_recv_buf (http_grow malloc s) \<noteq> []" by auto
  show "ring_ok (http_grow malloc s)"
    using assms(1) l [of "length (ht_recv_buf s)"]
    by (auto simp: http_grow_def Let_def ring_ok_def)
qed

lemma http_store_ok:
  assumes ok: "ring_ok s" and room: "ht_recv_buf_fill s < length (ht_recv_buf s)"
    and f: "http_free_space s = (start, size0, size1)" and d: "length data \<le> size0 + size1"
  shows "\<exists>buf. http_store s data = Some (s\<lparr>ht_recv_buf := buf,
      ht_recv_buf_fill := ht_recv_buf_fill s + length data\<rparr>) \<and>
    length buf = length (ht_recv_buf s) \<and>
    ht_recv_buf_fill s + length data \<le> length (ht_recv_buf s)"
proof -
  let ?L = "length (ht_recv_buf s)" and ?pos = "ht_recv_buf_pos s" and ?fill = "ht_recv_buf_fill s"
  have p: "?pos < ?L" using ok room by (auto simp: ring_ok_def)
  have b: "start + size0 \<le> ?L \<and> size1 \<le> ?L \<and> ?fill + size0 + size1 \<le> ?L"
  proof (cases "has_wrapped s")
    case True
    then have "(?pos + ?fill) mod ?L = ?pos + ?fill - ?L"
      using p room by (simp add: has_wrapped_def mod_if)
    then show ?thesis using True f p room by (auto simp: http_free_space_def has_wrapped_def Let_def)
  next
    case False
    then show ?thesis using f p room by (auto simp: http_free_space_def has_wrapped_def Let_def)
  qed
  obtain buf1 where b1: "wrn (ht_recv_buf s) start (take size0 data) = Some buf1" "length buf1 = ?L"
  proof -
    have "start + length (take size0 data) \<le> ?L" using b by auto
    then show ?thesis using that wrn_put length_put by blast
  qed
  obtain buf2 where b2: "wrn buf1 0 (drop size0 data) = Some buf2" "length buf2 = ?L"
  proof -
    have "0 + length (drop size0 data) \<le> length buf1" using b b1(2) d by auto
    then show ?thesis using that wrn_put length_put b1(2) by metis
  qed
  show ?thesis using b1 b2 b d f by (intro exI [of _ buf2]) (simp add: http_store_def)
qed

context duplex_socket
begin

lemma http_handshake_step:
  assumes m: "\<forall>n. length (malloc n) = n"
    and s: "ht_wf s" "ht_base_socket s = Some b" "alive b" "\<not> ht_connected s"
  shows "\<exists>r got left s'. http_recv_messages ops malloc s msgs = Some (r, got, left, s') \<and> (r < 0 \<or>
        (\<exists>b'. ht_wf s' \<and> ht_base_socket s' = Some b' \<and> alive b' \<and>
          (\<not> ht_connected s' \<and> ht_send_queue s' = ht_send_queue s \<and> grows good out b b' [] \<or>
           ht_connected s' \<and> ht_send_queue s' = [] \<and>
             grows good out b b' (queue_bytes (ht_send_queue s)))))"
proof -
  define p where "p = http_grow malloc s"
  have p: "ring_ok p" "ht_recv_buf p \<noteq> []" "ht_recv_buf_fill p < length (ht_recv_buf p)"
    "ht_state p = ht_state s" "ht_send_queue p = ht_send_queue s" "ht_base_socket p = Some b"
    using http_grow_ok [of s malloc] s m by (auto simp: p_def ht_wf_def)
  have st: "ht_state s \<noteq> HTTP_STATE_CONNECTED" "ht_state s \<noteq> HTTP_STATE_ERROR"
    using s by (auto simp: ht_connected_def ht_wf_def)
  have a: "assert_ring_buffer_valid q = Some ()" if "ring_ok q" for q :: "'b http_priv"
    using that by (auto simp: assert_ring_buffer_valid_def ring_ok_def)
  obtain start size0 size1 where f: "http_free_space p = (start, size0, size1)"
    by (cases "http_free_space p")
  note defs = http_recv_messages_def p_def [symmetric] Let_def st a [OF p(1)] p(6) f
    nice_socket_recv_messages_def
  show ?thesis
  proof (rule recv_cases [OF s(3), of "[size0, size1]"])
    fix b' assume "op_recv_messages ops b [[size0, size1]] = Some (0, [], b')" "alive b'"
      "grows good out b b' []"
    then show ?thesis using p st
      by (simp add: defs ht_wf_def ht_connected_def) (simp add: ring_ok_def)
  next
    fix d src b' assume r: "op_recv_messages ops b [[size0, size1]] = Some (1, [(d, src)], b')"
      "length d \<le> sum_list [size0, size1]" "alive b'" "grows good out b b' []"
    let ?p1 = "p\<lparr>ht_base_socket := Some b'\<rparr>"
    have "ring_ok ?p1" "http_free_space ?p1 = (start, size0, size1)"
      "ht_recv_buf_fill ?p1 < length (ht_recv_buf ?p1)"
      using p f by (simp_all add: ring_ok_def http_free_space_def has_wrapped_def)
    then obtain buf where st2: "http_store ?p1 d = Some (?p1\<lparr>ht_recv_buf := buf,
      ht_recv_buf_fill := ht_recv_buf_fill p + length d\<rparr>)" "length buf = length (ht_recv_buf p)"
      "ht_recv_buf_fill p + length d \<le> length (ht_recv_buf p)"
      using http_store_ok [of ?p1 start size0 size1 d] r(2) by auto
    let ?p2 = "?p1\<lparr>ht_recv_buf := buf, ht_recv_buf_fill := ht_recv_buf_fill p + length d\<rparr>"
    have p2: "ring_ok ?p2" "ht_recv_buf ?p2 \<noteq> []"
      using p st2 by (auto simp: ring_ok_def)
    obtain n where n: "http_parse ?p2 = Some n" "parsed_ok ?p2 n"
      using http_parse_ok [OF p2] by blast
    note defs2 = defs r(1) st2(1) a [OF p2(1)] n(1)
    show ?thesis
    proof (cases n)
      case (Http_retry q)
      then show ?thesis using n(2) by (simp add: parsed_ok_def)
    next
      case (Http_not_enough q)
      then have q: "ring_ok q" "same_socket ?p2 q" "parsing q"
        using n(2) by (simp_all add: parsed_ok_def)
      then show ?thesis using r(3,4) p(5) Http_not_enough
        by (auto simp: defs2 ht_wf_def ht_connected_def same_socket_def parsing_def)
    next
      case (Http_fail q)
      then show ?thesis by (simp add: defs2)
    next
      case (Http_connected q)
      then have q: "ring_ok q" "same_socket ?p2 q" "ht_state q = HTTP_STATE_CONNECTED"
        using n(2) by (simp_all add: parsed_ok_def)
      have "ht_recv_buf q \<noteq> []" using q(2) p2(2) by (simp add: same_socket_def)
      then obtain left q2 where q2: "memcpy_ring_buffer_to_input_messages q msgs = Some (left, q2)"
        "ring_ok q2" "same_socket q q2" "ht_state q2 = ht_state q"
        using ring_to_messages_ok [OF q(1)] by blast
      have sq: "ht_send_queue q2 = ht_send_queue s" "ht_base_socket q = Some b'"
        using q(2) q2(3) p(5) by (simp_all add: same_socket_def)
      obtain b2 where b2: "nice_socket_flush_send_queue ops b' (ht_send_queue s) = Some b2" "alive b2"
        "grows good out b b2 (queue_bytes (ht_send_queue s))"
        using flush_in_order [OF r(3)] grows_trans_nil [OF r(4)] by blast
      have "ht_send_queue q = ht_send_queue s" using q(2) p(5) by (simp add: same_socket_def)
      moreover have "ring_ok (q2\<lparr>ht_base_socket := Some b2, ht_send_queue := []\<rparr>)"
        using q2(2) by (simp add: ring_ok_def)
      ultimately show ?thesis using q q2 sq b2 Http_connected
        by (simp add: defs2 ht_wf_def ht_connected_def)
    qed
  qed (simp add: defs)
qed

lemma http_tunnel:
  assumes m: "\<forall>n. length (malloc n) = n"
  shows "tunnel ops alive good out writable ht_wf ht_connected ht_base_socket ht_send_queue (\<lambda>s. {})
    (ht_recv ops malloc) (http_send_messages_reliable ops malloc) (ht_more writable)"
proof (intro tunnel.intro tunnel_axioms.intro duplex_socket_axioms)
  fix s :: "'b http_priv" and b to ms
  assume s: "ht_wf s" "ht_base_socket s = Some b" "alive b" "ht_connected s"
  obtain r b' where "op_send_messages_reliable ops b to ms = Some (r, b')"
    "alive b'" "grows good out b b' (concat (map concat ms))" "good b' \<longrightarrow> r = int (length ms)"
    using send_reliable [OF s(3)] by blast
  then show "\<exists>r s' b'. http_send_messages_reliable ops malloc s to ms =
      Some (r, s') \<and> ht_wf s' \<and> ht_connected s' \<and> ht_base_socket s' = Some b' \<and>
      alive b' \<and> grows good out b b' (concat (map concat ms)) \<and> (good b' \<longrightarrow> r = int (length ms)) \<and>
      ht_send_queue s' = ht_send_queue s \<and>
      {} = ({} :: bytes set)"
    using s by (simp add: http_send_messages_reliable_def nice_socket_send_messages_reliable_def
        ht_connected_def ht_wf_def ring_ok_def)
next
  fix s :: "'b http_priv" and b to ms
  assume s: "ht_wf s" "ht_base_socket s = Some b" "\<not> ht_connected s"
  then show "\<exists>s'. http_send_messages_reliable ops malloc s to ms = Some (int (length ms), s') \<and>
      ht_wf s' \<and> \<not> ht_connected s' \<and> ht_base_socket s' = Some b \<and>
      ht_send_queue s' = ht_send_queue s @ queued_messages to ms \<and> {} = ({} :: bytes set)"
    by (simp add: http_send_messages_reliable_def queue_send_eq [OF m] ht_connected_def ht_wf_def
        ring_ok_def)
next
  fix s :: "'b http_priv" and b sizes
  assume s: "ht_wf s" "ht_base_socket s = Some b" "alive b"
  show "\<exists>r s'. ht_recv ops malloc s sizes = Some (r, s') \<and> (r < 0 \<or>
        (\<exists>b'. ht_wf s' \<and> ht_base_socket s' = Some b' \<and> alive b' \<and> {} = ({} :: bytes set) \<and>
          (ht_connected s \<and> ht_connected s' \<and> ht_send_queue s' = ht_send_queue s \<and> grows good out b b' [] \<or>
           \<not> ht_connected s \<and> \<not> ht_connected s' \<and> ht_send_queue s' = ht_send_queue s \<and>
             (\<exists>h \<in> insert [] {}. grows good out b b' h) \<or>
           \<not> ht_connected s \<and> ht_connected s' \<and> ht_send_queue s' = [] \<and>
             grows good out b b' (queue_bytes (ht_send_queue s)))))"
  proof (cases "ht_connected s")
    case True
    then show ?thesis using s
      by (rule_tac recv_cases [OF s(3), of sizes]) (auto simp: ht_recv_def http_recv_messages_def
          ht_connected_def nice_socket_recv_messages_def ht_wf_def ring_ok_def)
  next
    case False
    then show ?thesis using http_handshake_step [OF m s False, of "[sizes]"]
      by (fastforce simp: ht_recv_def)
  qed
next
  fix s :: "'b http_priv" and b hup
  assume "ht_wf s" "ht_base_socket s = Some b" "alive b"
  then show "\<exists>s' b'. ht_more writable hup s = Some s' \<and> ht_wf s' \<and> ht_base_socket s' = Some b' \<and> alive b' \<and>
      {} = ({} :: bytes set) \<and> ht_connected s' = ht_connected s \<and>
      ht_send_queue s' = ht_send_queue s \<and> grows good out b b' []"
    using write_more [of b hup]
    by (auto simp: ht_more_def ht_wf_def ring_ok_def ht_connected_def)
qed

end

section \<open>Over TCP\<close>

lemma tcp_duplex_socket:
  assumes s: "kernel_sends malloc gsend (out :: 'g \<Rightarrow> bytes) calls" and r: "kernel_receives grecv rest"
    and o: "kernel_reads_only grecv out calls"
  shows "duplex_socket (tcp_ops malloc gsend grecv) tcp_alive (tcp_unharmed calls) (tcp_taken out)
    (tcp_writable malloc gsend)"
proof (intro duplex_socket.intro duplex_socket_axioms.intro tcp_reliable_socket [OF s])
  fix b :: "'g tcp_sock" and sizes :: "nat list" assume "tcp_alive b"
  then obtain p g where b: "b = (Some p, g)" "\<not> tcp_err p" "queue_ok (tcp_send_queue p)"
    by (cases b) (auto simp: tcp_alive_def split: option.splits)
  obtain res g1 where g: "grecv g sizes = (res, g1)" by (cases "grecv g sizes")
  have l: "case res of Received d \<Rightarrow> length d \<le> sum_list sizes | _ \<Rightarrow> True"
    using r [unfolded kernel_receives_def, rule_format, OF g] by (auto split: grecv_result.splits)
  have "out g1 = out g \<and> calls g1 = calls g"
    using o g unfolding kernel_reads_only_def by (metis snd_conv)
  then show "\<exists>r got b'. op_recv_messages (tcp_ops malloc gsend grecv) b [sizes] = Some (r, got, b') \<and>
    ((r = 1 \<and> (\<exists>d src. got = [(d, src)] \<and> length d \<le> sum_list sizes) \<or> r = 0 \<and> got = []) \<and>
       tcp_alive b' \<and> grows (tcp_unharmed calls) (tcp_taken out) b b' [] \<or>
     r < 0 \<and> got = [])"
    by (cases res) (use b g l in \<open>auto simp: tcp_ops_def tcp_socket_recv_messages_def tcp_alive_def
        tcp_taken_def tcp_unharmed_def grows_def\<close>)
next
  fix b :: "'g tcp_sock" and hup assume "tcp_alive b"
  then show "\<exists>b'. tcp_writable malloc gsend hup b = Some b' \<and> tcp_alive b' \<and>
      grows (tcp_unharmed calls) (tcp_taken out) b b' []"
    using tcp_writable_taken [OF s, of b hup] by (auto simp: grows_def)
qed

interpretation tcp_both: duplex_socket "tcp_ops zero_malloc script_send script_recv" tcp_alive
  "tcp_unharmed sk_calls" "tcp_taken sk_out" "tcp_writable zero_malloc script_send"
  by (rule tcp_duplex_socket [OF script_kernel_sends script_kernel_receives script_reads_only])

lemma zero_malloc_length: "\<forall>n. length (zero_malloc n) = n"
  by (simp add: zero_malloc_def)

interpretation ssl: tunnel "tcp_ops zero_malloc script_send script_recv" tcp_alive
  "tcp_unharmed sk_calls" "tcp_taken sk_out" "tcp_writable zero_malloc script_send"
  "\<lambda>s. True" ps_handshaken ps_base_socket ps_send_queue "\<lambda>s. {}"
  "ps_recv (tcp_ops zero_malloc script_send script_recv)"
  "pseudossl_send_messages_reliable (tcp_ops zero_malloc script_send script_recv) zero_malloc"
  "ps_more (tcp_writable zero_malloc script_send)"
  by (rule tcp_both.pseudossl_tunnel [OF zero_malloc_length])

interpretation socks: tunnel "tcp_ops zero_malloc script_send script_recv" tcp_alive
  "tcp_unharmed sk_calls" "tcp_taken sk_out" "tcp_writable zero_malloc script_send"
  so_wf so_connected so_base_socket so_send_queue so_chatter
  "so_recv (tcp_ops zero_malloc script_send script_recv) zero_malloc"
  "socks5_send_messages_reliable (tcp_ops zero_malloc script_send script_recv) zero_malloc"
  "so_more (tcp_writable zero_malloc script_send)"
  by (rule tcp_both.socks5_tunnel [OF zero_malloc_length])

interpretation http: tunnel "tcp_ops zero_malloc script_send script_recv" tcp_alive
  "tcp_unharmed sk_calls" "tcp_taken sk_out" "tcp_writable zero_malloc script_send"
  ht_wf ht_connected ht_base_socket ht_send_queue "\<lambda>s. {}"
  "ht_recv (tcp_ops zero_malloc script_send script_recv) zero_malloc"
  "http_send_messages_reliable (tcp_ops zero_malloc script_send script_recv) zero_malloc"
  "ht_more (tcp_writable zero_malloc script_send)"
  by (rule tcp_both.http_tunnel [OF zero_malloc_length])

end
