(* ===== verification/Sock_Turn.thy ===== *)
theory Sock_Turn
  imports Sock_Framing Usage_Bind
begin

unbundle bit_operations_syntax

text \<open>
  The socket on a TURN server's allocation, from \<open>socket/udp-turn.c\<close>: data goes to the server
  in Send indications or requests, or on channels bound to a peer, after a permission for the
  peer where the dialect has permissions; what the server sends is taken apart.

  The state is that of \<open>UdpTurnPriv\<close>: lists for the \<open>GList\<close>s and queues, an association list
  for the hash table of send queues (its keys are compared with \<open>nice_address_equal\<close>, and equal
  addresses have the same text and so the same hash). A timer source is a number, drawn from a
  counter; the sources for the retransmissions are kept with their interval and unit. The base
  socket is a \<open>NiceSocket\<close> of any kind.

  Arguments: the environment of the STUN library, the transaction ids drawn one after the
  other, what fresh or uninitialised memory holds, and the time, which is that of the whole
  event. \<open>None\<close> is an access outside an object, the use of an address that was not stored, or a
  failed assertion.
\<close>

section \<open>The state\<close>

record channel_binding =
  cb_peer :: sockaddr
  cb_channel :: u16
  cb_renew :: bool
  cb_timeout_source :: "nat option"

record turn_message =
  tm_message :: stun_message
  tm_timer :: stun_timer

record send_data =
  sd_data :: bytes
  sd_reliable :: bool

record send_request =
  sr_id :: bytes
  sr_source :: nat

record 'b udp_turn_priv =
  ut_agent :: stun_agent
  ut_channels :: "channel_binding list"
  ut_pending_bindings :: "sockaddr list"
  ut_current_binding :: "channel_binding option"
  ut_current_binding_msg :: "turn_message option"
  ut_pending_permissions :: "turn_message list"
  ut_tick_channel_bind :: "(u32 \<times> bool) option"
  ut_tick_create_permission :: "(u32 \<times> bool) option"
  ut_base_socket :: 'b
  ut_base_is_udp_bsd :: bool
  ut_server_addr :: sockaddr
  ut_username :: "bytes option"
  ut_password :: "bytes option"
  ut_compatibility :: turn_socket_compatibility
  ut_send_requests :: "send_request list"
  ut_ms_realm :: bytes
  ut_ms_connection_id :: bytes
  ut_ms_sequence_num :: u32
  ut_ms_connection_id_valid :: bool
  ut_permissions :: "sockaddr list"
  ut_sent_permissions :: "sockaddr list"
  ut_send_data_queues :: "(sockaddr \<times> send_data list) list"
  ut_permission_timeout_source :: "nat option"
  ut_next_source :: nat
  ut_draws :: nat

record turn_env =
  te_stun :: stun_env
  te_transid :: "nat \<Rightarrow> bytes"
  te_now :: timeval
  te_message :: stun_message
  te_buffer :: "nat \<Rightarrow> bytes"
  te_malloc :: "nat \<Rightarrow> bytes"

abbreviation (input) STUN_OLD_SET_ACTIVE_DST :: stun_method where
  "STUN_OLD_SET_ACTIVE_DST \<equiv> 0x006"
abbreviation (input) STUN_ATTRIBUTE_CHANNEL_NUMBER :: u16 where
  "STUN_ATTRIBUTE_CHANNEL_NUMBER \<equiv> 0x000C"
abbreviation (input) STUN_ATTRIBUTE_PEER_ADDRESS :: u16 where
  "STUN_ATTRIBUTE_PEER_ADDRESS \<equiv> 0x0012"
abbreviation (input) STUN_ATTRIBUTE_REMOTE_ADDRESS :: u16 where
  "STUN_ATTRIBUTE_REMOTE_ADDRESS \<equiv> 0x0012"
abbreviation (input) STUN_ATTRIBUTE_MS_SEQUENCE_NUMBER :: u16 where
  "STUN_ATTRIBUTE_MS_SEQUENCE_NUMBER \<equiv> 0x8050"

definition turn_std :: "turn_socket_compatibility \<Rightarrow> bool" where
  "turn_std c \<longleftrightarrow> c = NICE_TURN_SOCKET_COMPATIBILITY_DRAFT9 \<or>
                 c = NICE_TURN_SOCKET_COMPATIBILITY_RFC5766"

definition turn_agent_init :: "stun_agent \<Rightarrow> turn_socket_compatibility \<Rightarrow> stun_agent" where
  "turn_agent_init agent0 c = (case c of
     NICE_TURN_SOCKET_COMPATIBILITY_MSN \<Rightarrow>
       stun_agent_init agent0 STUN_ALL_KNOWN_ATTRIBUTES STUN_COMPATIBILITY_RFC3489
         (STUN_AGENT_USAGE_SHORT_TERM_CREDENTIALS OR STUN_AGENT_USAGE_NO_INDICATION_AUTH)
   | NICE_TURN_SOCKET_COMPATIBILITY_GOOGLE \<Rightarrow>
       stun_agent_init agent0 STUN_ALL_KNOWN_ATTRIBUTES STUN_COMPATIBILITY_RFC3489
         (STUN_AGENT_USAGE_SHORT_TERM_CREDENTIALS OR STUN_AGENT_USAGE_IGNORE_CREDENTIALS)
   | NICE_TURN_SOCKET_COMPATIBILITY_OC2007 \<Rightarrow>
       stun_agent_init agent0 STUN_ALL_KNOWN_ATTRIBUTES STUN_COMPATIBILITY_OC2007
         (STUN_AGENT_USAGE_LONG_TERM_CREDENTIALS OR STUN_AGENT_USAGE_NO_ALIGNED_ATTRIBUTES)
   | _ \<Rightarrow>
       stun_agent_init agent0 STUN_ALL_KNOWN_ATTRIBUTES STUN_COMPATIBILITY_RFC5389
         STUN_AGENT_USAGE_LONG_TERM_CREDENTIALS)"

text \<open>\<open>agent0\<close>: the agent in the zeroed block; \<open>decode\<close> is \<open>g_base64_decode\<close>.\<close>

definition nice_udp_turn_socket_new ::
  "(bytes \<Rightarrow> bytes) \<Rightarrow> stun_agent \<Rightarrow> 'b \<Rightarrow> bool \<Rightarrow> sockaddr \<Rightarrow> bytes \<Rightarrow> bytes \<Rightarrow>
     turn_socket_compatibility \<Rightarrow> 'b udp_turn_priv" where
  "nice_udp_turn_socket_new decode agent0 base udp_bsd server username password c =
     \<lparr>ut_agent = turn_agent_init agent0 c, ut_channels = [], ut_pending_bindings = [],
      ut_current_binding = None, ut_current_binding_msg = None, ut_pending_permissions = [],
      ut_tick_channel_bind = None, ut_tick_create_permission = None, ut_base_socket = base,
      ut_base_is_udp_bsd = udp_bsd, ut_server_addr = server,
      ut_username = Some (if c = NICE_TURN_SOCKET_COMPATIBILITY_MSN \<or>
          c = NICE_TURN_SOCKET_COMPATIBILITY_OC2007 then decode username else username),
      ut_password = (if c = NICE_TURN_SOCKET_COMPATIBILITY_MSN \<or>
          c = NICE_TURN_SOCKET_COMPATIBILITY_OC2007 then Some (decode password)
        else if c = NICE_TURN_SOCKET_COMPATIBILITY_GOOGLE then None else Some password),
      ut_compatibility = c, ut_send_requests = [], ut_ms_realm = [],
      ut_ms_connection_id = replicate 20 0, ut_ms_sequence_num = 0,
      ut_ms_connection_id_valid = False, ut_permissions = [], ut_sent_permissions = [],
      ut_send_data_queues = [], ut_permission_timeout_source = None, ut_next_source = 0,
      ut_draws = 0\<rparr>"

definition turn_fresh_id :: "turn_env \<Rightarrow> 'b udp_turn_priv \<Rightarrow> bytes \<times> 'b udp_turn_priv" where
  "turn_fresh_id env p = (te_transid env (ut_draws p), p\<lparr>ut_draws := ut_draws p + 1\<rparr>)"

definition priv_timeout_add_with_context :: "'b udp_turn_priv \<Rightarrow> nat \<times> 'b udp_turn_priv" where
  "priv_timeout_add_with_context p =
     (ut_next_source p, p\<lparr>ut_next_source := ut_next_source p + 1\<rparr>)"

section \<open>Permissions\<close>

definition priv_is_peer_in_list :: "sockaddr list \<Rightarrow> sockaddr \<Rightarrow> bool" where
  "priv_is_peer_in_list l peer = list_ex (\<lambda>a. nice_address_equal a peer) l"

definition priv_has_permission_for_peer :: "'b udp_turn_priv \<Rightarrow> sockaddr \<Rightarrow> bool" where
  "priv_has_permission_for_peer p peer = priv_is_peer_in_list (ut_permissions p) peer"

definition priv_has_sent_permission_for_peer :: "'b udp_turn_priv \<Rightarrow> sockaddr \<Rightarrow> bool" where
  "priv_has_sent_permission_for_peer p peer = priv_is_peer_in_list (ut_sent_permissions p) peer"

definition priv_add_permission_for_peer :: "'b udp_turn_priv \<Rightarrow> sockaddr \<Rightarrow> 'b udp_turn_priv" where
  "priv_add_permission_for_peer p peer =
     p\<lparr>ut_permissions := ut_permissions p @ [nice_address_dup peer]\<rparr>"

definition priv_add_sent_permission_for_peer :: "'b udp_turn_priv \<Rightarrow> sockaddr \<Rightarrow> 'b udp_turn_priv"
where
  "priv_add_sent_permission_for_peer p peer =
     p\<lparr>ut_sent_permissions := ut_sent_permissions p @ [nice_address_dup peer]\<rparr>"

text \<open>
  The loop over the list, with the elements before the iterator. After a removal it ends when
  the element was the first one, and otherwise goes on with the second element of the list.
\<close>

function remove_peer_loop :: "sockaddr list \<Rightarrow> sockaddr list \<Rightarrow> sockaddr \<Rightarrow> sockaddr list" where
  "remove_peer_loop before [] peer = before"
| "remove_peer_loop before (a # rest) peer =
     (if nice_address_equal a peer then
        (case before @ rest of
           [] \<Rightarrow> []
         | x # xs \<Rightarrow> if before = [] then before @ rest else remove_peer_loop [x] xs peer)
      else remove_peer_loop (before @ [a]) rest peer)"
  by pat_completeness auto
termination
  by (relation "(\<lambda>(b, r, p). length b + length r) <*mlex*> measure (\<lambda>(b, r, p). length r)")
    (auto simp: wf_mlex mlex_iff dest: arg_cong [where f = length])

definition priv_remove_peer_from_list :: "sockaddr list \<Rightarrow> sockaddr \<Rightarrow> sockaddr list" where
  "priv_remove_peer_from_list l peer = remove_peer_loop [] l peer"

definition priv_remove_sent_permission_for_peer ::
  "'b udp_turn_priv \<Rightarrow> sockaddr \<Rightarrow> 'b udp_turn_priv" where
  "priv_remove_sent_permission_for_peer p peer =
     p\<lparr>ut_sent_permissions := priv_remove_peer_from_list (ut_sent_permissions p) peer\<rparr>"

definition priv_clear_permissions :: "'b udp_turn_priv \<Rightarrow> 'b udp_turn_priv" where
  "priv_clear_permissions p = p\<lparr>ut_permissions := []\<rparr>"

section \<open>Sending to the server\<close>

definition socket_send_messages_wrapped ::
  "'b socket_ops \<Rightarrow> 'b \<Rightarrow> sockaddr option \<Rightarrow> output_message list \<Rightarrow> bool \<Rightarrow> (int \<times> 'b) option" where
  "socket_send_messages_wrapped ops sock to messages reliable =
     (if \<not> nice_socket_is_reliable ops sock then
        if reliable then nice_socket_send_messages_reliable ops sock to messages
        else nice_socket_send_messages ops sock to messages
      else
        (case messages of
           [message] \<Rightarrow>
             let message_len = output_message_get_size message in
             if message_len > 65535 then None
             else do {
               (ret, sock) \<leftarrow>
                 (if reliable
                  then nice_socket_send_messages_reliable ops sock to
                    [be16_bytes (of_nat message_len) # message]
                  else nice_socket_send_messages ops sock to
                    [be16_bytes (of_nat message_len) # message]);
               Some (if ret = 1 then int message_len else ret, sock) }
         | _ \<Rightarrow> None))"

definition socket_send_wrapped ::
  "'b socket_ops \<Rightarrow> 'b \<Rightarrow> sockaddr option \<Rightarrow> bytes \<Rightarrow> bool \<Rightarrow> (int \<times> 'b) option" where
  "socket_send_wrapped ops sock to buf reliable =
     (if \<not> nice_socket_is_reliable ops sock then do {
        (ret, sock) \<leftarrow> socket_send_messages_wrapped ops sock to [[buf]] reliable;
        Some (if ret = 1 then int (length buf) else ret, sock) }
      else do {
        (ret, sock) \<leftarrow>
          (if reliable
           then nice_socket_send_messages_reliable ops sock to
             [[be16_bytes (of_nat (length buf)), buf]]
           else nice_socket_send_messages ops sock to [[be16_bytes (of_nat (length buf)), buf]]);
        Some (if ret = 1 then int (length buf) else ret, sock) })"

text \<open>The same on the socket's base, to the server.\<close>

definition send_to_server ::
  "'b socket_ops \<Rightarrow> 'b udp_turn_priv \<Rightarrow> bytes \<Rightarrow> bool \<Rightarrow> (int \<times> 'b udp_turn_priv) option" where
  "send_to_server ops p buf reliable = do {
     (ret, base) \<leftarrow> socket_send_wrapped ops (ut_base_socket p) (Some (ut_server_addr p)) buf reliable;
     Some (ret, p\<lparr>ut_base_socket := base\<rparr>) }"

fun lookup_queue :: "(sockaddr \<times> send_data list) list \<Rightarrow> sockaddr \<Rightarrow> send_data list option" where
  "lookup_queue [] to = None"
| "lookup_queue ((a, q) # qs) to = (if nice_address_equal a to then Some q else lookup_queue qs to)"

fun update_queue ::
  "(sockaddr \<times> send_data list) list \<Rightarrow> sockaddr \<Rightarrow> send_data list \<Rightarrow> (sockaddr \<times> send_data list) list"
where
  "update_queue [] to q = [(nice_address_dup to, q)]"
| "update_queue ((a, q') # qs) to q =
     (if nice_address_equal a to then (a, q) # qs else (a, q') # update_queue qs to q)"

fun remove_queue ::
  "(sockaddr \<times> send_data list) list \<Rightarrow> sockaddr \<Rightarrow> (sockaddr \<times> send_data list) list" where
  "remove_queue [] to = []"
| "remove_queue ((a, q) # qs) to =
     (if nice_address_equal a to then qs else (a, q) # remove_queue qs to)"

definition socket_enqueue_data ::
  "'b udp_turn_priv \<Rightarrow> sockaddr \<Rightarrow> bytes \<Rightarrow> bool \<Rightarrow> 'b udp_turn_priv" where
  "socket_enqueue_data p to buf reliable = (
     let q = (case lookup_queue (ut_send_data_queues p) to of None \<Rightarrow> [] | Some q \<Rightarrow> q)
     in p\<lparr>ut_send_data_queues := update_queue (ut_send_data_queues p) to
            (q @ [\<lparr>sd_data = buf, sd_reliable = reliable\<rparr>])\<rparr>)"

fun dequeue_loop ::
  "'b socket_ops \<Rightarrow> 'b udp_turn_priv \<Rightarrow> send_data list \<Rightarrow> 'b udp_turn_priv option" where
  "dequeue_loop ops p [] = Some p"
| "dequeue_loop ops p (d # ds) = do {
     (ret, p) \<leftarrow> send_to_server ops p (sd_data d) (sd_reliable d);
     dequeue_loop ops p ds }"

definition socket_dequeue_all_data ::
  "'b socket_ops \<Rightarrow> 'b udp_turn_priv \<Rightarrow> sockaddr \<Rightarrow> 'b udp_turn_priv option" where
  "socket_dequeue_all_data ops p to =
     (case lookup_queue (ut_send_data_queues p) to of
        None \<Rightarrow> Some p
      | Some q \<Rightarrow> do {
          p \<leftarrow> dequeue_loop ops p q;
          Some (p\<lparr>ut_send_data_queues := remove_queue (ut_send_data_queues p) to\<rparr>) })"

section \<open>The extensions of Microsoft\<close>

definition stun_message_append_ms_connection_id ::
  "stun_message \<Rightarrow> bytes \<Rightarrow> u32 \<Rightarrow> (stun_return \<times> stun_message) option" where
  "stun_message_append_ms_connection_id msg connection_id sequence_num = do {
     i \<leftarrow> rdn connection_id 0 20;
     stun_message_append_bytes msg STUN_ATTRIBUTE_MS_SEQUENCE_NUMBER (i @ be32_bytes sequence_num) }"

definition stun_message_ensure_ms_realm :: "stun_message \<Rightarrow> bytes \<Rightarrow> stun_message option" where
  "stun_message_ensure_ms_realm msg realm = do {
     m \<leftarrow> stun_message_get_method msg;
     if m = STUN_SEND \<or> m = STUN_OLD_SET_ACTIVE_DST then do {
       (_, msg) \<leftarrow> stun_message_append_bytes msg STUN_ATTRIBUTE_REALM realm;
       Some msg }
     else Some msg }"

text \<open>The realm is kept up to its first NUL, which is where \<open>strlen\<close> stops.\<close>

definition turn_set_ms_realm ::
  "'b udp_turn_priv \<Rightarrow> stun_message \<Rightarrow> 'b udp_turn_priv option" where
  "turn_set_ms_realm p msg = do {
     realm \<leftarrow> attr_value msg STUN_ATTRIBUTE_REALM;
     Some (case realm of
        Some r \<Rightarrow> if length r \<le> 128 then p\<lparr>ut_ms_realm := takeWhile (\<lambda>b. b \<noteq> 0) r\<rparr> else p
      | None \<Rightarrow> p) }"

text \<open>\<open>(uint32_t)*(ms_seq_num + 20)\<close> is one byte.\<close>

definition turn_set_ms_connection_id ::
  "'b udp_turn_priv \<Rightarrow> stun_message \<Rightarrow> 'b udp_turn_priv option" where
  "turn_set_ms_connection_id p msg = do {
     v \<leftarrow> attr_value msg STUN_ATTRIBUTE_MS_SEQUENCE_NUMBER;
     Some (case v of
        Some v \<Rightarrow> if length v = 24
          then p\<lparr>ut_ms_connection_id := take 20 v, ut_ms_sequence_num := htonl (ucast (v ! 20)),
                 ut_ms_connection_id_valid := True\<rparr>
          else p
      | None \<Rightarrow> p) }"

text \<open>The attributes these dialects add, the results of appending them unchecked.\<close>

definition append_ms_extras ::
  "'b udp_turn_priv \<Rightarrow> stun_message \<Rightarrow> (stun_message \<times> 'b udp_turn_priv) option" where
  "append_ms_extras p msg = do {
     (msg, p) \<leftarrow> (if ut_ms_connection_id_valid p then
         let n = ut_ms_sequence_num p + 1 in do {
           (_, msg) \<leftarrow> stun_message_append_ms_connection_id msg (ut_ms_connection_id p) n;
           Some (msg, p\<lparr>ut_ms_sequence_num := n\<rparr>) }
       else Some (msg, p));
     msg \<leftarrow> stun_message_ensure_ms_realm msg (ut_ms_realm p);
     Some (msg, p) }"

end
