(* ===== verification/Sock_Turn_Ops.thy ===== *)
theory Sock_Turn_Ops
  imports Sock_Turn
begin

unbundle bit_operations_syntax

text \<open>
  The transactions of the TURN socket: requests for permissions and channels, their
  retransmission, and the sending of data. The functions call each other through
  \<open>priv_schedule_tick\<close>, which the first ones take as the argument \<open>sched\<close>; it is defined last,
  with a bound on the depth of the calls.
\<close>

section \<open>Requests\<close>

definition turn_message_bytes :: "stun_message \<Rightarrow> bytes option" where
  "turn_message_bytes msg = do {
     n \<leftarrow> stun_message_length msg;
     rdn (buffer msg) 0 (unat n) }"

text \<open>A request sent reliably where that is possible, and otherwise not.\<close>

definition send_request_bytes ::
  "'b socket_ops \<Rightarrow> 'b udp_turn_priv \<Rightarrow> bytes \<Rightarrow> (int \<times> 'b udp_turn_priv) option" where
  "send_request_bytes ops p bs = do {
     (ret, q) \<leftarrow> send_to_server ops p bs True;
     if nice_socket_is_reliable ops (ut_base_socket p) \<or> ret \<ge> 0 then Some (ret, q)
     else send_to_server ops q bs False }"

definition request_timer :: "turn_env \<Rightarrow> bool \<Rightarrow> stun_timer" where
  "request_timer env reliable =
     (if reliable then stun_timer_start_reliable (te_now env) STUN_TIMER_DEFAULT_RELIABLE_TIMEOUT
      else stun_timer_start (te_now env) STUN_TIMER_DEFAULT_TIMEOUT
        STUN_TIMER_DEFAULT_MAX_RETRANSMISSIONS)"

definition priv_send_turn_message ::
  "turn_env \<Rightarrow> 'b socket_ops \<Rightarrow> ('b udp_turn_priv \<Rightarrow> 'b udp_turn_priv option) \<Rightarrow>
     'b udp_turn_priv \<Rightarrow> stun_message \<Rightarrow> 'b udp_turn_priv option" where
  "priv_send_turn_message env ops sched p msg = do {
     bs \<leftarrow> turn_message_bytes msg;
     let p = p\<lparr>ut_current_binding_msg := None\<rparr>;
     (ret, p) \<leftarrow> send_request_bytes ops p bs;
     sched (p\<lparr>ut_current_binding_msg := Some \<lparr>tm_message = msg,
       tm_timer = request_timer env (nice_socket_is_reliable ops (ut_base_socket p))\<rparr>\<rparr>) }"

definition channel_bind_steps ::
  "'b udp_turn_priv \<Rightarrow> stun_message option \<Rightarrow> u16 \<Rightarrow> sockaddr \<Rightarrow> step list" where
  "channel_bind_steps p resp channel peer =
     [\<lambda>msg. stun_message_append32 msg STUN_ATTRIBUTE_CHANNEL_NUMBER (push_bit 16 (ucast channel)),
      \<lambda>msg. stun_message_append_xor_addr msg STUN_ATTRIBUTE_PEER_ADDRESS peer
         sizeof_sockaddr_storage] @
     username_steps (ut_username p) @
     (case resp of None \<Rightarrow> []
      | Some r \<Rightarrow> [copy_attr r STUN_ATTRIBUTE_REALM, copy_attr r STUN_ATTRIBUTE_NONCE])"

definition priv_send_channel_bind ::
  "turn_env \<Rightarrow> 'b socket_ops \<Rightarrow> ('b udp_turn_priv \<Rightarrow> 'b udp_turn_priv option) \<Rightarrow>
     'b udp_turn_priv \<Rightarrow> stun_message option \<Rightarrow> u16 \<Rightarrow> sockaddr \<Rightarrow>
     (bool \<times> 'b udp_turn_priv) option" where
  "priv_send_channel_bind env ops sched p resp channel peer = (
     let (rid, p) = turn_fresh_id env p in do {
     (ok, msg) \<leftarrow> stun_agent_init_request (te_stun env) rid (ut_agent p) (te_message env)
       (te_buffer env STUN_MAX_MESSAGE_SIZE) STUN_MAX_MESSAGE_SIZE STUN_CHANNELBIND;
     if \<not> ok then Some (False, p)
     else do {
       (ok, msg) \<leftarrow> run_steps (channel_bind_steps p resp channel peer) msg;
       if \<not> ok then Some (False, p)
       else do {
         (len, msg, agent) \<leftarrow> stun_agent_finish_message (te_stun env) (ut_agent p) msg (ut_password p);
         let p = p\<lparr>ut_agent := agent\<rparr>;
         if len > 0 then do {
           p \<leftarrow> priv_send_turn_message env ops sched p msg;
           Some (True, p) }
         else Some (False, p) } } })"

definition response_attr :: "stun_message option \<Rightarrow> stun_attribute \<Rightarrow> bytes option option" where
  "response_attr resp t = (case resp of None \<Rightarrow> Some None | Some r \<Rightarrow> attr_value r t)"

definition priv_send_create_permission ::
  "turn_env \<Rightarrow> 'b socket_ops \<Rightarrow> ('b udp_turn_priv \<Rightarrow> 'b udp_turn_priv option) \<Rightarrow>
     'b udp_turn_priv \<Rightarrow> stun_message option \<Rightarrow> sockaddr \<Rightarrow> 'b udp_turn_priv option" where
  "priv_send_create_permission env ops sched p resp peer = do {
     realm \<leftarrow> response_attr resp STUN_ATTRIBUTE_REALM;
     nonce \<leftarrow> response_attr resp STUN_ATTRIBUTE_NONCE;
     let p = (if \<not> priv_has_sent_permission_for_peer p peer
              then priv_add_sent_permission_for_peer p peer else p);
     let (rid, p) = turn_fresh_id env p;
     (len, msg, agent) \<leftarrow> stun_usage_turn_create_permission (te_stun env) rid (ut_agent p)
       (te_message env) (te_buffer env STUN_MAX_MESSAGE_SIZE) STUN_MAX_MESSAGE_SIZE
       (ut_username p) (ut_password p) realm nonce (Some peer);
     let p = p\<lparr>ut_agent := agent\<rparr>;
     if len > 0 then do {
       bs \<leftarrow> rdn (buffer msg) 0 len;
       (ret, p) \<leftarrow> send_request_bytes ops p bs;
       sched (p\<lparr>ut_pending_permissions := ut_pending_permissions p @ [\<lparr>tm_message = msg,
         tm_timer = request_timer env (nice_socket_is_reliable ops (ut_base_socket p))\<rparr>]\<rparr>) }
     else Some p }"

section \<open>Channels\<close>

text \<open>
  The search for a channel number. At a number in use it goes on with the next one, from the
  second binding on: \<open>continue\<close> moves the iterator that has just been set to the first.
\<close>

partial_function (option) channel_loop ::
  "channel_binding list \<Rightarrow> channel_binding list \<Rightarrow> u16 \<Rightarrow> u16 option" where
  "channel_loop channels i channel =
     (case i of
        [] \<Rightarrow> Some channel
      | b # bs \<Rightarrow> if channel = cb_channel b then channel_loop channels (tl channels) (channel + 1)
                  else channel_loop channels bs channel)"

declare channel_loop.simps [code]

definition new_binding :: "u16 \<Rightarrow> sockaddr \<Rightarrow> channel_binding" where
  "new_binding channel peer =
     \<lparr>cb_peer = peer, cb_channel = channel, cb_renew = False, cb_timeout_source = None\<rparr>"

text \<open>The request of the older dialects; the bound channel is set before it is sent.\<close>

definition send_set_active_dst ::
  "turn_env \<Rightarrow> 'b socket_ops \<Rightarrow> ('b udp_turn_priv \<Rightarrow> 'b udp_turn_priv option) \<Rightarrow>
     'b udp_turn_priv \<Rightarrow> sockaddr \<Rightarrow> (bool \<times> 'b udp_turn_priv) option" where
  "send_set_active_dst env ops sched p peer = (
     let (rid, p) = turn_fresh_id env p in do {
     (ok, msg) \<leftarrow> stun_agent_init_request (te_stun env) rid (ut_agent p) (te_message env)
       (te_buffer env STUN_MAX_MESSAGE_SIZE) STUN_MAX_MESSAGE_SIZE STUN_OLD_SET_ACTIVE_DST;
     if \<not> ok then Some (False, p)
     else do {
       (ok, msg) \<leftarrow> run_steps
         ([\<lambda>msg. stun_message_append32 msg STUN_ATTRIBUTE_MAGIC_COOKIE TURN_MAGIC_COOKIE] @
          username_steps (ut_username p)) msg;
       if \<not> ok then Some (False, p)
       else do {
         (msg, p) \<leftarrow> (if ut_compatibility p = NICE_TURN_SOCKET_COMPATIBILITY_OC2007
                     then append_ms_extras p msg else Some (msg, p));
         (val, msg) \<leftarrow> stun_message_append_addr msg STUN_ATTRIBUTE_DESTINATION_ADDRESS peer
           sizeof_sockaddr_storage;
         if val \<noteq> STUN_MESSAGE_RETURN_SUCCESS then Some (False, p)
         else do {
           (len, msg, agent) \<leftarrow> stun_agent_finish_message (te_stun env) (ut_agent p) msg
             (ut_password p);
           let p = p\<lparr>ut_agent := agent\<rparr>;
           if len > 0 then do {
             p \<leftarrow> priv_send_turn_message env ops sched
               (p\<lparr>ut_current_binding := Some (new_binding 0 peer)\<rparr>) msg;
             Some (True, p) }
           else Some (False, p) } } } })"

definition priv_add_channel_binding ::
  "turn_env \<Rightarrow> 'b socket_ops \<Rightarrow> ('b udp_turn_priv \<Rightarrow> 'b udp_turn_priv option) \<Rightarrow>
     'b udp_turn_priv \<Rightarrow> sockaddr \<Rightarrow> (bool \<times> 'b udp_turn_priv) option" where
  "priv_add_channel_binding env ops sched p peer =
     (if ut_current_binding p \<noteq> None then
        Some (False, p\<lparr>ut_pending_bindings := ut_pending_bindings p @ [peer]\<rparr>)
      else (case ut_compatibility p of
        NICE_TURN_SOCKET_COMPATIBILITY_MSN \<Rightarrow> send_set_active_dst env ops sched p peer
      | NICE_TURN_SOCKET_COMPATIBILITY_OC2007 \<Rightarrow> send_set_active_dst env ops sched p peer
      | NICE_TURN_SOCKET_COMPATIBILITY_GOOGLE \<Rightarrow>
          Some (True, p\<lparr>ut_current_binding := Some (new_binding 0 peer)\<rparr>)
      | _ \<Rightarrow> do {
          channel \<leftarrow> channel_loop (ut_channels p) (ut_channels p) 0x4000;
          if channel \<ge> 0x4000 \<and> channel < 0xffff then do {
            (ret, p) \<leftarrow> priv_send_channel_bind env ops sched p None channel peer;
            Some (ret, if ret then p\<lparr>ut_current_binding := Some (new_binding channel peer)\<rparr> else p) }
          else Some (False, p) }))"

definition nice_udp_turn_socket_set_peer ::
  "turn_env \<Rightarrow> 'b socket_ops \<Rightarrow> ('b udp_turn_priv \<Rightarrow> 'b udp_turn_priv option) \<Rightarrow>
     'b udp_turn_priv \<Rightarrow> sockaddr \<Rightarrow> (bool \<times> 'b udp_turn_priv) option" where
  "nice_udp_turn_socket_set_peer env ops sched p peer =
     priv_add_channel_binding env ops sched p peer"

text \<open>The loop over the peers that wait for a binding, until one is under way.\<close>

partial_function (option) pending_bindings_loop ::
  "turn_env \<Rightarrow> 'b socket_ops \<Rightarrow> ('b udp_turn_priv \<Rightarrow> 'b udp_turn_priv option) \<Rightarrow>
     'b udp_turn_priv \<Rightarrow> 'b udp_turn_priv option" where
  "pending_bindings_loop env ops sched p =
     (case ut_pending_bindings p of
        [] \<Rightarrow> Some p
      | peer # _ \<Rightarrow> do {
          r \<leftarrow> priv_add_channel_binding env ops sched p peer;
          let p = (snd r)\<lparr>ut_pending_bindings := tl (ut_pending_bindings (snd r))\<rparr>;
          (if fst r then Some p else pending_bindings_loop env ops sched p) })"

declare pending_bindings_loop.simps [code]

definition priv_process_pending_bindings ::
  "turn_env \<Rightarrow> 'b socket_ops \<Rightarrow> ('b udp_turn_priv \<Rightarrow> 'b udp_turn_priv option) \<Rightarrow>
     'b udp_turn_priv \<Rightarrow> 'b udp_turn_priv option" where
  "priv_process_pending_bindings env ops sched p = do {
     p \<leftarrow> pending_bindings_loop env ops sched p;
     if ut_pending_bindings p = [] \<and> ut_current_binding_msg p = None then
       (case find cb_renew (ut_channels p) of
          None \<Rightarrow> Some p
        | Some b \<Rightarrow> do {
            (_, p) \<leftarrow> priv_send_channel_bind env ops sched p None (cb_channel b) (cb_peer b);
            Some p })
     else Some p }"

section \<open>Retransmissions\<close>

definition priv_retransmissions_tick_unlocked ::
  "turn_env \<Rightarrow> 'b socket_ops \<Rightarrow> ('b udp_turn_priv \<Rightarrow> 'b udp_turn_priv option) \<Rightarrow>
     'b udp_turn_priv \<Rightarrow> (bool \<times> 'b udp_turn_priv) option" where
  "priv_retransmissions_tick_unlocked env ops sched p =
     (case ut_current_binding_msg p of
        None \<Rightarrow> Some (False, p)
      | Some m \<Rightarrow>
          (case stun_timer_refresh (te_now env) (tm_timer m) of
             (STUN_USAGE_TIMER_RETURN_TIMEOUT, timer) \<Rightarrow> do {
               i \<leftarrow> stun_message_id (tm_message m);
               let agent = snd (stun_agent_forget_transaction (ut_agent p) i);
               p \<leftarrow> priv_process_pending_bindings env ops sched
                 (p\<lparr>ut_agent := agent, ut_current_binding := None, ut_current_binding_msg := None\<rparr>);
               Some (False, p) }
           | (STUN_USAGE_TIMER_RETURN_RETRANSMIT, timer) \<Rightarrow> do {
               let p = p\<lparr>ut_current_binding_msg := Some (m\<lparr>tm_timer := timer\<rparr>)\<rparr>;
               bs \<leftarrow> turn_message_bytes (tm_message m);
               (_, p) \<leftarrow> send_to_server ops p bs False;
               p \<leftarrow> sched p;
               Some (True, p) }
           | (STUN_USAGE_TIMER_RETURN_SUCCESS, timer) \<Rightarrow> do {
               p \<leftarrow> sched p;
               Some (True, p) }))"

text \<open>The peer of a pending request: the address must be in it.\<close>

definition request_peer :: "turn_message \<Rightarrow> sockaddr option" where
  "request_peer m = do {
     (_, addr, _) \<leftarrow> stun_message_find_xor_addr (tm_message m) STUN_ATTRIBUTE_XOR_PEER_ADDRESS
       sizeof_sockaddr_storage;
     addr }"

definition priv_retransmissions_create_permission_tick_unlocked ::
  "turn_env \<Rightarrow> 'b socket_ops \<Rightarrow> 'b udp_turn_priv \<Rightarrow> nat \<Rightarrow> 'b udp_turn_priv option" where
  "priv_retransmissions_create_permission_tick_unlocked env ops p k = (
     let m = ut_pending_permissions p ! k in
     case stun_timer_refresh (te_now env) (tm_timer m) of
       (STUN_USAGE_TIMER_RETURN_TIMEOUT, timer) \<Rightarrow> do {
         i \<leftarrow> stun_message_id (tm_message m);
         to \<leftarrow> request_peer m;
         let p = p\<lparr>ut_agent := snd (stun_agent_forget_transaction (ut_agent p) i)\<rparr>;
         let p = priv_remove_sent_permission_for_peer p to;
         let p = p\<lparr>ut_pending_permissions :=
           take k (ut_pending_permissions p) @ drop (k + 1) (ut_pending_permissions p)\<rparr>;
         let p = priv_add_permission_for_peer p to;
         socket_dequeue_all_data ops p to }
     | (STUN_USAGE_TIMER_RETURN_RETRANSMIT, timer) \<Rightarrow> do {
         let p = p\<lparr>ut_pending_permissions :=
           (ut_pending_permissions p)[k := m\<lparr>tm_timer := timer\<rparr>]\<rparr>;
         bs \<leftarrow> turn_message_bytes (tm_message m);
         (_, p) \<leftarrow> send_to_server ops p bs False;
         Some p }
     | (STUN_USAGE_TIMER_RETURN_SUCCESS, timer) \<Rightarrow> Some p)"

text \<open>
  The loop over the requests for permissions, at the element at index \<open>k\<close>: the ones before it
  have time left. After a tick it looks at the same place again.
\<close>

partial_function (option) permission_tick_loop ::
  "turn_env \<Rightarrow> 'b socket_ops \<Rightarrow> 'b udp_turn_priv \<Rightarrow> nat \<Rightarrow> u32 \<Rightarrow> (u32 \<times> 'b udp_turn_priv) option"
where
  "permission_tick_loop env ops p k min_timeout =
     (if k < length (ut_pending_permissions p) then
        let timeout = stun_timer_remainder (te_now env) (tm_timer (ut_pending_permissions p ! k)) in
        (if timeout > 0 then permission_tick_loop env ops p (k + 1) (min min_timeout timeout)
         else do {
           p \<leftarrow> priv_retransmissions_create_permission_tick_unlocked env ops p k;
           permission_tick_loop env ops p k min_timeout })
      else Some (min_timeout, p))"

declare permission_tick_loop.simps [code]

text \<open>
  The arguments of the last timer are swapped in the source: the interval is \<open>FALSE\<close> and the
  unit is \<open>min_timeout\<close>, which is not 0, so seconds.
\<close>

fun priv_schedule_tick ::
  "turn_env \<Rightarrow> 'b socket_ops \<Rightarrow> nat \<Rightarrow> 'b udp_turn_priv \<Rightarrow> 'b udp_turn_priv option" where
  "priv_schedule_tick env ops 0 p = None"
| "priv_schedule_tick env ops (Suc depth) p = do {
     let p = p\<lparr>ut_tick_channel_bind := None\<rparr>;
     p \<leftarrow> (case ut_current_binding_msg p of
         None \<Rightarrow> Some p
       | Some m \<Rightarrow>
           let timeout = stun_timer_remainder (te_now env) (tm_timer m) in
           if timeout > 0 then Some (p\<lparr>ut_tick_channel_bind := Some (timeout, False)\<rparr>)
           else do {
             (_, p) \<leftarrow> priv_retransmissions_tick_unlocked env ops (priv_schedule_tick env ops depth) p;
             Some p });
     let p = p\<lparr>ut_tick_create_permission := None\<rparr>;
     (min_timeout, p) \<leftarrow> permission_tick_loop env ops p 0 0xffffffff;
     Some (if min_timeout \<noteq> 0xffffffff
       then p\<lparr>ut_tick_create_permission := Some (0, min_timeout \<noteq> 0)\<rparr> else p) }"

definition tick_depth :: nat where "tick_depth = 16"

definition turn_sched :: "turn_env \<Rightarrow> 'b socket_ops \<Rightarrow> 'b udp_turn_priv \<Rightarrow> 'b udp_turn_priv option"
where
  "turn_sched env ops = priv_schedule_tick env ops tick_depth"

section \<open>The timers\<close>

text \<open>A source that fires is live; the tests for one destroyed meanwhile are left out.\<close>

definition priv_retransmissions_tick ::
  "turn_env \<Rightarrow> 'b socket_ops \<Rightarrow> 'b udp_turn_priv \<Rightarrow> 'b udp_turn_priv option" where
  "priv_retransmissions_tick env ops p = do {
     (ret, p) \<leftarrow> priv_retransmissions_tick_unlocked env ops (turn_sched env ops) p;
     Some (if \<not> ret then p\<lparr>ut_tick_channel_bind := None\<rparr> else p) }"

definition priv_retransmissions_create_permission_tick ::
  "turn_env \<Rightarrow> 'b socket_ops \<Rightarrow> 'b udp_turn_priv \<Rightarrow> 'b udp_turn_priv option" where
  "priv_retransmissions_create_permission_tick env ops p = turn_sched env ops p"

definition priv_permission_timeout :: "'b udp_turn_priv \<Rightarrow> 'b udp_turn_priv" where
  "priv_permission_timeout p = priv_clear_permissions p"

definition priv_forget_send_request :: "'b udp_turn_priv \<Rightarrow> nat \<Rightarrow> 'b udp_turn_priv" where
  "priv_forget_send_request p source =
     (case find (\<lambda>r. sr_source r = source) (ut_send_requests p) of
        None \<Rightarrow> p
      | Some r \<Rightarrow> p\<lparr>ut_agent := snd (stun_agent_forget_transaction (ut_agent p) (sr_id r)),
          ut_send_requests := remove1 r (ut_send_requests p)\<rparr>)"

fun set_first :: "('a \<Rightarrow> bool) \<Rightarrow> ('a \<Rightarrow> 'a) \<Rightarrow> 'a list \<Rightarrow> 'a list" where
  "set_first P f [] = []"
| "set_first P f (x # xs) = (if P x then f x # xs else x # set_first P f xs)"

definition priv_binding_timeout ::
  "turn_env \<Rightarrow> 'b socket_ops \<Rightarrow> 'b udp_turn_priv \<Rightarrow> nat \<Rightarrow> 'b udp_turn_priv option" where
  "priv_binding_timeout env ops p source =
     (case find (\<lambda>b. cb_timeout_source b = Some source) (ut_channels p) of
        None \<Rightarrow> Some p
      | Some b \<Rightarrow>
          let (s, p) = priv_timeout_add_with_context p;
              p = p\<lparr>ut_channels := set_first (\<lambda>b. cb_timeout_source b = Some source)
                (\<lambda>b. b\<lparr>cb_renew := True, cb_timeout_source := Some s\<rparr>) (ut_channels p)\<rparr>
          in if ut_current_binding_msg p = None then do {
               (_, p) \<leftarrow> priv_send_channel_bind env ops (turn_sched env ops) p None (cb_channel b)
                 (cb_peer b);
               Some p }
             else Some p)"

definition priv_binding_expired_timeout ::
  "turn_env \<Rightarrow> 'b socket_ops \<Rightarrow> 'b udp_turn_priv \<Rightarrow> nat \<Rightarrow> 'b udp_turn_priv option" where
  "priv_binding_expired_timeout env ops p source =
     (case find (\<lambda>b. cb_timeout_source b = Some source) (ut_channels p) of
        None \<Rightarrow> Some p
      | Some b \<Rightarrow>
          let p = p\<lparr>ut_channels := remove1 b (ut_channels p)\<rparr>;
              add = do {
                (_, p) \<leftarrow> priv_add_channel_binding env ops (turn_sched env ops) p (cb_peer b);
                Some p }
          in (case (ut_current_binding_msg p, ut_current_binding p) of
                (Some m, None) \<Rightarrow> do {
                  to \<leftarrow> request_peer m;
                  if nice_address_equal (cb_peer b) to
                  then Some (p\<lparr>ut_current_binding := Some b\<rparr>) else add }
              | _ \<Rightarrow> add))"

section \<open>Sending data\<close>

definition find_binding :: "channel_binding list \<Rightarrow> sockaddr \<Rightarrow> channel_binding option" where
  "find_binding channels to = find (\<lambda>b. nice_address_equal (cb_peer b) to) channels"

text \<open>ChannelData: the channel, the length and the bytes; \<open>None\<close> is the label \<open>error\<close>.\<close>

definition channel_data :: "u16 \<Rightarrow> output_message \<Rightarrow> bytes option" where
  "channel_data channel message = (
     let message_len = output_message_get_size message in
     if message_len + 4 \<le> STUN_MAX_MESSAGE_SIZE
     then Some (be16_bytes channel @ be16_bytes (of_nat message_len) @ concat message)
     else None)"

definition send_steps :: "'b udp_turn_priv \<Rightarrow> sockaddr \<Rightarrow> step list" where
  "send_steps p to =
     (if turn_std (ut_compatibility p)
      then [\<lambda>msg. stun_message_append_xor_addr msg STUN_ATTRIBUTE_PEER_ADDRESS to
               sizeof_sockaddr_storage]
      else [\<lambda>msg. stun_message_append32 msg STUN_ATTRIBUTE_MAGIC_COOKIE TURN_MAGIC_COOKIE] @
           username_steps (ut_username p) @
           [\<lambda>msg. stun_message_append_addr msg STUN_ATTRIBUTE_DESTINATION_ADDRESS to
               sizeof_sockaddr_storage] @
           (if ut_compatibility p = NICE_TURN_SOCKET_COMPATIBILITY_GOOGLE \<and>
               (case ut_current_binding p of None \<Rightarrow> False
                | Some b \<Rightarrow> nice_address_equal (cb_peer b) to)
            then [\<lambda>msg. do { (_, msg) \<leftarrow> stun_message_append32 msg STUN_ATTRIBUTE_OPTIONS 1;
                             Some (STUN_MESSAGE_RETURN_SUCCESS, msg) }]
            else []))"

text \<open>The Send message: its length (0 when it could not be finished), or an error.\<close>

definition build_send ::
  "turn_env \<Rightarrow> 'b udp_turn_priv \<Rightarrow> sockaddr \<Rightarrow> output_message \<Rightarrow>
     ((nat \<times> stun_message) option \<times> 'b udp_turn_priv) option" where
  "build_send env p to message = (
     let (rid, p) = turn_fresh_id env p;
         buf = te_buffer env STUN_MAX_MESSAGE_SIZE in do {
     (ok, msg) \<leftarrow> (if turn_std (ut_compatibility p)
       then stun_agent_init_indication rid (ut_agent p) (te_message env) buf
         STUN_MAX_MESSAGE_SIZE STUN_IND_SEND
       else stun_agent_init_request (te_stun env) rid (ut_agent p) (te_message env) buf
         STUN_MAX_MESSAGE_SIZE STUN_SEND);
     if \<not> ok then Some (None, p)
     else do {
       (ok, msg) \<leftarrow> run_steps (send_steps p to) msg;
       if \<not> ok then Some (None, p)
       else do {
         (msg, p) \<leftarrow> (if ut_compatibility p = NICE_TURN_SOCKET_COMPATIBILITY_OC2007 then do {
             (_, msg) \<leftarrow> stun_message_append32 msg STUN_ATTRIBUTE_MS_VERSION 1;
             append_ms_extras p msg }
           else Some (msg, p));
         (data, data_len) \<leftarrow> compact_output_message (te_malloc env) message;
         (val, msg) \<leftarrow> stun_message_append_bytes msg STUN_ATTRIBUTE_DATA data;
         if val \<noteq> STUN_MESSAGE_RETURN_SUCCESS then Some (None, p)
         else do {
           (len, msg, agent) \<leftarrow> stun_agent_finish_message (te_stun env) (ut_agent p) msg
             (ut_password p);
           let p = p\<lparr>ut_agent := agent\<rparr>;
           c \<leftarrow> stun_message_get_class msg;
           if len > 0 \<and> c = STUN_REQUEST then do {
             i \<leftarrow> stun_message_id msg;
             let (s, p) = priv_timeout_add_with_context p;
             Some (Some (len, msg), p\<lparr>ut_send_requests := ut_send_requests p @
               [\<lparr>sr_id = i, sr_source = s\<rparr>]\<rparr>) }
           else Some (Some (len, msg), p) } } } })"

text \<open>What is built goes to the server, or waits for the permission of the peer.\<close>

definition turn_send_built ::
  "turn_env \<Rightarrow> 'b socket_ops \<Rightarrow> 'b udp_turn_priv \<Rightarrow> sockaddr \<Rightarrow> bytes \<Rightarrow> bool \<Rightarrow>
     (int \<times> 'b udp_turn_priv) option" where
  "turn_send_built env ops p to bs reliable =
     (if ut_compatibility p = NICE_TURN_SOCKET_COMPATIBILITY_RFC5766 \<and>
         \<not> priv_has_permission_for_peer p to then do {
        p \<leftarrow> (if \<not> priv_has_sent_permission_for_peer p to
             then priv_send_create_permission env ops (turn_sched env ops) p None to else Some p);
        Some (int (length bs), socket_enqueue_data p to bs reliable) }
      else do {
        (ret, base) \<leftarrow> socket_send_messages_wrapped ops (ut_base_socket p)
          (Some (ut_server_addr p)) [[bs]] reliable;
        Some (if ret = 1 then int (length bs) else ret, p\<lparr>ut_base_socket := base\<rparr>) })"

definition turn_send_plain ::
  "'b socket_ops \<Rightarrow> 'b udp_turn_priv \<Rightarrow> sockaddr \<Rightarrow> output_message \<Rightarrow> bool \<Rightarrow>
     (int \<times> 'b udp_turn_priv) option" where
  "turn_send_plain ops p to message reliable = do {
     (ret, base) \<leftarrow> socket_send_messages_wrapped ops (ut_base_socket p) (Some to) [message] reliable;
     Some (if ret = 1 then int (output_message_get_size message) else ret,
       p\<lparr>ut_base_socket := base\<rparr>) }"

definition turn_socket_send_message ::
  "turn_env \<Rightarrow> 'b socket_ops \<Rightarrow> 'b udp_turn_priv \<Rightarrow> sockaddr \<Rightarrow> output_message \<Rightarrow> bool \<Rightarrow>
     (int \<times> 'b udp_turn_priv) option" where
  "turn_socket_send_message env ops p to message reliable =
     (case find_binding (ut_channels p) to of
        Some b \<Rightarrow>
          if turn_std (ut_compatibility p) then
            (case channel_data (cb_channel b) message of
               None \<Rightarrow> Some (- 1, p)
             | Some bs \<Rightarrow> turn_send_built env ops p to bs reliable)
          else turn_send_plain ops p (ut_server_addr p) message reliable
      | None \<Rightarrow> do {
          (built, p) \<leftarrow> build_send env p to message;
          case built of
            None \<Rightarrow> Some (- 1, p)
          | Some (len, msg) \<Rightarrow>
              if len > 0 then do {
                bs \<leftarrow> rdn (buffer msg) 0 len;
                turn_send_built env ops p to bs reliable }
              else turn_send_plain ops p to message reliable })"

fun turn_send_loop ::
  "turn_env \<Rightarrow> 'b socket_ops \<Rightarrow> 'b udp_turn_priv \<Rightarrow> sockaddr \<Rightarrow> output_message list \<Rightarrow> nat \<Rightarrow>
     (int \<times> 'b udp_turn_priv) option" where
  "turn_send_loop env ops p to [] i = Some (int i, p)"
| "turn_send_loop env ops p to (m # ms) i = do {
     (len, p) \<leftarrow> turn_socket_send_message env ops p to m False;
     if len < 0 then Some (if i > 0 then int i else len, p)
     else if len = 0 then Some (int i, p)
     else turn_send_loop env ops p to ms (i + 1) }"

definition turn_socket_send_messages ::
  "turn_env \<Rightarrow> 'b socket_ops \<Rightarrow> 'b udp_turn_priv \<Rightarrow> sockaddr \<Rightarrow> output_message list \<Rightarrow>
     (int \<times> 'b udp_turn_priv) option" where
  "turn_socket_send_messages env ops p to messages = turn_send_loop env ops p to messages 0"

fun turn_send_reliable_loop ::
  "turn_env \<Rightarrow> 'b socket_ops \<Rightarrow> 'b udp_turn_priv \<Rightarrow> sockaddr \<Rightarrow> output_message list \<Rightarrow> nat \<Rightarrow>
     (int \<times> 'b udp_turn_priv) option" where
  "turn_send_reliable_loop env ops p to [] i = Some (int i, p)"
| "turn_send_reliable_loop env ops p to (m # ms) i = do {
     (len, p) \<leftarrow> turn_socket_send_message env ops p to m True;
     if len < 0 then Some (len, p)
     else if len = 0 then Some (int i, p)
     else turn_send_reliable_loop env ops p to ms (i + 1) }"

definition turn_socket_send_messages_reliable ::
  "turn_env \<Rightarrow> 'b socket_ops \<Rightarrow> 'b udp_turn_priv \<Rightarrow> sockaddr \<Rightarrow> output_message list \<Rightarrow>
     (int \<times> 'b udp_turn_priv) option" where
  "turn_socket_send_messages_reliable env ops p to messages =
     (if ut_base_is_udp_bsd p then Some (- 1, p)
      else turn_send_reliable_loop env ops p to messages 0)"

end
