(* ===== verification/Sock_Turn_Recv.thy ===== *)
theory Sock_Turn_Recv
  imports Sock_Turn_Ops
begin

text \<open>
  What the TURN socket receives: responses to its requests, data in indications, data on
  channels, and everything else, which is handed on as it came.

  The caller's buffer is the one that was received into; its first \<open>len\<close> bytes are the
  message, what follows is stale. A parsed message is a control message, for which the function
  returns 0, or a payload with the address that is stored for it and whether it came through
  the allocation.
\<close>

datatype turn_parsed = Turn_Control | Turn_Payload bytes sockaddr bool

datatype turn_goto = Turn_Return turn_parsed | Turn_Recv | Turn_Lock

abbreviation (input) no_data :: "'b udp_turn_priv \<Rightarrow> (turn_goto \<times> 'b udp_turn_priv) option" where
  "no_data p \<equiv> Some (Turn_Return Turn_Control, p)"

section \<open>Responses\<close>

definition turn_send_response ::
  "'b udp_turn_priv \<Rightarrow> stun_message \<Rightarrow> (turn_goto \<times> 'b udp_turn_priv) option" where
  "turn_send_response p msg = do {
     c \<leftarrow> stun_message_get_class msg;
     if c = STUN_RESPONSE then do {
       i \<leftarrow> stun_message_id msg;
       let p = (case find (\<lambda>r. sr_id r = i) (ut_send_requests p) of
           None \<Rightarrow> p
         | Some r \<Rightarrow> p\<lparr>ut_send_requests := remove1 r (ut_send_requests p)\<rparr>);
       if ut_compatibility p = NICE_TURN_SOCKET_COMPATIBILITY_GOOGLE then do {
         (ret, opts) \<leftarrow> stun_message_find32 msg STUN_ATTRIBUTE_OPTIONS;
         case opts of
           None \<Rightarrow> no_data p
         | Some opts \<Rightarrow>
             if ret = STUN_MESSAGE_RETURN_SUCCESS \<and> opts AND 1 \<noteq> 0 then Some (Turn_Lock, p)
             else no_data p }
       else no_data p }
     else no_data p }"

definition turn_active_dst_response ::
  "'b udp_turn_priv \<Rightarrow> stun_message \<Rightarrow> (turn_goto \<times> 'b udp_turn_priv) option" where
  "turn_active_dst_response p msg =
     (case (ut_current_binding p, ut_current_binding_msg p) of
        (Some b, Some m) \<Rightarrow> do {
          response_id \<leftarrow> stun_message_id msg;
          request_id \<leftarrow> stun_message_id (tm_message m);
          if request_id = response_id then do {
            let p = p\<lparr>ut_current_binding_msg := None\<rparr>;
            c \<leftarrow> stun_message_get_class msg;
            if c = STUN_RESPONSE \<and> (ut_compatibility p = NICE_TURN_SOCKET_COMPATIBILITY_OC2007 \<or>
                 ut_compatibility p = NICE_TURN_SOCKET_COMPATIBILITY_MSN)
            then Some (Turn_Lock, p)
            else no_data (p\<lparr>ut_current_binding := None\<rparr>) }
          else no_data p }
      | _ \<Rightarrow> no_data p)"

text \<open>Whether an error asks for the request again with the realm and the nonce it brings.\<close>

definition turn_unauthorized :: "stun_message \<Rightarrow> stun_message \<Rightarrow> bool option" where
  "turn_unauthorized sent msg = do {
     sent_realm \<leftarrow> attr_value sent STUN_ATTRIBUTE_REALM;
     recv_realm \<leftarrow> attr_value msg STUN_ATTRIBUTE_REALM;
     (ret, code) \<leftarrow> stun_message_find_error msg;
     Some (ret = STUN_MESSAGE_RETURN_SUCCESS \<and>
       (code = Some 438 \<or> (code = Some 401 \<and>
          \<not> (recv_realm \<noteq> None \<and> recv_realm \<noteq> Some [] \<and> recv_realm = sent_realm)))) }"

text \<open>The binding a response is about: the new one, or the one whose peer is in the request.\<close>

definition response_binding ::
  "'b udp_turn_priv \<Rightarrow> turn_message \<Rightarrow> channel_binding option option" where
  "response_binding p m =
     (case ut_current_binding p of
        Some b \<Rightarrow> Some (Some b)
      | None \<Rightarrow> do {
          to \<leftarrow> request_peer m;
          Some (find (\<lambda>b. nice_address_equal (cb_peer b) to) (ut_channels p)) })"

text \<open>A binding that succeeded: listed when it is new, and with a timer for its renewal.\<close>

definition channel_bound ::
  "'b udp_turn_priv \<Rightarrow> channel_binding option \<Rightarrow> 'b udp_turn_priv" where
  "channel_bound p binding =
     (case ut_current_binding p of
        Some b \<Rightarrow>
          let (s, p) = priv_timeout_add_with_context p
          in p\<lparr>ut_channels := ut_channels p @ [b\<lparr>cb_renew := False, cb_timeout_source := Some s\<rparr>],
               ut_current_binding := None\<rparr>
      | None \<Rightarrow>
          (case binding of
             None \<Rightarrow> p
           | Some b \<Rightarrow>
               let (s, p) = priv_timeout_add_with_context p
               in p\<lparr>ut_channels := set_first (\<lambda>x. nice_address_equal (cb_peer x) (cb_peer b))
                    (\<lambda>x. x\<lparr>cb_renew := False, cb_timeout_source := Some s\<rparr>) (ut_channels p)\<rparr>))"

definition turn_channel_response ::
  "turn_env \<Rightarrow> 'b socket_ops \<Rightarrow> 'b udp_turn_priv \<Rightarrow> stun_message \<Rightarrow>
     (turn_goto \<times> 'b udp_turn_priv) option" where
  "turn_channel_response env ops p msg =
     (case ut_current_binding_msg p of
        None \<Rightarrow> no_data p
      | Some m \<Rightarrow> do {
          response_id \<leftarrow> stun_message_id msg;
          request_id \<leftarrow> stun_message_id (tm_message m);
          if request_id \<noteq> response_id then no_data p
          else do {
            binding \<leftarrow> response_binding p m;
            c \<leftarrow> stun_message_get_class msg;
            let q = p\<lparr>ut_current_binding_msg := None\<rparr>;
            if c = STUN_ERROR then do {
              again \<leftarrow> turn_unauthorized (tm_message m) msg;
              if again then
                (case binding of
                   None \<Rightarrow> no_data q
                 | Some b \<Rightarrow> do {
                     (_, q) \<leftarrow> priv_send_channel_bind env ops (turn_sched env ops) q (Some msg)
                       (cb_channel b) (cb_peer b);
                     no_data q })
              else do {
                q \<leftarrow> priv_process_pending_bindings env ops (turn_sched env ops)
                  (q\<lparr>ut_current_binding := None\<rparr>);
                no_data q } }
            else if c = STUN_RESPONSE then do {
              q \<leftarrow> priv_process_pending_bindings env ops (turn_sched env ops)
                (channel_bound q binding);
              no_data q }
            else no_data p } })"

text \<open>The first pending request for a permission with the transaction id.\<close>

fun find_permission_request :: "turn_message list \<Rightarrow> bytes \<Rightarrow> nat \<Rightarrow> (nat \<times> turn_message) option option"
where
  "find_permission_request [] response_id k = Some None"
| "find_permission_request (m # ms) response_id k = do {
     request_id \<leftarrow> stun_message_id (tm_message m);
     if request_id = response_id then Some (Some (k, m))
     else find_permission_request ms response_id (k + 1) }"

definition delete_link :: "nat \<Rightarrow> 'a list \<Rightarrow> 'a list" where
  "delete_link k xs = take k xs @ drop (k + 1) xs"

text \<open>
  A permission is granted, or the request for it has failed in a way that is taken for that;
  what waits for it is sent.
\<close>

definition permission_granted ::
  "'b socket_ops \<Rightarrow> 'b udp_turn_priv \<Rightarrow> sockaddr \<Rightarrow> bool \<Rightarrow> nat \<Rightarrow> 'b udp_turn_priv option" where
  "permission_granted ops p to success k = (
     let p = priv_add_permission_for_peer (priv_remove_sent_permission_for_peer p to) to;
         p = (if success \<and> ut_permission_timeout_source p = None then
                let (s, p) = priv_timeout_add_with_context p
                in p\<lparr>ut_permission_timeout_source := Some s\<rparr>
              else p)
     in do {
       p \<leftarrow> socket_dequeue_all_data ops p to;
       Some (p\<lparr>ut_pending_permissions := delete_link k (ut_pending_permissions p)\<rparr>) })"

definition turn_permission_response ::
  "turn_env \<Rightarrow> 'b socket_ops \<Rightarrow> 'b udp_turn_priv \<Rightarrow> stun_message \<Rightarrow>
     (turn_goto \<times> 'b udp_turn_priv) option" where
  "turn_permission_response env ops p msg = do {
     response_id \<leftarrow> stun_message_id msg;
     r \<leftarrow> find_permission_request (ut_pending_permissions p) response_id 0;
     case r of
       None \<Rightarrow> no_data p
     | Some (k, m) \<Rightarrow> do {
         to \<leftarrow> request_peer m;
         c \<leftarrow> stun_message_get_class msg;
         again \<leftarrow> (if c = STUN_ERROR then turn_unauthorized (tm_message m) msg else Some False);
         if again then do {
           p \<leftarrow> priv_send_create_permission env ops (turn_sched env ops)
             (p\<lparr>ut_pending_permissions := delete_link k (ut_pending_permissions p)\<rparr>) (Some msg) to;
           no_data p }
         else do {
           p \<leftarrow> permission_granted ops p to (c = STUN_RESPONSE) k;
           no_data p } } }"

section \<open>Data\<close>

definition turn_data_indication ::
  "turn_env \<Rightarrow> 'b socket_ops \<Rightarrow> 'b udp_turn_priv \<Rightarrow> stun_message \<Rightarrow> nat \<Rightarrow>
     (turn_goto \<times> 'b udp_turn_priv) option" where
  "turn_data_indication env ops p msg len = do {
     (ret, addr, _) \<leftarrow> (if turn_std (ut_compatibility p)
       then stun_message_find_xor_addr msg STUN_ATTRIBUTE_REMOTE_ADDRESS sizeof_sockaddr_storage
       else stun_message_find_addr msg STUN_ATTRIBUTE_REMOTE_ADDRESS sizeof_sockaddr_storage);
     if ret \<noteq> STUN_MESSAGE_RETURN_SUCCESS then Some (Turn_Recv, p)
     else do {
       data \<leftarrow> stun_message_find msg STUN_ATTRIBUTE_DATA;
       case data of
         None \<Rightarrow> Some (Turn_Recv, p)
       | Some (ptr, data_len) \<Rightarrow> do {
           peer \<leftarrow> addr;
           d \<leftarrow> rdn (buffer msg) ptr (min len (unat data_len));
           p \<leftarrow> (if ut_compatibility p = NICE_TURN_SOCKET_COMPATIBILITY_RFC5766 \<and>
                   \<not> priv_has_permission_for_peer p peer \<and>
                   \<not> priv_has_sent_permission_for_peer p peer
                then priv_send_create_permission env ops (turn_sched env ops) p None peer
                else Some p);
           Some (Turn_Return (Turn_Payload d peer True), p) } } }"

text \<open>
  The search for a channel: the binding, the length of its data and where they begin. The
  older dialects take the first binding for every packet.
\<close>

fun recv_channel_loop ::
  "turn_socket_compatibility \<Rightarrow> channel_binding list \<Rightarrow> bytes \<Rightarrow> nat \<Rightarrow> nat \<Rightarrow>
     (channel_binding \<times> nat \<times> nat) option option" where
  "recv_channel_loop c [] buf off recv_len = Some None"
| "recv_channel_loop c (b # bs) buf off recv_len =
     (if turn_std c then do {
        ch \<leftarrow> rdn buf off 2;
        if cb_channel b = be16 (ch ! 0) (ch ! 1) then do {
          l \<leftarrow> rdn buf (off + 2) 2;
          Some (Some (b, unat (be16 (l ! 0) (l ! 1)), off + 4)) }
        else recv_channel_loop c bs buf off recv_len }
      else Some (Some (b, recv_len, off)))"

definition turn_recv_plain ::
  "'b udp_turn_priv \<Rightarrow> sockaddr \<Rightarrow> bytes \<Rightarrow> nat \<Rightarrow> nat \<Rightarrow> nat \<Rightarrow> turn_parsed option" where
  "turn_recv_plain p recv_from buf len off recv_len = do {
     r \<leftarrow> recv_channel_loop (ut_compatibility p) (ut_channels p) buf off recv_len;
     case r of
       None \<Rightarrow> do {
         d \<leftarrow> rdn buf off (min len recv_len);
         Some (Turn_Payload d recv_from False) }
     | Some (b, recv_len, off) \<Rightarrow> do {
         d \<leftarrow> rdn buf off (min len recv_len);
         Some (Turn_Payload d (cb_peer b) True) } }"

definition msn_google_lock ::
  "turn_env \<Rightarrow> 'b socket_ops \<Rightarrow> 'b udp_turn_priv \<Rightarrow> 'b udp_turn_priv option" where
  "msn_google_lock env ops p =
     (case ut_current_binding p of
        None \<Rightarrow> Some p
      | Some b \<Rightarrow> priv_process_pending_bindings env ops (turn_sched env ops)
          (p\<lparr>ut_channels := [b], ut_current_binding := None\<rparr>))"

section \<open>Packets\<close>

definition turn_cookie_ok :: "'b udp_turn_priv \<Rightarrow> stun_message \<Rightarrow> bool option" where
  "turn_cookie_ok p msg =
     (if turn_std (ut_compatibility p) then Some True
      else do {
        (ret, cookie) \<leftarrow> stun_message_find32 msg STUN_ATTRIBUTE_MAGIC_COOKIE;
        Some (ret = STUN_MESSAGE_RETURN_SUCCESS \<and> cookie = Some TURN_MAGIC_COOKIE) })"

text \<open>A message of the server that its agent has accepted.\<close>

definition turn_server_message ::
  "turn_env \<Rightarrow> 'b socket_ops \<Rightarrow> 'b udp_turn_priv \<Rightarrow> stun_message \<Rightarrow> nat \<Rightarrow>
     (turn_goto \<times> 'b udp_turn_priv) option" where
  "turn_server_message env ops p msg len = do {
     ok \<leftarrow> turn_cookie_ok p msg;
     if \<not> ok then Some (Turn_Recv, p)
     else do {
       m \<leftarrow> stun_message_get_method msg;
       c \<leftarrow> stun_message_get_class msg;
       if m = STUN_SEND then turn_send_response p msg
       else if m = STUN_OLD_SET_ACTIVE_DST then turn_active_dst_response p msg
       else if m = STUN_CHANNELBIND then turn_channel_response env ops p msg
       else if m = STUN_CREATEPERMISSION then turn_permission_response env ops p msg
       else if c = STUN_INDICATION \<and> m = STUN_IND_DATA then turn_data_indication env ops p msg len
       else Some (Turn_Recv, p) } }"

text \<open>
  \<open>buf\<close> is both the buffer the message was received into and the one the payload is moved to,
  as in every call of the function. Over a reliable base a length of less than 2 wraps, and the
  read that follows leaves the buffer.
\<close>

definition nice_udp_turn_socket_parse_recv ::
  "turn_env \<Rightarrow> 'b socket_ops \<Rightarrow> 'b udp_turn_priv \<Rightarrow> sockaddr \<Rightarrow> bytes \<Rightarrow> nat \<Rightarrow>
     (turn_parsed \<times> 'b udp_turn_priv) option" where
  "nice_udp_turn_socket_parse_recv env ops p recv_from buf len = (
     let reliable = nice_socket_is_reliable ops (ut_base_socket p);
         off = (if reliable then 2 else 0);
         recv_len = len - off in
     if reliable \<and> len < 2 then None
     else do {
       (go, p) \<leftarrow> (if nice_address_equal (ut_server_addr p) recv_from then do {
           (valid, msg, agent) \<leftarrow> stun_agent_validate (te_stun env) (ut_agent p) (te_message env)
             (drop off buf) recv_len None;
           let p = p\<lparr>ut_agent := agent\<rparr>;
           if valid = STUN_VALIDATION_SUCCESS then turn_server_message env ops p msg len
           else Some (Turn_Recv, p) }
         else Some (Turn_Recv, p));
       case go of
         Turn_Return r \<Rightarrow> Some (r, p)
       | Turn_Recv \<Rightarrow> do {
           r \<leftarrow> turn_recv_plain p recv_from buf len off recv_len;
           Some (r, p) }
       | Turn_Lock \<Rightarrow> do {
           p \<leftarrow> msn_google_lock env ops p;
           Some (Turn_Control, p) } })"

definition turn_parsed_data :: "turn_parsed \<Rightarrow> bytes" where
  "turn_parsed_data r = (case r of Turn_Control \<Rightarrow> [] | Turn_Payload d _ _ \<Rightarrow> d)"

text \<open>
  The sizes are those of the message's buffers. A message of one buffer is parsed in it, behind
  the bytes received comes what was there; one of several buffers goes through a block of its
  length.
\<close>

definition udp_turn_parse_in_place ::
  "turn_env \<Rightarrow> nat list \<Rightarrow> bytes \<Rightarrow> bytes" where
  "udp_turn_parse_in_place env sizes bs =
     (case sizes of [sz] \<Rightarrow> bs @ te_malloc env (sz - length bs) | _ \<Rightarrow> bs)"

text \<open>The result: whether there are data, and the message as it is then.\<close>

definition nice_udp_turn_socket_parse_recv_message ::
  "turn_env \<Rightarrow> 'b socket_ops \<Rightarrow> 'b udp_turn_priv \<Rightarrow> nat list \<Rightarrow> bytes \<Rightarrow> sockaddr \<Rightarrow>
     (nat \<times> turn_parsed \<times> 'b udp_turn_priv) option" where
  "nice_udp_turn_socket_parse_recv_message env ops p sizes bs recv_from = do {
     (r, p) \<leftarrow> nice_udp_turn_socket_parse_recv env ops p recv_from
       (udp_turn_parse_in_place env sizes bs) (length bs);
     let r = (case r of Turn_Control \<Rightarrow> Turn_Control
       | Turn_Payload d peer own \<Rightarrow> Turn_Payload
           (if length sizes = 1 then d else memcpy_buffer_to_input_message sizes d) peer own);
     if length sizes = 1 \<and> length (turn_parsed_data r) > length bs then None
     else Some (if turn_parsed_data r \<noteq> [] then 1 else 0, r, p) }"

text \<open>
  A parsed message of no bytes is looked at once more, has the length 0 by then, and is counted.
  A length that is negative as a \<open>gint\<close> is an error.
\<close>

fun udp_turn_recv_loop ::
  "turn_env \<Rightarrow> 'b socket_ops \<Rightarrow> 'b udp_turn_priv \<Rightarrow> nat list list \<Rightarrow> received \<Rightarrow> nat \<Rightarrow> received \<Rightarrow>
     (int \<times> received \<times> 'b udp_turn_priv) option" where
  "udp_turn_recv_loop env ops p msgs [] i acc = Some (int i, acc, p)"
| "udp_turn_recv_loop env ops p [] (r # rs) i acc = None"
| "udp_turn_recv_loop env ops p (sizes # msgs) ((bs, from_addr) # rs) i acc =
     (if bs = [] then udp_turn_recv_loop env ops p msgs rs (i + 1) (acc @ [(bs, from_addr)])
      else do {
        recv_from \<leftarrow> from_addr;
        (r, p) \<leftarrow> nice_udp_turn_socket_parse_recv env ops p recv_from
          (udp_turn_parse_in_place env sizes bs) (length bs);
        if length (turn_parsed_data r) \<ge> 2 ^ 31
        then Some (if i = 0 then - 1 else int i, acc @ ([], from_addr) # rs, p)
        else udp_turn_recv_loop env ops p msgs rs (i + 1)
          (acc @ [case r of
             Turn_Control \<Rightarrow> ([], from_addr)
           | Turn_Payload d peer _ \<Rightarrow> if d = [] then ([], from_addr)
               else (if length sizes = 1 then d else memcpy_buffer_to_input_message sizes d,
                 Some peer)]) })"

definition udp_turn_socket_recv_messages ::
  "turn_env \<Rightarrow> 'b socket_ops \<Rightarrow> 'b udp_turn_priv \<Rightarrow> nat list list \<Rightarrow>
     (int \<times> received \<times> 'b udp_turn_priv) option" where
  "udp_turn_socket_recv_messages env ops p recv_messages = do {
     (n_messages, msgs, base) \<leftarrow> nice_socket_recv_messages ops (ut_base_socket p) recv_messages;
     let p = p\<lparr>ut_base_socket := base\<rparr>;
     if n_messages < 0 then Some (n_messages, msgs, p)
     else udp_turn_recv_loop env ops p recv_messages (take (nat n_messages) msgs) 0 [] }"

definition turn_socket_is_reliable :: "'b socket_ops \<Rightarrow> 'b udp_turn_priv \<Rightarrow> bool" where
  "turn_socket_is_reliable ops p = nice_socket_is_reliable ops (ut_base_socket p)"

definition turn_socket_can_send :: "'b socket_ops \<Rightarrow> 'b udp_turn_priv \<Rightarrow> sockaddr option \<Rightarrow> bool" where
  "turn_socket_can_send ops p addr = nice_socket_can_send ops (ut_base_socket p) addr"

text \<open>
  The environment is that of each event: \<open>env p\<close> is the one in which a call on state \<open>p\<close> is made.
\<close>

definition turn_ops :: "('b udp_turn_priv \<Rightarrow> turn_env) \<Rightarrow> 'b socket_ops \<Rightarrow> 'b udp_turn_priv socket_ops"
where
  "turn_ops env ops =
     \<lparr>op_recv_messages = \<lambda>p msgs. udp_turn_socket_recv_messages (env p) ops p msgs,
      op_send_messages = \<lambda>p to msgs. do { to \<leftarrow> to; turn_socket_send_messages (env p) ops p to msgs },
      op_send_messages_reliable = \<lambda>p to msgs. do {
        to \<leftarrow> to; turn_socket_send_messages_reliable (env p) ops p to msgs },
      op_is_reliable = turn_socket_is_reliable ops,
      op_can_send = Some (turn_socket_can_send ops)\<rparr>"

end
