(* ===== verification/Sock_Drivers.thy ===== *)
theory Sock_Drivers
  imports Sock_Tcp
begin

text \<open>
  The sockets at the bottom: datagrams (\<open>socket/udp-bsd.c\<close>), connecting (\<open>socket/tcp-active.c\<close>)
  and listening (\<open>socket/tcp-passive.c\<close>). The kernel's sockets are states with the calls of GIO as
  arguments; \<open>native\<close> is \<open>g_socket_address_new_from_native\<close>, which fails for some addresses.
\<close>

section \<open>Datagrams\<close>

record udp_bsd_priv =
  ub_niceaddr :: sockaddr
  ub_gaddr :: "sockaddr option"

type_synonym 'g udp_sock = "udp_bsd_priv option \<times> 'g"

text \<open>
  The family asked for decides the kind of socket, no address is taken for IPv4. For an address
  without a family the code reads one it has not stored; that is taken for a failure.
  \<open>socket_open\<close> opens, binds and names the socket, and gives nothing when one of that fails. The
  result: the socket and its address.
\<close>

definition any_ipv4 :: sockaddr where
  "any_ipv4 = AF_INET \<lparr>sin_port = 0, sin_addr = 0\<rparr>"

definition bind_address :: "sockaddr option \<Rightarrow> sockaddr option" where
  "bind_address addr = (case addr of
     None \<Rightarrow> Some any_ipv4
   | Some (AF_OTHER f) \<Rightarrow> None
   | Some a \<Rightarrow> Some a)"

definition nice_udp_bsd_socket_new ::
  "(sockaddr \<Rightarrow> ('g \<times> sockaddr) option) \<Rightarrow> sockaddr option \<Rightarrow> ('g udp_sock \<times> sockaddr) option" where
  "nice_udp_bsd_socket_new socket_open addr = do {
     a \<leftarrow> bind_address addr;
     (g, name) \<leftarrow> socket_open a;
     Some ((Some \<lparr>ub_niceaddr = nice_address_init any_ipv4, ub_gaddr = None\<rparr>, g), name) }"

definition udp_socket_close :: "'g udp_sock \<Rightarrow> 'g udp_sock" where
  "udp_socket_close sock = (None, snd sock)"

text \<open>An empty datagram ends the loop like a call that would block.\<close>

fun udp_recv_loop ::
  "('g \<Rightarrow> nat list \<Rightarrow> grecv_result \<times> sockaddr option \<times> 'g) \<Rightarrow> 'g \<Rightarrow> nat list list \<Rightarrow> received \<Rightarrow>
     int \<times> received \<times> 'g" where
  "udp_recv_loop grecv g [] got = (int (length got), got, g)"
| "udp_recv_loop grecv g (m # ms) got =
     (case grecv g m of
        (Received data, gaddr, g) \<Rightarrow>
          if data = [] then (int (length got), got, g)
          else udp_recv_loop grecv g ms (got @ [(data, gaddr)])
      | (Recv_would_block, _, g) \<Rightarrow> (int (length got), got, g)
      | (Recv_error, _, g) \<Rightarrow> (if got = [] then - 1 else int (length got), got, g))"

definition udp_socket_recv_messages ::
  "('g \<Rightarrow> nat list \<Rightarrow> grecv_result \<times> sockaddr option \<times> 'g) \<Rightarrow> 'g udp_sock \<Rightarrow> nat list list \<Rightarrow>
     (int \<times> received \<times> 'g udp_sock) option" where
  "udp_socket_recv_messages grecv sock recv_messages =
     (case sock of
        (None, g) \<Rightarrow> Some (0, [], sock)
      | (Some priv, g) \<Rightarrow>
          (case udp_recv_loop grecv g recv_messages [] of
             (ret, got, g) \<Rightarrow> Some (ret, got, Some priv, g)))"

text \<open>
  The native form of the last destination is kept. When the conversion fails it is gone, but
  \<open>niceaddr\<close> is still the destination before.
\<close>

definition udp_destination :: "(sockaddr \<Rightarrow> sockaddr option) \<Rightarrow> udp_bsd_priv \<Rightarrow> sockaddr \<Rightarrow>
  bool \<times> udp_bsd_priv" where
  "udp_destination native priv to =
     (if \<not> nice_address_is_valid (ub_niceaddr priv) \<or> \<not> nice_address_equal (ub_niceaddr priv) to
      then (case native to of
              None \<Rightarrow> (False, priv\<lparr>ub_gaddr := None\<rparr>)
            | Some a \<Rightarrow> (True, priv\<lparr>ub_gaddr := Some a, ub_niceaddr := to\<rparr>))
      else (True, priv))"

definition udp_socket_send_message ::
  "(sockaddr \<Rightarrow> sockaddr option) \<Rightarrow>
   ('g \<Rightarrow> sockaddr option \<Rightarrow> output_message \<Rightarrow> gsend_result \<times> 'g) \<Rightarrow> 'g udp_sock \<Rightarrow> sockaddr \<Rightarrow>
     output_message \<Rightarrow> (int \<times> 'g udp_sock) option" where
  "udp_socket_send_message native gsend sock to message =
     (case sock of
        (None, g) \<Rightarrow> Some (- 1, sock)
      | (Some priv, g) \<Rightarrow>
          (case udp_destination native priv to of
             (False, priv) \<Rightarrow> Some (- 1, Some priv, g)
           | (True, priv) \<Rightarrow>
               (case gsend g (ub_gaddr priv) message of
                  (Send_done n, g) \<Rightarrow> Some (int n, Some priv, g)
                | (Send_would_block, g) \<Rightarrow> Some (0, Some priv, g)
                | (_, g) \<Rightarrow> Some (- 1, Some priv, g))))"

fun udp_send_loop ::
  "(sockaddr \<Rightarrow> sockaddr option) \<Rightarrow>
   ('g \<Rightarrow> sockaddr option \<Rightarrow> output_message \<Rightarrow> gsend_result \<times> 'g) \<Rightarrow> 'g udp_sock \<Rightarrow> sockaddr \<Rightarrow>
     output_message list \<Rightarrow> nat \<Rightarrow> (int \<times> 'g udp_sock) option" where
  "udp_send_loop native gsend sock to [] i = Some (int i, sock)"
| "udp_send_loop native gsend sock to (m # ms) i = do {
     (len, sock) \<leftarrow> udp_socket_send_message native gsend sock to m;
     if len < 0 then Some (if i > 0 then int i else len, sock)
     else if len = 0 then Some (int i, sock)
     else udp_send_loop native gsend sock to ms (i + 1) }"

text \<open>The destination is used without a test.\<close>

definition udp_socket_send_messages ::
  "(sockaddr \<Rightarrow> sockaddr option) \<Rightarrow>
   ('g \<Rightarrow> sockaddr option \<Rightarrow> output_message \<Rightarrow> gsend_result \<times> 'g) \<Rightarrow> 'g udp_sock \<Rightarrow>
     sockaddr option \<Rightarrow> output_message list \<Rightarrow> (int \<times> 'g udp_sock) option" where
  "udp_socket_send_messages native gsend sock to messages =
     (case sock of
        (None, g) \<Rightarrow> Some (- 1, sock)
      | (Some priv, g) \<Rightarrow> do {
          to \<leftarrow> to;
          udp_send_loop native gsend sock to messages 0 })"

definition udp_socket_send_messages_reliable ::
  "'g udp_sock \<Rightarrow> sockaddr option \<Rightarrow> output_message list \<Rightarrow> (int \<times> 'g udp_sock) option" where
  "udp_socket_send_messages_reliable sock to messages = Some (- 1, sock)"

definition udp_ops ::
  "(sockaddr \<Rightarrow> sockaddr option) \<Rightarrow>
   ('g \<Rightarrow> sockaddr option \<Rightarrow> output_message \<Rightarrow> gsend_result \<times> 'g) \<Rightarrow>
   ('g \<Rightarrow> nat list \<Rightarrow> grecv_result \<times> sockaddr option \<times> 'g) \<Rightarrow> 'g udp_sock socket_ops" where
  "udp_ops native gsend grecv =
     \<lparr>op_recv_messages = udp_socket_recv_messages grecv,
      op_send_messages = udp_socket_send_messages native gsend,
      op_send_messages_reliable = udp_socket_send_messages_reliable,
      op_is_reliable = (\<lambda>_. False),
      op_can_send = Some (\<lambda>_ _. True)\<rparr>"

section \<open>Connecting\<close>

text \<open>An active TCP socket only connects; \<open>connect_to\<close>: bind, connect and name a stream socket.\<close>

record tcp_active =
  ta_addr :: sockaddr
  ta_local :: "sockaddr option"

definition nice_tcp_active_socket_new ::
  "(sockaddr \<Rightarrow> sockaddr option) \<Rightarrow> sockaddr option \<Rightarrow> tcp_active option" where
  "nice_tcp_active_socket_new native addr = (
     let local_addr = (case addr of None \<Rightarrow> AF_OTHER 0 | Some a \<Rightarrow> nice_address_set_port a 0) in do {
     gaddr \<leftarrow> native local_addr;
     Some \<lparr>ta_addr = local_addr, ta_local = Some gaddr\<rparr> })"

definition active_ops :: "tcp_active socket_ops" where
  "active_ops =
     \<lparr>op_recv_messages = (\<lambda>s msgs. Some (- 1, [], s)),
      op_send_messages = (\<lambda>s to msgs. Some (- 1, s)),
      op_send_messages_reliable = (\<lambda>s to msgs. Some (- 1, s)),
      op_is_reliable = (\<lambda>_. True),
      op_can_send = Some (\<lambda>_ _. False)\<rparr>"

definition nice_tcp_active_socket_connect ::
  "(sockaddr \<Rightarrow> sockaddr option) \<Rightarrow> (sockaddr option \<Rightarrow> sockaddr \<Rightarrow> ('g \<times> sockaddr) option) \<Rightarrow>
     tcp_active \<Rightarrow> sockaddr option \<Rightarrow> ('g tcp_sock \<times> sockaddr) option" where
  "nice_tcp_active_socket_connect native connect_to sock addr = do {
     addr \<leftarrow> addr;
     a \<leftarrow> bind_address (Some addr);
     gaddr \<leftarrow> native a;
     (gsock, local_addr) \<leftarrow> connect_to (ta_local sock) gaddr;
     Some (nice_tcp_bsd_socket_new_from_gsock gsock addr True, local_addr) }"

section \<open>Listening\<close>

text \<open>
  A passive TCP socket sends through the connections it has accepted. They are sockets of their
  own, which the agent holds as well: handles into a store, from which a closed one is gone.
\<close>

type_synonym connections = "(sockaddr \<times> nat) list"
type_synonym 'b sock_store = "nat \<Rightarrow> 'b option"

record tcp_passive =
  tp_addr :: sockaddr
  tp_connections :: connections

definition nice_tcp_passive_socket_new ::
  "(sockaddr \<Rightarrow> sockaddr option) \<Rightarrow> (sockaddr \<Rightarrow> ('g \<times> sockaddr) option) \<Rightarrow> sockaddr option \<Rightarrow>
     (tcp_passive \<times> 'g) option" where
  "nice_tcp_passive_socket_new native listen_on addr = do {
     a \<leftarrow> bind_address addr;
     gaddr \<leftarrow> native a;
     (g, name) \<leftarrow> listen_on gaddr;
     Some (\<lparr>tp_addr = name, tp_connections = []\<rparr>, g) }"

fun find_connection :: "connections \<Rightarrow> sockaddr \<Rightarrow> nat option" where
  "find_connection [] to = None"
| "find_connection ((a, h) # cs) to =
     (if nice_address_equal a to then Some h else find_connection cs to)"

fun insert_connection :: "connections \<Rightarrow> sockaddr \<Rightarrow> nat \<Rightarrow> connections" where
  "insert_connection [] to h = [(nice_address_dup to, h)]"
| "insert_connection ((a, h') # cs) to h =
     (if nice_address_equal a to then (a, h) # cs else (a, h') # insert_connection cs to h)"

definition passive_send ::
  "('b \<Rightarrow> sockaddr option \<Rightarrow> output_message list \<Rightarrow> (int \<times> 'b) option) \<Rightarrow> tcp_passive \<Rightarrow>
     'b sock_store \<Rightarrow> sockaddr option \<Rightarrow> output_message list \<Rightarrow> (int \<times> 'b sock_store) option" where
  "passive_send send sock store to messages =
     (case to of
        None \<Rightarrow> Some (- 1, store)
      | Some a \<Rightarrow>
          (case find_connection (tp_connections sock) a of
             None \<Rightarrow> Some (- 1, store)
           | Some h \<Rightarrow> do {
               peer_socket \<leftarrow> store h;
               (ret, peer_socket) \<leftarrow> send peer_socket to messages;
               Some (ret, store(h \<mapsto> peer_socket)) }))"

definition passive_send_messages ::
  "'b socket_ops \<Rightarrow> tcp_passive \<Rightarrow> 'b sock_store \<Rightarrow> sockaddr option \<Rightarrow> output_message list \<Rightarrow>
     (int \<times> 'b sock_store) option" where
  "passive_send_messages ops = passive_send (nice_socket_send_messages ops)"

definition passive_send_messages_reliable ::
  "'b socket_ops \<Rightarrow> tcp_passive \<Rightarrow> 'b sock_store \<Rightarrow> sockaddr option \<Rightarrow> output_message list \<Rightarrow>
     (int \<times> 'b sock_store) option" where
  "passive_send_messages_reliable ops = passive_send (nice_socket_send_messages_reliable ops)"

definition passive_can_send ::
  "'b socket_ops \<Rightarrow> tcp_passive \<Rightarrow> 'b sock_store \<Rightarrow> sockaddr option \<Rightarrow> bool option" where
  "passive_can_send ops sock store addr =
     (case addr of
        None \<Rightarrow> Some False
      | Some a \<Rightarrow>
          (case find_connection (tp_connections sock) a of
             None \<Rightarrow> Some False
           | Some h \<Rightarrow> do {
               peer_socket \<leftarrow> store h;
               Some (nice_socket_can_send ops peer_socket addr) }))"

text \<open>\<open>accepted\<close>: what the kernel accepts, if anything, and its remote address; \<open>h\<close> is a new handle.\<close>

definition nice_tcp_passive_socket_accept ::
  "tcp_passive \<Rightarrow> 'g tcp_sock sock_store \<Rightarrow> nat \<Rightarrow> ('g \<times> sockaddr) option \<Rightarrow>
     nat option \<times> tcp_passive \<times> 'g tcp_sock sock_store" where
  "nice_tcp_passive_socket_accept sock store h accepted =
     (case accepted of
        None \<Rightarrow> (None, sock, store)
      | Some (gsock, remote_addr) \<Rightarrow>
          (Some h,
           sock\<lparr>tp_connections := insert_connection (tp_connections sock) remote_addr h\<rparr>,
           store(h \<mapsto> nice_tcp_bsd_socket_new_from_gsock gsock remote_addr True)))"

section \<open>The interface of datagram sockets\<close>

text \<open>
  The history of a kernel's socket: the calls that sent a datagram, each with its destination, its bytes
  and its result. What the network gets is what the kernel has accepted.
\<close>

type_synonym datagram_call = "sockaddr option \<times> bytes \<times> gsend_result"

definition was_sent :: "gsend_result \<Rightarrow> bool" where
  "was_sent r \<longleftrightarrow> (case r of Send_done n \<Rightarrow> True | _ \<Rightarrow> False)"

definition on_network :: "datagram_call list \<Rightarrow> (sockaddr \<times> bytes) list" where
  "on_network cs = map (\<lambda>(a, x, r). (the a, x)) (filter (\<lambda>(a, x, r). was_sent r) cs)"

lemma on_network_simps [simp]:
  "on_network [] = []"
  "on_network (cs @ ds) = on_network cs @ on_network ds"
  "on_network ((a, x, r) # cs) = (if was_sent r then [(the a, x)] else []) @ on_network cs"
  by (simp_all add: on_network_def)

lemma was_sent_simps [simp]:
  "was_sent (Send_done n)" "\<not> was_sent Send_would_block" "\<not> was_sent Send_failed" "\<not> was_sent Send_error"
  by (simp_all add: was_sent_def)

lemma all_on_network:
  "\<forall>(a, x, r) \<in> set cs. was_sent r \<Longrightarrow> map snd (on_network cs) = map (\<lambda>(a, x, r). x) cs"
  by (induction cs) auto

text \<open>The calls \<open>cs\<close> hand over the datagrams \<open>xs\<close>, in this order, each once, for that destination.\<close>

definition hands_over ::
  "(sockaddr \<Rightarrow> sockaddr \<Rightarrow> bool) \<Rightarrow> sockaddr \<Rightarrow> bytes list \<Rightarrow> datagram_call list \<Rightarrow> bool" where
  "hands_over goes_to to xs cs \<longleftrightarrow> map (\<lambda>(a, x, r). x) cs = xs \<and>
     (\<forall>(a, x, r) \<in> set cs. \<exists>d. a = Some d \<and> goes_to d to)"

text \<open>
  What a user of a datagram socket relies on: a message is taken as a whole and for the
  destination it was given for, or it is not taken; a send that is to be reliable may be
  refused.
\<close>

locale datagram_socket =
  fixes ops :: "'b socket_ops" and alive :: "'b \<Rightarrow> bool"
    and goes_to :: "sockaddr \<Rightarrow> sockaddr \<Rightarrow> bool"
    and calls :: "'b \<Rightarrow> datagram_call list"
  assumes send_one: "alive b \<Longrightarrow> concat m \<noteq> [] \<Longrightarrow> \<exists>r b' cs. op_send_messages ops b (Some to) [m] = Some (r, b') \<and>
      alive b' \<and> calls b' = calls b @ cs \<and>
      (r = 1 \<and> (\<exists>a. goes_to a to \<and> on_network cs = [(a, concat m)]) \<or> r \<le> 0 \<and> on_network cs = [])"
    and send_one_reliable: "alive b \<Longrightarrow> concat m \<noteq> [] \<Longrightarrow>
      \<exists>r b' cs. op_send_messages_reliable ops b (Some to) [m] = Some (r, b') \<and>
      alive b' \<and> calls b' = calls b @ cs \<and>
      (r = 1 \<and> (\<exists>a. goes_to a to \<and> on_network cs = [(a, concat m)]) \<or> r \<le> 0 \<and> on_network cs = [])"
    and unreliable: "alive b \<Longrightarrow> \<not> op_is_reliable ops b"

text \<open>
  A socket that is ready passes every message for a valid address to the kernel, once, whatever the
  kernel then answers.
\<close>

locale open_socket = datagram_socket +
  fixes ready :: "'b \<Rightarrow> bool"
  assumes ready_alive: "ready b \<Longrightarrow> alive b"
    and handed: "ready b \<Longrightarrow> concat m \<noteq> [] \<Longrightarrow> nice_address_is_valid to \<Longrightarrow>
      \<exists>r b' a res. op_send_messages ops b (Some to) [m] = Some (r, b') \<and> ready b' \<and> goes_to a to \<and>
        calls b' = calls b @ [(Some a, concat m, res)]"

text \<open>
  The kernel's side: the calls are recorded, and a datagram goes out whole to the address given, or not
  at all, whenever the kernel likes; and the sockets for which the interface holds.
\<close>

definition kernel_datagrams ::
  "('g \<Rightarrow> sockaddr option \<Rightarrow> output_message \<Rightarrow> gsend_result \<times> 'g) \<Rightarrow> ('g \<Rightarrow> datagram_call list) \<Rightarrow>
     bool" where
  "kernel_datagrams gsend calls \<longleftrightarrow> (\<forall>g a m r g'. gsend g a m = (r, g') \<longrightarrow>
     calls g' = calls g @ [(a, concat m, r)] \<and>
     (case r of Send_done n \<Rightarrow> n = length (concat m) \<and> a \<noteq> None | _ \<Rightarrow> True))"

definition udp_alive :: "(sockaddr \<Rightarrow> sockaddr option) \<Rightarrow> 'g udp_sock \<Rightarrow> bool" where
  "udp_alive native sock \<longleftrightarrow> (case fst sock of None \<Rightarrow> False
     | Some p \<Rightarrow> ub_gaddr p = None \<or> ub_gaddr p = native (ub_niceaddr p))"

definition udp_goes_to :: "(sockaddr \<Rightarrow> sockaddr option) \<Rightarrow> sockaddr \<Rightarrow> sockaddr \<Rightarrow> bool" where
  "udp_goes_to native a to \<longleftrightarrow> (\<exists>to'. native to' = Some a \<and> (to' = to \<or> nice_address_equal to' to))"

lemma udp_send_message_out:
  assumes k: "kernel_datagrams gsend calls" and a: "udp_alive native sock" and m: "concat m \<noteq> []"
  shows "\<exists>r sock' cs. udp_socket_send_message native gsend sock to m = Some (r, sock') \<and>
    udp_alive native sock' \<and> calls (snd sock') = calls (snd sock) @ cs \<and>
    (0 < r \<and> (\<exists>a. udp_goes_to native a to \<and> on_network cs = [(a, concat m)]) \<or>
     r \<le> 0 \<and> on_network cs = [])"
proof -
  obtain p g where sock: "sock = (Some p, g)" and p: "ub_gaddr p = None \<or> ub_gaddr p = native (ub_niceaddr p)"
    using a by (cases sock) (auto simp: udp_alive_def split: option.splits)
  obtain ok q where d: "udp_destination native p to = (ok, q)" by fastforce
  have q: "ub_gaddr q = None \<or> ub_gaddr q = native (ub_niceaddr q)"
    "ok \<Longrightarrow> ub_niceaddr q = to \<or> nice_address_equal (ub_niceaddr q) to"
    using d p by (auto simp: udp_destination_def split: if_splits option.splits)
  show ?thesis
  proof (cases ok)
    case True
    obtain r g1 where s: "gsend g (ub_gaddr q) m = (r, g1)" by fastforce
    have law: "calls g1 = calls g @ [(ub_gaddr q, concat m, r)]"
      "case r of Send_done n \<Rightarrow> n = length (concat m) \<and> ub_gaddr q \<noteq> None | _ \<Rightarrow> True"
      using k s unfolding kernel_datagrams_def by blast+
    have to: "udp_goes_to native d to" if "ub_gaddr q = Some d" for d
      using q True that by (auto simp: udp_goes_to_def)
    show ?thesis using law to m q(1) True
      by (cases r) (auto simp: udp_socket_send_message_def sock d s udp_alive_def
          simp del: length_concat concat_eq_Nil_conv)
  next
    case False
    then show ?thesis using q(1) by (simp add: udp_socket_send_message_def sock d udp_alive_def)
  qed
qed

lemma udp_send_one:
  assumes "kernel_datagrams gsend calls" "udp_alive native b" "concat m \<noteq> []"
  shows "\<exists>r b' cs. op_send_messages (udp_ops native gsend grecv) b (Some to) [m] = Some (r, b') \<and>
    udp_alive native b' \<and> calls (snd b') = calls (snd b) @ cs \<and>
    (r = 1 \<and> (\<exists>a. udp_goes_to native a to \<and> on_network cs = [(a, concat m)]) \<or>
     r \<le> 0 \<and> on_network cs = [])"
proof -
  from udp_send_message_out [OF assms, of to] obtain r b' cs where
    s: "udp_socket_send_message native gsend b to m = Some (r, b')" "udp_alive native b'"
    "calls (snd b') = calls (snd b) @ cs"
    "0 < r \<and> (\<exists>a. udp_goes_to native a to \<and> on_network cs = [(a, concat m)]) \<or> r \<le> 0 \<and> on_network cs = []"
    by blast
  obtain p g where "b = (Some p, g)" using assms(2)
    by (cases b) (auto simp: udp_alive_def split: option.splits)
  then show ?thesis using s by (cases b') (auto simp: udp_ops_def udp_socket_send_messages_def)
qed

lemma udp_datagram_socket:
  assumes "kernel_datagrams gsend calls"
  shows "datagram_socket (udp_ops native gsend grecv) (udp_alive native) (udp_goes_to native)
    (\<lambda>s. calls (snd s))"
  by unfold_locales (use udp_send_one [OF assms] in
    \<open>auto simp: udp_ops_def udp_socket_send_messages_reliable_def\<close>)

text \<open>
  When every valid address can be converted, as those of IPv4 and IPv6 can, the kept form stays that of
  the last destination.
\<close>

definition converts_valid :: "(sockaddr \<Rightarrow> sockaddr option) \<Rightarrow> bool" where
  "converts_valid native \<longleftrightarrow> (\<forall>a. nice_address_is_valid a \<longrightarrow> native a \<noteq> None)"

definition udp_ready :: "(sockaddr \<Rightarrow> sockaddr option) \<Rightarrow> 'g udp_sock \<Rightarrow> bool" where
  "udp_ready native sock \<longleftrightarrow> (case fst sock of None \<Rightarrow> False
     | Some p \<Rightarrow> if nice_address_is_valid (ub_niceaddr p) then ub_gaddr p = native (ub_niceaddr p)
         else ub_gaddr p = None)"

lemma udp_ready_alive: "udp_ready native sock \<Longrightarrow> udp_alive native sock"
  by (auto simp: udp_ready_def udp_alive_def split: option.splits if_splits)

lemma udp_send_message_handed:
  assumes k: "kernel_datagrams gsend calls" and n: "converts_valid native"
    and a: "udp_ready native sock" and to: "nice_address_is_valid to"
  shows "\<exists>r sock' d res. udp_socket_send_message native gsend sock to m = Some (r, sock') \<and>
    udp_ready native sock' \<and> udp_goes_to native d to \<and>
    calls (snd sock') = calls (snd sock) @ [(Some d, concat m, res)]"
proof -
  obtain p g where sock: "sock = (Some p, g)" using a
    by (cases sock) (auto simp: udp_ready_def split: option.splits)
  define q where "q = snd (udp_destination native p to)"
  have d: "udp_destination native p to = (True, q)" "ub_gaddr q = native (ub_niceaddr q)"
    "nice_address_is_valid (ub_niceaddr q)" "ub_niceaddr q = to \<or> nice_address_equal (ub_niceaddr q) to"
    using a n to by (auto simp: q_def udp_destination_def sock udp_ready_def converts_valid_def)
  obtain x where x: "ub_gaddr q = Some x" using d(2,3) n by (auto simp: converts_valid_def)
  obtain r g' where g: "gsend g (Some x) m = (r, g')" by fastforce
  have "calls g' = calls g @ [(Some x, concat m, r)]" using k g unfolding kernel_datagrams_def by blast
  moreover have "udp_goes_to native x to" using d(2,4) x by (auto simp: udp_goes_to_def)
  moreover have "\<exists>l. udp_socket_send_message native gsend sock to m = Some (l, Some q, g')"
    using g d(1) x by (cases r) (auto simp: udp_socket_send_message_def sock)
  moreover have "udp_ready native (Some q, g')" using d(2,3) by (simp add: udp_ready_def)
  ultimately show ?thesis using sock by fastforce
qed

lemma udp_handed:
  assumes "kernel_datagrams gsend calls" "converts_valid native" "udp_ready native b"
    "nice_address_is_valid to"
  shows "\<exists>r b' a res. op_send_messages (udp_ops native gsend grecv) b (Some to) [m] = Some (r, b') \<and>
    udp_ready native b' \<and> udp_goes_to native a to \<and> calls (snd b') = calls (snd b) @ [(Some a, concat m, res)]"
proof -
  obtain p g where b: "b = (Some p, g)" using assms(3)
    by (cases b) (auto simp: udp_ready_def split: option.splits)
  obtain r b' a res where s: "udp_socket_send_message native gsend b to m = Some (r, b')"
    "udp_ready native b'" "udp_goes_to native a to" "calls (snd b') = calls (snd b) @ [(Some a, concat m, res)]"
    using udp_send_message_handed [OF assms] by blast
  have "\<exists>r'. op_send_messages (udp_ops native gsend grecv) b (Some to) [m] = Some (r', b')"
    using s(1) by (cases b') (auto simp: udp_ops_def udp_socket_send_messages_def b)
  then show ?thesis using s(2-4) by blast
qed

lemma udp_open_socket:
  assumes k: "kernel_datagrams gsend calls" and n: "converts_valid native"
  shows "open_socket (udp_ops native gsend grecv) (udp_alive native) (udp_goes_to native)
    (\<lambda>s. calls (snd s)) (udp_ready native)"
  by (intro open_socket.intro open_socket_axioms.intro udp_datagram_socket [OF k] udp_ready_alive
      udp_handed [OF k n])

text \<open>
  A network that has no room for every second datagram and takes the others with an address; its state is its
  history.
\<close>

definition log_send :: "datagram_call list \<Rightarrow> sockaddr option \<Rightarrow> output_message \<Rightarrow>
  gsend_result \<times> datagram_call list" where
  "log_send g a m = (
     let r = (if a = None then Send_error else if odd (length g) then Send_would_block
       else Send_done (length (concat m)))
     in (r, g @ [(a, concat m, r)]))"

definition log_recv :: "datagram_call list \<Rightarrow> nat list \<Rightarrow>
  grecv_result \<times> sockaddr option \<times> datagram_call list" where
  "log_recv g m = (Recv_would_block, None, g)"

lemma log_datagrams: "kernel_datagrams log_send (\<lambda>g. g)"
  by (auto simp: kernel_datagrams_def log_send_def Let_def)

lemma converts_all: "converts_valid Some"
  by (simp add: converts_valid_def)

interpretation udp: open_socket "udp_ops Some log_send log_recv" "udp_alive Some" "udp_goes_to Some"
  "\<lambda>s. snd s" "udp_ready Some"
  by (rule udp_open_socket [OF log_datagrams converts_all])

end
