(* ===== verification/Sock_Turn_Facts.thy ===== *)
theory Sock_Turn_Facts
  imports Sock_Turn_Recv Sock_Drivers
begin

unbundle bit_operations_syntax

text \<open>
  Facts about the TURN socket: what is not from the server changes nothing, data on channels
  arrive as they were sent, channel numbers, and data that wait for a permission.
\<close>

section \<open>Packets that are not STUN\<close>

lemma not_stun_refused:
  assumes "buf \<noteq> []" "0 < len" "drop_bit 6 (buf ! 0) \<noteq> 0"
  shows "stun_agent_validate env agent msg0 buf len v = Some (STUN_VALIDATION_NOT_STUN, msg0, agent)"
  using assms by (simp add: stun_agent_validate_def stun_message_validate_buffer_length_def
      stun_message_validate_buffer_length_fast_def iv_get_def rd_def)

lemma channel_not_stun:
  assumes "0x4000 \<le> (c :: u16)"
  shows "drop_bit 6 (be16_bytes c ! 0) \<noteq> 0"
proof -
  have "unat (drop_bit 8 c) = unat c div 256" 
    by (simp only: unat_drop_bit_eq) (simp add: drop_bit_eq_div)
  moreover have "unat c div 256 < 256" using unsigned_less [of c, where 'a = nat] by auto
  ultimately have "unat (ucast (drop_bit 8 c) :: u8) = unat c div 256"
    by (simp only: unsigned_ucast_eq) (simp add: take_bit_nat_eq_self)
  then have "unat (drop_bit 6 (ucast (drop_bit 8 c) :: u8)) = unat c div 16384"
    by (simp only: unat_drop_bit_eq) (simp add: drop_bit_eq_div flip: div_mult2_eq)
  moreover have "unat (0x4000 :: u16) \<le> unat c" using assms by (simp only: word_le_nat_alt)
  ultimately show ?thesis by (auto simp: be16_bytes_def word_unat_eq_iff)
qed

section \<open>Data on channels\<close>

lemma recv_channel_found:
  assumes "turn_std c" "distinct (map cb_channel bs)" "b \<in> set bs"
    "rdn buf off 2 = Some (be16_bytes (cb_channel b))" "rdn buf (off + 2) 2 = Some (be16_bytes l)"
  shows "recv_channel_loop c bs buf off n = Some (Some (b, unat l, off + 4))"
  using assms
  by (induction bs) (auto simp: be16_bytes_def bytes_simps rev_image_eqI)

lemma channel_data_layout:
  assumes "channel_data c m = Some bs" "length (concat m) < 2 ^ 16"
  shows "bs = be16_bytes c @ be16_bytes (of_nat (length (concat m))) @ concat m"
  using assms by (auto simp: channel_data_def Let_def output_message_get_size_eq split: if_splits)

lemma be16_bytes_length: "length (be16_bytes v) = 2"
  by (simp add: be16_bytes_def)

lemma channel_data_recv:
  assumes "turn_std (ut_compatibility p)" "\<not> nice_socket_is_reliable ops (ut_base_socket p)"
    and "distinct (map cb_channel (ut_channels p))" "b \<in> set (ut_channels p)" "0x4000 \<le> cb_channel b"
    and "channel_data (cb_channel b) m = Some bs" "length (concat m) < 2 ^ 16"
  shows "nice_udp_turn_socket_parse_recv env ops p recv_from (bs @ stale) (length bs) =
    Some (Turn_Payload (concat m) (cb_peer b) True, p)"
proof -
  let ?l = "of_nat (length (concat m)) :: u16"
  note bs = channel_data_layout [OF assms(6,7)]
  have l: "unat ?l = length (concat m)"
    using assms(7) by (simp add: unat_of_nat take_bit_nat_eq_self del: length_concat)
  have n: "bs \<noteq> []" "drop_bit 6 ((bs @ stale) ! 0) \<noteq> 0"
    using channel_not_stun [OF assms(5)] by (simp_all add: bs be16_bytes_def)
  have v: "stun_agent_validate e a msg0 (bs @ stale) (length bs) v =
      Some (STUN_VALIDATION_NOT_STUN, msg0, a)" for e a msg0 v
    by (rule not_stun_refused) (use n in auto)
  have r: "rdn (bs @ stale) 0 2 = Some (be16_bytes (cb_channel b))"
    "rdn (bs @ stale) (0 + 2) 2 = Some (be16_bytes ?l)"
    "rdn (bs @ stale) (0 + 4) (length (concat m)) = Some (concat m)"
    by (simp_all add: rdn_def bs be16_bytes_length del: length_concat)
  have "recv_channel_loop (ut_compatibility p) (ut_channels p) (bs @ stale) 0 (length bs) =
      Some (Some (b, length (concat m), 4))"
    using recv_channel_found [OF assms(1,3,4) r(1,2)] by (simp only: l add_0)
  moreover have "min (length bs) (length (concat m)) = length (concat m)"
    by (simp add: bs del: length_concat)
  ultimately have "turn_recv_plain p recv_from (bs @ stale) (length bs) 0 (length bs) =
      Some (Turn_Payload (concat m) (cb_peer b) True)"
    using r(3) by (simp add: turn_recv_plain_def del: length_concat)
  then show ?thesis using assms(2) by (simp add: nice_udp_turn_socket_parse_recv_def v Let_def)
qed

section \<open>Queues\<close>

lemma lookup_update_queue:
  "nice_address_is_valid to \<Longrightarrow> lookup_queue (update_queue qs to q) to = Some q"
  by (induction qs to q rule: update_queue.induct) (auto simp: nice_address_dup_def address_equal_refl)

lemma update_update_queue:
  "nice_address_is_valid to \<Longrightarrow> update_queue (update_queue qs to q) to q' = update_queue qs to q'"
  by (induction qs to q rule: update_queue.induct) (auto simp: nice_address_dup_def address_equal_refl)

lemma remove_updated_queue:
  "nice_address_is_valid to \<Longrightarrow> lookup_queue qs to = None \<Longrightarrow> remove_queue (update_queue qs to q) to = qs"
  by (induction qs to q rule: update_queue.induct)
    (auto simp: nice_address_dup_def address_equal_refl split: if_splits)

section \<open>Data that wait for a permission\<close>

text \<open>A peer of RFC 5766 with a channel, whose permission has been asked for.\<close>

definition held_back :: "'b udp_turn_priv \<Rightarrow> sockaddr \<Rightarrow> channel_binding \<Rightarrow> bool" where
  "held_back p to b \<longleftrightarrow> ut_compatibility p = NICE_TURN_SOCKET_COMPATIBILITY_RFC5766 \<and>
     find_binding (ut_channels p) to = Some b \<and> \<not> priv_has_permission_for_peer p to \<and>
     priv_has_sent_permission_for_peer p to"

definition on_channel :: "u16 \<Rightarrow> output_message \<Rightarrow> bytes" where
  "on_channel c m = be16_bytes c @ be16_bytes (of_nat (length (concat m))) @ concat m"

lemma held_back_message:
  assumes h: "held_back p to b" and m: "length (concat m) < 2 ^ 16"
  shows "turn_socket_send_message env ops p to m r =
    Some (int (length (on_channel (cb_channel b) m)),
      socket_enqueue_data p to (on_channel (cb_channel b) m) r)"
proof -
  have "channel_data (cb_channel b) m = Some (on_channel (cb_channel b) m)"
    using m by (simp add: channel_data_def on_channel_def Let_def output_message_get_size_eq
        del: length_concat)
  then show ?thesis using h by (simp add: turn_socket_send_message_def held_back_def turn_std_def
      turn_send_built_def)
qed

lemma held_back_loop:
  assumes "held_back p to b" "nice_address_is_valid to" "\<forall>m\<in>set ms. length (concat m) < 2 ^ 16"
    "ut_send_data_queues p = update_queue qs to q"
  shows "turn_send_loop env ops p to ms i = Some (int (i + length ms), p\<lparr>ut_send_data_queues :=
    update_queue qs to (q @ map (\<lambda>m. \<lparr>sd_data = on_channel (cb_channel b) m, sd_reliable = False\<rparr>) ms)\<rparr>)"
  using assms
proof (induction ms arbitrary: p q i)
  case (Cons m ms)
  let ?d = "\<lparr>sd_data = on_channel (cb_channel b) m, sd_reliable = False\<rparr>"
  let ?p = "p\<lparr>ut_send_data_queues := update_queue qs to (q @ [?d])\<rparr>"
  have e: "socket_enqueue_data p to (on_channel (cb_channel b) m) False = ?p"
    using Cons.prems(2,4) by (simp add: socket_enqueue_data_def lookup_update_queue update_update_queue)
  have h: "held_back ?p to b" using Cons.prems(1)
    by (simp add: held_back_def priv_has_permission_for_peer_def priv_has_sent_permission_for_peer_def)
  have l: "0 < length (on_channel (cb_channel b) m)" by (simp add: on_channel_def be16_bytes_def)
  from Cons.IH [OF h Cons.prems(2), of "q @ [?d]" "i + 1"] Cons.prems(3) l
  show ?case by (simp add: held_back_message [OF Cons.prems(1)] e del: length_concat)
qed simp

lemma held_back_start:
  assumes "held_back p to b" "nice_address_is_valid to" "\<forall>m\<in>set ms. length (concat m) < 2 ^ 16"
    "lookup_queue (ut_send_data_queues p) to = None" "ms \<noteq> []"
  shows "turn_socket_send_messages env ops p to ms = Some (int (length ms), p\<lparr>ut_send_data_queues :=
    update_queue (ut_send_data_queues p) to
      (map (\<lambda>m. \<lparr>sd_data = on_channel (cb_channel b) m, sd_reliable = False\<rparr>) ms)\<rparr>)"
proof -
  obtain m ms' where ms: "ms = m # ms'" using assms(5) by (cases ms) auto
  let ?d = "\<lparr>sd_data = on_channel (cb_channel b) m, sd_reliable = False\<rparr>"
  let ?p = "p\<lparr>ut_send_data_queues := update_queue (ut_send_data_queues p) to [?d]\<rparr>"
  have e: "socket_enqueue_data p to (on_channel (cb_channel b) m) False = ?p"
    using assms(4) by (simp add: socket_enqueue_data_def)
  have h: "held_back ?p to b" using assms(1)
    by (simp add: held_back_def priv_has_permission_for_peer_def priv_has_sent_permission_for_peer_def)
  have l: "0 < length (on_channel (cb_channel b) m)" by (simp add: on_channel_def be16_bytes_def)
  from held_back_loop [OF h assms(2), of ms' "ut_send_data_queues p" "[?d]" env ops 1] assms(3) l
  show ?thesis by (simp add: turn_socket_send_messages_def ms held_back_message [OF assms(1)] e
        del: length_concat)
qed

context open_socket
begin

lemma to_server_handed:
  assumes "ready (ut_base_socket p)" "nice_address_is_valid (ut_server_addr p)" "bs \<noteq> []"
  shows "\<exists>r b a res. send_to_server ops p bs False = Some (r, p\<lparr>ut_base_socket := b\<rparr>) \<and>
    ready b \<and> goes_to a (ut_server_addr p) \<and> calls b = calls (ut_base_socket p) @ [(Some a, bs, res)]"
  using handed [OF assms(1), of "[bs]"] assms(2,3) unreliable [OF ready_alive [OF assms(1)]]
  by (fastforce simp: send_to_server_def socket_send_wrapped_def socket_send_messages_wrapped_def
      nice_socket_is_reliable_def nice_socket_send_messages_def)

lemma dequeue_in_order:
  assumes "ready (ut_base_socket p)" "nice_address_is_valid (ut_server_addr p)"
    "\<forall>d\<in>set ds. sd_data d \<noteq> [] \<and> \<not> sd_reliable d"
  shows "\<exists>b cs. dequeue_loop ops p ds = Some (p\<lparr>ut_base_socket := b\<rparr>) \<and> ready b \<and>
    calls b = calls (ut_base_socket p) @ cs \<and> hands_over goes_to (ut_server_addr p) (map sd_data ds) cs"
  using assms
proof (induction ds arbitrary: p)
  case Nil
  then show ?case by (auto simp: hands_over_def intro: exI [of _ "ut_base_socket p"])
next
  case (Cons d ds)
  have ne: "sd_data d \<noteq> []" using Cons.prems(3) by simp
  obtain r b a res where s: "send_to_server ops p (sd_data d) False = Some (r, p\<lparr>ut_base_socket := b\<rparr>)"
      "ready b" "goes_to a (ut_server_addr p)"
      "calls b = calls (ut_base_socket p) @ [(Some a, sd_data d, res)]"
    using to_server_handed [OF Cons.prems(1,2) ne] by blast
  have "\<forall>d\<in>set ds. sd_data d \<noteq> [] \<and> \<not> sd_reliable d" using Cons.prems(3) by simp
  then obtain b' cs where t: "dequeue_loop ops (p\<lparr>ut_base_socket := b\<rparr>) ds = Some (p\<lparr>ut_base_socket := b'\<rparr>)"
    "ready b'" "calls b' = calls b @ cs" "hands_over goes_to (ut_server_addr p) (map sd_data ds) cs"
    using Cons.IH [of "p\<lparr>ut_base_socket := b\<rparr>", simplified, OF s(2) Cons.prems(2)] by blast
  have "dequeue_loop ops p (d # ds) = Some (p\<lparr>ut_base_socket := b'\<rparr>)"
    using s(1) t(1) Cons.prems(3) by simp
  then show ?case using t(2-4) s(3,4)
    by (intro exI [of _ b'] exI [of _ "(Some a, sd_data d, res) # cs"]) (simp add: hands_over_def)
qed

text \<open>
  A granted permission hands over what waits for it, in the order it came, and all of it; what the
  kernel then refuses is not kept.
\<close>

lemma granted_in_order:
  assumes "ready (ut_base_socket p)" "nice_address_is_valid (ut_server_addr p)"
    "nice_address_is_valid to" "lookup_queue (ut_send_data_queues p) to = Some ds"
    "\<forall>d\<in>set ds. sd_data d \<noteq> [] \<and> \<not> sd_reliable d"
  shows "\<exists>p' cs. permission_granted ops p to success k = Some p' \<and> ready (ut_base_socket p') \<and>
    priv_has_permission_for_peer p' to \<and>
    ut_send_data_queues p' = remove_queue (ut_send_data_queues p) to \<and>
    calls (ut_base_socket p') = calls (ut_base_socket p) @ cs \<and>
    hands_over goes_to (ut_server_addr p) (map sd_data ds) cs"
proof -
  define q where "q = (let p = priv_add_permission_for_peer (priv_remove_sent_permission_for_peer p to) to
    in if success \<and> ut_permission_timeout_source p = None then
         let (s, p) = priv_timeout_add_with_context p in p\<lparr>ut_permission_timeout_source := Some s\<rparr>
       else p)"
  have q: "ut_base_socket q = ut_base_socket p" "ut_server_addr q = ut_server_addr p"
    "ut_send_data_queues q = ut_send_data_queues p" "priv_has_permission_for_peer q to"
    using assms(3) by (auto simp: q_def Let_def priv_add_permission_for_peer_def
        priv_remove_sent_permission_for_peer_def priv_timeout_add_with_context_def
        priv_has_permission_for_peer_def priv_is_peer_in_list_def nice_address_dup_def address_equal_refl)
  have e: "permission_granted ops p to success k = do {
      p \<leftarrow> socket_dequeue_all_data ops q to;
      Some (p\<lparr>ut_pending_permissions := delete_link k (ut_pending_permissions p)\<rparr>) }"
    by (simp add: permission_granted_def q_def Let_def)
  obtain b cs where t: "dequeue_loop ops q ds = Some (q\<lparr>ut_base_socket := b\<rparr>)" "ready b"
    "calls b = calls (ut_base_socket p) @ cs" "hands_over goes_to (ut_server_addr p) (map sd_data ds) cs"
    using dequeue_in_order [of q ds] assms(1,2,5) q by auto
  show ?thesis using t q assms(4)
    by (intro exI) (auto simp: e socket_dequeue_all_data_def priv_has_permission_for_peer_def)
qed

end

section \<open>Channel numbers\<close>

text \<open>
  Every time the search goes on, another number is in use, so it goes on at most once for every
  binding.
\<close>

lemma of_nat_inj_u16: "i < 2 ^ 16 \<Longrightarrow> j < 2 ^ 16 \<Longrightarrow> (of_nat i :: u16) = of_nat j \<longleftrightarrow> i = j"
  by (simp add: word_of_nat_eq_iff take_bit_nat_eq_self)

lemma used_numbers:
  assumes "\<forall>j<k. c + of_nat j \<in> (cb_channel ` set channels :: u16 set)" "k \<le> 2 ^ 16"
  shows "k \<le> length channels"
proof -
  have "inj_on (\<lambda>j. c + of_nat j :: u16) {..<k}"
    using assms(2) by (auto simp: inj_on_def of_nat_inj_u16)
  then have "k = card ((\<lambda>j. c + of_nat j :: u16) ` {..<k})" by (simp add: card_image)
  also have "\<dots> \<le> card (cb_channel ` set channels)"
    using assms(1) by (intro card_mono) auto
  also have "\<dots> \<le> length channels"
    by (metis card_length length_map list.set_map)
  finally show ?thesis .
qed

lemma channel_loop_runs:
  assumes "ch = c + of_nat k" "\<forall>j<k. c + of_nat j \<in> cb_channel ` set channels"
    "set i \<subseteq> set channels" "length channels < 2 ^ 16"
  shows "\<exists>k'. channel_loop channels i ch = Some (c + of_nat k') \<and>
    (\<forall>j<k'. c + of_nat j \<in> cb_channel ` set channels) \<and>
    (k' = k \<and> ch \<notin> cb_channel ` set i \<or>
     k < k' \<and> c + of_nat k' \<notin> cb_channel ` set (tl channels))"
  using assms
proof (induction "length channels - k" arbitrary: k i ch rule: less_induct)
  case less
  note outer = less.hyps and prems = less.prems
  show ?case using prems(3)
  proof (induction i)
    case Nil
    then show ?case using prems by (subst channel_loop.simps) auto
  next
    case (Cons b i)
    show ?case
    proof (cases "ch = cb_channel b")
      case False
      then have e: "channel_loop channels (b # i) ch = channel_loop channels i ch"
        by (subst channel_loop.simps) simp
      obtain k' where "channel_loop channels i ch = Some (c + of_nat k')"
        "\<forall>j<k'. c + of_nat j \<in> cb_channel ` set channels"
        "k' = k \<and> ch \<notin> cb_channel ` set i \<or>
         k < k' \<and> c + of_nat k' \<notin> cb_channel ` set (tl channels)"
        using Cons by auto
      then show ?thesis using False e by (intro exI [of _ k']) auto
    next
      case True
      then have e: "channel_loop channels (b # i) ch = channel_loop channels (tl channels) (ch + 1)"
        by (subst channel_loop.simps) simp
      have u: "\<forall>j<Suc k. c + of_nat j \<in> cb_channel ` set channels"
        using prems(1,2) True [symmetric] Cons.prems by (auto simp: less_Suc_eq intro!: image_eqI [of _ _ b])
      have "Suc k \<le> 2 ^ 16"
      proof (rule ccontr)
        assume "\<not> Suc k \<le> 2 ^ 16"
        with u have "\<forall>j<2 ^ 16. c + of_nat j \<in> cb_channel ` set channels" by auto
        from used_numbers [OF this] prems(4) show False by simp
      qed
      then have "Suc k \<le> length channels" by (rule used_numbers [OF u])
      then have "length channels - Suc k < length channels - k" by simp
      moreover have "set (tl channels) \<subseteq> set channels" by (cases channels) auto
      moreover have "ch + 1 = c + of_nat (Suc k)" using prems(1) by simp
      ultimately have "\<exists>k'. channel_loop channels (tl channels) (ch + 1) = Some (c + of_nat k') \<and>
        (\<forall>j<k'. c + of_nat j \<in> cb_channel ` set channels) \<and>
        (k' = Suc k \<and> ch + 1 \<notin> cb_channel ` set (tl channels) \<or>
         Suc k < k' \<and> c + of_nat k' \<notin> cb_channel ` set (tl channels))"
        using outer [OF _ _ u _ prems(4)] by blast
      then
      obtain k' where "channel_loop channels (tl channels) (ch + 1) = Some (c + of_nat k')"
        "\<forall>j<k'. c + of_nat j \<in> cb_channel ` set channels"
        "k' = Suc k \<and> ch + 1 \<notin> cb_channel ` set (tl channels) \<or>
         Suc k < k' \<and> c + of_nat k' \<notin> cb_channel ` set (tl channels)"
        by blast
      then show ?thesis using e prems(1) by (intro exI [of _ k']) (auto simp: ac_simps)
    qed
  qed
qed

lemma channel_number_found:
  assumes "length channels < 0x8000"
  shows "\<exists>c. channel_loop channels channels 0x4000 = Some c \<and>
    0x4000 \<le> unat c \<and> unat c \<le> 0x4000 + length channels \<and>
    ((\<forall>b\<in>set channels. cb_channel (hd channels) \<le> cb_channel b) \<longrightarrow> c \<notin> cb_channel ` set channels)"
proof -
  obtain k where k: "channel_loop channels channels 0x4000 = Some (0x4000 + of_nat k)"
    "\<forall>j<k. 0x4000 + of_nat j \<in> cb_channel ` set channels"
    "k = 0 \<and> 0x4000 \<notin> cb_channel ` set channels \<or>
     0 < k \<and> 0x4000 + of_nat k \<notin> cb_channel ` set (tl channels)"
    using channel_loop_runs [of "0x4000" "0x4000" 0 channels channels] assms by auto
  have "k \<le> length channels"
  proof (cases "k \<le> 2 ^ 16")
    case False
    then have "\<forall>j<2 ^ 16. 0x4000 + of_nat j \<in> cb_channel ` set channels" using k(2) by auto
    from used_numbers [OF this] assms show ?thesis by simp
  qed (rule used_numbers [OF k(2)])
  moreover have u: "unat (0x4000 + of_nat k :: u16) = 0x4000 + k"
  proof -
    have "(0x4000 + of_nat k :: u16) = of_nat (0x4000 + k)" by simp
    then show ?thesis using calculation assms
      by (simp only:) (simp add: unsigned_of_nat take_bit_nat_eq_self del: of_nat_add)
  qed
  moreover have "0x4000 + of_nat k \<notin> cb_channel ` set channels"
    if m: "\<forall>b\<in>set channels. cb_channel (hd channels) \<le> cb_channel b"
  proof
    assume c: "0x4000 + of_nat k \<in> cb_channel ` set channels"
    then have p: "0 < k" "0x4000 + of_nat k \<notin> cb_channel ` set (tl channels)" using k(3) by auto
    then have h: "0x4000 + of_nat k = cb_channel (hd channels)" using c by (cases channels) auto
    have "0x4000 \<in> cb_channel ` set channels" using k(2) p(1) by force
    then have "cb_channel (hd channels) \<le> 0x4000" using m by auto
    then show False using h u p(1) by (simp add: word_le_nat_alt)
  qed
  ultimately show ?thesis using k(1) by (intro exI [of _ "0x4000 + of_nat k"]) simp
qed

section \<open>What the parser gives\<close>

lemma recv_channel_peer:
  "recv_channel_loop c bs buf off n = Some (Some (b, l, o')) \<Longrightarrow> b \<in> set bs"
  by (induction bs) (auto split: if_splits bind_splits)

lemma turn_recv_plain_cases:
  assumes "turn_recv_plain p recv_from buf len off n = Some r"
  shows "(\<exists>b\<in>set (ut_channels p). \<exists>d. r = Turn_Payload d (cb_peer b) True \<and> length d \<le> len) \<or>
    r = Turn_Payload (take (min len n) (drop off buf)) recv_from False"
proof -
  obtain x where x: "recv_channel_loop (ut_compatibility p) (ut_channels p) buf off n = Some x"
    using assms by (auto simp: turn_recv_plain_def split: bind_splits)
  show ?thesis
  proof (cases x)
    case None
    then show ?thesis using assms x by (auto simp: turn_recv_plain_def rdn_def split: if_splits)
  next
    case (Some y)
    obtain b l o' where y: "y = (b, l, o')" by (cases y)
    then show ?thesis using assms x Some recv_channel_peer [of _ _ _ _ _ b l o']
      by (auto simp: turn_recv_plain_def split: bind_splits dest!: rdn_length)
  qed
qed

lemma stranger_recv:
  assumes "\<not> nice_address_equal (ut_server_addr p) recv_from"
    and "nice_udp_turn_socket_parse_recv env ops p recv_from buf len = Some (r, q)"
  shows "q = p \<and> turn_recv_plain p recv_from buf len
      (if nice_socket_is_reliable ops (ut_base_socket p) then 2 else 0)
      (len - (if nice_socket_is_reliable ops (ut_base_socket p) then 2 else 0)) = Some r"
  using assms by (auto simp: nice_udp_turn_socket_parse_recv_def Let_def split: bind_splits if_splits)

lemma responses_give_no_data:
  "turn_send_response p msg = Some (Turn_Return r, q) \<Longrightarrow> r = Turn_Control"
  "turn_active_dst_response p msg = Some (Turn_Return r, q) \<Longrightarrow> r = Turn_Control"
  "turn_channel_response env ops p msg = Some (Turn_Return r, q) \<Longrightarrow> r = Turn_Control"
  "turn_permission_response env ops p msg = Some (Turn_Return r, q) \<Longrightarrow> r = Turn_Control"
  by (auto simp: turn_send_response_def turn_active_dst_response_def turn_channel_response_def
      turn_permission_response_def Let_def split: bind_splits option.splits if_splits prod.splits)

lemma data_indication_fits:
  "turn_data_indication env ops p msg len = Some (Turn_Return r, q) \<Longrightarrow>
     \<exists>d peer. r = Turn_Payload d peer True \<and> length d \<le> len"
  by (auto simp: turn_data_indication_def dest!: rdn_length
      split: bind_splits option.splits if_splits prod.splits)

lemma server_message_fits:
  assumes "turn_server_message env ops p msg len = Some (Turn_Return r, q)"
  shows "length (turn_parsed_data r) \<le> len"
  using assms by (auto simp: turn_server_message_def turn_parsed_data_def
      dest!: responses_give_no_data data_indication_fits split: bind_splits if_splits)

lemma parsed_fits:
  assumes "nice_udp_turn_socket_parse_recv env ops p recv_from buf len = Some (r, q)"
  shows "length (turn_parsed_data r) \<le> len"
proof -
  have plain: "length (turn_parsed_data x) \<le> len"
    if "turn_recv_plain p' recv_from buf len off n = Some x" for p' :: "'a udp_turn_priv" and off n x
    using turn_recv_plain_cases [OF that] by (auto simp: turn_parsed_data_def)
  show ?thesis using assms
    by (auto simp: nice_udp_turn_socket_parse_recv_def Let_def turn_parsed_data_def [of Turn_Control]
        split: bind_splits if_splits turn_goto.splits dest: plain server_message_fits)
qed

end
