(* ===== verification/Spec2Isabelle.thy ===== *)
theory Spec2Isabelle
  imports Stun_Authentic Stun_Timer Nice_Candidate Samples Tcp_Api Tcp_Samples Ice_Samples
    Sock_Frames Sock_Tunnels Sock_Turn_Facts
begin

unbundle bit_operations_syntax

text \<open>
  A verification library for libnice, the ICE library under \<open>src/jni/libnice\<close>. Modelled are the
  parts that carry its own protocol logic: the STUN message library, its agent and its usages
  (\<open>stun/\<close>), the connectivity checks, candidates and TURN allocations of the ICE agent
  (\<open>agent/conncheck.c\<close>, \<open>agent/discovery.c\<close>, and what they use of \<open>component.c\<close>, \<open>stream.c\<close>,
  \<open>agent.c\<close>, \<open>candidate.c\<close>, \<open>address.c\<close>), the reliable transport over datagrams
  (\<open>agent/pseudotcp.c\<close>), and the sockets the agent sends through (\<open>socket/\<close>).

  \<^bold>\<open>How the parts interact.\<close> A STUN message lives in a byte buffer; \<open>stunmessage.c\<close> builds and searches it
  in place. The STUN agent calls it to start, finish and validate messages, with the keyed
  digests of \<open>stunhmac.c\<close> (over \<open>sha1.c\<close> and \<open>md5.c\<close>) and the checksum of \<open>stuncrc32.c\<close>, and keeps
  the table of outstanding transactions. The usages put the requests of connectivity checks,
  allocations and binding discoveries together and read their responses. The ICE agent has a STUN
  agent in every component, discovery and refresh. Its discoveries yield local candidates; local and
  remote candidates are paired in the check list of their stream; a timer sends checks, packets
  from the network move pairs, components and the agent's role on, and the best nominated pair of
  a component is the selected one. The pseudo-TCP socket keeps a ring buffer for each
  direction; the packets it hands to its callback are the ones the peer's socket is notified of.
  Sockets are stacked: a TURN client may sit on UDP, or on the framing of TURN messages over a TCP
  connection, which may go through a pseudo SSL, SOCKS 5 or HTTP proxy handshake first.

  \<^bold>\<open>Conventions.\<close> A C integer is a word of its width, \<open>size_t\<close> is a natural number where the code
  only counts bytes of a buffer that exists. A buffer is a list of bytes; every access the code
  makes through a pointer is a checked access of the prelude (\<open>rd\<close>, \<open>wr\<close>, \<open>rdn\<close>, \<open>wrn\<close>), so that
  \<open>None\<close> is an access outside the buffer, a failed assertion, or other undefined behaviour, and a
  theorem that a function returns \<open>Some\<close> says that none of these happens. The code's own error
  returns are values. Random numbers, clocks, allocators, callbacks and the network are
  arguments. A loop over a buffer recurses on what is left of it with a termination proof.
  Some loops are \<open>partial_function\<close>s: \<open>send_loop\<close>, which need not end when the maximum
  segment size is zero (\<open>sending_ends\<close>: it ends in every state the send queue can be in otherwise);
  \<open>channel_loop\<close>, the search for a channel number (\<open>channel_number_bounds\<close>: it ends);
  \<open>pending_bindings_loop\<close> and \<open>permission_tick_loop\<close> of the TURN client; and \<open>first_free_label\<close>, whose loop has no bound (\<open>remote_label_found\<close>: it ends for
  every component with fewer than \<open>10 ^ 26\<close> remote candidates, whose labels the array can hold).
  The functions of the TURN client call each other through \<open>priv_schedule_tick\<close>, whose calls of itself
  are bounded by \<open>tick_depth\<close>: it is only called again for a request that has just been sent, whose
  timer is at its start, so the second call finds nothing due and 16 is more than enough.

  \<^bold>\<open>Theories.\<close>
  \<open>Prelude\<close>: checked memory, integers and their bytes, bit lemmas.
  \<open>Stun_Types\<close>, \<open>Stun_Utils\<close>, \<open>Stun_Header\<close>: the enumerations and records of \<open>stunmessage.h\<close> and
  \<open>stunagent.h\<close>, \<open>utils.c\<close>, and the header functions of \<open>stunmessage.c\<close>.
  \<open>Stun_Validate\<close>: \<open>stun_message_validate_buffer_length\<close> and its vectored form; what an accepted
  buffer looks like (\<open>validation_safe\<close>).
  \<open>Stun_Find\<close>, \<open>Stun_Append\<close>, \<open>Stun_Roundtrip\<close>: all finders and appenders; the finder as a lookup
  in the list of attributes (\<open>accessors_safe\<close>, \<open>find_is_lookup\<close>), appending with its error cases
  (\<open>append_cases\<close>, \<open>append_then_find\<close>), round trips of every kind of attribute, and that what is
  built is accepted (\<open>built_accepted\<close>).
  \<open>Stun_Crc32\<close>, \<open>Streaming\<close>, \<open>Sha1\<close>, \<open>Hmac_Sha1\<close>, \<open>Md5\<close>: checksum and digests, each equal to a
  reference definition, streaming included; the locale \<open>streaming\<close> of block digests is interpreted on
  both hash functions.
  \<open>Stun_Hmac\<close>: message integrity, long-term keys, fingerprint.
  \<open>Stun_Agent\<close>, \<open>Stun_Transactions\<close>, \<open>Stun_Auth\<close>, \<open>Stun_Authentic\<close>: \<open>stunagent.c\<close>; the table of
  saved transactions refines a multiset (\<open>finish_refines\<close>, \<open>validate_refines\<close>), its invariant and
  single use (\<open>response_accepted_once\<close>); a finished request is accepted by its receiver, an accepted one
  is authentic (\<open>finished_request_accepted\<close>, \<open>accepted_request_authentic\<close>).
  \<open>Stun_Exchange\<close>, \<open>Usage_Ice\<close>, \<open>Usage_Turn\<close>, \<open>Usage_Bind\<close>, \<open>Usage_Exchange\<close>, \<open>Usage_Safe\<close>: \<open>usages/ice.c\<close>,
  \<open>usages/turn.c\<close>, \<open>usages/bind.c\<close>; messages with several attributes, a connectivity check from
  request to answer (\<open>ice_check_answered\<close>, \<open>role_conflict_resolved\<close>), readers that never fault
  (\<open>usage_readers_safe\<close>), the blocking discovery.
  \<open>Stun_Timer\<close>: \<open>usages/timer.c\<close>.
  \<open>Nice_Address\<close>, \<open>Nice_Candidate\<close>: \<open>address.c\<close> and \<open>candidate.c\<close>.
  \<open>Ice_Types\<close>: the structures of the ICE agent and what \<open>component.c\<close>, \<open>stream.c\<close> and \<open>agent.c\<close> do
  with them; \<open>Ice_Checklist\<close>, \<open>Ice_Send\<close>: check lists, and the request of a check; \<open>Ice_Discovery\<close>:
  \<open>discovery.c\<close>, candidates; \<open>Ice_States\<close>: ticks, nomination, keepalives; \<open>Ice_Response\<close>: responses to
  checks; \<open>Ice_Turn\<close>: the discovery timer and its replies, allocations; \<open>Ice_Inbound\<close>: packets.
  \<open>Ice_Invariant\<close>: well-formedness of the agent and that every operation keeps it, by rules for
  \<open>yields\<close>, which says what holds of a result if there is one; \<open>Ice_Finish\<close>: the state in which the
  check timer stops; \<open>Ice_Facts\<close>, \<open>Ice_Safety\<close>, \<open>Ice_Delivery\<close>: check lists, labels, refused packets and
  spoofed responses, selection, and a check that reaches the peer.
  \<open>Tcp_Fifo\<close>: the ring buffer of \<open>pseudotcp.c\<close>; the locale \<open>offset_queue\<close> states the laws of a queue that
  can be written ahead of its end, and is interpreted on it (\<open>fifo_refines_queue\<close>).
  \<open>Tcp_Types\<close>, \<open>Tcp_Output\<close>, \<open>Tcp_Input\<close>, \<open>Tcp_Socket\<close>: the rest of \<open>pseudotcp.c\<close>: structure and state
  machine, sending, receiving, and the calls of the user.
  \<open>Tcp_Receive\<close>, \<open>Tcp_Delivery\<close>: the invariant of reassembly, progress, and delivery of a stream from
  segments in any order.
  \<open>Tcp_Send\<close>, \<open>Tcp_Api\<close>: the invariant of the send queue, termination of sending, acknowledgements,
  writing, options and closing.
  \<open>Sock_Base\<close>: messages of several buffers, the record of a socket's operations, send queues; the
  locales \<open>reliable_socket\<close> and \<open>byte_source\<close> state what a stacked socket relies on: a send always returns,
  and as long as nothing has gone wrong (\<open>good\<close>) it takes every message, in order.
  \<open>Sock_Tcp\<close>: \<open>tcp-bsd.c\<close>, which gives both for every kernel that keeps its contract: a send takes
  any first part of a message, or nothing, or fails (\<open>kernel_sends\<close>). The history of these calls is part of
  the kernel's state; nothing has gone wrong while it is \<open>harmless\<close>: no call has failed, and none was cut
  at an offset that \<open>nice_socket_queue_send_with_callback\<close> mishandles (\<open>queue_skip_loses\<close> shows one). After
  a failed send the code goes on without the bytes, so no order of the stream is claimed.
  \<open>Sock_Framing\<close>, \<open>Sock_Frames\<close>: \<open>udp-turn-over-tcp.c\<close>; a stream of framed messages is cut into these
  messages however it is read (\<open>turn_frames_arrive\<close>).
  \<open>Sock_Tunnel\<close>, \<open>Sock_Http\<close>, \<open>Sock_Tunnels\<close>: \<open>pseudossl.c\<close>, \<open>socks5.c\<close>, \<open>http.c\<close>; the locale \<open>tunnel\<close> is
  their common contract, interpreted on each (\<open>socks5_stream_in_order\<close>, \<open>http_stream_in_order\<close>).
  \<open>Sock_Drivers\<close>: \<open>udp-bsd.c\<close>, \<open>tcp-active.c\<close>, \<open>tcp-passive.c\<close>; the locales \<open>datagram_socket\<close> and
  \<open>open_socket\<close>, interpreted on UDP: a datagram goes out whole or not at all, and a socket that is ready
  hands every one to the kernel, which may refuse it; the history of these calls is recorded.
  \<open>Sock_Turn\<close>, \<open>Sock_Turn_Ops\<close>, \<open>Sock_Turn_Recv\<close>, \<open>Sock_Turn_Facts\<close>: \<open>udp-turn.c\<close>: state, permissions and
  queues; transactions and sending; receiving; and that data wait for their permission, arrive on
  their channel, and that only the server changes anything (\<open>data_waits_for_permission\<close>,
  \<open>channel_data_delivered\<close>, \<open>stranger_changes_nothing\<close>).
  \<open>Samples\<close>, \<open>Usage_Samples\<close>, \<open>Ice_Samples\<close>, \<open>Tcp_Samples\<close>: concrete messages, agents and sockets on
  which the theorems are used.

  \<^bold>\<open>Choices.\<close> A GLib list of segments that is also referenced from a second list is a list of
  records with identities, the second list a list of identities. In the same way the pairs,
  discoveries and refreshes of the ICE agent have identities, by which a step finds what it works on
  after the calls it has made; candidates are compared by identity where the code compares pointers.
  Sockets are handles into a table of the agent, and what the agent sends or signals is appended to its
  list of events. A timer is a flag; that it fires is an input. The stages of the long functions
  (\<open>process\<close>, \<open>transmit\<close>, \<open>stun_agent_validate\<close>, \<open>conn_check_handle_inbound_stun\<close>) are definitions
  of their own, composed in the order of the code, early returns included. User callbacks of the
  pseudo-TCP socket transform the socket, since they may call back into it; \<open>WritePacket\<close> changes the
  user's data only. Buffers of that socket are assumed to be at most 64 MiB, which the code asserts of
  every segment it sends. Of GLib the ICE agent's model takes as arguments \<open>g_slist_insert_sorted\<close>
  (\<open>inserts\<close>: it adds the element and, for every comparison, keeps a list that is sorted by it sorted),
  \<open>g_time_val_add\<close>, the base 64 functions and the clock; uninitialised variables hold what the environment says.

  \<^bold>\<open>Not modelled.\<close> The public interface of the agent (\<open>agent.c\<close>: GObject properties, adding and
  removing streams, gathering, media sockets and main contexts) and \<open>conn_check_remote_candidates_set\<close>,
  which it calls; I/O callbacks and socket sources of \<open>component.c\<close>; opening, closing and main
  contexts of the sockets under \<open>socket/\<close>, whose calls of GIO are arguments; the ICE agent's model has
  sockets of its own, as it sees only what it asks of them; the stream adaptors; textual addresses
  (they go through \<open>inet_ntop\<close> and \<open>getaddrinfo\<close>); random numbers; debug output; tests, tools,
  GStreamer elements and bindings.
\<close>

section \<open>Messages from the network\<close>

text \<open>C1. Validation is memory safe: on any sequence of bytes whatsoever,
  \<open>stun_message_validate_buffer_length\<close> returns, without an access outside of them, one of three
  answers: invalid, incomplete, or the exact length of the message, and in the last case the
  message lies inside the buffer and its two leading bits are zero.\<close>

theorem validation_safe:
  "\<exists>r. stun_message_validate_buffer_length m (length m) p = Some r \<and>
    (r = STUN_MESSAGE_BUFFER_INVALID \<or> r = STUN_MESSAGE_BUFFER_INCOMPLETE \<or>
     r = int (len_field m + 20) \<and> len_field m + 20 \<le> length m \<and> drop_bit 6 (m ! 0) = 0)"
proof -
  obtain r where r: "stun_message_validate_buffer_length m (length m) p = Some r"
    using validate_buffer_length_safe by blast
  show ?thesis
  proof (cases "0 < r")
    case True
    then show ?thesis using r validate_buffer_length_positive(1-3) [OF r] by auto
  next
    case False
    with r have "r = -1 \<or> r = 0"
      unfolding validate_buffer_length_eq by (auto split: if_splits bind_splits)
    with r show ?thesis by auto
  qed
qed

text \<open>C2. Every accessor is memory safe on a message that validation accepted, whatever its
  attributes hold: lookups of flags, integers, strings, plain and XORed addresses and error codes
  all return a result, and an error code that is returned is between 300 and 699.\<close>

theorem accessors_safe:
  assumes "validated msg" and "length buf = buflen" and "addrlen \<le> sizeof_sockaddr_storage"
  shows "stun_message_find msg t \<noteq> None \<and> stun_message_has_attribute msg t \<noteq> None \<and>
    stun_message_find_flag msg t \<noteq> None \<and> stun_message_find32 msg t \<noteq> None \<and>
    stun_message_find64 msg t \<noteq> None \<and> stun_message_find_string msg t buf buflen \<noteq> None \<and>
    stun_message_find_addr msg t addrlen \<noteq> None \<and>
    stun_message_find_xor_addr_full msg t addrlen cookie \<noteq> None \<and>
    (\<exists>ret code. stun_message_find_error msg = Some (ret, code) \<and>
      (ret = STUN_MESSAGE_RETURN_SUCCESS \<longrightarrow> (case code of None \<Rightarrow> True | Some c \<Rightarrow> 300 \<le> c \<and> c \<le> 699)))"
  using val.lookup_total [OF assms(1)] has_attribute_safe [OF assms(1)] find_flag_safe [OF assms(1)]
    find32_safe [OF assms(1)] find64_safe [OF assms(1)] find_string_safe [OF assms(1,2)]
    find_addr_safe [OF assms(1,3)] find_xor_addr_full_safe [OF assms(1,3)]
    find_error_safe [OF assms(1)] find_error_range [of msg]
  by (fastforce split: option.splits)

theorem accessors_safe_witness:
  "validated sample_request \<and> stun_message_find64 sample_request STUN_ATTRIBUTE_USERNAME \<noteq> None"
  using accessors_safe [OF sample_request_validated, of "replicate 8 0" 8 128 STUN_ATTRIBUTE_USERNAME 0]
    sample_request_validated by simp

text \<open>C3. Looking an attribute up is a search in the list of attributes of the message: a
  validated message parses into such a list, every entry of which lies inside the buffer, and
  \<open>stun_message_find\<close> returns the first entry of the type, stopping at the attributes that end the
  search.\<close>

theorem find_is_lookup:
  assumes "validated msg"
  shows "\<exists>as. msg_attrs msg = Some as \<and>
    (\<forall>t. stun_message_find msg t = Some (lookup_attr (ms_swap (msg_agent msg) t) as)) \<and>
    list_all (\<lambda>(t, p, l). 24 \<le> p \<and> p + unat l \<le> length (buffer msg)) as"
  using validated_attrs [OF assms] find_msg_attrs by (auto simp: list_all_iff)

theorem find_is_lookup_witness:
  "\<exists>as. msg_attrs sample_request = Some as \<and>
    list_all (\<lambda>(t, p, l). 24 \<le> p \<and> p + unat l \<le> length (buffer sample_request)) as"
  using find_is_lookup [OF sample_request_validated] by blast

section \<open>Messages under construction\<close>

text \<open>Initialising a message writes a header that reads back: class, method and transaction
  id are those given, the length is that of the header, there are no attributes, and the
  message is one that can be sent.\<close>

theorem init_roundtrip:
  assumes "wf_message msg" and "length tid = 16" and "m < 2 ^ 12"
    and "c \<noteq> STUN_ERROR \<or> m \<noteq> STUN_CONNECT"
  shows "\<exists>msg'. stun_message_init msg c m tid = Some (True, msg') \<and> sendable msg' \<and>
    stun_message_get_class msg' = Some c \<and> stun_message_get_method msg' = Some m \<and>
    stun_message_id msg' = Some tid \<and> stun_message_length msg' = Some 20 \<and> msg_attrs msg' = Some []"
  using init_header [OF assms] by blast

theorem init_roundtrip_witness:
  "\<exists>msg'. stun_message_init sample_empty STUN_RESPONSE STUN_ALLOCATE (replicate 16 7) = Some (True, msg') \<and>
    stun_message_get_class msg' = Some STUN_RESPONSE \<and> stun_message_get_method msg' = Some STUN_ALLOCATE"
proof -
  have "wf_message sample_empty"
    using sample_empty_fields by (simp add: wf_message_def)
  from init_roundtrip [OF this, of "replicate 16 7" STUN_ALLOCATE STUN_RESPONSE] show ?thesis by auto
qed

text \<open>C4. Appending is total case by case: too little room for header and value leaves the
  message alone and reports it; room for header, value and padding stores the attribute; and
  in between, where the value fits but its padding does not, the padding is written past the
  end of the buffer.\<close>

theorem append_cases:
  assumes "built msg" and "buffer_len msg < 65536"
  shows "stun_message_append_bytes msg t data =
    (if buffer_len msg < msg_end msg + 4 + length data
     then Some (STUN_MESSAGE_RETURN_NOT_ENOUGH_SPACE, msg)
     else if msg_end msg + 4 + length data + append_pad msg (length data) \<le> buffer_len msg
     then Some (STUN_MESSAGE_RETURN_SUCCESS, msg\<lparr>buffer := append_bytes_buffer msg t data\<rparr>)
     else None)"
  using append_bytes_cases [OF assms] assms(2) by auto

theorem append_cases_witness:
  "stun_message_append_bytes sample_empty 0x0006 (replicate 77 0) =
    Some (STUN_MESSAGE_RETURN_NOT_ENOUGH_SPACE, sample_empty) \<and>
   stun_message_append_bytes (sample_empty\<lparr>buffer := take 25 (buffer sample_empty), buffer_len := 25\<rparr>)
     0x0006 [0] = None"
proof -
  let ?m = "sample_empty\<lparr>buffer := take 25 (buffer sample_empty), buffer_len := 25\<rparr>"
  have f: "len_field (buffer ?m) = 0" "length (buffer ?m) = 25"
    using sample_empty_fields by (simp_all add: len_field_def)
  then have b: "built ?m" by (simp add: built_def)
  have "append_pad ?m 1 = 3"
    by (simp add: append_pad_def no_aligned_def sample_empty_def conf_of_def has_flag_def
        sample_agent_facts stun_padding_eq)
  then show ?thesis
    using append_cases [OF sample_empty_built, of 6 "replicate 77 0"] append_cases [OF b, of 6 "[0]"] f
    by (simp add: msg_end_def sample_empty_fields)
qed

text \<open>C5. An appended attribute is found again with its value (followed by zero or more
  padding bytes only where the dialect counts padding in the length), every other attribute keeps
  its value, and the message stays well formed.\<close>

theorem append_then_find:
  assumes "built msg" and "room_for msg (length data)" and "open_for msg t"
  shows "\<exists>msg' pad. stun_message_append_bytes msg t data = Some (STUN_MESSAGE_RETURN_SUCCESS, msg') \<and>
    built msg' \<and> attr_value msg' t = Some (Some (data @ pad)) \<and>
    (no_aligned (msg_agent msg) \<or> stun_message_has_cookie msg = Some True \<longrightarrow> pad = []) \<and>
    (\<forall>t'. t' \<noteq> t \<longrightarrow> attr_value msg' t' = attr_value msg t')"
proof -
  let ?m = "msg\<lparr>buffer := append_bytes_buffer msg t data\<rparr>"
  have e: "stun_message_append_bytes msg t data = Some (STUN_MESSAGE_RETURN_SUCCESS, ?m)"
    by (rule append_bytes_eq [OF assms(1,2)])
  obtain as where "msg_attrs msg = Some as" using built_attrs [OF assms(1)] by blast
  with append_bytes_built(1) [OF assms(1,2)] have "built ?m" by blast
  with attr_value_append_same [OF assms e] attr_value_append_other(2) [OF assms(1,2) _ e] e
  show ?thesis by blast
qed

theorem append_then_find_witness:
  "\<exists>msg' pad. stun_message_append_bytes sample_empty 0x0006 [1, 2, 3] = Some (STUN_MESSAGE_RETURN_SUCCESS, msg') \<and>
    attr_value msg' 0x0006 = Some (Some ([1, 2, 3] @ pad))"
proof -
  have "room_for sample_empty (length [1, 2, 3 :: u8])" by (rule sample_empty_room) simp
  from append_then_find [OF sample_empty_built this sample_empty_open] show ?thesis by blast
qed

text \<open>Integers and flags round trip: the 32-bit value, the 64-bit value and the flag that
  are appended are the ones the finders return.\<close>

theorem integers_roundtrip:
  assumes "built msg" and "room_for msg 8" and "open_for msg t"
  shows "(\<exists>m. stun_message_append32 msg t v = Some (STUN_MESSAGE_RETURN_SUCCESS, m) \<and>
      stun_message_find32 m t = Some (STUN_MESSAGE_RETURN_SUCCESS, Some v)) \<and>
    (\<exists>m. stun_message_append64 msg t w = Some (STUN_MESSAGE_RETURN_SUCCESS, m) \<and>
      stun_message_find64 m t = Some (STUN_MESSAGE_RETURN_SUCCESS, Some w)) \<and>
    (\<exists>m. stun_message_append_flag msg t = Some (STUN_MESSAGE_RETURN_SUCCESS, m) \<and>
      stun_message_find_flag m t = Some STUN_MESSAGE_RETURN_SUCCESS)"
proof -
  have "room_for msg 4" "room_for msg 0" using assms(2) by (simp_all add: append_pad_multiple)
  with append32_find32 [OF assms(1) _ assms(3)] append64_find64 [OF assms]
    append_flag_find_flag [OF assms(1) _ assms(3)] show ?thesis by blast
qed

theorem integers_roundtrip_witness:
  "\<exists>m. stun_message_append32 sample_empty STUN_ATTRIBUTE_PRIORITY 0x6e0001ff = Some (STUN_MESSAGE_RETURN_SUCCESS, m) \<and>
    stun_message_find32 m STUN_ATTRIBUTE_PRIORITY = Some (STUN_MESSAGE_RETURN_SUCCESS, Some 0x6e0001ff)"
  using integers_roundtrip [OF sample_empty_built _ sample_empty_open] sample_empty_room [of 8] by fastforce

text \<open>Addresses round trip, plain and XORed with the cookie and the transaction id: what is
  appended for an IPv4 or IPv6 address is found again as the same address.\<close>

theorem address_roundtrip:
  assumes "built msg" and "room_for msg (length (addr_bytes a))" and "open_for msg t"
    and "plain_addr a" and "addr_size a \<le> n" and "n \<le> sizeof_sockaddr_storage"
  shows "(\<exists>m. stun_message_append_addr msg t a n = Some (STUN_MESSAGE_RETURN_SUCCESS, m) \<and>
      stun_message_find_addr m t n = Some (STUN_MESSAGE_RETURN_SUCCESS, Some a, addr_size a)) \<and>
    (\<exists>m. stun_message_append_xor_addr_full msg t a n cookie = Some (STUN_MESSAGE_RETURN_SUCCESS, m) \<and>
      stun_message_find_xor_addr_full m t n cookie =
        Some (STUN_MESSAGE_RETURN_SUCCESS, Some a, addr_size a))"
  using append_addr_find_addr [OF assms(1-5,5,6)] append_xor_addr_find_xor_addr [OF assms(1-6) assms(5,6)]
  by blast

theorem address_roundtrip_witness:
  "\<exists>m. stun_message_append_xor_addr_full sample_empty STUN_ATTRIBUTE_XOR_MAPPED_ADDRESS
      (AF_INET \<lparr>sin_port = 0x3930, sin_addr = 0x0100007f\<rparr>) 16 STUN_MAGIC_COOKIE =
      Some (STUN_MESSAGE_RETURN_SUCCESS, m) \<and>
    stun_message_find_xor_addr_full m STUN_ATTRIBUTE_XOR_MAPPED_ADDRESS 16 STUN_MAGIC_COOKIE =
      Some (STUN_MESSAGE_RETURN_SUCCESS, Some (AF_INET \<lparr>sin_port = 0x3930, sin_addr = 0x0100007f\<rparr>), 16)"
  using address_roundtrip [OF sample_empty_built _ sample_empty_open,
      of "AF_INET \<lparr>sin_port = 0x3930, sin_addr = 0x0100007f\<rparr>" 16] sample_empty_room [of 8]
  by fastforce

text \<open>Error codes round trip, with the class and number split the wire format has, for every
  code a STUN error can have.\<close>

theorem error_roundtrip:
  assumes "built msg" and "room_for msg (length (error_bytes code))"
    and "open_for msg STUN_ATTRIBUTE_ERROR_CODE" and "300 \<le> code" and "code < 700"
  shows "\<exists>m. stun_message_append_error msg code = Some (STUN_MESSAGE_RETURN_SUCCESS, m) \<and>
    stun_message_find_error m = Some (STUN_MESSAGE_RETURN_SUCCESS, Some code)"
  using append_error_find_error [OF assms] by blast

theorem error_roundtrip_witness:
  "\<exists>m. stun_message_append_error sample_empty 487 = Some (STUN_MESSAGE_RETURN_SUCCESS, m) \<and>
    stun_message_find_error m = Some (STUN_MESSAGE_RETURN_SUCCESS, Some 487)"
proof -
  have "length (error_bytes 487) \<le> 70" by code_simp
  from error_roundtrip [OF sample_empty_built sample_empty_room [OF this] sample_empty_open] show ?thesis
    by simp
qed

text \<open>C6. The library accepts what it builds: after any sequence of appends, the bytes of the
  message pass the library's own validation with exactly its length, and its attributes are the
  appended ones in order.\<close>

theorem built_accepted:
  assumes "sendable msg" and "buffer_len msg < 65536" and "append_all msg xs = Some msg'"
    and "msg_attrs msg = Some as"
  shows "stun_message_validate_buffer_length (take (msg_end msg') (buffer msg')) (msg_end msg')
      (\<not> no_aligned (msg_agent msg')) = Some (int (msg_end msg')) \<and>
    (\<exists>bs. msg_attrs msg' = Some (as @ bs) \<and> map fst bs = map (\<lambda>(t, d). ms_swap (msg_agent msg) t) xs)"
  using append_all_sendable [OF assms] sendable_accepted by blast

theorem built_accepted_witness:
  "\<exists>msg'. append_all sample_empty [(0x0006, [1, 2, 3, 4]), (0x8022, [5])] = Some msg' \<and>
    stun_message_validate_buffer_length (take (msg_end msg') (buffer msg')) (msg_end msg')
      (\<not> no_aligned (msg_agent msg')) = Some (int (msg_end msg'))"
proof -
  have "append_all sample_empty [(0x0006, [1, 2, 3, 4]), (0x8022, [5])] \<noteq> None" by code_simp
  then obtain msg' where m: "append_all sample_empty [(0x0006, [1, 2, 3, 4]), (0x8022, [5])] = Some msg'"
    by blast
  from built_accepted [OF sample_empty_sendable _ m sample_empty_attrs] m show ?thesis
    by (simp add: sample_empty_fields)
qed

section \<open>Checksums and digests\<close>

text \<open>C7. The table-driven CRC is the bit-by-bit CRC-32 of the reflected polynomial
  \<open>0xedb88320\<close>, computed over the concatenation of the pieces it is given; the table of 256
  entries is the one the polynomial defines.\<close>

theorem crc32_correct:
  "stun_crc32 data False = crc_ref (concat data) \<and>
   crc32_tab = map (\<lambda>i. crc_byte (of_nat i)) [0..<256]"
  using crc32_vector crc32_tab_eq by simp

text \<open>SHA-1 computed piece by piece is the SHA-1 of the whole: starting a context, feeding
  the message in pieces of any lengths and finishing gives the digest of FIPS 180, defined
  with the message schedule as a recurrence.\<close>

theorem sha1_streaming:
  assumes "length (concat ds) + 64 < 2 ^ 32"
  shows "do { ctx \<leftarrow> SHA1Update_vector (SHA1Init (replicate 64 g)) ds; SHA1Final ctx } =
    Some (sha1_digest (concat ds))"
proof -
  have "sha1_absorbed (SHA1Init (replicate 64 g)) []" by (rule sha1.absorbed_start)
  from SHA1Update_vector_absorbed [OF this assms] obtain ctx where
    "SHA1Update_vector (SHA1Init (replicate 64 g)) ds = Some ctx" "sha1_absorbed ctx (concat ds)" by auto
  then show ?thesis by (simp add: SHA1Final_digest)
qed

theorem sha1_streaming_witness:
  "do { ctx \<leftarrow> SHA1Update_vector (SHA1Init (replicate 64 0)) [[97], [98, 99]]; SHA1Final ctx } =
    Some (sha1_digest [97, 98, 99])"
  using sha1_streaming [of "[[97], [98, 99]]" 0] by simp

text \<open>C8. The SHA-1 compression function of \<open>sha1.c\<close> - eighty unrolled macro calls, in which the five
  variables change names from call to call and the schedule is kept in a ring of sixteen words - is
  the compression function of FIPS 180-4, stated on its own: eighty rounds on a tuple, the eighty-word
  schedule, the standard's functions and constants, the library's rotation.\<close>

theorem sha1_transform_fips:
  assumes "off + 64 \<le> length buf"
  shows "SHA1Transform st buf off = Some (sha1_compress st (take 64 (drop off buf)))"
  using assms by (intro SHA1Transform_compress) (simp add: rdn_def)

theorem sha1_transform_fips_witness:
  "SHA1Transform [1, 2, 3, 4, 5] (replicate 70 0xab) 3 = Some (sha1_compress [1, 2, 3, 4, 5] (replicate 64 0xab))"
  using sha1_transform_fips [of 3 "replicate 70 0xab" "[1, 2, 3, 4, 5]"] by simp

text \<open>MD5 computed with one update for each piece is the MD5 of RFC 1321 of the whole
  message, for the compression function given step by step in the code and the padding with a
  length that is kept in two 32-bit words.\<close>

theorem md5_streaming:
  assumes "length (a @ b) < 2 ^ 32"
  shows "do { ctx \<leftarrow> MD5Update (MD5Init (replicate 64 g)) a; ctx \<leftarrow> MD5Update ctx b; MD5Final ctx } =
    Some (md5_digest (a @ b))"
  using md5.digest_pieces [of "[a, b]" g] assms by (simp add: md5.updates.simps)

theorem md5_streaming_witness:
  "do { ctx \<leftarrow> MD5Update (MD5Init (replicate 64 0)) [97]; ctx \<leftarrow> MD5Update ctx [98, 99]; MD5Final ctx } =
    Some (md5_digest [97, 98, 99])"
  using md5_streaming [of "[97]" "[98, 99]" 0] by simp

text \<open>C9. The keyed digest over a vector of pieces is the HMAC of RFC 2104, keys longer than a
  block included.\<close>

theorem hmac_rfc2104:
  assumes "length stack = 64" and "length key + 64 < 2 ^ 32" and "length (concat pieces) + 64 < 2 ^ 32"
  shows "hmac_sha1_vector stack key pieces =
    (let k = (if length key > 64 then sha1_digest key else key)
     in Some (sha1_digest (xor_pad 0x5c k @ sha1_digest (xor_pad 0x36 k @ concat pieces))))"
  using hmac_sha1_vector_ref [OF assms] by (simp add: hmac_ref_def hmac_key_block_def Let_def)

theorem hmac_rfc2104_witness:
  "hmac_sha1_vector (replicate 64 0) (replicate 80 0xaa) [[1], [2, 3]] =
    Some (sha1_digest (xor_pad 0x5c (sha1_digest (replicate 80 0xaa)) @
      sha1_digest (xor_pad 0x36 (sha1_digest (replicate 80 0xaa)) @ [1, 2, 3])))"
  using hmac_rfc2104 [of "replicate 64 0" "replicate 80 0xaa" "[[1], [2, 3]]"] by (simp add: Let_def)

text \<open>The long-term key is the MD5 of user name, realm and password joined by colons, each
  with its surrounding quotes and trailing zeros removed.\<close>

theorem long_term_key:
  assumes "has_text rlm" "has_text usr" "has_text pwd"
    and "length rlm < 2 ^ 32" "length usr < 2 ^ 32" "length pwd < 2 ^ 32"
    and "length stack = 64"
  shows "stun_hash_creds stack (rlm, 0, length rlm) (usr, 0, length usr)
      (pwd, 0, length pwd) =
    Some (md5_digest (trim_ref usr @ [0x3a] @ trim_ref rlm @ [0x3a] @ trim_ref pwd))"
  using stun_hash_creds_md5 [of "(rlm, 0, length rlm)" rlm 0 "length rlm"
      "(usr, 0, length usr)" usr 0 "length usr"
      "(pwd, 0, length pwd)" pwd 0 "length pwd" stack] assms
  by simp

theorem long_term_key_witness:
  "stun_hash_creds (replicate 64 0) ([0x22, 114, 0x22], 0, 3) ([117], 0, 1) ([112, 0], 0, 2) =
    Some (md5_digest (trim_ref [117] @ [0x3a] @ trim_ref [0x22, 114, 0x22] @ [0x3a] @ trim_ref [112, 0]))"
proof -
  have "has_text [0x22, 114, 0x22]" "has_text [117]" "has_text [112, 0]" by (simp_all add: has_text_def)
  note h = this
  have l: "length [0x22, 114, 0x22 :: u8] = 3" "length [117 :: u8] = 1" "length [112, 0 :: u8] = 2"
    "length (replicate 64 (0 :: u8)) = 64" by simp_all
  show ?thesis by (rule long_term_key [OF h, of "replicate 64 0", unfolded l]) simp_all
qed

text \<open>A value that consists of quotes only, the empty one included, makes the trimming loop
  run past the end of the value.\<close>

theorem trim_overrun:
  assumes "set v \<subseteq> {0x22}"
  shows "trimmed_var (v, 0, length v) = None"
  by (rule trimmed_var_only_quotes [OF assms])

theorem trim_overrun_witness: "trimmed_var ([0x22, 0x22], 0, 2) = None \<and> trimmed_var ([], 0, 0) = None"
  using trim_overrun [of "[0x22, 0x22]"] trim_overrun [of "[]"] by (simp add: eval_nat_numeral)

section \<open>Message integrity\<close>

text \<open>C10. A request that one agent finishes with a short-term key is accepted by another agent
  of the same dialect whose validater knows that key for the user name: the integrity code and
  the fingerprint the sender computes are the ones the receiver expects, and the outcome is
  success unless the message has a mandatory attribute the receiver does not know.\<close>

theorem finished_request_accepted:
  assumes msg: "sendable msg" "room_to_protect msg" "msg_attrs msg = Some as" "unprotected as"
      "msg_agent msg = Some (conf_of a)" "msg_key msg = None" "\<not> long_term_valid msg"
      "stun_message_get_class msg = Some STUN_REQUEST"
      "attr_value msg STUN_ATTRIBUTE_USERNAME = Some (Some u)"
      "uses_cookie a \<longrightarrow> stun_message_has_cookie msg = Some True"
    and sender: "\<not> has_flag a STUN_AGENT_USAGE_LONG_TERM_CREDENTIALS"
      "\<exists>s \<in> set (sent_ids a). \<not> saved_valid s"
    and receiver: "speaks_same a b" "\<not> has_flag b STUN_AGENT_USAGE_LONG_TERM_CREDENTIALS"
      "\<not> has_flag b STUN_AGENT_USAGE_IGNORE_CREDENTIALS" "0 \<in> set (known_attributes b)"
      "knows (known_attributes b) STUN_ATTRIBUTE_MESSAGE_INTEGRITY"
    and key: "v None (Some u) = Some (Some k)" "k \<noteq> []" "length k + 64 < 2 ^ 32"
      "length (env_stack env) = 64"
  shows "\<exists>n msg' a' st m'. stun_agent_finish_message env a msg (Some k) = Some (n, msg', a') \<and>
    stun_agent_validate env b msg0 (take n (buffer msg')) n (Some v) = Some (st, m', b) \<and>
    msg_key m' = Some k \<and>
    st = (if all_known b as then STUN_VALIDATION_SUCCESS else STUN_VALIDATION_UNKNOWN_REQUEST_ATTRIBUTE)"
  by (rule finish_then_validate [where v = v, OF assms])

theorem finished_request_accepted_witness:
  "\<exists>n msg' a' st m'. stun_agent_finish_message sample_env sample_agent sample_request (Some [1, 2, 3, 4]) =
      Some (n, msg', a') \<and>
    stun_agent_validate sample_env sample_agent sample_empty (take n (buffer msg')) n (Some sample_validater) =
      Some (st, m', sample_agent) \<and> msg_key m' = Some [1, 2, 3, 4] \<and>
    st = (if all_known sample_agent [(0x0006, 24, 4)] then STUN_VALIDATION_SUCCESS
      else STUN_VALIDATION_UNKNOWN_REQUEST_ATTRIBUTE)"
proof (rule finished_request_accepted)
  show "unprotected [(0x0006, 24, 4)]" by (simp add: unprotected_def)
  show "msg_agent sample_request = Some (conf_of sample_agent)" "msg_key sample_request = None"
    "\<not> long_term_valid sample_request" by (simp_all add: sample_request_def)
  show "\<exists>s \<in> set (sent_ids sample_agent). \<not> saved_valid s"
    using sample_agent_facts(4,5) by (meson last_in_set)
  show "0 \<in> set (known_attributes sample_agent)" by (simp add: sample_agent_facts)
  show "knows (known_attributes sample_agent) STUN_ATTRIBUTE_MESSAGE_INTEGRITY"
    by (simp add: sample_agent_facts knows_def)
  show "length (env_stack sample_env) = 64" by (simp add: sample_env_def)
qed (simp_all add: sample_request_sendable sample_request_room sample_request_attrs
    sample_request_class sample_request_user sample_request_cookie sample_agent_flags sample_validater_def)

text \<open>C11. Only authentic requests are accepted: under short-term credentials, when validation
  accepts a request, the message carries a user name, the validater gave a key for it, and the
  twenty bytes of the integrity attribute are the HMAC of the message under that key. A validater
  that accepts has to set a key that is not empty, as \<open>stunagent.h:229-232\<close> asks of it.\<close>

theorem accepted_request_authentic:
  assumes val: "stun_agent_validate env b msg0 buf n (Some v) = Some (st, m', b')"
      "accepted_status st" "length buf = n"
    and m: "m = received_message b msg0 buf n" "stun_message_get_class m = Some STUN_REQUEST"
    and flags: "has_flag b STUN_AGENT_USAGE_SHORT_TERM_CREDENTIALS"
      "\<not> has_flag b STUN_AGENT_USAGE_LONG_TERM_CREDENTIALS"
      "\<not> has_flag b STUN_AGENT_USAGE_IGNORE_CREDENTIALS"
    and keys: "\<And>u a. v None u = Some a \<Longrightarrow> \<exists>k. a = Some k \<and> k \<noteq> [] \<and> length k + 64 < 2 ^ 32"
    and stack: "length (env_stack env) = 64"
  shows "\<exists>u k p l len. attr_value m STUN_ATTRIBUTE_USERNAME = Some (Some u) \<and>
    v None (Some u) = Some (Some k) \<and> msg_key m' = Some k \<and>
    stun_message_find m STUN_ATTRIBUTE_MESSAGE_INTEGRITY = Some (Some (p, l)) \<and>
    stun_message_length m = Some len \<and>
    rdn buf p 20 = Some (hmac_ref k (integrity_text buf (p + 20)
      (if compatibility b = STUN_COMPATIBILITY_WLM2009 then unat len - 20 else p)
      (compatibility b \<noteq> STUN_COMPATIBILITY_RFC5389)))"
  by (rule request_authentic [where v = v, OF assms])

theorem accepted_request_authentic_witness:
  "\<exists>n msg' a' k p l. stun_agent_finish_message sample_env sample_agent sample_request (Some [1, 2, 3, 4]) =
      Some (n, msg', a') \<and>
    stun_message_find (received_message sample_agent sample_empty (take n (buffer msg')) n)
      STUN_ATTRIBUTE_MESSAGE_INTEGRITY = Some (Some (p, l)) \<and>
    rdn (take n (buffer msg')) p 20 = Some (hmac_ref k (integrity_text (take n (buffer msg')) (p + 20) p False))"
proof -
  let ?p = "protected sample_agent sample_request [1, 2, 3, 4]"
  let ?m = "received_message sample_agent sample_empty (sent_bytes ?p) (msg_end ?p)"
  have un: "unprotected [(0x0006, 24, 4)]" by (simp add: unprotected_def)
  have ag: "msg_agent sample_request = Some (conf_of sample_agent)" by (simp add: sample_request_def)
  note P = protected_props [OF sample_request_sendable sample_request_room sample_request_attrs]
  have T: "stun_message_get_class ?m = Some STUN_REQUEST" "stun_message_has_cookie ?m = Some True"
    "attr_value ?m STUN_ATTRIBUTE_USERNAME = Some (Some [97, 98, 99, 100])"
    using protected_transfer [OF sample_request_sendable sample_request_room sample_request_attrs ag
        sample_agent_flags(5)] sample_request_class sample_request_cookie sample_request_user by simp_all
  have lt: "long_term_valid sample_request = False" by (simp add: sample_request_def)
  have free: "\<exists>s \<in> set (sent_ids sample_agent). \<not> saved_valid s"
    using sample_agent_facts(4,5) by (meson last_in_set)
  obtain a' where f: "stun_agent_finish_message sample_env sample_agent sample_request (Some [1, 2, 3, 4]) =
      Some (msg_end ?p, ?p\<lparr>msg_key := Some [1, 2, 3, 4]\<rparr>, a')"
    using finish_protects [OF sample_request_sendable sample_request_room sample_request_attrs _
        sample_agent_flags(1) lt, of "Some [1, 2, 3, 4]" "[1, 2, 3, 4]" sample_env STUN_REQUEST]
      sample_request_class free by (auto simp: sample_request_def sample_env_def)
  have v: "\<exists>st m'. stun_agent_validate sample_env sample_agent sample_empty (sent_bytes ?p) (msg_end ?p)
      (Some sample_validater) = Some (st, m', sample_agent) \<and> accepted_status st"
    using protected_request_accepted [OF sample_request_sendable sample_request_room
        sample_request_attrs un ag T(1) T(3), of sample_validater "[1, 2, 3, 4]" sample_env]
    by (simp add: sample_agent_flags sample_agent_facts T sample_validater_def sample_env_def knows_def
        accepted_status_def)
  have l: "length (sent_bytes ?p) = msg_end ?p"
    using P(1) by (simp add: sent_bytes_def sendable_def built_def msg_end_def)
  from v obtain st m' where vs: "stun_agent_validate sample_env sample_agent sample_empty (sent_bytes ?p)
      (msg_end ?p) (Some sample_validater) = Some (st, m', sample_agent)" "accepted_status st"
    by auto
  have "has_flag sample_agent STUN_AGENT_USAGE_SHORT_TERM_CREDENTIALS"
    by (simp add: has_flag_def sample_agent_facts)
  from accepted_request_authentic [OF vs l refl T(1) this sample_agent_flags(1,2)]
  show ?thesis
    using f by (fastforce simp: sample_validater_def sample_env_def sample_agent_facts sent_bytes_def)
qed

section \<open>Connectivity checks between two agents\<close>

text \<open>C12. A connectivity check is answered. For every dialect with role attributes, every user name,
  key, priority, tie breaker and source address: the check one agent builds is accepted by the other
  one, which reads the priority and the nomination it was sent; when the roles differ, or
  the answering side has the smaller tie breaker and so gives way, the response it builds is accepted
  by the first agent, which reads from it the very address the check came from, and afterwards the two
  have opposite roles.\<close>

theorem ice_check_answered:
  assumes "ready_to_check env rid buf v s a b"
    and "ck_control s \<noteq> ck_controlling s \<or> ck_answer_tie s < ck_tie s"
  shows "\<exists>r. conncheck_exchange env rid msg0 buf v s a b = Some r \<and>
    out_priority r = ck_priority s \<and> out_use r = ck_use s \<and>
    out_reply r = (if ck_control s = ck_controlling s then STUN_USAGE_ICE_RETURN_ROLE_CONFLICT
      else STUN_USAGE_ICE_RETURN_SUCCESS) \<and>
    out_control r = (\<not> ck_controlling s) \<and> out_result r = STUN_USAGE_ICE_RETURN_SUCCESS \<and>
    out_mapped r = Some (ck_source s)"
  by (rule exchange_response [OF assms])

theorem ice_check_answered_witness:
  "\<exists>r. conncheck_exchange sample_env (replicate 16 9) sample_empty (replicate 600 0) sample_validater
      (sample_check False 3) sample_conn_agent sample_conn_agent = Some r \<and>
    out_priority r = 0x6e0001ff \<and> out_result r = STUN_USAGE_ICE_RETURN_SUCCESS \<and>
    out_mapped r = Some sample_source"
  using ice_check_answered [OF sample_ready, of False 3 sample_empty] by (auto simp: sample_check_def)

text \<open>A role conflict is resolved by exactly one side: when both agents claim the same role, the
  answering one switches if its tie breaker is the smaller one, and otherwise it keeps its role and the
  checking agent is told to switch. Never both, never neither.\<close>

theorem role_conflict_resolved:
  assumes "ready_to_check env rid buf v s a b" and "ck_control s = ck_controlling s"
  shows "\<exists>r. conncheck_exchange env rid msg0 buf v s a b = Some r \<and>
    (out_control r \<noteq> ck_control s \<longleftrightarrow> ck_answer_tie s < ck_tie s) \<and>
    (out_result r = STUN_USAGE_ICE_RETURN_ROLE_CONFLICT \<longleftrightarrow> \<not> ck_answer_tie s < ck_tie s)"
proof (cases "ck_answer_tie s < ck_tie s")
  case True
  with exchange_response [OF assms(1), of msg0] assms(2) show ?thesis by auto
next
  case False
  with exchange_conflict [OF assms, of msg0] show ?thesis by auto
qed

theorem role_conflict_resolved_witness:
  "(\<exists>r. conncheck_exchange sample_env (replicate 16 9) sample_empty (replicate 600 0) sample_validater
      (sample_check True 3) sample_conn_agent sample_conn_agent = Some r \<and> \<not> out_control r) \<and>
   (\<exists>r. conncheck_exchange sample_env (replicate 16 9) sample_empty (replicate 600 0) sample_validater
      (sample_check True 9) sample_conn_agent sample_conn_agent = Some r \<and>
      out_result r = STUN_USAGE_ICE_RETURN_ROLE_CONFLICT)"
  using role_conflict_resolved [OF sample_ready, of True 3 sample_empty]
    role_conflict_resolved [OF sample_ready, of True 9 sample_empty] by (auto simp: sample_check_def)

section \<open>Responses of servers\<close>

text \<open>C13. The readers of the usages are memory safe: on every message that validation accepts,
  whatever its attributes hold, the ICE, TURN, refresh and binding readers return, for every dialect and
  for address buffers of any length up to the size of the storage.\<close>

theorem usage_readers_safe:
  assumes "validated msg" and "n \<le> sizeof_sockaddr_storage" and "m \<le> sizeof_sockaddr_storage"
  shows "stun_usage_ice_conncheck_process msg n d \<noteq> None \<and> stun_usage_ice_conncheck_priority msg \<noteq> None \<and>
    stun_usage_ice_conncheck_use_candidate msg \<noteq> None \<and>
    stun_usage_turn_process msg n m (Some n) t \<noteq> None \<and> stun_usage_turn_process msg n m None t \<noteq> None \<and>
    stun_usage_turn_refresh_process msg t \<noteq> None \<and>
    stun_usage_bind_process msg n (Some m) \<noteq> None \<and> stun_usage_bind_process msg n None \<noteq> None"
  using ice_process_safe [OF assms(1,2), of d] ice_fields_safe [OF assms(1)]
    turn_process_safe(1) [OF assms, of "Some n" t] turn_process_safe(1) [OF assms, of None t]
    turn_process_safe(2) [OF assms(1,2,2), of None t] bind_process_safe [OF assms(1,2), of "Some m"]
    bind_process_safe [OF assms(1,2), of None] assms(2,3) by auto

theorem usage_readers_safe_witness:
  "stun_usage_ice_conncheck_process sample_request 28 STUN_USAGE_ICE_COMPATIBILITY_MSN \<noteq> None \<and>
   stun_usage_turn_process sample_request 28 16 (Some 28) STUN_USAGE_TURN_COMPATIBILITY_OC2007 \<noteq> None"
  using usage_readers_safe [OF sample_request_validated, of 28 16] by simp

text \<open>The blocking binding discovery never faults, whatever packets arrive, in whatever order with
  timeouts and failures of the socket. Its socket is a leak: whenever it returns anything but an error,
  and whenever it is still waiting, the descriptor it has created last is open.\<close>

theorem discovery_never_faults:
  assumes "length rid = 16" and "length buf = STUN_MAX_MESSAGE_SIZE" and "addrlen \<le> sizeof_sockaddr_storage"
  shows "\<exists>r s. stun_usage_bind_run env rid agent0 msg0 buf tr0 srv srvlen addrlen fd sent start evs = Some (r, s) \<and>
    (r = Some STUN_USAGE_BIND_RETURN_ERROR \<or> bs_open s = [tr_fd (bs_trans s)])"
  by (rule bind_run_ok [OF assms])

theorem discovery_never_faults_witness:
  "\<exists>r s. stun_usage_bind_run sample_env (replicate 16 9) bind_agent0 sample_empty
      (replicate STUN_MAX_MESSAGE_SIZE 0) sample_transport sample_source 16 128 3 20 \<lparr>tv_sec = 0, tv_usec = 0\<rparr>
      [sample_event (Some [1, 2, 3]) 0, sample_event (Some bind_answer) 0] = Some (r, s) \<and>
    (r = Some STUN_USAGE_BIND_RETURN_ERROR \<or> bs_open s = [tr_fd (bs_trans s)])"
proof -
  have "length (replicate STUN_MAX_MESSAGE_SIZE 0 :: bytes) = STUN_MAX_MESSAGE_SIZE" by (rule length_replicate)
  from discovery_never_faults [OF _ this] show ?thesis by simp
qed

text \<open>An unanswered discovery ends: when nothing arrives and every round finds the clock past the last
  deadline, four rounds are enough, the request has been sent exactly four times, and the answer is
  the timeout.\<close>

theorem unanswered_discovery_times_out:
  assumes "length rid = 16" and "length buf = STUN_MAX_MESSAGE_SIZE" and "fd \<noteq> -1" and "-1 \<le> sent"
    and "sizeof_sockaddr \<le> srvlen" and "srvlen \<le> sizeof_sockaddr_storage" and "in_range start"
    and "4 \<le> length evs" and "list_all (\<lambda>e. silent e \<and> tv_sec start + 10 < tv_sec (ev_clock e)) evs"
  shows "\<exists>s. stun_usage_bind_run env rid agent0 msg0 buf tr0 srv srvlen addrlen fd sent start evs =
      Some (Some STUN_USAGE_BIND_RETURN_TIMEOUT, s) \<and> length (bs_sent s) = 4"
  by (rule unanswered_run [OF assms])

theorem unanswered_discovery_times_out_witness:
  "\<exists>s. stun_usage_bind_run sample_env (replicate 16 9) bind_agent0 sample_empty
      (replicate STUN_MAX_MESSAGE_SIZE 0) sample_transport sample_source 16 128 3 20 \<lparr>tv_sec = 0, tv_usec = 0\<rparr>
      (replicate 5 (sample_event None 30)) = Some (Some STUN_USAGE_BIND_RETURN_TIMEOUT, s) \<and> length (bs_sent s) = 4"
proof -
  have l: "length (replicate STUN_MAX_MESSAGE_SIZE 0 :: bytes) = STUN_MAX_MESSAGE_SIZE" by (rule length_replicate)
  show ?thesis
    by (rule unanswered_discovery_times_out [OF _ l]) (simp_all add: in_range_def silent_def sample_event_def list_all_iff)
qed

text \<open>A redirected discovery cannot succeed: the first response uses up the only transaction, so
  the request that is sent on to the alternate server has none left and its response is unmatched. In a
  discovery that succeeds, every packet was sent to the first server.\<close>

theorem redirected_discovery_fails:
  assumes "stun_usage_bind_run env rid agent0 msg0 buf tr0 srv srvlen addrlen fd sent start evs =
      Some (Some STUN_USAGE_BIND_RETURN_SUCCESS, s)"
  shows "\<forall>x \<in> set (bs_sent s). fst x = Some srv"
  by (rule run_success_direct [OF assms])

theorem redirected_discovery_fails_witness:
  "\<exists>s. stun_usage_bind_run sample_env (replicate 16 9) bind_agent0 sample_empty (replicate 20 0)
     sample_transport sample_source 16 128 3 20 \<lparr>tv_sec = 0, tv_usec = 0\<rparr> [sample_event (Some bind_answer) 0] =
       Some (Some STUN_USAGE_BIND_RETURN_SUCCESS, s) \<and> (\<forall>x \<in> set (bs_sent s). fst x = Some sample_source)"
  using sample_run redirected_discovery_fails by blast


section \<open>Connectivity checks\<close>

text \<open>C14. Whatever happens to an agent, in whatever order - ticks of its timers (checks, keepalives, discovery,
  refreshes, and the retransmissions of keepalives and refreshes), packets from anywhere, new local
  candidates, nominations, sockets that close - its streams stay well formed: identities are unique,
  every pair belongs to its stream and to one of its components, and has the priority that the pair's
  candidates and the agent's current role give, also after a role switch. No stream or component
  appears or disappears.\<close>

theorem ice_agent_stays_well_formed:
  assumes "inserts env" and "agent_ok a" and "ice_inputs env xs a = Some b"
  shows "agent_ok b \<and> component_ids b = component_ids a"
  using yieldsD [OF inputs_keep [OF assms(1,2)] assms(3)] .

theorem ice_agent_stays_well_formed_witness:
  "\<exists>b. ice_inputs ex_env [Local_candidate 1 1 (ex_candidate 5 300), Keepalive_tick] (ex_one NICE_CHECK_WAITING) = Some b \<and>
     agent_ok b \<and> component_ids b = [(1, 1)]"
proof -
  have "ice_inputs ex_env [Local_candidate 1 1 (ex_candidate 5 300), Keepalive_tick] (ex_one NICE_CHECK_WAITING) \<noteq> None"
    by code_simp
  then obtain b where "ice_inputs ex_env [Local_candidate 1 1 (ex_candidate 5 300), Keepalive_tick]
      (ex_one NICE_CHECK_WAITING) = Some b" by blast
  moreover have "component_ids (ex_one NICE_CHECK_WAITING) = [(1, 1)]"
    by (simp add: component_ids_def ex_agent_def ex_stream_def ex_component_def)
  ultimately show ?thesis using ice_agent_stays_well_formed [OF ex_env_ok(1) ex_one_ok(1)] by (metis (no_types))
qed

text \<open>C15. Both sides agree on the order of checks: after any two runs, one of each agent, if the agents are in
  opposite roles, a pair on one side and the pair of the same two candidates on the other have the
  same priority.\<close>

theorem roles_agree_on_priorities:
  assumes "inserts env" "agent_ok a0" "ice_inputs env xs a0 = Some a"
    and "inserts env'" "agent_ok b0" "ice_inputs env' ys b0 = Some b"
    and "ag_controlling b = (\<not> ag_controlling a)"
    and "agent_find_stream a sid = Some s" "p \<in> set (strm_checks s)"
    and "agent_find_stream b sid' = Some t" "q \<in> set (strm_checks t)"
    and "priority (pair_local q) = priority (pair_remote p)" "priority (pair_remote q) = priority (pair_local p)"
  shows "pair_priority q = pair_priority p"
proof -
  have "agent_ok a" "agent_ok b"
    using yieldsD [OF inputs_keep [OF assms(1,2)] assms(3)] yieldsD [OF inputs_keep [OF assms(4,5)] assms(6)] by auto
  from agent_ok_priority [OF this(1) assms(8,9)] agent_ok_priority [OF this(2) assms(10,11)] assms(7,12,13)
  show ?thesis by (auto simp: agent_candidate_pair_priority_def)
qed

theorem roles_agree_on_priorities_witness:
  "let p = ex_pair 3 NICE_CHECK_WAITING;
       q = p\<lparr>pair_local := pair_remote p, pair_remote := pair_local p\<rparr> in pair_priority q = pair_priority p"
proof -
  let ?p = "ex_pair 3 NICE_CHECK_WAITING"
  let ?q = "?p\<lparr>pair_local := pair_remote ?p, pair_remote := pair_local ?p\<rparr>"
  let ?t = "ex_stream (ex_component [ex_candidate 2 100] [ex_candidate 3 200]) [?q] [67, 68] [65, 66]"
  let ?b = "ex_agent NICE_COMPATIBILITY_RFC5245 False [?t]"
  have b: "agent_ok ?b" by (simp add: agent_ok_def stream_ok_def ex_defs)
  have "agent_find_stream ?b 1 = Some ?t" by (simp add: agent_find_stream_def ex_agent_def ex_stream_def)
  from roles_agree_on_priorities [OF ex_env_ok(1) ex_one_ok(1) ice_inputs.simps(1) ex_env_ok(1) b
      ice_inputs.simps(1) _ ex_one_found(1) _ this]
  have "pair_priority ?q = pair_priority ?p" by (auto simp: ex_agent_def ex_stream_def ex_pair_def)
  then show ?thesis by (simp only: Let_def)
qed

text \<open>C16. A check list is kept in order and within its limit: the comparison of the code puts higher priorities
  first, and the list it is given is in that order, so adding a pair puts it at its place by its priority and
  leaves the list sorted by priority. In the RFC 5245 dialect what is not cancelled afterwards is the
  beginning, up to the limit, of what was not cancelled with the new pair in it; in the other dialects, which
  have no limit, nothing is cancelled. Of \<open>g_slist_insert_sorted\<close> only what GLib documents for every
  comparison is used.\<close>

theorem checks_in_order:
  assumes "inserts env" and "agent_find_stream a sid = Some s" and "by_priority (strm_checks s)"
    and "priv_add_new_check_pair env sid cid l r st n a = Some b"
  shows "\<exists>t p ps. agent_find_stream b sid = Some t \<and> by_priority (strm_checks t) \<and>
    pair_local p = l \<and> pair_remote p = r \<and> pair_priority p = agent_candidate_pair_priority a l r \<and>
    pair_state p = st \<and> mset ps = add_mset p (mset (strm_checks s)) \<and> by_priority ps \<and>
    (if ag_compat a = NICE_COMPATIBILITY_RFC5245
     then filter live (strm_checks t) = take (ag_max_checks a) (filter live ps) else strm_checks t = ps)"
  by (rule add_in_order [OF assms])

theorem checks_in_order_witness:
  "\<exists>b t. priv_add_new_check_pair ex_env 1 1 (ex_candidate 3 200) (ex_candidate 4 400) NICE_CHECK_FROZEN False
      (ex_one NICE_CHECK_WAITING) = Some b \<and> agent_find_stream b 1 = Some t \<and> by_priority (strm_checks t)"
proof -
  obtain b where b: "priv_add_new_check_pair ex_env 1 1 (ex_candidate 3 200) (ex_candidate 4 400) NICE_CHECK_FROZEN False
      (ex_one NICE_CHECK_WAITING) = Some b"
    using ex_one_found(1) [of NICE_CHECK_WAITING] by (simp add: priv_add_new_check_pair_def Let_def)
  from checks_in_order [OF ex_env_ok(1) ex_one_found(1) _ b] b show ?thesis
    by (auto simp: by_priority_def ex_stream_def)
qed

text \<open>C17. When the check timer stops there is nothing left to check: in every stream no pair is waiting
  or in progress, and a pair that is still frozen has priority zero.\<close>

theorem checks_finished:
  assumes "agent_ok a" and "priv_conn_check_tick_unlocked env a = Some (False, b)"
  shows "list_all (\<lambda>s. list_all (\<lambda>p. pair_state p \<noteq> NICE_CHECK_WAITING \<and> pair_state p \<noteq> NICE_CHECK_IN_PROGRESS \<and>
      (pair_state p = NICE_CHECK_FROZEN \<longrightarrow> pair_priority p = 0)) (strm_checks s)) (ag_streams b) \<and>
    \<not> ag_check_timer b"
  using checks_end [OF assms] by (auto simp: all_pairs_def calm_def list_all_iff)

theorem checks_finished_witness:
  "\<exists>b. priv_conn_check_tick_unlocked ex_env (ex_one NICE_CHECK_FAILED) = Some (False, b) \<and> \<not> ag_check_timer b"
proof -
  have "map_option fst (priv_conn_check_tick_unlocked ex_env (ex_one NICE_CHECK_FAILED)) = Some False" by code_simp
  then obtain b where b: "priv_conn_check_tick_unlocked ex_env (ex_one NICE_CHECK_FAILED) = Some (False, b)" by auto
  from checks_finished [OF ex_one_ok(1) this] b show ?thesis by blast
qed

text \<open>C18. The check list makes a component ready - in \<open>priv_update_check_list_state_for_ready\<close>, the only place of
  \<open>conncheck.c\<close> that does - exactly when the component has a nominated pair that is valid and no check in
  progress that could still give a pair of at least the priority of all of these; then none of its pairs is
  frozen, waiting or in progress any more. Otherwise the state of the component stays as it is. (The
  application can make a component ready without this, by choosing a pair itself, \<open>agent.c:5052\<close> and
  \<open>5230\<close>: that frees the check list and is not part of this property.)\<close>

theorem ready_means_nominated:
  assumes "agent_find_component a sid cid = Some (s, c)"
  shows "\<exists>b t d. priv_update_check_list_state_for_ready sid cid a = Some b \<and>
    agent_find_component b sid cid = Some (t, d) \<and>
    (if (\<exists>p \<in> set (strm_checks s). nominated_for cid p) \<and>
        \<not> (\<exists>q \<in> set (strm_checks s). pair_component q = cid \<and> pair_state q = NICE_CHECK_IN_PROGRESS \<and>
          (\<forall>p \<in> set (strm_checks s). nominated_for cid p \<longrightarrow> pair_priority p \<le> pair_priority q))
     then comp_state d = NICE_COMPONENT_STATE_READY \<and> (\<exists>p \<in> set (strm_checks t). nominated_for cid p) \<and>
       list_all (\<lambda>p. pair_component p = cid \<longrightarrow>
         pair_state p \<notin> {NICE_CHECK_FROZEN, NICE_CHECK_WAITING, NICE_CHECK_IN_PROGRESS}) (strm_checks t)
     else comp_state d = comp_state c)"
proof -
  have "still_checking cid (strm_checks s) \<longleftrightarrow>
      (\<exists>q \<in> set (strm_checks s). pair_component q = cid \<and> pair_state q = NICE_CHECK_IN_PROGRESS \<and>
        (\<forall>p \<in> set (strm_checks s). nominated_for cid p \<longrightarrow> pair_priority p \<le> pair_priority q))"
    unfolding still_checking_def by blast
  from ready_exactly [OF assms, unfolded settled_def list_ex_iff this] show ?thesis
    by (simp only: insert_iff empty_iff de_Morgan_disj simp_thms)
qed

theorem ready_means_nominated_witness:
  "\<exists>b t d. priv_update_check_list_state_for_ready 1 1 (ex_nominated NICE_CHECK_WAITING) = Some b \<and>
     agent_find_component b 1 1 = Some (t, d) \<and> comp_state d = NICE_COMPONENT_STATE_READY \<and>
     (\<exists>p \<in> set (strm_checks t). nominated_for 1 p)"
proof -
  obtain b t d where b: "priv_update_check_list_state_for_ready 1 1 (ex_nominated NICE_CHECK_WAITING) = Some b"
      "agent_find_component b 1 1 = Some (t, d)" "comp_state d = NICE_COMPONENT_STATE_READY"
    using ex_nominated_ready by (auto simp: map_option_case split: option.splits)
  have "\<exists>s c. agent_find_component (ex_nominated NICE_CHECK_WAITING) 1 1 = Some (s, c) \<and>
      comp_state c \<noteq> NICE_COMPONENT_STATE_READY"
    by (simp add: ex_nominated_def ex_defs agent_find_component_def agent_find_stream_def stream_find_component_by_id_def)
  then obtain s c where "agent_find_component (ex_nominated NICE_CHECK_WAITING) 1 1 = Some (s, c)"
      "comp_state c \<noteq> NICE_COMPONENT_STATE_READY" by blast
  with ready_means_nominated [of "ex_nominated NICE_CHECK_WAITING" 1 1] b show ?thesis
    by (auto split: if_splits)
qed

text \<open>Unfreezing after a check has succeeded stays in its own stream: the second step, which is meant to
  unfreeze the pairs of the other streams, walks the list of the first stream again and changes nothing.
  So the pairs with the foundation of the succeeded one start waiting, and when there are none, the
  next frozen pair of the agent does.\<close>

theorem unfreezing_in_own_stream:
  assumes "agent_ok a" and "agent_find_stream a sid = Some s"
    and "pair_stream p = sid" and "pair_state p = NICE_CHECK_SUCCEEDED"
  shows "priv_conn_check_unfreeze_related sid p a = Some
    (if list_ex (unfreezes p) (strm_checks s) then update_checks sid (unfreeze_where (unfreezes p)) a
     else snd (priv_conn_check_unfreeze_next a))"
  by (rule unfreeze_related_own [OF assms])

theorem unfreezing_in_own_stream_witness:
  "priv_conn_check_unfreeze_related 1 (ex_pair 9 NICE_CHECK_SUCCEEDED) (ex_one NICE_CHECK_FROZEN) =
     Some (update_checks 1 (unfreeze_where (unfreezes (ex_pair 9 NICE_CHECK_SUCCEEDED))) (ex_one NICE_CHECK_FROZEN))"
proof -
  have "unfreezes (ex_pair 9 NICE_CHECK_SUCCEEDED) (ex_pair 3 NICE_CHECK_FROZEN)"
    by (simp add: unfreezes_def ex_pair_def)
  then show ?thesis
    using unfreezing_in_own_stream [OF ex_one_ok(1) ex_one_found(1), of "ex_pair 9 NICE_CHECK_SUCCEEDED"]
    by (simp add: ex_pair_def ex_stream_def)
qed

text \<open>C19. The selected pair of a component only gets better: when the foundations of a pair identify its
  candidates in the component, a nominated pair replaces the selected one exactly if its priority is
  higher.\<close>

theorem selected_pair_improves:
  assumes "agent_ok a" and "agent_find_component a sid cid = Some (s, c)" and "p \<in> set (strm_checks s)"
    and "find (\<lambda>x. same_foundation (foundation x) (foundation (pair_local p))) (comp_local c) = Some (pair_local p)"
    and "find (\<lambda>x. same_foundation (foundation x) (foundation (pair_remote p))) (comp_remote c) = Some (pair_remote p)"
    and "priv_update_selected_pair env sid cid p a = Some b"
  shows "selection sid cid b = Some (if sel_priority (comp_selected c) < pair_priority p
    then (Some (pair_local p), Some (pair_remote p), pair_priority p) else selected c)"
  by (rule selected_better [OF assms])

theorem selected_pair_improves_witness:
  "\<exists>b. priv_update_selected_pair ex_env 1 1 (ex_pair 3 NICE_CHECK_SUCCEEDED) (ex_one NICE_CHECK_SUCCEEDED) = Some b \<and>
     selection 1 1 b = Some (Some (ex_candidate 3 200), Some (ex_candidate 2 100), nice_candidate_pair_priority 200 100)"
proof -
  have "priv_update_selected_pair ex_env 1 1 (ex_pair 3 NICE_CHECK_SUCCEEDED) (ex_one NICE_CHECK_SUCCEEDED) \<noteq> None"
    by code_simp
  then obtain b where
    b: "priv_update_selected_pair ex_env 1 1 (ex_pair 3 NICE_CHECK_SUCCEEDED) (ex_one NICE_CHECK_SUCCEEDED) = Some b" by auto
  have "selection 1 1 b = Some (if sel_priority (comp_selected (ex_component [ex_candidate 3 200] [ex_candidate 2 100]))
      < pair_priority (ex_pair 3 NICE_CHECK_SUCCEEDED)
    then (Some (pair_local (ex_pair 3 NICE_CHECK_SUCCEEDED)), Some (pair_remote (ex_pair 3 NICE_CHECK_SUCCEEDED)),
      pair_priority (ex_pair 3 NICE_CHECK_SUCCEEDED)) else selected (ex_component [ex_candidate 3 200] [ex_candidate 2 100]))"
    by (rule selected_pair_improves [OF ex_one_ok(1) ex_one_found(2) _ _ _ b])
      (simp_all add: ex_stream_def ex_component_def ex_pair_def same_foundation_def)
  moreover have "(0 :: u64) < nice_candidate_pair_priority 200 100" by code_simp
  ultimately show ?thesis using b by (simp add: ex_component_def ex_pair_def)
qed


text \<open>C20. A packet that does not pass validation changes nothing that the checks decide: the role, the check
  lists, and of every component the state, the candidates, the early checks and the selected pair
  are what they were, whatever answer is sent.\<close>

theorem refused_packet_harmless:
  assumes "inbound_validate env sid cid k buf a = Some ((valid, req, taken), a1)"
    and "valid \<noteq> STUN_VALIDATION_SUCCESS"
    and "conn_check_handle_inbound_stun env sid cid k from buf a = Some (ret, b)"
  shows "agent_view b = agent_view a"
  by (rule refused_view [OF assms])

theorem refused_packet_harmless_witness:
  "\<exists>ret b. conn_check_handle_inbound_stun ex_env 1 1 0 (ex_address 9) [1, 2, 3] (ex_one NICE_CHECK_WAITING) = Some (ret, b) \<and>
     agent_view b = agent_view (ex_one NICE_CHECK_WAITING)"
proof -
  have "map_option (fst \<circ> fst) (inbound_validate ex_env 1 1 0 [1, 2, 3] (ex_one NICE_CHECK_WAITING)) =
      Some STUN_VALIDATION_INCOMPLETE_STUN"
    and "conn_check_handle_inbound_stun ex_env 1 1 0 (ex_address 9) [1, 2, 3] (ex_one NICE_CHECK_WAITING) \<noteq> None"
    by code_simp+
  then obtain req taken a1 ret b where
    "inbound_validate ex_env 1 1 0 [1, 2, 3] (ex_one NICE_CHECK_WAITING) =
      Some ((STUN_VALIDATION_INCOMPLETE_STUN, req, taken), a1)"
    and b: "conn_check_handle_inbound_stun ex_env 1 1 0 (ex_address 9) [1, 2, 3] (ex_one NICE_CHECK_WAITING) = Some (ret, b)"
    by auto
  from refused_packet_harmless [OF this(1) _ b] b show ?thesis by auto
qed

text \<open>C21. A response from elsewhere establishes nothing: unless the address it comes from is the one that the
  request with its transaction id was sent to, no pair becomes valid, and nothing is signalled or sent.\<close>

theorem spoofed_response_ignored:
  assumes "agent_find_stream a sid = Some s" and "stun_message_id resp = Some i"
    and "list_all (\<lambda>p. awaits i (pair_message p) \<longrightarrow> \<not> nice_address_equal from (addr (pair_remote p))) (strm_checks s)"
    and "priv_map_reply_to_conn_check_request env sid cid k from lc rc resp a = Some (found, b)"
  shows "established sid b \<subseteq> established sid a \<and> ag_events b = ag_events a"
  by (rule response_elsewhere [OF assms])

theorem spoofed_response_ignored_witness:
  "\<exists>b. priv_map_reply_to_conn_check_request ex_env 1 1 0 (ex_address 9) None None ex_response ex_waiting = Some (True, b) \<and>
     established 1 b = {}"
proof -
  have "map_option fst (priv_map_reply_to_conn_check_request ex_env 1 1 0 (ex_address 9) None None ex_response ex_waiting) =
      Some True" by code_simp
  then obtain b where
    b: "priv_map_reply_to_conn_check_request ex_env 1 1 0 (ex_address 9) None None ex_response ex_waiting = Some (True, b)"
    by auto
  obtain s where s: "agent_find_stream ex_waiting 1 = Some s"
      "strm_checks s = [(ex_pair 3 NICE_CHECK_IN_PROGRESS)\<lparr>pair_message := Some plain_request\<rparr>]"
    by (simp add: ex_waiting_def agent_find_stream_def ex_agent_def ex_stream_def)
  have i: "stun_message_id ex_response = Some (drop 4 sample_header)" by code_simp
  have "\<not> nice_address_equal (ex_address 9) (addr (pair_remote (ex_pair 3 NICE_CHECK_IN_PROGRESS)))" by code_simp
  with spoofed_response_ignored [OF s(1) i _ b] have "established 1 b \<subseteq> established 1 ex_waiting" by (simp add: s(2))
  also have "\<dots> = {}" by (simp add: established_def s valid_refs_def valid_pair_def ex_pair_def)
  finally show ?thesis using b by auto
qed

text \<open>C22. A connectivity check gets through: what an agent sends for a pair is one packet to the remote
  candidate, and the peer's component, set up with the same credentials the other way round, accepts
  it, with the priority of a peer-reflexive candidate and with the nomination of a controlling agent.\<close>

theorem check_reaches_peer:
  assumes "good_env env" and "can_send env a sid p c k"
    and "agent_find_component a sid (pair_component p) = Some (s, c)" "pair_stream p = sid"
    and "agent_find_component b sid' cid' = Some (t, d)" "can_receive b d"
    and "mirrored s t" "speaks_same (comp_agent c) (comp_agent d)" "length (strm_local_password t) + 64 < 2 ^ 32"
  shows "\<exists>a1 pkt req b1. conn_check_send env sid (pair_ref p) a = Some a1 \<and>
    ag_events a1 = ag_events a @ [Sent k (addr (pair_remote p)) pkt] \<and>
    inbound_validate env sid' cid' k' pkt b = Some ((STUN_VALIDATION_SUCCESS, req, False), b1) \<and>
    stun_usage_ice_conncheck_priority req = Some (peer_reflexive_candidate_priority a (pair_local p)) \<and>
    stun_usage_ice_conncheck_use_candidate req = Some (ag_controlling a)"
  by (rule check_reaches_peer_core [OF assms])

theorem check_reaches_peer_witness:
  "\<exists>a1 pkt req b1. conn_check_send ex_env 1 3 (ex_one NICE_CHECK_WAITING) = Some a1 \<and>
    ag_events a1 = [Sent 0 (ex_address 2) pkt] \<and>
    inbound_validate ex_env 1 1 0 pkt ex_other = Some ((STUN_VALIDATION_SUCCESS, req, False), b1)"
proof -
  let ?c = "ex_component [ex_candidate 3 200] [ex_candidate 2 100]"
  let ?d = "ex_component [ex_candidate 2 100] [ex_candidate 3 200]"
  have "can_send ex_env (ex_one NICE_CHECK_WAITING) 1 (ex_pair 3 NICE_CHECK_WAITING) ?c 0"
    using ex_conn_agent ex_one_found(3)
    by (simp add: can_send_def ice_like_def stream_credentials_def sample_conn_agent_facts free_slot_def unused_id_def
        ex_pair_def ex_defs store_cstr_def)
  moreover have "agent_find_component ex_other 1 1 = Some (ex_stream ?d [] [67, 68] [65, 66], ?d)"
    by (simp add: agent_find_component_def agent_find_stream_def stream_find_component_by_id_def
        ex_agent_def ex_stream_def ex_component_def)
  moreover have "can_receive ex_other ?d" using ex_conn_agent
    by (simp add: can_receive_def ice_like_def stream_credentials_def ex_defs)
  moreover have "mirrored (ex_stream ?c [ex_pair 3 NICE_CHECK_WAITING] [65, 66] [67, 68]) (ex_stream ?d [] [67, 68] [65, 66])"
    by (simp add: mirrored_def ex_stream_def)
  moreover have "speaks_same (comp_agent ?c) (comp_agent ?d)" using ex_conn_agent(2) by (simp add: ex_component_def)
  ultimately show ?thesis
    using check_reaches_peer [of ex_env "ex_one NICE_CHECK_WAITING" 1 "ex_pair 3 NICE_CHECK_WAITING" ?c 0
        "ex_stream ?c [ex_pair 3 NICE_CHECK_WAITING] [65, 66] [67, 68]" ex_other 1 1 _ ?d 0]
      ex_env_ok(2) ex_one_found(2)
    by (fastforce simp: ex_pair_def ex_agent_def ex_candidate_def nice_candidate.defs ex_stream_def)
qed

text \<open>In the dialects WLM2009 and OC2007R2 the agent cannot send a keepalive check: the request needs a
  candidate identifier, the keepalive passes none, and the null pointer is read.\<close>

theorem keepalive_check_faults:
  assumes "good_env env" and "agent_find_component a sid cid = Some (s, c)" "conn_agent (comp_agent c)"
    and "ag_compat a \<in> {NICE_COMPATIBILITY_WLM2009, NICE_COMPATIBILITY_OC2007R2}"
    and "mirrored s t" "stream_credentials l" "stream_credentials r"
  shows "keepalive_check env sid cid l r a = None"
  by (rule keepalive_faults_core [OF assms])

theorem keepalive_check_faults_witness:
  "keepalive_check ex_env 1 1 (ex_candidate 3 200) (ex_candidate 2 100) (ex_agent NICE_COMPATIBILITY_WLM2009 True
     [ex_stream (ex_component [ex_candidate 3 200] [ex_candidate 2 100]) [] [65, 66] [67, 68]]) = None"
proof -
  let ?c = "ex_component [ex_candidate 3 200] [ex_candidate 2 100]"
  have f: "agent_find_component (ex_agent NICE_COMPATIBILITY_WLM2009 True [ex_stream ?c [] [65, 66] [67, 68]]) 1 1 =
      Some (ex_stream ?c [] [65, 66] [67, 68], ?c)"
    by (simp add: agent_find_component_def agent_find_stream_def stream_find_component_by_id_def
        ex_agent_def ex_stream_def ex_component_def)
  have c: "conn_agent (comp_agent ?c)" using ex_conn_agent(1) by (simp add: ex_component_def)
  have m: "mirrored (ex_stream ?c [] [65, 66] [67, 68]) (ex_stream ?c [] [67, 68] [65, 66])"
    by (simp add: mirrored_def ex_stream_def)
  have "stream_credentials (ex_candidate n x)" for n x by (simp add: stream_credentials_def ex_defs)
  from keepalive_check_faults [OF ex_env_ok(2) f c _ m this this] show ?thesis by (simp add: ex_agent_def)
qed

section \<open>Pseudo-TCP\<close>

text \<open>C23. The ring buffer of the pseudo-TCP socket refines a byte queue of its capacity: writing
  appends as much as there is room for and says how much, reading takes from the front, and
  neither can fail or reach outside the memory.\<close>

theorem fifo_refines_queue:
  assumes "wf_fifo b"
  shows "(\<exists>b'. pseudo_tcp_fifo_write b d = Some (min (length d) (pseudo_tcp_fifo_get_write_remaining b), b') \<and>
      wf_fifo b' \<and> buffer_length b' = buffer_length b \<and>
      contents b' = contents b @ take (pseudo_tcp_fifo_get_write_remaining b) d) \<and>
    (\<exists>b'. pseudo_tcp_fifo_read b n = Some (take n (contents b), b') \<and> wf_fifo b' \<and>
      buffer_length b' = buffer_length b \<and> contents b' = drop n (contents b))"
  using fifo_queue [OF assms] by (simp add: pseudo_tcp_fifo_get_write_remaining_def)

theorem fifo_refines_queue_witness:
  "let b = \<lparr>fbuf = [3, 4, 1, 2], buffer_length = 4, data_length = 3, read_position = 2\<rparr>
   in (\<exists>b'. pseudo_tcp_fifo_write b [7, 8] = Some (1, b') \<and> contents b' = [1, 2, 3, 7]) \<and>
      (\<exists>b'. pseudo_tcp_fifo_read b 2 = Some ([1, 2], b') \<and> contents b' = [3])"
proof -
  let ?b = "\<lparr>fbuf = [3, 4, 1, 2], buffer_length = 4, data_length = 3, read_position = 2\<rparr> :: fifo"
  have "wf_fifo ?b" "contents ?b = [1, 2, 3]" "pseudo_tcp_fifo_get_write_remaining ?b = 1" by code_simp+
  with fifo_refines_queue [of ?b "[7, 8]" 2] show ?thesis by (auto simp: Let_def)
qed

text \<open>C24. No segment from the network can make the reassembly fail: whatever its sequence number,
  length and flags, cutting it to the window and storing it succeeds, and the invariant of the
  receive buffer and of the list of segments stored out of order holds again. (A FIN or the bytes
  of a control message advance the sequence number without touching the buffer; for those the
  list must be empty.)\<close>

theorem any_segment_received:
  fixes s :: "'u pseudo_tcp"
  assumes "rcv_ok s" and "length (seg_data seg) < 2 ^ 16" and "orderly seg s"
  shows "\<exists>new fl' b rl nxt wnd. store_data (fit_segment seg s) fl s =
      Some (new, fl', s\<lparr>rbuf := b, rlist := rl, rcv_nxt := nxt, rcv_wnd := wnd\<rparr>) \<and>
    rcv_ok (s\<lparr>rbuf := b, rlist := rl, rcv_nxt := nxt, rcv_wnd := wnd\<rparr>) \<and>
    buffer_length b = buffer_length (rbuf s)"
proof -
  have "buffer_length (rbuf s) \<le> 2 ^ 26" using assms(1) by (simp add: rcv_ok_def)
  note F = fit_segment_props [OF assms(2) this]
  have "orderly (fit_segment seg s) s" using assms(3) F(1) by (simp add: orderly_def ignores_data_def)
  from store_ok [OF assms(1) this F(2)] show ?thesis .
qed

theorem any_segment_received_witness:
  "\<exists>r. store_data (fit_segment (tcp_sample_segment 3 [1, 2, 3, 4, 5, 6, 7, 8]) tcp_sample) sfNone tcp_sample = Some r"
proof -
  have "orderly (tcp_sample_segment 3 [1, 2, 3, 4, 5, 6, 7, 8]) tcp_sample"
    by (simp add: orderly_def tcp_sample_def)
  from any_segment_received [OF tcp_sample_rcv_ok _ this, of sfNone] show ?thesis
    by (auto simp: tcp_sample_segment_def)
qed

text \<open>C25. Reassembly makes progress: while the buffer holds a part of a stream and has room, a data
  segment of the stream that covers the next byte is new data, and the buffer holds more of the
  stream afterwards.\<close>

theorem segment_makes_progress:
  fixes s :: "'u pseudo_tcp"
  assumes "rcv_holds D start n s" and "carries D start n p seg"
    and "seg_flags seg AND FLAG_FIN = 0" and "\<not> ignores_data seg s"
    and "p \<le> n" and "n < p + length (seg_data seg)"
    and "0 < pseudo_tcp_fifo_get_write_remaining (rbuf s)"
  shows "\<exists>fl' n' s'. store_data (fit_segment seg s) fl s = Some (True, fl', s') \<and> rcv_holds D start n' s' \<and> n < n'"
  using receive_progress [OF assms(1-6)] assms(7) by (simp add: pseudo_tcp_fifo_get_write_remaining_def)

theorem segment_makes_progress_witness:
  "\<exists>fl' n' s'. store_data (fit_segment (tcp_sample_segment 0xFFFFFFFE [10, 11]) tcp_sample) sfNone tcp_sample =
      Some (True, fl', s') \<and> rcv_holds tcp_sample_stream 0xFFFFFFFE n' s' \<and> 0 < n'"
  by (rule segment_makes_progress [where p = 0, OF tcp_sample_holds tcp_sample_carries(1)])
    (simp_all add: tcp_sample_def tcp_sample_segment_def ignores_data_def
      pseudo_tcp_fifo_init_def pseudo_tcp_fifo_get_write_remaining_def)

text \<open>C26. Delivery: a socket that has read nothing yet, and to which only segments of one stream
  arrive, in any order, duplicated, overlapping and cut as they may be, hands its user a prefix of
  that stream, however the reads interleave with the arrivals.\<close>

theorem stream_delivered:
  fixes s :: "'u pseudo_tcp"
  assumes "tcp_run env s es = Some (out, s')" and "passive_env env" and "support_fin_ack s"
    and "wf_fifo (rbuf s)" and "buffer_length (rbuf s) \<le> 2 ^ 26" and "data_length (rbuf s) = 0"
    and "rlist s = []" and "length D < 2 ^ 31"
    and "\<forall>seg. Arrives seg \<in> set es \<longrightarrow> from_stream D (rcv_nxt s) seg"
  shows "out = take (length out) D"
proof -
  have "rcv_holds D (rcv_nxt s) 0 s"
    using assms(4-7) by (simp add: rcv_holds_def rcv_ok_def contents_def)
  from tcp_run_stream [OF assms(1-3) this assms(8,9)] show ?thesis by simp
qed

theorem stream_delivered_witness:
  "\<exists>out s'. tcp_run tcp_sample_env tcp_sample tcp_sample_events = Some (out, s') \<and>
     length out = 6 \<and> out = take 6 tcp_sample_stream"
proof -
  obtain out s' where r: "tcp_run tcp_sample_env tcp_sample tcp_sample_events = Some (out, s')"
    and o: "out = tcp_sample_stream" using tcp_sample_run by auto
  have "wf_fifo (rbuf tcp_sample)" "buffer_length (rbuf tcp_sample) \<le> 2 ^ 26"
    using tcp_sample_rcv_ok by (simp_all add: rcv_ok_def)
  from stream_delivered [OF r tcp_sample_passive _ this, of tcp_sample_stream] tcp_sample_from_stream
  have "out = take (length out) tcp_sample_stream"
    by (simp add: tcp_sample_def tcp_sample_stream_def pseudo_tcp_fifo_init_def)
  with r o show ?thesis by (simp add: tcp_sample_stream_def)
qed

text \<open>C27. Sending ends: from every state in which the segments of the send queue lie side by side in
  the send buffer and the segment size is positive, \<open>attempt_send\<close> returns, whatever the network answers and whatever it was called
  for; no assertion fails, the queue is well formed again, and every packet that went out carries
  bytes of the sender's stream at the place its sequence number says (an invariant \<open>I\<close> of the
  network that such packets keep is kept).\<close>

theorem sending_ends:
  fixes s :: "'u pseudo_tcp"
  assumes "snd_ok s" and "snd_una s = start + of_nat u" and "contents (sbuf s) = drop u (take m D)"
    and "u \<le> m" and "m \<le> length D"
    and "\<And>w pkt. I w \<Longrightarrow> sent_packet D start pkt \<Longrightarrow> I (snd (WritePacket env w pkt))" and "I (user_data s)"
  shows "\<exists>s'. attempt_send env s fl = Some s' \<and> snd_ok s' \<and> I (user_data s') \<and> sbuf s' = sbuf s \<and> snd_una s' = snd_una s"
proof -
  have wf: "wf_fifo (sbuf s)" using assms(1) by (auto simp: snd_ok_def snd_limits_def)
  have "sent_packet D start pkt" if "genuine (sbuf s) (snd_una s) pkt" for pkt
    unfolding sent_packet_def using that assms(2-5) wf by metis
  then have "accepts env I (sbuf s) (snd_una s)"
    unfolding accepts_def using assms(6) by blast
  from attempt_send_ok [OF assms(1) this assms(7)] show ?thesis .
qed

theorem sending_ends_witness:
  "\<exists>s'. attempt_send tcp_log_env tcp_sender sfNone = Some s' \<and>
     (\<forall>pkt \<in> set (user_data s'). sent_packet [7, 8, 9] 5 pkt)"
proof -
  let ?I = "\<lambda>w. \<forall>pkt \<in> set w. sent_packet [7, 8, 9] 5 pkt"
  have "snd_una tcp_sender = 5 + of_nat 0" "contents (sbuf tcp_sender) = drop 0 (take 3 [7, 8, 9])"
    "?I (user_data tcp_sender)" by (simp_all add: tcp_sender_def tcp_sender_buffer)
  from sending_ends [where I = ?I and env = tcp_log_env and fl = sfNone, OF tcp_sender_ok this(1,2) _ _ _ this(3)]
  show ?thesis by (auto simp: tcp_log_env_def)
qed

text \<open>C28. From one socket to the other: a packet of the sender, split at the end of its header as the
  receiver does, always parses, and if none of its flags is set the segment has no data or bytes of
  the sender's stream, as delivery asks of what arrives.\<close>

theorem sent_packet_arrives:
  assumes "sent_packet D start pkt"
  shows "\<exists>seg. parse_segment (take 24 pkt) (drop 24 pkt) = Some seg \<and>
    (seg_flags seg = 0 \<longrightarrow> from_stream D start seg)"
  by (rule sent_packet_parsed [OF assms])

theorem sent_packet_arrives_witness:
  "from_stream [7, 8, 9] 5 \<lparr>seg_conv = 7, seg_seq = 6, seg_ack = 0, seg_flags = 0, seg_wnd = 8, seg_tsval = 1,
     seg_tsecr = 2, seg_data = [8, 9]\<rparr>"
proof -
  have "genuine tcp_sender_fifo (5 + of_nat 0) (packet_header 7 6 0 0 8 1 2 @ [8, 9])"
    unfolding genuine_def
    by (intro exI conjI, rule refl) (simp_all add: tcp_sender_buffer)
  then have "sent_packet [7, 8, 9] 5 (packet_header 7 6 0 0 8 1 2 @ [8, 9])"
    unfolding sent_packet_def using tcp_sender_buffer
    by (intro exI [of _ tcp_sender_fifo] exI [of _ 0] exI [of _ 3]) simp
  from sent_packet_arrives [OF this] show ?thesis by (simp add: parse_packet_header)
qed

text \<open>C29. An acceptable acknowledgement of new data, while no FIN is out and no loss recovery is under
  way, is processed without failing an assertion and releases exactly the bytes it covers: the send
  buffer keeps the others, and the queue still describes it.\<close>

theorem ack_releases:
  fixes s :: "'u pseudo_tcp"
  assumes "snd_open s" and "LARGER (seg_ack seg) (snd_una s)" and "SMALLER_OR_EQUAL (seg_ack seg) (snd_nxt s)"
    and "dup_acks s < 3" and "cwnd s \<noteq> 0" and "unat (swnd_scale s) < 32"
    and "seg_tsecr seg = 0 \<or> 0 \<le> time_diff now (seg_tsecr seg)"
  shows "\<exists>s'. process_ack env seg now s = Some (True, False, s') \<and> snd_open s' \<and>
    snd_una s' = seg_ack seg \<and> snd_nxt s' = snd_nxt s \<and>
    contents (sbuf s') = drop (unat (seg_ack seg - snd_una s)) (contents (sbuf s))"
  using valuable_ack_ok [OF assms] assms(2,3) by (simp add: process_ack_def)

theorem ack_releases_witness:
  "\<exists>s'. process_ack tcp_log_env ((tcp_sample_segment 0 [])\<lparr>seg_ack := 7\<rparr>) 1000 tcp_in_flight = Some (True, False, s') \<and>
     contents (sbuf s') = [9]"
proof -
  have f: "snd_una tcp_in_flight = 5" "snd_nxt tcp_in_flight = 8" "dup_acks tcp_in_flight = 0" "cwnd tcp_in_flight = 360"
    "swnd_scale tcp_in_flight = 0" "contents (sbuf tcp_in_flight) = [7, 8, 9]"
    by (simp_all add: tcp_in_flight_def tcp_sender_def tcp_sender_buffer)
  have "LARGER 7 5" "SMALLER_OR_EQUAL 7 8" by code_simp+
  with ack_releases [OF tcp_in_flight_open, of "(tcp_sample_segment 0 [])\<lparr>seg_ack := 7\<rparr>" 1000 tcp_log_env] f
  show ?thesis by (auto simp: tcp_sample_segment_def)
qed

text \<open>Writing to the socket has three outcomes: outside the established state it fails with the
  error that tells whether a FIN was sent, with a full buffer it fails with would-block and asks
  to be told of room, and otherwise it accepts as many bytes as there is room for, appends exactly
  those to the send buffer and returns their number.\<close>

theorem send_outcomes:
  fixes s :: "'u pseudo_tcp"
  assumes "snd_ok s" and "length data < 2 ^ 31"
  shows "(state s \<noteq> TCP_ESTABLISHED \<and> pseudo_tcp_socket_send env s data =
       Some (- 1, s\<lparr>errno := (if pseudo_tcp_state_has_sent_fin (state s) then EPIPE else ENOTCONN)\<rparr>)) \<or>
    (state s = TCP_ESTABLISHED \<and> pseudo_tcp_fifo_get_write_remaining (sbuf s) = 0 \<and>
       pseudo_tcp_socket_send env s data = Some (- 1, s\<lparr>bWriteEnable := True, errno := EWOULDBLOCK\<rparr>)) \<or>
    (state s = TCP_ESTABLISHED \<and> 0 < pseudo_tcp_fifo_get_write_remaining (sbuf s) \<and>
       (\<exists>s'. pseudo_tcp_socket_send env s data =
           Some (int (min (length data) (pseudo_tcp_fifo_get_write_remaining (sbuf s))), s') \<and> snd_ok s' \<and>
         contents (sbuf s') = contents (sbuf s) @ take (pseudo_tcp_fifo_get_write_remaining (sbuf s)) data))"
proof (cases "state s = TCP_ESTABLISHED \<and> 0 < pseudo_tcp_fifo_get_write_remaining (sbuf s)")
  case True
  with send_ok [OF assms(1) _ assms(2)] show ?thesis by simp
next
  case False
  then show ?thesis by (auto simp: pseudo_tcp_socket_send_def)
qed

theorem send_outcomes_witness:
  "\<exists>s'. pseudo_tcp_socket_send tcp_log_env tcp_sender [1, 2, 3, 4, 5, 6] = Some (5, s') \<and>
     contents (sbuf s') = [7, 8, 9, 1, 2, 3, 4, 5]"
proof -
  have "state tcp_sender = TCP_ESTABLISHED" "sbuf tcp_sender = tcp_sender_fifo" by (simp_all add: tcp_sender_def)
  then show ?thesis
    using send_outcomes [OF tcp_sender_ok, of "[1, 2, 3, 4, 5, 6]" tcp_log_env] tcp_sender_buffer
    by (auto simp: pseudo_tcp_fifo_get_write_remaining_def)
qed

text \<open>Connecting negotiates: the options of a socket's connect message, read by its peer, leave
  the peer with the sender's window scale and with FIN-ACK support exactly when the sender has it,
  unless the sender does not scale and the peer had already scaled its own window.\<close>

theorem options_negotiated:
  fixes r :: "'u pseudo_tcp"
  assumes "support_wnd_scale s \<or> rwnd_scale r = 0"
  shows "hd (connect_options s) = CTL_CONNECT \<and> parse_options env r (tl (connect_options s)) =
    Some (r\<lparr>swnd_scale := (if support_wnd_scale s then rwnd_scale s else swnd_scale r),
      support_fin_ack := support_fin_ack s\<rparr>)"
  using connect_negotiation [OF assms] by (simp add: connect_options_def)

theorem options_negotiated_witness:
  "parse_options tcp_sample_env tcp_sample [TCP_OPT_WND_SCALE, 1, 4] =
     Some (tcp_sample\<lparr>swnd_scale := 4, support_fin_ack := False\<rparr>)"
  using options_negotiated [of "tcp_sample\<lparr>rwnd_scale := 4, support_fin_ack := False\<rparr>" tcp_sample tcp_sample_env]
  by (simp add: connect_options_def tcp_sample_def)

text \<open>Closing down always reaches the closed state: from every state the transitions it goes
  through are ones that \<open>set_state\<close> allows, also after a reset was queued and sent, and the user is
  told exactly when there is an error.\<close>

theorem closedown_closes:
  fixes s :: "'u pseudo_tcp"
  shows "closedown env s err CLOSEDOWN_REMOTE =
      (if err \<noteq> 0 then PseudoTcpClosed env err (s\<lparr>state := TCP_CLOSED\<rparr>) else Some (s\<lparr>state := TCP_CLOSED\<rparr>)) \<and>
    (snd_ok s \<longrightarrow> (\<exists>s1. contents (sbuf s1) = contents (sbuf s) \<and> closedown env s err CLOSEDOWN_LOCAL =
      (if err \<noteq> 0 then PseudoTcpClosed env err (s1\<lparr>state := TCP_CLOSED\<rparr>) else Some (s1\<lparr>state := TCP_CLOSED\<rparr>))))"
  using closedown_local [of s env err] by (simp add: closedown_def closedown_end)

theorem closedown_closes_witness:
  "\<exists>s1. contents (sbuf s1) = [7, 8, 9] \<and>
     closedown tcp_log_env tcp_sender ECONNABORTED CLOSEDOWN_LOCAL = Some (s1\<lparr>state := TCP_CLOSED\<rparr>)"
proof -
  have "contents (sbuf tcp_sender) = [7, 8, 9]" by (simp add: tcp_sender_def tcp_sender_buffer)
  with closedown_closes [of tcp_log_env tcp_sender ECONNABORTED] tcp_sender_ok show ?thesis
    by (simp add: tcp_log_env_def)
qed

text \<open>The clock and sequence arithmetic: \<open>time_diff\<close>, with its five cases, is the signed
  difference of two times on the 32-bit circle; \<open>LARGER\<close> holds exactly when the first number lies
  less than half of the circle after the second, and \<open>LARGER_OR_EQUAL\<close> is \<open>LARGER\<close> or equal
  except at the distance of \<open>2^31 - 1\<close>.\<close>

theorem circle_arithmetic:
  "time_diff later earlier = sint (later - earlier) \<and>
    (LARGER a b \<longleftrightarrow> 0 < unat (a - b) \<and> unat (a - b) < 2 ^ 31) \<and>
    (LARGER_OR_EQUAL a b \<longleftrightarrow> (a = b \<or> LARGER a b) \<and> unat (a - b) \<noteq> 2 ^ 31 - 1)"
proof -
  have "a = b \<longleftrightarrow> unat (a - b) = 0" by (simp add: unat_eq_zero)
  then show ?thesis by (auto simp: time_diff_sint LARGER_unat LARGER_OR_EQUAL_unat)
qed

section \<open>Sockets\<close>

text \<open>A TCP socket over a kernel that takes three bytes, then two, then seven, and gives six, then nothing.\<close>

definition ex_tcp :: "bytes \<Rightarrow> nat list \<Rightarrow> script_kernel tcp_sock" where
  "ex_tcp input gives = nice_tcp_bsd_socket_new_from_gsock
     \<lparr>sk_out = [], sk_calls = [], sk_takes = [3, 2, 7], sk_in = input, sk_gives = gives\<rparr> any_ipv4 True"

lemma ex_tcp_alive: "tcp_alive (ex_tcp input gives)"
  by (simp add: ex_tcp_def nice_tcp_bsd_socket_new_from_gsock_def tcp_alive_def queue_ok_def)

lemma ex_tcp_taken: "tcp_taken sk_out (ex_tcp input gives) = []"
  by (simp add: ex_tcp_def nice_tcp_bsd_socket_new_from_gsock_def tcp_taken_def)

abbreviation ex_ops :: "script_kernel tcp_sock socket_ops" where
  "ex_ops \<equiv> tcp_ops zero_malloc script_send script_recv"

text \<open>C30. Messages of a TURN client over TCP, end to end: what \<open>udp-turn-over-tcp.c\<close> writes to a TCP socket
  for a list of messages, with any number of write callbacks afterwards, is cut again, at the other end, into
  these messages, each behind its padding, in order and without a loss. The kernel takes any first part
  of what it is given, or nothing for lack of room, or fails, and the reads give any parts: the sender always
  returns, and if no send has failed, and none was cut inside a buffer where the copy of \<open>socket.c:376\<close> goes wrong
  (\<open>clean_offset\<close>; a message in one buffer has no such place), all messages are accepted, and every
  sequence of reads of what has got through gives the first of them, and all of them once nothing waits in the queue
  and every byte has been read.\<close>

theorem turn_frames_arrive:
  assumes c: "tt_compatibility p = c" "c \<noteq> NICE_TURN_SOCKET_COMPATIBILITY_MSN"
    and s: "kernel_sends malloc gsend out calls" "tcp_alive a" "tcp_taken out a = []"
    and ms: "\<forall>m \<in> set ms. mode_carries c (concat m)"
    and r: "kernel_receives grecv rest" "tcp_readable rest b"
    and reads: "\<forall>msgs \<in> set reads. \<forall>sizes \<in> set msgs. 65536 \<le> sum_list sizes"
  shows "\<exists>ret a' a''.
    turn_tcp_socket_send_messages_reliable (tcp_ops malloc gsend grecv') (p, a) to ms = Some (ret, p, a') \<and>
    tcp_writables malloc gsend hups a' = Some a'' \<and>
    (tcp_unharmed calls a'' \<longrightarrow> ret = int (length ms) \<and>
      (rest (snd b) = out (snd a'') \<longrightarrow>
        (\<exists>got p' b' later.
          turn_tcp_poll (tcp_ops malloc' gsend' grecv) (nice_udp_turn_over_tcp_socket_new b c) reads =
            Some (got, p', b') \<and>
          map (arrives_as c \<circ> concat) ms = got @ later \<and>
          (tcp_taken out a'' = out (snd a'') \<and> rest (snd b') = [] \<longrightarrow> later = []))))"
proof -
  obtain ret a' a'' where a': "turn_tcp_socket_send_messages_reliable (tcp_ops malloc gsend grecv') (p, a) to ms =
      Some (ret, p, a')" "tcp_writables malloc gsend hups a' = Some a''"
    "tcp_unharmed calls a'' \<longrightarrow> ret = int (length ms) \<and> tcp_taken out a'' = concat (map (framed c) ms)"
    using framed_socket_in_order [OF s(1,2), of grecv' p to ms hups] s(3) c(1) by auto
  obtain q where q: "tcp_taken out a'' = out (snd a'') @ q" by (simp add: tcp_taken_def)
  have "\<exists>got p' b' later.
      turn_tcp_poll (tcp_ops malloc' gsend' grecv) (nice_udp_turn_over_tcp_socket_new b c) reads =
        Some (got, p', b') \<and> map (arrives_as c \<circ> concat) ms = got @ later \<and>
      (tcp_taken out a'' = out (snd a'') \<and> rest (snd b') = [] \<longrightarrow> later = [])"
    if u: "tcp_unharmed calls a''" and b: "rest (snd b) = out (snd a'')"
  proof -
    from frames_framed [OF ms] a'(3) u
    have f: "frames c (rest (snd b) @ q) = map (arrives_as c \<circ> concat) ms" "framing_ok c (rest (snd b) @ q)"
      by (simp_all add: b flip: q)
    from frames_append obtain late where late: "frames c (rest (snd b) @ q) = frames c (rest (snd b)) @ late"
      by blast
    obtain got p' b' later where g:
      "turn_tcp_poll (tcp_ops malloc' gsend' grecv) (nice_udp_turn_over_tcp_socket_new b c) reads = Some (got, p', b')"
      "frames c (rest (snd b)) = got @ later" "rest (snd b') = [] \<longrightarrow> later = []"
      using byte_source.turn_poll_fresh [OF tcp_byte_source [OF r(1)] c(2) framing_ok_append [OF f(2)] r(2)
          reads, of malloc' gsend'] by blast
    have "map (arrives_as c \<circ> concat) ms = got @ (later @ late)" using f(1) late g(2) by simp
    moreover have "tcp_taken out a'' = out (snd a'') \<and> rest (snd b') = [] \<longrightarrow> later @ late = []"
      using g(3) late q by (cases "q = []") simp_all
    ultimately show ?thesis using g(1) by blast
  qed
  then show ?thesis using a' by (intro exI [of _ ret] exI [of _ a'] exI [of _ a'']) auto
qed

definition ex_framer :: turn_tcp_priv where
  "ex_framer = fst (nice_udp_turn_over_tcp_socket_new () NICE_TURN_SOCKET_COMPATIBILITY_GOOGLE)"

text \<open>
  Three bytes go out with the first message, whose last byte and the second message wait; the write callback
  sends them.
\<close>

lemma ex_frames_sent:
  "(case turn_tcp_socket_send_messages_reliable ex_ops (ex_framer, ex_tcp [] []) None [[[1, 2]], [[3]]] of
     Some (r, p, a') \<Rightarrow> sk_out (snd a') = [0, 2, 1] \<and>
       (case tcp_writables zero_malloc script_send [False] a' of
          Some a'' \<Rightarrow> tcp_unharmed sk_calls a'' \<and> sk_out (snd a'') = [0, 2, 1, 2, 0, 1, 3] \<and>
            tcp_taken sk_out a'' = sk_out (snd a'')
        | None \<Rightarrow> False)
   | None \<Rightarrow> False)"
  by code_simp

theorem turn_frames_arrive_witness:
  "\<exists>a' a'' got p' b' later.
    turn_tcp_socket_send_messages_reliable ex_ops (ex_framer, ex_tcp [] []) None [[[1, 2]], [[3]]] =
      Some (2, ex_framer, a') \<and> sk_out (snd a') = [0, 2, 1] \<and>
    tcp_writables zero_malloc script_send [False] a' = Some a'' \<and>
    sk_out (snd a'') = [0, 2, 1, 2, 0, 1, 3] \<and>
    turn_tcp_poll ex_ops (nice_udp_turn_over_tcp_socket_new (ex_tcp [0, 2, 1, 2, 0, 1, 3] [1, 1, 1, 1, 2, 1])
      NICE_TURN_SOCKET_COMPATIBILITY_GOOGLE) (replicate 9 [[65536]]) = Some (got, p', b') \<and>
    [[1, 2], [3]] = got @ later \<and> (sk_in (snd b') = [] \<longrightarrow> later = [])"
proof -
  let ?c = NICE_TURN_SOCKET_COMPATIBILITY_GOOGLE
  let ?b = "ex_tcp [0, 2, 1, 2, 0, 1, 3] [1, 1, 1, 1, 2, 1]"
  have c: "tt_compatibility ex_framer = ?c"
    by (simp add: ex_framer_def nice_udp_turn_over_tcp_socket_new_def)
  have r: "tcp_readable sk_in ?b" and b: "sk_in (snd ?b) = [0, 2, 1, 2, 0, 1, 3]"
    by (simp_all add: ex_tcp_def nice_tcp_bsd_socket_new_from_gsock_def tcp_readable_def)
  have c2: "?c \<noteq> NICE_TURN_SOCKET_COMPATIBILITY_MSN"
    and rd: "\<forall>msgs \<in> set (replicate 9 [[65536 :: nat]]). \<forall>sizes \<in> set msgs. 65536 \<le> sum_list sizes"
    by simp_all
  have ms: "\<forall>m \<in> set [[[1, 2]], [[3 :: u8]]]. mode_carries ?c (concat m)" by (simp add: mode_carries_def)
  have m: "map (arrives_as ?c \<circ> concat) [[[1, 2]], [[3]]] = [[1, 2], [3 :: u8]]"
    by (simp add: arrives_as_def turn_tcp_padlen_def pads_def)
  obtain ret a' a'' where a': "turn_tcp_socket_send_messages_reliable ex_ops (ex_framer, ex_tcp [] []) None
      [[[1, 2]], [[3]]] = Some (ret, ex_framer, a')" "tcp_writables zero_malloc script_send [False] a' = Some a''"
    "tcp_unharmed sk_calls a'' \<longrightarrow> ret = int (length [[[1, 2]], [[3 :: u8]]]) \<and>
      (sk_in (snd ?b) = sk_out (snd a'') \<longrightarrow>
        (\<exists>got p' b' later.
          turn_tcp_poll ex_ops (nice_udp_turn_over_tcp_socket_new ?b ?c) (replicate 9 [[65536]]) =
            Some (got, p', b') \<and>
          map (arrives_as ?c \<circ> concat) [[[1, 2]], [[3]]] = got @ later \<and>
          (tcp_taken sk_out a'' = sk_out (snd a'') \<and> sk_in (snd b') = [] \<longrightarrow> later = [])))"
    using turn_frames_arrive [OF c c2 script_kernel_sends
        ex_tcp_alive [of "[]" "[]"] ex_tcp_taken ms script_kernel_receives r rd,
        where grecv' = script_recv and hups = "[False]" and
          to = None and malloc' = zero_malloc and gsend' = script_send] by blast
  have e: "sk_out (snd a') = [0, 2, 1] \<and> tcp_unharmed sk_calls a'' \<and>
      sk_out (snd a'') = [0, 2, 1, 2, 0, 1, 3] \<and> tcp_taken sk_out a'' = sk_out (snd a'')"
    using ex_frames_sent unfolding a'(1,2) option.case prod.case by blast
  then have "ret = 2" using a'(3) by simp
  moreover obtain got p' b' later where
    "turn_tcp_poll ex_ops (nice_udp_turn_over_tcp_socket_new ?b ?c) (replicate 9 [[65536]]) = Some (got, p', b')"
    "[[1, 2], [3]] = got @ later" "sk_in (snd b') = [] \<longrightarrow> later = []"
    using a'(3) e b unfolding m by metis
  ultimately show ?thesis using a'(1,2) e by blast
qed

text \<open>C31. A SOCKS 5 connection over TCP, under any interleaving of reads, reliable sends and write callbacks,
  whatever the proxy answers and whatever part the kernel takes of what it is given, or if it fails:
  nothing goes wrong in memory, and while the socket is usable, until the proxy has connected, all that the user has
  sent waits in the queue. As long as no send to the kernel has failed, and none was cut inside a buffer where the copy
  of \<open>socket.c:376\<close> goes wrong (\<open>clean_offset\<close>; a message in one buffer has no such place), the TCP
  stream, which is what the kernel has taken and what waits behind it in the TCP socket's queue, holds the greeting,
  what the negotiation says, and, once the proxy has connected, all that the user has sent, in order, and before that
  nothing of it. After a send that failed the code goes on without the bytes; the stream is then not described.\<close>

theorem socks5_stream_in_order:
  assumes k: "kernel_sends malloc gsend out calls" "kernel_receives grecv rest" "kernel_reads_only grecv out calls"
    and b: "tcp_alive b" and a: "socks5_request dest \<noteq> None"
  shows "\<exists>s0 usable s user.
    nice_socks5_socket_new (tcp_ops malloc gsend grecv) b dest uname pword = Some s0 \<and>
    tunnel_run (so_recv (tcp_ops malloc gsend grecv) malloc)
      (socks5_send_messages_reliable (tcp_ops malloc gsend grecv) malloc) (so_more (tcp_writable malloc gsend))
      s0 evs = Some (usable, s, user) \<and>
    (usable \<longrightarrow> (\<exists>b'. so_base_socket s = Some b' \<and>
       (\<not> so_connected s \<longrightarrow> queue_bytes (so_send_queue s) = user) \<and>
       (tcp_unharmed calls b' \<longrightarrow> (\<exists>hs. set hs \<subseteq> so_chatter s0 \<and>
          tcp_taken out b' = tcp_taken out b @ socks5_greeting uname pword @ concat hs @
            (if so_connected s then user else [])))))"
proof -
  let ?ops = "tcp_ops malloc gsend grecv"
  have m: "\<forall>n. length (malloc n) = n" using k(1) by (simp add: kernel_sends_def)
  note t = duplex_socket.socks5_tunnel [OF tcp_duplex_socket [OF k] m, of malloc]
  obtain r b0 where b0: "nice_socket_send_reliable ?ops b None (socks5_greeting uname pword) = Some (r, b0)"
      "tcp_alive b0" "grows (tcp_unharmed calls) (tcp_taken out) b b0 (socks5_greeting uname pword)"
    using reliable_socket.send_bytes [OF tcp_reliable_socket [OF k(1)] b] by blast
  let ?s0 = "\<lparr>so_state = SOCKS_STATE_INIT, so_base_socket = Some b0, so_addr = dest,
    so_username = uname, so_password = pword, so_send_queue = []\<rparr>"
  have n: "nice_socks5_socket_new ?ops b dest uname pword = Some ?s0"
    using b0(1) by (simp add: nice_socks5_socket_new_def)
  have i: "so_wf ?s0" "so_base_socket ?s0 = Some b0" "\<not> so_connected ?s0"
    using a by (simp_all add: so_wf_def so_connected_def)
  have "tunnel_state (tcp_unharmed calls) (tcp_taken out) (so_connected ?s0) (so_send_queue ?s0) (so_chatter ?s0)
      (tcp_taken out b @ socks5_greeting uname pword) b0 []"
    using i(3) b0(3) by (auto simp: tunnel_state_def grows_def intro: exI [of _ "[]"])
  from tunnel.run_in_order [OF t i(1,2) b0(2) this, of evs] n show ?thesis
    by (fastforce simp: tunnel_state_def)
qed

abbreviation ex_events :: "tunnel_event list" where
  "ex_events \<equiv> [Tunnel_send None [[[7]]], Tunnel_recv [100], Tunnel_writable False, Tunnel_recv [100],
     Tunnel_send None [[[8], [9]]]]"

abbreviation ex_proxy :: "script_kernel tcp_sock" where
  "ex_proxy \<equiv> ex_tcp [5, 0, 5, 0, 0, 1, 9, 9, 9, 9, 0, 80] [2, 4, 6]"

lemma ex_socks5_run:
  "(case nice_socks5_socket_new ex_ops ex_proxy any_ipv4 None None of
     Some s0 \<Rightarrow> (case tunnel_run (so_recv ex_ops zero_malloc) (socks5_send_messages_reliable ex_ops zero_malloc)
         (so_more (tcp_writable zero_malloc script_send)) s0 ex_events of
       Some (usable, s, user) \<Rightarrow> usable \<and> so_connected s \<and> user = [7, 8, 9] \<and>
         (case so_base_socket s of Some b' \<Rightarrow> tcp_unharmed sk_calls b' | None \<Rightarrow> False)
     | None \<Rightarrow> False)
   | None \<Rightarrow> False)"
  by code_simp

theorem socks5_stream_in_order_witness:
  "\<exists>s0 s b' hs.
    nice_socks5_socket_new ex_ops ex_proxy any_ipv4 None None = Some s0 \<and>
    tunnel_run (so_recv ex_ops zero_malloc) (socks5_send_messages_reliable ex_ops zero_malloc)
      (so_more (tcp_writable zero_malloc script_send)) s0 ex_events = Some (True, s, [7, 8, 9]) \<and>
    so_base_socket s = Some b' \<and> set hs \<subseteq> so_chatter s0 \<and>
    tcp_taken sk_out b' = socks5_greeting None None @ concat hs @ [7, 8, 9]"
proof -
  have "socks5_request any_ipv4 \<noteq> None" by (simp add: socks5_request_def any_ipv4_def)
  from socks5_stream_in_order [OF script_kernel_sends script_kernel_receives script_reads_only
      ex_tcp_alive this, where uname = None and pword = None and evs = ex_events and
        input1 = "[5, 0, 5, 0, 0, 1, 9, 9, 9, 9, 0, 80]" and gives1 = "[2, 4, 6]"]
  obtain s0 usable s user where r: "nice_socks5_socket_new ex_ops ex_proxy any_ipv4 None None = Some s0"
    "tunnel_run (so_recv ex_ops zero_malloc) (socks5_send_messages_reliable ex_ops zero_malloc)
      (so_more (tcp_writable zero_malloc script_send)) s0 ex_events = Some (usable, s, user)"
    and u: "usable \<longrightarrow> (\<exists>b'. so_base_socket s = Some b' \<and>
       (\<not> so_connected s \<longrightarrow> queue_bytes (so_send_queue s) = user) \<and>
       (tcp_unharmed sk_calls b' \<longrightarrow> (\<exists>hs. set hs \<subseteq> so_chatter s0 \<and>
          tcp_taken sk_out b' = tcp_taken sk_out ex_proxy @ socks5_greeting None None @ concat hs @
            (if so_connected s then user else []))))"
    by blast
  have "usable \<and> so_connected s \<and> user = [7, 8, 9] \<and>
      (case so_base_socket s of Some b' \<Rightarrow> tcp_unharmed sk_calls b' | None \<Rightarrow> False)"
    using ex_socks5_run unfolding r(1) option.case r(2) prod.case .
  with r u show ?thesis by (force simp only: ex_tcp_taken append_Nil if_True option.case)
qed

text \<open>C32. The same of a connection through an HTTP proxy, whose answer is parsed in a ring buffer that
  grows while it comes: whatever bytes the proxy sends, however they are cut, and whatever the kernel takes, no read or
  write leaves the buffer and no assertion fails, and until the proxy has answered all that the user has sent waits in
  the queue; as long as no send to the kernel has failed, and none was cut inside a buffer where the copy of
  \<open>socket.c:376\<close> goes wrong, the user's bytes follow the request on the TCP stream once the proxy
  has answered, all of them and in order, and none before.\<close>

theorem http_stream_in_order:
  assumes k: "kernel_sends malloc gsend out calls" "kernel_receives grecv rest" "kernel_reads_only grecv out calls"
    and b: "tcp_alive b"
  shows "\<exists>s0 usable s user.
    nice_http_socket_new (tcp_ops malloc gsend grecv) encode to_string b dest uname pword = Some s0 \<and>
    tunnel_run (ht_recv (tcp_ops malloc gsend grecv) malloc)
      (http_send_messages_reliable (tcp_ops malloc gsend grecv) malloc) (ht_more (tcp_writable malloc gsend))
      s0 evs = Some (usable, s, user) \<and>
    (usable \<longrightarrow> (\<exists>b'. ht_base_socket s = Some b' \<and>
       (\<not> ht_connected s \<longrightarrow> queue_bytes (ht_send_queue s) = user) \<and>
       (tcp_unharmed calls b' \<longrightarrow> tcp_taken out b' = tcp_taken out b @
          http_request encode (to_string dest) (nice_address_get_port dest) uname pword @
          (if ht_connected s then user else []))))"
proof -
  let ?req = "http_request encode (to_string dest) (nice_address_get_port dest) uname pword"
  let ?ops = "tcp_ops malloc gsend grecv"
  have m: "\<forall>n. length (malloc n) = n" using k(1) by (simp add: kernel_sends_def)
  note t = duplex_socket.http_tunnel [OF tcp_duplex_socket [OF k] m]
  obtain r b0 where b0: "nice_socket_send_messages_reliable ?ops b None [[?req]] = Some (r, b0)" "tcp_alive b0"
      "grows (tcp_unharmed calls) (tcp_taken out) b b0 ?req"
    using reliable_socket.send_reliable [OF tcp_reliable_socket [OF k(1), of grecv] b, where to = None and ms = "[[?req]]"]
    by (auto simp: nice_socket_send_messages_reliable_def)
  let ?s0 = "\<lparr>ht_state = HTTP_STATE_INIT, ht_base_socket = Some b0, ht_addr = dest,
    ht_username = uname, ht_password = pword, ht_send_queue = [], ht_recv_buf = [],
    ht_recv_buf_pos = 0, ht_recv_buf_fill = 0, ht_content_length = 0\<rparr>"
  have n: "nice_http_socket_new ?ops encode to_string b dest uname pword = Some ?s0"
    using b0(1) by (simp add: nice_http_socket_new_def)
  have i: "ht_wf ?s0" "ht_base_socket ?s0 = Some b0" "\<not> ht_connected ?s0"
    by (simp_all add: ht_wf_def ht_connected_def ring_ok_def)
  have "tunnel_state (tcp_unharmed calls) (tcp_taken out) (ht_connected ?s0) (ht_send_queue ?s0) {}
      (tcp_taken out b @ ?req) b0 []"
    using i(3) b0(3) by (simp add: tunnel_state_def grows_def)
  from tunnel.run_in_order [OF t i(1,2) b0(2) this, of evs] n show ?thesis
    by (fastforce simp: tunnel_state_def)
qed

abbreviation ex_http_answer :: bytes where
  "ex_http_answer \<equiv> c_string ''HTTP/1.0 200 OK'' @ crlf @ crlf"

lemma ex_http_run:
  "(case nice_http_socket_new ex_ops id (\<lambda>_. c_string ''h'') (ex_tcp ex_http_answer [4, 15]) any_ipv4 None None of
     Some s0 \<Rightarrow> (case tunnel_run (ht_recv ex_ops zero_malloc) (http_send_messages_reliable ex_ops zero_malloc)
         (ht_more (tcp_writable zero_malloc script_send)) s0 ex_events of
       Some (usable, s, user) \<Rightarrow> usable \<and> ht_connected s \<and> user = [7, 8, 9] \<and>
         (case ht_base_socket s of Some b' \<Rightarrow> tcp_unharmed sk_calls b' | None \<Rightarrow> False)
     | None \<Rightarrow> False)
   | None \<Rightarrow> False)"
  by code_simp

theorem http_stream_in_order_witness:
  "\<exists>s0 s b'.
    nice_http_socket_new ex_ops id (\<lambda>_. c_string ''h'') (ex_tcp ex_http_answer [4, 15]) any_ipv4 None None =
      Some s0 \<and>
    tunnel_run (ht_recv ex_ops zero_malloc) (http_send_messages_reliable ex_ops zero_malloc)
      (ht_more (tcp_writable zero_malloc script_send)) s0 ex_events = Some (True, s, [7, 8, 9]) \<and>
    ht_base_socket s = Some b' \<and>
    tcp_taken sk_out b' =
      http_request id (c_string ''h'') (nice_address_get_port any_ipv4) None None @ [7, 8, 9]"
  using http_stream_in_order [OF script_kernel_sends script_kernel_receives script_reads_only
      ex_tcp_alive, where encode = id and to_string = "\<lambda>_. c_string ''h''" and dest = any_ipv4 and
        uname = None and pword = None and evs = ex_events and
        input1 = ex_http_answer and gives1 = "[4, 15]"] ex_http_run
  by (auto simp: ex_tcp_taken)

text \<open>C33. Data for a peer whose permission is being asked for (RFC 5766, over UDP): every message is
  accepted and none is handed to the kernel; when the response to the CreatePermission request comes, all of them are
  handed to the kernel for the server, each once, framed for the peer's channel, in the order they were
  given, and nothing waits any more. The kernel may refuse any of them, for lack of room or with an error: what it then
  takes goes out whole, and what it refuses is lost, because \<open>socket_dequeue_all_data\<close> does not look at the result; if
  it refuses none, all of them are on the network, in order.\<close>

theorem data_waits_for_permission:
  assumes k: "kernel_datagrams gsend calls" "converts_valid native"
    and base: "udp_ready native (ut_base_socket p)" "nice_address_is_valid (ut_server_addr p)"
    and peer: "nice_address_is_valid to" "held_back p to b" "lookup_queue (ut_send_data_queues p) to = None"
    and ms: "ms \<noteq> []" "\<forall>m \<in> set ms. length (concat m) < 2 ^ 16"
    and req: "find_permission_request (ut_pending_permissions p) i 0 = Some (Some (k, m))"
      "request_peer m = Some to"
    and resp: "stun_message_id msg = Some i" "stun_message_get_class msg = Some STUN_RESPONSE"
  shows "\<exists>p1 p2 cs.
    turn_socket_send_messages env (udp_ops native gsend grecv) p to ms = Some (int (length ms), p1) \<and>
    ut_base_socket p1 = ut_base_socket p \<and>
    turn_permission_response env' (udp_ops native gsend grecv) p1 msg =
      Some (Turn_Return Turn_Control, p2) \<and>
    priv_has_permission_for_peer p2 to \<and> lookup_queue (ut_send_data_queues p2) to = None \<and>
    calls (snd (ut_base_socket p2)) = calls (snd (ut_base_socket p)) @ cs \<and>
    hands_over (udp_goes_to native) (ut_server_addr p) (map (on_channel (cb_channel b)) ms) cs \<and>
    ((\<forall>(a, x, r) \<in> set cs. was_sent r) \<longrightarrow> map snd (on_network (calls (snd (ut_base_socket p2)))) =
      map snd (on_network (calls (snd (ut_base_socket p)))) @ map (on_channel (cb_channel b)) ms)"
proof -
  let ?ops = "udp_ops native gsend grecv"
  let ?ds = "map (\<lambda>m. \<lparr>sd_data = on_channel (cb_channel b) m, sd_reliable = False\<rparr>) ms"
  let ?p1 = "p\<lparr>ut_send_data_queues := update_queue (ut_send_data_queues p) to ?ds\<rparr>"
  have s: "turn_socket_send_messages env ?ops p to ms = Some (int (length ms), ?p1)"
    by (rule held_back_start [OF peer(2,1) ms(2) peer(3) ms(1)])
  have d: "\<forall>d \<in> set ?ds. sd_data d \<noteq> [] \<and> \<not> sd_reliable d"
    by (auto simp: on_channel_def be16_bytes_def)
  obtain p2 cs where g: "permission_granted ?ops ?p1 to True k = Some p2"
    "priv_has_permission_for_peer p2 to"
    "ut_send_data_queues p2 = remove_queue (ut_send_data_queues ?p1) to"
    "calls (snd (ut_base_socket p2)) = calls (snd (ut_base_socket p)) @ cs"
    "hands_over (udp_goes_to native) (ut_server_addr p) (map sd_data ?ds) cs"
    using open_socket.granted_in_order [OF udp_open_socket [OF k, where grecv = grecv], where p = ?p1 and to = to and
        ds = ?ds and success = True and k = k]
      base peer(1) d by (auto simp: lookup_update_queue)
  have h: "hands_over (udp_goes_to native) (ut_server_addr p) (map (on_channel (cb_channel b)) ms) cs"
    using g(5) by (simp add: comp_def)
  have "turn_permission_response env' ?ops ?p1 msg = Some (Turn_Return Turn_Control, p2)"
    using g(1) req resp by (simp add: turn_permission_response_def)
  moreover have "map snd (on_network cs) = map (on_channel (cb_channel b)) ms"
    if "\<forall>(a, x, r) \<in> set cs. was_sent r"
    using all_on_network [OF that] h by (simp add: hands_over_def)
  ultimately show ?thesis using s g(2,3,4) h
    by (intro exI [of _ ?p1] exI [of _ p2] exI [of _ cs])
      (simp add: remove_updated_queue [OF peer(1,3)] peer(3))
qed

definition ex_peer :: sockaddr where
  "ex_peer = AF_INET \<lparr>sin_port = 12336, sin_addr = 619795986\<rparr>"

definition ex_server :: sockaddr where
  "ex_server = AF_INET \<lparr>sin_port = 3, sin_addr = 4\<rparr>"

text \<open>A CreatePermission request for that peer, and the response to it.\<close>

definition ex_permission_request :: stun_message where
  "ex_permission_request = plain_request\<lparr>buffer := [0x00, 0x08, 0x00, 0x0c, 0x21, 0x12, 0xa4, 0x42] @
     replicate 12 1 @ [0x00, 0x12, 0x00, 0x08, 0x00, 0x01, 0x11, 0x22, 0x33, 0x44, 0x55, 0x66], buffer_len := 32\<rparr>"

definition ex_permission_response :: stun_message where
  "ex_permission_response = plain_request\<lparr>buffer := [0x01, 0x08, 0x00, 0x00, 0x21, 0x12, 0xa4, 0x42] @
     replicate 12 1, buffer_len := 20\<rparr>"

definition ex_turn_env :: turn_env where
  "ex_turn_env = \<lparr>te_stun = sample_env, te_transid = (\<lambda>n. replicate 16 (of_nat n)),
     te_now = \<lparr>tv_sec = 0, tv_usec = 0\<rparr>, te_message = plain_request, te_buffer = zero_malloc,
     te_malloc = zero_malloc\<rparr>"

type_synonym log_sock = "datagram_call list udp_sock"

abbreviation log_ops :: "log_sock socket_ops" where
  "log_ops \<equiv> udp_ops Some log_send log_recv"

definition ex_pending :: turn_message where
  "ex_pending = \<lparr>tm_message = ex_permission_request,
     tm_timer = stun_timer_start \<lparr>tv_sec = 0, tv_usec = 0\<rparr> 600 3\<rparr>"

definition ex_turn :: "log_sock udp_turn_priv" where
  "ex_turn = (nice_udp_turn_socket_new id plain_agent
       (Some \<lparr>ub_niceaddr = AF_OTHER 0, ub_gaddr = None\<rparr>, []) True ex_server [] []
       NICE_TURN_SOCKET_COMPATIBILITY_RFC5766)
     \<lparr>ut_channels := [new_binding 0x4000 ex_peer], ut_sent_permissions := [ex_peer],
      ut_pending_permissions := [ex_pending]\<rparr>"

lemma ex_turn_fields:
  "ut_channels ex_turn = [new_binding 0x4000 ex_peer]" "turn_std (ut_compatibility ex_turn)"
  "\<not> nice_socket_is_reliable log_ops (ut_base_socket ex_turn)" "ut_server_addr ex_turn = ex_server"
  by (simp_all add: ex_turn_def nice_udp_turn_socket_new_def turn_std_def nice_socket_is_reliable_def
      udp_ops_def)

lemma ex_permission_messages:
  "stun_message_id ex_permission_request = Some ([0x21, 0x12, 0xa4, 0x42] @ replicate 12 1)"
  "stun_message_find_xor_addr ex_permission_request STUN_ATTRIBUTE_XOR_PEER_ADDRESS sizeof_sockaddr_storage =
     Some (STUN_MESSAGE_RETURN_SUCCESS, Some ex_peer, sizeof_sockaddr_in)"
  "stun_message_id ex_permission_response = Some ([0x21, 0x12, 0xa4, 0x42] @ replicate 12 1)"
  "stun_message_get_class ex_permission_response = Some STUN_RESPONSE"
  by code_simp+

lemma ex_permission_pending:
  "find_permission_request (ut_pending_permissions ex_turn) ([0x21, 0x12, 0xa4, 0x42] @ replicate 12 1) 0 =
     Some (Some (0, ex_pending))"
  "request_peer ex_pending = Some ex_peer"
  using ex_permission_messages(1,2) by (simp_all add: ex_turn_def ex_pending_def request_peer_def)

text \<open>The network has room for the first of the two and not for the second.\<close>

theorem data_waits_for_permission_witness:
  "\<exists>p1 p2 cs.
    turn_socket_send_messages ex_turn_env log_ops ex_turn ex_peer [[[1, 2]], [[3], [4]]] = Some (2, p1) \<and>
    snd (ut_base_socket p1) = [] \<and>
    turn_permission_response ex_turn_env log_ops p1 ex_permission_response =
      Some (Turn_Return Turn_Control, p2) \<and>
    priv_has_permission_for_peer p2 ex_peer \<and> lookup_queue (ut_send_data_queues p2) ex_peer = None \<and>
    snd (ut_base_socket p2) = cs \<and>
    hands_over (udp_goes_to Some) ex_server [[0x40, 0, 0, 2, 1, 2], [0x40, 0, 0, 2, 3, 4]] cs"
proof -
  let ?b = "new_binding 0x4000 ex_peer"
  have s: "udp_ready Some (ut_base_socket ex_turn)" "nice_address_is_valid (ut_server_addr ex_turn)"
    "nice_address_is_valid ex_peer" "lookup_queue (ut_send_data_queues ex_turn) ex_peer = None"
    "snd (ut_base_socket ex_turn) = []" "ut_server_addr ex_turn = ex_server"
    by (simp_all add: ex_turn_def nice_udp_turn_socket_new_def udp_ready_def ex_server_def ex_peer_def)
  have h: "held_back ex_turn ex_peer ?b"
    by (simp add: held_back_def ex_turn_def nice_udp_turn_socket_new_def find_binding_def new_binding_def
        priv_has_permission_for_peer_def priv_has_sent_permission_for_peer_def priv_is_peer_in_list_def
        ex_peer_def)
  have m: "map (on_channel (cb_channel ?b)) [[[1, 2]], [[3], [4]]] =
      [[0x40, 0, 0, 2, 1, 2], [0x40, 0, 0, 2, 3, 4]]"
    by code_simp
  from data_waits_for_permission [OF log_datagrams converts_all s(1,2,3) h s(4) _ _ ex_permission_pending
      ex_permission_messages(3,4), where ms = "[[[1, 2]], [[3], [4]]]" and env = ex_turn_env and
      env' = ex_turn_env and grecv = log_recv]
  show ?thesis unfolding m s(6) by (auto simp: s(5))
qed

text \<open>C34. Data on a channel arrive as they were sent: what the socket frames for a channel of at least
  \<open>0x4000\<close>, received by a socket on which the channel is bound, is never taken for a STUN message,
  and gives exactly the bytes of the message with the channel's peer as its sender, whatever stale
  bytes follow it in the buffer, and nothing of the receiver changes.\<close>

theorem channel_data_delivered:
  assumes "channel_data (cb_channel b) m = Some bs" "length (concat m) < 2 ^ 16"
    and "turn_std (ut_compatibility p)" "\<not> nice_socket_is_reliable ops (ut_base_socket p)"
    and "distinct (map cb_channel (ut_channels p))" "b \<in> set (ut_channels p)" "0x4000 \<le> cb_channel b"
  shows "nice_udp_turn_socket_parse_recv env ops p recv_from (bs @ stale) (length bs) =
    Some (Turn_Payload (concat m) (cb_peer b) True, p)"
  using channel_data_recv [OF assms(3-7,1,2)] .

lemma ex_be16: "be16_bytes 0x4000 = [0x40, 0]" "be16_bytes 2 = [0, 2]"
  by code_simp+

theorem channel_data_delivered_witness:
  "nice_udp_turn_socket_parse_recv ex_turn_env log_ops ex_turn ex_server [0x40, 0, 0, 2, 1, 2, 9, 9] 6 =
    Some (Turn_Payload [1, 2] ex_peer True, ex_turn)"
proof -
  let ?b = "new_binding 0x4000 ex_peer"
  have "channel_data (cb_channel ?b) [[1], [2]] = Some [0x40, 0, 0, 2, 1, 2]"
    using ex_be16 by (simp add: channel_data_def new_binding_def output_message_get_size_eq)
  moreover note ex_turn_fields(1-3)
  ultimately have "nice_udp_turn_socket_parse_recv ex_turn_env log_ops ex_turn ex_server
      ([0x40, 0, 0, 2, 1, 2] @ [9, 9]) (length [0x40, 0, 0, 2, 1, 2 :: u8]) =
      Some (Turn_Payload [1, 2] ex_peer True, ex_turn)"
    using channel_data_delivered [where b = ?b and m = "[[1], [2]]" and p = ex_turn and ops = log_ops and
        env = ex_turn_env and recv_from = ex_server and stale = "[9, 9]"]
    by (simp add: new_binding_def)
  then show ?thesis by (simp add: numeral_eq_Suc)
qed

text \<open>C35. A packet that does not come from the TURN server leaves the socket as it is, the permissions,
  bindings and pending requests included, and nothing is sent; it is handed up either as it came,
  with the sender it came from, or as data on a channel, with the peer of one of the bindings. No more
  than the bytes received are handed up.\<close>

theorem stranger_changes_nothing:
  assumes "\<not> nice_address_equal (ut_server_addr p) recv_from"
    and "nice_udp_turn_socket_parse_recv env ops p recv_from buf len = Some (r, q)"
  shows "q = p \<and>
    ((\<exists>b \<in> set (ut_channels p). \<exists>d. r = Turn_Payload d (cb_peer b) True \<and> length d \<le> len) \<or>
     r = Turn_Payload (if nice_socket_is_reliable ops (ut_base_socket p) then take (len - 2) (drop 2 buf)
       else take len buf) recv_from False)"
  using stranger_recv [OF assms] turn_recv_plain_cases by (fastforce split: if_splits)

theorem stranger_changes_nothing_witness:
  "nice_udp_turn_socket_parse_recv ex_turn_env log_ops ex_turn ex_peer [1, 2, 3] 2 =
     Some (Turn_Payload [1, 2] ex_peer False, ex_turn)"
proof -
  have s: "\<not> nice_address_equal (ut_server_addr ex_turn) ex_peer"
    by (simp add: ex_turn_fields ex_server_def ex_peer_def)
  have "be16 1 2 \<noteq> 0x4000" by code_simp
  then have r: "turn_recv_plain ex_turn ex_peer [1, 2, 3] 2 0 2 = Some (Turn_Payload [1, 2] ex_peer False)"
    using ex_turn_fields(2) by (auto simp: turn_recv_plain_def ex_turn_fields(1) new_binding_def rdn_def)
  have "nice_udp_turn_socket_parse_recv ex_turn_env log_ops ex_turn ex_peer [1, 2, 3] 2 =
      Some (Turn_Payload [1, 2] ex_peer False, ex_turn)"
    using s r ex_turn_fields(3) by (simp add: nice_udp_turn_socket_parse_recv_def)
  from stranger_changes_nothing [OF s this] this show ?thesis by simp
qed

text \<open>C36. Whoever a message comes from, whatever it says, parsing it never hands up more bytes than were
  received: the assertion of \<open>nice_udp_turn_socket_parse_recv_message\<close> on the length cannot fail, so
  for a message of one buffer that function returns whenever the parser does.\<close>

theorem parsed_within_message:
  assumes "nice_udp_turn_socket_parse_recv env ops p recv_from (udp_turn_parse_in_place env sizes bs)
      (length bs) = Some (r, q)"
  shows "length (turn_parsed_data r) \<le> length bs \<and>
    (length sizes = 1 \<longrightarrow> nice_udp_turn_socket_parse_recv_message env ops p sizes bs recv_from =
       Some (if turn_parsed_data r = [] then 0 else 1, r, q))"
  using parsed_fits [OF assms] assms
  by (cases r) (auto simp: nice_udp_turn_socket_parse_recv_message_def turn_parsed_data_def)

theorem parsed_within_message_witness:
  "nice_udp_turn_socket_parse_recv_message ex_turn_env log_ops ex_turn [8] [0x40, 0, 0, 2, 1, 2] ex_server =
     Some (1, Turn_Payload [1, 2] ex_peer True, ex_turn)"
proof -
  have "udp_turn_parse_in_place ex_turn_env [8] [0x40, 0, 0, 2, 1, 2] = [0x40, 0, 0, 2, 1, 2, 0, 0]"
    by (simp add: udp_turn_parse_in_place_def ex_turn_env_def zero_malloc_def numeral_eq_Suc)
  moreover have "channel_data (cb_channel (new_binding 0x4000 ex_peer)) [[1, 2]] = Some [0x40, 0, 0, 2, 1, 2]"
    using ex_be16 by (simp add: channel_data_def new_binding_def output_message_get_size_eq)
  then have "nice_udp_turn_socket_parse_recv ex_turn_env log_ops ex_turn ex_server
      ([0x40, 0, 0, 2, 1, 2] @ [0, 0]) (length [0x40, 0, 0, 2, 1, 2 :: u8]) =
      Some (Turn_Payload [1, 2] ex_peer True, ex_turn)"
    using ex_turn_fields channel_data_recv [of ex_turn log_ops "new_binding 0x4000 ex_peer" "[[1, 2]]" _
        ex_turn_env ex_server "[0, 0]"]
    by (simp add: new_binding_def)
  ultimately show ?thesis
    using parsed_within_message [of ex_turn_env log_ops ex_turn ex_server "[8]" "[0x40, 0, 0, 2, 1, 2]"]
    by (simp add: turn_parsed_data_def)
qed

text \<open>C37. With fewer than \<open>0x8000\<close> bindings the search for a channel number ends, with a number from \<open>0x4000\<close> on that is at most the number of
  bindings above it, and the number is not in use if the first binding has the smallest one; otherwise
  it may be in use, as after the binding of \<open>0x4000\<close> has expired and been made again.\<close>

theorem channel_number_bounds:
  "(length channels < 0x8000 \<longrightarrow> (\<exists>c. channel_loop channels channels 0x4000 = Some c \<and>
      0x4000 \<le> unat c \<and> unat c \<le> 0x4000 + length channels \<and>
      ((\<forall>b \<in> set channels. cb_channel (hd channels) \<le> cb_channel b) \<longrightarrow>
        c \<notin> cb_channel ` set channels))) \<and>
   channel_loop (map (\<lambda>c. new_binding c a) [0x4001, 0x4002, 0x4000])
     (map (\<lambda>c. new_binding c a) [0x4001, 0x4002, 0x4000]) 0x4000 = Some 0x4001"
proof
  show "channel_loop (map (\<lambda>c. new_binding c a) [0x4001, 0x4002, 0x4000])
     (map (\<lambda>c. new_binding c a) [0x4001, 0x4002, 0x4000]) 0x4000 = Some 0x4001"
    by (simp add: channel_loop.simps new_binding_def)
qed (use channel_number_found in blast)

theorem channel_number_bounds_witness:
  "\<exists>c. channel_loop [new_binding 0x4000 ex_peer] [new_binding 0x4000 ex_peer] 0x4000 = Some c \<and>
    0x4000 \<le> unat c \<and> unat c \<le> 0x4001 \<and> c \<noteq> 0x4000"
  using channel_number_bounds [of "[new_binding 0x4000 ex_peer]"] by (simp add: new_binding_def)


section \<open>Transactions\<close>



text \<open>C39. Validating a message refines removing from that multiset. The agent changes exactly when a
  response or an error response is accepted, and then, of all that the table holds, only the flag of
  the first saved transaction with the id and method of the message changes, from valid to free: the
  outstanding transactions lose that one.\<close>

theorem validate_refines:
  assumes "stun_agent_validate env a msg0 buf n v = Some (st, msg', a')"
  shows "if accepted_status st \<and>
        (stun_message_get_class (received_message a msg0 buf n) = Some STUN_RESPONSE \<or>
         stun_message_get_class (received_message a msg0 buf n) = Some STUN_ERROR)
    then \<exists>m tid i. stun_message_id (received_message a msg0 buf n) = Some tid \<and>
      stun_message_get_method (received_message a msg0 buf n) = Some m \<and>
      i < length (sent_ids a) \<and>
      saved_valid (sent_ids a ! i) \<and> saved_id (sent_ids a ! i) = tid \<and> saved_method (sent_ids a ! i) = m \<and>
      (\<forall>j<i. \<not> (saved_valid (sent_ids a ! j) \<and> saved_id (sent_ids a ! j) = tid \<and>
        saved_method (sent_ids a ! j) = m)) \<and>
      a' = a\<lparr>sent_ids := (sent_ids a)[i := (sent_ids a ! i)\<lparr>saved_valid := False\<rparr>]\<rparr> \<and>
      transaction_of (sent_ids a ! i) \<in># outstanding a \<and>
      outstanding a' = outstanding a - {#transaction_of (sent_ids a ! i)#}
    else a' = a"
  by (rule validate_releases [OF assms])

theorem validate_refines_witness:
  "\<exists>a'. stun_agent_validate sample_env waiting_agent plain_request plain_response 20 None =
      Some (STUN_VALIDATION_SUCCESS, received_message waiting_agent plain_request plain_response 20, a') \<and>
    (\<exists>t. t \<in># outstanding waiting_agent \<and> outstanding a' = outstanding waiting_agent - {#t#})"
proof -
  have "accepted_status STUN_VALIDATION_SUCCESS \<and>
      (stun_message_get_class (received_message waiting_agent plain_request plain_response 20) = Some STUN_RESPONSE \<or>
       stun_message_get_class (received_message waiting_agent plain_request plain_response 20) = Some STUN_ERROR)"
    using plain_response_class by (simp add: accepted_status_def)
  from validate_refines [OF plain_response_validated, unfolded if_P [OF this]] plain_response_validated
  show ?thesis by blast
qed

text \<open>A response is accepted once: when the ids of the saved transactions differ, a second
  copy of an accepted response is an unmatched response and changes nothing.\<close>

theorem response_accepted_once:
  assumes "stun_agent_validate env a msg0 buf n v = Some (st, msg', a')"
    and "stun_message_get_class (received_message a msg0 buf n) = Some c"
    and "c = STUN_RESPONSE \<or> c = STUN_ERROR" and "accepted_status st" and "ids_distinct a"
  shows "stun_agent_validate env a' msg0 buf n v =
    Some (STUN_VALIDATION_UNMATCHED_RESPONSE, received_message a msg0 buf n, a')"
  by (rule validate_twice [OF assms])

theorem response_accepted_once_witness:
  "\<exists>a' m'. stun_agent_validate sample_env waiting_agent plain_request plain_response 20 None =
      Some (STUN_VALIDATION_SUCCESS, m', a') \<and>
    stun_agent_validate sample_env a' plain_request plain_response 20 None =
      Some (STUN_VALIDATION_UNMATCHED_RESPONSE, m', a')"
proof -
  have "ids_distinct waiting_agent"
    by (auto simp: ids_distinct_def waiting_agent_def plain_agent_def free_slot_def less_Suc_eq nth_Cons')
  with response_accepted_once [OF plain_response_validated plain_response_class]
    plain_response_validated show ?thesis by (simp add: accepted_status_def)
qed

text \<open>In every state an agent reaches from its initialisation, by finishing messages,
  validating packets, forgetting transactions and setting its software name in any order, the
  table has its two hundred slots and at most that many transactions are outstanding; forgetting
  a transaction removes exactly one with that id, or reports that there is none.\<close>

theorem agent_invariant:
  assumes "agent_steps (stun_agent_init a0 known level flags) a" and "length (sent_ids a0) = STUN_AGENT_MAX_SAVED_IDS"
  shows "length (sent_ids a) = STUN_AGENT_MAX_SAVED_IDS \<and> size (outstanding a) \<le> STUN_AGENT_MAX_SAVED_IDS \<and>
    (case stun_agent_forget_transaction a i of (found, a') \<Rightarrow>
      if found then \<exists>m k. (i, m, k) \<in># outstanding a \<and> outstanding a' = outstanding a - {#(i, m, k)#}
      else a' = a \<and> (\<forall>m k. (i, m, k) \<notin># outstanding a))"
proof -
  have "length (sent_ids (stun_agent_init a0 known level flags)) = STUN_AGENT_MAX_SAVED_IDS"
    using assms(2) by (simp add: stun_agent_init_def)
  from reachable_agent [OF assms(1) this] show ?thesis
    using forget_transaction_outstanding [of a i] by (auto split: prod.split)
qed

theorem agent_invariant_witness:
  "size (outstanding (stun_agent_set_software sample_agent (Some [1]))) \<le> STUN_AGENT_MAX_SAVED_IDS"
proof -
  have "agent_steps (stun_agent_init blank_agent [0x0006, 0x0008, 0] STUN_COMPATIBILITY_RFC5389 5)
      (stun_agent_set_software sample_agent (Some [1]))"
    unfolding sample_agent_def by (intro more_steps [OF no_step] agent_step.software)
  from agent_invariant [OF this] show ?thesis by (simp add: blank_agent_def)
qed

text \<open>The unknown attributes an agent reports are the first ones, in message order, that are
  mandatory and not in its table; no more than the limit are collected, and an odd number of
  them always leaves room to repeat the last one.\<close>

theorem unknown_attributes:
  assumes "msg_attrs msg = Some as" and "0 \<in> set (known_attributes a)"
    and "has_flag a STUN_AGENT_USAGE_NO_ALIGNED_ATTRIBUTES = no_aligned (msg_agent msg)"
  shows "\<exists>ids. stun_agent_find_unknowns a msg STUN_AGENT_MAX_UNKNOWN_ATTRIBUTES = Some ids \<and>
    ids = take STUN_AGENT_MAX_UNKNOWN_ATTRIBUTES (map (\<lambda>(t, p, l). htons t)
      (filter (\<lambda>(t, p, l). \<not> stun_optional t \<and> \<not> knows (known_attributes a) t) as)) \<and>
    (odd (length ids) \<longrightarrow> length ids < STUN_AGENT_MAX_UNKNOWN_ATTRIBUTES)"
  using find_unknowns_eq [OF assms, of STUN_AGENT_MAX_UNKNOWN_ATTRIBUTES] unknown_ids_fit [OF _ assms] by blast

theorem unknown_attributes_witness:
  "\<exists>ids. stun_agent_find_unknowns plain_agent sample_request STUN_AGENT_MAX_UNKNOWN_ATTRIBUTES = Some ids \<and>
    ids = [htons 0x0006]"
proof -
  have "no_aligned (msg_agent sample_request) = False"
    by (simp add: no_aligned_def sample_request_def conf_of_def has_flag_def sample_agent_facts)
  moreover have "\<not> has_flag plain_agent STUN_AGENT_USAGE_NO_ALIGNED_ATTRIBUTES" "0 \<in> set (known_attributes plain_agent)"
    by (simp_all add: has_flag_def plain_agent_def)
  ultimately show ?thesis
    using unknown_attributes [OF sample_request_attrs, of plain_agent]
    by (simp add: knows_def plain_agent_def stun_optional_def)
qed

section \<open>Timers\<close>

text \<open>A timer retransmits at most as often as it was told: over any sequence of refreshes, at
  any times, the number of retransmissions it asks for never exceeds its maximum, and its deadline is
  the start plus the sum of the doubling delays.\<close>

theorem timer_bounded:
  assumes "refresh_all nows (stun_timer_start now0 d m) = (rs, t')" and "unat d * 2 ^ unat m < 2 ^ 32"
  shows "count_list rs STUN_USAGE_TIMER_RETURN_RETRANSMIT \<le> unat m \<and>
    usecs (deadline t') =
      usecs now0 + int (unat d * (2 ^ (count_list rs STUN_USAGE_TIMER_RETURN_RETRANSMIT + 1) - 1)) * 1000"
proof -
  have "retransmissions (stun_timer_start now0 d m) = 0" "max_retransmissions (stun_timer_start now0 d m) = m"
    by (simp_all add: stun_timer_start_def)
  with refresh_all_bounded [OF assms(1)] refresh_deadline [OF assms] show ?thesis
    by (auto simp: word_le_nat_alt)
qed

theorem timer_bounded_witness:
  "\<exists>rs t'. refresh_all [\<lparr>tv_sec = 100, tv_usec = 0\<rparr>, \<lparr>tv_sec = 200, tv_usec = 0\<rparr>, \<lparr>tv_sec = 300, tv_usec = 0\<rparr>]
      (stun_timer_start \<lparr>tv_sec = 0, tv_usec = 0\<rparr> 600 2) = (rs, t') \<and>
    count_list rs STUN_USAGE_TIMER_RETURN_RETRANSMIT \<le> 2"
proof -
  obtain rs t' where x: "refresh_all [\<lparr>tv_sec = 100, tv_usec = 0\<rparr>, \<lparr>tv_sec = 200, tv_usec = 0\<rparr>,
      \<lparr>tv_sec = 300, tv_usec = 0\<rparr>] (stun_timer_start \<lparr>tv_sec = 0, tv_usec = 0\<rparr> 600 2) = (rs, t')"
    by (rule prod.exhaust)
  have "count_list rs STUN_USAGE_TIMER_RETURN_RETRANSMIT \<le> unat (2 :: u32)"
    using timer_bounded [OF x] by simp
  with x show ?thesis by (intro exI conjI) simp_all
qed

section \<open>Candidates and addresses\<close>

text \<open>A candidate's priority is a positive 31-bit number, as RFC 5245 requires, for every component
  id it allows, and compares by type preference, then local preference, then component.\<close>

theorem candidate_priority_order:
  assumes "in_component_range c" and "in_component_range d"
  shows "1 \<le> unat (nice_candidate_ice_priority c r n) \<and> unat (nice_candidate_ice_priority c r n) < 2 ^ 31 \<and>
    (nice_candidate_ice_priority c r n < nice_candidate_ice_priority d r n \<longleftrightarrow>
      nice_candidate_ice_type_preference c r n < nice_candidate_ice_type_preference d r n \<or>
      nice_candidate_ice_type_preference c r n = nice_candidate_ice_type_preference d r n \<and>
        (nice_candidate_ice_local_preference c < nice_candidate_ice_local_preference d \<or>
         nice_candidate_ice_local_preference c = nice_candidate_ice_local_preference d \<and>
           component_id d < component_id c))"
  using ice_priority_range [OF assms(1)] ice_priority_less_iff [OF assms] by (simp add: Let_def)

theorem candidate_priority_order_witness:
  "nice_candidate_ice_priority (nice_candidate_new NICE_CANDIDATE_TYPE_RELAYED\<lparr>component_id := 1\<rparr>) False False <
   nice_candidate_ice_priority (nice_candidate_new NICE_CANDIDATE_TYPE_HOST\<lparr>component_id := 2\<rparr>) False False"
proof -
  let ?c = "nice_candidate_new NICE_CANDIDATE_TYPE_RELAYED\<lparr>component_id := 1\<rparr>"
  let ?d = "nice_candidate_new NICE_CANDIDATE_TYPE_HOST\<lparr>component_id := 2\<rparr>"
  have "in_component_range ?c" "in_component_range ?d" by (simp_all add: in_component_range_def)
  moreover have "nice_candidate_ice_type_preference ?c False False < nice_candidate_ice_type_preference ?d False False"
    by (simp add: nice_candidate_ice_type_preference_def nice_candidate_new_def)
  ultimately show ?thesis using candidate_priority_order [of ?c ?d False False] by blast
qed

text \<open>C40. Both agents of a connection give a pair the same priority, from the priorities of its two
  candidates and their opposite roles, and it is the number of RFC 5245, section 5.7.2, with the
  controlling side's candidate first, when both priorities are below \<open>2^31\<close>. When one of them is not,
  the 32-bit product in the code loses its top bit, and the number is always \<open>2^32\<close> too small.\<close>

theorem pair_priority_rfc5245:
  assumes "ag_controlling a" and "\<not> ag_controlling b"
    and "priority r' = priority r" and "priority l' = priority l"
  shows "agent_candidate_pair_priority b r' l' = agent_candidate_pair_priority a l r \<and>
    (let G = unat (priority l); D = unat (priority r);
         rfc = 2 ^ 32 * min G D + 2 * max G D + (if G > D then 1 else 0)
     in if G < 2 ^ 31 \<and> D < 2 ^ 31 then unat (agent_candidate_pair_priority a l r) = rfc
        else unat (agent_candidate_pair_priority a l r) + 2 ^ 32 = rfc)"
  using assms pair_priority_value [of "priority l" "priority r"] pair_priority_wrapped [of "priority l" "priority r"]
  by (simp add: agent_candidate_pair_priority_def rfc_pair_priority_def Let_def)

theorem pair_priority_rfc5245_witness:
  "unat (agent_candidate_pair_priority (ex_one NICE_CHECK_WAITING) (ex_candidate 3 200) (ex_candidate 4 400)) =
     2 ^ 32 * 200 + 2 * 400 \<and>
   agent_candidate_pair_priority ex_other (ex_candidate 4 400) (ex_candidate 3 200) =
     agent_candidate_pair_priority (ex_one NICE_CHECK_WAITING) (ex_candidate 3 200) (ex_candidate 4 400)"
proof -
  have o: "ag_controlling (ex_one NICE_CHECK_WAITING)" "\<not> ag_controlling ex_other"
    by (simp_all add: ex_defs)
  have q: "priority (ex_candidate 3 200) = 200" "priority (ex_candidate 4 400) = 400" by code_simp+
  note p = pair_priority_rfc5245 [OF o refl refl, of "ex_candidate 4 400" "ex_candidate 3 200"]
  have "unat (agent_candidate_pair_priority (ex_one NICE_CHECK_WAITING) (ex_candidate 3 200) (ex_candidate 4 400)) =
      2 ^ 32 * 200 + 2 * 400"
    using conjunct2 [OF p] by (simp add: Let_def q)
  then show ?thesis using conjunct1 [OF p] by (rule conjI)
qed

text \<open>Address equality is symmetric and transitive, and reflexive exactly on the addresses that
  are valid; it is equality of host parts and of ports, and setting a port changes the port and
  nothing else.\<close>

theorem address_equality:
  "(nice_address_equal a a \<longleftrightarrow> nice_address_is_valid a) \<and>
   (nice_address_equal a b \<longleftrightarrow> nice_address_equal b a) \<and>
   (nice_address_equal a b \<and> nice_address_equal b c \<longrightarrow> nice_address_equal a c) \<and>
   (nice_address_equal a b \<longleftrightarrow>
     nice_address_equal_no_port a b \<and> nice_address_get_port a = nice_address_get_port b) \<and>
   (nice_address_is_valid a \<longrightarrow>
     nice_address_get_port (nice_address_set_port a p) = p AND 0xffff \<and>
     nice_address_equal_no_port a (nice_address_set_port a p))"
  using address_equal_refl address_equal_sym address_equal_trans address_equal_iff get_set_port
    set_port_equal_no_port by blast

theorem address_equality_witness:
  "nice_address_equal (AF_INET \<lparr>sin_port = 1, sin_addr = 2\<rparr>) (AF_INET \<lparr>sin_port = 1, sin_addr = 2\<rparr>) \<and>
   nice_address_get_port (nice_address_set_port (AF_INET \<lparr>sin_port = 1, sin_addr = 2\<rparr>) 80) = 80"
  using address_equality [of "AF_INET \<lparr>sin_port = 1, sin_addr = 2\<rparr>" _ _ 80] by simp


end
